(* ===== verification/FastRG_Prelude.thy ===== *)
theory FastRG_Prelude
  imports Main "HOL-Library.Word"
begin

unbundle bit_operations_syntax

text \<open>
  Shared vocabulary of the development: machine integers of the C sources, the two-valued
  \<open>STATUS\<close> result, the cycle clock the data plane reads, byte-order conversion, and the generic
  facts about words, lists and lookups that the component theories rewrite with.

  The C sources use \<open>U8\<close>, \<open>U16\<close>, \<open>U32\<close> and \<open>U64\<close>; they are the word types below, so addition and
  subtraction wrap exactly as in the program. \<open>BOOL\<close> is HOL's \<open>bool\<close>.
\<close>

section \<open>Machine integers and results\<close>

type_synonym u8 = "8 word"
type_synonym u16 = "16 word"
type_synonym u32 = "32 word"
type_synonym u64 = "64 word"

datatype status = SUCCESS | ERROR

text \<open>
  The cycle counter. \<open>fastrg_get_cur_cycles\<close> and \<open>fastrg_get_cycles_in_sec\<close> expand to DPDK's
  \<open>rte_rdtsc\<close> and \<open>rte_get_timer_hz\<close>; an operation of the model receives the two readings as an
  argument, one reading per operation.
\<close>

record clock =
  cur_cycles :: u64
  cycles_in_sec :: u64

definition deadline_after :: "clock \<Rightarrow> u64 \<Rightarrow> u64" where
  "deadline_after clk secs = cur_cycles clk + secs * cycles_in_sec clk"

section \<open>Constants the packet paths share\<close>

abbreviation TOTAL_SOCK_PORT :: nat where "TOTAL_SOCK_PORT \<equiv> 65536"
abbreviation IPPROTO_ICMP :: u8 where "IPPROTO_ICMP \<equiv> 1"
abbreviation IPPROTO_TCP :: u8 where "IPPROTO_TCP \<equiv> 6"
abbreviation IPPROTO_UDP :: u8 where "IPPROTO_UDP \<equiv> 17"
abbreviation IPPROTO_ICMPV6 :: u8 where "IPPROTO_ICMPV6 \<equiv> 58"

section \<open>Packet memory\<close>

text \<open>
  A packet in memory: the byte at each offset from the start of the header the code holds a pointer
  to. The loads are those of a little-endian host, so a field the packet carries in network order
  still has to be converted.
\<close>

type_synonym memory = "nat \<Rightarrow> u8"

definition word16_at :: "memory \<Rightarrow> nat \<Rightarrow> u16" where
  "word16_at m a = ucast (m a) OR push_bit 8 (ucast (m (a + 1)))"

definition word32_at :: "memory \<Rightarrow> nat \<Rightarrow> u32" where
  "word32_at m a = ucast (m a) OR push_bit 8 (ucast (m (a + 1))) OR push_bit 16 (ucast (m (a + 2))) OR
     push_bit 24 (ucast (m (a + 3)))"

definition bytes_at :: "memory \<Rightarrow> nat \<Rightarrow> nat \<Rightarrow> u8 list" where
  "bytes_at m a n = map m [a..<a + n]"

lemma read_cong:
  "(\<And>i. a \<le> i \<Longrightarrow> i < a + 2 \<Longrightarrow> m i = m' i) \<Longrightarrow> word16_at m a = word16_at m' a"
  "(\<And>i. a \<le> i \<Longrightarrow> i < a + 4 \<Longrightarrow> m i = m' i) \<Longrightarrow> word32_at m a = word32_at m' a"
  "(\<And>i. a \<le> i \<Longrightarrow> i < a + n \<Longrightarrow> m i = m' i) \<Longrightarrow> bytes_at m a n = bytes_at m' a n"
  by (simp_all add: word16_at_def word32_at_def bytes_at_def)

section \<open>Collections\<close>

named_theorems conntrack_defs \<open>definitions unfolded to evaluate the TCP tracker\<close>
named_theorems nat_defs \<open>definitions unfolded to evaluate the SNAT table\<close>
named_theorems ppp_defs \<open>definitions unfolded to evaluate the PPP automaton\<close>
named_theorems dns_defs \<open>definitions unfolded to evaluate the DNS proxy\<close>
named_theorems dhcp_defs \<open>definitions unfolded to evaluate the DHCP server\<close>
named_theorems fw_defs \<open>definitions unfolded to evaluate the IPv6 firewall\<close>

section \<open>Byte order\<close>

text \<open>
  Host and network order on the little-endian targets FastRG runs on: the conversion swaps the
  bytes, so it is its own inverse.
\<close>

definition bswap16 :: "u16 \<Rightarrow> u16" where
  "bswap16 x = push_bit 8 x OR drop_bit 8 x"

definition bswap32 :: "u32 \<Rightarrow> u32" where
  "bswap32 x = push_bit 24 x OR push_bit 16 (take_bit 8 (drop_bit 8 x)) OR
     push_bit 8 (take_bit 8 (drop_bit 16 x)) OR drop_bit 24 x"

abbreviation "rte_be_to_cpu_16 \<equiv> bswap16"
abbreviation "rte_cpu_to_be_16 \<equiv> bswap16"
abbreviation "rte_be_to_cpu_32 \<equiv> bswap32"
abbreviation "rte_cpu_to_be_32 \<equiv> bswap32"

lemma bswap16_bswap16 [simp]: "bswap16 (bswap16 x) = x"
  by (rule bit_word_eqI) (auto simp: bswap16_def bit_simps)

lemma bit_bswap32:
  "bit (bswap32 x) n \<longleftrightarrow>
     (if n < 8 then bit x (n + 24) else if n < 16 then bit x (n + 8)
      else if n < 24 then bit x (n - 8) else n < 32 \<and> bit x (n - 24))"
proof -
  have above: "\<not> bit x m" if "32 \<le> m" for m
    using that bit_imp_le_length [of x m] by fastforce
  consider "n < 8" | "8 \<le> n \<and> n < 16" | "16 \<le> n \<and> n < 24" | "24 \<le> n \<and> n < 32" | "32 \<le> n"
    by linarith
  then show ?thesis
  proof cases
    case 1
    then show ?thesis
      by (simp add: bswap32_def bit_or_iff bit_push_bit_iff bit_drop_bit_eq add.commute)
  next
    case 2
    then show ?thesis using above [of "24 + n"]
      by (auto simp: bswap32_def bit_or_iff bit_push_bit_iff bit_drop_bit_eq bit_take_bit_iff add.commute)
  next
    case 3
    then show ?thesis using above [of "24 + n"]
      by (auto simp: bswap32_def bit_or_iff bit_push_bit_iff bit_drop_bit_eq bit_take_bit_iff)
  next
    case 4
    then show ?thesis using above [of "24 + n"]
      by (auto simp: bswap32_def bit_or_iff bit_push_bit_iff bit_drop_bit_eq bit_take_bit_iff)
  next
    case 5
    then show ?thesis using above [of "24 + n"]
      by (auto simp: bswap32_def bit_or_iff bit_push_bit_iff bit_drop_bit_eq bit_take_bit_iff)
  qed
qed

lemma bswap32_bswap32 [simp]: "bswap32 (bswap32 x) = x"
  by (rule bit_word_eqI) (auto simp: bit_bswap32)

lemma bswap16_eq_iff [simp]: "bswap16 x = bswap16 y \<longleftrightarrow> x = y"
  by (metis bswap16_bswap16)

section \<open>Words\<close>

lemma u8_lt_10_cases:
  "(x :: u8) < 10 \<longleftrightarrow>
     x = 0 \<or> x = 1 \<or> x = 2 \<or> x = 3 \<or> x = 4 \<or> x = 5 \<or> x = 6 \<or> x = 7 \<or> x = 8 \<or> x = 9"
  by (simp add: word_less_nat_alt word_unat_eq_iff) arith

section \<open>First match in a table\<close>

text \<open>
  \<open>first_index P xs\<close> is the position of the first element of \<open>xs\<close> that satisfies \<open>P\<close>: the
  result of the linear scans the table-driven automata are specified by.
\<close>

fun first_index :: "('a \<Rightarrow> bool) \<Rightarrow> 'a list \<Rightarrow> nat option" where
  "first_index P [] = None"
| "first_index P (x # xs) = (if P x then Some 0 else map_option Suc (first_index P xs))"

lemma first_index_None_iff: "first_index P xs = None \<longleftrightarrow> (\<forall>x \<in> set xs. \<not> P x)"
  by (induction xs) auto

lemma first_index_SomeD:
  "first_index P xs = Some i \<Longrightarrow> i < length xs \<and> P (xs ! i) \<and> (\<forall>j < i. \<not> P (xs ! j))"
proof (induction xs arbitrary: i)
  case Nil
  then show ?case by simp
next
  case (Cons x xs)
  then show ?case
    by (auto simp: less_Suc_eq_0_disj split: if_splits)
qed

lemma first_index_append:
  "first_index P (xs @ ys) =
     (case first_index P xs of Some i \<Rightarrow> Some i
      | None \<Rightarrow> map_option (\<lambda>j. length xs + j) (first_index P ys))"
proof (induction xs)
  case Nil
  then show ?case by (cases "first_index P ys") auto
next
  case (Cons x xs)
  then show ?case by (cases "first_index P xs"; cases "first_index P ys") auto
qed

lemma find_first_index: "find P xs = map_option (\<lambda>i. xs ! i) (first_index P xs)"
  by (induction xs) (auto simp: option.map_comp comp_def)

end
