(* ===== verification/Tcp_Conntrack.thy ===== *)
theory Tcp_Conntrack
  imports FastRG_Prelude
begin

text \<open>
  TCP connection tracking (\<^verbatim>\<open>src/src/pppd/tcp_conntrack.h\<close>, \<^verbatim>\<open>tcp_conntrack.c\<close>): the events read
  off the TCP flags, the inbound allowlist, the sequence window check and its baseline update, and
  the table-driven state machine with its row index. A tracked connection is the record the C view
  structure points at; every operation returns the updated record. The end of the theory states
  the view as an interface (locale \<open>conntrack_view\<close>) that the SNAT table and the IPv6 firewall
  interpret on their own entries.
\<close>

section \<open>Tracked connections\<close>

abbreviation TCP_CONNTRACK_NONE :: u8 where "TCP_CONNTRACK_NONE \<equiv> 0"
abbreviation TCP_CONNTRACK_SYN_SENT :: u8 where "TCP_CONNTRACK_SYN_SENT \<equiv> 1"
abbreviation TCP_CONNTRACK_SYN_RECV :: u8 where "TCP_CONNTRACK_SYN_RECV \<equiv> 2"
abbreviation TCP_CONNTRACK_ESTABLISHED :: u8 where "TCP_CONNTRACK_ESTABLISHED \<equiv> 3"
abbreviation TCP_CONNTRACK_FIN_WAIT :: u8 where "TCP_CONNTRACK_FIN_WAIT \<equiv> 4"
abbreviation TCP_CONNTRACK_CLOSE_WAIT :: u8 where "TCP_CONNTRACK_CLOSE_WAIT \<equiv> 5"
abbreviation TCP_CONNTRACK_LAST_ACK :: u8 where "TCP_CONNTRACK_LAST_ACK \<equiv> 6"
abbreviation TCP_CONNTRACK_TIME_WAIT :: u8 where "TCP_CONNTRACK_TIME_WAIT \<equiv> 7"
abbreviation TCP_CONNTRACK_CLOSE :: u8 where "TCP_CONNTRACK_CLOSE \<equiv> 8"
abbreviation TCP_CONNTRACK_MID_STREAM :: u8 where "TCP_CONNTRACK_MID_STREAM \<equiv> 9"
abbreviation TCP_CONNTRACK_INVLD :: u8 where "TCP_CONNTRACK_INVLD \<equiv> 10"

datatype tcp_conntrack_event =
  TCP_EV_SYN | TCP_EV_SYN_ACK | TCP_EV_ACK | TCP_EV_FIN_LAN | TCP_EV_FIN_WAN | TCP_EV_RST
| TCP_EV_INVLD

abbreviation TCP_TIMEOUT_SYN_SENT :: u64 where "TCP_TIMEOUT_SYN_SENT \<equiv> 30"
abbreviation TCP_TIMEOUT_SYN_RECV :: u64 where "TCP_TIMEOUT_SYN_RECV \<equiv> 30"
abbreviation TCP_TIMEOUT_ESTABLISHED :: u64 where "TCP_TIMEOUT_ESTABLISHED \<equiv> 7200"
abbreviation TCP_TIMEOUT_FIN_WAIT :: u64 where "TCP_TIMEOUT_FIN_WAIT \<equiv> 120"
abbreviation TCP_TIMEOUT_CLOSE_WAIT :: u64 where "TCP_TIMEOUT_CLOSE_WAIT \<equiv> 60"
abbreviation TCP_TIMEOUT_LAST_ACK :: u64 where "TCP_TIMEOUT_LAST_ACK \<equiv> 30"
abbreviation TCP_TIMEOUT_TIME_WAIT :: u64 where "TCP_TIMEOUT_TIME_WAIT \<equiv> 120"
abbreviation TCP_TIMEOUT_CLOSE :: u64 where "TCP_TIMEOUT_CLOSE \<equiv> 10"
abbreviation TCP_TIMEOUT_MID_STREAM :: u64 where "TCP_TIMEOUT_MID_STREAM \<equiv> 60"

abbreviation TCP_FIN_FLAG_LAN :: u8 where "TCP_FIN_FLAG_LAN \<equiv> 1"
abbreviation TCP_FIN_FLAG_WAN :: u8 where "TCP_FIN_FLAG_WAN \<equiv> 2"

text \<open>Flag bits of the TCP header, as in the TCP specification.\<close>

abbreviation RTE_TCP_FIN_FLAG :: u8 where "RTE_TCP_FIN_FLAG \<equiv> 1"
abbreviation RTE_TCP_SYN_FLAG :: u8 where "RTE_TCP_SYN_FLAG \<equiv> 2"
abbreviation RTE_TCP_RST_FLAG :: u8 where "RTE_TCP_RST_FLAG \<equiv> 4"
abbreviation RTE_TCP_ACK_FLAG :: u8 where "RTE_TCP_ACK_FLAG \<equiv> 16"

text \<open>The header fields of a TCP segment, multi-byte fields in network order.\<close>

record tcp_hdr =
  src_port :: u16
  dst_port :: u16
  sent_seq :: u32
  recv_ack :: u32
  data_off :: u8
  tcp_flags :: u8
  rx_win :: u16

record tcp_conntrack_view =
  tcp_state :: u8
  tcp_fin_flags :: u8
  expire_slot :: u64
  max_seq_end_lan :: u32
  max_seq_end_wan :: u32
  max_ack_lan :: u32
  max_ack_wan :: u32
  max_win_lan :: u16
  max_win_wan :: u16

section \<open>Deadlines\<close>

definition nat_expire_set :: "u64 \<Rightarrow> u64 \<Rightarrow> u64" where
  "nat_expire_set slot target = target"

definition nat_expire_refresh :: "clock \<Rightarrow> u64 \<Rightarrow> u64 \<Rightarrow> u64" where
  "nat_expire_refresh clk cur target = (if cur + 1 * cycles_in_sec clk < target then target else cur)"

section \<open>Events and the inbound allowlist\<close>

definition tcp_flags_to_event :: "u8 \<Rightarrow> bool \<Rightarrow> tcp_conntrack_event" where
  "tcp_flags_to_event flags is_reply =
     (if flags AND RTE_TCP_RST_FLAG \<noteq> 0 then TCP_EV_RST
      else if flags AND RTE_TCP_SYN_FLAG \<noteq> 0 \<and> flags AND RTE_TCP_ACK_FLAG \<noteq> 0 then TCP_EV_SYN_ACK
      else if flags AND RTE_TCP_SYN_FLAG \<noteq> 0 then TCP_EV_SYN
      else if flags AND RTE_TCP_FIN_FLAG \<noteq> 0 then (if is_reply then TCP_EV_FIN_WAN else TCP_EV_FIN_LAN)
      else if flags AND RTE_TCP_ACK_FLAG \<noteq> 0 then TCP_EV_ACK
      else TCP_EV_INVLD)"

definition tcp_conntrack_inbound_valid :: "u8 \<Rightarrow> u8 \<Rightarrow> bool" where
  "tcp_conntrack_inbound_valid state flags =
     (let event = tcp_flags_to_event flags True in
      if state = TCP_CONNTRACK_NONE then
        event = TCP_EV_ACK \<or> event = TCP_EV_FIN_WAN \<or> event = TCP_EV_RST
      else if state = TCP_CONNTRACK_MID_STREAM then
        event = TCP_EV_ACK \<or> event = TCP_EV_FIN_WAN \<or> event = TCP_EV_RST \<or> event = TCP_EV_SYN_ACK
      else if state = TCP_CONNTRACK_SYN_SENT then
        event = TCP_EV_SYN_ACK \<or> event = TCP_EV_RST
      else if state = TCP_CONNTRACK_SYN_RECV then
        event = TCP_EV_SYN_ACK \<or> event = TCP_EV_ACK \<or> event = TCP_EV_FIN_WAN \<or> event = TCP_EV_RST
      else if state = TCP_CONNTRACK_ESTABLISHED then
        event = TCP_EV_ACK \<or> event = TCP_EV_FIN_WAN \<or> event = TCP_EV_RST \<or> event = TCP_EV_SYN_ACK
      else if state = TCP_CONNTRACK_FIN_WAIT then
        event = TCP_EV_ACK \<or> event = TCP_EV_FIN_WAN \<or> event = TCP_EV_RST
      else if state = TCP_CONNTRACK_CLOSE_WAIT \<or> state = TCP_CONNTRACK_LAST_ACK \<or>
              state = TCP_CONNTRACK_TIME_WAIT then
        event = TCP_EV_ACK \<or> event = TCP_EV_RST
      else False)"

section \<open>Sequence window\<close>

definition tcp_conntrack_seq_valid_view :: "tcp_conntrack_view \<Rightarrow> tcp_hdr \<Rightarrow> bool \<Rightarrow> bool" where
  "tcp_conntrack_seq_valid_view v hdr is_reply =
     (let seq = rte_be_to_cpu_32 (sent_seq hdr);
          ack = rte_be_to_cpu_32 (recv_ack hdr);
          flags = tcp_flags hdr;
          peer_max_ack = (if is_reply then max_ack_lan v else max_ack_wan v);
          peer_max_seqend = (if is_reply then max_seq_end_lan v else max_seq_end_wan v);
          seq_delta = sint (seq - peer_max_ack);
          ack_delta = sint (ack - peer_max_seqend)
      in if flags AND RTE_TCP_SYN_FLAG \<noteq> 0 then True
         else if peer_max_seqend = 0 \<and> peer_max_ack = 0 then True
         else if seq_delta < - 0x00FFFFFF \<or> 0x00FFFFFF < seq_delta then False
         else if flags AND RTE_TCP_ACK_FLAG \<noteq> 0 \<and> (ack_delta < - 0x00FFFFFF \<or> 0xFFFF < ack_delta)
           then False
         else True)"

definition seq_advance :: "u32 \<Rightarrow> u32 \<Rightarrow> u32" where
  "seq_advance cur new = (if cur = 0 \<or> 0 < sint (new - cur) then new else cur)"

definition tcp_conntrack_seq_update_view ::
  "tcp_conntrack_view \<Rightarrow> tcp_hdr \<Rightarrow> u16 \<Rightarrow> bool \<Rightarrow> tcp_conntrack_view" where
  "tcp_conntrack_seq_update_view v hdr payload_len is_reply =
     (let seq = rte_be_to_cpu_32 (sent_seq hdr);
          ack = rte_be_to_cpu_32 (recv_ack hdr);
          win = rte_be_to_cpu_16 (rx_win hdr);
          seq_end = seq + ucast payload_len +
            (if tcp_flags hdr AND (RTE_TCP_SYN_FLAG OR RTE_TCP_FIN_FLAG) \<noteq> 0 then 1 else 0)
      in if is_reply
         then v\<lparr>max_seq_end_wan := seq_advance (max_seq_end_wan v) seq_end,
                max_ack_wan := seq_advance (max_ack_wan v) ack,
                max_win_wan := win\<rparr>
         else v\<lparr>max_seq_end_lan := seq_advance (max_seq_end_lan v) seq_end,
                max_ack_lan := seq_advance (max_ack_lan v) ack,
                max_win_lan := win\<rparr>)"

section \<open>Action handlers\<close>

type_synonym tcp_act = "clock \<Rightarrow> tcp_conntrack_view \<Rightarrow> bool \<Rightarrow> status \<times> tcp_conntrack_view"

definition tcp_act_timeout_syn_sent :: tcp_act where
  "tcp_act_timeout_syn_sent clk v is_reply =
     (SUCCESS, v\<lparr>expire_slot := nat_expire_set (expire_slot v) (deadline_after clk TCP_TIMEOUT_SYN_SENT)\<rparr>)"

definition tcp_act_timeout_syn_recv :: tcp_act where
  "tcp_act_timeout_syn_recv clk v is_reply =
     (SUCCESS, v\<lparr>expire_slot := nat_expire_set (expire_slot v) (deadline_after clk TCP_TIMEOUT_SYN_RECV)\<rparr>)"

definition tcp_act_timeout_established :: tcp_act where
  "tcp_act_timeout_established clk v is_reply =
     (SUCCESS, v\<lparr>expire_slot := nat_expire_set (expire_slot v) (deadline_after clk TCP_TIMEOUT_ESTABLISHED)\<rparr>)"

definition tcp_act_refresh_established :: tcp_act where
  "tcp_act_refresh_established clk v is_reply =
     (SUCCESS, v\<lparr>expire_slot :=
        nat_expire_refresh clk (expire_slot v) (deadline_after clk TCP_TIMEOUT_ESTABLISHED)\<rparr>)"

definition tcp_act_timeout_fin_wait :: tcp_act where
  "tcp_act_timeout_fin_wait clk v is_reply =
     (SUCCESS, v\<lparr>expire_slot := nat_expire_set (expire_slot v) (deadline_after clk TCP_TIMEOUT_FIN_WAIT)\<rparr>)"

definition tcp_act_timeout_close_wait :: tcp_act where
  "tcp_act_timeout_close_wait clk v is_reply =
     (SUCCESS, v\<lparr>expire_slot := nat_expire_set (expire_slot v) (deadline_after clk TCP_TIMEOUT_CLOSE_WAIT)\<rparr>)"

definition tcp_act_timeout_last_ack :: tcp_act where
  "tcp_act_timeout_last_ack clk v is_reply =
     (SUCCESS, v\<lparr>expire_slot := nat_expire_set (expire_slot v) (deadline_after clk TCP_TIMEOUT_LAST_ACK)\<rparr>)"

definition tcp_act_timeout_time_wait :: tcp_act where
  "tcp_act_timeout_time_wait clk v is_reply =
     (SUCCESS, v\<lparr>expire_slot := nat_expire_set (expire_slot v) (deadline_after clk TCP_TIMEOUT_TIME_WAIT)\<rparr>)"

definition tcp_act_timeout_close :: tcp_act where
  "tcp_act_timeout_close clk v is_reply =
     (SUCCESS, v\<lparr>expire_slot := nat_expire_set (expire_slot v) (deadline_after clk TCP_TIMEOUT_CLOSE)\<rparr>)"

definition tcp_act_timeout_mid_stream :: tcp_act where
  "tcp_act_timeout_mid_stream clk v is_reply =
     (SUCCESS, v\<lparr>expire_slot := nat_expire_set (expire_slot v) (deadline_after clk TCP_TIMEOUT_MID_STREAM)\<rparr>)"

definition tcp_act_mid_stream_ack :: tcp_act where
  "tcp_act_mid_stream_ack clk v is_reply =
     (SUCCESS,
      if is_reply
      then v\<lparr>tcp_state := TCP_CONNTRACK_ESTABLISHED,
             expire_slot := nat_expire_set (expire_slot v) (deadline_after clk TCP_TIMEOUT_ESTABLISHED)\<rparr>
      else v\<lparr>expire_slot :=
             nat_expire_refresh clk (expire_slot v) (deadline_after clk TCP_TIMEOUT_MID_STREAM)\<rparr>)"

definition tcp_act_set_fin_lan :: tcp_act where
  "tcp_act_set_fin_lan clk v is_reply =
     (SUCCESS, v\<lparr>tcp_fin_flags := tcp_fin_flags v OR TCP_FIN_FLAG_LAN\<rparr>)"

definition tcp_act_set_fin_wan :: tcp_act where
  "tcp_act_set_fin_wan clk v is_reply =
     (SUCCESS, v\<lparr>tcp_fin_flags := tcp_fin_flags v OR TCP_FIN_FLAG_WAN\<rparr>)"

definition tcp_act_reset_fin_flags :: tcp_act where
  "tcp_act_reset_fin_flags clk v is_reply = (SUCCESS, v\<lparr>tcp_fin_flags := 0\<rparr>)"

section \<open>The state table\<close>

record tcp_conntrack_state_tbl =
  row_state :: u8
  row_event :: tcp_conntrack_event
  row_next_state :: u8
  row_hdl :: "tcp_act list"

definition tcp_row ::
  "u8 \<Rightarrow> tcp_conntrack_event \<Rightarrow> u8 \<Rightarrow> tcp_act list \<Rightarrow> tcp_conntrack_state_tbl" where
  "tcp_row s e n h = \<lparr>row_state = s, row_event = e, row_next_state = n, row_hdl = h\<rparr>"

text \<open>The rows in source order; the C array ends with a sentinel row of state \<open>INVLD\<close>.\<close>

definition tcp_conntrack_tbl :: "tcp_conntrack_state_tbl list" where
  "tcp_conntrack_tbl = [
    tcp_row TCP_CONNTRACK_NONE TCP_EV_SYN TCP_CONNTRACK_SYN_SENT [tcp_act_timeout_syn_sent],
    tcp_row TCP_CONNTRACK_NONE TCP_EV_SYN_ACK TCP_CONNTRACK_SYN_RECV [tcp_act_timeout_syn_recv],
    tcp_row TCP_CONNTRACK_NONE TCP_EV_ACK TCP_CONNTRACK_MID_STREAM [tcp_act_timeout_mid_stream],
    tcp_row TCP_CONNTRACK_NONE TCP_EV_FIN_LAN TCP_CONNTRACK_FIN_WAIT [tcp_act_set_fin_lan, tcp_act_timeout_fin_wait],
    tcp_row TCP_CONNTRACK_NONE TCP_EV_FIN_WAN TCP_CONNTRACK_CLOSE_WAIT [tcp_act_set_fin_wan, tcp_act_timeout_close_wait],
    tcp_row TCP_CONNTRACK_NONE TCP_EV_RST TCP_CONNTRACK_CLOSE [tcp_act_timeout_close],

    tcp_row TCP_CONNTRACK_MID_STREAM TCP_EV_ACK TCP_CONNTRACK_MID_STREAM [tcp_act_mid_stream_ack],
    tcp_row TCP_CONNTRACK_MID_STREAM TCP_EV_SYN TCP_CONNTRACK_SYN_SENT [tcp_act_reset_fin_flags, tcp_act_timeout_syn_sent],
    tcp_row TCP_CONNTRACK_MID_STREAM TCP_EV_SYN_ACK TCP_CONNTRACK_MID_STREAM [tcp_act_timeout_mid_stream],
    tcp_row TCP_CONNTRACK_MID_STREAM TCP_EV_FIN_LAN TCP_CONNTRACK_FIN_WAIT [tcp_act_set_fin_lan, tcp_act_timeout_fin_wait],
    tcp_row TCP_CONNTRACK_MID_STREAM TCP_EV_FIN_WAN TCP_CONNTRACK_CLOSE_WAIT [tcp_act_set_fin_wan, tcp_act_timeout_close_wait],
    tcp_row TCP_CONNTRACK_MID_STREAM TCP_EV_RST TCP_CONNTRACK_CLOSE [tcp_act_timeout_close],

    tcp_row TCP_CONNTRACK_SYN_SENT TCP_EV_SYN TCP_CONNTRACK_SYN_SENT [tcp_act_timeout_syn_sent],
    tcp_row TCP_CONNTRACK_SYN_SENT TCP_EV_SYN_ACK TCP_CONNTRACK_SYN_RECV [tcp_act_timeout_syn_recv],
    tcp_row TCP_CONNTRACK_SYN_SENT TCP_EV_RST TCP_CONNTRACK_CLOSE [tcp_act_timeout_close],

    tcp_row TCP_CONNTRACK_SYN_RECV TCP_EV_ACK TCP_CONNTRACK_ESTABLISHED [tcp_act_timeout_established],
    tcp_row TCP_CONNTRACK_SYN_RECV TCP_EV_SYN_ACK TCP_CONNTRACK_SYN_RECV [tcp_act_timeout_syn_recv],
    tcp_row TCP_CONNTRACK_SYN_RECV TCP_EV_FIN_LAN TCP_CONNTRACK_FIN_WAIT [tcp_act_set_fin_lan, tcp_act_timeout_fin_wait],
    tcp_row TCP_CONNTRACK_SYN_RECV TCP_EV_FIN_WAN TCP_CONNTRACK_FIN_WAIT [tcp_act_set_fin_wan, tcp_act_timeout_fin_wait],
    tcp_row TCP_CONNTRACK_SYN_RECV TCP_EV_RST TCP_CONNTRACK_CLOSE [tcp_act_timeout_close],

    tcp_row TCP_CONNTRACK_ESTABLISHED TCP_EV_ACK TCP_CONNTRACK_ESTABLISHED [tcp_act_refresh_established],
    tcp_row TCP_CONNTRACK_ESTABLISHED TCP_EV_SYN TCP_CONNTRACK_SYN_SENT [tcp_act_reset_fin_flags, tcp_act_timeout_syn_sent],
    tcp_row TCP_CONNTRACK_ESTABLISHED TCP_EV_SYN_ACK TCP_CONNTRACK_ESTABLISHED [tcp_act_timeout_established],
    tcp_row TCP_CONNTRACK_ESTABLISHED TCP_EV_FIN_LAN TCP_CONNTRACK_FIN_WAIT [tcp_act_set_fin_lan, tcp_act_timeout_fin_wait],
    tcp_row TCP_CONNTRACK_ESTABLISHED TCP_EV_FIN_WAN TCP_CONNTRACK_CLOSE_WAIT [tcp_act_set_fin_wan, tcp_act_timeout_close_wait],
    tcp_row TCP_CONNTRACK_ESTABLISHED TCP_EV_RST TCP_CONNTRACK_CLOSE [tcp_act_timeout_close],

    tcp_row TCP_CONNTRACK_FIN_WAIT TCP_EV_FIN_WAN TCP_CONNTRACK_TIME_WAIT [tcp_act_set_fin_wan, tcp_act_timeout_time_wait],
    tcp_row TCP_CONNTRACK_FIN_WAIT TCP_EV_FIN_LAN TCP_CONNTRACK_FIN_WAIT [tcp_act_set_fin_lan, tcp_act_timeout_fin_wait],
    tcp_row TCP_CONNTRACK_FIN_WAIT TCP_EV_ACK TCP_CONNTRACK_FIN_WAIT [tcp_act_timeout_fin_wait],
    tcp_row TCP_CONNTRACK_FIN_WAIT TCP_EV_RST TCP_CONNTRACK_CLOSE [tcp_act_timeout_close],

    tcp_row TCP_CONNTRACK_CLOSE_WAIT TCP_EV_FIN_LAN TCP_CONNTRACK_LAST_ACK [tcp_act_set_fin_lan, tcp_act_timeout_last_ack],
    tcp_row TCP_CONNTRACK_CLOSE_WAIT TCP_EV_ACK TCP_CONNTRACK_CLOSE_WAIT [tcp_act_timeout_close_wait],
    tcp_row TCP_CONNTRACK_CLOSE_WAIT TCP_EV_RST TCP_CONNTRACK_CLOSE [tcp_act_timeout_close],

    tcp_row TCP_CONNTRACK_LAST_ACK TCP_EV_ACK TCP_CONNTRACK_TIME_WAIT [tcp_act_timeout_time_wait],
    tcp_row TCP_CONNTRACK_LAST_ACK TCP_EV_RST TCP_CONNTRACK_CLOSE [tcp_act_timeout_close],

    tcp_row TCP_CONNTRACK_TIME_WAIT TCP_EV_ACK TCP_CONNTRACK_TIME_WAIT [tcp_act_timeout_time_wait],
    tcp_row TCP_CONNTRACK_TIME_WAIT TCP_EV_RST TCP_CONNTRACK_CLOSE [tcp_act_timeout_close],
    tcp_row TCP_CONNTRACK_TIME_WAIT TCP_EV_SYN TCP_CONNTRACK_SYN_SENT [tcp_act_reset_fin_flags, tcp_act_timeout_syn_sent],

    tcp_row TCP_CONNTRACK_CLOSE TCP_EV_RST TCP_CONNTRACK_CLOSE [tcp_act_timeout_close],
    tcp_row TCP_CONNTRACK_CLOSE TCP_EV_SYN TCP_CONNTRACK_SYN_SENT [tcp_act_reset_fin_flags, tcp_act_timeout_syn_sent]]"

abbreviation TCP_NSTATE :: u8 where "TCP_NSTATE \<equiv> TCP_CONNTRACK_INVLD"

text \<open>
  The constructor that fills \<open>tcp_fsm_idx\<close> (\<open>-1\<close>: no transition) and \<open>tcp_state_has_rows\<close>. The
  cell type of the index is a signed byte, so the row number is converted to eight bits.
\<close>

type_synonym tcp_index = "(u8 \<Rightarrow> tcp_conntrack_event \<Rightarrow> int) \<times> (u8 \<Rightarrow> bool)"

fun tcp_index_rows :: "nat \<Rightarrow> tcp_conntrack_state_tbl list \<Rightarrow> tcp_index \<Rightarrow> tcp_index" where
  "tcp_index_rows i [] acc = acc"
| "tcp_index_rows i (r # rs) (idx, has) =
     (let s = row_state r; e = row_event r in
      if s < TCP_NSTATE \<and> e \<noteq> TCP_EV_INVLD
      then tcp_index_rows (Suc i) rs
             (if idx s e < 0 then idx(s := (idx s)(e := sint (of_nat i :: u8))) else idx,
              has(s := True))
      else tcp_index_rows (Suc i) rs (idx, has))"

definition tcp_conntrack_build_index :: tcp_index where
  "tcp_conntrack_build_index = tcp_index_rows 0 tcp_conntrack_tbl (\<lambda>_ _. - 1, \<lambda>_. False)"

definition tcp_fsm_idx :: "u8 \<Rightarrow> tcp_conntrack_event \<Rightarrow> int" where
  "tcp_fsm_idx = fst tcp_conntrack_build_index"

definition tcp_state_has_rows :: "u8 \<Rightarrow> bool" where
  "tcp_state_has_rows = snd tcp_conntrack_build_index"

fun run_tcp_hdl :: "tcp_act list \<Rightarrow> tcp_act" where
  "run_tcp_hdl [] clk v is_reply = (SUCCESS, v)"
| "run_tcp_hdl (h # hs) clk v is_reply =
     (case h clk v is_reply of
        (ERROR, v') \<Rightarrow> (ERROR, v')
      | (SUCCESS, v') \<Rightarrow> run_tcp_hdl hs clk v' is_reply)"

definition tcp_conntrack_fsm_view ::
  "clock \<Rightarrow> tcp_conntrack_view \<Rightarrow> u8 \<Rightarrow> bool \<Rightarrow> status \<times> tcp_conntrack_view" where
  "tcp_conntrack_fsm_view clk v flags is_reply =
     (let event = tcp_flags_to_event flags is_reply in
      if event = TCP_EV_INVLD then (SUCCESS, v)
      else if TCP_NSTATE \<le> tcp_state v then (ERROR, v)
      else
        let idx = tcp_fsm_idx (tcp_state v) event in
        if idx < 0 then (if tcp_state_has_rows (tcp_state v) then SUCCESS else ERROR, v)
        else
          let t = tcp_conntrack_tbl ! nat idx in
          run_tcp_hdl (take 4 (row_hdl t)) clk (v\<lparr>tcp_state := row_next_state t\<rparr>) is_reply)"

definition tcp_conntrack_state2str :: "u8 \<Rightarrow> string" where
  "tcp_conntrack_state2str state =
     (if TCP_CONNTRACK_INVLD \<le> state then ''UNKNOWN''
      else [''NONE'', ''SYN_SENT'', ''SYN_RECV'', ''ESTABLISHED'', ''FIN_WAIT'', ''CLOSE_WAIT'',
            ''LAST_ACK'', ''TIME_WAIT'', ''CLOSE'', ''MID_STREAM''] ! unat state)"

text \<open>
  The sequence of calls both packet paths make for an accepted segment: run the state machine on
  the connection seen through \<open>get\<close>, then advance the sequence baseline, and write the result
  back with \<open>put\<close>.
\<close>

definition conntrack_track ::
  "('e \<Rightarrow> tcp_conntrack_view) \<Rightarrow> (tcp_conntrack_view \<Rightarrow> 'e \<Rightarrow> 'e) \<Rightarrow>
   clock \<Rightarrow> 'e \<Rightarrow> tcp_hdr \<Rightarrow> u16 \<Rightarrow> bool \<Rightarrow> 'e" where
  "conntrack_track get put clk e hdr payload_len is_reply =
     put (tcp_conntrack_seq_update_view
            (snd (tcp_conntrack_fsm_view clk (get e) (tcp_flags hdr) is_reply)) hdr payload_len is_reply) e"

section \<open>Reference definitions\<close>

text \<open>What the row index replaces: a linear scan for the first row of the state and event.\<close>

definition tcp_row_matches :: "u8 \<Rightarrow> tcp_conntrack_event \<Rightarrow> tcp_conntrack_state_tbl \<Rightarrow> bool" where
  "tcp_row_matches s e r \<longleftrightarrow> row_state r = s \<and> row_event r = e"

definition tcp_scan :: "u8 \<Rightarrow> tcp_conntrack_event \<Rightarrow> tcp_conntrack_state_tbl option" where
  "tcp_scan s e = find (tcp_row_matches s e) tcp_conntrack_tbl"

definition tcp_conntrack_fsm_scan ::
  "clock \<Rightarrow> tcp_conntrack_view \<Rightarrow> u8 \<Rightarrow> bool \<Rightarrow> status \<times> tcp_conntrack_view" where
  "tcp_conntrack_fsm_scan clk v flags is_reply =
     (let event = tcp_flags_to_event flags is_reply in
      if event = TCP_EV_INVLD then (SUCCESS, v)
      else case tcp_scan (tcp_state v) event of
        Some t \<Rightarrow> run_tcp_hdl (row_hdl t) clk (v\<lparr>tcp_state := row_next_state t\<rparr>) is_reply
      | None \<Rightarrow>
          (if \<exists>t \<in> set tcp_conntrack_tbl. row_state t = tcp_state v then SUCCESS else ERROR, v))"

text \<open>The lifetime each state is granted, from the \<open>TCP_TIMEOUT\<close> constants.\<close>

definition tcp_state_timeout :: "u8 \<Rightarrow> u64" where
  "tcp_state_timeout s =
     (if s = TCP_CONNTRACK_SYN_SENT then TCP_TIMEOUT_SYN_SENT
      else if s = TCP_CONNTRACK_SYN_RECV then TCP_TIMEOUT_SYN_RECV
      else if s = TCP_CONNTRACK_ESTABLISHED then TCP_TIMEOUT_ESTABLISHED
      else if s = TCP_CONNTRACK_FIN_WAIT then TCP_TIMEOUT_FIN_WAIT
      else if s = TCP_CONNTRACK_CLOSE_WAIT then TCP_TIMEOUT_CLOSE_WAIT
      else if s = TCP_CONNTRACK_LAST_ACK then TCP_TIMEOUT_LAST_ACK
      else if s = TCP_CONNTRACK_TIME_WAIT then TCP_TIMEOUT_TIME_WAIT
      else if s = TCP_CONNTRACK_CLOSE then TCP_TIMEOUT_CLOSE
      else if s = TCP_CONNTRACK_MID_STREAM then TCP_TIMEOUT_MID_STREAM
      else 10)"

type_synonym tcp_packet = "clock \<times> tcp_hdr \<times> u16 \<times> bool"

fun track_packets :: "tcp_packet list \<Rightarrow> tcp_conntrack_view \<Rightarrow> tcp_conntrack_view" where
  "track_packets [] v = v"
| "track_packets ((clk, hdr, len, is_reply) # ps) v =
     track_packets ps (conntrack_track id (\<lambda>v' _. v') clk v hdr len is_reply)"

lemmas tcp_act_defs [conntrack_defs] =
  tcp_act_timeout_syn_sent_def tcp_act_timeout_syn_recv_def tcp_act_timeout_established_def
  tcp_act_refresh_established_def tcp_act_timeout_fin_wait_def tcp_act_timeout_close_wait_def
  tcp_act_timeout_last_ack_def tcp_act_timeout_time_wait_def tcp_act_timeout_close_def
  tcp_act_timeout_mid_stream_def tcp_act_mid_stream_ack_def tcp_act_set_fin_lan_def
  tcp_act_set_fin_wan_def tcp_act_reset_fin_flags_def nat_expire_set_def

section \<open>The row index and the linear scan\<close>

lemma tcp_index_rows_fst:
  assumes "i + length rs \<le> 128" and "s < TCP_NSTATE" and "e \<noteq> TCP_EV_INVLD"
  shows "fst (tcp_index_rows i rs (idx, has)) s e =
    (if 0 \<le> idx s e then idx s e
     else case first_index (tcp_row_matches s e) rs of
       None \<Rightarrow> idx s e | Some j \<Rightarrow> int (i + j))"
  using assms
proof (induction i rs "(idx, has)" arbitrary: idx has rule: tcp_index_rows.induct)
  case (1 i idx has)
  then show ?case by simp
next
  case (2 i r rs idx has)
  have small: "sint (of_nat i :: u8) = int i"
    using "2.prems"(1) by (simp add: signed_of_nat signed_take_bit_int_eq_self)
  show ?case
    using 2 small
    by (auto simp: Let_def tcp_row_matches_def split: option.splits)
qed

lemma tcp_index_rows_snd:
  assumes "s < TCP_NSTATE" and "\<forall>r \<in> set rs. row_event r \<noteq> TCP_EV_INVLD"
  shows "snd (tcp_index_rows i rs (idx, has)) s \<longleftrightarrow> has s \<or> (\<exists>r \<in> set rs. row_state r = s)"
  using assms
  by (induction i rs "(idx, has)" arbitrary: idx has rule: tcp_index_rows.induct)
     (auto simp: Let_def split: if_splits)

text \<open>Facts that hold of every row, checked row by row.\<close>

definition tcp_act_keeps_range :: "tcp_act \<Rightarrow> bool" where
  "tcp_act_keeps_range h \<longleftrightarrow> (\<forall>clk v b. fst (h clk v b) = SUCCESS \<and>
     (tcp_state v < TCP_NSTATE \<longrightarrow> tcp_state (snd (h clk v b)) < TCP_NSTATE) \<and>
     (tcp_fin_flags v AND NOT 3 = 0 \<longrightarrow> tcp_fin_flags (snd (h clk v b)) AND NOT 3 = 0))"

lemma tcp_act_ranges:
  "tcp_act_keeps_range tcp_act_timeout_syn_sent" "tcp_act_keeps_range tcp_act_timeout_syn_recv"
  "tcp_act_keeps_range tcp_act_timeout_established" "tcp_act_keeps_range tcp_act_refresh_established"
  "tcp_act_keeps_range tcp_act_timeout_fin_wait" "tcp_act_keeps_range tcp_act_timeout_close_wait"
  "tcp_act_keeps_range tcp_act_timeout_last_ack" "tcp_act_keeps_range tcp_act_timeout_time_wait"
  "tcp_act_keeps_range tcp_act_timeout_close" "tcp_act_keeps_range tcp_act_timeout_mid_stream"
  "tcp_act_keeps_range tcp_act_mid_stream_ack" "tcp_act_keeps_range tcp_act_set_fin_lan"
  "tcp_act_keeps_range tcp_act_set_fin_wan" "tcp_act_keeps_range tcp_act_reset_fin_flags"
  by (simp_all add: tcp_act_keeps_range_def tcp_act_defs bit.conj_disj_distrib2)

lemma tcp_rows_wf:
  "list_all (\<lambda>r. row_state r < TCP_NSTATE \<and> row_next_state r < TCP_NSTATE \<and>
     row_event r \<noteq> TCP_EV_INVLD \<and> length (row_hdl r) \<le> 4 \<and> list_all tcp_act_keeps_range (row_hdl r))
   tcp_conntrack_tbl"
  by (simp add: tcp_conntrack_tbl_def tcp_row_def tcp_act_ranges)

lemma tcp_row_wfD:
  assumes "r \<in> set tcp_conntrack_tbl"
  shows "row_state r < TCP_NSTATE" "row_next_state r < TCP_NSTATE" "row_event r \<noteq> TCP_EV_INVLD"
    "take 4 (row_hdl r) = row_hdl r" "list_all tcp_act_keeps_range (row_hdl r)"
  using tcp_rows_wf assms by (auto simp: list_all_iff)

lemma tcp_every_state_has_rows:
  "s < TCP_NSTATE \<Longrightarrow> \<exists>r \<in> set tcp_conntrack_tbl. row_state r = s"
  unfolding u8_lt_10_cases
  by (elim disjE) (simp_all add: tcp_conntrack_tbl_def tcp_row_def)

lemma length_tcp_conntrack_tbl: "length tcp_conntrack_tbl = 40"
  by (simp add: tcp_conntrack_tbl_def)

lemma tcp_fsm_idx_eq:
  assumes "s < TCP_NSTATE" and "e \<noteq> TCP_EV_INVLD"
  shows "tcp_fsm_idx s e =
    (case first_index (tcp_row_matches s e) tcp_conntrack_tbl of None \<Rightarrow> - 1 | Some i \<Rightarrow> int i)"
  using tcp_index_rows_fst [of 0 tcp_conntrack_tbl s e "\<lambda>_ _. - 1" "\<lambda>_. False"] assms
  by (simp add: tcp_fsm_idx_def tcp_conntrack_build_index_def length_tcp_conntrack_tbl
      cong: option.case_cong)

lemma tcp_state_has_rows_eq: "s < TCP_NSTATE \<Longrightarrow> tcp_state_has_rows s"
  using tcp_index_rows_snd [of s tcp_conntrack_tbl 0 "\<lambda>_ _. - 1" "\<lambda>_. False"]
    tcp_every_state_has_rows [of s] tcp_row_wfD(3)
  by (auto simp: tcp_state_has_rows_def tcp_conntrack_build_index_def)

lemma tcp_scan_SomeD:
  "tcp_scan s e = Some r \<Longrightarrow> r \<in> set tcp_conntrack_tbl \<and> row_state r = s \<and> row_event r = e"
  by (auto simp: tcp_scan_def tcp_row_matches_def find_Some_iff)

lemma run_tcp_hdl_range:
  assumes "list_all tcp_act_keeps_range hs"
  shows "fst (run_tcp_hdl hs clk v b) = SUCCESS \<and>
    (tcp_state v < TCP_NSTATE \<longrightarrow> tcp_state (snd (run_tcp_hdl hs clk v b)) < TCP_NSTATE) \<and>
    (tcp_fin_flags v AND NOT 3 = 0 \<longrightarrow> tcp_fin_flags (snd (run_tcp_hdl hs clk v b)) AND NOT 3 = 0)"
  using assms
proof (induction hs arbitrary: v)
  case Nil
  then show ?case by simp
next
  case (Cons h hs)
  obtain st v' where h: "h clk v b = (st, v')" by fastforce
  with Cons.prems have "st = SUCCESS" and
    "tcp_state v < TCP_NSTATE \<longrightarrow> tcp_state v' < TCP_NSTATE"
    "tcp_fin_flags v AND NOT 3 = 0 \<longrightarrow> tcp_fin_flags v' AND NOT 3 = 0"
    by (auto simp: tcp_act_keeps_range_def) (metis fst_conv snd_conv)+
  with Cons h show ?case by auto
qed

lemma fsm_view_in_range:
  assumes "tcp_state v < TCP_NSTATE" and "tcp_flags_to_event flags b \<noteq> TCP_EV_INVLD"
  shows "tcp_conntrack_fsm_view clk v flags b =
    (let idx = tcp_fsm_idx (tcp_state v) (tcp_flags_to_event flags b) in
     if idx < 0 then (SUCCESS, v)
     else run_tcp_hdl (take 4 (row_hdl (tcp_conntrack_tbl ! nat idx))) clk
            (v\<lparr>tcp_state := row_next_state (tcp_conntrack_tbl ! nat idx)\<rparr>) b)"
  using assms tcp_state_has_rows_eq [OF assms(1)]
  by (auto simp: tcp_conntrack_fsm_view_def Let_def dest: leD)

lemma conntrack_index_scan:
  "tcp_conntrack_fsm_view clk v flags is_reply = tcp_conntrack_fsm_scan clk v flags is_reply"
proof (cases "tcp_flags_to_event flags is_reply = TCP_EV_INVLD")
  case True
  then show ?thesis by (simp add: tcp_conntrack_fsm_view_def tcp_conntrack_fsm_scan_def)
next
  case ev: False
  let ?e = "tcp_flags_to_event flags is_reply"
  show ?thesis
  proof (cases "tcp_state v < TCP_NSTATE")
    case False
    then have none: "\<not> (\<exists>t \<in> set tcp_conntrack_tbl. row_state t = tcp_state v)"
      using tcp_row_wfD(1) by metis
    then have "tcp_scan (tcp_state v) ?e = None"
      by (auto simp: tcp_scan_def find_None_iff tcp_row_matches_def)
    with False ev none show ?thesis
      by (simp add: tcp_conntrack_fsm_view_def tcp_conntrack_fsm_scan_def not_less)
  next
    case True
    show ?thesis
    proof (cases "first_index (tcp_row_matches (tcp_state v) ?e) tcp_conntrack_tbl")
      case None
      with True ev show ?thesis
        using tcp_every_state_has_rows [OF True]
        by (simp add: fsm_view_in_range tcp_conntrack_fsm_scan_def tcp_fsm_idx_eq
            tcp_scan_def find_first_index)
    next
      case (Some i)
      with first_index_SomeD have "tcp_conntrack_tbl ! i \<in> set tcp_conntrack_tbl"
        using nth_mem by blast
      with Some True ev show ?thesis
        by (simp add: fsm_view_in_range tcp_conntrack_fsm_scan_def tcp_fsm_idx_eq
            tcp_scan_def find_first_index tcp_row_wfD(4))
    qed
  qed
qed

text \<open>
  The constructor-built index dispatches exactly as the linear scan over the state table does:
  same status, same connection, for every connection (also one with a corrupted state byte), every
  flags byte and both directions.
\<close>

theorem conntrack_index_is_scan:
  "tcp_conntrack_fsm_view clk v flags is_reply = tcp_conntrack_fsm_scan clk v flags is_reply"
  by (rule conntrack_index_scan)

section \<open>Invariant of a tracked connection\<close>

definition conn_ok :: "tcp_conntrack_view \<Rightarrow> bool" where
  "conn_ok v \<longleftrightarrow> tcp_state v < TCP_NSTATE \<and> tcp_fin_flags v AND NOT 3 = 0"

lemma fsm_view_fires:
  assumes "tcp_flags_to_event flags b \<noteq> TCP_EV_INVLD"
    and "tcp_scan (tcp_state v) (tcp_flags_to_event flags b) = Some r"
  shows "tcp_conntrack_fsm_view clk v flags b =
    run_tcp_hdl (row_hdl r) clk (v\<lparr>tcp_state := row_next_state r\<rparr>) b"
  using assms unfolding conntrack_index_scan by (simp add: tcp_conntrack_fsm_scan_def)

lemma fsm_view_ignores:
  assumes "tcp_scan (tcp_state v) (tcp_flags_to_event flags b) = None"
  shows "snd (tcp_conntrack_fsm_view clk v flags b) = v"
  using assms unfolding conntrack_index_scan by (simp add: tcp_conntrack_fsm_scan_def Let_def)

lemma fsm_view_INVLD:
  "tcp_flags_to_event flags b = TCP_EV_INVLD \<Longrightarrow> tcp_conntrack_fsm_view clk v flags b = (SUCCESS, v)"
  by (simp add: tcp_conntrack_fsm_view_def)

text \<open>Case analysis of one call: the packet is ignored, or one table row fires.\<close>

lemma fsm_view_cases:
  obtains (ignored) "snd (tcp_conntrack_fsm_view clk v flags b) = v"
  | (fires) r where "tcp_flags_to_event flags b \<noteq> TCP_EV_INVLD" "r \<in> set tcp_conntrack_tbl"
      "row_state r = tcp_state v" "row_event r = tcp_flags_to_event flags b"
      "tcp_conntrack_fsm_view clk v flags b =
         run_tcp_hdl (row_hdl r) clk (v\<lparr>tcp_state := row_next_state r\<rparr>) b"
proof (cases "tcp_flags_to_event flags b = TCP_EV_INVLD")
  case True
  then show thesis by (intro ignored) (simp add: fsm_view_INVLD)
next
  case ev: False
  show thesis
  proof (cases "tcp_scan (tcp_state v) (tcp_flags_to_event flags b)")
    case None
    then show thesis by (intro ignored fsm_view_ignores)
  next
    case (Some r)
    from fires [OF ev _ _ _ fsm_view_fires [OF ev Some]] tcp_scan_SomeD [OF Some]
    show thesis by blast
  qed
qed

lemma fsm_view_conn_ok:
  assumes "conn_ok v"
  shows "conn_ok (snd (tcp_conntrack_fsm_view clk v flags b))"
proof (cases rule: fsm_view_cases [of clk v flags b])
  case ignored
  with assms show ?thesis by simp
next
  case (fires r)
  with run_tcp_hdl_range [OF tcp_row_wfD(5) [OF fires(2)], of clk "v\<lparr>tcp_state := row_next_state r\<rparr>" b]
    tcp_row_wfD(2) [OF fires(2)] assms
  show ?thesis by (simp add: conn_ok_def)
qed

lemma seq_update_frame [simp]:
  "tcp_state (tcp_conntrack_seq_update_view v hdr len b) = tcp_state v"
  "tcp_fin_flags (tcp_conntrack_seq_update_view v hdr len b) = tcp_fin_flags v"
  "expire_slot (tcp_conntrack_seq_update_view v hdr len b) = expire_slot v"
  by (simp_all add: tcp_conntrack_seq_update_view_def Let_def)

lemma fsm_view_status:
  "fst (tcp_conntrack_fsm_view clk v flags b) = ERROR \<longleftrightarrow>
     tcp_flags_to_event flags b \<noteq> TCP_EV_INVLD \<and> TCP_NSTATE \<le> tcp_state v"
proof (cases "tcp_flags_to_event flags b = TCP_EV_INVLD \<or> TCP_NSTATE \<le> tcp_state v")
  case True
  then show ?thesis by (auto simp: tcp_conntrack_fsm_view_def)
next
  case False
  then have lt: "tcp_state v < TCP_NSTATE" using not_le by blast
  show ?thesis
  proof (cases rule: fsm_view_cases [of clk v flags b])
    case (fires r)
    with run_tcp_hdl_range [OF tcp_row_wfD(5) [OF fires(2)]] False show ?thesis by simp
  next
    case ignored
    have "fst (tcp_conntrack_fsm_scan clk v flags b) = SUCCESS"
    proof (cases "tcp_scan (tcp_state v) (tcp_flags_to_event flags b)")
      case None
      with tcp_every_state_has_rows [OF lt] show ?thesis
        by (simp add: tcp_conntrack_fsm_scan_def Let_def)
    next
      case (Some r)
      with run_tcp_hdl_range [OF tcp_row_wfD(5), of r clk "v\<lparr>tcp_state := row_next_state r\<rparr>" b]
        tcp_scan_SomeD [OF Some] show ?thesis
        by (simp add: tcp_conntrack_fsm_scan_def Let_def)
    qed
    with False show ?thesis by (simp add: conntrack_index_scan)
  qed
qed

text \<open>
  C1. The state machine fails only on a corrupted state byte, and a well-formed connection (a state
  of the enumeration, only the two FIN bits set) stays well-formed whatever packets, in whatever
  order and direction, are tracked on it.
\<close>

theorem conntrack_total:
  "(fst (tcp_conntrack_fsm_view clk v flags b) = ERROR \<longleftrightarrow>
      tcp_flags_to_event flags b \<noteq> TCP_EV_INVLD \<and> TCP_NSTATE \<le> tcp_state v) \<and>
   (conn_ok w \<longrightarrow> conn_ok (track_packets ps w))"
proof -
  have "conn_ok w \<Longrightarrow> conn_ok (track_packets ps w)"
  proof (induction ps w rule: track_packets.induct)
    case (2 clk hdr len b ps v)
    then have "conn_ok (conntrack_track id (\<lambda>v' _. v') clk v hdr len b)"
      using fsm_view_conn_ok [of v clk "tcp_flags hdr" b]
      by (simp add: conntrack_track_def conn_ok_def)
    with "2.IH" show ?case by simp
  qed simp
  with fsm_view_status show ?thesis by blast
qed

theorem conntrack_total_witness:
  "conn_ok (track_packets [(\<lparr>cur_cycles = 5, cycles_in_sec = 1\<rparr>,
     \<lparr>src_port = 0, dst_port = 0, sent_seq = 7, recv_ack = 0, data_off = 80, tcp_flags = 2, rx_win = 1\<rparr>, 0, False)]
     \<lparr>tcp_state = 0, tcp_fin_flags = 0, expire_slot = 0, max_seq_end_lan = 0, max_seq_end_wan = 0,
      max_ack_lan = 0, max_ack_wan = 0, max_win_lan = 0, max_win_wan = 0\<rparr>)"
  by (rule conntrack_total [THEN conjunct2, rule_format]) (simp add: conn_ok_def)

section \<open>The allowlist and the table agree\<close>

lemma tcp_scan_rows: "tcp_scan s e = Some r \<Longrightarrow> r \<in> set tcp_conntrack_tbl"
  using tcp_scan_SomeD by blast

lemma tcp_scan_defined:
  "(\<exists>r \<in> set tcp_conntrack_tbl. row_state r = s \<and> row_event r = e) \<Longrightarrow> tcp_scan s e \<noteq> None"
  by (auto simp: tcp_scan_def find_None_iff tcp_row_matches_def)

lemma tcp_row_keys:
  "(s, e) \<in> (\<lambda>r. (row_state r, row_event r)) ` set tcp_conntrack_tbl \<longleftrightarrow>
     (case e of
        TCP_EV_SYN \<Rightarrow> s \<in> {0, 9, 1, 3, 7, 8}
      | TCP_EV_SYN_ACK \<Rightarrow> s \<in> {0, 9, 1, 2, 3}
      | TCP_EV_ACK \<Rightarrow> s \<in> {0, 9, 2, 3, 4, 5, 6, 7}
      | TCP_EV_FIN_LAN \<Rightarrow> s \<in> {0, 9, 2, 3, 4, 5}
      | TCP_EV_FIN_WAN \<Rightarrow> s \<in> {0, 9, 2, 3, 4}
      | TCP_EV_RST \<Rightarrow> s \<in> {0, 9, 1, 2, 3, 4, 5, 6, 7, 8}
      | TCP_EV_INVLD \<Rightarrow> False)"
  by (cases e) (simp_all add: tcp_conntrack_tbl_def tcp_row_def)

lemma inbound_valid_row:
  assumes "tcp_conntrack_inbound_valid s flags"
  shows "\<exists>r \<in> set tcp_conntrack_tbl. row_state r = s \<and> row_event r = tcp_flags_to_event flags True"
proof -
  have "(s, tcp_flags_to_event flags True) \<in> (\<lambda>r. (row_state r, row_event r)) ` set tcp_conntrack_tbl"
    using assms unfolding tcp_row_keys tcp_conntrack_inbound_valid_def Let_def
    by (cases "tcp_flags_to_event flags True") (auto split: if_splits)
  then show ?thesis by force
qed

text \<open>
  C2. Stateful inspection of inbound segments: an accepted segment never opens a connection (no bare
  SYN from the WAN in any state), nothing is accepted on a closed or corrupted entry, and every
  accepted segment has a transition in the state table, so the tracker never lets a segment through
  that it then ignores.
\<close>

theorem inbound_valid_safe:
  assumes "tcp_conntrack_inbound_valid s flags"
  shows "tcp_flags_to_event flags True \<noteq> TCP_EV_SYN \<and> tcp_flags_to_event flags True \<noteq> TCP_EV_INVLD \<and>
    s < TCP_NSTATE \<and> s \<noteq> TCP_CONNTRACK_CLOSE \<and>
    tcp_scan s (tcp_flags_to_event flags True) \<noteq> None"
proof -
  from inbound_valid_row [OF assms] have "tcp_scan s (tcp_flags_to_event flags True) \<noteq> None"
    by (rule tcp_scan_defined)
  moreover from assms have "tcp_flags_to_event flags True \<noteq> TCP_EV_SYN"
    "tcp_flags_to_event flags True \<noteq> TCP_EV_INVLD" "s \<noteq> TCP_CONNTRACK_CLOSE" "s < TCP_NSTATE"
    by (auto simp: tcp_conntrack_inbound_valid_def Let_def split: if_splits)
  ultimately show ?thesis by blast
qed

theorem inbound_valid_safe_witness:
  "tcp_conntrack_inbound_valid TCP_CONNTRACK_SYN_SENT 0x12 \<and>
   tcp_scan TCP_CONNTRACK_SYN_SENT (tcp_flags_to_event 0x12 True) \<noteq> None"
proof -
  have "tcp_conntrack_inbound_valid TCP_CONNTRACK_SYN_SENT 0x12"
    by (simp add: tcp_conntrack_inbound_valid_def tcp_flags_to_event_def)
  with inbound_valid_safe [OF this] show ?thesis by blast
qed

section \<open>Deadlines follow the state\<close>

definition deadline_matches :: "clock \<Rightarrow> tcp_conntrack_view \<Rightarrow> tcp_conntrack_view \<Rightarrow> bool" where
  "deadline_matches clk v v' \<longleftrightarrow>
     expire_slot v' = deadline_after clk (tcp_state_timeout (tcp_state v')) \<or>
     (tcp_state v' = tcp_state v \<and> expire_slot v' = expire_slot v \<and>
      deadline_after clk (tcp_state_timeout (tcp_state v')) \<le> expire_slot v + cycles_in_sec clk)"

lemma tcp_rows_deadline:
  "list_all (\<lambda>r. \<forall>clk v b. row_state r = tcp_state v \<longrightarrow>
     deadline_matches clk v
       (snd (run_tcp_hdl (row_hdl r) clk (v\<lparr>tcp_state := row_next_state r\<rparr>) b))) tcp_conntrack_tbl"
  by (simp add: tcp_conntrack_tbl_def tcp_row_def tcp_act_defs deadline_matches_def
      tcp_state_timeout_def nat_expire_refresh_def not_less)

text \<open>
  Whenever a table row fires, the connection's deadline becomes exactly the lifetime of the state
  it enters, or (for a packet that keeps the state) is left alone because it already lies within one
  coalescing second of that lifetime or beyond it. No transition leaves a stale long deadline behind.
\<close>

theorem conntrack_deadline_follows_state:
  assumes "tcp_flags_to_event flags b \<noteq> TCP_EV_INVLD"
    and "tcp_scan (tcp_state v) (tcp_flags_to_event flags b) = Some r"
  shows "deadline_matches clk v (snd (tcp_conntrack_fsm_view clk v flags b))"
  using fsm_view_fires [OF assms] tcp_scan_SomeD [OF assms(2)] tcp_rows_deadline
  by (auto simp: list_all_iff)

theorem conntrack_deadline_follows_state_witness:
  "let v = \<lparr>tcp_state = 3, tcp_fin_flags = 0, expire_slot = 7100, max_seq_end_lan = 0, max_seq_end_wan = 0,
      max_ack_lan = 0, max_ack_wan = 0, max_win_lan = 0, max_win_wan = 0\<rparr>;
       clk = \<lparr>cur_cycles = 5, cycles_in_sec = 1\<rparr>
   in deadline_matches clk v (snd (tcp_conntrack_fsm_view clk v 0x11 True))"
  unfolding Let_def
  by (rule conntrack_deadline_follows_state
        [where r = "tcp_row TCP_CONNTRACK_ESTABLISHED TCP_EV_FIN_WAN TCP_CONNTRACK_CLOSE_WAIT
                      [tcp_act_set_fin_wan, tcp_act_timeout_close_wait]"])
     (simp_all add: tcp_flags_to_event_def tcp_scan_def tcp_conntrack_tbl_def tcp_row_def
       tcp_row_matches_def)

section \<open>One-sided traffic earns no established lease\<close>

definition lan_opening_state :: "u8 \<Rightarrow> bool" where
  "lan_opening_state s \<longleftrightarrow> s = TCP_CONNTRACK_NONE \<or> s = TCP_CONNTRACK_SYN_SENT \<or>
     s = TCP_CONNTRACK_FIN_WAIT \<or> s = TCP_CONNTRACK_CLOSE \<or> s = TCP_CONNTRACK_MID_STREAM"

definition lan_packet :: "tcp_packet \<Rightarrow> bool" where
  "lan_packet p = (case p of (clk, hdr, len, is_reply) \<Rightarrow>
     \<not> is_reply \<and> tcp_flags_to_event (tcp_flags hdr) False \<noteq> TCP_EV_SYN_ACK)"

lemma tcp_rows_lan:
  "list_all (\<lambda>r. \<forall>clk v. lan_opening_state (row_state r) \<and> row_event r \<noteq> TCP_EV_SYN_ACK \<and>
     row_event r \<noteq> TCP_EV_FIN_WAN \<longrightarrow>
     lan_opening_state
       (tcp_state (snd (run_tcp_hdl (row_hdl r) clk (v\<lparr>tcp_state := row_next_state r\<rparr>) False))))
   tcp_conntrack_tbl"
  by (simp add: tcp_conntrack_tbl_def tcp_row_def tcp_act_defs lan_opening_state_def)

lemma lan_event_not_FIN_WAN: "tcp_flags_to_event flags False \<noteq> TCP_EV_FIN_WAN"
  by (simp add: tcp_flags_to_event_def)

lemma lan_step:
  assumes "lan_opening_state (tcp_state v)" and "tcp_flags_to_event flags False \<noteq> TCP_EV_SYN_ACK"
  shows "lan_opening_state (tcp_state (snd (tcp_conntrack_fsm_view clk v flags False)))"
proof (cases rule: fsm_view_cases [of clk v flags False])
  case ignored
  with assms show ?thesis by simp
next
  case (fires r)
  with assms tcp_rows_lan lan_event_not_FIN_WAN [of flags] show ?thesis
    by (auto simp: list_all_iff)
qed

text \<open>
  Segments from the LAN alone never reach the established state (nor its two-hour lease): from a
  fresh entry, any sequence of LAN segments none of which carries SYN and ACK together leaves the
  connection untracked, opening, picked up mid-stream, half closed or closed.
\<close>

theorem lan_only_never_established:
  assumes "tcp_state v = TCP_CONNTRACK_NONE" and "list_all lan_packet ps"
  shows "lan_opening_state (tcp_state (track_packets ps v)) \<and>
    tcp_state (track_packets ps v) \<noteq> TCP_CONNTRACK_ESTABLISHED"
proof -
  have "lan_opening_state (tcp_state w) \<Longrightarrow> list_all lan_packet ps \<Longrightarrow>
      lan_opening_state (tcp_state (track_packets ps w))" for w
    by (induction ps w rule: track_packets.induct)
       (auto simp: conntrack_track_def lan_packet_def lan_step)
  with assms show ?thesis by (force simp: lan_opening_state_def)
qed

theorem lan_only_never_established_witness:
  "tcp_state (track_packets
     [(\<lparr>cur_cycles = 5, cycles_in_sec = 1\<rparr>,
       \<lparr>src_port = 0, dst_port = 0, sent_seq = 7, recv_ack = 9, data_off = 80, tcp_flags = 0x10, rx_win = 1\<rparr>, 0, False),
      (\<lparr>cur_cycles = 6, cycles_in_sec = 1\<rparr>,
       \<lparr>src_port = 0, dst_port = 0, sent_seq = 8, recv_ack = 9, data_off = 80, tcp_flags = 0x10, rx_win = 1\<rparr>, 0, False)]
     \<lparr>tcp_state = 0, tcp_fin_flags = 0, expire_slot = 0, max_seq_end_lan = 0, max_seq_end_wan = 0,
      max_ack_lan = 0, max_ack_wan = 0, max_win_lan = 0, max_win_wan = 0\<rparr>) \<noteq> TCP_CONNTRACK_ESTABLISHED"
  by (rule lan_only_never_established [THEN conjunct2])
     (simp_all add: lan_packet_def tcp_flags_to_event_def)

section \<open>The sequence window\<close>

lemma sint_diff_window:
  fixes x y :: u32
  assumes "- (2 ^ 31) \<le> lo" and "hi < 2 ^ 31"
  shows "lo \<le> sint (x - y) \<and> sint (x - y) \<le> hi \<longleftrightarrow> (\<exists>d. lo \<le> d \<and> d \<le> hi \<and> x = y + of_int d)"
proof
  assume "lo \<le> sint (x - y) \<and> sint (x - y) \<le> hi"
  moreover have "x = y + of_int (sint (x - y))" by simp
  ultimately show "\<exists>d. lo \<le> d \<and> d \<le> hi \<and> x = y + of_int d" by blast
next
  assume "\<exists>d. lo \<le> d \<and> d \<le> hi \<and> x = y + of_int d"
  then obtain d where d: "lo \<le> d" "d \<le> hi" "x - y = of_int d" by auto
  then have "sint (x - y) = d"
    using assms by (simp add: signed_of_int signed_take_bit_int_eq_self)
  with d show "lo \<le> sint (x - y) \<and> sint (x - y) \<le> hi" by simp
qed

text \<open>
  C3. The inbound window check, exactly, across sequence wrap-around: once a baseline exists, a WAN
  segment that carries an acknowledgment and no SYN passes if and only if its sequence number lies
  within 16 MB (modulo 2^32) of the highest LAN acknowledgment and its acknowledgment lies between
  16 MB below and 64 KB above the highest LAN sequence end.
\<close>

theorem seq_valid_window:
  assumes "tcp_flags hdr AND RTE_TCP_SYN_FLAG = 0" and "tcp_flags hdr AND RTE_TCP_ACK_FLAG \<noteq> 0"
    and "max_seq_end_lan v \<noteq> 0 \<or> max_ack_lan v \<noteq> 0"
  shows "tcp_conntrack_seq_valid_view v hdr True \<longleftrightarrow>
    (\<exists>d. - 0xFFFFFF \<le> d \<and> d \<le> 0xFFFFFF \<and> rte_be_to_cpu_32 (sent_seq hdr) = max_ack_lan v + of_int d) \<and>
    (\<exists>d. - 0xFFFFFF \<le> d \<and> d \<le> 0xFFFF \<and> rte_be_to_cpu_32 (recv_ack hdr) = max_seq_end_lan v + of_int d)"
  using assms
    sint_diff_window [of "- 0xFFFFFF" "0xFFFFFF" "rte_be_to_cpu_32 (sent_seq hdr)" "max_ack_lan v"]
    sint_diff_window [of "- 0xFFFFFF" "0xFFFF" "rte_be_to_cpu_32 (recv_ack hdr)" "max_seq_end_lan v"]
  by (auto simp: tcp_conntrack_seq_valid_view_def Let_def not_less)

theorem seq_valid_window_witness:
  "tcp_conntrack_seq_valid_view
     \<lparr>tcp_state = 3, tcp_fin_flags = 0, expire_slot = 0, max_seq_end_lan = 0xFFFFFFFE, max_seq_end_wan = 0,
      max_ack_lan = 0xFFFFFFFF, max_ack_wan = 0, max_win_lan = 0, max_win_wan = 0\<rparr>
     \<lparr>src_port = 0, dst_port = 0, sent_seq = bswap32 1, recv_ack = bswap32 0xFFFFFFF0, data_off = 80,
      tcp_flags = 0x10, rx_win = 1\<rparr> True"
proof (subst seq_valid_window)
  have "\<exists>d. - 0xFFFFFF \<le> d \<and> d \<le> 0xFFFFFF \<and> (1 :: u32) = 0xFFFFFFFF + of_int d"
    by (rule exI [of _ 2]) simp
  moreover have "\<exists>d. - 0xFFFFFF \<le> d \<and> d \<le> 0xFFFF \<and> (0xFFFFFFF0 :: u32) = 0xFFFFFFFE + of_int d"
    by (rule exI [of _ "- 14"]) simp
  ultimately show "(\<exists>d. - 0xFFFFFF \<le> d \<and> d \<le> 0xFFFFFF \<and> rte_be_to_cpu_32 (sent_seq
       \<lparr>src_port = 0, dst_port = 0, sent_seq = bswap32 1, recv_ack = bswap32 0xFFFFFFF0, data_off = 80,
        tcp_flags = 0x10, rx_win = 1\<rparr>) = max_ack_lan
       \<lparr>tcp_state = 3, tcp_fin_flags = 0, expire_slot = 0, max_seq_end_lan = 0xFFFFFFFE, max_seq_end_wan = 0,
        max_ack_lan = 0xFFFFFFFF, max_ack_wan = 0, max_win_lan = 0, max_win_wan = 0\<rparr> + of_int d) \<and>
    (\<exists>d. - 0xFFFFFF \<le> d \<and> d \<le> 0xFFFF \<and> rte_be_to_cpu_32 (recv_ack
       \<lparr>src_port = 0, dst_port = 0, sent_seq = bswap32 1, recv_ack = bswap32 0xFFFFFFF0, data_off = 80,
        tcp_flags = 0x10, rx_win = 1\<rparr>) = max_seq_end_lan
       \<lparr>tcp_state = 3, tcp_fin_flags = 0, expire_slot = 0, max_seq_end_lan = 0xFFFFFFFE, max_seq_end_wan = 0,
        max_ack_lan = 0xFFFFFFFF, max_ack_wan = 0, max_win_lan = 0, max_win_wan = 0\<rparr> + of_int d)"
    by simp
qed simp_all

section \<open>A handshake is tracked to the end\<close>

definition segment :: "u8 \<Rightarrow> u32 \<Rightarrow> u32 \<Rightarrow> tcp_hdr" where
  "segment flags seq ack = \<lparr>src_port = 0, dst_port = 0, sent_seq = rte_cpu_to_be_32 seq,
     recv_ack = rte_cpu_to_be_32 ack, data_off = 0x50, tcp_flags = flags, rx_win = 0\<rparr>"

definition fresh_conn :: tcp_conntrack_view where
  "fresh_conn = \<lparr>tcp_state = TCP_CONNTRACK_NONE, tcp_fin_flags = 0, expire_slot = 0,
     max_seq_end_lan = 0, max_seq_end_wan = 0, max_ack_lan = 0, max_ack_wan = 0,
     max_win_lan = 0, max_win_wan = 0\<rparr>"

definition inbound_accepts :: "tcp_conntrack_view \<Rightarrow> tcp_hdr \<Rightarrow> bool" where
  "inbound_accepts v hdr \<longleftrightarrow>
     tcp_conntrack_inbound_valid (tcp_state v) (tcp_flags hdr) \<and> tcp_conntrack_seq_valid_view v hdr True"

lemma tcp_scan_handshake:
  "tcp_scan TCP_CONNTRACK_NONE TCP_EV_SYN =
     Some (tcp_row TCP_CONNTRACK_NONE TCP_EV_SYN TCP_CONNTRACK_SYN_SENT [tcp_act_timeout_syn_sent])"
  "tcp_scan TCP_CONNTRACK_SYN_SENT TCP_EV_SYN_ACK =
     Some (tcp_row TCP_CONNTRACK_SYN_SENT TCP_EV_SYN_ACK TCP_CONNTRACK_SYN_RECV [tcp_act_timeout_syn_recv])"
  "tcp_scan TCP_CONNTRACK_SYN_RECV TCP_EV_ACK =
     Some (tcp_row TCP_CONNTRACK_SYN_RECV TCP_EV_ACK TCP_CONNTRACK_ESTABLISHED [tcp_act_timeout_established])"
  by (simp_all add: tcp_scan_def tcp_conntrack_tbl_def tcp_row_def tcp_row_matches_def)

text \<open>
  The three-way handshake opened from the LAN is tracked to ESTABLISHED for all initial sequence
  numbers (wrap-around included): the server's SYN-ACK passes inspection, the connection ends up
  established with the two-hour lease, and the server's first in-order data segment passes.
\<close>

theorem handshake_established:
  "let v1 = conntrack_track id (\<lambda>v' _. v') c1 fresh_conn (segment 0x02 x 0) 0 False;
       v2 = conntrack_track id (\<lambda>v' _. v') c2 v1 (segment 0x12 y (x + 1)) 0 True;
       v3 = conntrack_track id (\<lambda>v' _. v') c3 v2 (segment 0x10 (x + 1) (y + 1)) 0 False
   in inbound_accepts v1 (segment 0x12 y (x + 1)) \<and>
      tcp_state v3 = TCP_CONNTRACK_ESTABLISHED \<and>
      expire_slot v3 = deadline_after c3 TCP_TIMEOUT_ESTABLISHED \<and>
      inbound_accepts v3 (segment 0x10 (y + 1) (x + 1))"
  by (simp add: Let_def conntrack_track_def fresh_conn_def segment_def conntrack_index_scan
      tcp_conntrack_fsm_scan_def tcp_flags_to_event_def tcp_scan_handshake tcp_row_def tcp_act_defs
      tcp_conntrack_seq_update_view_def seq_advance_def inbound_accepts_def
      tcp_conntrack_inbound_valid_def tcp_conntrack_seq_valid_view_def)

section \<open>The view as an interface\<close>

text \<open>
  Both the SNAT entries and the IPv6 firewall entries hand the tracker a view of their own fields.
  What the tracker's clients rely on: reading back what was written, and that a write through the
  view touches nothing of the entry's identity (its \<open>key\<close>).
\<close>

locale conntrack_view =
  fixes get :: "'e \<Rightarrow> tcp_conntrack_view"
    and put :: "tcp_conntrack_view \<Rightarrow> 'e \<Rightarrow> 'e"
    and key :: "'e \<Rightarrow> 'k"
  assumes get_put: "get (put v e) = v"
    and put_get: "put (get e) e = e"
    and put_put: "put v (put w e) = put v e"
    and key_put: "key (put v e) = key e"
begin

lemma track_key: "key (conntrack_track get put clk e hdr len b) = key e"
  by (simp add: conntrack_track_def key_put)

lemma track_get:
  "get (conntrack_track get put clk e hdr len b) =
     conntrack_track id (\<lambda>v' _. v') clk (get e) hdr len b"
  by (simp add: conntrack_track_def get_put)

lemma track_ok: "conn_ok (get e) \<Longrightarrow> conn_ok (get (conntrack_track get put clk e hdr len b))"
  using fsm_view_conn_ok [of "get e" clk "tcp_flags hdr" b]
  by (simp add: conntrack_track_def get_put conn_ok_def)

lemma fold_track:
  "get (fold (\<lambda>(clk, hdr, len, b) e. conntrack_track get put clk e hdr len b) ps e) = track_packets ps (get e)"
  by (induction ps arbitrary: e) (auto simp: track_get)

lemma fold_track_key:
  "key (fold (\<lambda>(clk, hdr, len, b) e. conntrack_track get put clk e hdr len b) ps e) = key e"
  by (induction ps arbitrary: e) (auto simp: track_key)

end

end
