(* ===== verification/Dpdk.thy ===== *)
theory Dpdk
  imports FastRG_Prelude "HOL-Library.Multiset"
begin

text \<open>
  DPDK is not part of the repository, so its objects are parameters of the model. This theory fixes
  their shape (the operations the sources call on \<open>rte_hash\<close> and \<open>rte_ring\<close>), states the documented
  behaviour the sources rely on as named predicates over those operations, and gives one concrete
  instance of each, used only to show that the predicates can hold.

  A hash maps keys to pool slot indices. With an RCU defer queue attached, deleting a key moves its
  data to the queue; the data leaves it, and the registered callback runs, at any later hash
  operation. Every operation that may run callbacks therefore returns the list of data it released.
\<close>

section \<open>Operations\<close>

record ('h, 'k) rte_hash =
  hash_lookup :: "'h \<Rightarrow> 'k \<Rightarrow> nat option"
  hash_add :: "'h \<Rightarrow> 'k \<Rightarrow> nat \<Rightarrow> 'h \<times> bool \<times> nat list"
  hash_del :: "'h \<Rightarrow> 'k \<Rightarrow> 'h \<times> bool \<times> nat list"
  hash_reclaim :: "'h \<Rightarrow> 'h \<times> nat list"

record 'r rte_ring =
  ring_enqueue :: "'r \<Rightarrow> nat \<Rightarrow> 'r \<times> bool"
  ring_dequeue :: "'r \<Rightarrow> 'r \<times> nat option"

section \<open>Documented behaviour\<close>

text \<open>
  \<open>A h\<close> is the key/data association a hash holds and \<open>Q h\<close> the data waiting in its defer queue.
  Adding is only specified for absent keys, which is how the sources call it.
\<close>

definition rte_hash_contract :: "('h, 'k) rte_hash \<Rightarrow> ('h \<Rightarrow> 'k \<Rightarrow> nat option) \<Rightarrow> ('h \<Rightarrow> nat list) \<Rightarrow> bool" where
  "rte_hash_contract H A Q \<longleftrightarrow>
     (\<forall>h k. hash_lookup H h k = A h k) \<and>
     (\<forall>h k v h' ok fr. hash_add H h k v = (h', ok, fr) \<longrightarrow> A h k = None \<longrightarrow>
        A h' = (if ok then (A h)(k := Some v) else A h) \<and> mset (Q h') + mset fr = mset (Q h)) \<and>
     (\<forall>h k h' ok fr. hash_del H h k = (h', ok, fr) \<longrightarrow>
        A h' = (A h)(k := None) \<and> ok = (A h k \<noteq> None) \<and>
        mset (Q h') + mset fr = mset (Q h) + (case A h k of None \<Rightarrow> {#} | Some v \<Rightarrow> {#v#})) \<and>
     (\<forall>h h' fr. hash_reclaim H h = (h', fr) \<longrightarrow> A h' = A h \<and> mset (Q h') + mset fr = mset (Q h))"

definition rte_ring_contract :: "'r rte_ring \<Rightarrow> ('r \<Rightarrow> nat list) \<Rightarrow> nat \<Rightarrow> bool" where
  "rte_ring_contract R L cap \<longleftrightarrow>
     (\<forall>r x r' ok. ring_enqueue R r x = (r', ok) \<longrightarrow> length (L r) < cap \<longrightarrow> ok \<and> L r' = L r @ [x]) \<and>
     (\<forall>r r' res. ring_dequeue R r = (r', res) \<longrightarrow>
        (case L r of [] \<Rightarrow> res = None \<and> L r' = [] | x # xs \<Rightarrow> res = Some x \<and> L r' = xs))"

section \<open>A concrete instance\<close>

text \<open>An association list with a queue of deleted data, reclaimed only on request, and a bounded list.\<close>

type_synonym 'k list_hash = "('k \<times> nat) list \<times> nat list"

definition list_hash :: "('k list_hash, 'k) rte_hash" where
  "list_hash = \<lparr>
     hash_lookup = (\<lambda>(kvs, q) k. map_of kvs k),
     hash_add = (\<lambda>(kvs, q) k v. (((k, v) # kvs, q), True, [])),
     hash_del = (\<lambda>(kvs, q) k. case map_of kvs k of
         None \<Rightarrow> ((kvs, q), False, [])
       | Some v \<Rightarrow> ((filter (\<lambda>kv. fst kv \<noteq> k) kvs, q @ [v]), True, [])),
     hash_reclaim = (\<lambda>(kvs, q). ((kvs, []), q))\<rparr>"

definition list_ring :: "nat \<Rightarrow> nat list rte_ring" where
  "list_ring cap = \<lparr>
     ring_enqueue = (\<lambda>r x. if length r < cap then (r @ [x], True) else (r, False)),
     ring_dequeue = (\<lambda>r. case r of [] \<Rightarrow> ([], None) | x # xs \<Rightarrow> (xs, Some x))\<rparr>"

section \<open>Consequences of the contracts\<close>

lemma hash_lookup_eq: "rte_hash_contract H A Q \<Longrightarrow> hash_lookup H h k = A h k"
  by (simp add: rte_hash_contract_def)

lemma hash_addD:
  assumes "rte_hash_contract H A Q" and "hash_add H h k v = (h', ok, fr)" and "A h k = None"
  shows "A h' = (if ok then (A h)(k := Some v) else A h)" and "mset (Q h') + mset fr = mset (Q h)"
  using assms by (simp_all add: rte_hash_contract_def)

lemma hash_delD:
  assumes "rte_hash_contract H A Q" and "hash_del H h k = (h', ok, fr)"
  shows "A h' = (A h)(k := None)" and "ok \<longleftrightarrow> A h k \<noteq> None"
    and "mset (Q h') + mset fr = mset (Q h) + (case A h k of None \<Rightarrow> {#} | Some v \<Rightarrow> {#v#})"
  using assms by (simp_all add: rte_hash_contract_def)

lemma hash_reclaimD:
  assumes "rte_hash_contract H A Q" and "hash_reclaim H h = (h', fr)"
  shows "A h' = A h" and "mset (Q h') + mset fr = mset (Q h)"
  using assms by (simp_all add: rte_hash_contract_def)

lemma ring_enqueueD:
  assumes "rte_ring_contract R L cap" and "length (L r) < cap"
  shows "L (fst (ring_enqueue R r x)) = L r @ [x]" and "snd (ring_enqueue R r x)"
  using assms by (auto simp: rte_ring_contract_def split_def prod_eq_iff)

lemma ring_dequeueD:
  assumes "rte_ring_contract R L cap" and "ring_dequeue R r = (r', res)"
  shows "res = (case L r of [] \<Rightarrow> None | x # xs \<Rightarrow> Some x)" and "L r' = tl (L r)"
  using assms by (cases "L r"; fastforce simp: rte_ring_contract_def)+

lemma map_of_filter_key: "map_of (filter (\<lambda>kv. fst kv \<noteq> k) kvs) x = (if x = k then None else map_of kvs x)"
  by (induction kvs) auto

lemma list_hash_contract: "rte_hash_contract list_hash (\<lambda>(kvs, q). map_of kvs) snd"
  by (auto simp: rte_hash_contract_def list_hash_def map_of_filter_key fun_eq_iff split: option.splits)

lemma list_ring_contract: "rte_ring_contract (list_ring cap) id cap"
  by (auto simp: rte_ring_contract_def list_ring_def split: if_splits list.splits)

section \<open>Slot accounting\<close>

text \<open>
  Both session pools recycle slot indices the same way: an index is on the free list, waits in the
  defer queue, is published in the hash, or is held by the operation in progress. Exactly one of
  these, always.
\<close>

definition slots_ok :: "nat \<Rightarrow> nat list \<Rightarrow> nat list \<Rightarrow> nat set \<Rightarrow> nat multiset \<Rightarrow> bool" where
  "slots_ok n free dq live hand \<longleftrightarrow>
     finite live \<and> mset free + mset dq + mset_set live + hand = mset_set {..<n}"

lemma slots_ok_member:
  assumes "slots_ok n free dq live hand"
  shows "x \<in> set free \<Longrightarrow> x < n \<and> x \<notin> set dq \<and> x \<notin> live \<and> x \<notin># hand"
    and "x \<in> set dq \<Longrightarrow> x < n \<and> x \<notin> set free \<and> x \<notin> live \<and> x \<notin># hand"
    and "x \<in> live \<Longrightarrow> x < n \<and> x \<notin> set free \<and> x \<notin> set dq \<and> x \<notin># hand"
    and "x \<in># hand \<Longrightarrow> x < n \<and> x \<notin> set free \<and> x \<notin> set dq \<and> x \<notin> live"
proof -
  have fin: "finite live" and eq: "mset free + mset dq + mset_set live + hand = mset_set {..<n}"
    using assms by (simp_all add: slots_ok_def)
  define a b c d where "a = count (mset free) x" and "b = count (mset dq) x"
    and "c = count (mset_set live) x" and "d = count hand x"
  have cnt: "a + b + c + d = (if x < n then 1 else 0)"
    using arg_cong [OF eq, of "\<lambda>M. count M x"]
    by (simp add: count_mset_set' a_def b_def c_def d_def)
  have in_dom: "x \<in> set free \<longleftrightarrow> a \<noteq> 0" "x \<in> set dq \<longleftrightarrow> b \<noteq> 0" "x \<in> live \<longleftrightarrow> c \<noteq> 0" "x \<in># hand \<longleftrightarrow> d \<noteq> 0"
    using fin by (auto simp: a_def b_def c_def d_def count_mset_set' not_in_iff)
  show "x \<in> set free \<Longrightarrow> x < n \<and> x \<notin> set dq \<and> x \<notin> live \<and> x \<notin># hand"
    "x \<in> set dq \<Longrightarrow> x < n \<and> x \<notin> set free \<and> x \<notin> live \<and> x \<notin># hand"
    "x \<in> live \<Longrightarrow> x < n \<and> x \<notin> set free \<and> x \<notin> set dq \<and> x \<notin># hand"
    "x \<in># hand \<Longrightarrow> x < n \<and> x \<notin> set free \<and> x \<notin> set dq \<and> x \<notin> live"
    using cnt unfolding in_dom by (auto split: if_splits)
qed

lemma slots_ok_cover:
  assumes "slots_ok n free dq live hand" and "x < n"
  shows "x \<in> set free \<or> x \<in> set dq \<or> x \<in> live \<or> x \<in># hand"
proof -
  have "set_mset (mset free + mset dq + mset_set live + hand) = {..<n}"
    using assms(1) by (simp add: slots_ok_def)
  then have "x \<in> set free \<union> set dq \<union> set_mset (mset_set live) \<union> set_mset hand"
    using assms(2) by (simp only: set_mset_union set_mset_mset) blast
  with assms(1) show ?thesis by (auto simp: slots_ok_def)
qed

lemma slots_ok_free_length:
  assumes "slots_ok n free dq live hand"
  shows "length free + length dq + card live + size hand = n"
proof -
  have "size (mset free + mset dq + mset_set live + hand) = n"
    using assms by (simp add: slots_ok_def)
  then show ?thesis by (simp only: size_union size_mset size_mset_set)
qed

lemma slots_ok_alloc: "slots_ok n (x # free) dq live hand \<Longrightarrow> slots_ok n free dq live (add_mset x hand)"
  by (simp add: slots_ok_def)

lemma slots_ok_return: "slots_ok n free dq live (add_mset x hand) \<Longrightarrow> slots_ok n (free @ [x]) dq live hand"
  by (simp add: slots_ok_def)

lemma slots_ok_publish:
  assumes "slots_ok n free dq live (add_mset x hand)"
  shows "slots_ok n free dq (insert x live) hand"
proof -
  have "x \<notin> live" using slots_ok_member(4) [OF assms, of x] by simp
  with assms show ?thesis by (simp add: slots_ok_def)
qed

lemma slots_ok_retire:
  assumes "slots_ok n free dq live hand" and "x \<in> live" and "mset dq' + mset fr = mset dq + {#x#}"
  shows "slots_ok n free dq' (live - {x}) (hand + mset fr)"
proof -
  have "mset_set live = add_mset x (mset_set (live - {x}))"
    using assms(1,2) by (simp add: slots_ok_def mset_set.remove)
  moreover have "mset free + (mset dq' + mset fr) + mset_set (live - {x}) + hand = mset_set {..<n}"
    using assms by (simp add: slots_ok_def calculation)
  ultimately show ?thesis
    using assms(1) by (simp add: slots_ok_def ac_simps)
qed

lemma slots_ok_release:
  assumes "slots_ok n free dq live hand" and "mset dq' + mset fr = mset dq"
  shows "slots_ok n free dq' live (hand + mset fr)"
  using assms(1) by (simp add: slots_ok_def ac_simps flip: assms(2))

lemma slots_ok_init: "slots_ok n [0..<n] [] {} {#}"
  by (simp add: slots_ok_def atLeast0LessThan flip: mset_set_set)

end
