(* ===== verification/Snat.thy ===== *)
theory Snat
  imports Tcp_Conntrack Dpdk
begin

text \<open>
  The per-subscriber SNAT table (\<^verbatim>\<open>src/src/pppd/nat.h\<close> and the NAT fields of \<open>ppp_ccb_t\<close> in
  \<^verbatim>\<open>pppd.h\<close>): the entry pool with its structure-of-arrays deadlines, the reverse and forward hashes,
  the free list, garbage collection, port-reuse learning for TCP, UDP and ICMP, the inbound reverse
  lookup, and the direct-indexed port-forwarding table.

  An operation runs to completion before the next one starts; within one operation the cycle
  counter is read once. The hashes, the ring and the CRC are parameters (theory \<open>Dpdk\<close>).
\<close>

section \<open>State\<close>

abbreviation SYS_MAX_PORT :: nat where "SYS_MAX_PORT \<equiv> 1000"
abbreviation NAT_PORT_RANGE :: nat where "NAT_PORT_RANGE \<equiv> TOTAL_SOCK_PORT - SYS_MAX_PORT"
abbreviation NAT_ENTRY_TIMEOUT_SEC :: u64 where "NAT_ENTRY_TIMEOUT_SEC \<equiv> 10"
abbreviation NAT_GC_SCAN_CHUNK :: nat where "NAT_GC_SCAN_CHUNK \<equiv> 512"
abbreviation NAT_ENTRY_FREE :: u16 where "NAT_ENTRY_FREE \<equiv> 0"
abbreviation NAT_ENTRY_READY :: u16 where "NAT_ENTRY_READY \<equiv> 1"

definition MAX_NAT_ENTRIES :: nat where
  "MAX_NAT_ENTRIES = TOTAL_SOCK_PORT * 4"

text \<open>
  One pool entry. The pointer \<open>expire_slot\<close> of the C structure always points into the subscriber's
  \<open>nat_expire_at\<close> array; it is the index it points at.
\<close>

record addr_table =
  at_mac_addr :: "48 word"
  at_src_ip :: u32
  at_dst_ip :: u32
  at_src_port :: u16
  at_dst_port :: u16
  at_nat_port :: u16
  at_proto :: u8
  at_tcp_state :: u8
  at_tcp_fin_flags :: u8
  at_is_fill :: u16
  at_expire_slot :: nat
  at_max_seq_end_lan :: u32
  at_max_seq_end_wan :: u32
  at_max_ack_lan :: u32
  at_max_ack_wan :: u32
  at_max_win_lan :: u16
  at_max_win_wan :: u16

record port_fwd_entry =
  pf_dip :: u32
  pf_iport :: u16
  pf_is_active :: u16
  pf_hit_count :: u64

record nat_reverse_key =
  rk_dst_ip :: u32
  rk_nat_port :: u16
  rk_dst_port :: u16

record nat_forward_key =
  fk_src_ip :: u32
  fk_dst_ip :: u32
  fk_src_port :: u16
  fk_dst_port :: u16

record ('rh, 'fh, 'rg) nat_ccb =
  addr_tab :: "nat \<Rightarrow> addr_table"
  nat_expire_at :: "nat \<Rightarrow> u64"
  nat_enospc :: u64
  nat_gc_reclaimed :: u64
  nat_reverse_hash :: 'rh
  nat_forward_hash :: 'fh
  nat_free_ring :: 'rg
  nat_gc_counter :: u32
  port_fwd_table :: "u16 \<Rightarrow> port_fwd_entry"

text \<open>The library objects the table calls.\<close>

record ('rh, 'fh, 'rg) nat_dpdk =
  rev_ops :: "('rh, nat_reverse_key) rte_hash"
  fwd_ops :: "('fh, nat_forward_key) rte_hash"
  ring_ops :: "'rg rte_ring"
  hash_crc_4byte :: "u32 \<Rightarrow> u32 \<Rightarrow> u32"

section \<open>Deadlines and keys\<close>

definition nat_expiry_cycles :: "clock \<Rightarrow> u64" where
  "nat_expiry_cycles clk = cur_cycles clk + NAT_ENTRY_TIMEOUT_SEC * cycles_in_sec clk"

definition nat_entry_is_expired :: "clock \<Rightarrow> ('rh, 'fh, 'rg) nat_ccb \<Rightarrow> nat \<Rightarrow> bool" where
  "nat_entry_is_expired clk st i \<longleftrightarrow> nat_expire_at st (at_expire_slot (addr_tab st i)) < cur_cycles clk"

definition nat_refresh_slot :: "clock \<Rightarrow> nat \<Rightarrow> ('rh, 'fh, 'rg) nat_ccb \<Rightarrow> ('rh, 'fh, 'rg) nat_ccb" where
  "nat_refresh_slot clk i st =
     (let s = at_expire_slot (addr_tab st i) in
      st\<lparr>nat_expire_at := (nat_expire_at st)(s :=
         nat_expire_refresh clk (nat_expire_at st s) (nat_expiry_cycles clk))\<rparr>)"

definition forward_key_of :: "addr_table \<Rightarrow> nat_forward_key" where
  "forward_key_of e = \<lparr>fk_src_ip = at_src_ip e, fk_dst_ip = at_dst_ip e,
     fk_src_port = at_src_port e, fk_dst_port = at_dst_port e\<rparr>"

definition reverse_key_of :: "addr_table \<Rightarrow> nat_reverse_key" where
  "reverse_key_of e = \<lparr>rk_dst_ip = at_dst_ip e, rk_nat_port = at_nat_port e, rk_dst_port = at_dst_port e\<rparr>"

section \<open>Pool and hashes\<close>

definition nat_reverse_hash_free_cb ::
  "('rh, 'fh, 'rg) nat_dpdk \<Rightarrow> nat \<Rightarrow> ('rh, 'fh, 'rg) nat_ccb \<Rightarrow> ('rh, 'fh, 'rg) nat_ccb" where
  "nat_reverse_hash_free_cb D idx st =
     st\<lparr>nat_expire_at := (nat_expire_at st)(idx := 0),
        addr_tab := (addr_tab st)(idx := (addr_tab st idx)\<lparr>at_is_fill := NAT_ENTRY_FREE\<rparr>),
        nat_free_ring := fst (ring_enqueue (ring_ops D) (nat_free_ring st) idx)\<rparr>"

text \<open>The callbacks a hash operation runs, in the order the defer queue releases the data.\<close>

definition run_free_cbs ::
  "('rh, 'fh, 'rg) nat_dpdk \<Rightarrow> nat list \<Rightarrow> ('rh, 'fh, 'rg) nat_ccb \<Rightarrow> ('rh, 'fh, 'rg) nat_ccb" where
  "run_free_cbs D freed st = fold (nat_reverse_hash_free_cb D) freed st"

fun nat_table_init_entries :: "nat \<Rightarrow> ('rh, 'fh, 'rg) nat_ccb \<Rightarrow> ('rh, 'fh, 'rg) nat_ccb" where
  "nat_table_init_entries 0 st = st"
| "nat_table_init_entries (Suc i) st =
     (let st' = nat_table_init_entries i st in
      st'\<lparr>addr_tab := (addr_tab st')(i := (addr_tab st' i)\<lparr>at_expire_slot := i, at_is_fill := NAT_ENTRY_FREE\<rparr>),
          nat_expire_at := (nat_expire_at st')(i := 0)\<rparr>)"

fun nat_table_enqueue_all_entries_to_ring ::
  "('rh, 'fh, 'rg) nat_dpdk \<Rightarrow> nat \<Rightarrow> ('rh, 'fh, 'rg) nat_ccb \<Rightarrow> ('rh, 'fh, 'rg) nat_ccb" where
  "nat_table_enqueue_all_entries_to_ring D 0 st = st"
| "nat_table_enqueue_all_entries_to_ring D (Suc i) st =
     (let st' = nat_table_enqueue_all_entries_to_ring D i st in
      st'\<lparr>nat_free_ring := fst (ring_enqueue (ring_ops D) (nat_free_ring st') i)\<rparr>)"

definition nat_entry_del_keys ::
  "('rh, 'fh, 'rg) nat_dpdk \<Rightarrow> nat \<Rightarrow> ('rh, 'fh, 'rg) nat_ccb \<Rightarrow> bool \<times> ('rh, 'fh, 'rg) nat_ccb" where
  "nat_entry_del_keys D i st =
     (let fkey = forward_key_of (addr_tab st i);
          rkey = reverse_key_of (addr_tab st i);
          (fh, fok, ffreed) = hash_del (fwd_ops D) (nat_forward_hash st) fkey;
          (rh, rok, rfreed) = hash_del (rev_ops D) (nat_reverse_hash st) rkey
      in (rok, run_free_cbs D rfreed (st\<lparr>nat_forward_hash := fh, nat_reverse_hash := rh\<rparr>)))"

fun nat_del_all_from ::
  "('rh, 'fh, 'rg) nat_dpdk \<Rightarrow> nat list \<Rightarrow> ('rh, 'fh, 'rg) nat_ccb \<Rightarrow> ('rh, 'fh, 'rg) nat_ccb" where
  "nat_del_all_from D [] st = st"
| "nat_del_all_from D (i # is) st =
     (if nat_expire_at st i = 0 then nat_del_all_from D is st
      else if at_is_fill (addr_tab st i) = NAT_ENTRY_READY
      then nat_del_all_from D is (snd (nat_entry_del_keys D i st))
      else nat_del_all_from D is st)"

definition nat_table_del_all_entries_from_hash ::
  "('rh, 'fh, 'rg) nat_dpdk \<Rightarrow> ('rh, 'fh, 'rg) nat_ccb \<Rightarrow> ('rh, 'fh, 'rg) nat_ccb" where
  "nat_table_del_all_entries_from_hash D st =
     (nat_del_all_from D [0..<MAX_NAT_ENTRIES] st)
       \<lparr>nat_gc_counter := 0, nat_enospc := 0, nat_gc_reclaimed := 0\<rparr>"

section \<open>Garbage collection\<close>

definition nat_gc_slot ::
  "('rh, 'fh, 'rg) nat_dpdk \<Rightarrow> clock \<Rightarrow> nat \<Rightarrow> u32 \<times> ('rh, 'fh, 'rg) nat_ccb \<Rightarrow> u32 \<times> ('rh, 'fh, 'rg) nat_ccb" where
  "nat_gc_slot D clk idx acc =
     (case acc of (reclaimed, st) \<Rightarrow>
        let deadline = nat_expire_at st idx in
        if deadline = 0 \<or> cur_cycles clk < deadline then (reclaimed, st)
        else if at_is_fill (addr_tab st idx) \<noteq> NAT_ENTRY_READY then (reclaimed, st)
        else case nat_entry_del_keys D idx st of
          (ok, st') \<Rightarrow> (if ok then reclaimed + 1 else reclaimed, st'))"

definition nat_gc_scan_by_ccb ::
  "('rh, 'fh, 'rg) nat_dpdk \<Rightarrow> clock \<Rightarrow> nat \<Rightarrow> ('rh, 'fh, 'rg) nat_ccb \<Rightarrow> u32 \<times> ('rh, 'fh, 'rg) nat_ccb" where
  "nat_gc_scan_by_ccb D clk max_slots st =
     (let start = nat_gc_counter st;
          st0 = st\<lparr>nat_gc_counter := start + of_nat max_slots\<rparr>;
          (reclaimed, st1) =
            fold (\<lambda>n. nat_gc_slot D clk (unat (start + of_nat n) mod MAX_NAT_ENTRIES)) [0..<max_slots] (0, st0);
          st2 = (if 0 < reclaimed
                 then st1\<lparr>nat_gc_reclaimed := nat_gc_reclaimed st1 + ucast reclaimed\<rparr> else st1);
          (rh, rfreed) = hash_reclaim (rev_ops D) (nat_reverse_hash st2);
          st3 = run_free_cbs D rfreed (st2\<lparr>nat_reverse_hash := rh\<rparr>);
          (fh, ffreed) = hash_reclaim (fwd_ops D) (nat_forward_hash st3)
      in (reclaimed, st3\<lparr>nat_forward_hash := fh\<rparr>))"

definition nat_slot_alloc ::
  "('rh, 'fh, 'rg) nat_dpdk \<Rightarrow> clock \<Rightarrow> ('rh, 'fh, 'rg) nat_ccb \<Rightarrow> nat option \<times> ('rh, 'fh, 'rg) nat_ccb" where
  "nat_slot_alloc D clk st =
     (case ring_dequeue (ring_ops D) (nat_free_ring st) of
        (rg, Some idx) \<Rightarrow> (Some idx, st\<lparr>nat_free_ring := rg\<rparr>)
      | (rg, None) \<Rightarrow>
          let st1 = snd (nat_gc_scan_by_ccb D clk NAT_GC_SCAN_CHUNK (st\<lparr>nat_free_ring := rg\<rparr>));
              (rh, rfreed) = hash_reclaim (rev_ops D) (nat_reverse_hash st1);
              st2 = run_free_cbs D rfreed (st1\<lparr>nat_reverse_hash := rh\<rparr>)
          in case ring_dequeue (ring_ops D) (nat_free_ring st2) of
               (rg', res) \<Rightarrow> (res, st2\<lparr>nat_free_ring := rg'\<rparr>))"

section \<open>Learning\<close>

definition compute_initial_nat_port :: "('rh, 'fh, 'rg) nat_dpdk \<Rightarrow> u32 \<Rightarrow> u16 \<Rightarrow> u16" where
  "compute_initial_nat_port D sip sport =
     (let h1 = hash_crc_4byte D sip 0;
          h2 = hash_crc_4byte D (ucast sport) h1
      in rte_cpu_to_be_16 (of_nat (unat (ucast h2 :: u16) mod NAT_PORT_RANGE + SYS_MAX_PORT)))"

definition nat_entry_same_flow :: "addr_table \<Rightarrow> u16 \<Rightarrow> u32 \<Rightarrow> u16 \<Rightarrow> u32 \<Rightarrow> u16 \<Rightarrow> bool" where
  "nat_entry_same_flow e port sip sport dip dport \<longleftrightarrow>
     at_nat_port e = port \<and> at_src_ip e = sip \<and> at_src_port e = sport \<and>
     at_dst_ip e = dip \<and> at_dst_port e = dport"

definition next_nat_port :: "u16 \<Rightarrow> u16" where
  "next_nat_port port =
     (let host = unat (rte_be_to_cpu_16 port) + 1;
          host' = (if TOTAL_SOCK_PORT \<le> host then SYS_MAX_PORT else host)
      in rte_cpu_to_be_16 (of_nat host'))"

text \<open>The flow being learned: the arguments of \<open>nat_learning_port_reuse\<close>.\<close>

record nat_flow =
  fl_mac :: "48 word"
  fl_proto :: u8
  fl_src_ip :: u32
  fl_dst_ip :: u32
  fl_src_port :: u16
  fl_dst_port :: u16

definition flow_fkey :: "nat_flow \<Rightarrow> nat_forward_key" where
  "flow_fkey f = \<lparr>fk_src_ip = fl_src_ip f, fk_dst_ip = fl_dst_ip f,
     fk_src_port = fl_src_port f, fk_dst_port = fl_dst_port f\<rparr>"

definition flow_rkey :: "nat_flow \<Rightarrow> u16 \<Rightarrow> nat_reverse_key" where
  "flow_rkey f port = \<lparr>rk_dst_ip = fl_dst_ip f, rk_nat_port = port, rk_dst_port = fl_dst_port f\<rparr>"

definition fill_entry :: "nat_flow \<Rightarrow> u16 \<Rightarrow> addr_table \<Rightarrow> addr_table" where
  "fill_entry f port e = e\<lparr>at_mac_addr := fl_mac f, at_src_ip := fl_src_ip f, at_dst_ip := fl_dst_ip f,
     at_src_port := fl_src_port f, at_dst_port := fl_dst_port f, at_nat_port := port,
     at_proto := fl_proto f, at_tcp_state := TCP_CONNTRACK_NONE, at_tcp_fin_flags := 0,
     at_max_seq_end_lan := 0, at_max_seq_end_wan := 0, at_max_ack_lan := 0, at_max_ack_wan := 0,
     at_max_win_lan := 0, at_max_win_wan := 0, at_is_fill := NAT_ENTRY_READY\<rparr>"

definition same_flow_entry :: "nat_flow \<Rightarrow> u16 \<Rightarrow> addr_table \<Rightarrow> bool" where
  "same_flow_entry f port e =
     nat_entry_same_flow e port (fl_src_ip f) (fl_src_port f) (fl_dst_ip f) (fl_dst_port f)"

text \<open>
  The result of one candidate port: the function returns (\<open>Inl\<close>: the port, the entry handed out,
  the state), or the walk goes on to the next port (\<open>Inr\<close>).
\<close>

type_synonym ('rh, 'fh, 'rg) nat_try =
  "(u16 \<times> nat option \<times> ('rh, 'fh, 'rg) nat_ccb) + ('rh, 'fh, 'rg) nat_ccb"

definition nat_count_enospc :: "('rh, 'fh, 'rg) nat_ccb \<Rightarrow> ('rh, 'fh, 'rg) nat_ccb" where
  "nat_count_enospc st = st\<lparr>nat_enospc := nat_enospc st + 1\<rparr>"

text \<open>Publishing a freshly filled slot: reverse key first, then forward key, with both roll-backs.\<close>

definition nat_publish ::
  "('rh, 'fh, 'rg) nat_dpdk \<Rightarrow> clock \<Rightarrow> nat_flow \<Rightarrow> u16 \<Rightarrow> nat \<Rightarrow> ('rh, 'fh, 'rg) nat_ccb \<Rightarrow> ('rh, 'fh, 'rg) nat_try" where
  "nat_publish D clk f port idx st =
     (let e = fill_entry f port (addr_tab st idx);
          st1 = st\<lparr>addr_tab := (addr_tab st)(idx := e),
                   nat_expire_at := (nat_expire_at st)(at_expire_slot e :=
                     nat_expire_set (nat_expire_at st (at_expire_slot e)) (nat_expiry_cycles clk))\<rparr>;
          (rh, rok, rfreed) = hash_add (rev_ops D) (nat_reverse_hash st1) (flow_rkey f port) idx;
          st2 = run_free_cbs D rfreed (st1\<lparr>nat_reverse_hash := rh\<rparr>)
      in if \<not> rok
         then Inr (st2\<lparr>addr_tab := (addr_tab st2)(idx := (addr_tab st2 idx)\<lparr>at_is_fill := NAT_ENTRY_FREE\<rparr>),
                       nat_free_ring := fst (ring_enqueue (ring_ops D) (nat_free_ring st2) idx)\<rparr>)
         else
           let (fh, fok, ffreed) = hash_add (fwd_ops D) (nat_forward_hash st2) (flow_fkey f) idx;
               st3 = st2\<lparr>nat_forward_hash := fh\<rparr>
           in if \<not> fok
              then let (rh', rok', rfreed') = hash_del (rev_ops D) (nat_reverse_hash st3) (flow_rkey f port)
                   in Inl (0, None, nat_count_enospc (run_free_cbs D rfreed' (st3\<lparr>nat_reverse_hash := rh'\<rparr>)))
              else Inl (port, Some idx, st3))"

text \<open>The part under \<open>nat_insert_lock\<close>: re-check both hashes, allocate, fill, publish.\<close>

definition nat_insert_locked ::
  "('rh, 'fh, 'rg) nat_dpdk \<Rightarrow> clock \<Rightarrow> nat_flow \<Rightarrow> u16 \<Rightarrow> ('rh, 'fh, 'rg) nat_ccb \<Rightarrow> ('rh, 'fh, 'rg) nat_try" where
  "nat_insert_locked D clk f port st =
     (case hash_lookup (fwd_ops D) (nat_forward_hash st) (flow_fkey f) of
        Some i \<Rightarrow> Inl (at_nat_port (addr_tab st i), Some i, nat_refresh_slot clk i st)
      | None \<Rightarrow>
        (case hash_lookup (rev_ops D) (nat_reverse_hash st) (flow_rkey f port) of
           Some i \<Rightarrow>
             if same_flow_entry f port (addr_tab st i)
             then Inl (port, Some i, nat_refresh_slot clk i st) else Inr st
         | None \<Rightarrow>
           (case nat_slot_alloc D clk st of
              (None, st1) \<Rightarrow> Inl (0, None, nat_count_enospc st1)
            | (Some idx, st1) \<Rightarrow> nat_publish D clk f port idx st1)))"

definition nat_try_port ::
  "('rh, 'fh, 'rg) nat_dpdk \<Rightarrow> clock \<Rightarrow> nat_flow \<Rightarrow> u16 \<Rightarrow> ('rh, 'fh, 'rg) nat_ccb \<Rightarrow> ('rh, 'fh, 'rg) nat_try" where
  "nat_try_port D clk f port st =
     (if pf_is_active (port_fwd_table st (rte_be_to_cpu_16 port)) = 1 then Inr st
      else case hash_lookup (rev_ops D) (nat_reverse_hash st) (flow_rkey f port) of
        Some i \<Rightarrow>
          if same_flow_entry f port (addr_tab st i)
          then Inl (port, Some i, nat_refresh_slot clk i st)
          else if \<not> nat_entry_is_expired clk st i then Inr st
          else nat_insert_locked D clk f port (snd (nat_entry_del_keys D i st))
      | None \<Rightarrow> nat_insert_locked D clk f port st)"

text \<open>The candidate-port loop; \<open>None\<close> when the fuel runs out.\<close>

fun nat_port_walk ::
  "nat \<Rightarrow> ('rh, 'fh, 'rg) nat_dpdk \<Rightarrow> clock \<Rightarrow> nat_flow \<Rightarrow> u16 \<Rightarrow> u16 \<Rightarrow> ('rh, 'fh, 'rg) nat_ccb \<Rightarrow>
   (u16 \<times> nat option \<times> ('rh, 'fh, 'rg) nat_ccb) option" where
  "nat_port_walk fuel D clk f start port st =
     (if fuel = 0 then None
      else case nat_try_port D clk f port st of
        Inl r \<Rightarrow> Some r
      | Inr st' \<Rightarrow>
          if next_nat_port port = start then Some (0, None, nat_count_enospc st')
          else nat_port_walk (fuel - 1) D clk f start (next_nat_port port) st')"

declare nat_port_walk.simps [simp del]

definition nat_learning_port_reuse ::
  "('rh, 'fh, 'rg) nat_dpdk \<Rightarrow> clock \<Rightarrow> nat_flow \<Rightarrow> ('rh, 'fh, 'rg) nat_ccb \<Rightarrow>
   (u16 \<times> nat option \<times> ('rh, 'fh, 'rg) nat_ccb) option" where
  "nat_learning_port_reuse D clk f st =
     (case hash_lookup (fwd_ops D) (nat_forward_hash st) (flow_fkey f) of
        Some i \<Rightarrow> Some (at_nat_port (addr_tab st i), Some i, nat_refresh_slot clk i st)
      | None \<Rightarrow>
          let start = compute_initial_nat_port D (fl_src_ip f) (fl_src_port f)
          in nat_port_walk NAT_PORT_RANGE D clk f start start st)"

section \<open>Inbound lookup\<close>

definition nat_reverse_lookup ::
  "('rh, 'fh, 'rg) nat_dpdk \<Rightarrow> clock \<Rightarrow> u16 \<Rightarrow> u32 \<Rightarrow> u16 \<Rightarrow> ('rh, 'fh, 'rg) nat_ccb \<Rightarrow>
   nat option \<times> ('rh, 'fh, 'rg) nat_ccb" where
  "nat_reverse_lookup D clk port remote_ip remote_port st =
     (case hash_lookup (rev_ops D) (nat_reverse_hash st)
             \<lparr>rk_dst_ip = remote_ip, rk_nat_port = port, rk_dst_port = remote_port\<rparr> of
        None \<Rightarrow> (None, st)
      | Some i \<Rightarrow>
          if nat_entry_is_expired clk st i then (None, snd (nat_entry_del_keys D i st))
          else (Some i, nat_refresh_slot clk i st))"

section \<open>Protocols\<close>

record ipv4_hdr =
  ip_version_ihl :: u8
  ip_total_length :: u16
  ip_src_addr :: u32
  ip_dst_addr :: u32

definition nat_icmp_learning where
  "nat_icmp_learning D clk mac ip icmp_ident icmp_type st =
     nat_learning_port_reuse D clk
       \<lparr>fl_mac = mac, fl_proto = IPPROTO_ICMP, fl_src_ip = ip_src_addr ip, fl_dst_ip = ip_dst_addr ip,
        fl_src_port = icmp_ident, fl_dst_port = ucast (icmp_type :: u8)\<rparr> st"

definition nat_udp_learning where
  "nat_udp_learning D clk mac ip udp_src_port udp_dst_port st =
     nat_learning_port_reuse D clk
       \<lparr>fl_mac = mac, fl_proto = IPPROTO_UDP, fl_src_ip = ip_src_addr ip, fl_dst_ip = ip_dst_addr ip,
        fl_src_port = udp_src_port, fl_dst_port = udp_dst_port\<rparr> st"

text \<open>The view the tracker gets of an entry and its deadline.\<close>

definition tcp_conntrack_nat_view :: "addr_table \<times> u64 \<Rightarrow> tcp_conntrack_view" where
  "tcp_conntrack_nat_view p = (case p of (e, slot) \<Rightarrow>
     \<lparr>tcp_state = at_tcp_state e, tcp_fin_flags = at_tcp_fin_flags e, expire_slot = slot,
      max_seq_end_lan = at_max_seq_end_lan e, max_seq_end_wan = at_max_seq_end_wan e,
      max_ack_lan = at_max_ack_lan e, max_ack_wan = at_max_ack_wan e,
      max_win_lan = at_max_win_lan e, max_win_wan = at_max_win_wan e\<rparr>)"

definition nat_view_write :: "tcp_conntrack_view \<Rightarrow> addr_table \<times> u64 \<Rightarrow> addr_table \<times> u64" where
  "nat_view_write v p = (case p of (e, slot) \<Rightarrow>
     (e\<lparr>at_tcp_state := tcp_state v, at_tcp_fin_flags := tcp_fin_flags v,
        at_max_seq_end_lan := max_seq_end_lan v, at_max_seq_end_wan := max_seq_end_wan v,
        at_max_ack_lan := max_ack_lan v, at_max_ack_wan := max_ack_wan v,
        at_max_win_lan := max_win_lan v, at_max_win_wan := max_win_wan v\<rparr>, expire_slot v))"

definition nat_entry_pair :: "('rh, 'fh, 'rg) nat_ccb \<Rightarrow> nat \<Rightarrow> addr_table \<times> u64" where
  "nat_entry_pair st i = (addr_tab st i, nat_expire_at st (at_expire_slot (addr_tab st i)))"

definition nat_set_entry_pair ::
  "nat \<Rightarrow> addr_table \<times> u64 \<Rightarrow> ('rh, 'fh, 'rg) nat_ccb \<Rightarrow> ('rh, 'fh, 'rg) nat_ccb" where
  "nat_set_entry_pair i p st =
     st\<lparr>addr_tab := (addr_tab st)(i := fst p),
        nat_expire_at := (nat_expire_at st)(at_expire_slot (fst p) := snd p)\<rparr>"

definition tcp_conntrack_fsm ::
  "clock \<Rightarrow> nat \<Rightarrow> u8 \<Rightarrow> bool \<Rightarrow> ('rh, 'fh, 'rg) nat_ccb \<Rightarrow> status \<times> ('rh, 'fh, 'rg) nat_ccb" where
  "tcp_conntrack_fsm clk i flags is_reply st =
     (case tcp_conntrack_fsm_view clk (tcp_conntrack_nat_view (nat_entry_pair st i)) flags is_reply of
        (res, v) \<Rightarrow> (res, nat_set_entry_pair i (nat_view_write v (nat_entry_pair st i)) st))"

definition tcp_conntrack_seq_valid :: "('rh, 'fh, 'rg) nat_ccb \<Rightarrow> nat \<Rightarrow> tcp_hdr \<Rightarrow> bool \<Rightarrow> bool" where
  "tcp_conntrack_seq_valid st i hdr is_reply =
     tcp_conntrack_seq_valid_view (tcp_conntrack_nat_view (nat_entry_pair st i)) hdr is_reply"

definition tcp_conntrack_seq_update ::
  "nat \<Rightarrow> tcp_hdr \<Rightarrow> u16 \<Rightarrow> bool \<Rightarrow> ('rh, 'fh, 'rg) nat_ccb \<Rightarrow> ('rh, 'fh, 'rg) nat_ccb" where
  "tcp_conntrack_seq_update i hdr payload_len is_reply st =
     nat_set_entry_pair i
       (nat_view_write
          (tcp_conntrack_seq_update_view (tcp_conntrack_nat_view (nat_entry_pair st i)) hdr payload_len is_reply)
          (nat_entry_pair st i)) st"

definition nat_tcp_learning ::
  "('rh, 'fh, 'rg) nat_dpdk \<Rightarrow> clock \<Rightarrow> 48 word \<Rightarrow> ipv4_hdr \<Rightarrow> tcp_hdr \<Rightarrow> ('rh, 'fh, 'rg) nat_ccb \<Rightarrow>
   (u16 \<times> ('rh, 'fh, 'rg) nat_ccb) option" where
  "nat_tcp_learning D clk mac ip hdr st =
     (case nat_learning_port_reuse D clk
             \<lparr>fl_mac = mac, fl_proto = IPPROTO_TCP, fl_src_ip = ip_src_addr ip, fl_dst_ip = ip_dst_addr ip,
              fl_src_port = src_port hdr, fl_dst_port = dst_port hdr\<rparr> st of
        None \<Rightarrow> None
      | Some (port, out, st1) \<Rightarrow>
          (case out of
             None \<Rightarrow> Some (port, st1)
           | Some i \<Rightarrow>
               if port = 0 then Some (port, st1)
               else
                 let st2 = snd (tcp_conntrack_fsm clk i (tcp_flags hdr) False st1);
                     ip_hdr_len = ucast (ip_version_ihl ip AND 0x0F) * 4 :: u16;
                     tcp_hdr_len = ucast (drop_bit 4 (data_off hdr) AND 0x0F) * 4 :: u16;
                     payload_len = rte_be_to_cpu_16 (ip_total_length ip) - ip_hdr_len - tcp_hdr_len
                 in Some (port, tcp_conntrack_seq_update i hdr payload_len False st2)))"

section \<open>Port forwarding\<close>

definition port_fwd_lookup_by_eport :: "(u16 \<Rightarrow> port_fwd_entry) \<Rightarrow> u16 \<Rightarrow> port_fwd_entry option" where
  "port_fwd_lookup_by_eport table eport =
     (if pf_is_active (table eport) = 1 then Some (table eport) else None)"

definition port_fwd_add ::
  "(u16 \<Rightarrow> port_fwd_entry) \<Rightarrow> u16 \<Rightarrow> u32 \<Rightarrow> u16 \<Rightarrow> (u16 \<Rightarrow> port_fwd_entry)" where
  "port_fwd_add table eport dip iport =
     (if pf_is_active (table eport) = 1 then table
      else table(eport := (table eport)\<lparr>pf_dip := dip, pf_iport := rte_cpu_to_be_16 iport,
                            pf_hit_count := 0, pf_is_active := 1\<rparr>))"

definition port_fwd_remove :: "(u16 \<Rightarrow> port_fwd_entry) \<Rightarrow> u16 \<Rightarrow> status \<times> (u16 \<Rightarrow> port_fwd_entry)" where
  "port_fwd_remove table eport =
     (if pf_is_active (table eport) = 0 then (ERROR, table)
      else (SUCCESS, table(eport := (table eport)\<lparr>pf_is_active := 0, pf_dip := 0, pf_iport := 0,
                              pf_hit_count := 0\<rparr>)))"

definition nat_port_fwd_reverse_lookup ::
  "(u16 \<Rightarrow> port_fwd_entry) \<Rightarrow> u16 \<Rightarrow> status \<times> (u32 \<times> u16) option" where
  "nat_port_fwd_reverse_lookup table dport =
     (case port_fwd_lookup_by_eport table (rte_be_to_cpu_16 dport) of
        None \<Rightarrow> (ERROR, None)
      | Some e \<Rightarrow> (SUCCESS, Some (pf_dip e, pf_iport e)))"

section \<open>The tracker on an entry\<close>

text \<open>What tracking never writes: the addresses, the state of the slot and its deadline index.\<close>

definition nat_entry_id where
  "nat_entry_id p = (case p of (e, slot :: u64) \<Rightarrow>
     (at_mac_addr e, reverse_key_of e, forward_key_of e, at_proto e, at_is_fill e, at_expire_slot e))"

interpretation nat_conn: conntrack_view tcp_conntrack_nat_view nat_view_write nat_entry_id
  by unfold_locales (auto simp: tcp_conntrack_nat_view_def nat_view_write_def nat_entry_id_def
      reverse_key_of_def forward_key_of_def split: prod.splits)

end
