(* ===== verification/Snat_Inv.thy ===== *)
theory Snat_Inv
  imports Snat
begin

text \<open>
  Invariants of the SNAT table. \<open>pool_inv\<close> is the slot accounting that every operation keeps in
  every state: each slot is free, waiting in the defer queue or published, never two of these, and a
  published slot is ready and carries its own reverse key. \<open>flow_inv\<close> adds that the forward and the
  reverse hash agree. The properties of learning, reverse lookup and garbage collection follow.
\<close>

section \<open>Abstraction of the library objects\<close>

record ('rh, 'fh, 'rg) nat_abs =
  absR :: "'rh \<Rightarrow> nat_reverse_key \<Rightarrow> nat option"
  absQ :: "'rh \<Rightarrow> nat list"
  absF :: "'fh \<Rightarrow> nat_forward_key \<Rightarrow> nat option"
  absFQ :: "'fh \<Rightarrow> nat list"
  absL :: "'rg \<Rightarrow> nat list"

definition nat_dpdk_ok :: "('rh, 'fh, 'rg) nat_dpdk \<Rightarrow> ('rh, 'fh, 'rg) nat_abs \<Rightarrow> bool" where
  "nat_dpdk_ok D M \<longleftrightarrow>
     rte_hash_contract (rev_ops D) (absR M) (absQ M) \<and>
     rte_hash_contract (fwd_ops D) (absF M) (absFQ M) \<and>
     rte_ring_contract (ring_ops D) (absL M) MAX_NAT_ENTRIES"

abbreviation rev_map where "rev_map M st \<equiv> absR M (nat_reverse_hash st)"
abbreviation fwd_map where "fwd_map M st \<equiv> absF M (nat_forward_hash st)"
abbreviation dq where "dq M st \<equiv> absQ M (nat_reverse_hash st)"
abbreviation free_list where "free_list M st \<equiv> absL M (nat_free_ring st)"

definition pool_inv :: "('rh, 'fh, 'rg) nat_abs \<Rightarrow> nat multiset \<Rightarrow> ('rh, 'fh, 'rg) nat_ccb \<Rightarrow> bool" where
  "pool_inv M hand st \<longleftrightarrow>
     slots_ok MAX_NAT_ENTRIES (free_list M st) (dq M st) (ran (rev_map M st)) hand \<and>
     (\<forall>k i. rev_map M st k = Some i \<longrightarrow>
        at_is_fill (addr_tab st i) = NAT_ENTRY_READY \<and> reverse_key_of (addr_tab st i) = k) \<and>
     (\<forall>i \<in> set (free_list M st). at_is_fill (addr_tab st i) = NAT_ENTRY_FREE) \<and>
     (\<forall>i < MAX_NAT_ENTRIES. at_expire_slot (addr_tab st i) = i)"

lemma MAX_NAT_ENTRIES_pos: "0 < MAX_NAT_ENTRIES"
  by (simp add: MAX_NAT_ENTRIES_def)

lemma pool_invD:
  assumes "pool_inv M hand st"
  shows "slots_ok MAX_NAT_ENTRIES (free_list M st) (dq M st) (ran (rev_map M st)) hand"
    and "rev_map M st k = Some i \<Longrightarrow> at_is_fill (addr_tab st i) = NAT_ENTRY_READY"
    and "rev_map M st k = Some i \<Longrightarrow> reverse_key_of (addr_tab st i) = k"
    and "i \<in> set (free_list M st) \<Longrightarrow> at_is_fill (addr_tab st i) = NAT_ENTRY_FREE"
    and "i < MAX_NAT_ENTRIES \<Longrightarrow> at_expire_slot (addr_tab st i) = i"
  using assms by (auto simp: pool_inv_def)

lemma rev_map_bound: "pool_inv M hand st \<Longrightarrow> rev_map M st k = Some i \<Longrightarrow> i < MAX_NAT_ENTRIES"
  using slots_ok_member(3) pool_invD(1) by (metis ranI)

lemma rev_map_inj:
  "pool_inv M hand st \<Longrightarrow> rev_map M st k = Some i \<Longrightarrow> rev_map M st k' = Some i \<Longrightarrow> k = k'"
  using pool_invD(3) by metis

lemma ran_rev_delete:
  assumes "pool_inv M hand st" and "rev_map M st k = Some j"
  shows "ran ((rev_map M st)(k := None)) = ran (rev_map M st) - {j}"
proof (intro set_eqI iffI)
  fix x
  assume "x \<in> ran (rev_map M st) - {j}"
  then obtain k' where "rev_map M st k' = Some x" "x \<noteq> j" by (auto simp: ran_def)
  with assms(2) show "x \<in> ran ((rev_map M st)(k := None))"
    by (intro ranI [of _ k']) auto
next
  fix x
  assume "x \<in> ran ((rev_map M st)(k := None))"
  then obtain k' where "k' \<noteq> k" "rev_map M st k' = Some x" by (auto simp: ran_def split: if_splits)
  with rev_map_inj [OF assms(1)] assms(2) show "x \<in> ran (rev_map M st) - {j}"
    by (auto intro: ranI)
qed

section \<open>Slot release\<close>

text \<open>Two states that agree on both hashes and on every entry and deadline outside \<open>X\<close>.\<close>

definition agree_outside ::
  "nat set \<Rightarrow> ('rh, 'fh, 'rg) nat_ccb \<Rightarrow> ('rh, 'fh, 'rg) nat_ccb \<Rightarrow> bool" where
  "agree_outside X st st' \<longleftrightarrow>
     nat_reverse_hash st' = nat_reverse_hash st \<and> nat_forward_hash st' = nat_forward_hash st \<and>
     port_fwd_table st' = port_fwd_table st \<and>
     (\<forall>i. i \<notin> X \<longrightarrow> addr_tab st' i = addr_tab st i \<and> nat_expire_at st' i = nat_expire_at st i) \<and>
     (\<forall>i. reverse_key_of (addr_tab st' i) = reverse_key_of (addr_tab st i) \<and>
          forward_key_of (addr_tab st' i) = forward_key_of (addr_tab st i) \<and>
          (at_is_fill (addr_tab st' i) = NAT_ENTRY_READY \<longrightarrow> at_is_fill (addr_tab st i) = NAT_ENTRY_READY))"

lemma agree_outside_refl: "agree_outside X st st"
  by (simp add: agree_outside_def)

lemma agree_outside_trans:
  "agree_outside X st st' \<Longrightarrow> agree_outside Y st' st'' \<Longrightarrow> agree_outside (X \<union> Y) st st''"
  by (auto simp: agree_outside_def)

lemma free_cb_agree: "agree_outside {idx} st (nat_reverse_hash_free_cb D idx st)"
  by (simp add: agree_outside_def nat_reverse_hash_free_cb_def reverse_key_of_def forward_key_of_def)

lemma run_free_cbs_agree: "agree_outside (set fr) st (run_free_cbs D fr st)"
proof (induction fr arbitrary: st)
  case Nil
  then show ?case by (simp add: run_free_cbs_def agree_outside_refl)
next
  case (Cons x xs)
  have "run_free_cbs D (x # xs) st = run_free_cbs D xs (nat_reverse_hash_free_cb D x st)"
    by (simp add: run_free_cbs_def)
  with agree_outside_trans [OF free_cb_agree Cons.IH] show ?case by simp
qed

lemma free_cb_pool_inv:
  assumes "nat_dpdk_ok D M" and "pool_inv M (add_mset x hand) st"
  shows "pool_inv M hand (nat_reverse_hash_free_cb D x st)"
proof -
  let ?st = "nat_reverse_hash_free_cb D x st"
  have ring: "rte_ring_contract (ring_ops D) (absL M) MAX_NAT_ENTRIES"
    using assms(1) by (simp add: nat_dpdk_ok_def)
  note s = pool_invD(1) [OF assms(2)]
  have "length (free_list M st) < MAX_NAT_ENTRIES"
    using slots_ok_free_length [OF s] by simp
  from ring_enqueueD(1) [OF ring this]
  have fl: "free_list M ?st = free_list M st @ [x]" by (simp add: nat_reverse_hash_free_cb_def)
  have notlive: "rev_map M st k \<noteq> Some x" for k
    using slots_ok_member(4) [OF s, of x] by (auto simp: ran_def)
  have "slots_ok MAX_NAT_ENTRIES (free_list M ?st) (dq M ?st) (ran (rev_map M ?st)) hand"
    using slots_ok_return [OF s] by (simp add: fl) (simp add: nat_reverse_hash_free_cb_def)
  with assms(2) notlive fl show ?thesis
    by (auto simp: pool_inv_def nat_reverse_hash_free_cb_def)
qed

lemma run_free_cbs_pool_inv:
  assumes "nat_dpdk_ok D M" and "pool_inv M (hand + mset fr) st"
  shows "pool_inv M hand (run_free_cbs D fr st)"
  using assms(2)
proof (induction fr arbitrary: st)
  case Nil
  then show ?case by (simp add: run_free_cbs_def)
next
  case (Cons x xs)
  then have "pool_inv M (hand + mset xs) (nat_reverse_hash_free_cb D x st)"
    by (intro free_cb_pool_inv [OF assms(1)]) simp
  from Cons.IH [OF this] show ?case by (simp add: run_free_cbs_def)
qed

lemmas agree_hashes =
  agree_outside_def [THEN iffD1, THEN conjunct1]
  agree_outside_def [THEN iffD1, THEN conjunct2, THEN conjunct1]
  agree_outside_def [THEN iffD1, THEN conjunct2, THEN conjunct2, THEN conjunct1]

lemma run_free_cbs_hashes [simp]:
  "nat_reverse_hash (run_free_cbs D fr st) = nat_reverse_hash st"
  "nat_forward_hash (run_free_cbs D fr st) = nat_forward_hash st"
  "port_fwd_table (run_free_cbs D fr st) = port_fwd_table st"
  by (rule agree_hashes [OF run_free_cbs_agree])+

text \<open>A change of the hashes alone keeps the pool invariant if the new slot accounting holds.\<close>

lemma pool_inv_hash_update:
  assumes "pool_inv M hand st"
    and "slots_ok MAX_NAT_ENTRIES (free_list M st) (absQ M rh) (ran (absR M rh)) hand'"
    and "\<And>k i. absR M rh k = Some i \<Longrightarrow> rev_map M st k = Some i"
  shows "pool_inv M hand' (st\<lparr>nat_forward_hash := fh, nat_reverse_hash := rh\<rparr>)"
  using assms(1,2) by (auto simp: pool_inv_def dest!: assms(3))

section \<open>Deleting an entry's keys\<close>

lemma del_keys_effect:
  fixes i :: nat
  assumes "nat_dpdk_ok D M" and "pool_inv M hand st"
  defines "st' \<equiv> snd (nat_entry_del_keys D i st)"
  shows "pool_inv M hand st'"
    and "rev_map M st' = (rev_map M st)(reverse_key_of (addr_tab st i) := None)"
    and "fwd_map M st' = (fwd_map M st)(forward_key_of (addr_tab st i) := None)"
    and "fst (nat_entry_del_keys D i st) \<longleftrightarrow> rev_map M st (reverse_key_of (addr_tab st i)) \<noteq> None"
    and "\<exists>X. agree_outside X (st\<lparr>nat_forward_hash := nat_forward_hash st', nat_reverse_hash := nat_reverse_hash st'\<rparr>) st' \<and>
           X \<inter> ran (rev_map M st') = {} \<and> set (dq M st') \<inter> X = {} \<and>
           X \<union> set (dq M st') = set (dq M st) \<union>
             (case rev_map M st (reverse_key_of (addr_tab st i)) of None \<Rightarrow> {} | Some j \<Rightarrow> {j})"
proof -
  let ?fk = "forward_key_of (addr_tab st i)" and ?rk = "reverse_key_of (addr_tab st i)"
  obtain fh fok ff where f: "hash_del (fwd_ops D) (nat_forward_hash st) ?fk = (fh, fok, ff)"
    by (metis prod_cases3)
  obtain rh rok rf where r: "hash_del (rev_ops D) (nat_reverse_hash st) ?rk = (rh, rok, rf)"
    by (metis prod_cases3)
  let ?st1 = "st\<lparr>nat_forward_hash := fh, nat_reverse_hash := rh\<rparr>"
  have st': "nat_entry_del_keys D i st = (rok, run_free_cbs D rf ?st1)"
    using f r by (simp add: nat_entry_del_keys_def)
  have R: "rte_hash_contract (rev_ops D) (absR M) (absQ M)"
    and F: "rte_hash_contract (fwd_ops D) (absF M) (absFQ M)"
    using assms(1) by (simp_all add: nat_dpdk_ok_def)
  note rd = hash_delD [OF R r] and fd = hash_delD [OF F f]
  note s = pool_invD(1) [OF assms(2)]
  have slots: "slots_ok MAX_NAT_ENTRIES (free_list M st) (absQ M rh) (ran (absR M rh)) (hand + mset rf)"
  proof (cases "rev_map M st ?rk")
    case None
    then have "absR M rh = rev_map M st" using rd(1) by auto
    moreover have "mset (absQ M rh) + mset rf = mset (dq M st)" using rd(3) None by simp
    ultimately show ?thesis using slots_ok_release [OF s] by simp
  next
    case (Some j)
    have "ran (absR M rh) = ran (rev_map M st) - {j}"
      using ran_rev_delete [OF assms(2) Some] rd(1) by simp
    moreover have "mset (absQ M rh) + mset rf = mset (dq M st) + {#j#}" using rd(3) Some by simp
    moreover have "j \<in> ran (rev_map M st)" using Some by (auto simp: ran_def)
    ultimately show ?thesis using slots_ok_retire [OF s] by simp
  qed
  have "pool_inv M (hand + mset rf) (st\<lparr>nat_forward_hash := fh, nat_reverse_hash := rh\<rparr>)"
    by (rule pool_inv_hash_update [OF assms(2) slots]) (simp add: rd(1) split: if_splits)
  then have p1: "pool_inv M (hand + mset rf) ?st1" .
  show "pool_inv M hand st'"
    using run_free_cbs_pool_inv [OF assms(1) p1] by (simp add: st'_def st')
  show "rev_map M st' = (rev_map M st)(?rk := None)" "fwd_map M st' = (fwd_map M st)(?fk := None)"
    using rd(1) fd(1) by (simp_all add: st'_def st')
  show "fst (nat_entry_del_keys D i st) \<longleftrightarrow> rev_map M st ?rk \<noteq> None"
    using rd(2) by (simp add: st')
  have "set rf \<inter> ran (absR M rh) = {}" "set (absQ M rh) \<inter> set rf = {}"
    using slots_ok_member(4) [OF slots] by auto
  moreover have "set rf \<union> set (absQ M rh) = set (dq M st) \<union>
      (case rev_map M st ?rk of None \<Rightarrow> {} | Some j \<Rightarrow> {j})"
    using arg_cong [OF rd(3), of set_mset] by (auto split: option.splits)
  ultimately show "\<exists>X. agree_outside X (st\<lparr>nat_forward_hash := nat_forward_hash st',
      nat_reverse_hash := nat_reverse_hash st'\<rparr>) st' \<and>
      X \<inter> ran (rev_map M st') = {} \<and> set (dq M st') \<inter> X = {} \<and>
      X \<union> set (dq M st') = set (dq M st) \<union>
        (case rev_map M st ?rk of None \<Rightarrow> {} | Some j \<Rightarrow> {j})"
    using run_free_cbs_agree [of rf ?st1 D] by (intro exI [of _ "set rf"]) (simp add: st'_def st')
qed

section \<open>Pool accounting of garbage collection and allocation\<close>

lemma reclaim_effect:
  assumes "nat_dpdk_ok D M" and "pool_inv M hand st"
    and "hash_reclaim (rev_ops D) (nat_reverse_hash st) = (rh, fr)"
  shows "pool_inv M hand (run_free_cbs D fr (st\<lparr>nat_reverse_hash := rh\<rparr>))"
    and "absR M rh = rev_map M st" and "set fr \<union> set (absQ M rh) = set (dq M st)"
    and "set fr \<inter> ran (rev_map M st) = {}"
proof -
  have R: "rte_hash_contract (rev_ops D) (absR M) (absQ M)"
    using assms(1) by (simp add: nat_dpdk_ok_def)
  note rd = hash_reclaimD [OF R assms(3)] and s = pool_invD(1) [OF assms(2)]
  have slots: "slots_ok MAX_NAT_ENTRIES (free_list M st) (absQ M rh) (ran (absR M rh)) (hand + mset fr)"
    using slots_ok_release [OF s rd(2)] rd(1) by simp
  then have "pool_inv M (hand + mset fr) (st\<lparr>nat_forward_hash := nat_forward_hash st, nat_reverse_hash := rh\<rparr>)"
    by (rule pool_inv_hash_update [OF assms(2)]) (simp add: rd(1))
  then have "pool_inv M (hand + mset fr) (st\<lparr>nat_reverse_hash := rh\<rparr>)" by simp
  then show "pool_inv M hand (run_free_cbs D fr (st\<lparr>nat_reverse_hash := rh\<rparr>))"
    by (rule run_free_cbs_pool_inv [OF assms(1)])
  show "absR M rh = rev_map M st" by (rule rd(1))
  show "set fr \<union> set (absQ M rh) = set (dq M st)"
    using arg_cong [OF rd(2), of set_mset] by auto
  then show "set fr \<inter> ran (rev_map M st) = {}"
    using slots_ok_member(2) [OF s] by auto
qed

lemma pool_inv_irrelevant [simp]:
  "pool_inv M hand (st\<lparr>nat_gc_counter := c\<rparr>) = pool_inv M hand st"
  "pool_inv M hand (st\<lparr>nat_gc_reclaimed := g\<rparr>) = pool_inv M hand st"
  "pool_inv M hand (st\<lparr>nat_enospc := n\<rparr>) = pool_inv M hand st"
  "pool_inv M hand (st\<lparr>nat_forward_hash := fh\<rparr>) = pool_inv M hand st"
  "pool_inv M hand (st\<lparr>nat_expire_at := x\<rparr>) = pool_inv M hand st"
  "pool_inv M hand (st\<lparr>port_fwd_table := t\<rparr>) = pool_inv M hand st"
  by (simp_all add: pool_inv_def)

lemma gc_slot_pool_inv:
  assumes "nat_dpdk_ok D M" and "pool_inv M hand (snd acc)"
  shows "pool_inv M hand (snd (nat_gc_slot D clk idx acc))"
  using del_keys_effect(1) [OF assms, of idx] assms(2)
  by (auto simp: nat_gc_slot_def Let_def split: prod.splits)

lemma fold_gc_slot:
  assumes "\<And>n acc. P (snd acc) \<Longrightarrow> P (snd (nat_gc_slot D clk (ix n) acc))" and "P (snd acc)"
  shows "P (snd (fold (\<lambda>n. nat_gc_slot D clk (ix n)) ns acc))"
  using assms(2) by (induction ns arbitrary: acc) (simp_all add: assms(1))

text \<open>The scan is a fold of slot steps followed by the two queue drains: one rule for both invariants.\<close>

lemma gc_scan_rule:
  assumes "\<And>n acc. P (snd acc) \<Longrightarrow>
      P (snd (nat_gc_slot D clk (unat (nat_gc_counter st + of_nat n) mod MAX_NAT_ENTRIES) acc))"
    and "\<And>s c. P s \<Longrightarrow> P (s\<lparr>nat_gc_reclaimed := c\<rparr>)"
    and "P (st\<lparr>nat_gc_counter := nat_gc_counter st + of_nat max_slots\<rparr>)"
    and "\<And>s rh fr. P s \<Longrightarrow> hash_reclaim (rev_ops D) (nat_reverse_hash s) = (rh, fr) \<Longrightarrow>
      P (run_free_cbs D fr (s\<lparr>nat_reverse_hash := rh\<rparr>))"
    and "\<And>s fh fr. P s \<Longrightarrow> hash_reclaim (fwd_ops D) (nat_forward_hash s) = (fh, fr) \<Longrightarrow>
      P (s\<lparr>nat_forward_hash := fh\<rparr>)"
  shows "P (snd (nat_gc_scan_by_ccb D clk max_slots st))"
proof -
  let ?st0 = "st\<lparr>nat_gc_counter := nat_gc_counter st + of_nat max_slots\<rparr>"
  obtain reclaimed st1 where f: "fold (\<lambda>n. nat_gc_slot D clk (unat (nat_gc_counter st + of_nat n) mod
      MAX_NAT_ENTRIES)) [0..<max_slots] (0, ?st0) = (reclaimed, st1)"
    by (metis surj_pair)
  have "P (snd (fold (\<lambda>n. nat_gc_slot D clk (unat (nat_gc_counter st + of_nat n) mod
      MAX_NAT_ENTRIES)) [0..<max_slots] (0, ?st0)))"
    by (rule fold_gc_slot [where P = P, OF assms(1)]) (simp_all add: assms(3))
  with f have p1: "P st1" by simp
  define st2 where "st2 = (if 0 < reclaimed
      then st1\<lparr>nat_gc_reclaimed := nat_gc_reclaimed st1 + ucast reclaimed\<rparr> else st1)"
  have p2: "P st2" using p1 assms(2) by (simp add: st2_def)
  obtain rh rf where r: "hash_reclaim (rev_ops D) (nat_reverse_hash st2) = (rh, rf)" by (metis surj_pair)
  define st3 where "st3 = run_free_cbs D rf (st2\<lparr>nat_reverse_hash := rh\<rparr>)"
  have p3: "P st3" using assms(4) [OF p2 r] by (simp add: st3_def)
  obtain fh ff where h: "hash_reclaim (fwd_ops D) (nat_forward_hash st3) = (fh, ff)" by (metis surj_pair)
  have "nat_gc_scan_by_ccb D clk max_slots st = (reclaimed, st3\<lparr>nat_forward_hash := fh\<rparr>)"
    using f r h unfolding st3_def st2_def
    by (cases "0 < reclaimed") (simp_all add: nat_gc_scan_by_ccb_def Let_def)
  with assms(5) [OF p3 h] show ?thesis by simp
qed

lemma gc_scan_pool_inv:
  assumes "nat_dpdk_ok D M" and "pool_inv M hand st"
  shows "pool_inv M hand (snd (nat_gc_scan_by_ccb D clk max_slots st))"
proof (rule gc_scan_rule [where P = "pool_inv M hand"])
  fix n and acc :: "u32 \<times> ('a, 'b, 'c) nat_ccb"
  assume "pool_inv M hand (snd acc)"
  then show "pool_inv M hand (snd (nat_gc_slot D clk
      (unat (nat_gc_counter st + of_nat n) mod MAX_NAT_ENTRIES) acc))"
    by (rule gc_slot_pool_inv [OF assms(1)])
qed (use assms reclaim_effect(1) [OF assms(1)] in auto)

lemma dequeue_pool_inv:
  assumes "nat_dpdk_ok D M" and "pool_inv M {#} st"
    and "ring_dequeue (ring_ops D) (nat_free_ring st) = (rg, res)"
  shows "pool_inv M (case res of None \<Rightarrow> {#} | Some i \<Rightarrow> {#i#}) (st\<lparr>nat_free_ring := rg\<rparr>)"
proof -
  have ring: "rte_ring_contract (ring_ops D) (absL M) MAX_NAT_ENTRIES"
    using assms(1) by (simp add: nat_dpdk_ok_def)
  note d = ring_dequeueD [OF ring assms(3)]
  show ?thesis
  proof (cases "free_list M st")
    case Nil
    with d assms(2) show ?thesis by (auto simp: pool_inv_def)
  next
    case (Cons x xs)
    with d assms(2) slots_ok_alloc [of _ x xs] show ?thesis by (auto simp: pool_inv_def)
  qed
qed

section \<open>Flows a step must not disturb\<close>

text \<open>
  \<open>kept clk i e st\<close>: slot \<open>i\<close> holds the live entry \<open>e\<close>, both hashes point at it, its deadline is
  ahead, and no other ready slot carries one of its two keys.
\<close>

definition kept ::
  "('rh, 'fh, 'rg) nat_abs \<Rightarrow> clock \<Rightarrow> nat \<times> addr_table \<Rightarrow> ('rh, 'fh, 'rg) nat_ccb \<Rightarrow> bool" where
  "kept M clk p st \<longleftrightarrow> (case p of (i, e) \<Rightarrow>
     rev_map M st (reverse_key_of e) = Some i \<and> fwd_map M st (forward_key_of e) = Some i \<and>
     addr_tab st i = e \<and> cur_cycles clk < nat_expire_at st i \<and>
     (\<forall>j < MAX_NAT_ENTRIES. at_is_fill (addr_tab st j) = NAT_ENTRY_READY \<longrightarrow>
        reverse_key_of (addr_tab st j) = reverse_key_of e \<or> forward_key_of (addr_tab st j) = forward_key_of e \<longrightarrow>
        j = i))"

text \<open>
  The invariant of one learning attempt for the flow with forward key \<open>fk\<close>: slot accounting, the flow
  is not linked yet, the port-forwarding table is untouched and the flows in \<open>K\<close> are kept.
\<close>

definition learn_inv ::
  "('rh, 'fh, 'rg) nat_abs \<Rightarrow> clock \<Rightarrow> (u16 \<Rightarrow> port_fwd_entry) \<Rightarrow> nat_forward_key \<Rightarrow>
   (nat \<times> addr_table) set \<Rightarrow> nat multiset \<Rightarrow> ('rh, 'fh, 'rg) nat_ccb \<Rightarrow> bool" where
  "learn_inv M clk T fk K hand st \<longleftrightarrow>
     pool_inv M hand st \<and> fwd_map M st fk = None \<and> port_fwd_table st = T \<and> (\<forall>p \<in> K. kept M clk p st)"

lemma kept_agree:
  assumes "kept M clk p st" and "agree_outside X st0 st'" and "X \<inter> ran (rev_map M st') = {}"
    and "addr_tab st0 = addr_tab st" and "nat_expire_at st0 = nat_expire_at st"
    and "rev_map M st' (reverse_key_of (snd p)) = rev_map M st (reverse_key_of (snd p))"
    and "fwd_map M st' (forward_key_of (snd p)) = fwd_map M st (forward_key_of (snd p))"
  shows "kept M clk p st'"
proof -
  obtain i e where p: "p = (i, e)" by (cases p)
  have "rev_map M st' (reverse_key_of e) = Some i" using assms(1,6) by (simp add: p kept_def)
  then have "i \<notin> X" using assms(3) by (auto simp: ran_def)
  with assms show ?thesis by (auto simp: kept_def p agree_outside_def)
qed

lemma del_keys_learn_inv:
  assumes D: "nat_dpdk_ok D M" and inv: "learn_inv M clk T fk K hand st"
    and "\<And>i e. (i, e) \<in> K \<Longrightarrow> reverse_key_of (addr_tab st idx) \<noteq> reverse_key_of e \<and>
           forward_key_of (addr_tab st idx) \<noteq> forward_key_of e"
  shows "learn_inv M clk T fk K hand (snd (nat_entry_del_keys D idx st))"
proof -
  let ?st' = "snd (nat_entry_del_keys D idx st)"
  have pool: "pool_inv M hand st" using inv by (simp add: learn_inv_def)
  note eff = del_keys_effect [OF D pool, of idx]
  obtain X where ag: "agree_outside X (st\<lparr>nat_forward_hash := nat_forward_hash ?st',
      nat_reverse_hash := nat_reverse_hash ?st'\<rparr>) ?st'" and X: "X \<inter> ran (rev_map M ?st') = {}"
    using eff(5) by blast
  have "kept M clk p ?st'" if "p \<in> K" for p
  proof (rule kept_agree [OF _ ag X])
    show "kept M clk p st" using inv that by (auto simp: learn_inv_def)
    show "rev_map M ?st' (reverse_key_of (snd p)) = rev_map M st (reverse_key_of (snd p))"
      "fwd_map M ?st' (forward_key_of (snd p)) = fwd_map M st (forward_key_of (snd p))"
      using assms(3) [of "fst p" "snd p"] that by (auto simp: eff(2,3))
  qed simp_all
  moreover have "port_fwd_table ?st' = port_fwd_table st" using ag by (simp add: agree_outside_def)
  ultimately show ?thesis using inv eff(1,3) by (auto simp: learn_inv_def)
qed

lemma gc_slot_learn_inv:
  assumes D: "nat_dpdk_ok D M" and inv: "learn_inv M clk T fk K hand (snd acc)" and "idx < MAX_NAT_ENTRIES"
  shows "learn_inv M clk T fk K hand (snd (nat_gc_slot D clk idx acc))"
proof -
  obtain r st where acc: "acc = (r, st)" by (cases acc)
  show ?thesis
  proof (cases "nat_expire_at st idx = 0 \<or> cur_cycles clk < nat_expire_at st idx \<or>
      at_is_fill (addr_tab st idx) \<noteq> NAT_ENTRY_READY")
    case True
    with inv show ?thesis by (auto simp: nat_gc_slot_def acc Let_def)
  next
    case False
    have "reverse_key_of (addr_tab st idx) \<noteq> reverse_key_of e \<and> forward_key_of (addr_tab st idx) \<noteq> forward_key_of e"
      if "(i, e) \<in> K" for i e
    proof -
      have "kept M clk (i, e) st" using inv that by (simp add: learn_inv_def acc)
      with False assms(3) show ?thesis by (auto simp: kept_def)
    qed
    from del_keys_learn_inv [OF D _ this] inv False show ?thesis
      by (auto simp: nat_gc_slot_def acc Let_def split: prod.splits)
  qed
qed

lemma reclaim_learn_inv:
  assumes D: "nat_dpdk_ok D M" and inv: "learn_inv M clk T fk K hand st"
    and r: "hash_reclaim (rev_ops D) (nat_reverse_hash st) = (rh, fr)"
  shows "learn_inv M clk T fk K hand (run_free_cbs D fr (st\<lparr>nat_reverse_hash := rh\<rparr>))"
proof -
  have pool: "pool_inv M hand st" using inv by (simp add: learn_inv_def)
  note eff = reclaim_effect [OF D pool r]
  have "kept M clk p (run_free_cbs D fr (st\<lparr>nat_reverse_hash := rh\<rparr>))" if "p \<in> K" for p
  proof (rule kept_agree [OF _ run_free_cbs_agree [of fr "st\<lparr>nat_reverse_hash := rh\<rparr>" D]])
    show "kept M clk p st" using inv that by (auto simp: learn_inv_def)
  qed (use eff in simp_all)
  with inv eff show ?thesis by (auto simp: learn_inv_def)
qed

lemma learn_inv_irrelevant [simp]:
  "learn_inv M clk T fk K hand (st\<lparr>nat_gc_counter := c\<rparr>) = learn_inv M clk T fk K hand st"
  "learn_inv M clk T fk K hand (st\<lparr>nat_gc_reclaimed := g\<rparr>) = learn_inv M clk T fk K hand st"
  "learn_inv M clk T fk K hand (st\<lparr>nat_enospc := n\<rparr>) = learn_inv M clk T fk K hand st"
  by (auto simp: learn_inv_def kept_def)

lemma fwd_reclaim_learn_inv:
  assumes "nat_dpdk_ok D M" and "learn_inv M clk T fk K hand st"
    and "hash_reclaim (fwd_ops D) (nat_forward_hash st) = (fh, fr)"
  shows "learn_inv M clk T fk K hand (st\<lparr>nat_forward_hash := fh\<rparr>)"
proof -
  have "rte_hash_contract (fwd_ops D) (absF M) (absFQ M)" using assms(1) by (simp add: nat_dpdk_ok_def)
  from hash_reclaimD(1) [OF this assms(3)] assms(2) show ?thesis
    by (auto simp: learn_inv_def kept_def)
qed

lemma gc_scan_learn_inv:
  assumes "nat_dpdk_ok D M" and "learn_inv M clk T fk K hand st"
  shows "learn_inv M clk T fk K hand (snd (nat_gc_scan_by_ccb D clk max_slots st))"
proof (rule gc_scan_rule [where P = "learn_inv M clk T fk K hand"])
  fix n and acc :: "u32 \<times> ('a, 'b, 'c) nat_ccb"
  assume "learn_inv M clk T fk K hand (snd acc)"
  then show "learn_inv M clk T fk K hand (snd (nat_gc_slot D clk
      (unat (nat_gc_counter st + of_nat n) mod MAX_NAT_ENTRIES) acc))"
    by (rule gc_slot_learn_inv [OF assms(1)]) (simp add: MAX_NAT_ENTRIES_pos)
next
  show "learn_inv M clk T fk K hand (st\<lparr>nat_gc_counter := nat_gc_counter st + of_nat max_slots\<rparr>)"
    using assms(2) by simp
qed (use reclaim_learn_inv [OF assms(1)] fwd_reclaim_learn_inv [OF assms(1)] in auto)

lemma learn_inv_ring:
  "learn_inv M clk T fk K hand st \<Longrightarrow> pool_inv M hand' (st\<lparr>nat_free_ring := rg\<rparr>) \<Longrightarrow>
   learn_inv M clk T fk K hand' (st\<lparr>nat_free_ring := rg\<rparr>)"
  by (auto simp: learn_inv_def kept_def)

lemma slot_alloc_learn_inv:
  assumes D: "nat_dpdk_ok D M" and inv: "learn_inv M clk T fk K {#} st" and "nat_slot_alloc D clk st = (res, st')"
  shows "learn_inv M clk T fk K (case res of None \<Rightarrow> {#} | Some i \<Rightarrow> {#i#}) st'"
proof -
  have pool: "pool_inv M {#} st" using inv by (simp add: learn_inv_def)
  obtain rg r where dq1: "ring_dequeue (ring_ops D) (nat_free_ring st) = (rg, r)" by (metis surj_pair)
  note p1 = dequeue_pool_inv [OF D pool dq1]
  note l1 = learn_inv_ring [OF inv p1]
  show ?thesis
  proof (cases r)
    case (Some i)
    with dq1 l1 assms(3) show ?thesis by (auto simp: nat_slot_alloc_def)
  next
    case None
    let ?st1 = "snd (nat_gc_scan_by_ccb D clk NAT_GC_SCAN_CHUNK (st\<lparr>nat_free_ring := rg\<rparr>))"
    obtain rh fr where rc: "hash_reclaim (rev_ops D) (nat_reverse_hash ?st1) = (rh, fr)" by (metis surj_pair)
    let ?st2 = "run_free_cbs D fr (?st1\<lparr>nat_reverse_hash := rh\<rparr>)"
    obtain rg' r' where dq2: "ring_dequeue (ring_ops D) (nat_free_ring ?st2) = (rg', r')" by (metis surj_pair)
    have "learn_inv M clk T fk K {#} ?st1" using l1 None gc_scan_learn_inv [OF D] by simp
    from reclaim_learn_inv [OF D this rc] have l2: "learn_inv M clk T fk K {#} ?st2" .
    then have "pool_inv M {#} ?st2" by (simp add: learn_inv_def)
    from learn_inv_ring [OF l2 dequeue_pool_inv [OF D this dq2]]
    show ?thesis using assms(3) dq1 None rc dq2 by (simp add: nat_slot_alloc_def Let_def)
  qed
qed

section \<open>Publishing a slot\<close>

definition fill_slot ::
  "clock \<Rightarrow> nat_flow \<Rightarrow> u16 \<Rightarrow> nat \<Rightarrow> ('rh, 'fh, 'rg) nat_ccb \<Rightarrow> ('rh, 'fh, 'rg) nat_ccb" where
  "fill_slot clk f port idx st =
     st\<lparr>addr_tab := (addr_tab st)(idx := fill_entry f port (addr_tab st idx)),
        nat_expire_at := (nat_expire_at st)(idx := nat_expiry_cycles clk)\<rparr>"

lemma fill_entry_keys [simp]:
  "reverse_key_of (fill_entry f port e) = flow_rkey f port"
  "forward_key_of (fill_entry f port e) = flow_fkey f"
  "at_is_fill (fill_entry f port e) = NAT_ENTRY_READY"
  "at_expire_slot (fill_entry f port e) = at_expire_slot e"
  "at_nat_port (fill_entry f port e) = port"
  "at_src_ip (fill_entry f port e) = fl_src_ip f" "at_src_port (fill_entry f port e) = fl_src_port f"
  "at_dst_ip (fill_entry f port e) = fl_dst_ip f" "at_dst_port (fill_entry f port e) = fl_dst_port f"
  by (simp_all add: fill_entry_def reverse_key_of_def forward_key_of_def flow_rkey_def flow_fkey_def)

lemma fill_slot_simps [simp]:
  "nat_reverse_hash (fill_slot clk f port idx st) = nat_reverse_hash st"
  "nat_forward_hash (fill_slot clk f port idx st) = nat_forward_hash st"
  "nat_free_ring (fill_slot clk f port idx st) = nat_free_ring st"
  "port_fwd_table (fill_slot clk f port idx st) = port_fwd_table st"
  "addr_tab (fill_slot clk f port idx st) j =
     (if j = idx then fill_entry f port (addr_tab st idx) else addr_tab st j)"
  "nat_expire_at (fill_slot clk f port idx st) j =
     (if j = idx then nat_expiry_cycles clk else nat_expire_at st j)"
  by (simp_all add: fill_slot_def)

lemma hand_not_live:
  assumes "pool_inv M {#idx#} st"
  shows "rev_map M st k \<noteq> Some idx" and "idx \<notin> set (free_list M st)" and "idx < MAX_NAT_ENTRIES"
    and "idx \<notin> set (dq M st)" and "idx \<notin> ran (rev_map M st)"
  using slots_ok_member(4) [OF pool_invD(1) [OF assms], of idx] by (auto simp: ran_def)

lemma kept_other_flow:
  assumes "kept M clk (i, e) st" and "rev_map M st rk = None" and "fwd_map M st fk = None"
  shows "rk \<noteq> reverse_key_of e" and "fk \<noteq> forward_key_of e"
  using assms by (auto simp: kept_def)

lemma fill_slot_learn_inv:
  assumes "learn_inv M clk T (flow_fkey f) K {#idx#} st" and "rev_map M st (flow_rkey f port) = None"
  shows "learn_inv M clk T (flow_fkey f) K {#idx#} (fill_slot clk f port idx st)"
proof -
  have pool: "pool_inv M {#idx#} st" and fwd: "fwd_map M st (flow_fkey f) = None"
    using assms(1) by (simp_all add: learn_inv_def)
  note hd = hand_not_live [OF pool]
  have "pool_inv M {#idx#} (fill_slot clk f port idx st)"
    using pool hd unfolding pool_inv_def by auto
  moreover have "kept M clk p (fill_slot clk f port idx st)" if "p \<in> K" for p
  proof -
    obtain i e where p: "p = (i, e)" by (cases p)
    have k: "kept M clk (i, e) st" using assms(1) that by (auto simp: learn_inv_def p)
    then have "i \<noteq> idx" using hd(1) by (auto simp: kept_def)
    with k kept_other_flow [OF k assms(2) fwd] show ?thesis by (auto simp: kept_def p)
  qed
  ultimately show ?thesis using assms(1) by (simp add: learn_inv_def)
qed

text \<open>Adding the reverse key, callbacks included.\<close>

lemma rev_add_effect:
  assumes D: "nat_dpdk_ok D M" and inv: "learn_inv M clk T (flow_fkey f) K {#idx#} st"
    and new: "rev_map M st (flow_rkey f port) = None"
    and e: "addr_tab st idx = fill_entry f port e0"
    and add: "hash_add (rev_ops D) (nat_reverse_hash st) (flow_rkey f port) idx = (rh, ok, fr)"
  defines "st' \<equiv> run_free_cbs D fr (st\<lparr>nat_reverse_hash := rh\<rparr>)"
  shows "learn_inv M clk T (flow_fkey f) K (if ok then {#} else {#idx#}) st'"
    and "rev_map M st' = (if ok then (rev_map M st)(flow_rkey f port := Some idx) else rev_map M st)"
    and "addr_tab st' idx = addr_tab st idx" and "nat_expire_at st' idx = nat_expire_at st idx"
proof -
  have R: "rte_hash_contract (rev_ops D) (absR M) (absQ M)" using D by (simp add: nat_dpdk_ok_def)
  have pool: "pool_inv M {#idx#} st" using inv by (simp add: learn_inv_def)
  note ad = hash_addD [OF R add new] and s = pool_invD(1) [OF pool] and hd = hand_not_live [OF pool]
  have frdq: "set fr \<subseteq> set (dq M st)" using arg_cong [OF ad(2), of set_mset] by auto
  have slots: "slots_ok MAX_NAT_ENTRIES (free_list M st) (absQ M rh) (ran (absR M rh))
      ((if ok then {#} else {#idx#}) + mset fr)"
  proof (cases ok)
    case True
    have "ran (absR M rh) = insert idx (ran (rev_map M st))" using ad(1) True new by auto
    with True slots_ok_release [OF slots_ok_publish [OF s] ad(2)] show ?thesis by simp
  next
    case False
    with slots_ok_release [OF s ad(2)] ad(1) show ?thesis by simp
  qed
  have "pool_inv M ((if ok then {#} else {#idx#}) + mset fr) (st\<lparr>nat_reverse_hash := rh\<rparr>)"
    using pool e slots ad(1) unfolding pool_inv_def by (auto split: if_splits)
  then have pool': "pool_inv M (if ok then {#} else {#idx#}) st'"
    unfolding st'_def by (rule run_free_cbs_pool_inv [OF D])
  show rev: "rev_map M st' = (if ok then (rev_map M st)(flow_rkey f port := Some idx) else rev_map M st)"
    using ad(1) by (simp add: st'_def)
  have frees: "set fr \<inter> ran (rev_map M st') = {}" "idx \<notin> set fr"
    using frdq hd(4) slots_ok_member(2) [OF s] by (auto simp: rev ran_def split: if_splits)
  have ag: "agree_outside (set fr) (st\<lparr>nat_reverse_hash := rh\<rparr>) st'"
    unfolding st'_def by (rule run_free_cbs_agree)
  with frees show "addr_tab st' idx = addr_tab st idx" "nat_expire_at st' idx = nat_expire_at st idx"
    by (auto simp: agree_outside_def)
  have "kept M clk p st'" if "p \<in> K" for p
  proof (rule kept_agree [OF _ ag frees(1)])
    show k: "kept M clk p st" using inv that by (auto simp: learn_inv_def)
    show "rev_map M st' (reverse_key_of (snd p)) = rev_map M st (reverse_key_of (snd p))"
      using k new by (cases p) (auto simp: rev kept_def)
  qed (simp_all add: st'_def)
  with pool' inv show "learn_inv M clk T (flow_fkey f) K (if ok then {#} else {#idx#}) st'"
    by (simp add: learn_inv_def st'_def)
qed

text \<open>The slot goes straight back to the free list when the reverse key cannot be added.\<close>

lemma return_slot_learn_inv:
  assumes D: "nat_dpdk_ok D M" and inv: "learn_inv M clk T fk K {#idx#} st"
  shows "learn_inv M clk T fk K {#}
    (st\<lparr>addr_tab := (addr_tab st)(idx := (addr_tab st idx)\<lparr>at_is_fill := NAT_ENTRY_FREE\<rparr>),
        nat_free_ring := fst (ring_enqueue (ring_ops D) (nat_free_ring st) idx)\<rparr>)" (is "learn_inv _ _ _ _ _ _ ?st'")
proof -
  have pool: "pool_inv M {#idx#} st" using inv by (simp add: learn_inv_def)
  have "?st' = (nat_reverse_hash_free_cb D idx st)\<lparr>nat_expire_at := nat_expire_at st\<rparr>"
    by (simp add: nat_reverse_hash_free_cb_def)
  then have "pool_inv M {#} ?st'" using free_cb_pool_inv [OF D pool] by simp
  moreover have "kept M clk p ?st'" if "p \<in> K" for p
  proof -
    obtain i e where p: "p = (i, e)" by (cases p)
    have k: "kept M clk (i, e) st" using inv that by (auto simp: learn_inv_def p)
    then have "i \<noteq> idx" using hand_not_live(1) [OF pool] by (auto simp: kept_def)
    with k show ?thesis by (auto simp: kept_def p)
  qed
  ultimately show ?thesis using inv by (simp add: learn_inv_def)
qed

text \<open>Rolling the reverse key back when the forward key cannot be added.\<close>

lemma rev_rollback_effect:
  assumes D: "nat_dpdk_ok D M" and inv: "learn_inv M clk T fk K {#} st"
    and live: "rev_map M st k = Some j" and other: "\<And>i e. (i, e) \<in> K \<Longrightarrow> k \<noteq> reverse_key_of e"
    and del: "hash_del (rev_ops D) (nat_reverse_hash st) k = (rh, ok, fr)"
  shows "learn_inv M clk T fk K {#} (run_free_cbs D fr (st\<lparr>nat_reverse_hash := rh\<rparr>))"
proof -
  have R: "rte_hash_contract (rev_ops D) (absR M) (absQ M)" using D by (simp add: nat_dpdk_ok_def)
  have pool: "pool_inv M {#} st" using inv by (simp add: learn_inv_def)
  note rd = hash_delD [OF R del] and s = pool_invD(1) [OF pool]
  have ran: "ran (absR M rh) = ran (rev_map M st) - {j}" using ran_rev_delete [OF pool live] rd(1) by simp
  have q: "mset (absQ M rh) + mset fr = mset (dq M st) + {#j#}" using rd(3) live by simp
  have "j \<in> ran (rev_map M st)" using live by (auto simp: ran_def)
  then have slots: "slots_ok MAX_NAT_ENTRIES (free_list M st) (absQ M rh) (ran (absR M rh)) (mset fr)"
    using slots_ok_retire [OF s _ q] by (simp add: ran)
  then have "pool_inv M ({#} + mset fr) (st\<lparr>nat_forward_hash := nat_forward_hash st, nat_reverse_hash := rh\<rparr>)"
    by (intro pool_inv_hash_update [OF pool]) (simp_all add: rd(1) split: if_splits)
  then have "pool_inv M ({#} + mset fr) (st\<lparr>nat_reverse_hash := rh\<rparr>)" by simp
  then have "pool_inv M {#} (run_free_cbs D fr (st\<lparr>nat_reverse_hash := rh\<rparr>))"
    by (rule run_free_cbs_pool_inv [OF D])
  moreover have "kept M clk p (run_free_cbs D fr (st\<lparr>nat_reverse_hash := rh\<rparr>))" if "p \<in> K" for p
  proof (rule kept_agree [OF _ run_free_cbs_agree [of fr "st\<lparr>nat_reverse_hash := rh\<rparr>" D]])
    show "kept M clk p st" using inv that by (auto simp: learn_inv_def)
    show "set fr \<inter> ran (rev_map M (run_free_cbs D fr (st\<lparr>nat_reverse_hash := rh\<rparr>))) = {}"
      using slots_ok_member(4) [OF slots] by auto
  qed (use other [of "fst p" "snd p"] that in \<open>simp_all add: rd(1)\<close>)
  ultimately show ?thesis using inv by (simp add: learn_inv_def)
qed

text \<open>The deadline arithmetic: no wrap-around of the 64-bit cycle counter within the entry timeout.\<close>

definition no_wrap :: "clock \<Rightarrow> bool" where
  "no_wrap clk \<longleftrightarrow> unat (cur_cycles clk) + 10 * unat (cycles_in_sec clk) < 2 ^ 64"

lemma expiry_not_past:
  assumes "no_wrap clk"
  shows "unat (nat_expiry_cycles clk) = unat (cur_cycles clk) + 10 * unat (cycles_in_sec clk)"
proof -
  have m: "unat (NAT_ENTRY_TIMEOUT_SEC * cycles_in_sec clk) = 10 * unat (cycles_in_sec clk)"
    using assms by (simp add: no_wrap_def unat_word_ariths)
  show ?thesis using assms by (simp add: no_wrap_def nat_expiry_cycles_def unat_word_ariths m)
qed

lemma refresh_not_past:
  assumes "no_wrap clk"
  shows "cur_cycles clk \<le> nat_expire_refresh clk d (nat_expiry_cycles clk)"
proof (cases "d + 1 * cycles_in_sec clk < nat_expiry_cycles clk")
  case True
  then show ?thesis using expiry_not_past [OF assms] by (simp add: nat_expire_refresh_def word_le_nat_alt)
next
  case False
  then have "unat (nat_expiry_cycles clk) \<le> (unat d + unat (cycles_in_sec clk)) mod 2 ^ 64"
    by (simp add: word_le_nat_alt not_less unat_word_ariths)
  also have "\<dots> \<le> unat d + unat (cycles_in_sec clk)" by (rule mod_less_eq_dividend)
  finally show ?thesis using False expiry_not_past [OF assms] by (simp add: nat_expire_refresh_def word_le_nat_alt)
qed

text \<open>What a successful return hands out.\<close>

definition learned ::
  "('rh, 'fh, 'rg) nat_abs \<Rightarrow> nat_flow \<Rightarrow> u16 \<Rightarrow> nat \<Rightarrow> ('rh, 'fh, 'rg) nat_ccb \<Rightarrow> bool" where
  "learned M f port i st \<longleftrightarrow>
     rev_map M st (flow_rkey f port) = Some i \<and> same_flow_entry f port (addr_tab st i)"

definition learn_post where
  "learn_post M clk T K f P r \<longleftrightarrow> (case r of (port, out, st') \<Rightarrow>
     pool_inv M {#} st' \<and> port_fwd_table st' = T \<and>
     (\<forall>(i, e) \<in> K. rev_map M st' (reverse_key_of e) = Some i \<and>
        fwd_map M st' (forward_key_of e) = Some i \<and> addr_tab st' i = e) \<and>
     (case out of None \<Rightarrow> port = 0
      | Some i \<Rightarrow> learned M f port i st' \<and> P port \<and> (no_wrap clk \<longrightarrow> cur_cycles clk \<le> nat_expire_at st' i)))"

lemma learn_inv_post:
  "learn_inv M clk T fk K {#} st \<Longrightarrow> learn_post M clk T K f P (0, None, nat_count_enospc st)"
  by (auto simp: learn_inv_def learn_post_def kept_def nat_count_enospc_def)

lemma refresh_post:
  assumes "learn_inv M clk T fk K {#} st" and "learned M f port i st" and "P port"
  shows "learn_post M clk T K f P (port, Some i, nat_refresh_slot clk i st)"
proof -
  have "at_expire_slot (addr_tab st i) = i"
    using assms(1,2) rev_map_bound [of M "{#}" st _ i] pool_invD(5) [of M "{#}" st i]
    by (auto simp: learn_inv_def learned_def)
  with assms refresh_not_past [of clk] show ?thesis
    by (auto simp: learn_inv_def learn_post_def kept_def learned_def nat_refresh_slot_def Let_def)
qed

lemma same_flow_fill [simp]: "same_flow_entry f port (fill_entry f port e)"
  by (simp add: same_flow_entry_def nat_entry_same_flow_def)

lemma nat_publish_effect:
  assumes D: "nat_dpdk_ok D M" and inv: "learn_inv M clk T (flow_fkey f) K {#idx#} st"
    and new: "rev_map M st (flow_rkey f port) = None" and P: "P port"
  shows "case nat_publish D clk f port idx st of
      Inr st' \<Rightarrow> learn_inv M clk T (flow_fkey f) K {#} st'
    | Inl r \<Rightarrow> learn_post M clk T K f P r"
proof -
  let ?st1 = "fill_slot clk f port idx st"
  have pool: "pool_inv M {#idx#} st" using inv by (simp add: learn_inv_def)
  have "at_expire_slot (addr_tab st idx) = idx" using pool_invD(5) [OF pool] hand_not_live(3) [OF pool] .
  then have st1: "?st1 = st\<lparr>addr_tab := (addr_tab st)(idx := fill_entry f port (addr_tab st idx)),
       nat_expire_at := (nat_expire_at st)(at_expire_slot (fill_entry f port (addr_tab st idx)) :=
         nat_expire_set (nat_expire_at st (at_expire_slot (fill_entry f port (addr_tab st idx)))) (nat_expiry_cycles clk))\<rparr>"
    by (simp add: fill_slot_def nat_expire_set_def)
  obtain rh rok rf where add: "hash_add (rev_ops D) (nat_reverse_hash ?st1) (flow_rkey f port) idx = (rh, rok, rf)"
    by (metis prod_cases3)
  define st2 where "st2 = run_free_cbs D rf (?st1\<lparr>nat_reverse_hash := rh\<rparr>)"
  note r = rev_add_effect [OF D fill_slot_learn_inv [OF inv new] _ _ add, folded st2_def]
  obtain fh fok ff where fadd: "hash_add (fwd_ops D) (nat_forward_hash st2) (flow_fkey f) idx = (fh, fok, ff)"
    by (metis prod_cases3)
  define st3 where "st3 = st2\<lparr>nat_forward_hash := fh\<rparr>"
  obtain rh' rok' rf' where del: "hash_del (rev_ops D) (nat_reverse_hash st3) (flow_rkey f port) = (rh', rok', rf')"
    by (metis prod_cases3)
  have pub: "nat_publish D clk f port idx st =
    (if \<not> rok then Inr (st2\<lparr>addr_tab := (addr_tab st2)(idx := (addr_tab st2 idx)\<lparr>at_is_fill := NAT_ENTRY_FREE\<rparr>),
                      nat_free_ring := fst (ring_enqueue (ring_ops D) (nat_free_ring st2) idx)\<rparr>)
     else if \<not> fok then Inl (0, None, nat_count_enospc (run_free_cbs D rf' (st3\<lparr>nat_reverse_hash := rh'\<rparr>)))
     else Inl (port, Some idx, st3))"
    unfolding nat_publish_def Let_def st1 [symmetric]
    by (simp only: add fadd del prod.case flip: st2_def st3_def)
  show ?thesis
  proof (cases rok)
    case False
    then have "learn_inv M clk T (flow_fkey f) K {#idx#} st2" using r(1) new by simp
    from return_slot_learn_inv [OF D this] False show ?thesis by (simp add: pub)
  next
    case True
    have l2: "learn_inv M clk T (flow_fkey f) K {#} st2" using r(1) new True by simp
    have rev2: "rev_map M st2 (flow_rkey f port) = Some idx" and e2: "addr_tab st2 idx = fill_entry f port (addr_tab st idx)"
      using r(2,3) new True by simp_all
    have F: "rte_hash_contract (fwd_ops D) (absF M) (absFQ M)" using D by (simp add: nat_dpdk_ok_def)
    have fn: "fwd_map M st2 (flow_fkey f) = None" using l2 by (simp add: learn_inv_def)
    note fw = hash_addD(1) [OF F fadd fn]
    have other: "flow_rkey f port \<noteq> reverse_key_of e" "flow_fkey f \<noteq> forward_key_of e" if "(i, e) \<in> K" for i e
      using inv that kept_other_flow [of M clk i e st] new by (auto simp: learn_inv_def)
    show ?thesis
    proof (cases fok)
      case False
      have "learn_inv M clk T (flow_fkey f) K {#} st3"
        using l2 fw False by (auto simp: learn_inv_def kept_def st3_def)
      moreover have "rev_map M st3 (flow_rkey f port) = Some idx" using rev2 by (simp add: st3_def)
      ultimately have "learn_inv M clk T (flow_fkey f) K {#} (run_free_cbs D rf' (st3\<lparr>nat_reverse_hash := rh'\<rparr>))"
        by (rule rev_rollback_effect [OF D _ _ _ del]) (rule other(1))
      with True False show ?thesis by (simp add: pub learn_inv_post)
    next
      case fok: True
      have "nat_expire_at st3 idx = nat_expiry_cycles clk" using r(4) new by (simp add: st3_def)
      then have "no_wrap clk \<longrightarrow> cur_cycles clk \<le> nat_expire_at st3 idx"
        using expiry_not_past [of clk] by (simp add: word_le_nat_alt)
      then have "learn_post M clk T K f P (port, Some idx, st3)"
        using l2 fw fok rev2 e2 P other(2)
        by (fastforce simp: learn_post_def learn_inv_def learned_def kept_def st3_def)
      with True fok show ?thesis by (simp add: pub)
    qed
  qed
qed

section \<open>Learning\<close>

lemma nat_lookup_eq:
  assumes "nat_dpdk_ok D M"
  shows "hash_lookup (rev_ops D) (nat_reverse_hash st) k = rev_map M st k"
    and "hash_lookup (fwd_ops D) (nat_forward_hash st) k' = fwd_map M st k'"
  using assms hash_lookup_eq by (auto simp: nat_dpdk_ok_def intro!: hash_lookup_eq)

lemma gc_scan_rev_sub:
  assumes D: "nat_dpdk_ok D M" and inv: "pool_inv M hand st" and none: "rev_map M st k = None"
  shows "rev_map M (snd (nat_gc_scan_by_ccb D clk max_slots st)) k = None"
proof -
  let ?P = "\<lambda>s. pool_inv M hand s \<and> rev_map M s k = None"
  have "?P (snd (nat_gc_scan_by_ccb D clk max_slots st))"
  proof (rule gc_scan_rule [where P = ?P])
    fix n and acc :: "u32 \<times> ('a, 'b, 'c) nat_ccb"
    assume a: "?P (snd acc)"
    let ?i = "unat (nat_gc_counter st + of_nat n) mod MAX_NAT_ENTRIES"
    have "rev_map M (snd (nat_entry_del_keys D ?i (snd acc))) k = None"
      using a del_keys_effect(2) [OF D, of hand "snd acc" ?i] by simp
    with a gc_slot_pool_inv [OF D, of hand acc clk ?i]
    show "?P (snd (nat_gc_slot D clk ?i acc))"
      by (auto simp: nat_gc_slot_def Let_def split: prod.splits)
  next
    fix s :: "('a, 'b, 'c) nat_ccb" and rh fr
    assume s: "?P s" and r: "hash_reclaim (rev_ops D) (nat_reverse_hash s) = (rh, fr)"
    from s reclaim_effect(1,2) [OF D _ r, of hand] show "?P (run_free_cbs D fr (s\<lparr>nat_reverse_hash := rh\<rparr>))"
      by simp
  qed (use inv none in auto)
  then show ?thesis by simp
qed

lemma slot_alloc_rev_sub:
  assumes D: "nat_dpdk_ok D M" and inv: "pool_inv M {#} st" and none: "rev_map M st k = None"
    and alloc: "nat_slot_alloc D clk st = (res, st')"
  shows "rev_map M st' k = None"
proof -
  obtain rg r where dq1: "ring_dequeue (ring_ops D) (nat_free_ring st) = (rg, r)" by (metis surj_pair)
  note p1 = dequeue_pool_inv [OF D inv dq1]
  show ?thesis
  proof (cases r)
    case (Some i)
    with dq1 alloc none show ?thesis by (auto simp: nat_slot_alloc_def)
  next
    case None
    let ?st1 = "snd (nat_gc_scan_by_ccb D clk NAT_GC_SCAN_CHUNK (st\<lparr>nat_free_ring := rg\<rparr>))"
    obtain rh fr where rc: "hash_reclaim (rev_ops D) (nat_reverse_hash ?st1) = (rh, fr)" by (metis surj_pair)
    have p: "pool_inv M {#} (st\<lparr>nat_free_ring := rg\<rparr>)" using p1 None by simp
    have "rev_map M ?st1 k = None" using gc_scan_rev_sub [OF D p] none by simp
    with reclaim_effect(2) [OF D gc_scan_pool_inv [OF D p] rc] alloc dq1 None rc show ?thesis
      by (auto simp: nat_slot_alloc_def Let_def split: prod.splits)
  qed
qed

lemma insert_locked_effect:
  assumes D: "nat_dpdk_ok D M" and inv: "learn_inv M clk T (flow_fkey f) K {#} st" and P: "P port"
  shows "case nat_insert_locked D clk f port st of
      Inr st' \<Rightarrow> learn_inv M clk T (flow_fkey f) K {#} st'
    | Inl r \<Rightarrow> learn_post M clk T K f P r"
proof (cases "rev_map M st (flow_rkey f port)")
  case (Some i)
  have "fwd_map M st (flow_fkey f) = None" using inv by (simp add: learn_inv_def)
  with Some inv P show ?thesis
    by (auto simp: nat_insert_locked_def nat_lookup_eq [OF D] learned_def intro!: refresh_post [OF inv])
next
  case None
  obtain res st1 where alloc: "nat_slot_alloc D clk st = (res, st1)" by (metis surj_pair)
  note l1 = slot_alloc_learn_inv [OF D inv alloc]
  have fn: "fwd_map M st (flow_fkey f) = None" and pool: "pool_inv M {#} st"
    using inv by (simp_all add: learn_inv_def)
  note n1 = slot_alloc_rev_sub [OF D pool None alloc]
  show ?thesis
  proof (cases res)
    case None
    with l1 alloc fn \<open>rev_map M st (flow_rkey f port) = None\<close> show ?thesis
      by (simp add: nat_insert_locked_def nat_lookup_eq [OF D] learn_inv_post)
  next
    case (Some idx)
    with l1 have "learn_inv M clk T (flow_fkey f) K {#idx#} st1" by simp
    from nat_publish_effect [OF D this n1, of P] P Some alloc fn None show ?thesis
      by (simp add: nat_insert_locked_def nat_lookup_eq [OF D])
  qed
qed

lemma try_port_effect:
  assumes D: "nat_dpdk_ok D M" and inv: "learn_inv M clk T (flow_fkey f) K {#} st"
    and P: "pf_is_active (T (rte_be_to_cpu_16 port)) \<noteq> 1 \<Longrightarrow> P port"
  shows "case nat_try_port D clk f port st of
      Inr st' \<Rightarrow> learn_inv M clk T (flow_fkey f) K {#} st'
    | Inl r \<Rightarrow> learn_post M clk T K f P r"
proof (cases "pf_is_active (T (rte_be_to_cpu_16 port)) = 1")
  case True
  with inv show ?thesis by (simp add: nat_try_port_def learn_inv_def)
next
  case False
  then have T: "pf_is_active (port_fwd_table st (rte_be_to_cpu_16 port)) \<noteq> 1" and P': "P port"
    using inv P by (simp_all add: learn_inv_def)
  show ?thesis
  proof (cases "rev_map M st (flow_rkey f port)")
    case None
    with T insert_locked_effect [where P = P, OF D inv P'] show ?thesis
      by (simp add: nat_try_port_def nat_lookup_eq [OF D])
  next
    case (Some i)
    have pool: "pool_inv M {#} st" using inv by (simp add: learn_inv_def)
    have rk: "reverse_key_of (addr_tab st i) = flow_rkey f port" by (rule pool_invD(3) [OF pool Some])
    have sl: "at_expire_slot (addr_tab st i) = i" using pool_invD(5) [OF pool] rev_map_bound [OF pool Some] .
    show ?thesis
    proof (cases "same_flow_entry f port (addr_tab st i) \<or> \<not> nat_entry_is_expired clk st i")
      case True
      with T Some inv P' show ?thesis
        by (auto simp: nat_try_port_def nat_lookup_eq [OF D] learned_def intro!: refresh_post [OF inv])
    next
      case False
      have "reverse_key_of (addr_tab st i) \<noteq> reverse_key_of e \<and> forward_key_of (addr_tab st i) \<noteq> forward_key_of e"
        if "(j, e) \<in> K" for j e
      proof -
        have k: "kept M clk (j, e) st" using inv that by (simp add: learn_inv_def)
        have "at_is_fill (addr_tab st i) = NAT_ENTRY_READY" "i < MAX_NAT_ENTRIES"
          using pool_invD(2) [OF pool Some] rev_map_bound [OF pool Some] .
        moreover have "i \<noteq> j" using k False sl by (auto simp: kept_def nat_entry_is_expired_def)
        ultimately show ?thesis using k by (auto simp: kept_def)
      qed
      from insert_locked_effect [where P = P, OF D del_keys_learn_inv [OF D inv this] P'] T Some False
      show ?thesis by (simp add: nat_try_port_def nat_lookup_eq [OF D])
    qed
  qed
qed

section \<open>The port walk\<close>

text \<open>Ports are kept in network order; \<open>nat_port_pos\<close> is a port's place in the usable range.\<close>

definition nat_port_ok :: "u16 \<Rightarrow> bool" where
  "nat_port_ok port \<longleftrightarrow> SYS_MAX_PORT \<le> unat (rte_be_to_cpu_16 port)"

definition nat_port_pos :: "u16 \<Rightarrow> nat" where
  "nat_port_pos port = unat (rte_be_to_cpu_16 port) - SYS_MAX_PORT"

lemma unat_u16_less: "unat (x :: u16) < 65536"
  using unsigned_less [of x] by simp

lemma nat_port_pos_less: "nat_port_ok port \<Longrightarrow> nat_port_pos port < NAT_PORT_RANGE"
  using unat_u16_less [of "bswap16 port"] by (simp add: nat_port_ok_def nat_port_pos_def)

lemma nat_port_pos_inject:
  assumes "nat_port_ok p" and "nat_port_ok q" and "nat_port_pos p = nat_port_pos q"
  shows "p = q"
proof -
  have "unat (bswap16 p) = unat (bswap16 q)" using assms by (simp add: nat_port_ok_def nat_port_pos_def)
  then show ?thesis by (simp add: word_unat_eq_iff [symmetric])
qed

lemma next_nat_port_ok: "nat_port_ok port \<Longrightarrow> nat_port_ok (next_nat_port port)"
  using unat_u16_less [of "bswap16 port"]
  by (auto simp: nat_port_ok_def next_nat_port_def Let_def unat_of_nat)

lemma next_nat_port_pos:
  assumes "nat_port_ok port"
  shows "nat_port_pos (next_nat_port port) = (if nat_port_pos port + 1 = NAT_PORT_RANGE then 0 else nat_port_pos port + 1)"
  using assms unat_u16_less [of "bswap16 port"]
  by (auto simp: nat_port_ok_def nat_port_pos_def next_nat_port_def Let_def unat_of_nat)

lemma initial_nat_port_ok: "nat_port_ok (compute_initial_nat_port D sip sport)"
proof -
  have "unat (of_nat (n mod NAT_PORT_RANGE + SYS_MAX_PORT) :: u16) = n mod NAT_PORT_RANGE + SYS_MAX_PORT" for n
    using mod_less_divisor [of NAT_PORT_RANGE n] by (simp add: unat_of_nat del: of_nat_add)
  then show ?thesis
    by (simp add: nat_port_ok_def compute_initial_nat_port_def Let_def del: of_nat_add)
qed

text \<open>The steps left until the walk is back at \<open>start\<close>.\<close>

definition walk_left :: "u16 \<Rightarrow> u16 \<Rightarrow> nat" where
  "walk_left start port =
     (if nat_port_pos port < nat_port_pos start then nat_port_pos start - nat_port_pos port
      else NAT_PORT_RANGE + nat_port_pos start - nat_port_pos port)"

lemma walk_left_next:
  assumes "nat_port_ok start" and "nat_port_ok port" and "next_nat_port port \<noteq> start"
  shows "walk_left start (next_nat_port port) < walk_left start port"
proof -
  have "nat_port_pos (next_nat_port port) \<noteq> nat_port_pos start"
    using assms nat_port_pos_inject next_nat_port_ok by blast
  then show ?thesis
    using next_nat_port_pos [OF assms(2)] nat_port_pos_less [OF assms(1)] nat_port_pos_less [OF assms(2)]
    by (auto simp: walk_left_def split: if_splits)
qed

lemma nat_port_walk_total:
  assumes "nat_port_ok start" and "nat_port_ok port" and "walk_left start port \<le> fuel" and "0 < fuel"
  shows "nat_port_walk fuel D clk f start port st \<noteq> None"
  using assms(2-4)
proof (induction fuel arbitrary: port st)
  case (Suc n)
  have "walk_left start (next_nat_port port) \<le> n \<and> 0 < n" if "next_nat_port port \<noteq> start"
  proof -
    have "0 < walk_left start (next_nat_port port)"
      using nat_port_pos_less [OF next_nat_port_ok [OF Suc.prems(1)]] by (simp add: walk_left_def)
    with walk_left_next [OF assms(1) Suc.prems(1) that] Suc.prems(2) show ?thesis by linarith
  qed
  with Suc.IH [OF next_nat_port_ok [OF Suc.prems(1)]] show ?case
    by (subst nat_port_walk.simps) (auto split: sum.splits)
qed simp

lemma learning_total: "nat_learning_port_reuse D clk f st \<noteq> None"
proof -
  let ?s = "compute_initial_nat_port D (fl_src_ip f) (fl_src_port f)"
  have "walk_left ?s ?s \<le> NAT_PORT_RANGE" by (simp add: walk_left_def)
  from nat_port_walk_total [OF initial_nat_port_ok initial_nat_port_ok this] show ?thesis
    by (auto simp: nat_learning_port_reuse_def Let_def split: option.splits)
qed

definition usable_port :: "(u16 \<Rightarrow> port_fwd_entry) \<Rightarrow> u16 \<Rightarrow> bool" where
  "usable_port T port \<longleftrightarrow> nat_port_ok port \<and> pf_is_active (T (rte_be_to_cpu_16 port)) \<noteq> 1"

lemma nat_port_walk_effect:
  assumes D: "nat_dpdk_ok D M" and "learn_inv M clk T (flow_fkey f) K {#} st" and "nat_port_ok port"
    and "nat_port_walk fuel D clk f start port st = Some r"
  shows "learn_post M clk T K f (usable_port T) r"
  using assms(2-4)
proof (induction fuel arbitrary: port st)
  case 0
  then show ?case by (simp add: nat_port_walk.simps)
next
  case (Suc n)
  note eff = try_port_effect [where P = "usable_port T", OF D Suc.prems(1), of port]
  show ?case
  proof (cases "nat_try_port D clk f port st")
    case (Inl r')
    have "learn_post M clk T K f (usable_port T) r'" using eff Inl Suc.prems(2) by (simp add: usable_port_def [of _ port])
    with Inl Suc.prems(3) show ?thesis by (simp add: nat_port_walk.simps)
  next
    case (Inr st')
    with eff Suc.prems(2) have l: "learn_inv M clk T (flow_fkey f) K {#} st'" by (simp add: usable_port_def [of _ port])
    show ?thesis
    proof (cases "next_nat_port port = start")
      case True
      with Inr l Suc.prems(3) learn_inv_post [of M clk T "flow_fkey f" K st' f "usable_port T"] show ?thesis
        by (simp add: nat_port_walk.simps)
    next
      case False
      with Inr Suc.prems(3) have "nat_port_walk n D clk f start (next_nat_port port) st' = Some r"
        by (simp add: nat_port_walk.simps [of "Suc n"])
      from Suc.IH [OF l next_nat_port_ok [OF Suc.prems(2)] this] show ?thesis .
    qed
  qed
qed

text \<open>A flow the forward hash already knows is linked in both directions.\<close>

definition fwd_linked :: "('rh, 'fh, 'rg) nat_abs \<Rightarrow> nat_flow \<Rightarrow> ('rh, 'fh, 'rg) nat_ccb \<Rightarrow> bool" where
  "fwd_linked M f st \<longleftrightarrow>
     (case fwd_map M st (flow_fkey f) of None \<Rightarrow> True
      | Some i \<Rightarrow> learned M f (at_nat_port (addr_tab st i)) i st)"

lemma learning_new_effect:
  assumes D: "nat_dpdk_ok D M" and "pool_inv M {#} st" and "fwd_map M st (flow_fkey f) = None"
    and "\<And>p. p \<in> K \<Longrightarrow> kept M clk p st" and "nat_learning_port_reuse D clk f st = Some r"
  shows "learn_post M clk (port_fwd_table st) K f (usable_port (port_fwd_table st)) r"
proof -
  have "learn_inv M clk (port_fwd_table st) (flow_fkey f) K {#} st" using assms by (simp add: learn_inv_def)
  from nat_port_walk_effect [OF D this initial_nat_port_ok] assms(3,5) show ?thesis
    by (simp add: nat_learning_port_reuse_def nat_lookup_eq [OF D] Let_def)
qed

lemma learning_known_effect:
  assumes D: "nat_dpdk_ok D M" and "pool_inv M {#} st" and "fwd_map M st (flow_fkey f) = Some i"
    and "nat_learning_port_reuse D clk f st = Some (port, out, st')"
  shows "port = at_nat_port (addr_tab st i)" and "out = Some i" and "st' = nat_refresh_slot clk i st"
    and "pool_inv M {#} st'"
  using assms by (auto simp: nat_learning_port_reuse_def nat_lookup_eq [OF D] nat_refresh_slot_def Let_def)

end
