(* ===== verification/Snat_Props.thy ===== *)
theory Snat_Props
  imports Snat_Inv
begin

text \<open>
  The properties of the SNAT table: slot accounting in every reachable state, the round trip of a
  learned flow, isolation of live flows, port choice, and the behaviour of expired entries.
\<close>

section \<open>Reachable tables\<close>

text \<open>
  The operations the data plane, the garbage collector and the control plane run on a table, one
  constructor per call. \<open>nat_reach\<close> starts where \<open>nat_table_init\<close> ends.
\<close>

inductive nat_step :: "('rh, 'fh, 'rg) nat_dpdk \<Rightarrow> ('rh, 'fh, 'rg) nat_ccb \<Rightarrow> ('rh, 'fh, 'rg) nat_ccb \<Rightarrow> bool"
  for D :: "('rh, 'fh, 'rg) nat_dpdk" where
  learn: "nat_learning_port_reuse D clk f st = Some (port, out, st') \<Longrightarrow> nat_step D st st'"
| tcp_learn: "nat_tcp_learning D clk mac ip hdr st = Some (port, st') \<Longrightarrow> nat_step D st st'"
| reverse: "nat_step D st (snd (nat_reverse_lookup D clk port rip rport st))"
| gc: "nat_step D st (snd (nat_gc_scan_by_ccb D clk n st))"
| track: "nat_step D st (snd (tcp_conntrack_fsm clk i flags b st))"
| seq: "nat_step D st (tcp_conntrack_seq_update i hdr len b st)"
| del_all: "nat_step D st (nat_table_del_all_entries_from_hash D st)"
| fwd_add: "nat_step D st (st\<lparr>port_fwd_table := port_fwd_add (port_fwd_table st) eport dip iport\<rparr>)"
| fwd_remove: "nat_step D st (st\<lparr>port_fwd_table := snd (port_fwd_remove (port_fwd_table st) eport)\<rparr>)"

inductive nat_reach :: "('rh, 'fh, 'rg) nat_dpdk \<Rightarrow> ('rh, 'fh, 'rg) nat_abs \<Rightarrow> ('rh, 'fh, 'rg) nat_ccb \<Rightarrow> bool"
  for D :: "('rh, 'fh, 'rg) nat_dpdk" and M :: "('rh, 'fh, 'rg) nat_abs" where
  init: "rev_map M st = Map.empty \<Longrightarrow> dq M st = [] \<Longrightarrow> free_list M st = [] \<Longrightarrow>
    nat_reach D M (nat_table_enqueue_all_entries_to_ring D MAX_NAT_ENTRIES (nat_table_init_entries MAX_NAT_ENTRIES st))"
| step: "nat_reach D M st \<Longrightarrow> nat_step D st st' \<Longrightarrow> nat_reach D M st'"

section \<open>Every step keeps the accounting\<close>

lemma init_entries_effect:
  "nat_reverse_hash (nat_table_init_entries n st) = nat_reverse_hash st"
  "nat_forward_hash (nat_table_init_entries n st) = nat_forward_hash st"
  "nat_free_ring (nat_table_init_entries n st) = nat_free_ring st"
  "i < n \<Longrightarrow> at_is_fill (addr_tab (nat_table_init_entries n st) i) = NAT_ENTRY_FREE \<and>
    at_expire_slot (addr_tab (nat_table_init_entries n st) i) = i"
  by (induction n) (auto simp: Let_def less_Suc_eq)

lemma enqueue_all_effect:
  assumes "rte_ring_contract (ring_ops D) (absL M) MAX_NAT_ENTRIES" and "free_list M st = []"
    and "n \<le> MAX_NAT_ENTRIES"
  shows "free_list M (nat_table_enqueue_all_entries_to_ring D n st) = [0..<n]"
    and "nat_reverse_hash (nat_table_enqueue_all_entries_to_ring D n st) = nat_reverse_hash st"
    and "nat_forward_hash (nat_table_enqueue_all_entries_to_ring D n st) = nat_forward_hash st"
    and "addr_tab (nat_table_enqueue_all_entries_to_ring D n st) = addr_tab st"
  using assms(3) by (induction n) (simp_all add: assms(2) Let_def ring_enqueueD(1) [OF assms(1)])

lemma init_pool_inv:
  assumes "nat_dpdk_ok D M" and "rev_map M st = Map.empty" and "dq M st = []" and "free_list M st = []"
  shows "pool_inv M {#}
    (nat_table_enqueue_all_entries_to_ring D MAX_NAT_ENTRIES (nat_table_init_entries MAX_NAT_ENTRIES st))"
proof -
  have "rte_ring_contract (ring_ops D) (absL M) MAX_NAT_ENTRIES" using assms(1) by (simp add: nat_dpdk_ok_def)
  note e = enqueue_all_effect [OF this, of "nat_table_init_entries MAX_NAT_ENTRIES st" MAX_NAT_ENTRIES]
  note e1 = e(1) [unfolded init_entries_effect, OF assms(4) order_refl]
    and er = e(2-4) [unfolded init_entries_effect, OF assms(4) order_refl]
  show ?thesis using assms(2,3) slots_ok_init [of MAX_NAT_ENTRIES]
    by (simp add: pool_inv_def e1 er init_entries_effect)
qed

lemma del_all_pool_inv:
  assumes "nat_dpdk_ok D M" and "pool_inv M hand st"
  shows "pool_inv M hand (nat_table_del_all_entries_from_hash D st)"
proof -
  have "pool_inv M hand (nat_del_all_from D is st)" for "is"
    using assms(2) by (induction "is" arbitrary: st) (simp_all add: del_keys_effect(1) [OF assms(1)])
  then show ?thesis by (simp add: nat_table_del_all_entries_from_hash_def)
qed

text \<open>Tracking writes only fields outside the identity of an entry.\<close>

lemma set_entry_pair_pool_inv:
  assumes "pool_inv M hand st" and "nat_entry_id p = nat_entry_id (nat_entry_pair st i)"
  shows "pool_inv M hand (nat_set_entry_pair i p st)"
  using assms by (auto simp: pool_inv_def nat_set_entry_pair_def nat_entry_id_def nat_entry_pair_def split: prod.splits)

lemma nat_view_write_id: "nat_entry_id (nat_view_write v p) = nat_entry_id p"
  by (rule nat_conn.key_put)

lemma track_pool_inv:
  assumes "pool_inv M hand st"
  shows "pool_inv M hand (snd (tcp_conntrack_fsm clk i flags b st))"
    and "pool_inv M hand (tcp_conntrack_seq_update i hdr len b st)"
  using set_entry_pair_pool_inv [OF assms, of _ i] nat_view_write_id
  by (auto simp: tcp_conntrack_fsm_def tcp_conntrack_seq_update_def split: prod.splits)

lemma learning_pool_inv:
  assumes "nat_dpdk_ok D M" and "pool_inv M {#} st" and "nat_learning_port_reuse D clk f st = Some (port, out, st')"
  shows "pool_inv M {#} st'"
proof (cases "fwd_map M st (flow_fkey f)")
  case None
  from learning_new_effect [OF assms(1,2) None, of "{}", OF _ assms(3)] show ?thesis by (simp add: learn_post_def)
next
  case (Some i)
  from learning_known_effect(4) [OF assms(1,2) Some assms(3)] show ?thesis .
qed

lemma tcp_learning_pool_inv:
  assumes "nat_dpdk_ok D M" and "pool_inv M {#} st" and "nat_tcp_learning D clk mac ip hdr st = Some (port, st')"
  shows "pool_inv M {#} st'"
  using assms(3) learning_pool_inv [OF assms(1,2)]
  by (auto simp: nat_tcp_learning_def Let_def track_pool_inv split: option.splits if_splits)

lemma reverse_lookup_pool_inv:
  assumes "nat_dpdk_ok D M" and "pool_inv M hand st"
  shows "pool_inv M hand (snd (nat_reverse_lookup D clk port rip rport st))"
  using assms del_keys_effect(1) [OF assms]
  by (auto simp: nat_reverse_lookup_def nat_refresh_slot_def Let_def split: option.splits)

lemma nat_step_pool_inv:
  assumes "nat_step D st st'" and "nat_dpdk_ok D M" and "pool_inv M {#} st"
  shows "pool_inv M {#} st'"
  using assms(1)
proof cases
  case (learn clk f port out)
  then show ?thesis using learning_pool_inv [OF assms(2,3)] by blast
next
  case (tcp_learn clk mac ip hdr port)
  then show ?thesis using tcp_learning_pool_inv [OF assms(2,3)] by blast
qed (use assms in \<open>simp_all add: reverse_lookup_pool_inv gc_scan_pool_inv track_pool_inv del_all_pool_inv\<close>)

lemma nat_reach_pool_inv: "nat_reach D M st \<Longrightarrow> nat_dpdk_ok D M \<Longrightarrow> pool_inv M {#} st"
  by (induction rule: nat_reach.induct) (auto intro: init_pool_inv nat_step_pool_inv)

section \<open>A concrete table\<close>

text \<open>The table right after initialisation, with the list instances of the library objects.\<close>

type_synonym nat_list_ccb = "(nat_reverse_key list_hash, nat_forward_key list_hash, nat list) nat_ccb"

definition list_dpdk :: "(nat_reverse_key list_hash, nat_forward_key list_hash, nat list) nat_dpdk" where
  "list_dpdk = \<lparr>rev_ops = list_hash, fwd_ops = list_hash, ring_ops = list_ring MAX_NAT_ENTRIES,
     hash_crc_4byte = (\<lambda>x seed. x + seed)\<rparr>"

definition list_abs :: "(nat_reverse_key list_hash, nat_forward_key list_hash, nat list) nat_abs" where
  "list_abs = \<lparr>absR = (\<lambda>(kvs, q). map_of kvs), absQ = snd, absF = (\<lambda>(kvs, q). map_of kvs), absFQ = snd,
     absL = id\<rparr>"

definition blank_entry :: addr_table where
  "blank_entry = \<lparr>at_mac_addr = 0, at_src_ip = 0, at_dst_ip = 0, at_src_port = 0, at_dst_port = 0,
     at_nat_port = 0, at_proto = 0, at_tcp_state = 0, at_tcp_fin_flags = 0, at_is_fill = 0, at_expire_slot = 0,
     at_max_seq_end_lan = 0, at_max_seq_end_wan = 0, at_max_ack_lan = 0, at_max_ack_wan = 0,
     at_max_win_lan = 0, at_max_win_wan = 0\<rparr>"

definition blank_table :: nat_list_ccb where
  "blank_table = \<lparr>addr_tab = (\<lambda>_. blank_entry), nat_expire_at = (\<lambda>_. 0), nat_enospc = 0, nat_gc_reclaimed = 0,
     nat_reverse_hash = ([], []), nat_forward_hash = ([], []), nat_free_ring = [], nat_gc_counter = 0,
     port_fwd_table = (\<lambda>_. \<lparr>pf_dip = 0, pf_iport = 0, pf_is_active = 0, pf_hit_count = 0\<rparr>)\<rparr>"

definition empty_table :: nat_list_ccb where
  "empty_table = nat_table_enqueue_all_entries_to_ring list_dpdk MAX_NAT_ENTRIES
     (nat_table_init_entries MAX_NAT_ENTRIES blank_table)"

lemma list_dpdk_ok: "nat_dpdk_ok list_dpdk list_abs"
  by (simp add: nat_dpdk_ok_def list_dpdk_def list_abs_def list_hash_contract list_ring_contract)

lemma empty_table_reach: "nat_reach list_dpdk list_abs empty_table"
  unfolding empty_table_def by (rule nat_reach.init) (simp_all add: blank_table_def list_abs_def)

lemmas empty_table_pool_inv = nat_reach_pool_inv [OF empty_table_reach list_dpdk_ok]

lemma enqueue_all_frame:
  "nat_expire_at (nat_table_enqueue_all_entries_to_ring D n st) = nat_expire_at st"
  "nat_gc_counter (nat_table_enqueue_all_entries_to_ring D n st) = nat_gc_counter st"
  "port_fwd_table (nat_table_enqueue_all_entries_to_ring D n st) = port_fwd_table st"
  "addr_tab (nat_table_enqueue_all_entries_to_ring D n st) = addr_tab st"
  by (induction n) (simp_all add: Let_def)

lemma empty_table_simps [simp]:
  "nat_reverse_hash empty_table = ([], [])" "nat_forward_hash empty_table = ([], [])"
  "nat_free_ring empty_table = [0..<MAX_NAT_ENTRIES]" "nat_gc_counter empty_table = 0"
  "i < MAX_NAT_ENTRIES \<Longrightarrow> addr_tab empty_table i = blank_entry\<lparr>at_expire_slot := i\<rparr>"
  "nat_expire_at empty_table = (\<lambda>_. 0)"
  "port_fwd_table empty_table = (\<lambda>_. \<lparr>pf_dip = 0, pf_iport = 0, pf_is_active = 0, pf_hit_count = 0\<rparr>)"
proof -
  have ring: "rte_ring_contract (ring_ops list_dpdk) (absL list_abs) MAX_NAT_ENTRIES"
    using list_dpdk_ok by (simp add: nat_dpdk_ok_def)
  have fl: "free_list list_abs (nat_table_init_entries MAX_NAT_ENTRIES blank_table) = []"
    by (simp add: init_entries_effect blank_table_def list_abs_def)
  show "nat_reverse_hash empty_table = ([], [])" "nat_forward_hash empty_table = ([], [])"
    unfolding empty_table_def by (simp_all add: enqueue_all_effect [OF ring fl] init_entries_effect)
      (simp_all add: blank_table_def)
  show "nat_free_ring empty_table = [0..<MAX_NAT_ENTRIES]"
    using enqueue_all_effect(1) [OF ring fl order_refl] by (simp add: empty_table_def list_abs_def)
  have e: "nat_expire_at (nat_table_init_entries n blank_table) = (\<lambda>_. 0) \<and>
      nat_gc_counter (nat_table_init_entries n blank_table) = 0 \<and>
      port_fwd_table (nat_table_init_entries n blank_table) = port_fwd_table blank_table" for n
    by (induction n) (simp_all add: Let_def blank_table_def fun_eq_iff)
  have t: "addr_tab (nat_table_init_entries n blank_table) i =
      (if i < n then blank_entry\<lparr>at_expire_slot := i\<rparr> else blank_entry)" for n i
    by (induction n) (auto simp: Let_def blank_table_def blank_entry_def less_Suc_eq)
  show "nat_gc_counter empty_table = 0" "nat_expire_at empty_table = (\<lambda>_. 0)"
    "port_fwd_table empty_table = (\<lambda>_. \<lparr>pf_dip = 0, pf_iport = 0, pf_is_active = 0, pf_hit_count = 0\<rparr>)"
    using e by (simp_all add: empty_table_def enqueue_all_frame) (simp add: blank_table_def)
  show "i < MAX_NAT_ENTRIES \<Longrightarrow> addr_tab empty_table i = blank_entry\<lparr>at_expire_slot := i\<rparr>"
    using t by (simp add: empty_table_def enqueue_all_frame)
qed

section \<open>Two flows that share a port\<close>

text \<open>
  Two flows to one destination whose hash starts at the same port. The first is learned at cycle 0, the
  second after the first has expired: the second evicts the first and takes its reverse key over.
\<close>

definition clk_at :: "u64 \<Rightarrow> clock" where
  "clk_at n = \<lparr>cur_cycles = n, cycles_in_sec = 1\<rparr>"

definition flow_a :: nat_flow where
  "flow_a = \<lparr>fl_mac = 1, fl_proto = IPPROTO_UDP, fl_src_ip = 10, fl_dst_ip = 99, fl_src_port = 1, fl_dst_port = 53\<rparr>"

definition flow_b :: nat_flow where
  "flow_b = \<lparr>fl_mac = 2, fl_proto = IPPROTO_UDP, fl_src_ip = 9, fl_dst_ip = 99, fl_src_port = 2, fl_dst_port = 53\<rparr>"

definition shared_port :: u16 where
  "shared_port = rte_cpu_to_be_16 1011"

definition table_a :: nat_list_ccb where
  "table_a = (fill_slot (clk_at 0) flow_a shared_port 0 empty_table)
     \<lparr>nat_free_ring := [1..<MAX_NAT_ENTRIES], nat_reverse_hash := ([(flow_rkey flow_a shared_port, 0)], []),
      nat_forward_hash := ([(flow_fkey flow_a, 0)], [])\<rparr>"

definition table_b :: nat_list_ccb where
  "table_b = (fill_slot (clk_at 20) flow_b shared_port 1 table_a)
     \<lparr>nat_free_ring := [2..<MAX_NAT_ENTRIES], nat_reverse_hash := ([(flow_rkey flow_b shared_port, 1)], [0]),
      nat_forward_hash := ([(flow_fkey flow_b, 1)], [0])\<rparr>"

lemma initial_port_a: "compute_initial_nat_port list_dpdk 10 1 = shared_port"
  by (simp add: compute_initial_nat_port_def list_dpdk_def shared_port_def)

lemma initial_port_b: "compute_initial_nat_port list_dpdk 9 2 = shared_port"
  by (simp add: compute_initial_nat_port_def list_dpdk_def shared_port_def)

lemma ring_dequeue_upt:
  "n < MAX_NAT_ENTRIES \<Longrightarrow> ring_dequeue (ring_ops list_dpdk) [n..<MAX_NAT_ENTRIES] = ([Suc n..<MAX_NAT_ENTRIES], Some n)"
  by (simp add: list_dpdk_def list_ring_def upt_conv_Cons)

lemma list_dpdk_simps:
  "hash_lookup (rev_ops list_dpdk) (kvs, q) k = map_of kvs k"
  "hash_lookup (fwd_ops list_dpdk) (kvs', q) k' = map_of kvs' k'"
  "hash_add (rev_ops list_dpdk) (kvs, q) k v = (((k, v) # kvs, q), True, [])"
  "hash_add (fwd_ops list_dpdk) (kvs', q) k' v = (((k', v) # kvs', q), True, [])"
  "hash_del (rev_ops list_dpdk) (kvs, q) k = (case map_of kvs k of
     None \<Rightarrow> ((kvs, q), False, []) | Some v \<Rightarrow> ((filter (\<lambda>kv. fst kv \<noteq> k) kvs, q @ [v]), True, []))"
  "hash_del (fwd_ops list_dpdk) (kvs', q) k' = (case map_of kvs' k' of
     None \<Rightarrow> ((kvs', q), False, []) | Some v \<Rightarrow> ((filter (\<lambda>kv. fst kv \<noteq> k') kvs', q @ [v]), True, []))"
  "hash_reclaim (rev_ops list_dpdk) (kvs, q) = ((kvs, []), q)"
  "hash_reclaim (fwd_ops list_dpdk) (kvs', q) = ((kvs', []), q)"
  by (simp_all add: list_dpdk_def list_hash_def)

lemma two_slots: "0 < MAX_NAT_ENTRIES" "Suc 0 < MAX_NAT_ENTRIES"
  by (simp_all add: MAX_NAT_ENTRIES_def)

lemma flow_keys:
  "flow_rkey flow_b shared_port = flow_rkey flow_a shared_port" "flow_fkey flow_a \<noteq> flow_fkey flow_b"
  "\<not> same_flow_entry flow_b shared_port (fill_entry flow_a shared_port e)"
  by (simp_all add: flow_a_def flow_b_def flow_rkey_def flow_fkey_def same_flow_entry_def
      nat_entry_same_flow_def fill_entry_def)

lemma run_free_cbs_Nil [simp]: "run_free_cbs D [] st = st"
  by (simp add: run_free_cbs_def)

lemmas nat_run_simps = nat_learning_port_reuse_def nat_port_walk.simps nat_try_port_def nat_insert_locked_def
  nat_slot_alloc_def nat_publish_def list_dpdk_simps ring_dequeue_upt two_slots nat_expire_set_def fill_slot_def

lemma learn_a: "nat_learning_port_reuse list_dpdk (clk_at 0) flow_a empty_table = Some (shared_port, Some 0, table_a)"
proof -
  have "compute_initial_nat_port list_dpdk (fl_src_ip flow_a) (fl_src_port flow_a) = shared_port"
    by (simp add: flow_a_def initial_port_a)
  then show ?thesis by (simp add: nat_run_simps table_a_def Let_def blank_entry_def)
qed

lemma learn_b: "nat_learning_port_reuse list_dpdk (clk_at 20) flow_b table_a = Some (shared_port, Some 1, table_b)"
proof -
  have p: "compute_initial_nat_port list_dpdk (fl_src_ip flow_b) (fl_src_port flow_b) = shared_port"
    by (simp add: flow_b_def initial_port_b)
  have e: "addr_tab table_a 0 = fill_entry flow_a shared_port (blank_entry\<lparr>at_expire_slot := 0\<rparr>)"
    "addr_tab table_a (Suc 0) = blank_entry\<lparr>at_expire_slot := Suc 0\<rparr>"
    "nat_expire_at table_a 0 = 10" "nat_reverse_hash table_a = ([(flow_rkey flow_a shared_port, 0)], [])"
    "nat_forward_hash table_a = ([(flow_fkey flow_a, 0)], [])" "nat_free_ring table_a = [1..<MAX_NAT_ENTRIES]"
    by (simp_all add: table_a_def two_slots nat_expiry_cycles_def clk_at_def)
  have x: "nat_entry_is_expired (clk_at 20) table_a 0"
    by (simp add: nat_entry_is_expired_def e blank_entry_def clk_at_def)
  have d: "snd (nat_entry_del_keys list_dpdk 0 table_a) =
      table_a\<lparr>nat_forward_hash := ([], [0]), nat_reverse_hash := ([], [0])\<rparr>"
    by (simp add: nat_entry_del_keys_def e list_dpdk_simps Let_def)
  have pf: "pf_is_active (port_fwd_table table_a (bswap16 shared_port)) = 0"
    by (simp add: table_a_def)
  show ?thesis
    by (simp add: nat_learning_port_reuse_def nat_port_walk.simps numeral_2_eq_2 flow_keys(2) [symmetric] nat_try_port_def list_dpdk_simps e p x d pf
        flow_keys nat_insert_locked_def nat_slot_alloc_def ring_dequeue_upt two_slots nat_publish_def
        table_b_def fill_slot_def nat_expire_set_def Let_def)
qed

lemma gc_slot_skip:
  assumes "nat_expire_at st i = 0 \<or> cur_cycles clk < nat_expire_at st i"
  shows "nat_gc_slot D clk i (r, st) = (r, st)"
  using assms by (auto simp: nat_gc_slot_def)

lemma gc_fold_skip:
  assumes "\<And>n. n \<in> set ns \<Longrightarrow> nat_expire_at st (ix n) = 0 \<or> cur_cycles clk < nat_expire_at st (ix n)"
  shows "fold (\<lambda>n. nat_gc_slot D clk (ix n)) ns (r, st) = (r, st)"
  using assms by (induction ns) (simp_all add: gc_slot_skip)

lemma table_a_reach: "nat_reach list_dpdk list_abs table_a"
  by (rule nat_reach.step [OF empty_table_reach nat_step.learn [OF learn_a]])

lemma table_b_reach: "nat_reach list_dpdk list_abs table_b"
  by (rule nat_reach.step [OF table_a_reach nat_step.learn [OF learn_b]])

lemmas table_a_pool_inv = nat_reach_pool_inv [OF table_a_reach list_dpdk_ok]

lemma table_b_simps:
  "addr_tab table_b 0 = fill_entry flow_a shared_port (blank_entry\<lparr>at_expire_slot := 0\<rparr>)"
  "addr_tab table_b (Suc 0) = fill_entry flow_b shared_port (blank_entry\<lparr>at_expire_slot := Suc 0\<rparr>)"
  "nat_expire_at table_b n = (if n = 0 then 10 else if n = 1 then 30 else 0)"
  "nat_reverse_hash table_b = ([(flow_rkey flow_a shared_port, Suc 0)], [0])"
  "nat_forward_hash table_b = ([(flow_fkey flow_b, Suc 0)], [0])" "nat_gc_counter table_b = 0"
  by (simp_all add: table_b_def table_a_def two_slots nat_expiry_cycles_def clk_at_def fill_slot_def flow_keys)

lemma gc_b:
  "nat_gc_scan_by_ccb list_dpdk (clk_at 20) NAT_GC_SCAN_CHUNK table_b = (1, (run_free_cbs list_dpdk [0, Suc 0]
     (table_b\<lparr>nat_gc_counter := 512, nat_forward_hash := ([(flow_fkey flow_b, Suc 0)], [0]),
        nat_gc_reclaimed := nat_gc_reclaimed table_b + 1, nat_reverse_hash := ([], [])\<rparr>))
     \<lparr>nat_forward_hash := ([(flow_fkey flow_b, Suc 0)], [])\<rparr>)"
proof -
  let ?st0 = "table_b\<lparr>nat_gc_counter := 512\<rparr>"
  let ?ix = "\<lambda>n. unat (0 + of_nat n :: u32) mod MAX_NAT_ENTRIES"
  let ?st1 = "?st0\<lparr>nat_forward_hash := ([(flow_fkey flow_b, Suc 0)], [0]), nat_reverse_hash := ([], [0, Suc 0])\<rparr>"
  have one: "nat_gc_slot list_dpdk (clk_at 20) (?ix 0) (0, ?st0) = (1, ?st1)"
    by (simp add: nat_gc_slot_def table_b_simps clk_at_def nat_entry_del_keys_def list_dpdk_simps Let_def
        flow_keys(2))
  have rest: "fold (\<lambda>n. nat_gc_slot list_dpdk (clk_at 20) (?ix n)) [1..<512] (1, ?st1) = (1, ?st1)"
  proof (rule gc_fold_skip)
    fix n :: nat
    assume n: "n \<in> set [1..<512]"
    then have "?ix n = n" by (simp add: unat_of_nat MAX_NAT_ENTRIES_def)
    with n show "nat_expire_at ?st1 (?ix n) = 0 \<or> cur_cycles (clk_at 20) < nat_expire_at ?st1 (?ix n)"
      by (simp add: table_b_simps clk_at_def)
  qed
  have "[0..<512] = (0 :: nat) # [1..<512]" unfolding One_nat_def by (rule upt_conv_Cons) simp
  with one rest have f: "fold (\<lambda>n. nat_gc_slot list_dpdk (clk_at 20) (?ix n)) [0..<512] (0, ?st0) = (1, ?st1)"
    by (simp only: fold_simps comp_def)
  show ?thesis unfolding nat_gc_scan_by_ccb_def table_b_simps Let_def
    using f by (simp add: list_dpdk_simps del: upt_rec_numeral)
qed

section \<open>Properties\<close>

text \<open>
  C4: In every state the table can reach, each of the pool's slots is on the free list, in the defer
  queue or published in the reverse hash, and in one of them only; a published slot is ready, carries
  its own reverse key, and a free one is marked free.
\<close>

theorem nat_slots_accounted:
  assumes "nat_dpdk_ok D M" and "nat_reach D M st"
  shows "pool_inv M {#} st"
  using nat_reach_pool_inv assms by blast

theorem nat_slots_accounted_witness:
  "pool_inv list_abs {#} (snd (nat_gc_scan_by_ccb list_dpdk (clk_at 20) NAT_GC_SCAN_CHUNK table_b))"
proof (rule nat_slots_accounted [OF list_dpdk_ok])
  show "nat_reach list_dpdk list_abs (snd (nat_gc_scan_by_ccb list_dpdk (clk_at 20) NAT_GC_SCAN_CHUNK table_b))"
    by (rule nat_reach.step [OF table_b_reach]) (rule nat_step.gc)
qed

text \<open>
  Round trip of a learned flow. When learning hands out an entry, a reply that arrives at the
  learned port from the flow's destination finds that very entry, and the entry names the flow's own
  source address and port; when it hands out none, the port is 0.
\<close>

lemma learn_then_lookup:
  assumes "nat_dpdk_ok D M" and "pool_inv M {#} st" and "fwd_linked M f st" and "no_wrap clk"
    and "nat_learning_port_reuse D clk f st = Some (port, out, st')"
  shows "case out of None \<Rightarrow> port = 0
    | Some i \<Rightarrow> fst (nat_reverse_lookup D clk port (fl_dst_ip f) (fl_dst_port f) st') = Some i \<and>
        same_flow_entry f port (addr_tab st' i)"
proof -
  have hit: "fst (nat_reverse_lookup D clk port (fl_dst_ip f) (fl_dst_port f) st') = Some i"
    if "learned M f port i st'" "cur_cycles clk \<le> nat_expire_at st' i" "pool_inv M {#} st'" for i
  proof -
    have "at_expire_slot (addr_tab st' i) = i"
      using that(1,3) rev_map_bound [of M "{#}" st' _ i] pool_invD(5) [of M "{#}" st' i] by (auto simp: learned_def)
    with that show ?thesis
      by (simp add: nat_reverse_lookup_def nat_lookup_eq [OF assms(1)] learned_def flow_rkey_def
          nat_entry_is_expired_def)
  qed
  show ?thesis
  proof (cases "fwd_map M st (flow_fkey f)")
    case None
    from learning_new_effect [OF assms(1,2) None, of "{}", OF _ assms(5)] assms(4) hit show ?thesis
      by (auto simp: learn_post_def learned_def split: option.splits)
  next
    case (Some i)
    note k = learning_known_effect [OF assms(1,2) Some assms(5)]
    have l: "learned M f (at_nat_port (addr_tab st i)) i st" using assms(3) Some by (simp add: fwd_linked_def)
    then have "at_expire_slot (addr_tab st i) = i"
      using rev_map_bound [OF assms(2), of _ i] pool_invD(5) [OF assms(2), of i] by (auto simp: learned_def)
    then have "learned M f port i st'" "cur_cycles clk \<le> nat_expire_at st' i"
      using l refresh_not_past [OF assms(4)] by (simp_all add: k(1,3) learned_def nat_refresh_slot_def Let_def)
    with hit k(2,4) show ?thesis by (simp add: learned_def)
  qed
qed


lemma kept_a: "kept list_abs (clk_at 0) (0, addr_tab table_a 0) table_a"
  by (auto simp: kept_def table_a_def list_abs_def two_slots nat_expiry_cycles_def clk_at_def blank_entry_def
      split: if_splits)


text \<open>
  A newly learned flow gets a port of the usable range 1000..65535 that no active
  port-forwarding rule claims.
\<close>

theorem nat_learned_port_usable:
  assumes "nat_dpdk_ok D M" and "pool_inv M {#} st" and "fwd_map M st (flow_fkey f) = None"
    and "nat_learning_port_reuse D clk f st = Some (port, Some i, st')"
  shows "SYS_MAX_PORT \<le> unat (rte_be_to_cpu_16 port) \<and>
    port_fwd_lookup_by_eport (port_fwd_table st') (rte_be_to_cpu_16 port) = None"
  using learning_new_effect [OF assms(1-3), of "{}", OF _ assms(4)]
  by (simp add: learn_post_def usable_port_def nat_port_ok_def port_fwd_lookup_by_eport_def)

theorem nat_learned_port_usable_witness:
  "SYS_MAX_PORT \<le> unat (rte_be_to_cpu_16 shared_port) \<and>
   port_fwd_lookup_by_eport (port_fwd_table table_a) (rte_be_to_cpu_16 shared_port) = None"
  by (rule nat_learned_port_usable [OF list_dpdk_ok empty_table_pool_inv _ learn_a]) (simp add: list_abs_def)

text \<open>C6: The port walk always returns: one round over the usable ports is enough fuel.\<close>

theorem nat_learning_returns: "\<exists>r. nat_learning_port_reuse D clk f st = Some r"
  using learning_total by blast

text \<open>
  The inbound lookup on every branch: an unknown tuple is a miss that changes nothing; an expired
  entry is a miss that unlinks both of its keys; a live entry is returned with its deadline refreshed and
  nothing else changed.
\<close>

theorem nat_reverse_lookup_cases:
  assumes "nat_dpdk_ok D M" and "pool_inv M {#} st"
  shows "case rev_map M st \<lparr>rk_dst_ip = rip, rk_nat_port = port, rk_dst_port = rport\<rparr> of
      None \<Rightarrow> nat_reverse_lookup D clk port rip rport st = (None, st)
    | Some i \<Rightarrow>
        if nat_entry_is_expired clk st i
        then fst (nat_reverse_lookup D clk port rip rport st) = None \<and>
          (let st' = snd (nat_reverse_lookup D clk port rip rport st) in
             rev_map M st' = (rev_map M st)(\<lparr>rk_dst_ip = rip, rk_nat_port = port, rk_dst_port = rport\<rparr> := None) \<and>
             fwd_map M st' = (fwd_map M st)(forward_key_of (addr_tab st i) := None))
        else nat_reverse_lookup D clk port rip rport st = (Some i, st\<lparr>nat_expire_at :=
          (nat_expire_at st)(i := nat_expire_refresh clk (nat_expire_at st i) (nat_expiry_cycles clk))\<rparr>)"
proof (cases "rev_map M st \<lparr>rk_dst_ip = rip, rk_nat_port = port, rk_dst_port = rport\<rparr>")
  case None
  then show ?thesis by (simp add: nat_reverse_lookup_def nat_lookup_eq [OF assms(1)])
next
  case (Some i)
  have k: "reverse_key_of (addr_tab st i) = \<lparr>rk_dst_ip = rip, rk_nat_port = port, rk_dst_port = rport\<rparr>"
    by (rule pool_invD(3) [OF assms(2) Some])
  have sl: "at_expire_slot (addr_tab st i) = i"
    using pool_invD(5) [OF assms(2)] rev_map_bound [OF assms(2) Some] .
  show ?thesis
    using del_keys_effect(2,3) [OF assms, of i] Some k sl
    by (simp add: nat_reverse_lookup_def nat_lookup_eq [OF assms(1)] nat_refresh_slot_def Let_def)
qed

theorem nat_reverse_lookup_cases_witness:
  "fst (nat_reverse_lookup list_dpdk (clk_at 20) shared_port 99 53 table_a) = None \<and>
   rev_map list_abs (snd (nat_reverse_lookup list_dpdk (clk_at 20) shared_port 99 53 table_a))
     (flow_rkey flow_a shared_port) = None"
proof -
  have k: "flow_rkey flow_a shared_port = \<lparr>rk_dst_ip = 99, rk_nat_port = shared_port, rk_dst_port = 53\<rparr>"
    by (simp add: flow_rkey_def flow_a_def)
  have "rev_map list_abs table_a \<lparr>rk_dst_ip = 99, rk_nat_port = shared_port, rk_dst_port = 53\<rparr> = Some 0"
    by (simp add: table_a_def list_abs_def k)
  moreover have "nat_entry_is_expired (clk_at 20) table_a 0"
    by (simp add: nat_entry_is_expired_def table_a_def two_slots clk_at_def nat_expiry_cycles_def blank_entry_def)
  ultimately show ?thesis
    using nat_reverse_lookup_cases [OF list_dpdk_ok table_a_pool_inv,
      where rip = 99 and port = shared_port and rport = 53 and clk = "clk_at 20"] k
    by (simp add: Let_def)
qed

text \<open>
  C7: The stale-slot defect. There is a reachable table in which a live flow, learned this very cycle, is
  linked in both directions, and a garbage-collection scan of the standard chunk removes its reverse key
  while its forward key stays: outbound packets keep their translation, every reply is dropped, and
  the slot the forward key leads to is back on the free list. The scan meets the expired slot of an
  evicted flow that still waits in the defer queue and deletes by key what now belongs to the flow
  that took the port over.
\<close>

theorem nat_gc_unlinks_live_flow:
  "\<exists>st st'. nat_reach list_dpdk list_abs st \<and>
     learned list_abs flow_b shared_port 1 st \<and> fwd_map list_abs st (flow_fkey flow_b) = Some 1 \<and>
     \<not> nat_entry_is_expired (clk_at 20) st 1 \<and>
     st' = snd (nat_gc_scan_by_ccb list_dpdk (clk_at 20) NAT_GC_SCAN_CHUNK st) \<and>
     fst (nat_reverse_lookup list_dpdk (clk_at 20) shared_port (fl_dst_ip flow_b) (fl_dst_port flow_b) st') = None \<and>
     fwd_map list_abs st' (flow_fkey flow_b) = Some 1 \<and> 1 \<in> set (free_list list_abs st')"
proof (intro exI conjI)
  let ?st' = "snd (nat_gc_scan_by_ccb list_dpdk (clk_at 20) NAT_GC_SCAN_CHUNK table_b)"
  show "nat_reach list_dpdk list_abs table_b" by (rule table_b_reach)
  show "learned list_abs flow_b shared_port 1 table_b"
    by (simp add: learned_def table_b_simps list_abs_def flow_keys)
  show "fwd_map list_abs table_b (flow_fkey flow_b) = Some 1" by (simp add: table_b_simps list_abs_def)
  show "\<not> nat_entry_is_expired (clk_at 20) table_b 1"
    by (simp add: nat_entry_is_expired_def table_b_simps clk_at_def)
  show "?st' = snd (nat_gc_scan_by_ccb list_dpdk (clk_at 20) NAT_GC_SCAN_CHUNK table_b)" by (rule refl)
  show "fwd_map list_abs ?st' (flow_fkey flow_b) = Some 1" by (simp add: gc_b list_abs_def)
  show "fst (nat_reverse_lookup list_dpdk (clk_at 20) shared_port (fl_dst_ip flow_b) (fl_dst_port flow_b) ?st') = None"
    by (simp add: gc_b nat_reverse_lookup_def list_dpdk_simps)
  have room: "MAX_NAT_ENTRIES - 2 < MAX_NAT_ENTRIES" "Suc (MAX_NAT_ENTRIES - 2) < MAX_NAT_ENTRIES"
    by (simp_all add: MAX_NAT_ENTRIES_def)
  have "nat_free_ring ?st' = [2..<MAX_NAT_ENTRIES] @ [0, 1]"
    unfolding gc_b using room
    by (simp add: run_free_cbs_def nat_reverse_hash_free_cb_def table_b_def list_dpdk_def list_ring_def)
  then show "1 \<in> set (free_list list_abs ?st')" by (simp add: list_abs_def)
qed

text \<open>
  Port forwarding: a rule added on a free port is found with its address and port (kept in network
  order), an occupied port keeps its rule, a removed rule is not found, and no operation touches
  another port.
\<close>

theorem port_fwd_table_behaviour:
  "(let T' = port_fwd_add T eport dip iport in
     (if pf_is_active (T eport) = 1 then T' = T
      else nat_port_fwd_reverse_lookup T' (rte_cpu_to_be_16 eport) = (SUCCESS, Some (dip, rte_cpu_to_be_16 iport))) \<and>
     port_fwd_lookup_by_eport (snd (port_fwd_remove T' eport)) eport = None \<and>
     (\<forall>p. p = eport \<or> port_fwd_lookup_by_eport T' p = port_fwd_lookup_by_eport T p) \<and>
     (\<forall>p. p = eport \<or> snd (port_fwd_remove T eport) p = T p))"
  by (simp add: port_fwd_add_def port_fwd_remove_def port_fwd_lookup_by_eport_def nat_port_fwd_reverse_lookup_def Let_def)

end
