(* ===== verification/Ppp_State.thy ===== *)
theory Ppp_State
  imports FastRG_Prelude
begin

text \<open>
  The PPP half of \<open>ppp_ccb_t\<close> (\<^verbatim>\<open>src/src/pppd/pppd.h\<close>, \<^verbatim>\<open>header.h\<close>), the frame builders of \<^verbatim>\<open>codec.c\<close>
  and the DHCPv6-PD client hooks the session layer calls. What leaves the component (frames handed to
  \<open>wan_ctrl_tx\<close>, calls into the DNS proxy, Kafka and the northbound queue) is appended to the ghost
  field \<open>effects\<close>, oldest first; timers are a map from the six \<open>rte_timer\<close>s to their armed callback.
\<close>

section \<open>Constants and enumerations\<close>

datatype ppp_cp = PPP_CP_LCP | PPP_CP_IPCP | PPP_CP_IPV6CP

datatype ppp_state =
  S_INIT | S_STARTING | S_CLOSED | S_STOPPED | S_CLOSING | S_STOPPING | S_REQUEST_SENT
| S_ACK_RECEIVED | S_ACK_SENT | S_OPENED | S_INVLD

datatype ppp_event =
  E_UP | E_DOWN | E_OPEN | E_CLOSE | E_TIMEOUT_COUNTER_POSITIVE | E_TIMEOUT_COUNTER_EXPIRED
| E_RECV_GOOD_CONFIG_REQUEST | E_RECV_BAD_CONFIG_REQUEST | E_RECV_CONFIG_ACK | E_RECV_CONFIG_NAK_REJ
| E_RECV_TERMINATE_REQUEST | E_RECV_TERMINATE_ACK | E_RECV_UNKNOWN_CODE
| E_RECV_GOOD_CODE_PROTOCOL_REJECT | E_RECV_BAD_CODE_PROTOCOL_REJECT | E_RECV_ECHO_REQUEST
| E_RECV_ECHO_REPLY | E_UNKNOWN

abbreviation END_PHASE :: u8 where "END_PHASE \<equiv> 0"
abbreviation PPPOE_PHASE :: u8 where "PPPOE_PHASE \<equiv> 1"
abbreviation LCP_PHASE :: u8 where "LCP_PHASE \<equiv> 2"
abbreviation AUTH_PHASE :: u8 where "AUTH_PHASE \<equiv> 3"
abbreviation IPCP_PHASE :: u8 where "IPCP_PHASE \<equiv> 4"
abbreviation DATA_PHASE :: u8 where "DATA_PHASE \<equiv> 5"
abbreviation NOT_CONFIGURED :: u8 where "NOT_CONFIGURED \<equiv> 0x7F"

abbreviation LCP_PROTOCOL :: u16 where "LCP_PROTOCOL \<equiv> 0xc021"
abbreviation IPCP_PROTOCOL :: u16 where "IPCP_PROTOCOL \<equiv> 0x8021"
abbreviation IPV6CP_PROTOCOL :: u16 where "IPV6CP_PROTOCOL \<equiv> 0x8057"
abbreviation PAP_PROTOCOL :: u16 where "PAP_PROTOCOL \<equiv> 0xc023"
abbreviation CHAP_PROTOCOL :: u16 where "CHAP_PROTOCOL \<equiv> 0xc223"

abbreviation CONFIG_REQUEST :: u8 where "CONFIG_REQUEST \<equiv> 1"
abbreviation CONFIG_ACK :: u8 where "CONFIG_ACK \<equiv> 2"
abbreviation TERMIN_REQUEST :: u8 where "TERMIN_REQUEST \<equiv> 5"
abbreviation TERMIN_ACK :: u8 where "TERMIN_ACK \<equiv> 6"
abbreviation CODE_REJECT :: u8 where "CODE_REJECT \<equiv> 7"
abbreviation ECHO_REQUEST :: u8 where "ECHO_REQUEST \<equiv> 9"
abbreviation ECHO_REPLY :: u8 where "ECHO_REPLY \<equiv> 10"
abbreviation PAP_REQUEST :: u8 where "PAP_REQUEST \<equiv> 1"
abbreviation PAP_ACK :: u8 where "PAP_ACK \<equiv> 2"
abbreviation PAP_NAK :: u8 where "PAP_NAK \<equiv> 3"
abbreviation CHAP_SUCCESS :: u8 where "CHAP_SUCCESS \<equiv> 3"
abbreviation CHAP_FAILURE :: u8 where "CHAP_FAILURE \<equiv> 4"
abbreviation PADI :: u8 where "PADI \<equiv> 0x9"
abbreviation PADR :: u8 where "PADR \<equiv> 0x19"
abbreviation PADT :: u8 where "PADT \<equiv> 0xa7"

abbreviation OPT_MRU :: u8 where "OPT_MRU \<equiv> 1"
abbreviation OPT_AUTH :: u8 where "OPT_AUTH \<equiv> 3"
abbreviation OPT_MAGIC_NUM :: u8 where "OPT_MAGIC_NUM \<equiv> 5"
abbreviation IP_ADDRESS :: u8 where "IP_ADDRESS \<equiv> 3"
abbreviation PRIMARY_DNS :: u8 where "PRIMARY_DNS \<equiv> 0x81"
abbreviation SECONDARY_DNS :: u8 where "SECONDARY_DNS \<equiv> 0x83"
abbreviation IPV6CP_OPT_INTERFACE_ID :: u8 where "IPV6CP_OPT_INTERFACE_ID \<equiv> 1"

abbreviation LCP_ECHO_MAX_FAIL :: u32 where "LCP_ECHO_MAX_FAIL \<equiv> 3"
abbreviation MAX_RETRAN :: u8 where "MAX_RETRAN \<equiv> 10"
abbreviation LCP_ALIVE_ECHO_INTERVAL :: u32 where "LCP_ALIVE_ECHO_INTERVAL \<equiv> 30"
abbreviation PPP_MSG_BUF_LEN :: nat where "PPP_MSG_BUF_LEN \<equiv> 128"
abbreviation PPPOE_OVERHEAD :: u16 where "PPPOE_OVERHEAD \<equiv> 24"
abbreviation PPP_BUILD_FRAME_OVERHEAD :: nat where "PPP_BUILD_FRAME_OVERHEAD \<equiv> 30"
abbreviation PPP_BUILD_MAX_OPT_LEN :: nat where "PPP_BUILD_MAX_OPT_LEN \<equiv> PPP_MSG_BUF_LEN - PPP_BUILD_FRAME_OVERHEAD"
abbreviation MAX_RECV_UNIT :: u16 where "MAX_RECV_UNIT \<equiv> 1488"

section \<open>Data\<close>

record ppp_header =
  hdr_code :: u8
  hdr_identifier :: u8
  hdr_length :: u16

record control_protocol =
  state :: ppp_state
  event :: ppp_event
  ppp_protocol :: u16
  ppp_hdr :: ppp_header
  ppp_options :: "u8 list"
  timer_counter :: u8

record pppoe_phase =
  pp_tags :: "u8 list"
  pp_max_retransmit :: u8
  pp_timer_counter :: u8
  pp_active :: bool

text \<open>The timers of a subscriber and the callbacks they are armed with.\<close>

datatype ppp_timer = TIM_PPPOE | TIM_PPP | TIM_PPP_IPV6CP | TIM_PPP_ALIVE | TIM_DHCP6 | TIM_RA

datatype timer_cb =
  CB_send_config_request ppp_cp | CB_send_terminate_request ppp_cp | CB_padi | CB_padr | CB_keepalive | CB_dhcp6 | CB_ra

record armed =
  cb :: timer_cb
  ticks :: u64
  periodical :: bool

text \<open>A session frame as its builder lays it out: protocol, code, identifier, the PPP length field, body.\<close>

record ppp_frame =
  fr_protocol :: u16
  fr_code :: u8
  fr_identifier :: u8
  fr_length :: u16
  fr_body :: "u8 list"
  fr_mulen :: u16

datatype ppp_report = PPP_REPORT_CONNECTED | PPP_REPORT_CONNECTING | PPP_REPORT_DISCONNECTED

datatype effect =
  TxSession ppp_frame | TxDiscovery u8 u16 | Dhcp6Send "u8 list" | RaSend | DnsInit u32 u32 | DnsCleanup | Nd6Reset
| KafkaReport ppp_report | DialRequest | Ipv6Changed

datatype dhcp6_fsm = DHCP6_S_IDLE | DHCP6_S_SOLICITING | DHCP6_S_REQUESTING | DHCP6_S_BOUND | DHCP6_S_RENEWING

record dhcp6_client =
  dhcp6_state :: dhcp6_fsm
  dhcp6_xid :: "u8 list"
  dhcp6_server_duid :: "u8 list"
  dhcp6_t1 :: u32
  dhcp6_retry :: u8
  hsi_ipv6_pd_prefix :: "u8 list"
  hsi_ipv6_pd_plen :: u8
  hsi_ipv6_lan_prefix :: "u8 list"
  hsi_ipv6_dns :: "u8 list list"

record ppp_ccb =
  control_protocols :: "ppp_cp \<Rightarrow> control_protocol"
  pppoe :: pppoe_phase
  pppoe_code :: u8
  pppoe_session :: u16
  pppoe_length :: u16
  eth_src :: "u8 list"
  PPP_dst_mac :: "u8 list"
  user_num :: u16
  vlan_id :: u16
  cp_id :: ppp_cp
  phase :: u8
  session_id :: u16
  hsi_ipv4 :: u32
  hsi_ipv4_gw :: u32
  hsi_primary_dns :: u32
  hsi_secondary_dns :: u32
  req_identifier :: "ppp_cp \<Rightarrow> u8"
  config_request_pending :: "ppp_cp \<Rightarrow> bool"
  magic_num :: u32
  mru :: u16
  lcp_auth_rejected :: bool
  lcp_mru_rejected :: bool
  lcp_magic_rejected :: bool
  peer_requires_auth :: bool
  auth_method :: u16
  ppp_user_acc :: "u8 list"
  ppp_passwd :: "u8 list"
  ppp_interval :: u32
  echo_miss_count :: u32
  ppp_bool :: bool
  dp_start_bool :: bool
  redial_pending :: bool
  ppp_processing :: bool
  ipv6_enabled :: bool
  ipv6cp_local_iid :: "u8 list"
  ipv6cp_peer_iid :: "u8 list"
  ipv6cp_up :: bool
  dhcp6 :: dhcp6_client
  dhcp6_pd_ready :: bool
  ipv6_dp_bool :: bool
  timers :: "ppp_timer \<Rightarrow> armed option"
  effects :: "effect list"

text \<open>
  What the environment supplies to one operation: the clock, one draw of \<open>rand\<close>, the WAN port's MAC
  address, the outcome of \<open>dns_proxy_init\<close>, whether the node runs standalone, and the two facts
  about \<open>common.h\<close> (a file outside the repository) that the code relies on: whether \<open>ERROR\<close> is
  negative, and which \<open>STATUS\<close> the value \<open>FALSE\<close> denotes; whether \<open>fastrg_malloc\<close> succeeds; and the
  MD5 digest of the linked library.
\<close>

record ppp_env =
  env_clock :: clock
  env_rand :: u32
  env_wan_mac :: "u8 list"
  env_dns_init :: status
  env_standalone :: bool
  env_error_negative :: bool
  env_false_status :: status
  env_malloc_ok :: bool
  env_md5 :: "u8 list \<Rightarrow> u8 list"

text \<open>The control block as the allocator hands it out, all bytes zero.\<close>

definition ppp_ccb_zero :: ppp_ccb where
  "ppp_ccb_zero =
     \<lparr>control_protocols = (\<lambda>_. \<lparr>state = S_INIT, event = E_UP, ppp_protocol = 0,
        ppp_hdr = \<lparr>hdr_code = 0, hdr_identifier = 0, hdr_length = 0\<rparr>, ppp_options = [], timer_counter = 0\<rparr>),
      pppoe = \<lparr>pp_tags = replicate 64 0, pp_max_retransmit = 0, pp_timer_counter = 0, pp_active = False\<rparr>,
      pppoe_code = 0, pppoe_session = 0, pppoe_length = 0, eth_src = replicate 6 0, PPP_dst_mac = replicate 6 0,
      user_num = 0, vlan_id = 0, cp_id = PPP_CP_LCP, phase = END_PHASE, session_id = 0, hsi_ipv4 = 0, hsi_ipv4_gw = 0,
      hsi_primary_dns = 0, hsi_secondary_dns = 0, req_identifier = (\<lambda>_. 0), config_request_pending = (\<lambda>_. False),
      magic_num = 0, mru = 0, lcp_auth_rejected = False, lcp_mru_rejected = False, lcp_magic_rejected = False,
      peer_requires_auth = False, auth_method = 0, ppp_user_acc = [], ppp_passwd = [], ppp_interval = 0,
      echo_miss_count = 0, ppp_bool = False, dp_start_bool = False, redial_pending = False, ppp_processing = False,
      ipv6_enabled = False, ipv6cp_local_iid = replicate 8 0, ipv6cp_peer_iid = replicate 8 0, ipv6cp_up = False,
      dhcp6 = \<lparr>dhcp6_state = DHCP6_S_IDLE, dhcp6_xid = replicate 3 0, dhcp6_server_duid = [], dhcp6_t1 = 0,
        dhcp6_retry = 0, hsi_ipv6_pd_prefix = replicate 16 0, hsi_ipv6_pd_plen = 0,
        hsi_ipv6_lan_prefix = replicate 16 0, hsi_ipv6_dns = replicate 2 (replicate 16 0)\<rparr>,
      dhcp6_pd_ready = False, ipv6_dp_bool = False, timers = (\<lambda>_. None), effects = []\<rparr>"

text \<open>An environment for evaluating concrete runs.\<close>

definition sample_env :: ppp_env where
  "sample_env =
     \<lparr>env_clock = \<lparr>cur_cycles = 1000, cycles_in_sec = 10\<rparr>, env_rand = 0x12345, env_wan_mac = [2, 0, 0, 0, 0, 1],
      env_dns_init = SUCCESS, env_standalone = False, env_error_negative = True, env_false_status = ERROR,
      env_malloc_ok = True, env_md5 = (\<lambda>_. replicate 16 0)\<rparr>"

section \<open>Elementary updates\<close>

definition upd_cp :: "ppp_cp \<Rightarrow> (control_protocol \<Rightarrow> control_protocol) \<Rightarrow> ppp_ccb \<Rightarrow> ppp_ccb" where
  "upd_cp c f st = st\<lparr>control_protocols := (control_protocols st)(c := f (control_protocols st c))\<rparr>"

abbreviation set_state :: "ppp_cp \<Rightarrow> ppp_state \<Rightarrow> ppp_ccb \<Rightarrow> ppp_ccb" where
  "set_state c s \<equiv> upd_cp c (\<lambda>p. p\<lparr>state := s\<rparr>)"

abbreviation set_counter :: "ppp_cp \<Rightarrow> u8 \<Rightarrow> ppp_ccb \<Rightarrow> ppp_ccb" where
  "set_counter c n \<equiv> upd_cp c (\<lambda>p. p\<lparr>timer_counter := n\<rparr>)"

definition cp_state :: "ppp_ccb \<Rightarrow> ppp_cp \<Rightarrow> ppp_state" where
  "cp_state st c = state (control_protocols st c)"

definition emit :: "effect \<Rightarrow> ppp_ccb \<Rightarrow> ppp_ccb" where
  "emit e st = st\<lparr>effects := effects st @ [e]\<rparr>"

definition rte_timer_stop :: "ppp_timer \<Rightarrow> ppp_ccb \<Rightarrow> ppp_ccb" where
  "rte_timer_stop t st = st\<lparr>timers := (timers st)(t := None)\<rparr>"

definition rte_timer_reset :: "ppp_timer \<Rightarrow> u64 \<Rightarrow> bool \<Rightarrow> timer_cb \<Rightarrow> ppp_ccb \<Rightarrow> ppp_ccb" where
  "rte_timer_reset t n per c st = st\<lparr>timers := (timers st)(t \<mapsto> \<lparr>cb = c, ticks = n, periodical = per\<rparr>)\<rparr>"

text \<open>\<open>wan_ctrl_tx\<close> drops the frame a builder refused (length 0).\<close>

definition wan_ctrl_tx :: "ppp_frame \<Rightarrow> ppp_ccb \<Rightarrow> ppp_ccb" where
  "wan_ctrl_tx f st = (if fr_mulen f = 0 then st else emit (TxSession f) st)"

text \<open>The bytes of a value already in network order, as the little-endian target stores them.\<close>

definition be_bytes16 :: "u16 \<Rightarrow> u8 list" where
  "be_bytes16 x = [ucast x, ucast (drop_bit 8 x)]"

definition be_bytes32 :: "u32 \<Rightarrow> u8 list" where
  "be_bytes32 x = [ucast x, ucast (drop_bit 8 x), ucast (drop_bit 16 x), ucast (drop_bit 24 x)]"

section \<open>IPv6 gate and prefix delegation\<close>

definition pppd_ipv6_dp_gate_update :: "ppp_ccb \<Rightarrow> ppp_ccb" where
  "pppd_ipv6_dp_gate_update st =
     (if ipv6_enabled st \<and> ipv6cp_up st \<and> dhcp6_pd_ready st then st\<lparr>ipv6_dp_bool := True\<rparr>
      else st\<lparr>ipv6_dp_bool := False\<rparr>)"

definition dhcp6_new_xid :: "ppp_env \<Rightarrow> ppp_ccb \<Rightarrow> ppp_ccb" where
  "dhcp6_new_xid env st = st\<lparr>dhcp6 := (dhcp6 st)\<lparr>dhcp6_xid :=
     [ucast (drop_bit 16 (env_rand env)), ucast (drop_bit 8 (env_rand env)), ucast (env_rand env)]\<rparr>\<rparr>"

definition dhcp6_clear_lease :: "ppp_ccb \<Rightarrow> ppp_ccb" where
  "dhcp6_clear_lease st =
     (let st = pppd_ipv6_dp_gate_update (st\<lparr>dhcp6_pd_ready := False\<rparr>) in
      st\<lparr>dhcp6 := (dhcp6 st)\<lparr>dhcp6_t1 := 0, hsi_ipv6_pd_plen := 0, hsi_ipv6_pd_prefix := replicate 16 0,
           hsi_ipv6_lan_prefix := replicate 16 0, hsi_ipv6_dns := replicate 2 (replicate 16 0)\<rparr>\<rparr>)"

definition nd6_ra_stop :: "ppp_ccb \<Rightarrow> ppp_ccb" where
  "nd6_ra_stop st = rte_timer_stop TIM_RA st"

definition dhcp6_arm :: "ppp_env \<Rightarrow> u32 \<Rightarrow> bool \<Rightarrow> ppp_ccb \<Rightarrow> ppp_ccb" where
  "dhcp6_arm env seconds per st =
     rte_timer_reset TIM_DHCP6 (ucast seconds * cycles_in_sec (env_clock env)) per CB_dhcp6
       (rte_timer_stop TIM_DHCP6 st)"

abbreviation DHCP6_SOLICIT :: u8 where "DHCP6_SOLICIT \<equiv> 1"
abbreviation DHCP6_ADVERTISE :: u8 where "DHCP6_ADVERTISE \<equiv> 2"
abbreviation DHCP6_REQUEST :: u8 where "DHCP6_REQUEST \<equiv> 3"
abbreviation DHCP6_RENEW :: u8 where "DHCP6_RENEW \<equiv> 5"
abbreviation DHCP6_REPLY :: u8 where "DHCP6_REPLY \<equiv> 7"
abbreviation DHCP6_SERVER_DUID_MAX :: nat where "DHCP6_SERVER_DUID_MAX \<equiv> 130"
abbreviation DHCP6_PACKET_MAX_LEN :: nat where "DHCP6_PACKET_MAX_LEN \<equiv> 512"

text \<open>
  The DHCPv6 message of a packet. The Ethernet, VLAN, PPPoE, IPv6 and UDP headers in front of it take
  74 bytes of the packet buffer; an option that does not fit what is left makes the builder fail.
\<close>

abbreviation DHCP6_MSG_ROOM :: nat where "DHCP6_MSG_ROOM \<equiv> DHCP6_PACKET_MAX_LEN - 74"

definition dhcp6_append_option :: "nat \<Rightarrow> u16 \<Rightarrow> u8 list \<Rightarrow> u8 list \<Rightarrow> u8 list option" where
  "dhcp6_append_option room code val msg =
     (if room - length msg < 4 + length val then None
      else Some (msg @ be_bytes16 (rte_cpu_to_be_16 code) @ be_bytes16 (rte_cpu_to_be_16 (of_nat (length val))) @ val))"

definition dhcp6_build_client_duid :: "ppp_env \<Rightarrow> u8 list" where
  "dhcp6_build_client_duid env =
     be_bytes16 (rte_cpu_to_be_16 3) @ be_bytes16 (rte_cpu_to_be_16 1) @ take 6 (env_wan_mac env)"

definition dhcp6_build_packet :: "ppp_env \<Rightarrow> u8 \<Rightarrow> ppp_ccb \<Rightarrow> u8 list option" where
  "dhcp6_build_packet env msg_type st =
     (let duid = dhcp6_server_duid (dhcp6 st) in
      if msg_type \<noteq> DHCP6_SOLICIT \<and> msg_type \<noteq> DHCP6_REQUEST \<and> msg_type \<noteq> DHCP6_RENEW then None
      else if msg_type \<noteq> DHCP6_SOLICIT \<and> (length duid = 0 \<or> DHCP6_SERVER_DUID_MAX < length duid) then None
      else case dhcp6_append_option DHCP6_MSG_ROOM 1 (dhcp6_build_client_duid env) (msg_type # dhcp6_xid (dhcp6 st)) of
          None \<Rightarrow> None
        | Some msg \<Rightarrow>
            (case (if msg_type \<noteq> DHCP6_SOLICIT then dhcp6_append_option DHCP6_MSG_ROOM 2 duid msg else Some msg) of
               None \<Rightarrow> None
             | Some msg \<Rightarrow>
                 dhcp6_append_option DHCP6_MSG_ROOM 25
                   (be_bytes32 (rte_cpu_to_be_32 (ucast (user_num st))) @ be_bytes32 0 @ be_bytes32 0) msg))"

definition dhcp6_send :: "ppp_env \<Rightarrow> u8 \<Rightarrow> ppp_ccb \<Rightarrow> ppp_ccb" where
  "dhcp6_send env msg_type st =
     (case dhcp6_build_packet env msg_type st of None \<Rightarrow> st | Some msg \<Rightarrow> emit (Dhcp6Send msg) st)"

definition dhcp6_pd_stop :: "ppp_ccb \<Rightarrow> ppp_ccb" where
  "dhcp6_pd_stop st =
     (let st = dhcp6_clear_lease (rte_timer_stop TIM_DHCP6 (nd6_ra_stop st)) in
      st\<lparr>dhcp6 := (dhcp6 st)\<lparr>dhcp6_state := DHCP6_S_IDLE, dhcp6_xid := replicate 3 0, dhcp6_server_duid := [],
           dhcp6_retry := 0\<rparr>\<rparr>)"

definition dhcp6_pd_start :: "ppp_env \<Rightarrow> ppp_ccb \<Rightarrow> ppp_ccb" where
  "dhcp6_pd_start env st =
     (if \<not> ipv6_enabled st \<or> \<not> ipv6cp_up st then st
      else let st = dhcp6_new_xid env (dhcp6_pd_stop st);
               st = st\<lparr>dhcp6 := (dhcp6 st)\<lparr>dhcp6_state := DHCP6_S_SOLICITING\<rparr>\<rparr>
           in dhcp6_arm env 3 True (dhcp6_send env DHCP6_SOLICIT st))"

definition ppp_ipv6cp_iid_init :: "ppp_env \<Rightarrow> ppp_ccb \<Rightarrow> ppp_ccb" where
  "ppp_ipv6cp_iid_init env st =
     (if list_ex (\<lambda>b. b \<noteq> 0) (ipv6cp_local_iid st) then st
      else let mac = env_wan_mac env in
        st\<lparr>ipv6cp_local_iid := [mac ! 0 XOR 2, mac ! 1, mac ! 2, 0xff, 0xfe, mac ! 3, mac ! 4, mac ! 5]\<rparr>)"

section \<open>Frame builders\<close>

definition cp_protocol :: "ppp_cp \<Rightarrow> u16" where
  "cp_protocol c = (case c of PPP_CP_LCP \<Rightarrow> LCP_PROTOCOL | PPP_CP_IPCP \<Rightarrow> IPCP_PROTOCOL | PPP_CP_IPV6CP \<Rightarrow> IPV6CP_PROTOCOL)"

text \<open>An option on the wire: type, length (header included), value.\<close>

definition opt :: "u8 \<Rightarrow> u8 list \<Rightarrow> u8 list" where
  "opt ty val = ty # of_nat (2 + length val) # val"

definition ipcp_request_options :: "ppp_ccb \<Rightarrow> u8 list" where
  "ipcp_request_options st =
     opt IP_ADDRESS (be_bytes32 (hsi_ipv4 st)) @
     (if hsi_primary_dns st = 0xffffffff then opt PRIMARY_DNS (replicate 4 0) else []) @
     (if hsi_secondary_dns st = 0xffffffff then opt SECONDARY_DNS (replicate 4 0) else [])"

definition lcp_request_options :: "ppp_ccb \<Rightarrow> u8 list" where
  "lcp_request_options st =
     (if lcp_auth_rejected st then []
      else if auth_method st = PAP_PROTOCOL then opt OPT_AUTH (be_bytes16 (rte_cpu_to_be_16 PAP_PROTOCOL))
      else if auth_method st = CHAP_PROTOCOL then opt OPT_AUTH (be_bytes16 (rte_cpu_to_be_16 CHAP_PROTOCOL) @ [5])
      else []) @
     (if lcp_mru_rejected st then []
      else opt OPT_MRU (be_bytes16 (rte_cpu_to_be_16 (if mru st \<noteq> 0 then mru st else MAX_RECV_UNIT)))) @
     (if lcp_magic_rejected st then [] else opt OPT_MAGIC_NUM (be_bytes32 (magic_num st)))"

definition request_options :: "ppp_ccb \<Rightarrow> u8 list" where
  "request_options st =
     (case cp_id st of
        PPP_CP_IPCP \<Rightarrow> ipcp_request_options st
      | PPP_CP_IPV6CP \<Rightarrow> opt IPV6CP_OPT_INTERFACE_ID (ipv6cp_local_iid st)
      | PPP_CP_LCP \<Rightarrow> lcp_request_options st)"

definition session_frame :: "u16 \<Rightarrow> u8 \<Rightarrow> u8 \<Rightarrow> u8 list \<Rightarrow> ppp_frame" where
  "session_frame proto code ident body =
     (let len = 4 + of_nat (length body) in
      \<lparr>fr_protocol = proto, fr_code = code, fr_identifier = ident, fr_length = len, fr_body = body,
       fr_mulen = len + 2 + PPPOE_OVERHEAD\<rparr>)"

definition build_config_request :: "ppp_ccb \<Rightarrow> ppp_frame \<times> ppp_ccb" where
  "build_config_request st =
     (let c = cp_id st;
          ident = req_identifier st c mod 255 + 1;
          st' = st\<lparr>req_identifier := (req_identifier st)(c := ident),
                   config_request_pending := (config_request_pending st)(c := True)\<rparr>
      in (session_frame (cp_protocol c) CONFIG_REQUEST ident (request_options st'), st'))"

definition refused_frame :: ppp_frame where
  "refused_frame = \<lparr>fr_protocol = 0, fr_code = 0, fr_identifier = 0, fr_length = 0, fr_body = [], fr_mulen = 0\<rparr>"

text \<open>
  The reply builders copy the stored request, lengths included, after checking that both the option
  list and the frame fit the caller's buffer; otherwise the frame is refused.
\<close>

definition build_config_copy :: "(u8 \<Rightarrow> u8) \<Rightarrow> ppp_ccb \<Rightarrow> ppp_frame" where
  "build_config_copy code_of st =
     (let p = control_protocols st (cp_id st);
          total = rte_be_to_cpu_16 (hdr_length (ppp_hdr p));
          frame_len = rte_be_to_cpu_16 (pppoe_length st) + PPPOE_OVERHEAD
      in if total < 4 \<or> PPP_BUILD_MAX_OPT_LEN < unat total - 4 \<or> PPP_MSG_BUF_LEN < unat frame_len
         then refused_frame
         else \<lparr>fr_protocol = rte_be_to_cpu_16 (ppp_protocol p), fr_code = code_of (hdr_code (ppp_hdr p)),
               fr_identifier = hdr_identifier (ppp_hdr p), fr_length = total,
               fr_body = take (unat total - 4) (ppp_options p), fr_mulen = frame_len\<rparr>)"

definition build_config_ack :: "ppp_ccb \<Rightarrow> ppp_frame" where
  "build_config_ack st = build_config_copy (\<lambda>_. CONFIG_ACK) st"

definition build_config_nak_rej :: "ppp_ccb \<Rightarrow> ppp_frame" where
  "build_config_nak_rej st = build_config_copy (\<lambda>c. c) st"

definition build_echo_reply :: "ppp_ccb \<Rightarrow> ppp_frame" where
  "build_echo_reply st =
     (let p = control_protocols st PPP_CP_LCP;
          opt_len = (ucast (rte_be_to_cpu_16 (hdr_length (ppp_hdr p)) - 4) :: u8);
          magic = (if opt_len > 0 then be_bytes32 (magic_num st) else []);
          peer = (if opt_len - 4 = 4 then take 4 (ppp_options p) else [])
      in session_frame (rte_be_to_cpu_16 (ppp_protocol p)) ECHO_REPLY (hdr_identifier (ppp_hdr p)) (magic @ peer))"

definition rand_identifier :: "ppp_env \<Rightarrow> u8" where
  "rand_identifier env = of_nat (unat (env_rand env) mod 254 + 1)"

definition build_echo_request :: "ppp_env \<Rightarrow> ppp_ccb \<Rightarrow> ppp_frame" where
  "build_echo_request env st =
     session_frame LCP_PROTOCOL ECHO_REQUEST (rand_identifier env) (be_bytes32 (magic_num st))"

definition build_terminate_ack :: "ppp_ccb \<Rightarrow> ppp_frame" where
  "build_terminate_ack st =
     (let p = control_protocols st (cp_id st)
      in session_frame (rte_be_to_cpu_16 (ppp_protocol p)) TERMIN_ACK (hdr_identifier (ppp_hdr p)) [])"

definition build_terminate_request :: "ppp_env \<Rightarrow> ppp_ccb \<Rightarrow> ppp_frame" where
  "build_terminate_request env st =
     session_frame (cp_protocol (cp_id st)) TERMIN_REQUEST (rand_identifier env) []"

text \<open>A Code-Reject carries the offending packet from its code field on, cut to the reply buffer.\<close>

definition build_code_reject :: "ppp_env \<Rightarrow> ppp_ccb \<Rightarrow> ppp_frame option" where
  "build_code_reject env st =
     (let p = control_protocols st (cp_id st);
          h = ppp_hdr p;
          rejected_len = unat (rte_be_to_cpu_16 (hdr_length h));
          copy_len = min rejected_len (PPP_MSG_BUF_LEN - PPP_BUILD_FRAME_OVERHEAD);
          rej = [hdr_code h, hdr_identifier h] @ be_bytes16 (hdr_length h) @ take (copy_len - 4) (ppp_options p)
      in if rejected_len < 4 then None
         else Some \<lparr>fr_protocol = cp_protocol (cp_id st), fr_code = CODE_REJECT, fr_identifier = rand_identifier env,
                    fr_length = of_nat (4 + copy_len), fr_body = rej,
                    fr_mulen = of_nat (4 + copy_len) + 2 + PPPOE_OVERHEAD\<rparr>)"

text \<open>The PAP request sets the phase even when over-long credentials make the builder refuse.\<close>

definition build_auth_request_pap :: "ppp_ccb \<Rightarrow> ppp_frame \<times> ppp_ccb" where
  "build_auth_request_pap st =
     (let acc = ppp_user_acc st; pwd = ppp_passwd st;
          frame_len = 30 + 2 + length acc + length pwd;
          st' = st\<lparr>phase := AUTH_PHASE\<rparr>
      in if 255 < length acc \<or> 255 < length pwd \<or> PPP_MSG_BUF_LEN < frame_len then (refused_frame, st')
         else (session_frame PAP_PROTOCOL PAP_REQUEST (req_identifier st PPP_CP_LCP)
                 (of_nat (length acc) # acc @ of_nat (length pwd) # pwd), st'))"

section \<open>Lemmas on the builders\<close>

lemma cp_state_upd [simp]:
  "cp_state (upd_cp c f st) c' = (if c' = c then state (f (control_protocols st c)) else cp_state st c')"
  by (simp add: cp_state_def upd_cp_def)

lemma length_opt [simp]: "length (opt ty val) = 2 + length val"
  by (simp add: opt_def)

lemma length_be_bytes [simp]: "length (be_bytes16 x) = 2" "length (be_bytes32 y) = 4"
  by (simp_all add: be_bytes16_def be_bytes32_def)

lemma request_options_length:
  "length (ipv6cp_local_iid st) = 8 \<Longrightarrow> length (request_options st) \<le> 18"
  by (auto simp: request_options_def ipcp_request_options_def lcp_request_options_def split: ppp_cp.splits)

end
