(* ===== verification/Ppp_Fsm.thy ===== *)
theory Ppp_Fsm
  imports Ppp_State
begin

text \<open>
  The PPP automaton of \<^verbatim>\<open>src/src/pppd/fsm.c\<close>: the LCP and NCP transition tables, the table search of
  \<open>PPP_FSM\<close>, and every action handler. Handlers call \<open>PPP_FSM\<close> again, so a handler takes the
  automaton as an argument and \<open>PPP_FSM\<close> ties the knot with fuel; \<open>None\<close> is running out of it. The
  teardown routines \<open>PPP_bye\<close>, \<open>exit_ppp\<close> (\<^verbatim>\<open>pppd.c\<close>) and \<open>pppoe_send_pkt\<close> (\<^verbatim>\<open>codec.c\<close>), which the
  handlers reach, are here as well.
\<close>

section \<open>Transition tables\<close>

datatype ppp_handler =
  H_this_layer_start | H_send_config_request | H_this_layer_finish | H_send_terminate_ack
| H_send_code_reject | H_create_down_event | H_create_up_event | H_send_config_ack
| H_send_config_nak_rej | H_send_terminate_request | H_this_layer_up | H_this_layer_down
| H_init_restart_count | H_init_restart_config | H_init_restart_termin | H_send_echo_reply
| H_zero_restart_count | H_send_padt | H_create_close_to_lower_layer

datatype tPPP_STATE_TBL =
  ROW (row_state: ppp_state) (row_event: ppp_event) (row_next: ppp_state) (row_hdl: "ppp_handler list")

definition lcp_rows_init :: "tPPP_STATE_TBL list" where
  "lcp_rows_init = [
    ROW S_INIT E_UP S_CLOSED [],
    ROW S_INIT E_OPEN S_STARTING [H_this_layer_start],
    ROW S_INIT E_CLOSE S_INIT []]"

definition lcp_rows_starting :: "tPPP_STATE_TBL list" where
  "lcp_rows_starting = [
    ROW S_STARTING E_UP S_REQUEST_SENT [H_send_config_request, H_init_restart_config],
    ROW S_STARTING E_OPEN S_STARTING [],
    ROW S_STARTING E_CLOSE S_INIT [H_this_layer_finish, H_send_padt]]"

definition lcp_rows_closed :: "tPPP_STATE_TBL list" where
  "lcp_rows_closed = [
    ROW S_CLOSED E_UP S_CLOSED [],
    ROW S_CLOSED E_DOWN S_INIT [H_send_padt],
    ROW S_CLOSED E_OPEN S_REQUEST_SENT [H_send_config_request, H_init_restart_config],
    ROW S_CLOSED E_CLOSE S_CLOSED [],
    ROW S_CLOSED E_RECV_GOOD_CONFIG_REQUEST S_CLOSED [H_send_terminate_ack],
    ROW S_CLOSED E_RECV_BAD_CONFIG_REQUEST S_CLOSED [H_send_terminate_ack],
    ROW S_CLOSED E_RECV_CONFIG_ACK S_CLOSED [H_send_terminate_ack],
    ROW S_CLOSED E_RECV_CONFIG_NAK_REJ S_CLOSED [H_send_terminate_ack],
    ROW S_CLOSED E_RECV_TERMINATE_REQUEST S_CLOSED [H_send_terminate_ack],
    ROW S_CLOSED E_RECV_TERMINATE_ACK S_CLOSED [],
    ROW S_CLOSED E_RECV_UNKNOWN_CODE S_CLOSED [H_send_code_reject],
    ROW S_CLOSED E_RECV_GOOD_CODE_PROTOCOL_REJECT S_CLOSED [],
    ROW S_CLOSED E_RECV_BAD_CODE_PROTOCOL_REJECT S_CLOSED [H_this_layer_finish],
    ROW S_CLOSED E_RECV_ECHO_REQUEST S_CLOSED [],
    ROW S_CLOSED E_RECV_ECHO_REPLY S_CLOSED []]"

definition lcp_rows_stopped :: "tPPP_STATE_TBL list" where
  "lcp_rows_stopped = [
    ROW S_STOPPED E_DOWN S_STARTING [H_this_layer_start],
    ROW S_STOPPED E_OPEN S_STOPPED [H_create_down_event, H_create_up_event],
    ROW S_STOPPED E_CLOSE S_CLOSED [H_send_padt],
    ROW S_STOPPED E_RECV_GOOD_CONFIG_REQUEST S_ACK_SENT [H_init_restart_config, H_send_config_request, H_send_config_ack],
    ROW S_STOPPED E_RECV_BAD_CONFIG_REQUEST S_REQUEST_SENT [H_init_restart_config, H_send_config_request, H_send_config_nak_rej],
    ROW S_STOPPED E_RECV_CONFIG_ACK S_STOPPED [H_send_terminate_ack],
    ROW S_STOPPED E_RECV_CONFIG_NAK_REJ S_STOPPED [H_send_terminate_ack],
    ROW S_STOPPED E_RECV_TERMINATE_REQUEST S_STOPPED [H_send_terminate_ack],
    ROW S_STOPPED E_RECV_TERMINATE_ACK S_STOPPED [],
    ROW S_STOPPED E_RECV_UNKNOWN_CODE S_STOPPED [H_send_code_reject],
    ROW S_STOPPED E_RECV_GOOD_CODE_PROTOCOL_REJECT S_STOPPED [],
    ROW S_STOPPED E_RECV_BAD_CODE_PROTOCOL_REJECT S_STOPPED [H_this_layer_finish],
    ROW S_STOPPED E_RECV_ECHO_REQUEST S_STOPPED [],
    ROW S_STOPPED E_RECV_ECHO_REPLY S_STOPPED []]"

definition lcp_rows_closing :: "tPPP_STATE_TBL list" where
  "lcp_rows_closing = [
    ROW S_CLOSING E_DOWN S_INIT [],
    ROW S_CLOSING E_OPEN S_STOPPING [H_create_down_event, H_create_up_event],
    ROW S_CLOSING E_CLOSE S_CLOSING [],
    ROW S_CLOSING E_TIMEOUT_COUNTER_POSITIVE S_CLOSING [H_send_terminate_request],
    ROW S_CLOSING E_TIMEOUT_COUNTER_EXPIRED S_CLOSED [H_this_layer_finish],
    ROW S_CLOSING E_RECV_GOOD_CONFIG_REQUEST S_CLOSING [],
    ROW S_CLOSING E_RECV_BAD_CONFIG_REQUEST S_CLOSING [],
    ROW S_CLOSING E_RECV_CONFIG_ACK S_CLOSING [],
    ROW S_CLOSING E_RECV_CONFIG_NAK_REJ S_CLOSING [],
    ROW S_CLOSING E_RECV_TERMINATE_REQUEST S_CLOSING [H_send_terminate_ack],
    ROW S_CLOSING E_RECV_TERMINATE_ACK S_CLOSED [H_create_down_event, H_create_up_event],
    ROW S_CLOSING E_RECV_UNKNOWN_CODE S_CLOSING [H_send_code_reject],
    ROW S_CLOSING E_RECV_GOOD_CODE_PROTOCOL_REJECT S_CLOSING [],
    ROW S_CLOSING E_RECV_BAD_CODE_PROTOCOL_REJECT S_CLOSED [H_this_layer_finish],
    ROW S_CLOSING E_RECV_ECHO_REQUEST S_CLOSING [],
    ROW S_CLOSING E_RECV_ECHO_REPLY S_CLOSING []]"

definition lcp_rows_stopping :: "tPPP_STATE_TBL list" where
  "lcp_rows_stopping = [
    ROW S_STOPPING E_DOWN S_STARTING [],
    ROW S_STOPPING E_OPEN S_STOPPING [H_create_down_event, H_create_up_event],
    ROW S_STOPPING E_CLOSE S_CLOSING [],
    ROW S_STOPPING E_TIMEOUT_COUNTER_POSITIVE S_STOPPING [H_send_terminate_request],
    ROW S_STOPPING E_TIMEOUT_COUNTER_EXPIRED S_STOPPED [H_this_layer_finish],
    ROW S_STOPPING E_RECV_GOOD_CONFIG_REQUEST S_STOPPING [],
    ROW S_STOPPING E_RECV_BAD_CONFIG_REQUEST S_STOPPING [],
    ROW S_STOPPING E_RECV_CONFIG_ACK S_STOPPING [],
    ROW S_STOPPING E_RECV_CONFIG_NAK_REJ S_STOPPING [],
    ROW S_STOPPING E_RECV_TERMINATE_REQUEST S_STOPPING [H_send_terminate_ack],
    ROW S_STOPPING E_RECV_TERMINATE_ACK S_STOPPED [H_create_down_event, H_create_up_event],
    ROW S_STOPPING E_RECV_UNKNOWN_CODE S_STOPPING [H_send_code_reject],
    ROW S_STOPPING E_RECV_GOOD_CODE_PROTOCOL_REJECT S_STOPPING [],
    ROW S_STOPPING E_RECV_BAD_CODE_PROTOCOL_REJECT S_STOPPED [H_this_layer_finish],
    ROW S_STOPPING E_RECV_ECHO_REQUEST S_STOPPING [],
    ROW S_STOPPING E_RECV_ECHO_REPLY S_STOPPING []]"

definition lcp_rows_request_sent :: "tPPP_STATE_TBL list" where
  "lcp_rows_request_sent = [
    ROW S_REQUEST_SENT E_DOWN S_STARTING [],
    ROW S_REQUEST_SENT E_OPEN S_REQUEST_SENT [],
    ROW S_REQUEST_SENT E_CLOSE S_CLOSING [H_init_restart_termin, H_send_terminate_request],
    ROW S_REQUEST_SENT E_TIMEOUT_COUNTER_POSITIVE S_REQUEST_SENT [H_send_config_request],
    ROW S_REQUEST_SENT E_TIMEOUT_COUNTER_EXPIRED S_STOPPED [H_this_layer_finish],
    ROW S_REQUEST_SENT E_RECV_GOOD_CONFIG_REQUEST S_ACK_SENT [H_send_config_ack],
    ROW S_REQUEST_SENT E_RECV_BAD_CONFIG_REQUEST S_REQUEST_SENT [H_send_config_nak_rej],
    ROW S_REQUEST_SENT E_RECV_CONFIG_ACK S_ACK_RECEIVED [H_init_restart_count],
    ROW S_REQUEST_SENT E_RECV_CONFIG_NAK_REJ S_REQUEST_SENT [H_init_restart_config, H_send_config_request],
    ROW S_REQUEST_SENT E_RECV_TERMINATE_REQUEST S_REQUEST_SENT [H_send_terminate_ack],
    ROW S_REQUEST_SENT E_RECV_TERMINATE_ACK S_REQUEST_SENT [],
    ROW S_REQUEST_SENT E_RECV_UNKNOWN_CODE S_REQUEST_SENT [H_send_code_reject],
    ROW S_REQUEST_SENT E_RECV_GOOD_CODE_PROTOCOL_REJECT S_REQUEST_SENT [],
    ROW S_REQUEST_SENT E_RECV_BAD_CODE_PROTOCOL_REJECT S_STOPPED [H_this_layer_finish],
    ROW S_REQUEST_SENT E_RECV_ECHO_REQUEST S_REQUEST_SENT [],
    ROW S_REQUEST_SENT E_RECV_ECHO_REPLY S_REQUEST_SENT []]"

definition lcp_rows_ack_received :: "tPPP_STATE_TBL list" where
  "lcp_rows_ack_received = [
    ROW S_ACK_RECEIVED E_DOWN S_STARTING [],
    ROW S_ACK_RECEIVED E_OPEN S_ACK_RECEIVED [],
    ROW S_ACK_RECEIVED E_CLOSE S_CLOSING [H_init_restart_termin, H_send_terminate_request],
    ROW S_ACK_RECEIVED E_TIMEOUT_COUNTER_POSITIVE S_REQUEST_SENT [H_send_config_request],
    ROW S_ACK_RECEIVED E_TIMEOUT_COUNTER_EXPIRED S_STOPPED [H_this_layer_finish],
    ROW S_ACK_RECEIVED E_RECV_GOOD_CONFIG_REQUEST S_OPENED [H_send_config_ack, H_this_layer_up],
    ROW S_ACK_RECEIVED E_RECV_BAD_CONFIG_REQUEST S_ACK_RECEIVED [H_send_config_nak_rej],
    ROW S_ACK_RECEIVED E_RECV_CONFIG_ACK S_REQUEST_SENT [H_send_config_request],
    ROW S_ACK_RECEIVED E_RECV_CONFIG_NAK_REJ S_REQUEST_SENT [H_send_config_request],
    ROW S_ACK_RECEIVED E_RECV_TERMINATE_REQUEST S_REQUEST_SENT [H_send_terminate_ack],
    ROW S_ACK_RECEIVED E_RECV_TERMINATE_ACK S_REQUEST_SENT [],
    ROW S_ACK_RECEIVED E_RECV_UNKNOWN_CODE S_ACK_RECEIVED [H_send_code_reject],
    ROW S_ACK_RECEIVED E_RECV_GOOD_CODE_PROTOCOL_REJECT S_REQUEST_SENT [],
    ROW S_ACK_RECEIVED E_RECV_BAD_CODE_PROTOCOL_REJECT S_STOPPED [H_this_layer_finish],
    ROW S_ACK_RECEIVED E_RECV_ECHO_REQUEST S_ACK_RECEIVED [],
    ROW S_ACK_RECEIVED E_RECV_ECHO_REPLY S_ACK_RECEIVED []]"

definition lcp_rows_ack_sent :: "tPPP_STATE_TBL list" where
  "lcp_rows_ack_sent = [
    ROW S_ACK_SENT E_DOWN S_STARTING [],
    ROW S_ACK_SENT E_OPEN S_ACK_SENT [],
    ROW S_ACK_SENT E_CLOSE S_CLOSING [H_init_restart_termin, H_send_terminate_request],
    ROW S_ACK_SENT E_TIMEOUT_COUNTER_POSITIVE S_ACK_SENT [H_send_config_request],
    ROW S_ACK_SENT E_TIMEOUT_COUNTER_EXPIRED S_STOPPED [H_this_layer_finish],
    ROW S_ACK_SENT E_RECV_GOOD_CONFIG_REQUEST S_ACK_SENT [H_send_config_ack],
    ROW S_ACK_SENT E_RECV_BAD_CONFIG_REQUEST S_REQUEST_SENT [H_send_config_nak_rej],
    ROW S_ACK_SENT E_RECV_CONFIG_ACK S_OPENED [H_init_restart_count, H_this_layer_up],
    ROW S_ACK_SENT E_RECV_CONFIG_NAK_REJ S_ACK_SENT [H_init_restart_config, H_send_config_request],
    ROW S_ACK_SENT E_RECV_TERMINATE_REQUEST S_REQUEST_SENT [H_send_terminate_ack],
    ROW S_ACK_SENT E_RECV_TERMINATE_ACK S_ACK_SENT [],
    ROW S_ACK_SENT E_RECV_UNKNOWN_CODE S_ACK_SENT [H_send_code_reject],
    ROW S_ACK_SENT E_RECV_GOOD_CODE_PROTOCOL_REJECT S_ACK_SENT [],
    ROW S_ACK_SENT E_RECV_BAD_CODE_PROTOCOL_REJECT S_STOPPED [H_this_layer_finish],
    ROW S_ACK_SENT E_RECV_ECHO_REQUEST S_ACK_SENT [],
    ROW S_ACK_SENT E_RECV_ECHO_REPLY S_ACK_SENT []]"

definition lcp_rows_opened :: "tPPP_STATE_TBL list" where
  "lcp_rows_opened = [
    ROW S_OPENED E_DOWN S_STARTING [H_this_layer_down],
    ROW S_OPENED E_OPEN S_OPENED [H_create_down_event, H_create_up_event],
    ROW S_OPENED E_CLOSE S_CLOSING [H_this_layer_down, H_init_restart_termin, H_send_terminate_request],
    ROW S_OPENED E_RECV_GOOD_CONFIG_REQUEST S_ACK_SENT [H_this_layer_down, H_send_config_request, H_send_config_ack],
    ROW S_OPENED E_RECV_BAD_CONFIG_REQUEST S_REQUEST_SENT [H_this_layer_down, H_send_config_request, H_send_config_nak_rej],
    ROW S_OPENED E_RECV_CONFIG_ACK S_REQUEST_SENT [H_this_layer_down, H_send_config_request],
    ROW S_OPENED E_RECV_CONFIG_NAK_REJ S_REQUEST_SENT [H_this_layer_down, H_send_config_request],
    ROW S_OPENED E_RECV_TERMINATE_REQUEST S_STOPPING [H_this_layer_down, H_init_restart_termin, H_send_terminate_request, H_send_terminate_ack],
    ROW S_OPENED E_RECV_TERMINATE_ACK S_REQUEST_SENT [H_this_layer_down, H_send_config_request],
    ROW S_OPENED E_RECV_UNKNOWN_CODE S_OPENED [H_send_code_reject],
    ROW S_OPENED E_RECV_GOOD_CODE_PROTOCOL_REJECT S_OPENED [],
    ROW S_OPENED E_RECV_BAD_CODE_PROTOCOL_REJECT S_STOPPING [H_this_layer_down, H_init_restart_termin, H_send_terminate_request],
    ROW S_OPENED E_RECV_ECHO_REQUEST S_OPENED [H_send_echo_reply],
    ROW S_OPENED E_RECV_ECHO_REPLY S_OPENED []]"

definition ppp_fsm_tbl_lcp :: "tPPP_STATE_TBL list" where
  "ppp_fsm_tbl_lcp =
     lcp_rows_init @
     lcp_rows_starting @
     lcp_rows_closed @
     lcp_rows_stopped @
     lcp_rows_closing @
     lcp_rows_stopping @
     lcp_rows_request_sent @
     lcp_rows_ack_received @
     lcp_rows_ack_sent @
     lcp_rows_opened @
     [ROW S_INVLD E_UP S_INIT []]"

definition ncp_rows_init :: "tPPP_STATE_TBL list" where
  "ncp_rows_init = [
    ROW S_INIT E_UP S_CLOSED [],
    ROW S_INIT E_OPEN S_STARTING [H_this_layer_start],
    ROW S_INIT E_CLOSE S_INIT []]"

definition ncp_rows_starting :: "tPPP_STATE_TBL list" where
  "ncp_rows_starting = [
    ROW S_STARTING E_UP S_REQUEST_SENT [H_send_config_request, H_init_restart_config],
    ROW S_STARTING E_OPEN S_STARTING [],
    ROW S_STARTING E_CLOSE S_INIT [H_this_layer_finish]]"

definition ncp_rows_closed :: "tPPP_STATE_TBL list" where
  "ncp_rows_closed = [
    ROW S_CLOSED E_DOWN S_INIT [H_create_close_to_lower_layer],
    ROW S_CLOSED E_OPEN S_REQUEST_SENT [H_send_config_request, H_init_restart_config],
    ROW S_CLOSED E_CLOSE S_CLOSED [],
    ROW S_CLOSED E_RECV_GOOD_CONFIG_REQUEST S_CLOSED [H_send_terminate_ack],
    ROW S_CLOSED E_RECV_BAD_CONFIG_REQUEST S_CLOSED [H_send_terminate_ack],
    ROW S_CLOSED E_RECV_CONFIG_ACK S_CLOSED [H_send_terminate_ack],
    ROW S_CLOSED E_RECV_CONFIG_NAK_REJ S_CLOSED [H_send_terminate_ack],
    ROW S_CLOSED E_RECV_TERMINATE_REQUEST S_CLOSED [H_send_terminate_ack],
    ROW S_CLOSED E_RECV_TERMINATE_ACK S_CLOSED [],
    ROW S_CLOSED E_RECV_UNKNOWN_CODE S_CLOSED [H_send_code_reject],
    ROW S_CLOSED E_RECV_GOOD_CODE_PROTOCOL_REJECT S_CLOSED [],
    ROW S_CLOSED E_RECV_BAD_CODE_PROTOCOL_REJECT S_CLOSED [H_this_layer_finish],
    ROW S_CLOSED E_RECV_ECHO_REQUEST S_CLOSED [],
    ROW S_CLOSED E_RECV_ECHO_REPLY S_CLOSED []]"

definition ncp_rows_stopped :: "tPPP_STATE_TBL list" where
  "ncp_rows_stopped = [
    ROW S_STOPPED E_DOWN S_STARTING [H_this_layer_start],
    ROW S_STOPPED E_OPEN S_STOPPED [H_create_down_event, H_create_up_event],
    ROW S_STOPPED E_CLOSE S_CLOSED [],
    ROW S_STOPPED E_RECV_GOOD_CONFIG_REQUEST S_ACK_SENT [H_init_restart_config, H_send_config_request, H_send_config_ack],
    ROW S_STOPPED E_RECV_BAD_CONFIG_REQUEST S_REQUEST_SENT [H_init_restart_config, H_send_config_request, H_send_config_nak_rej],
    ROW S_STOPPED E_RECV_CONFIG_ACK S_STOPPED [H_send_terminate_ack],
    ROW S_STOPPED E_RECV_CONFIG_NAK_REJ S_STOPPED [H_send_terminate_ack],
    ROW S_STOPPED E_RECV_TERMINATE_REQUEST S_STOPPED [H_send_terminate_ack],
    ROW S_STOPPED E_RECV_TERMINATE_ACK S_STOPPED [],
    ROW S_STOPPED E_RECV_UNKNOWN_CODE S_STOPPED [H_send_code_reject],
    ROW S_STOPPED E_RECV_GOOD_CODE_PROTOCOL_REJECT S_STOPPED [],
    ROW S_STOPPED E_RECV_BAD_CODE_PROTOCOL_REJECT S_STOPPED [H_this_layer_finish],
    ROW S_STOPPED E_RECV_ECHO_REQUEST S_STOPPED [],
    ROW S_STOPPED E_RECV_ECHO_REPLY S_STOPPED []]"

definition ncp_rows_closing :: "tPPP_STATE_TBL list" where
  "ncp_rows_closing = [
    ROW S_CLOSING E_DOWN S_INIT [],
    ROW S_CLOSING E_OPEN S_STOPPING [H_create_down_event, H_create_up_event],
    ROW S_CLOSING E_CLOSE S_CLOSING [],
    ROW S_CLOSING E_TIMEOUT_COUNTER_POSITIVE S_CLOSING [H_send_terminate_request],
    ROW S_CLOSING E_TIMEOUT_COUNTER_EXPIRED S_CLOSED [H_this_layer_finish],
    ROW S_CLOSING E_RECV_GOOD_CONFIG_REQUEST S_CLOSING [],
    ROW S_CLOSING E_RECV_BAD_CONFIG_REQUEST S_CLOSING [],
    ROW S_CLOSING E_RECV_CONFIG_ACK S_CLOSING [],
    ROW S_CLOSING E_RECV_CONFIG_NAK_REJ S_CLOSING [],
    ROW S_CLOSING E_RECV_TERMINATE_REQUEST S_CLOSING [H_send_terminate_ack],
    ROW S_CLOSING E_RECV_TERMINATE_ACK S_CLOSED [H_create_down_event, H_create_up_event],
    ROW S_CLOSING E_RECV_UNKNOWN_CODE S_CLOSING [H_send_code_reject],
    ROW S_CLOSING E_RECV_GOOD_CODE_PROTOCOL_REJECT S_CLOSING [],
    ROW S_CLOSING E_RECV_BAD_CODE_PROTOCOL_REJECT S_CLOSED [H_this_layer_finish],
    ROW S_CLOSING E_RECV_ECHO_REQUEST S_CLOSING [],
    ROW S_CLOSING E_RECV_ECHO_REPLY S_CLOSING []]"

definition ncp_rows_stopping :: "tPPP_STATE_TBL list" where
  "ncp_rows_stopping = [
    ROW S_STOPPING E_DOWN S_STARTING [],
    ROW S_STOPPING E_OPEN S_STOPPING [H_create_down_event, H_create_up_event],
    ROW S_STOPPING E_CLOSE S_CLOSING [],
    ROW S_STOPPING E_TIMEOUT_COUNTER_POSITIVE S_STOPPING [H_send_terminate_request],
    ROW S_STOPPING E_TIMEOUT_COUNTER_EXPIRED S_STOPPED [H_this_layer_finish],
    ROW S_STOPPING E_RECV_GOOD_CONFIG_REQUEST S_STOPPING [],
    ROW S_STOPPING E_RECV_BAD_CONFIG_REQUEST S_STOPPING [],
    ROW S_STOPPING E_RECV_CONFIG_ACK S_STOPPING [],
    ROW S_STOPPING E_RECV_CONFIG_NAK_REJ S_STOPPING [],
    ROW S_STOPPING E_RECV_TERMINATE_REQUEST S_STOPPING [H_send_terminate_ack],
    ROW S_STOPPING E_RECV_TERMINATE_ACK S_STOPPED [H_create_down_event, H_create_up_event],
    ROW S_STOPPING E_RECV_UNKNOWN_CODE S_STOPPING [H_send_code_reject],
    ROW S_STOPPING E_RECV_GOOD_CODE_PROTOCOL_REJECT S_STOPPING [],
    ROW S_STOPPING E_RECV_BAD_CODE_PROTOCOL_REJECT S_STOPPED [H_this_layer_finish],
    ROW S_STOPPING E_RECV_ECHO_REQUEST S_STOPPING [],
    ROW S_STOPPING E_RECV_ECHO_REPLY S_STOPPING []]"

definition ncp_rows_request_sent :: "tPPP_STATE_TBL list" where
  "ncp_rows_request_sent = [
    ROW S_REQUEST_SENT E_DOWN S_STARTING [],
    ROW S_REQUEST_SENT E_OPEN S_REQUEST_SENT [],
    ROW S_REQUEST_SENT E_CLOSE S_CLOSING [H_init_restart_termin, H_send_terminate_request],
    ROW S_REQUEST_SENT E_TIMEOUT_COUNTER_POSITIVE S_REQUEST_SENT [H_send_config_request],
    ROW S_REQUEST_SENT E_TIMEOUT_COUNTER_EXPIRED S_STOPPED [H_this_layer_finish],
    ROW S_REQUEST_SENT E_RECV_GOOD_CONFIG_REQUEST S_ACK_SENT [H_send_config_ack],
    ROW S_REQUEST_SENT E_RECV_BAD_CONFIG_REQUEST S_REQUEST_SENT [H_send_config_nak_rej],
    ROW S_REQUEST_SENT E_RECV_CONFIG_ACK S_ACK_RECEIVED [H_init_restart_count],
    ROW S_REQUEST_SENT E_RECV_CONFIG_NAK_REJ S_REQUEST_SENT [H_init_restart_config, H_send_config_request],
    ROW S_REQUEST_SENT E_RECV_TERMINATE_REQUEST S_REQUEST_SENT [H_send_terminate_ack],
    ROW S_REQUEST_SENT E_RECV_TERMINATE_ACK S_REQUEST_SENT [],
    ROW S_REQUEST_SENT E_RECV_UNKNOWN_CODE S_REQUEST_SENT [H_send_code_reject],
    ROW S_REQUEST_SENT E_RECV_GOOD_CODE_PROTOCOL_REJECT S_REQUEST_SENT [],
    ROW S_REQUEST_SENT E_RECV_BAD_CODE_PROTOCOL_REJECT S_STOPPED [H_this_layer_finish],
    ROW S_REQUEST_SENT E_RECV_ECHO_REQUEST S_REQUEST_SENT [],
    ROW S_REQUEST_SENT E_RECV_ECHO_REPLY S_REQUEST_SENT []]"

definition ncp_rows_ack_received :: "tPPP_STATE_TBL list" where
  "ncp_rows_ack_received = [
    ROW S_ACK_RECEIVED E_DOWN S_STARTING [],
    ROW S_ACK_RECEIVED E_OPEN S_ACK_RECEIVED [],
    ROW S_ACK_RECEIVED E_CLOSE S_CLOSING [H_init_restart_termin, H_send_terminate_request],
    ROW S_ACK_RECEIVED E_TIMEOUT_COUNTER_POSITIVE S_REQUEST_SENT [H_send_config_request],
    ROW S_ACK_RECEIVED E_TIMEOUT_COUNTER_EXPIRED S_STOPPED [H_this_layer_finish],
    ROW S_ACK_RECEIVED E_RECV_GOOD_CONFIG_REQUEST S_OPENED [H_send_config_ack, H_this_layer_up],
    ROW S_ACK_RECEIVED E_RECV_BAD_CONFIG_REQUEST S_ACK_RECEIVED [H_send_config_nak_rej],
    ROW S_ACK_RECEIVED E_RECV_CONFIG_ACK S_REQUEST_SENT [H_send_config_request],
    ROW S_ACK_RECEIVED E_RECV_CONFIG_NAK_REJ S_REQUEST_SENT [H_send_config_request],
    ROW S_ACK_RECEIVED E_RECV_TERMINATE_REQUEST S_REQUEST_SENT [H_send_terminate_ack],
    ROW S_ACK_RECEIVED E_RECV_TERMINATE_ACK S_REQUEST_SENT [],
    ROW S_ACK_RECEIVED E_RECV_UNKNOWN_CODE S_ACK_RECEIVED [H_send_code_reject],
    ROW S_ACK_RECEIVED E_RECV_GOOD_CODE_PROTOCOL_REJECT S_REQUEST_SENT [],
    ROW S_ACK_RECEIVED E_RECV_BAD_CODE_PROTOCOL_REJECT S_STOPPED [H_this_layer_finish],
    ROW S_ACK_RECEIVED E_RECV_ECHO_REQUEST S_ACK_RECEIVED [],
    ROW S_ACK_RECEIVED E_RECV_ECHO_REPLY S_ACK_RECEIVED []]"

definition ncp_rows_ack_sent :: "tPPP_STATE_TBL list" where
  "ncp_rows_ack_sent = [
    ROW S_ACK_SENT E_DOWN S_STARTING [],
    ROW S_ACK_SENT E_OPEN S_ACK_SENT [],
    ROW S_ACK_SENT E_CLOSE S_CLOSING [H_init_restart_termin, H_send_terminate_request],
    ROW S_ACK_SENT E_TIMEOUT_COUNTER_POSITIVE S_ACK_SENT [H_send_config_request],
    ROW S_ACK_SENT E_TIMEOUT_COUNTER_EXPIRED S_STOPPED [H_this_layer_finish],
    ROW S_ACK_SENT E_RECV_GOOD_CONFIG_REQUEST S_ACK_SENT [H_send_config_ack],
    ROW S_ACK_SENT E_RECV_BAD_CONFIG_REQUEST S_REQUEST_SENT [H_send_config_nak_rej],
    ROW S_ACK_SENT E_RECV_CONFIG_ACK S_OPENED [H_init_restart_count, H_this_layer_up],
    ROW S_ACK_SENT E_RECV_CONFIG_NAK_REJ S_ACK_SENT [H_init_restart_config, H_send_config_request],
    ROW S_ACK_SENT E_RECV_TERMINATE_REQUEST S_REQUEST_SENT [H_send_terminate_ack],
    ROW S_ACK_SENT E_RECV_TERMINATE_ACK S_ACK_SENT [],
    ROW S_ACK_SENT E_RECV_UNKNOWN_CODE S_ACK_SENT [H_send_code_reject],
    ROW S_ACK_SENT E_RECV_GOOD_CODE_PROTOCOL_REJECT S_ACK_SENT [],
    ROW S_ACK_SENT E_RECV_BAD_CODE_PROTOCOL_REJECT S_STOPPED [H_this_layer_finish],
    ROW S_ACK_SENT E_RECV_ECHO_REQUEST S_ACK_SENT [],
    ROW S_ACK_SENT E_RECV_ECHO_REPLY S_ACK_SENT []]"

definition ncp_rows_opened :: "tPPP_STATE_TBL list" where
  "ncp_rows_opened = [
    ROW S_OPENED E_DOWN S_STARTING [H_this_layer_down],
    ROW S_OPENED E_OPEN S_OPENED [H_create_down_event, H_create_up_event],
    ROW S_OPENED E_CLOSE S_CLOSING [H_this_layer_down, H_init_restart_termin, H_send_terminate_request],
    ROW S_OPENED E_RECV_GOOD_CONFIG_REQUEST S_ACK_SENT [H_this_layer_down, H_send_config_request, H_send_config_ack],
    ROW S_OPENED E_RECV_BAD_CONFIG_REQUEST S_REQUEST_SENT [H_this_layer_down, H_send_config_request, H_send_config_nak_rej],
    ROW S_OPENED E_RECV_CONFIG_ACK S_REQUEST_SENT [H_this_layer_down, H_send_config_request],
    ROW S_OPENED E_RECV_CONFIG_NAK_REJ S_REQUEST_SENT [H_this_layer_down, H_send_config_request],
    ROW S_OPENED E_RECV_TERMINATE_REQUEST S_STOPPING [H_this_layer_down, H_zero_restart_count, H_send_terminate_ack],
    ROW S_OPENED E_RECV_TERMINATE_ACK S_REQUEST_SENT [H_this_layer_down, H_send_config_request],
    ROW S_OPENED E_RECV_UNKNOWN_CODE S_OPENED [H_send_code_reject],
    ROW S_OPENED E_RECV_GOOD_CODE_PROTOCOL_REJECT S_OPENED [],
    ROW S_OPENED E_RECV_BAD_CODE_PROTOCOL_REJECT S_STOPPING [H_this_layer_down, H_init_restart_termin, H_send_terminate_request],
    ROW S_OPENED E_RECV_ECHO_REQUEST S_OPENED [],
    ROW S_OPENED E_RECV_ECHO_REPLY S_OPENED []]"

definition ppp_fsm_tbl_ncp :: "tPPP_STATE_TBL list" where
  "ppp_fsm_tbl_ncp =
     ncp_rows_init @
     ncp_rows_starting @
     ncp_rows_closed @
     ncp_rows_stopped @
     ncp_rows_closing @
     ncp_rows_stopping @
     ncp_rows_request_sent @
     ncp_rows_ack_received @
     ncp_rows_ack_sent @
     ncp_rows_opened @
     [ROW S_INVLD E_UP S_INIT []]"

definition ppp_fsm_tbl :: "ppp_cp \<Rightarrow> tPPP_STATE_TBL list" where
  "ppp_fsm_tbl c = (case c of PPP_CP_LCP \<Rightarrow> ppp_fsm_tbl_lcp | PPP_CP_IPCP \<Rightarrow> ppp_fsm_tbl_ncp
     | PPP_CP_IPV6CP \<Rightarrow> ppp_fsm_tbl_ncp)"

text \<open>The two scans of \<open>PPP_FSM\<close>: to the first row of the state, then to the event within the state's rows.\<close>

definition find_state :: "tPPP_STATE_TBL list \<Rightarrow> ppp_state \<Rightarrow> nat" where
  "find_state tbl s = length (takeWhile (\<lambda>r. row_state r \<noteq> S_INVLD \<and> row_state r \<noteq> s) tbl)"

definition find_event :: "tPPP_STATE_TBL list \<Rightarrow> ppp_state \<Rightarrow> ppp_event \<Rightarrow> nat \<Rightarrow> nat" where
  "find_event tbl s ev i = i + length (takeWhile (\<lambda>r. row_state r = s \<and> row_event r \<noteq> ev) (drop i tbl))"

section \<open>Teardown\<close>

type_synonym fsm_call = "ppp_timer \<Rightarrow> ppp_event \<Rightarrow> ppp_ccb \<Rightarrow> (status \<times> ppp_ccb) option"
type_synonym hdl_result = "(status \<times> ppp_ccb) option"

text \<open>The caller drops the status of a nested \<open>PPP_FSM\<close> call and reports success.\<close>

definition returning_success :: "hdl_result \<Rightarrow> hdl_result" where
  "returning_success r = map_option (\<lambda>(_, st). (SUCCESS, st)) r"

definition ppp_report_phase :: "u8 \<Rightarrow> ppp_report" where
  "ppp_report_phase ph =
     (if ph = DATA_PHASE then PPP_REPORT_CONNECTED
      else if ph = PPPOE_PHASE \<or> ph = LCP_PHASE \<or> ph = AUTH_PHASE \<or> ph = IPCP_PHASE then PPP_REPORT_CONNECTING
      else PPP_REPORT_DISCONNECTED)"

definition ppp_report_connection_status :: "ppp_env \<Rightarrow> ppp_ccb \<Rightarrow> status \<times> ppp_ccb" where
  "ppp_report_connection_status env st =
     (if env_standalone env then (ERROR, st)
      else (SUCCESS, emit (KafkaReport (ppp_report_phase (phase st))) st))"

definition stop_all_timers :: "ppp_ccb \<Rightarrow> ppp_ccb" where
  "stop_all_timers st =
     rte_timer_stop TIM_PPP_ALIVE (rte_timer_stop TIM_PPPOE (rte_timer_stop TIM_RA
       (rte_timer_stop TIM_DHCP6 (rte_timer_stop TIM_PPP_IPV6CP (rte_timer_stop TIM_PPP st)))))"

definition all_states_init :: "ppp_ccb \<Rightarrow> ppp_ccb" where
  "all_states_init st =
     set_state PPP_CP_IPV6CP S_INIT (set_state PPP_CP_IPCP S_INIT (set_state PPP_CP_LCP S_INIT st))"

definition exit_ppp :: "ppp_env \<Rightarrow> ppp_ccb \<Rightarrow> ppp_ccb" where
  "exit_ppp env st =
     (let st = stop_all_timers (st\<lparr>ppp_bool := False, dp_start_bool := False\<rparr>);
          st = emit Nd6Reset (dhcp6_pd_stop st);
          st = all_states_init (st\<lparr>phase := END_PHASE\<rparr>);
          st = st\<lparr>config_request_pending := (config_request_pending st)(PPP_CP_IPV6CP := False),
                  ipv6cp_local_iid := replicate 8 0, ipv6cp_peer_iid := replicate 8 0, ipv6cp_up := False\<rparr>;
          st = pppd_ipv6_dp_gate_update st;
          st = st\<lparr>pppoe := (pppoe st)\<lparr>pp_active := False\<rparr>, session_id := 0, hsi_ipv4 := 0, hsi_ipv4_gw := 0,
                  hsi_primary_dns := 0xffffffff, hsi_secondary_dns := 0xffffffff, mru := MAX_RECV_UNIT,
                  lcp_auth_rejected := False, lcp_mru_rejected := False, lcp_magic_rejected := False,
                  peer_requires_auth := False\<rparr>;
          st = emit (KafkaReport PPP_REPORT_DISCONNECTED) (emit DnsCleanup st)
      in if redial_pending st then emit DialRequest (st\<lparr>redial_pending := False\<rparr>) else st)"

text \<open>What \<open>PPP_bye\<close> does before it looks at the phase.\<close>

definition bye_prologue :: "ppp_ccb \<Rightarrow> ppp_ccb" where
  "bye_prologue st =
     (let st = dhcp6_pd_stop (stop_all_timers st);
          st = pppd_ipv6_dp_gate_update (st\<lparr>ipv6cp_up := False\<rparr>)
      in st\<lparr>config_request_pending := (config_request_pending st)(PPP_CP_IPV6CP := False),
            dp_start_bool := False\<rparr>)"

definition lcp_close :: "fsm_call \<Rightarrow> ppp_ccb \<Rightarrow> ppp_ccb option" where
  "lcp_close fsm st = map_option snd (fsm TIM_PPP E_CLOSE
     (set_state PPP_CP_IPV6CP S_INIT (set_state PPP_CP_IPCP S_INIT (st\<lparr>cp_id := PPP_CP_LCP, ppp_processing := True\<rparr>))))"

lemma phase_bye_prologue [simp]: "phase (bye_prologue st) = phase st"
  by (simp add: bye_prologue_def dhcp6_pd_stop_def dhcp6_clear_lease_def nd6_ra_stop_def stop_all_timers_def
      rte_timer_stop_def pppd_ipv6_dp_gate_update_def Let_def)

function PPP_bye :: "fsm_call \<Rightarrow> ppp_env \<Rightarrow> ppp_ccb \<Rightarrow> ppp_ccb option" where
  "PPP_bye fsm env st0 =
     (let st = bye_prologue st0 in
      if phase st = END_PHASE then Some (exit_ppp env (st\<lparr>ppp_bool := False, ppp_processing := False\<rparr>))
      else if phase st = PPPOE_PHASE then PPP_bye fsm env (all_states_init (st\<lparr>phase := phase st - 1\<rparr>))
      else if phase st = LCP_PHASE then lcp_close fsm st
      else if phase st = DATA_PHASE \<or> phase st = IPCP_PHASE
      then lcp_close fsm (st\<lparr>dp_start_bool := False, phase := LCP_PHASE\<rparr>)
      else Some (exit_ppp env (st\<lparr>ppp_bool := False, ppp_processing := False\<rparr>)))"
  by pat_completeness auto
termination
  by (relation "measure (\<lambda>(_, _, st). unat (phase st))") (auto simp: all_states_init_def upd_cp_def Let_def)

declare PPP_bye.simps [simp del]

text \<open>Discovery frames. A tag list that runs past the buffer has no defined result.\<close>

datatype pppoe_encode = ENCODE_PADI | ENCODE_PADR | ENCODE_PADT

definition be16 :: "u8 \<Rightarrow> u8 \<Rightarrow> nat" where
  "be16 hi lo = unat hi * 256 + unat lo"

function padr_scan :: "u8 list \<Rightarrow> u32 \<Rightarrow> (bool \<times> u32) option" where
  "padr_scan bytes tot =
     (if length bytes < 4 then None
      else let ty = be16 (bytes ! 0) (bytes ! 1);
               len = be16 (bytes ! 2) (bytes ! 3);
               next = drop (4 + len) bytes
           in if ty = 0 then Some (True, tot)
              else if ty = 0x0102 then padr_scan next tot
              else if ty = 0x0103 \<or> ty = 0x0104 \<or> ty = 0x0110
              then padr_scan next (if len \<noteq> 0 then of_nat len + 4 + tot else tot)
              else if ty = 0x0203 then Some (False, tot)
              else padr_scan next tot)"
  by pat_completeness auto
termination
  by (relation "measure (\<lambda>(bytes, _). length bytes)") auto

declare padr_scan.simps [simp del]

definition pppoe_send_pkt :: "fsm_call \<Rightarrow> ppp_env \<Rightarrow> pppoe_encode \<Rightarrow> ppp_ccb \<Rightarrow> hdl_result" where
  "pppoe_send_pkt fsm env enc st =
     (case enc of
        ENCODE_PADI \<Rightarrow>
          if pp_max_retransmit (pppoe st) \<le> pp_timer_counter (pppoe st) then Some (ERROR, exit_ppp env st)
          else Some (SUCCESS, emit (TxDiscovery PADI 28)
                 (st\<lparr>pppoe := (pppoe st)\<lparr>pp_timer_counter := pp_timer_counter (pppoe st) + 1\<rparr>\<rparr>))
      | ENCODE_PADR \<Rightarrow>
          if pp_max_retransmit (pppoe st) \<le> pp_timer_counter (pppoe st) then Some (ERROR, exit_ppp env st)
          else (case padr_scan (pp_tags (pppoe st)) 4 of
              None \<Rightarrow> None
            | Some (ok, tot) \<Rightarrow>
                if \<not> ok \<and> env_false_status env = ERROR
                then map_option (\<lambda>st. (ERROR, st)) (PPP_bye fsm env st)
                else
                  let mulen = (if ok then 24 + ucast tot else 0);
                      st = st\<lparr>pppoe := (pppoe st)\<lparr>pp_timer_counter := pp_timer_counter (pppoe st) + 1\<rparr>,
                              pppoe_length := (if ok then rte_cpu_to_be_16 (ucast tot) else pppoe_length st)\<rparr>
                  in Some (SUCCESS, if mulen = 0 then st else emit (TxDiscovery PADR mulen) st))
      | ENCODE_PADT \<Rightarrow>
          map_option (\<lambda>st. (SUCCESS, st))
            (PPP_bye fsm env ((emit (TxDiscovery PADT 24) st)
               \<lparr>phase := PPPOE_PHASE, pppoe := (pppoe st)\<lparr>pp_active := False\<rparr>\<rparr>)))"

section \<open>Action handlers\<close>

definition A_this_layer_start :: "fsm_call \<Rightarrow> ppp_timer \<Rightarrow> ppp_ccb \<Rightarrow> hdl_result" where
  "A_this_layer_start fsm tim st = returning_success (fsm tim E_UP st)"

definition ipv6cp_stop :: "ppp_ccb \<Rightarrow> ppp_ccb" where
  "ipv6cp_stop st =
     (let st = rte_timer_stop TIM_PPP_IPV6CP (dhcp6_pd_stop st);
          st = st\<lparr>config_request_pending := (config_request_pending st)(PPP_CP_IPV6CP := False), ipv6cp_up := False\<rparr>
      in set_state PPP_CP_IPV6CP S_STOPPED (pppd_ipv6_dp_gate_update st))"

definition ppp_phase_rollback :: "ppp_ccb \<Rightarrow> ppp_ccb" where
  "ppp_phase_rollback st =
     (if LCP_PHASE \<le> phase st then st\<lparr>phase := phase st - 2\<rparr> else st\<lparr>phase := END_PHASE\<rparr>)"

definition A_create_close_to_lower_layer :: "fsm_call \<Rightarrow> ppp_timer \<Rightarrow> ppp_ccb \<Rightarrow> hdl_result" where
  "A_create_close_to_lower_layer fsm tim st =
     (if cp_id st = PPP_CP_IPV6CP then Some (SUCCESS, ipv6cp_stop st)
      else returning_success (fsm tim E_CLOSE
             (rte_timer_stop TIM_PPP_ALIVE (ppp_phase_rollback (st\<lparr>cp_id := PPP_CP_LCP\<rparr>)))))"

definition A_this_layer_finish :: "fsm_call \<Rightarrow> ppp_timer \<Rightarrow> ppp_ccb \<Rightarrow> hdl_result" where
  "A_this_layer_finish fsm tim st =
     (if cp_id st = PPP_CP_IPV6CP then A_create_close_to_lower_layer fsm tim st
      else returning_success (fsm tim E_DOWN st))"

text \<open>Opening the network layers: IPCP always, IPV6CP when enabled. Also the success path of authentication.\<close>

definition open_ncps :: "fsm_call \<Rightarrow> ppp_env \<Rightarrow> ppp_ccb \<Rightarrow> ppp_ccb option" where
  "open_ncps fsm env st =
     (case fsm TIM_PPP E_OPEN (st\<lparr>cp_id := PPP_CP_IPCP, phase := IPCP_PHASE\<rparr>) of
        None \<Rightarrow> None
      | Some (_, st) \<Rightarrow>
          if ipv6_enabled st
          then map_option snd (fsm TIM_PPP_IPV6CP E_OPEN ((ppp_ipv6cp_iid_init env st)\<lparr>cp_id := PPP_CP_IPV6CP\<rparr>))
          else Some st)"

definition lcp_layer_up :: "fsm_call \<Rightarrow> ppp_env \<Rightarrow> ppp_ccb \<Rightarrow> hdl_result" where
  "lcp_layer_up fsm env st0 =
     (let st = rte_timer_reset TIM_PPP_ALIVE (ucast (ppp_interval st0) * cycles_in_sec (env_clock env)) True CB_keepalive
                 (st0\<lparr>echo_miss_count := 0\<rparr>)
      in if lcp_auth_rejected st \<and> \<not> peer_requires_auth st
         then map_option (\<lambda>st. (SUCCESS, st)) (open_ncps fsm env st)
         else if auth_method st = PAP_PROTOCOL
         then (case build_auth_request_pap st of (f, st) \<Rightarrow> Some (SUCCESS, wan_ctrl_tx f st))
         else if auth_method st = CHAP_PROTOCOL then Some (SUCCESS, st\<lparr>phase := AUTH_PHASE\<rparr>)
         else Some (SUCCESS, st))"

definition ipcp_layer_up :: "ppp_env \<Rightarrow> ppp_ccb \<Rightarrow> hdl_result" where
  "ipcp_layer_up env st0 =
     (let st = st0\<lparr>dp_start_bool := True, phase := DATA_PHASE\<rparr>;
          st = (if hsi_primary_dns st = 0xffffffff \<or> hsi_primary_dns st = 0
                then st\<lparr>hsi_primary_dns := rte_cpu_to_be_32 0x08080808\<rparr> else st);
          st = (if hsi_secondary_dns st = 0xffffffff \<or> hsi_secondary_dns st = 0
                then st\<lparr>hsi_secondary_dns := rte_cpu_to_be_32 0x01010101\<rparr> else st);
          st = emit (DnsInit (hsi_primary_dns st) (hsi_secondary_dns st)) st
      in if env_dns_init env \<noteq> SUCCESS then Some (ERROR, st)
         else Some (SUCCESS, snd (ppp_report_connection_status env st)))"

definition ipv6cp_layer_up :: "ppp_env \<Rightarrow> ppp_ccb \<Rightarrow> hdl_result" where
  "ipv6cp_layer_up env st =
     Some (SUCCESS, dhcp6_pd_start env (pppd_ipv6_dp_gate_update (st\<lparr>ipv6cp_up := True\<rparr>)))"

definition A_this_layer_up :: "fsm_call \<Rightarrow> ppp_env \<Rightarrow> ppp_ccb \<Rightarrow> hdl_result" where
  "A_this_layer_up fsm env st =
     (let proto = ppp_protocol (control_protocols st (cp_id st)) in
      if proto = rte_cpu_to_be_16 LCP_PROTOCOL then lcp_layer_up fsm env st
      else if proto = rte_cpu_to_be_16 IPCP_PROTOCOL then ipcp_layer_up env st
      else if proto = rte_cpu_to_be_16 IPV6CP_PROTOCOL then ipv6cp_layer_up env st
      else Some (SUCCESS, st))"

definition A_this_layer_down :: "fsm_call \<Rightarrow> ppp_timer \<Rightarrow> ppp_ccb \<Rightarrow> hdl_result" where
  "A_this_layer_down fsm tim st =
     (case cp_id st of
        PPP_CP_IPV6CP \<Rightarrow>
          returning_success (fsm tim E_CLOSE (pppd_ipv6_dp_gate_update ((dhcp6_pd_stop st)\<lparr>ipv6cp_up := False\<rparr>)))
      | PPP_CP_IPCP \<Rightarrow>
          map_option (\<lambda>(_, st). (SUCCESS, st\<lparr>dp_start_bool := False\<rparr>)) (fsm tim E_CLOSE st)
      | PPP_CP_LCP \<Rightarrow>
          let st = set_state PPP_CP_IPV6CP S_INIT (set_state PPP_CP_IPCP S_INIT (st\<lparr>dp_start_bool := False\<rparr>));
              st = dhcp6_pd_stop (st\<lparr>config_request_pending := (config_request_pending st)(PPP_CP_IPV6CP := False)\<rparr>);
              st = rte_timer_stop TIM_PPP_IPV6CP (pppd_ipv6_dp_gate_update (st\<lparr>ipv6cp_up := False\<rparr>))
          in returning_success (fsm tim E_CLOSE st))"

definition A_init_restart_count :: "ppp_ccb \<Rightarrow> hdl_result" where
  "A_init_restart_count st = Some (SUCCESS, st)"

definition restart_timer :: "(ppp_cp \<Rightarrow> timer_cb) \<Rightarrow> ppp_env \<Rightarrow> ppp_timer \<Rightarrow> ppp_ccb \<Rightarrow> ppp_ccb" where
  "restart_timer cbk env tim st =
     rte_timer_reset tim (3 * cycles_in_sec (env_clock env)) True (cbk (cp_id st))
       (set_counter (cp_id st) 9 (rte_timer_stop tim st))"

definition A_init_restart_config :: "ppp_env \<Rightarrow> ppp_timer \<Rightarrow> ppp_ccb \<Rightarrow> hdl_result" where
  "A_init_restart_config env tim st = Some (SUCCESS, restart_timer CB_send_config_request env tim st)"

definition A_init_restart_termin :: "ppp_env \<Rightarrow> ppp_timer \<Rightarrow> ppp_ccb \<Rightarrow> hdl_result" where
  "A_init_restart_termin env tim st = Some (SUCCESS, restart_timer CB_send_terminate_request env tim st)"

definition count_down :: "ppp_ccb \<Rightarrow> ppp_ccb" where
  "count_down st = upd_cp (cp_id st) (\<lambda>p. p\<lparr>timer_counter := timer_counter p - 1\<rparr>) st"

definition A_send_config_request :: "fsm_call \<Rightarrow> ppp_timer \<Rightarrow> ppp_ccb \<Rightarrow> hdl_result" where
  "A_send_config_request fsm tim st =
     (if timer_counter (control_protocols st (cp_id st)) = 0
      then returning_success (fsm tim E_TIMEOUT_COUNTER_EXPIRED (rte_timer_stop tim st))
      else case build_config_request st of
        (f, st) \<Rightarrow> Some (SUCCESS, count_down (wan_ctrl_tx f st)))"

definition A_send_config_nak_rej :: "ppp_ccb \<Rightarrow> hdl_result" where
  "A_send_config_nak_rej st = Some (SUCCESS, wan_ctrl_tx (build_config_nak_rej st) st)"

definition A_send_config_ack :: "ppp_ccb \<Rightarrow> hdl_result" where
  "A_send_config_ack st = Some (SUCCESS, wan_ctrl_tx (build_config_ack st) st)"

definition A_send_terminate_request :: "fsm_call \<Rightarrow> ppp_env \<Rightarrow> ppp_timer \<Rightarrow> ppp_ccb \<Rightarrow> hdl_result" where
  "A_send_terminate_request fsm env tim st =
     (if timer_counter (control_protocols st (cp_id st)) = 0
      then returning_success (fsm tim E_TIMEOUT_COUNTER_EXPIRED (rte_timer_stop tim st))
      else Some (SUCCESS, count_down (wan_ctrl_tx (build_terminate_request env st) st)))"

definition A_send_terminate_ack :: "ppp_ccb \<Rightarrow> hdl_result" where
  "A_send_terminate_ack st = Some (SUCCESS, wan_ctrl_tx (build_terminate_ack st) st)"

definition A_send_code_reject :: "ppp_env \<Rightarrow> ppp_ccb \<Rightarrow> hdl_result" where
  "A_send_code_reject env st =
     (case build_code_reject env st of
        None \<Rightarrow> if env_error_negative env then Some (env_false_status env, st) else Some (SUCCESS, st)
      | Some f \<Rightarrow> Some (SUCCESS, wan_ctrl_tx f st))"

definition A_send_echo_reply :: "ppp_ccb \<Rightarrow> hdl_result" where
  "A_send_echo_reply st = Some (SUCCESS, wan_ctrl_tx (build_echo_reply st) st)"

definition A_create_up_event :: "ppp_ccb \<Rightarrow> hdl_result" where
  "A_create_up_event st = Some (SUCCESS, st)"

definition A_create_down_event :: "fsm_call \<Rightarrow> ppp_timer \<Rightarrow> ppp_ccb \<Rightarrow> hdl_result" where
  "A_create_down_event fsm tim st = returning_success (fsm tim E_DOWN st)"

definition A_zero_restart_count :: "ppp_ccb \<Rightarrow> hdl_result" where
  "A_zero_restart_count st = Some (SUCCESS, st)"

definition A_send_padt :: "fsm_call \<Rightarrow> ppp_env \<Rightarrow> ppp_ccb \<Rightarrow> hdl_result" where
  "A_send_padt fsm env st =
     map_option (\<lambda>(_, st). (SUCCESS, st\<lparr>phase := END_PHASE\<rparr>)) (pppoe_send_pkt fsm env ENCODE_PADT st)"

section \<open>The automaton\<close>

definition run_hdl :: "fsm_call \<Rightarrow> ppp_env \<Rightarrow> ppp_timer \<Rightarrow> ppp_handler \<Rightarrow> ppp_ccb \<Rightarrow> hdl_result" where
  "run_hdl fsm env tim h st =
     (case h of
        H_this_layer_start \<Rightarrow> A_this_layer_start fsm tim st
      | H_send_config_request \<Rightarrow> A_send_config_request fsm tim st
      | H_this_layer_finish \<Rightarrow> A_this_layer_finish fsm tim st
      | H_send_terminate_ack \<Rightarrow> A_send_terminate_ack st
      | H_send_code_reject \<Rightarrow> A_send_code_reject env st
      | H_create_down_event \<Rightarrow> A_create_down_event fsm tim st
      | H_create_up_event \<Rightarrow> A_create_up_event st
      | H_send_config_ack \<Rightarrow> A_send_config_ack st
      | H_send_config_nak_rej \<Rightarrow> A_send_config_nak_rej st
      | H_send_terminate_request \<Rightarrow> A_send_terminate_request fsm env tim st
      | H_this_layer_up \<Rightarrow> A_this_layer_up fsm env st
      | H_this_layer_down \<Rightarrow> A_this_layer_down fsm tim st
      | H_init_restart_count \<Rightarrow> A_init_restart_count st
      | H_init_restart_config \<Rightarrow> A_init_restart_config env tim st
      | H_init_restart_termin \<Rightarrow> A_init_restart_termin env tim st
      | H_send_echo_reply \<Rightarrow> A_send_echo_reply st
      | H_zero_restart_count \<Rightarrow> A_zero_restart_count st
      | H_send_padt \<Rightarrow> A_send_padt fsm env st
      | H_create_close_to_lower_layer \<Rightarrow> A_create_close_to_lower_layer fsm tim st)"

text \<open>
  The handler loop. The handler array has ten places, closed by a null pointer; a handler may switch
  \<open>cp_id\<close>, and the loop then goes on in the row of the same index in the other table, as in the code.
\<close>

fun run_hdls :: "nat \<Rightarrow> fsm_call \<Rightarrow> ppp_env \<Rightarrow> ppp_timer \<Rightarrow> nat \<Rightarrow> nat \<Rightarrow> ppp_ccb \<Rightarrow> hdl_result" where
  "run_hdls 0 fsm env tim i j st = Some (SUCCESS, st)"
| "run_hdls (Suc k) fsm env tim i j st =
     (let hdl = row_hdl (ppp_fsm_tbl (cp_id st) ! i) in
      if j < length hdl
      then (case run_hdl fsm env tim (hdl ! j) (set_counter (cp_id st) 10 st) of
              None \<Rightarrow> None
            | Some (ERROR, st') \<Rightarrow> Some (ERROR, st')
            | Some (SUCCESS, st') \<Rightarrow> run_hdls k fsm env tim i (Suc j) st')
      else Some (SUCCESS, st))"

definition ppp_fsm_step :: "fsm_call \<Rightarrow> ppp_env \<Rightarrow> fsm_call" where
  "ppp_fsm_step fsm env tim ev st =
     (let tbl = ppp_fsm_tbl (cp_id st);
          s = cp_state st (cp_id st);
          i = find_state tbl s
      in if row_state (tbl ! i) = S_INVLD then Some (ERROR, st)
         else
           let i = find_event tbl s ev i
           in if row_state (tbl ! i) \<noteq> s then Some (SUCCESS, st)
              else run_hdls 10 fsm env tim i 0 (set_state (cp_id st) (row_next (tbl ! i)) st))"

fun PPP_FSM :: "nat \<Rightarrow> ppp_env \<Rightarrow> fsm_call" where
  "PPP_FSM 0 env tim ev st = None"
| "PPP_FSM (Suc n) env tim ev st = ppp_fsm_step (PPP_FSM n env) env tim ev st"

declare PPP_FSM.simps [simp del]

section \<open>Timer callbacks and keepalive\<close>

definition send_config_request_cb :: "fsm_call \<Rightarrow> ppp_timer \<Rightarrow> ppp_cp \<Rightarrow> ppp_ccb \<Rightarrow> hdl_result" where
  "send_config_request_cb fsm tim c st = A_send_config_request fsm tim (st\<lparr>cp_id := c\<rparr>)"

definition send_terminate_request_cb :: "fsm_call \<Rightarrow> ppp_env \<Rightarrow> ppp_timer \<Rightarrow> ppp_cp \<Rightarrow> ppp_ccb \<Rightarrow> hdl_result" where
  "send_terminate_request_cb fsm env tim c st = A_send_terminate_request fsm env tim (st\<lparr>cp_id := c\<rparr>)"

definition A_padi_timer_func :: "fsm_call \<Rightarrow> ppp_env \<Rightarrow> ppp_ccb \<Rightarrow> hdl_result" where
  "A_padi_timer_func fsm env st = pppoe_send_pkt fsm env ENCODE_PADI st"

definition A_padr_timer_func :: "fsm_call \<Rightarrow> ppp_env \<Rightarrow> ppp_ccb \<Rightarrow> hdl_result" where
  "A_padr_timer_func fsm env st = pppoe_send_pkt fsm env ENCODE_PADR st"

definition PPP_keepalive_cb :: "fsm_call \<Rightarrow> ppp_env \<Rightarrow> ppp_ccb \<Rightarrow> ppp_ccb option" where
  "PPP_keepalive_cb fsm env st =
     (if LCP_ECHO_MAX_FAIL \<le> echo_miss_count st then PPP_bye fsm env st
      else Some ((wan_ctrl_tx (build_echo_request env st) st)\<lparr>echo_miss_count := echo_miss_count st + 1\<rparr>))"

end
