(* ===== verification/Ppp_Table.thy ===== *)
theory Ppp_Table
  imports Ppp_Fsm
begin

text \<open>
  The search \<open>PPP_FSM\<close> runs over its tables (first row of the state, then the event within the rows
  that follow while the state lasts) is correct because each table is grouped by state. The locale
  \<open>state_table\<close> states that contract on a table given as blocks and derives the search results; it
  is interpreted on the LCP and the NCP table. The tables are then compared with the transition
  table of RFC 1661, section 4.1, the specification the sources name.
\<close>

section \<open>Grouped tables\<close>

type_synonym table_blocks = "(ppp_state \<times> tPPP_STATE_TBL list) list"

definition table_of :: "table_blocks \<Rightarrow> tPPP_STATE_TBL list" where
  "table_of blocks = concat (map snd blocks) @ [ROW S_INVLD E_UP S_INIT []]"

fun table_offset :: "table_blocks \<Rightarrow> ppp_state \<Rightarrow> nat" where
  "table_offset [] s = 0"
| "table_offset (b # bs) s = (if fst b = s then 0 else length (snd b) + table_offset bs s)"

definition two_phase_search :: "tPPP_STATE_TBL list \<Rightarrow> ppp_state \<Rightarrow> ppp_event \<Rightarrow> tPPP_STATE_TBL option" where
  "two_phase_search tbl s ev =
     (let i = find_state tbl s; j = find_event tbl s ev i in
      if row_state (tbl ! i) = S_INVLD \<or> row_state (tbl ! j) \<noteq> s then None else Some (tbl ! j))"

lemma takeWhile_all: "(\<And>x. x \<in> set xs \<Longrightarrow> P x) \<Longrightarrow> takeWhile P xs = xs"
  by (induction xs) auto

lemma find_takeWhile:
  "find P xs = (let k = length (takeWhile (\<lambda>x. \<not> P x) xs) in if k < length xs then Some (xs ! k) else None)"
  by (induction xs) (auto simp: Let_def)

lemma find_append: "find P (xs @ ys) = (case find P xs of None \<Rightarrow> find P ys | Some x \<Rightarrow> Some x)"
  by (induction xs) auto

lemma find_none: "(\<And>x. x \<in> set xs \<Longrightarrow> \<not> P x) \<Longrightarrow> find P xs = None"
  by (induction xs) auto

locale state_table =
  fixes blocks :: table_blocks
  assumes rows_state: "list_all (\<lambda>b. list_all (\<lambda>r. row_state r = fst b) (snd b)) blocks"
    and distinct_states: "distinct (map fst blocks)"
    and no_invalid: "list_all (\<lambda>b. fst b \<noteq> S_INVLD \<and> snd b \<noteq> []) blocks"
begin

lemma split_block:
  assumes "map_of blocks s = Some rs"
  obtains pre post where "blocks = pre @ (s, rs) # post" and "s \<notin> fst ` set pre" and "s \<notin> fst ` set post"
proof -
  obtain pre post where b: "blocks = pre @ (s, rs) # post" using map_of_SomeD [OF assms] by (meson split_list)
  with distinct_states show ?thesis by (intro that [OF b]) auto
qed

lemma offset_prefix: "s \<notin> fst ` set pre \<Longrightarrow> table_offset (pre @ post) s = length (concat (map snd pre)) + table_offset post s"
  by (induction pre) auto

lemma row_of_block: "b \<in> set blocks \<Longrightarrow> r \<in> set (snd b) \<Longrightarrow> row_state r = fst b"
  using rows_state by (auto simp: list_all_iff)

lemma concat_state:
  assumes "r \<in> set (concat (map snd bs))" and "set bs \<subseteq> set blocks"
  shows "row_state r \<in> fst ` set bs" and "row_state r \<noteq> S_INVLD"
proof -
  obtain b where b: "b \<in> set bs" "r \<in> set (snd b)" using assms(1) by auto
  with assms(2) have "row_state r = fst b" by (intro row_of_block) auto
  with b(1) show "row_state r \<in> fst ` set bs" by auto
  from b(1) assms(2) no_invalid have "fst b \<noteq> S_INVLD" by (auto simp: list_all_iff)
  with \<open>row_state r = fst b\<close> show "row_state r \<noteq> S_INVLD" by simp
qed

lemma block_start:
  assumes "map_of blocks s = Some rs"
  shows "find_state (table_of blocks) s = table_offset blocks s"
    and "\<exists>pre post. table_of blocks = pre @ rs @ post \<and> length pre = table_offset blocks s \<and>
      post \<noteq> [] \<and> (\<forall>r \<in> set pre \<union> set post. row_state r \<noteq> s)"
    and "rs \<noteq> []" and "\<forall>r \<in> set rs. row_state r = s" and "s \<noteq> S_INVLD"
proof -
  obtain pre post where b: "blocks = pre @ (s, rs) # post" "s \<notin> fst ` set pre" "s \<notin> fst ` set post"
    using split_block [OF assms] .
  show ne: "rs \<noteq> []" and inv: "s \<noteq> S_INVLD" using no_invalid b(1) by auto
  show rs: "\<forall>r \<in> set rs. row_state r = s" using row_of_block [of "(s, rs)"] b(1) by auto
  let ?pre = "concat (map snd pre)" and ?post = "concat (map snd post) @ [ROW S_INVLD E_UP S_INIT []]"
  have off: "table_offset blocks s = length ?pre" using offset_prefix [OF b(2)] b(1) by simp
  have tbl: "table_of blocks = ?pre @ rs @ ?post" by (simp add: table_of_def b(1))
  have pre: "row_state r \<noteq> s \<and> row_state r \<noteq> S_INVLD" if "r \<in> set ?pre" for r
    using concat_state [OF that] b(1,2) by auto
  moreover have "row_state r \<noteq> s" if "r \<in> set ?post" for r
    using that concat_state(1) [of r post] b(1,3) inv by auto
  ultimately have "table_of blocks = ?pre @ rs @ ?post \<and> length ?pre = table_offset blocks s \<and>
      ?post \<noteq> [] \<and> (\<forall>r \<in> set ?pre \<union> set ?post. row_state r \<noteq> s)"
    using off tbl inv by auto
  then show "\<exists>pre post. table_of blocks = pre @ rs @ post \<and> length pre = table_offset blocks s \<and>
      post \<noteq> [] \<and> (\<forall>r \<in> set pre \<union> set post. row_state r \<noteq> s)"
    by blast
  have "takeWhile (\<lambda>r. row_state r \<noteq> S_INVLD \<and> row_state r \<noteq> s) (rs @ ?post) = []"
    using ne rs by (cases rs) auto
  moreover have "takeWhile (\<lambda>r. row_state r \<noteq> S_INVLD \<and> row_state r \<noteq> s) (?pre @ rs @ ?post) =
      ?pre @ takeWhile (\<lambda>r. row_state r \<noteq> S_INVLD \<and> row_state r \<noteq> s) (rs @ ?post)"
    by (rule takeWhile_append2) (use pre in blast)
  ultimately show "find_state (table_of blocks) s = table_offset blocks s"
    unfolding find_state_def tbl off by simp
qed

lemma nth_block:
  assumes "map_of blocks s = Some rs" and "k < length rs"
  shows "table_of blocks ! (table_offset blocks s + k) = rs ! k"
proof -
  obtain pre post where "table_of blocks = pre @ rs @ post" "length pre = table_offset blocks s"
    using block_start(2) [OF assms(1)] by blast
  then show ?thesis using assms(2) by (simp add: nth_append)
qed

lemma event_search:
  fixes ev :: ppp_event
  assumes "map_of blocks s = Some rs"
  defines "k \<equiv> length (takeWhile (\<lambda>r. row_event r \<noteq> ev) rs)"
  shows "find_event (table_of blocks) s ev (table_offset blocks s) = table_offset blocks s + k"
    and "row_state (table_of blocks ! (table_offset blocks s + k)) = s \<longleftrightarrow> k < length rs"
proof -
  obtain pre post where t: "table_of blocks = pre @ rs @ post" "length pre = table_offset blocks s" "post \<noteq> []"
    "\<forall>r \<in> set pre \<union> set post. row_state r \<noteq> s"
    using block_start(2) [OF assms(1)] by blast
  have rs: "\<forall>r \<in> set rs. row_state r = s" by (rule block_start(4) [OF assms(1)])
  have "takeWhile (\<lambda>r. row_state r = s \<and> row_event r \<noteq> ev) (rs @ post) = takeWhile (\<lambda>r. row_event r \<noteq> ev) rs"
    using rs t(3,4) by (induction rs) (auto simp: neq_Nil_conv)
  then show "find_event (table_of blocks) s ev (table_offset blocks s) = table_offset blocks s + k"
    unfolding find_event_def t(2) [symmetric] t(1) k_def by simp
  have "k \<le> length rs" by (simp add: k_def length_takeWhile_le)
  moreover have "row_state (post ! 0) \<noteq> s" using t(3,4) by (cases post) auto
  moreover have "k < length rs \<Longrightarrow> row_state (rs ! k) = s" using rs by simp
  ultimately show "row_state (table_of blocks ! (table_offset blocks s + k)) = s \<longleftrightarrow> k < length rs"
    unfolding t(2) [symmetric] t(1) by (cases "k < length rs") (auto simp: nth_append)
qed

lemma unknown_state:
  assumes "map_of blocks s = None"
  shows "row_state (table_of blocks ! find_state (table_of blocks) s) = S_INVLD"
    and "row_state r = s \<Longrightarrow> s \<noteq> S_INVLD \<Longrightarrow> r \<notin> set (table_of blocks)"
proof -
  have all: "row_state r \<noteq> S_INVLD \<and> row_state r \<noteq> s" if "r \<in> set (concat (map snd blocks))" for r
    using concat_state [OF that] assms by (auto simp: map_of_eq_None_iff)
  have "takeWhile (\<lambda>r. row_state r \<noteq> S_INVLD \<and> row_state r \<noteq> s)
      (concat (map snd blocks) @ [ROW S_INVLD E_UP S_INIT []]) =
      concat (map snd blocks) @ takeWhile (\<lambda>r. row_state r \<noteq> S_INVLD \<and> row_state r \<noteq> s) [ROW S_INVLD E_UP S_INIT []]"
    by (rule takeWhile_append2) (rule all)
  then show "row_state (table_of blocks ! find_state (table_of blocks) s) = S_INVLD"
    by (simp add: find_state_def table_of_def)
  show "row_state r = s \<Longrightarrow> s \<noteq> S_INVLD \<Longrightarrow> r \<notin> set (table_of blocks)"
    using all by (auto simp: table_of_def)
qed

lemma search_is_find:
  assumes "s \<noteq> S_INVLD"
  shows "two_phase_search (table_of blocks) s ev =
    find (\<lambda>r. row_state r = s \<and> row_event r = ev) (table_of blocks)"
proof (cases "map_of blocks s")
  case None
  have "find (\<lambda>r. row_state r = s \<and> row_event r = ev) (table_of blocks) = None"
    by (rule find_none) (use unknown_state(2) [OF None _ assms] in auto)
  then show ?thesis by (simp add: two_phase_search_def Let_def unknown_state(1) [OF None])
next
  case (Some rs)
  let ?k = "length (takeWhile (\<lambda>r. row_event r \<noteq> ev) rs)"
  obtain pre post where t: "table_of blocks = pre @ rs @ post"
    "\<forall>r \<in> set pre \<union> set post. row_state r \<noteq> s" using block_start(2) [OF Some] by blast
  have "find (\<lambda>r. row_state r = s \<and> row_event r = ev) (table_of blocks) = find (\<lambda>r. row_event r = ev) rs"
  proof -
    have "find (\<lambda>r. row_state r = s \<and> row_event r = ev) rs = find (\<lambda>r. row_event r = ev) rs"
      using block_start(4) [OF Some] by (induction rs) auto
    moreover have "find (\<lambda>r. row_state r = s \<and> row_event r = ev) pre = None"
      "find (\<lambda>r. row_state r = s \<and> row_event r = ev) post = None" using t(2) by (auto intro: find_none)
    ultimately show ?thesis by (simp add: t(1) find_append split: option.splits)
  qed
  moreover have "row_state (table_of blocks ! table_offset blocks s) = s"
    using nth_block [OF Some, of 0] block_start(3,4) [OF Some] by simp
  ultimately show ?thesis
    using event_search [OF Some, of ev] nth_block [OF Some, of ?k] block_start(1) [OF Some] assms
    by (simp add: two_phase_search_def Let_def find_takeWhile)
qed

end

definition lcp_blocks :: table_blocks where
  "lcp_blocks = [(S_INIT, lcp_rows_init), (S_STARTING, lcp_rows_starting), (S_CLOSED, lcp_rows_closed),
     (S_STOPPED, lcp_rows_stopped), (S_CLOSING, lcp_rows_closing), (S_STOPPING, lcp_rows_stopping),
     (S_REQUEST_SENT, lcp_rows_request_sent), (S_ACK_RECEIVED, lcp_rows_ack_received),
     (S_ACK_SENT, lcp_rows_ack_sent), (S_OPENED, lcp_rows_opened)]"

definition ncp_blocks :: table_blocks where
  "ncp_blocks = [(S_INIT, ncp_rows_init), (S_STARTING, ncp_rows_starting), (S_CLOSED, ncp_rows_closed),
     (S_STOPPED, ncp_rows_stopped), (S_CLOSING, ncp_rows_closing), (S_STOPPING, ncp_rows_stopping),
     (S_REQUEST_SENT, ncp_rows_request_sent), (S_ACK_RECEIVED, ncp_rows_ack_received),
     (S_ACK_SENT, ncp_rows_ack_sent), (S_OPENED, ncp_rows_opened)]"

lemmas lcp_row_defs = lcp_rows_init_def lcp_rows_starting_def lcp_rows_closed_def lcp_rows_stopped_def
  lcp_rows_closing_def lcp_rows_stopping_def lcp_rows_request_sent_def lcp_rows_ack_received_def
  lcp_rows_ack_sent_def lcp_rows_opened_def

lemmas ncp_row_defs = ncp_rows_init_def ncp_rows_starting_def ncp_rows_closed_def ncp_rows_stopped_def
  ncp_rows_closing_def ncp_rows_stopping_def ncp_rows_request_sent_def ncp_rows_ack_received_def
  ncp_rows_ack_sent_def ncp_rows_opened_def

interpretation lcp: state_table lcp_blocks
  by unfold_locales (simp_all add: lcp_blocks_def lcp_row_defs)

interpretation ncp: state_table ncp_blocks
  by unfold_locales (simp_all add: ncp_blocks_def ncp_row_defs)

lemma table_of_lcp: "table_of lcp_blocks = ppp_fsm_tbl_lcp"
  by (simp add: table_of_def lcp_blocks_def ppp_fsm_tbl_lcp_def)

lemma table_of_ncp: "table_of ncp_blocks = ppp_fsm_tbl_ncp"
  by (simp add: table_of_def ncp_blocks_def ppp_fsm_tbl_ncp_def)

definition cp_blocks :: "ppp_cp \<Rightarrow> table_blocks" where
  "cp_blocks c = (case c of PPP_CP_LCP \<Rightarrow> lcp_blocks | PPP_CP_IPCP \<Rightarrow> ncp_blocks | PPP_CP_IPV6CP \<Rightarrow> ncp_blocks)"

lemma table_of_cp: "ppp_fsm_tbl c = table_of (cp_blocks c)"
  by (cases c) (simp_all add: ppp_fsm_tbl_def cp_blocks_def table_of_lcp table_of_ncp)

lemma state_table_cp: "state_table (cp_blocks c)"
  by (cases c) (simp_all add: cp_blocks_def lcp.state_table_axioms ncp.state_table_axioms)

section \<open>One step of the automaton\<close>

text \<open>What \<open>PPP_FSM\<close> does with an event: unknown state, event the state has no row for, or a row.\<close>

lemma ppp_fsm_step_cases:
  obtains (unknown) "ppp_fsm_step fsm env tim ev st = Some (ERROR, st)"
  | (ignored) "ppp_fsm_step fsm env tim ev st = Some (SUCCESS, st)"
      "two_phase_search (ppp_fsm_tbl (cp_id st)) (cp_state st (cp_id st)) ev = None"
  | (row) i nx hs where "ppp_fsm_tbl (cp_id st) ! i = ROW (cp_state st (cp_id st)) ev nx hs"
      "Suc i < length (ppp_fsm_tbl (cp_id st))"
      "ppp_fsm_step fsm env tim ev st = run_hdls 10 fsm env tim i 0 (set_state (cp_id st) nx st)"
proof -
  let ?c = "cp_id st" and ?s = "cp_state st (cp_id st)"
  show ?thesis
  proof (cases "map_of (cp_blocks ?c) ?s")
    case None
    from state_table.unknown_state(1) [OF state_table_cp None] show ?thesis
      by (intro unknown) (simp add: ppp_fsm_step_def Let_def table_of_cp)
  next
    case (Some rs)
    let ?k = "length (takeWhile (\<lambda>r. row_event r \<noteq> ev) rs)"
    let ?o = "table_offset (cp_blocks ?c) ?s"
    note b = state_table.block_start [OF state_table_cp Some]
    note e = state_table.event_search [OF state_table_cp Some, of ev]
    note nth = state_table.nth_block [OF state_table_cp Some]
    have first: "row_state (ppp_fsm_tbl ?c ! ?o) \<noteq> S_INVLD"
      using nth [of 0] b(3-5) by (simp add: table_of_cp)
    show ?thesis
    proof (cases "?k < length rs")
      case False
      then have "two_phase_search (ppp_fsm_tbl ?c) ?s ev = None"
        using e b(1) by (simp add: two_phase_search_def Let_def table_of_cp)
      with False e b(1) first show ?thesis
        by (intro ignored) (simp_all add: ppp_fsm_step_def Let_def table_of_cp)
    next
      case True
      have r: "ppp_fsm_tbl ?c ! (?o + ?k) = rs ! ?k" using nth [OF True] by (simp add: table_of_cp)
      have "row_event (rs ! ?k) = ev" using nth_length_takeWhile [OF True] by simp
      moreover have "row_state (rs ! ?k) = ?s" using b(4) True by simp
      ultimately have row': "ppp_fsm_tbl ?c ! (?o + ?k) = ROW ?s ev (row_next (rs ! ?k)) (row_hdl (rs ! ?k))"
        by (metis r tPPP_STATE_TBL.collapse)
      obtain pre post where "table_of (cp_blocks ?c) = pre @ rs @ post" "length pre = ?o" "post \<noteq> []"
        using b(2) by blast
      then have "Suc (?o + ?k) < length (ppp_fsm_tbl ?c)" using True by (cases post) (simp_all add: table_of_cp)
      with row' e b(1) first True show ?thesis
        by (intro row) (simp_all add: ppp_fsm_step_def Let_def table_of_cp)
    qed
  qed
qed

lemma search_in_block:
  "s \<noteq> S_INVLD \<Longrightarrow> two_phase_search (ppp_fsm_tbl c) s ev =
     (case map_of (cp_blocks c) s of None \<Rightarrow> None | Some rs \<Rightarrow> find (\<lambda>r. row_event r = ev) rs)"
proof (cases "map_of (cp_blocks c) s")
  case None
  then show ?thesis
    using state_table.unknown_state(1) [OF state_table_cp None] by (simp add: two_phase_search_def Let_def table_of_cp)
next
  case (Some rs)
  assume s: "s \<noteq> S_INVLD"
  note b = state_table.block_start [OF state_table_cp Some]
    and e = state_table.event_search [OF state_table_cp Some, of ev]
    and nth = state_table.nth_block [OF state_table_cp Some]
  have "row_state (table_of (cp_blocks c) ! table_offset (cp_blocks c) s) = s" using nth [of 0] b(3,4) by simp
  with s Some e b(1) nth [of "length (takeWhile (\<lambda>r. row_event r \<noteq> ev) rs)"] show ?thesis
    by (simp add: two_phase_search_def Let_def table_of_cp find_takeWhile)
qed

section \<open>Conformance with RFC 1661\<close>

text \<open>The state transition table of RFC 1661, section 4.1: \<open>None\<close> where the RFC has no transition.\<close>

definition rfc1661_next :: "ppp_state \<Rightarrow> ppp_event \<Rightarrow> ppp_state option" where
  "rfc1661_next s ev =
     (let below = s \<in> {S_INIT, S_STARTING}; nego = s \<in> {S_REQUEST_SENT, S_ACK_RECEIVED, S_ACK_SENT} in
      case ev of
        E_UP \<Rightarrow> (if s = S_INIT then Some S_CLOSED else if s = S_STARTING then Some S_REQUEST_SENT else None)
      | E_DOWN \<Rightarrow> (if below then None else if s \<in> {S_CLOSED, S_CLOSING} then Some S_INIT else Some S_STARTING)
      | E_OPEN \<Rightarrow> (if s = S_INIT then Some S_STARTING else if s = S_CLOSED then Some S_REQUEST_SENT
                  else if s = S_CLOSING then Some S_STOPPING else Some s)
      | E_CLOSE \<Rightarrow> (if below then Some S_INIT else if s \<in> {S_CLOSED, S_STOPPED} then Some S_CLOSED else Some S_CLOSING)
      | E_TIMEOUT_COUNTER_POSITIVE \<Rightarrow>
          (if s \<in> {S_CLOSING, S_STOPPING, S_ACK_SENT} then Some s else if nego then Some S_REQUEST_SENT else None)
      | E_TIMEOUT_COUNTER_EXPIRED \<Rightarrow>
          (if s = S_CLOSING then Some S_CLOSED else if s = S_STOPPING \<or> nego then Some S_STOPPED else None)
      | E_RECV_GOOD_CONFIG_REQUEST \<Rightarrow>
          (if below then None else if s \<in> {S_CLOSED, S_CLOSING, S_STOPPING} then Some s
           else if s = S_ACK_RECEIVED then Some S_OPENED else Some S_ACK_SENT)
      | E_RECV_BAD_CONFIG_REQUEST \<Rightarrow>
          (if below then None else if s \<in> {S_CLOSED, S_CLOSING, S_STOPPING, S_ACK_RECEIVED} then Some s
           else Some S_REQUEST_SENT)
      | E_RECV_CONFIG_ACK \<Rightarrow>
          (if below then None else if s = S_REQUEST_SENT then Some S_ACK_RECEIVED
           else if s = S_ACK_SENT then Some S_OPENED else if s \<in> {S_ACK_RECEIVED, S_OPENED} then Some S_REQUEST_SENT
           else Some s)
      | E_RECV_CONFIG_NAK_REJ \<Rightarrow>
          (if below then None else if s \<in> {S_ACK_RECEIVED, S_OPENED} then Some S_REQUEST_SENT else Some s)
      | E_RECV_TERMINATE_REQUEST \<Rightarrow>
          (if below then None else if nego then Some S_REQUEST_SENT else if s = S_OPENED then Some S_STOPPING else Some s)
      | E_RECV_TERMINATE_ACK \<Rightarrow>
          (if below then None else if s = S_CLOSING then Some S_CLOSED else if s = S_STOPPING then Some S_STOPPED
           else if s \<in> {S_ACK_RECEIVED, S_OPENED} then Some S_REQUEST_SENT else Some s)
      | E_RECV_UNKNOWN_CODE \<Rightarrow> (if below then None else Some s)
      | E_RECV_GOOD_CODE_PROTOCOL_REJECT \<Rightarrow>
          (if below then None else if s = S_ACK_RECEIVED then Some S_REQUEST_SENT else Some s)
      | E_RECV_BAD_CODE_PROTOCOL_REJECT \<Rightarrow>
          (if below then None else if s \<in> {S_CLOSED, S_CLOSING} then Some S_CLOSED
           else if s = S_OPENED then Some S_STOPPING else Some S_STOPPED)
      | E_RECV_ECHO_REQUEST \<Rightarrow> (if below then None else Some s)
      | E_RECV_ECHO_REPLY \<Rightarrow> (if below then None else Some s)
      | E_UNKNOWN \<Rightarrow> None)"

lemma lcp_conforms:
  "s \<noteq> S_INVLD \<Longrightarrow> map_option row_next (case map_of lcp_blocks s of None \<Rightarrow> None | Some rs \<Rightarrow> find (\<lambda>r. row_event r = ev) rs) =
     (if s = S_CLOSED \<and> ev = E_UP then Some S_CLOSED else rfc1661_next s ev)"
  by (cases s; cases ev) (simp_all add: lcp_blocks_def lcp_row_defs rfc1661_next_def)

lemma ncp_conforms:
  "s \<noteq> S_INVLD \<Longrightarrow> map_option row_next (case map_of ncp_blocks s of None \<Rightarrow> None | Some rs \<Rightarrow> find (\<lambda>r. row_event r = ev) rs) =
     rfc1661_next s ev"
  by (cases s; cases ev) (simp_all add: ncp_blocks_def ncp_row_defs rfc1661_next_def)

text \<open>
  The two-phase table search of \<open>PPP_FSM\<close> is exactly the first-match lookup of the pair of state
  and event in the whole table, for each of the three control protocols.
\<close>

theorem ppp_search_is_first_match:
  "\<forall>s. s = S_INVLD \<or> two_phase_search (ppp_fsm_tbl c) s ev =
     find (\<lambda>r. row_state r = s \<and> row_event r = ev) (ppp_fsm_tbl c)"
  using state_table.search_is_find [OF state_table_cp] by (auto simp: table_of_cp)

text \<open>
  C8: The tables are the RFC 1661 automaton: in every state and for every event, the row found has the
  next state of the RFC's table, and there is a row exactly where the RFC has a transition. The one
  addition is the LCP row that accepts Up in Closed.
\<close>

theorem ppp_tables_conform_rfc1661:
  "\<forall>s. s = S_INVLD \<or> map_option row_next (two_phase_search (ppp_fsm_tbl c) s ev) =
     (if c = PPP_CP_LCP \<and> s = S_CLOSED \<and> ev = E_UP then Some S_CLOSED else rfc1661_next s ev)"
proof -
  have "map_option row_next (two_phase_search (ppp_fsm_tbl c) s ev) =
      (if c = PPP_CP_LCP \<and> s = S_CLOSED \<and> ev = E_UP then Some S_CLOSED else rfc1661_next s ev)"
    if "s \<noteq> S_INVLD" for s
    using that by (cases c) (simp_all add: search_in_block cp_blocks_def lcp_conforms ncp_conforms)
  then show ?thesis by blast
qed

end
