(* ===== verification/Ppp_Term.thy ===== *)
theory Ppp_Term
  imports Ppp_Table
begin

text \<open>
  The nested calls of the automaton end. A handler that calls \<open>PPP_FSM\<close> again does so with Up, Down,
  Open or Close, and these calls are stratified: Up calls nothing, Close at most Down in Initial or
  Close in Closing, Down at most Close and Up, Open at most Down and Up, every other event at most
  these four. Six levels of fuel are enough for every state, event and environment, and more fuel
  changes nothing.
\<close>

section \<open>Handlers that call nothing\<close>

definition leaf_hdl :: "ppp_handler \<Rightarrow> bool" where
  "leaf_hdl h \<longleftrightarrow> h \<notin> {H_this_layer_start, H_this_layer_finish, H_create_down_event, H_this_layer_up,
     H_this_layer_down, H_create_close_to_lower_layer}"

lemmas leaf_defs = A_send_config_request_def A_send_terminate_ack_def A_send_code_reject_def
  A_create_up_event_def A_send_config_ack_def A_send_config_nak_rej_def A_send_terminate_request_def
  A_init_restart_count_def A_init_restart_config_def A_init_restart_termin_def A_send_echo_reply_def
  A_zero_restart_count_def A_send_padt_def

lemmas ccb_update_defs = emit_def rte_timer_stop_def rte_timer_reset_def wan_ctrl_tx_def upd_cp_def
  pppd_ipv6_dp_gate_update_def dhcp6_pd_stop_def dhcp6_clear_lease_def nd6_ra_stop_def stop_all_timers_def
  all_states_init_def bye_prologue_def restart_timer_def count_down_def ipv6cp_stop_def ppp_phase_rollback_def

lemma cp_id_updates [simp]:
  "cp_id (upd_cp c f st) = cp_id st" "cp_id (emit e st) = cp_id st" "cp_id (rte_timer_stop t st) = cp_id st"
  "cp_id (rte_timer_reset t n per c2 st) = cp_id st" "cp_id (wan_ctrl_tx fr st) = cp_id st"
  "cp_id (pppd_ipv6_dp_gate_update st) = cp_id st" "cp_id (dhcp6_pd_stop st) = cp_id st"
  "cp_id (stop_all_timers st) = cp_id st" "cp_id (all_states_init st) = cp_id st"
  "cp_id (bye_prologue st) = cp_id st" "cp_id (restart_timer cbk env tim st) = cp_id st"
  "cp_id (count_down st) = cp_id st" "cp_id (ipv6cp_stop st) = cp_id st" "cp_id (ppp_phase_rollback st) = cp_id st"
  by (simp_all add: ccb_update_defs Let_def)

lemma cp_id_exit_ppp [simp]: "cp_id (exit_ppp env st) = cp_id st"
  by (simp add: exit_ppp_def Let_def)

text \<open>The PADT path of \<open>PPP_bye\<close> goes from the discovery phase to the end and never closes LCP.\<close>

lemma PPP_bye_end: "phase st = END_PHASE \<Longrightarrow> PPP_bye fsm env st =
    Some (exit_ppp env ((bye_prologue st)\<lparr>ppp_bool := False, ppp_processing := False\<rparr>))"
  by (subst PPP_bye.simps) (simp add: Let_def)

lemma phase_all_states_init [simp]: "phase (all_states_init st) = phase st"
  by (simp add: all_states_init_def upd_cp_def)

lemma PPP_bye_pppoe: "phase st = PPPOE_PHASE \<Longrightarrow> PPP_bye fsm env st =
    PPP_bye fsm env (all_states_init ((bye_prologue st)\<lparr>phase := END_PHASE\<rparr>))"
  by (subst PPP_bye.simps) (simp add: Let_def)

lemma A_send_padt_Some:
  "\<exists>st'. A_send_padt fsm env st = Some (SUCCESS, st') \<and> cp_id st' = cp_id st"
  by (simp add: A_send_padt_def pppoe_send_pkt_def PPP_bye_pppoe PPP_bye_end)

lemma counter_set [simp]: "timer_counter (control_protocols (set_counter c n st) c) = n"
  by (simp add: upd_cp_def)

lemma leaf_total:
  assumes "leaf_hdl h"
  shows "\<exists>r st'. run_hdl fsm env tim h (set_counter (cp_id st) 10 st) = Some (r, st') \<and> cp_id st' = cp_id st"
  using assms A_send_padt_Some [of fsm env "set_counter (cp_id st) 10 st"]
  by (cases h) (auto simp: leaf_hdl_def run_hdl_def leaf_defs build_config_request_def Let_def split: option.splits)

lemma run_hdls_leaf_total:
  assumes "\<forall>h \<in> set (drop j (row_hdl (ppp_fsm_tbl (cp_id st) ! i))). leaf_hdl h"
  shows "run_hdls k fsm env tim i j st \<noteq> None"
  using assms
proof (induction k arbitrary: j st)
  case (Suc k)
  let ?hs = "row_hdl (ppp_fsm_tbl (cp_id st) ! i)"
  show ?case
  proof (cases "j < length ?hs")
    case True
    then have "leaf_hdl (?hs ! j)" using Suc.prems by (metis Cons_nth_drop_Suc list.set_intros(1))
    then obtain r st' where r: "run_hdl fsm env tim (?hs ! j) (set_counter (cp_id st) 10 st) = Some (r, st')"
      "cp_id st' = cp_id st" using leaf_total by blast
    have "\<forall>h \<in> set (drop (Suc j) ?hs). leaf_hdl h"
      using Suc.prems True by (metis Cons_nth_drop_Suc list.set_intros(2))
    with Suc.IH [of "Suc j" st'] r True show ?thesis by (simp add: Let_def split: status.splits)
  next
    case False
    then show ?thesis by (simp add: Let_def)
  qed
qed simp

section \<open>Facts about the rows\<close>

text \<open>
  Only the first handler of a row calls the automaton, except for this-layer-up; and where the event
  is Up, Down, Open or Close the rest of the row is call-free in both tables, so a switch of
  \<open>cp_id\<close> in the middle of the row is harmless.
\<close>

definition simple_event :: "ppp_event \<Rightarrow> bool" where
  "simple_event ev \<longleftrightarrow> ev = E_UP \<or> ev = E_DOWN \<or> ev = E_OPEN \<or> ev = E_CLOSE"

definition row_pair_ok :: "tPPP_STATE_TBL \<times> tPPP_STATE_TBL \<Rightarrow> bool" where
  "row_pair_ok p \<longleftrightarrow>
     (simple_event (row_event (fst p)) \<or> simple_event (row_event (snd p)) \<longrightarrow>
        list_all leaf_hdl (drop 1 (row_hdl (fst p))) \<and> list_all leaf_hdl (drop 1 (row_hdl (snd p))))"

lemma rows_pair_ok: "list_all row_pair_ok (zip ppp_fsm_tbl_lcp ppp_fsm_tbl_ncp)"
  by (simp add: ppp_fsm_tbl_lcp_def ppp_fsm_tbl_ncp_def lcp_row_defs ncp_row_defs row_pair_ok_def
      simple_event_def leaf_hdl_def)

lemma table_lengths: "length ppp_fsm_tbl_lcp = 130" "length ppp_fsm_tbl_ncp = 129"
  by (simp_all add: ppp_fsm_tbl_lcp_def ppp_fsm_tbl_ncp_def lcp_row_defs ncp_row_defs)

lemma simple_row_tail:
  assumes "simple_event (row_event (ppp_fsm_tbl c ! i))" and "Suc i < length (ppp_fsm_tbl c)"
  shows "\<forall>h \<in> set (drop 1 (row_hdl (ppp_fsm_tbl c' ! i))). leaf_hdl h"
proof -
  have i: "i < 129" using assms(2) by (cases c) (simp_all add: ppp_fsm_tbl_def table_lengths)
  then have "row_pair_ok (ppp_fsm_tbl_lcp ! i, ppp_fsm_tbl_ncp ! i)"
    using rows_pair_ok by (auto simp: list_all_length table_lengths)
  with assms(1) show ?thesis
    by (cases c; cases c') (auto simp: ppp_fsm_tbl_def row_pair_ok_def list_all_iff)
qed

text \<open>The first handler of a simple row, by event and state.\<close>

definition first_ok :: "tPPP_STATE_TBL \<Rightarrow> bool" where
  "first_ok r \<longleftrightarrow> (case row_hdl r of [] \<Rightarrow> True | h # _ \<Rightarrow>
     (row_event r = E_UP \<longrightarrow> leaf_hdl h) \<and>
     (row_event r = E_CLOSE \<longrightarrow> leaf_hdl h \<or> (h = H_this_layer_finish \<and> row_next r = S_INIT) \<or>
        (h = H_this_layer_down \<and> row_state r = S_OPENED \<and> row_next r = S_CLOSING)) \<and>
     (row_event r = E_DOWN \<longrightarrow> leaf_hdl h \<or> h = H_create_close_to_lower_layer \<or> h = H_this_layer_start \<or> h = H_this_layer_down) \<and>
     (row_event r = E_OPEN \<longrightarrow> leaf_hdl h \<or> h = H_this_layer_start \<or> h = H_create_down_event))"

lemma rows_first_ok: "list_all first_ok (ppp_fsm_tbl c)"
  by (cases c) (simp_all add: ppp_fsm_tbl_def ppp_fsm_tbl_lcp_def ppp_fsm_tbl_ncp_def lcp_row_defs ncp_row_defs
      first_ok_def leaf_hdl_def)

lemma init_has_no_down: "two_phase_search (ppp_fsm_tbl c) S_INIT E_DOWN = None"
  by (cases c) (simp_all add: search_in_block cp_blocks_def lcp_blocks_def ncp_blocks_def lcp_row_defs ncp_row_defs)

section \<open>The strata\<close>

lemma run_hdls_ten:
  "run_hdls 10 fsm env tim i j st =
     (let hdl = row_hdl (ppp_fsm_tbl (cp_id st) ! i) in
      if j < length hdl
      then (case run_hdl fsm env tim (hdl ! j) (set_counter (cp_id st) 10 st) of
              None \<Rightarrow> None
            | Some (ERROR, st') \<Rightarrow> Some (ERROR, st')
            | Some (SUCCESS, st') \<Rightarrow> run_hdls 9 fsm env tim i (Suc j) st')
      else Some (SUCCESS, st))"
  using run_hdls.simps(2) [of 9 fsm env tim i j st] by simp

definition fsm_total :: "fsm_call \<Rightarrow> (ppp_event \<Rightarrow> ppp_state \<Rightarrow> bool) \<Rightarrow> bool" where
  "fsm_total fsm P \<longleftrightarrow> (\<forall>tim ev st. P ev (cp_state st (cp_id st)) \<longrightarrow> fsm tim ev st \<noteq> None)"

lemma simple_row_total:
  assumes "ppp_fsm_tbl (cp_id st) ! i = ROW s ev nx hs" and "Suc i < length (ppp_fsm_tbl (cp_id st))"
    and "simple_event ev"
    and "\<And>h. hs \<noteq> [] \<Longrightarrow> h = hd hs \<Longrightarrow> \<not> leaf_hdl h \<Longrightarrow>
      run_hdl fsm env tim h (set_counter (cp_id st) 10 (set_state (cp_id st) nx st)) \<noteq> None"
  shows "run_hdls 10 fsm env tim i 0 (set_state (cp_id st) nx st) \<noteq> None"
proof (cases hs)
  case Nil
  with assms(1) show ?thesis by (simp add: run_hdls_ten Let_def)
next
  case (Cons h hs')
  let ?st = "set_state (cp_id st) nx st"
  have "run_hdl fsm env tim h (set_counter (cp_id st) 10 ?st) \<noteq> None"
  proof (cases "leaf_hdl h")
    case True
    from leaf_total [OF True, of fsm env tim ?st] show ?thesis by fastforce
  next
    case False
    show ?thesis by (rule assms(4)) (simp_all add: Cons False)
  qed
  then obtain r st' where r: "run_hdl fsm env tim h (set_counter (cp_id st) 10 ?st) = Some (r, st')"
    by (metis not_None_eq surj_pair)
  have "\<forall>h \<in> set (drop 1 (row_hdl (ppp_fsm_tbl (cp_id st') ! i))). leaf_hdl h"
    using simple_row_tail [of "cp_id st" i "cp_id st'"] assms(1-3) by simp
  from run_hdls_leaf_total [OF this, of 9 fsm env tim] r Cons assms(1) show ?thesis
    by (simp add: run_hdls_ten Let_def split: status.splits)
qed

lemma row_first_ok:
  assumes "ppp_fsm_tbl c ! i = ROW s ev nx hs" and "Suc i < length (ppp_fsm_tbl c)"
  shows "first_ok (ROW s ev nx hs)"
  using rows_first_ok [of c] assms by (simp add: list_all_length) (metis Suc_lessD)

text \<open>One stratum: a simple event is answered if the calls of the first handler are.\<close>

lemma simple_step_total:
  assumes "simple_event ev"
    and "\<And>nx h hs. first_ok (ROW (cp_state st (cp_id st)) ev nx (h # hs)) \<Longrightarrow> \<not> leaf_hdl h \<Longrightarrow>
      run_hdl fsm env tim h (set_counter (cp_id st) 10 (set_state (cp_id st) nx st)) \<noteq> None"
  shows "ppp_fsm_step fsm env tim ev st \<noteq> None"
proof (cases rule: ppp_fsm_step_cases [of fsm env tim ev st])
  case (row i nx hs)
  have "run_hdls 10 fsm env tim i 0 (set_state (cp_id st) nx st) \<noteq> None"
  proof (rule simple_row_total [OF row(1,2) assms(1)])
    fix h
    assume "hs \<noteq> []" and h: "h = hd hs" "\<not> leaf_hdl h"
    then have hs: "hs = h # tl hs" by simp
    have "first_ok (ROW (cp_state st (cp_id st)) ev nx (h # tl hs))"
      using row_first_ok [OF row(1,2)] hs by metis
    then show "run_hdl fsm env tim h (set_counter (cp_id st) 10 (set_state (cp_id st) nx st)) \<noteq> None"
      using h(2) by (rule assms(2))
  qed
  with row(3) show ?thesis by simp
qed simp_all

lemma fsm_totalD: "fsm_total fsm P \<Longrightarrow> P ev (cp_state st (cp_id st)) \<Longrightarrow> fsm tim ev st \<noteq> None"
  by (simp add: fsm_total_def)

lemma returning_success_Some [simp]:
  "(\<exists>a b. returning_success r = Some (a, b)) \<longleftrightarrow> (\<exists>a b. r = Some (a, b))"
  "returning_success r = None \<longleftrightarrow> r = None"
  by (cases r; force simp: returning_success_def)+

lemma cp_state_updates [simp]:
  "cp_state (pppd_ipv6_dp_gate_update st) = cp_state st" "cp_state (dhcp6_pd_stop st) = cp_state st"
  "cp_state (rte_timer_stop t st) = cp_state st" "cp_state (emit e st) = cp_state st"
  "cp_state (wan_ctrl_tx fr st) = cp_state st" "cp_state (rte_timer_reset t n per c st) = cp_state st"
  "cp_state (st\<lparr>dp_start_bool := b\<rparr>) = cp_state st" "cp_state (st\<lparr>ipv6cp_up := b\<rparr>) = cp_state st"
  "cp_state (st\<lparr>config_request_pending := q\<rparr>) = cp_state st" "cp_state (st\<lparr>phase := ph\<rparr>) = cp_state st"
  "cp_state (st\<lparr>cp_id := c'\<rparr>) = cp_state st" "cp_state (st\<lparr>ppp_processing := b\<rparr>) = cp_state st"
  by (rule ext, simp add: cp_state_def ccb_update_defs Let_def)+

lemma up_total: "ppp_fsm_step fsm env tim E_UP st \<noteq> None"
  by (rule simple_step_total) (auto simp: simple_event_def first_ok_def)

lemma down_init_total: "cp_state st (cp_id st) = S_INIT \<Longrightarrow> ppp_fsm_step fsm env tim E_DOWN st \<noteq> None"
proof (cases rule: ppp_fsm_step_cases [of fsm env tim E_DOWN st])
  case (row i nx hs)
  assume s: "cp_state st (cp_id st) = S_INIT"
  let ?P = "\<lambda>r. row_state r = S_INIT \<and> row_event r = E_DOWN"
  have "find ?P (ppp_fsm_tbl (cp_id st)) = None"
    using state_table.search_is_find [OF state_table_cp, of S_INIT "cp_id st" E_DOWN] init_has_no_down
    by (simp add: table_of_cp)
  then have "\<forall>r \<in> set (ppp_fsm_tbl (cp_id st)). \<not> ?P r" by (auto simp: find_None_iff)
  moreover have "ppp_fsm_tbl (cp_id st) ! i \<in> set (ppp_fsm_tbl (cp_id st))" using row(2) by (intro nth_mem) simp
  ultimately show ?thesis using row(1) s by fastforce
qed simp_all

lemma layer_down_total:
  assumes "\<And>st'. cp_id st' = cp_id st \<Longrightarrow> cp_state st' (cp_id st) = cp_state st (cp_id st) \<Longrightarrow> fsm tim E_CLOSE st' \<noteq> None"
  shows "A_this_layer_down fsm tim st \<noteq> None"
  using assms by (cases "cp_id st") (auto simp: A_this_layer_down_def Let_def)

lemma close_total_below:
  assumes "fsm_total fsm (\<lambda>ev s. ev = E_DOWN \<and> s = S_INIT)" and "cp_state st (cp_id st) \<noteq> S_OPENED"
  shows "ppp_fsm_step fsm env tim E_CLOSE st \<noteq> None"
proof (rule simple_step_total)
  fix nx h hs
  assume "first_ok (ROW (cp_state st (cp_id st)) E_CLOSE nx (h # hs))" and "\<not> leaf_hdl h"
  with assms(2) have "h = H_this_layer_finish" "nx = S_INIT" by (auto simp: first_ok_def)
  then show "run_hdl fsm env tim h (set_counter (cp_id st) 10 (set_state (cp_id st) nx st)) \<noteq> None"
    using fsm_totalD [OF assms(1)]
    by (simp add: run_hdl_def A_this_layer_finish_def A_create_close_to_lower_layer_def upd_cp_def cp_state_def)
qed (simp add: simple_event_def)

lemma close_total:
  assumes "fsm_total fsm (\<lambda>ev s. ev = E_DOWN \<and> s = S_INIT \<or> ev = E_CLOSE \<and> s \<noteq> S_OPENED)"
  shows "ppp_fsm_step fsm env tim E_CLOSE st \<noteq> None"
proof (cases "cp_state st (cp_id st) = S_OPENED")
  case False
  have "fsm_total fsm (\<lambda>ev s. ev = E_DOWN \<and> s = S_INIT)" using assms by (auto simp: fsm_total_def)
  then show ?thesis using False by (rule close_total_below)
next
  case True
  show ?thesis
  proof (rule simple_step_total)
    fix nx h hs
    assume f: "first_ok (ROW (cp_state st (cp_id st)) E_CLOSE nx (h # hs))" and "\<not> leaf_hdl h"
    then consider "h = H_this_layer_finish" "nx = S_INIT" | "h = H_this_layer_down" "nx = S_CLOSING"
      by (auto simp: first_ok_def)
    then show "run_hdl fsm env tim h (set_counter (cp_id st) 10 (set_state (cp_id st) nx st)) \<noteq> None"
    proof cases
      case 1
      then show ?thesis using fsm_totalD [OF assms]
        by (simp add: run_hdl_def A_this_layer_finish_def A_create_close_to_lower_layer_def upd_cp_def cp_state_def)
    next
      case 2
      let ?st = "set_counter (cp_id st) 10 (set_state (cp_id st) S_CLOSING st)"
      have "A_this_layer_down fsm tim ?st \<noteq> None"
      proof (rule layer_down_total)
        fix st' :: ppp_ccb
        assume "cp_id st' = cp_id ?st" and "cp_state st' (cp_id ?st) = cp_state ?st (cp_id ?st)"
        then have "cp_state st' (cp_id st') = S_CLOSING" by (simp add: cp_state_def upd_cp_def)
        then show "fsm tim E_CLOSE st' \<noteq> None" by (intro fsm_totalD [OF assms]) simp
      qed
      with 2 show ?thesis by (simp add: run_hdl_def)
    qed
  qed (simp add: simple_event_def)
qed

lemma down_total:
  assumes "fsm_total fsm (\<lambda>ev s. ev = E_UP \<or> ev = E_CLOSE)"
  shows "ppp_fsm_step fsm env tim E_DOWN st \<noteq> None"
proof (rule simple_step_total)
  fix nx h hs
  assume "first_ok (ROW (cp_state st (cp_id st)) E_DOWN nx (h # hs))" and "\<not> leaf_hdl h"
  then consider "h = H_create_close_to_lower_layer" | "h = H_this_layer_start" | "h = H_this_layer_down"
    by (auto simp: first_ok_def)
  then show "run_hdl fsm env tim h (set_counter (cp_id st) 10 (set_state (cp_id st) nx st)) \<noteq> None"
  proof cases
    case 3
    then show ?thesis using fsm_totalD [OF assms] layer_down_total by (simp add: run_hdl_def)
  qed (use fsm_totalD [OF assms] in \<open>simp_all add: run_hdl_def A_create_close_to_lower_layer_def A_this_layer_start_def\<close>)
qed (simp add: simple_event_def)

lemma open_total:
  assumes "fsm_total fsm (\<lambda>ev s. ev = E_UP \<or> ev = E_DOWN)"
  shows "ppp_fsm_step fsm env tim E_OPEN st \<noteq> None"
proof (rule simple_step_total)
  fix nx h hs
  assume "first_ok (ROW (cp_state st (cp_id st)) E_OPEN nx (h # hs))" and "\<not> leaf_hdl h"
  then have "h = H_this_layer_start \<or> h = H_create_down_event" by (auto simp: first_ok_def)
  then show "run_hdl fsm env tim h (set_counter (cp_id st) 10 (set_state (cp_id st) nx st)) \<noteq> None"
    using fsm_totalD [OF assms] by (auto simp: run_hdl_def A_this_layer_start_def A_create_down_event_def)
qed (simp add: simple_event_def)

section \<open>Every event\<close>

lemma open_ncps_total:
  assumes "fsm_total fsm (\<lambda>ev s. ev = E_OPEN)"
  shows "open_ncps fsm env st \<noteq> None"
proof -
  have f: "fsm tim E_OPEN st' \<noteq> None" for tim st' by (rule fsm_totalD [OF assms]) simp
  obtain r st1 where r: "fsm TIM_PPP E_OPEN (st\<lparr>cp_id := PPP_CP_IPCP, phase := IPCP_PHASE\<rparr>) = Some (r, st1)"
    using f by (metis not_None_eq surj_pair)
  show ?thesis
    using r f [of TIM_PPP_IPV6CP "(ppp_ipv6cp_iid_init env st1)\<lparr>cp_id := PPP_CP_IPV6CP\<rparr>"]
    by (auto simp: open_ncps_def)
qed

lemma hdl_total:
  assumes "fsm_total fsm (\<lambda>ev s. simple_event ev)"
  shows "run_hdl fsm env tim h (set_counter (cp_id st) 10 st) \<noteq> None"
proof (cases "leaf_hdl h")
  case True
  from leaf_total [OF True] show ?thesis by fastforce
next
  case False
  have f: "fsm tim ev st' \<noteq> None" if "simple_event ev" for tim ev st' using that by (rule fsm_totalD [OF assms])
  have o: "open_ncps fsm env st' \<noteq> None" for st'
    using f by (intro open_ncps_total) (simp add: fsm_total_def simple_event_def)
  have "A_this_layer_up fsm env st' \<noteq> None" for st'
    using o by (simp add: A_this_layer_up_def lcp_layer_up_def ipcp_layer_up_def ipv6cp_layer_up_def Let_def
        split: prod.splits)
  moreover have "A_this_layer_down fsm tim st' \<noteq> None" for st'
    using f by (intro layer_down_total) (simp add: simple_event_def)
  ultimately show ?thesis using False f
    by (cases h) (simp_all add: leaf_hdl_def run_hdl_def A_this_layer_start_def A_this_layer_finish_def
        A_create_down_event_def A_create_close_to_lower_layer_def simple_event_def)
qed

lemma run_hdls_total:
  assumes "fsm_total fsm (\<lambda>ev s. simple_event ev)"
  shows "run_hdls k fsm env tim i j st \<noteq> None"
proof (induction k arbitrary: j st)
  case (Suc k)
  let ?h = "row_hdl (ppp_fsm_tbl (cp_id st) ! i) ! j"
  obtain r st' where "run_hdl fsm env tim ?h (set_counter (cp_id st) 10 st) = Some (r, st')"
    using hdl_total [OF assms] by (metis not_None_eq surj_pair)
  with Suc.IH [of "Suc j" st'] show ?case by (simp add: Let_def split: status.splits)
qed simp

lemma step_total:
  assumes "fsm_total fsm (\<lambda>ev s. simple_event ev)"
  shows "ppp_fsm_step fsm env tim ev st \<noteq> None"
  using run_hdls_total [OF assms]
  by (cases rule: ppp_fsm_step_cases [of fsm env tim ev st]) auto

lemma PPP_FSM_Suc: "PPP_FSM (Suc n) env = ppp_fsm_step (PPP_FSM n env) env"
  by (intro ext) (simp add: PPP_FSM.simps)

lemma PPP_FSM_strata:
  "fsm_total (PPP_FSM (Suc n) env) (\<lambda>ev s. ev = E_UP \<or> ev = E_DOWN \<and> s = S_INIT)"
  "fsm_total (PPP_FSM (Suc (Suc n)) env) (\<lambda>ev s. ev = E_CLOSE \<and> s \<noteq> S_OPENED)"
  "fsm_total (PPP_FSM (Suc (Suc (Suc n))) env) (\<lambda>ev s. ev = E_CLOSE)"
  "fsm_total (PPP_FSM (Suc (Suc (Suc (Suc n)))) env) (\<lambda>ev s. ev = E_DOWN)"
  "fsm_total (PPP_FSM (Suc (Suc (Suc (Suc (Suc n))))) env) (\<lambda>ev s. ev = E_OPEN)"
proof -
  have up: "fsm_total (PPP_FSM (Suc n) env) (\<lambda>ev s. ev = E_UP \<or> ev = E_DOWN \<and> s = S_INIT)" for n
    using up_total down_init_total by (auto simp: fsm_total_def PPP_FSM_Suc)
  then have down_init: "fsm_total (PPP_FSM (Suc n) env) (\<lambda>ev s. ev = E_DOWN \<and> s = S_INIT)" for n
    by (simp add: fsm_total_def)
  have close_low: "fsm_total (PPP_FSM (Suc (Suc n)) env) (\<lambda>ev s. ev = E_CLOSE \<and> s \<noteq> S_OPENED)" for n
    using close_total_below [OF down_init [of n]] by (auto simp: fsm_total_def PPP_FSM_Suc [of "Suc n"])
  have close: "fsm_total (PPP_FSM (Suc (Suc (Suc n))) env) (\<lambda>ev s. ev = E_CLOSE)" for n
  proof -
    have "fsm_total (PPP_FSM (Suc (Suc n)) env) (\<lambda>ev s. ev = E_DOWN \<and> s = S_INIT \<or> ev = E_CLOSE \<and> s \<noteq> S_OPENED)"
      using down_init [of "Suc n"] close_low [of n] by (auto simp: fsm_total_def)
    from close_total [OF this] show ?thesis by (auto simp: fsm_total_def PPP_FSM_Suc [of "Suc (Suc n)"])
  qed
  have down: "fsm_total (PPP_FSM (Suc (Suc (Suc (Suc n)))) env) (\<lambda>ev s. ev = E_DOWN)" for n
  proof -
    have "fsm_total (PPP_FSM (Suc (Suc (Suc n))) env) (\<lambda>ev s. ev = E_UP \<or> ev = E_CLOSE)"
      using up [of "Suc (Suc n)"] close [of n] by (auto simp: fsm_total_def)
    from down_total [OF this] show ?thesis by (auto simp: fsm_total_def PPP_FSM_Suc [of "Suc (Suc (Suc n))"])
  qed
  have opn: "fsm_total (PPP_FSM (Suc (Suc (Suc (Suc (Suc n))))) env) (\<lambda>ev s. ev = E_OPEN)"
  proof -
    have "fsm_total (PPP_FSM (Suc (Suc (Suc (Suc n)))) env) (\<lambda>ev s. ev = E_UP \<or> ev = E_DOWN)"
      using up [of "Suc (Suc (Suc n))"] down [of n] by (auto simp: fsm_total_def)
    from open_total [OF this] show ?thesis by (auto simp: fsm_total_def PPP_FSM_Suc [of "Suc (Suc (Suc (Suc n)))"])
  qed
  show "fsm_total (PPP_FSM (Suc n) env) (\<lambda>ev s. ev = E_UP \<or> ev = E_DOWN \<and> s = S_INIT)"
    "fsm_total (PPP_FSM (Suc (Suc n)) env) (\<lambda>ev s. ev = E_CLOSE \<and> s \<noteq> S_OPENED)"
    "fsm_total (PPP_FSM (Suc (Suc (Suc n))) env) (\<lambda>ev s. ev = E_CLOSE)"
    "fsm_total (PPP_FSM (Suc (Suc (Suc (Suc n)))) env) (\<lambda>ev s. ev = E_DOWN)"
    "fsm_total (PPP_FSM (Suc (Suc (Suc (Suc (Suc n))))) env) (\<lambda>ev s. ev = E_OPEN)"
    by (rule up close_low close down opn)+
qed

lemma PPP_FSM_total: "PPP_FSM (n + 6) env tim ev st \<noteq> None"
proof -
  have six: "n + 6 = Suc (n + 5)" "n + 5 = Suc (Suc (Suc (Suc (Suc n))))" by simp_all
  have up: "PPP_FSM (n + 5) env tim E_UP st \<noteq> None" for tim st
    unfolding six(2) by (rule fsm_totalD [OF PPP_FSM_strata(1)]) simp
  have close: "PPP_FSM (n + 5) env tim E_CLOSE st \<noteq> None" for tim st
    unfolding six(2) by (rule fsm_totalD [OF PPP_FSM_strata(3)]) simp
  have down: "PPP_FSM (n + 5) env tim E_DOWN st \<noteq> None" for tim st
    unfolding six(2) by (rule fsm_totalD [OF PPP_FSM_strata(4)]) simp
  have opn: "PPP_FSM (n + 5) env tim E_OPEN st \<noteq> None" for tim st
    unfolding six(2) by (rule fsm_totalD [OF PPP_FSM_strata(5)]) simp
  have "fsm_total (PPP_FSM (n + 5) env) (\<lambda>ev s. simple_event ev)"
    unfolding fsm_total_def simple_event_def by (intro allI impI) (elim disjE; simp only: up close down opn not_False_eq_True)
  then show ?thesis unfolding six(1) PPP_FSM_Suc by (rule step_total)
qed

section \<open>More fuel changes nothing\<close>

definition fsm_le :: "fsm_call \<Rightarrow> fsm_call \<Rightarrow> bool" where
  "fsm_le f g \<longleftrightarrow> (\<forall>tim ev st r. f tim ev st = Some r \<longrightarrow> g tim ev st = Some r)"

lemma fsm_leD: "fsm_le f g \<Longrightarrow> f tim ev st = Some r \<Longrightarrow> g tim ev st = Some r"
  unfolding fsm_le_def by blast

lemma returning_success_mono:
  "fsm_le f g \<Longrightarrow> returning_success (f tim ev st) = Some r \<Longrightarrow> returning_success (g tim ev st) = Some r"
  by (auto simp: returning_success_def dest: fsm_leD)

lemma PPP_bye_mono:
  assumes "fsm_le f g" and "PPP_bye f env st = Some st'"
  shows "PPP_bye g env st = Some st'"
proof -
  have close: "lcp_close f s = Some st' \<Longrightarrow> lcp_close g s = Some st'" for s
    by (auto simp: lcp_close_def dest: fsm_leD [OF assms(1)])
  consider "phase st = END_PHASE" | "phase st = PPPOE_PHASE" | "phase st \<noteq> END_PHASE" "phase st \<noteq> PPPOE_PHASE" by blast
  then show ?thesis
  proof cases
    case 1
    with assms(2) show ?thesis by (simp add: PPP_bye_end)
  next
    case 2
    with assms(2) show ?thesis by (simp add: PPP_bye_pppoe PPP_bye_end)
  next
    case 3
    with assms(2) close show ?thesis
      by (subst PPP_bye.simps) (subst (asm) PPP_bye.simps, auto simp: Let_def split: if_splits)
  qed
qed

lemma pppoe_send_pkt_mono:
  assumes "fsm_le f g" and "pppoe_send_pkt f env enc st = Some r"
  shows "pppoe_send_pkt g env enc st = Some r"
proof -
  note bye = PPP_bye_mono [OF assms(1)]
  show ?thesis
  proof (cases enc)
    case ENCODE_PADI
    with assms(2) show ?thesis by (simp add: pppoe_send_pkt_def)
  next
    case ENCODE_PADR
    with assms(2) show ?thesis
      by (auto simp: pppoe_send_pkt_def Let_def dest: bye split: option.splits prod.splits if_splits)
  next
    case ENCODE_PADT
    with assms(2) show ?thesis by (auto simp: pppoe_send_pkt_def dest: bye)
  qed
qed

lemma open_ncps_mono:
  assumes "fsm_le f g" and "open_ncps f env st = Some st'"
  shows "open_ncps g env st = Some st'"
proof -
  let ?ip = "st\<lparr>cp_id := PPP_CP_IPCP, phase := IPCP_PHASE\<rparr>"
  obtain r st1 where f: "f TIM_PPP E_OPEN ?ip = Some (r, st1)"
    using assms(2) by (auto simp: open_ncps_def split: option.splits)
  note g = fsm_leD [OF assms(1) f]
  show ?thesis using assms(2) f g
    by (auto simp: open_ncps_def split: option.splits if_splits dest: fsm_leD [OF assms(1)])
qed

lemma run_hdl_mono:
  assumes "fsm_le f g" and "run_hdl f env tim h st = Some r"
  shows "run_hdl g env tim h st = Some r"
proof -
  note rs = returning_success_mono [OF assms(1)]
  show ?thesis
  proof (cases h)
    case H_this_layer_up
    with assms(2) show ?thesis
      by (auto simp: run_hdl_def A_this_layer_up_def lcp_layer_up_def Let_def
          dest: open_ncps_mono [OF assms(1)] split: if_splits)
  next
    case H_this_layer_down
    with assms(2) show ?thesis
      by (auto simp: run_hdl_def A_this_layer_down_def Let_def dest: rs fsm_leD [OF assms(1)] split: ppp_cp.splits)
  next
    case H_send_padt
    with assms(2) show ?thesis
      by (auto simp: run_hdl_def A_send_padt_def dest: pppoe_send_pkt_mono [OF assms(1)])
  qed (use assms(2) in \<open>auto simp: run_hdl_def A_this_layer_start_def A_send_config_request_def A_this_layer_finish_def
      A_create_down_event_def A_send_terminate_request_def A_create_close_to_lower_layer_def dest: rs split: if_splits\<close>)
qed

lemma run_hdls_mono:
  assumes "fsm_le f g" and "run_hdls k f env tim i j st = Some r"
  shows "run_hdls k g env tim i j st = Some r"
  using assms(2)
proof (induction k arbitrary: j st)
  case (Suc k)
  let ?hs = "row_hdl (ppp_fsm_tbl (cp_id st) ! i)"
  show ?case
  proof (cases "j < length ?hs")
    case True
    then obtain s st' where h: "run_hdl f env tim (?hs ! j) (set_counter (cp_id st) 10 st) = Some (s, st')"
      using Suc.prems by (auto simp: Let_def split: option.splits)
    note h' = run_hdl_mono [OF assms(1) h]
    show ?thesis
    proof (cases s)
      case ERROR
      with Suc.prems True h h' show ?thesis by (auto simp: Let_def)
    next
      case SUCCESS
      with Suc.prems Suc.IH [of "Suc j" st'] True h h' show ?thesis by (simp add: Let_def)
    qed
  next
    case False
    with Suc.prems show ?thesis by (simp add: Let_def)
  qed
qed simp

lemma step_mono: "fsm_le f g \<Longrightarrow> fsm_le (ppp_fsm_step f env) (ppp_fsm_step g env)"
  by (auto simp: fsm_le_def ppp_fsm_step_def Let_def run_hdls_mono [unfolded fsm_le_def])

lemma PPP_FSM_mono: "fsm_le (PPP_FSM n env) (PPP_FSM (Suc n) env)"
proof (induction n)
  case 0
  then show ?case by (simp add: fsm_le_def PPP_FSM.simps(1))
next
  case (Suc n)
  then show ?case by (simp only: PPP_FSM_Suc) (rule step_mono)
qed

lemma PPP_FSM_fuel: "PPP_FSM n env tim ev st = Some r \<Longrightarrow> PPP_FSM (n + k) env tim ev st = Some r"
proof (induction k)
  case (Suc k)
  then show ?case using fsm_leD [OF PPP_FSM_mono, of "n + k"] by simp
qed simp

text \<open>
  C9: The nested calls of the automaton always end, for every state, event, timer and environment: six
  levels are enough and any larger amount of fuel gives the same result.
\<close>

theorem ppp_fsm_terminates: "\<exists>r. \<forall>k. PPP_FSM (6 + k) env tim ev st = Some r"
proof -
  obtain r where "PPP_FSM 6 env tim ev st = Some r"
    using PPP_FSM_total [of 0 env tim ev st] unfolding add_0 not_None_eq by blast
  then show ?thesis using PPP_FSM_fuel by blast
qed

end
