(* ===== verification/Dhcp6.thy ===== *)
theory Dhcp6
  imports Ppp_Fsm
begin

text \<open>
  The DHCPv6 prefix-delegation client (\<^verbatim>\<open>src/src/dhcpd6/dhcpd6.c\<close>): parsing of Advertise and Reply
  messages, the client's state machine, its retransmission timer and the IPv6 input filter in front
  of it. Starting, stopping and the message builder are in \<open>Ppp_State\<close>, because the PPP automaton
  calls them.
\<close>

section \<open>Reading the wire\<close>

text \<open>What \<open>rte_memcpy\<close> into a 16- or 32-bit variable leaves there on the little-endian target.\<close>

definition load16 :: "u8 list \<Rightarrow> u16" where
  "load16 bs = ucast (bs ! 0) OR push_bit 8 (ucast (bs ! 1))"

definition load32 :: "u8 list \<Rightarrow> u32" where
  "load32 bs = ucast (bs ! 0) OR push_bit 8 (ucast (bs ! 1)) OR push_bit 16 (ucast (bs ! 2)) OR push_bit 24 (ucast (bs ! 3))"

definition dhcp6_read_be16 :: "u8 list \<Rightarrow> u16" where
  "dhcp6_read_be16 p = rte_be_to_cpu_16 (load16 p)"

definition dhcp6_read_be32 :: "u8 list \<Rightarrow> u32" where
  "dhcp6_read_be32 p = rte_be_to_cpu_32 (load32 p)"

section \<open>Parsing\<close>

record dhcp6_response =
  resp_server_duid :: "u8 list"
  resp_t1 :: u32
  resp_prefix :: "u8 list"
  resp_prefix_plen :: u8
  resp_dns :: "u8 list list"
  resp_no_prefix :: bool

definition dhcp6_response_zero :: dhcp6_response where
  "dhcp6_response_zero = \<lparr>resp_server_duid = [], resp_t1 = 0, resp_prefix = replicate 16 0, resp_prefix_plen = 0,
     resp_dns = replicate 2 (replicate 16 0), resp_no_prefix = False\<rparr>"

abbreviation DHCP6_OPT_CLIENTID :: u16 where "DHCP6_OPT_CLIENTID \<equiv> 1"
abbreviation DHCP6_OPT_SERVERID :: u16 where "DHCP6_OPT_SERVERID \<equiv> 2"
abbreviation DHCP6_OPT_STATUS :: u16 where "DHCP6_OPT_STATUS \<equiv> 13"
abbreviation DHCP6_OPT_DNS_SERVERS :: u16 where "DHCP6_OPT_DNS_SERVERS \<equiv> 23"
abbreviation DHCP6_OPT_IA_PD :: u16 where "DHCP6_OPT_IA_PD \<equiv> 25"
abbreviation DHCP6_OPT_IAPREFIX :: u16 where "DHCP6_OPT_IAPREFIX \<equiv> 26"
abbreviation DHCP6_STATUS_NO_PREFIX :: u16 where "DHCP6_STATUS_NO_PREFIX \<equiv> 6"
abbreviation DHCP6_PD_PLEN :: u8 where "DHCP6_PD_PLEN \<equiv> 56"
abbreviation DHCP6_LAN_PLEN :: u8 where "DHCP6_LAN_PLEN \<equiv> 64"
abbreviation DHCP6_DEFAULT_T1 :: u32 where "DHCP6_DEFAULT_T1 \<equiv> 21600"

text \<open>One option of a list: its code, its value and what follows; \<open>None\<close> when it is truncated.\<close>

definition dhcp6_next_option :: "u8 list \<Rightarrow> (u16 \<times> u8 list \<times> u8 list) option" where
  "dhcp6_next_option bytes =
     (if length bytes < 4 then None
      else let n = unat (dhcp6_read_be16 (drop 2 bytes))
           in if length bytes - 4 < n then None
              else Some (dhcp6_read_be16 bytes, take n (drop 4 bytes), drop (4 + n) bytes))"

lemma dhcp6_next_option_shorter:
  "dhcp6_next_option bytes = Some (c, v, rest) \<Longrightarrow> length rest < length bytes"
  by (auto simp: dhcp6_next_option_def Let_def split: if_splits)

function dhcp6_ia_pd_options :: "u8 list \<Rightarrow> bool \<Rightarrow> dhcp6_response \<Rightarrow> (bool \<times> dhcp6_response) option" where
  "dhcp6_ia_pd_options bytes has_prefix r =
     (if bytes = [] then Some (has_prefix, r)
      else case dhcp6_next_option bytes of
          None \<Rightarrow> None
        | Some (code, val, rest) \<Rightarrow>
            if code = DHCP6_OPT_STATUS
            then if length val < 2 then None
                 else dhcp6_ia_pd_options rest has_prefix
                        (if dhcp6_read_be16 val = DHCP6_STATUS_NO_PREFIX then r\<lparr>resp_no_prefix := True\<rparr> else r)
            else if code = DHCP6_OPT_IAPREFIX
            then if has_prefix \<or> length val \<noteq> 25 then None
                 else if val ! 8 \<noteq> DHCP6_PD_PLEN then None
                 else dhcp6_ia_pd_options rest True
                        (r\<lparr>resp_prefix := take 16 (drop 9 val), resp_prefix_plen := val ! 8\<rparr>)
            else dhcp6_ia_pd_options rest has_prefix r)"
  by pat_completeness auto
termination
  by (relation "measure (\<lambda>(bytes, _). length bytes)") (auto dest: dhcp6_next_option_shorter)

declare dhcp6_ia_pd_options.simps [simp del]

definition dhcp6_parse_ia_pd :: "ppp_ccb \<Rightarrow> u8 list \<Rightarrow> dhcp6_response \<Rightarrow> dhcp6_response option" where
  "dhcp6_parse_ia_pd st val r =
     (if length val < 12 \<or> dhcp6_read_be32 val \<noteq> ucast (user_num st) then None
      else case dhcp6_ia_pd_options (drop 12 val) False (r\<lparr>resp_t1 := dhcp6_read_be32 (drop 4 val)\<rparr>) of
          None \<Rightarrow> None
        | Some (has_prefix, r) \<Rightarrow> if \<not> resp_no_prefix r \<and> \<not> has_prefix then None else Some r)"

text \<open>Which options of the outer list were seen.\<close>

record dhcp6_seen =
  has_server :: bool
  has_client :: bool
  has_ia_pd :: bool
  has_dns :: bool

text \<open>The two 16-byte server addresses, the bytes the option does not carry staying zero.\<close>

definition dns_slots :: "u8 list \<Rightarrow> u8 list list" where
  "dns_slots val = (let d = take 32 val @ replicate (32 - length val) 0 in [take 16 d, drop 16 d])"

function dhcp6_response_options ::
  "ppp_env \<Rightarrow> ppp_ccb \<Rightarrow> u8 list \<Rightarrow> dhcp6_seen \<Rightarrow> dhcp6_response \<Rightarrow> (dhcp6_seen \<times> dhcp6_response) option" where
  "dhcp6_response_options env st bytes seen r =
     (if bytes = [] then Some (seen, r)
      else case dhcp6_next_option bytes of
          None \<Rightarrow> None
        | Some (code, val, rest) \<Rightarrow>
            if code = DHCP6_OPT_SERVERID
            then if has_server seen \<or> length val = 0 \<or> DHCP6_SERVER_DUID_MAX < length val then None
                 else dhcp6_response_options env st rest (seen\<lparr>has_server := True\<rparr>) (r\<lparr>resp_server_duid := val\<rparr>)
            else if code = DHCP6_OPT_CLIENTID
            then if has_client seen \<or> length val \<noteq> 10 \<or> val \<noteq> dhcp6_build_client_duid env then None
                 else dhcp6_response_options env st rest (seen\<lparr>has_client := True\<rparr>) r
            else if code = DHCP6_OPT_IA_PD
            then if has_ia_pd seen then None
                 else (case dhcp6_parse_ia_pd st val r of
                     None \<Rightarrow> None
                   | Some r \<Rightarrow> dhcp6_response_options env st rest (seen\<lparr>has_ia_pd := True\<rparr>) r)
            else if code = DHCP6_OPT_DNS_SERVERS
            then if has_dns seen \<or> length val mod 16 \<noteq> 0 then None
                 else dhcp6_response_options env st rest (seen\<lparr>has_dns := True\<rparr>) (r\<lparr>resp_dns := dns_slots val\<rparr>)
            else dhcp6_response_options env st rest seen r)"
  by pat_completeness auto
termination
  by (relation "measure (\<lambda>(_, _, bytes, _). length bytes)") (auto dest: dhcp6_next_option_shorter)

declare dhcp6_response_options.simps [simp del]

definition dhcp6_parse_response :: "ppp_env \<Rightarrow> ppp_ccb \<Rightarrow> u8 list \<Rightarrow> u8 \<Rightarrow> dhcp6_response option" where
  "dhcp6_parse_response env st msg expected_type =
     (if length msg < 4 \<or> msg ! 0 \<noteq> expected_type \<or> take 3 (drop 1 msg) \<noteq> dhcp6_xid (dhcp6 st) then None
      else case dhcp6_response_options env st (drop 4 msg)
                  \<lparr>has_server = False, has_client = False, has_ia_pd = False, has_dns = False\<rparr> dhcp6_response_zero of
          None \<Rightarrow> None
        | Some (seen, r) \<Rightarrow> if has_server seen \<and> has_client seen \<and> has_ia_pd seen then Some r else None)"

definition dhcp6_derive_lan_prefix :: "u8 list \<Rightarrow> u8 \<Rightarrow> u8 list" where
  "dhcp6_derive_lan_prefix pd_prefix pd_plen =
     (let full_bytes = unat pd_plen div 8;
          partial_bits = unat pd_plen mod 8
      in if DHCP6_LAN_PLEN < pd_plen then replicate 16 0
         else if partial_bits \<noteq> 0
         then take full_bytes pd_prefix @ [pd_prefix ! full_bytes AND push_bit (8 - partial_bits) 0xff]
                @ replicate (15 - full_bytes) 0
         else take full_bytes pd_prefix @ replicate (16 - full_bytes) 0)"

section \<open>Router advertisements\<close>

definition nd6_gate_ready :: "ppp_ccb \<Rightarrow> bool" where
  "nd6_gate_ready st \<longleftrightarrow> ipv6_enabled st \<and> ipv6cp_up st \<and> dhcp6_pd_ready st"

definition nd6_ra_start :: "ppp_env \<Rightarrow> ppp_ccb \<Rightarrow> ppp_ccb" where
  "nd6_ra_start env st =
     (if \<not> nd6_gate_ready st then st
      else rte_timer_reset TIM_RA (30 * cycles_in_sec (env_clock env)) True CB_ra (emit RaSend (nd6_ra_stop st)))"

definition nd6_ra_timer_cb :: "ppp_ccb \<Rightarrow> ppp_ccb" where
  "nd6_ra_timer_cb st = (if \<not> nd6_gate_ready st then nd6_ra_stop st else emit RaSend st)"

section \<open>The client\<close>

definition upd_dhcp6 :: "(dhcp6_client \<Rightarrow> dhcp6_client) \<Rightarrow> ppp_ccb \<Rightarrow> ppp_ccb" where
  "upd_dhcp6 f st = st\<lparr>dhcp6 := f (dhcp6 st)\<rparr>"

text \<open>The delegated data of a response, as both the Advertise and the Reply branch store it.\<close>

definition dhcp6_store_lease :: "dhcp6_response \<Rightarrow> ppp_ccb \<Rightarrow> ppp_ccb" where
  "dhcp6_store_lease r = upd_dhcp6 (\<lambda>d. d\<lparr>
     dhcp6_t1 := (if resp_t1 r \<noteq> 0 then resp_t1 r else DHCP6_DEFAULT_T1),
     hsi_ipv6_pd_prefix := resp_prefix r, hsi_ipv6_pd_plen := resp_prefix_plen r,
     hsi_ipv6_lan_prefix := dhcp6_derive_lan_prefix (resp_prefix r) (resp_prefix_plen r),
     hsi_ipv6_dns := resp_dns r\<rparr>)"

definition dhcp6_no_prefix :: "ppp_env \<Rightarrow> ppp_ccb \<Rightarrow> ppp_ccb" where
  "dhcp6_no_prefix env st =
     dhcp6_arm env 60 False (dhcp6_new_xid env
       (upd_dhcp6 (\<lambda>d. d\<lparr>dhcp6_server_duid := [], dhcp6_state := DHCP6_S_SOLICITING, dhcp6_retry := 0\<rparr>)
         (dhcp6_clear_lease st)))"

definition dhcp6_advertised :: "ppp_env \<Rightarrow> dhcp6_response \<Rightarrow> ppp_ccb \<Rightarrow> ppp_ccb" where
  "dhcp6_advertised env r st =
     dhcp6_arm env 3 True (dhcp6_send env DHCP6_REQUEST
       (upd_dhcp6 (\<lambda>d. d\<lparr>dhcp6_state := DHCP6_S_REQUESTING, dhcp6_retry := 0\<rparr>)
         (dhcp6_store_lease r (upd_dhcp6 (\<lambda>d. d\<lparr>dhcp6_server_duid := resp_server_duid r\<rparr>) st))))"

definition dhcp6_bound :: "ppp_env \<Rightarrow> dhcp6_response \<Rightarrow> ppp_ccb \<Rightarrow> ppp_ccb" where
  "dhcp6_bound env r st0 =
     (let was_ready = dhcp6_pd_ready st0;
          d = dhcp6 st0;
          lease_changed = (hsi_ipv6_pd_prefix d \<noteq> resp_prefix r \<or> hsi_ipv6_pd_plen d \<noteq> resp_prefix_plen r \<or>
                           hsi_ipv6_dns d \<noteq> resp_dns r);
          st = pppd_ipv6_dp_gate_update (st0\<lparr>dhcp6_pd_ready := False\<rparr>);
          st = upd_dhcp6 (\<lambda>d. d\<lparr>dhcp6_state := DHCP6_S_BOUND, dhcp6_retry := 0\<rparr>) (dhcp6_store_lease r st);
          st = nd6_ra_start env (pppd_ipv6_dp_gate_update (st\<lparr>dhcp6_pd_ready := True\<rparr>));
          st = dhcp6_arm env (dhcp6_t1 (dhcp6 st)) False st
      in if (\<not> was_ready \<or> lease_changed) \<and> phase st = DATA_PHASE then snd (ppp_report_connection_status env st) else st)"

definition dhcp6_process_message :: "ppp_env \<Rightarrow> u8 list \<Rightarrow> ppp_ccb \<Rightarrow> status \<times> ppp_ccb" where
  "dhcp6_process_message env msg st =
     (let s = dhcp6_state (dhcp6 st) in
      if s \<noteq> DHCP6_S_SOLICITING \<and> s \<noteq> DHCP6_S_REQUESTING \<and> s \<noteq> DHCP6_S_RENEWING then (ERROR, st)
      else case dhcp6_parse_response env st msg (if s = DHCP6_S_SOLICITING then DHCP6_ADVERTISE else DHCP6_REPLY) of
          None \<Rightarrow> (ERROR, st)
        | Some r \<Rightarrow>
            if (s = DHCP6_S_REQUESTING \<or> s = DHCP6_S_RENEWING) \<and> resp_server_duid r \<noteq> dhcp6_server_duid (dhcp6 st)
            then (ERROR, st)
            else if resp_no_prefix r then (SUCCESS, dhcp6_no_prefix env st)
            else if s = DHCP6_S_SOLICITING then (SUCCESS, dhcp6_advertised env r st)
            else (SUCCESS, dhcp6_bound env r st))"

text \<open>The IPv6 datagram in front of the message: version 6, exact payload length, UDP to port 546.\<close>

definition dhcp6_wan_input :: "ppp_env \<Rightarrow> u8 list \<Rightarrow> ppp_ccb \<Rightarrow> ppp_ccb" where
  "dhcp6_wan_input env pkt st =
     (let ip_payload_len = unat (dhcp6_read_be16 (drop 4 pkt));
          udp = drop 40 pkt;
          udp_len = unat (dhcp6_read_be16 (drop 4 udp))
      in if \<not> ipv6_enabled st \<or> \<not> ipv6cp_up st then st
         else if length pkt < 40 then st
         else if drop_bit 4 (pkt ! 0) \<noteq> 6 \<or> ip_payload_len \<noteq> length pkt - 40 then st
         else if pkt ! 6 = 58 then st
         else if pkt ! 6 \<noteq> 17 \<or> ip_payload_len < 8 + 4 then st
         else if dhcp6_read_be16 (drop 2 udp) \<noteq> 546 \<or> udp_len \<noteq> ip_payload_len \<or> udp_len < 8 + 4 then st
         else snd (dhcp6_process_message env (take (udp_len - 8) (drop 8 udp)) st))"

definition dhcp6_restart :: "ppp_env \<Rightarrow> ppp_ccb \<Rightarrow> ppp_ccb" where
  "dhcp6_restart env st =
     (let st = upd_dhcp6 (\<lambda>d. d\<lparr>dhcp6_server_duid := []\<rparr>) (dhcp6_clear_lease st);
          st = upd_dhcp6 (\<lambda>d. d\<lparr>dhcp6_state := DHCP6_S_SOLICITING, dhcp6_retry := 0\<rparr>) (dhcp6_new_xid env st)
      in dhcp6_arm env 3 True (dhcp6_send env DHCP6_SOLICIT st))"

definition dhcp6_retransmit :: "ppp_env \<Rightarrow> u8 \<Rightarrow> u32 \<Rightarrow> ppp_ccb \<Rightarrow> ppp_ccb" where
  "dhcp6_retransmit env msg_type seconds st =
     dhcp6_arm env seconds True
       (upd_dhcp6 (\<lambda>d. d\<lparr>dhcp6_retry := dhcp6_retry d + 1\<rparr>) (dhcp6_send env msg_type st))"

definition dhcp6_timer_cb :: "ppp_env \<Rightarrow> ppp_ccb \<Rightarrow> ppp_ccb" where
  "dhcp6_timer_cb env st =
     (if \<not> ipv6_enabled st \<or> \<not> ipv6cp_up st then dhcp6_pd_stop st
      else case dhcp6_state (dhcp6 st) of
          DHCP6_S_BOUND \<Rightarrow>
            dhcp6_arm env 10 True (dhcp6_send env DHCP6_RENEW
              (upd_dhcp6 (\<lambda>d. d\<lparr>dhcp6_state := DHCP6_S_RENEWING, dhcp6_retry := 0\<rparr>) (dhcp6_new_xid env st)))
        | DHCP6_S_RENEWING \<Rightarrow> dhcp6_retransmit env DHCP6_RENEW 10 st
        | DHCP6_S_REQUESTING \<Rightarrow>
            if 10 \<le> dhcp6_retry (dhcp6 st) then dhcp6_restart env st else dhcp6_retransmit env DHCP6_REQUEST 3 st
        | DHCP6_S_SOLICITING \<Rightarrow> dhcp6_retransmit env DHCP6_SOLICIT 3 st
        | DHCP6_S_IDLE \<Rightarrow> st)"

end
