(* ===== verification/Ppp_Codec.thy ===== *)
theory Ppp_Codec
  imports Ppp_Fsm Dhcp6
begin

text \<open>
  The decoding half of \<^verbatim>\<open>src/src/pppd/codec.c\<close>: the option walks, the checks that decide between
  Configure-Ack, -Nak and -Reject, \<open>decode_lcp\<close>, \<open>decode_ipcp\<close>, \<open>decode_ipv6cp\<close>, authentication,
  discovery and \<open>PPP_decode_frame\<close>, and the session entry points of \<^verbatim>\<open>pppd.c\<close> that call them.
  A decoder returns the status, the event and the new control block; \<open>None\<close> is a nested automaton
  call that ran out of fuel, or a read outside the received frame.
\<close>

section \<open>Option lists\<close>

abbreviation CONFIG_NAK :: u8 where "CONFIG_NAK \<equiv> 3"
abbreviation CONFIG_REJECT :: u8 where "CONFIG_REJECT \<equiv> 4"
abbreviation PROTO_REJECT :: u8 where "PROTO_REJECT \<equiv> 8"
abbreviation CHAP_CHALLENGE :: u8 where "CHAP_CHALLENGE \<equiv> 1"
abbreviation CHAP_RESPONSE :: u8 where "CHAP_RESPONSE \<equiv> 2"
abbreviation MPLSCP_PROTOCOL :: u16 where "MPLSCP_PROTOCOL \<equiv> 0x8281"
abbreviation PPP_IPV6_PROTOCOL :: u16 where "PPP_IPV6_PROTOCOL \<equiv> 0x0057"

text \<open>
  The walk every decoder makes over the options of a packet: each option has at least its two header
  bytes and does not reach past the end; \<open>body\<close> sees type and value, may change the state and may
  reject. The changes made before a rejection stay.
\<close>

function opt_walk :: "(u8 \<Rightarrow> u8 list \<Rightarrow> 's \<Rightarrow> bool \<times> 's) \<Rightarrow> u8 list \<Rightarrow> 's \<Rightarrow> bool \<times> 's" where
  "opt_walk body bytes s =
     (if bytes = [] then (True, s)
      else if length bytes < 2 \<or> unat (bytes ! 1) < 2 \<or> length bytes < unat (bytes ! 1) then (False, s)
      else case body (bytes ! 0) (take (unat (bytes ! 1) - 2) (drop 2 bytes)) s of
          (False, s') \<Rightarrow> (False, s')
        | (True, s') \<Rightarrow> opt_walk body (drop (unat (bytes ! 1)) bytes) s')"
  by pat_completeness auto
termination
  by (relation "measure (\<lambda>(_, bytes, _). length bytes)") auto

declare opt_walk.simps [simp del]

definition cp_options :: "ppp_cp \<Rightarrow> u16 \<Rightarrow> ppp_ccb \<Rightarrow> u8 list" where
  "cp_options c ppp_hdr_len st = take (unat ppp_hdr_len - 4) (ppp_options (control_protocols st c))"

section \<open>Choosing between Ack, Nak and Reject\<close>

datatype check_nak_rej_result = CHECK_NAK_REJ_ERROR | CHECK_NAK_REJ_NO_ACTION | CHECK_NAK_REJ_SEND_RESPONSE

text \<open>
  The walk's state: the control block, the option bytes walked so far as they now stand in the
  packet (the LCP check corrects values in place) and the options gathered for the answer.
\<close>

record nak_walk =
  nk_ccb :: ppp_ccb
  nk_done :: "u8 list"
  nk_tmp :: "u8 list"

definition nk_keep :: "u8 \<Rightarrow> u8 list \<Rightarrow> nak_walk \<Rightarrow> bool \<times> nak_walk" where
  "nk_keep ty val w = (True, w\<lparr>nk_done := nk_done w @ opt ty val\<rparr>)"

definition nk_answer :: "u8 \<Rightarrow> u8 list \<Rightarrow> nak_walk \<Rightarrow> bool \<times> nak_walk" where
  "nk_answer ty val w = (True, w\<lparr>nk_done := nk_done w @ opt ty val, nk_tmp := nk_tmp w @ opt ty val\<rparr>)"

definition ipcp_check_option :: "u8 \<Rightarrow> u8 \<Rightarrow> u8 list \<Rightarrow> nak_walk \<Rightarrow> bool \<times> nak_walk" where
  "ipcp_check_option flag ty val w =
     (if flag = CONFIG_NAK
      then if ty = IP_ADDRESS
           then if length val < 4 then (False, w)
                else if val ! 0 = 0 then nk_answer ty val w else nk_keep ty val w
           else nk_keep ty val w
      else if ty \<noteq> IP_ADDRESS then nk_answer ty val w else nk_keep ty val w)"

definition ipv6cp_iid_is_zero :: "u8 list \<Rightarrow> bool" where
  "ipv6cp_iid_is_zero iid \<longleftrightarrow> iid = replicate 8 0"

text \<open>The identifier suggested in a Nak is our own with its last byte incremented.\<close>

definition suggested_iid :: "u8 list \<Rightarrow> u8 list" where
  "suggested_iid iid = iid[7 := iid ! 7 + 1]"

definition ipv6cp_check_option :: "u8 \<Rightarrow> u8 \<Rightarrow> u8 list \<Rightarrow> nak_walk \<Rightarrow> bool \<times> nak_walk" where
  "ipv6cp_check_option flag ty val w =
     (if ty = IPV6CP_OPT_INTERFACE_ID \<and> length val \<noteq> 8 then (False, w)
      else if flag = CONFIG_NAK \<and> ty = IPV6CP_OPT_INTERFACE_ID \<and>
              (ipv6cp_iid_is_zero val \<or> val = ipv6cp_local_iid (nk_ccb w))
      then (True, w\<lparr>nk_done := nk_done w @ opt ty val,
                    nk_tmp := nk_tmp w @ opt ty (suggested_iid (ipv6cp_local_iid (nk_ccb w)))\<rparr>)
      else if flag = CONFIG_REJECT \<and> ty \<noteq> IPV6CP_OPT_INTERFACE_ID then nk_answer ty val w
      else nk_keep ty val w)"

definition lcp_check_option :: "u8 \<Rightarrow> u8 \<Rightarrow> u8 list \<Rightarrow> nak_walk \<Rightarrow> bool \<times> nak_walk" where
  "lcp_check_option flag ty val w =
     (if flag = CONFIG_NAK
      then if (ty = OPT_MRU \<or> ty = OPT_AUTH) \<and> length val < 2 then (False, w)
           else if ty = OPT_MRU \<and> (val ! 0 \<noteq> 0x05 \<or> val ! 1 \<noteq> 0xD0) then nk_answer ty (val[0 := 0x05, 1 := 0xD0]) w
           else if ty = OPT_AUTH
           then let w = w\<lparr>nk_ccb := (nk_ccb w)\<lparr>peer_requires_auth := True\<rparr>\<rparr>;
                    meth = (push_bit 8 (ucast (val ! 0)) OR ucast (val ! 1) :: u16)
                in if meth = auth_method (nk_ccb w) then nk_keep ty val w
                   else if meth = PAP_PROTOCOL \<or> meth = CHAP_PROTOCOL
                   then nk_keep ty val (w\<lparr>nk_ccb := (nk_ccb w)\<lparr>auth_method := meth\<rparr>\<rparr>)
                   else nk_answer ty (val[1 := ucast PAP_PROTOCOL, 0 := ucast (drop_bit 8 PAP_PROTOCOL)])
                          (w\<lparr>nk_ccb := (nk_ccb w)\<lparr>auth_method := PAP_PROTOCOL\<rparr>\<rparr>)
           else nk_keep ty val w
      else if ty \<noteq> OPT_MAGIC_NUM \<and> ty \<noteq> OPT_MRU \<and> ty \<noteq> OPT_AUTH then nk_answer ty val w else nk_keep ty val w)"

definition check_option :: "ppp_cp \<Rightarrow> u8 \<Rightarrow> u8 \<Rightarrow> u8 list \<Rightarrow> nak_walk \<Rightarrow> bool \<times> nak_walk" where
  "check_option c = (case c of PPP_CP_LCP \<Rightarrow> lcp_check_option | PPP_CP_IPCP \<Rightarrow> ipcp_check_option
     | PPP_CP_IPV6CP \<Rightarrow> ipv6cp_check_option)"

text \<open>
  The common frame of the three checks. An answer replaces the front of the option buffer, and the
  code and both length fields with it; otherwise the header's length stays at the four bytes the
  check wrote, in host order.
\<close>

definition check_nak_rej :: "ppp_cp \<Rightarrow> u8 \<Rightarrow> u16 \<Rightarrow> ppp_ccb \<Rightarrow> check_nak_rej_result \<times> ppp_ccb" where
  "check_nak_rej c flag ppp_hdr_len st =
     (if ppp_hdr_len < 4 \<or> PPP_MSG_BUF_LEN < unat ppp_hdr_len - 4 then (CHECK_NAK_REJ_ERROR, st)
      else case opt_walk (check_option c flag) (cp_options c ppp_hdr_len st) \<lparr>nk_ccb = st, nk_done = [], nk_tmp = []\<rparr> of
        (ok, w) \<Rightarrow>
          let tmp = nk_tmp w;
              hlen = 4 + of_nat (length tmp);
              opts = nk_done w @ drop (length (nk_done w)) (ppp_options (control_protocols st c))
          in if ok \<and> tmp \<noteq> []
             then (CHECK_NAK_REJ_SEND_RESPONSE,
                   (upd_cp c (\<lambda>p. p\<lparr>ppp_options := tmp @ drop (length tmp) opts,
                       ppp_hdr := (ppp_hdr p)\<lparr>hdr_length := rte_cpu_to_be_16 hlen, hdr_code := flag\<rparr>\<rparr>) (nk_ccb w))
                     \<lparr>pppoe_length := rte_cpu_to_be_16 (hlen + 2)\<rparr>)
             else (if ok then CHECK_NAK_REJ_NO_ACTION else CHECK_NAK_REJ_ERROR,
                   upd_cp c (\<lambda>p. p\<lparr>ppp_options := opts, ppp_hdr := (ppp_hdr p)\<lparr>hdr_length := hlen\<rparr>\<rparr>) (nk_ccb w)))"

text \<open>LCP and IPCP first take a scratch buffer from the heap; IPV6CP uses the stack.\<close>

definition check_lcp_nak_rej :: "ppp_env \<Rightarrow> u8 \<Rightarrow> u16 \<Rightarrow> ppp_ccb \<Rightarrow> check_nak_rej_result \<times> ppp_ccb" where
  "check_lcp_nak_rej env flag len st =
     (if \<not> env_malloc_ok env then (CHECK_NAK_REJ_ERROR, st) else check_nak_rej PPP_CP_LCP flag len st)"

definition check_ipcp_nak_rej :: "ppp_env \<Rightarrow> u8 \<Rightarrow> u16 \<Rightarrow> ppp_ccb \<Rightarrow> check_nak_rej_result \<times> ppp_ccb" where
  "check_ipcp_nak_rej env flag len st =
     (if \<not> env_malloc_ok env then (CHECK_NAK_REJ_ERROR, st) else check_nak_rej PPP_CP_IPCP flag len st)"

definition check_ipv6cp_nak_rej :: "u8 \<Rightarrow> u16 \<Rightarrow> ppp_ccb \<Rightarrow> check_nak_rej_result \<times> ppp_ccb" where
  "check_ipv6cp_nak_rej flag len st = check_nak_rej PPP_CP_IPV6CP flag len st"

type_synonym decode_result = "status \<times> ppp_event \<times> ppp_ccb"

text \<open>The two checks of a Configure-Request, and the good request when neither answers.\<close>

definition config_request_checks ::
  "(u8 \<Rightarrow> ppp_ccb \<Rightarrow> check_nak_rej_result \<times> ppp_ccb) \<Rightarrow> (ppp_ccb \<Rightarrow> decode_result) \<Rightarrow> ppp_event \<Rightarrow> ppp_ccb \<Rightarrow> decode_result" where
  "config_request_checks chk good ev st =
     (case chk CONFIG_NAK st of
        (CHECK_NAK_REJ_ERROR, st) \<Rightarrow> (ERROR, ev, st)
      | (CHECK_NAK_REJ_SEND_RESPONSE, st) \<Rightarrow> (SUCCESS, E_RECV_BAD_CONFIG_REQUEST, st)
      | (CHECK_NAK_REJ_NO_ACTION, st) \<Rightarrow>
          (case chk CONFIG_REJECT st of
             (CHECK_NAK_REJ_ERROR, st) \<Rightarrow> (ERROR, ev, st)
           | (CHECK_NAK_REJ_SEND_RESPONSE, st) \<Rightarrow> (SUCCESS, E_RECV_BAD_CONFIG_REQUEST, st)
           | (CHECK_NAK_REJ_NO_ACTION, st) \<Rightarrow> good st))"

definition set_hdr_length :: "ppp_cp \<Rightarrow> u16 \<Rightarrow> ppp_ccb \<Rightarrow> ppp_ccb" where
  "set_hdr_length c len = upd_cp c (\<lambda>p. p\<lparr>ppp_hdr := (ppp_hdr p)\<lparr>hdr_length := len\<rparr>\<rparr>)"

text \<open>RFC 1661 5.2--5.4: only an answer to the outstanding request counts.\<close>

definition answers_request :: "ppp_cp \<Rightarrow> ppp_ccb \<Rightarrow> bool" where
  "answers_request c st \<longleftrightarrow>
     config_request_pending st c \<and> hdr_identifier (ppp_hdr (control_protocols st c)) = req_identifier st c"

definition request_answered :: "ppp_cp \<Rightarrow> ppp_ccb \<Rightarrow> ppp_ccb" where
  "request_answered c st = st\<lparr>config_request_pending := (config_request_pending st)(c := False)\<rparr>"

section \<open>LCP\<close>

definition lcp_ack_option :: "u8 \<Rightarrow> u8 list \<Rightarrow> ppp_ccb \<Rightarrow> bool \<times> ppp_ccb" where
  "lcp_ack_option ty val st =
     (if ty = OPT_MAGIC_NUM \<and> (length val \<noteq> 4 \<or> val \<noteq> be_bytes32 (magic_num st)) then (False, st) else (True, st))"

definition lcp_nak_option :: "ppp_env \<Rightarrow> u8 \<Rightarrow> u8 list \<Rightarrow> ppp_ccb \<Rightarrow> bool \<times> ppp_ccb" where
  "lcp_nak_option env ty val st =
     (let v = (push_bit 8 (ucast (val ! 0)) OR ucast (val ! 1) :: u16) in
      if ty = OPT_AUTH \<and> 2 \<le> length val
      then (True, st\<lparr>auth_method := (if v = CHAP_PROTOCOL then CHAP_PROTOCOL else PAP_PROTOCOL)\<rparr>)
      else if ty = OPT_MRU \<and> 2 \<le> length val
      then (True, if v \<noteq> 0 \<and> v \<le> MAX_RECV_UNIT then st\<lparr>mru := v\<rparr> else st)
      else if ty = OPT_MAGIC_NUM
      then (True, st\<lparr>magic_num := rte_cpu_to_be_32 (env_rand env mod 0xFFFFFFFE + 1)\<rparr>)
      else (True, st))"

definition lcp_reject_option :: "u8 \<Rightarrow> u8 list \<Rightarrow> ppp_ccb \<Rightarrow> bool \<times> ppp_ccb" where
  "lcp_reject_option ty val st =
     (if ty = OPT_AUTH then (True, st\<lparr>lcp_auth_rejected := True\<rparr>)
      else if ty = OPT_MRU then (True, st\<lparr>lcp_mru_rejected := True\<rparr>)
      else if ty = OPT_MAGIC_NUM then (True, st\<lparr>lcp_magic_rejected := True\<rparr>)
      else (True, st))"

text \<open>An answer whose options are walked before the request counts as answered.\<close>

definition answer_walk ::
  "ppp_cp \<Rightarrow> (u8 \<Rightarrow> u8 list \<Rightarrow> ppp_ccb \<Rightarrow> bool \<times> ppp_ccb) \<Rightarrow> ppp_event \<Rightarrow> ppp_event \<Rightarrow> u16 \<Rightarrow> ppp_ccb \<Rightarrow> decode_result" where
  "answer_walk c body ev' ev len st =
     (if \<not> answers_request c st then (ERROR, ev, st)
      else case opt_walk body (cp_options c len st) st of
          (False, st) \<Rightarrow> (ERROR, ev, st)
        | (True, st) \<Rightarrow> (SUCCESS, ev', request_answered c st))"

definition lcp_proto_reject :: "u16 \<Rightarrow> ppp_ccb \<Rightarrow> decode_result" where
  "lcp_proto_reject len st =
     (if 6 \<le> len \<and> rte_be_to_cpu_16 (load16 (ppp_options (control_protocols st PPP_CP_LCP))) = IPV6CP_PROTOCOL
      then (SUCCESS, E_RECV_GOOD_CODE_PROTOCOL_REJECT, ipv6cp_stop st)
      else (SUCCESS, E_RECV_BAD_CODE_PROTOCOL_REJECT, st))"

definition stop_timer_on_success :: "ppp_timer \<Rightarrow> decode_result \<Rightarrow> decode_result" where
  "stop_timer_on_success tim r = (case r of (s, ev, st) \<Rightarrow> (s, ev, if s = SUCCESS then rte_timer_stop tim st else st))"

definition decode_lcp :: "ppp_env \<Rightarrow> u16 \<Rightarrow> ppp_event \<Rightarrow> ppp_timer \<Rightarrow> ppp_ccb \<Rightarrow> decode_result" where
  "decode_lcp env len ev tim st0 =
     (let code = hdr_code (ppp_hdr (control_protocols st0 PPP_CP_LCP));
          st = st0\<lparr>echo_miss_count := 0\<rparr>
      in if code = CONFIG_REQUEST
         then if phase st \<noteq> LCP_PHASE then (ERROR, ev, st)
              else config_request_checks (\<lambda>flag. check_lcp_nak_rej env flag len)
                     (\<lambda>st. (SUCCESS, E_RECV_GOOD_CONFIG_REQUEST, set_hdr_length PPP_CP_LCP (rte_cpu_to_be_16 len) st)) ev st
         else if code = CONFIG_ACK
         then if phase st \<noteq> LCP_PHASE then (ERROR, ev, st)
              else stop_timer_on_success tim (answer_walk PPP_CP_LCP lcp_ack_option E_RECV_CONFIG_ACK ev len st)
         else if code = CONFIG_NAK then answer_walk PPP_CP_LCP (lcp_nak_option env) E_RECV_CONFIG_NAK_REJ ev len st
         else if code = CONFIG_REJECT then answer_walk PPP_CP_LCP lcp_reject_option E_RECV_CONFIG_NAK_REJ ev len st
         else if code = TERMIN_REQUEST then (SUCCESS, E_RECV_TERMINATE_REQUEST, st)
         else if code = TERMIN_ACK then (SUCCESS, E_RECV_TERMINATE_ACK, rte_timer_stop tim st)
         else if code = CODE_REJECT then (SUCCESS, E_RECV_GOOD_CODE_PROTOCOL_REJECT, st)
         else if code = PROTO_REJECT then lcp_proto_reject len st
         else if code = ECHO_REQUEST
         then if phase st < LCP_PHASE then (ERROR, ev, st) else (SUCCESS, E_RECV_ECHO_REQUEST, st)
         else if code = ECHO_REPLY
         then if phase st < LCP_PHASE then (ERROR, ev, st) else (SUCCESS, E_RECV_ECHO_REPLY, st)
         else (SUCCESS, E_RECV_UNKNOWN_CODE, st))"

section \<open>IPCP\<close>

text \<open>Address options carry four bytes; the request sets the gateway, Ack and Nak our own address.\<close>

definition ipcp_value_option :: "(u32 \<Rightarrow> ppp_ccb \<Rightarrow> ppp_ccb) \<Rightarrow> u8 \<Rightarrow> u8 list \<Rightarrow> ppp_ccb \<Rightarrow> bool \<times> ppp_ccb" where
  "ipcp_value_option set_ip ty val st =
     (if (ty = IP_ADDRESS \<or> ty = PRIMARY_DNS \<or> ty = SECONDARY_DNS) \<and> length val < 4 then (False, st)
      else if ty = IP_ADDRESS then (True, set_ip (load32 val) st)
      else if ty = PRIMARY_DNS then (True, st\<lparr>hsi_primary_dns := load32 val\<rparr>)
      else if ty = SECONDARY_DNS then (True, st\<lparr>hsi_secondary_dns := load32 val\<rparr>)
      else (True, st))"

definition ipcp_request_option :: "u8 \<Rightarrow> u8 list \<Rightarrow> ppp_ccb \<Rightarrow> bool \<times> ppp_ccb" where
  "ipcp_request_option = ipcp_value_option (\<lambda>v st. st\<lparr>hsi_ipv4_gw := v\<rparr>)"

definition ipcp_ack_option :: "u8 \<Rightarrow> u8 list \<Rightarrow> ppp_ccb \<Rightarrow> bool \<times> ppp_ccb" where
  "ipcp_ack_option = ipcp_value_option (\<lambda>v st. st\<lparr>hsi_ipv4 := v\<rparr>)"

definition ipcp_reject_option :: "u8 \<Rightarrow> u8 list \<Rightarrow> ppp_ccb \<Rightarrow> bool \<times> ppp_ccb" where
  "ipcp_reject_option ty val st =
     (if ty = PRIMARY_DNS then (True, st\<lparr>hsi_primary_dns := 0\<rparr>)
      else if ty = SECONDARY_DNS then (True, st\<lparr>hsi_secondary_dns := 0\<rparr>)
      else (True, st))"

definition ipcp_good_request :: "ppp_event \<Rightarrow> u16 \<Rightarrow> ppp_ccb \<Rightarrow> decode_result" where
  "ipcp_good_request ev len st =
     (case opt_walk ipcp_request_option (cp_options PPP_CP_IPCP len st) st of
        (False, st) \<Rightarrow> (ERROR, ev, st)
      | (True, st) \<Rightarrow> (SUCCESS, E_RECV_GOOD_CONFIG_REQUEST, set_hdr_length PPP_CP_IPCP (rte_cpu_to_be_16 len) st))"

text \<open>The IPCP Ack counts as answered, and its event is set, before its options are read.\<close>

definition ipcp_config_ack :: "ppp_event \<Rightarrow> ppp_timer \<Rightarrow> u16 \<Rightarrow> ppp_ccb \<Rightarrow> decode_result" where
  "ipcp_config_ack ev tim len st =
     (if \<not> answers_request PPP_CP_IPCP st then (ERROR, ev, st)
      else let st = rte_timer_stop tim (request_answered PPP_CP_IPCP st)
           in case opt_walk ipcp_ack_option (cp_options PPP_CP_IPCP len st) st of
                (ok, st) \<Rightarrow> (if ok then SUCCESS else ERROR, E_RECV_CONFIG_ACK, st))"

definition decode_ipcp :: "ppp_env \<Rightarrow> u16 \<Rightarrow> ppp_event \<Rightarrow> ppp_timer \<Rightarrow> ppp_ccb \<Rightarrow> decode_result" where
  "decode_ipcp env len ev tim st0 =
     (let code = hdr_code (ppp_hdr (control_protocols st0 PPP_CP_IPCP));
          st = st0\<lparr>echo_miss_count := 0\<rparr>
      in if code = CONFIG_REQUEST
         then config_request_checks (\<lambda>flag. check_ipcp_nak_rej env flag len) (ipcp_good_request ev len) ev st
         else if code = CONFIG_ACK then ipcp_config_ack ev tim len st
         else if code = CONFIG_NAK then answer_walk PPP_CP_IPCP ipcp_ack_option E_RECV_CONFIG_NAK_REJ ev len st
         else if code = CONFIG_REJECT then answer_walk PPP_CP_IPCP ipcp_reject_option E_RECV_CONFIG_NAK_REJ ev len st
         else if code = TERMIN_REQUEST then (SUCCESS, E_RECV_TERMINATE_REQUEST, st)
         else if code = TERMIN_ACK then (SUCCESS, E_RECV_TERMINATE_ACK, rte_timer_stop tim st)
         else if code = CODE_REJECT then (SUCCESS, E_RECV_GOOD_CODE_PROTOCOL_REJECT, st)
         else (SUCCESS, E_RECV_UNKNOWN_CODE, st))"

section \<open>IPV6CP\<close>

definition ipv6cp_iid_option :: "(u8 list \<Rightarrow> ppp_ccb \<Rightarrow> ppp_ccb) \<Rightarrow> u8 \<Rightarrow> u8 list \<Rightarrow> ppp_ccb \<Rightarrow> bool \<times> ppp_ccb" where
  "ipv6cp_iid_option set_iid ty val st =
     (if ty = IPV6CP_OPT_INTERFACE_ID
      then if length val \<noteq> 8 then (False, st) else (True, set_iid val st)
      else (True, st))"

text \<open>
  The loop of a good request has no checks of its own: the two checks before it rejected every
  option list it could not walk.
\<close>

definition ipv6cp_good_request :: "u16 \<Rightarrow> ppp_ccb \<Rightarrow> decode_result" where
  "ipv6cp_good_request len st =
     (case opt_walk (ipv6cp_iid_option (\<lambda>v st. st\<lparr>ipv6cp_peer_iid := v\<rparr>)) (cp_options PPP_CP_IPV6CP len st) st of
        (_, st) \<Rightarrow> (SUCCESS, E_RECV_GOOD_CONFIG_REQUEST, set_hdr_length PPP_CP_IPV6CP (rte_cpu_to_be_16 len) st))"

text \<open>
  A Configure-Reject that names the Interface-Identifier closes IPV6CP. The walk stops there; the
  flag in its state tells it from a malformed option.
\<close>

definition ipv6cp_reject_option :: "u8 \<Rightarrow> u8 list \<Rightarrow> bool \<Rightarrow> bool \<times> bool" where
  "ipv6cp_reject_option ty val rejected =
     (if ty = IPV6CP_OPT_INTERFACE_ID then if length val \<noteq> 8 then (False, False) else (False, True)
      else (True, rejected))"

definition ipv6cp_config_reject :: "fsm_call \<Rightarrow> ppp_event \<Rightarrow> ppp_timer \<Rightarrow> u16 \<Rightarrow> ppp_ccb \<Rightarrow> decode_result option" where
  "ipv6cp_config_reject fsm ev tim len st =
     (if \<not> answers_request PPP_CP_IPV6CP st then Some (ERROR, ev, st)
      else case opt_walk ipv6cp_reject_option (cp_options PPP_CP_IPV6CP len st) False of
          (False, False) \<Rightarrow> Some (ERROR, ev, st)
        | (False, True) \<Rightarrow>
            map_option (\<lambda>(_, st). (ERROR, ev, st)) (fsm tim E_CLOSE ((request_answered PPP_CP_IPV6CP st)\<lparr>cp_id := PPP_CP_IPV6CP\<rparr>))
        | (True, _) \<Rightarrow> Some (SUCCESS, E_RECV_CONFIG_NAK_REJ, request_answered PPP_CP_IPV6CP st))"

definition decode_ipv6cp :: "fsm_call \<Rightarrow> u16 \<Rightarrow> ppp_event \<Rightarrow> ppp_timer \<Rightarrow> ppp_ccb \<Rightarrow> decode_result option" where
  "decode_ipv6cp fsm len ev tim st0 =
     (let code = hdr_code (ppp_hdr (control_protocols st0 PPP_CP_IPV6CP));
          st = st0\<lparr>echo_miss_count := 0\<rparr>
      in if code = CONFIG_REQUEST
         then Some (config_request_checks (\<lambda>flag. check_ipv6cp_nak_rej flag len) (ipv6cp_good_request len) ev st)
         else if code = CONFIG_ACK
         then Some (stop_timer_on_success tim
                (answer_walk PPP_CP_IPV6CP (ipv6cp_iid_option (\<lambda>_ st. st)) E_RECV_CONFIG_ACK ev len st))
         else if code = CONFIG_NAK
         then Some (answer_walk PPP_CP_IPV6CP (ipv6cp_iid_option (\<lambda>v st. st\<lparr>ipv6cp_local_iid := v\<rparr>))
                E_RECV_CONFIG_NAK_REJ ev len st)
         else if code = CONFIG_REJECT then ipv6cp_config_reject fsm ev tim len st
         else if code = TERMIN_REQUEST then Some (SUCCESS, E_RECV_TERMINATE_REQUEST, st)
         else if code = TERMIN_ACK then Some (SUCCESS, E_RECV_TERMINATE_ACK, rte_timer_stop tim st)
         else if code = CODE_REJECT then Some (SUCCESS, E_RECV_GOOD_CODE_PROTOCOL_REJECT, st)
         else Some (SUCCESS, E_RECV_UNKNOWN_CODE, st))"

section \<open>Authentication and Protocol-Reject\<close>

text \<open>
  The PAP answer is built from a scratch control block that is zero where it was not copied: the
  identifier it carries is that block's, not the request's.
\<close>

definition build_auth_ack_pap :: "u8 \<Rightarrow> ppp_frame" where
  "build_auth_ack_pap ident =
     session_frame PAP_PROTOCOL PAP_ACK ident (8 # [0x4c, 0x6f, 0x67, 0x69, 0x6e, 0x20, 0x6f, 0x6b])"

definition build_auth_response_chap :: "ppp_env \<Rightarrow> u8 \<Rightarrow> u8 list \<Rightarrow> u8 list \<Rightarrow> u8 list \<Rightarrow> ppp_frame" where
  "build_auth_response_chap env ident acc pwd challenge =
     (if PPP_MSG_BUF_LEN < 30 + 1 + 16 + length acc then refused_frame
      else session_frame CHAP_PROTOCOL CHAP_RESPONSE ident (16 # env_md5 env (ident # pwd @ challenge) @ acc))"

definition build_proto_reject :: "ppp_env \<Rightarrow> u16 \<Rightarrow> u8 list \<Rightarrow> ppp_frame" where
  "build_proto_reject env rejected_proto rejected_info =
     session_frame LCP_PROTOCOL PROTO_REJECT (rand_identifier env)
       (be_bytes16 (rte_cpu_to_be_16 rejected_proto) @ take (1500 - 32) rejected_info)"

definition store_packet :: "ppp_cp \<Rightarrow> u16 \<Rightarrow> ppp_header \<Rightarrow> ppp_ccb \<Rightarrow> ppp_ccb" where
  "store_packet c proto hdr = upd_cp c (\<lambda>p. p\<lparr>ppp_protocol := proto, ppp_hdr := hdr\<rparr>)"

definition store_options :: "ppp_cp \<Rightarrow> u8 list \<Rightarrow> ppp_ccb \<Rightarrow> ppp_ccb" where
  "store_options c opts = upd_cp c (\<lambda>p. p\<lparr>ppp_options := opts\<rparr>)"

definition parse_ppp_header :: "u8 list \<Rightarrow> ppp_header" where
  "parse_ppp_header bs = \<lparr>hdr_code = bs ! 0, hdr_identifier = bs ! 1, hdr_length = load16 (drop 2 bs)\<rparr>"

definition decode_pap :: "fsm_call \<Rightarrow> ppp_env \<Rightarrow> u16 \<Rightarrow> ppp_header \<Rightarrow> ppp_event \<Rightarrow> ppp_ccb \<Rightarrow> decode_result option" where
  "decode_pap fsm env proto hdr ev st =
     (if phase st \<noteq> AUTH_PHASE then Some (ERROR, ev, st)
      else if hdr_code hdr = PAP_ACK then Some (SUCCESS, ev, store_packet PPP_CP_LCP proto hdr st)
      else if hdr_code hdr = PAP_NAK
      then map_option (\<lambda>(_, st). (SUCCESS, ev, st)) (fsm TIM_PPP E_CLOSE (st\<lparr>phase := LCP_PHASE\<rparr>))
      else if hdr_code hdr = PAP_REQUEST
      then if \<not> env_malloc_ok env then Some (ERROR, ev, st)
           else Some (SUCCESS, ev, wan_ctrl_tx (build_auth_ack_pap 0) (st\<lparr>phase := AUTH_PHASE\<rparr>))
      else Some (SUCCESS, ev, st))"

definition decode_chap :: "ppp_env \<Rightarrow> u16 \<Rightarrow> ppp_header \<Rightarrow> u8 list \<Rightarrow> ppp_event \<Rightarrow> ppp_ccb \<Rightarrow> decode_result" where
  "decode_chap env proto hdr chap_data ev st =
     (if phase st \<noteq> AUTH_PHASE then (ERROR, ev, st)
      else if hdr_code hdr = CHAP_CHALLENGE
      then if length chap_data < 1 \<or> length chap_data - 1 < unat (chap_data ! 0) then (ERROR, ev, st)
           else if \<not> env_malloc_ok env then (ERROR, ev, st)
           else (SUCCESS, ev,
             wan_ctrl_tx (build_auth_response_chap env (hdr_identifier hdr) (ppp_user_acc st) (ppp_passwd st)
                 (take (unat (chap_data ! 0)) (drop 1 chap_data))) (st\<lparr>phase := AUTH_PHASE\<rparr>))
      else if hdr_code hdr = CHAP_SUCCESS \<or> hdr_code hdr = CHAP_FAILURE
      then (SUCCESS, ev, store_packet PPP_CP_LCP proto hdr st)
      else (SUCCESS, ev, st))"

section \<open>Session packets\<close>

text \<open>
  \<open>pl\<close> is the PPP payload from its protocol field to the end of the frame. Each control protocol
  keeps the packet before the phase is checked, so a dropped packet still replaces the stored one.
\<close>

definition decode_ppp :: "fsm_call \<Rightarrow> ppp_env \<Rightarrow> u8 list \<Rightarrow> ppp_event \<Rightarrow> ppp_ccb \<Rightarrow> decode_result option" where
  "decode_ppp fsm env pl ev st =
     (let proto = load16 pl;
          hdr = parse_ppp_header (drop 2 pl);
          len = rte_be_to_cpu_16 (hdr_length hdr);
          body = take (unat len - 4) (drop 6 pl);
          no_mem = (\<not> env_malloc_ok env \<and> len \<noteq> 4);
          keep = (\<lambda>c st. store_options c (if no_mem then [] else body) (store_packet c proto hdr st));
          done = (\<lambda>c r. case r of (ERROR, ev, st) \<Rightarrow> (ERROR, ev, st) | (SUCCESS, ev, st) \<Rightarrow> (SUCCESS, ev, st\<lparr>cp_id := c\<rparr>))
      in if len < 4 then Some (ERROR, ev, st)
         else if length pl < 2 + unat len then Some (ERROR, ev, st)
         else if proto = rte_cpu_to_be_16 IPCP_PROTOCOL
         then let st = keep PPP_CP_IPCP st in
              if no_mem \<or> phase st \<noteq> IPCP_PHASE then Some (ERROR, ev, st)
              else Some (done PPP_CP_IPCP (decode_ipcp env len ev TIM_PPP st))
         else if proto = rte_cpu_to_be_16 IPV6CP_PROTOCOL \<and> ipv6_enabled st
         then let st = keep PPP_CP_IPV6CP st in
              if no_mem \<or> (phase st \<noteq> IPCP_PHASE \<and> phase st \<noteq> DATA_PHASE) then Some (ERROR, ev, st)
              else map_option (done PPP_CP_IPV6CP) (decode_ipv6cp fsm len ev TIM_PPP_IPV6CP st)
         else if proto = rte_cpu_to_be_16 LCP_PROTOCOL
         then let st = keep PPP_CP_LCP st in
              if no_mem then Some (ERROR, ev, st)
              else Some (done PPP_CP_LCP (decode_lcp env len ev TIM_PPP st))
         else if proto = rte_cpu_to_be_16 PAP_PROTOCOL then decode_pap fsm env proto hdr ev st
         else if proto = rte_cpu_to_be_16 CHAP_PROTOCOL then Some (decode_chap env proto hdr body ev st)
         else if proto = rte_cpu_to_be_16 MPLSCP_PROTOCOL \<or> proto = rte_cpu_to_be_16 IPV6CP_PROTOCOL
         then Some (ERROR, ev, wan_ctrl_tx (build_proto_reject env (rte_be_to_cpu_16 proto) (take (unat len) (drop 2 pl))) st)
         else Some (ERROR, ev, st))"

definition check_auth_result :: "fsm_call \<Rightarrow> ppp_env \<Rightarrow> ppp_ccb \<Rightarrow> (bool \<times> ppp_ccb) option" where
  "check_auth_result fsm env st =
     (let p = control_protocols st PPP_CP_LCP;
          pap = (ppp_protocol p = rte_cpu_to_be_16 PAP_PROTOCOL);
          chap = (ppp_protocol p = rte_cpu_to_be_16 CHAP_PROTOCOL);
          code = hdr_code (ppp_hdr p)
      in if phase st \<noteq> AUTH_PHASE then Some (False, st)
         else if pap \<and> code = PAP_NAK \<or> chap \<and> code = CHAP_FAILURE
         then map_option (\<lambda>(_, st). (True, st)) (fsm TIM_PPP E_CLOSE (st\<lparr>cp_id := PPP_CP_LCP\<rparr>))
         else if pap \<and> code = PAP_ACK \<or> chap \<and> code = CHAP_SUCCESS
         then map_option (\<lambda>st. (True, st)) (open_ncps fsm env st)
         else Some (False, st))"

section \<open>Discovery\<close>

abbreviation PADO :: u8 where "PADO \<equiv> 0x7"
abbreviation PADS :: u8 where "PADS \<equiv> 0x65"
abbreviation PADM :: u8 where "PADM \<equiv> 0xd3"
abbreviation PPPoE_TAG_DEFAULT_MAX_LEN :: nat where "PPPoE_TAG_DEFAULT_MAX_LEN \<equiv> 64"

text \<open>
  The tag buffer takes as many bytes, from the first tag's header on, as the first tag's value is
  long, at most the buffer's size. Tags that the frame does not hold that far have no defined result.
\<close>

definition store_tags :: "u8 list \<Rightarrow> ppp_ccb \<Rightarrow> ppp_ccb option" where
  "store_tags tags st =
     (let n = min PPPoE_TAG_DEFAULT_MAX_LEN (unat (rte_be_to_cpu_16 (load16 (drop 2 tags))))
      in if length tags < 4 \<or> length tags < n then None
         else Some (st\<lparr>pppoe := (pppoe st)\<lparr>pp_tags := take n tags @ drop n (pp_tags (pppoe st))\<rparr>\<rparr>))"

definition decode_pado :: "fsm_call \<Rightarrow> ppp_env \<Rightarrow> u8 list \<Rightarrow> ppp_ccb \<Rightarrow> hdl_result" where
  "decode_pado fsm env tags st =
     (if pp_active (pppoe st) then Some (ERROR, st)
      else case store_tags tags (st\<lparr>pppoe := (pppoe st)\<lparr>pp_active := True\<rparr>\<rparr>) of
          None \<Rightarrow> None
        | Some st \<Rightarrow>
            let st = st\<lparr>pppoe := (pppoe st)\<lparr>pp_max_retransmit := MAX_RETRAN, pp_timer_counter := 0\<rparr>\<rparr>;
                st = (rte_timer_stop TIM_PPPOE st)\<lparr>PPP_dst_mac := eth_src st\<rparr>
            in case pppoe_send_pkt fsm env ENCODE_PADR st of
                 None \<Rightarrow> None
               | Some (ERROR, st) \<Rightarrow> Some (ERROR, exit_ppp env st)
               | Some (SUCCESS, st) \<Rightarrow>
                   Some (SUCCESS, rte_timer_reset TIM_PPPOE (cycles_in_sec (env_clock env)) True CB_padr st))"

definition decode_pads :: "fsm_call \<Rightarrow> ppp_ccb \<Rightarrow> hdl_result" where
  "decode_pads fsm st =
     returning_success (fsm TIM_PPP E_OPEN
       ((rte_timer_stop TIM_PPPOE st)\<lparr>session_id := pppoe_session st, cp_id := PPP_CP_LCP\<rparr>))"

definition decode_padt :: "fsm_call \<Rightarrow> ppp_env \<Rightarrow> u8 list \<Rightarrow> ppp_ccb \<Rightarrow> hdl_result" where
  "decode_padt fsm env tags st =
     (case store_tags tags st of
        None \<Rightarrow> None
      | Some st \<Rightarrow>
          map_option (\<lambda>st. (SUCCESS, st)) (PPP_bye fsm env (all_states_init
            (st\<lparr>pppoe := (pppoe st)\<lparr>pp_max_retransmit := MAX_RETRAN, pp_active := False\<rparr>, phase := END_PHASE\<rparr>))))"

definition decode_pppoe :: "fsm_call \<Rightarrow> ppp_env \<Rightarrow> u8 list \<Rightarrow> ppp_ccb \<Rightarrow> hdl_result" where
  "decode_pppoe fsm env tags st =
     (if pppoe_code st = PADO then decode_pado fsm env tags st
      else if pppoe_code st = PADS then decode_pads fsm st
      else if pppoe_code st = PADT then decode_padt fsm env tags st
      else if pppoe_code st = PADM then Some (SUCCESS, st)
      else Some (ERROR, st))"

section \<open>Frames\<close>

abbreviation ETH_JUMBO :: nat where "ETH_JUMBO \<equiv> 9000"
abbreviation ETH_P_PPP_DIS :: u16 where "ETH_P_PPP_DIS \<equiv> 0x8863"
abbreviation ETH_P_PPP_SES :: u16 where "ETH_P_PPP_SES \<equiv> 0x8864"

text \<open>Ethernet (14), VLAN (4) and PPPoE (6) headers: the fields the code reads, at their offsets.\<close>

definition frame_next_proto :: "u8 list \<Rightarrow> u16" where
  "frame_next_proto pkt = load16 (drop 16 pkt)"

definition frame_session :: "u8 list \<Rightarrow> u16" where
  "frame_session pkt = load16 (drop 20 pkt)"

definition save_headers :: "u8 list \<Rightarrow> ppp_ccb \<Rightarrow> ppp_ccb" where
  "save_headers pkt st = st\<lparr>eth_src := take 6 (drop 6 pkt), pppoe_code := pkt ! 19, pppoe_session := frame_session pkt,
     pppoe_length := load16 (drop 22 pkt)\<rparr>"

definition PPP_decode_frame :: "fsm_call \<Rightarrow> ppp_env \<Rightarrow> u8 list \<Rightarrow> ppp_event \<Rightarrow> ppp_ccb \<Rightarrow> decode_result option" where
  "PPP_decode_frame fsm env pkt ev st =
     (if ETH_JUMBO < length pkt \<or> length pkt < 24 then Some (ERROR, ev, st)
      else let st = save_headers pkt st in
        if frame_next_proto pkt = rte_cpu_to_be_16 ETH_P_PPP_DIS
        then map_option (\<lambda>(_, st). (ERROR, ev, st))
               (decode_pppoe fsm env (drop 24 pkt) (if pppoe_code st = PADS then st\<lparr>phase := LCP_PHASE\<rparr> else st))
        else if frame_next_proto pkt = rte_cpu_to_be_16 ETH_P_PPP_SES
        then if length pkt < 30 then Some (ERROR, ev, st) else decode_ppp fsm env (drop 24 pkt) ev st
        else Some (SUCCESS, ev, st))"

definition codec_cleanup_ppp_ccb :: "ppp_ccb \<Rightarrow> ppp_ccb" where
  "codec_cleanup_ppp_ccb st = store_options PPP_CP_IPV6CP [] (store_options PPP_CP_IPCP [] (store_options PPP_CP_LCP [] st))"

definition ppp_cp_timer :: "ppp_ccb \<Rightarrow> ppp_timer" where
  "ppp_cp_timer st = (if cp_id st = PPP_CP_IPV6CP then TIM_PPP_IPV6CP else TIM_PPP)"

text \<open>Frames of a session, and PADT, must carry the current session's identifier.\<close>

definition names_session :: "u8 list \<Rightarrow> bool" where
  "names_session pkt \<longleftrightarrow> frame_next_proto pkt = rte_cpu_to_be_16 ETH_P_PPP_SES \<or>
     (frame_next_proto pkt = rte_cpu_to_be_16 ETH_P_PPP_DIS \<and> pkt ! 19 = PADT)"

definition foreign_session :: "u8 list \<Rightarrow> ppp_ccb \<Rightarrow> bool" where
  "foreign_session pkt st \<longleftrightarrow>
     24 \<le> length pkt \<and> names_session pkt \<and> (session_id st = 0 \<or> frame_session pkt \<noteq> session_id st)"

text \<open>\<open>ppp_process\<close> for the subscriber that \<open>get_ccb_id\<close> found.\<close>

definition ppp_process_ccb :: "fsm_call \<Rightarrow> ppp_env \<Rightarrow> u8 list \<Rightarrow> ppp_ccb \<Rightarrow> hdl_result" where
  "ppp_process_ccb fsm env pkt st =
     (if foreign_session pkt st then Some (ERROR, st)
      else if 26 \<le> length pkt \<and> frame_next_proto pkt = rte_cpu_to_be_16 ETH_P_PPP_SES \<and>
              load16 (drop 24 pkt) = rte_cpu_to_be_16 PPP_IPV6_PROTOCOL
      then Some (SUCCESS, dhcp6_wan_input env (drop 26 pkt) st)
      else case PPP_decode_frame fsm env pkt E_UNKNOWN st of
          None \<Rightarrow> None
        | Some (ERROR, _, st) \<Rightarrow> Some (ERROR, st)
        | Some (SUCCESS, ev, st) \<Rightarrow>
            (case check_auth_result fsm env st of
               None \<Rightarrow> None
             | Some (True, st) \<Rightarrow> Some (ERROR, st)
             | Some (False, st) \<Rightarrow>
                 (case fsm (ppp_cp_timer st) ev (upd_cp (cp_id st) (\<lambda>p. p\<lparr>event := ev\<rparr>) st) of
                    None \<Rightarrow> None
                  | Some (_, st) \<Rightarrow> Some (SUCCESS, codec_cleanup_ppp_ccb st))))"

section \<open>Finding the subscriber\<close>

abbreviation MAX_VLAN_ID :: u16 where "MAX_VLAN_ID \<equiv> 4000"

record fastrg =
  vlan_userid_map :: "u16 list"
  user_count :: u16
  ppp_ccbs :: "u16 \<Rightarrow> ppp_ccb option"

datatype ccb_lookup = FOUND u16 | NOT_OURS | OUT_OF_MAP

text \<open>VLAN 0 indexes the map at \<open>-1\<close>, and a frame without a VLAN header is read past its end: neither has a
  defined value.\<close>

definition get_ccb_id :: "fastrg \<Rightarrow> u8 list \<Rightarrow> ccb_lookup" where
  "get_ccb_id node pkt =
     (let vlan = rte_be_to_cpu_16 (load16 (drop 14 pkt)) AND 0xFFF in
      if length pkt < 16 then OUT_OF_MAP
      else if MAX_VLAN_ID < vlan then NOT_OURS
      else if vlan = 0 \<or> length (vlan_userid_map node) < unat vlan then OUT_OF_MAP
      else let ccb_id = vlan_userid_map node ! (unat vlan - 1)
           in if user_count node \<le> ccb_id then NOT_OURS else FOUND ccb_id)"

definition ppp_process :: "fsm_call \<Rightarrow> ppp_env \<Rightarrow> u8 list \<Rightarrow> fastrg \<Rightarrow> (status \<times> fastrg) option" where
  "ppp_process fsm env pkt node =
     (case get_ccb_id node pkt of
        OUT_OF_MAP \<Rightarrow> None
      | NOT_OURS \<Rightarrow> Some (ERROR, node)
      | FOUND i \<Rightarrow>
          (case ppp_ccbs node i of
             None \<Rightarrow> Some (ERROR, node)
           | Some st \<Rightarrow>
               map_option (\<lambda>(s, st). (s, node\<lparr>ppp_ccbs := (ppp_ccbs node)(i \<mapsto> st)\<rparr>)) (ppp_process_ccb fsm env pkt st)))"

section \<open>Connecting and disconnecting\<close>

definition ppp_connect :: "fsm_call \<Rightarrow> ppp_env \<Rightarrow> ppp_ccb \<Rightarrow> hdl_result" where
  "ppp_connect fsm env st =
     (if END_PHASE < phase st then Some (ERROR, st)
      else let st = st\<lparr>phase := PPPOE_PHASE, pppoe := (pppoe st)\<lparr>pp_max_retransmit := MAX_RETRAN, pp_timer_counter := 0\<rparr>\<rparr>;
               start = (\<lambda>st. rte_timer_reset TIM_PPPOE (cycles_in_sec (env_clock env)) True CB_padi (st\<lparr>ppp_bool := True\<rparr>))
           in case pppoe_send_pkt fsm env ENCODE_PADI st of
                None \<Rightarrow> None
              | Some (ERROR, st) \<Rightarrow> map_option (\<lambda>st. (SUCCESS, start st)) (PPP_bye fsm env st)
              | Some (SUCCESS, st) \<Rightarrow> Some (SUCCESS, start st))"

definition ppp_disconnect :: "fsm_call \<Rightarrow> ppp_env \<Rightarrow> ppp_ccb \<Rightarrow> hdl_result" where
  "ppp_disconnect fsm env st =
     (if phase st = END_PHASE \<or> ppp_processing st then Some (ERROR, st)
      else map_option (\<lambda>st. (SUCCESS, st)) (PPP_bye fsm env st))"

definition is_ppp_ipv6_need_redial :: "bool \<Rightarrow> u8 \<Rightarrow> bool \<Rightarrow> bool" where
  "is_ppp_ipv6_need_redial ipv6_changed ph processing \<longleftrightarrow>
     ipv6_changed \<and> \<not> (ph \<noteq> DATA_PHASE \<or> processing)"

definition ppp_ipv6_redial :: "fsm_call \<Rightarrow> ppp_env \<Rightarrow> ppp_ccb \<Rightarrow> ppp_ccb option" where
  "ppp_ipv6_redial fsm env st =
     map_option (\<lambda>(s, st). if s \<noteq> SUCCESS then st\<lparr>redial_pending := False\<rparr> else st)
       (ppp_disconnect fsm env (st\<lparr>redial_pending := True\<rparr>))"

text \<open>
  Credentials are replaced as a pair. The tables the configuration also resets (MAC, neighbour, ARP
  queue, NAT and firewall hashes) belong to other components and appear as the neighbour-reset effect only.
\<close>

definition ppp_copy_credentials :: "ppp_env \<Rightarrow> u8 list \<Rightarrow> u8 list \<Rightarrow> ppp_ccb \<Rightarrow> status \<times> ppp_ccb" where
  "ppp_copy_credentials env user pwd st =
     (if \<not> env_malloc_ok env then (ERROR, st) else (SUCCESS, st\<lparr>ppp_user_acc := user, ppp_passwd := pwd\<rparr>))"

definition ppp_update_config_by_user :: "ppp_env \<Rightarrow> u16 \<Rightarrow> u8 list \<Rightarrow> u8 list \<Rightarrow> ppp_ccb \<Rightarrow> status \<times> ppp_ccb" where
  "ppp_update_config_by_user env vlan user pwd st =
     (case ppp_copy_credentials env user pwd st of
        (ERROR, st) \<Rightarrow> (ERROR, st)
      | (SUCCESS, st) \<Rightarrow> (SUCCESS, st\<lparr>vlan_id := vlan\<rparr>))"

text \<open>The session fields of a fresh configuration; a subscriber without a VLAN is unconfigured.\<close>

definition ppp_init_fields :: "ppp_env \<Rightarrow> u16 \<Rightarrow> u16 \<Rightarrow> ppp_ccb \<Rightarrow> ppp_ccb" where
  "ppp_init_fields env ccb_id vlan st =
     st\<lparr>pppoe := (pppoe st)\<lparr>pp_active := False\<rparr>, user_num := ccb_id + 1, vlan_id := vlan,
        ppp_interval := LCP_ALIVE_ECHO_INTERVAL, echo_miss_count := 0, hsi_ipv4 := 0, hsi_ipv4_gw := 0,
        hsi_primary_dns := 0xffffffff, hsi_secondary_dns := 0xffffffff,
        phase := (if vlan \<noteq> 0 then END_PHASE else NOT_CONFIGURED), mru := MAX_RECV_UNIT,
        lcp_auth_rejected := False, lcp_mru_rejected := False, lcp_magic_rejected := False,
        peer_requires_auth := False, auth_method := PAP_PROTOCOL,
        magic_num := rte_cpu_to_be_32 (env_rand env mod 0xFFFFFFFE + 1),
        req_identifier := (\<lambda>_. 0), config_request_pending := (\<lambda>_. False), dp_start_bool := False,
        ppp_bool := False, ipv6_dp_bool := False, redial_pending := False, ipv6_enabled := False\<rparr>"

definition ppp_init_config_by_user ::
  "ppp_env \<Rightarrow> u16 \<Rightarrow> u16 \<Rightarrow> u8 list \<Rightarrow> u8 list \<Rightarrow> ppp_ccb \<Rightarrow> status \<times> ppp_ccb" where
  "ppp_init_config_by_user env ccb_id vlan user pwd st =
     (case ppp_copy_credentials env user pwd st of
        (ERROR, st) \<Rightarrow> (ERROR, st)
      | (SUCCESS, st) \<Rightarrow>
          let st = pppd_ipv6_dp_gate_update (ppp_init_fields env ccb_id vlan (all_states_init st));
              st = pppd_ipv6_dp_gate_update (st\<lparr>ipv6cp_local_iid := replicate 8 0, ipv6cp_peer_iid := replicate 8 0,
                      ipv6cp_up := False\<rparr>);
              st = stop_all_timers (st\<lparr>PPP_dst_mac := replicate 6 0\<rparr>)
          in (SUCCESS, emit Nd6Reset (dhcp6_pd_stop st)))"

definition ppp_cleanup_config_by_user :: "ppp_env \<Rightarrow> u16 \<Rightarrow> ppp_ccb \<Rightarrow> ppp_ccb" where
  "ppp_cleanup_config_by_user env ccb_id st =
     snd (ppp_init_config_by_user env ccb_id 0 [0x61, 0x73, 0x64, 0x66] [0x7a, 0x78, 0x63, 0x76] st)"

definition fastrg_force_terminate_hsi :: "ppp_env \<Rightarrow> ppp_ccb \<Rightarrow> ppp_ccb" where
  "fastrg_force_terminate_hsi env st = (if phase st = NOT_CONFIGURED then st else exit_ppp env st)"

text \<open>Switching IPv6 for a subscriber; \<open>queued\<close> tells whether the control queue took the event.\<close>

definition set_ipv6_enable :: "bool \<Rightarrow> bool \<Rightarrow> ppp_ccb \<Rightarrow> status \<times> ppp_ccb" where
  "set_ipv6_enable queued enable st0 =
     (let st = pppd_ipv6_dp_gate_update (st0\<lparr>ipv6_enabled := enable\<rparr>)
      in if ipv6_enabled st \<noteq> ipv6_enabled st0
         then if queued then (SUCCESS, emit Ipv6Changed st) else (ERROR, st)
         else (SUCCESS, st))"

definition pppd_dp_gate_open :: "ppp_ccb \<Rightarrow> bool" where
  "pppd_dp_gate_open st \<longleftrightarrow> dp_start_bool st"

definition pppd_ipv6_dp_gate_open :: "ppp_ccb \<Rightarrow> bool" where
  "pppd_ipv6_dp_gate_open st \<longleftrightarrow> ipv6_dp_bool st"

end
