(* ===== verification/Ppp_Inv.thy ===== *)
theory Ppp_Inv
  imports Ppp_Term Ppp_Codec
begin

text \<open>
  Invariants of a subscriber's control block. The locale \<open>ppp_invariant\<close> collects what a predicate must
  survive (the elementary updates the handlers are built from, and the composite steps that move the
  IPv6 gate); inside it every handler, the automaton, teardown, decoding and the session entry points are
  shown to preserve the predicate. It is interpreted for the IPv6 gate and for well-formedness.
\<close>

lemma opt_walk_keeps:
  assumes body: "\<And>ty val s r s'. Q s \<Longrightarrow> body ty val s = (r, s') \<Longrightarrow> Q s'"
  shows "Q s \<Longrightarrow> opt_walk body bytes s = (r, s') \<Longrightarrow> Q s'"
proof (induction "length bytes" arbitrary: bytes s rule: less_induct)
  case less
  let ?v = "take (unat (bytes ! 1) - 2) (drop 2 bytes)"
  obtain ok s1 where b: "body (bytes ! 0) ?v s = (ok, s1)" by fastforce
  have q1: "Q s1" by (rule body [OF less.prems(1) b])
  show ?case
  proof (cases "bytes = [] \<or> length bytes < 2 \<or> unat (bytes ! 1) < 2 \<or> length bytes < unat (bytes ! 1) \<or> \<not> ok")
    case True
    have "opt_walk body bytes s = (r, s')" by (rule less.prems(2))
    with less.prems(1) True b q1 show ?thesis by (subst (asm) opt_walk.simps) (auto split: if_splits)
  next
    case False
    then have "opt_walk body (drop (unat (bytes ! 1)) bytes) s1 = (r, s')"
      using less.prems(2) b by (subst (asm) opt_walk.simps) simp
    with False q1 show ?thesis by (intro less.hyps [of "drop (unat (bytes ! 1)) bytes" s1]) auto
  qed
qed

section \<open>The interface\<close>

locale ppp_invariant =
  fixes P :: "ppp_ccb \<Rightarrow> bool"
  assumes p_cp: "P st \<Longrightarrow> P (upd_cp c f st)"
    and p_cp_id: "P st \<Longrightarrow> P (st\<lparr>cp_id := c\<rparr>)"
    and p_phase: "P st \<Longrightarrow> ph \<le> DATA_PHASE \<Longrightarrow> P (st\<lparr>phase := ph\<rparr>)"
    and p_rollback: "P st \<Longrightarrow> P (ppp_phase_rollback st)"
    and p_emit: "P st \<Longrightarrow> P (emit e st)"
    and p_stop: "P st \<Longrightarrow> P (rte_timer_stop t st)"
    and p_reset: "P st \<Longrightarrow> P (rte_timer_reset t n per cbk st)"
    and p_flags: "P st \<Longrightarrow> P (st\<lparr>dp_start_bool := b\<rparr>)" "P st \<Longrightarrow> P (st\<lparr>ppp_bool := b\<rparr>)"
      "P st \<Longrightarrow> P (st\<lparr>ppp_processing := b\<rparr>)" "P st \<Longrightarrow> P (st\<lparr>redial_pending := b\<rparr>)"
    and p_request: "P st \<Longrightarrow> P (st\<lparr>config_request_pending := q\<rparr>)" "P st \<Longrightarrow> P (st\<lparr>req_identifier := i\<rparr>)"
    and p_echo: "P st \<Longrightarrow> P (st\<lparr>echo_miss_count := m\<rparr>)"
    and p_dns: "P st \<Longrightarrow> P (st\<lparr>hsi_primary_dns := a\<rparr>)" "P st \<Longrightarrow> P (st\<lparr>hsi_secondary_dns := a\<rparr>)"
    and p_addr: "P st \<Longrightarrow> P (st\<lparr>hsi_ipv4 := a\<rparr>)" "P st \<Longrightarrow> P (st\<lparr>hsi_ipv4_gw := a\<rparr>)"
    and p_pppoe: "P st \<Longrightarrow> P (st\<lparr>pppoe := pp\<rparr>)" "P st \<Longrightarrow> P (st\<lparr>pppoe_length := l\<rparr>)"
      "P st \<Longrightarrow> P (st\<lparr>session_id := sid\<rparr>)" "P st \<Longrightarrow> P (st\<lparr>PPP_dst_mac := mac\<rparr>)"
      "P st \<Longrightarrow> P (save_headers pkt st)"
    and p_lcp: "P st \<Longrightarrow> P (st\<lparr>mru := u\<rparr>)" "P st \<Longrightarrow> P (st\<lparr>lcp_auth_rejected := b\<rparr>)"
      "P st \<Longrightarrow> P (st\<lparr>lcp_mru_rejected := b\<rparr>)" "P st \<Longrightarrow> P (st\<lparr>lcp_magic_rejected := b\<rparr>)"
      "P st \<Longrightarrow> P (st\<lparr>peer_requires_auth := b\<rparr>)" "P st \<Longrightarrow> P (st\<lparr>auth_method := l\<rparr>)"
      "P st \<Longrightarrow> P (st\<lparr>magic_num := n4\<rparr>)"
    and p_iid: "P st \<Longrightarrow> length iid = 8 \<Longrightarrow> P (st\<lparr>ipv6cp_local_iid := iid\<rparr>)" "P st \<Longrightarrow> P (st\<lparr>ipv6cp_peer_iid := iid\<rparr>)"
    and p_ipv6cp: "P st \<Longrightarrow> P (pppd_ipv6_dp_gate_update (st\<lparr>ipv6cp_up := b\<rparr>))"
    and p_pd_stop: "P st \<Longrightarrow> P (dhcp6_pd_stop st)"
    and p_pd_start: "P st \<Longrightarrow> P (dhcp6_pd_start env st)"
    and p_ipv6_enable: "P st \<Longrightarrow> P (pppd_ipv6_dp_gate_update (st\<lparr>ipv6_enabled := b\<rparr>))"
    and p_pd_timer: "P st \<Longrightarrow> P (dhcp6_timer_cb env st)"
    and p_pd_input: "P st \<Longrightarrow> P (dhcp6_wan_input env ip st)"
begin

lemmas atoms = p_cp p_cp_id p_phase p_rollback p_emit p_stop p_reset p_flags p_request p_echo p_dns p_addr p_pppoe p_lcp
  p_iid p_ipv6cp p_pd_stop p_pd_start

lemma wan_ctrl_tx_keeps: "P st \<Longrightarrow> P (wan_ctrl_tx f st)"
  by (simp add: wan_ctrl_tx_def p_emit)

lemma bye_prologue_keeps: "P st \<Longrightarrow> P (bye_prologue st)"
  by (simp add: bye_prologue_def stop_all_timers_def Let_def atoms)

lemma all_states_init_keeps: "P st \<Longrightarrow> P (all_states_init st)"
  by (simp add: all_states_init_def p_cp)

lemma ipv6cp_stop_keeps: "P st \<Longrightarrow> P (ipv6cp_stop st)"
  by (simp add: ipv6cp_stop_def Let_def atoms)

lemma exit_ppp_keeps: "P st \<Longrightarrow> P (exit_ppp env st)"
  by (simp add: exit_ppp_def stop_all_timers_def all_states_init_keeps Let_def atoms)

lemma iid_init_keeps: "P st \<Longrightarrow> P (ppp_ipv6cp_iid_init env st)"
  by (simp add: ppp_ipv6cp_iid_init_def Let_def p_iid)

definition keeps :: "fsm_call \<Rightarrow> bool" where
  "keeps fsm \<longleftrightarrow> (\<forall>tim ev st r st'. P st \<longrightarrow> fsm tim ev st = Some (r, st') \<longrightarrow> P st')"

lemma keepsD: "keeps fsm \<Longrightarrow> fsm tim ev st = Some (r, st') \<Longrightarrow> P st \<Longrightarrow> P st'"
  by (auto simp: keeps_def)

lemma returning_keeps:
  assumes "keeps fsm" and "returning_success (fsm tim ev st) = Some (r, st')" and "P st"
  shows "P st'"
  using assms by (auto simp: returning_success_def dest: keepsD)

lemma lcp_close_keeps: "keeps fsm \<Longrightarrow> lcp_close fsm st = Some st' \<Longrightarrow> P st \<Longrightarrow> P st'"
  by (auto simp: lcp_close_def atoms elim!: keepsD)

lemma PPP_bye_keeps:
  assumes "keeps fsm" and "PPP_bye fsm env st = Some st'" and "P st"
  shows "P st'"
proof -
  have fin: "P (exit_ppp env ((bye_prologue s)\<lparr>ppp_bool := False, ppp_processing := False\<rparr>))" if "P s" for s
    using that by (simp add: exit_ppp_keeps bye_prologue_keeps atoms)
  consider "phase st = END_PHASE" | "phase st = PPPOE_PHASE" | "phase st \<noteq> END_PHASE" "phase st \<noteq> PPPOE_PHASE" by blast
  then show ?thesis
  proof cases
    case 1
    with assms fin show ?thesis by (auto simp: PPP_bye_end)
  next
    case 2
    have "P (all_states_init ((bye_prologue st)\<lparr>phase := END_PHASE\<rparr>))"
      using assms(3) by (simp add: all_states_init_keeps bye_prologue_keeps atoms)
    with assms(2) fin 2 show ?thesis by (auto simp: PPP_bye_pppoe PPP_bye_end)
  next
    case 3
    have "lcp_close fsm ((bye_prologue st)\<lparr>dp_start_bool := False, phase := LCP_PHASE\<rparr>) = Some st' \<or>
        lcp_close fsm (bye_prologue st) = Some st' \<or>
        st' = exit_ppp env ((bye_prologue st)\<lparr>ppp_bool := False, ppp_processing := False\<rparr>)"
      using assms(2) 3 by (subst (asm) PPP_bye.simps) (auto simp: Let_def split: if_splits)
    then show ?thesis using lcp_close_keeps [OF assms(1)] assms(3) fin bye_prologue_keeps by (auto simp: atoms)
  qed
qed

lemma pppoe_send_pkt_keeps:
  assumes "keeps fsm" and "pppoe_send_pkt fsm env enc st = Some (r, st')" and "P st"
  shows "P st'"
  using assms(2,3)
  by (cases enc) (auto simp: pppoe_send_pkt_def Let_def exit_ppp_keeps atoms elim!: PPP_bye_keeps [OF assms(1)]
      split: if_splits option.splits)

lemma open_ncps_keeps:
  assumes "keeps fsm" and "open_ncps fsm env st = Some st'" and "P st"
  shows "P st'"
proof -
  obtain r st1 where f: "fsm TIM_PPP E_OPEN (st\<lparr>cp_id := PPP_CP_IPCP, phase := IPCP_PHASE\<rparr>) = Some (r, st1)"
    using assms(2) by (auto simp: open_ncps_def split: option.splits)
  have "P st1" by (rule keepsD [OF assms(1) f]) (simp add: assms(3) atoms)
  then show ?thesis using assms(2) f
    by (auto simp: open_ncps_def iid_init_keeps atoms split: if_splits elim!: keepsD [OF assms(1)])
qed

lemma build_config_request_keeps: "P st \<Longrightarrow> build_config_request st = (f, st') \<Longrightarrow> P st'"
  by (auto simp: build_config_request_def Let_def atoms)

lemma A_this_layer_up_keeps:
  assumes "keeps fsm" and "A_this_layer_up fsm env st = Some (r, st')" and "P st"
  shows "P st'"
  using assms(2,3) open_ncps_keeps [OF assms(1), of env "rte_timer_reset TIM_PPP_ALIVE
      (ucast (ppp_interval st) * cycles_in_sec (env_clock env)) True CB_keepalive (st\<lparr>echo_miss_count := 0\<rparr>)"]
  by (auto simp: A_this_layer_up_def lcp_layer_up_def ipcp_layer_up_def ipv6cp_layer_up_def Let_def
      build_auth_request_pap_def ppp_report_connection_status_def wan_ctrl_tx_keeps atoms split: if_splits prod.splits)

lemma A_this_layer_down_keeps:
  assumes "keeps fsm" and "A_this_layer_down fsm tim st = Some (r, st')" and "P st"
  shows "P st'"
  using assms(2,3)
  by (cases "cp_id st") (auto simp: A_this_layer_down_def Let_def atoms elim!: returning_keeps [OF assms(1)]
      dest!: keepsD [OF assms(1)])

lemma run_hdl_keeps:
  assumes "keeps fsm" and "run_hdl fsm env tim h st = Some (r, st')" and "P st"
  shows "P st'"
proof (cases h)
  case H_this_layer_up
  with assms show ?thesis by (auto simp: run_hdl_def elim: A_this_layer_up_keeps)
next
  case H_this_layer_down
  with assms show ?thesis by (auto simp: run_hdl_def elim: A_this_layer_down_keeps)
next
  case H_send_padt
  with assms show ?thesis
    by (auto simp: run_hdl_def A_send_padt_def atoms dest!: pppoe_send_pkt_keeps [OF assms(1)])
next
  case H_send_config_request
  obtain f st1 where b: "build_config_request st = (f, st1)" by fastforce
  then have "P (count_down (wan_ctrl_tx f st1))"
    using assms(3) by (simp add: build_config_request_keeps count_down_def wan_ctrl_tx_keeps atoms)
  with H_send_config_request assms b show ?thesis
    by (auto simp: run_hdl_def A_send_config_request_def atoms elim!: returning_keeps [OF assms(1)] split: if_splits)
qed (use assms in \<open>auto simp: run_hdl_def A_this_layer_start_def A_this_layer_finish_def A_create_down_event_def
    A_create_close_to_lower_layer_def A_send_terminate_request_def leaf_defs restart_timer_def count_down_def
    ipv6cp_stop_keeps wan_ctrl_tx_keeps atoms elim!: returning_keeps [OF assms(1)] split: if_splits option.splits\<close>)

lemma run_hdls_keeps:
  assumes "keeps fsm" and "run_hdls k fsm env tim i j st = Some (r, st')" and "P st"
  shows "P st'"
  using assms(2,3)
proof (induction k arbitrary: j st)
  case (Suc k)
  from Suc.prems show ?case
    by (auto simp: Let_def atoms split: if_splits option.splits status.splits prod.splits
        dest!: run_hdl_keeps [OF assms(1)] intro: Suc.IH)
qed simp

lemma step_keeps: "keeps fsm \<Longrightarrow> keeps (ppp_fsm_step fsm env)"
  unfolding keeps_def [of "ppp_fsm_step fsm env"]
  by (auto simp: ppp_fsm_step_def Let_def atoms split: if_splits dest!: run_hdls_keeps)

lemma PPP_FSM_keeps: "keeps (PPP_FSM n env)"
proof (induction n)
  case 0
  then show ?case by (simp add: keeps_def PPP_FSM.simps)
next
  case (Suc n)
  then show ?case unfolding PPP_FSM_Suc by (rule step_keeps)
qed

subsection \<open>Decoding\<close>

lemma check_option_keeps:
  assumes "P (nk_ccb w)" and "check_option c flag ty val w = (r, w')"
  shows "P (nk_ccb w')"
  using assms
  by (cases c) (auto simp: check_option_def lcp_check_option_def ipcp_check_option_def ipv6cp_check_option_def
      nk_keep_def nk_answer_def Let_def atoms split: if_splits)

lemma check_nak_rej_keeps:
  assumes "check_nak_rej c flag len st = (r, st')" and "P st"
  shows "P st'"
proof -
  obtain ok w where w: "opt_walk (check_option c flag) (cp_options c len st) \<lparr>nk_ccb = st, nk_done = [], nk_tmp = []\<rparr> = (ok, w)"
    by fastforce
  have "P (nk_ccb w)"
    by (rule opt_walk_keeps [OF _ _ w, where Q = "\<lambda>w. P (nk_ccb w)"]) (auto simp: assms(2) intro: check_option_keeps)
  then show ?thesis using assms w by (auto simp: check_nak_rej_def Let_def atoms split: if_splits)
qed

lemma config_request_checks_keeps:
  assumes "config_request_checks chk good ev st = (s, ev', st')" and "P st"
    and "\<And>flag st r st'. chk flag st = (r, st') \<Longrightarrow> P st \<Longrightarrow> P st'"
    and "\<And>st s ev' st'. good st = (s, ev', st') \<Longrightarrow> P st \<Longrightarrow> P st'"
  shows "P st'"
proof -
  obtain r1 st1 where 1: "chk CONFIG_NAK st = (r1, st1)" by fastforce
  obtain r2 st2 where 2: "chk CONFIG_REJECT st1 = (r2, st2)" by fastforce
  have "P st1" using assms(3) [OF 1 assms(2)] .
  moreover from this have "P st2" by (rule assms(3) [OF 2])
  ultimately show ?thesis using assms(1,4) 1 2
    by (auto simp: config_request_checks_def split: check_nak_rej_result.splits)
qed

definition keeps_option :: "(u8 \<Rightarrow> u8 list \<Rightarrow> ppp_ccb \<Rightarrow> bool \<times> ppp_ccb) \<Rightarrow> bool" where
  "keeps_option body \<longleftrightarrow> (\<forall>ty val st. P st \<longrightarrow> P (snd (body ty val st)))"

lemma opt_walk_P:
  assumes "keeps_option body" and "opt_walk body bytes st = (r, st')" and "P st"
  shows "P st'"
  by (rule opt_walk_keeps [where Q = P, OF _ assms(3,2)]) (metis assms(1) keeps_option_def snd_conv)

lemma answer_walk_keeps:
  assumes "keeps_option body" and "answer_walk c body ev' ev len st = (s, e, st')" and "P st"
  shows "P st'"
proof -
  obtain ok st1 where w: "opt_walk body (cp_options c len st) st = (ok, st1)" by fastforce
  have "P st1" by (rule opt_walk_P [OF assms(1) w assms(3)])
  then show ?thesis using assms w
    by (cases ok) (auto simp: answer_walk_def request_answered_def atoms split: if_splits)
qed

lemma options_keep:
  "keeps_option lcp_ack_option" "keeps_option (lcp_nak_option env)" "keeps_option lcp_reject_option"
  "keeps_option ipcp_request_option" "keeps_option ipcp_ack_option" "keeps_option ipcp_reject_option"
  "keeps_option (ipv6cp_iid_option (\<lambda>v st. st\<lparr>ipv6cp_peer_iid := v\<rparr>))"
  "keeps_option (ipv6cp_iid_option (\<lambda>v st. st\<lparr>ipv6cp_local_iid := v\<rparr>))"
  "keeps_option (ipv6cp_iid_option (\<lambda>_ st. st))"
  by (auto simp: keeps_option_def lcp_ack_option_def lcp_nak_option_def lcp_reject_option_def ipcp_request_option_def
      ipcp_ack_option_def ipcp_reject_option_def ipcp_value_option_def ipv6cp_iid_option_def Let_def atoms)

lemmas answers_keep = options_keep [THEN answer_walk_keeps]

lemma checks_keep:
  "check_lcp_nak_rej env flag len st = (r, st') \<Longrightarrow> P st \<Longrightarrow> P st'"
  "check_ipcp_nak_rej env flag len st = (r, st') \<Longrightarrow> P st \<Longrightarrow> P st'"
  "check_ipv6cp_nak_rej flag len st = (r, st') \<Longrightarrow> P st \<Longrightarrow> P st'"
  by (auto simp: check_lcp_nak_rej_def check_ipcp_nak_rej_def check_ipv6cp_nak_rej_def split: if_splits
      elim: check_nak_rej_keeps)

lemma set_hdr_length_keeps: "P st \<Longrightarrow> P (set_hdr_length c l st)"
  by (simp add: set_hdr_length_def p_cp)

lemma stop_timer_keeps:
  "stop_timer_on_success tim (s0, e0, st0) = (s, e, st') \<Longrightarrow> P st0 \<Longrightarrow> P st'"
  by (auto simp: stop_timer_on_success_def atoms split: if_splits)

lemma stop_timer_answer_keeps:
  assumes "keeps_option body" and "stop_timer_on_success tim (answer_walk c body ev' ev len st) = (s, e, st')" and "P st"
  shows "P st'"
proof -
  obtain s0 e0 st0 where a: "answer_walk c body ev' ev len st = (s0, e0, st0)" by (metis prod_cases3)
  have "P st0" by (rule answer_walk_keeps [OF assms(1) a assms(3)])
  then show ?thesis using assms(2) a by (auto intro: stop_timer_keeps)
qed

lemma decode_lcp_keeps:
  assumes "decode_lcp env len ev tim st = (s, e, st')" and "P st"
  shows "P st'"
proof -
  let ?st = "st\<lparr>echo_miss_count := 0\<rparr>"
  have st: "P ?st" using assms(2) by (rule p_echo)
  have cr: "P st'" if "config_request_checks (\<lambda>flag. check_lcp_nak_rej env flag len)
      (\<lambda>st. (SUCCESS, E_RECV_GOOD_CONFIG_REQUEST, set_hdr_length PPP_CP_LCP (rte_cpu_to_be_16 len) st)) ev ?st = (s, e, st')"
    by (rule config_request_checks_keeps [OF that st]) (auto intro: checks_keep set_hdr_length_keeps)
  show ?thesis using assms(1) st
    by (auto simp: decode_lcp_def Let_def lcp_proto_reject_def ipv6cp_stop_keeps p_stop split: if_splits
        elim: cr dest: answers_keep stop_timer_answer_keeps [OF options_keep(1)])
qed

lemma ipcp_good_request_keeps: "ipcp_good_request ev len st = (s, e, st') \<Longrightarrow> P st \<Longrightarrow> P st'"
  by (auto simp: ipcp_good_request_def set_hdr_length_keeps split: prod.splits bool.splits
      dest!: opt_walk_P [OF options_keep(4)])

lemma ipcp_config_ack_keeps: "ipcp_config_ack ev tim len st = (s, e, st') \<Longrightarrow> P st \<Longrightarrow> P st'"
  by (auto simp: ipcp_config_ack_def request_answered_def Let_def atoms split: prod.splits if_splits
      dest!: opt_walk_P [OF options_keep(5)])

lemma decode_ipcp_keeps:
  assumes "decode_ipcp env len ev tim st = (s, e, st')" and "P st"
  shows "P st'"
proof -
  let ?st = "st\<lparr>echo_miss_count := 0\<rparr>"
  have st: "P ?st" using assms(2) by (rule p_echo)
  have cr: "P st'" if "config_request_checks (\<lambda>flag. check_ipcp_nak_rej env flag len) (ipcp_good_request ev len) ev ?st = (s, e, st')"
    by (rule config_request_checks_keeps [OF that st]) (auto intro: checks_keep ipcp_good_request_keeps)
  show ?thesis using assms(1) st
    by (auto simp: decode_ipcp_def Let_def p_stop split: if_splits elim: cr dest: answers_keep ipcp_config_ack_keeps)
qed

lemma ipv6cp_good_request_keeps: "ipv6cp_good_request len st = (s, e, st') \<Longrightarrow> P st \<Longrightarrow> P st'"
  by (auto simp: ipv6cp_good_request_def set_hdr_length_keeps split: prod.splits dest!: opt_walk_P [OF options_keep(7)])

lemma ipv6cp_config_reject_keeps:
  assumes "keeps fsm" and "ipv6cp_config_reject fsm ev tim len st = Some (s, e, st')" and "P st"
  shows "P st'"
  using assms(2,3)
  by (auto simp: ipv6cp_config_reject_def request_answered_def atoms split: if_splits prod.splits bool.splits
      elim!: keepsD [OF assms(1)])

lemma decode_ipv6cp_keeps:
  assumes "keeps fsm" and "decode_ipv6cp fsm len ev tim st = Some (s, e, st')" and "P st"
  shows "P st'"
proof -
  let ?st = "st\<lparr>echo_miss_count := 0\<rparr>"
  have st: "P ?st" using assms(3) by (rule p_echo)
  have cr: "P st'" if "config_request_checks (\<lambda>flag. check_ipv6cp_nak_rej flag len) (ipv6cp_good_request len) ev ?st = (s, e, st')"
    by (rule config_request_checks_keeps [OF that st]) (auto intro: checks_keep ipv6cp_good_request_keeps)
  show ?thesis using assms(2) st
    by (auto simp: decode_ipv6cp_def Let_def p_stop split: if_splits elim: cr dest: answers_keep
        stop_timer_answer_keeps [OF options_keep(9)] ipv6cp_config_reject_keeps [OF assms(1)])
qed

lemma decode_pap_keeps:
  assumes "keeps fsm" and "decode_pap fsm env proto hdr ev st = Some (s, e, st')" and "P st"
  shows "P st'"
  using assms(2,3)
  by (auto simp: decode_pap_def store_packet_def wan_ctrl_tx_keeps atoms split: if_splits elim!: keepsD [OF assms(1)])

lemma decode_chap_keeps: "decode_chap env proto hdr d ev st = (s, e, st') \<Longrightarrow> P st \<Longrightarrow> P st'"
  by (auto simp: decode_chap_def store_packet_def wan_ctrl_tx_keeps atoms split: if_splits)

lemma decode_ppp_keeps:
  assumes "keeps fsm" and "decode_ppp fsm env pl ev st = Some (s, e, st')" and "P st"
  shows "P st'"
  using assms(2,3)
  by (auto simp: decode_ppp_def Let_def store_options_def store_packet_def wan_ctrl_tx_keeps atoms
      split: if_splits status.splits prod.splits
      dest!: decode_lcp_keeps decode_ipcp_keeps decode_chap_keeps decode_ipv6cp_keeps [OF assms(1)] decode_pap_keeps [OF assms(1)])

lemma check_auth_result_keeps:
  assumes "keeps fsm" and "check_auth_result fsm env st = Some (b, st')" and "P st"
  shows "P st'"
  using assms(2,3)
  by (auto simp: check_auth_result_def Let_def atoms split: if_splits
      dest!: open_ncps_keeps [OF assms(1)] elim!: keepsD [OF assms(1)])

subsection \<open>Discovery and session entry points\<close>

lemma store_tags_keeps: "store_tags tags st = Some st' \<Longrightarrow> P st \<Longrightarrow> P st'"
  by (auto simp: store_tags_def Let_def atoms split: if_splits)

lemma decode_pado_keeps:
  assumes "keeps fsm" and "decode_pado fsm env tags st = Some (r, st')" and "P st"
  shows "P st'"
  using assms(2,3)
  by (auto simp: decode_pado_def Let_def atoms exit_ppp_keeps split: if_splits option.splits status.splits
      dest!: store_tags_keeps pppoe_send_pkt_keeps [OF assms(1)])

lemma decode_pppoe_keeps:
  assumes "keeps fsm" and "decode_pppoe fsm env tags st = Some (r, st')" and "P st"
  shows "P st'"
  using assms(2,3)
  by (auto simp: decode_pppoe_def decode_pads_def decode_padt_def all_states_init_keeps atoms
      split: if_splits option.splits elim!: decode_pado_keeps [OF assms(1)] returning_keeps [OF assms(1)]
        PPP_bye_keeps [OF assms(1)] dest!: store_tags_keeps)

lemma PPP_decode_frame_keeps:
  assumes "keeps fsm" and "PPP_decode_frame fsm env pkt ev st = Some (s, e, st')" and "P st"
  shows "P st'"
  using assms(2,3)
  by (auto simp: PPP_decode_frame_def Let_def atoms split: if_splits
      elim!: decode_pppoe_keeps [OF assms(1)] decode_ppp_keeps [OF assms(1)])

lemma ppp_process_ccb_keeps:
  assumes "keeps fsm" and "ppp_process_ccb fsm env pkt st = Some (r, st')" and "P st"
  shows "P st'"
  using assms(2,3)
  by (auto simp: ppp_process_ccb_def codec_cleanup_ppp_ccb_def store_options_def atoms p_pd_input
      split: if_splits option.splits status.splits bool.splits
      dest!: PPP_decode_frame_keeps [OF assms(1)] check_auth_result_keeps [OF assms(1)] keepsD [OF assms(1)])

lemma ppp_connect_keeps:
  assumes "keeps fsm" and "ppp_connect fsm env st = Some (r, st')" and "P st"
  shows "P st'"
  using assms(2,3)
  by (auto simp: ppp_connect_def Let_def atoms split: if_splits option.splits status.splits
      dest!: PPP_bye_keeps [OF assms(1)] pppoe_send_pkt_keeps [OF assms(1)])

lemma ppp_disconnect_keeps:
  assumes "keeps fsm" and "ppp_disconnect fsm env st = Some (r, st')" and "P st"
  shows "P st'"
  using assms(2,3)
  by (auto simp: ppp_disconnect_def split: if_splits dest!: PPP_bye_keeps [OF assms(1)])

lemma ppp_ipv6_redial_keeps:
  assumes "keeps fsm" and "ppp_ipv6_redial fsm env st = Some st'" and "P st"
  shows "P st'"
proof -
  obtain r st1 where d: "ppp_disconnect fsm env (st\<lparr>redial_pending := True\<rparr>) = Some (r, st1)"
    using assms(2) by (auto simp: ppp_ipv6_redial_def)
  have "P st1" by (rule ppp_disconnect_keeps [OF assms(1) d]) (simp add: assms(3) atoms)
  with assms(2) d show ?thesis by (auto simp: ppp_ipv6_redial_def atoms)
qed

lemma keepalive_keeps:
  assumes "keeps fsm" and "PPP_keepalive_cb fsm env st = Some st'" and "P st"
  shows "P st'"
  using assms(2,3)
  by (auto simp: PPP_keepalive_cb_def wan_ctrl_tx_keeps atoms split: if_splits dest!: PPP_bye_keeps [OF assms(1)])

lemma timer_cb_keeps:
  assumes "keeps fsm" and "P st"
  shows "send_config_request_cb fsm tim c st = Some (r, st') \<Longrightarrow> P st'"
    and "send_terminate_request_cb fsm env tim c st = Some (r, st') \<Longrightarrow> P st'"
    and "A_padi_timer_func fsm env st = Some (r, st') \<Longrightarrow> P st'"
    and "A_padr_timer_func fsm env st = Some (r, st') \<Longrightarrow> P st'"
    and "P (nd6_ra_timer_cb st)"
proof -
  have c: "P (st\<lparr>cp_id := c\<rparr>)" using assms(2) by (rule p_cp_id)
  note h = run_hdl_keeps [OF assms(1) _ c, of env tim _ r st']
  show "send_config_request_cb fsm tim c st = Some (r, st') \<Longrightarrow> P st'"
    using h [of H_send_config_request] by (simp add: send_config_request_cb_def run_hdl_def)
  show "send_terminate_request_cb fsm env tim c st = Some (r, st') \<Longrightarrow> P st'"
    using h [of H_send_terminate_request] by (simp add: send_terminate_request_cb_def run_hdl_def)
  show "A_padi_timer_func fsm env st = Some (r, st') \<Longrightarrow> P st'" "A_padr_timer_func fsm env st = Some (r, st') \<Longrightarrow> P st'"
    using pppoe_send_pkt_keeps [OF assms(1) _ assms(2)] by (simp_all add: A_padi_timer_func_def A_padr_timer_func_def)
  show "P (nd6_ra_timer_cb st)" using assms(2) by (simp add: nd6_ra_timer_cb_def nd6_ra_stop_def atoms)
qed

lemma set_ipv6_enable_keeps: "set_ipv6_enable queued b st = (r, st') \<Longrightarrow> P st \<Longrightarrow> P st'"
  by (auto simp: set_ipv6_enable_def Let_def p_ipv6_enable p_emit split: if_splits)

lemma force_terminate_keeps: "P st \<Longrightarrow> P (fastrg_force_terminate_hsi env st)"
  by (simp add: fastrg_force_terminate_hsi_def exit_ppp_keeps)

end

section \<open>The control thread\<close>

text \<open>
  One step of the control thread on a subscriber: a frame from the WAN, a northbound command, or the
  expiry of an armed timer with the callback it was armed with. A single-shot timer is no longer armed
  when its callback runs.
\<close>

definition fired :: "ppp_timer \<Rightarrow> armed \<Rightarrow> ppp_ccb \<Rightarrow> ppp_ccb" where
  "fired t a st = (if periodical a then st else rte_timer_stop t st)"

definition run_timer_cb :: "fsm_call \<Rightarrow> ppp_env \<Rightarrow> ppp_timer \<Rightarrow> timer_cb \<Rightarrow> ppp_ccb \<Rightarrow> ppp_ccb option" where
  "run_timer_cb fsm env t c st =
     (case c of
        CB_send_config_request p \<Rightarrow> map_option snd (send_config_request_cb fsm t p st)
      | CB_send_terminate_request p \<Rightarrow> map_option snd (send_terminate_request_cb fsm env t p st)
      | CB_padi \<Rightarrow> map_option snd (A_padi_timer_func fsm env st)
      | CB_padr \<Rightarrow> map_option snd (A_padr_timer_func fsm env st)
      | CB_keepalive \<Rightarrow> PPP_keepalive_cb fsm env st
      | CB_dhcp6 \<Rightarrow> Some (dhcp6_timer_cb env st)
      | CB_ra \<Rightarrow> Some (nd6_ra_timer_cb st))"

inductive session_step :: "ppp_ccb \<Rightarrow> ppp_ccb \<Rightarrow> bool" where
  frame: "ppp_process_ccb (PPP_FSM 6 env) env pkt st = Some (r, st') \<Longrightarrow> session_step st st'"
| connect: "ppp_connect (PPP_FSM 6 env) env st = Some (r, st') \<Longrightarrow> session_step st st'"
| disconnect: "ppp_disconnect (PPP_FSM 6 env) env st = Some (r, st') \<Longrightarrow> session_step st st'"
| redial: "is_ppp_ipv6_need_redial True (phase st) (ppp_processing st) \<Longrightarrow>
    ppp_ipv6_redial (PPP_FSM 6 env) env st = Some st' \<Longrightarrow> session_step st st'"
| force: "session_step st (fastrg_force_terminate_hsi env st)"
| enable: "set_ipv6_enable queued b st = (r, st') \<Longrightarrow> session_step st st'"
| timer: "timers st t = Some a \<Longrightarrow> run_timer_cb (PPP_FSM 6 env) env t (cb a) (fired t a st) = Some st' \<Longrightarrow> session_step st st'"

inductive_cases session_step_cases: "session_step st st'"

context ppp_invariant
begin

lemma run_timer_cb_keeps:
  assumes "keeps fsm" and "run_timer_cb fsm env t c st = Some st'" and "P st"
  shows "P st'"
proof -
  note cbs = timer_cb_keeps [OF assms(1,3)] keepalive_keeps [OF assms(1) _ assms(3)] p_pd_timer [OF assms(3)]
  show ?thesis using assms(2) by (cases c) (auto simp: run_timer_cb_def cbs(5,7) elim: cbs(1-4,6))
qed

lemma session_step_keeps:
  assumes "session_step st st'" and "P st"
  shows "P st'"
  using assms
proof (induction rule: session_step.induct)
  case (timer st t a env st')
  then have "P (fired t a st)" by (simp add: fired_def p_stop)
  with timer(2) show ?case by (rule run_timer_cb_keeps [OF PPP_FSM_keeps])
next
  case (redial st env st')
  then show ?case by (blast intro: ppp_ipv6_redial_keeps [OF PPP_FSM_keeps])
qed (blast intro: ppp_process_ccb_keeps [OF PPP_FSM_keeps] ppp_connect_keeps [OF PPP_FSM_keeps]
    ppp_disconnect_keeps [OF PPP_FSM_keeps] set_ipv6_enable_keeps force_terminate_keeps)+

lemma session_reachable_keeps: "session_step\<^sup>*\<^sup>* st st' \<Longrightarrow> P st \<Longrightarrow> P st'"
  by (induction rule: rtranclp_induct) (auto intro: session_step_keeps)

end

end
