(* ===== verification/Dhcp6_Lease.thy ===== *)
theory Dhcp6_Lease
  imports Dhcp6
begin

text \<open>
  What the prefix-delegation client guarantees: a parsed response carries a /56 (or says that there is
  none) and a server identifier that fits the buffer; every client operation keeps the lease
  consistent with the client's state; and messages that do not belong to the exchange change nothing.
\<close>

section \<open>Parsed responses\<close>

definition resp_lease_ok :: "dhcp6_response \<Rightarrow> bool" where
  "resp_lease_ok r \<longleftrightarrow> resp_prefix_plen r = DHCP6_PD_PLEN \<and> length (resp_prefix r) = 16"

lemma ia_pd_options_end: "dhcp6_ia_pd_options [] has r = Some (has, r)"
  by (simp add: dhcp6_ia_pd_options.simps)

lemma ia_pd_options_step:
  "bytes \<noteq> [] \<Longrightarrow> dhcp6_ia_pd_options bytes has r =
     (case dhcp6_next_option bytes of
        None \<Rightarrow> None
      | Some (code, val, rest) \<Rightarrow>
          if code = DHCP6_OPT_STATUS
          then if length val < 2 then None
               else dhcp6_ia_pd_options rest has
                      (if dhcp6_read_be16 val = DHCP6_STATUS_NO_PREFIX then r\<lparr>resp_no_prefix := True\<rparr> else r)
          else if code = DHCP6_OPT_IAPREFIX
          then if has \<or> length val \<noteq> 25 then None
               else if val ! 8 \<noteq> DHCP6_PD_PLEN then None
               else dhcp6_ia_pd_options rest True (r\<lparr>resp_prefix := take 16 (drop 9 val), resp_prefix_plen := val ! 8\<rparr>)
          else dhcp6_ia_pd_options rest has r)"
  by (subst dhcp6_ia_pd_options.simps) simp

lemma ia_pd_options_lease:
  assumes "dhcp6_ia_pd_options bytes has r = Some (has', r')" and "has \<longrightarrow> resp_lease_ok r"
  shows "(has' \<longrightarrow> resp_lease_ok r') \<and> resp_server_duid r' = resp_server_duid r"
  using assms
proof (induction "length bytes" arbitrary: bytes has r rule: less_induct)
  case less
  show ?case
  proof (cases "bytes = []")
    case True
    then show ?thesis using less.prems by (simp add: ia_pd_options_end)
  next
    case False
    then obtain code val rest where o: "dhcp6_next_option bytes = Some (code, val, rest)"
      using less.prems(1) by (cases "dhcp6_next_option bytes") (auto simp: ia_pd_options_step)
    note IH = less.hyps [OF dhcp6_next_option_shorter [OF o]]
    consider "code = DHCP6_OPT_STATUS" | "code = DHCP6_OPT_IAPREFIX" | "code \<noteq> DHCP6_OPT_STATUS" "code \<noteq> DHCP6_OPT_IAPREFIX"
      by blast
    then show ?thesis
    proof cases
      case 1
      let ?r = "if dhcp6_read_be16 val = DHCP6_STATUS_NO_PREFIX then r\<lparr>resp_no_prefix := True\<rparr> else r"
      have "dhcp6_ia_pd_options rest has ?r = Some (has', r')"
        using less.prems(1) 1 False o by (simp add: ia_pd_options_step split: if_split_asm)
      moreover have "has \<longrightarrow> resp_lease_ok ?r" using less.prems(2) by (simp add: resp_lease_ok_def)
      ultimately show ?thesis using IH [of has ?r] by simp
    next
      case 2
      let ?r = "r\<lparr>resp_prefix := take 16 (drop 9 val), resp_prefix_plen := val ! 8\<rparr>"
      have *: "dhcp6_ia_pd_options rest True ?r = Some (has', r') \<and> resp_lease_ok ?r"
        using less.prems(1) 2 False o by (simp add: ia_pd_options_step resp_lease_ok_def split: if_split_asm)
      then show ?thesis using IH [of True ?r] by simp
    next
      case 3
      then show ?thesis using less.prems False o IH [of has r] by (simp add: ia_pd_options_step)
    qed
  qed
qed

lemma parse_ia_pd_lease:
  "dhcp6_parse_ia_pd st val r = Some r' \<Longrightarrow>
     (resp_no_prefix r' \<or> resp_lease_ok r') \<and> resp_server_duid r' = resp_server_duid r"
  by (auto simp: dhcp6_parse_ia_pd_def split: if_splits option.splits dest!: ia_pd_options_lease)

definition seen_ok :: "dhcp6_seen \<Rightarrow> dhcp6_response \<Rightarrow> bool" where
  "seen_ok seen r \<longleftrightarrow>
     (has_server seen \<longrightarrow> 0 < length (resp_server_duid r) \<and> length (resp_server_duid r) \<le> DHCP6_SERVER_DUID_MAX) \<and>
     (has_ia_pd seen \<longrightarrow> resp_no_prefix r \<or> resp_lease_ok r)"

lemma response_options_end: "dhcp6_response_options env st [] seen r = Some (seen, r)"
  by (simp add: dhcp6_response_options.simps)

lemma response_options_step:
  "bytes \<noteq> [] \<Longrightarrow> dhcp6_response_options env st bytes seen r =
     (case dhcp6_next_option bytes of
        None \<Rightarrow> None
      | Some (code, val, rest) \<Rightarrow>
          if code = DHCP6_OPT_SERVERID
          then if has_server seen \<or> length val = 0 \<or> DHCP6_SERVER_DUID_MAX < length val then None
               else dhcp6_response_options env st rest (seen\<lparr>has_server := True\<rparr>) (r\<lparr>resp_server_duid := val\<rparr>)
          else if code = DHCP6_OPT_CLIENTID
          then if has_client seen \<or> length val \<noteq> 10 \<or> val \<noteq> dhcp6_build_client_duid env then None
               else dhcp6_response_options env st rest (seen\<lparr>has_client := True\<rparr>) r
          else if code = DHCP6_OPT_IA_PD
          then if has_ia_pd seen then None
               else (case dhcp6_parse_ia_pd st val r of
                   None \<Rightarrow> None
                 | Some r \<Rightarrow> dhcp6_response_options env st rest (seen\<lparr>has_ia_pd := True\<rparr>) r)
          else if code = DHCP6_OPT_DNS_SERVERS
          then if has_dns seen \<or> length val mod 16 \<noteq> 0 then None
               else dhcp6_response_options env st rest (seen\<lparr>has_dns := True\<rparr>) (r\<lparr>resp_dns := dns_slots val\<rparr>)
          else dhcp6_response_options env st rest seen r)"
  by (subst dhcp6_response_options.simps) simp

lemma response_options_seen:
  assumes "dhcp6_response_options env st bytes seen r = Some (seen', r')" and "seen_ok seen r"
  shows "seen_ok seen' r'"
  using assms
proof (induction "length bytes" arbitrary: bytes seen r rule: less_induct)
  case less
  show ?case
  proof (cases "bytes = []")
    case True
    then show ?thesis using less.prems by (simp add: response_options_end)
  next
    case False
    then obtain code val rest where o: "dhcp6_next_option bytes = Some (code, val, rest)"
      using less.prems(1) by (cases "dhcp6_next_option bytes") (auto simp: response_options_step)
    have "\<exists>seen1 r1. dhcp6_response_options env st rest seen1 r1 = Some (seen', r') \<and> seen_ok seen1 r1"
    proof (cases "code = DHCP6_OPT_IA_PD")
      case True
      with less.prems(1) False o obtain r1 where p: "dhcp6_parse_ia_pd st val r = Some r1"
        "dhcp6_response_options env st rest (seen\<lparr>has_ia_pd := True\<rparr>) r1 = Some (seen', r')"
        by (auto simp: response_options_step split: if_splits option.splits)
      have "seen_ok (seen\<lparr>has_ia_pd := True\<rparr>) r1"
        using parse_ia_pd_lease [OF p(1)] less.prems(2) by (auto simp: seen_ok_def)
      with p(2) show ?thesis by blast
    next
      case no: False
      let ?ok = "\<lambda>s r. dhcp6_response_options env st rest s r = Some (seen', r') \<and> seen_ok s r"
      have "?ok (seen\<lparr>has_server := True\<rparr>) (r\<lparr>resp_server_duid := val\<rparr>) \<or> ?ok (seen\<lparr>has_client := True\<rparr>) r \<or>
          ?ok (seen\<lparr>has_dns := True\<rparr>) (r\<lparr>resp_dns := dns_slots val\<rparr>) \<or> ?ok seen r"
        using less.prems False o no
        by (simp add: response_options_step seen_ok_def resp_lease_ok_def split: if_split_asm)
      then show ?thesis by blast
    qed
    then show ?thesis using less.hyps [OF dhcp6_next_option_shorter [OF o]] by blast
  qed
qed

lemma parse_response_ok:
  assumes "dhcp6_parse_response env st msg ty = Some r"
  shows "resp_no_prefix r \<or> resp_lease_ok r"
    and "0 < length (resp_server_duid r)" and "length (resp_server_duid r) \<le> DHCP6_SERVER_DUID_MAX"
    and "msg ! 0 = ty" and "take 3 (drop 1 msg) = dhcp6_xid (dhcp6 st)" and "4 \<le> length msg"
proof -
  let ?s = "\<lparr>has_server = False, has_client = False, has_ia_pd = False, has_dns = False\<rparr>"
  obtain seen where o: "dhcp6_response_options env st (drop 4 msg) ?s dhcp6_response_zero = Some (seen, r)"
    "has_server seen" "has_client seen" "has_ia_pd seen"
    using assms by (auto simp: dhcp6_parse_response_def split: if_splits option.splits)
  have "seen_ok seen r" by (rule response_options_seen [OF o(1)]) (simp add: seen_ok_def)
  then show "resp_no_prefix r \<or> resp_lease_ok r" "0 < length (resp_server_duid r)"
    "length (resp_server_duid r) \<le> DHCP6_SERVER_DUID_MAX" using o by (simp_all add: seen_ok_def)
  show "msg ! 0 = ty" "take 3 (drop 1 msg) = dhcp6_xid (dhcp6 st)" "4 \<le> length msg"
    using assms by (auto simp: dhcp6_parse_response_def split: if_splits)
qed

section \<open>The lease and the state of the client\<close>

definition lease_ok :: "ppp_ccb \<Rightarrow> bool" where
  "lease_ok st \<longleftrightarrow>
     (let d = dhcp6 st in
      (dhcp6_pd_ready st \<longleftrightarrow> dhcp6_state d = DHCP6_S_BOUND \<or> dhcp6_state d = DHCP6_S_RENEWING) \<and>
      (dhcp6_pd_ready st \<longrightarrow> hsi_ipv6_pd_plen d = DHCP6_PD_PLEN \<and> length (hsi_ipv6_pd_prefix d) = 16 \<and>
         hsi_ipv6_lan_prefix d = dhcp6_derive_lan_prefix (hsi_ipv6_pd_prefix d) DHCP6_PD_PLEN) \<and>
      (dhcp6_state d = DHCP6_S_REQUESTING \<or> dhcp6_pd_ready st \<longrightarrow>
         0 < length (dhcp6_server_duid d) \<and> length (dhcp6_server_duid d) \<le> DHCP6_SERVER_DUID_MAX))"

lemmas lease_defs = lease_ok_def emit_def rte_timer_stop_def rte_timer_reset_def pppd_ipv6_dp_gate_update_def
  dhcp6_clear_lease_def dhcp6_new_xid_def dhcp6_arm_def nd6_ra_stop_def upd_dhcp6_def dhcp6_store_lease_def

lemma lease_ok_emit [simp]: "lease_ok (emit e st) = lease_ok st"
  by (simp add: lease_ok_def emit_def)

lemma lease_ok_send [simp]: "lease_ok (dhcp6_send env ty st) = lease_ok st"
  by (simp add: dhcp6_send_def split: option.split)

lemma lease_ok_arm [simp]: "lease_ok (dhcp6_arm env n per st) = lease_ok st"
  by (simp add: lease_defs)

lemma lease_ok_stop: "lease_ok (dhcp6_pd_stop st)"
  by (simp add: dhcp6_pd_stop_def lease_defs Let_def)

lemma dhcp6_pd_stop_closes: "\<not> dhcp6_pd_ready (dhcp6_pd_stop st)" "\<not> ipv6_dp_bool (dhcp6_pd_stop st)"
  by (simp_all add: dhcp6_pd_stop_def lease_defs Let_def)

lemma lease_ok_start: "lease_ok st \<Longrightarrow> lease_ok (dhcp6_pd_start env st)"
  using dhcp6_pd_stop_closes(1) [of st]
  by (auto simp: dhcp6_pd_start_def Let_def) (simp add: lease_ok_def dhcp6_new_xid_def)

lemma lease_ok_no_prefix: "lease_ok (dhcp6_no_prefix env st)"
  by (simp add: dhcp6_no_prefix_def) (simp add: lease_defs Let_def)

lemma lease_ok_restart: "lease_ok (dhcp6_restart env st)"
  by (simp add: dhcp6_restart_def Let_def) (simp add: lease_defs Let_def)

lemma lease_ok_advertised:
  assumes "lease_ok st" and "dhcp6_state (dhcp6 st) = DHCP6_S_SOLICITING"
    and "0 < length (resp_server_duid r)" and "length (resp_server_duid r) \<le> DHCP6_SERVER_DUID_MAX"
  shows "lease_ok (dhcp6_advertised env r st)"
  using assms by (simp add: dhcp6_advertised_def) (simp add: lease_defs Let_def)

lemma lease_ok_ra_start [simp]: "lease_ok (nd6_ra_start env st) = lease_ok st"
  by (simp add: nd6_ra_start_def nd6_gate_ready_def) (simp add: lease_defs)

lemma lease_ok_report [simp]: "lease_ok (snd (ppp_report_connection_status env st)) = lease_ok st"
  by (simp add: ppp_report_connection_status_def)

lemma lease_ok_bound:
  assumes "resp_lease_ok r"
    and "0 < length (dhcp6_server_duid (dhcp6 st))" and "length (dhcp6_server_duid (dhcp6 st)) \<le> DHCP6_SERVER_DUID_MAX"
  shows "lease_ok (dhcp6_bound env r st)"
  using assms by (simp add: dhcp6_bound_def Let_def) (simp add: resp_lease_ok_def lease_defs Let_def)

lemma lease_ok_message:
  assumes "lease_ok st"
  shows "lease_ok (snd (dhcp6_process_message env msg st))"
proof (cases "snd (dhcp6_process_message env msg st) = st")
  case False
  let ?s = "dhcp6_state (dhcp6 st)"
  from False obtain r where r: "dhcp6_parse_response env st msg (if ?s = DHCP6_S_SOLICITING then DHCP6_ADVERTISE else DHCP6_REPLY) = Some r"
    "?s = DHCP6_S_REQUESTING \<or> ?s = DHCP6_S_RENEWING \<longrightarrow> resp_server_duid r = dhcp6_server_duid (dhcp6 st)"
    "?s = DHCP6_S_SOLICITING \<or> ?s = DHCP6_S_REQUESTING \<or> ?s = DHCP6_S_RENEWING"
  proof (cases "dhcp6_parse_response env st msg (if ?s = DHCP6_S_SOLICITING then DHCP6_ADVERTISE else DHCP6_REPLY)")
    case None
    with False that show ?thesis by (simp add: dhcp6_process_message_def Let_def split: if_split_asm)
  next
    case (Some r)
    with False that show ?thesis by (simp add: dhcp6_process_message_def Let_def split: if_split_asm)
  qed
  note ok = parse_response_ok(1-3) [OF r(1)]
  show ?thesis
  proof (cases "resp_no_prefix r")
    case True
    with r show ?thesis by (auto simp: dhcp6_process_message_def Let_def lease_ok_no_prefix)
  next
    case np: False
    show ?thesis
    proof (cases "?s = DHCP6_S_SOLICITING")
      case True
      with np r ok lease_ok_advertised [OF assms True ok(2,3)] show ?thesis
        by (simp add: dhcp6_process_message_def Let_def)
    next
      case False
      with np r ok lease_ok_bound [of r st env] show ?thesis by (auto simp: dhcp6_process_message_def Let_def)
    qed
  qed
qed (use assms in simp)

lemma lease_ok_input: "lease_ok st \<Longrightarrow> lease_ok (dhcp6_wan_input env pkt st)"
  by (simp add: dhcp6_wan_input_def Let_def lease_ok_message)

lemma lease_ok_retransmit [simp]: "lease_ok (dhcp6_retransmit env ty n st) = lease_ok st"
proof -
  have "lease_ok (upd_dhcp6 (\<lambda>d. d\<lparr>dhcp6_retry := dhcp6_retry d + 1\<rparr>) s) = lease_ok s" for s
    by (simp add: lease_ok_def upd_dhcp6_def Let_def)
  then show ?thesis by (simp add: dhcp6_retransmit_def)
qed

lemma lease_ok_timer: "lease_ok st \<Longrightarrow> lease_ok (dhcp6_timer_cb env st)"
proof -
  assume st: "lease_ok st"
  have "dhcp6_state (dhcp6 st) = DHCP6_S_BOUND \<Longrightarrow>
      lease_ok (upd_dhcp6 (\<lambda>d. d\<lparr>dhcp6_state := DHCP6_S_RENEWING, dhcp6_retry := 0\<rparr>) (dhcp6_new_xid env st))"
    using st by (simp add: lease_ok_def upd_dhcp6_def dhcp6_new_xid_def Let_def)
  with st show ?thesis
    by (auto simp: dhcp6_timer_cb_def lease_ok_stop lease_ok_restart split: dhcp6_fsm.split)
qed

section \<open>The LAN prefix\<close>

text \<open>Bit \<open>k\<close> of an address, counted from the first byte's most significant bit.\<close>

definition addr_bit :: "u8 list \<Rightarrow> nat \<Rightarrow> bool" where
  "addr_bit a k = bit (a ! (k div 8)) (7 - k mod 8)"

lemma bit_high_mask: "n < 8 \<Longrightarrow> bit (push_bit m (0xff :: u8)) n \<longleftrightarrow> m \<le> n"
proof -
  assume n: "n < 8"
  have ff: "(0xff :: u8) = mask 8" by (simp add: mask_eq_exp_minus_1)
  show ?thesis unfolding ff bit_push_bit_iff bit_mask_iff using n by auto
qed

text \<open>
  For a delegated prefix of up to 64 bits the LAN prefix is the delegated prefix on its own bits and
  zero on every other bit, and a longer delegation gives the unspecified address.
\<close>

theorem dhcp6_lan_prefix_bits:
  assumes "length pd = 16"
  shows "length (dhcp6_derive_lan_prefix pd plen) = 16 \<and>
    (\<forall>k < 128. addr_bit (dhcp6_derive_lan_prefix pd plen) k \<longleftrightarrow> plen \<le> 64 \<and> k < unat plen \<and> addr_bit pd k)"
proof (cases "plen \<le> 64")
  case False
  then show ?thesis by (auto simp: dhcp6_derive_lan_prefix_def addr_bit_def Let_def not_le)
next
  case True
  then have p: "unat plen \<le> 64" by (simp add: word_le_nat_alt)
  let ?f = "unat plen div 8" and ?m = "unat plen mod 8"
  have f: "?f \<le> 8" using p by simp
  have nth: "dhcp6_derive_lan_prefix pd plen ! i =
      (if i < ?f then pd ! i else if i = ?f \<and> ?m \<noteq> 0 then pd ! i AND push_bit (8 - ?m) 0xff else 0)" if "i < 16" for i
    using True that f assms by (auto simp: dhcp6_derive_lan_prefix_def Let_def not_less nth_append nth_Cons')
  have "addr_bit (dhcp6_derive_lan_prefix pd plen) k \<longleftrightarrow> k < unat plen \<and> addr_bit pd k" if "k < 128" for k
  proof -
    have i: "k div 8 < 16" using that by simp
    consider "k div 8 < ?f" | "k div 8 = ?f" | "?f < k div 8" by linarith
    then show ?thesis
    proof cases
      case 1
      moreover have "k < unat plen" using 1 by (metis div_le_mono linorder_not_less)
      ultimately show ?thesis using nth [OF i] by (simp add: addr_bit_def)
    next
      case 2
      have k: "k < unat plen \<longleftrightarrow> k mod 8 < ?m"
        using 2 by (metis add_less_cancel_left div_mult_mod_eq)
      have "8 - ?m \<le> 7 - k mod 8 \<longleftrightarrow> k mod 8 < ?m \<and> ?m \<noteq> 0"
        using mod_less_divisor [of 8 k] mod_less_divisor [of 8 "unat plen"] by arith
      then show ?thesis using 2 k nth [OF i]
        by (auto simp: addr_bit_def bit_and_iff bit_high_mask)
    next
      case 3
      moreover have "\<not> k < unat plen" using 3 by (metis div_le_mono less_imp_le linorder_not_less)
      ultimately show ?thesis using nth [OF i] by (simp add: addr_bit_def)
    qed
  qed
  moreover have "length (dhcp6_derive_lan_prefix pd plen) = 16"
    using True f assms p by (auto simp: dhcp6_derive_lan_prefix_def Let_def not_less)
  ultimately show ?thesis using True by blast
qed

theorem dhcp6_lan_prefix_bits_witness:
  "let pd = [0x20, 0x01, 0x0d, 0xb8, 0xab, 0xcd, 0xef, 0x77, 1, 2, 3, 4, 5, 6, 7, 8]; lan = dhcp6_derive_lan_prefix pd 60
   in length lan = 16 \<and> addr_bit pd 59 \<and> addr_bit lan 59 \<and> addr_bit pd 61 \<and> \<not> addr_bit lan 61"
proof -
  let ?pd = "[0x20, 0x01, 0x0d, 0xb8, 0xab, 0xcd, 0xef, 0x77, 1, 2, 3, 4, 5, 6, 7, 8] :: u8 list"
  let ?lan = "dhcp6_derive_lan_prefix ?pd 60"
  have l: "length ?lan = 16 \<and> (\<forall>k < 128. addr_bit ?lan k \<longleftrightarrow> (60::u8) \<le> 64 \<and> k < unat (60::u8) \<and> addr_bit ?pd k)"
    by (rule dhcp6_lan_prefix_bits) simp
  have p: "addr_bit ?pd 59" "addr_bit ?pd 61" by (simp_all add: addr_bit_def)
  have "addr_bit ?lan 59 \<longleftrightarrow> addr_bit ?pd 59" "\<not> addr_bit ?lan 61"
    using l [THEN conjunct2, rule_format, of 59] l [THEN conjunct2, rule_format, of 61] by simp_all
  then show ?thesis using l p by (simp only: Let_def simp_thms)
qed

end
