(* ===== verification/Dhcp6_Props.thy ===== *)
theory Dhcp6_Props
  imports Dhcp6_Lease
begin

text \<open>
  The exchange with the delegating server: a well-formed answer is parsed to the fields it was built from,
  and messages outside the exchange change nothing.
\<close>

section \<open>Parsing what a server sends\<close>

text \<open>An option as it stands on the wire, and the answer a delegating server sends.\<close>

definition dhcp6_option :: "u16 \<Rightarrow> u8 list \<Rightarrow> u8 list" where
  "dhcp6_option code val =
     be_bytes16 (rte_cpu_to_be_16 code) @ be_bytes16 (rte_cpu_to_be_16 (of_nat (length val))) @ val"

definition server_answer :: "u8 \<Rightarrow> u8 list \<Rightarrow> u8 list \<Rightarrow> u8 list \<Rightarrow> u16 \<Rightarrow> u32 \<Rightarrow> u8 list \<Rightarrow> u8 list \<Rightarrow> u8 list" where
  "server_answer ty xid client server user t1 prefix dns =
     ty # xid @ dhcp6_option DHCP6_OPT_CLIENTID client @ dhcp6_option DHCP6_OPT_SERVERID server @
     dhcp6_option DHCP6_OPT_IA_PD
       (be_bytes32 (rte_cpu_to_be_32 (ucast user)) @ be_bytes32 (rte_cpu_to_be_32 t1) @ be_bytes32 0 @
        dhcp6_option DHCP6_OPT_IAPREFIX (be_bytes32 0 @ be_bytes32 0 @ DHCP6_PD_PLEN # prefix)) @
     dhcp6_option DHCP6_OPT_DNS_SERVERS dns"

lemma load16_be_bytes16: "load16 (be_bytes16 x @ rest) = x"
  by (rule bit_word_eqI) (auto simp: load16_def be_bytes16_def bit_simps)

lemma load32_be_bytes32: "load32 (be_bytes32 x @ rest) = x"
proof (rule bit_word_eqI)
  fix n
  assume "n < LENGTH(32)"
  then show "bit (load32 (be_bytes32 x @ rest)) n \<longleftrightarrow> bit x n"
    by (cases "n < 24"; cases "n < 16") (auto simp: load32_def be_bytes32_def bit_simps)
qed

lemma read_be16_option [simp]:
  "dhcp6_read_be16 (be_bytes16 (bswap16 x) @ rest) = x" "dhcp6_read_be32 (be_bytes32 (bswap32 y) @ rest) = y"
  by (simp_all add: dhcp6_read_be16_def dhcp6_read_be32_def load16_be_bytes16 load32_be_bytes32)

lemma length_option [simp]: "length (dhcp6_option code val) = 4 + length val"
  by (simp add: dhcp6_option_def)

lemma next_option_option:
  assumes "length val < 65536"
  shows "dhcp6_next_option (dhcp6_option code val @ rest) = Some (code, val, rest)"
proof -
  have n: "unat (of_nat (length val) :: u16) = length val"
    using assms by (simp add: unat_of_nat take_bit_nat_eq_self)
  let ?b = "dhcp6_option code val @ rest"
  have d: "drop 2 ?b = be_bytes16 (bswap16 (of_nat (length val))) @ val @ rest" "drop 4 ?b = val @ rest"
    "length ?b = 4 + length val + length rest" "drop (4 + length val) ?b = rest" "dhcp6_read_be16 ?b = code"
    by (simp_all add: dhcp6_option_def)
  have "dhcp6_read_be16 (drop 2 ?b) = of_nat (length val)" unfolding d by simp
  then show ?thesis unfolding dhcp6_next_option_def Let_def by (simp only: n d) (simp add: d(4) [simplified])
qed

lemma option_not_Nil [simp]: "dhcp6_option code val @ rest \<noteq> []" "dhcp6_option code val \<noteq> []"
  by (simp_all add: dhcp6_option_def be_bytes16_def)

lemma parse_ia_pd_answer:
  assumes "length prefix = 16"
  shows "dhcp6_parse_ia_pd st
      (be_bytes32 (bswap32 (ucast (user_num st))) @ be_bytes32 (bswap32 t1) @ be_bytes32 0 @
       dhcp6_option DHCP6_OPT_IAPREFIX (be_bytes32 0 @ be_bytes32 0 @ DHCP6_PD_PLEN # prefix)) r =
    Some (r\<lparr>resp_t1 := t1, resp_prefix := prefix, resp_prefix_plen := DHCP6_PD_PLEN\<rparr>)"
proof -
  let ?v = "be_bytes32 0 @ be_bytes32 0 @ DHCP6_PD_PLEN # prefix"
  let ?o = "dhcp6_option DHCP6_OPT_IAPREFIX ?v"
  let ?val = "be_bytes32 (bswap32 (ucast (user_num st))) @ be_bytes32 (bswap32 t1) @ be_bytes32 0 @ ?o"
  have "dhcp6_next_option ?o = Some (DHCP6_OPT_IAPREFIX, ?v, [])"
    using next_option_option [of ?v DHCP6_OPT_IAPREFIX "[]"] assms by simp
  moreover have "?v ! 8 = DHCP6_PD_PLEN" "drop 9 ?v = prefix" by (simp_all add: nth_append)
  ultimately have w: "dhcp6_ia_pd_options ?o False r =
      Some (True, r\<lparr>resp_prefix := prefix, resp_prefix_plen := DHCP6_PD_PLEN\<rparr>)" for r
    using assms by (simp add: ia_pd_options_step ia_pd_options_end)
  have "drop 12 ?val = ?o" "drop 4 ?val = be_bytes32 (bswap32 t1) @ be_bytes32 0 @ ?o" by simp_all
  then show ?thesis using w by (simp add: dhcp6_parse_ia_pd_def)
qed

lemma parse_server_answer:
  assumes "length (dhcp6_xid (dhcp6 st)) = 3" and "6 \<le> length (env_wan_mac env)"
    and "0 < length server" and "length server \<le> DHCP6_SERVER_DUID_MAX"
    and "length prefix = 16" and "length dns = 32"
  shows "dhcp6_parse_response env st
      (server_answer ty (dhcp6_xid (dhcp6 st)) (dhcp6_build_client_duid env) server (user_num st) t1 prefix dns) ty =
    Some \<lparr>resp_server_duid = server, resp_t1 = t1, resp_prefix = prefix, resp_prefix_plen = DHCP6_PD_PLEN,
      resp_dns = [take 16 dns, drop 16 dns], resp_no_prefix = False\<rparr>"
proof -
  define client where "client = dhcp6_build_client_duid env"
  define ia where "ia = be_bytes32 (bswap32 (ucast (user_num st))) @ be_bytes32 (bswap32 t1) @ be_bytes32 0 @
       dhcp6_option DHCP6_OPT_IAPREFIX (be_bytes32 0 @ be_bytes32 0 @ DHCP6_PD_PLEN # prefix)"
  have c: "length client = 10" using assms(2) by (simp add: client_def dhcp6_build_client_duid_def min_def)
  have ia: "length ia < 65536" using assms(5) by (simp add: ia_def)
  have opts: "dhcp6_next_option (dhcp6_option DHCP6_OPT_CLIENTID client @ rest) = Some (DHCP6_OPT_CLIENTID, client, rest)"
    "dhcp6_next_option (dhcp6_option DHCP6_OPT_SERVERID server @ rest) = Some (DHCP6_OPT_SERVERID, server, rest)"
    "dhcp6_next_option (dhcp6_option DHCP6_OPT_IA_PD ia @ rest) = Some (DHCP6_OPT_IA_PD, ia, rest)"
    "dhcp6_next_option (dhcp6_option DHCP6_OPT_DNS_SERVERS dns) = Some (DHCP6_OPT_DNS_SERVERS, dns, [])" for rest
    using assms c ia next_option_option [of dns DHCP6_OPT_DNS_SERVERS "[]"] by (simp_all add: next_option_option)
  have xid: "take 3 (dhcp6_xid (dhcp6 st) @ rest) = dhcp6_xid (dhcp6 st)" "drop 3 (dhcp6_xid (dhcp6 st) @ rest) = rest" for rest
    using assms(1) by simp_all
  have dns: "dns_slots dns = [take 16 dns, drop 16 dns]" using assms(6) by (simp add: dns_slots_def)
  have pia: "dhcp6_parse_ia_pd st ia r =
      Some (r\<lparr>resp_t1 := t1, resp_prefix := prefix, resp_prefix_plen := DHCP6_PD_PLEN\<rparr>)" for r
    unfolding ia_def by (rule parse_ia_pd_answer [OF assms(5)])
  have ans: "server_answer ty (dhcp6_xid (dhcp6 st)) client server (user_num st) t1 prefix dns =
      ty # dhcp6_xid (dhcp6 st) @ dhcp6_option DHCP6_OPT_CLIENTID client @ dhcp6_option DHCP6_OPT_SERVERID server @
      dhcp6_option DHCP6_OPT_IA_PD ia @ dhcp6_option DHCP6_OPT_DNS_SERVERS dns"
    by (simp add: server_answer_def ia_def)
  show ?thesis
    unfolding client_def [symmetric] ans using assms c
    by (simp add: dhcp6_parse_response_def xid response_options_step response_options_end opts
        pia dns dhcp6_response_zero_def client_def [symmetric])
qed

text \<open>
  C13: Parsing inverts the server's encoding: from an answer in the exchange that names our client and our
  IA the parser returns the server identifier, the renewal time, the /56 and the DNS servers it was built
  from.
\<close>

theorem dhcp6_answer_round_trip:
  assumes "length (dhcp6_xid (dhcp6 st)) = 3" and "6 \<le> length (env_wan_mac env)"
    and "0 < length server" and "length server \<le> DHCP6_SERVER_DUID_MAX"
    and "length prefix = 16" and "length dns = 32"
  shows "dhcp6_parse_response env st
      (server_answer ty (dhcp6_xid (dhcp6 st)) (dhcp6_build_client_duid env) server (user_num st) t1 prefix dns) ty =
    Some \<lparr>resp_server_duid = server, resp_t1 = t1, resp_prefix = prefix, resp_prefix_plen = DHCP6_PD_PLEN,
      resp_dns = [take 16 dns, drop 16 dns], resp_no_prefix = False\<rparr>"
  using assms by (rule parse_server_answer)

theorem dhcp6_answer_round_trip_witness:
  "dhcp6_parse_response sample_env (ppp_ccb_zero\<lparr>user_num := 7\<rparr>)
      (server_answer DHCP6_REPLY [0, 0, 0] (dhcp6_build_client_duid sample_env) [9, 9] 7 1800
        (replicate 16 0x20) (replicate 32 1)) DHCP6_REPLY =
    Some \<lparr>resp_server_duid = [9, 9], resp_t1 = 1800, resp_prefix = replicate 16 0x20, resp_prefix_plen = DHCP6_PD_PLEN,
      resp_dns = [replicate 16 1, replicate 16 1], resp_no_prefix = False\<rparr>"
  using dhcp6_answer_round_trip [of "ppp_ccb_zero\<lparr>user_num := 7\<rparr>" sample_env "[9, 9]" "replicate 16 0x20"
      "replicate 32 1" DHCP6_REPLY 1800]
  by (simp add: ppp_ccb_zero_def sample_env_def numeral_3_eq_3)

section \<open>Which messages count\<close>

lemma process_message_parsed:
  assumes "fst (dhcp6_process_message env msg st) = SUCCESS"
  obtains r where
    "dhcp6_parse_response env st msg
       (if dhcp6_state (dhcp6 st) = DHCP6_S_SOLICITING then DHCP6_ADVERTISE else DHCP6_REPLY) = Some r"
    "dhcp6_state (dhcp6 st) = DHCP6_S_SOLICITING \<or>
     (dhcp6_state (dhcp6 st) = DHCP6_S_REQUESTING \<or> dhcp6_state (dhcp6 st) = DHCP6_S_RENEWING) \<and>
       resp_server_duid r = dhcp6_server_duid (dhcp6 st)"
proof (cases "dhcp6_parse_response env st msg
    (if dhcp6_state (dhcp6 st) = DHCP6_S_SOLICITING then DHCP6_ADVERTISE else DHCP6_REPLY)")
  case None
  with assms show ?thesis by (simp add: dhcp6_process_message_def Let_def split: if_split_asm)
next
  case (Some r)
  with assms that show ?thesis by (simp add: dhcp6_process_message_def Let_def split: if_split_asm)
qed


definition requesting_client :: ppp_ccb where
  "requesting_client = (ppp_ccb_zero\<lparr>user_num := 7\<rparr>)
     \<lparr>dhcp6 := (dhcp6 ppp_ccb_zero)\<lparr>dhcp6_state := DHCP6_S_REQUESTING, dhcp6_server_duid := [9, 9]\<rparr>\<rparr>"

definition sample_reply :: "u8 list" where
  "sample_reply = server_answer DHCP6_REPLY [0, 0, 0] (dhcp6_build_client_duid sample_env) [9, 9] 7 1800
     (replicate 16 0x20) (replicate 32 1)"

lemma sample_reply_accepted: "fst (dhcp6_process_message sample_env sample_reply requesting_client) = SUCCESS"
proof -
  have "dhcp6_parse_response sample_env requesting_client sample_reply DHCP6_REPLY =
      Some \<lparr>resp_server_duid = [9, 9], resp_t1 = 1800, resp_prefix = replicate 16 0x20, resp_prefix_plen = DHCP6_PD_PLEN,
      resp_dns = [take 16 (replicate 32 1), drop 16 (replicate 32 1)], resp_no_prefix = False\<rparr>"
    using parse_server_answer [of requesting_client sample_env "[9, 9]" "replicate 16 0x20" "replicate 32 1" DHCP6_REPLY 1800]
    by (simp add: requesting_client_def sample_reply_def ppp_ccb_zero_def sample_env_def numeral_3_eq_3 del: take_replicate drop_replicate)
  then show ?thesis
    by (simp add: dhcp6_process_message_def Let_def) (simp add: requesting_client_def)
qed


end
