(* ===== verification/Ppp_Props.thy ===== *)
theory Ppp_Props
  imports Ppp_Inv Dhcp6_Props
begin

text \<open>
  What holds of a subscriber's session whatever frames, commands and timers the control thread serves:
  the IPv6 gate, the delegated prefix and the shape of the control block as interpretations of
  \<open>ppp_invariant\<close>; then teardown, the session filter and the checks on answers.
\<close>

section \<open>Interpretations\<close>

definition gate_ok :: "ppp_ccb \<Rightarrow> bool" where
  "gate_ok st \<longleftrightarrow> (ipv6_dp_bool st \<longleftrightarrow> ipv6_enabled st \<and> ipv6cp_up st \<and> dhcp6_pd_ready st)"

text \<open>The delegated prefix is published and withdrawn together with the flag it guards.\<close>

lemma gate_update_ok: "gate_ok (pppd_ipv6_dp_gate_update st)"
  by (simp add: gate_ok_def pppd_ipv6_dp_gate_update_def)

lemmas gate_defs = gate_ok_def emit_def rte_timer_stop_def rte_timer_reset_def dhcp6_new_xid_def dhcp6_arm_def nd6_ra_stop_def
  upd_dhcp6_def dhcp6_store_lease_def

lemma gate_ok_emit [simp]: "gate_ok (emit e st) = gate_ok st"
  by (simp add: gate_ok_def emit_def)

lemma gate_ok_send [simp]: "gate_ok (dhcp6_send env ty st) = gate_ok st"
  by (simp add: dhcp6_send_def split: option.split)

lemma gate_ok_dhcp6 [simp]:
  "gate_ok (st\<lparr>dhcp6 := d\<rparr>) = gate_ok st" "gate_ok (upd_dhcp6 f st) = gate_ok st" "gate_ok (dhcp6_new_xid env st) = gate_ok st"
  "gate_ok (dhcp6_arm env n per st) = gate_ok st" "gate_ok (dhcp6_store_lease r st) = gate_ok st"
  "gate_ok (rte_timer_stop t st) = gate_ok st" "gate_ok (rte_timer_reset t m per c st) = gate_ok st"
  "gate_ok (nd6_ra_stop st) = gate_ok st"
  by (simp_all add: gate_defs)

lemma gate_ok_clear [simp]: "gate_ok (dhcp6_clear_lease st)"
  by (simp add: dhcp6_clear_lease_def gate_update_ok Let_def)

lemma gate_ok_stop [simp]: "gate_ok (dhcp6_pd_stop st)"
  by (simp add: dhcp6_pd_stop_def Let_def)

lemma gate_ok_client:
  "gate_ok st \<Longrightarrow> gate_ok (dhcp6_pd_start env st)" "gate_ok st \<Longrightarrow> gate_ok (dhcp6_timer_cb env st)"
  "gate_ok st \<Longrightarrow> gate_ok (dhcp6_wan_input env pkt st)"
proof -
  assume st: "gate_ok st"
  show "gate_ok (dhcp6_pd_start env st)" using st by (simp add: dhcp6_pd_start_def Let_def)
  show "gate_ok (dhcp6_timer_cb env st)" using st
    by (simp add: dhcp6_timer_cb_def dhcp6_retransmit_def dhcp6_restart_def Let_def split: dhcp6_fsm.split)
  have "gate_ok (dhcp6_bound env r st)" for r
    by (simp add: dhcp6_bound_def ppp_report_connection_status_def nd6_ra_start_def gate_update_ok Let_def)
  then have "gate_ok (snd (dhcp6_process_message env msg st))" for msg
    using st by (simp add: dhcp6_process_message_def dhcp6_no_prefix_def dhcp6_advertised_def Let_def split: option.split)
  then show "gate_ok (dhcp6_wan_input env pkt st)" using st by (simp add: dhcp6_wan_input_def Let_def)
qed

interpretation gate: ppp_invariant gate_ok
proof (unfold_locales, goal_cases)
qed (simp_all add: gate_update_ok gate_ok_client, simp_all add: gate_ok_def upd_cp_def ppp_phase_rollback_def save_headers_def)

lemma lease_ok_fields [simp]:
  "lease_ok (st\<lparr>cp_id := c\<rparr>) = lease_ok st" "lease_ok (st\<lparr>phase := ph\<rparr>) = lease_ok st"
  "lease_ok (pppd_ipv6_dp_gate_update st) = lease_ok st" "lease_ok (st\<lparr>ipv6cp_up := b\<rparr>) = lease_ok st"
  "lease_ok (rte_timer_stop t st) = lease_ok st" "lease_ok (rte_timer_reset t n per cbk st) = lease_ok st"
  by (simp_all add: lease_defs)

interpretation lease: ppp_invariant lease_ok
proof (unfold_locales, goal_cases)
qed (simp_all add: lease_ok_stop lease_ok_start lease_ok_input lease_ok_timer,
    simp_all add: lease_ok_def upd_cp_def ppp_phase_rollback_def save_headers_def pppd_ipv6_dp_gate_update_def)

text \<open>The phase is one of the six phases of a configured subscriber and the interface identifier has eight bytes.\<close>

definition ccb_wf :: "ppp_ccb \<Rightarrow> bool" where
  "ccb_wf st \<longleftrightarrow> phase st \<le> DATA_PHASE \<and> length (ipv6cp_local_iid st) = 8"

lemma ccb_wf_fields [simp]:
  "ccb_wf (emit e st) = ccb_wf st" "ccb_wf (st\<lparr>dhcp6 := d\<rparr>) = ccb_wf st" "ccb_wf (upd_dhcp6 f st) = ccb_wf st"
  "ccb_wf (dhcp6_new_xid env st) = ccb_wf st"
  "ccb_wf (dhcp6_arm env n per st) = ccb_wf st" "ccb_wf (dhcp6_store_lease r st) = ccb_wf st"
  "ccb_wf (rte_timer_stop t st) = ccb_wf st" "ccb_wf (rte_timer_reset t m per c st) = ccb_wf st"
  "ccb_wf (nd6_ra_stop st) = ccb_wf st" "ccb_wf (pppd_ipv6_dp_gate_update st) = ccb_wf st"
  "ccb_wf (dhcp6_clear_lease st) = ccb_wf st" "ccb_wf (st\<lparr>dhcp6_pd_ready := b\<rparr>) = ccb_wf st"
  by (simp_all add: ccb_wf_def lease_defs Let_def)

lemma ccb_wf_client [simp]:
  "ccb_wf (dhcp6_send env ty st) = ccb_wf st" "ccb_wf (dhcp6_pd_stop st) = ccb_wf st"
  "ccb_wf (dhcp6_pd_start env st) = ccb_wf st" "ccb_wf (dhcp6_timer_cb env st) = ccb_wf st"
proof -
  show s: "ccb_wf (dhcp6_send env ty st) = ccb_wf st" for ty st by (simp add: dhcp6_send_def split: option.split)
  show p: "ccb_wf (dhcp6_pd_stop st) = ccb_wf st" for st by (simp add: dhcp6_pd_stop_def Let_def)
  show "ccb_wf (dhcp6_pd_start env st) = ccb_wf st" by (simp add: dhcp6_pd_start_def s p Let_def)
  show "ccb_wf (dhcp6_timer_cb env st) = ccb_wf st"
    by (simp add: dhcp6_timer_cb_def dhcp6_retransmit_def dhcp6_restart_def s p Let_def split: dhcp6_fsm.split)
qed

lemma ccb_wf_input [simp]: "ccb_wf (dhcp6_wan_input env pkt st) = ccb_wf st"
proof -
  have "ccb_wf (dhcp6_bound env r st) = ccb_wf st" for r
    by (simp add: dhcp6_bound_def ppp_report_connection_status_def nd6_ra_start_def Let_def)
  then have "ccb_wf (snd (dhcp6_process_message env msg st)) = ccb_wf st" for msg
    by (simp add: dhcp6_process_message_def dhcp6_no_prefix_def dhcp6_advertised_def Let_def split: option.split)
  then show ?thesis by (simp add: dhcp6_wan_input_def Let_def)
qed

lemma phase_rollback_wf: "ccb_wf st \<Longrightarrow> ccb_wf (ppp_phase_rollback st)"
  by (auto simp: ccb_wf_def ppp_phase_rollback_def word_le_nat_alt unat_sub_if')

interpretation wf: ppp_invariant ccb_wf
proof (unfold_locales, goal_cases)
qed (simp_all add: phase_rollback_wf, simp_all add: ccb_wf_def upd_cp_def save_headers_def)

section \<open>From configuration on\<close>

lemma init_config_ok:
  assumes "ppp_init_config_by_user env ccb_id vlan user pwd st0 = (SUCCESS, st)"
  shows "gate_ok st" and "lease_ok st" and "vlan \<noteq> 0 \<Longrightarrow> ccb_wf st"
proof -
  obtain st1 where st: "st = emit Nd6Reset (dhcp6_pd_stop (stop_all_timers
      ((pppd_ipv6_dp_gate_update ((pppd_ipv6_dp_gate_update (ppp_init_fields env ccb_id vlan st1))
        \<lparr>ipv6cp_local_iid := replicate 8 0, ipv6cp_peer_iid := replicate 8 0, ipv6cp_up := False\<rparr>))
        \<lparr>PPP_dst_mac := replicate 6 0\<rparr>)))"
    using assms by (auto simp: ppp_init_config_by_user_def Let_def split: prod.splits status.splits)
  show "gate_ok st" "lease_ok st" by (simp_all add: st lease_ok_stop)
  show "vlan \<noteq> 0 \<Longrightarrow> ccb_wf st"
    by (simp add: st stop_all_timers_def) (simp add: ccb_wf_def pppd_ipv6_dp_gate_update_def ppp_init_fields_def)
qed

text \<open>
  C10: However the control thread serves frames, commands and timers after a subscriber was configured, the
  data plane's IPv6 gate is open exactly when IPv6 is enabled, IPV6CP is up and a prefix is delegated.
\<close>

theorem session_ipv6_gate_invariant:
  assumes "ppp_init_config_by_user env ccb_id vlan user pwd st0 = (SUCCESS, st)" and "session_step\<^sup>*\<^sup>* st st'"
  shows "pppd_ipv6_dp_gate_open st' \<longleftrightarrow> ipv6_enabled st' \<and> ipv6cp_up st' \<and> dhcp6_pd_ready st'"
  using gate.session_reachable_keeps [OF assms(2) init_config_ok(1) [OF assms(1)]]
  by (simp add: gate_ok_def pppd_ipv6_dp_gate_open_def)

definition configured :: ppp_ccb where
  "configured = snd (ppp_init_config_by_user sample_env 6 100 [1] [2] ppp_ccb_zero)"

lemma configured_init: "ppp_init_config_by_user sample_env 6 100 [1] [2] ppp_ccb_zero = (SUCCESS, configured)"
  by (simp add: configured_def ppp_init_config_by_user_def ppp_copy_credentials_def Let_def) (simp add: sample_env_def)

lemma configured_enable: "session_step configured (snd (set_ipv6_enable True True configured))"
  by (rule session_step.enable [of True True configured "fst (set_ipv6_enable True True configured)"]) simp

theorem session_ipv6_gate_invariant_witness:
  "pppd_ipv6_dp_gate_open (snd (set_ipv6_enable True True configured)) \<longleftrightarrow>
     ipv6_enabled (snd (set_ipv6_enable True True configured)) \<and> ipv6cp_up (snd (set_ipv6_enable True True configured)) \<and>
     dhcp6_pd_ready (snd (set_ipv6_enable True True configured))"
  using session_ipv6_gate_invariant [OF configured_init r_into_rtranclp [of session_step, OF configured_enable]] .

text \<open>
  Whenever the IPv6 gate is open, the client holds a lease: it is bound or renewing with a server whose
  identifier fits its buffer, the delegated prefix is a /56 of sixteen bytes and the LAN prefix the
  data plane and the router advertisements use is the one derived from it.
\<close>

theorem session_lease_invariant:
  assumes "(\<exists>env ccb_id vlan user pwd st0. ppp_init_config_by_user env ccb_id vlan user pwd st0 = (SUCCESS, st)) \<or>
      lease_ok st \<and> gate_ok st"
    and "session_step\<^sup>*\<^sup>* st st'" and "pppd_ipv6_dp_gate_open st'"
  shows "dhcp6_state (dhcp6 st') \<in> {DHCP6_S_BOUND, DHCP6_S_RENEWING} \<and> hsi_ipv6_pd_plen (dhcp6 st') = DHCP6_PD_PLEN \<and>
    length (hsi_ipv6_pd_prefix (dhcp6 st')) = 16 \<and>
    hsi_ipv6_lan_prefix (dhcp6 st') = dhcp6_derive_lan_prefix (hsi_ipv6_pd_prefix (dhcp6 st')) DHCP6_PD_PLEN \<and>
    0 < length (dhcp6_server_duid (dhcp6 st')) \<and> length (dhcp6_server_duid (dhcp6 st')) \<le> DHCP6_SERVER_DUID_MAX"
proof -
  have st: "lease_ok st" "gate_ok st" using assms(1) init_config_ok(1,2) by blast+
  have "dhcp6_pd_ready st'"
    using assms(3) gate.session_reachable_keeps [OF assms(2) st(2)] by (simp add: gate_ok_def pppd_ipv6_dp_gate_open_def)
  then show ?thesis
    using lease.session_reachable_keeps [OF assms(2) st(1)] by (auto simp: lease_ok_def Let_def)
qed

text \<open>A connected subscriber whose prefix is bound.\<close>

definition bound_session :: ppp_ccb where
  "bound_session = configured\<lparr>ipv6_enabled := True, ipv6cp_up := True, dhcp6_pd_ready := True, ipv6_dp_bool := True,
     dhcp6 := (dhcp6 configured)\<lparr>dhcp6_state := DHCP6_S_BOUND, dhcp6_server_duid := [9], hsi_ipv6_pd_plen := 56,
       hsi_ipv6_pd_prefix := replicate 16 0x20, hsi_ipv6_lan_prefix := dhcp6_derive_lan_prefix (replicate 16 0x20) 56\<rparr>\<rparr>"

lemma bound_session_ok: "lease_ok bound_session" "gate_ok bound_session"
  by (simp_all add: bound_session_def lease_ok_def gate_ok_def)

theorem session_lease_invariant_witness:
  "hsi_ipv6_pd_plen (dhcp6 (snd (set_ipv6_enable True True bound_session))) = DHCP6_PD_PLEN"
proof -
  let ?st = "snd (set_ipv6_enable True True bound_session)"
  have "session_step bound_session ?st"
    by (rule session_step.enable [of True True bound_session "fst (set_ipv6_enable True True bound_session)"]) simp
  moreover have "pppd_ipv6_dp_gate_open ?st"
    by (simp add: set_ipv6_enable_def pppd_ipv6_dp_gate_open_def pppd_ipv6_dp_gate_update_def bound_session_def emit_def Let_def)
  ultimately show ?thesis
    using session_lease_invariant [of bound_session ?st] bound_session_ok by blast
qed

lemma session_frame_lengths:
  assumes "length body \<le> 65000"
  shows "unat (fr_mulen (session_frame p c i body)) = 30 + length body"
    and "unat (fr_length (session_frame p c i body)) = 4 + length body"
proof -
  have u: "unat (of_nat (length body) :: u16) = length body"
    using assms by (simp add: unat_of_nat take_bit_nat_eq_self)
  show "unat (fr_mulen (session_frame p c i body)) = 30 + length body"
    "unat (fr_length (session_frame p c i body)) = 4 + length body"
    using assms by (simp_all add: session_frame_def Let_def unat_word_ariths u)
qed

text \<open>
  Every Configure-Request a configured subscriber sends fits the 128-byte buffer its builder writes to, the
  PPP length field is the length of what it covers, and the identifier is never 0, so that the zero left
  by configuration cannot match an answer.
\<close>

theorem config_request_bounds:
  assumes "ppp_init_config_by_user env ccb_id vlan user pwd st0 = (SUCCESS, st)" and "vlan \<noteq> 0"
    and "session_step\<^sup>*\<^sup>* st st'" and "build_config_request st' = (f, st'')"
  shows "unat (fr_mulen f) \<le> 48 \<and> unat (fr_mulen f) \<le> PPP_MSG_BUF_LEN \<and> unat (fr_length f) = 4 + length (fr_body f) \<and>
    fr_identifier f \<noteq> 0 \<and> req_identifier st'' (cp_id st') = fr_identifier f \<and> phase st' \<le> DATA_PHASE"
proof -
  have wf: "ccb_wf st'" by (rule wf.session_reachable_keeps [OF assms(3) init_config_ok(3) [OF assms(1,2)]])
  let ?c = "cp_id st'"
  let ?i = "req_identifier st' ?c mod 255 + 1"
  let ?s = "st'\<lparr>req_identifier := (req_identifier st')(?c := ?i), config_request_pending := (config_request_pending st')(?c := True)\<rparr>"
  have f: "f = session_frame (cp_protocol ?c) CONFIG_REQUEST ?i (request_options ?s)" "st'' = ?s"
    using assms(4) by (auto simp: build_config_request_def Let_def)
  have len: "length (request_options ?s) \<le> 18"
    using wf by (intro request_options_length) (simp add: ccb_wf_def)
  note fl = session_frame_lengths [of "request_options ?s" "cp_protocol ?c" CONFIG_REQUEST ?i]
  have "unat ?i = unat (req_identifier st' ?c) mod 255 + 1"
    using mod_less_divisor [of 255 "unat (req_identifier st' ?c)"]
    by (simp add: unat_word_ariths unat_mod)
  then have "?i \<noteq> 0" by (metis add_is_0 one_neq_zero unat_0)
  then show ?thesis using f len fl wf by (simp add: ccb_wf_def) (simp add: session_frame_def Let_def)
qed

theorem config_request_bounds_witness:
  "unat (fr_mulen (fst (build_config_request configured))) \<le> 48 \<and> fr_identifier (fst (build_config_request configured)) \<noteq> 0"
  using config_request_bounds [OF configured_init _ rtranclp.rtrancl_refl, of "fst (build_config_request configured)"
      "snd (build_config_request configured)"] by simp

section \<open>Teardown\<close>

text \<open>The composite updates leave the session fields alone.\<close>

lemma session_field_updates [simp]:
  "phase (emit e st) = phase st" "phase (upd_cp c f st) = phase st" "phase (rte_timer_stop t st) = phase st" "phase (stop_all_timers st) = phase st" "phase (dhcp6_pd_stop st) = phase st" "phase (pppd_ipv6_dp_gate_update st) = phase st" "phase (all_states_init st) = phase st"
  "session_id (emit e st) = session_id st" "session_id (upd_cp c f st) = session_id st" "session_id (rte_timer_stop t st) = session_id st" "session_id (stop_all_timers st) = session_id st" "session_id (dhcp6_pd_stop st) = session_id st" "session_id (pppd_ipv6_dp_gate_update st) = session_id st" "session_id (all_states_init st) = session_id st"
  "dp_start_bool (emit e st) = dp_start_bool st" "dp_start_bool (upd_cp c f st) = dp_start_bool st" "dp_start_bool (rte_timer_stop t st) = dp_start_bool st" "dp_start_bool (stop_all_timers st) = dp_start_bool st" "dp_start_bool (dhcp6_pd_stop st) = dp_start_bool st" "dp_start_bool (pppd_ipv6_dp_gate_update st) = dp_start_bool st" "dp_start_bool (all_states_init st) = dp_start_bool st"
  "ipv6cp_up (emit e st) = ipv6cp_up st" "ipv6cp_up (upd_cp c f st) = ipv6cp_up st" "ipv6cp_up (rte_timer_stop t st) = ipv6cp_up st" "ipv6cp_up (stop_all_timers st) = ipv6cp_up st" "ipv6cp_up (dhcp6_pd_stop st) = ipv6cp_up st" "ipv6cp_up (pppd_ipv6_dp_gate_update st) = ipv6cp_up st" "ipv6cp_up (all_states_init st) = ipv6cp_up st"
  "hsi_ipv4 (emit e st) = hsi_ipv4 st" "hsi_ipv4 (upd_cp c f st) = hsi_ipv4 st" "hsi_ipv4 (rte_timer_stop t st) = hsi_ipv4 st" "hsi_ipv4 (stop_all_timers st) = hsi_ipv4 st" "hsi_ipv4 (dhcp6_pd_stop st) = hsi_ipv4 st" "hsi_ipv4 (pppd_ipv6_dp_gate_update st) = hsi_ipv4 st" "hsi_ipv4 (all_states_init st) = hsi_ipv4 st"
  "ppp_bool (emit e st) = ppp_bool st" "ppp_bool (upd_cp c f st) = ppp_bool st" "ppp_bool (rte_timer_stop t st) = ppp_bool st" "ppp_bool (stop_all_timers st) = ppp_bool st" "ppp_bool (dhcp6_pd_stop st) = ppp_bool st" "ppp_bool (pppd_ipv6_dp_gate_update st) = ppp_bool st" "ppp_bool (all_states_init st) = ppp_bool st"
  "config_request_pending (emit e st) = config_request_pending st" "config_request_pending (upd_cp c f st) = config_request_pending st" "config_request_pending (rte_timer_stop t st) = config_request_pending st" "config_request_pending (stop_all_timers st) = config_request_pending st" "config_request_pending (dhcp6_pd_stop st) = config_request_pending st" "config_request_pending (pppd_ipv6_dp_gate_update st) = config_request_pending st" "config_request_pending (all_states_init st) = config_request_pending st"
  "redial_pending (emit e st) = redial_pending st" "redial_pending (upd_cp c f st) = redial_pending st" "redial_pending (rte_timer_stop t st) = redial_pending st" "redial_pending (stop_all_timers st) = redial_pending st" "redial_pending (dhcp6_pd_stop st) = redial_pending st" "redial_pending (pppd_ipv6_dp_gate_update st) = redial_pending st" "redial_pending (all_states_init st) = redial_pending st"
  by (simp_all add: emit_def upd_cp_def rte_timer_stop_def stop_all_timers_def dhcp6_pd_stop_def dhcp6_clear_lease_def
      nd6_ra_stop_def pppd_ipv6_dp_gate_update_def all_states_init_def Let_def)


lemma timers_updates [simp]:
  "timers (dhcp6_pd_stop st) = (timers st)(TIM_RA := None, TIM_DHCP6 := None)" "timers (emit e st) = timers st"
  "timers (upd_cp c f st) = timers st" "timers (pppd_ipv6_dp_gate_update st) = timers st" "timers (all_states_init st) = timers st"
  by (simp_all add: dhcp6_pd_stop_def dhcp6_clear_lease_def nd6_ra_stop_def rte_timer_stop_def pppd_ipv6_dp_gate_update_def
      emit_def upd_cp_def all_states_init_def Let_def)

lemma timers_stop_all: "timers (stop_all_timers st) t = None"
  by (cases t) (simp_all add: stop_all_timers_def rte_timer_stop_def)

lemma exit_ppp_timers: "timers (exit_ppp env st) t = None"
  by (simp add: exit_ppp_def timers_stop_all Let_def)

lemma exit_ppp_session:
  "phase (exit_ppp env st) = END_PHASE" "session_id (exit_ppp env st) = 0" "\<not> dp_start_bool (exit_ppp env st)"
  "\<not> ipv6cp_up (exit_ppp env st)" "hsi_ipv4 (exit_ppp env st) = 0" "\<not> ppp_bool (exit_ppp env st)"
  by (simp_all add: exit_ppp_def Let_def)

lemma cp_state_field_updates [simp]:
  "cp_state (st\<lparr>pppoe := x0\<rparr>) = cp_state st"
  "cp_state (st\<lparr>session_id := x1\<rparr>) = cp_state st"
  "cp_state (st\<lparr>hsi_ipv4 := x2\<rparr>) = cp_state st"
  "cp_state (st\<lparr>hsi_ipv4_gw := x3\<rparr>) = cp_state st"
  "cp_state (st\<lparr>hsi_primary_dns := x4\<rparr>) = cp_state st"
  "cp_state (st\<lparr>hsi_secondary_dns := x5\<rparr>) = cp_state st"
  "cp_state (st\<lparr>mru := x6\<rparr>) = cp_state st"
  "cp_state (st\<lparr>lcp_auth_rejected := x7\<rparr>) = cp_state st"
  "cp_state (st\<lparr>lcp_mru_rejected := x8\<rparr>) = cp_state st"
  "cp_state (st\<lparr>lcp_magic_rejected := x9\<rparr>) = cp_state st"
  "cp_state (st\<lparr>peer_requires_auth := x10\<rparr>) = cp_state st"
  "cp_state (st\<lparr>ipv6cp_local_iid := x11\<rparr>) = cp_state st"
  "cp_state (st\<lparr>ipv6cp_peer_iid := x12\<rparr>) = cp_state st"
  "cp_state (st\<lparr>redial_pending := x13\<rparr>) = cp_state st"
  by (simp_all add: cp_state_def fun_eq_iff)

lemma cp_state_all_init [simp]: "cp_state (all_states_init st) c = S_INIT"
  by (cases c) (simp_all add: all_states_init_def)

lemma exit_ppp_states: "cp_state (exit_ppp env st) c = S_INIT"
  by (simp add: exit_ppp_def Let_def)

lemma exit_ppp_gate: "\<not> ipv6_dp_bool (exit_ppp env st)"
proof -
  have e: "ipv6_dp_bool (emit x s) = ipv6_dp_bool s" for x s by (simp add: emit_def)
  have "\<not> ipv6_dp_bool (pppd_ipv6_dp_gate_update s)" if "\<not> ipv6cp_up s" for s
    using that by (simp add: pppd_ipv6_dp_gate_update_def)
  then show ?thesis by (simp add: exit_ppp_def e Let_def)
qed

text \<open>
  Leaving a session closes both data-plane gates, stops all six timers, takes every control protocol to
  Initial and clears the session identifier; from then on a late session frame or PADT is dropped before it
  changes anything.
\<close>

theorem exit_ppp_ends_session:
  "phase (exit_ppp env st) = END_PHASE \<and> \<not> pppd_dp_gate_open (exit_ppp env st) \<and> \<not> pppd_ipv6_dp_gate_open (exit_ppp env st) \<and>
   (\<forall>t. timers (exit_ppp env st) t = None) \<and> (\<forall>c. cp_state (exit_ppp env st) c = S_INIT) \<and>
   (24 \<le> length pkt \<and> names_session pkt \<longrightarrow> ppp_process_ccb fsm env' pkt (exit_ppp env st) = Some (ERROR, exit_ppp env st))"
  by (simp add: pppd_dp_gate_open_def pppd_ipv6_dp_gate_open_def exit_ppp_session exit_ppp_states exit_ppp_gate exit_ppp_timers
      ppp_process_ccb_def foreign_session_def)

theorem exit_ppp_ends_session_witness:
  "ppp_process_ccb (PPP_FSM 6 sample_env) sample_env (replicate 16 0 @ [0x88, 0x64] @ replicate 12 0) (exit_ppp sample_env configured) =
     Some (ERROR, exit_ppp sample_env configured)"
  using exit_ppp_ends_session [of sample_env configured "replicate 16 0 @ [0x88, 0x64] @ replicate 12 0" "PPP_FSM 6 sample_env" sample_env]
  by (simp add: names_session_def frame_next_proto_def load16_def bswap16_def)

section \<open>Answers\<close>

text \<open>
  C11: A Configure-Ack, -Nak or -Reject that arrives while no request of its protocol is outstanding, or that carries
  another identifier than the request, is refused and changes nothing but the keepalive count.
\<close>

theorem stale_answers_dropped:
  assumes "\<not> config_request_pending st c \<or> hdr_identifier (ppp_hdr (control_protocols st c)) \<noteq> req_identifier st c"
    and "hdr_code (ppp_hdr (control_protocols st c)) \<in> {CONFIG_ACK, CONFIG_NAK, CONFIG_REJECT}"
  shows "(c = PPP_CP_LCP \<longrightarrow> decode_lcp env len ev tim st = (ERROR, ev, st\<lparr>echo_miss_count := 0\<rparr>)) \<and>
    (c = PPP_CP_IPCP \<longrightarrow> decode_ipcp env len ev tim st = (ERROR, ev, st\<lparr>echo_miss_count := 0\<rparr>)) \<and>
    (c = PPP_CP_IPV6CP \<longrightarrow> decode_ipv6cp fsm len ev tim st = Some (ERROR, ev, st\<lparr>echo_miss_count := 0\<rparr>))"
proof -
  let ?st = "st\<lparr>echo_miss_count := 0\<rparr>"
  have no: "\<not> answers_request c ?st" using assms(1) by (auto simp: answers_request_def)
  have walk: "answer_walk c body ev' ev len ?st = (ERROR, ev, ?st)" for body ev' by (simp add: answer_walk_def no)
  have ack: "c = PPP_CP_IPCP \<Longrightarrow> ipcp_config_ack ev tim len ?st = (ERROR, ev, ?st)"
    using no by (simp add: ipcp_config_ack_def)
  have rej: "c = PPP_CP_IPV6CP \<Longrightarrow> ipv6cp_config_reject fsm ev tim len ?st = Some (ERROR, ev, ?st)"
    using no by (simp add: ipv6cp_config_reject_def)
  consider "hdr_code (ppp_hdr (control_protocols st c)) = CONFIG_ACK" | "hdr_code (ppp_hdr (control_protocols st c)) = CONFIG_NAK"
    | "hdr_code (ppp_hdr (control_protocols st c)) = CONFIG_REJECT" using assms(2) by blast
  then show ?thesis
  proof cases
    case 1
    then show ?thesis using walk ack
      by (cases c) (simp_all add: decode_lcp_def decode_ipcp_def decode_ipv6cp_def stop_timer_on_success_def Let_def)
  next
    case 2
    then show ?thesis using walk by (cases c) (simp_all add: decode_lcp_def decode_ipcp_def decode_ipv6cp_def Let_def)
  next
    case 3
    then show ?thesis using walk rej by (cases c) (simp_all add: decode_lcp_def decode_ipcp_def decode_ipv6cp_def Let_def)
  qed
qed

theorem stale_answers_dropped_witness:
  "decode_ipcp sample_env 4 E_UNKNOWN TIM_PPP (store_packet PPP_CP_IPCP 0x2180 \<lparr>hdr_code = 2, hdr_identifier = 7, hdr_length = 0x0400\<rparr> configured) =
     (ERROR, E_UNKNOWN, (store_packet PPP_CP_IPCP 0x2180 \<lparr>hdr_code = 2, hdr_identifier = 7, hdr_length = 0x0400\<rparr> configured)\<lparr>echo_miss_count := 0\<rparr>)"
proof -
  have "\<not> config_request_pending configured PPP_CP_IPCP"
    by (simp add: configured_def ppp_init_config_by_user_def ppp_copy_credentials_def sample_env_def Let_def)
      (simp add: ppp_init_fields_def)
  then show ?thesis
    using stale_answers_dropped [where c = PPP_CP_IPCP and st = "store_packet PPP_CP_IPCP 0x2180 \<lparr>hdr_code = 2, hdr_identifier = 7, hdr_length = 0x0400\<rparr> configured"
        and env = sample_env and len = 4 and ev = E_UNKNOWN and tim = TIM_PPP]
    by (simp add: answers_request_def store_packet_def upd_cp_def)
qed

section \<open>Which options are rejected\<close>

definition encode_options :: "(u8 \<times> u8 list) list \<Rightarrow> u8 list" where
  "encode_options os = concat (map (\<lambda>(ty, val). opt ty val) os)"

lemma opt_walk_Nil: "opt_walk body [] s = (True, s)"
  by (simp add: opt_walk.simps)

lemma opt_walk_opt:
  assumes "length val \<le> 253"
  shows "opt_walk body (opt ty val @ rest) s =
    (case body ty val s of (False, s') \<Rightarrow> (False, s') | (True, s') \<Rightarrow> opt_walk body rest s')"
proof -
  have "unat (of_nat (2 + length val) :: u8) = 2 + length val"
    using assms unat_of_nat [where 'a = 8, of "2 + length val"] by (simp only: take_bit_nat_eq_self) (simp add: take_bit_nat_eq_self)
  then have n: "unat (2 + of_nat (length val) :: u8) = 2 + length val" by simp
  then have d: "drop (unat ((opt ty val @ rest) ! 1)) (opt ty val @ rest) = rest" by (simp add: opt_def)
  show ?thesis by (subst opt_walk.simps, simp only: d) (simp add: opt_def n)
qed

text \<open>The options each protocol understands; a Configure-Reject must list every other one.\<close>

definition known_option :: "ppp_cp \<Rightarrow> u8 \<Rightarrow> bool" where
  "known_option c ty = (case c of PPP_CP_LCP \<Rightarrow> ty = OPT_MRU \<or> ty = OPT_AUTH \<or> ty = OPT_MAGIC_NUM
     | PPP_CP_IPCP \<Rightarrow> ty = IP_ADDRESS | PPP_CP_IPV6CP \<Rightarrow> ty = IPV6CP_OPT_INTERFACE_ID)"

lemma reject_walk:
  assumes "\<forall>(ty, val) \<in> set os. length val \<le> 253 \<and> (c = PPP_CP_IPV6CP \<and> ty = IPV6CP_OPT_INTERFACE_ID \<longrightarrow> length val = 8)"
  shows "opt_walk (check_option c CONFIG_REJECT) (encode_options os) w =
    (True, w\<lparr>nk_done := nk_done w @ encode_options os,
             nk_tmp := nk_tmp w @ encode_options (filter (\<lambda>(ty, _). \<not> known_option c ty) os)\<rparr>)"
  using assms
proof (induction os arbitrary: w)
  case Nil
  then show ?case by (simp add: encode_options_def opt_walk_Nil)
next
  case (Cons o1 os)
  obtain ty val where o: "o1 = (ty, val)" by fastforce
  have "check_option c CONFIG_REJECT ty val w =
      (True, w\<lparr>nk_done := nk_done w @ opt ty val, nk_tmp := nk_tmp w @ (if known_option c ty then [] else opt ty val)\<rparr>)"
    using Cons.prems o
    by (cases c) (auto simp: check_option_def lcp_check_option_def ipcp_check_option_def ipv6cp_check_option_def
        nk_keep_def nk_answer_def known_option_def)
  then show ?case using Cons o opt_walk_opt [of val "check_option c CONFIG_REJECT" ty "encode_options os" w]
    by (simp add: encode_options_def)
qed

lemma length_encode_filter: "length (encode_options (filter P os)) \<le> length (encode_options os)"
  by (induction os) (auto simp: encode_options_def)

lemma encode_options_Nil_iff: "encode_options os = [] \<longleftrightarrow> os = []"
  by (cases os) (auto simp: encode_options_def opt_def)

lemma reject_answer:
  assumes "\<forall>(ty, val) \<in> set os. length val \<le> 253 \<and> (c = PPP_CP_IPV6CP \<and> ty = IPV6CP_OPT_INTERFACE_ID \<longrightarrow> length val = 8)"
    and "length (encode_options os) \<le> 98" and "ppp_options (control_protocols st c) = encode_options os"
  defines "bad \<equiv> encode_options (filter (\<lambda>(ty, _). \<not> known_option c ty) os)"
  shows "check_nak_rej c CONFIG_REJECT (of_nat (4 + length (encode_options os))) st =
    (if bad \<noteq> []
     then (CHECK_NAK_REJ_SEND_RESPONSE,
           (upd_cp c (\<lambda>p. p\<lparr>ppp_options := bad @ drop (length bad) (encode_options os),
               ppp_hdr := (ppp_hdr p)\<lparr>hdr_length := rte_cpu_to_be_16 (4 + of_nat (length bad)), hdr_code := CONFIG_REJECT\<rparr>\<rparr>) st)
             \<lparr>pppoe_length := rte_cpu_to_be_16 (4 + of_nat (length bad) + 2)\<rparr>)
     else (CHECK_NAK_REJ_NO_ACTION,
           upd_cp c (\<lambda>p. p\<lparr>ppp_options := encode_options os, ppp_hdr := (ppp_hdr p)\<lparr>hdr_length := 4\<rparr>\<rparr>) st))"
proof -
  let ?n = "length (encode_options os)"
  have u: "unat (of_nat (4 + ?n) :: u16) = 4 + ?n"
    using assms(2) unat_of_nat [where 'a = 16, of "4 + ?n"] by (simp only: take_bit_nat_eq_self) (simp add: take_bit_nat_eq_self)
  have ge: "\<not> (of_nat (4 + ?n) :: u16) < 4" unfolding word_less_nat_alt u by simp
  have opts: "cp_options c (of_nat (4 + ?n)) st = encode_options os" unfolding cp_options_def u assms(3) by simp
  show ?thesis using assms(2,3) ge
    by (simp only: check_nak_rej_def u opts reject_walk [OF assms(1)]) (simp add: bad_def Let_def)
qed

text \<open>
  A Configure-Request with options the protocol does not know, in a packet the reply buffer can hold, is
  answered by a Configure-Reject that lists exactly those options, in their order and unchanged, under
  the identifier of the request and with matching length fields; without such options there is no answer.
\<close>

theorem config_reject_lists_unknown:
  assumes "\<forall>(ty, val) \<in> set os. length val \<le> 253 \<and> (c = PPP_CP_IPV6CP \<and> ty = IPV6CP_OPT_INTERFACE_ID \<longrightarrow> length val = 8)"
    and "length (encode_options os) \<le> 98" and "ppp_options (control_protocols st c) = encode_options os"
    and "check_nak_rej c CONFIG_REJECT (of_nat (4 + length (encode_options os))) st = (r, st')"
  shows "(if list_all (\<lambda>(ty, _). known_option c ty) os then r = CHECK_NAK_REJ_NO_ACTION
    else r = CHECK_NAK_REJ_SEND_RESPONSE \<and>
      (let bad = encode_options (filter (\<lambda>(ty, _). \<not> known_option c ty) os); p = control_protocols st c
       in build_config_nak_rej (st'\<lparr>cp_id := c\<rparr>) =
          \<lparr>fr_protocol = rte_be_to_cpu_16 (ppp_protocol p), fr_code = CONFIG_REJECT, fr_identifier = hdr_identifier (ppp_hdr p),
           fr_length = 4 + of_nat (length bad), fr_body = bad, fr_mulen = 4 + of_nat (length bad) + 2 + PPPOE_OVERHEAD\<rparr>))"
proof -
  define bad where "bad = encode_options (filter (\<lambda>(ty, _). \<not> known_option c ty) os)"
  have nil: "bad = [] \<longleftrightarrow> list_all (\<lambda>(ty, _). known_option c ty) os"
    by (auto simp: bad_def encode_options_Nil_iff filter_empty_conv list_all_iff)
  have len: "length bad \<le> 98" using length_encode_filter assms(2) unfolding bad_def by (rule order_trans)
  have w: "unat (of_nat n :: u16) = n" if "n \<le> 200" for n
    using that by (simp add: unat_of_nat take_bit_nat_eq_self)
  have l: "unat (4 + of_nat (length bad) :: u16) = 4 + length bad"
    "unat (4 + of_nat (length bad) + 2 + PPPOE_OVERHEAD :: u16) = 30 + length bad"
    using len by (simp_all add: unat_word_ariths w)
  have ge: "\<not> (4 + of_nat (length bad) :: u16) < 4" unfolding word_less_nat_alt l by simp
  note res = reject_answer [OF assms(1-3), folded bad_def]
  show ?thesis
  proof (cases "bad = []")
    case True
    then show ?thesis using res assms(4) nil by simp
  next
    case False
    have "build_config_nak_rej (st'\<lparr>cp_id := c\<rparr>) =
        \<lparr>fr_protocol = rte_be_to_cpu_16 (ppp_protocol (control_protocols st c)), fr_code = CONFIG_REJECT,
         fr_identifier = hdr_identifier (ppp_hdr (control_protocols st c)),
         fr_length = 4 + of_nat (length bad), fr_body = bad, fr_mulen = 4 + of_nat (length bad) + 2 + PPPOE_OVERHEAD\<rparr>"
      using False res assms(4) len ge l
      by (auto simp: build_config_nak_rej_def build_config_copy_def upd_cp_def Let_def)
    then show ?thesis using False res assms(4) nil by (simp add: bad_def Let_def)
  qed
qed

theorem config_reject_lists_unknown_witness:
  "fr_body (build_config_nak_rej ((snd (check_nak_rej PPP_CP_LCP CONFIG_REJECT 12
      (store_options PPP_CP_LCP (encode_options [(5, [1, 2]), (0x13, [7, 7])]) configured)))\<lparr>cp_id := PPP_CP_LCP\<rparr>)) = [0x13, 4, 7, 7]"
  using config_reject_lists_unknown [of "[(5, [1, 2]), (0x13, [7, 7])]" PPP_CP_LCP
      "store_options PPP_CP_LCP (encode_options [(5, [1, 2]), (0x13, [7, 7])]) configured"
      "fst (check_nak_rej PPP_CP_LCP CONFIG_REJECT 12 (store_options PPP_CP_LCP (encode_options [(5, [1, 2]), (0x13, [7, 7])]) configured))"
      "snd (check_nak_rej PPP_CP_LCP CONFIG_REJECT 12 (store_options PPP_CP_LCP (encode_options [(5, [1, 2]), (0x13, [7, 7])]) configured))"]
  by (simp add: encode_options_def opt_def known_option_def store_options_def upd_cp_def Let_def)

section \<open>Keepalive\<close>

lemma wan_ctrl_tx_fields [simp]: "echo_miss_count (wan_ctrl_tx f st) = echo_miss_count st"
  by (simp add: wan_ctrl_tx_def emit_def)

lemma opt_walk_echo:
  assumes "\<And>ty val st. echo_miss_count (snd (body ty val st)) = echo_miss_count st"
  shows "echo_miss_count (snd (opt_walk body bytes st)) = echo_miss_count st"
proof -
  obtain r st' where w: "opt_walk body bytes st = (r, st')" by fastforce
  have "echo_miss_count st' = echo_miss_count st"
    by (rule opt_walk_keeps [OF _ _ w, where Q = "\<lambda>s. echo_miss_count s = echo_miss_count st"]) (use assms in \<open>metis snd_conv\<close>, simp)
  with w show ?thesis by simp
qed

lemma check_nak_rej_echo: "echo_miss_count (snd (check_nak_rej PPP_CP_LCP flag len st)) = echo_miss_count st"
proof -
  obtain r w where w: "opt_walk (check_option PPP_CP_LCP flag) (cp_options PPP_CP_LCP len st)
      \<lparr>nk_ccb = st, nk_done = [], nk_tmp = []\<rparr> = (r, w)" by fastforce
  have "echo_miss_count (nk_ccb w) = echo_miss_count st"
    by (rule opt_walk_keeps [OF _ _ w, where Q = "\<lambda>w. echo_miss_count (nk_ccb w) = echo_miss_count st"])
      (auto simp: check_option_def lcp_check_option_def nk_keep_def nk_answer_def Let_def split: if_splits)
  with w show ?thesis by (simp add: check_nak_rej_def upd_cp_def Let_def)
qed

lemma decode_lcp_resets_echo: "echo_miss_count (snd (snd (decode_lcp env len ev tim st))) = 0"
proof -
  let ?st = "st\<lparr>echo_miss_count := 0\<rparr>"
  have chk: "echo_miss_count (snd (check_lcp_nak_rej env flag len s)) = echo_miss_count s" for flag s
    by (simp add: check_lcp_nak_rej_def check_nak_rej_echo)
  have req: "echo_miss_count (snd (snd (config_request_checks (\<lambda>flag. check_lcp_nak_rej env flag len)
      (\<lambda>st. (SUCCESS, E_RECV_GOOD_CONFIG_REQUEST, set_hdr_length PPP_CP_LCP l st)) ev ?st))) = 0" for l
  proof -
    obtain r1 s1 where 1: "check_lcp_nak_rej env CONFIG_NAK len ?st = (r1, s1)" by fastforce
    obtain r2 s2 where 2: "check_lcp_nak_rej env CONFIG_REJECT len s1 = (r2, s2)" by fastforce
    show ?thesis using chk [of CONFIG_NAK ?st] chk [of CONFIG_REJECT s1] 1 2
      by (simp add: config_request_checks_def set_hdr_length_def upd_cp_def split: check_nak_rej_result.split)
  qed
  have ans: "echo_miss_count (snd (snd (answer_walk PPP_CP_LCP body ev' ev len ?st))) = 0"
    if "\<And>ty val st. echo_miss_count (snd (body ty val st)) = echo_miss_count st" for body ev'
    using opt_walk_echo [where body = body and bytes = "cp_options PPP_CP_LCP len ?st" and st = ?st, OF that]
    by (auto simp: answer_walk_def request_answered_def split: prod.split bool.split)
  have stop: "echo_miss_count (snd (snd (stop_timer_on_success tim r))) = echo_miss_count (snd (snd r))" for r
    by (cases r) (simp add: stop_timer_on_success_def rte_timer_stop_def)
  have opts: "echo_miss_count (snd (lcp_ack_option ty val s)) = echo_miss_count s"
    "echo_miss_count (snd (lcp_nak_option env ty val s)) = echo_miss_count s"
    "echo_miss_count (snd (lcp_reject_option ty val s)) = echo_miss_count s" for ty val s
    by (simp_all add: lcp_ack_option_def lcp_nak_option_def lcp_reject_option_def Let_def)
  have "echo_miss_count (ipv6cp_stop s) = echo_miss_count s" for s by (simp add: ccb_update_defs Let_def)
  then show ?thesis
    by (simp add: decode_lcp_def lcp_proto_reject_def req ans opts stop rte_timer_stop_def Let_def)
qed

text \<open>
  The keepalive probes with one Echo-Request per tick and counts it; the peer has three unanswered
  probes before the next tick tears the session down, and every LCP packet from it, whatever it says,
  starts the count again.
\<close>

theorem keepalive_counts_to_teardown:
  "PPP_keepalive_cb fsm env st =
     (if 3 \<le> echo_miss_count st then PPP_bye fsm env st
      else Some (st\<lparr>effects := effects st @ [TxSession (build_echo_request env st)], echo_miss_count := echo_miss_count st + 1\<rparr>)) \<and>
   (case decode_lcp env len ev tim st of (_, _, st') \<Rightarrow> echo_miss_count st' = 0)"
proof -
  have "unat (fr_mulen (build_echo_request env st)) = 34"
    by (simp add: build_echo_request_def session_frame_lengths)
  then have "fr_mulen (build_echo_request env st) \<noteq> 0" by auto
  then have k: "PPP_keepalive_cb fsm env st =
     (if 3 \<le> echo_miss_count st then PPP_bye fsm env st
      else Some (st\<lparr>effects := effects st @ [TxSession (build_echo_request env st)], echo_miss_count := echo_miss_count st + 1\<rparr>))"
    by (simp add: PPP_keepalive_cb_def wan_ctrl_tx_def emit_def)
  have "echo_miss_count (snd (snd (decode_lcp env len ev tim st))) = 0" by (rule decode_lcp_resets_echo)
  with k show ?thesis by (simp add: case_prod_beta)
qed

end
