(* ===== verification/Ppp_Run.thy ===== *)
theory Ppp_Run
  imports Ppp_Props
begin

text \<open>
  Runs of the automaton through nested calls: hanging up an established session, from the northbound
  command over the Terminate-Request to the PADT, and what renegotiation does to an open IPV6CP.
\<close>

section \<open>Evaluating a row\<close>

lemma ppp_fsm_step_row:
  assumes "two_phase_search (ppp_fsm_tbl (cp_id st)) (cp_state st (cp_id st)) ev = Some r"
  obtains i where "ppp_fsm_tbl (cp_id st) ! i = r"
    and "ppp_fsm_step fsm env tim ev st = run_hdls 10 fsm env tim i 0 (set_state (cp_id st) (row_next r) st)"
proof -
  let ?tbl = "ppp_fsm_tbl (cp_id st)" and ?s = "cp_state st (cp_id st)"
  let ?i = "find_event ?tbl ?s ev (find_state ?tbl ?s)"
  have "?tbl ! ?i = r" "row_state (?tbl ! find_state ?tbl ?s) \<noteq> S_INVLD" "row_state (?tbl ! ?i) = ?s"
    using assms by (auto simp: two_phase_search_def Let_def split: if_splits)
  then show ?thesis by (intro that [of ?i]) (simp_all add: ppp_fsm_step_def Let_def)
qed

lemma run_hdls_Suc:
  assumes "ppp_fsm_tbl (cp_id st) ! i = ROW s ev nx hs"
  shows "run_hdls (Suc k) fsm env tim i j st =
    (if j < length hs
     then (case run_hdl fsm env tim (hs ! j) (set_counter (cp_id st) 10 st) of
             None \<Rightarrow> None
           | Some (ERROR, st') \<Rightarrow> Some (ERROR, st')
           | Some (SUCCESS, st') \<Rightarrow> run_hdls k fsm env tim i (Suc j) st')
     else Some (SUCCESS, st))"
  using assms by (simp add: Let_def)

lemmas search_defs = search_in_block cp_blocks_def lcp_blocks_def ncp_blocks_def lcp_row_defs ncp_row_defs

lemma fsm_row:
  assumes "two_phase_search (ppp_fsm_tbl (cp_id st)) (cp_state st (cp_id st)) ev = Some (ROW s ev nx hs)"
  obtains i where "ppp_fsm_tbl (cp_id st) ! i = ROW s ev nx hs"
    and "PPP_FSM (Suc n) env tim ev st = run_hdls (Suc (Suc (Suc (Suc (Suc (Suc (Suc (Suc (Suc (Suc 0))))))))))
      (PPP_FSM n env) env tim i 0 (set_state (cp_id st) nx st)"
proof -
  obtain i where "ppp_fsm_tbl (cp_id st) ! i = ROW s ev nx hs"
    "ppp_fsm_step (PPP_FSM n env) env tim ev st = run_hdls 10 (PPP_FSM n env) env tim i 0 (set_state (cp_id st) nx st)"
    using ppp_fsm_step_row [OF assms, of "PPP_FSM n env" env tim] by auto
  then show ?thesis by (intro that [of i]) (simp_all add: PPP_FSM_Suc numeral_eq_Suc del: run_hdls.simps)
qed

lemma close_in_closing:
  assumes "cp_state st (cp_id st) = S_CLOSING"
  shows "PPP_FSM (Suc n) env tim E_CLOSE st = Some (SUCCESS, set_state (cp_id st) S_CLOSING st)"
proof -
  have "two_phase_search (ppp_fsm_tbl (cp_id st)) (cp_state st (cp_id st)) E_CLOSE = Some (ROW S_CLOSING E_CLOSE S_CLOSING [])"
    using assms by (cases "cp_id st") (simp_all add: search_defs)
  from fsm_row [OF this, of n env tim] obtain i where i: "ppp_fsm_tbl (cp_id st) ! i = ROW S_CLOSING E_CLOSE S_CLOSING []"
    "PPP_FSM (Suc n) env tim E_CLOSE st = run_hdls (Suc (Suc (Suc (Suc (Suc (Suc (Suc (Suc (Suc (Suc 0))))))))))
      (PPP_FSM n env) env tim i 0 (set_state (cp_id st) S_CLOSING st)" .
  then show ?thesis using run_hdls_Suc [of "set_state (cp_id st) S_CLOSING st" i] by simp
qed

section \<open>Hanging up\<close>

text \<open>What \<open>A_this_layer_down\<close> leaves of LCP when the nested Close finds it already closing.\<close>

definition lcp_down :: "ppp_ccb \<Rightarrow> ppp_ccb" where
  "lcp_down st =
     (let st = set_state PPP_CP_IPV6CP S_INIT (set_state PPP_CP_IPCP S_INIT (st\<lparr>dp_start_bool := False\<rparr>));
          st = dhcp6_pd_stop (st\<lparr>config_request_pending := (config_request_pending st)(PPP_CP_IPV6CP := False)\<rparr>);
          st = rte_timer_stop TIM_PPP_IPV6CP (pppd_ipv6_dp_gate_update (st\<lparr>ipv6cp_up := False\<rparr>))
      in set_state PPP_CP_LCP S_CLOSING st)"

lemma lcp_layer_down:
  assumes "cp_id st = PPP_CP_LCP" and "cp_state st PPP_CP_LCP = S_CLOSING"
  shows "A_this_layer_down (PPP_FSM (Suc n) env) tim st = Some (SUCCESS, lcp_down st)"
  using assms by (simp add: A_this_layer_down_def lcp_down_def Let_def close_in_closing returning_success_def)

lemma lcp_down_fields [simp]:
  "cp_id (lcp_down st) = cp_id st" "phase (lcp_down st) = phase st" "\<not> dp_start_bool (lcp_down st)"
  "\<not> ipv6_dp_bool (lcp_down st)" "cp_state (lcp_down st) PPP_CP_LCP = S_CLOSING"
proof -
  show "cp_id (lcp_down st) = cp_id st" "phase (lcp_down st) = phase st" "\<not> dp_start_bool (lcp_down st)"
    "cp_state (lcp_down st) PPP_CP_LCP = S_CLOSING"
    by (simp_all add: lcp_down_def Let_def)
  show "\<not> ipv6_dp_bool (lcp_down st)"
    by (simp add: lcp_down_def upd_cp_def rte_timer_stop_def Let_def) (simp add: pppd_ipv6_dp_gate_update_def)
qed

definition terminate_sent :: "ppp_env \<Rightarrow> ppp_timer \<Rightarrow> ppp_ccb \<Rightarrow> ppp_ccb" where
  "terminate_sent env tim st =
     (let st = set_counter (cp_id st) 10 (restart_timer CB_send_terminate_request env tim (set_counter (cp_id st) 10 st))
      in count_down (wan_ctrl_tx (build_terminate_request env st) st))"

lemma close_in_opened:
  assumes "cp_id st = PPP_CP_LCP" and "cp_state st PPP_CP_LCP = S_OPENED"
  shows "PPP_FSM (Suc (Suc n)) env tim E_CLOSE st =
    Some (SUCCESS, terminate_sent env tim (lcp_down (set_counter PPP_CP_LCP 10 (set_state PPP_CP_LCP S_CLOSING st))))"
proof -
  let ?row = "ROW S_OPENED E_CLOSE S_CLOSING [H_this_layer_down, H_init_restart_termin, H_send_terminate_request]"
  let ?d = "lcp_down (set_counter PPP_CP_LCP 10 (set_state PPP_CP_LCP S_CLOSING st))"
  have "two_phase_search (ppp_fsm_tbl (cp_id st)) (cp_state st (cp_id st)) E_CLOSE = Some ?row"
    using assms by (simp add: search_defs)
  from fsm_row [OF this, of "Suc n" env tim] obtain i where i: "ppp_fsm_tbl (cp_id st) ! i = ?row"
    "PPP_FSM (Suc (Suc n)) env tim E_CLOSE st = run_hdls (Suc (Suc (Suc (Suc (Suc (Suc (Suc (Suc (Suc (Suc 0))))))))))
      (PPP_FSM (Suc n) env) env tim i 0 (set_state (cp_id st) S_CLOSING st)" .
  have r: "ppp_fsm_tbl (cp_id s) ! i = ?row" if "cp_id s = PPP_CP_LCP" for s using i(1) assms(1) that by simp
  have 1: "run_hdl (PPP_FSM (Suc n) env) env tim H_this_layer_down (set_counter PPP_CP_LCP 10 (set_state PPP_CP_LCP S_CLOSING st)) = Some (SUCCESS, ?d)"
    using assms by (simp add: run_hdl_def) (intro lcp_layer_down, simp_all add: upd_cp_def cp_state_def)
  have 2: "run_hdl fsm env tim H_init_restart_termin s = Some (SUCCESS, restart_timer CB_send_terminate_request env tim s)" for fsm s
    by (simp add: run_hdl_def A_init_restart_termin_def)
  have 3: "run_hdl fsm env tim H_send_terminate_request (set_counter (cp_id s) 10 s) =
      Some (SUCCESS, count_down (wan_ctrl_tx (build_terminate_request env (set_counter (cp_id s) 10 s)) (set_counter (cp_id s) 10 s)))" for fsm s
    by (simp add: run_hdl_def A_send_terminate_request_def)
  show ?thesis unfolding i(2)
    by (simp add: assms(1) run_hdls_Suc [OF r] 1 2 3 [of _ "restart_timer CB_send_terminate_request env tim (set_counter PPP_CP_LCP 10 ?d)", simplified assms(1) cp_id_updates lcp_down_fields]
        terminate_sent_def Let_def del: run_hdls.simps)
qed

lemma terminate_sent_fields [simp]:
  "cp_id (terminate_sent env tim st) = cp_id st" "phase (terminate_sent env tim st) = phase st"
  "dp_start_bool (terminate_sent env tim st) = dp_start_bool st" "ipv6_dp_bool (terminate_sent env tim st) = ipv6_dp_bool st"
  "cp_state (terminate_sent env tim st) c = cp_state st c"
  "timers (terminate_sent env tim st) tim =
     Some \<lparr>cb = CB_send_terminate_request (cp_id st), ticks = 3 * cycles_in_sec (env_clock env), periodical = True\<rparr>"
  "\<exists>f. effects (terminate_sent env tim st) = effects st @ [TxSession f] \<and> fr_code f = TERMIN_REQUEST \<and>
     fr_protocol f = cp_protocol (cp_id st) \<and> fr_body f = []"
proof -
  have m: "fr_mulen (session_frame p TERMIN_REQUEST i []) = 30" for p i by (simp add: session_frame_def Let_def)
  show "cp_id (terminate_sent env tim st) = cp_id st" "phase (terminate_sent env tim st) = phase st"
    "dp_start_bool (terminate_sent env tim st) = dp_start_bool st" "ipv6_dp_bool (terminate_sent env tim st) = ipv6_dp_bool st"
    "cp_state (terminate_sent env tim st) c = cp_state st c"
    "timers (terminate_sent env tim st) tim =
       Some \<lparr>cb = CB_send_terminate_request (cp_id st), ticks = 3 * cycles_in_sec (env_clock env), periodical = True\<rparr>"
    "\<exists>f. effects (terminate_sent env tim st) = effects st @ [TxSession f] \<and> fr_code f = TERMIN_REQUEST \<and>
       fr_protocol f = cp_protocol (cp_id st) \<and> fr_body f = []"
    by (simp_all add: terminate_sent_def count_down_def wan_ctrl_tx_def build_terminate_request_def m emit_def upd_cp_def
        restart_timer_def rte_timer_reset_def rte_timer_stop_def cp_state_def session_frame_def Let_def)
qed

text \<open>The Terminate-Ack: Down in Closed sends the PADT, and the discovery layer leaves the session.\<close>

lemma effects_grow:
  "e \<in> set (effects st) \<Longrightarrow> e \<in> set (effects (emit x st))"
  "effects (upd_cp c f st) = effects st" "effects (rte_timer_stop t st) = effects st"
  "effects (stop_all_timers st) = effects st" "effects (all_states_init st) = effects st"
  "e \<in> set (effects st) \<Longrightarrow> e \<in> set (effects (dhcp6_pd_stop st))"
  "e \<in> set (effects st) \<Longrightarrow> e \<in> set (effects (pppd_ipv6_dp_gate_update st))"
  by (simp_all add: emit_def upd_cp_def rte_timer_stop_def stop_all_timers_def all_states_init_def dhcp6_pd_stop_def
      dhcp6_clear_lease_def nd6_ra_stop_def pppd_ipv6_dp_gate_update_def Let_def)

lemma exit_ppp_effects:
  assumes "e \<in> set (effects st)"
  shows "e \<in> set (effects (exit_ppp env st))"
proof -
  show ?thesis using assms by (simp add: exit_ppp_def Let_def effects_grow)
qed

lemma bye_prologue_effects: "e \<in> set (effects st) \<Longrightarrow> e \<in> set (effects (bye_prologue st))"
  by (simp add: bye_prologue_def Let_def effects_grow)

lemma processing_updates:
  "ppp_processing (emit e st) = ppp_processing st" "ppp_processing (upd_cp c f st) = ppp_processing st"
  "ppp_processing (stop_all_timers st) = ppp_processing st" "ppp_processing (all_states_init st) = ppp_processing st"
  "ppp_processing (dhcp6_pd_stop st) = ppp_processing st" "ppp_processing (pppd_ipv6_dp_gate_update st) = ppp_processing st"
  by (simp_all add: emit_def upd_cp_def rte_timer_stop_def stop_all_timers_def all_states_init_def dhcp6_pd_stop_def
      dhcp6_clear_lease_def nd6_ra_stop_def pppd_ipv6_dp_gate_update_def Let_def)

lemma padt_ends:
  "\<exists>st'. A_send_padt fsm env st = Some (SUCCESS, st') \<and> phase st' = END_PHASE \<and> cp_id st' = cp_id st \<and> session_id st' = 0 \<and>
     (\<forall>t. timers st' t = None) \<and> (\<forall>c. cp_state st' c = S_INIT) \<and> \<not> ppp_processing st' \<and> TxDiscovery PADT 24 \<in> set (effects st')"
proof -
  let ?t = "(emit (TxDiscovery PADT 24) st)\<lparr>phase := PPPOE_PHASE, pppoe := (pppoe st)\<lparr>pp_active := False\<rparr>\<rparr>"
  let ?b = "all_states_init ((bye_prologue ?t)\<lparr>phase := END_PHASE\<rparr>)"
  let ?e = "exit_ppp env ((bye_prologue ?b)\<lparr>ppp_bool := False, ppp_processing := False\<rparr>)"
  have p: "ppp_processing (exit_ppp env s) = ppp_processing s" for s
    by (simp add: exit_ppp_def processing_updates Let_def)
  have t: "TxDiscovery PADT 24 \<in> set (effects ?t)" by (simp add: emit_def)
  then have "TxDiscovery PADT 24 \<in> set (effects ?e)"
    by (intro exit_ppp_effects) (simp add: bye_prologue_effects effects_grow)
  moreover have "A_send_padt fsm env st = Some (SUCCESS, ?e\<lparr>phase := END_PHASE\<rparr>)"
    by (simp add: A_send_padt_def pppoe_send_pkt_def PPP_bye_pppoe PPP_bye_end)
  moreover have "cp_state (?e\<lparr>phase := END_PHASE\<rparr>) c = S_INIT" for c
    using exit_ppp_states [of env "(bye_prologue ?b)\<lparr>ppp_bool := False, ppp_processing := False\<rparr>" c] by (simp add: cp_state_def)
  ultimately show ?thesis by (intro exI [of _ "?e\<lparr>phase := END_PHASE\<rparr>"]) (simp add: exit_ppp_session exit_ppp_timers p)
qed

lemma down_in_closed:
  assumes "cp_id st = PPP_CP_LCP" and "cp_state st PPP_CP_LCP = S_CLOSED"
  shows "\<exists>st'. PPP_FSM (Suc n) env tim E_DOWN st = Some (SUCCESS, st') \<and> phase st' = END_PHASE \<and> cp_id st' = PPP_CP_LCP \<and>
     session_id st' = 0 \<and> (\<forall>t. timers st' t = None) \<and> (\<forall>c. cp_state st' c = S_INIT) \<and> \<not> ppp_processing st' \<and>
     TxDiscovery PADT 24 \<in> set (effects st')"
proof -
  let ?row = "ROW S_CLOSED E_DOWN S_INIT [H_send_padt]"
  have "two_phase_search (ppp_fsm_tbl (cp_id st)) (cp_state st (cp_id st)) E_DOWN = Some ?row"
    using assms by (simp add: search_defs)
  from fsm_row [OF this, of n env tim] obtain i where i: "ppp_fsm_tbl (cp_id st) ! i = ?row"
    "PPP_FSM (Suc n) env tim E_DOWN st = run_hdls (Suc (Suc (Suc (Suc (Suc (Suc (Suc (Suc (Suc (Suc 0))))))))))
      (PPP_FSM n env) env tim i 0 (set_state (cp_id st) S_INIT st)" .
  have r: "ppp_fsm_tbl (cp_id s) ! i = ?row" if "cp_id s = PPP_CP_LCP" for s using i(1) assms(1) that by simp
  let ?s = "set_counter PPP_CP_LCP 10 (set_state PPP_CP_LCP S_INIT st)"
  obtain st' where p: "A_send_padt (PPP_FSM n env) env ?s = Some (SUCCESS, st')" "cp_id st' = cp_id ?s"
    and e: "phase st' = END_PHASE" "session_id st' = 0" "\<forall>t. timers st' t = None" "\<forall>c. cp_state st' c = S_INIT"
      "\<not> ppp_processing st'" "TxDiscovery PADT 24 \<in> set (effects st')"
    using padt_ends by blast
  have c: "cp_id st' = PPP_CP_LCP" using p(2) assms(1) by simp
  have "PPP_FSM (Suc n) env tim E_DOWN st = Some (SUCCESS, st')"
    unfolding i(2) by (simp add: assms(1) run_hdls_Suc [OF r] run_hdl_def p(1) c del: run_hdls.simps)
  with e c show ?thesis by blast
qed

lemma terminate_ack_in_closing:
  assumes "cp_id st = PPP_CP_LCP" and "cp_state st PPP_CP_LCP = S_CLOSING"
  shows "\<exists>st'. PPP_FSM (Suc (Suc n)) env tim E_RECV_TERMINATE_ACK st = Some (SUCCESS, st') \<and> phase st' = END_PHASE \<and>
     cp_id st' = PPP_CP_LCP \<and> session_id st' = 0 \<and> (\<forall>t. timers st' t = None) \<and> (\<forall>c. cp_state st' c = S_INIT) \<and>
     \<not> ppp_processing st' \<and> TxDiscovery PADT 24 \<in> set (effects st')"
proof -
  let ?row = "ROW S_CLOSING E_RECV_TERMINATE_ACK S_CLOSED [H_create_down_event, H_create_up_event]"
  have "two_phase_search (ppp_fsm_tbl (cp_id st)) (cp_state st (cp_id st)) E_RECV_TERMINATE_ACK = Some ?row"
    using assms by (simp add: search_defs)
  from fsm_row [OF this, of "Suc n" env tim] obtain i where i: "ppp_fsm_tbl (cp_id st) ! i = ?row"
    "PPP_FSM (Suc (Suc n)) env tim E_RECV_TERMINATE_ACK st = run_hdls (Suc (Suc (Suc (Suc (Suc (Suc (Suc (Suc (Suc (Suc 0))))))))))
      (PPP_FSM (Suc n) env) env tim i 0 (set_state (cp_id st) S_CLOSED st)" .
  have r: "ppp_fsm_tbl (cp_id s) ! i = ?row" if "cp_id s = PPP_CP_LCP" for s using i(1) assms(1) that by simp
  let ?s = "set_counter PPP_CP_LCP 10 (set_state PPP_CP_LCP S_CLOSED st)"
  have "cp_id ?s = PPP_CP_LCP" "cp_state ?s PPP_CP_LCP = S_CLOSED" using assms(1) by (simp_all add: upd_cp_def cp_state_def)
  from down_in_closed [OF this, of n env tim] obtain st' where
    p: "PPP_FSM (Suc n) env tim E_DOWN ?s = Some (SUCCESS, st')" and c: "cp_id st' = PPP_CP_LCP"
    and e: "phase st' = END_PHASE" "session_id st' = 0" "\<forall>t. timers st' t = None" "\<forall>c. cp_state st' c = S_INIT"
      "\<not> ppp_processing st'" "TxDiscovery PADT 24 \<in> set (effects st')"
    by blast
  let ?r = "set_counter PPP_CP_LCP 10 st'"
  have "PPP_FSM (Suc (Suc n)) env tim E_RECV_TERMINATE_ACK st = Some (SUCCESS, ?r)"
    unfolding i(2)
    by (simp add: assms(1) run_hdls_Suc [OF r] run_hdl_def A_create_down_event_def A_create_up_event_def returning_success_def p c
        del: run_hdls.simps)
  moreover have "cp_state ?r c = S_INIT" for c using e(4) by (simp add: upd_cp_def cp_state_def)
  ultimately show ?thesis using e c by (intro exI [of _ ?r]) (simp add: effects_grow processing_updates)
qed

text \<open>
  C12: Hanging up. For an established session the disconnect command returns success with both data-plane gates closed,
  the session in the LCP phase with LCP in Closing, a Terminate-Request on the wire and its
  retransmission timer armed; the Terminate-Ack that answers it then ends the session: a PADT is sent, every
  control protocol is back in Initial, no timer is left running and the session identifier is cleared.
\<close>

theorem disconnect_handshake:
  assumes "phase st = DATA_PHASE \<or> phase st = IPCP_PHASE" and "\<not> ppp_processing st" and "cp_state st PPP_CP_LCP = S_OPENED"
  shows "\<exists>st1 f st2. ppp_disconnect (PPP_FSM 6 env) env st = Some (SUCCESS, st1) \<and> \<not> pppd_dp_gate_open st1 \<and> \<not> pppd_ipv6_dp_gate_open st1 \<and>
    phase st1 = LCP_PHASE \<and> cp_state st1 PPP_CP_LCP = S_CLOSING \<and>
    timers st1 TIM_PPP = Some \<lparr>cb = CB_send_terminate_request PPP_CP_LCP, ticks = 3 * cycles_in_sec (env_clock env), periodical = True\<rparr> \<and>
    last (effects st1) = TxSession f \<and> fr_protocol f = LCP_PROTOCOL \<and> fr_code f = TERMIN_REQUEST \<and>
    PPP_FSM 6 env' TIM_PPP E_RECV_TERMINATE_ACK st1 = Some (SUCCESS, st2) \<and> phase st2 = END_PHASE \<and>
    TxDiscovery PADT 24 \<in> set (effects st2) \<and> session_id st2 = 0 \<and> (\<forall>t. timers st2 t = None) \<and> (\<forall>c. cp_state st2 c = S_INIT)"
proof -
  let ?p = "(bye_prologue st)\<lparr>dp_start_bool := False, phase := LCP_PHASE\<rparr>"
  let ?c = "set_state PPP_CP_IPV6CP S_INIT (set_state PPP_CP_IPCP S_INIT (?p\<lparr>cp_id := PPP_CP_LCP, ppp_processing := True\<rparr>))"
  let ?d = "lcp_down (set_counter PPP_CP_LCP 10 (set_state PPP_CP_LCP S_CLOSING ?c))"
  let ?s = "terminate_sent env TIM_PPP ?d"
  have six: "6 = Suc (Suc (Suc (Suc (Suc (Suc 0)))))" by simp
  have lcp: "cp_state ?c PPP_CP_LCP = S_OPENED"
    using assms(3) by (simp add: upd_cp_def cp_state_def ccb_update_defs Let_def)
  have "PPP_bye (PPP_FSM 6 env) env st = Some ?s"
    using assms(1) close_in_opened [OF _ lcp, of "Suc (Suc (Suc (Suc 0)))" env TIM_PPP]
    by (subst PPP_bye.simps) (auto simp: Let_def lcp_close_def six)
  then have d: "ppp_disconnect (PPP_FSM 6 env) env st = Some (SUCCESS, ?s)"
    using assms(1,2) by (auto simp: ppp_disconnect_def)
  have s: "cp_id ?s = PPP_CP_LCP" "cp_state ?s PPP_CP_LCP = S_CLOSING" by simp_all
  obtain st2 where 2: "PPP_FSM 6 env' TIM_PPP E_RECV_TERMINATE_ACK ?s = Some (SUCCESS, st2)" "phase st2 = END_PHASE"
    "TxDiscovery PADT 24 \<in> set (effects st2)" "session_id st2 = 0" "\<forall>t. timers st2 t = None" "\<forall>c. cp_state st2 c = S_INIT"
    using terminate_ack_in_closing [OF s, of "Suc (Suc (Suc (Suc 0)))" env' TIM_PPP] unfolding six by blast
  obtain f where f: "effects ?s = effects ?d @ [TxSession f]" "fr_code f = TERMIN_REQUEST" "fr_protocol f = cp_protocol (cp_id ?d)"
    using terminate_sent_fields(7) by blast
  then have "last (effects ?s) = TxSession f" "fr_protocol f = LCP_PROTOCOL" by (simp_all add: cp_protocol_def)
  with d 2 f(2) s show ?thesis
    by (intro exI [of _ ?s] exI [of _ f] exI [of _ st2]) (simp add: pppd_dp_gate_open_def pppd_ipv6_dp_gate_open_def)
qed

theorem disconnect_handshake_witness:
  "\<exists>st1 f st2. ppp_disconnect (PPP_FSM 6 sample_env) sample_env
      (set_state PPP_CP_LCP S_OPENED (bound_session\<lparr>phase := DATA_PHASE, dp_start_bool := True\<rparr>)) = Some (SUCCESS, st1) \<and>
    last (effects st1) = TxSession f \<and> fr_code f = TERMIN_REQUEST \<and>
    PPP_FSM 6 sample_env TIM_PPP E_RECV_TERMINATE_ACK st1 = Some (SUCCESS, st2) \<and> TxDiscovery PADT 24 \<in> set (effects st2)"
proof -
  let ?st = "set_state PPP_CP_LCP S_OPENED (bound_session\<lparr>phase := DATA_PHASE, dp_start_bool := True\<rparr>)"
  have "\<not> ppp_processing configured"
    by (simp add: configured_def ppp_init_config_by_user_def ppp_copy_credentials_def sample_env_def processing_updates Let_def)
      (simp add: ppp_init_fields_def processing_updates ppp_ccb_zero_def Let_def)
  then have "phase ?st = DATA_PHASE \<or> phase ?st = IPCP_PHASE" "\<not> ppp_processing ?st" "cp_state ?st PPP_CP_LCP = S_OPENED"
    by (simp_all add: upd_cp_def cp_state_def bound_session_def)
  from disconnect_handshake [OF this, of sample_env sample_env] show ?thesis by blast
qed

section \<open>Renegotiation\<close>

lemma close_in_ack_sent:
  assumes "cp_id st = PPP_CP_IPV6CP" and "cp_state st PPP_CP_IPV6CP = S_ACK_SENT"
  shows "PPP_FSM (Suc n) env tim E_CLOSE st =
    Some (SUCCESS, terminate_sent env tim (set_state PPP_CP_IPV6CP S_CLOSING st))"
proof -
  let ?row = "ROW S_ACK_SENT E_CLOSE S_CLOSING [H_init_restart_termin, H_send_terminate_request]"
  let ?d = "set_state PPP_CP_IPV6CP S_CLOSING st"
  have "two_phase_search (ppp_fsm_tbl (cp_id st)) (cp_state st (cp_id st)) E_CLOSE = Some ?row"
    using assms by (simp add: search_defs)
  from fsm_row [OF this, of n env tim] obtain i where i: "ppp_fsm_tbl (cp_id st) ! i = ?row"
    "PPP_FSM (Suc n) env tim E_CLOSE st = run_hdls (Suc (Suc (Suc (Suc (Suc (Suc (Suc (Suc (Suc (Suc 0))))))))))
      (PPP_FSM n env) env tim i 0 (set_state (cp_id st) S_CLOSING st)" .
  have r: "ppp_fsm_tbl (cp_id s) ! i = ?row" if "cp_id s = PPP_CP_IPV6CP" for s using i(1) assms(1) that by simp
  show ?thesis unfolding i(2)
    by (simp add: assms(1) run_hdls_Suc [OF r] run_hdl_def A_init_restart_termin_def A_send_terminate_request_def
        terminate_sent_def Let_def del: run_hdls.simps)
qed

text \<open>
  Renegotiation takes an open IPV6CP down for good. RFC 1661 and the row of the table move Opened on a good Configure-Request to
  Ack-Sent, and the row answers it; but this-layer-down raises Close while the state is already
  Ack-Sent, so the automaton ends in Closing with the terminate timer armed and a Terminate-Request sent
  ahead of the new Configure-Request, and the IPv6 gate stays closed.
\<close>

theorem ipv6cp_renegotiation_closes:
  assumes "cp_id st = PPP_CP_IPV6CP" and "cp_state st PPP_CP_IPV6CP = S_OPENED"
  shows "two_phase_search (ppp_fsm_tbl (cp_id st)) (cp_state st (cp_id st)) E_RECV_GOOD_CONFIG_REQUEST =
      Some (ROW S_OPENED E_RECV_GOOD_CONFIG_REQUEST S_ACK_SENT [H_this_layer_down, H_send_config_request, H_send_config_ack]) \<and>
    (\<exists>st' f. PPP_FSM 6 env tim E_RECV_GOOD_CONFIG_REQUEST st = Some (SUCCESS, st') \<and> cp_state st' PPP_CP_IPV6CP = S_CLOSING \<and>
       timers st' tim = Some \<lparr>cb = CB_send_terminate_request PPP_CP_IPV6CP, ticks = 3 * cycles_in_sec (env_clock env), periodical = True\<rparr> \<and>
       TxSession f \<in> set (effects st') \<and> fr_protocol f = IPV6CP_PROTOCOL \<and> fr_code f = TERMIN_REQUEST \<and>
       \<not> pppd_ipv6_dp_gate_open st')"
proof -
  let ?row = "ROW S_OPENED E_RECV_GOOD_CONFIG_REQUEST S_ACK_SENT [H_this_layer_down, H_send_config_request, H_send_config_ack]"
  have row: "two_phase_search (ppp_fsm_tbl (cp_id st)) (cp_state st (cp_id st)) E_RECV_GOOD_CONFIG_REQUEST = Some ?row"
    using assms by (simp add: search_defs)
  from fsm_row [OF this, of "Suc (Suc (Suc (Suc (Suc 0))))" env tim] obtain i where i: "ppp_fsm_tbl (cp_id st) ! i = ?row"
    "PPP_FSM 6 env tim E_RECV_GOOD_CONFIG_REQUEST st = run_hdls (Suc (Suc (Suc (Suc (Suc (Suc (Suc (Suc (Suc (Suc 0))))))))))
      (PPP_FSM (Suc (Suc (Suc (Suc (Suc 0))))) env) env tim i 0 (set_state (cp_id st) S_ACK_SENT st)"
    by (simp add: numeral_eq_Suc) blast
  have r: "ppp_fsm_tbl (cp_id s) ! i = ?row" if "cp_id s = PPP_CP_IPV6CP" for s using i(1) assms(1) that by simp
  let ?a = "set_counter PPP_CP_IPV6CP 10 (set_state PPP_CP_IPV6CP S_ACK_SENT st)"
  let ?g = "pppd_ipv6_dp_gate_update ((dhcp6_pd_stop ?a)\<lparr>ipv6cp_up := False\<rparr>)"
  let ?t = "terminate_sent env tim (set_state PPP_CP_IPV6CP S_CLOSING ?g)"
  have g: "cp_id ?g = PPP_CP_IPV6CP" "cp_state ?g PPP_CP_IPV6CP = S_ACK_SENT" "\<not> ipv6_dp_bool ?g"
    using assms(1) by (simp_all add: upd_cp_def cp_state_def ccb_update_defs Let_def)
  have down: "run_hdl (PPP_FSM (Suc n) env) env tim H_this_layer_down ?a = Some (SUCCESS, ?t)" for n
    using assms(1) close_in_ack_sent [OF g(1,2)] by (simp add: run_hdl_def A_this_layer_down_def returning_success_def)
  let ?b = "build_config_request (set_counter PPP_CP_IPV6CP 10 ?t)"
  let ?c = "count_down (wan_ctrl_tx (fst ?b) (snd ?b))"
  let ?d = "set_counter PPP_CP_IPV6CP 10 ?c"
  let ?e = "wan_ctrl_tx (build_config_ack ?d) ?d"
  have ids: "cp_id ?t = PPP_CP_IPV6CP" "cp_id (snd ?b) = PPP_CP_IPV6CP"
    using g by (simp_all add: build_config_request_def Let_def)
  have "timer_counter (control_protocols (set_counter PPP_CP_IPV6CP 10 ?t) (cp_id (set_counter PPP_CP_IPV6CP 10 ?t))) = 10"
    unfolding cp_id_updates ids by simp
  then have req: "run_hdl fsm env tim H_send_config_request (set_counter PPP_CP_IPV6CP 10 ?t) = Some (SUCCESS, ?c)" for fsm
    by (simp add: run_hdl_def A_send_config_request_def case_prod_beta)
  have ack: "run_hdl fsm env tim H_send_config_ack s = Some (SUCCESS, wan_ctrl_tx (build_config_ack s) s)" for fsm s
    by (simp add: run_hdl_def A_send_config_ack_def)
  have run: "PPP_FSM 6 env tim E_RECV_GOOD_CONFIG_REQUEST st = Some (SUCCESS, ?e)"
    unfolding i(2) assms(1)
    by (simp add: assms(1) run_hdls_Suc [OF r] down req ids ack del: run_hdls.simps)
  have keep: "cp_state ?e PPP_CP_IPV6CP = cp_state ?t PPP_CP_IPV6CP" "timers ?e = timers ?t" "ipv6_dp_bool ?e = ipv6_dp_bool ?t"
      "set (effects ?t) \<subseteq> set (effects ?e)"
    by (auto simp: build_config_request_def wan_ctrl_tx_def count_down_def emit_def upd_cp_def cp_state_def Let_def)
  let ?h = "set_state PPP_CP_IPV6CP S_CLOSING ?g"
  obtain f where "effects ?t = effects ?h @ [TxSession f]" and f: "fr_code f = TERMIN_REQUEST" "fr_protocol f = cp_protocol (cp_id ?h)"
    using terminate_sent_fields(7) by blast
  then have tx: "TxSession f \<in> set (effects ?t)" by simp
  have p: "fr_protocol f = IPV6CP_PROTOCOL" using f(2) g(1) by (simp add: cp_protocol_def)
  have "cp_state ?t PPP_CP_IPV6CP = S_CLOSING" "\<not> ipv6_dp_bool ?t"
    "timers ?t tim = Some \<lparr>cb = CB_send_terminate_request PPP_CP_IPV6CP, ticks = 3 * cycles_in_sec (env_clock env), periodical = True\<rparr>"
    using g by (simp_all, simp_all add: upd_cp_def)
  then show ?thesis
    using row run keep f(1) p subsetD [OF keep(4) tx] by (intro conjI exI [of _ ?e] exI [of _ f]) (simp_all add: pppd_ipv6_dp_gate_open_def)
qed

theorem ipv6cp_renegotiation_closes_witness:
  "\<exists>st'. PPP_FSM 6 sample_env TIM_PPP_IPV6CP E_RECV_GOOD_CONFIG_REQUEST
      (set_state PPP_CP_IPV6CP S_OPENED (bound_session\<lparr>phase := DATA_PHASE, cp_id := PPP_CP_IPV6CP\<rparr>)) = Some (SUCCESS, st') \<and>
    cp_state st' PPP_CP_IPV6CP = S_CLOSING"
proof -
  let ?st = "set_state PPP_CP_IPV6CP S_OPENED (bound_session\<lparr>phase := DATA_PHASE, cp_id := PPP_CP_IPV6CP\<rparr>)"
  have "cp_id ?st = PPP_CP_IPV6CP" "cp_state ?st PPP_CP_IPV6CP = S_OPENED" by (simp_all add: upd_cp_def cp_state_def)
  from ipv6cp_renegotiation_closes [OF this, of sample_env TIM_PPP_IPV6CP] show ?thesis by blast
qed

end
