(* ===== verification/Dns_Codec.thy ===== *)
theory Dns_Codec
  imports FastRG_Prelude
begin

text \<open>
  The DNS codec of the proxy (\<^verbatim>\<open>src/src/dnsd/dns_codec.c\<close>): names in wire format with compression
  pointers, the question and the answer section, and the answers the proxy builds itself.

  A packet is the list of its bytes, so its length is the \<open>pkt_len\<close> argument. A C string is the list of
  its bytes up to the terminating zero. Offsets are natural numbers: they stay below the packet
  length, which is a \<open>U16\<close>, so the C arithmetic does not wrap.
\<close>

section \<open>Characters and names\<close>

abbreviation DNS_HDR_LEN :: nat where "DNS_HDR_LEN \<equiv> 12"
abbreviation DNS_MAX_DOMAIN_LEN :: nat where "DNS_MAX_DOMAIN_LEN \<equiv> 253"
abbreviation DNS_MAX_LABEL_LEN :: u8 where "DNS_MAX_LABEL_LEN \<equiv> 63"
abbreviation DNS_MAX_PACKET_LEN :: nat where "DNS_MAX_PACKET_LEN \<equiv> 512"
abbreviation DNS_MAX_ANSWERS :: nat where "DNS_MAX_ANSWERS \<equiv> 16"
abbreviation DNS_FLAG_QR :: u16 where "DNS_FLAG_QR \<equiv> 0x8000"
abbreviation DNS_FLAG_RA :: u16 where "DNS_FLAG_RA \<equiv> 0x0080"
abbreviation DNS_RCODE_OK :: u16 where "DNS_RCODE_OK \<equiv> 0"
abbreviation DNS_RCODE_SERVFAIL :: u16 where "DNS_RCODE_SERVFAIL \<equiv> 2"
abbreviation DNS_RCODE_NXDOMAIN :: u16 where "DNS_RCODE_NXDOMAIN \<equiv> 3"
abbreviation DNS_TYPE_A :: u16 where "DNS_TYPE_A \<equiv> 1"
abbreviation DNS_CLASS_IN :: u16 where "DNS_CLASS_IN \<equiv> 1"

text \<open>\<open>tolower\<close> in the C locale, and the string a buffer holds.\<close>

definition tolower :: "u8 \<Rightarrow> u8" where
  "tolower c = (if 65 \<le> c \<and> c \<le> 90 then c + 32 else c)"

definition cstr :: "u8 list \<Rightarrow> u8 list" where
  "cstr buf = takeWhile (\<lambda>c. c \<noteq> 0) buf"

definition dns_domain_to_lower :: "u8 list \<Rightarrow> u8 list" where
  "dns_domain_to_lower domain = map tolower domain"

definition be16_at :: "u8 list \<Rightarrow> nat \<Rightarrow> u16" where
  "be16_at pkt pos = push_bit 8 (ucast (pkt ! pos)) OR ucast (pkt ! (pos + 1))"

definition be32_at :: "u8 list \<Rightarrow> nat \<Rightarrow> u32" where
  "be32_at pkt pos = push_bit 24 (ucast (pkt ! pos)) OR push_bit 16 (ucast (pkt ! (pos + 1))) OR
     push_bit 8 (ucast (pkt ! (pos + 2))) OR ucast (pkt ! (pos + 3))"

text \<open>
  The loop of \<open>dns_parse_name\<close>: \<open>None\<close> where it returns 0 in the middle, otherwise the bytes
  consumed at \<open>offset\<close> and the name written so far.
\<close>

function dns_name_walk :: "u8 list \<Rightarrow> nat \<Rightarrow> nat \<Rightarrow> nat \<Rightarrow> u8 list \<Rightarrow> nat \<Rightarrow> bool \<Rightarrow> nat \<Rightarrow> (nat \<times> u8 list) option" where
  "dns_name_walk pkt name_max offset pos out consumed jumped jump_count =
     (if length pkt \<le> pos then Some (consumed, out)
      else let label_len = pkt ! pos in
        if label_len = 0 then Some (if jumped then consumed else pos - offset + 1, out)
        else if label_len AND 0xC0 = 0xC0
        then if length pkt \<le> pos + 1 then None
             else let ptr = unat (push_bit 8 (ucast (label_len AND 0x3F)) OR ucast (pkt ! (pos + 1)) :: u16)
                  in if length pkt \<le> ptr then None
                     else if 128 < jump_count + 1 then None
                     else dns_name_walk pkt name_max offset ptr out (if jumped then consumed else pos - offset + 2) True (jump_count + 1)
        else if DNS_MAX_LABEL_LEN < label_len then None
        else if length pkt < pos + 1 + unat label_len then None
        else if out \<noteq> [] \<and> name_max \<le> length out + 1 then None
        else let out = (if out \<noteq> [] then out @ [46] else out)
             in if name_max \<le> length out + unat label_len then None
                else dns_name_walk pkt name_max offset (pos + 1 + unat label_len) (out @ take (unat label_len) (drop (pos + 1) pkt))
                       (if jumped then consumed else pos + 1 + unat label_len - offset) jumped jump_count)"
  by pat_completeness auto
termination
  by (relation "measures [\<lambda>(_, _, _, _, _, _, _, n). 128 - n, \<lambda>(pkt, _, _, pos, _). length pkt - pos]") auto

declare dns_name_walk.simps [simp del]

text \<open>The value 0 is the error; the buffer then holds nothing a caller reads.\<close>

definition dns_parse_name :: "u8 list \<Rightarrow> nat \<Rightarrow> nat \<Rightarrow> nat \<times> u8 list" where
  "dns_parse_name pkt offset name_max =
     (if name_max = 0 then (0, [])
      else case dns_name_walk pkt name_max offset offset [] 0 False 0 of None \<Rightarrow> (0, []) | Some r \<Rightarrow> r)"

section \<open>Messages\<close>

record dns_header =
  dh_id :: u16
  dh_flags :: u16
  dh_qdcount :: u16
  dh_ancount :: u16
  dh_nscount :: u16
  dh_arcount :: u16

record dns_question =
  q_name :: "u8 list"
  q_qtype :: u16
  q_qclass :: u16
  q_name_wire_len :: nat

text \<open>Of \<open>rdata\<close> the copied bytes; the rest of the 256-byte array is zero.\<close>

record dns_rr =
  rr_name :: "u8 list"
  rr_type :: u16
  rr_class :: u16
  rr_ttl :: u32
  rr_rdlength :: u16
  rr_rdata :: "u8 list"

text \<open>\<open>answers\<close> are the records parsed and kept; the entries of the array past them are zero.\<close>

record dns_message =
  dm_header :: dns_header
  dm_question :: dns_question
  dm_answers :: "dns_rr list"
  dm_answer_count :: nat
  dm_min_ttl :: u32

definition parse_question :: "u8 list \<Rightarrow> nat \<Rightarrow> (nat \<times> dns_question) option" where
  "parse_question pkt offset =
     (case dns_parse_name pkt offset (DNS_MAX_DOMAIN_LEN + 1) of
        (name_consumed, name) \<Rightarrow>
          if name_consumed = 0 then None
          else let pos = offset + name_consumed
               in if length pkt < pos + 4 then None
                  else Some (pos + 4, \<lparr>q_name = dns_domain_to_lower (cstr name), q_qtype = be16_at pkt pos,
                         q_qclass = be16_at pkt (pos + 2), q_name_wire_len = name_consumed\<rparr>))"

definition parse_rr :: "u8 list \<Rightarrow> nat \<Rightarrow> (nat \<times> dns_rr) option" where
  "parse_rr pkt pos =
     (case dns_parse_name pkt pos (DNS_MAX_DOMAIN_LEN + 1) of
        (name_consumed, name) \<Rightarrow>
          if name_consumed = 0 then None
          else let pos = pos + name_consumed
               in if length pkt < pos + 10 then None
                  else let rdlength = be16_at pkt (pos + 8); n = unat rdlength
                       in if length pkt < pos + 10 + n then None
                          else Some (pos + 10 + n,
                            \<lparr>rr_name = dns_domain_to_lower (cstr name), rr_type = be16_at pkt pos, rr_class = be16_at pkt (pos + 2),
                             rr_ttl = be32_at pkt (pos + 4), rr_rdlength = rdlength,
                             rr_rdata = (if n \<le> 256 then take n (drop (pos + 10) pkt) else [])\<rparr>))"

fun parse_rr_section :: "u8 list \<Rightarrow> nat \<Rightarrow> nat \<Rightarrow> nat \<Rightarrow> dns_rr list \<Rightarrow> u32 \<Rightarrow> (nat \<times> dns_rr list \<times> u32) option" where
  "parse_rr_section pkt pos max_rrs 0 rrs min_ttl = Some (pos, rrs, min_ttl)"
| "parse_rr_section pkt pos max_rrs (Suc count) rrs min_ttl =
     (if length pkt \<le> pos then Some (pos, rrs, min_ttl)
      else case parse_rr pkt pos of
          None \<Rightarrow> None
        | Some (pos', rr) \<Rightarrow>
            parse_rr_section pkt pos' max_rrs count (if length rrs < max_rrs then rrs @ [rr] else rrs)
              (if 0 < rr_ttl rr \<and> (rr_ttl rr < min_ttl \<or> min_ttl = 0) then rr_ttl rr else min_ttl))"

definition dns_parse_header :: "u8 list \<Rightarrow> dns_header" where
  "dns_parse_header data = \<lparr>dh_id = be16_at data 0, dh_flags = be16_at data 2, dh_qdcount = be16_at data 4,
     dh_ancount = be16_at data 6, dh_nscount = be16_at data 8, dh_arcount = be16_at data 10\<rparr>"

definition dns_question_zero :: dns_question where
  "dns_question_zero = \<lparr>q_name = [], q_qtype = 0, q_qclass = 0, q_name_wire_len = 0\<rparr>"

definition dns_parse_query :: "u8 list \<Rightarrow> dns_message option" where
  "dns_parse_query data =
     (if length data < DNS_HDR_LEN then None
      else let h = dns_parse_header data
           in if dh_flags h AND DNS_FLAG_QR \<noteq> 0 then None
              else if dh_qdcount h \<noteq> 1 then None
              else case parse_question data DNS_HDR_LEN of
                  None \<Rightarrow> None
                | Some (_, q) \<Rightarrow> Some \<lparr>dm_header = h, dm_question = q, dm_answers = [], dm_answer_count = 0, dm_min_ttl = 0\<rparr>)"

text \<open>The question loop of a response keeps the first question and steps over the others.\<close>

fun skip_questions :: "u8 list \<Rightarrow> nat \<Rightarrow> nat \<Rightarrow> nat option" where
  "skip_questions data 0 pos = Some pos"
| "skip_questions data (Suc n) pos =
     (case parse_question data pos of None \<Rightarrow> None | Some (pos', _) \<Rightarrow> skip_questions data n pos')"

definition response_questions :: "u8 list \<Rightarrow> nat \<Rightarrow> nat \<Rightarrow> (nat \<times> dns_question) option" where
  "response_questions data qdcount pos =
     (if qdcount = 0 then Some (pos, dns_question_zero)
      else case parse_question data pos of
          None \<Rightarrow> None
        | Some (pos, q) \<Rightarrow> map_option (\<lambda>pos. (pos, q)) (skip_questions data (qdcount - 1) pos))"

definition dns_parse_response :: "u8 list \<Rightarrow> dns_message option" where
  "dns_parse_response data =
     (if length data < DNS_HDR_LEN then None
      else let h = dns_parse_header data
           in if dh_flags h AND DNS_FLAG_QR = 0 then None
              else case response_questions data (unat (dh_qdcount h)) DNS_HDR_LEN of
                  None \<Rightarrow> None
                | Some (pos, q) \<Rightarrow>
                    if dh_ancount h = 0
                    then Some \<lparr>dm_header = h, dm_question = q, dm_answers = [], dm_answer_count = 0, dm_min_ttl = 0\<rparr>
                    else case parse_rr_section data pos DNS_MAX_ANSWERS (unat (dh_ancount h)) [] 0 of
                        None \<Rightarrow> None
                      | Some (_, rrs, min_ttl) \<Rightarrow>
                          Some \<lparr>dm_header = h, dm_question = q, dm_answers = rrs,
                            dm_answer_count = (if DNS_MAX_ANSWERS < unat (dh_ancount h) then DNS_MAX_ANSWERS else unat (dh_ancount h)),
                            dm_min_ttl = min_ttl\<rparr>)"

section \<open>Answers of the proxy\<close>

text \<open>What a builder leaves in the first \<open>len\<close> bytes of the response buffer; \<open>None\<close> where it returns 0.\<close>

definition build_response_base :: "u8 list \<Rightarrow> u16 \<Rightarrow> nat \<Rightarrow> u8 list option" where
  "build_response_base query rcode resp_buf_len =
     (if length query < DNS_HDR_LEN \<or> resp_buf_len < length query then None
      else let flags = be16_at query 2 OR (DNS_FLAG_QR OR DNS_FLAG_RA);
               flags = flags AND 0xFFF0 OR rcode AND 0x0F
           in Some (query[2 := ucast (drop_bit 8 flags), 3 := ucast (flags AND 0xFF)]))"

definition set_counts :: "u8 \<Rightarrow> u8 list \<Rightarrow> u8 list" where
  "set_counts ancount resp = resp[6 := 0, 7 := ancount, 8 := 0, 9 := 0, 10 := 0, 11 := 0]"

text \<open>The bytes of a 32-bit variable in memory: an address kept in network order is copied as it is.\<close>

definition mem32 :: "u32 \<Rightarrow> u8 list" where
  "mem32 x = [ucast x, ucast (drop_bit 8 x), ucast (drop_bit 16 x), ucast (drop_bit 24 x)]"

definition answer_rr_a :: "u32 \<Rightarrow> u32 \<Rightarrow> u8 list" where
  "answer_rr_a ip_addr ttl =
     [0xC0, 0x0C, 0, 1, 0, 1, ucast (drop_bit 24 ttl), ucast (drop_bit 16 ttl), ucast (drop_bit 8 ttl), ucast ttl, 0, 4] @ mem32 ip_addr"

definition dns_build_response_a :: "u8 list \<Rightarrow> u32 \<Rightarrow> u32 \<Rightarrow> nat \<Rightarrow> u8 list option" where
  "dns_build_response_a query ip_addr ttl resp_buf_len =
     (if resp_buf_len < length query + 16 then None
      else case build_response_base query DNS_RCODE_OK resp_buf_len of
          None \<Rightarrow> None
        | Some resp \<Rightarrow>
            (case parse_question query DNS_HDR_LEN of
               None \<Rightarrow> None
             | Some (qend, _) \<Rightarrow>
                 if resp_buf_len < qend + 16 then None
                 else Some (take qend (set_counts 1 resp) @ answer_rr_a ip_addr ttl)))"

definition build_response_empty :: "u16 \<Rightarrow> u8 list \<Rightarrow> nat \<Rightarrow> u8 list option" where
  "build_response_empty rcode query resp_buf_len =
     (case build_response_base query rcode resp_buf_len of
        None \<Rightarrow> None
      | Some resp \<Rightarrow> map_option (\<lambda>(qend, _). take qend (set_counts 0 resp)) (parse_question query DNS_HDR_LEN))"

definition dns_build_response_nxdomain :: "u8 list \<Rightarrow> nat \<Rightarrow> u8 list option" where
  "dns_build_response_nxdomain = build_response_empty DNS_RCODE_NXDOMAIN"

definition dns_build_response_servfail :: "u8 list \<Rightarrow> nat \<Rightarrow> u8 list option" where
  "dns_build_response_servfail = build_response_empty DNS_RCODE_SERVFAIL"

end
