(* ===== verification/Dns_Codec_Props.thy ===== *)
theory Dns_Codec_Props
  imports Dns_Codec
begin

text \<open>
  What the DNS codec guarantees: a name read from any packet stays inside the packet and inside its
  buffer, a name in plain labels reads back as the labels, and the answer the proxy builds for a
  query parses as that answer.
\<close>

section \<open>Bounds\<close>

lemma dns_name_walk_bounds:
  assumes "dns_name_walk pkt name_max offset pos out consumed jumped jump_count = Some (c, name)"
    and "length out < name_max" and "offset + consumed \<le> length pkt" and "\<not> jumped \<Longrightarrow> offset \<le> pos"
  shows "length name < name_max \<and> offset + c \<le> length pkt"
  using assms
proof (induction pkt name_max offset pos out consumed jumped jump_count arbitrary: c name rule: dns_name_walk.induct)
  case (1 pkt name_max offset pos out consumed jumped jump_count)
  note eq = dns_name_walk.simps [of pkt name_max offset pos out consumed jumped jump_count]
  let ?l = "pkt ! pos"
  show ?case
  proof (cases "length pkt \<le> pos \<or> ?l = 0")
    case True
    then show ?thesis using "1.prems" by (auto simp: eq Let_def split: if_splits)
  next
    case False
    then have in_pkt: "\<not> length pkt \<le> pos" "?l \<noteq> 0" by simp_all
    show ?thesis
    proof (cases "?l AND 0xC0 = 0xC0")
      case True
      let ?ptr = "unat (push_bit 8 (ucast (?l AND 0x3F)) OR ucast (pkt ! (pos + 1)) :: u16)"
      let ?c = "if jumped then consumed else pos - offset + 2"
      have g: "\<not> length pkt \<le> pos + 1" "\<not> length pkt \<le> ?ptr" "\<not> 128 < jump_count + 1"
        and w: "dns_name_walk pkt name_max offset ?ptr out ?c True (jump_count + 1) = Some (c, name)"
        using "1.prems"(1) in_pkt True by (auto simp: eq Let_def split: if_splits)
      have "offset + ?c \<le> length pkt" using "1.prems"(3,4) g(1) by auto
      then show ?thesis using "1.IH"(1) [OF in_pkt(1) refl in_pkt(2) True g(1) refl g(2,3) w "1.prems"(2)] by simp
    next
      case no_ptr: False
      let ?out = "if out \<noteq> [] then out @ [46] else out"
      let ?n = "unat ?l"
      let ?c = "if jumped then consumed else pos + 1 + ?n - offset"
      have g: "\<not> DNS_MAX_LABEL_LEN < ?l" "\<not> length pkt < pos + 1 + ?n" "\<not> (out \<noteq> [] \<and> name_max \<le> length out + 1)"
          "\<not> name_max \<le> length ?out + ?n"
        and w: "dns_name_walk pkt name_max offset (pos + 1 + ?n) (?out @ take ?n (drop (pos + 1) pkt)) ?c jumped jump_count = Some (c, name)"
        using "1.prems"(1) in_pkt no_ptr by (auto simp: eq Let_def split: if_splits)
      have "length (?out @ take ?n (drop (pos + 1) pkt)) < name_max" "offset + ?c \<le> length pkt"
        "\<not> jumped \<Longrightarrow> offset \<le> pos + 1 + ?n"
        using g "1.prems"(3,4) by auto
      then show ?thesis by (rule "1.IH"(2) [OF in_pkt(1) refl in_pkt(2) no_ptr g(1-3) refl g(4) w])
    qed
  qed
qed

lemma dns_parse_name_bounds:
  assumes "dns_parse_name pkt offset name_max = (c, name)" and "offset \<le> length pkt" and "0 < name_max"
  shows "length name < name_max \<and> offset + c \<le> length pkt"
  using assms dns_name_walk_bounds [of pkt name_max offset offset "[]" 0 False 0]
  by (auto simp: dns_parse_name_def split: option.splits)

lemma parse_question_bounds:
  assumes "parse_question pkt offset = Some (qend, q)" and "offset \<le> length pkt"
  shows "qend \<le> length pkt \<and> offset + 5 \<le> qend \<and> length (q_name q) \<le> DNS_MAX_DOMAIN_LEN"
proof -
  obtain c name where n: "dns_parse_name pkt offset (DNS_MAX_DOMAIN_LEN + 1) = (c, name)" by fastforce
  have "length (cstr name) \<le> length name" by (simp add: cstr_def length_takeWhile_le)
  with assms n dns_parse_name_bounds [OF n assms(2)] show ?thesis
    by (auto simp: parse_question_def dns_domain_to_lower_def Let_def split: if_splits)
qed

section \<open>Names in plain labels\<close>

definition wire_label :: "u8 list \<Rightarrow> u8 list" where
  "wire_label l = of_nat (length l) # l"

definition encode_name :: "u8 list list \<Rightarrow> u8 list" where
  "encode_name ls = concat (map wire_label ls) @ [0]"

definition label_ok :: "u8 list \<Rightarrow> bool" where
  "label_ok l \<longleftrightarrow> 0 < length l \<and> length l \<le> 63 \<and> 0 \<notin> set l"

definition add_label :: "u8 list \<Rightarrow> u8 list \<Rightarrow> u8 list" where
  "add_label out l = (if out \<noteq> [] then out @ [46] else out) @ l"

definition dotted :: "u8 list list \<Rightarrow> u8 list" where
  "dotted ls = foldl add_label [] ls"

lemma label_len_word:
  assumes "label_ok l"
  shows "unat (of_nat (length l) :: u8) = length l" "(of_nat (length l) :: u8) \<noteq> 0"
    "\<not> DNS_MAX_LABEL_LEN < (of_nat (length l) :: u8)" "(of_nat (length l) :: u8) AND 0xC0 \<noteq> 0xC0"
proof -
  have b: "0 < length l" "length l \<le> 63" using assms by (simp_all add: label_ok_def)
  show u: "unat (of_nat (length l) :: u8) = length l" using b by (simp add: unat_of_nat take_bit_nat_eq_self)
  show "(of_nat (length l) :: u8) \<noteq> 0" using u b by (metis less_numeral_extra(3) unat_0)
  show "\<not> DNS_MAX_LABEL_LEN < (of_nat (length l) :: u8)" using u b by (simp add: word_less_nat_alt)
  have "(of_nat (length l) :: u8) < 0xC0" using u b by (simp add: word_less_nat_alt)
  then show "(of_nat (length l) :: u8) AND 0xC0 \<noteq> 0xC0"
    by (metis linorder_not_less word_and_le2)
qed

lemma foldl_add_label_length: "length out \<le> length (foldl add_label out ls)"
proof (induction ls arbitrary: out)
  case (Cons l ls)
  have "length out \<le> length (add_label out l)" by (simp add: add_label_def)
  then show ?case using Cons [of "add_label out l"] by simp
qed simp

lemma dns_name_walk_labels:
  assumes "\<forall>l \<in> set ls. label_ok l" and "length (foldl add_label out ls) < name_max" and "\<not> jumped \<Longrightarrow> offset \<le> length pre"
  shows "dns_name_walk (pre @ encode_name ls @ post) name_max offset (length pre) out consumed jumped jump_count =
    Some (if jumped then consumed else length pre + length (encode_name ls) - offset, foldl add_label out ls)"
  using assms
proof (induction ls arbitrary: pre out consumed)
  case Nil
  then show ?case by (subst dns_name_walk.simps) (auto simp: encode_name_def nth_append)
next
  case (Cons l ls)
  have l: "label_ok l" using Cons.prems(1) by simp
  note w = label_len_word [OF l]
  let ?pkt = "pre @ encode_name (l # ls) @ post"
  let ?pre = "pre @ wire_label l"
  have pkt: "?pkt = ?pre @ encode_name ls @ post" by (simp add: encode_name_def)
  have at: "?pkt ! length pre = of_nat (length l)" by (simp add: encode_name_def wire_label_def nth_append)
  have val: "take (length l) (drop (length pre + 1) ?pkt) = l" by (simp add: encode_name_def wire_label_def)
  have len: "length (add_label out l) < name_max"
    using Cons.prems(2) foldl_add_label_length [of "add_label out l" ls] by simp
  have out: "\<not> (out \<noteq> [] \<and> name_max \<le> length out + 1)" "\<not> name_max \<le> length (if out \<noteq> [] then out @ [46] else out) + length l"
    using len l by (auto simp: add_label_def label_ok_def split: if_splits)
  have "dns_name_walk ?pkt name_max offset (length pre) out consumed jumped jump_count =
    dns_name_walk ?pkt name_max offset (length pre + 1 + length l) (add_label out l)
      (if jumped then consumed else length pre + 1 + length l - offset) jumped jump_count"
    using out
    by (subst dns_name_walk.simps) (simp add: at w val Let_def add_label_def, auto simp: encode_name_def wire_label_def)
  also have "length pre + 1 + length l = length ?pre" by (simp add: wire_label_def)
  also have "dns_name_walk ?pkt name_max offset (length ?pre) (add_label out l)
      (if jumped then consumed else length ?pre - offset) jumped jump_count =
    Some (if jumped then (if jumped then consumed else length ?pre - offset) else length ?pre + length (encode_name ls) - offset,
      foldl add_label (add_label out l) ls)"
    unfolding pkt using Cons.prems by (intro Cons.IH) auto
  finally show ?case by (simp add: encode_name_def wire_label_def ac_simps)
qed

lemma dotted_no_zero: "\<forall>l \<in> set ls. label_ok l \<Longrightarrow> 0 \<notin> set (dotted ls)"
proof -
  have "0 \<notin> set out \<Longrightarrow> \<forall>l \<in> set ls. label_ok l \<Longrightarrow> 0 \<notin> set (foldl add_label out ls)" for out
    by (induction ls arbitrary: out) (auto simp: add_label_def label_ok_def)
  then show "\<forall>l \<in> set ls. label_ok l \<Longrightarrow> 0 \<notin> set (dotted ls)" by (simp add: dotted_def)
qed

lemma cstr_dotted: "\<forall>l \<in> set ls. label_ok l \<Longrightarrow> cstr (dotted ls) = dotted ls"
  using dotted_no_zero [of ls] by (auto simp: cstr_def takeWhile_eq_all_conv)

definition name_ok :: "u8 list list \<Rightarrow> bool" where
  "name_ok ls \<longleftrightarrow> (\<forall>l \<in> set ls. label_ok l) \<and> length (dotted ls) \<le> DNS_MAX_DOMAIN_LEN"

lemma dns_parse_name_plain:
  assumes "name_ok ls"
  shows "dns_parse_name (pre @ encode_name ls @ post) (length pre) 254 = (length (encode_name ls), dotted ls)"
  using assms dns_name_walk_labels [of ls "[]" 254 False "length pre" pre post 0 0]
  by (simp add: dns_parse_name_def name_ok_def dotted_def)

section \<open>Numbers on the wire\<close>

definition wire16 :: "u16 \<Rightarrow> u8 list" where
  "wire16 x = [ucast (drop_bit 8 x), ucast x]"

lemma be16_at_append: "be16_at (pre @ bs) (length pre + k) = be16_at bs k"
  by (simp add: be16_at_def nth_append add.assoc)

lemma be32_at_append: "be32_at (pre @ bs) (length pre + k) = be32_at bs k"
  by (simp add: be32_at_def nth_append add.assoc)

lemma be16_wire: "push_bit 8 (ucast (ucast (drop_bit 8 x) :: u8)) OR ucast (ucast x :: u8) = (x :: u16)"
  by (rule bit_word_eqI) (auto simp: bit_simps)

lemma be32_wire:
  "push_bit 24 (ucast (ucast (drop_bit 24 x) :: u8)) OR push_bit 16 (ucast (ucast (drop_bit 16 x) :: u8)) OR
   push_bit 8 (ucast (ucast (drop_bit 8 x) :: u8)) OR ucast (ucast x :: u8) = (x :: u32)"
proof (rule bit_word_eqI)
  fix n assume "n < LENGTH(32)"
  then have "n < 8 \<or> 8 \<le> n \<and> n < 16 \<or> 16 \<le> n \<and> n < 24 \<or> 24 \<le> n \<and> n < 32" by auto
  then show "bit (push_bit 24 (ucast (ucast (drop_bit 24 x) :: u8)) OR push_bit 16 (ucast (ucast (drop_bit 16 x) :: u8)) OR
      push_bit 8 (ucast (ucast (drop_bit 8 x) :: u8)) OR ucast (ucast x :: u8) :: u32) n = bit x n"
    by (auto simp: bit_simps)
qed

lemma be16_at_wire16: "be16_at (wire16 x @ bs) 0 = x"
  by (simp add: be16_at_def wire16_def be16_wire)

lemma parse_question_plain:
  assumes "name_ok ls"
  shows "parse_question (pre @ encode_name ls @ wire16 t @ wire16 c @ post) (length pre) =
    Some (length pre + length (encode_name ls) + 4, \<lparr>q_name = dns_domain_to_lower (dotted ls), q_qtype = t, q_qclass = c,
      q_name_wire_len = length (encode_name ls)\<rparr>)"
proof -
  have e: "0 < length (encode_name ls)" by (simp add: encode_name_def)
  have l: "length (wire16 x) = 2" for x by (simp add: wire16_def)
  note at = be16_at_append [of "pre @ encode_name ls"] be16_at_append [of "pre @ encode_name ls @ wire16 t"]
  have "be16_at (pre @ encode_name ls @ wire16 t @ wire16 c @ post) (length pre + length (encode_name ls)) = t"
    "be16_at (pre @ encode_name ls @ wire16 t @ wire16 c @ post) (length pre + length (encode_name ls) + 2) = c"
    using at(1) [of "wire16 t @ wire16 c @ post" 0] at(2) [of "wire16 c @ post" 0] by (simp_all add: be16_at_wire16 l add.assoc)
  then show ?thesis
    using e assms by (simp add: parse_question_def dns_parse_name_plain l cstr_dotted name_ok_def Let_def)
qed

section \<open>The answer the proxy builds\<close>

definition encode_query :: "u16 \<Rightarrow> u16 \<Rightarrow> u8 list \<Rightarrow> u8 list list \<Rightarrow> u16 \<Rightarrow> u16 \<Rightarrow> u8 list \<Rightarrow> u8 list" where
  "encode_query i flags counts ls t c extra =
     wire16 i @ wire16 flags @ wire16 1 @ counts @ encode_name ls @ wire16 t @ wire16 c @ extra"

definition response_flags :: "u16 \<Rightarrow> u16" where
  "response_flags flags = (flags OR (DNS_FLAG_QR OR DNS_FLAG_RA)) AND 0xFFF0"

lemma response_flags_qr: "response_flags flags AND DNS_FLAG_QR \<noteq> 0"
proof -
  have "bit (response_flags flags AND DNS_FLAG_QR) 15" by (simp add: response_flags_def bit_simps)
  then show ?thesis by (metis bit_0_eq bot_apply bot_bool_def)
qed

lemma ucast_low_byte: "(ucast (x AND 0xFF) :: u8) = ucast (x :: u16)"
proof -
  have m: "(0xFF :: u16) = mask 8" by (simp add: mask_eq_exp_minus_1)
  show ?thesis unfolding m by (rule bit_word_eqI) (simp add: bit_simps)
qed

lemma encode_query_set_flags:
  "(encode_query i flags counts ls t c extra)[2 := ucast (drop_bit 8 f), 3 := ucast f] = encode_query i f counts ls t c extra"
  by (simp add: encode_query_def wire16_def)

lemma encode_query_set_counts:
  assumes "length counts = 6"
  shows "take (12 + length (encode_name ls) + 4) (set_counts n (encode_query i flags counts ls t c extra)) @ rest =
    encode_query i flags [0, n, 0, 0, 0, 0] ls t c rest"
proof -
  obtain c0 c1 c2 c3 c4 c5 where c: "counts = [c0, c1, c2, c3, c4, c5]"
    using assms by (auto simp: length_Suc_conv eval_nat_numeral)
  show ?thesis by (simp add: set_counts_def encode_query_def c wire16_def take_Cons')
qed

lemma build_response_a_encoded:
  assumes "name_ok ls" and "length counts = 6" and "length (encode_query i flags counts ls t c extra) + 16 \<le> n"
  shows "dns_build_response_a (encode_query i flags counts ls t c extra) ip ttl n =
    Some (encode_query i (response_flags flags) [0, 1, 0, 0, 0, 0] ls t c (answer_rr_a ip ttl))"
proof -
  let ?q = "encode_query i flags counts ls t c extra"
  let ?h = "wire16 i @ wire16 flags @ wire16 1 @ counts"
  have l: "length (wire16 x) = 2" for x by (simp add: wire16_def)
  have h: "length ?h = 12" by (simp add: l assms(2))
  have q: "?q = ?h @ encode_name ls @ wire16 t @ wire16 c @ extra" by (simp add: encode_query_def)
  have pq: "parse_question ?q 12 = Some (12 + length (encode_name ls) + 4, \<lparr>q_name = dns_domain_to_lower (dotted ls),
      q_qtype = t, q_qclass = c, q_name_wire_len = length (encode_name ls)\<rparr>)"
    using parse_question_plain [OF assms(1), of ?h t c extra] by (simp only: h q)
  have f: "be16_at ?q 2 = flags" by (simp add: encode_query_def wire16_def be16_at_def be16_wire)
  have len: "12 + length (encode_name ls) + 4 \<le> length ?q" by (simp add: encode_query_def l assms(2))
  have r: "response_flags flags = (flags OR (DNS_FLAG_QR OR DNS_FLAG_RA)) AND 0xFFF0 OR DNS_RCODE_OK AND 0x0F"
    by (simp add: response_flags_def)
  have base: "build_response_base ?q DNS_RCODE_OK n = Some (encode_query i (response_flags flags) counts ls t c extra)"
    using len assms(3) unfolding build_response_base_def f Let_def r [symmetric] ucast_low_byte encode_query_set_flags by simp
  show ?thesis
    using assms(3) len encode_query_set_counts [OF assms(2), of ls 1 i "response_flags flags" t c extra "answer_rr_a ip ttl"]
    by (simp add: dns_build_response_a_def base pq)
qed

text \<open>The answer record names the question by a pointer to offset 12.\<close>

lemma parse_rr_fields:
  assumes "dns_parse_name resp pos 254 = (2, nm)" and "length resp = pos + 16" and "be16_at resp (pos + 2) = a"
    and "be16_at resp (pos + 2 + 2) = b" and "be32_at resp (pos + 2 + 4) = ttl" and "be16_at resp (pos + 2 + 8) = 4"
  shows "parse_rr resp pos = Some (pos + 16, \<lparr>rr_name = dns_domain_to_lower (cstr nm), rr_type = a, rr_class = b, rr_ttl = ttl,
    rr_rdlength = 4, rr_rdata = take 4 (drop (pos + 2 + 10) resp)\<rparr>)"
  using assms by (simp add: parse_rr_def Let_def)

lemma parse_rr_answer:
  assumes "name_ok ls" and "length pre = 12" and "resp = pre @ encode_name ls @ post @ answer_rr_a ip ttl"
  shows "parse_rr resp (length (pre @ encode_name ls @ post)) =
    Some (length resp, \<lparr>rr_name = dns_domain_to_lower (dotted ls), rr_type = DNS_TYPE_A, rr_class = DNS_CLASS_IN, rr_ttl = ttl,
      rr_rdlength = 4, rr_rdata = mem32 ip\<rparr>)"
proof -
  let ?p = "pre @ encode_name ls @ post" and ?a = "answer_rr_a ip ttl"
  have r: "resp = ?p @ ?a" by (simp add: assms(3))
  have la: "length ?a = 16" by (simp add: answer_rr_a_def mem32_def)
  have at: "resp ! (length ?p + k) = ?a ! k" for k by (simp add: r nth_append)
  have a0: "resp ! length ?p = 0xC0" "resp ! (length ?p + 1) = 0x0C"
    using at [of 0] at [of 1] by (simp_all add: answer_rr_a_def)
  have w: "dns_name_walk resp 254 (length ?p) 12 [] 2 True 1 = Some (2, dotted ls)"
    using dns_name_walk_labels [of ls "[]" 254 True "length ?p" pre "post @ ?a" 2 1] assms by (simp add: name_ok_def dotted_def)
  have g: "\<not> length resp \<le> length ?p" "\<not> length resp \<le> length ?p + 1" "\<not> length resp \<le> 12"
    using la assms(2) by (simp_all add: r)
  have w': "dns_name_walk resp 254 (length ?p) 12 [] (length ?p - length ?p + 2) True (0 + 1) = Some (2, dotted ls)"
    using w by (simp only: diff_self_eq_0 add_0)
  have ptr: "unat (push_bit 8 (ucast ((0xC0 :: u8) AND 0x3F)) OR ucast (0x0C :: u8) :: u16) = 12" by simp
  have byte: "\<not> (0xC0 :: u8) = 0" "(0xC0 :: u8) AND 0xC0 = 0xC0" "\<not> (128 :: nat) < 0 + 1" by simp_all
  have "dns_name_walk resp 254 (length ?p) (length ?p) [] 0 False 0 = Some (2, dotted ls)"
    by (subst dns_name_walk.simps) (simp only: a0 Let_def ptr w' g byte if_False if_True simp_thms)
  then have n: "dns_parse_name resp (length ?p) 254 = (2, dotted ls)" by (simp add: dns_parse_name_def)
  have b: "be16_at resp (length ?p + 2) = 1" "be16_at resp (length ?p + 2 + 2) = 1" "be32_at resp (length ?p + 2 + 4) = ttl"
    "be16_at resp (length ?p + 2 + 8) = 4" "take 4 (drop (length ?p + 2 + 10) resp) = mem32 ip"
    unfolding r add.assoc be16_at_append be32_at_append by (simp_all add: be16_at_def be32_at_def answer_rr_a_def mem32_def be32_wire)
  have lr: "length resp = length ?p + 16" using la by (simp add: r)
  have "cstr (dotted ls) = dotted ls" using assms(1) by (simp add: cstr_dotted name_ok_def)
  then show ?thesis unfolding lr using parse_rr_fields [OF n lr b(1-4)] b(5) by simp
qed

lemma parse_response_encoded:
  assumes "name_ok ls" and "f AND DNS_FLAG_QR \<noteq> 0"
  shows "dns_parse_response (encode_query i f [0, 1, 0, 0, 0, 0] ls t c (answer_rr_a ip ttl)) = Some
    \<lparr>dm_header = \<lparr>dh_id = i, dh_flags = f, dh_qdcount = 1, dh_ancount = 1, dh_nscount = 0, dh_arcount = 0\<rparr>,
     dm_question = \<lparr>q_name = dns_domain_to_lower (dotted ls), q_qtype = t, q_qclass = c, q_name_wire_len = length (encode_name ls)\<rparr>,
     dm_answers = [\<lparr>rr_name = dns_domain_to_lower (dotted ls), rr_type = DNS_TYPE_A, rr_class = DNS_CLASS_IN, rr_ttl = ttl,
       rr_rdlength = 4, rr_rdata = mem32 ip\<rparr>],
     dm_answer_count = 1, dm_min_ttl = ttl\<rparr>"
proof -
  let ?h = "wire16 i @ wire16 f @ wire16 1 @ [0, 1, 0, 0, 0, 0]" and ?a = "answer_rr_a ip ttl"
  let ?r = "encode_query i f [0, 1, 0, 0, 0, 0] ls t c ?a"
  have l: "length (wire16 x) = 2" for x by (simp add: wire16_def)
  have r: "?r = ?h @ encode_name ls @ (wire16 t @ wire16 c) @ ?a" by (simp add: encode_query_def)
  have h: "length ?h = 12" by (simp add: l)
  have hdr: "dns_parse_header ?r = \<lparr>dh_id = i, dh_flags = f, dh_qdcount = 1, dh_ancount = 1, dh_nscount = 0, dh_arcount = 0\<rparr>"
    unfolding dns_parse_header_def encode_query_def wire16_def by (simp add: be16_at_def be16_wire)
  let ?pos = "length (?h @ encode_name ls @ wire16 t @ wire16 c)"
  have pos: "?pos = 12 + length (encode_name ls) + 4" by (simp add: l)
  have pq: "parse_question ?r 12 = Some (?pos, \<lparr>q_name = dns_domain_to_lower (dotted ls), q_qtype = t, q_qclass = c,
      q_name_wire_len = length (encode_name ls)\<rparr>)"
    using parse_question_plain [OF assms(1), of ?h t c ?a] unfolding pos h by (simp add: encode_query_def)
  have rr: "parse_rr ?r ?pos = Some (length ?r, \<lparr>rr_name = dns_domain_to_lower (dotted ls), rr_type = DNS_TYPE_A,
      rr_class = DNS_CLASS_IN, rr_ttl = ttl, rr_rdlength = 4, rr_rdata = mem32 ip\<rparr>)"
    by (rule parse_rr_answer [OF assms(1) h r])
  have len: "?pos < length ?r" "12 \<le> length ?r" by (simp_all only: r length_append) (simp_all add: l answer_rr_a_def)
  have q: "response_questions ?r 1 12 = Some (?pos, \<lparr>q_name = dns_domain_to_lower (dotted ls), q_qtype = t, q_qclass = c,
      q_name_wire_len = length (encode_name ls)\<rparr>)"
    using pq by (simp add: response_questions_def)
  have s: "parse_rr_section ?r ?pos DNS_MAX_ANSWERS 1 [] 0 = Some (length ?r, [\<lparr>rr_name = dns_domain_to_lower (dotted ls), rr_type = DNS_TYPE_A,
      rr_class = DNS_CLASS_IN, rr_ttl = ttl, rr_rdlength = 4, rr_rdata = mem32 ip\<rparr>], ttl)"
    using len(1) rr by (simp del: length_append) (simp add: word_neq_0_conv [symmetric])
  show ?thesis
    using len(2) assms(2) unfolding dns_parse_response_def hdr Let_def dns_header.simps unat_1
    by (simp only: q s option.case prod.case) simp
qed

text \<open>
  C33: The proxy's own answer reads back. For every query with one question in plain labels, whatever follows the
  question, the query parses to the lower-case name and the type asked; and where the answer fits the
  buffer, the built response parses to the same question under the same identifier, a response code of
  0, and exactly one A record for that name with the given address and time to live.
\<close>

theorem dns_static_answer_round_trip:
  assumes "name_ok ls" and "length counts = 6" and "flags AND DNS_FLAG_QR = 0"
    and "length (encode_query i flags counts ls t c extra) + 16 \<le> n"
  shows "\<exists>m resp r. dns_parse_query (encode_query i flags counts ls t c extra) = Some m \<and>
    dh_id (dm_header m) = i \<and> q_name (dm_question m) = dns_domain_to_lower (dotted ls) \<and> q_qtype (dm_question m) = t \<and>
    dns_build_response_a (encode_query i flags counts ls t c extra) ip ttl n = Some resp \<and> length resp \<le> n \<and>
    dns_parse_response resp = Some r \<and> dh_id (dm_header r) = i \<and> dh_flags (dm_header r) AND 0x0F = DNS_RCODE_OK \<and>
    dm_question r = dm_question m \<and> dm_answer_count r = 1 \<and> dm_min_ttl r = ttl \<and>
    dm_answers r = [\<lparr>rr_name = dns_domain_to_lower (dotted ls), rr_type = DNS_TYPE_A, rr_class = DNS_CLASS_IN, rr_ttl = ttl,
      rr_rdlength = 4, rr_rdata = mem32 ip\<rparr>]"
proof -
  let ?q = "encode_query i flags counts ls t c extra" and ?h = "wire16 i @ wire16 flags @ wire16 1 @ counts"
  let ?resp = "encode_query i (response_flags flags) [0, 1, 0, 0, 0, 0] ls t c (answer_rr_a ip ttl)"
  have l: "length (wire16 x) = 2" for x by (simp add: wire16_def)
  have h: "length ?h = 12" by (simp add: l assms(2))
  have pq: "parse_question ?q 12 = Some (12 + length (encode_name ls) + 4, \<lparr>q_name = dns_domain_to_lower (dotted ls),
      q_qtype = t, q_qclass = c, q_name_wire_len = length (encode_name ls)\<rparr>)"
    using parse_question_plain [OF assms(1), of ?h t c extra] unfolding h by (simp add: encode_query_def)
  obtain c0 c1 c2 c3 c4 c5 where cs: "counts = [c0, c1, c2, c3, c4, c5]"
    using assms(2) by (auto simp: length_Suc_conv eval_nat_numeral)
  have hdr: "dh_id (dns_parse_header ?q) = i" "dh_flags (dns_parse_header ?q) = flags" "dh_qdcount (dns_parse_header ?q) = 1"
    by (simp_all add: dns_parse_header_def encode_query_def wire16_def cs be16_at_def be16_wire)
  have len: "\<not> length ?q < 12" by (simp add: encode_query_def l assms(2))
  have "dns_parse_query ?q = Some \<lparr>dm_header = dns_parse_header ?q, dm_question = \<lparr>q_name = dns_domain_to_lower (dotted ls),
      q_qtype = t, q_qclass = c, q_name_wire_len = length (encode_name ls)\<rparr>, dm_answers = [], dm_answer_count = 0, dm_min_ttl = 0\<rparr>"
    using len assms(3) by (simp add: dns_parse_query_def hdr pq Let_def)
  moreover have "response_flags flags AND 0x0F = 0"
  proof -
    have "(0xFFF0 :: u16) AND 0x0F = 0" by simp
    then show ?thesis by (simp add: response_flags_def and.assoc)
  qed
  moreover have "length ?resp \<le> n"
    using assms(2,4) by (simp add: encode_query_def answer_rr_a_def mem32_def l)
  ultimately show ?thesis
    using build_response_a_encoded [OF assms(1,2,4), of ip ttl] parse_response_encoded [OF assms(1) response_flags_qr, of i flags t c ip ttl] hdr
    by simp
qed

theorem dns_static_answer_round_trip_witness:
  "\<exists>resp r. dns_build_response_a (encode_query 7 0x0100 [0, 0, 0, 0, 0, 0] [[0x66, 0x6f, 0x6f], [0x63, 0x6f]] 1 1 []) 0x0101A8C0 300 512 = Some resp \<and>
     dns_parse_response resp = Some r \<and> dh_id (dm_header r) = 7 \<and> dm_min_ttl r = 300"
proof -
  have n: "name_ok [[0x66, 0x6f, 0x6f], [0x63, 0x6f]]"
    by (simp add: name_ok_def label_ok_def dotted_def add_label_def)
  have "length (encode_query 7 0x0100 [0, 0, 0, 0, 0, 0] [[0x66, 0x6f, 0x6f], [0x63, 0x6f]] 1 1 []) + 16 \<le> 512"
    by (simp add: encode_query_def wire16_def encode_name_def wire_label_def)
  from dns_static_answer_round_trip [OF n _ _ this, where ip = "0x0101A8C0" and ttl = 300] show ?thesis by auto
qed



end
