(* ===== verification/Dns_Cache_Props.thy ===== *)
theory Dns_Cache_Props
  imports Dns_Cache
begin

text \<open>
  The cache refines a map from lower-case names and types to answers that expire. The contract its client,
  the proxy, relies on is the locale \<open>answer_store\<close>; the cache interprets it.
\<close>

section \<open>The contract\<close>

type_synonym answer = "u8 list \<times> u32 \<times> u64"
type_synonym cache_key = "u8 list \<times> u16"

definition answer_expired :: "clock \<Rightarrow> answer \<Rightarrow> bool" where
  "answer_expired clk v = (case v of (_, ttl, t0) \<Rightarrow> ucast ttl * cycles_in_sec clk \<le> cur_cycles clk - t0)"

locale answer_store =
  fixes ok :: "'s \<Rightarrow> bool"
    and view :: "'s \<Rightarrow> cache_key \<Rightarrow> answer option"
    and look :: "clock \<Rightarrow> 's \<Rightarrow> u8 list \<Rightarrow> u16 \<Rightarrow> answer option \<times> 's"
    and put :: "bool \<Rightarrow> clock \<Rightarrow> 's \<Rightarrow> u8 list \<Rightarrow> u16 \<Rightarrow> u8 list \<Rightarrow> u32 \<Rightarrow> status \<times> 's"
  assumes look_ok: "ok s \<Longrightarrow> ok (snd (look clk s d t))"
    and look_result: "ok s \<Longrightarrow> fst (look clk s d t) =
      (case view s (dns_domain_to_lower d, t) of None \<Rightarrow> None | Some v \<Rightarrow> if answer_expired clk v then None else Some v)"
    and look_view: "ok s \<Longrightarrow> view (snd (look clk s d t)) =
      (if fst (look clk s d t) = None then (view s)((dns_domain_to_lower d, t) := None) else view s)"
    and put_ok: "ok s \<Longrightarrow> length d \<le> DNS_MAX_DOMAIN_LEN \<Longrightarrow> ok (snd (put m clk s d t r ttl))"
    and put_status: "ok s \<Longrightarrow> m \<Longrightarrow> r \<noteq> [] \<Longrightarrow> length r \<le> DNS_MAX_PACKET_LEN \<Longrightarrow> fst (put m clk s d t r ttl) = SUCCESS"
    and put_view: "ok s \<Longrightarrow> length d \<le> DNS_MAX_DOMAIN_LEN \<Longrightarrow> fst (put m clk s d t r ttl) = SUCCESS \<Longrightarrow>
      view (snd (put m clk s d t r ttl)) (dns_domain_to_lower d, t) = Some (r, if ttl = 0 then 60 else ttl, cur_cycles clk)"
    and put_frame: "ok s \<Longrightarrow> length d \<le> DNS_MAX_DOMAIN_LEN \<Longrightarrow> k \<noteq> (dns_domain_to_lower d, t) \<Longrightarrow>
      view (snd (put m clk s d t r ttl)) k = view s k \<or> view (snd (put m clk s d t r ttl)) k = None"
begin

lemma look_after_put:
  assumes "ok s" and "length d \<le> DNS_MAX_DOMAIN_LEN" and "m" and "r \<noteq> []" and "length r \<le> DNS_MAX_PACKET_LEN"
    and "dns_domain_to_lower d' = dns_domain_to_lower d" and "\<not> answer_expired clk' (r, if ttl = 0 then 60 else ttl, cur_cycles clk)"
  shows "fst (look clk' (snd (put m clk s d t r ttl)) d' t) = Some (r, if ttl = 0 then 60 else ttl, cur_cycles clk)"
  using assms put_view [OF assms(1,2) put_status [OF assms(1,3-5)]] put_ok [OF assms(1,2)] by (simp add: look_result)

lemma look_fresh:
  assumes "ok s" and "fst (look clk s d t) = Some v"
  shows "\<not> answer_expired clk v \<and> view s (dns_domain_to_lower d, t) = Some v"
  using assms by (auto simp: look_result split: option.splits if_splits)

lemma look_other_key:
  assumes "ok s" and "(dns_domain_to_lower d', t') \<noteq> (dns_domain_to_lower d, t)"
  shows "fst (look clk' (snd (look clk s d t)) d' t') = fst (look clk' s d' t')"
  using assms look_ok [OF assms(1)] by (auto simp: look_result look_view)

end

section \<open>Chains as maps\<close>

definition ce_key :: "dns_cache_entry \<Rightarrow> cache_key" where
  "ce_key e = (ce_domain e, ce_qtype e)"

definition ce_answer :: "dns_cache_entry \<Rightarrow> answer" where
  "ce_answer e = (ce_response e, ce_ttl e, ce_insert_time e)"

lemma ce_expired_answer: "ce_expired clk e = answer_expired clk (ce_answer e)"
  by (simp add: ce_expired_def answer_expired_def ce_answer_def)

definition chain_map :: "dns_cache_entry list \<Rightarrow> cache_key \<Rightarrow> answer option" where
  "chain_map chain = map_of (map (\<lambda>e. (ce_key e, ce_answer e)) chain)"

definition cache_map :: "dns_cache \<Rightarrow> cache_key \<Rightarrow> answer option" where
  "cache_map c k = chain_map (buckets c (dns_cache_hash (fst k) (snd k))) k"

lemma chain_map_Cons: "chain_map (e # es) = (chain_map es)(ce_key e \<mapsto> ce_answer e)"
  by (simp add: chain_map_def)

lemma chain_map_append: "chain_map (xs @ ys) = chain_map ys ++ chain_map xs"
  by (simp add: chain_map_def)

lemma chain_map_None: "chain_map xs k = None \<longleftrightarrow> k \<notin> ce_key ` set xs"
  by (simp add: chain_map_def map_of_eq_None_iff image_image)

lemma chain_map_nth:
  assumes "distinct (map ce_key chain)" and "i < length chain"
  shows "chain_map chain (ce_key (chain ! i)) = Some (ce_answer (chain ! i))"
  using assms unfolding chain_map_def by (intro map_of_is_SomeI) (auto simp: comp_def)

lemma chain_split: "i < length chain \<Longrightarrow> chain = take i chain @ chain ! i # drop (Suc i) chain"
  by (simp add: Cons_nth_drop_Suc)

lemma distinct_remove_at:
  assumes "distinct (map ce_key chain)"
  shows "distinct (map ce_key (remove_at i chain))"
proof (cases "i < length chain")
  case True
  have "distinct (map ce_key (take i chain @ chain ! i # drop (Suc i) chain))" using assms chain_split [OF True] by simp
  then show ?thesis by (auto simp: remove_at_def)
next
  case False
  then show ?thesis using assms by (simp add: remove_at_def)
qed

lemma set_remove_at: "set (remove_at i xs) \<subseteq> set xs"
  by (auto simp: remove_at_def dest: in_set_takeD in_set_dropD)

lemma length_remove_at: "i < length xs \<Longrightarrow> length (remove_at i xs) = length xs - 1"
  by (simp add: remove_at_def)

lemma chain_map_remove_at:
  assumes "distinct (map ce_key chain)" and "i < length chain"
  shows "chain_map (remove_at i chain) = (chain_map chain)(ce_key (chain ! i) := None)"
proof -
  let ?a = "take i chain" and ?b = "drop (Suc i) chain" and ?e = "chain ! i"
  have c: "chain = ?a @ ?e # ?b" by (rule chain_split [OF assms(2)])
  have "distinct (map ce_key (?a @ ?e # ?b))" using assms(1) c by simp
  then have n: "chain_map ?a (ce_key ?e) = None" "chain_map ?b (ce_key ?e) = None" by (auto simp: chain_map_None)
  have "chain_map chain = (chain_map ?b)(ce_key ?e \<mapsto> ce_answer ?e) ++ chain_map ?a"
    by (subst c) (simp add: chain_map_append chain_map_Cons)
  then show ?thesis using n by (auto simp: remove_at_def chain_map_append fun_eq_iff map_add_def split: option.splits)
qed

lemma chain_map_update:
  assumes "distinct (map ce_key chain)" and "i < length chain" and "ce_key e = ce_key (chain ! i)"
  shows "chain_map (chain[i := e]) = (chain_map chain)(ce_key e \<mapsto> ce_answer e)" and "map ce_key (chain[i := e]) = map ce_key chain"
proof -
  let ?a = "take i chain" and ?b = "drop (Suc i) chain"
  have c: "chain = ?a @ chain ! i # ?b" by (rule chain_split [OF assms(2)])
  have "distinct (map ce_key (?a @ chain ! i # ?b))" using assms(1) c by simp
  then have n: "chain_map ?a (ce_key e) = None" using assms(3) by (auto simp: chain_map_None)
  have "chain_map chain = (chain_map ?b)(ce_key (chain ! i) \<mapsto> ce_answer (chain ! i)) ++ chain_map ?a"
    by (subst c) (simp add: chain_map_append chain_map_Cons)
  then show "chain_map (chain[i := e]) = (chain_map chain)(ce_key e \<mapsto> ce_answer e)"
    using n assms(2,3)
    by (simp add: upd_conv_take_nth_drop chain_map_append chain_map_Cons) (auto simp: fun_eq_iff map_add_def split: option.splits)
  show "map ce_key (chain[i := e]) = map ce_key chain"
    using assms(2,3) by (metis list_update_id map_update)
qed

lemma chain_map_filter:
  assumes "distinct (map ce_key chain)"
  shows "chain_map (filter P chain) k = chain_map chain k \<or> chain_map (filter P chain) k = None"
  using assms by (induction chain) (auto simp: chain_map_Cons chain_map_None)

section \<open>Invariant\<close>

definition chain_ok :: "nat \<Rightarrow> dns_cache_entry list \<Rightarrow> bool" where
  "chain_ok idx chain \<longleftrightarrow> distinct (map ce_key chain) \<and>
     (\<forall>e \<in> set chain. dns_domain_to_lower (ce_domain e) = ce_domain e \<and> dns_cache_hash (ce_domain e) (ce_qtype e) = idx)"

definition cache_size :: "dns_cache \<Rightarrow> nat" where
  "cache_size c = (\<Sum>i < DNS_CACHE_BUCKET_COUNT. length (buckets c i))"

definition used_buckets :: "dns_cache \<Rightarrow> nat" where
  "used_buckets c = (\<Sum>i < DNS_CACHE_BUCKET_COUNT. if buckets c i = [] then 0 else 1)"

definition cache_ok :: "dns_cache \<Rightarrow> bool" where
  "cache_ok c \<longleftrightarrow> (\<forall>idx. chain_ok idx (buckets c idx)) \<and> entry_count c = of_nat (cache_size c) \<and>
     cache_size c < DNS_CACHE_MAX_ENTRIES + used_buckets c"

lemma sum_fun_upd:
  fixes g :: "'a \<Rightarrow> nat"
  assumes "idx < (n :: nat)"
  shows "(\<Sum>i < n. g ((b(idx := new)) i)) + g (b idx) = (\<Sum>i < n. g (b i)) + g new"
proof -
  have i: "idx \<in> {..<n}" using assms by simp
  have "(\<Sum>i \<in> {..<n} - {idx}. g ((b(idx := new)) i)) = (\<Sum>i \<in> {..<n} - {idx}. g (b i))" by (rule sum.cong) auto
  then show ?thesis by (simp add: sum.remove [OF _ i])
qed

lemma used_le: "used_buckets c \<le> DNS_CACHE_BUCKET_COUNT"
proof -
  have "used_buckets c \<le> (\<Sum>i < DNS_CACHE_BUCKET_COUNT. 1)" unfolding used_buckets_def by (rule sum_mono) simp
  then show ?thesis by simp
qed

lemma used_pos:
  assumes "idx < DNS_CACHE_BUCKET_COUNT" and "buckets c idx \<noteq> []"
  shows "0 < used_buckets c"
proof -
  have "(if buckets c idx = [] then 0 else 1) \<le> used_buckets c"
    unfolding used_buckets_def using assms(1) by (intro member_le_sum) auto
  then show ?thesis using assms(2) by simp
qed

lemma cache_size_bound: "cache_ok c \<Longrightarrow> cache_size c \<le> 767"
  using used_le [of c] by (simp add: cache_ok_def)

lemma cache_count: "cache_ok c \<Longrightarrow> unat (entry_count c) = cache_size c"
  using cache_size_bound [of c] by (simp add: cache_ok_def unat_of_nat take_bit_nat_eq_self)

lemma size_set_bucket:
  assumes "idx < DNS_CACHE_BUCKET_COUNT"
  shows "cache_size ((set_bucket idx new c)\<lparr>entry_count := n\<rparr>) + length (buckets c idx) = cache_size c + length new"
    "used_buckets ((set_bucket idx new c)\<lparr>entry_count := n\<rparr>) + (if buckets c idx = [] then 0 else 1) = used_buckets c + (if new = [] then 0 else 1)"
  using sum_fun_upd [OF assms, of length "buckets c" new] sum_fun_upd [OF assms, of "\<lambda>l. if l = [] then 0 else 1" "buckets c" new]
  by (simp_all add: cache_size_def used_buckets_def set_bucket_def)

text \<open>Replacing a chain by one that is not longer, or by a longer one while the cache is not full.\<close>

lemma cache_ok_set_bucket:
  assumes "cache_ok c" and "idx < DNS_CACHE_BUCKET_COUNT" and "chain_ok idx new"
    and "length new \<le> length (buckets c idx) \<or> buckets c idx = [] \<and> length new = 1 \<or>
      cache_size c + length new \<le> DNS_CACHE_MAX_ENTRIES + length (buckets c idx)"
    and "n = entry_count c + of_nat (length new) - of_nat (length (buckets c idx))"
  shows "cache_ok ((set_bucket idx new c)\<lparr>entry_count := n\<rparr>)"
proof -
  let ?c = "(set_bucket idx new c)\<lparr>entry_count := n\<rparr>"
  note sz = size_set_bucket [OF assms(2), where new = new and c = c and n = n]
  have "(of_nat (cache_size ?c) :: u32) + of_nat (length (buckets c idx)) = of_nat (cache_size c) + of_nat (length new)"
    using sz(1) by (metis of_nat_add)
  then have e: "(of_nat (cache_size ?c) :: u32) = of_nat (cache_size c) + of_nat (length new) - of_nat (length (buckets c idx))"
    by (simp only: eq_diff_eq)
  have cnt: "n = of_nat (cache_size ?c)" unfolding e using assms(1,5) by (simp add: cache_ok_def)
  have ne: "length (buckets c idx) < length new \<Longrightarrow> new \<noteq> []" by auto
  have "cache_size ?c < DNS_CACHE_MAX_ENTRIES + used_buckets ?c"
  proof -
    have c: "cache_size c < DNS_CACHE_MAX_ENTRIES + used_buckets c" using assms(1) by (simp add: cache_ok_def)
    show ?thesis
    proof (cases "new = []")
      case True
      then show ?thesis using sz c by (cases "buckets c idx") auto
    next
      case False
      then have u: "used_buckets c \<le> used_buckets ?c" "0 < used_buckets ?c"
        using sz(2) used_pos [OF assms(2), of ?c] by (auto simp: set_bucket_def split: if_splits)
      show ?thesis using assms(4)
      proof (elim disjE)
        assume "buckets c idx = [] \<and> length new = 1"
        then show ?thesis using sz c by (auto split: if_splits)
      qed (use sz(1) c u in auto)
    qed
  qed
  then show ?thesis using assms(1,3) cnt by (auto simp: cache_ok_def set_bucket_def)
qed

lemma cache_map_set_bucket:
  "cache_map ((set_bucket idx new c)\<lparr>entry_count := n\<rparr>) k =
     (if dns_cache_hash (fst k) (snd k) = idx then chain_map new k else cache_map c k)"
  by (simp add: cache_map_def set_bucket_def)

lemma set_bucket_count: "set_bucket idx new c = (set_bucket idx new c)\<lparr>entry_count := entry_count c\<rparr>"
  by (simp add: set_bucket_def)

section \<open>The operations\<close>

text \<open>Under the invariant the scan of a chain finds the entry of the lower-case key.\<close>

lemma chain_scan:
  assumes "chain_ok idx chain"
  shows "first_index (ce_match d t) chain = None \<Longrightarrow> chain_map chain (dns_domain_to_lower d, t) = None"
    and "first_index (ce_match d t) chain = Some i \<Longrightarrow> i < length chain \<and> ce_key (chain ! i) = (dns_domain_to_lower d, t) \<and>
      chain_map chain (dns_domain_to_lower d, t) = Some (ce_answer (chain ! i))"
proof -
  have m: "ce_match d t e \<longleftrightarrow> ce_key e = (dns_domain_to_lower d, t)" if "e \<in> set chain" for e
    using assms that by (auto simp: chain_ok_def ce_match_def ce_key_def domain_eq_iff dns_domain_to_lower_def)
  show "first_index (ce_match d t) chain = None \<Longrightarrow> chain_map chain (dns_domain_to_lower d, t) = None"
    using m by (auto simp: first_index_None_iff chain_map_None)
  assume "first_index (ce_match d t) chain = Some i"
  then have "i < length chain" "ce_key (chain ! i) = (dns_domain_to_lower d, t)"
    using m first_index_SomeD [of "ce_match d t" chain i] by auto
  then show "i < length chain \<and> ce_key (chain ! i) = (dns_domain_to_lower d, t) \<and>
      chain_map chain (dns_domain_to_lower d, t) = Some (ce_answer (chain ! i))"
    using chain_map_nth [of chain i] assms by (auto simp: chain_ok_def)
qed

lemma chain_ok_subset:
  assumes "chain_ok idx chain" and "distinct (map ce_key new)" and "set new \<subseteq> set chain"
  shows "chain_ok idx new"
  using assms by (auto simp: chain_ok_def)

lemma chain_ok_remove_at: "chain_ok idx chain \<Longrightarrow> chain_ok idx (remove_at i chain)"
  by (rule chain_ok_subset [OF _ _ set_remove_at]) (auto simp: chain_ok_def intro: distinct_remove_at)

lemma chain_ok_update:
  assumes "chain_ok idx chain" and "i < length chain" and "ce_key e = ce_key (chain ! i)"
  shows "chain_ok idx (chain[i := e])"
proof -
  have d: "distinct (map ce_key (chain[i := e]))" using assms chain_map_update(2) [of chain i e] by (simp add: chain_ok_def)
  have "dns_domain_to_lower (ce_domain e) = ce_domain e \<and> dns_cache_hash (ce_domain e) (ce_qtype e) = idx"
    using assms by (auto simp: chain_ok_def ce_key_def)
  then show ?thesis using d assms(1) set_update_subset_insert [of chain i e] by (auto simp: chain_ok_def)
qed

text \<open>Removing an entry, and changing one in place.\<close>

lemma cache_remove_entry:
  assumes "cache_ok c" and "first_index (ce_match d t) (buckets c (dns_cache_hash d t)) = Some i"
    and "c' = (set_bucket (dns_cache_hash d t) (remove_at i (buckets c (dns_cache_hash d t))) c)\<lparr>entry_count := entry_count c - 1\<rparr>"
  shows "cache_ok c'" "cache_map c' = (cache_map c)((dns_domain_to_lower d, t) := None)"
proof -
  let ?h = "dns_cache_hash d t" let ?ch = "buckets c ?h"
  have ok: "chain_ok ?h ?ch" using assms(1) by (simp add: cache_ok_def)
  have i: "i < length ?ch" "ce_key (?ch ! i) = (dns_domain_to_lower d, t)" using chain_scan(2) [OF ok assms(2)] by auto
  have one: "length ?ch = Suc (length (remove_at i ?ch))" using i(1) by (simp add: length_remove_at)
  have "(of_nat (length ?ch) :: u32) = of_nat (length (remove_at i ?ch)) + 1"
    unfolding one by (simp only: of_nat_Suc add.commute)
  then show "cache_ok c'"
    unfolding assms(3) using assms(1) i(1) length_remove_at [OF i(1)]
    by (intro cache_ok_set_bucket) (simp_all add: dns_cache_hash_bound chain_ok_remove_at ok)
  show "cache_map c' = (cache_map c)((dns_domain_to_lower d, t) := None)"
  proof
    fix k
    show "cache_map c' k = ((cache_map c)((dns_domain_to_lower d, t) := None)) k"
      using chain_map_remove_at [OF _ i(1)] ok i(2)
      by (cases "dns_cache_hash (fst k) (snd k) = ?h")
        (auto simp: assms(3) cache_map_set_bucket chain_ok_def, auto simp: cache_map_def)
  qed
qed

lemma cache_update_entry:
  assumes "cache_ok c" and "first_index (ce_match d t) (buckets c (dns_cache_hash d t)) = Some i"
    and "ce_key e = ce_key (buckets c (dns_cache_hash d t) ! i)"
    and "c' = set_bucket (dns_cache_hash d t) ((buckets c (dns_cache_hash d t))[i := e]) c"
  shows "cache_ok c'" "cache_map c' = (cache_map c)((dns_domain_to_lower d, t) \<mapsto> ce_answer e)"
proof -
  let ?h = "dns_cache_hash d t" let ?ch = "buckets c ?h"
  have ok: "chain_ok ?h ?ch" using assms(1) by (simp add: cache_ok_def)
  have i: "i < length ?ch" "ce_key (?ch ! i) = (dns_domain_to_lower d, t)" using chain_scan(2) [OF ok assms(2)] by auto
  have c': "c' = (set_bucket ?h (?ch[i := e]) c)\<lparr>entry_count := entry_count c\<rparr>" using assms(4) set_bucket_count by metis
  show "cache_ok c'"
    unfolding c' using assms(1,3) i(1)
    by (intro cache_ok_set_bucket) (simp_all add: dns_cache_hash_bound chain_ok_update ok)
  show "cache_map c' = (cache_map c)((dns_domain_to_lower d, t) \<mapsto> ce_answer e)"
  proof
    fix k
    show "cache_map c' k = ((cache_map c)((dns_domain_to_lower d, t) \<mapsto> ce_answer e)) k"
      using chain_map_update(1) [OF _ i(1) assms(3)] ok i(2) assms(3)
      by (cases "dns_cache_hash (fst k) (snd k) = ?h")
        (auto simp: c' cache_map_set_bucket chain_ok_def, auto simp: cache_map_def)
  qed
qed

lemma oldest_index_bound: "oldest_index es = Some i \<Longrightarrow> i < length es"
  by (induction es arbitrary: i) (auto split: option.splits if_splits)

lemma oldest_index_None: "oldest_index es = None \<longleftrightarrow> es = []"
  by (cases es) (auto split: option.splits)

lemma of_nat_shrink:
  "m \<le> k \<Longrightarrow> (x :: u32) - of_nat (k - m) = x + of_nat m - of_nat k"
  by (simp add: of_nat_diff algebra_simps)

lemma make_room_shape:
  assumes "cache_ok c"
  shows "\<exists>live. dns_cache_make_room clk idx c = (set_bucket idx live c)\<lparr>entry_count := entry_count c + of_nat (length live) - of_nat (length (buckets c idx))\<rparr> \<and>
    chain_ok idx live \<and> (\<forall>k. chain_map live k = chain_map (buckets c idx) k \<or> chain_map live k = None) \<and>
    (if cache_size c < DNS_CACHE_MAX_ENTRIES then live = buckets c idx else buckets c idx = [] \<or> length live < length (buckets c idx))"
proof (cases "cache_size c < DNS_CACHE_MAX_ENTRIES")
  case True
  then have "entry_count c < of_nat DNS_CACHE_MAX_ENTRIES" using cache_count [OF assms] by (simp add: word_less_nat_alt)
  then have "dns_cache_make_room clk idx c = (set_bucket idx (buckets c idx) c)\<lparr>entry_count := entry_count c + of_nat (length (buckets c idx)) - of_nat (length (buckets c idx))\<rparr>"
    by (simp add: dns_cache_make_room_def set_bucket_def)
  then show ?thesis using True assms by (auto simp: cache_ok_def)
next
  case False
  let ?ch = "buckets c idx"
  let ?live = "filter (\<lambda>e. \<not> ce_expired clk e) ?ch"
  have full: "\<not> entry_count c < of_nat DNS_CACHE_MAX_ENTRIES" using False cache_count [OF assms] by (simp add: word_less_nat_alt)
  have ok: "chain_ok idx ?ch" "distinct (map ce_key ?ch)" using assms by (auto simp: cache_ok_def chain_ok_def)
  have okl: "chain_ok idx ?live" using ok by (auto simp: chain_ok_def distinct_map_filter)
  have sub: "\<forall>k. chain_map ?live k = chain_map ?ch k \<or> chain_map ?live k = None" by (intro allI chain_map_filter ok(2))
  have n: "entry_count c - of_nat (length ?ch - length ?live) = entry_count c + of_nat (length ?live) - of_nat (length ?ch)"
    by (rule of_nat_shrink) simp
  let ?c = "(set_bucket idx ?live c)\<lparr>entry_count := entry_count c + of_nat (length ?live) - of_nat (length ?ch)\<rparr>"
  have room: "dns_cache_make_room clk idx c = (case oldest_index ?live of None \<Rightarrow> ?c | Some i \<Rightarrow>
      if of_nat DNS_CACHE_MAX_ENTRIES \<le> entry_count ?c then (set_bucket idx (remove_at i ?live) ?c)\<lparr>entry_count := entry_count ?c - 1\<rparr> else ?c)"
    unfolding dns_cache_make_room_def Let_def n using full by (simp only: if_False)
  show ?thesis
  proof (cases "\<exists>i. oldest_index ?live = Some i \<and> of_nat DNS_CACHE_MAX_ENTRIES \<le> entry_count ?c")
    case True
    then obtain i where i: "oldest_index ?live = Some i" "of_nat DNS_CACHE_MAX_ENTRIES \<le> entry_count ?c" by blast
    then have il: "i < length ?live" by (simp add: oldest_index_bound)
    have len: "Suc (length (remove_at i ?live)) = length ?live" using il by (simp add: length_remove_at)
    have cnt: "entry_count ?c - 1 = entry_count c + of_nat (length (remove_at i ?live)) - of_nat (length ?ch)"
      by (simp add: len [symmetric] algebra_simps del: length_filter_le)
    have "dns_cache_make_room clk idx c = (set_bucket idx (remove_at i ?live) ?c)\<lparr>entry_count := entry_count ?c - 1\<rparr>"
      unfolding room using i by (simp only: option.case if_True)
    also have "\<dots> = (set_bucket idx (remove_at i ?live) c)\<lparr>entry_count := entry_count c + of_nat (length (remove_at i ?live)) - of_nat (length ?ch)\<rparr>"
      unfolding cnt by (simp add: set_bucket_def)
    finally have shape: "dns_cache_make_room clk idx c = \<dots>" .
    have map: "\<forall>k. chain_map (remove_at i ?live) k = chain_map ?ch k \<or> chain_map (remove_at i ?live) k = None"
      using sub chain_map_remove_at [OF _ il] okl by (auto simp: chain_ok_def)
    have "length (remove_at i ?live) < length ?ch" using len length_filter_le [of "\<lambda>e. \<not> ce_expired clk e" ?ch] by linarith
    with shape map chain_ok_remove_at [OF okl] False show ?thesis by (intro exI [of _ "remove_at i ?live"]) simp
  next
    case no: False
    then have shape: "dns_cache_make_room clk idx c = ?c" unfolding room by (auto split: option.splits)
    have "?ch = [] \<or> length ?live < length ?ch"
    proof (rule ccontr)
      assume "\<not> (?ch = [] \<or> length ?live < length ?ch)"
      then have "length ?live = length ?ch" "?ch \<noteq> []" using length_filter_le [of "\<lambda>e. \<not> ce_expired clk e" ?ch] by (auto simp: le_antisym not_less)
      then obtain i where "oldest_index ?live = Some i" by (cases "oldest_index ?live") (auto simp: oldest_index_None)
      moreover have "entry_count ?c = entry_count c" using \<open>length ?live = length ?ch\<close> by simp
      ultimately show False using no full by (metis linorder_not_less)
    qed
    with shape sub okl False show ?thesis by (intro exI [of _ ?live]) simp
  qed
qed

text \<open>A new entry goes to the head of its chain, after room was made.\<close>

lemma cache_push:
  assumes "cache_ok c" and "chain_map (buckets c idx) (ce_key e) = None" and "idx = dns_cache_hash (ce_domain e) (ce_qtype e)"
    and "dns_domain_to_lower (ce_domain e) = ce_domain e" and "r = dns_cache_make_room clk idx c"
    and "c' = (set_bucket idx (e # buckets r idx) r)\<lparr>entry_count := entry_count r + 1\<rparr>"
  shows "cache_ok c'" "cache_map c' (ce_key e) = Some (ce_answer e)"
    "\<And>k. k \<noteq> ce_key e \<Longrightarrow> cache_map c' k = cache_map c k \<or> cache_size c \<ge> DNS_CACHE_MAX_ENTRIES \<and> cache_map c' k = None"
    "buckets c idx = [] \<Longrightarrow> cache_size c' = Suc (cache_size c)"
proof -
  let ?old = "buckets c idx"
  obtain live where r: "r = (set_bucket idx live c)\<lparr>entry_count := entry_count c + of_nat (length live) - of_nat (length ?old)\<rparr>"
    and live: "chain_ok idx live" "\<forall>k. chain_map live k = chain_map ?old k \<or> chain_map live k = None"
    and room: "if cache_size c < DNS_CACHE_MAX_ENTRIES then live = ?old else ?old = [] \<or> length live < length ?old"
    using make_room_shape [OF assms(1), of clk idx] assms(5) by auto
  have nil: "live = []" if "?old = []"
  proof (cases live)
    case (Cons a as)
    then show ?thesis using live(2) [rule_format, of "ce_key a"] that by (auto simp: chain_map_Cons) (simp add: chain_map_def)
  qed simp
  have c': "c' = (set_bucket idx (e # live) c)\<lparr>entry_count := entry_count c + of_nat (length (e # live)) - of_nat (length ?old)\<rparr>"
    by (simp add: assms(6) r set_bucket_def algebra_simps)
  have key: "chain_map live (ce_key e) = None" using live(2) assms(2) by metis
  have idx: "idx < DNS_CACHE_BUCKET_COUNT" by (simp add: assms(3) dns_cache_hash_bound)
  have "chain_ok idx (e # live)" using live(1) key assms(3,4) by (auto simp: chain_ok_def chain_map_None)
  moreover have "length (e # live) \<le> length ?old \<or> ?old = [] \<and> length (e # live) = 1 \<or> cache_size c + length (e # live) \<le> DNS_CACHE_MAX_ENTRIES + length ?old"
  proof (cases "?old = []")
    case True
    then show ?thesis using nil by simp
  next
    case False
    then show ?thesis using room by (auto split: if_splits)
  qed
  ultimately show "cache_ok c'" unfolding c' by (intro cache_ok_set_bucket [OF assms(1) idx]) simp_all
  show "cache_map c' (ce_key e) = Some (ce_answer e)"
    using assms(3) by (simp add: c' cache_map_set_bucket chain_map_Cons) (simp add: ce_key_def)
  show "cache_map c' k = cache_map c k \<or> cache_size c \<ge> DNS_CACHE_MAX_ENTRIES \<and> cache_map c' k = None" if "k \<noteq> ce_key e" for k
  proof (cases "dns_cache_hash (fst k) (snd k) = idx")
    case True
    then have "cache_map c' k = chain_map live k" "cache_map c k = chain_map ?old k"
      using that by (simp_all add: c' cache_map_set_bucket chain_map_Cons) (simp add: cache_map_def)
    then show ?thesis using live(2) [rule_format, of k] room by (auto split: if_splits)
  next
    case False
    then show ?thesis by (simp add: c' cache_map_set_bucket)
  qed
  assume e: "buckets c idx = []"
  then show "cache_size c' = Suc (cache_size c)"
    using nil size_set_bucket(1) [OF idx, where new = "e # live" and c = c] e by (simp add: c')
qed

definition dns_cache_look :: "clock \<Rightarrow> dns_cache \<Rightarrow> u8 list \<Rightarrow> u16 \<Rightarrow> answer option \<times> dns_cache" where
  "dns_cache_look clk c d t = map_prod (map_option ce_answer) id (dns_cache_lookup clk c d t)"

lemma dns_cache_lookup_spec:
  assumes "cache_ok c"
  shows "cache_ok (snd (dns_cache_look clk c d t))"
    and "fst (dns_cache_look clk c d t) = (case cache_map c (dns_domain_to_lower d, t) of
      None \<Rightarrow> None | Some v \<Rightarrow> if answer_expired clk v then None else Some v)"
    and "cache_map (snd (dns_cache_look clk c d t)) =
      (if fst (dns_cache_look clk c d t) = None then (cache_map c)((dns_domain_to_lower d, t) := None) else cache_map c)"
proof -
  let ?h = "dns_cache_hash d t" let ?ch = "buckets c ?h" let ?k = "(dns_domain_to_lower d, t)"
  have ok: "chain_ok ?h ?ch" using assms by (simp add: cache_ok_def)
  have m: "cache_map c ?k = chain_map ?ch ?k" by (simp add: cache_map_def)
  have "cache_ok (snd (dns_cache_look clk c d t)) \<and>
    fst (dns_cache_look clk c d t) = (case cache_map c ?k of None \<Rightarrow> None | Some v \<Rightarrow> if answer_expired clk v then None else Some v) \<and>
    cache_map (snd (dns_cache_look clk c d t)) = (if fst (dns_cache_look clk c d t) = None then (cache_map c)(?k := None) else cache_map c)"
  proof (cases "first_index (ce_match d t) ?ch")
    case None
    then show ?thesis using chain_scan(1) [OF ok None] m assms
      by (auto simp: dns_cache_look_def dns_cache_lookup_def Let_def fun_upd_idem)
  next
    case (Some i)
    note sc = chain_scan(2) [OF ok Some]
    show ?thesis
    proof (cases "ce_expired clk (?ch ! i)")
      case True
      then show ?thesis using cache_remove_entry [OF assms Some refl] sc m Some
        by (simp add: dns_cache_look_def dns_cache_lookup_def Let_def ce_expired_answer)
    next
      case False
      let ?e = "(?ch ! i)\<lparr>ce_hit_count := ce_hit_count (?ch ! i) + 1\<rparr>"
      have e: "ce_key ?e = ce_key (?ch ! i)" "ce_answer ?e = ce_answer (?ch ! i)" by (simp_all add: ce_key_def ce_answer_def)
      have "(cache_map c)(?k \<mapsto> ce_answer ?e) = cache_map c" using sc m e by (simp add: fun_upd_idem)
      then show ?thesis using cache_update_entry [OF assms Some e(1) refl] sc m Some False e(2)
        by (simp add: dns_cache_look_def dns_cache_lookup_def Let_def ce_expired_answer)
    qed
  qed
  then show "cache_ok (snd (dns_cache_look clk c d t))"
    "fst (dns_cache_look clk c d t) = (case cache_map c ?k of None \<Rightarrow> None | Some v \<Rightarrow> if answer_expired clk v then None else Some v)"
    "cache_map (snd (dns_cache_look clk c d t)) = (if fst (dns_cache_look clk c d t) = None then (cache_map c)(?k := None) else cache_map c)"
    by blast+
qed

lemma dns_cache_insert_spec:
  assumes "cache_ok c" and "length d \<le> DNS_MAX_DOMAIN_LEN" and "dns_cache_insert m clk c d t r ttl = (s, c')"
  shows "cache_ok c' \<and> (s = SUCCESS \<longleftrightarrow> r \<noteq> [] \<and> length r \<le> DNS_MAX_PACKET_LEN \<and>
      (m \<or> cache_map c (dns_domain_to_lower d, t) \<noteq> None)) \<and>
    (s = SUCCESS \<longrightarrow> cache_map c' (dns_domain_to_lower d, t) = Some (r, if ttl = 0 then 60 else ttl, cur_cycles clk)) \<and>
    (\<forall>k. k \<noteq> (dns_domain_to_lower d, t) \<longrightarrow> cache_map c' k = cache_map c k \<or>
       cache_size c \<ge> DNS_CACHE_MAX_ENTRIES \<and> cache_map c' k = None)"
proof (cases "r = [] \<or> DNS_MAX_PACKET_LEN < length r")
  case True
  then have "s = ERROR" "c' = c" using assms(3) by (cases "r = []"; simp add: dns_cache_insert_def)+
  then show ?thesis using assms(1) True by auto
next
  case False
  let ?h = "dns_cache_hash d t" let ?ch = "buckets c ?h" let ?k = "(dns_domain_to_lower d, t)" let ?ttl = "if ttl = 0 then 60 else ttl"
  have ok: "chain_ok ?h ?ch" using assms(1) by (simp add: cache_ok_def)
  have cm: "cache_map c ?k = chain_map ?ch ?k" by (simp add: cache_map_def)
  show ?thesis
  proof (cases "first_index (ce_match d t) ?ch")
    case (Some i)
    let ?e = "(?ch ! i)\<lparr>ce_response := r, ce_ttl := ?ttl, ce_insert_time := cur_cycles clk\<rparr>"
    have e: "ce_key ?e = ce_key (?ch ! i)" "ce_answer ?e = (r, ?ttl, cur_cycles clk)" by (simp_all add: ce_key_def ce_answer_def)
    have "s = SUCCESS" "c' = set_bucket ?h (?ch[i := ?e]) c" using assms(3) False Some by (simp_all add: dns_cache_insert_def Let_def)
    then show ?thesis using cache_update_entry [OF assms(1) Some e(1)] False chain_scan(2) [OF ok Some] cm e(2) by simp
  next
    case None
    let ?r = "dns_cache_make_room clk ?h c"
    let ?e = "\<lparr>ce_domain = dns_domain_to_lower d, ce_qtype = t, ce_response = r, ce_ttl = ?ttl, ce_insert_time = cur_cycles clk, ce_hit_count = 0\<rparr>"
    have k: "ce_key ?e = ?k" "ce_answer ?e = (r, ?ttl, cur_cycles clk)" by (simp_all add: ce_key_def ce_answer_def)
    have none: "chain_map ?ch (ce_key ?e) = None" using chain_scan(1) [OF ok None] by (simp add: k)
    have take: "take DNS_MAX_DOMAIN_LEN d = d" using assms(2) by simp
    show ?thesis
    proof (cases m)
      case True
      then have s: "s = SUCCESS" and c': "c' = (set_bucket ?h (?e # buckets ?r ?h) ?r)\<lparr>entry_count := entry_count ?r + 1\<rparr>"
        using assms(3) False None by (simp_all add: dns_cache_insert_def Let_def take)
      have "?h = dns_cache_hash (ce_domain ?e) (ce_qtype ?e)" "dns_domain_to_lower (ce_domain ?e) = ce_domain ?e" by simp_all
      note p = cache_push [OF assms(1) none this refl c']
      then show ?thesis using p(1,2) p(3) s True False k by auto
    next
      case no: False
      then have s: "s = ERROR" and c': "c' = ?r" using assms(3) False None by (simp_all add: dns_cache_insert_def Let_def take)
      obtain live where r: "?r = (set_bucket ?h live c)\<lparr>entry_count := entry_count c + of_nat (length live) - of_nat (length ?ch)\<rparr>"
        and live: "chain_ok ?h live" "\<forall>k. chain_map live k = chain_map ?ch k \<or> chain_map live k = None"
        and room: "if cache_size c < DNS_CACHE_MAX_ENTRIES then live = ?ch else ?ch = [] \<or> length live < length ?ch"
        using make_room_shape [OF assms(1), of clk ?h] by auto
      have "length live \<le> length ?ch"
      proof (cases "?ch = []")
        case True
        then have "live = []" using live(2) [rule_format, of "ce_key (hd live)"] chain_map_None [of live "ce_key (hd live)"]
          by (cases live) (auto simp: chain_map_def)
        then show ?thesis by simp
      qed (use room in \<open>auto split: if_splits\<close>)
      then have "cache_ok ?r" unfolding r by (intro cache_ok_set_bucket [OF assms(1) dns_cache_hash_bound live(1)]) simp_all
      moreover have "cache_map ?r k = cache_map c k \<or> cache_size c \<ge> DNS_CACHE_MAX_ENTRIES \<and> cache_map ?r k = None" for k
      proof (cases "dns_cache_hash (fst k) (snd k) = ?h")
        case True
        then have "cache_map ?r k = chain_map live k" "cache_map c k = chain_map ?ch k"
          by (simp_all add: r cache_map_set_bucket) (simp add: cache_map_def)
        then show ?thesis using live(2) [rule_format, of k] room by (auto split: if_splits)
      next
        case False
        then show ?thesis by (simp add: r cache_map_set_bucket)
      qed
      ultimately show ?thesis using s c' no False none cm k by simp
    qed
  qed
qed

lemma dns_cache_remove_spec:
  assumes "cache_ok c" and "dns_cache_remove c d t = (s, c')"
  shows "cache_ok c' \<and> cache_map c' = (cache_map c)((dns_domain_to_lower d, t) := None) \<and>
    (s = SUCCESS \<longleftrightarrow> cache_map c (dns_domain_to_lower d, t) \<noteq> None)"
proof -
  let ?h = "dns_cache_hash d t" let ?ch = "buckets c ?h" let ?k = "(dns_domain_to_lower d, t)"
  have ok: "chain_ok ?h ?ch" using assms by (simp add: cache_ok_def)
  have m: "cache_map c ?k = chain_map ?ch ?k" by (simp add: cache_map_def)
  show ?thesis
  proof (cases "first_index (ce_match d t) ?ch")
    case None
    then show ?thesis using chain_scan(1) [OF ok None] m assms by (auto simp: dns_cache_remove_def Let_def fun_upd_idem)
  next
    case (Some i)
    then have "s = SUCCESS" and c': "c' = (set_bucket ?h (remove_at i ?ch) c)\<lparr>entry_count := entry_count c - 1\<rparr>"
      using assms(2) by (simp_all add: dns_cache_remove_def Let_def)
    then show ?thesis using cache_remove_entry [OF assms(1) Some c'] chain_scan(2) [OF ok Some] m by simp
  qed
qed

lemma dns_cache_flush_spec:
  assumes "cache_ok c"
  shows "cache_ok (snd (dns_cache_flush c)) \<and> cache_map (snd (dns_cache_flush c)) = Map.empty \<and> fst (dns_cache_flush c) = entry_count c"
proof -
  have e: "buckets (snd (dns_cache_flush c)) i = []" for i
  proof (cases "i < DNS_CACHE_BUCKET_COUNT")
    case False
    then have "buckets c i = []"
      using assms dns_cache_hash_bound by (cases "buckets c i") (auto simp: cache_ok_def chain_ok_def, metis list.set_intros(1) not_less)
    with False show ?thesis by (simp add: dns_cache_flush_def)
  qed (simp add: dns_cache_flush_def)
  have "cache_ok (snd (dns_cache_flush c))"
    unfolding cache_ok_def cache_size_def used_buckets_def e by (simp add: chain_ok_def dns_cache_flush_def)
  moreover have "cache_map (snd (dns_cache_flush c)) = Map.empty" by (simp add: fun_eq_iff cache_map_def e chain_map_def)
  moreover have "fst (dns_cache_flush c) = entry_count c" using assms by (simp add: dns_cache_flush_def cache_ok_def cache_size_def)
  ultimately show ?thesis by blast
qed

section \<open>The cache keeps the contract\<close>

interpretation dc: answer_store cache_ok cache_map dns_cache_look dns_cache_insert
proof (unfold_locales, goal_cases)
  case (1 s clk d t)
  then show ?case by (rule dns_cache_lookup_spec)
next
  case (2 s clk d t)
  then show ?case by (rule dns_cache_lookup_spec)
next
  case (3 s clk d t)
  then show ?case by (rule dns_cache_lookup_spec)
next
  case (4 s d m clk t r ttl)
  then show ?case using dns_cache_insert_spec [of s d m clk t r ttl] by (cases "dns_cache_insert m clk s d t r ttl") simp
next
  case (5 s m r clk d t ttl)
  then show ?case
    by (auto simp: dns_cache_insert_def Let_def split: option.splits)
next
  case (6 s d m clk t r ttl)
  then show ?case using dns_cache_insert_spec [of s d m clk t r ttl] by (cases "dns_cache_insert m clk s d t r ttl") simp
next
  case (7 s d k t m clk r ttl)
  obtain st c' where i: "dns_cache_insert m clk s d t r ttl = (st, c')" by fastforce
  note dns_cache_insert_spec [OF 7(1,2) i, THEN conjunct2, THEN conjunct2, THEN conjunct2, rule_format, OF 7(3)]
  then show ?case unfolding i snd_conv by (elim disjE conjE) simp_all
qed

lemma cache_ok_init: "cache_ok dns_cache_init"
  by (simp add: cache_ok_def cache_size_def used_buckets_def dns_cache_init_def chain_ok_def)

text \<open>The states of a cache: what the operations make of an empty one.\<close>

inductive cache_reachable :: "dns_cache \<Rightarrow> bool" where
  init: "cache_reachable dns_cache_init"
| lookup: "cache_reachable c \<Longrightarrow> cache_reachable (snd (dns_cache_lookup clk c d t))"
| insert: "cache_reachable c \<Longrightarrow> length d \<le> DNS_MAX_DOMAIN_LEN \<Longrightarrow> cache_reachable (snd (dns_cache_insert m clk c d t r ttl))"
| remove: "cache_reachable c \<Longrightarrow> cache_reachable (snd (dns_cache_remove c d t))"
| flush: "cache_reachable c \<Longrightarrow> cache_reachable (snd (dns_cache_flush c))"

lemma cache_reachable_ok: "cache_reachable c \<Longrightarrow> cache_ok c"
proof (induction rule: cache_reachable.induct)
  case init
  show ?case by (rule cache_ok_init)
next
  case (lookup c clk d t)
  then show ?case using dc.look_ok [of c clk d t] by (simp add: dns_cache_look_def)
next
  case (insert c d m clk t r ttl)
  then show ?case by (rule_tac dc.put_ok)
next
  case (remove c d t)
  then show ?case using dns_cache_remove_spec [of c d t] by (cases "dns_cache_remove c d t") simp
next
  case (flush c)
  then show ?case using dns_cache_flush_spec by blast
qed

text \<open>
  C35: The cache implements a map from lower-case names and types to answers. In every state the operations can reach, a lookup
  in any case of letters returns the answer of the map unless its time to live has passed, and then also
  drops it; an insert makes exactly the given answer that of its key and loses other answers only when the cache
  was full; a remove deletes its key and tells whether it was there; a flush empties the map.
\<close>

theorem dns_cache_refines_map:
  assumes "cache_reachable c" and "length d \<le> DNS_MAX_DOMAIN_LEN"
  shows "(case dns_cache_lookup clk c d t of (r, c') \<Rightarrow>
      map_option ce_answer r = (case cache_map c (dns_domain_to_lower d, t) of None \<Rightarrow> None | Some v \<Rightarrow> if answer_expired clk v then None else Some v) \<and>
      cache_map c' = (if r = None then (cache_map c)((dns_domain_to_lower d, t) := None) else cache_map c)) \<and>
    (case dns_cache_insert m clk c d t resp ttl of (s, c') \<Rightarrow>
      (s = SUCCESS \<longrightarrow> cache_map c' (dns_domain_to_lower d, t) = Some (resp, if ttl = 0 then 60 else ttl, cur_cycles clk)) \<and>
      (m \<and> resp \<noteq> [] \<and> length resp \<le> DNS_MAX_PACKET_LEN \<longrightarrow> s = SUCCESS) \<and>
      (\<forall>k. k \<noteq> (dns_domain_to_lower d, t) \<longrightarrow> cache_map c' k = cache_map c k \<or> DNS_CACHE_MAX_ENTRIES \<le> cache_size c \<and> cache_map c' k = None)) \<and>
    (case dns_cache_remove c d t of (s, c') \<Rightarrow> cache_map c' = (cache_map c)((dns_domain_to_lower d, t) := None) \<and>
      (s = SUCCESS \<longleftrightarrow> cache_map c (dns_domain_to_lower d, t) \<noteq> None)) \<and>
    cache_map (snd (dns_cache_flush c)) = Map.empty"
proof (intro conjI)
  have ok: "cache_ok c" by (rule cache_reachable_ok [OF assms(1)])
  show "case dns_cache_lookup clk c d t of (r, c') \<Rightarrow>
      map_option ce_answer r = (case cache_map c (dns_domain_to_lower d, t) of None \<Rightarrow> None | Some v \<Rightarrow> if answer_expired clk v then None else Some v) \<and>
      cache_map c' = (if r = None then (cache_map c)((dns_domain_to_lower d, t) := None) else cache_map c)"
  proof (cases "dns_cache_lookup clk c d t")
    case (Pair r c')
    then have l: "fst (dns_cache_look clk c d t) = map_option ce_answer r" "snd (dns_cache_look clk c d t) = c'"
      by (simp_all add: dns_cache_look_def)
    have "map_option ce_answer r = None \<longleftrightarrow> r = None" by simp
    then show ?thesis
      using dc.look_result [OF ok, of clk d t] dc.look_view [OF ok, of clk d t] unfolding l Pair prod.case by presburger
  qed
  obtain s c' where i: "dns_cache_insert m clk c d t resp ttl = (s, c')" by fastforce
  show "case dns_cache_insert m clk c d t resp ttl of (s, c') \<Rightarrow>
      (s = SUCCESS \<longrightarrow> cache_map c' (dns_domain_to_lower d, t) = Some (resp, if ttl = 0 then 60 else ttl, cur_cycles clk)) \<and>
      (m \<and> resp \<noteq> [] \<and> length resp \<le> DNS_MAX_PACKET_LEN \<longrightarrow> s = SUCCESS) \<and>
      (\<forall>k. k \<noteq> (dns_domain_to_lower d, t) \<longrightarrow> cache_map c' k = cache_map c k \<or> DNS_CACHE_MAX_ENTRIES \<le> cache_size c \<and> cache_map c' k = None)"
    using dns_cache_insert_spec [OF ok assms(2) i] unfolding i prod.case by blast
  show "case dns_cache_remove c d t of (s, c') \<Rightarrow> cache_map c' = (cache_map c)((dns_domain_to_lower d, t) := None) \<and>
      (s = SUCCESS \<longleftrightarrow> cache_map c (dns_domain_to_lower d, t) \<noteq> None)"
    using dns_cache_remove_spec [OF ok] by (cases "dns_cache_remove c d t") blast
  show "cache_map (snd (dns_cache_flush c)) = Map.empty" using dns_cache_flush_spec [OF ok] by blast
qed

theorem dns_cache_refines_map_witness:
  "cache_map (snd (dns_cache_insert True \<lparr>cur_cycles = 5, cycles_in_sec = 10\<rparr> dns_cache_init [0x46, 0x6f] 1 [1, 2] 30)) ([0x66, 0x6f], 1) = Some ([1, 2], 30, 5)"
proof -
  let ?clk = "\<lparr>cur_cycles = 5, cycles_in_sec = 10\<rparr>"
  have "length [0x46, 0x6f :: u8] \<le> DNS_MAX_DOMAIN_LEN" by simp
  from dns_cache_refines_map [OF cache_reachable.init this, where m = True and clk = ?clk and t = 1 and resp = "[1, 2]" and ttl = 30]
  have "case dns_cache_insert True ?clk dns_cache_init [0x46, 0x6f] 1 [1, 2] 30 of (s, c') \<Rightarrow>
      (s = SUCCESS \<longrightarrow> cache_map c' (dns_domain_to_lower [0x46, 0x6f], 1) = Some ([1, 2], if (30 :: u32) = 0 then 60 else 30, cur_cycles ?clk)) \<and>
      (True \<and> [1, 2 :: u8] \<noteq> [] \<and> length [1, 2 :: u8] \<le> DNS_MAX_PACKET_LEN \<longrightarrow> s = SUCCESS)"
    by (auto simp only: split: prod.splits)
  then show ?thesis
    by (cases "dns_cache_insert True ?clk dns_cache_init [0x46, 0x6f] 1 [1, 2] 30") (simp add: dns_domain_to_lower_def tolower_def)
qed

text \<open>
  The counter counts the entries, and there are never more than 767. The limit of 512 is not a limit:
  a new key whose chain is empty is added whatever the count, because only that chain is searched for
  something to evict; each of the 256 chains can be the one entry over.
\<close>

theorem dns_cache_entry_bound:
  assumes "cache_reachable c"
  shows "unat (entry_count c) = cache_size c \<and> cache_size c \<le> DNS_CACHE_MAX_ENTRIES + DNS_CACHE_BUCKET_COUNT - 1 \<and>
    (resp \<noteq> [] \<and> length resp \<le> DNS_MAX_PACKET_LEN \<and> length d \<le> DNS_MAX_DOMAIN_LEN \<and> buckets c (dns_cache_hash d t) = [] \<longrightarrow>
       cache_size (snd (dns_cache_insert True clk c d t resp ttl)) = Suc (cache_size c))"
proof -
  have ok: "cache_ok c" by (rule cache_reachable_ok [OF assms])
  have "cache_size (snd (dns_cache_insert True clk c d t resp ttl)) = Suc (cache_size c)"
    if a: "resp \<noteq> []" "length resp \<le> DNS_MAX_PACKET_LEN" "length d \<le> DNS_MAX_DOMAIN_LEN" "buckets c (dns_cache_hash d t) = []"
  proof -
    let ?h = "dns_cache_hash d t" let ?r = "dns_cache_make_room clk ?h c"
    let ?e = "\<lparr>ce_domain = dns_domain_to_lower d, ce_qtype = t, ce_response = resp, ce_ttl = (if ttl = 0 then 60 else ttl),
      ce_insert_time = cur_cycles clk, ce_hit_count = 0\<rparr>"
    have "snd (dns_cache_insert True clk c d t resp ttl) = (set_bucket ?h (?e # buckets ?r ?h) ?r)\<lparr>entry_count := entry_count ?r + 1\<rparr>"
      using a by (simp add: dns_cache_insert_def Let_def)
    moreover have "chain_map (buckets c ?h) (ce_key ?e) = None" by (simp add: a chain_map_def)
    ultimately show ?thesis using a(4) by (intro cache_push(4) [OF ok, of ?h ?e ?r clk]) simp_all
  qed
  then show ?thesis using cache_count [OF ok] cache_size_bound [OF ok] by simp
qed

theorem dns_cache_entry_bound_witness:
  "cache_size (snd (dns_cache_insert True \<lparr>cur_cycles = 5, cycles_in_sec = 10\<rparr> dns_cache_init [0x66] 1 [1] 0)) = 1"
proof -
  have "cache_size dns_cache_init = 0" "buckets dns_cache_init h = []" for h by (simp_all add: cache_size_def dns_cache_init_def)
  then show ?thesis
    using dns_cache_entry_bound [OF cache_reachable.init, of "[1]" "[0x66]" 1 "\<lparr>cur_cycles = 5, cycles_in_sec = 10\<rparr>" 0] by simp
qed

end
