(* ===== verification/Dns_Proxy.thy ===== *)
theory Dns_Proxy
  imports Dns_Cache_Props
begin

text \<open>
  The DNS proxy (\<^verbatim>\<open>src/src/dnsd/dnsd.c\<close>) and its static records (\<^verbatim>\<open>src/src/dnsd/dns_static.c\<close>): a query from the LAN is
  answered from a static record, from the cache, or forwarded upstream under an identifier of the
  proxy's own; the answer from the WAN is matched to the waiting query, cached, and relayed to the client.

  Frames come in as bytes at the fixed offsets the code uses: Ethernet at 0, VLAN tag at 14, IPv4 at 18, UDP at 38 and DNS at 46.
  A frame sent is the record of what the code writes to it, without the checksums DPDK computes.
\<close>

section \<open>Static records\<close>

abbreviation DNS_STATIC_MAX_RECORDS :: nat where "DNS_STATIC_MAX_RECORDS \<equiv> 64"
abbreviation DNS_STATIC_DEFAULT_TTL :: u32 where "DNS_STATIC_DEFAULT_TTL \<equiv> 3600"

record dns_static_record =
  sr_domain :: "u8 list"
  sr_ip_addr :: u32
  sr_ttl :: u32
  sr_active :: bool

record dns_static_table =
  st_records :: "dns_static_record list"
  st_count :: u32

definition dns_static_record_zero :: dns_static_record where
  "dns_static_record_zero = \<lparr>sr_domain = [], sr_ip_addr = 0, sr_ttl = 0, sr_active = False\<rparr>"

definition dns_static_init :: dns_static_table where
  "dns_static_init = \<lparr>st_records = replicate DNS_STATIC_MAX_RECORDS dns_static_record_zero, st_count = 0\<rparr>"

definition dns_static_cleanup :: "dns_static_table \<Rightarrow> dns_static_table" where
  "dns_static_cleanup table = dns_static_init"

definition sr_match :: "u8 list \<Rightarrow> dns_static_record \<Rightarrow> bool" where
  "sr_match domain r \<longleftrightarrow> sr_active r \<and> domain_eq (sr_domain r) domain"

definition dns_static_add :: "dns_static_table \<Rightarrow> u8 list \<Rightarrow> u32 \<Rightarrow> u32 \<Rightarrow> status \<times> dns_static_table" where
  "dns_static_add table domain ip_addr ttl0 =
     (let ttl = (if ttl0 = 0 then DNS_STATIC_DEFAULT_TTL else ttl0); rs = st_records table
      in case first_index (sr_match domain) rs of
           Some i \<Rightarrow> (SUCCESS, table\<lparr>st_records := rs[i := (rs ! i)\<lparr>sr_ip_addr := ip_addr, sr_ttl := ttl\<rparr>]\<rparr>)
         | None \<Rightarrow>
             (case first_index (\<lambda>r. \<not> sr_active r) rs of
                Some i \<Rightarrow> (SUCCESS, table\<lparr>st_records := rs[i := \<lparr>sr_domain = dns_domain_to_lower (take DNS_MAX_DOMAIN_LEN domain),
                    sr_ip_addr = ip_addr, sr_ttl = ttl, sr_active = True\<rparr>], st_count := st_count table + 1\<rparr>)
              | None \<Rightarrow> (ERROR, table)))"

definition dns_static_remove :: "dns_static_table \<Rightarrow> u8 list \<Rightarrow> status \<times> dns_static_table" where
  "dns_static_remove table domain =
     (case first_index (sr_match domain) (st_records table) of
        Some i \<Rightarrow> (SUCCESS, table\<lparr>st_records := (st_records table)[i := dns_static_record_zero], st_count := st_count table - 1\<rparr>)
      | None \<Rightarrow> (ERROR, table))"

definition dns_static_lookup :: "dns_static_table \<Rightarrow> u8 list \<Rightarrow> dns_static_record option" where
  "dns_static_lookup table domain = find (sr_match domain) (st_records table)"

definition dns_static_get_count :: "dns_static_table \<Rightarrow> u32" where
  "dns_static_get_count table = st_count table"

section \<open>Proxy state\<close>

abbreviation DNS_PORT :: u16 where "DNS_PORT \<equiv> 53"
abbreviation DNS_MAX_PENDING_QUERIES :: nat where "DNS_MAX_PENDING_QUERIES \<equiv> 32"
abbreviation DNS_PENDING_TIMEOUT_SECS :: u64 where "DNS_PENDING_TIMEOUT_SECS \<equiv> 5"
abbreviation DNS_FAILOVER_TIMEOUT_SECS :: u64 where "DNS_FAILOVER_TIMEOUT_SECS \<equiv> 60"

record dns_pending_query =
  pq_active :: bool
  pq_original_id :: u16
  pq_upstream_id :: u16
  pq_client_ip :: u32
  pq_client_port :: u16
  pq_client_mac :: "u8 list"
  pq_vlan_tci :: u16
  pq_qtype :: u16
  pq_domain :: "u8 list"
  pq_start_tsc :: u64

record dns_proxy_state =
  dp_cache :: dns_cache
  dp_static_table :: dns_static_table
  dp_pending :: "dns_pending_query list"
  dp_primary_dns :: u32
  dp_secondary_dns :: u32
  dp_active_dns :: u32
  dp_last_response_time :: u64
  dp_next_upstream_id :: u16
  dp_dns_proxy_enabled :: bool

definition dns_pending_zero :: dns_pending_query where
  "dns_pending_zero = \<lparr>pq_active = False, pq_original_id = 0, pq_upstream_id = 0, pq_client_ip = 0, pq_client_port = 0,
     pq_client_mac = replicate 6 0, pq_vlan_tci = 0, pq_qtype = 0, pq_domain = [], pq_start_tsc = 0\<rparr>"

definition dns_proxy_init :: "clock \<Rightarrow> u32 \<Rightarrow> u32 \<Rightarrow> dns_proxy_state \<Rightarrow> dns_proxy_state" where
  "dns_proxy_init clk primary secondary s = s\<lparr>dp_cache := dns_cache_init, dp_primary_dns := primary, dp_secondary_dns := secondary,
     dp_active_dns := primary, dp_last_response_time := cur_cycles clk, dp_next_upstream_id := 1,
     dp_pending := replicate DNS_MAX_PENDING_QUERIES dns_pending_zero\<rparr>"

definition dns_proxy_cleanup :: "dns_proxy_state \<Rightarrow> dns_proxy_state" where
  "dns_proxy_cleanup s = s\<lparr>dp_cache := dns_cache_cleanup (dp_cache s),
     dp_pending := replicate DNS_MAX_PENDING_QUERIES dns_pending_zero\<rparr>"

definition dnsd_check_failover :: "clock \<Rightarrow> dns_proxy_state \<Rightarrow> dns_proxy_state" where
  "dnsd_check_failover clk s =
     (if \<not> dp_dns_proxy_enabled s \<or> dp_secondary_dns s = 0 then s
      else if DNS_FAILOVER_TIMEOUT_SECS * cycles_in_sec clk \<le> cur_cycles clk - dp_last_response_time s
      then s\<lparr>dp_active_dns := (if dp_active_dns s = dp_primary_dns s then dp_secondary_dns s else dp_primary_dns s),
             dp_last_response_time := cur_cycles clk\<rparr>
      else s)"

definition pq_timed_out :: "clock \<Rightarrow> dns_pending_query \<Rightarrow> bool" where
  "pq_timed_out clk p \<longleftrightarrow> DNS_PENDING_TIMEOUT_SECS * cycles_in_sec clk \<le> cur_cycles clk - pq_start_tsc p"

definition dnsd_has_pending_query :: "clock \<Rightarrow> dns_proxy_state \<Rightarrow> bool" where
  "dnsd_has_pending_query clk s \<longleftrightarrow> list_ex (\<lambda>p. pq_active p \<and> \<not> pq_timed_out clk p) (dp_pending s)"

definition set_pending :: "nat \<Rightarrow> dns_pending_query \<Rightarrow> dns_proxy_state \<Rightarrow> dns_proxy_state" where
  "set_pending i p s = s\<lparr>dp_pending := (dp_pending s)[i := p]\<rparr>"

text \<open>Both searches free a timed-out slot they come across.\<close>

definition find_free_pending :: "clock \<Rightarrow> dns_proxy_state \<Rightarrow> nat option \<times> dns_proxy_state" where
  "find_free_pending clk s =
     (case first_index (\<lambda>p. \<not> pq_active p \<or> pq_timed_out clk p) (dp_pending s) of
        None \<Rightarrow> (None, s)
      | Some i \<Rightarrow> (Some i, set_pending i ((dp_pending s ! i)\<lparr>pq_active := False\<rparr>) s))"

definition find_pending_by_upstream_id :: "clock \<Rightarrow> dns_proxy_state \<Rightarrow> u16 \<Rightarrow> nat option \<times> dns_proxy_state" where
  "find_pending_by_upstream_id clk s upstream_id =
     (case first_index (\<lambda>p. pq_active p \<and> pq_upstream_id p = upstream_id) (dp_pending s) of
        None \<Rightarrow> (None, s)
      | Some i \<Rightarrow>
          if pq_timed_out clk (dp_pending s ! i) then (None, set_pending i ((dp_pending s ! i)\<lparr>pq_active := False\<rparr>) s)
          else (Some i, s))"

section \<open>Frames\<close>

text \<open>What a 16- or 32-bit field of the frame reads as on the little-endian target.\<close>

definition mem16_at :: "u8 list \<Rightarrow> nat \<Rightarrow> u16" where
  "mem16_at pkt pos = ucast (pkt ! pos) OR push_bit 8 (ucast (pkt ! (pos + 1)))"

definition mem32_at :: "u8 list \<Rightarrow> nat \<Rightarrow> u32" where
  "mem32_at pkt pos = ucast (pkt ! pos) OR push_bit 8 (ucast (pkt ! (pos + 1))) OR push_bit 16 (ucast (pkt ! (pos + 2))) OR
     push_bit 24 (ucast (pkt ! (pos + 3)))"

record dns_frame =
  df_dst_mac :: "u8 list"
  df_vlan_tci :: u16
  df_src_ip :: u32
  df_dst_ip :: u32
  df_src_port :: u16
  df_dst_port :: u16
  df_payload :: "u8 list"
  df_len :: nat

datatype dns_tx = LanTx dns_frame | WanTx dns_frame

text \<open>What the handlers read of the subscriber: the session gate, its address and peer, and the LAN address.\<close>

record dns_subscriber =
  sub_dp_start :: bool
  sub_hsi_ipv4 :: u32
  sub_ppp_dst_mac :: "u8 list"
  sub_dhcp_server_ip :: u32

text \<open>The DNS bytes of a UDP frame; \<open>None\<close> where the length checks fail.\<close>

definition udp_dns_payload :: "u8 list \<Rightarrow> u8 list option" where
  "udp_dns_payload pkt =
     (if length pkt < 46 then None
      else let udp_len = unat (rte_be_to_cpu_16 (mem16_at pkt 42))
           in if udp_len < 8 + DNS_HDR_LEN \<or> length pkt - 38 < udp_len then None
              else Some (take (udp_len - 8) (drop 46 pkt)))"

definition cp_send_dns_udp_response_to_lan :: "dns_subscriber \<Rightarrow> u8 list \<Rightarrow> u8 list \<Rightarrow> dns_tx" where
  "cp_send_dns_udp_response_to_lan sub pkt resp =
     LanTx \<lparr>df_dst_mac = take 6 (drop 6 pkt), df_vlan_tci = mem16_at pkt 14, df_src_ip = sub_dhcp_server_ip sub, df_dst_ip = mem32_at pkt 30,
       df_src_port = mem16_at pkt 40, df_dst_port = mem16_at pkt 38, df_payload = resp, df_len = 18 + 20 + 8 + length resp\<rparr>"

definition set_dns_id :: "u16 \<Rightarrow> u8 list \<Rightarrow> u8 list" where
  "set_dns_id i dns = dns[0 := ucast (drop_bit 8 i), 1 := ucast (i AND 0xFF)]"

definition cp_forward_dns_query_to_wan :: "dns_subscriber \<Rightarrow> dns_proxy_state \<Rightarrow> dns_pending_query \<Rightarrow> u8 list \<Rightarrow> dns_tx" where
  "cp_forward_dns_query_to_wan sub s p pkt =
     WanTx \<lparr>df_dst_mac = sub_ppp_dst_mac sub, df_vlan_tci = mem16_at pkt 14, df_src_ip = sub_hsi_ipv4 sub, df_dst_ip = dp_active_dns s,
       df_src_port = rte_cpu_to_be_16 (pq_upstream_id p OR 0x8000), df_dst_port = rte_cpu_to_be_16 DNS_PORT,
       df_payload = set_dns_id (pq_upstream_id p) (drop 46 pkt), df_len = length pkt + 8\<rparr>"

section \<open>Handlers\<close>

text \<open>The result is that of the C function: 1 answered, 0 forwarded or not ours, -1 dropped.\<close>

definition new_pending :: "clock \<Rightarrow> u8 list \<Rightarrow> dns_message \<Rightarrow> u16 \<Rightarrow> dns_pending_query" where
  "new_pending clk pkt msg upstream_id =
     \<lparr>pq_active = True, pq_original_id = dh_id (dm_header msg), pq_upstream_id = upstream_id, pq_client_ip = mem32_at pkt 30,
      pq_client_port = mem16_at pkt 38, pq_client_mac = take 6 (drop 6 pkt), pq_vlan_tci = mem16_at pkt 14,
      pq_qtype = q_qtype (dm_question msg), pq_domain = q_name (dm_question msg), pq_start_tsc = cur_cycles clk\<rparr>"

definition take_upstream_id :: "dns_proxy_state \<Rightarrow> u16 \<times> dns_proxy_state" where
  "take_upstream_id s =
     (dp_next_upstream_id s,
      s\<lparr>dp_next_upstream_id := (if dp_next_upstream_id s + 1 = 0 then 1 else dp_next_upstream_id s + 1)\<rparr>)"

definition dnsd_forward ::
  "clock \<Rightarrow> dns_subscriber \<Rightarrow> u8 list \<Rightarrow> dns_message \<Rightarrow> dns_proxy_state \<Rightarrow> dns_tx option \<times> dns_proxy_state" where
  "dnsd_forward clk sub pkt msg s =
     (if sub_dp_start sub \<and> dp_active_dns s \<noteq> 0
      then let s = (if dnsd_has_pending_query clk s then dnsd_check_failover clk s else s)
           in case find_free_pending clk s of
                (None, s) \<Rightarrow> (None, s)
              | (Some i, s) \<Rightarrow>
                  (case take_upstream_id s of
                     (u, s) \<Rightarrow>
                       let p = new_pending clk pkt msg u; s = set_pending i p s
                       in (Some (cp_forward_dns_query_to_wan sub s p pkt), s))
      else (None, s))"

definition dnsd_cp_process_lan_udp_query ::
  "clock \<Rightarrow> dns_subscriber \<Rightarrow> u8 list \<Rightarrow> dns_proxy_state \<Rightarrow> int \<times> dns_tx list \<times> dns_proxy_state" where
  "dnsd_cp_process_lan_udp_query clk sub pkt s =
     (if \<not> dp_dns_proxy_enabled s then (- 1, [], s)
      else case udp_dns_payload pkt of
          None \<Rightarrow> (- 1, [], s)
        | Some dns \<Rightarrow>
            (case dns_parse_query dns of
               None \<Rightarrow> (- 1, [], s)
             | Some msg \<Rightarrow>
                 let q = dm_question msg;
                     static = (case dns_static_lookup (dp_static_table s) (q_name q) of
                         None \<Rightarrow> None
                       | Some r \<Rightarrow> if q_qtype q = DNS_TYPE_A then dns_build_response_a dns (sr_ip_addr r) (sr_ttl r) DNS_MAX_PACKET_LEN else None)
                 in (case static of
                       Some resp \<Rightarrow> (1, [cp_send_dns_udp_response_to_lan sub pkt resp], s)
                     | None \<Rightarrow>
                         (case dns_cache_lookup clk (dp_cache s) (q_name q) (q_qtype q) of
                            (Some e, c) \<Rightarrow>
                              (1, [cp_send_dns_udp_response_to_lan sub pkt (set_dns_id (dh_id (dm_header msg)) (ce_response e))], s\<lparr>dp_cache := c\<rparr>)
                          | (None, c) \<Rightarrow>
                              (case dnsd_forward clk sub pkt msg (s\<lparr>dp_cache := c\<rparr>) of
                                 (Some tx, s) \<Rightarrow> (0, [tx], s)
                               | (None, s) \<Rightarrow>
                                   (case dns_build_response_servfail dns DNS_MAX_PACKET_LEN of
                                      Some resp \<Rightarrow> (1, [cp_send_dns_udp_response_to_lan sub pkt resp], s)
                                    | None \<Rightarrow> (- 1, [], s)))))))"

text \<open>Only static records are answered over TCP. The DNS bytes follow the variable TCP header and a length of two bytes.\<close>

definition tcp_dns_payload :: "u8 list \<Rightarrow> (nat \<times> u8 list) option" where
  "tcp_dns_payload pkt =
     (if length pkt < 38 + 20 then None
      else let tcp_hdr_len = unat (drop_bit 4 (pkt ! 50)) * 4; ip_total = unat (rte_be_to_cpu_16 (mem16_at pkt 20))
           in if tcp_hdr_len < 20 \<or> length pkt - 38 < tcp_hdr_len then None
              else if ip_total < 20 + tcp_hdr_len \<or> length pkt - 18 < ip_total then None
              else let n = ip_total - 20 - tcp_hdr_len; payload = drop (38 + tcp_hdr_len) pkt
                   in if n < 2 + DNS_HDR_LEN then None
                      else let dns_len = unat (be16_at payload 0)
                           in if n - 2 < dns_len \<or> dns_len < DNS_HDR_LEN then None
                              else Some (tcp_hdr_len, take dns_len (drop 2 payload)))"

definition dnsd_cp_process_lan_tcp_query :: "dns_subscriber \<Rightarrow> u8 list \<Rightarrow> dns_proxy_state \<Rightarrow> int \<times> dns_tx list" where
  "dnsd_cp_process_lan_tcp_query sub pkt s =
     (if \<not> dp_dns_proxy_enabled s then (- 1, [])
      else case tcp_dns_payload pkt of
          None \<Rightarrow> (- 1, [])
        | Some (tcp_hdr_len, dns) \<Rightarrow>
            (case dns_parse_query dns of
               None \<Rightarrow> (- 1, [])
             | Some msg \<Rightarrow>
                 (case dns_static_lookup (dp_static_table s) (q_name (dm_question msg)) of
                    None \<Rightarrow> (- 1, [])
                  | Some r \<Rightarrow>
                      if q_qtype (dm_question msg) = DNS_TYPE_A
                      then (case dns_build_response_a dns (sr_ip_addr r) (sr_ttl r) DNS_MAX_PACKET_LEN of
                              None \<Rightarrow> (- 1, [])
                            | Some resp \<Rightarrow>
                                (1, [LanTx \<lparr>df_dst_mac = take 6 (drop 6 pkt), df_vlan_tci = mem16_at pkt 14, df_src_ip = sub_dhcp_server_ip sub,
                                   df_dst_ip = mem32_at pkt 30, df_src_port = mem16_at pkt 40, df_dst_port = mem16_at pkt 38,
                                   df_payload = [ucast (drop_bit 8 (of_nat (length resp) :: u16)), ucast (of_nat (length resp) AND 0xFF :: u16)] @ resp,
                                   df_len = 18 + 20 + tcp_hdr_len + 2 + length resp\<rparr>]))
                      else (- 1, []))))"

definition cache_upstream_answer :: "bool \<Rightarrow> clock \<Rightarrow> dns_pending_query \<Rightarrow> u8 list \<Rightarrow> dns_cache \<Rightarrow> dns_cache" where
  "cache_upstream_answer malloc_ok clk p dns c =
     (case dns_parse_response dns of
        None \<Rightarrow> c
      | Some msg \<Rightarrow>
          if dh_flags (dm_header msg) AND 0x0F = DNS_RCODE_OK \<and> 0 < dm_answer_count msg
          then snd (dns_cache_insert malloc_ok clk c (pq_domain p) (pq_qtype p) (set_dns_id (pq_original_id p) dns)
                 (if 0 < dm_min_ttl msg then dm_min_ttl msg else 60))
          else c)"

definition dnsd_cp_process_wan_udp_response ::
  "bool \<Rightarrow> clock \<Rightarrow> dns_subscriber \<Rightarrow> u8 list \<Rightarrow> dns_proxy_state \<Rightarrow> int \<times> dns_tx list \<times> dns_proxy_state" where
  "dnsd_cp_process_wan_udp_response malloc_ok clk sub pkt s =
     (case udp_dns_payload pkt of
        None \<Rightarrow> (0, [], s)
      | Some dns \<Rightarrow>
          (case find_pending_by_upstream_id clk s (be16_at dns 0) of
             (None, s) \<Rightarrow> (0, [], s)
           | (Some i, s) \<Rightarrow>
               let p = dp_pending s ! i;
                   s = s\<lparr>dp_last_response_time := cur_cycles clk, dp_cache := cache_upstream_answer malloc_ok clk p dns (dp_cache s)\<rparr>;
                   tx = LanTx \<lparr>df_dst_mac = pq_client_mac p, df_vlan_tci = pq_vlan_tci p, df_src_ip = sub_dhcp_server_ip sub,
                          df_dst_ip = pq_client_ip p, df_src_port = rte_cpu_to_be_16 DNS_PORT, df_dst_port = pq_client_port p,
                          df_payload = set_dns_id (pq_original_id p) dns, df_len = 18 + unat (rte_be_to_cpu_16 (mem16_at pkt 20))\<rparr>
               in (1, [tx], set_pending i (p\<lparr>pq_active := False\<rparr>) s)))"

end
