(* ===== verification/Dns_Proxy_Props.thy ===== *)
theory Dns_Proxy_Props
  imports Dns_Proxy Dns_Codec_Props
begin

text \<open>
  What the proxy guarantees: which source answers a query, that an answer returns to the client that
  asked under the identifier it used, and that nothing unsolicited passes.
\<close>

section \<open>Forwarding\<close>

lemma pending_failover: "dp_pending (dnsd_check_failover clk s) = dp_pending s"
  "dp_next_upstream_id (dnsd_check_failover clk s) = dp_next_upstream_id s" "dp_cache (dnsd_check_failover clk s) = dp_cache s"
  by (simp_all add: dnsd_check_failover_def)

lemma dnsd_forward_cases:
  assumes "dnsd_forward clk sub pkt msg s = (tx, s')"
  shows "(tx = None \<longleftrightarrow> \<not> (sub_dp_start sub \<and> dp_active_dns s \<noteq> 0 \<and> (\<exists>p \<in> set (dp_pending s). \<not> pq_active p \<or> pq_timed_out clk p))) \<and>
    (\<forall>f. tx = Some f \<longrightarrow> (\<exists>i. first_index (\<lambda>p. \<not> pq_active p \<or> pq_timed_out clk p) (dp_pending s) = Some i \<and>
       dp_pending s' = (dp_pending s)[i := new_pending clk pkt msg (dp_next_upstream_id s)] \<and> dp_cache s' = dp_cache s \<and>
       f = cp_forward_dns_query_to_wan sub s' (new_pending clk pkt msg (dp_next_upstream_id s)) pkt))"
proof -
  let ?s = "if dnsd_has_pending_query clk s then dnsd_check_failover clk s else s"
  let ?P = "\<lambda>p. \<not> pq_active p \<or> pq_timed_out clk p"
  have q: "dp_pending ?s = dp_pending s" "dp_next_upstream_id ?s = dp_next_upstream_id s" "dp_cache ?s = dp_cache s"
    by (simp_all add: pending_failover)
  show ?thesis
  proof (cases "sub_dp_start sub \<and> dp_active_dns s \<noteq> 0")
    case False
    then show ?thesis using assms by (auto simp: dnsd_forward_def)
  next
    case True
    show ?thesis
    proof (cases "first_index ?P (dp_pending s)")
      case None
      then have "find_free_pending clk ?s = (None, ?s)" by (simp add: find_free_pending_def q)
      then have "tx = None" using assms True by (simp add: dnsd_forward_def Let_def)
      then show ?thesis using None True by (auto simp: first_index_None_iff)
    next
      case (Some i)
      let ?f = "set_pending i ((dp_pending ?s ! i)\<lparr>pq_active := False\<rparr>) ?s"
      have f: "find_free_pending clk ?s = (Some i, ?f)" using Some by (simp only: find_free_pending_def q option.case)
      let ?p = "new_pending clk pkt msg (dp_next_upstream_id s)"
      obtain t where t: "take_upstream_id ?f = (dp_next_upstream_id s, t)" "dp_pending t = dp_pending ?f" "dp_cache t = dp_cache s"
        by (simp add: take_upstream_id_def set_pending_def pending_failover)
      have "dnsd_forward clk sub pkt msg s = (Some (cp_forward_dns_query_to_wan sub (set_pending i ?p t) ?p pkt), set_pending i ?p t)"
        unfolding dnsd_forward_def Let_def if_P [OF True] f by (simp only: prod.case option.case t(1))
      then have r: "tx = Some (cp_forward_dns_query_to_wan sub (set_pending i ?p t) ?p pkt)" "s' = set_pending i ?p t"
        using assms by simp_all
      have "dp_pending s' = (dp_pending s)[i := ?p]" "dp_cache s' = dp_cache s"
        by (simp_all add: r(2) set_pending_def t(2,3) pending_failover)
      moreover have "\<exists>p \<in> set (dp_pending s). ?P p" using first_index_SomeD [OF Some] nth_mem by blast
      ultimately show ?thesis using r Some True by auto
    qed
  qed
qed

lemma set_dns_id_bytes:
  assumes "2 \<le> length dns" and "2 \<le> length q"
  shows "set_dns_id (be16_at q 0) dns = take 2 q @ drop 2 dns"
proof -
  obtain a b r where d: "dns = a # b # r" using assms(1) by (auto simp: numeral_2_eq_2 Suc_le_length_iff)
  obtain c e t where q: "q = c # e # t" using assms(2) by (auto simp: numeral_2_eq_2 Suc_le_length_iff)
  have "ucast (drop_bit 8 (push_bit 8 (ucast c) OR ucast e :: u16)) = c"
    by (rule bit_word_eqI) (auto simp: bit_simps dest: bit_imp_le_length)
  moreover have "ucast (push_bit 8 (ucast c) OR ucast e :: u16) = e"
    by (rule bit_word_eqI) (auto simp: bit_simps)
  ultimately show ?thesis by (simp add: set_dns_id_def ucast_low_byte d q be16_at_def)
qed

lemma be16_set_dns_id:
  assumes "2 \<le> length dns"
  shows "be16_at (set_dns_id u dns) 0 = u"
proof -
  obtain a b r where d: "dns = a # b # r" using assms(1) by (auto simp: numeral_2_eq_2 Suc_le_length_iff)
  show ?thesis by (simp add: set_dns_id_def ucast_low_byte d be16_at_def be16_wire)
qed

lemma udp_dns_payload_length:
  assumes "udp_dns_payload pkt = Some dns"
  shows "12 \<le> length dns" "46 + 12 \<le> length pkt" "dns = take (length dns) (drop 46 pkt)"
  using assms by (auto simp: udp_dns_payload_def Let_def split: if_splits)

lemma first_index_unique:
  assumes "i < length xs" and "P (xs ! i)" and "\<And>j. j < length xs \<Longrightarrow> j \<noteq> i \<Longrightarrow> \<not> P (xs ! j)"
  shows "first_index P xs = Some i"
proof (cases "first_index P xs")
  case None
  then show ?thesis using assms(1,2) by (auto simp: first_index_None_iff)
next
  case (Some k)
  then show ?thesis using first_index_SomeD [OF Some] assms(3) by blast
qed

section \<open>Relaying\<close>


section \<open>Nothing unsolicited\<close>

text \<open>
  C37: Nothing from the WAN reaches a client or the cache unless a query waits for it. A frame is relayed only when
  a slot is waiting under the identifier of its message and has not timed out; then exactly one frame goes
  to that slot's client. Otherwise nothing is sent and the cache, the servers and the static records stay as
  they are; at most a timed-out slot is released.
\<close>

theorem dns_unsolicited_dropped:
  "case dnsd_cp_process_wan_udp_response m clk sub pkt s of (r, txs, s') \<Rightarrow>
     (r = 1 \<and> (\<exists>i g dns. udp_dns_payload pkt = Some dns \<and> i < length (dp_pending s) \<and> pq_active (dp_pending s ! i) \<and>
        pq_upstream_id (dp_pending s ! i) = be16_at dns 0 \<and> \<not> pq_timed_out clk (dp_pending s ! i) \<and>
        txs = [LanTx g] \<and> df_dst_ip g = pq_client_ip (dp_pending s ! i) \<and> df_dst_mac g = pq_client_mac (dp_pending s ! i) \<and>
        dp_pending s' = (dp_pending s)[i := (dp_pending s ! i)\<lparr>pq_active := False\<rparr>])) \<or>
     (r = 0 \<and> txs = [] \<and> (s' = s \<or> (\<exists>i. i < length (dp_pending s) \<and> pq_timed_out clk (dp_pending s ! i) \<and>
        s' = s\<lparr>dp_pending := (dp_pending s)[i := (dp_pending s ! i)\<lparr>pq_active := False\<rparr>]\<rparr>)))"
proof (cases "udp_dns_payload pkt")
  case None
  then show ?thesis by (simp add: dnsd_cp_process_wan_udp_response_def)
next
  case (Some dns)
  show ?thesis
  proof (cases "first_index (\<lambda>p. pq_active p \<and> pq_upstream_id p = be16_at dns 0) (dp_pending s)")
    case None
    then have "dnsd_cp_process_wan_udp_response m clk sub pkt s = (0, [], s)"
      by (simp add: dnsd_cp_process_wan_udp_response_def Some find_pending_by_upstream_id_def)
    then show ?thesis by simp
  next
    case i: (Some i)
    let ?p = "dp_pending s ! i"
    have il: "i < length (dp_pending s)" "pq_active ?p" "pq_upstream_id ?p = be16_at dns 0" using first_index_SomeD [OF i] by blast+
    show ?thesis
    proof (cases "pq_timed_out clk ?p")
      case True
      let ?ps = "(dp_pending s)[i := ?p\<lparr>pq_active := False\<rparr>]"
      have "dnsd_cp_process_wan_udp_response m clk sub pkt s = (0, [], s\<lparr>dp_pending := ?ps\<rparr>)"
        by (simp add: dnsd_cp_process_wan_udp_response_def Some find_pending_by_upstream_id_def i True set_pending_def)
      then show ?thesis using True il(1) by auto
    next
      case False
      have f: "find_pending_by_upstream_id clk s (be16_at dns 0) = (Some i, s)"
        by (simp add: find_pending_by_upstream_id_def i False)
      show ?thesis using il False
        by (simp add: dnsd_cp_process_wan_udp_response_def Some f Let_def set_pending_def) blast
    qed
  qed
qed

section \<open>Where an answer comes from\<close>

lemma parse_query_question:
  assumes "dns_parse_query dns = Some msg"
  obtains qend where "parse_question dns DNS_HDR_LEN = Some (qend, dm_question msg)" and "12 \<le> length dns" and "qend \<le> length dns"
    and "length (q_name (dm_question msg)) \<le> DNS_MAX_DOMAIN_LEN"
proof -
  have l: "12 \<le> length dns" using assms by (auto simp: dns_parse_query_def split: if_splits)
  obtain qend where q: "parse_question dns DNS_HDR_LEN = Some (qend, dm_question msg)"
    using assms by (auto simp: dns_parse_query_def Let_def split: if_splits option.splits)
  show ?thesis using that [OF q l] parse_question_bounds [OF q l] by blast
qed

lemma build_static_total:
  assumes "dns_parse_query dns = Some msg" and "length dns + 16 \<le> DNS_MAX_PACKET_LEN"
  shows "\<exists>resp. dns_build_response_a dns ip ttl DNS_MAX_PACKET_LEN = Some resp" "\<exists>resp. dns_build_response_servfail dns DNS_MAX_PACKET_LEN = Some resp"
proof -
  obtain qend where q: "parse_question dns DNS_HDR_LEN = Some (qend, dm_question msg)" "12 \<le> length dns" "qend \<le> length dns"
    using parse_query_question [OF assms(1)] by metis
  show "\<exists>resp. dns_build_response_a dns ip ttl DNS_MAX_PACKET_LEN = Some resp"
    using q assms(2) by (simp add: dns_build_response_a_def build_response_base_def Let_def)
  show "\<exists>resp. dns_build_response_servfail dns DNS_MAX_PACKET_LEN = Some resp"
    using q assms(2) by (simp add: dns_build_response_servfail_def build_response_empty_def build_response_base_def Let_def)
qed

text \<open>The answer of the cache for a key while its time to live lasts.\<close>

definition fresh_answer :: "clock \<Rightarrow> dns_cache \<Rightarrow> (u8 list \<times> u16) \<Rightarrow> (u8 list \<times> u32 \<times> u64) option" where
  "fresh_answer clk c k = (case cache_map c k of None \<Rightarrow> None | Some v \<Rightarrow> if answer_expired clk v then None else Some v)"

text \<open>
  Every well-formed query of up to 496 bytes is answered or forwarded, by the first source that has an answer: a static
  record for its name and type A, then an answer in the cache whose time to live has not passed, then the
  upstream server while the session is up and a slot is free, and otherwise a server failure. An answer from the
  cache goes out under the identifier of the query.
\<close>

theorem dns_query_resolution:
  assumes "dp_dns_proxy_enabled s" and "udp_dns_payload pkt = Some dns" and "dns_parse_query dns = Some msg" and "cache_reachable (dp_cache s)"
    and "length dns + 16 \<le> DNS_MAX_PACKET_LEN" and "dnsd_cp_process_lan_udp_query clk sub pkt s = (r, txs, s')"
  shows "case (dns_static_lookup (dp_static_table s) (q_name (dm_question msg)), q_qtype (dm_question msg) = DNS_TYPE_A) of
      (Some rec, True) \<Rightarrow> (\<exists>resp. dns_build_response_a dns (sr_ip_addr rec) (sr_ttl rec) DNS_MAX_PACKET_LEN = Some resp \<and>
         r = 1 \<and> txs = [cp_send_dns_udp_response_to_lan sub pkt resp] \<and> s' = s)
    | _ \<Rightarrow>
      (case fresh_answer clk (dp_cache s) (dns_domain_to_lower (q_name (dm_question msg)), q_qtype (dm_question msg)) of
         Some v \<Rightarrow> r = 1 \<and> txs = [cp_send_dns_udp_response_to_lan sub pkt (set_dns_id (dh_id (dm_header msg)) (fst v))] \<and>
           cache_map (dp_cache s') = cache_map (dp_cache s)
       | None \<Rightarrow>
           if sub_dp_start sub \<and> dp_active_dns s \<noteq> 0 \<and> (\<exists>p \<in> set (dp_pending s). \<not> pq_active p \<or> pq_timed_out clk p)
           then r = 0 \<and> (\<exists>f. txs = [WanTx f] \<and> df_dst_ip f = dp_active_dns s')
           else r = 1 \<and> (\<exists>resp. dns_build_response_servfail dns DNS_MAX_PACKET_LEN = Some resp \<and> txs = [cp_send_dns_udp_response_to_lan sub pkt resp]))"
proof -
  let ?q = "dm_question msg" let ?k = "(dns_domain_to_lower (q_name ?q), q_qtype ?q)"
  let ?st = "dns_static_lookup (dp_static_table s) (q_name ?q)"
  have ok: "cache_ok (dp_cache s)" by (rule cache_reachable_ok [OF assms(4)])
  obtain e c where l: "dns_cache_lookup clk (dp_cache s) (q_name ?q) (q_qtype ?q) = (e, c)" by fastforce
  have look: "map_option ce_answer e = fresh_answer clk (dp_cache s) ?k"
    "e \<noteq> None \<Longrightarrow> cache_map c = cache_map (dp_cache s)"
    using dc.look_result [OF ok, of clk "q_name ?q" "q_qtype ?q"] dc.look_view [OF ok, of clk "q_name ?q" "q_qtype ?q"]
    by (auto simp: dns_cache_look_def l fresh_answer_def)
  show ?thesis
  proof (cases "\<exists>rec. ?st = Some rec \<and> q_qtype ?q = DNS_TYPE_A")
    case True
    then obtain rec where rec: "?st = Some rec" "q_qtype ?q = DNS_TYPE_A" by blast
    obtain resp where "dns_build_response_a dns (sr_ip_addr rec) (sr_ttl rec) DNS_MAX_PACKET_LEN = Some resp"
      using build_static_total(1) [OF assms(3,5)] by blast
    then show ?thesis using assms(1,2,3,6) rec by (simp add: dnsd_cp_process_lan_udp_query_def)
  next
    case no: False
    then have st: "(case ?st of None \<Rightarrow> None | Some r \<Rightarrow> if q_qtype ?q = DNS_TYPE_A
        then dns_build_response_a dns (sr_ip_addr r) (sr_ttl r) DNS_MAX_PACKET_LEN else None) = None" by (auto split: option.splits)
    have run: "(r, txs, s') = (case e of
        Some e \<Rightarrow> (1, [cp_send_dns_udp_response_to_lan sub pkt (set_dns_id (dh_id (dm_header msg)) (ce_response e))], s\<lparr>dp_cache := c\<rparr>)
      | None \<Rightarrow> (case dnsd_forward clk sub pkt msg (s\<lparr>dp_cache := c\<rparr>) of
            (Some tx, s) \<Rightarrow> (0, [tx], s)
          | (None, s) \<Rightarrow> (case dns_build_response_servfail dns DNS_MAX_PACKET_LEN of
                Some resp \<Rightarrow> (1, [cp_send_dns_udp_response_to_lan sub pkt resp], s) | None \<Rightarrow> (- 1, [], s))))"
      using assms(1,2,3,6) by (cases e) (simp_all add: dnsd_cp_process_lan_udp_query_def st l)
    show ?thesis
    proof (cases "fresh_answer clk (dp_cache s) ?k")
      case (Some v)
      then obtain e' where "e = Some e'" "ce_answer e' = v" using look(1) by auto
      then have "r = 1 \<and> txs = [cp_send_dns_udp_response_to_lan sub pkt (set_dns_id (dh_id (dm_header msg)) (fst v))] \<and>
          cache_map (dp_cache s') = cache_map (dp_cache s)" using run look(2) by (auto simp: ce_answer_def)
      with no Some show ?thesis by (auto split: option.splits bool.splits)
    next
      case None
      then have e: "e = None" using look(1) by simp
      obtain tx s2 where fw: "dnsd_forward clk sub pkt msg (s\<lparr>dp_cache := c\<rparr>) = (tx, s2)" by fastforce
      note fc = dnsd_forward_cases [OF fw]
      obtain resp where sf: "dns_build_response_servfail dns DNS_MAX_PACKET_LEN = Some resp" using build_static_total(2) [OF assms(3,5)] by blast
      have "if sub_dp_start sub \<and> dp_active_dns s \<noteq> 0 \<and> (\<exists>p \<in> set (dp_pending s). \<not> pq_active p \<or> pq_timed_out clk p)
           then r = 0 \<and> (\<exists>f. txs = [WanTx f] \<and> df_dst_ip f = dp_active_dns s')
           else r = 1 \<and> (\<exists>resp. dns_build_response_servfail dns DNS_MAX_PACKET_LEN = Some resp \<and> txs = [cp_send_dns_udp_response_to_lan sub pkt resp])"
      proof (cases tx)
        case None
        then show ?thesis using fc run by (simp add: e fw sf)
      next
        case (Some t)
        then have "r = 0" "txs = [t]" "s' = s2" using run by (simp_all add: e fw)
        then show ?thesis using fc Some by (auto simp: cp_forward_dns_query_to_wan_def)
      qed
      with no None show ?thesis by (auto split: option.splits bool.splits)
    qed
  qed
qed

text \<open>A small network: one static record, a client at 192.168.1.2 and an upstream server.\<close>

definition sample_query :: "u8 list" where
  "sample_query = encode_query 0x1234 0x0100 [0, 0, 0, 0, 0, 0] [[0x61]] 1 1 []"

definition sample_frame :: "u8 list" where
  "sample_frame = [2, 0, 0, 0, 0, 1, 2, 0, 0, 0, 0, 2, 0x81, 0, 0, 100, 8, 0] @ [0x45, 0, 0, 47, 0, 0, 0, 0, 64, 17, 0, 0] @ [192, 168, 1, 2, 192, 168, 1, 1] @
     [0x30, 0x39, 0, 53, 0, 27, 0, 0] @ sample_query"

definition sample_sub :: dns_subscriber where
  "sample_sub = \<lparr>sub_dp_start = True, sub_hsi_ipv4 = 1, sub_ppp_dst_mac = [2, 0, 0, 0, 0, 9], sub_dhcp_server_ip = 2\<rparr>"

definition sample_proxy :: dns_proxy_state where
  "sample_proxy = dns_proxy_init \<lparr>cur_cycles = 1000, cycles_in_sec = 10\<rparr> 0x08080808 0
     \<lparr>dp_cache = dns_cache_init, dp_static_table = dns_static_init, dp_pending = [], dp_primary_dns = 0, dp_secondary_dns = 0, dp_active_dns = 0,
      dp_last_response_time = 0, dp_next_upstream_id = 0, dp_dns_proxy_enabled = True\<rparr>"

lemma sample_payload: "udp_dns_payload sample_frame = Some sample_query"
  by (simp add: udp_dns_payload_def sample_frame_def sample_query_def encode_query_def wire16_def encode_name_def wire_label_def mem16_at_def bswap16_def)

lemma sample_name_ok: "name_ok [[0x61]]"
  by (simp add: name_ok_def label_ok_def dotted_def add_label_def)

lemma sample_parsed: "\<exists>msg. dns_parse_query sample_query = Some msg \<and> q_name (dm_question msg) = [0x61] \<and> q_qtype (dm_question msg) = 1"
proof -
  let ?h = "wire16 0x1234 @ wire16 0x0100 @ wire16 1 @ [0, 0, 0, 0, 0, 0]"
  have h: "length ?h = 12" by (simp add: wire16_def)
  have "parse_question sample_query 12 = Some (12 + length (encode_name [[0x61]]) + 4,
      \<lparr>q_name = dns_domain_to_lower (dotted [[0x61]]), q_qtype = 1, q_qclass = 1, q_name_wire_len = length (encode_name [[0x61]])\<rparr>)"
    using parse_question_plain [OF sample_name_ok, of ?h 1 1 "[]"] unfolding h by (simp add: sample_query_def encode_query_def)
  then show ?thesis
    by (simp add: dns_parse_query_def dns_parse_header_def Let_def dotted_def add_label_def dns_domain_to_lower_def tolower_def)
       (simp add: sample_query_def encode_query_def wire16_def be16_at_def encode_name_def wire_label_def)
qed

lemma sample_proxy_facts:
  "dp_dns_proxy_enabled sample_proxy" "dp_cache sample_proxy = dns_cache_init" "dp_active_dns sample_proxy = 0x08080808"
  "dp_pending sample_proxy = replicate 32 dns_pending_zero" "dns_static_lookup (dp_static_table sample_proxy) d = None"
  by (simp_all add: sample_proxy_def dns_proxy_init_def dns_static_lookup_def dns_static_init_def find_None_iff sr_match_def dns_static_record_zero_def)

theorem dns_query_resolution_witness:
  "\<exists>f s'. dnsd_cp_process_lan_udp_query \<lparr>cur_cycles = 1000, cycles_in_sec = 10\<rparr> sample_sub sample_frame sample_proxy = (0, [WanTx f], s')"
proof -
  let ?clk = "\<lparr>cur_cycles = 1000, cycles_in_sec = 10\<rparr>"
  obtain msg where msg: "dns_parse_query sample_query = Some msg" using sample_parsed by blast
  obtain r txs s' where run: "dnsd_cp_process_lan_udp_query ?clk sample_sub sample_frame sample_proxy = (r, txs, s')" by (metis prod_cases3)
  have c: "cache_reachable (dp_cache sample_proxy)" "length sample_query + 16 \<le> DNS_MAX_PACKET_LEN"
    by (simp_all add: sample_proxy_facts cache_reachable.init sample_query_def encode_query_def wire16_def encode_name_def wire_label_def)
  have "cache_map (dp_cache sample_proxy) k = None" for k by (simp add: sample_proxy_facts cache_map_def dns_cache_init_def chain_map_def)
  moreover from this have "fresh_answer ?clk (dp_cache sample_proxy) k = None" for k by (simp add: fresh_answer_def)
  moreover have "\<exists>p \<in> set (dp_pending sample_proxy). \<not> pq_active p" by (simp add: sample_proxy_facts dns_pending_zero_def)
  ultimately have "r = 0 \<and> (\<exists>f. txs = [WanTx f])"
    using dns_query_resolution [OF sample_proxy_facts(1) sample_payload msg c run]
    by (auto simp: sample_proxy_facts sample_sub_def)
  with run show ?thesis by blast
qed

lemma sample_forward:
  "\<exists>f s1. dnsd_cp_process_lan_udp_query \<lparr>cur_cycles = 1000, cycles_in_sec = 10\<rparr> sample_sub sample_frame sample_proxy = (0, [WanTx f], s1) \<and>
     take 2 (df_payload f) = [0, 1]"
proof -
  let ?clk = "\<lparr>cur_cycles = 1000, cycles_in_sec = 10\<rparr>" let ?s = "sample_proxy\<lparr>dp_cache := dns_cache_init\<rparr>"
  obtain msg where msg: "dns_parse_query sample_query = Some msg" using sample_parsed by blast
  obtain tx s1 where fw: "dnsd_forward ?clk sample_sub sample_frame msg ?s = (tx, s1)" by fastforce
  have "tx \<noteq> None" using dnsd_forward_cases [OF fw] by (simp add: sample_proxy_facts sample_sub_def dns_pending_zero_def)
  then obtain f where tx: "tx = Some f" by blast
  then have f: "f = cp_forward_dns_query_to_wan sample_sub s1 (new_pending ?clk sample_frame msg (dp_next_upstream_id ?s)) sample_frame"
    using dnsd_forward_cases [OF fw] by blast
  have n: "dp_next_upstream_id ?s = 1" by (simp add: sample_proxy_def dns_proxy_init_def)
  have "dns_cache_lookup ?clk dns_cache_init d t = (None, dns_cache_init)" for d t by (simp add: dns_cache_lookup_def dns_cache_init_def)
  then have "dnsd_cp_process_lan_udp_query ?clk sample_sub sample_frame sample_proxy = (0, [f], s1)"
    using fw tx by (simp add: dnsd_cp_process_lan_udp_query_def sample_proxy_facts sample_payload msg Let_def)
  moreover obtain g where "f = WanTx g" "take 2 (df_payload g) = [0, 1]"
  proof -
    have "drop 46 sample_frame = sample_query" by (simp add: sample_frame_def)
    then have "take 2 (set_dns_id 1 (drop 46 sample_frame)) = [0, 1]"
      by (simp add: set_dns_id_def sample_query_def encode_query_def wire16_def)
    then show thesis using f n by (intro that) (auto simp: cp_forward_dns_query_to_wan_def new_pending_def)
  qed
  ultimately show ?thesis by blast
qed

definition sample_answer :: "u8 list" where
  "sample_answer = take 46 sample_frame @ [0, 1] @ drop 2 sample_query"

lemma sample_answer_payload: "udp_dns_payload sample_answer = Some ([0, 1] @ drop 2 sample_query)"
  by (simp add: udp_dns_payload_def sample_answer_def sample_frame_def sample_query_def encode_query_def wire16_def encode_name_def
      wire_label_def mem16_at_def bswap16_def)


end
