(* ===== verification/Dhcp4.thy ===== *)
theory Dhcp4
  imports Dns_Proxy
begin

text \<open>
  The DHCPv4 server of a subscriber: \<^verbatim>\<open>src/dhcpd/dhcpd.c\<close>, \<^verbatim>\<open>dhcp_codec.c\<close> and \<^verbatim>\<open>dhcp_fsm.c\<close>.

  A control block holds an array of entries, one per address of the configured window. An entry has two halves: the lease of its
  address (\<open>ip_pool\<close>) and the conversation with one client (\<open>lan_user_info\<close>). The reply is written over the request,
  in the packet buffer. An entry remembers that buffer by a pointer; reading through a pointer that does not lead
  into the packet at hand is undefined, and the operation is then \<open>None\<close>.
\<close>

section \<open>Data\<close>

type_synonym mac = "u8 list"

definition zero_mac :: mac where
  "zero_mac = replicate 6 0"

abbreviation LEASE_TIMEOUT :: u32 where "LEASE_TIMEOUT \<equiv> 3600"
abbreviation DHCP_MAX_POOL_SIZE_PER_USER :: u32 where "DHCP_MAX_POOL_SIZE_PER_USER \<equiv> 131072"
abbreviation DHCP_MAGIC_COOKIE :: u32 where "DHCP_MAGIC_COOKIE \<equiv> 0x63825363"
abbreviation RTE_IPV4_BROADCAST :: u32 where "RTE_IPV4_BROADCAST \<equiv> 0xFFFFFFFF"

abbreviation DHCP_SUBNET_MASK :: u8 where "DHCP_SUBNET_MASK \<equiv> 1"
abbreviation DHCP_ROUTER :: u8 where "DHCP_ROUTER \<equiv> 3"
abbreviation DHCP_DNS :: u8 where "DHCP_DNS \<equiv> 6"
abbreviation DHCP_REQUEST_IP :: u8 where "DHCP_REQUEST_IP \<equiv> 50"
abbreviation DHCP_LEASE_TIME :: u8 where "DHCP_LEASE_TIME \<equiv> 51"
abbreviation DHCP_MSG_TYPE :: u8 where "DHCP_MSG_TYPE \<equiv> 53"
abbreviation DHCP_SERVER_ID :: u8 where "DHCP_SERVER_ID \<equiv> 54"
abbreviation DHCP_ISP_ID :: u8 where "DHCP_ISP_ID \<equiv> 60"
abbreviation DHCP_CLIENT_ID :: u8 where "DHCP_CLIENT_ID \<equiv> 61"
abbreviation DHCP_END :: u8 where "DHCP_END \<equiv> 255"

abbreviation DHCP_DISCOVER :: u8 where "DHCP_DISCOVER \<equiv> 1"
abbreviation DHCP_OFFER :: u8 where "DHCP_OFFER \<equiv> 2"
abbreviation DHCP_REQUEST :: u8 where "DHCP_REQUEST \<equiv> 3"
abbreviation DHCP_DECLINE :: u8 where "DHCP_DECLINE \<equiv> 4"
abbreviation DHCP_ACK :: u8 where "DHCP_ACK \<equiv> 5"
abbreviation DHCP_NAK :: u8 where "DHCP_NAK \<equiv> 6"
abbreviation DHCP_RELEASE :: u8 where "DHCP_RELEASE \<equiv> 7"
abbreviation DHCP_INFORM :: u8 where "DHCP_INFORM \<equiv> 8"

text \<open>\<open>S_DHCP_NONE\<close> is the zero that fresh memory holds; no row of the table has it.\<close>

datatype dhcp_state = S_DHCP_NONE | S_DHCP_INIT | S_DHCP_DISCOVER_RECV | S_DHCP_OFFER_SENT | S_DHCP_REQUEST_RECV
  | S_DHCP_ACK_SENT | S_DHCP_NAK_SENT

datatype dhcp_event = DE_DISCOVER | DE_OFFER | DE_GOOD_REQUEST | DE_BAD_REQUEST | DE_ACK | DE_NAK | DE_TIMEOUT | DE_RELEASE
  | DE_DECLINE | DE_INFORM

datatype lan_timer_cb = CB_request_timer | CB_lease_timer | CB_release_lan_user

datatype hdr_ptr = HdrNull | HdrCurrent | HdrStale

record ip_pool =
  ip_mac_addr :: mac
  ip_addr :: u32
  ip_used :: bool
  ip_reserved :: bool

record lan_user_info =
  lu_state :: dhcp_state
  lan_user_used :: bool
  lu_mac_addr :: mac
  lu_timer :: "(lan_timer_cb \<times> u64) option"
  timeout_secs :: u32

record dhcp_ccb_per_lan_user =
  pl_user :: lan_user_info
  pl_ip :: ip_pool
  pl_dhcp_hdr :: hdr_ptr
  pl_pool_index :: nat

record dhcp_ccb =
  dhcp_server_ip :: u32
  per_lan_user_pool :: "nat \<Rightarrow> dhcp_ccb_per_lan_user"
  per_lan_user_pool_len :: u32
  pool_start :: u32
  pool_end :: u32
  subnet_mask :: u32
  dhcp_bool :: bool
  active_count :: u32
  dns_state :: dns_proxy_state

abbreviation pool_len :: "dhcp_ccb \<Rightarrow> nat" where
  "pool_len c \<equiv> unat (per_lan_user_pool_len c)"

text \<open>
  The request and the reply written over it. The options are the bytes of the buffer after the fixed header, to the end of the buffer;
  where the packet ends is in \<open>fr_dgram_len\<close>.
\<close>

record dhcp_hdr =
  bp_msg_type :: u8
  bp_hwr_type :: u8
  bp_hwr_addr_len :: u8
  bp_hops :: u8
  bp_transaction_id :: u32
  bp_sec_elapsed :: u16
  bp_bootp_flag :: u16
  bp_client_ip :: u32
  bp_ur_client_ip :: u32
  bp_next_server_ip :: u32
  bp_relay_agent_ip :: u32
  bp_mac_addr :: mac
  bp_mac_addr_padding :: "u8 list"
  bp_server_name :: "u8 list"
  bp_file_name :: "u8 list"
  bp_magic_cookie :: u32

record dhcp_frame =
  fr_eth_dst :: mac
  fr_eth_src :: mac
  fr_packet_id :: u16
  fr_ip_src :: u32
  fr_ip_dst :: u32
  fr_total_length :: u16
  fr_src_port :: u16
  fr_dst_port :: u16
  fr_dgram_len :: u16
  fr_hdr :: dhcp_hdr
  fr_options :: "u8 list"

text \<open>What the handlers read of the node: the clock, the MAC of the LAN port and the session of the subscriber.\<close>

record dhcp_env =
  de_clock :: clock
  de_lan_mac :: mac
  de_dp_started :: bool
  de_hsi_primary_dns :: u32
  de_hsi_secondary_dns :: u32

section \<open>Entries\<close>

definition upd_entry :: "nat \<Rightarrow> (dhcp_ccb_per_lan_user \<Rightarrow> dhcp_ccb_per_lan_user) \<Rightarrow> dhcp_ccb \<Rightarrow> dhcp_ccb" where
  "upd_entry i f c = c\<lparr>per_lan_user_pool := (per_lan_user_pool c)(i := f (per_lan_user_pool c i))\<rparr>"

definition upd_user :: "nat \<Rightarrow> (lan_user_info \<Rightarrow> lan_user_info) \<Rightarrow> dhcp_ccb \<Rightarrow> dhcp_ccb" where
  "upd_user i f = upd_entry i (\<lambda>e. e\<lparr>pl_user := f (pl_user e)\<rparr>)"

definition upd_ip :: "nat \<Rightarrow> (ip_pool \<Rightarrow> ip_pool) \<Rightarrow> dhcp_ccb \<Rightarrow> dhcp_ccb" where
  "upd_ip i f = upd_entry i (\<lambda>e. e\<lparr>pl_ip := f (pl_ip e)\<rparr>)"

abbreviation entry_user :: "dhcp_ccb \<Rightarrow> nat \<Rightarrow> lan_user_info" where
  "entry_user c i \<equiv> pl_user (per_lan_user_pool c i)"

abbreviation entry_ip :: "dhcp_ccb \<Rightarrow> nat \<Rightarrow> ip_pool" where
  "entry_ip c i \<equiv> pl_ip (per_lan_user_pool c i)"

definition timer_stop :: "nat \<Rightarrow> dhcp_ccb \<Rightarrow> dhcp_ccb" where
  "timer_stop i = upd_user i (\<lambda>u. u\<lparr>lu_timer := None\<rparr>)"

definition timer_reset :: "nat \<Rightarrow> u64 \<Rightarrow> lan_timer_cb \<Rightarrow> dhcp_ccb \<Rightarrow> dhcp_ccb" where
  "timer_reset i ticks cb = upd_user i (\<lambda>u. u\<lparr>lu_timer := Some (cb, ticks)\<rparr>)"

section \<open>The pool\<close>

definition dhcp_ip_is_reserved :: "u32 \<Rightarrow> bool" where
  "dhcp_ip_is_reserved host_order_ip = (let host_byte = (ucast (host_order_ip AND 0xff) :: u8) in host_byte = 0 \<or> host_byte = 0xff)"

text \<open>The entry at \<open>i\<close> after the window is set; its timer is untouched here.\<close>

definition reset_entry :: "u32 \<Rightarrow> u32 \<Rightarrow> nat \<Rightarrow> dhcp_ccb_per_lan_user \<Rightarrow> dhcp_ccb_per_lan_user" where
  "reset_entry ip_start new_pool_len i e =
     (let inside = i < unat new_pool_len;
          ip = (if inside then rte_be_to_cpu_32 ip_start + of_nat i else 0)
      in e\<lparr>pl_user := (pl_user e)\<lparr>lan_user_used := False, lu_mac_addr := zero_mac, lu_state := S_DHCP_INIT\<rparr>,
           pl_ip := \<lparr>ip_mac_addr = zero_mac, ip_addr = rte_cpu_to_be_32 ip, ip_used = False,
                     ip_reserved = (if inside then dhcp_ip_is_reserved ip else False)\<rparr>,
           pl_pool_index := i\<rparr>)"

definition new_pool_len :: "u32 \<Rightarrow> u32 \<Rightarrow> u32" where
  "new_pool_len ip_start ip_end =
     (if rte_be_to_cpu_32 ip_start \<le> rte_be_to_cpu_32 ip_end then rte_be_to_cpu_32 ip_end - rte_be_to_cpu_32 ip_start + 1
      else rte_be_to_cpu_32 ip_start - rte_be_to_cpu_32 ip_end + 1)"

definition dhcp_pool_init_by_user :: "u32 \<Rightarrow> u32 \<Rightarrow> u32 \<Rightarrow> u32 \<Rightarrow> dhcp_ccb \<Rightarrow> status \<times> dhcp_ccb" where
  "dhcp_pool_init_by_user server_ip ip_start ip_end subnet c =
     (let len = new_pool_len ip_start ip_end; old = per_lan_user_pool_len c
      in if DHCP_MAX_POOL_SIZE_PER_USER < len then (ERROR, c)
         else let stopped = (\<lambda>i. if i < unat old then (per_lan_user_pool c i)\<lparr>pl_user := (entry_user c i)\<lparr>lu_timer := None\<rparr>\<rparr> else per_lan_user_pool c i)
              in (SUCCESS, c\<lparr>dhcp_server_ip := server_ip, pool_start := rte_be_to_cpu_32 ip_start, pool_end := rte_be_to_cpu_32 ip_end,
                   subnet_mask := subnet, per_lan_user_pool_len := len,
                   per_lan_user_pool := (\<lambda>i. if i < unat (max old len) then reset_entry ip_start len i (stopped i) else stopped i)\<rparr>))"

definition dhcp_validate_pool_range :: "u32 \<Rightarrow> u32 \<Rightarrow> u32 \<Rightarrow> u32 \<Rightarrow> status" where
  "dhcp_validate_pool_range server_ip ip_start ip_end subnet =
     (if server_ip = 0 \<and> ip_start = 0 \<and> ip_end = 0 \<and> subnet = 0 then SUCCESS
      else if rte_be_to_cpu_32 ip_end < rte_be_to_cpu_32 ip_start then ERROR
      else if ip_start AND subnet \<noteq> server_ip AND subnet \<or> ip_end AND subnet \<noteq> server_ip AND subnet then ERROR
      else SUCCESS)"

definition release_lan_user :: "nat \<Rightarrow> dhcp_ccb \<Rightarrow> dhcp_ccb" where
  "release_lan_user i c =
     upd_user i (\<lambda>u. u\<lparr>lan_user_used := False, lu_mac_addr := zero_mac, lu_state := S_DHCP_INIT\<rparr>)
       (upd_ip i (\<lambda>p. p\<lparr>ip_used := False\<rparr>) (timer_stop i c))"

section \<open>Choosing an address\<close>

definition is_client_in_pool :: "dhcp_ccb \<Rightarrow> mac \<Rightarrow> nat \<Rightarrow> bool" where
  "is_client_in_pool c mac cur \<longleftrightarrow>
     list_ex (\<lambda>i. ip_used (entry_ip c i) \<or> mac = ip_mac_addr (entry_ip c i)) ([cur..<pool_len c] @ [0..<max cur (pool_len c)])"

definition check_and_set_single_pool_entry :: "nat \<Rightarrow> mac \<Rightarrow> dhcp_ccb \<Rightarrow> dhcp_ccb option" where
  "check_and_set_single_pool_entry i mac c =
     (if ip_reserved (entry_ip c i) then None
      else if \<not> ip_used (entry_ip c i) then Some (upd_ip i (\<lambda>p. p\<lparr>ip_used := True, ip_mac_addr := mac\<rparr>) c)
      else if mac = ip_mac_addr (entry_ip c i) then Some c
      else None)"

fun scan_pool :: "nat list \<Rightarrow> mac \<Rightarrow> dhcp_ccb \<Rightarrow> (nat \<times> dhcp_ccb) option" where
  "scan_pool [] mac c = None"
| "scan_pool (i # is) mac c =
     (case check_and_set_single_pool_entry i mac c of Some c' \<Rightarrow> Some (i, c') | None \<Rightarrow> scan_pool is mac c)"

text \<open>\<open>p\<close> is the entry of \<open>per_lan_user\<close>, \<open>cur\<close> the value of \<open>*cur_tmp_pool_index\<close>, which is returned too.\<close>

definition check_pool :: "nat \<Rightarrow> nat \<Rightarrow> mac \<Rightarrow> dhcp_ccb \<Rightarrow> status \<times> nat \<times> dhcp_ccb" where
  "check_pool p cur mac c =
     (if \<not> ip_reserved (entry_ip c p) \<and> \<not> ip_used (entry_ip c p)
      then (SUCCESS, cur, upd_ip p (\<lambda>e. e\<lparr>ip_mac_addr := mac, ip_used := True\<rparr>) c)
      else if \<not> ip_reserved (entry_ip c p) \<and> mac = ip_mac_addr (entry_ip c p) then (SUCCESS, cur, c)
      else case scan_pool ([cur..<pool_len c] @ [0..<max cur (pool_len c)]) mac c of
          Some (i, c') \<Rightarrow> (SUCCESS, i, c')
        | None \<Rightarrow> (ERROR, cur, c))"

fun pick_scan :: "nat list \<Rightarrow> mac \<Rightarrow> dhcp_ccb \<Rightarrow> (u32 \<times> dhcp_ccb) option" where
  "pick_scan [] mac c = None"
| "pick_scan (i # is) mac c =
     (if ip_reserved (entry_ip c i) then pick_scan is mac c
      else if mac = ip_mac_addr (entry_ip c i) then Some (ip_addr (entry_ip c i), c)
      else if \<not> ip_used (entry_ip c i) then Some (ip_addr (entry_ip c i), upd_ip i (\<lambda>p. p\<lparr>ip_mac_addr := mac\<rparr>) c)
      else pick_scan is mac c)"

definition pick_ip_from_pool :: "nat \<Rightarrow> mac \<Rightarrow> dhcp_ccb \<Rightarrow> (u32 \<times> dhcp_ccb) option" where
  "pick_ip_from_pool p mac c =
     (let first = pl_pool_index (per_lan_user_pool c p)
      in pick_scan ([first..<pool_len c] @ [0..<max first (pool_len c)]) mac c)"

section \<open>Options of a request\<close>

text \<open>
  The walk that every loop over the options makes: type, length and position of the value of each option up to the end mark or the
  end of the field, and whether it stopped at an option that reaches past the field.
\<close>

function dhcp_opts :: "u8 list \<Rightarrow> nat \<Rightarrow> nat \<Rightarrow> (u8 \<times> nat \<times> nat) list \<times> bool" where
  "dhcp_opts buf field_len cur =
     (if field_len \<le> cur \<or> buf ! cur = DHCP_END then ([], False)
      else let l = unat (buf ! (cur + 1))
           in if field_len < cur + l + 2 then ([], True)
              else case dhcp_opts buf field_len (cur + l + 2) of (os, malformed) \<Rightarrow> ((buf ! cur, l, cur + 2) # os, malformed))"
  by pat_completeness auto
termination
  by (relation "measure (\<lambda>(_, field_len, cur). field_len - cur)") auto

declare dhcp_opts.simps [simp del]

abbreviation field_len :: "dhcp_frame \<Rightarrow> nat" where
  "field_len fr \<equiv> unat (rte_be_to_cpu_16 (fr_dgram_len fr)) - 248"

text \<open>An address the configuration still allows: in the subnet, in the window, no network or broadcast address.\<close>

definition request_ip_ok :: "dhcp_ccb \<Rightarrow> u32 \<Rightarrow> bool" where
  "request_ip_ok c ip \<longleftrightarrow>
     (if ip AND subnet_mask c \<noteq> dhcp_server_ip c AND subnet_mask c then False
      else let host = rte_be_to_cpu_32 ip
           in if host < pool_start c \<or> pool_end c < host then False else \<not> dhcp_ip_is_reserved host)"

text \<open>Renewal or rebinding: false where the loop returns \<open>ERROR\<close>.\<close>

fun renew_options :: "dhcp_ccb \<Rightarrow> dhcp_frame \<Rightarrow> (u8 \<times> nat \<times> nat) list \<Rightarrow> bool \<Rightarrow> bool" where
  "renew_options c fr [] malformed = (\<not> malformed)"
| "renew_options c fr ((t, l, v) # os) malformed =
     (if t = DHCP_SERVER_ID then l = 4 \<and> mem32_at (fr_options fr) v = dhcp_server_ip c
      else if fr_ip_dst fr = RTE_IPV4_BROADCAST then True
      else renew_options c fr os malformed)"

datatype select_result = SelError | SelBad | SelMac mac

fun select_options :: "dhcp_ccb \<Rightarrow> u8 list \<Rightarrow> (u8 \<times> nat \<times> nat) list \<Rightarrow> bool \<Rightarrow> mac \<Rightarrow> u32 \<Rightarrow> select_result \<times> u32" where
  "select_options c buf [] malformed mac ur = (if malformed then SelError else SelMac mac, ur)"
| "select_options c buf ((t, l, v) # os) malformed mac ur =
     (if t = DHCP_CLIENT_ID
      then if l < 7 then (SelError, ur)
           else if buf ! v \<noteq> 1 then (SelError, ur)
           else select_options c buf os malformed (take 6 (drop (v + 1) buf)) ur
      else if t = DHCP_REQUEST_IP
      then if l \<noteq> 4 then (SelError, ur)
           else if \<not> request_ip_ok c (mem32_at buf v) then (SelBad, mem32_at buf v)
           else select_options c buf os malformed mac (mem32_at buf v)
      else if t = DHCP_SERVER_ID
      then if l \<noteq> 4 \<or> mem32_at buf v \<noteq> dhcp_server_ip c then (SelError, ur) else select_options c buf os malformed mac ur
      else select_options c buf os malformed mac ur)"

definition check_request :: "nat \<Rightarrow> nat \<Rightarrow> mac \<Rightarrow> dhcp_ccb \<Rightarrow> dhcp_event option \<times> nat \<times> dhcp_ccb" where
  "check_request p cur mac c =
     (case check_pool p cur mac c of (r, cur, c) \<Rightarrow> (Some (if r = SUCCESS then DE_GOOD_REQUEST else DE_BAD_REQUEST), cur, c))"

text \<open>\<open>None\<close> stands for \<open>ERROR\<close>. The addresses of the header are rewritten in the packet.\<close>

definition decode_request :: "nat \<Rightarrow> nat \<Rightarrow> dhcp_ccb \<Rightarrow> dhcp_frame \<Rightarrow> dhcp_event option \<times> nat \<times> dhcp_ccb \<times> dhcp_frame" where
  "decode_request p cur c fr =
     (let h = fr_hdr fr
      in case dhcp_opts (fr_options fr) (field_len fr) 0 of (os, malformed) \<Rightarrow>
        if bp_client_ip h \<noteq> 0
        then if \<not> request_ip_ok c (bp_client_ip h) then (Some DE_BAD_REQUEST, cur, c, fr)
             else let fr' = fr\<lparr>fr_hdr := h\<lparr>bp_ur_client_ip := bp_client_ip h, bp_client_ip := 0\<rparr>\<rparr>;
                      c' = upd_user p (\<lambda>u. u\<lparr>timeout_secs := LEASE_TIMEOUT\<rparr>) c
                  in if \<not> renew_options c fr os malformed then (None, cur, c', fr')
                     else (case check_request p cur (fr_eth_src fr) c' of (r, cur, c) \<Rightarrow> (r, cur, c, fr'))
        else case select_options c (fr_options fr) os malformed (fr_eth_src fr) (bp_ur_client_ip h) of (r, ur) \<Rightarrow>
          let fr' = fr\<lparr>fr_hdr := h\<lparr>bp_ur_client_ip := ur\<rparr>\<rparr>
          in (case r of
                SelError \<Rightarrow> (None, cur, c, fr')
              | SelBad \<Rightarrow> (Some DE_BAD_REQUEST, cur, c, fr')
              | SelMac mac \<Rightarrow> (case check_request p cur mac c of (r, cur, c) \<Rightarrow> (r, cur, c, fr'))))"

section \<open>Decoding\<close>

text \<open>The options of a DECLINE: whether it names this server, and the last address it names (0 for none).\<close>

definition decline_options :: "dhcp_ccb \<Rightarrow> u8 list \<Rightarrow> (u8 \<times> nat \<times> nat) list \<Rightarrow> bool \<times> u32" where
  "decline_options c buf os =
     fold (\<lambda>(t, l, v) (has_server_id, ip).
       if t = DHCP_SERVER_ID then (has_server_id \<or> l = 4 \<and> mem32_at buf v = dhcp_server_ip c, ip)
       else if t = DHCP_REQUEST_IP then (has_server_id, if l = 4 then mem32_at buf v else ip)
       else (has_server_id, ip)) os (False, 0)"

definition decline_valid :: "nat \<Rightarrow> dhcp_ccb \<Rightarrow> dhcp_frame \<Rightarrow> bool" where
  "decline_valid cur c fr \<longleftrightarrow>
     (case decline_options c (fr_options fr) (fst (dhcp_opts (fr_options fr) (field_len fr) 0)) of (has_server_id, ip) \<Rightarrow>
        has_server_id \<and> ip \<noteq> 0 \<and> ip AND subnet_mask c = dhcp_server_ip c AND subnet_mask c \<and> is_client_in_pool c (fr_eth_src fr) cur)"

text \<open>One message type option: the event so far, the current entry and what the option makes of them.\<close>

definition decode_msg_type ::
  "u8 \<Rightarrow> nat \<Rightarrow> dhcp_event option \<Rightarrow> nat \<Rightarrow> dhcp_ccb \<Rightarrow> dhcp_frame \<Rightarrow> dhcp_event option \<times> nat \<times> dhcp_ccb \<times> dhcp_frame" where
  "decode_msg_type m p event cur c fr =
     (if m = DHCP_DISCOVER then (Some DE_DISCOVER, cur, c, fr)
      else if m = DHCP_REQUEST
      then (case decode_request p cur c fr of (r, cur, c, fr) \<Rightarrow> (r, cur, timer_stop p c, fr))
      else if m = DHCP_RELEASE
      then (case check_pool p cur (fr_eth_src fr) c of (r, cur, c) \<Rightarrow> (if r = SUCCESS then Some DE_RELEASE else event, cur, c, fr))
      else if m = DHCP_DECLINE then (if decline_valid cur c fr then Some DE_DECLINE else event, cur, c, fr)
      else if m = DHCP_INFORM then (Some DE_INFORM, cur, c, fr)
      else (event, cur, c, fr))"

datatype decode_result = DecFail | DecUnsupported | DecEvent dhcp_event

fun decode_options ::
  "(u8 \<times> nat \<times> nat) list \<Rightarrow> bool \<Rightarrow> nat \<Rightarrow> dhcp_event option \<Rightarrow> nat \<Rightarrow> dhcp_ccb \<Rightarrow> dhcp_frame \<Rightarrow> decode_result \<times> nat \<times> dhcp_ccb \<times> dhcp_frame" where
  "decode_options [] malformed p event cur c fr =
     (if malformed then DecFail else case event of None \<Rightarrow> DecFail | Some e \<Rightarrow> DecEvent e, cur, c, fr)"
| "decode_options ((t, l, v) # os) malformed p event cur c fr =
     (if t = DHCP_ISP_ID then (DecUnsupported, cur, c, fr)
      else if t = DHCP_MSG_TYPE
      then (case decode_msg_type (fr_options fr ! v) p event cur c fr of
              (event, cur, c, fr) \<Rightarrow> decode_options os malformed p event cur c fr)
      else decode_options os malformed p event cur c fr)"

definition dhcp_decode :: "nat \<Rightarrow> dhcp_ccb \<Rightarrow> dhcp_frame \<Rightarrow> decode_result \<times> nat \<times> dhcp_ccb \<times> dhcp_frame" where
  "dhcp_decode p c fr =
     (let c = upd_entry p (\<lambda>e. e\<lparr>pl_dhcp_hdr := HdrCurrent\<rparr>) c
      in if unat (rte_be_to_cpu_16 (fr_dgram_len fr)) < 8 + 240 then (DecFail, p, c, fr)
         else if rte_be_to_cpu_32 (bp_magic_cookie (fr_hdr fr)) \<noteq> DHCP_MAGIC_COOKIE then (DecFail, p, c, fr)
         else case dhcp_opts (fr_options fr) (field_len fr) 0 of (os, malformed) \<Rightarrow> decode_options os malformed p None p c fr)"

section \<open>Replies\<close>

definition dhcp_select_dns_servers :: "bool \<Rightarrow> u32 \<Rightarrow> bool \<Rightarrow> u32 \<Rightarrow> u32 \<Rightarrow> u32 \<times> u32" where
  "dhcp_select_dns_servers proxy_enabled server_ip dp_started primary secondary =
     (if proxy_enabled then (server_ip, server_ip)
      else if \<not> dp_started then (rte_cpu_to_be_32 0x08080808, rte_cpu_to_be_32 0x01010101)
      else (primary, secondary))"

definition dhcp_option :: "u8 \<Rightarrow> u8 list \<Rightarrow> u8 list" where
  "dhcp_option t val = [t, of_nat (length val)] @ val"

definition lease_options :: "u8 \<Rightarrow> bool \<Rightarrow> dhcp_ccb \<Rightarrow> u32 \<times> u32 \<Rightarrow> u8 list" where
  "lease_options msg with_lease c dns =
     dhcp_option DHCP_MSG_TYPE [msg] @ dhcp_option DHCP_SERVER_ID (mem32 (dhcp_server_ip c)) @
     dhcp_option DHCP_SUBNET_MASK (mem32 (subnet_mask c)) @
     (if with_lease then dhcp_option DHCP_LEASE_TIME (mem32 (rte_cpu_to_be_32 LEASE_TIMEOUT)) else []) @
     dhcp_option DHCP_ROUTER (mem32 (dhcp_server_ip c)) @ dhcp_option DHCP_DNS (mem32 (fst dns) @ mem32 (snd dns)) @ [DHCP_END]"

text \<open>The headers every reply has, and the options copied over those of the request.\<close>

definition reply_frame :: "dhcp_ccb \<Rightarrow> u32 \<Rightarrow> u8 list \<Rightarrow> dhcp_frame \<Rightarrow> dhcp_frame" where
  "reply_frame c dst os fr =
     (let dgram_len = (8 + 240 + of_nat (length os) :: u16)
      in fr\<lparr>fr_packet_id := 0, fr_ip_src := dhcp_server_ip c, fr_ip_dst := dst, fr_total_length := rte_cpu_to_be_16 (20 + dgram_len),
           fr_src_port := rte_cpu_to_be_16 67, fr_dst_port := rte_cpu_to_be_16 68, fr_dgram_len := rte_cpu_to_be_16 dgram_len,
           fr_hdr := (fr_hdr fr)\<lparr>bp_msg_type := 2, bp_next_server_ip := dhcp_server_ip c, bp_server_name := replicate 64 0,
             bp_file_name := replicate 128 0, bp_magic_cookie := rte_cpu_to_be_32 DHCP_MAGIC_COOKIE\<rparr>,
           fr_options := os @ drop (length os) (fr_options fr)\<rparr>)"

definition dhcp_reply_dst_broadcast :: "dhcp_frame \<Rightarrow> dhcp_frame" where
  "dhcp_reply_dst_broadcast fr = fr\<lparr>fr_eth_dst := replicate 6 0xff, fr_ip_dst := RTE_IPV4_BROADCAST\<rparr>"

definition broadcast_if_asked :: "dhcp_frame \<Rightarrow> dhcp_frame" where
  "broadcast_if_asked fr =
     (if bp_bootp_flag (fr_hdr fr) AND rte_cpu_to_be_16 0x8000 \<noteq> 0 then dhcp_reply_dst_broadcast fr else fr)"

definition swap_eth :: "dhcp_env \<Rightarrow> dhcp_frame \<Rightarrow> dhcp_frame" where
  "swap_eth env fr = fr\<lparr>fr_eth_dst := fr_eth_src fr, fr_eth_src := de_lan_mac env\<rparr>"

type_synonym dhcp_step = "(status \<times> dhcp_ccb \<times> dhcp_frame) option"

definition env_dns :: "dhcp_env \<Rightarrow> bool \<Rightarrow> dhcp_ccb \<Rightarrow> u32 \<times> u32" where
  "env_dns env dp_started c = dhcp_select_dns_servers (dp_dns_proxy_enabled (dns_state c)) (dhcp_server_ip c) dp_started
     (de_hsi_primary_dns env) (de_hsi_secondary_dns env)"

definition build_dhcp_offer :: "dhcp_env \<Rightarrow> nat \<Rightarrow> dhcp_ccb \<Rightarrow> dhcp_frame \<Rightarrow> dhcp_step" where
  "build_dhcp_offer env p c fr =
     (let fr = swap_eth env fr
      in case pick_ip_from_pool p (fr_eth_dst fr) c of
          None \<Rightarrow> Some (ERROR, c, fr)
        | Some (ip, c) \<Rightarrow>
            if pl_dhcp_hdr (per_lan_user_pool c p) \<noteq> HdrCurrent then None
            else let fr = reply_frame c ip (lease_options DHCP_OFFER True c (env_dns env (de_dp_started env) c)) fr;
                     fr = fr\<lparr>fr_hdr := (fr_hdr fr)\<lparr>bp_ur_client_ip := ip\<rparr>\<rparr>
                 in Some (SUCCESS, c, broadcast_if_asked fr))"

definition build_dhcp_ack :: "dhcp_env \<Rightarrow> nat \<Rightarrow> dhcp_ccb \<Rightarrow> dhcp_frame \<Rightarrow> dhcp_step" where
  "build_dhcp_ack env p c fr =
     (if pl_dhcp_hdr (per_lan_user_pool c p) \<noteq> HdrCurrent then None
      else Some (SUCCESS, c, broadcast_if_asked (reply_frame c (bp_ur_client_ip (fr_hdr fr))
             (lease_options DHCP_ACK True c (env_dns env (de_dp_started env) c)) (swap_eth env fr))))"

definition nak_options :: "dhcp_ccb \<Rightarrow> mac \<Rightarrow> u8 list" where
  "nak_options c mac =
     dhcp_option DHCP_MSG_TYPE [DHCP_NAK] @ dhcp_option DHCP_SERVER_ID (mem32 (dhcp_server_ip c)) @ dhcp_option DHCP_CLIENT_ID (1 # mac) @ [DHCP_END]"

definition build_dhcp_nak :: "dhcp_env \<Rightarrow> nat \<Rightarrow> dhcp_ccb \<Rightarrow> dhcp_frame \<Rightarrow> dhcp_step" where
  "build_dhcp_nak env p c fr =
     (if pl_dhcp_hdr (per_lan_user_pool c p) \<noteq> HdrCurrent then None
      else let fr = swap_eth env fr; fr = reply_frame c RTE_IPV4_BROADCAST (nak_options c (fr_eth_dst fr)) fr;
               fr = fr\<lparr>fr_hdr := (fr_hdr fr)\<lparr>bp_client_ip := 0, bp_ur_client_ip := 0\<rparr>\<rparr>
           in Some (SUCCESS, c, dhcp_reply_dst_broadcast fr))"

definition build_dhcp_ack_inform :: "dhcp_env \<Rightarrow> nat \<Rightarrow> dhcp_ccb \<Rightarrow> dhcp_frame \<Rightarrow> dhcp_step" where
  "build_dhcp_ack_inform env p c fr =
     (if pl_dhcp_hdr (per_lan_user_pool c p) \<noteq> HdrCurrent then None
      else let fr = reply_frame c (bp_client_ip (fr_hdr fr)) (lease_options DHCP_ACK False c (env_dns env True c)) (swap_eth env fr)
           in Some (SUCCESS, c, fr\<lparr>fr_hdr := (fr_hdr fr)\<lparr>bp_ur_client_ip := 0\<rparr>\<rparr>))"

section \<open>The automaton\<close>

datatype dhcp_action = A_send_dhcp_offer | A_wait_request_timer | A_send_dhcp_ack | A_send_dhcp_nak | A_wait_lease_timer | A_release
  | A_mark_ip_conflicted | A_send_dhcp_ack_inform

definition dhcp_fsm_tbl :: "(dhcp_state \<times> dhcp_event \<times> dhcp_state \<times> dhcp_action list) list" where
  "dhcp_fsm_tbl =
    [(S_DHCP_INIT, DE_DISCOVER, S_DHCP_OFFER_SENT, [A_send_dhcp_offer, A_wait_request_timer]),
     (S_DHCP_INIT, DE_GOOD_REQUEST, S_DHCP_ACK_SENT, [A_send_dhcp_ack, A_wait_lease_timer]),
     (S_DHCP_INIT, DE_BAD_REQUEST, S_DHCP_INIT, [A_send_dhcp_nak]),
     (S_DHCP_INIT, DE_INFORM, S_DHCP_INIT, [A_send_dhcp_ack_inform]),
     (S_DHCP_OFFER_SENT, DE_DISCOVER, S_DHCP_OFFER_SENT, [A_send_dhcp_offer, A_wait_request_timer]),
     (S_DHCP_OFFER_SENT, DE_TIMEOUT, S_DHCP_INIT, [A_release]),
     (S_DHCP_OFFER_SENT, DE_GOOD_REQUEST, S_DHCP_ACK_SENT, [A_send_dhcp_ack, A_wait_lease_timer]),
     (S_DHCP_OFFER_SENT, DE_BAD_REQUEST, S_DHCP_INIT, [A_send_dhcp_nak, A_release]),
     (S_DHCP_ACK_SENT, DE_TIMEOUT, S_DHCP_INIT, [A_release]),
     (S_DHCP_ACK_SENT, DE_RELEASE, S_DHCP_INIT, [A_release]),
     (S_DHCP_ACK_SENT, DE_GOOD_REQUEST, S_DHCP_ACK_SENT, [A_send_dhcp_ack, A_wait_lease_timer]),
     (S_DHCP_ACK_SENT, DE_BAD_REQUEST, S_DHCP_INIT, [A_send_dhcp_nak, A_release]),
     (S_DHCP_ACK_SENT, DE_DISCOVER, S_DHCP_OFFER_SENT, [A_send_dhcp_offer, A_wait_request_timer]),
     (S_DHCP_ACK_SENT, DE_DECLINE, S_DHCP_INIT, [A_mark_ip_conflicted]),
     (S_DHCP_ACK_SENT, DE_INFORM, S_DHCP_ACK_SENT, [A_send_dhcp_ack_inform])]"

text \<open>Forward to the first row of the state, then on through its rows to the first one of the event.\<close>

definition dhcp_search :: "dhcp_state \<Rightarrow> dhcp_event \<Rightarrow> (dhcp_state \<times> dhcp_action list) option" where
  "dhcp_search s e =
     map_option (\<lambda>(_, _, next, hdl). (next, hdl))
       (find (\<lambda>(_, e', _, _). e' = e) (takeWhile (\<lambda>(s', _). s' = s) (dropWhile (\<lambda>(s', _). s' \<noteq> s) dhcp_fsm_tbl)))"

definition wait_request_timer :: "dhcp_env \<Rightarrow> nat \<Rightarrow> dhcp_ccb \<Rightarrow> dhcp_ccb" where
  "wait_request_timer env i c = timer_reset i (5 * cycles_in_sec (de_clock env)) CB_request_timer (timer_stop i c)"

definition wait_lease_timer :: "dhcp_env \<Rightarrow> nat \<Rightarrow> dhcp_ccb \<Rightarrow> dhcp_ccb" where
  "wait_lease_timer env i c =
     (let secs = (if timeout_secs (entry_user c i) \<noteq> 0 then timeout_secs (entry_user c i) else LEASE_TIMEOUT)
      in timer_reset i (ucast secs * cycles_in_sec (de_clock env)) CB_lease_timer (timer_stop i c))"

definition mark_ip_conflicted :: "dhcp_env \<Rightarrow> nat \<Rightarrow> dhcp_ccb \<Rightarrow> dhcp_ccb" where
  "mark_ip_conflicted env i c =
     timer_reset i (360 * cycles_in_sec (de_clock env)) CB_release_lan_user
       (timer_stop i (upd_user i (\<lambda>u. u\<lparr>lan_user_used := True, lu_mac_addr := zero_mac\<rparr>)
         (upd_ip i (\<lambda>p. p\<lparr>ip_used := True, ip_mac_addr := zero_mac\<rparr>) c)))"

fun dhcp_action_run :: "dhcp_env \<Rightarrow> dhcp_action \<Rightarrow> nat \<Rightarrow> dhcp_ccb \<Rightarrow> dhcp_frame \<Rightarrow> dhcp_step" where
  "dhcp_action_run env A_send_dhcp_offer i c fr = build_dhcp_offer env i c fr"
| "dhcp_action_run env A_wait_request_timer i c fr = Some (SUCCESS, wait_request_timer env i c, fr)"
| "dhcp_action_run env A_send_dhcp_ack i c fr = build_dhcp_ack env i c fr"
| "dhcp_action_run env A_send_dhcp_nak i c fr = build_dhcp_nak env i c fr"
| "dhcp_action_run env A_wait_lease_timer i c fr = Some (SUCCESS, wait_lease_timer env i c, fr)"
| "dhcp_action_run env A_release i c fr = Some (SUCCESS, release_lan_user i c, fr)"
| "dhcp_action_run env A_mark_ip_conflicted i c fr = Some (SUCCESS, mark_ip_conflicted env i c, fr)"
| "dhcp_action_run env A_send_dhcp_ack_inform i c fr = build_dhcp_ack_inform env i c fr"

fun dhcp_run_handlers :: "dhcp_env \<Rightarrow> dhcp_action list \<Rightarrow> nat \<Rightarrow> dhcp_ccb \<Rightarrow> dhcp_frame \<Rightarrow> dhcp_step" where
  "dhcp_run_handlers env [] i c fr = Some (SUCCESS, c, fr)"
| "dhcp_run_handlers env (a # as) i c fr =
     (case dhcp_action_run env a i c fr of
        None \<Rightarrow> None
      | Some (ERROR, c, fr) \<Rightarrow> Some (ERROR, c, fr)
      | Some (SUCCESS, c, fr) \<Rightarrow> dhcp_run_handlers env as i c fr)"

definition dhcp_fsm :: "dhcp_env \<Rightarrow> nat \<Rightarrow> dhcp_event \<Rightarrow> dhcp_ccb \<Rightarrow> dhcp_frame \<Rightarrow> dhcp_step" where
  "dhcp_fsm env i event c fr =
     (case dhcp_search (lu_state (entry_user c i)) event of
        None \<Rightarrow> Some (ERROR, c, fr)
      | Some (next, hdl) \<Rightarrow> dhcp_run_handlers env hdl i (upd_user i (\<lambda>u. u\<lparr>lu_state := next\<rparr>) c) fr)"

text \<open>The callbacks of an expired timer; no handler of a timeout touches a packet.\<close>

definition dhcp_timer_expires :: "dhcp_env \<Rightarrow> nat \<Rightarrow> dhcp_frame \<Rightarrow> dhcp_ccb \<Rightarrow> dhcp_ccb option" where
  "dhcp_timer_expires env i fr c =
     (case lu_timer (entry_user c i) of
        None \<Rightarrow> Some c
      | Some (CB_release_lan_user, _) \<Rightarrow> Some (release_lan_user i c)
      | Some (_, _) \<Rightarrow> map_option (\<lambda>(_, c, _). c) (dhcp_fsm env i DE_TIMEOUT (timer_stop i c) fr))"

section \<open>A packet\<close>

text \<open>The entry for the client: the first one that is its own or that nobody uses.\<close>

definition pick_lan_user :: "mac \<Rightarrow> dhcp_ccb \<Rightarrow> (nat \<times> dhcp_ccb) option" where
  "pick_lan_user src c =
     (case find (\<lambda>i. src = lu_mac_addr (entry_user c i) \<or> \<not> lan_user_used (entry_user c i)) [0..<pool_len c] of
        None \<Rightarrow> None
      | Some i \<Rightarrow>
          if src = lu_mac_addr (entry_user c i) then Some (i, c)
          else Some (i, upd_user i (\<lambda>u. u\<lparr>lu_mac_addr := src, lan_user_used := True\<rparr>) c))"

text \<open>
  \<open>dhcpd\<close> for the control block of the subscriber. \<open>pkt_len\<close> is the length of the mbuf, the offset of the UDP header is 38.
  The result is -1 dropped, 0 not for this server, 1 the packet is to be sent.
\<close>

definition dhcpd_served :: "dhcp_env \<Rightarrow> dhcp_ccb \<Rightarrow> dhcp_frame \<Rightarrow> (int \<times> dhcp_ccb \<times> dhcp_frame) option" where
  "dhcpd_served env c fr =
     (case pick_lan_user (fr_eth_src fr) c of
        None \<Rightarrow> Some (- 1, c, fr)
      | Some (p, c) \<Rightarrow>
          (case dhcp_decode p (timer_reset p (ucast LEASE_TIMEOUT * 2 * cycles_in_sec (de_clock env)) CB_release_lan_user (timer_stop p c)) fr of
             (DecFail, cur, c, fr) \<Rightarrow> Some (- 1, release_lan_user cur c, fr)
           | (DecUnsupported, cur, c, fr) \<Rightarrow> Some (0, release_lan_user cur c, fr)
           | (DecEvent ev, cur, c, fr) \<Rightarrow>
               (case dhcp_fsm env cur ev c fr of
                  None \<Rightarrow> None
                | Some (ERROR, c, fr) \<Rightarrow> Some (- 1, release_lan_user cur c, fr)
                | Some (SUCCESS, c, fr) \<Rightarrow> Some (1, c, fr))))"

definition dhcpd :: "dhcp_env \<Rightarrow> nat \<Rightarrow> dhcp_ccb \<Rightarrow> dhcp_frame \<Rightarrow> (int \<times> dhcp_ccb \<times> dhcp_frame) option" where
  "dhcpd env pkt_len c fr =
     (let c = c\<lparr>active_count := active_count c + 1\<rparr>;
          leave = (\<lambda>(r :: int, c, fr :: dhcp_frame). (r, c\<lparr>active_count := active_count c - 1\<rparr>, fr))
      in if \<not> dhcp_bool c then Some (leave (- 1, c, fr))
         else if pkt_len < 38 + unat (rte_be_to_cpu_16 (fr_dgram_len fr)) then Some (leave (- 1, c, fr))
         else map_option leave (dhcpd_served env c fr))"

text \<open>
  The mail loop: the packet is sent to the LAN, or to the WAN when it is not for this server, and its buffer goes back to the pool,
  which leaves every pointer into it dangling.
\<close>

datatype dhcp_tx = DhcpLan dhcp_frame | DhcpWan dhcp_frame

definition drop_mbuf :: "dhcp_ccb \<Rightarrow> dhcp_ccb" where
  "drop_mbuf c = c\<lparr>per_lan_user_pool := (\<lambda>i. (per_lan_user_pool c i)
     \<lparr>pl_dhcp_hdr := (if pl_dhcp_hdr (per_lan_user_pool c i) = HdrCurrent then HdrStale else pl_dhcp_hdr (per_lan_user_pool c i))\<rparr>)\<rparr>"

definition ev_dp_dhcp :: "dhcp_env \<Rightarrow> nat \<Rightarrow> dhcp_frame \<Rightarrow> dhcp_ccb \<Rightarrow> (dhcp_tx list \<times> dhcp_ccb) option" where
  "ev_dp_dhcp env pkt_len fr c =
     (case dhcpd env pkt_len c fr of
        None \<Rightarrow> None
      | Some (r, c, fr) \<Rightarrow> Some (if 0 < r then [DhcpLan fr] else if r = 0 then [DhcpWan fr] else [], drop_mbuf c))"

section \<open>Life of a control block\<close>

definition fresh_entry :: "nat \<Rightarrow> dhcp_ccb_per_lan_user" where
  "fresh_entry j = \<lparr>pl_user = \<lparr>lu_state = S_DHCP_NONE, lan_user_used = False, lu_mac_addr = zero_mac, lu_timer = None, timeout_secs = 0\<rparr>,
     pl_ip = \<lparr>ip_mac_addr = zero_mac, ip_addr = 0, ip_used = False, ip_reserved = False\<rparr>, pl_dhcp_hdr = HdrNull, pl_pool_index = j\<rparr>"

definition zero_dns_state :: dns_proxy_state where
  "zero_dns_state = \<lparr>dp_cache = dns_cache_init, dp_static_table = dns_static_init, dp_pending = replicate DNS_MAX_PENDING_QUERIES dns_pending_zero,
     dp_primary_dns = 0, dp_secondary_dns = 0, dp_active_dns = 0, dp_last_response_time = 0, dp_next_upstream_id = 0, dp_dns_proxy_enabled = False\<rparr>"

definition zero_ccb :: dhcp_ccb where
  "zero_ccb = \<lparr>dhcp_server_ip = 0, per_lan_user_pool = fresh_entry, per_lan_user_pool_len = 0, pool_start = 0, pool_end = 0, subnet_mask = 0,
     dhcp_bool = False, active_count = 0, dns_state = zero_dns_state\<rparr>"

definition dhcp_init_by_user :: "dhcp_ccb \<Rightarrow> dhcp_ccb" where
  "dhcp_init_by_user c =
     snd (dhcp_pool_init_by_user 0 0 0 0 (c\<lparr>dhcp_bool := False, active_count := 0,
       dns_state := (dns_state c)\<lparr>dp_dns_proxy_enabled := True, dp_static_table := dns_static_init\<rparr>\<rparr>))"

text \<open>Allocation of the blocks \<open>start\<close> up to \<open>start + count\<close>; \<open>ok\<close> tells which blocks get their memory. One failure takes all of them back.\<close>

definition dhcpd_allocate_ccbs :: "(nat \<Rightarrow> bool) \<Rightarrow> nat \<Rightarrow> nat \<Rightarrow> (nat \<Rightarrow> dhcp_ccb option) \<Rightarrow> status \<times> (nat \<Rightarrow> dhcp_ccb option)" where
  "dhcpd_allocate_ccbs ok start count arr =
     (if list_all ok [start..<start + count]
      then (SUCCESS, \<lambda>i. if start \<le> i \<and> i < start + count then Some (dhcp_init_by_user zero_ccb) else arr i)
      else (ERROR, \<lambda>i. if start \<le> i \<and> i < start + count then None else arr i))"

definition disable_ccb :: "dhcp_ccb \<Rightarrow> dhcp_ccb" where
  "disable_ccb c = fold release_lan_user [0..<pool_len c] (if pool_len c = 0 then c else c\<lparr>dhcp_bool := False\<rparr>)"

definition dhcpd_disable_ccb :: "nat \<Rightarrow> nat \<Rightarrow> (nat \<Rightarrow> dhcp_ccb option) \<Rightarrow> status \<times> (nat \<Rightarrow> dhcp_ccb option)" where
  "dhcpd_disable_ccb disable_count old_count arr =
     (if old_count < disable_count then (ERROR, arr)
      else (SUCCESS, \<lambda>i. if old_count - disable_count \<le> i \<and> i < old_count then map_option disable_ccb (arr i) else arr i))"

end
