(* ===== verification/Dhcp4_Inv.thy ===== *)
theory Dhcp4_Inv
  imports Dhcp4
begin

text \<open>
  Invariants of the DHCPv4 server: what each operation leaves of the window and of the leases, from the entry updates up to a whole packet,
  and the states a control block can reach.
\<close>

section \<open>Reading through updates\<close>

lemma upd_entry_simps [simp]:
  "per_lan_user_pool (upd_entry i f c) j = (if j = i then f (per_lan_user_pool c i) else per_lan_user_pool c j)"
  "dhcp_server_ip (upd_entry i f c) = dhcp_server_ip c" "per_lan_user_pool_len (upd_entry i f c) = per_lan_user_pool_len c"
  "pool_start (upd_entry i f c) = pool_start c" "pool_end (upd_entry i f c) = pool_end c" "subnet_mask (upd_entry i f c) = subnet_mask c"
  "dhcp_bool (upd_entry i f c) = dhcp_bool c" "active_count (upd_entry i f c) = active_count c" "dns_state (upd_entry i f c) = dns_state c"
  by (simp_all add: upd_entry_def)

lemma upd_user_ip_simps [simp]:
  "per_lan_user_pool (upd_user i g c) j = (if j = i then (per_lan_user_pool c i)\<lparr>pl_user := g (entry_user c i)\<rparr> else per_lan_user_pool c j)"
  "per_lan_user_pool (upd_ip i h c) j = (if j = i then (per_lan_user_pool c i)\<lparr>pl_ip := h (entry_ip c i)\<rparr> else per_lan_user_pool c j)"
  "dhcp_server_ip (upd_user i g c) = dhcp_server_ip c" "dhcp_server_ip (upd_ip i h c) = dhcp_server_ip c"
  "per_lan_user_pool_len (upd_user i g c) = per_lan_user_pool_len c" "per_lan_user_pool_len (upd_ip i h c) = per_lan_user_pool_len c"
  "pool_start (upd_user i g c) = pool_start c" "pool_start (upd_ip i h c) = pool_start c"
  "pool_end (upd_user i g c) = pool_end c" "pool_end (upd_ip i h c) = pool_end c"
  "subnet_mask (upd_user i g c) = subnet_mask c" "subnet_mask (upd_ip i h c) = subnet_mask c"
  "dhcp_bool (upd_user i g c) = dhcp_bool c" "dhcp_bool (upd_ip i h c) = dhcp_bool c"
  "active_count (upd_user i g c) = active_count c" "active_count (upd_ip i h c) = active_count c"
  "dns_state (upd_user i g c) = dns_state c" "dns_state (upd_ip i h c) = dns_state c"
  by (simp_all add: upd_user_def upd_ip_def)

lemma timer_simps [simp]:
  "entry_ip (timer_stop i c) j = entry_ip c j" "entry_ip (timer_reset i n cb c) j = entry_ip c j"
  "lu_state (entry_user (timer_stop i c) j) = lu_state (entry_user c j)" "lu_state (entry_user (timer_reset i n cb c) j) = lu_state (entry_user c j)"
  "per_lan_user_pool_len (timer_stop i c) = per_lan_user_pool_len c" "per_lan_user_pool_len (timer_reset i n cb c) = per_lan_user_pool_len c"
  "pl_pool_index (per_lan_user_pool (timer_stop i c) j) = pl_pool_index (per_lan_user_pool c j)"
  "pl_dhcp_hdr (per_lan_user_pool (timer_stop i c) j) = pl_dhcp_hdr (per_lan_user_pool c j)"
  "pl_dhcp_hdr (per_lan_user_pool (timer_reset i n cb c) j) = pl_dhcp_hdr (per_lan_user_pool c j)"
  by (simp_all add: timer_stop_def timer_reset_def)

section \<open>The window\<close>

text \<open>Two blocks with the same configuration and the same addresses at the same places.\<close>

definition same_window :: "dhcp_ccb \<Rightarrow> dhcp_ccb \<Rightarrow> bool" where
  "same_window c c' \<longleftrightarrow>
     dhcp_server_ip c' = dhcp_server_ip c \<and> per_lan_user_pool_len c' = per_lan_user_pool_len c \<and> pool_start c' = pool_start c \<and>
     pool_end c' = pool_end c \<and> subnet_mask c' = subnet_mask c \<and> dhcp_bool c' = dhcp_bool c \<and> active_count c' = active_count c \<and>
     (\<forall>i. pl_pool_index (per_lan_user_pool c' i) = pl_pool_index (per_lan_user_pool c i) \<and>
          ip_addr (entry_ip c' i) = ip_addr (entry_ip c i) \<and> ip_reserved (entry_ip c' i) = ip_reserved (entry_ip c i))"

lemma same_window_refl [simp, intro]: "same_window c c"
  by (simp add: same_window_def)

lemma same_window_trans [trans]: "same_window a b \<Longrightarrow> same_window b c \<Longrightarrow> same_window a c"
  by (simp add: same_window_def)

lemma same_window_user [simp]: "same_window c (upd_user i g c') = same_window c c'"
  by (auto simp: same_window_def)

lemma same_window_ip: "(\<And>p. ip_addr (h p) = ip_addr p \<and> ip_reserved (h p) = ip_reserved p) \<Longrightarrow> same_window c (upd_ip i h c') = same_window c c'"
  by (auto simp: same_window_def)

lemma same_window_hdr [simp]: "same_window c (upd_entry i (\<lambda>e. e\<lparr>pl_dhcp_hdr := x\<rparr>) c') = same_window c c'"
  by (auto simp: same_window_def)

lemma same_window_timer [simp]:
  "same_window c (timer_stop i c') = same_window c c'" "same_window c (timer_reset i n cb c') = same_window c c'"
  by (simp_all add: timer_stop_def timer_reset_def)

lemma same_window_drop_mbuf [simp]: "same_window c (drop_mbuf c') = same_window c c'"
  by (auto simp: same_window_def drop_mbuf_def)

lemma same_window_release [simp]: "same_window c (release_lan_user i c') = same_window c c'"
  by (simp add: release_lan_user_def same_window_ip)

lemma same_window_request_ip_ok: "same_window c c' \<Longrightarrow> request_ip_ok c' ip = request_ip_ok c ip"
  by (simp add: same_window_def request_ip_ok_def)

section \<open>The leases\<close>

text \<open>
  A conversation of the window is in one of the three states of the table, no reserved address is leased, and a client that was sent an
  acknowledgement holds a lease.
\<close>

definition lease_ok :: "dhcp_ccb_per_lan_user \<Rightarrow> bool" where
  "lease_ok e \<longleftrightarrow> lu_state (pl_user e) \<in> {S_DHCP_INIT, S_DHCP_OFFER_SENT, S_DHCP_ACK_SENT} \<and>
     (ip_used (pl_ip e) \<longrightarrow> \<not> ip_reserved (pl_ip e)) \<and> (lu_state (pl_user e) = S_DHCP_ACK_SENT \<longrightarrow> ip_used (pl_ip e))"

definition leases_ok :: "dhcp_ccb \<Rightarrow> bool" where
  "leases_ok c \<longleftrightarrow> (\<forall>i < pool_len c. lease_ok (per_lan_user_pool c i))"

lemma leases_okD: "leases_ok c \<Longrightarrow> i < pool_len c \<Longrightarrow> lease_ok (per_lan_user_pool c i)"
  by (simp add: leases_ok_def)

lemma leases_ok_user: "leases_ok c \<Longrightarrow> (\<And>u. lu_state (g u) = lu_state u) \<Longrightarrow> leases_ok (upd_user i g c)"
  by (simp add: leases_ok_def lease_ok_def)

lemma leases_ok_hdr: "leases_ok c \<Longrightarrow> leases_ok (upd_entry i (\<lambda>e. e\<lparr>pl_dhcp_hdr := x\<rparr>) c)"
  by (simp add: leases_ok_def lease_ok_def)

lemma leases_ok_timer [simp]: "leases_ok (timer_stop i c) = leases_ok c" "leases_ok (timer_reset i n cb c) = leases_ok c"
  by (simp_all add: leases_ok_def lease_ok_def)

lemma leases_ok_drop_mbuf [simp]: "leases_ok (drop_mbuf c) = leases_ok c"
  by (simp add: leases_ok_def lease_ok_def drop_mbuf_def)

lemma leases_ok_release: "leases_ok c \<Longrightarrow> leases_ok (release_lan_user i c)"
  by (simp add: leases_ok_def lease_ok_def release_lan_user_def)

lemma leases_ok_take: "leases_ok c \<Longrightarrow> \<not> ip_reserved (entry_ip c i) \<Longrightarrow> leases_ok (upd_ip i (\<lambda>p. p\<lparr>ip_mac_addr := mac, ip_used := True\<rparr>) c)"
  by (simp add: leases_ok_def lease_ok_def)

section \<open>Taking an entry\<close>

lemma scan_pool_Some:
  assumes "scan_pool is mac c = Some (i, c')"
  shows "i \<in> set is \<and> \<not> ip_reserved (entry_ip c i) \<and> (\<not> ip_used (entry_ip c i) \<or> mac = ip_mac_addr (entry_ip c i)) \<and>
    c' = (if ip_used (entry_ip c i) then c else upd_ip i (\<lambda>p. p\<lparr>ip_used := True, ip_mac_addr := mac\<rparr>) c)"
  using assms
  by (induction "is") (auto simp: check_and_set_single_pool_entry_def split: if_splits option.splits)

lemma scan_order: "p < pool_len c \<Longrightarrow> set ([p..<pool_len c] @ [0..<max p (pool_len c)]) = {..<pool_len c}"
  by auto

text \<open>
  Taking an entry for a client: the entry returned is not reserved and belongs to the client, every other entry is as before, and
  one that belonged to someone else stays his. \<open>q\<close> is the entry that was marked.
\<close>

lemma check_pool_cases:
  assumes "check_pool p cur mac c = (r, cur', c')" and "p < pool_len c" "cur < pool_len c"
  obtains (own) "r = SUCCESS" "cur' = cur" "\<not> ip_reserved (entry_ip c p)" "\<not> ip_used (entry_ip c p) \<or> mac = ip_mac_addr (entry_ip c p)"
      "c' = (if ip_used (entry_ip c p) then c else upd_ip p (\<lambda>p. p\<lparr>ip_mac_addr := mac, ip_used := True\<rparr>) c)"
  | (other) "r = SUCCESS" "cur' < pool_len c" "\<not> ip_reserved (entry_ip c cur')" "\<not> ip_used (entry_ip c cur') \<or> mac = ip_mac_addr (entry_ip c cur')"
      "c' = (if ip_used (entry_ip c cur') then c else upd_ip cur' (\<lambda>p. p\<lparr>ip_mac_addr := mac, ip_used := True\<rparr>) c)"
      "ip_reserved (entry_ip c p) \<or> ip_used (entry_ip c p) \<and> mac \<noteq> ip_mac_addr (entry_ip c p)"
  | (full) "r = ERROR" "cur' = cur" "c' = c" "ip_reserved (entry_ip c p) \<or> ip_used (entry_ip c p) \<and> mac \<noteq> ip_mac_addr (entry_ip c p)"
proof (cases "\<not> ip_reserved (entry_ip c p) \<and> (\<not> ip_used (entry_ip c p) \<or> mac = ip_mac_addr (entry_ip c p))")
  case True
  with assms(1) show thesis by (intro own) (auto simp: check_pool_def split: if_splits)
next
  case no: False
  show thesis
  proof (cases "scan_pool ([cur..<pool_len c] @ [0..<max cur (pool_len c)]) mac c")
    case None
    with assms(1) no show thesis by (intro full) (auto simp: check_pool_def)
  next
    case (Some x)
    then obtain i c2 where s: "scan_pool ([cur..<pool_len c] @ [0..<max cur (pool_len c)]) mac c = Some (i, c2)" by (cases x) simp
    then have "r = SUCCESS" "cur' = i" "c' = c2" using assms(1) no by (auto simp: check_pool_def)
    moreover have "upd_ip i (\<lambda>p. p\<lparr>ip_used := True, ip_mac_addr := mac\<rparr>) c = upd_ip i (\<lambda>p. p\<lparr>ip_mac_addr := mac, ip_used := True\<rparr>) c"
      by (rule arg_cong [where f = "\<lambda>h. upd_ip i h c"]) (simp add: fun_eq_iff)
    ultimately show thesis using scan_pool_Some [OF s] assms(2,3) no by (intro other) auto
  qed
qed

lemma check_pool_keeps:
  assumes "check_pool p cur mac c = (r, cur', c')" and "p < pool_len c" "cur < pool_len c" and "leases_ok c"
    and "cur = p \<or> ip_used (entry_ip c cur)"
  shows "same_window c c'" "leases_ok c'" "cur' < pool_len c" "cur' = p \<or> ip_used (entry_ip c' cur')" "r = SUCCESS \<Longrightarrow> ip_used (entry_ip c' cur')"
    "r = ERROR \<Longrightarrow> c' = c \<and> cur' = cur" "\<And>i. entry_user c' i = entry_user c i" "\<And>i. pl_dhcp_hdr (per_lan_user_pool c' i) = pl_dhcp_hdr (per_lan_user_pool c i)"
    "\<And>i. ip_used (entry_ip c i) \<Longrightarrow> entry_ip c' i = entry_ip c i"
  using assms(1,2,3)
  by (cases rule: check_pool_cases; use assms(3,4,5) in \<open>auto simp: same_window_ip leases_ok_take split: if_splits\<close>)+

section \<open>Decoding\<close>

definition names_address :: "dhcp_frame \<Rightarrow> bool" where
  "names_address fr \<longleftrightarrow> list_ex (\<lambda>(t, _). t = DHCP_REQUEST_IP) (fst (dhcp_opts (fr_options fr) (field_len fr) 0))"

definition same_request :: "dhcp_frame \<Rightarrow> dhcp_frame \<Rightarrow> bool" where
  "same_request fr fr' \<longleftrightarrow> (\<exists>x y. fr' = fr\<lparr>fr_hdr := (fr_hdr fr)\<lparr>bp_client_ip := x, bp_ur_client_ip := y\<rparr>\<rparr>)"

lemma same_request_refl [simp, intro]: "same_request fr fr"
  unfolding same_request_def by (rule exI [of _ "bp_client_ip (fr_hdr fr)"], rule exI [of _ "bp_ur_client_ip (fr_hdr fr)"]) simp

lemma same_request_trans: "same_request a b \<Longrightarrow> same_request b c \<Longrightarrow> same_request a c"
  unfolding same_request_def by (elim exE) auto

lemma same_requestD:
  "same_request fr fr' \<Longrightarrow> fr_options fr' = fr_options fr \<and> fr_dgram_len fr' = fr_dgram_len fr \<and> fr_eth_src fr' = fr_eth_src fr \<and>
     bp_bootp_flag (fr_hdr fr') = bp_bootp_flag (fr_hdr fr)"
  by (auto simp: same_request_def)

text \<open>
  The invariant of the decoding loop, from block \<open>c0\<close> and packet \<open>fr0\<close>: conversations and pointers are untouched, addresses only
  get taken, and the address in the packet was checked unless it still is the client's own.
\<close>

definition dec_inv :: "dhcp_ccb \<Rightarrow> dhcp_frame \<Rightarrow> nat \<Rightarrow> nat \<Rightarrow> dhcp_ccb \<Rightarrow> dhcp_frame \<Rightarrow> bool" where
  "dec_inv c0 fr0 p cur c fr \<longleftrightarrow> same_window c0 c \<and> leases_ok c \<and> p < pool_len c0 \<and> cur < pool_len c0 \<and> (cur = p \<or> ip_used (entry_ip c cur)) \<and>
     (\<forall>i. lu_state (entry_user c i) = lu_state (entry_user c0 i) \<and> pl_dhcp_hdr (per_lan_user_pool c i) = pl_dhcp_hdr (per_lan_user_pool c0 i)) \<and>
     (\<forall>i. ip_used (entry_ip c0 i) \<longrightarrow> entry_ip c i = entry_ip c0 i) \<and>
     same_request fr0 fr \<and> (fr = fr0 \<or> request_ip_ok c0 (bp_ur_client_ip (fr_hdr fr)) \<or> names_address fr0)"

definition good_request :: "dhcp_ccb \<Rightarrow> dhcp_frame \<Rightarrow> nat \<Rightarrow> dhcp_ccb \<Rightarrow> dhcp_frame \<Rightarrow> bool" where
  "good_request c0 fr0 cur c fr \<longleftrightarrow> ip_used (entry_ip c cur) \<and>
     (request_ip_ok c0 (bp_ur_client_ip (fr_hdr fr)) \<or> fr = fr0 \<and> bp_client_ip (fr_hdr fr0) = 0 \<and> \<not> names_address fr0)"

lemma dec_inv_start: "leases_ok c \<Longrightarrow> p < pool_len c \<Longrightarrow> dec_inv c fr p p c fr"
  by (simp add: dec_inv_def)

lemma dec_inv_user:
  "dec_inv c0 fr0 p cur c fr \<Longrightarrow> (\<And>u. lu_state (g u) = lu_state u) \<Longrightarrow> dec_inv c0 fr0 p cur (upd_user i g c) fr"
  by (auto simp: dec_inv_def leases_ok_user)

lemma dec_inv_timer: "dec_inv c0 fr0 p cur c fr \<Longrightarrow> dec_inv c0 fr0 p cur (timer_stop i c) fr"
  by (simp add: timer_stop_def dec_inv_user)

lemma good_request_timer [simp]: "good_request c0 fr0 cur (timer_stop i c) fr = good_request c0 fr0 cur c fr"
  by (simp add: good_request_def)

lemma check_pool_dec_inv:
  assumes "check_pool p cur mac c = (r, cur', c')" and "dec_inv c0 fr0 p cur c fr"
  shows "dec_inv c0 fr0 p cur' c' fr" "r = SUCCESS \<Longrightarrow> ip_used (entry_ip c' cur')" "r = ERROR \<Longrightarrow> c' = c \<and> cur' = cur"
proof -
  have d: "same_window c0 c" "leases_ok c" "p < pool_len c" "cur < pool_len c" "cur = p \<or> ip_used (entry_ip c cur)"
    using assms(2) by (auto simp: dec_inv_def same_window_def)
  note k = check_pool_keeps [OF assms(1) d(3,4,2,5)]
  show "dec_inv c0 fr0 p cur' c' fr"
    using assms(2) k(2,3,4,7,8,9) same_window_trans [OF d(1) k(1)] by (auto simp: dec_inv_def same_window_def)
  show "r = SUCCESS \<Longrightarrow> ip_used (entry_ip c' cur')" "r = ERROR \<Longrightarrow> c' = c \<and> cur' = cur" using k(5,6) by blast+
qed

lemma select_options_ip:
  "select_options c buf os m mac ur = (SelMac mac', ur') \<Longrightarrow>
     request_ip_ok c ur' \<or> ur' = ur \<and> \<not> list_ex (\<lambda>(t, _). t = DHCP_REQUEST_IP) os"
proof (induction os arbitrary: mac ur)
  case Nil
  then show ?case by (simp split: if_splits)
next
  case (Cons x os)
  obtain t l v where x: "x = (t, l, v)" by (cases x) auto
  show ?case
  proof (cases "t = DHCP_REQUEST_IP")
    case True
    then have "request_ip_ok c (mem32_at buf v)" "select_options c buf os m mac (mem32_at buf v) = (SelMac mac', ur')"
      using Cons.prems by (auto simp: x split: if_splits)
    then show ?thesis using Cons.IH by blast
  next
    case False
    then obtain mac2 where "select_options c buf os m mac2 ur = (SelMac mac', ur')" using Cons.prems by (auto simp: x split: if_splits)
    then show ?thesis using Cons.IH [of mac2 ur] False by (auto simp: x)
  qed
qed

lemma select_options_kept:
  "select_options c buf os m mac ur = (r, ur') \<Longrightarrow> ur' = ur \<or> list_ex (\<lambda>(t, _). t = DHCP_REQUEST_IP) os"
  by (induction c buf os m mac ur rule: select_options.induct) (auto split: if_splits)

lemma request_ip_ok_window: "same_window c0 c \<Longrightarrow> request_ip_ok c = request_ip_ok c0"
  by (simp add: fun_eq_iff same_window_request_ip_ok)

text \<open>A packet that asked with its own address set, and one that asked with options.\<close>

lemma check_request_dec_inv:
  assumes "check_request p cur mac c = (ev, cur', c')" and "dec_inv c0 fr0 p cur c fr"
  shows "dec_inv c0 fr0 p cur' c' fr" "ev = Some DE_GOOD_REQUEST \<Longrightarrow> ip_used (entry_ip c' cur')" "ev = Some DE_GOOD_REQUEST \<or> ev = Some DE_BAD_REQUEST"
proof -
  obtain r where k: "check_pool p cur mac c = (r, cur', c')" "ev = Some (if r = SUCCESS then DE_GOOD_REQUEST else DE_BAD_REQUEST)"
    using assms(1) by (auto simp: check_request_def split: prod.splits)
  then show "dec_inv c0 fr0 p cur' c' fr" "ev = Some DE_GOOD_REQUEST \<Longrightarrow> ip_used (entry_ip c' cur')"
    "ev = Some DE_GOOD_REQUEST \<or> ev = Some DE_BAD_REQUEST"
    using check_pool_dec_inv [OF k(1) assms(2)] by (auto split: if_splits)
qed

lemma decode_request_dec_inv:
  assumes d: "dec_inv c0 fr0 p cur c fr" and run: "decode_request p cur c fr = (ev, cur', c', fr')"
  shows "dec_inv c0 fr0 p cur' c' fr'" and "ev = Some DE_GOOD_REQUEST \<Longrightarrow> good_request c0 fr0 cur' c' fr'" and "ev \<in> {None, Some DE_GOOD_REQUEST, Some DE_BAD_REQUEST}"
proof -
  let ?h = "fr_hdr fr"
  have w: "same_window c0 c" and same: "same_request fr0 fr" using d by (auto simp: dec_inv_def)
  note ok = request_ip_ok_window [OF w]
  have na: "names_address fr = names_address fr0" using same_requestD [OF same] by (simp add: names_address_def)
  obtain os m where os: "dhcp_opts (fr_options fr) (field_len fr) 0 = (os, m)" by fastforce
  have hdr: "dec_inv c0 fr0 p cur c2 fr2" if "dec_inv c0 fr0 p cur c2 fr" "same_request fr fr2"
    "fr2 = fr \<or> request_ip_ok c0 (bp_ur_client_ip (fr_hdr fr2)) \<or> names_address fr0" for c2 fr2
    using that same_request_trans [OF same that(2)] by (auto simp: dec_inv_def)
  have "dec_inv c0 fr0 p cur' c' fr' \<and> (ev = Some DE_GOOD_REQUEST \<longrightarrow> good_request c0 fr0 cur' c' fr') \<and> ev \<in> {None, Some DE_GOOD_REQUEST, Some DE_BAD_REQUEST}"
  proof (cases "bp_client_ip ?h = 0")
    case False
    show ?thesis
    proof (cases "request_ip_ok c (bp_client_ip ?h)")
      case bad: False
      then show ?thesis using run d False by (auto simp: decode_request_def os)
    next
      case good: True
      let ?fr = "fr\<lparr>fr_hdr := ?h\<lparr>bp_ur_client_ip := bp_client_ip ?h, bp_client_ip := 0\<rparr>\<rparr>"
      let ?c = "upd_user p (\<lambda>u. u\<lparr>timeout_secs := LEASE_TIMEOUT\<rparr>) c"
      have "same_request fr ?fr" unfolding same_request_def by (rule exI [of _ 0], rule exI [of _ "bp_client_ip ?h"]) simp
      from hdr [OF dec_inv_user [OF d] this] have i: "dec_inv c0 fr0 p cur ?c ?fr" using good ok by simp
      show ?thesis
      proof (cases "renew_options c fr os m")
        case False
        then show ?thesis using run i good \<open>bp_client_ip ?h \<noteq> 0\<close> by (auto simp: decode_request_def os Let_def)
      next
        case True
        obtain ev2 cur2 c2 where cr: "check_request p cur (fr_eth_src fr) ?c = (ev2, cur2, c2)" by (metis prod_cases3)
        then have "ev = ev2" "cur' = cur2" "c' = c2" "fr' = ?fr"
          using run True good False by (simp_all add: decode_request_def os Let_def)
        then show ?thesis using check_request_dec_inv [OF cr i] good ok by (auto simp: good_request_def)
      qed
    qed
  next
    case True
    obtain r ur where sel: "select_options c (fr_options fr) os m (fr_eth_src fr) (bp_ur_client_ip ?h) = (r, ur)" by fastforce
    let ?fr = "fr\<lparr>fr_hdr := ?h\<lparr>bp_ur_client_ip := ur\<rparr>\<rparr>"
    have sr: "same_request fr ?fr" unfolding same_request_def by (rule exI [of _ "bp_client_ip ?h"], rule exI [of _ ur]) simp
    have kept: "ur = bp_ur_client_ip ?h \<or> names_address fr0" using select_options_kept [OF sel] na by (simp add: names_address_def os)
    from hdr [OF d sr] kept have i: "dec_inv c0 fr0 p cur c ?fr" by auto
    show ?thesis
    proof (cases r)
      case (SelMac mac)
      obtain ev2 cur2 c2 where cr: "check_request p cur mac c = (ev2, cur2, c2)" by (metis prod_cases3)
      then have e: "ev = ev2" "cur' = cur2" "c' = c2" "fr' = ?fr" using run True by (simp_all add: decode_request_def os Let_def sel SelMac)
      have "request_ip_ok c0 ur \<or> ur = bp_ur_client_ip ?h \<and> \<not> names_address fr0"
        using select_options_ip [of c "fr_options fr" os m "fr_eth_src fr" "bp_ur_client_ip ?h" mac ur] sel SelMac ok na by (simp add: names_address_def os)
      moreover have "fr = fr0 \<or> request_ip_ok c0 (bp_ur_client_ip ?h) \<or> names_address fr0" using d by (simp add: dec_inv_def)
      ultimately have "request_ip_ok c0 ur \<or> ?fr = fr0 \<and> bp_client_ip (fr_hdr fr0) = 0 \<and> \<not> names_address fr0" using True by auto
      then show ?thesis using check_request_dec_inv [OF cr i] e by (auto simp: good_request_def)
    qed (use run i True in \<open>auto simp: decode_request_def os Let_def sel\<close>)
  qed
  then show "dec_inv c0 fr0 p cur' c' fr'" and "ev = Some DE_GOOD_REQUEST \<Longrightarrow> good_request c0 fr0 cur' c' fr'"
    and "ev \<in> {None, Some DE_GOOD_REQUEST, Some DE_BAD_REQUEST}" by blast+
qed

lemma decode_msg_type_dec_inv:
  assumes d: "dec_inv c0 fr0 p cur c fr" and g: "event = Some DE_GOOD_REQUEST \<Longrightarrow> good_request c0 fr0 cur c fr"
    and run: "decode_msg_type m p event cur c fr = (event', cur', c', fr')"
  shows "dec_inv c0 fr0 p cur' c' fr'" and "event' = Some DE_GOOD_REQUEST \<Longrightarrow> good_request c0 fr0 cur' c' fr'"
proof -
  consider "m = DHCP_REQUEST" | "m = DHCP_RELEASE" | "m \<noteq> DHCP_REQUEST" "m \<noteq> DHCP_RELEASE" by blast
  then have "dec_inv c0 fr0 p cur' c' fr' \<and> (event' = Some DE_GOOD_REQUEST \<longrightarrow> good_request c0 fr0 cur' c' fr')"
  proof cases
    case 1
    obtain ev cu c2 f2 where r: "decode_request p cur c fr = (ev, cu, c2, f2)" by (metis prod_cases4)
    then show ?thesis using run 1 decode_request_dec_inv(1,2) [OF d r] by (auto simp: decode_msg_type_def dec_inv_timer)
  next
    case 2
    obtain r cu c2 where k: "check_pool p cur (fr_eth_src fr) c = (r, cu, c2)" by (metis prod_cases3)
    show ?thesis using run 2 check_pool_dec_inv [OF k d] g by (cases r) (auto simp: decode_msg_type_def k)
  next
    case 3
    then show ?thesis using run d g by (auto simp: decode_msg_type_def split: if_splits)
  qed
  then show "dec_inv c0 fr0 p cur' c' fr'" and "event' = Some DE_GOOD_REQUEST \<Longrightarrow> good_request c0 fr0 cur' c' fr'" by blast+
qed

lemma decode_options_dec_inv:
  assumes "dec_inv c0 fr0 p cur c fr" and "event = Some DE_GOOD_REQUEST \<Longrightarrow> good_request c0 fr0 cur c fr"
    and "decode_options os m p event cur c fr = (r, cur', c', fr')"
  shows "dec_inv c0 fr0 p cur' c' fr' \<and> (r = DecEvent DE_GOOD_REQUEST \<longrightarrow> good_request c0 fr0 cur' c' fr')"
  using assms
proof (induction os arbitrary: event cur c fr)
  case Nil
  then show ?case by (auto split: if_splits option.splits)
next
  case (Cons x os)
  obtain t l v where x: "x = (t, l, v)" by (cases x) auto
  obtain e2 cu2 c2 f2 where mt: "decode_msg_type (fr_options fr ! v) p event cur c fr = (e2, cu2, c2, f2)" by (metis prod_cases4)
  note k = decode_msg_type_dec_inv [OF Cons.prems(1,2) mt]
  show ?case
  proof (cases "t = DHCP_MSG_TYPE")
    case True
    then show ?thesis using Cons.IH [OF k] Cons.prems(3) by (simp add: x mt)
  next
    case False
    then show ?thesis using Cons.IH [OF Cons.prems(1,2)] Cons.prems by (auto simp: x split: if_splits)
  qed
qed

lemma dhcp_decode_inv:
  assumes "leases_ok c" and "p < pool_len c" and "dhcp_decode p c fr = (r, cur, c', fr')"
  defines "c1 \<equiv> upd_entry p (\<lambda>e. e\<lparr>pl_dhcp_hdr := HdrCurrent\<rparr>) c"
  shows "dec_inv c1 fr p cur c' fr'" and "r = DecEvent DE_GOOD_REQUEST \<Longrightarrow> good_request c1 fr cur c' fr'"
proof -
  have start: "dec_inv c1 fr p p c1 fr" using assms(1,2) by (intro dec_inv_start) (simp_all add: c1_def leases_ok_hdr)
  obtain os m where os: "dhcp_opts (fr_options fr) (field_len fr) 0 = (os, m)" by fastforce
  have "dec_inv c1 fr p cur c' fr' \<and> (r = DecEvent DE_GOOD_REQUEST \<longrightarrow> good_request c1 fr cur c' fr')"
  proof (cases "unat (rte_be_to_cpu_16 (fr_dgram_len fr)) < 248 \<or> rte_be_to_cpu_32 (bp_magic_cookie (fr_hdr fr)) \<noteq> DHCP_MAGIC_COOKIE")
    case True
    then have "r = DecFail \<and> cur = p \<and> c' = c1 \<and> fr' = fr" using assms(3) by (auto simp: dhcp_decode_def c1_def Let_def split: if_splits)
    then show ?thesis using start by simp
  next
    case False
    then have "decode_options os m p None p c1 fr = (r, cur, c', fr')" using assms(3) by (simp add: dhcp_decode_def c1_def Let_def os)
    then show ?thesis by (intro decode_options_dec_inv [OF start]) simp_all
  qed
  then show "dec_inv c1 fr p cur c' fr'" and "r = DecEvent DE_GOOD_REQUEST \<Longrightarrow> good_request c1 fr cur c' fr'" by blast+
qed

section \<open>The automaton\<close>

lemma pick_scan_Some:
  assumes "pick_scan is mac c = Some (ip, c')"
  shows "\<exists>i \<in> set is. \<not> ip_reserved (entry_ip c i) \<and> ip = ip_addr (entry_ip c i) \<and> (mac = ip_mac_addr (entry_ip c i) \<or> \<not> ip_used (entry_ip c i)) \<and>
    c' = (if mac = ip_mac_addr (entry_ip c i) then c else upd_ip i (\<lambda>p. p\<lparr>ip_mac_addr := mac\<rparr>) c)"
  using assms
proof (induction "is")
  case (Cons i "is")
  show ?case
  proof (cases "ip_reserved (entry_ip c i) \<or> mac \<noteq> ip_mac_addr (entry_ip c i) \<and> ip_used (entry_ip c i)")
    case True
    then have "pick_scan is mac c = Some (ip, c')" using Cons.prems by (auto split: if_splits)
    from Cons.IH [OF this] show ?thesis by (meson list.set_intros(2))
  next
    case False
    then show ?thesis using Cons.prems by (intro bexI [of _ i]) (auto split: if_splits)
  qed
qed simp

lemma pick_ip_Some:
  assumes "pick_ip_from_pool p mac c = Some (ip, c')" and "pl_pool_index (per_lan_user_pool c p) < pool_len c"
  obtains i where "i < pool_len c" "\<not> ip_reserved (entry_ip c i)" "ip = ip_addr (entry_ip c i)" "mac = ip_mac_addr (entry_ip c i) \<or> \<not> ip_used (entry_ip c i)"
    "c' = (if mac = ip_mac_addr (entry_ip c i) then c else upd_ip i (\<lambda>p. p\<lparr>ip_mac_addr := mac\<rparr>) c)"
  using pick_scan_Some [OF assms(1) [unfolded pick_ip_from_pool_def Let_def]] assms(2) by (auto simp: scan_order)

text \<open>What the actions leave alone: everything but the conversation of their entry, the mark of an offer and, for a release or a conflict, the lease.\<close>

lemma leases_ok_mac: "leases_ok c \<Longrightarrow> leases_ok (upd_ip i (\<lambda>p. p\<lparr>ip_mac_addr := mac\<rparr>) c)"
  by (simp add: leases_ok_def lease_ok_def)

lemma pick_ip_keeps:
  assumes "pick_ip_from_pool p mac c = Some (ip, c')" and "pl_pool_index (per_lan_user_pool c p) < pool_len c" and "leases_ok c"
  shows "same_window c c'" "leases_ok c'" "\<And>i. entry_user c' i = entry_user c i" "\<And>i. pl_dhcp_hdr (per_lan_user_pool c' i) = pl_dhcp_hdr (per_lan_user_pool c i)"
    "\<And>i. ip_used (entry_ip c' i) = ip_used (entry_ip c i)"
  by (rule pick_ip_Some [OF assms(1,2)]; use assms(3) in \<open>auto simp: same_window_ip leases_ok_mac\<close>)+

lemma mark_ip_conflicted_keeps:
  assumes "leases_ok c" and "\<not> ip_reserved (entry_ip c i)" and "lu_state (entry_user c i) \<noteq> S_DHCP_ACK_SENT \<or> ip_used (entry_ip c i)"
  shows "same_window c (mark_ip_conflicted env i c)" "leases_ok (mark_ip_conflicted env i c)"
  using assms by (auto simp: mark_ip_conflicted_def same_window_ip leases_ok_def lease_ok_def)

lemma dhcp_search_cases:
  assumes "dhcp_search s e = Some (n, hdl)"
  obtains (offer) "e = DE_DISCOVER" "n = S_DHCP_OFFER_SENT" "hdl = [A_send_dhcp_offer, A_wait_request_timer]"
  | (ack) "e = DE_GOOD_REQUEST" "n = S_DHCP_ACK_SENT" "hdl = [A_send_dhcp_ack, A_wait_lease_timer]"
  | (nak) "e = DE_BAD_REQUEST" "n = S_DHCP_INIT" "hdl = (if s = S_DHCP_INIT then [A_send_dhcp_nak] else [A_send_dhcp_nak, A_release])"
  | (inform) "e = DE_INFORM" "n = s" "hdl = [A_send_dhcp_ack_inform]" "s = S_DHCP_INIT \<or> s = S_DHCP_ACK_SENT"
  | (release) "e = DE_RELEASE \<and> s = S_DHCP_ACK_SENT \<or> e = DE_TIMEOUT" "n = S_DHCP_INIT" "hdl = [A_release]"
  | (decline) "e = DE_DECLINE" "s = S_DHCP_ACK_SENT" "n = S_DHCP_INIT" "hdl = [A_mark_ip_conflicted]"
  using assms by (cases s; cases e) (auto simp: dhcp_search_def dhcp_fsm_tbl_def)

text \<open>One run of the automaton, action by action. \<open>c1\<close> is the block after the change of state.\<close>

lemma dhcp_fsm_cases:
  assumes "dhcp_fsm env i e c fr = Some (r, c', fr')"
  defines "s \<equiv> lu_state (entry_user c i)"
  obtains (stuck) "dhcp_search s e = None" "r = ERROR" "c' = c" "fr' = fr"
  | (no_offer) "e = DE_DISCOVER" "r = ERROR" "c' = upd_user i (\<lambda>u. u\<lparr>lu_state := S_DHCP_OFFER_SENT\<rparr>) c"
  | (offer) ip c2 where "e = DE_DISCOVER" "r = SUCCESS" "pl_dhcp_hdr (per_lan_user_pool c2 i) = HdrCurrent"
      "pick_ip_from_pool i (fr_eth_src fr) (upd_user i (\<lambda>u. u\<lparr>lu_state := S_DHCP_OFFER_SENT\<rparr>) c) = Some (ip, c2)" "c' = wait_request_timer env i c2"
      "build_dhcp_offer env i (upd_user i (\<lambda>u. u\<lparr>lu_state := S_DHCP_OFFER_SENT\<rparr>) c) fr = Some (SUCCESS, c2, fr')"
  | (ack) "e = DE_GOOD_REQUEST" "r = SUCCESS" "pl_dhcp_hdr (per_lan_user_pool c i) = HdrCurrent"
      "c' = wait_lease_timer env i (upd_user i (\<lambda>u. u\<lparr>lu_state := S_DHCP_ACK_SENT\<rparr>) c)"
      "build_dhcp_ack env i (upd_user i (\<lambda>u. u\<lparr>lu_state := S_DHCP_ACK_SENT\<rparr>) c) fr = Some (SUCCESS, upd_user i (\<lambda>u. u\<lparr>lu_state := S_DHCP_ACK_SENT\<rparr>) c, fr')"
  | (nak) "e = DE_BAD_REQUEST" "r = SUCCESS"
      "c' = (if s = S_DHCP_INIT then upd_user i (\<lambda>u. u\<lparr>lu_state := S_DHCP_INIT\<rparr>) c else release_lan_user i (upd_user i (\<lambda>u. u\<lparr>lu_state := S_DHCP_INIT\<rparr>) c))"
      "build_dhcp_nak env i (upd_user i (\<lambda>u. u\<lparr>lu_state := S_DHCP_INIT\<rparr>) c) fr = Some (SUCCESS, upd_user i (\<lambda>u. u\<lparr>lu_state := S_DHCP_INIT\<rparr>) c, fr')"
  | (inform) "e = DE_INFORM" "r = SUCCESS" "c' = upd_user i (\<lambda>u. u\<lparr>lu_state := s\<rparr>) c" "s = S_DHCP_INIT \<or> s = S_DHCP_ACK_SENT"
      "build_dhcp_ack_inform env i (upd_user i (\<lambda>u. u\<lparr>lu_state := s\<rparr>) c) fr = Some (SUCCESS, upd_user i (\<lambda>u. u\<lparr>lu_state := s\<rparr>) c, fr')"
  | (release) "e = DE_RELEASE \<and> s = S_DHCP_ACK_SENT \<or> e = DE_TIMEOUT" "r = SUCCESS" "c' = release_lan_user i (upd_user i (\<lambda>u. u\<lparr>lu_state := S_DHCP_INIT\<rparr>) c)" "fr' = fr"
  | (decline) "e = DE_DECLINE" "s = S_DHCP_ACK_SENT" "r = SUCCESS" "c' = mark_ip_conflicted env i (upd_user i (\<lambda>u. u\<lparr>lu_state := S_DHCP_INIT\<rparr>) c)" "fr' = fr"
proof (cases "dhcp_search s e")
  case None
  with assms show thesis by (intro stuck) (auto simp: dhcp_fsm_def)
next
  case (Some x)
  then obtain n hdl where se: "dhcp_search s e = Some (n, hdl)" by (cases x) simp
  let ?c = "upd_user i (\<lambda>u. u\<lparr>lu_state := n\<rparr>) c"
  have run: "dhcp_run_handlers env hdl i ?c fr = Some (r, c', fr')" using assms(1) se by (simp add: dhcp_fsm_def s_def)
  from se show thesis
  proof (cases rule: dhcp_search_cases)
    case offer
    obtain r2 c2 fr2 where b: "build_dhcp_offer env i ?c fr = Some (r2, c2, fr2)" using run offer(3) by (auto split: option.splits prod.splits status.splits)
    show thesis
    proof (cases r2)
      case ERROR
      moreover from this have "c2 = ?c" using b by (auto simp: build_dhcp_offer_def Let_def split: option.splits prod.splits if_splits)
      ultimately show thesis using run offer b by (intro no_offer) simp_all
    next
      case SUCCESS
      moreover have "fr_eth_dst (swap_eth env fr) = fr_eth_src fr" by (simp add: swap_eth_def)
      ultimately obtain ip where "pick_ip_from_pool i (fr_eth_src fr) ?c = Some (ip, c2)" "pl_dhcp_hdr (per_lan_user_pool c2 i) = HdrCurrent"
        using b by (auto simp: build_dhcp_offer_def Let_def split: option.splits prod.splits if_splits)
      then show thesis using run offer b SUCCESS by (intro that(3) [of c2 ip]) simp_all
    qed
  next
    case ack
    then have b: "build_dhcp_ack env i ?c fr \<noteq> None" using run by (auto split: option.splits)
    then have "pl_dhcp_hdr (per_lan_user_pool ?c i) = HdrCurrent" "\<exists>f. build_dhcp_ack env i ?c fr = Some (SUCCESS, ?c, f)" by (auto simp: build_dhcp_ack_def split: if_splits)
    then show thesis using run ack by (intro that(4)) auto
  next
    case nak
    then have "build_dhcp_nak env i ?c fr \<noteq> None" using run by (auto split: option.splits if_splits)
    then have "\<exists>f. build_dhcp_nak env i ?c fr = Some (SUCCESS, ?c, f)" by (auto simp: build_dhcp_nak_def Let_def split: if_splits)
    then show thesis using run nak by (intro that(5)) (auto split: if_splits)
  next
    case inform
    then have "build_dhcp_ack_inform env i ?c fr \<noteq> None" using run by (auto split: option.splits)
    then have "\<exists>f. build_dhcp_ack_inform env i ?c fr = Some (SUCCESS, ?c, f)" by (auto simp: build_dhcp_ack_inform_def Let_def split: if_splits)
    then show thesis using run inform by (intro that(6)) auto
  next
    case release
    then show thesis using run by (intro that(7)) auto
  next
    case decline
    then show thesis using run by (intro that(8)) auto
  qed
qed

lemma leases_ok_state:
  "leases_ok c \<Longrightarrow> n \<in> {S_DHCP_INIT, S_DHCP_OFFER_SENT} \<or> n = S_DHCP_ACK_SENT \<and> ip_used (entry_ip c i) \<Longrightarrow>
     leases_ok (upd_user i (\<lambda>u. u\<lparr>lu_state := n\<rparr>) c)"
  by (auto simp: leases_ok_def lease_ok_def)

lemma wait_timer_keeps [simp]:
  "same_window c (wait_request_timer env i c') = same_window c c'" "same_window c (wait_lease_timer env i c') = same_window c c'"
  "leases_ok (wait_request_timer env i c') = leases_ok c'" "leases_ok (wait_lease_timer env i c') = leases_ok c'"
  "entry_ip (wait_request_timer env i c') j = entry_ip c' j" "entry_ip (wait_lease_timer env i c') j = entry_ip c' j"
  by (simp_all add: wait_request_timer_def wait_lease_timer_def Let_def)

lemma dhcp_fsm_keeps:
  assumes "dhcp_fsm env i e c fr = Some (r, c', fr')" and "leases_ok c" and "i < pool_len c" and "pl_pool_index (per_lan_user_pool c i) = i"
    and "e = DE_GOOD_REQUEST \<Longrightarrow> ip_used (entry_ip c i)"
  shows "same_window c c' \<and> leases_ok c'"
  using assms(1)
proof (cases rule: dhcp_fsm_cases)
  case (offer ip c2)
  let ?c = "upd_user i (\<lambda>u. u\<lparr>lu_state := S_DHCP_OFFER_SENT\<rparr>) c"
  have "pl_pool_index (per_lan_user_pool ?c i) < pool_len ?c" "leases_ok ?c" using assms(2-4) by (simp_all add: leases_ok_state)
  from pick_ip_keeps(1,2) [OF offer(4) this] show ?thesis
    using offer(5) same_window_trans [of c ?c c2] by simp
next
  case decline
  let ?c = "upd_user i (\<lambda>u. u\<lparr>lu_state := S_DHCP_INIT\<rparr>) c"
  have "\<not> ip_reserved (entry_ip c i)" using leases_okD [OF assms(2,3)] decline(2) by (simp add: lease_ok_def)
  then show ?thesis using mark_ip_conflicted_keeps [of ?c i env] decline(4) same_window_trans [of c ?c c'] assms(2) by (simp add: leases_ok_state)
next
  case inform
  then show ?thesis using assms(2) leases_okD [OF assms(2,3)] by (auto simp: lease_ok_def intro!: leases_ok_state)
qed (use assms in \<open>auto simp: leases_ok_state leases_ok_release\<close>)

end
