(* ===== verification/Dhcp4_Props.thy ===== *)
theory Dhcp4_Props
  imports Dhcp4_Inv
begin

text \<open>
  Properties of the DHCPv4 server: the shape of the pool in every reachable state, the addresses its replies carry, and the
  exchange that gives a client its lease and takes it back.
\<close>

section \<open>A packet keeps the pool\<close>

lemma pick_lan_user_Some:
  assumes "pick_lan_user src c = Some (p, c')"
  shows "p < pool_len c" "same_window c c'" "leases_ok c \<Longrightarrow> leases_ok c'" "\<And>i. entry_ip c' i = entry_ip c i"
    "\<And>i. lu_state (entry_user c' i) = lu_state (entry_user c i)" "\<And>i. pl_dhcp_hdr (per_lan_user_pool c' i) = pl_dhcp_hdr (per_lan_user_pool c i)"
proof -
  let ?P = "\<lambda>i. src = lu_mac_addr (entry_user c i) \<or> \<not> lan_user_used (entry_user c i)"
  have f: "find ?P [0..<pool_len c] = Some p" using assms by (auto simp: pick_lan_user_def split: option.splits if_splits)
  then have "p \<in> set [0..<pool_len c]" by (auto simp: find_Some_iff in_set_conv_nth)
  then show "p < pool_len c" by simp
  have c': "c' = (if src = lu_mac_addr (entry_user c p) then c else upd_user p (\<lambda>u. u\<lparr>lu_mac_addr := src, lan_user_used := True\<rparr>) c)"
    using assms f by (auto simp: pick_lan_user_def)
  then show "same_window c c'" "leases_ok c \<Longrightarrow> leases_ok c'" "\<And>i. entry_ip c' i = entry_ip c i"
    "\<And>i. lu_state (entry_user c' i) = lu_state (entry_user c i)" "\<And>i. pl_dhcp_hdr (per_lan_user_pool c' i) = pl_dhcp_hdr (per_lan_user_pool c i)"
    by (auto intro: leases_ok_user)
qed

definition window_ok :: "dhcp_ccb \<Rightarrow> bool" where
  "window_ok c \<longleftrightarrow> (\<forall>i < pool_len c. pl_pool_index (per_lan_user_pool c i) = i \<and>
     ip_addr (entry_ip c i) = rte_cpu_to_be_32 (pool_start c + of_nat i) \<and> ip_reserved (entry_ip c i) = dhcp_ip_is_reserved (pool_start c + of_nat i))"

lemma window_ok_same: "same_window c c' \<Longrightarrow> window_ok c \<Longrightarrow> window_ok c'"
  by (simp add: window_ok_def same_window_def)

text \<open>The part of \<open>dhcpd\<close> after the guards, split at the decoder. \<open>c1\<close> is the block the decoder starts from.\<close>

definition served_from :: "dhcp_env \<Rightarrow> nat \<Rightarrow> dhcp_ccb \<Rightarrow> dhcp_ccb" where
  "served_from env p c = timer_reset p (ucast LEASE_TIMEOUT * 2 * cycles_in_sec (de_clock env)) CB_release_lan_user (timer_stop p c)"

lemma served_from_simps [simp]:
  "same_window c (served_from env p c') = same_window c c'" "leases_ok (served_from env p c') = leases_ok c'"
  "entry_ip (served_from env p c') i = entry_ip c' i" "per_lan_user_pool_len (served_from env p c') = per_lan_user_pool_len c'"
  "pl_dhcp_hdr (per_lan_user_pool (served_from env p c') i) = pl_dhcp_hdr (per_lan_user_pool c' i)"
  "lu_state (entry_user (served_from env p c') i) = lu_state (entry_user c' i)"
  by (simp_all add: served_from_def)

lemma dhcpd_served_eq:
  "dhcpd_served env c fr =
     (case pick_lan_user (fr_eth_src fr) c of
        None \<Rightarrow> Some (- 1, c, fr)
      | Some (p, c) \<Rightarrow>
          (case dhcp_decode p (served_from env p c) fr of
             (DecFail, cur, c, fr) \<Rightarrow> Some (- 1, release_lan_user cur c, fr)
           | (DecUnsupported, cur, c, fr) \<Rightarrow> Some (0, release_lan_user cur c, fr)
           | (DecEvent ev, cur, c, fr) \<Rightarrow>
               (case dhcp_fsm env cur ev c fr of
                  None \<Rightarrow> None
                | Some (ERROR, c, fr) \<Rightarrow> Some (- 1, release_lan_user cur c, fr)
                | Some (SUCCESS, c, fr) \<Rightarrow> Some (1, c, fr))))"
  by (simp only: dhcpd_served_def served_from_def)

lemma dhcpd_served_split:
  assumes "dhcpd_served env c fr = Some (r, c', fr')" and "leases_ok c" and "window_ok c"
  obtains (full) "r = - 1" "c' = c" "fr' = fr"
  | (decoded) p c0 c1 dr cur c2 fr2 where "pick_lan_user (fr_eth_src fr) c = Some (p, c0)"
      "c1 = upd_entry p (\<lambda>e. e\<lparr>pl_dhcp_hdr := HdrCurrent\<rparr>) (served_from env p c0)" "dhcp_decode p (served_from env p c0) fr = (dr, cur, c2, fr2)"
      "dec_inv c1 fr p cur c2 fr2" "dr = DecEvent DE_GOOD_REQUEST \<Longrightarrow> good_request c1 fr cur c2 fr2" "same_window c c1" "same_window c c2" "p < pool_len c"
      "cur < pool_len c2" "pl_pool_index (per_lan_user_pool c2 cur) = cur"
      "case dr of DecFail \<Rightarrow> r = - 1 \<and> c' = release_lan_user cur c2 \<and> fr' = fr2
         | DecUnsupported \<Rightarrow> r = 0 \<and> c' = release_lan_user cur c2 \<and> fr' = fr2
         | DecEvent ev \<Rightarrow> (\<exists>s c3. dhcp_fsm env cur ev c2 fr2 = Some (s, c3, fr') \<and> r = (if s = SUCCESS then 1 else - 1) \<and>
             c' = (if s = SUCCESS then c3 else release_lan_user cur c3))"
proof (cases "pick_lan_user (fr_eth_src fr) c")
  case None
  with assms(1) show thesis by (intro full) (auto simp: dhcpd_served_def)
next
  case (Some x)
  then obtain p c0 where p: "pick_lan_user (fr_eth_src fr) c = Some (p, c0)" by (cases x) simp
  note k = pick_lan_user_Some [OF p]
  obtain dr cur c2 fr2 where d: "dhcp_decode p (served_from env p c0) fr = (dr, cur, c2, fr2)" by (metis prod_cases4)
  let ?c1 = "upd_entry p (\<lambda>e. e\<lparr>pl_dhcp_hdr := HdrCurrent\<rparr>) (served_from env p c0)"
  have len: "per_lan_user_pool_len c0 = per_lan_user_pool_len c" using k(2) by (simp add: same_window_def)
  have di: "dec_inv ?c1 fr p cur c2 fr2" "dr = DecEvent DE_GOOD_REQUEST \<Longrightarrow> good_request ?c1 fr cur c2 fr2"
    using dhcp_decode_inv [OF _ _ d] k(1,3) assms(2) len by simp_all
  have w1: "same_window c ?c1" using k(2) by simp
  have w2: "same_window c c2" using same_window_trans [OF w1] di(1) by (simp add: dec_inv_def)
  have cur: "cur < pool_len c2" using di(1) w1 w2 by (simp add: dec_inv_def same_window_def)
  moreover have "pl_pool_index (per_lan_user_pool c2 cur) = cur" using window_ok_same [OF w2 assms(3)] cur by (simp add: window_ok_def)
  moreover have "case dr of DecFail \<Rightarrow> r = - 1 \<and> c' = release_lan_user cur c2 \<and> fr' = fr2
         | DecUnsupported \<Rightarrow> r = 0 \<and> c' = release_lan_user cur c2 \<and> fr' = fr2
         | DecEvent ev \<Rightarrow> (\<exists>s c3. dhcp_fsm env cur ev c2 fr2 = Some (s, c3, fr') \<and> r = (if s = SUCCESS then 1 else - 1) \<and>
             c' = (if s = SUCCESS then c3 else release_lan_user cur c3))"
  proof (cases dr)
    case (DecEvent ev)
    obtain s c3 fr3 where f: "dhcp_fsm env cur ev c2 fr2 = Some (s, c3, fr3)"
      using assms(1) DecEvent by (auto simp: dhcpd_served_eq p d split: option.splits)
    then show ?thesis using assms(1) DecEvent by (cases s) (simp_all add: dhcpd_served_eq p d)
  qed (use assms(1) in \<open>simp_all add: dhcpd_served_eq p d\<close>)
  ultimately show thesis by (intro decoded [OF p refl d di w1 w2 k(1)])
qed

lemma dhcpd_served_keeps:
  assumes "dhcpd_served env c fr = Some (r, c', fr')" and "leases_ok c" and "window_ok c"
  shows "same_window c c' \<and> leases_ok c'"
  using assms
proof (cases rule: dhcpd_served_split)
  case full
  then show ?thesis using assms(2) by simp
next
  case (decoded p c0 c1 dr cur c2 fr2)
  have l2: "leases_ok c2" using decoded(4) by (simp add: dec_inv_def)
  show ?thesis
  proof (cases dr)
    case (DecEvent ev)
    then obtain s c3 where f: "dhcp_fsm env cur ev c2 fr2 = Some (s, c3, fr')" "c' = (if s = SUCCESS then c3 else release_lan_user cur c3)"
      using decoded(11) by auto
    have "ip_used (entry_ip c2 cur)" if "ev = DE_GOOD_REQUEST" using decoded(5) DecEvent that by (simp add: good_request_def)
    from dhcp_fsm_keeps [OF f(1) l2 decoded(9,10) this] show ?thesis
      using f(2) same_window_trans [OF decoded(7)] by (auto simp: leases_ok_release)
  qed (use decoded l2 in \<open>auto simp: leases_ok_release\<close>)
qed

lemma same_window_count:
  "same_window (c\<lparr>active_count := active_count c + 1\<rparr>) c' \<Longrightarrow> same_window c (c'\<lparr>active_count := active_count c' - 1\<rparr>)"
  by (simp add: same_window_def)

lemma leases_ok_count [simp]: "leases_ok (c\<lparr>active_count := n\<rparr>) = leases_ok c" "window_ok (c\<lparr>active_count := n\<rparr>) = window_ok c"
  by (simp_all add: leases_ok_def window_ok_def)

lemma dhcpd_split:
  assumes "dhcpd env n c fr = Some (r, c', fr')"
  obtains (refused) "r = - 1" "fr' = fr" "c' = c"
  | (served) c2 where "dhcpd_served env (c\<lparr>active_count := active_count c + 1\<rparr>) fr = Some (r, c2, fr')" "c' = c2\<lparr>active_count := active_count c2 - 1\<rparr>"
  using assms by (auto simp: dhcpd_def Let_def split: if_splits)

lemma dhcpd_keeps:
  assumes "dhcpd env n c fr = Some (r, c', fr')" and "leases_ok c" and "window_ok c"
  shows "same_window c c' \<and> leases_ok c'"
  using assms(1)
proof (cases rule: dhcpd_split)
  case refused
  then show ?thesis using assms(2) by simp
next
  case (served c2)
  have "same_window (c\<lparr>active_count := active_count c + 1\<rparr>) c2 \<and> leases_ok c2"
    using assms(2,3) by (intro dhcpd_served_keeps [OF served(1)]) simp_all
  then show ?thesis using served(2) same_window_count by simp
qed

section \<open>Reachable states\<close>

text \<open>
  A block is configured with a range that passed validation, switched on and off, and handles packets and timers in any order. The
  DNS part of the block belongs to the DNS proxy and may change at any time.
\<close>

inductive dhcp_reachable :: "dhcp_ccb \<Rightarrow> bool" where
  init: "dhcp_reachable (dhcp_init_by_user zero_ccb)"
| configure: "dhcp_reachable c \<Longrightarrow> dhcp_validate_pool_range s a b m = SUCCESS \<Longrightarrow> dhcp_pool_init_by_user s a b m c = (SUCCESS, c') \<Longrightarrow> dhcp_reachable c'"
| switch: "dhcp_reachable c \<Longrightarrow> dhcp_reachable (c\<lparr>dhcp_bool := on\<rparr>)"
| dns: "dhcp_reachable c \<Longrightarrow> dhcp_reachable (c\<lparr>dns_state := d\<rparr>)"
| packet: "dhcp_reachable c \<Longrightarrow> ev_dp_dhcp env n fr c = Some (txs, c') \<Longrightarrow> dhcp_reachable c'"
| timer: "dhcp_reachable c \<Longrightarrow> i < pool_len c \<Longrightarrow> dhcp_timer_expires env i fr c = Some c' \<Longrightarrow> dhcp_reachable c'"
| disable: "dhcp_reachable c \<Longrightarrow> dhcp_reachable (disable_ccb c)"

definition range_ok :: "dhcp_ccb \<Rightarrow> bool" where
  "range_ok c \<longleftrightarrow> pool_start c \<le> pool_end c \<and> per_lan_user_pool_len c = pool_end c - pool_start c + 1 \<and> per_lan_user_pool_len c \<le> DHCP_MAX_POOL_SIZE_PER_USER"

definition dhcp_wf :: "dhcp_ccb \<Rightarrow> bool" where
  "dhcp_wf c \<longleftrightarrow> range_ok c \<and> window_ok c \<and> leases_ok c"

definition hdrs_dropped :: "dhcp_ccb \<Rightarrow> bool" where
  "hdrs_dropped c \<longleftrightarrow> (\<forall>i. pl_dhcp_hdr (per_lan_user_pool c i) \<noteq> HdrCurrent)"

lemma dhcp_wf_same: "dhcp_wf c \<Longrightarrow> same_window c c' \<Longrightarrow> leases_ok c' \<Longrightarrow> dhcp_wf c'"
  using window_ok_same [of c c'] by (auto simp: dhcp_wf_def range_ok_def same_window_def)

lemma dhcp_pool_init_wf:
  assumes "dhcp_pool_init_by_user s a b m c = (SUCCESS, c')" and "rte_be_to_cpu_32 a \<le> rte_be_to_cpu_32 b"
  shows "dhcp_wf c'" and "hdrs_dropped c \<Longrightarrow> hdrs_dropped c'"
proof -
  have "range_ok c'" using assms by (auto simp: dhcp_pool_init_by_user_def Let_def range_ok_def new_pool_len_def split: if_splits)
  moreover have e: "per_lan_user_pool c' i = reset_entry a (new_pool_len a b) i (if i < pool_len c then (per_lan_user_pool c i)\<lparr>pl_user := (entry_user c i)\<lparr>lu_timer := None\<rparr>\<rparr> else per_lan_user_pool c i)"
    if "i < pool_len c'" for i
    using assms(1) that by (auto simp: dhcp_pool_init_by_user_def Let_def max_def word_le_nat_alt split: if_splits)
  have l: "per_lan_user_pool_len c' = new_pool_len a b" "pool_start c' = rte_be_to_cpu_32 a"
    using assms(1) by (auto simp: dhcp_pool_init_by_user_def Let_def split: if_splits)
  moreover have "window_ok c'" by (simp add: window_ok_def e) (simp add: reset_entry_def l Let_def)
  moreover have "leases_ok c'" by (simp add: leases_ok_def lease_ok_def e) (simp add: reset_entry_def Let_def)
  ultimately show "dhcp_wf c'" by (simp add: dhcp_wf_def)
  show "hdrs_dropped c \<Longrightarrow> hdrs_dropped c'"
    using assms(1) by (auto simp: hdrs_dropped_def dhcp_pool_init_by_user_def Let_def reset_entry_def split: if_splits)
qed

lemma validate_ordered: "dhcp_validate_pool_range s a b m = SUCCESS \<Longrightarrow> rte_be_to_cpu_32 a \<le> rte_be_to_cpu_32 b"
  by (auto simp: dhcp_validate_pool_range_def split: if_splits)

lemma disable_ccb_keeps:
  assumes "leases_ok c"
  shows "same_window (c\<lparr>dhcp_bool := dhcp_bool (disable_ccb c)\<rparr>) (disable_ccb c) \<and> leases_ok (disable_ccb c) \<and> (hdrs_dropped c \<longrightarrow> hdrs_dropped (disable_ccb c))"
proof -
  have hd: "hdrs_dropped c2 \<Longrightarrow> hdrs_dropped (release_lan_user i c2)" for i c2 by (simp add: hdrs_dropped_def release_lan_user_def)
  have "same_window c2 (fold release_lan_user is c2) \<and> (leases_ok c2 \<longrightarrow> leases_ok (fold release_lan_user is c2)) \<and>
      (hdrs_dropped c2 \<longrightarrow> hdrs_dropped (fold release_lan_user is c2))" for "is" c2
  proof (induction "is" arbitrary: c2)
    case (Cons i "is")
    then show ?case using same_window_trans [of c2 "release_lan_user i c2"] hd by (auto simp: leases_ok_release)
  qed simp
  note k = this [of "if pool_len c = 0 then c else c\<lparr>dhcp_bool := False\<rparr>" "[0..<pool_len c]"]
  have b: "dhcp_bool (disable_ccb c) = dhcp_bool (if pool_len c = 0 then c else c\<lparr>dhcp_bool := False\<rparr>)"
    using k by (simp add: disable_ccb_def same_window_def)
  show ?thesis
  proof (cases "pool_len c = 0")
    case True
    then show ?thesis using assms by (simp add: disable_ccb_def)
  next
    case False
    have "leases_ok (c\<lparr>dhcp_bool := False\<rparr>)" "hdrs_dropped (c\<lparr>dhcp_bool := False\<rparr>) = hdrs_dropped c"
      using assms by (simp_all add: leases_ok_def hdrs_dropped_def)
    then show ?thesis using k b False by (simp add: disable_ccb_def)
  qed
qed

lemma dhcp_timer_keeps:
  assumes "dhcp_timer_expires env i fr c = Some c'" and "i < pool_len c" and "leases_ok c" and "window_ok c"
  shows "same_window c c' \<and> leases_ok c'"
proof -
  have r: "same_window c (release_lan_user i c) \<and> leases_ok (release_lan_user i c)" using assms(3) by (simp add: leases_ok_release)
  have t: "same_window c c' \<and> leases_ok c'" if "map_option (\<lambda>(_, c, _). c) (dhcp_fsm env i DE_TIMEOUT (timer_stop i c) fr) = Some c'"
  proof -
    from that obtain s fr2 where f: "dhcp_fsm env i DE_TIMEOUT (timer_stop i c) fr = Some (s, c', fr2)" by auto
    have "same_window (timer_stop i c) c' \<and> leases_ok c'"
      using assms(2-4) by (intro dhcp_fsm_keeps [OF f]) (simp_all add: window_ok_def)
    then show ?thesis using same_window_trans [of c "timer_stop i c" c'] by simp
  qed
  show ?thesis using assms(1,3) r t by (auto simp: dhcp_timer_expires_def split: option.splits lan_timer_cb.splits)
qed

lemma window_address:
  assumes "s \<le> (e :: u32)" and "n = e - s + 1" and "i < unat n"
  shows "s + of_nat i \<in> {s..e}"
proof -
  have "i \<le> unat (e - s)"
  proof (cases "e - s = - 1")
    case True
    then show ?thesis using assms(2,3) by simp
  next
    case False
    then have "1 + (e - s) \<noteq> 0" by (metis add.commute eq_neg_iff_add_eq_0)
    then have "unat (e - s + 1) = Suc (unat (e - s))" by (metis unatSuc add.commute)
    then show ?thesis using assms(2,3) by simp
  qed
  then have le: "i \<le> unat e - unat s" using assms(1) by (simp add: unat_sub)
  have e: "unat e < 2 ^ 32" using unsigned_less [of e, where ?'a = nat] by simp
  have i: "unat s + i \<le> unat e" "unat (of_nat i :: u32) = i"
    using le e assms(1) by (auto simp: unat_of_nat word_le_nat_alt take_bit_nat_eq_self)
  have "unat (s + of_nat i) = unat s + i" using i e by (subst unat_add_lem [THEN iffD1]) auto
  then show ?thesis using i(1) by (simp add: word_le_nat_alt)
qed

lemma dhcp_ip_is_reserved_iff: "dhcp_ip_is_reserved a \<longleftrightarrow> a AND 0xFF \<in> {0, 0xFF}"
proof -
  have m: "a AND 0xFF = take_bit 8 a" by (simp add: take_bit_eq_mask mask_eq_exp_minus_1)
  have u: "unat (ucast (take_bit 8 a) :: u8) = unat (take_bit 8 a)" by (simp add: unsigned_ucast_eq unsigned_take_bit_eq)
  show ?thesis by (simp add: dhcp_ip_is_reserved_def Let_def m word_unat_eq_iff u)
qed

lemma hdrs_dropped_simps [simp]:
  "hdrs_dropped (drop_mbuf c)" "hdrs_dropped (timer_stop i c) = hdrs_dropped c" "hdrs_dropped (release_lan_user i c) = hdrs_dropped c"
  "hdrs_dropped (upd_user i g c) = hdrs_dropped c" "hdrs_dropped (c\<lparr>dhcp_bool := on\<rparr>) = hdrs_dropped c" "hdrs_dropped (c\<lparr>dns_state := d\<rparr>) = hdrs_dropped c"
  by (auto simp: hdrs_dropped_def drop_mbuf_def release_lan_user_def)

lemma dhcp_timer_hdrs: "dhcp_timer_expires env i fr c = Some c' \<Longrightarrow> hdrs_dropped c \<Longrightarrow> hdrs_dropped c'"
  by (auto simp: dhcp_timer_expires_def split: option.splits lan_timer_cb.splits elim!: dhcp_fsm_cases)

lemma dhcp_wf_switch [simp]: "dhcp_wf (c\<lparr>dhcp_bool := on\<rparr>) = dhcp_wf c" "dhcp_wf (c\<lparr>dns_state := d\<rparr>) = dhcp_wf c"
  by (simp_all add: dhcp_wf_def range_ok_def window_ok_def leases_ok_def)

lemma dhcp_init_by_user_pool: "\<exists>c. dhcp_pool_init_by_user 0 0 0 0 c = (SUCCESS, dhcp_init_by_user zero_ccb) \<and> hdrs_dropped c"
proof -
  let ?c = "zero_ccb\<lparr>dhcp_bool := False, active_count := 0, dns_state := (dns_state zero_ccb)\<lparr>dp_dns_proxy_enabled := True, dp_static_table := dns_static_init\<rparr>\<rparr>"
  have "fst (dhcp_pool_init_by_user 0 0 0 0 ?c) = SUCCESS" by (simp add: dhcp_pool_init_by_user_def Let_def new_pool_len_def)
  then have "dhcp_pool_init_by_user 0 0 0 0 ?c = (SUCCESS, dhcp_init_by_user zero_ccb)" by (simp add: dhcp_init_by_user_def prod_eq_iff)
  moreover have "hdrs_dropped ?c" by (simp add: hdrs_dropped_def zero_ccb_def fresh_entry_def)
  ultimately show ?thesis by blast
qed

lemma dhcp_reachable_wf: "dhcp_reachable c \<Longrightarrow> dhcp_wf c \<and> hdrs_dropped c"
proof (induction rule: dhcp_reachable.induct)
  case init
  obtain c where c: "dhcp_pool_init_by_user 0 0 0 0 c = (SUCCESS, dhcp_init_by_user zero_ccb)" "hdrs_dropped c" using dhcp_init_by_user_pool by blast
  from dhcp_pool_init_wf [OF c(1)] c(2) show ?case by simp
next
  case (configure c s a b m c')
  then show ?case using dhcp_pool_init_wf [OF configure.hyps(3) validate_ordered [OF configure.hyps(2)]] by simp
next
  case (packet c env n fr txs c')
  obtain r c2 fr2 where d: "dhcpd env n c fr = Some (r, c2, fr2)" "c' = drop_mbuf c2" using packet.hyps(2) by (auto simp: ev_dp_dhcp_def split: option.splits)
  then have "same_window c c2 \<and> leases_ok c2" using packet.IH by (intro dhcpd_keeps [OF d(1)]) (simp_all add: dhcp_wf_def)
  then show ?case using packet.IH d(2) dhcp_wf_same [of c c'] by simp
next
  case (timer c i env fr c')
  then have "same_window c c' \<and> leases_ok c'" by (intro dhcp_timer_keeps [OF timer.hyps(3,2)]) (simp_all add: dhcp_wf_def)
  then show ?case using timer.IH dhcp_wf_same [of c c'] dhcp_timer_hdrs [OF timer.hyps(3)] by simp
next
  case (disable c)
  then have k: "same_window (c\<lparr>dhcp_bool := dhcp_bool (disable_ccb c)\<rparr>) (disable_ccb c)" "leases_ok (disable_ccb c)" "hdrs_dropped (disable_ccb c)"
    using disable_ccb_keeps [of c] by (simp_all add: dhcp_wf_def)
  have "dhcp_wf (c\<lparr>dhcp_bool := dhcp_bool (disable_ccb c)\<rparr>)" using disable.IH by simp
  from dhcp_wf_same [OF this k(1,2)] k(3) show ?case by simp
qed simp_all

text \<open>
  C38: The pool is well formed in every state a control block can reach, whatever packets and timeouts it has seen. The window is the range that was
  configured and fits the preallocated array; entry \<open>i\<close> carries index \<open>i\<close> and the \<open>i\<close>-th address, and is marked reserved exactly when that is a network or
  broadcast address; each conversation is in a state of the table; no reserved address is leased; and who was sent an
  acknowledgement holds a lease.
\<close>

theorem dhcp_pool_well_formed:
  assumes "dhcp_reachable c" and "i < pool_len c"
  shows "unat (per_lan_user_pool_len c) \<le> 131072 \<and> pool_start c + of_nat i \<in> {pool_start c..pool_end c} \<and>
    pl_pool_index (per_lan_user_pool c i) = i \<and> ip_addr (entry_ip c i) = rte_cpu_to_be_32 (pool_start c + of_nat i) \<and>
    (ip_reserved (entry_ip c i) \<longleftrightarrow> (pool_start c + of_nat i) AND 0xFF \<in> {0, 0xFF}) \<and>
    lu_state (entry_user c i) \<in> {S_DHCP_INIT, S_DHCP_OFFER_SENT, S_DHCP_ACK_SENT} \<and>
    (ip_used (entry_ip c i) \<longrightarrow> \<not> ip_reserved (entry_ip c i)) \<and> (lu_state (entry_user c i) = S_DHCP_ACK_SENT \<longrightarrow> ip_used (entry_ip c i))"
proof -
  have wf: "dhcp_wf c" using dhcp_reachable_wf [OF assms(1)] by simp
  then have r: "pool_start c \<le> pool_end c" "per_lan_user_pool_len c = pool_end c - pool_start c + 1" "per_lan_user_pool_len c \<le> 131072"
    unfolding dhcp_wf_def range_ok_def by blast+
  have "unat (per_lan_user_pool_len c) \<le> 131072" using r(3) by (simp add: word_le_nat_alt)
  moreover have "pool_start c + of_nat i \<in> {pool_start c..pool_end c}" by (rule window_address [OF r(1) r(2) assms(2)])
  moreover have "dhcp_ip_is_reserved a \<longleftrightarrow> a AND 0xFF \<in> {0, 0xFF}" for a by (rule dhcp_ip_is_reserved_iff)
  moreover have "window_ok c" "lease_ok (per_lan_user_pool c i)" using wf leases_okD [OF _ assms(2)] by (simp_all add: dhcp_wf_def)
  ultimately show ?thesis using assms(2) by (simp add: window_ok_def lease_ok_def)
qed

section \<open>Replies\<close>

lemma take_options_reply: "take 3 (fr_options (reply_frame c dst (dhcp_option DHCP_MSG_TYPE [m] @ os) fr)) = [DHCP_MSG_TYPE, 1, m]"
  by (simp add: reply_frame_def dhcp_option_def Let_def)

lemma broadcast_simps [simp]:
  "fr_options (broadcast_if_asked fr) = fr_options fr" "fr_hdr (broadcast_if_asked fr) = fr_hdr fr"
  "fr_options (dhcp_reply_dst_broadcast fr) = fr_options fr" "fr_hdr (dhcp_reply_dst_broadcast fr) = fr_hdr fr"
  by (simp_all add: broadcast_if_asked_def dhcp_reply_dst_broadcast_def)

lemma swap_eth_simps [simp]: "fr_hdr (swap_eth env fr) = fr_hdr fr" "fr_eth_dst (swap_eth env fr) = fr_eth_src fr"
  by (simp_all add: swap_eth_def)

lemma build_dhcp_offer_reply:
  assumes "build_dhcp_offer env i c fr = Some (SUCCESS, c2, g)" and "pick_ip_from_pool i (fr_eth_src fr) c = Some (ip, c2)"
  shows "take 3 (fr_options g) = [DHCP_MSG_TYPE, 1, DHCP_OFFER] \<and> bp_ur_client_ip (fr_hdr g) = ip"
  using assms by (auto simp: build_dhcp_offer_def Let_def lease_options_def take_options_reply split: if_splits)

lemma build_dhcp_ack_reply:
  assumes "build_dhcp_ack env i c fr = Some (SUCCESS, c2, g)"
  shows "take 3 (fr_options g) = [DHCP_MSG_TYPE, 1, DHCP_ACK] \<and> bp_ur_client_ip (fr_hdr g) = bp_ur_client_ip (fr_hdr fr)"
  using assms by (auto simp: build_dhcp_ack_def lease_options_def take_options_reply split: if_splits) (simp add: reply_frame_def Let_def)

lemma build_zero_reply:
  "build_dhcp_nak env i c fr = Some (SUCCESS, c2, g) \<Longrightarrow> take 3 (fr_options g) = [DHCP_MSG_TYPE, 1, DHCP_NAK] \<and> bp_ur_client_ip (fr_hdr g) = 0"
  "build_dhcp_ack_inform env i c fr = Some (SUCCESS, c2, g) \<Longrightarrow> take 3 (fr_options g) = [DHCP_MSG_TYPE, 1, DHCP_ACK] \<and> bp_ur_client_ip (fr_hdr g) = 0"
  by (auto simp: build_dhcp_nak_def build_dhcp_ack_inform_def nak_options_def lease_options_def Let_def take_options_reply split: if_splits)

text \<open>What \<open>g\<close>, sent to the LAN on the request \<open>fr\<close>, tells the client, in terms of the block \<open>c\<close> before the request.\<close>

definition offers_free_address :: "dhcp_ccb \<Rightarrow> dhcp_frame \<Rightarrow> dhcp_frame \<Rightarrow> bool" where
  "offers_free_address c fr g \<longleftrightarrow> take 3 (fr_options g) = [DHCP_MSG_TYPE, 1, DHCP_OFFER] \<and>
     list_ex (\<lambda>i. bp_ur_client_ip (fr_hdr g) = ip_addr (entry_ip c i) \<and> \<not> ip_reserved (entry_ip c i) \<and>
       (\<not> ip_used (entry_ip c i) \<or> ip_mac_addr (entry_ip c i) = fr_eth_src fr)) [0..<pool_len c]"

definition acks_address :: "dhcp_ccb \<Rightarrow> dhcp_frame \<Rightarrow> dhcp_frame \<Rightarrow> bool" where
  "acks_address c fr g \<longleftrightarrow> take 3 (fr_options g) = [DHCP_MSG_TYPE, 1, DHCP_ACK] \<and>
     (request_ip_ok c (bp_ur_client_ip (fr_hdr g)) \<or>
      bp_ur_client_ip (fr_hdr g) = bp_ur_client_ip (fr_hdr fr) \<and> bp_client_ip (fr_hdr fr) = 0 \<and> \<not> names_address fr)"

definition assigns_nothing :: "dhcp_frame \<Rightarrow> bool" where
  "assigns_nothing g \<longleftrightarrow> take 3 (fr_options g) \<in> {[DHCP_MSG_TYPE, 1, DHCP_NAK], [DHCP_MSG_TYPE, 1, DHCP_ACK]} \<and> bp_ur_client_ip (fr_hdr g) = 0"

lemma fsm_reply:
  assumes f: "dhcp_fsm env cur ev c2 fr2 = Some (SUCCESS, c3, g)" and d: "dec_inv c1 fr p cur c2 fr2"
    and good: "ev = DE_GOOD_REQUEST \<Longrightarrow> good_request c1 fr cur c2 fr2" and idx: "pl_pool_index (per_lan_user_pool c2 cur) = cur"
    and w: "same_window c c1" and ip: "\<And>i. entry_ip c1 i = entry_ip c i"
  shows "offers_free_address c fr g \<or> acks_address c fr g \<or> assigns_nothing g \<or> same_request fr g"
proof -
  have same: "same_request fr fr2" and cur: "cur < pool_len c2" and len: "pool_len c2 = pool_len c" and w2: "same_window c c2"
    using d w same_window_trans [of c c1 c2] by (auto simp: dec_inv_def same_window_def)
  from f show ?thesis
  proof (cases rule: dhcp_fsm_cases)
    case (offer a c4)
    let ?c = "upd_user cur (\<lambda>u. u\<lparr>lu_state := S_DHCP_OFFER_SENT\<rparr>) c2"
    have "pl_pool_index (per_lan_user_pool ?c cur) < pool_len ?c" using idx cur by simp
    from offer(4) this obtain i where i: "i < pool_len ?c" "\<not> ip_reserved (entry_ip ?c i)" "a = ip_addr (entry_ip ?c i)"
      "fr_eth_src fr2 = ip_mac_addr (entry_ip ?c i) \<or> \<not> ip_used (entry_ip ?c i)" by (rule pick_ip_Some)
    have "entry_ip ?c i = entry_ip c2 i" by simp
    moreover have "ip_used (entry_ip c i) \<Longrightarrow> entry_ip c2 i = entry_ip c i" using d ip by (simp add: dec_inv_def)
    moreover have "ip_addr (entry_ip c2 i) = ip_addr (entry_ip c i)" "ip_reserved (entry_ip c2 i) = ip_reserved (entry_ip c i)" using w2 by (simp_all add: same_window_def)
    moreover have "fr_eth_src fr2 = fr_eth_src fr" using same_requestD [OF same] by simp
    ultimately have "i < pool_len c \<and> a = ip_addr (entry_ip c i) \<and> \<not> ip_reserved (entry_ip c i) \<and> (\<not> ip_used (entry_ip c i) \<or> ip_mac_addr (entry_ip c i) = fr_eth_src fr)"
      using i len by (auto simp del: upd_user_ip_simps(1))
    then show ?thesis using build_dhcp_offer_reply [OF offer(6,4)] by (auto simp: offers_free_address_def list_ex_iff)
  next
    case ack
    then show ?thesis using build_dhcp_ack_reply [OF ack(5)] good [OF ack(1)] same_window_request_ip_ok [OF w]
      by (auto simp: good_request_def acks_address_def)
  next
    case nak
    then show ?thesis using build_zero_reply(1) [OF nak(4)] by (simp add: assigns_nothing_def)
  next
    case inform
    then show ?thesis using build_zero_reply(2) [OF inform(5)] by (simp add: assigns_nothing_def)
  qed (use same in simp_all)
qed

lemma dhcpd_served_reply:
  assumes "dhcpd_served env c fr = Some (1, c', g)" and "leases_ok c" and "window_ok c"
  shows "offers_free_address c fr g \<or> acks_address c fr g \<or> assigns_nothing g \<or> same_request fr g"
  using assms
proof (cases rule: dhcpd_served_split)
  case (decoded p c0 c1 dr cur c2 fr2)
  obtain ev c3 where ev: "dr = DecEvent ev" and f: "dhcp_fsm env cur ev c2 fr2 = Some (SUCCESS, c3, g)"
    using decoded(11) by (auto split: decode_result.splits if_splits)
  have "entry_ip c1 i = entry_ip c i" for i using pick_lan_user_Some(4) [OF decoded(1)] by (simp add: decoded(2))
  from fsm_reply [OF f decoded(4) _ decoded(10,6) this] decoded(5) ev show ?thesis by simp
qed simp

lemma dhcpd_result: "dhcpd env n c fr = Some (r, c', g) \<Longrightarrow> r \<in> {- 1, 0, 1}"
  by (auto simp: dhcpd_def dhcpd_served_def Let_def split: if_splits option.splits prod.splits decode_result.splits status.splits)

lemma reply_count [simp]:
  "offers_free_address (c\<lparr>active_count := n\<rparr>) = offers_free_address c" "acks_address (c\<lparr>active_count := n\<rparr>) = acks_address c"
  by (simp_all add: fun_eq_iff offers_free_address_def acks_address_def request_ip_ok_def)

text \<open>
  C39: The addresses replies carry. Whatever a request holds, a frame sent to the LAN for it is one of four things. An offer, of an address in the
  window that is neither a network nor a broadcast address and is free or already the client's. An acknowledgement, of an
  address inside the subnet and the window and again not reserved, unless the request named no address at
  all, neither as its own nor in an option: then the value the client put into the reply field is echoed unchecked. A refusal or the answer
  to an INFORM, which assigns no address. Or the request itself, for a RELEASE or DECLINE, which the server sends back.
\<close>

theorem dhcp_reply_addresses:
  assumes "dhcp_reachable c" and "ev_dp_dhcp env n fr c = Some (txs, c')" and "DhcpLan g \<in> set txs"
  shows "offers_free_address c fr g \<or> acks_address c fr g \<or> assigns_nothing g \<or> same_request fr g"
proof -
  have wf: "leases_ok c" "window_ok c" using dhcp_reachable_wf [OF assms(1)] by (simp_all add: dhcp_wf_def)
  have d: "\<exists>c2. dhcpd env n c fr = Some (1, c2, g)"
  proof -
    obtain r c2 g2 where r: "dhcpd env n c fr = Some (r, c2, g2)" using assms(2) by (auto simp: ev_dp_dhcp_def split: option.splits)
    then have "0 < r" "g2 = g" using assms(2,3) by (auto simp: ev_dp_dhcp_def split: if_splits)
    moreover have "r \<in> {- 1, 0, 1}" by (rule dhcpd_result [OF r])
    ultimately show ?thesis using r by auto
  qed
  then obtain c2 where "dhcpd env n c fr = Some (1, c2, g)" by blast
  then obtain c3 where "dhcpd_served env (c\<lparr>active_count := active_count c + 1\<rparr>) fr = Some (1, c3, g)" by (cases rule: dhcpd_split) auto
  from dhcpd_served_reply [OF this] wf show ?thesis by simp
qed

end
