(* ===== verification/Dhcp4_Run.thy ===== *)
theory Dhcp4_Run
  imports Dhcp4_Props
begin

text \<open>
  Runs of the DHCPv4 server: the exchange that gives a new client its lease and its end, and two runs that go wrong. The first lets a client
  whose entry has a reserved address make the server follow a stale pointer; the second makes it acknowledge one address to two clients.
\<close>

section \<open>Packets with one message type\<close>

text \<open>A packet of type \<open>m\<close>: long enough, with the cookie, and among its well-formed options one message type and no vendor class.\<close>

definition carries :: "u8 \<Rightarrow> dhcp_frame \<Rightarrow> bool" where
  "carries m fr \<longleftrightarrow> 248 \<le> unat (rte_be_to_cpu_16 (fr_dgram_len fr)) \<and> rte_be_to_cpu_32 (bp_magic_cookie (fr_hdr fr)) = DHCP_MAGIC_COOKIE \<and>
     (case dhcp_opts (fr_options fr) (field_len fr) 0 of (os, malformed) \<Rightarrow> \<not> malformed \<and>
        map (\<lambda>(t, l, v). (t, fr_options fr ! v)) (filter (\<lambda>(t, _). t = DHCP_MSG_TYPE \<or> t = DHCP_ISP_ID) os) = [(DHCP_MSG_TYPE, m)])"

lemma decode_options_none:
  "filter (\<lambda>(t, _). t = DHCP_MSG_TYPE \<or> t = DHCP_ISP_ID) os = [] \<Longrightarrow>
     decode_options os False p event cur c fr = (case event of None \<Rightarrow> DecFail | Some e \<Rightarrow> DecEvent e, cur, c, fr)"
  by (induction os) (auto split: if_splits)

lemma decode_options_one:
  assumes "filter (\<lambda>(t, _). t = DHCP_MSG_TYPE \<or> t = DHCP_ISP_ID) os = [(DHCP_MSG_TYPE, l, v)]"
    and "decode_msg_type (fr_options fr ! v) p event cur c fr = (e2, cur2, c2, fr2)"
  shows "decode_options os False p event cur c fr = (case e2 of None \<Rightarrow> DecFail | Some e \<Rightarrow> DecEvent e, cur2, c2, fr2)"
  using assms
proof (induction os)
  case (Cons x os)
  obtain t l2 v2 where x: "x = (t, l2, v2)" by (cases x) auto
  show ?case
  proof (cases "t = DHCP_MSG_TYPE \<or> t = DHCP_ISP_ID")
    case True
    then have "t = DHCP_MSG_TYPE" "l2 = l" "v2 = v" "filter (\<lambda>(t, _). t = DHCP_MSG_TYPE \<or> t = DHCP_ISP_ID) os = []" using Cons.prems(1) by (auto simp: x)
    then show ?thesis using Cons.prems(2) by (simp add: x decode_options_none)
  next
    case False
    then show ?thesis using Cons by (simp add: x)
  qed
qed simp

lemma dhcp_decode_carries:
  assumes "carries m fr" and "decode_msg_type m p None p (upd_entry p (\<lambda>e. e\<lparr>pl_dhcp_hdr := HdrCurrent\<rparr>) c) fr = (e2, cur2, c2, fr2)"
  shows "dhcp_decode p c fr = (case e2 of None \<Rightarrow> DecFail | Some e \<Rightarrow> DecEvent e, cur2, c2, fr2)"
proof -
  obtain os where os: "dhcp_opts (fr_options fr) (field_len fr) 0 = (os, False)" using assms(1) by (auto simp: carries_def split: prod.splits)
  obtain l v where "filter (\<lambda>(t, _). t = DHCP_MSG_TYPE \<or> t = DHCP_ISP_ID) os = [(DHCP_MSG_TYPE, l, v)]" "fr_options fr ! v = m"
    using assms(1) by (auto simp: carries_def os map_eq_Cons_conv)
  from decode_options_one [OF this(1)] this(2) assms(2) have "decode_options os False p None p (upd_entry p (\<lambda>e. e\<lparr>pl_dhcp_hdr := HdrCurrent\<rparr>) c) fr
      = (case e2 of None \<Rightarrow> DecFail | Some e \<Rightarrow> DecEvent e, cur2, c2, fr2)" by blast
  then show ?thesis using assms(1) by (simp add: dhcp_decode_def Let_def os carries_def)
qed

text \<open>The block on which the message type is decoded, for a client whose conversation is at \<open>p\<close>.\<close>

definition decoded_from :: "dhcp_env \<Rightarrow> mac \<Rightarrow> nat \<Rightarrow> dhcp_ccb \<Rightarrow> dhcp_ccb" where
  "decoded_from env src p c = upd_entry p (\<lambda>e. e\<lparr>pl_dhcp_hdr := HdrCurrent\<rparr>)
     (served_from env p (snd (the (pick_lan_user src (c\<lparr>active_count := active_count c + 1\<rparr>)))))"

lemma pick_lan_user_count:
  "pick_lan_user src c = Some (p, c0) \<Longrightarrow> pick_lan_user src (c\<lparr>active_count := n\<rparr>) = Some (p, c0\<lparr>active_count := n\<rparr>)"
proof -
  let ?P = "\<lambda>i. src = lu_mac_addr (entry_user c i) \<or> \<not> lan_user_used (entry_user c i)"
  assume a: "pick_lan_user src c = Some (p, c0)"
  then have f: "find ?P [0..<pool_len c] = Some p" by (auto simp: pick_lan_user_def split: option.splits if_splits)
  with a show ?thesis by (cases "src = lu_mac_addr (entry_user c p)") (auto simp: pick_lan_user_def upd_user_def upd_entry_def)
qed

lemma ev_dp_dhcp_carries:
  assumes "dhcp_bool c" "38 + unat (rte_be_to_cpu_16 (fr_dgram_len fr)) \<le> n" "carries m fr" "pick_lan_user (fr_eth_src fr) c = Some (p, c0)"
    and "decode_msg_type m p None p (decoded_from env (fr_eth_src fr) p c) fr = (Some ev, cur, c2, fr2)"
  shows "ev_dp_dhcp env n fr c =
    (case dhcp_fsm env cur ev c2 fr2 of
       None \<Rightarrow> None
     | Some (SUCCESS, c3, g) \<Rightarrow> Some ([DhcpLan g], drop_mbuf (c3\<lparr>active_count := active_count c3 - 1\<rparr>))
     | Some (ERROR, c3, g) \<Rightarrow> Some ([], drop_mbuf ((release_lan_user cur c3)\<lparr>active_count := active_count (release_lan_user cur c3) - 1\<rparr>)))"
proof -
  let ?c = "c\<lparr>active_count := active_count c + 1\<rparr>"
  have p: "pick_lan_user (fr_eth_src fr) ?c = Some (p, c0\<lparr>active_count := active_count c + 1\<rparr>)" by (rule pick_lan_user_count [OF assms(4)])
  have "dhcp_decode p (served_from env p (c0\<lparr>active_count := active_count c + 1\<rparr>)) fr = (DecEvent ev, cur, c2, fr2)"
    using dhcp_decode_carries [OF assms(3), of p "served_from env p (c0\<lparr>active_count := active_count c + 1\<rparr>)"] assms(5) by (simp add: decoded_from_def p)
  then have "dhcpd_served env ?c fr = (case dhcp_fsm env cur ev c2 fr2 of None \<Rightarrow> None
      | Some (ERROR, c, fr) \<Rightarrow> Some (- 1, release_lan_user cur c, fr) | Some (SUCCESS, c, fr) \<Rightarrow> Some (1, c, fr))"
    by (simp add: dhcpd_served_eq p)
  then show ?thesis using assms(1,2) by (auto simp: ev_dp_dhcp_def dhcpd_def Let_def split: option.splits status.splits)
qed

lemma decoded_from_simps:
  assumes "pick_lan_user src c = Some (p, c0)"
  shows "same_window (c\<lparr>active_count := active_count c + 1\<rparr>) (decoded_from env src p c)" "entry_ip (decoded_from env src p c) i = entry_ip c i"
    "lu_state (entry_user (decoded_from env src p c) i) = lu_state (entry_user c i)" "leases_ok c \<Longrightarrow> leases_ok (decoded_from env src p c)"
    "pl_dhcp_hdr (per_lan_user_pool (decoded_from env src p c) i) = (if i = p then HdrCurrent else pl_dhcp_hdr (per_lan_user_pool c i))"
    "lu_mac_addr (entry_user (decoded_from env src p c) p) = src"
    "i \<noteq> p \<Longrightarrow> entry_user (decoded_from env src p c) i = entry_user c i"
    "lu_mac_addr (entry_user c p) \<noteq> src \<Longrightarrow> lan_user_used (entry_user (decoded_from env src p c) p)"
proof -
  let ?c = "c\<lparr>active_count := active_count c + 1\<rparr>"
  have p: "pick_lan_user src ?c = Some (p, c0\<lparr>active_count := active_count c + 1\<rparr>)" by (rule pick_lan_user_count [OF assms])
  note k = pick_lan_user_Some [OF p]
  have f: "c0\<lparr>active_count := active_count c + 1\<rparr> = (if src = lu_mac_addr (entry_user c p) then ?c else upd_user p (\<lambda>u. u\<lparr>lu_mac_addr := src, lan_user_used := True\<rparr>) ?c)"
    using p by (auto simp: pick_lan_user_def split: option.splits if_splits)
  show "same_window ?c (decoded_from env src p c)" "entry_ip (decoded_from env src p c) i = entry_ip c i"
    "lu_state (entry_user (decoded_from env src p c) i) = lu_state (entry_user c i)" "leases_ok c \<Longrightarrow> leases_ok (decoded_from env src p c)"
    "pl_dhcp_hdr (per_lan_user_pool (decoded_from env src p c) i) = (if i = p then HdrCurrent else pl_dhcp_hdr (per_lan_user_pool c i))"
    using k by (simp_all add: decoded_from_def p leases_ok_hdr)
  show "lu_mac_addr (entry_user (decoded_from env src p c) p) = src" "i \<noteq> p \<Longrightarrow> entry_user (decoded_from env src p c) i = entry_user c i"
    "lu_mac_addr (entry_user c p) \<noteq> src \<Longrightarrow> lan_user_used (entry_user (decoded_from env src p c) p)"
    by (auto simp: decoded_from_def p f served_from_def timer_reset_def timer_stop_def)
qed

section \<open>Discover and request\<close>

lemma pick_lan_user_again:
  assumes "pick_lan_user src c = Some (p, c0)" and "\<And>i. i \<noteq> p \<Longrightarrow> entry_user c1 i = entry_user c i" and "pool_len c1 = pool_len c"
    and "lu_mac_addr (entry_user c1 p) = src"
  shows "pick_lan_user src c1 = Some (p, c1)"
proof -
  let ?P = "\<lambda>c i. src = lu_mac_addr (entry_user c i) \<or> \<not> lan_user_used (entry_user c i)"
  have f: "find (?P c) [0..<pool_len c] = Some p" using assms(1) by (auto simp: pick_lan_user_def split: option.splits if_splits)
  then have "p < pool_len c" "\<forall>j < p. \<not> ?P c j" by (auto simp: find_Some_iff)
  then have "find (?P c1) [0..<pool_len c1] = Some p"
    using assms(2-4) unfolding find_Some_iff by (intro exI [of _ p]) auto
  then show ?thesis using assms(4) by (simp add: pick_lan_user_def)
qed

lemma dhcp_search_values:
  assumes "s \<in> {S_DHCP_INIT, S_DHCP_OFFER_SENT, S_DHCP_ACK_SENT}"
  shows "dhcp_search s DE_DISCOVER = Some (S_DHCP_OFFER_SENT, [A_send_dhcp_offer, A_wait_request_timer])"
    "dhcp_search s DE_GOOD_REQUEST = Some (S_DHCP_ACK_SENT, [A_send_dhcp_ack, A_wait_lease_timer])"
  using assms by (auto simp: dhcp_search_def dhcp_fsm_tbl_def)

lemma pick_own:
  assumes "pl_pool_index (per_lan_user_pool c p) = p" "p < pool_len c" "\<not> ip_reserved (entry_ip c p)" "\<not> ip_used (entry_ip c p) \<or> ip_mac_addr (entry_ip c p) = mac"
  shows "pick_ip_from_pool p mac c = Some (ip_addr (entry_ip c p), if mac = ip_mac_addr (entry_ip c p) then c else upd_ip p (\<lambda>e. e\<lparr>ip_mac_addr := mac\<rparr>) c)"
proof -
  have "[p..<pool_len c] = p # [Suc p..<pool_len c]" using assms(2) by (simp add: upt_conv_Cons)
  then show ?thesis using assms by (auto simp: pick_ip_from_pool_def Let_def)
qed

lemma wait_timer_user [simp]:
  "lu_mac_addr (entry_user (wait_request_timer env i c) j) = lu_mac_addr (entry_user c j)" "lu_state (entry_user (wait_request_timer env i c) j) = lu_state (entry_user c j)"
  "j \<noteq> i \<Longrightarrow> entry_user (wait_request_timer env i c) j = entry_user c j"
  "lu_mac_addr (entry_user (wait_lease_timer env i c) j) = lu_mac_addr (entry_user c j)" "lu_state (entry_user (wait_lease_timer env i c) j) = lu_state (entry_user c j)"
  "\<exists>ticks. lu_timer (entry_user (wait_lease_timer env i c) i) = Some (CB_lease_timer, ticks)"
  by (simp_all add: wait_request_timer_def wait_lease_timer_def timer_reset_def timer_stop_def Let_def)

lemma drop_mbuf_simps [simp]:
  "entry_user (drop_mbuf c) i = entry_user c i" "entry_ip (drop_mbuf c) i = entry_ip c i" "per_lan_user_pool_len (drop_mbuf c) = per_lan_user_pool_len c"
  by (simp_all add: drop_mbuf_def)

text \<open>The entry at \<open>p\<close> may go to a client with address \<open>mac\<close>.\<close>

definition open_to :: "dhcp_ccb \<Rightarrow> nat \<Rightarrow> mac \<Rightarrow> bool" where
  "open_to c p mac \<longleftrightarrow> \<not> ip_reserved (entry_ip c p) \<and> (\<not> ip_used (entry_ip c p) \<or> ip_mac_addr (entry_ip c p) = mac)"

lemma discover_offered:
  assumes wf: "dhcp_wf c" and on: "dhcp_bool c" "38 + unat (rte_be_to_cpu_16 (fr_dgram_len d)) \<le> n" and d: "carries DHCP_DISCOVER d"
    and p: "pick_lan_user (fr_eth_src d) c = Some (p, c0)" and free: "open_to c p (fr_eth_src d)"
  obtains g c1 where "ev_dp_dhcp env n d c = Some ([DhcpLan g], c1)" "take 3 (fr_options g) = [DHCP_MSG_TYPE, 1, DHCP_OFFER]"
    "bp_ur_client_ip (fr_hdr g) = ip_addr (entry_ip c p)" "same_window c c1" "leases_ok c1" "open_to c1 p (fr_eth_src d)"
    "\<forall>i. i \<noteq> p \<longrightarrow> entry_user c1 i = entry_user c i" "lu_mac_addr (entry_user c1 p) = fr_eth_src d"
proof -
  let ?mac = "fr_eth_src d" let ?c = "decoded_from env ?mac p c"
  note s = decoded_from_simps [OF p, where env = env]
  let ?c1 = "upd_user p (\<lambda>u. u\<lparr>lu_state := S_DHCP_OFFER_SENT\<rparr>) ?c"
  have pl: "p < pool_len c" by (rule pick_lan_user_Some(1) [OF p])
  have w: "leases_ok c" "window_ok c" using wf by (simp_all add: dhcp_wf_def)
  have idx: "pl_pool_index (per_lan_user_pool ?c1 p) = p" "p < pool_len ?c1" using s(1) w(2) pl by (simp_all add: window_ok_def same_window_def)
  have st: "lu_state (entry_user ?c p) \<in> {S_DHCP_INIT, S_DHCP_OFFER_SENT, S_DHCP_ACK_SENT}" using leases_okD [OF w(1) pl] s(3) by (simp add: lease_ok_def)
  have l1: "leases_ok ?c1" using s(4) w(1) by (intro leases_ok_state) simp_all
  have ip: "entry_ip ?c1 i = entry_ip c i" for i using s(2) by simp
  obtain c2 where pick: "pick_ip_from_pool p ?mac ?c1 = Some (ip_addr (entry_ip c p), c2)"
    and c2: "c2 = (if ?mac = ip_mac_addr (entry_ip c p) then ?c1 else upd_ip p (\<lambda>e. e\<lparr>ip_mac_addr := ?mac\<rparr>) ?c1)"
    using pick_own [of ?c1 p ?mac] idx free ip by (simp only: open_to_def) simp
  have k: "same_window ?c1 c2" "leases_ok c2" "\<And>i. entry_user c2 i = entry_user ?c1 i" "pl_dhcp_hdr (per_lan_user_pool c2 p) = HdrCurrent"
    using pick_ip_keeps [OF pick _ l1] idx s(5) by simp_all
  let ?c3 = "wait_request_timer env p c2"
  have "build_dhcp_offer env p ?c1 d \<noteq> None" using pick k(4) by (simp add: build_dhcp_offer_def Let_def)
  then obtain g where g: "build_dhcp_offer env p ?c1 d = Some (SUCCESS, c2, g)" using pick k(4) by (auto simp: build_dhcp_offer_def Let_def)
  have f: "dhcp_fsm env p DE_DISCOVER ?c d = Some (SUCCESS, ?c3, g)" using dhcp_search_values(1) [OF st] g by (simp add: dhcp_fsm_def)
  have "decode_msg_type DHCP_DISCOVER p None p ?c d = (Some DE_DISCOVER, p, ?c, d)" by (simp add: decode_msg_type_def)
  from ev_dp_dhcp_carries [OF on d p this] f have run: "ev_dp_dhcp env n d c = Some ([DhcpLan g], drop_mbuf (?c3\<lparr>active_count := active_count ?c3 - 1\<rparr>))" by simp
  have "same_window (c\<lparr>active_count := active_count c + 1\<rparr>) ?c3" using s(1) same_window_trans [OF _ k(1)] by simp
  from same_window_count [OF this] have sw: "same_window c (drop_mbuf (?c3\<lparr>active_count := active_count ?c3 - 1\<rparr>))" by simp
  have o: "open_to (drop_mbuf (?c3\<lparr>active_count := active_count ?c3 - 1\<rparr>)) p ?mac"
  proof -
    have "ip_mac_addr (entry_ip c2 p) = ?mac \<and> ip_reserved (entry_ip c2 p) = ip_reserved (entry_ip c p)"
    proof (cases "?mac = ip_mac_addr (entry_ip c p)")
      case True
      have "c2 = ?c1" unfolding c2 by (rule if_P [OF True])
      with True ip [of p] show ?thesis by metis
    next
      case False
      have "c2 = upd_ip p (\<lambda>e. e\<lparr>ip_mac_addr := ?mac\<rparr>) ?c1" unfolding c2 by (rule if_not_P [OF False])
      then show ?thesis using s(2) [of p] by simp
    qed
    then show ?thesis using free by (simp add: open_to_def)
  qed
  have u: "\<forall>i. i \<noteq> p \<longrightarrow> entry_user (drop_mbuf (?c3\<lparr>active_count := active_count ?c3 - 1\<rparr>)) i = entry_user c i" using s(7) k(3) by simp
  have m: "lu_mac_addr (entry_user (drop_mbuf (?c3\<lparr>active_count := active_count ?c3 - 1\<rparr>)) p) = ?mac" using s(6) k(3) by simp
  show thesis using build_dhcp_offer_reply [OF g pick] k(2) by (intro that [OF run _ _ sw _ o u m]) simp_all
qed

text \<open>A request for the address \<open>a\<close> from this server, in the options, without a client identifier.\<close>

definition asks_for :: "dhcp_ccb \<Rightarrow> u32 \<Rightarrow> dhcp_frame \<Rightarrow> bool" where
  "asks_for c a q \<longleftrightarrow> carries DHCP_REQUEST q \<and> bp_client_ip (fr_hdr q) = 0 \<and> names_address q \<and>
     list_all (\<lambda>(t, l, v). t \<noteq> DHCP_CLIENT_ID \<and> (t = DHCP_REQUEST_IP \<longrightarrow> l = 4 \<and> mem32_at (fr_options q) v = a) \<and>
       (t = DHCP_SERVER_ID \<longrightarrow> l = 4 \<and> mem32_at (fr_options q) v = dhcp_server_ip c)) (fst (dhcp_opts (fr_options q) (field_len q) 0))"

lemma select_options_asked:
  assumes "list_all (\<lambda>(t, l, v). t \<noteq> DHCP_CLIENT_ID \<and> (t = DHCP_REQUEST_IP \<longrightarrow> l = 4 \<and> mem32_at buf v = a) \<and>
       (t = DHCP_SERVER_ID \<longrightarrow> l = 4 \<and> mem32_at buf v = dhcp_server_ip c)) os" and "request_ip_ok c a"
  shows "select_options c buf os False mac ur = (SelMac mac, if list_ex (\<lambda>(t, _). t = DHCP_REQUEST_IP) os then a else ur)"
  using assms(1)
proof (induction os arbitrary: ur)
  case (Cons x os)
  obtain t l v where x: "x = (t, l, v)" by (cases x) auto
  show ?case using Cons.IH [of ur] Cons.IH [of a] Cons.prems assms(2) by (cases "t = DHCP_REQUEST_IP") (auto simp: x)
qed simp

lemma decode_request_asked:
  assumes "asks_for c a q" and "request_ip_ok c' a" and "dhcp_server_ip c' = dhcp_server_ip c"
    and "check_pool p cur (fr_eth_src q) c' = (SUCCESS, cur', c2)"
  shows "decode_request p cur c' q = (Some DE_GOOD_REQUEST, cur', c2, q\<lparr>fr_hdr := (fr_hdr q)\<lparr>bp_ur_client_ip := a\<rparr>\<rparr>)"
proof -
  obtain os where os: "dhcp_opts (fr_options q) (field_len q) 0 = (os, False)" using assms(1) by (auto simp: asks_for_def carries_def split: prod.splits)
  have "list_ex (\<lambda>(t, _). t = DHCP_REQUEST_IP) os" using assms(1) by (simp add: asks_for_def names_address_def os)
  then have "select_options c' (fr_options q) os False (fr_eth_src q) (bp_ur_client_ip (fr_hdr q)) = (SelMac (fr_eth_src q), a)"
    using select_options_asked [of "fr_options q" a c' os "fr_eth_src q" "bp_ur_client_ip (fr_hdr q)"] assms(1,2,3) by (simp add: asks_for_def os)
  then show ?thesis using assms(1,4) by (simp add: decode_request_def os asks_for_def check_request_def Let_def)
qed

lemma request_ip_ok_count [simp]: "request_ip_ok (c\<lparr>active_count := n\<rparr>) ip = request_ip_ok c ip"
  by (simp add: request_ip_ok_def)

lemma request_acked:
  assumes wf: "dhcp_wf c" and on: "dhcp_bool c" "38 + unat (rte_be_to_cpu_16 (fr_dgram_len q)) \<le> n" and q: "asks_for c a q" "request_ip_ok c a"
    and p: "pick_lan_user (fr_eth_src q) c = Some (p, c0)" and free: "open_to c p (fr_eth_src q)"
  obtains h c2 ticks where "ev_dp_dhcp env n q c = Some ([DhcpLan h], c2)" "take 3 (fr_options h) = [DHCP_MSG_TYPE, 1, DHCP_ACK]"
    "bp_ur_client_ip (fr_hdr h) = a" "ip_used (entry_ip c2 p)" "ip_mac_addr (entry_ip c2 p) = fr_eth_src q" "lu_state (entry_user c2 p) = S_DHCP_ACK_SENT"
    "lu_timer (entry_user c2 p) = Some (CB_lease_timer, ticks)" "same_window c c2" "leases_ok c2" "hdrs_dropped c2"
    "\<forall>i. i \<noteq> p \<longrightarrow> entry_user c2 i = entry_user c i \<and> entry_ip c2 i = entry_ip c i" "lu_mac_addr (entry_user c2 p) = fr_eth_src q"
    "lu_mac_addr (entry_user c p) \<noteq> fr_eth_src q \<longrightarrow> lan_user_used (entry_user c2 p)"
proof -
  let ?mac = "fr_eth_src q" let ?c = "decoded_from env ?mac p c" let ?q = "q\<lparr>fr_hdr := (fr_hdr q)\<lparr>bp_ur_client_ip := a\<rparr>\<rparr>"
  note s = decoded_from_simps [OF p, where env = env]
  have pl: "p < pool_len c" by (rule pick_lan_user_Some(1) [OF p])
  have w: "leases_ok c" using wf by (simp add: dhcp_wf_def)
  obtain r cur c2 where k: "check_pool p p ?mac ?c = (r, cur, c2)" by (metis prod_cases3)
  have fr: "\<not> ip_reserved (entry_ip ?c p)" "\<not> ip_used (entry_ip ?c p) \<or> ?mac = ip_mac_addr (entry_ip ?c p)"
    using free s(2) [of p] unfolding open_to_def by metis+
  have len: "p < pool_len ?c" using s(1) pl by (simp add: same_window_def)
  from k len len have own: "r = SUCCESS" "cur = p" "ip_used (entry_ip c2 p)" "ip_mac_addr (entry_ip c2 p) = ?mac"
    by (cases rule: check_pool_cases; use fr in auto)+
  note kk = check_pool_keeps [OF k len len s(4) [OF w]]
  have st: "lu_state (entry_user (timer_stop p c2) p) \<in> {S_DHCP_INIT, S_DHCP_OFFER_SENT, S_DHCP_ACK_SENT}"
    using leases_okD [OF w pl] s(3) kk(7) by (simp add: lease_ok_def)
  have "request_ip_ok ?c a" using q(2) same_window_request_ip_ok [OF s(1)] by simp
  moreover have "dhcp_server_ip ?c = dhcp_server_ip c" using s(1) by (simp add: same_window_def)
  ultimately have "decode_request p p ?c q = (Some DE_GOOD_REQUEST, p, c2, ?q)" using k own by (intro decode_request_asked [OF q(1)]) simp_all
  then have dm: "decode_msg_type DHCP_REQUEST p None p ?c q = (Some DE_GOOD_REQUEST, p, timer_stop p c2, ?q)" by (simp add: decode_msg_type_def)
  let ?c1 = "upd_user p (\<lambda>u. u\<lparr>lu_state := S_DHCP_ACK_SENT\<rparr>) (timer_stop p c2)" let ?c3 = "wait_lease_timer env p ?c1"
  have "pl_dhcp_hdr (per_lan_user_pool ?c1 p) = HdrCurrent" using kk(8) s(5) by simp
  then obtain h where h: "build_dhcp_ack env p ?c1 ?q = Some (SUCCESS, ?c1, h)" by (simp add: build_dhcp_ack_def)
  then have "dhcp_fsm env p DE_GOOD_REQUEST (timer_stop p c2) ?q = Some (SUCCESS, ?c3, h)" using dhcp_search_values(2) [OF st] by (simp add: dhcp_fsm_def)
  moreover have "carries DHCP_REQUEST q" using q(1) by (simp add: asks_for_def)
  ultimately have run: "ev_dp_dhcp env n q c = Some ([DhcpLan h], drop_mbuf (?c3\<lparr>active_count := active_count ?c3 - 1\<rparr>))"
    using ev_dp_dhcp_carries [OF on _ p dm] by simp
  obtain ticks where ticks: "lu_timer (entry_user ?c3 p) = Some (CB_lease_timer, ticks)" using wait_timer_user(6) by blast
  let ?e = "drop_mbuf (?c3\<lparr>active_count := active_count ?c3 - 1\<rparr>)"
  have "same_window (c\<lparr>active_count := active_count c + 1\<rparr>) ?c3" using same_window_trans [OF s(1) kk(1)] by simp
  from same_window_count [OF this] have sw: "same_window c ?e" by simp
  have l: "leases_ok ?e" using kk(2) own by (simp add: leases_ok_state)
  have ip: "entry_ip c2 i = entry_ip c i" if "i \<noteq> p" for i
    using k len len by (cases rule: check_pool_cases) (use fr that s(2) in auto)
  have o: "\<forall>i. i \<noteq> p \<longrightarrow> entry_user ?e i = entry_user c i \<and> entry_ip ?e i = entry_ip c i"
    using ip s(7) kk(7) by (simp add: wait_lease_timer_def timer_reset_def timer_stop_def Let_def)
  have lu: "lu_mac_addr (entry_user ?e p) = ?mac" "lu_mac_addr (entry_user c p) \<noteq> ?mac \<longrightarrow> lan_user_used (entry_user ?e p)"
    using s(6,8) kk(7) by (simp_all add: wait_lease_timer_def timer_reset_def timer_stop_def Let_def)
  show thesis using build_dhcp_ack_reply [OF h] own ticks by (intro that [OF run _ _ _ _ _ _ sw l _ o lu, of ticks]) simp_all
qed

lemma own_address_ok:
  assumes "dhcp_wf c" and "p < pool_len c" and "\<not> ip_reserved (entry_ip c p)" and "ip_addr (entry_ip c p) AND subnet_mask c = dhcp_server_ip c AND subnet_mask c"
  shows "request_ip_ok c (ip_addr (entry_ip c p))"
proof -
  have r: "pool_start c \<le> pool_end c" "per_lan_user_pool_len c = pool_end c - pool_start c + 1" "window_ok c"
    using assms(1) unfolding dhcp_wf_def range_ok_def by blast+
  have "pool_start c + of_nat p \<in> {pool_start c..pool_end c}" by (rule window_address [OF r(1,2) assms(2)])
  then show ?thesis using r(3) assms(2-4) by (auto simp: request_ip_ok_def window_ok_def Let_def not_less)
qed

text \<open>
  C40: A new client gets an address and loses it when its lease ends. Let the conversation the server picks for the client be at an entry whose
  address is not reserved and is free. Then a DISCOVER is answered with an offer of that address; the REQUEST for it, from
  the same client, is acknowledged with that address; the entry is then leased to the client and its lease timer is armed; and when the
  timer fires, the address and the conversation are free again.
\<close>

theorem dhcp_lease_cycle:
  assumes "dhcp_reachable c" and "dhcp_bool c" and "pick_lan_user (fr_eth_src d) c = Some (p, c0)" and "open_to c p (fr_eth_src d)"
    and "carries DHCP_DISCOVER d" and "38 + unat (rte_be_to_cpu_16 (fr_dgram_len d)) \<le> n"
    and "asks_for c (ip_addr (entry_ip c p)) q" and "fr_eth_src q = fr_eth_src d" and "38 + unat (rte_be_to_cpu_16 (fr_dgram_len q)) \<le> m"
    and "ip_addr (entry_ip c p) AND subnet_mask c = dhcp_server_ip c AND subnet_mask c"
  shows "\<exists>g c1 h c2 c3. ev_dp_dhcp env n d c = Some ([DhcpLan g], c1) \<and> take 3 (fr_options g) = [DHCP_MSG_TYPE, 1, DHCP_OFFER] \<and>
      bp_ur_client_ip (fr_hdr g) = ip_addr (entry_ip c p) \<and>
    ev_dp_dhcp env m q c1 = Some ([DhcpLan h], c2) \<and> take 3 (fr_options h) = [DHCP_MSG_TYPE, 1, DHCP_ACK] \<and> bp_ur_client_ip (fr_hdr h) = ip_addr (entry_ip c p) \<and>
      ip_used (entry_ip c2 p) \<and> ip_mac_addr (entry_ip c2 p) = fr_eth_src d \<and> lu_state (entry_user c2 p) = S_DHCP_ACK_SENT \<and>
    dhcp_timer_expires env p x c2 = Some c3 \<and> \<not> ip_used (entry_ip c3 p) \<and> \<not> lan_user_used (entry_user c3 p) \<and> lu_state (entry_user c3 p) = S_DHCP_INIT"
proof -
  let ?a = "ip_addr (entry_ip c p)"
  have wf: "dhcp_wf c" using dhcp_reachable_wf [OF assms(1)] by simp
  have pl: "p < pool_len c" by (rule pick_lan_user_Some(1) [OF assms(3)])
  obtain g c1 where o: "ev_dp_dhcp env n d c = Some ([DhcpLan g], c1)" "take 3 (fr_options g) = [DHCP_MSG_TYPE, 1, DHCP_OFFER]" "bp_ur_client_ip (fr_hdr g) = ?a"
    "same_window c c1" "leases_ok c1" "open_to c1 p (fr_eth_src d)" "\<forall>i. i \<noteq> p \<longrightarrow> entry_user c1 i = entry_user c i" "lu_mac_addr (entry_user c1 p) = fr_eth_src d"
    by (rule discover_offered [OF wf assms(2,6,5,3,4), where env = env])
  have ok: "request_ip_ok c ?a" using own_address_ok [OF wf pl] assms(4,10) by (simp add: open_to_def)
  have c1: "dhcp_wf c1" "dhcp_bool c1" "request_ip_ok c1 ?a" "asks_for c1 ?a q" "pick_lan_user (fr_eth_src q) c1 = Some (p, c1)" "open_to c1 p (fr_eth_src q)"
    using dhcp_wf_same [OF wf o(4,5)] same_window_request_ip_ok [OF o(4)] ok assms(2,7,8) o(4,6,7,8) pick_lan_user_again [OF assms(3), of c1]
    by (auto simp: same_window_def asks_for_def)
  obtain h c2 ticks where a: "ev_dp_dhcp env m q c1 = Some ([DhcpLan h], c2)" "take 3 (fr_options h) = [DHCP_MSG_TYPE, 1, DHCP_ACK]" "bp_ur_client_ip (fr_hdr h) = ?a"
    "ip_used (entry_ip c2 p)" "ip_mac_addr (entry_ip c2 p) = fr_eth_src q" "lu_state (entry_user c2 p) = S_DHCP_ACK_SENT" "lu_timer (entry_user c2 p) = Some (CB_lease_timer, ticks)"
    by (rule request_acked [OF c1(1,2) assms(9) c1(4,3,5,6), where env = env])
  let ?c3 = "release_lan_user p (upd_user p (\<lambda>u. u\<lparr>lu_state := S_DHCP_INIT\<rparr>) (timer_stop p c2))"
  have e: "dhcp_timer_expires env p x c2 = Some ?c3"
    using a(6,7) by (simp add: dhcp_timer_expires_def dhcp_fsm_def) (simp add: dhcp_search_def dhcp_fsm_tbl_def)
  have "\<not> ip_used (entry_ip ?c3 p) \<and> \<not> lan_user_used (entry_user ?c3 p) \<and> lu_state (entry_user ?c3 p) = S_DHCP_INIT" by (simp add: release_lan_user_def)
  then show ?thesis using o(1,2,3) a e assms(8)
    by (intro exI [of _ g] exI [of _ c1] exI [of _ h] exI [of _ c2] exI [of _ ?c3] conjI) simp_all
qed

section \<open>A small network\<close>

text \<open>The server 192.168.1.1/16, one client and windows chosen by their host-order ends.\<close>

definition sample_denv :: dhcp_env where
  "sample_denv = \<lparr>de_clock = \<lparr>cur_cycles = 0, cycles_in_sec = 10\<rparr>, de_lan_mac = [2, 0, 0, 0, 0, 1], de_dp_started = False, de_hsi_primary_dns = 0, de_hsi_secondary_dns = 0\<rparr>"

abbreviation sample_server :: u32 where "sample_server \<equiv> rte_cpu_to_be_32 0xC0A80101"

definition sample_pool :: "u32 \<Rightarrow> u32 \<Rightarrow> dhcp_ccb" where
  "sample_pool a b = (snd (dhcp_pool_init_by_user sample_server (rte_cpu_to_be_32 a) (rte_cpu_to_be_32 b) (rte_cpu_to_be_32 0xFFFF0000) (dhcp_init_by_user zero_ccb)))\<lparr>dhcp_bool := True\<rparr>"

definition sample_hdr :: "u32 \<Rightarrow> dhcp_hdr" where
  "sample_hdr ciaddr = \<lparr>bp_msg_type = 1, bp_hwr_type = 1, bp_hwr_addr_len = 6, bp_hops = 0, bp_transaction_id = 7, bp_sec_elapsed = 0, bp_bootp_flag = 0,
     bp_client_ip = ciaddr, bp_ur_client_ip = 0, bp_next_server_ip = 0, bp_relay_agent_ip = 0, bp_mac_addr = [2, 0, 0, 0, 0, 9], bp_mac_addr_padding = replicate 10 0,
     bp_server_name = replicate 64 0, bp_file_name = replicate 128 0, bp_magic_cookie = rte_cpu_to_be_32 DHCP_MAGIC_COOKIE\<rparr>"

text \<open>A request of the client with the last byte \<open>k\<close> in its MAC address; eleven bytes of options, then room in the buffer.\<close>

definition sample_request :: "u8 \<Rightarrow> u32 \<Rightarrow> u8 list \<Rightarrow> dhcp_frame" where
  "sample_request k ciaddr os = \<lparr>fr_eth_dst = [2, 0, 0, 0, 0, 1], fr_eth_src = [2, 0, 0, 0, 0, k], fr_packet_id = 0, fr_ip_src = 0, fr_ip_dst = RTE_IPV4_BROADCAST,
     fr_total_length = rte_cpu_to_be_16 279, fr_src_port = rte_cpu_to_be_16 68, fr_dst_port = rte_cpu_to_be_16 67, fr_dgram_len = rte_cpu_to_be_16 259,
     fr_hdr = sample_hdr ciaddr, fr_options = os @ replicate 64 0\<rparr>"

definition sample_discover :: "u8 \<Rightarrow> dhcp_frame" where
  "sample_discover k = sample_request k 0 [DHCP_MSG_TYPE, 1, DHCP_DISCOVER, DHCP_END, 0, 0, 0, 0, 0, 0, 0]"

definition sample_select :: "u8 \<Rightarrow> u32 \<Rightarrow> dhcp_frame" where
  "sample_select k a = sample_request k 0 ([DHCP_MSG_TYPE, 1, DHCP_REQUEST, DHCP_REQUEST_IP, 4] @ mem32 (rte_cpu_to_be_32 a) @ [DHCP_END, 0])"

lemma mem32_bytes:
  "ucast (ucast x :: u8) OR push_bit 8 (ucast (ucast (drop_bit 8 x) :: u8)) OR push_bit 16 (ucast (ucast (drop_bit 16 x) :: u8)) OR
   push_bit 24 (ucast (ucast (drop_bit 24 x) :: u8)) = (x :: u32)"
proof (rule bit_word_eqI)
  fix n assume "n < LENGTH(32)"
  then have "n < 8 \<or> 8 \<le> n \<and> n < 16 \<or> 16 \<le> n \<and> n < 24 \<or> 24 \<le> n \<and> n < 32" by auto
  then show "bit (ucast (ucast x :: u8) OR push_bit 8 (ucast (ucast (drop_bit 8 x) :: u8)) OR push_bit 16 (ucast (ucast (drop_bit 16 x) :: u8)) OR
      push_bit 24 (ucast (ucast (drop_bit 24 x) :: u8)) :: u32) n = bit x n"
    by (auto simp: bit_simps)
qed

lemma mem32_at_mem32 [simp]: "mem32_at (b0 # b1 # b2 # b3 # b4 # mem32 a @ ys) 5 = a"
  by (simp add: mem32_at_def mem32_def mem32_bytes)

lemma sample_opts:
  "dhcp_opts (fr_options (sample_discover k)) (field_len (sample_discover k)) 0 = ([(DHCP_MSG_TYPE, 1, 2)], False)"
  "dhcp_opts (fr_options (sample_select k a)) (field_len (sample_select k a)) 0 = ([(DHCP_MSG_TYPE, 1, 2), (DHCP_REQUEST_IP, 4, 5)], False)"
  by (simp_all add: sample_discover_def sample_select_def sample_request_def dhcp_opts.simps mem32_def)

lemma sample_discover_facts:
  "carries DHCP_DISCOVER (sample_discover k)" "unat (rte_be_to_cpu_16 (fr_dgram_len (sample_discover k))) = 259" "fr_eth_src (sample_discover k) = [2, 0, 0, 0, 0, k]"
  unfolding carries_def sample_opts by (simp_all add: sample_discover_def sample_request_def sample_hdr_def)

lemma sample_select_facts:
  "asks_for c (rte_cpu_to_be_32 a) (sample_select k a)" "unat (rte_be_to_cpu_16 (fr_dgram_len (sample_select k a))) = 259" "fr_eth_src (sample_select k a) = [2, 0, 0, 0, 0, k]"
  unfolding asks_for_def carries_def names_address_def sample_opts by (simp_all add: sample_select_def sample_request_def sample_hdr_def)

lemma sample_pool_reachable:
  assumes "a \<le> b" "b - a < 131072" "a AND 0xFFFF0000 = 0xC0A80000" "b AND 0xFFFF0000 = 0xC0A80000"
  shows "dhcp_reachable (sample_pool a b)" "pool_start (sample_pool a b) = a" "pool_end (sample_pool a b) = b" "dhcp_bool (sample_pool a b)"
    "per_lan_user_pool_len (sample_pool a b) = b - a + 1" "dhcp_server_ip (sample_pool a b) = sample_server" "subnet_mask (sample_pool a b) = rte_cpu_to_be_32 0xFFFF0000"
    "i < unat (b - a + 1) \<Longrightarrow> entry_user (sample_pool a b) i = \<lparr>lu_state = S_DHCP_INIT, lan_user_used = False, lu_mac_addr = zero_mac, lu_timer = None, timeout_secs = 0\<rparr>"
    "i < unat (b - a + 1) \<Longrightarrow> entry_ip (sample_pool a b) i = \<lparr>ip_mac_addr = zero_mac, ip_addr = rte_cpu_to_be_32 (a + of_nat i), ip_used = False, ip_reserved = dhcp_ip_is_reserved (a + of_nat i)\<rparr>"
proof -
  let ?c = "dhcp_init_by_user zero_ccb"
  let ?r = "dhcp_pool_init_by_user sample_server (rte_cpu_to_be_32 a) (rte_cpu_to_be_32 b) (rte_cpu_to_be_32 0xFFFF0000)"
  have "b - a + 1 \<le> 131072" using assms(2) by (simp add: inc_le)
  then have len: "new_pool_len (rte_cpu_to_be_32 a) (rte_cpu_to_be_32 b) = b - a + 1" "\<not> 131072 < b - a + 1" using assms(1) by (simp_all add: new_pool_len_def)
  have s: "?r c = (SUCCESS, snd (?r c))" for c by (simp add: dhcp_pool_init_by_user_def Let_def len)
  have m: "bswap32 x AND bswap32 y = bswap32 (x AND y)" for x y by (rule bit_word_eqI) (auto simp: bit_bswap32 bit_and_iff)
  have "dhcp_validate_pool_range sample_server (rte_cpu_to_be_32 a) (rte_cpu_to_be_32 b) (rte_cpu_to_be_32 0xFFFF0000) = SUCCESS"
    using assms by (auto simp: dhcp_validate_pool_range_def m dest: leD)
  then show "dhcp_reachable (sample_pool a b)" unfolding sample_pool_def
    by (intro dhcp_reachable.switch dhcp_reachable.configure [OF dhcp_reachable.init _ s])
  show "pool_start (sample_pool a b) = a" "pool_end (sample_pool a b) = b" "dhcp_bool (sample_pool a b)" "per_lan_user_pool_len (sample_pool a b) = b - a + 1"
    "dhcp_server_ip (sample_pool a b) = sample_server" "subnet_mask (sample_pool a b) = rte_cpu_to_be_32 0xFFFF0000"
    by (simp_all add: sample_pool_def dhcp_pool_init_by_user_def Let_def len)
  have fresh: "entry_user ?c i = \<lparr>lu_state = (if i = 0 then S_DHCP_INIT else S_DHCP_NONE), lan_user_used = False, lu_mac_addr = zero_mac, lu_timer = None, timeout_secs = 0\<rparr>"
    by (simp add: dhcp_init_by_user_def dhcp_pool_init_by_user_def Let_def new_pool_len_def zero_ccb_def fresh_entry_def reset_entry_def)
  show "i < unat (b - a + 1) \<Longrightarrow> entry_user (sample_pool a b) i = \<lparr>lu_state = S_DHCP_INIT, lan_user_used = False, lu_mac_addr = zero_mac, lu_timer = None, timeout_secs = 0\<rparr>"
    "i < unat (b - a + 1) \<Longrightarrow> entry_ip (sample_pool a b) i = \<lparr>ip_mac_addr = zero_mac, ip_addr = rte_cpu_to_be_32 (a + of_nat i), ip_used = False, ip_reserved = dhcp_ip_is_reserved (a + of_nat i)\<rparr>"
    by (auto simp: sample_pool_def dhcp_pool_init_by_user_def Let_def len reset_entry_def fresh max_def word_le_nat_alt)
qed

lemma sample_mac [simp]: "zero_mac \<noteq> [2, 0, 0, 0, 0, k]" "[2, 0, 0, 0, 0, k] \<noteq> zero_mac"
  by (simp_all add: zero_mac_def numeral_eq_Suc)

lemmas sample_ten = sample_pool_reachable [of "0xC0A8010A" "0xC0A8010B", simplified]

lemma sample_ten_entry:
  "pick_lan_user [2, 0, 0, 0, 0, k] (sample_pool 0xC0A8010A 0xC0A8010B) = Some (0, upd_user 0 (\<lambda>u. u\<lparr>lu_mac_addr := [2, 0, 0, 0, 0, k], lan_user_used := True\<rparr>) (sample_pool 0xC0A8010A 0xC0A8010B))"
  "open_to (sample_pool 0xC0A8010A 0xC0A8010B) 0 mac" "ip_addr (entry_ip (sample_pool 0xC0A8010A 0xC0A8010B) 0) = rte_cpu_to_be_32 0xC0A8010A"
  "request_ip_ok (sample_pool 0xC0A8010A 0xC0A8010B) (rte_cpu_to_be_32 0xC0A8010A)"
proof -
  have "[0..<2] = [0, 1 :: nat]" by (simp add: upt_rec)
  then show "pick_lan_user [2, 0, 0, 0, 0, k] (sample_pool 0xC0A8010A 0xC0A8010B) =
      Some (0, upd_user 0 (\<lambda>u. u\<lparr>lu_mac_addr := [2, 0, 0, 0, 0, k], lan_user_used := True\<rparr>) (sample_pool 0xC0A8010A 0xC0A8010B))"
    by (simp add: pick_lan_user_def sample_ten)
  show "open_to (sample_pool 0xC0A8010A 0xC0A8010B) 0 mac" "ip_addr (entry_ip (sample_pool 0xC0A8010A 0xC0A8010B) 0) = rte_cpu_to_be_32 0xC0A8010A"
    by (simp_all add: open_to_def sample_ten dhcp_ip_is_reserved_def)
  show "request_ip_ok (sample_pool 0xC0A8010A 0xC0A8010B) (rte_cpu_to_be_32 0xC0A8010A)"
    by (simp add: request_ip_ok_def sample_ten dhcp_ip_is_reserved_def) (simp add: bswap32_def)
qed

theorem dhcp_lease_cycle_witness:
  "\<exists>g c1 h c2. ev_dp_dhcp sample_denv 400 (sample_discover 9) (sample_pool 0xC0A8010A 0xC0A8010B) = Some ([DhcpLan g], c1) \<and>
     bp_ur_client_ip (fr_hdr g) = rte_cpu_to_be_32 0xC0A8010A \<and>
     ev_dp_dhcp sample_denv 400 (sample_select 9 0xC0A8010A) c1 = Some ([DhcpLan h], c2) \<and> ip_used (entry_ip c2 0)"
proof -
  let ?c = "sample_pool 0xC0A8010A 0xC0A8010B"
  note e = sample_ten_entry
  have m: "ip_addr (entry_ip ?c 0) AND subnet_mask ?c = dhcp_server_ip ?c AND subnet_mask ?c"
    unfolding e(3) by (simp add: sample_ten) (simp add: bswap32_def)
  have q: "asks_for ?c (ip_addr (entry_ip ?c 0)) (sample_select 9 0xC0A8010A)" unfolding e(3) by (rule sample_select_facts)
  show ?thesis
    using dhcp_lease_cycle [OF sample_ten(1,4) e(1) [of 9, folded sample_discover_facts(3) [of 9]] e(2) sample_discover_facts(1) _ q _ _ m, where x = "sample_discover 9" and n = 400 and m = 400 and env = sample_denv]
    by (simp only: sample_discover_facts sample_select_facts e(3)) auto
qed

theorem dhcp_reply_addresses_witness:
  "\<exists>g c1. ev_dp_dhcp sample_denv 400 (sample_discover 9) (sample_pool 0xC0A8010A 0xC0A8010B) = Some ([DhcpLan g], c1) \<and>
     (offers_free_address (sample_pool 0xC0A8010A 0xC0A8010B) (sample_discover 9) g \<or> acks_address (sample_pool 0xC0A8010A 0xC0A8010B) (sample_discover 9) g \<or>
      assigns_nothing g \<or> same_request (sample_discover 9) g)"
proof -
  let ?c = "sample_pool 0xC0A8010A 0xC0A8010B"
  have wf: "dhcp_wf ?c" using dhcp_reachable_wf [OF sample_ten(1)] by simp
  have n: "38 + unat (rte_be_to_cpu_16 (fr_dgram_len (sample_discover 9))) \<le> 400" by (simp add: sample_discover_facts(2))
  obtain g c1 where r: "ev_dp_dhcp sample_denv 400 (sample_discover 9) ?c = Some ([DhcpLan g], c1)"
    by (rule discover_offered [OF wf sample_ten(4) n sample_discover_facts(1) sample_ten_entry(1) [folded sample_discover_facts(3)] sample_ten_entry(2), where env = sample_denv])
  then show ?thesis using dhcp_reply_addresses [OF sample_ten(1) r, of g] by auto
qed

theorem dhcp_pool_well_formed_witness: "pl_pool_index (per_lan_user_pool (sample_pool 0xC0A8010A 0xC0A8010B) 1) = 1 \<and>
  ip_addr (entry_ip (sample_pool 0xC0A8010A 0xC0A8010B) 1) = rte_cpu_to_be_32 0xC0A8010B"
  using dhcp_pool_well_formed [OF sample_ten(1), of 1] by (simp add: sample_ten)

section \<open>Runs that go wrong\<close>

lemma scan_pool_None: "scan_pool is mac c = None \<Longrightarrow> i \<in> set is \<Longrightarrow> ip_reserved (entry_ip c i) \<or> ip_used (entry_ip c i) \<and> mac \<noteq> ip_mac_addr (entry_ip c i)"
  by (induction "is") (auto simp: check_and_set_single_pool_entry_def split: if_splits option.splits)

text \<open>
  A client whose conversation is at an entry with a reserved address is offered another one, and when it requests that, the server
  goes on with the other entry. The packet pointer of that entry was never set or leads to a buffer given back long ago.
\<close>

theorem reserved_entry_request_faults:
  assumes "dhcp_reachable c" and "dhcp_bool c" and "pick_lan_user (fr_eth_src q) c = Some (p, c0)" and "ip_reserved (entry_ip c p)"
    and "i < pool_len c" and "open_to c i (fr_eth_src q)" and "asks_for c a q" and "request_ip_ok c a" and "38 + unat (rte_be_to_cpu_16 (fr_dgram_len q)) \<le> n"
  shows "ev_dp_dhcp env n q c = None"
proof -
  let ?mac = "fr_eth_src q" let ?c = "decoded_from env ?mac p c" let ?q = "q\<lparr>fr_hdr := (fr_hdr q)\<lparr>bp_ur_client_ip := a\<rparr>\<rparr>"
  note s = decoded_from_simps [OF assms(3), where env = env]
  have wf: "leases_ok c" "hdrs_dropped c" using dhcp_reachable_wf [OF assms(1)] by (simp_all add: dhcp_wf_def)
  have len: "p < pool_len ?c" "i < pool_len ?c" using s(1) pick_lan_user_Some(1) [OF assms(3)] assms(5) by (simp_all add: same_window_def)
  obtain r cur c2 where k: "check_pool p p ?mac ?c = (r, cur, c2)" by (metis prod_cases3)
  have res: "ip_reserved (entry_ip ?c p)" "open_to ?c i ?mac" using assms(4,6) s(2) by (simp_all add: open_to_def)
  have "scan_pool ([p..<pool_len ?c] @ [0..<max p (pool_len ?c)]) ?mac ?c \<noteq> None"
    by (rule notI, drule scan_pool_None [where i = i]) (use res(2) len(2) in \<open>auto simp: open_to_def\<close>)
  then have "r = SUCCESS" using k res(1) by (auto simp: check_pool_def)
  from k len(1) len(1) this have cur: "cur < pool_len ?c" "cur \<noteq> p" by (cases rule: check_pool_cases; use res(1) in auto)+
  note kk = check_pool_keeps [OF k len(1) len(1) s(4) [OF wf(1)]]
  have "request_ip_ok ?c a" using assms(8) same_window_request_ip_ok [OF s(1)] by simp
  moreover have "dhcp_server_ip ?c = dhcp_server_ip c" using s(1) by (simp add: same_window_def)
  ultimately have "decode_request p p ?c q = (Some DE_GOOD_REQUEST, cur, c2, ?q)" using k \<open>r = SUCCESS\<close> by (intro decode_request_asked [OF assms(7)]) simp_all
  then have dm: "decode_msg_type DHCP_REQUEST p None p ?c q = (Some DE_GOOD_REQUEST, cur, timer_stop p c2, ?q)" by (simp add: decode_msg_type_def)
  have "cur < pool_len c" using cur(1) s(1) by (simp add: same_window_def)
  then have st: "lu_state (entry_user (timer_stop p c2) cur) \<in> {S_DHCP_INIT, S_DHCP_OFFER_SENT, S_DHCP_ACK_SENT}"
    using leases_okD [OF wf(1)] s(3) kk(7) by (simp add: lease_ok_def)
  have "pl_dhcp_hdr (per_lan_user_pool (timer_stop p c2) cur) \<noteq> HdrCurrent" using kk(8) s(5) cur(2) wf(2) by (simp add: hdrs_dropped_def)
  then have "dhcp_fsm env cur DE_GOOD_REQUEST (timer_stop p c2) ?q = None" using dhcp_search_values(2) [OF st] by (simp add: dhcp_fsm_def build_dhcp_ack_def)
  moreover have "carries DHCP_REQUEST q" using assms(7) by (simp add: asks_for_def)
  ultimately show ?thesis using ev_dp_dhcp_carries [OF assms(2,9) _ assms(3) dm] by simp
qed

text \<open>Two clients ask for the same address; each gets it acknowledged, while the pool has marked a different entry for each.\<close>

theorem same_address_acked_twice:
  "\<exists>g c1 h c2. ev_dp_dhcp sample_denv 400 (sample_select 9 0xC0A8010A) (sample_pool 0xC0A8010A 0xC0A8010B) = Some ([DhcpLan g], c1) \<and>
     ev_dp_dhcp sample_denv 400 (sample_select 8 0xC0A8010A) c1 = Some ([DhcpLan h], c2) \<and>
     take 3 (fr_options g) = [DHCP_MSG_TYPE, 1, DHCP_ACK] \<and> take 3 (fr_options h) = [DHCP_MSG_TYPE, 1, DHCP_ACK] \<and>
     bp_ur_client_ip (fr_hdr g) = rte_cpu_to_be_32 0xC0A8010A \<and> bp_ur_client_ip (fr_hdr h) = rte_cpu_to_be_32 0xC0A8010A \<and>
     ip_used (entry_ip c1 0) \<and> ip_used (entry_ip c2 1)"
proof -
  let ?c = "sample_pool 0xC0A8010A 0xC0A8010B" let ?a = "rte_cpu_to_be_32 0xC0A8010A" let ?q = "\<lambda>k. sample_select k 0xC0A8010A"
  have wf: "dhcp_wf ?c" using dhcp_reachable_wf [OF sample_ten(1)] by simp
  have n: "38 + unat (rte_be_to_cpu_16 (fr_dgram_len (?q k))) \<le> 400" for k by (simp add: sample_select_facts(2))
  note e = sample_ten_entry
  obtain g c1 t1 where g: "ev_dp_dhcp sample_denv 400 (?q 9) ?c = Some ([DhcpLan g], c1)" "take 3 (fr_options g) = [DHCP_MSG_TYPE, 1, DHCP_ACK]"
    "bp_ur_client_ip (fr_hdr g) = ?a" "ip_used (entry_ip c1 0)" "ip_mac_addr (entry_ip c1 0) = fr_eth_src (?q 9)" "lu_state (entry_user c1 0) = S_DHCP_ACK_SENT"
    "lu_timer (entry_user c1 0) = Some (CB_lease_timer, t1)" "same_window ?c c1" "leases_ok c1" "hdrs_dropped c1"
    "\<forall>i. i \<noteq> 0 \<longrightarrow> entry_user c1 i = entry_user ?c i \<and> entry_ip c1 i = entry_ip ?c i" "lu_mac_addr (entry_user c1 0) = fr_eth_src (?q 9)"
    "lu_mac_addr (entry_user ?c 0) \<noteq> fr_eth_src (?q 9) \<longrightarrow> lan_user_used (entry_user c1 0)"
    by (rule request_acked [OF wf sample_ten(4) n sample_select_facts(1) e(4) e(1) [of 9, folded sample_select_facts(3) [of 9 "0xC0A8010A"]] e(2), where env = sample_denv])
  have len: "pool_len c1 = 2" "dhcp_bool c1" using g(8) sample_ten by (simp_all add: same_window_def)
  have u0: "lan_user_used (entry_user c1 0)" "lu_mac_addr (entry_user c1 0) \<noteq> fr_eth_src (?q 8)"
    using g(12,13) by (simp_all add: sample_ten sample_select_facts(3))
  have u1: "entry_user c1 1 = entry_user ?c 1" "entry_ip c1 1 = entry_ip ?c 1" using g(11) by simp_all
  have "[0..<2] = [0, 1 :: nat]" by (simp add: upt_rec)
  then obtain c0 where p: "pick_lan_user (fr_eth_src (?q 8)) c1 = Some (1, c0)"
    using u0 u1 len by (auto simp: pick_lan_user_def sample_ten sample_select_facts(3))
  have o: "open_to c1 1 (fr_eth_src (?q 8))" using u1 by (simp add: open_to_def sample_ten dhcp_ip_is_reserved_def)
  have ok: "request_ip_ok c1 ?a" using same_window_request_ip_ok [OF g(8)] e(4) by simp
  obtain h c2 where "ev_dp_dhcp sample_denv 400 (?q 8) c1 = Some ([DhcpLan h], c2)" "take 3 (fr_options h) = [DHCP_MSG_TYPE, 1, DHCP_ACK]"
    "bp_ur_client_ip (fr_hdr h) = ?a" "ip_used (entry_ip c2 1)"
    by (rule request_acked [OF dhcp_wf_same [OF wf g(8,9)] len(2) n sample_select_facts(1) ok p o, where env = sample_denv])
  then show ?thesis using g(1-4) by blast
qed

end
