(* ===== verification/Ipv6_Firewall.thy ===== *)
theory Ipv6_Firewall
  imports Tcp_Conntrack Dpdk
begin

text \<open>
  The per-subscriber stateful IPv6 firewall (\<^verbatim>\<open>src/src/pppd/ipv6_firewall.h\<close> and the firewall fields
  of \<open>ppp_ccb_t\<close> in \<^verbatim>\<open>pppd.h\<close>): the session pool with its deadline and recency arrays, one hash for
  both directions, the free list, garbage collection, eviction of the least recently used session,
  learning from outbound packets and the verdict on inbound ones, ICMPv6 errors included.

  Packets are raw memory behind the pointer to their IPv6 header, so every read is an offset the
  code computes. An operation runs to completion before the next one starts and reads the cycle
  counter once; the spin lock is therefore not part of the state. The hash and the ring are
  parameters (theory \<open>Dpdk\<close>); the pointers to them are options, NULL being \<open>None\<close>.
\<close>

section \<open>State\<close>

abbreviation IPV6_FIREWALL_ENTRY_TIMEOUT_SEC :: u64 where "IPV6_FIREWALL_ENTRY_TIMEOUT_SEC \<equiv> 10"
abbreviation IPV6_FIREWALL_GC_SCAN_CHUNK :: nat where "IPV6_FIREWALL_GC_SCAN_CHUNK \<equiv> 512"
abbreviation IPV6_FIREWALL_ENTRY_FREE :: u16 where "IPV6_FIREWALL_ENTRY_FREE \<equiv> 0"
abbreviation IPV6_FIREWALL_ENTRY_READY :: u16 where "IPV6_FIREWALL_ENTRY_READY \<equiv> 1"
abbreviation ICMP6_DST_UNREACH :: u8 where "ICMP6_DST_UNREACH \<equiv> 1"
abbreviation ICMP6_PARAM_PROBLEM :: u8 where "ICMP6_PARAM_PROBLEM \<equiv> 4"
abbreviation ICMP6_ECHO_REQUEST :: u8 where "ICMP6_ECHO_REQUEST \<equiv> 128"
abbreviation ICMP6_ECHO_REPLY :: u8 where "ICMP6_ECHO_REPLY \<equiv> 129"

definition IPV6_FIREWALL_MAX_ENTRIES :: nat where
  "IPV6_FIREWALL_MAX_ENTRIES = TOTAL_SOCK_PORT"

text \<open>
  The session key. Its three padding bytes are zero in every key the code builds, so they carry no
  information.
\<close>

record ipv6_firewall_key =
  fk_lan_addr :: "u8 list"
  fk_remote_addr :: "u8 list"
  fk_lan_port :: u16
  fk_remote_port :: u16
  fk_proto :: u8

record ipv6_firewall_entry =
  fe_key :: ipv6_firewall_key
  fe_is_fill :: u16
  fe_tcp_state :: u8
  fe_tcp_fin_flags :: u8
  fe_max_seq_end_lan :: u32
  fe_max_seq_end_wan :: u32
  fe_max_ack_lan :: u32
  fe_max_ack_wan :: u32
  fe_max_win_lan :: u16
  fe_max_win_wan :: u16

record ('h, 'r) fw_ccb =
  fw_table :: "nat \<Rightarrow> ipv6_firewall_entry"
  fw_expire_at :: "nat \<Rightarrow> u64"
  fw_last_used :: "nat \<Rightarrow> u64"
  fw_enospc :: u64
  fw_gc_reclaimed :: u64
  fw_evicted :: u64
  fw_icmp6_err_passed :: u64
  fw_icmp6_err_dropped :: u64
  fw_hash :: "'h option"
  fw_free_ring :: "'r option"
  fw_gc_counter :: u32
  fw_conntrack_enabled :: bool

record ('h, 'r) fw_dpdk =
  fw_hash_ops :: "('h, ipv6_firewall_key) rte_hash"
  fw_ring_ops :: "'r rte_ring"

section \<open>Packets\<close>

text \<open>The fields of an IPv6 header at offset \<open>a\<close>, and of the TCP header at offset \<open>a\<close>.\<close>

definition ip6_payload_len :: "memory \<Rightarrow> nat \<Rightarrow> u16" where
  "ip6_payload_len m a = word16_at m (a + 4)"

definition ip6_proto :: "memory \<Rightarrow> nat \<Rightarrow> u8" where
  "ip6_proto m a = m (a + 6)"

definition ip6_src_addr :: "memory \<Rightarrow> nat \<Rightarrow> u8 list" where
  "ip6_src_addr m a = bytes_at m (a + 8) 16"

definition ip6_dst_addr :: "memory \<Rightarrow> nat \<Rightarrow> u8 list" where
  "ip6_dst_addr m a = bytes_at m (a + 24) 16"

definition tcp_hdr_at :: "memory \<Rightarrow> nat \<Rightarrow> tcp_hdr" where
  "tcp_hdr_at m a = \<lparr>src_port = word16_at m a, dst_port = word16_at m (a + 2), sent_seq = word32_at m (a + 4),
     recv_ack = word32_at m (a + 8), data_off = m (a + 12), tcp_flags = m (a + 13), rx_win = word16_at m (a + 14)\<rparr>"

definition icmp6_type_is_error :: "u8 \<Rightarrow> bool" where
  "icmp6_type_is_error type \<longleftrightarrow> ICMP6_DST_UNREACH \<le> type \<and> type \<le> ICMP6_PARAM_PROBLEM"

definition ipv6_firewall_key_build :: "u8 list \<Rightarrow> u8 list \<Rightarrow> u16 \<Rightarrow> u16 \<Rightarrow> u8 \<Rightarrow> ipv6_firewall_key" where
  "ipv6_firewall_key_build lan_addr remote_addr lan_port remote_port proto =
     \<lparr>fk_lan_addr = lan_addr, fk_remote_addr = remote_addr, fk_lan_port = lan_port,
      fk_remote_port = remote_port, fk_proto = proto\<rparr>"

definition ipv6_firewall_key_from_packet ::
  "memory \<Rightarrow> nat \<Rightarrow> u16 \<Rightarrow> bool \<Rightarrow> ipv6_firewall_key option" where
  "ipv6_firewall_key_from_packet m ip6 l4_len inbound =
     (let src = ip6_src_addr m ip6;
          dst = ip6_dst_addr m ip6;
          l4 = ip6 + 40;
          proto = ip6_proto m ip6;
          key = (\<lambda>lan_port remote_port. Some (ipv6_firewall_key_build
                   (if inbound then dst else src) (if inbound then src else dst)
                   lan_port remote_port proto))
      in if proto = IPPROTO_TCP \<or> proto = IPPROTO_UDP then
           if l4_len < 4 then None
           else key (if inbound then word16_at m (l4 + 2) else word16_at m l4)
                    (if inbound then word16_at m l4 else word16_at m (l4 + 2))
         else if proto = IPPROTO_ICMPV6 then
           if l4_len < 8 then None
           else if m l4 \<noteq> (if inbound then ICMP6_ECHO_REPLY else ICMP6_ECHO_REQUEST) then None
           else key (word16_at m (l4 + 4)) 0
         else None)"

section \<open>Deadlines\<close>

definition ipv6_firewall_expiry_cycles :: "clock \<Rightarrow> u64" where
  "ipv6_firewall_expiry_cycles clk = cur_cycles clk + IPV6_FIREWALL_ENTRY_TIMEOUT_SEC * cycles_in_sec clk"

definition ipv6_firewall_entry_is_expired :: "clock \<Rightarrow> ('h, 'r) fw_ccb \<Rightarrow> nat \<Rightarrow> bool" where
  "ipv6_firewall_entry_is_expired clk st idx \<longleftrightarrow> fw_expire_at st idx < cur_cycles clk"

definition ipv6_firewall_mark_used :: "clock \<Rightarrow> nat \<Rightarrow> ('h, 'r) fw_ccb \<Rightarrow> ('h, 'r) fw_ccb" where
  "ipv6_firewall_mark_used clk idx st =
     (let now = cur_cycles clk;
          last = fw_last_used st idx;
          st1 = st\<lparr>fw_expire_at := (fw_expire_at st)(idx :=
                  nat_expire_refresh clk (fw_expire_at st idx)
                    (now + IPV6_FIREWALL_ENTRY_TIMEOUT_SEC * cycles_in_sec clk))\<rparr>
      in if 1 * cycles_in_sec clk < now - last
         then st1\<lparr>fw_last_used := (fw_last_used st1)(idx := now)\<rparr> else st1)"

section \<open>Tracking through the entry\<close>

definition ipv6_firewall_conntrack_view :: "ipv6_firewall_entry \<times> u64 \<Rightarrow> tcp_conntrack_view" where
  "ipv6_firewall_conntrack_view p = (case p of (e, slot) \<Rightarrow>
     \<lparr>tcp_state = fe_tcp_state e, tcp_fin_flags = fe_tcp_fin_flags e, expire_slot = slot,
      max_seq_end_lan = fe_max_seq_end_lan e, max_seq_end_wan = fe_max_seq_end_wan e,
      max_ack_lan = fe_max_ack_lan e, max_ack_wan = fe_max_ack_wan e,
      max_win_lan = fe_max_win_lan e, max_win_wan = fe_max_win_wan e\<rparr>)"

definition fw_view_write :: "tcp_conntrack_view \<Rightarrow> ipv6_firewall_entry \<times> u64 \<Rightarrow> ipv6_firewall_entry \<times> u64" where
  "fw_view_write v p = (case p of (e, slot) \<Rightarrow>
     (e\<lparr>fe_tcp_state := tcp_state v, fe_tcp_fin_flags := tcp_fin_flags v,
        fe_max_seq_end_lan := max_seq_end_lan v, fe_max_seq_end_wan := max_seq_end_wan v,
        fe_max_ack_lan := max_ack_lan v, fe_max_ack_wan := max_ack_wan v,
        fe_max_win_lan := max_win_lan v, fe_max_win_wan := max_win_wan v\<rparr>, expire_slot v))"

definition fw_entry_pair :: "('h, 'r) fw_ccb \<Rightarrow> nat \<Rightarrow> ipv6_firewall_entry \<times> u64" where
  "fw_entry_pair st idx = (fw_table st idx, fw_expire_at st idx)"

definition fw_set_entry_pair ::
  "nat \<Rightarrow> ipv6_firewall_entry \<times> u64 \<Rightarrow> ('h, 'r) fw_ccb \<Rightarrow> ('h, 'r) fw_ccb" where
  "fw_set_entry_pair idx p st =
     st\<lparr>fw_table := (fw_table st)(idx := fst p), fw_expire_at := (fw_expire_at st)(idx := snd p)\<rparr>"

definition fw_tcp_payload :: "tcp_hdr \<Rightarrow> u16 \<Rightarrow> u16" where
  "fw_tcp_payload tcp payload_len =
     (let hdr_len = ucast ((drop_bit 4 (data_off tcp)) AND 0x0F) * 4
      in if hdr_len < payload_len then payload_len - hdr_len else 0)"

text \<open>The state machine and the sequence baseline, run on the session at \<open>idx\<close>.\<close>

definition fw_track :: "clock \<Rightarrow> nat \<Rightarrow> tcp_hdr \<Rightarrow> u16 \<Rightarrow> bool \<Rightarrow> ('h, 'r) fw_ccb \<Rightarrow> ('h, 'r) fw_ccb" where
  "fw_track clk idx tcp payload_len is_reply st =
     fw_set_entry_pair idx
       (conntrack_track ipv6_firewall_conntrack_view fw_view_write clk (fw_entry_pair st idx) tcp
          (fw_tcp_payload tcp payload_len) is_reply) st"

section \<open>Pool and hash\<close>

definition ipv6_firewall_hash_free_cb :: "('h, 'r) fw_dpdk \<Rightarrow> nat \<Rightarrow> ('h, 'r) fw_ccb \<Rightarrow> ('h, 'r) fw_ccb" where
  "ipv6_firewall_hash_free_cb D idx st =
     st\<lparr>fw_expire_at := (fw_expire_at st)(idx := 0),
        fw_last_used := (fw_last_used st)(idx := 0),
        fw_table := (fw_table st)(idx := (fw_table st idx)\<lparr>fe_is_fill := IPV6_FIREWALL_ENTRY_FREE\<rparr>),
        fw_free_ring := Some (fst (ring_enqueue (fw_ring_ops D) (the (fw_free_ring st)) idx))\<rparr>"

text \<open>
  The calls of the hash, each followed by the callbacks for the data the defer queue releases during
  it, in the order it releases them.
\<close>

definition fw_run_cbs :: "('h, 'r) fw_dpdk \<Rightarrow> nat list \<Rightarrow> ('h, 'r) fw_ccb \<Rightarrow> ('h, 'r) fw_ccb" where
  "fw_run_cbs D freed st = fold (ipv6_firewall_hash_free_cb D) freed st"

definition fw_hash_del :: "('h, 'r) fw_dpdk \<Rightarrow> ipv6_firewall_key \<Rightarrow> ('h, 'r) fw_ccb \<Rightarrow> bool \<times> ('h, 'r) fw_ccb" where
  "fw_hash_del D key st =
     (case hash_del (fw_hash_ops D) (the (fw_hash st)) key of
        (h, ok, freed) \<Rightarrow> (ok, fw_run_cbs D freed (st\<lparr>fw_hash := Some h\<rparr>)))"

definition fw_hash_add ::
  "('h, 'r) fw_dpdk \<Rightarrow> ipv6_firewall_key \<Rightarrow> nat \<Rightarrow> ('h, 'r) fw_ccb \<Rightarrow> bool \<times> ('h, 'r) fw_ccb" where
  "fw_hash_add D key idx st =
     (case hash_add (fw_hash_ops D) (the (fw_hash st)) key idx of
        (h, ok, freed) \<Rightarrow> (ok, fw_run_cbs D freed (st\<lparr>fw_hash := Some h\<rparr>)))"

definition fw_dq_reclaim :: "('h, 'r) fw_dpdk \<Rightarrow> ('h, 'r) fw_ccb \<Rightarrow> ('h, 'r) fw_ccb" where
  "fw_dq_reclaim D st =
     (case hash_reclaim (fw_hash_ops D) (the (fw_hash st)) of
        (h, freed) \<Rightarrow> fw_run_cbs D freed (st\<lparr>fw_hash := Some h\<rparr>))"

definition fw_ring_dequeue :: "('h, 'r) fw_dpdk \<Rightarrow> ('h, 'r) fw_ccb \<Rightarrow> nat option \<times> ('h, 'r) fw_ccb" where
  "fw_ring_dequeue D st =
     (case ring_dequeue (fw_ring_ops D) (the (fw_free_ring st)) of
        (r, res) \<Rightarrow> (res, st\<lparr>fw_free_ring := Some r\<rparr>))"

fun fw_del_all_from :: "('h, 'r) fw_dpdk \<Rightarrow> nat list \<Rightarrow> ('h, 'r) fw_ccb \<Rightarrow> ('h, 'r) fw_ccb" where
  "fw_del_all_from D [] st = st"
| "fw_del_all_from D (i # is) st =
     (if fw_expire_at st i = 0 then fw_del_all_from D is st
      else if fe_is_fill (fw_table st i) = IPV6_FIREWALL_ENTRY_READY
      then fw_del_all_from D is (snd (fw_hash_del D (fe_key (fw_table st i)) st))
      else fw_del_all_from D is st)"

definition ipv6_firewall_table_del_all_entries_from_hash ::
  "('h, 'r) fw_dpdk \<Rightarrow> ('h, 'r) fw_ccb \<Rightarrow> ('h, 'r) fw_ccb" where
  "ipv6_firewall_table_del_all_entries_from_hash D st =
     (fw_del_all_from D [0..<IPV6_FIREWALL_MAX_ENTRIES] st)
       \<lparr>fw_gc_counter := 0, fw_enospc := 0, fw_gc_reclaimed := 0, fw_evicted := 0,
        fw_icmp6_err_passed := 0, fw_icmp6_err_dropped := 0\<rparr>"

section \<open>Creation and removal\<close>

text \<open>
  What the library answers while a table is created: an existing hash and ring of that name, the
  objects it creates (\<open>None\<close> when it cannot), and whether the defer queue could be attached.
\<close>

record ('h, 'r) fw_create =
  hash_find_existing :: "'h option"
  hash_create :: "'h option"
  hash_rcu_qsbr_add :: bool
  ring_lookup :: "'r option"
  ring_create :: "'r option"

definition ipv6_firewall_table_destroy :: "('h, 'r) fw_ccb \<Rightarrow> ('h, 'r) fw_ccb" where
  "ipv6_firewall_table_destroy st = st\<lparr>fw_hash := None, fw_free_ring := None\<rparr>"

fun fw_table_init_entries :: "nat \<Rightarrow> ('h, 'r) fw_ccb \<Rightarrow> ('h, 'r) fw_ccb" where
  "fw_table_init_entries 0 st = st"
| "fw_table_init_entries (Suc i) st =
     (let st' = fw_table_init_entries i st in
      st'\<lparr>fw_expire_at := (fw_expire_at st')(i := 0), fw_last_used := (fw_last_used st')(i := 0),
          fw_table := (fw_table st')(i := (fw_table st' i)\<lparr>fe_is_fill := IPV6_FIREWALL_ENTRY_FREE\<rparr>)\<rparr>)"

fun fw_table_enqueue_all_entries_to_ring ::
  "('h, 'r) fw_dpdk \<Rightarrow> nat \<Rightarrow> ('h, 'r) fw_ccb \<Rightarrow> ('h, 'r) fw_ccb" where
  "fw_table_enqueue_all_entries_to_ring D 0 st = st"
| "fw_table_enqueue_all_entries_to_ring D (Suc i) st =
     (let st' = fw_table_enqueue_all_entries_to_ring D i st in
      st'\<lparr>fw_free_ring := Some (fst (ring_enqueue (fw_ring_ops D) (the (fw_free_ring st')) i))\<rparr>)"

definition fw_init_hash :: "('h, 'r) fw_create \<Rightarrow> 'h option" where
  "fw_init_hash c =
     (case hash_find_existing c of
        Some h \<Rightarrow> Some h
      | None \<Rightarrow> (case hash_create c of None \<Rightarrow> None | Some h \<Rightarrow> if hash_rcu_qsbr_add c then Some h else None))"

definition fw_init_ring :: "('h, 'r) fw_create \<Rightarrow> 'r option" where
  "fw_init_ring c = (case ring_lookup c of Some r \<Rightarrow> Some r | None \<Rightarrow> ring_create c)"

definition ipv6_firewall_table_init ::
  "('h, 'r) fw_dpdk \<Rightarrow> ('h, 'r) fw_create \<Rightarrow> ('h, 'r) fw_ccb \<Rightarrow> status \<times> ('h, 'r) fw_ccb" where
  "ipv6_firewall_table_init D c st =
     (case fw_init_hash c of
        None \<Rightarrow> (ERROR, st\<lparr>fw_hash := None\<rparr>)
      | Some h \<Rightarrow>
        (case fw_init_ring c of
           None \<Rightarrow> (ERROR, ipv6_firewall_table_destroy (st\<lparr>fw_hash := Some h, fw_free_ring := None\<rparr>))
         | Some r \<Rightarrow>
             let st1 = st\<lparr>fw_hash := Some h, fw_free_ring := Some r\<rparr>;
                 st2 = fw_table_init_entries IPV6_FIREWALL_MAX_ENTRIES st1;
                 st3 = fw_table_enqueue_all_entries_to_ring D IPV6_FIREWALL_MAX_ENTRIES st2
             in (SUCCESS, st3\<lparr>fw_gc_counter := 0, fw_enospc := 0, fw_gc_reclaimed := 0, fw_evicted := 0,
                              fw_icmp6_err_passed := 0, fw_icmp6_err_dropped := 0\<rparr>)))"

section \<open>Garbage collection and eviction\<close>

definition fw_gc_slot ::
  "('h, 'r) fw_dpdk \<Rightarrow> clock \<Rightarrow> nat \<Rightarrow> u32 \<times> ('h, 'r) fw_ccb \<Rightarrow> u32 \<times> ('h, 'r) fw_ccb" where
  "fw_gc_slot D clk idx acc =
     (case acc of (reclaimed, st) \<Rightarrow>
        let deadline = fw_expire_at st idx in
        if deadline = 0 \<or> cur_cycles clk < deadline then (reclaimed, st)
        else if fe_is_fill (fw_table st idx) \<noteq> IPV6_FIREWALL_ENTRY_READY then (reclaimed, st)
        else case fw_hash_del D (fe_key (fw_table st idx)) st of
          (ok, st') \<Rightarrow> (if ok then reclaimed + 1 else reclaimed, st'))"

definition ipv6_firewall_gc_scan_by_ccb ::
  "('h, 'r) fw_dpdk \<Rightarrow> clock \<Rightarrow> nat \<Rightarrow> ('h, 'r) fw_ccb \<Rightarrow> u32 \<times> ('h, 'r) fw_ccb" where
  "ipv6_firewall_gc_scan_by_ccb D clk max_slots st =
     (let start = fw_gc_counter st;
          st0 = st\<lparr>fw_gc_counter := start + of_nat max_slots\<rparr>;
          (reclaimed, st1) =
            fold (\<lambda>n. fw_gc_slot D clk (unat (start + of_nat n) mod IPV6_FIREWALL_MAX_ENTRIES))
              [0..<max_slots] (0, st0);
          st2 = (if 0 < reclaimed
                 then st1\<lparr>fw_gc_reclaimed := fw_gc_reclaimed st1 + ucast reclaimed\<rparr> else st1)
      in (reclaimed, fw_dq_reclaim D st2))"

text \<open>The scan for the oldest stamp: the pair is \<open>oldest\<close> and \<open>victim\<close>.\<close>

definition fw_lru_step :: "(nat \<Rightarrow> u64) \<Rightarrow> nat \<Rightarrow> u64 \<times> nat \<Rightarrow> u64 \<times> nat" where
  "fw_lru_step last_used i acc =
     (let stamp = last_used i in
      if stamp = 0 \<or> fst acc \<le> stamp then acc else (stamp, i))"

definition fw_lru_victim :: "(nat \<Rightarrow> u64) \<Rightarrow> nat" where
  "fw_lru_victim last_used =
     snd (fold (fw_lru_step last_used) [0..<IPV6_FIREWALL_MAX_ENTRIES] (- 1, IPV6_FIREWALL_MAX_ENTRIES))"

definition ipv6_firewall_evict_lru :: "('h, 'r) fw_dpdk \<Rightarrow> ('h, 'r) fw_ccb \<Rightarrow> bool \<times> ('h, 'r) fw_ccb" where
  "ipv6_firewall_evict_lru D st =
     (let victim = fw_lru_victim (fw_last_used st) in
      if victim = IPV6_FIREWALL_MAX_ENTRIES then (False, st)
      else if fe_is_fill (fw_table st victim) \<noteq> IPV6_FIREWALL_ENTRY_READY then (False, st)
      else case fw_hash_del D (fe_key (fw_table st victim)) st of
             (ok, st') \<Rightarrow> if \<not> ok then (False, st')
                         else (True, st'\<lparr>fw_evicted := fw_evicted st' + 1\<rparr>))"

definition ipv6_firewall_slot_alloc ::
  "('h, 'r) fw_dpdk \<Rightarrow> clock \<Rightarrow> ('h, 'r) fw_ccb \<Rightarrow> nat option \<times> ('h, 'r) fw_ccb" where
  "ipv6_firewall_slot_alloc D clk st =
     (case fw_ring_dequeue D st of
        (Some idx, st1) \<Rightarrow> (Some idx, st1)
      | (None, st1) \<Rightarrow>
        (case fw_ring_dequeue D (snd (ipv6_firewall_gc_scan_by_ccb D clk IPV6_FIREWALL_GC_SCAN_CHUNK st1)) of
           (Some idx, st2) \<Rightarrow> (Some idx, st2)
         | (None, st2) \<Rightarrow>
           (case ipv6_firewall_evict_lru D st2 of
              (True, st3) \<Rightarrow> fw_ring_dequeue D (fw_dq_reclaim D st3)
            | (False, st3) \<Rightarrow> (None, st3))))"

section \<open>Lookup, insertion and learning\<close>

text \<open>An entry pointer is its index in the pool; NULL is \<open>None\<close>.\<close>

definition ipv6_firewall_lookup :: "('h, 'r) fw_dpdk \<Rightarrow> ipv6_firewall_key \<Rightarrow> ('h, 'r) fw_ccb \<Rightarrow> nat option" where
  "ipv6_firewall_lookup D key st = hash_lookup (fw_hash_ops D) (the (fw_hash st)) key"

definition ipv6_firewall_lookup_live ::
  "('h, 'r) fw_dpdk \<Rightarrow> clock \<Rightarrow> ipv6_firewall_key \<Rightarrow> ('h, 'r) fw_ccb \<Rightarrow> nat option \<times> ('h, 'r) fw_ccb" where
  "ipv6_firewall_lookup_live D clk key st =
     (case ipv6_firewall_lookup D key st of
        None \<Rightarrow> (None, st)
      | Some idx \<Rightarrow>
          if ipv6_firewall_entry_is_expired clk st idx then (None, snd (fw_hash_del D key st))
          else (Some idx, st))"

definition fw_fill_entry :: "ipv6_firewall_key \<Rightarrow> ipv6_firewall_entry \<Rightarrow> ipv6_firewall_entry" where
  "fw_fill_entry key e = e\<lparr>fe_key := key, fe_tcp_state := TCP_CONNTRACK_NONE, fe_tcp_fin_flags := 0,
     fe_max_seq_end_lan := 0, fe_max_seq_end_wan := 0, fe_max_ack_lan := 0, fe_max_ack_wan := 0,
     fe_max_win_lan := 0, fe_max_win_wan := 0, fe_is_fill := IPV6_FIREWALL_ENTRY_READY\<rparr>"

definition fw_count_enospc :: "('h, 'r) fw_ccb \<Rightarrow> ('h, 'r) fw_ccb" where
  "fw_count_enospc st = st\<lparr>fw_enospc := fw_enospc st + 1\<rparr>"

definition fw_publish ::
  "('h, 'r) fw_dpdk \<Rightarrow> clock \<Rightarrow> ipv6_firewall_key \<Rightarrow> nat \<Rightarrow> ('h, 'r) fw_ccb \<Rightarrow> nat option \<times> ('h, 'r) fw_ccb" where
  "fw_publish D clk key idx st =
     (let st1 = st\<lparr>fw_table := (fw_table st)(idx := fw_fill_entry key (fw_table st idx)),
                   fw_expire_at := (fw_expire_at st)(idx :=
                     nat_expire_set (fw_expire_at st idx) (ipv6_firewall_expiry_cycles clk)),
                   fw_last_used := (fw_last_used st)(idx := cur_cycles clk)\<rparr>
      in case fw_hash_add D key idx st1 of
           (True, st2) \<Rightarrow> (Some idx, st2)
         | (False, st2) \<Rightarrow>
             (None, fw_count_enospc (st2
                \<lparr>fw_expire_at := (fw_expire_at st2)(idx := 0),
                 fw_last_used := (fw_last_used st2)(idx := 0),
                 fw_table := (fw_table st2)(idx := (fw_table st2 idx)\<lparr>fe_is_fill := IPV6_FIREWALL_ENTRY_FREE\<rparr>),
                 fw_free_ring := Some (fst (ring_enqueue (fw_ring_ops D) (the (fw_free_ring st2)) idx))\<rparr>)))"

definition ipv6_firewall_insert ::
  "('h, 'r) fw_dpdk \<Rightarrow> clock \<Rightarrow> ipv6_firewall_key \<Rightarrow> ('h, 'r) fw_ccb \<Rightarrow> nat option \<times> ('h, 'r) fw_ccb" where
  "ipv6_firewall_insert D clk key st =
     (case ipv6_firewall_lookup D key st of
        Some idx \<Rightarrow> (Some idx, st)
      | None \<Rightarrow>
        (case ipv6_firewall_slot_alloc D clk st of
           (None, st1) \<Rightarrow> (None, fw_count_enospc st1)
         | (Some idx, st1) \<Rightarrow> fw_publish D clk key idx st1))"

definition ipv6_firewall_learn :: "('h, 'r) fw_dpdk \<Rightarrow> clock \<Rightarrow> memory \<Rightarrow> ('h, 'r) fw_ccb \<Rightarrow> ('h, 'r) fw_ccb" where
  "ipv6_firewall_learn D clk m st =
     (let payload_len = rte_be_to_cpu_16 (ip6_payload_len m 0);
          proto = ip6_proto m 0
      in if fw_hash st = None then st
         else if proto = IPPROTO_TCP \<and> payload_len < 20 then st
         else if proto = IPPROTO_UDP \<and> payload_len < 8 then st
         else case ipv6_firewall_key_from_packet m 0 payload_len False of
           None \<Rightarrow> st
         | Some key \<Rightarrow>
             (case (case ipv6_firewall_lookup D key st of
                      None \<Rightarrow> ipv6_firewall_insert D clk key st
                    | Some idx \<Rightarrow> (Some idx, ipv6_firewall_mark_used clk idx st)) of
                (None, st1) \<Rightarrow> st1
              | (Some idx, st1) \<Rightarrow>
                  if proto = IPPROTO_TCP then fw_track clk idx (tcp_hdr_at m 40) payload_len False st1
                  else st1))"

section \<open>Inbound verdict\<close>

definition ipv6_firewall_tcp_inbound_pass ::
  "clock \<Rightarrow> nat \<Rightarrow> memory \<Rightarrow> u16 \<Rightarrow> ('h, 'r) fw_ccb \<Rightarrow> bool \<times> ('h, 'r) fw_ccb" where
  "ipv6_firewall_tcp_inbound_pass clk idx m payload_len st =
     (let tcp = tcp_hdr_at m 40;
          view = ipv6_firewall_conntrack_view (fw_entry_pair st idx)
      in if payload_len < 20 then (False, st)
         else
           let inbound_ok = tcp_conntrack_inbound_valid (fe_tcp_state (fw_table st idx)) (tcp_flags tcp);
               seq_ok = (inbound_ok \<and> tcp_conntrack_seq_valid_view view tcp True)
           in if \<not> inbound_ok \<or> \<not> seq_ok then (\<not> fw_conntrack_enabled st, st)
              else (True, fw_track clk idx tcp payload_len True st))"

definition ipv6_firewall_icmp6_error_pass ::
  "('h, 'r) fw_dpdk \<Rightarrow> clock \<Rightarrow> memory \<Rightarrow> u16 \<Rightarrow> ('h, 'r) fw_ccb \<Rightarrow> bool \<times> ('h, 'r) fw_ccb" where
  "ipv6_firewall_icmp6_error_pass D clk m payload_len st =
     (let quoted = 40 + 8;
          quoted_l4_len = payload_len - 8 - 40;
          drop = (\<lambda>s. (False, s\<lparr>fw_icmp6_err_dropped := fw_icmp6_err_dropped s + 1\<rparr>))
      in if payload_len < 8 + 40 + 8 then drop st
         else if ip6_src_addr m quoted \<noteq> ip6_dst_addr m 0 then drop st
         else case ipv6_firewall_key_from_packet m quoted quoted_l4_len False of
           None \<Rightarrow> drop st
         | Some key \<Rightarrow>
             (case ipv6_firewall_lookup_live D clk key st of
                (None, st1) \<Rightarrow> drop st1
              | (Some idx, st1) \<Rightarrow> (True, st1\<lparr>fw_icmp6_err_passed := fw_icmp6_err_passed st1 + 1\<rparr>)))"

definition ipv6_firewall_inbound_pass ::
  "('h, 'r) fw_dpdk \<Rightarrow> clock \<Rightarrow> memory \<Rightarrow> ('h, 'r) fw_ccb \<Rightarrow> bool \<times> ('h, 'r) fw_ccb" where
  "ipv6_firewall_inbound_pass D clk m st =
     (let payload_len = rte_be_to_cpu_16 (ip6_payload_len m 0);
          proto = ip6_proto m 0
      in if fw_hash st = None then (False, st)
         else if proto = IPPROTO_ICMPV6 \<and> 0 < payload_len \<and> icmp6_type_is_error (m 40)
         then ipv6_firewall_icmp6_error_pass D clk m payload_len st
         else case ipv6_firewall_key_from_packet m 0 payload_len True of
           None \<Rightarrow> (False, st)
         | Some key \<Rightarrow>
             (case ipv6_firewall_lookup_live D clk key st of
                (None, st1) \<Rightarrow> (False, st1)
              | (Some idx, st1) \<Rightarrow>
                  let st2 = ipv6_firewall_mark_used clk idx st1 in
                  if proto \<noteq> IPPROTO_TCP then (True, st2)
                  else ipv6_firewall_tcp_inbound_pass clk idx m payload_len st2))"

section \<open>The tracker's view of an entry\<close>

definition fw_entry_id where
  "fw_entry_id p = (fe_key (fst p), fe_is_fill (fst p))"

interpretation fw_conn: conntrack_view ipv6_firewall_conntrack_view fw_view_write fw_entry_id
  by unfold_locales
    (auto simp: ipv6_firewall_conntrack_view_def fw_view_write_def fw_entry_id_def)

end
