(* ===== verification/Ipv6_Firewall_Inv.thy ===== *)
theory Ipv6_Firewall_Inv
  imports Ipv6_Firewall
begin

text \<open>
  The abstraction of the IPv6 firewall to a map from keys to sessions, the slot accounting \<open>fw_wf\<close>
  that makes the abstraction well defined, and the effect of every primitive of the firewall on
  both: callbacks and reclaims are invisible, deleting and adding keys are map updates.
\<close>

section \<open>Abstraction of the library objects\<close>

record ('h, 'r) fw_abs =
  fwA :: "'h \<Rightarrow> ipv6_firewall_key \<Rightarrow> nat option"
  fwQ :: "'h \<Rightarrow> nat list"
  fwL :: "'r \<Rightarrow> nat list"

definition fw_dpdk_ok :: "('h, 'r) fw_dpdk \<Rightarrow> ('h, 'r) fw_abs \<Rightarrow> bool" where
  "fw_dpdk_ok D M \<longleftrightarrow>
     rte_hash_contract (fw_hash_ops D) (fwA M) (fwQ M) \<and>
     rte_ring_contract (fw_ring_ops D) (fwL M) IPV6_FIREWALL_MAX_ENTRIES"

abbreviation fw_map where "fw_map M st \<equiv> fwA M (the (fw_hash st))"
abbreviation fw_dq where "fw_dq M st \<equiv> fwQ M (the (fw_hash st))"
abbreviation fw_free where "fw_free M st \<equiv> fwL M (the (fw_free_ring st))"

text \<open>A session: its entry, its deadline and its recency stamp. The table, seen by its clients, is a map.\<close>

type_synonym fw_session = "ipv6_firewall_entry \<times> u64 \<times> u64"

definition fw_slot :: "('h, 'r) fw_ccb \<Rightarrow> nat \<Rightarrow> fw_session" where
  "fw_slot st i = (fw_table st i, fw_expire_at st i, fw_last_used st i)"

definition fw_sessions :: "('h, 'r) fw_abs \<Rightarrow> ('h, 'r) fw_ccb \<Rightarrow> ipv6_firewall_key \<Rightarrow> fw_session option" where
  "fw_sessions M st k = map_option (fw_slot st) (fw_map M st k)"

definition fw_wf :: "('h, 'r) fw_abs \<Rightarrow> nat multiset \<Rightarrow> ('h, 'r) fw_ccb \<Rightarrow> bool" where
  "fw_wf M hand st \<longleftrightarrow>
     fw_hash st \<noteq> None \<and> fw_free_ring st \<noteq> None \<and>
     slots_ok IPV6_FIREWALL_MAX_ENTRIES (fw_free M st) (fw_dq M st) (ran (fw_map M st)) hand \<and>
     (\<forall>k i. fw_map M st k = Some i \<longrightarrow>
        fe_is_fill (fw_table st i) = IPV6_FIREWALL_ENTRY_READY \<and> fe_key (fw_table st i) = k) \<and>
     (\<forall>i \<in> set (fw_free M st). fe_is_fill (fw_table st i) = IPV6_FIREWALL_ENTRY_FREE \<and>
        fw_expire_at st i = 0 \<and> fw_last_used st i = 0)"

lemma fw_wfD:
  assumes "fw_wf M hand st"
  shows "fw_hash st \<noteq> None" and "fw_free_ring st \<noteq> None"
    and "slots_ok IPV6_FIREWALL_MAX_ENTRIES (fw_free M st) (fw_dq M st) (ran (fw_map M st)) hand"
    and "fw_map M st k = Some i \<Longrightarrow> fe_is_fill (fw_table st i) = IPV6_FIREWALL_ENTRY_READY"
    and "fw_map M st k = Some i \<Longrightarrow> fe_key (fw_table st i) = k"
    and "i \<in> set (fw_free M st) \<Longrightarrow> fe_is_fill (fw_table st i) = IPV6_FIREWALL_ENTRY_FREE \<and>
           fw_expire_at st i = 0 \<and> fw_last_used st i = 0"
  using assms by (auto simp: fw_wf_def)

lemma fw_wf_irrelevant [simp]:
  "fw_wf M hand (st\<lparr>fw_gc_counter := c\<rparr>) = fw_wf M hand st"
  "fw_wf M hand (st\<lparr>fw_gc_reclaimed := g\<rparr>) = fw_wf M hand st"
  "fw_wf M hand (st\<lparr>fw_evicted := g\<rparr>) = fw_wf M hand st"
  "fw_wf M hand (st\<lparr>fw_enospc := g\<rparr>) = fw_wf M hand st"
  "fw_wf M hand (st\<lparr>fw_icmp6_err_passed := g\<rparr>) = fw_wf M hand st"
  "fw_wf M hand (st\<lparr>fw_icmp6_err_dropped := g\<rparr>) = fw_wf M hand st"
  by (simp_all add: fw_wf_def)

lemma fw_slot_irrelevant [simp]:
  "fw_slot (st\<lparr>fw_gc_counter := c\<rparr>) = fw_slot st"
  "fw_slot (st\<lparr>fw_gc_reclaimed := g\<rparr>) = fw_slot st"
  "fw_slot (st\<lparr>fw_evicted := g\<rparr>) = fw_slot st"
  "fw_slot (st\<lparr>fw_enospc := g\<rparr>) = fw_slot st"
  "fw_slot (st\<lparr>fw_icmp6_err_passed := g\<rparr>) = fw_slot st"
  "fw_slot (st\<lparr>fw_icmp6_err_dropped := g\<rparr>) = fw_slot st"
  "fw_slot (st\<lparr>fw_hash := h\<rparr>) = fw_slot st"
  "fw_slot (st\<lparr>fw_free_ring := r\<rparr>) = fw_slot st"
  by (simp_all add: fw_slot_def fun_eq_iff)

lemma fw_sessions_irrelevant [simp]:
  "fw_sessions M (st\<lparr>fw_gc_counter := c\<rparr>) = fw_sessions M st"
  "fw_sessions M (st\<lparr>fw_gc_reclaimed := g\<rparr>) = fw_sessions M st"
  "fw_sessions M (st\<lparr>fw_evicted := g\<rparr>) = fw_sessions M st"
  "fw_sessions M (st\<lparr>fw_enospc := g\<rparr>) = fw_sessions M st"
  "fw_sessions M (st\<lparr>fw_icmp6_err_passed := g\<rparr>) = fw_sessions M st"
  "fw_sessions M (st\<lparr>fw_icmp6_err_dropped := g\<rparr>) = fw_sessions M st"
  by (simp_all add: fw_sessions_def fun_eq_iff)

lemma sessions_frame:
  assumes "fw_hash st' = fw_hash st" and "\<And>k i. fw_map M st k = Some i \<Longrightarrow> fw_slot st' i = fw_slot st i"
  shows "fw_sessions M st' = fw_sessions M st"
  using assms by (auto simp: fw_sessions_def fun_eq_iff intro!: option.map_cong)

lemma fw_map_inj:
  "fw_wf M hand st \<Longrightarrow> fw_map M st k = Some i \<Longrightarrow> fw_map M st k' = Some i \<Longrightarrow> k = k'"
  using fw_wfD(5) by metis

lemma fw_map_bound: "fw_wf M hand st \<Longrightarrow> fw_map M st k = Some i \<Longrightarrow> i < IPV6_FIREWALL_MAX_ENTRIES"
  using slots_ok_member(3) fw_wfD(3) by (metis ranI)

lemma ran_map_delete:
  assumes "fw_wf M hand st" and "fw_map M st k = Some j"
  shows "ran ((fw_map M st)(k := None)) = ran (fw_map M st) - {j}"
proof (intro set_eqI iffI)
  fix x
  assume "x \<in> ran (fw_map M st) - {j}"
  then obtain k' where "fw_map M st k' = Some x" "x \<noteq> j" by (auto simp: ran_def)
  with assms(2) show "x \<in> ran ((fw_map M st)(k := None))"
    by (intro ranI [of _ k']) auto
next
  fix x
  assume "x \<in> ran ((fw_map M st)(k := None))"
  then obtain k' where "k' \<noteq> k" "fw_map M st k' = Some x" by (auto simp: ran_def split: if_splits)
  with fw_map_inj [OF assms(1)] assms(2) show "x \<in> ran (fw_map M st) - {j}"
    by (auto intro: ranI)
qed

lemma slots_ok_hand_distinct:
  assumes "slots_ok n free dq live (hand + mset fr)" and "i \<in># hand"
  shows "i \<notin> set fr"
proof
  assume "i \<in> set fr"
  then have "0 < count (mset fr) i" by simp
  moreover have "0 < count hand i" using assms(2) by simp
  moreover have "count hand i + count (mset fr) i \<le> count (mset free + mset dq + mset_set live + (hand + mset fr)) i"
    by simp
  moreover have "\<dots> \<le> 1"
    using assms(1) by (simp add: slots_ok_def count_mset_set')
  ultimately show False by linarith
qed

section \<open>Callbacks\<close>

lemma fw_run_cbs_simps [simp]:
  "fw_run_cbs D [] st = st"
  "fw_run_cbs D (x # xs) st = fw_run_cbs D xs (ipv6_firewall_hash_free_cb D x st)"
  by (simp_all add: fw_run_cbs_def)

text \<open>Callbacks touch the slots they free, and of the rest of the state only the free list.\<close>

lemma fw_run_cbs_frame [simp]:
  "fw_hash (fw_run_cbs D fr st) = fw_hash st"
  "fw_conntrack_enabled (fw_run_cbs D fr st) = fw_conntrack_enabled st"
  "fw_enospc (fw_run_cbs D fr st) = fw_enospc st"
  "fw_evicted (fw_run_cbs D fr st) = fw_evicted st"
  "fw_gc_reclaimed (fw_run_cbs D fr st) = fw_gc_reclaimed st"
  "fw_gc_counter (fw_run_cbs D fr st) = fw_gc_counter st"
  "fw_icmp6_err_passed (fw_run_cbs D fr st) = fw_icmp6_err_passed st"
  "fw_icmp6_err_dropped (fw_run_cbs D fr st) = fw_icmp6_err_dropped st"
  by (induction fr arbitrary: st) (simp_all add: ipv6_firewall_hash_free_cb_def)

lemma fw_run_cbs_slot: "i \<notin> set fr \<Longrightarrow> fw_slot (fw_run_cbs D fr st) i = fw_slot st i"
  by (induction fr arbitrary: st) (simp_all add: ipv6_firewall_hash_free_cb_def fw_slot_def)

lemma fw_run_cbs_key: "fe_key (fw_table (fw_run_cbs D fr st) i) = fe_key (fw_table st i)"
  by (induction fr arbitrary: st) (simp_all add: ipv6_firewall_hash_free_cb_def)

lemma free_cb_wf:
  assumes "fw_dpdk_ok D M" and "fw_wf M (add_mset x hand) st"
  shows "fw_wf M hand (ipv6_firewall_hash_free_cb D x st)"
proof -
  let ?st = "ipv6_firewall_hash_free_cb D x st"
  have ring: "rte_ring_contract (fw_ring_ops D) (fwL M) IPV6_FIREWALL_MAX_ENTRIES"
    using assms(1) by (simp add: fw_dpdk_ok_def)
  note s = fw_wfD(3) [OF assms(2)]
  have "length (fw_free M st) < IPV6_FIREWALL_MAX_ENTRIES"
    using slots_ok_free_length [OF s] by simp
  from ring_enqueueD(1) [OF ring this]
  have fl: "fw_free M ?st = fw_free M st @ [x]" by (simp add: ipv6_firewall_hash_free_cb_def)
  have notlive: "fw_map M st k \<noteq> Some x" for k
    using slots_ok_member(4) [OF s, of x] by (auto simp: ran_def)
  have "slots_ok IPV6_FIREWALL_MAX_ENTRIES (fw_free M ?st) (fw_dq M ?st) (ran (fw_map M ?st)) hand"
    using slots_ok_return [OF s] by (simp add: fl) (simp add: ipv6_firewall_hash_free_cb_def)
  with assms(2) notlive fl show ?thesis
    by (auto simp: fw_wf_def ipv6_firewall_hash_free_cb_def)
qed

lemma run_cbs_wf:
  assumes "fw_dpdk_ok D M" and "fw_wf M (hand + mset fr) st"
  shows "fw_wf M hand (fw_run_cbs D fr st)"
  using assms(2)
proof (induction fr arbitrary: st)
  case (Cons x xs)
  then have "fw_wf M (hand + mset xs) (ipv6_firewall_hash_free_cb D x st)"
    by (intro free_cb_wf [OF assms(1)]) simp
  from Cons.IH [OF this] show ?case by simp
qed simp

text \<open>
  One rule for every call of the hash: the new hash holds the new association, the released data are
  accounted for, and every published slot carries its key. Then the callbacks leave a well-formed
  table whose sessions are those of the new association, and the slots in hand are untouched.
\<close>

lemma hash_call_effect:
  assumes "fw_dpdk_ok D M" and "fw_free_ring st \<noteq> None"
    and slots: "slots_ok IPV6_FIREWALL_MAX_ENTRIES (fw_free M st) (fwQ M h) (ran (fwA M h)) (hand + mset fr)"
    and live: "\<And>k i. fwA M h k = Some i \<Longrightarrow>
      fe_is_fill (fw_table st i) = IPV6_FIREWALL_ENTRY_READY \<and> fe_key (fw_table st i) = k"
    and free: "\<And>i. i \<in> set (fw_free M st) \<Longrightarrow> fe_is_fill (fw_table st i) = IPV6_FIREWALL_ENTRY_FREE \<and>
      fw_expire_at st i = 0 \<and> fw_last_used st i = 0"
  defines "st' \<equiv> fw_run_cbs D fr (st\<lparr>fw_hash := Some h\<rparr>)"
  shows "fw_wf M hand st'" and "fw_sessions M st' k = map_option (fw_slot st) (fwA M h k)"
    and "i \<in># hand \<Longrightarrow> fw_slot st' i = fw_slot st i"
proof -
  have "fw_wf M (hand + mset fr) (st\<lparr>fw_hash := Some h\<rparr>)"
    using assms(2) slots live free by (simp add: fw_wf_def)
  then show "fw_wf M hand st'" unfolding st'_def by (rule run_cbs_wf [OF assms(1)])
  have keep: "fw_slot st' i = fw_slot st i" if "i \<notin> set fr" for i
    using fw_run_cbs_slot [OF that, of D "st\<lparr>fw_hash := Some h\<rparr>"] by (simp add: st'_def fw_slot_def)
  have "i \<notin> set fr" if "i \<in> ran (fwA M h)" for i
    using slots_ok_member(3) [OF slots that] by simp
  then show "fw_sessions M st' k = map_option (fw_slot st) (fwA M h k)"
    using keep by (auto simp: fw_sessions_def st'_def ran_def intro!: option.map_cong)
  show "fw_slot st' i = fw_slot st i" if "i \<in># hand"
    by (rule keep [OF slots_ok_hand_distinct [OF slots that]])
qed

section \<open>Calls of the hash and the ring\<close>

lemma fw_hash_contract: "fw_dpdk_ok D M \<Longrightarrow> rte_hash_contract (fw_hash_ops D) (fwA M) (fwQ M)"
  and fw_ring_contract: "fw_dpdk_ok D M \<Longrightarrow> rte_ring_contract (fw_ring_ops D) (fwL M) IPV6_FIREWALL_MAX_ENTRIES"
  by (simp_all add: fw_dpdk_ok_def)

lemma fw_lookup_eq: "fw_dpdk_ok D M \<Longrightarrow> ipv6_firewall_lookup D k st = fw_map M st k"
  by (simp add: ipv6_firewall_lookup_def hash_lookup_eq [OF fw_hash_contract])

lemma fw_sessions_None [simp]: "fw_sessions M st k = None \<longleftrightarrow> fw_map M st k = None"
  by (simp add: fw_sessions_def)

lemma hash_del_effect:
  fixes k :: ipv6_firewall_key
  assumes "fw_dpdk_ok D M" and "fw_wf M hand st"
  defines "st' \<equiv> snd (fw_hash_del D k st)"
  shows "fw_wf M hand st'" and "fw_sessions M st' = (fw_sessions M st)(k := None)"
    and "fst (fw_hash_del D k st) \<longleftrightarrow> fw_map M st k \<noteq> None"
    and "i \<in># hand \<Longrightarrow> fw_slot st' i = fw_slot st i" and "fw_map M st' = (fw_map M st)(k := None)"
proof -
  obtain h ok fr where d: "hash_del (fw_hash_ops D) (the (fw_hash st)) k = (h, ok, fr)"
    by (metis prod_cases3)
  note rd = hash_delD [OF fw_hash_contract [OF assms(1)] d] and s = fw_wfD(3) [OF assms(2)]
  have st': "st' = fw_run_cbs D fr (st\<lparr>fw_hash := Some h\<rparr>)" and ok: "fst (fw_hash_del D k st) = ok"
    using d by (simp_all add: st'_def fw_hash_del_def)
  have slots: "slots_ok IPV6_FIREWALL_MAX_ENTRIES (fw_free M st) (fwQ M h) (ran (fwA M h)) (hand + mset fr)"
  proof (cases "fw_map M st k")
    case None
    then have "fwA M h = fw_map M st" using rd(1) by auto
    moreover have "mset (fwQ M h) + mset fr = mset (fw_dq M st)" using rd(3) None by simp
    ultimately show ?thesis using slots_ok_release [OF s] by simp
  next
    case (Some j)
    have "ran (fwA M h) = ran (fw_map M st) - {j}"
      using ran_map_delete [OF assms(2) Some] rd(1) by simp
    moreover have "mset (fwQ M h) + mset fr = mset (fw_dq M st) + {#j#}" using rd(3) Some by simp
    moreover have "j \<in> ran (fw_map M st)" using Some by (auto simp: ran_def)
    ultimately show ?thesis using slots_ok_retire [OF s] by simp
  qed
  have live: "fe_is_fill (fw_table st i) = IPV6_FIREWALL_ENTRY_READY \<and> fe_key (fw_table st i) = x"
    if "fwA M h x = Some i" for x i
    using that fw_wfD(4,5) [OF assms(2), of x i] by (simp add: rd(1) split: if_splits)
  note eff = hash_call_effect [OF assms(1) fw_wfD(2) [OF assms(2)] slots live fw_wfD(6) [OF assms(2)], folded st']
  show "fw_wf M hand st'" by (rule eff(1))
  show "fw_sessions M st' = (fw_sessions M st)(k := None)"
    by (rule ext, subst eff(2)) (simp_all add: rd(1) fw_sessions_def)
  show "fst (fw_hash_del D k st) \<longleftrightarrow> fw_map M st k \<noteq> None" by (simp add: ok rd(2))
  show "fw_map M st' = (fw_map M st)(k := None)" by (simp add: st' rd(1))
  show "i \<in># hand \<Longrightarrow> fw_slot st' i = fw_slot st i" by (rule eff(3))
qed

lemma dq_reclaim_effect:
  assumes "fw_dpdk_ok D M" and "fw_wf M hand st"
  shows "fw_wf M hand (fw_dq_reclaim D st)" and "fw_sessions M (fw_dq_reclaim D st) = fw_sessions M st"
    and "i \<in># hand \<Longrightarrow> fw_slot (fw_dq_reclaim D st) i = fw_slot st i"
proof -
  obtain h fr where d: "hash_reclaim (fw_hash_ops D) (the (fw_hash st)) = (h, fr)" by (metis surj_pair)
  note rd = hash_reclaimD [OF fw_hash_contract [OF assms(1)] d]
  have st': "fw_dq_reclaim D st = fw_run_cbs D fr (st\<lparr>fw_hash := Some h\<rparr>)"
    using d by (simp add: fw_dq_reclaim_def)
  have slots: "slots_ok IPV6_FIREWALL_MAX_ENTRIES (fw_free M st) (fwQ M h) (ran (fwA M h)) (hand + mset fr)"
    using slots_ok_release [OF fw_wfD(3) [OF assms(2)] rd(2)] rd(1) by simp
  have live: "fe_is_fill (fw_table st i) = IPV6_FIREWALL_ENTRY_READY \<and> fe_key (fw_table st i) = x"
    if "fwA M h x = Some i" for x i
    using that fw_wfD(4,5) [OF assms(2), of x i] by (simp add: rd(1))
  note eff = hash_call_effect [OF assms(1) fw_wfD(2) [OF assms(2)] slots live fw_wfD(6) [OF assms(2)], folded st']
  show "fw_wf M hand (fw_dq_reclaim D st)" by (rule eff(1))
  show "fw_sessions M (fw_dq_reclaim D st) = fw_sessions M st"
    by (rule ext, subst eff(2)) (simp_all add: rd(1) fw_sessions_def)
  show "i \<in># hand \<Longrightarrow> fw_slot (fw_dq_reclaim D st) i = fw_slot st i" by (rule eff(3))
qed

lemma hash_add_effect:
  assumes "fw_dpdk_ok D M" and "fw_wf M (add_mset j hand) st" and "fw_map M st k = None"
    and "fe_is_fill (fw_table st j) = IPV6_FIREWALL_ENTRY_READY" and "fe_key (fw_table st j) = k"
    and "fw_hash_add D k j st = (ok, st')"
  shows "fw_wf M (if ok then hand else add_mset j hand) st'"
    and "fw_sessions M st' = (if ok then (fw_sessions M st)(k \<mapsto> fw_slot st j) else fw_sessions M st)"
    and "\<not> ok \<Longrightarrow> fw_slot st' j = fw_slot st j" and "ok \<Longrightarrow> fw_map M st' k = Some j"
proof -
  obtain h fr where d: "hash_add (fw_hash_ops D) (the (fw_hash st)) k j = (h, ok, fr)"
    using assms(6) by (auto simp: fw_hash_add_def split: prod.splits)
  note rd = hash_addD [OF fw_hash_contract [OF assms(1)] d assms(3)] and s = fw_wfD(3) [OF assms(2)]
  have st': "st' = fw_run_cbs D fr (st\<lparr>fw_hash := Some h\<rparr>)"
    using d assms(6) by (simp add: fw_hash_add_def)
  let ?hand = "if ok then hand else add_mset j hand"
  have "slots_ok IPV6_FIREWALL_MAX_ENTRIES (fw_free M st) (fw_dq M st) (ran (fwA M h)) ?hand"
    using s slots_ok_publish [OF s] assms(3) by (simp add: rd(1))
  from slots_ok_release [OF this rd(2)]
  have slots: "slots_ok IPV6_FIREWALL_MAX_ENTRIES (fw_free M st) (fwQ M h) (ran (fwA M h)) (?hand + mset fr)" .
  have live: "fe_is_fill (fw_table st i) = IPV6_FIREWALL_ENTRY_READY \<and> fe_key (fw_table st i) = x"
    if "fwA M h x = Some i" for x i
    using that fw_wfD(4,5) [OF assms(2), of x i] assms(4,5) by (auto simp: rd(1) split: if_splits)
  note eff = hash_call_effect [OF assms(1) fw_wfD(2) [OF assms(2)] slots live fw_wfD(6) [OF assms(2)], folded st']
  show "fw_wf M ?hand st'" by (rule eff(1))
  show "fw_sessions M st' = (if ok then (fw_sessions M st)(k \<mapsto> fw_slot st j) else fw_sessions M st)"
    by (rule ext, subst eff(2)) (simp_all add: rd(1) fw_sessions_def)
  show "\<not> ok \<Longrightarrow> fw_slot st' j = fw_slot st j" using eff(3) [of j] by simp
  show "ok \<Longrightarrow> fw_map M st' k = Some j" by (simp add: st' rd(1))
qed

lemma ring_dequeue_effect:
  assumes "fw_dpdk_ok D M" and "fw_wf M {#} st" and "fw_ring_dequeue D st = (res, st')"
  shows "fw_wf M (case res of None \<Rightarrow> {#} | Some i \<Rightarrow> {#i#}) st'" and "fw_sessions M st' = fw_sessions M st"
    and "res = None \<longleftrightarrow> fw_free M st = []"
proof -
  obtain r where d: "ring_dequeue (fw_ring_ops D) (the (fw_free_ring st)) = (r, res)"
    and st': "st' = st\<lparr>fw_free_ring := Some r\<rparr>"
    using assms(3) by (auto simp: fw_ring_dequeue_def split: prod.splits)
  note rd = ring_dequeueD [OF fw_ring_contract [OF assms(1)] d]
  show "fw_wf M (case res of None \<Rightarrow> {#} | Some i \<Rightarrow> {#i#}) st'"
  proof (cases "fw_free M st")
    case Nil
    with rd assms(2) show ?thesis by (auto simp: fw_wf_def st')
  next
    case (Cons x xs)
    with rd assms(2) slots_ok_alloc [of _ x xs] show ?thesis by (auto simp: fw_wf_def st')
  qed
  show "fw_sessions M st' = fw_sessions M st" by (simp add: fw_sessions_def fun_eq_iff st')
  show "res = None \<longleftrightarrow> fw_free M st = []" using rd(1) by (simp split: list.splits)
qed

text \<open>Writing to a published slot changes that session only.\<close>

lemma set_slot_effect:
  assumes "fw_wf M hand st" and "fw_map M st k = Some i"
    and "fw_hash st' = fw_hash st" and "fw_free_ring st' = fw_free_ring st"
    and "\<And>j. j \<noteq> i \<Longrightarrow> fw_slot st' j = fw_slot st j"
    and "fe_is_fill (fw_table st' i) = fe_is_fill (fw_table st i)" and "fe_key (fw_table st' i) = fe_key (fw_table st i)"
  shows "fw_wf M hand st'" and "fw_sessions M st' = (fw_sessions M st)(k \<mapsto> fw_slot st' i)"
proof -
  have free: "i \<notin> set (fw_free M st)"
    using slots_ok_member(3) [OF fw_wfD(3) [OF assms(1)], of i] assms(2) by (auto simp: ran_def)
  have slot: "fw_table st' j = fw_table st j" "fw_expire_at st' j = fw_expire_at st j"
    "fw_last_used st' j = fw_last_used st j" if "j \<noteq> i" for j
    using assms(5) [OF that] by (simp_all add: fw_slot_def)
  have id: "fe_is_fill (fw_table st' j) = fe_is_fill (fw_table st j)" "fe_key (fw_table st' j) = fe_key (fw_table st j)" for j
    using slot [of j] assms(6,7) by (cases "j = i"; simp)+
  have "fw_expire_at st' j = 0 \<and> fw_last_used st' j = 0" if "j \<in> set (fw_free M st)" for j
    using slot(2,3) [of j] fw_wfD(6) [OF assms(1) that] that free by (cases "j = i") simp_all
  with assms(1) show "fw_wf M hand st'" by (simp add: fw_wf_def assms(3,4) id)
  have "fw_slot st' j = fw_slot st j" if "fw_map M st x = Some j" "x \<noteq> k" for x j
    using assms(5) fw_map_inj [OF assms(1,2)] that by metis
  then show "fw_sessions M st' = (fw_sessions M st)(k \<mapsto> fw_slot st' i)"
    using assms(2) by (auto simp: fw_sessions_def fun_eq_iff assms(3) intro!: option.map_cong)
qed

section \<open>Reclaiming and allocating slots\<close>

text \<open>What reclaiming may do to a table: close sessions, and nothing else a client can see.\<close>

definition fw_shrinks :: "('h, 'r) fw_abs \<Rightarrow> ('h, 'r) fw_ccb \<Rightarrow> ('h, 'r) fw_ccb \<Rightarrow> bool" where
  "fw_shrinks M st st' \<longleftrightarrow>
     fw_sessions M st' \<subseteq>\<^sub>m fw_sessions M st \<and>
     fw_conntrack_enabled st' = fw_conntrack_enabled st \<and> fw_enospc st' = fw_enospc st"

lemma fw_shrinks_refl [simp]: "fw_shrinks M st st"
  by (simp add: fw_shrinks_def)

lemma fw_shrinks_trans [trans]: "fw_shrinks M st st' \<Longrightarrow> fw_shrinks M st' st'' \<Longrightarrow> fw_shrinks M st st''"
  by (auto simp: fw_shrinks_def intro: map_le_trans)

lemma fw_shrinks_D:
  "fw_shrinks M st st' \<Longrightarrow> fw_sessions M st' k = Some s \<Longrightarrow> fw_sessions M st k = Some s"
  by (metis domI fw_shrinks_def map_le_def)

lemma fw_shrinks_counters [simp]:
  "fw_shrinks M st (st'\<lparr>fw_evicted := g\<rparr>) = fw_shrinks M st st'"
  "fw_shrinks M st (st'\<lparr>fw_gc_reclaimed := g\<rparr>) = fw_shrinks M st st'"
  "fw_shrinks M (st\<lparr>fw_gc_counter := c\<rparr>) st' = fw_shrinks M st st'"
  by (simp_all add: fw_shrinks_def)

lemma map_le_delete: "m(k := None) \<subseteq>\<^sub>m m"
  by (simp add: map_le_def)

lemma fw_call_frame [simp]:
  "fw_conntrack_enabled (snd (fw_hash_del D k st)) = fw_conntrack_enabled st"
  "fw_enospc (snd (fw_hash_del D k st)) = fw_enospc st"
  "fw_conntrack_enabled (fw_dq_reclaim D st) = fw_conntrack_enabled st"
  "fw_enospc (fw_dq_reclaim D st) = fw_enospc st"
  "fw_conntrack_enabled (snd (fw_ring_dequeue D st)) = fw_conntrack_enabled st"
  "fw_enospc (snd (fw_ring_dequeue D st)) = fw_enospc st"
  "fw_conntrack_enabled (snd (fw_hash_add D k i st)) = fw_conntrack_enabled st"
  "fw_enospc (snd (fw_hash_add D k i st)) = fw_enospc st"
  by (simp_all add: fw_hash_del_def fw_dq_reclaim_def fw_ring_dequeue_def fw_hash_add_def split: prod.splits)

lemma hash_del_shrinks:
  assumes "fw_dpdk_ok D M" and "fw_wf M hand st"
  shows "fw_shrinks M st (snd (fw_hash_del D k st))"
  by (simp add: fw_shrinks_def hash_del_effect(2) [OF assms] map_le_delete)

lemma dq_reclaim_shrinks:
  assumes "fw_dpdk_ok D M" and "fw_wf M hand st"
  shows "fw_shrinks M st (fw_dq_reclaim D st)"
  by (simp add: fw_shrinks_def dq_reclaim_effect(2) [OF assms])

lemma gc_slot_effect:
  assumes "fw_dpdk_ok D M" and "fw_wf M hand (snd acc)"
  shows "fw_wf M hand (snd (fw_gc_slot D clk idx acc))" and "fw_shrinks M (snd acc) (snd (fw_gc_slot D clk idx acc))"
  using hash_del_effect(1) [OF assms, of "fe_key (fw_table (snd acc) idx)"]
    hash_del_shrinks [OF assms, of "fe_key (fw_table (snd acc) idx)"] assms(2)
  by (auto simp: fw_gc_slot_def Let_def split: prod.splits)

lemma gc_scan_effect:
  fixes clk :: clock and max_slots :: nat
  assumes "fw_dpdk_ok D M" and "fw_wf M hand st"
  defines "st' \<equiv> snd (ipv6_firewall_gc_scan_by_ccb D clk max_slots st)"
  shows "fw_wf M hand st'" and "fw_shrinks M st st'"
proof -
  let ?st0 = "st\<lparr>fw_gc_counter := fw_gc_counter st + of_nat max_slots\<rparr>"
  have fold_ok: "fw_wf M hand (snd (fold (\<lambda>n. fw_gc_slot D clk (f n)) ns acc)) \<and>
      fw_shrinks M (snd acc) (snd (fold (\<lambda>n. fw_gc_slot D clk (f n)) ns acc))"
    if "fw_wf M hand (snd acc)" for f ns acc
    using that
  proof (induction ns arbitrary: acc)
    case (Cons n ns)
    note g = gc_slot_effect [OF assms(1) Cons.prems, of clk "f n"]
    with Cons.IH [OF g(1)] show ?case by (auto intro: fw_shrinks_trans)
  qed simp
  obtain reclaimed st1 where f: "fold (\<lambda>n. fw_gc_slot D clk (unat (fw_gc_counter st + of_nat n) mod
      IPV6_FIREWALL_MAX_ENTRIES)) [0..<max_slots] (0, ?st0) = (reclaimed, st1)"
    by (metis surj_pair)
  have st1: "fw_wf M hand st1" "fw_shrinks M ?st0 st1"
    using fold_ok [of "(0, ?st0)"] assms(2) f by (metis fw_wf_irrelevant(1) snd_conv)+
  define st2 where "st2 = (if 0 < reclaimed
      then st1\<lparr>fw_gc_reclaimed := fw_gc_reclaimed st1 + ucast reclaimed\<rparr> else st1)"
  have st2: "fw_wf M hand st2" "fw_shrinks M ?st0 st2"
    using st1 by (simp_all add: st2_def)
  have st': "st' = fw_dq_reclaim D st2"
    using f by (simp add: st'_def ipv6_firewall_gc_scan_by_ccb_def Let_def st2_def)
  show "fw_wf M hand st'" using dq_reclaim_effect(1) [OF assms(1) st2(1)] by (simp add: st')
  have "fw_shrinks M ?st0 st'"
    using fw_shrinks_trans [OF st2(2) dq_reclaim_shrinks [OF assms(1) st2(1)]] by (simp add: st')
  then show "fw_shrinks M st st'" by simp
qed

lemma evict_effect:
  assumes "fw_dpdk_ok D M" and "fw_wf M hand st"
  shows "fw_wf M hand (snd (ipv6_firewall_evict_lru D st))" and "fw_shrinks M st (snd (ipv6_firewall_evict_lru D st))"
  using hash_del_effect(1) [OF assms, of "fe_key (fw_table st (fw_lru_victim (fw_last_used st)))"]
    hash_del_shrinks [OF assms, of "fe_key (fw_table st (fw_lru_victim (fw_last_used st)))"] assms(2)
  by (auto simp: ipv6_firewall_evict_lru_def Let_def split: prod.splits)

lemma ring_dequeue_shrinks:
  assumes "fw_dpdk_ok D M" and "fw_wf M {#} st" and "fw_ring_dequeue D st = (res, st')"
  shows "fw_shrinks M st st'"
  using ring_dequeue_effect(2) [OF assms] fw_call_frame(5,6) [of D st] assms(3)
  by (simp add: fw_shrinks_def)

lemma slot_alloc_effect:
  assumes "fw_dpdk_ok D M" and "fw_wf M {#} st" and "ipv6_firewall_slot_alloc D clk st = (res, st')"
  shows "fw_wf M (case res of None \<Rightarrow> {#} | Some i \<Rightarrow> {#i#}) st'" and "fw_shrinks M st st'"
    and "fw_free M st \<noteq> [] \<Longrightarrow> res \<noteq> None \<and> fw_sessions M st' = fw_sessions M st"
proof -
  obtain r1 st1 where d1: "fw_ring_dequeue D st = (r1, st1)" by (metis surj_pair)
  note e1 = ring_dequeue_effect [OF assms(1,2) d1] and m1 = ring_dequeue_shrinks [OF assms(1,2) d1]
  have all: "fw_wf M (case res of None \<Rightarrow> {#} | Some i \<Rightarrow> {#i#}) st' \<and> fw_shrinks M st st'"
  proof (cases r1)
    case (Some i)
    with assms(3) d1 e1(1) m1 show ?thesis by (simp add: ipv6_firewall_slot_alloc_def)
  next
    case None
    define sg where "sg = snd (ipv6_firewall_gc_scan_by_ccb D clk IPV6_FIREWALL_GC_SCAN_CHUNK st1)"
    have "fw_wf M {#} st1" using e1(1) None by simp
    note g = gc_scan_effect [OF assms(1) this, of clk IPV6_FIREWALL_GC_SCAN_CHUNK, folded sg_def]
    obtain r2 st2 where d2: "fw_ring_dequeue D sg = (r2, st2)" by (metis surj_pair)
    note e2 = ring_dequeue_effect [OF assms(1) g(1) d2]
      and m2 = fw_shrinks_trans [OF fw_shrinks_trans [OF m1 g(2)] ring_dequeue_shrinks [OF assms(1) g(1) d2]]
    show ?thesis
    proof (cases r2)
      case (Some i)
      with assms(3) d1 d2 None e2(1) m2 show ?thesis
        by (auto simp: ipv6_firewall_slot_alloc_def sg_def)
    next
      case N2: None
      have w2: "fw_wf M {#} st2" using e2(1) N2 by simp
      note v = evict_effect [OF assms(1) w2]
      obtain ok st3 where ev: "ipv6_firewall_evict_lru D st2 = (ok, st3)" by (metis surj_pair)
      have w3: "fw_wf M {#} st3" and m3: "fw_shrinks M st st3"
        using v fw_shrinks_trans [OF m2] by (simp_all add: ev)
      note q = dq_reclaim_effect(1) [OF assms(1) w3] and mq = fw_shrinks_trans [OF m3 dq_reclaim_shrinks [OF assms(1) w3]]
      have "(res, st') = (if ok then fw_ring_dequeue D (fw_dq_reclaim D st3) else (None, st3))"
        using assms(3) d1 d2 None N2 ev by (simp add: ipv6_firewall_slot_alloc_def sg_def split: bool.splits)
      then show ?thesis
        using w3 m3 ring_dequeue_effect(1) [OF assms(1) q, of res st'] ring_dequeue_shrinks [OF assms(1) q, of res st']
          fw_shrinks_trans [OF mq] by (cases ok) auto
    qed
  qed
  then show "fw_wf M (case res of None \<Rightarrow> {#} | Some i \<Rightarrow> {#i#}) st'" "fw_shrinks M st st'" by simp_all
  show "fw_free M st \<noteq> [] \<Longrightarrow> res \<noteq> None \<and> fw_sessions M st' = fw_sessions M st"
    using e1(2,3) d1 assms(3) by (auto simp: ipv6_firewall_slot_alloc_def)
qed

section \<open>Opening and updating sessions\<close>

text \<open>A filled entry keeps nothing of the session that had the slot before.\<close>

lemma fw_fill_entry_eq: "fw_fill_entry k e = fw_fill_entry k e'"
  by (simp add: fw_fill_entry_def)

definition fw_new_session :: "clock \<Rightarrow> ipv6_firewall_key \<Rightarrow> fw_session" where
  "fw_new_session clk k =
     (\<lparr>fe_key = k, fe_is_fill = IPV6_FIREWALL_ENTRY_READY, fe_tcp_state = TCP_CONNTRACK_NONE,
       fe_tcp_fin_flags = 0, fe_max_seq_end_lan = 0, fe_max_seq_end_wan = 0, fe_max_ack_lan = 0,
       fe_max_ack_wan = 0, fe_max_win_lan = 0, fe_max_win_wan = 0\<rparr>,
      ipv6_firewall_expiry_cycles clk, cur_cycles clk)"

lemma publish_effect:
  assumes "fw_dpdk_ok D M" and "fw_wf M {#i#} st" and "fw_map M st k = None"
    and "fw_publish D clk k i st = (res, st')"
  shows "fw_wf M {#} st'" and "fw_conntrack_enabled st' = fw_conntrack_enabled st"
    and "res = None \<Longrightarrow> fw_sessions M st' = fw_sessions M st \<and> fw_enospc st' = fw_enospc st + 1"
    and "res = Some j \<Longrightarrow> j = i \<and> fw_sessions M st' = (fw_sessions M st)(k \<mapsto> fw_new_session clk k) \<and>
           fw_map M st' k = Some i \<and> fw_enospc st' = fw_enospc st"
proof -
  define st1 where "st1 = st\<lparr>fw_table := (fw_table st)(i := fw_fill_entry k (fw_table st i)),
    fw_expire_at := (fw_expire_at st)(i := nat_expire_set (fw_expire_at st i) (ipv6_firewall_expiry_cycles clk)),
    fw_last_used := (fw_last_used st)(i := cur_cycles clk)\<rparr>"
  note nm = slots_ok_member(4) [OF fw_wfD(3) [OF assms(2)], of i]
  then have live: "fw_map M st x \<noteq> Some i" for x by (auto simp: ran_def)
  have w1: "fw_wf M {#i#} st1"
    using assms(2) nm live by (auto simp: fw_wf_def st1_def)
  have slot: "fw_slot st1 i = fw_new_session clk k"
    by (cases "fw_table st i")
      (simp add: fw_slot_def st1_def fw_new_session_def nat_expire_set_def fw_fill_entry_def)
  have "fw_slot st1 j = fw_slot st j" if "j \<noteq> i" for j using that by (simp add: fw_slot_def st1_def)
  with live have s1: "fw_sessions M st1 = fw_sessions M st"
    by (intro sessions_frame) (simp add: st1_def, metis)
  have f1: "fw_map M st1 k = None" "fe_is_fill (fw_table st1 i) = IPV6_FIREWALL_ENTRY_READY" "fe_key (fw_table st1 i) = k"
    using assms(3) by (simp_all add: st1_def fw_fill_entry_def)
  obtain ok st2 where a: "fw_hash_add D k i st1 = (ok, st2)" by (metis surj_pair)
  note e = hash_add_effect [OF assms(1) w1 f1 a]
  have fr: "fw_enospc st2 = fw_enospc st" "fw_conntrack_enabled st2 = fw_conntrack_enabled st"
    using fw_call_frame(7,8) [of D k i st1] by (simp_all add: a) (simp_all add: st1_def)
  have r: "(res, st') = (if ok then (Some i, st2) else (None, fw_count_enospc (ipv6_firewall_hash_free_cb D i st2)))"
    using assms(4) a by (simp add: fw_publish_def st1_def ipv6_firewall_hash_free_cb_def split: bool.splits)
  show "fw_wf M {#} st'"
    using e(1) free_cb_wf [OF assms(1), of i "{#}" st2] r by (auto simp: fw_count_enospc_def split: if_splits)
  show "fw_conntrack_enabled st' = fw_conntrack_enabled st"
    using r fr by (auto simp: fw_count_enospc_def ipv6_firewall_hash_free_cb_def split: if_splits)
  show "fw_sessions M st' = fw_sessions M st \<and> fw_enospc st' = fw_enospc st + 1" if "res = None"
  proof -
    from that r have st': "st' = fw_count_enospc (ipv6_firewall_hash_free_cb D i st2)" and n: "\<not> ok"
      by (auto split: if_splits)
    have s2: "fw_sessions M st2 = fw_sessions M st" using e(2) n s1 by simp
    have "i \<notin> ran (fw_map M st2)"
      using slots_ok_member(4) [OF fw_wfD(3) [OF e(1)], of i] n by simp
    then have "fw_sessions M (ipv6_firewall_hash_free_cb D i st2) = fw_sessions M st2"
      by (intro sessions_frame) (auto simp: ipv6_firewall_hash_free_cb_def fw_slot_def ran_def)
    with s2 fr st' show ?thesis by (simp add: fw_count_enospc_def ipv6_firewall_hash_free_cb_def)
  qed
  show "j = i \<and> fw_sessions M st' = (fw_sessions M st)(k \<mapsto> fw_new_session clk k) \<and>
      fw_map M st' k = Some i \<and> fw_enospc st' = fw_enospc st" if "res = Some j"
  proof -
    from that r have st': "st' = st2" "j = i" and y: "ok" by (auto split: if_splits)
    have s2: "fw_sessions M st2 = (fw_sessions M st)(k \<mapsto> fw_new_session clk k)" using e(2) y s1 slot by simp
    with st' fr e(4) y show ?thesis by simp
  qed
qed

lemma insert_effect:
  assumes "fw_dpdk_ok D M" and "fw_wf M {#} st" and "fw_map M st k = None"
    and "ipv6_firewall_insert D clk k st = (res, st')"
  shows "fw_wf M {#} st'" and "fw_conntrack_enabled st' = fw_conntrack_enabled st"
    and "res = None \<Longrightarrow> fw_sessions M st' \<subseteq>\<^sub>m fw_sessions M st \<and> fw_enospc st' = fw_enospc st + 1 \<and>
           (fw_free M st \<noteq> [] \<longrightarrow> fw_sessions M st' = fw_sessions M st)"
    and "res = Some i \<Longrightarrow> fw_map M st' k = Some i \<and> fw_enospc st' = fw_enospc st \<and>
           (\<exists>\<tau>. \<tau> \<subseteq>\<^sub>m fw_sessions M st \<and> fw_sessions M st' = \<tau>(k \<mapsto> fw_new_session clk k) \<and>
             (fw_free M st \<noteq> [] \<longrightarrow> \<tau> = fw_sessions M st))"
proof -
  obtain r st1 where a: "ipv6_firewall_slot_alloc D clk st = (r, st1)" by (metis surj_pair)
  note e = slot_alloc_effect [OF assms(1,2) a]
  have le: "fw_sessions M st1 \<subseteq>\<^sub>m fw_sessions M st" and fr: "fw_enospc st1 = fw_enospc st"
    "fw_conntrack_enabled st1 = fw_conntrack_enabled st"
    using e(2) by (simp_all add: fw_shrinks_def)
  have look: "ipv6_firewall_lookup D k st = None"
    using fw_lookup_eq [OF assms(1)] assms(3) by simp
  have n1: "fw_map M st1 k = None"
    using fw_shrinks_D [OF e(2), of k] assms(3) by (metis fw_sessions_None not_None_eq)
  have eq: "(res, st') = (case r of None \<Rightarrow> (None, fw_count_enospc st1) | Some i \<Rightarrow> fw_publish D clk k i st1)"
    using assms(4) a look by (simp add: ipv6_firewall_insert_def split: option.splits)
  have "fw_wf M {#} st' \<and> fw_conntrack_enabled st' = fw_conntrack_enabled st \<and>
    (res = None \<longrightarrow> fw_sessions M st' = fw_sessions M st1 \<and> fw_enospc st' = fw_enospc st + 1) \<and>
    (\<forall>i. res = Some i \<longrightarrow> fw_map M st' k = Some i \<and> fw_enospc st' = fw_enospc st \<and>
       fw_sessions M st' = (fw_sessions M st1)(k \<mapsto> fw_new_session clk k))"
  proof (cases r)
    case None
    with eq e(1) le fr show ?thesis by (simp add: fw_count_enospc_def)
  next
    case (Some j)
    then have "fw_publish D clk k j st1 = (res, st')" and "fw_wf M {#j#} st1" using eq e(1) by simp_all
    from publish_effect [OF assms(1) this(2) n1 this(1)] le fr show ?thesis by auto
  qed
  note all = this
  with le e(3) show "fw_wf M {#} st'" and "fw_conntrack_enabled st' = fw_conntrack_enabled st"
    and "res = None \<Longrightarrow> fw_sessions M st' \<subseteq>\<^sub>m fw_sessions M st \<and> fw_enospc st' = fw_enospc st + 1 \<and>
           (fw_free M st \<noteq> [] \<longrightarrow> fw_sessions M st' = fw_sessions M st)"
    by simp_all
  show "fw_map M st' k = Some i \<and> fw_enospc st' = fw_enospc st \<and>
      (\<exists>\<tau>. \<tau> \<subseteq>\<^sub>m fw_sessions M st \<and> fw_sessions M st' = \<tau>(k \<mapsto> fw_new_session clk k) \<and>
        (fw_free M st \<noteq> [] \<longrightarrow> \<tau> = fw_sessions M st))" if "res = Some i"
    using all le e(3) that by (intro conjI exI [of _ "fw_sessions M st1"]) simp_all
qed

text \<open>What traffic does to a session, and tracking a TCP segment.\<close>

definition fw_used_session :: "clock \<Rightarrow> fw_session \<Rightarrow> fw_session" where
  "fw_used_session clk s = (case s of (e, d, l) \<Rightarrow>
     (e, nat_expire_refresh clk d (ipv6_firewall_expiry_cycles clk),
      if cycles_in_sec clk < cur_cycles clk - l then cur_cycles clk else l))"

definition fw_tracked_session :: "clock \<Rightarrow> tcp_hdr \<Rightarrow> u16 \<Rightarrow> bool \<Rightarrow> fw_session \<Rightarrow> fw_session" where
  "fw_tracked_session clk tcp payload_len is_reply s = (case s of (e, d, l) \<Rightarrow>
     (case conntrack_track ipv6_firewall_conntrack_view fw_view_write clk (e, d) tcp
             (fw_tcp_payload tcp payload_len) is_reply of (e', d') \<Rightarrow> (e', d', l)))"

lemma mark_used_effect:
  fixes clk :: clock
  assumes "fw_wf M hand st" and "fw_map M st k = Some i"
  defines "st' \<equiv> ipv6_firewall_mark_used clk i st"
  shows "fw_wf M hand st'" and "fw_sessions M st' = (fw_sessions M st)(k \<mapsto> fw_used_session clk (fw_slot st i))"
    and "fw_map M st' k = Some i" and "fw_conntrack_enabled st' = fw_conntrack_enabled st"
    and "fw_slot st' i = fw_used_session clk (fw_slot st i)"
proof -
  have u: "fw_slot st' i = fw_used_session clk (fw_slot st i)"
    by (simp add: st'_def ipv6_firewall_mark_used_def fw_slot_def fw_used_session_def Let_def
        ipv6_firewall_expiry_cycles_def)
  note e = set_slot_effect [OF assms(1,2), of st', unfolded u]
  show "fw_wf M hand st'" by (rule e(1)) (simp_all add: st'_def ipv6_firewall_mark_used_def Let_def fw_slot_def)
  show "fw_sessions M st' = (fw_sessions M st)(k \<mapsto> fw_used_session clk (fw_slot st i))"
    by (rule e(2)) (simp_all add: st'_def ipv6_firewall_mark_used_def Let_def fw_slot_def)
  show "fw_map M st' k = Some i" "fw_conntrack_enabled st' = fw_conntrack_enabled st"
    using assms(2) by (simp_all add: st'_def ipv6_firewall_mark_used_def Let_def)
  show "fw_slot st' i = fw_used_session clk (fw_slot st i)" by (rule u)
qed

lemma track_effect:
  fixes clk :: clock and tcp :: tcp_hdr and len :: u16 and b :: bool
  assumes "fw_wf M hand st" and "fw_map M st k = Some i"
  defines "st' \<equiv> fw_track clk i tcp len b st"
  shows "fw_wf M hand st'" and "fw_sessions M st' = (fw_sessions M st)(k \<mapsto> fw_tracked_session clk tcp len b (fw_slot st i))"
    and "fw_conntrack_enabled st' = fw_conntrack_enabled st" and "fw_enospc st' = fw_enospc st"
proof -
  let ?p = "conntrack_track ipv6_firewall_conntrack_view fw_view_write clk (fw_entry_pair st i) tcp (fw_tcp_payload tcp len) b"
  have st': "st' = fw_set_entry_pair i ?p st" by (simp add: st'_def fw_track_def)
  have u: "fw_slot st' i = fw_tracked_session clk tcp len b (fw_slot st i)"
    by (simp add: st' fw_set_entry_pair_def fw_slot_def fw_tracked_session_def fw_entry_pair_def split: prod.splits)
  have id: "fw_entry_id ?p = fw_entry_id (fw_entry_pair st i)" by (rule fw_conn.track_key)
  note e = set_slot_effect [OF assms(1,2), of st', unfolded u]
  show "fw_wf M hand st'"
    by (rule e(1)) (use id in \<open>simp_all add: st' fw_set_entry_pair_def fw_slot_def fw_entry_id_def fw_entry_pair_def\<close>)
  show "fw_sessions M st' = (fw_sessions M st)(k \<mapsto> fw_tracked_session clk tcp len b (fw_slot st i))"
    by (rule e(2)) (use id in \<open>simp_all add: st' fw_set_entry_pair_def fw_slot_def fw_entry_id_def fw_entry_pair_def\<close>)
  show "fw_conntrack_enabled st' = fw_conntrack_enabled st" "fw_enospc st' = fw_enospc st"
    by (simp_all add: st' fw_set_entry_pair_def)
qed

end
