(* ===== verification/Ipv6_Firewall_Props.thy ===== *)
theory Ipv6_Firewall_Props
  imports Ipv6_Firewall_Inv
begin

text \<open>
  The properties of the IPv6 firewall: the pool implements a map of sessions, a packet and its
  reply have the same key, nothing unsolicited passes, replies to what a LAN host sent do, error
  messages leave the sessions alone, eviction takes the least recently used session, and no byte
  outside the packet is read.
\<close>

section \<open>The firewall as a map of sessions\<close>

text \<open>
  The reference: sessions under their keys, no pool, no slots, no queue. \<open>fw_out_key\<close> and \<open>fw_in_key\<close>
  are the keys a packet is matched under in its direction, \<open>fw_quoted_key\<close> that of the packet an
  ICMPv6 error quotes.
\<close>

type_synonym fw_map_state = "ipv6_firewall_key \<Rightarrow> fw_session option"

abbreviation ip6_len :: "memory \<Rightarrow> u16" where
  "ip6_len m \<equiv> rte_be_to_cpu_16 (ip6_payload_len m 0)"

definition fw_out_key :: "memory \<Rightarrow> ipv6_firewall_key option" where
  "fw_out_key m =
     (if ip6_proto m 0 = IPPROTO_TCP \<and> ip6_len m < 20 \<or> ip6_proto m 0 = IPPROTO_UDP \<and> ip6_len m < 8
      then None else ipv6_firewall_key_from_packet m 0 (ip6_len m) False)"

definition fw_in_key :: "memory \<Rightarrow> ipv6_firewall_key option" where
  "fw_in_key m = ipv6_firewall_key_from_packet m 0 (ip6_len m) True"

definition fw_is_error :: "memory \<Rightarrow> bool" where
  "fw_is_error m \<longleftrightarrow> ip6_proto m 0 = IPPROTO_ICMPV6 \<and> 0 < ip6_len m \<and> icmp6_type_is_error (m 40)"

definition fw_quoted_key :: "memory \<Rightarrow> ipv6_firewall_key option" where
  "fw_quoted_key m =
     (if ip6_len m < 56 \<or> ip6_src_addr m 48 \<noteq> ip6_dst_addr m 0 then None
      else ipv6_firewall_key_from_packet m 48 (ip6_len m - 48) False)"

definition fw_live :: "clock \<Rightarrow> ipv6_firewall_key \<Rightarrow> fw_map_state \<Rightarrow> fw_session option" where
  "fw_live clk k \<sigma> = (case \<sigma> k of None \<Rightarrow> None | Some s \<Rightarrow> if fst (snd s) < cur_cycles clk then None else Some s)"

definition fw_close_expired :: "clock \<Rightarrow> ipv6_firewall_key \<Rightarrow> fw_map_state \<Rightarrow> fw_map_state" where
  "fw_close_expired clk k \<sigma> = (if fw_live clk k \<sigma> = None then \<sigma>(k := None) else \<sigma>)"

definition fw_segment_ok :: "fw_session \<Rightarrow> tcp_hdr \<Rightarrow> bool" where
  "fw_segment_ok s tcp = (case s of (e, d, l) \<Rightarrow>
     tcp_conntrack_inbound_valid (fe_tcp_state e) (tcp_flags tcp) \<and>
     tcp_conntrack_seq_valid_view (ipv6_firewall_conntrack_view (e, d)) tcp True)"

definition fw_spec_inbound :: "bool \<Rightarrow> clock \<Rightarrow> memory \<Rightarrow> fw_map_state \<Rightarrow> bool \<times> fw_map_state" where
  "fw_spec_inbound enforce clk m \<sigma> =
     (case (if fw_is_error m then fw_quoted_key m else fw_in_key m) of
        None \<Rightarrow> (False, \<sigma>)
      | Some k \<Rightarrow>
        (case fw_live clk k \<sigma> of
           None \<Rightarrow> (False, fw_close_expired clk k \<sigma>)
         | Some s \<Rightarrow>
             if fw_is_error m then (True, \<sigma>)
             else let s1 = fw_used_session clk s; tcp = tcp_hdr_at m 40 in
               if ip6_proto m 0 \<noteq> IPPROTO_TCP then (True, \<sigma>(k \<mapsto> s1))
               else if ip6_len m < 20 then (False, \<sigma>(k \<mapsto> s1))
               else if \<not> fw_segment_ok s1 tcp then (\<not> enforce, \<sigma>(k \<mapsto> s1))
               else (True, \<sigma>(k \<mapsto> fw_tracked_session clk tcp (ip6_len m) True s1))))"

definition fw_learned :: "clock \<Rightarrow> memory \<Rightarrow> fw_session \<Rightarrow> fw_session" where
  "fw_learned clk m s =
     (if ip6_proto m 0 = IPPROTO_TCP then fw_tracked_session clk (tcp_hdr_at m 40) (ip6_len m) False s else s)"

section \<open>Simulation\<close>

lemma fw_live_map:
  assumes "fw_dpdk_ok D M" and "fw_wf M {#} st" and "ipv6_firewall_lookup_live D clk k st = (res, st')"
  shows "fw_wf M {#} st'" and "fw_conntrack_enabled st' = fw_conntrack_enabled st"
    and "fw_sessions M st' = fw_close_expired clk k (fw_sessions M st)"
    and "fw_live clk k (fw_sessions M st) = map_option (fw_slot st') res"
    and "res = Some i \<Longrightarrow> fw_map M st' k = Some i"
proof -
  have all: "fw_wf M {#} st' \<and> fw_conntrack_enabled st' = fw_conntrack_enabled st \<and>
    fw_sessions M st' = fw_close_expired clk k (fw_sessions M st) \<and>
    fw_live clk k (fw_sessions M st) = map_option (fw_slot st') res \<and> (res = Some i \<longrightarrow> fw_map M st' k = Some i)"
  proof (cases "fw_map M st k")
    case None
    then have "fw_sessions M st k = None" by simp
    with assms None show ?thesis
      by (auto simp: ipv6_firewall_lookup_live_def fw_lookup_eq fw_close_expired_def fw_live_def fun_upd_idem
          simp del: fw_sessions_None)
  next
    case (Some j)
    then have s: "fw_sessions M st k = Some (fw_slot st j)" by (simp add: fw_sessions_def)
    show ?thesis
    proof (cases "fw_expire_at st j < cur_cycles clk")
      case True
      with assms Some have "res = None" and st': "st' = snd (fw_hash_del D k st)"
        by (auto simp: ipv6_firewall_lookup_live_def fw_lookup_eq ipv6_firewall_entry_is_expired_def)
      with True s hash_del_effect(1,2) [OF assms(1,2), of k] show ?thesis
        by (simp add: fw_close_expired_def fw_live_def fw_slot_def)
    next
      case False
      with assms Some have "res = Some j" and "st' = st"
        by (auto simp: ipv6_firewall_lookup_live_def fw_lookup_eq ipv6_firewall_entry_is_expired_def)
      with False s Some assms(2) show ?thesis by (simp add: fw_close_expired_def fw_live_def fw_slot_def)
    qed
  qed
  then show "fw_wf M {#} st'" "fw_conntrack_enabled st' = fw_conntrack_enabled st"
    "fw_sessions M st' = fw_close_expired clk k (fw_sessions M st)"
    "fw_live clk k (fw_sessions M st) = map_option (fw_slot st') res" "res = Some i \<Longrightarrow> fw_map M st' k = Some i"
    by simp_all
qed

lemma fw_close_live [simp]: "fw_live clk k \<sigma> = Some s \<Longrightarrow> fw_close_expired clk k \<sigma> = \<sigma>"
  by (simp add: fw_close_expired_def)

lemma fw_live_SomeD: "fw_live clk k \<sigma> = Some s \<Longrightarrow> \<sigma> k = Some s \<and> cur_cycles clk \<le> fst (snd s)"
  by (auto simp: fw_live_def split: option.splits if_splits)

lemma tcp_inbound_simulates:
  assumes "fw_wf M {#} st" and "fw_map M st k = Some i" and "20 \<le> len"
    and "ipv6_firewall_tcp_inbound_pass clk i m len st = (b, st')"
  shows "fw_wf M {#} st'"
    and "(b, fw_sessions M st') = (if fw_segment_ok (fw_slot st i) (tcp_hdr_at m 40)
       then (True, (fw_sessions M st)(k \<mapsto> fw_tracked_session clk (tcp_hdr_at m 40) len True (fw_slot st i)))
       else (\<not> fw_conntrack_enabled st, fw_sessions M st))"
    and "fw_conntrack_enabled st' = fw_conntrack_enabled st"
  using assms(1,3,4) track_effect [OF assms(1,2), of clk "tcp_hdr_at m 40" len True]
  by (auto simp: ipv6_firewall_tcp_inbound_pass_def Let_def fw_segment_ok_def fw_slot_def fw_entry_pair_def not_less
      split: if_splits)

lemma error_simulates:
  assumes "fw_dpdk_ok D M" and "fw_wf M {#} st" and "fw_is_error m"
    and "ipv6_firewall_inbound_pass D clk m st = (b, st')"
  shows "fw_wf M {#} st' \<and> (b, fw_sessions M st') = fw_spec_inbound (fw_conntrack_enabled st) clk m (fw_sessions M st)"
proof -
  have eq: "ipv6_firewall_inbound_pass D clk m st = ipv6_firewall_icmp6_error_pass D clk m (ip6_len m) st"
    using fw_wfD(1) [OF assms(2)] assms(3) by (auto simp: ipv6_firewall_inbound_pass_def fw_is_error_def Let_def)
  show ?thesis
  proof (cases "fw_quoted_key m")
    case None
    with eq assms(2-4) show ?thesis
      by (auto simp: ipv6_firewall_icmp6_error_pass_def fw_quoted_key_def fw_spec_inbound_def Let_def split: if_splits)
  next
    case (Some k)
    obtain res st1 where l: "ipv6_firewall_lookup_live D clk k st = (res, st1)" by (metis surj_pair)
    note live = fw_live_map [OF assms(1,2) l]
    from Some have "\<not> ip6_len m < 56" "ip6_src_addr m 48 = ip6_dst_addr m 0"
      "ipv6_firewall_key_from_packet m 48 (ip6_len m - 48) False = Some k"
      by (auto simp: fw_quoted_key_def split: if_splits)
    with eq l assms(4) have "(b, st') = (case res of None \<Rightarrow> (False, st1\<lparr>fw_icmp6_err_dropped := fw_icmp6_err_dropped st1 + 1\<rparr>)
        | Some i \<Rightarrow> (True, st1\<lparr>fw_icmp6_err_passed := fw_icmp6_err_passed st1 + 1\<rparr>))"
      by (simp add: ipv6_firewall_icmp6_error_pass_def Let_def split: option.splits)
    with assms(3) Some live show ?thesis by (auto simp: fw_spec_inbound_def split: option.splits)
  qed
qed

lemma match_simulates:
  assumes "fw_dpdk_ok D M" and "fw_wf M {#} st" and "\<not> fw_is_error m" and "fw_in_key m = Some k"
    and "ipv6_firewall_inbound_pass D clk m st = (b, st')"
  shows "fw_wf M {#} st' \<and> (b, fw_sessions M st') = fw_spec_inbound (fw_conntrack_enabled st) clk m (fw_sessions M st)"
proof -
  obtain res st1 where l: "ipv6_firewall_lookup_live D clk k st = (res, st1)" by (metis surj_pair)
  note live = fw_live_map [OF assms(1,2) l]
  from fw_wfD(1) [OF assms(2)] assms(3-5) l have r: "(b, st') = (case res of None \<Rightarrow> (False, st1)
      | Some i \<Rightarrow> (let st2 = ipv6_firewall_mark_used clk i st1 in
          if ip6_proto m 0 \<noteq> IPPROTO_TCP then (True, st2)
          else ipv6_firewall_tcp_inbound_pass clk i m (ip6_len m) st2))"
    by (auto simp: ipv6_firewall_inbound_pass_def fw_is_error_def fw_in_key_def Let_def split: option.splits)
  show ?thesis
  proof (cases res)
    case None
    with assms(3,4) r live show ?thesis by (simp add: fw_spec_inbound_def)
  next
    case (Some i)
    define st2 where "st2 = ipv6_firewall_mark_used clk i st1"
    note u = mark_used_effect [OF live(1) live(5) [OF Some], of clk, folded st2_def]
    have lv: "fw_live clk k (fw_sessions M st) = Some (fw_slot st1 i)" using live(4) Some by simp
    have s1: "fw_sessions M st1 = fw_sessions M st" using live(3) lv by simp
    show ?thesis
    proof (cases "ip6_proto m 0 = IPPROTO_TCP \<and> 20 \<le> ip6_len m")
      case True
      then have "ipv6_firewall_tcp_inbound_pass clk i m (ip6_len m) st2 = (b, st')" and len: "20 \<le> ip6_len m"
        using r Some by (simp_all add: st2_def Let_def)
      from tcp_inbound_simulates [OF u(1) u(3) len this(1)] True assms(3,4) lv s1 u live(2) show ?thesis
        by (auto simp: fw_spec_inbound_def Let_def not_less)
    next
      case False
      with r Some have "(b, st') = (ip6_proto m 0 \<noteq> IPPROTO_TCP, st2)"
        by (auto simp: st2_def Let_def ipv6_firewall_tcp_inbound_pass_def not_less)
      with False assms(3,4) lv s1 u show ?thesis by (auto simp: fw_spec_inbound_def Let_def)
    qed
  qed
qed

lemma inbound_simulates:
  assumes "fw_dpdk_ok D M" and "fw_wf M {#} st" and "ipv6_firewall_inbound_pass D clk m st = (b, st')"
  shows "fw_wf M {#} st' \<and> (b, fw_sessions M st') = fw_spec_inbound (fw_conntrack_enabled st) clk m (fw_sessions M st)"
proof -
  consider "fw_is_error m" | k where "\<not> fw_is_error m" "fw_in_key m = Some k" | "\<not> fw_is_error m" "fw_in_key m = None"
    by (cases "fw_in_key m") auto
  then show ?thesis
  proof cases
    case 1
    then show ?thesis by (rule error_simulates [OF assms(1,2) _ assms(3)])
  next
    case 2
    then show ?thesis by (rule match_simulates [OF assms(1,2) _ _ assms(3)])
  next
    case 3
    with fw_wfD(1) [OF assms(2)] assms(2,3) show ?thesis
      by (auto simp: ipv6_firewall_inbound_pass_def fw_is_error_def fw_in_key_def fw_spec_inbound_def Let_def)
  qed
qed

lemma learn_untracked: "fw_out_key m = None \<Longrightarrow> ipv6_firewall_learn D clk m st = st"
  by (auto simp: fw_out_key_def ipv6_firewall_learn_def Let_def split: if_splits)

lemma learn_tracked:
  assumes "fw_wf M {#} st" and "fw_out_key m = Some k"
  shows "ipv6_firewall_learn D clk m st =
    (case (case ipv6_firewall_lookup D k st of None \<Rightarrow> ipv6_firewall_insert D clk k st
           | Some idx \<Rightarrow> (Some idx, ipv6_firewall_mark_used clk idx st)) of
       (None, st1) \<Rightarrow> st1
     | (Some idx, st1) \<Rightarrow> if ip6_proto m 0 = IPPROTO_TCP then fw_track clk idx (tcp_hdr_at m 40) (ip6_len m) False st1
         else st1)"
  using assms(2) fw_wfD(1) [OF assms(1)]
  by (auto simp: fw_out_key_def ipv6_firewall_learn_def Let_def split: if_splits)

text \<open>The tail of learning: tracking the segment on the session just found or opened.\<close>

lemma learn_tail_effect:
  fixes clk :: clock and m :: memory
  assumes "fw_wf M {#} st" and "fw_map M st k = Some i"
  defines "st' \<equiv> if ip6_proto m 0 = IPPROTO_TCP then fw_track clk i (tcp_hdr_at m 40) (ip6_len m) False st else st"
  shows "fw_wf M {#} st'" and "fw_conntrack_enabled st' = fw_conntrack_enabled st"
    and "fw_sessions M st' = (fw_sessions M st)(k \<mapsto> fw_learned clk m (fw_slot st i))"
  using assms(1,2) track_effect [OF assms(1,2), of clk "tcp_hdr_at m 40" "ip6_len m" False]
  by (auto simp: st'_def fw_learned_def fw_sessions_def fun_eq_iff)

lemma learn_known:
  fixes clk :: clock and m :: memory
  assumes "fw_dpdk_ok D M" and "fw_wf M {#} st" and "fw_out_key m = Some k" and "fw_sessions M st k = Some s"
  defines "st' \<equiv> ipv6_firewall_learn D clk m st"
  shows "fw_wf M {#} st'" and "fw_conntrack_enabled st' = fw_conntrack_enabled st"
    and "fw_sessions M st' = (fw_sessions M st)(k \<mapsto> fw_learned clk m (fw_used_session clk s))"
proof -
  obtain i where i: "fw_map M st k = Some i" and s: "s = fw_slot st i"
    using assms(4) by (auto simp: fw_sessions_def)
  note u = mark_used_effect [OF assms(2) i, of clk]
  have "st' = (if ip6_proto m 0 = IPPROTO_TCP
      then fw_track clk i (tcp_hdr_at m 40) (ip6_len m) False (ipv6_firewall_mark_used clk i st)
      else ipv6_firewall_mark_used clk i st)"
    using learn_tracked [OF assms(2,3)] fw_lookup_eq [OF assms(1)] i by (simp add: st'_def)
  note t = learn_tail_effect [OF u(1,3), of m clk, folded this]
  show "fw_wf M {#} st'" by (rule t(1))
  show "fw_conntrack_enabled st' = fw_conntrack_enabled st" using t(2) u(4) by simp
  show "fw_sessions M st' = (fw_sessions M st)(k \<mapsto> fw_learned clk m (fw_used_session clk s))"
    using t(3) u(2,5) s by simp
qed

lemma learn_new:
  fixes clk :: clock and m :: memory
  assumes "fw_dpdk_ok D M" and "fw_wf M {#} st" and "fw_out_key m = Some k" and "fw_sessions M st k = None"
  defines "st' \<equiv> ipv6_firewall_learn D clk m st"
  shows "fw_wf M {#} st'" and "fw_conntrack_enabled st' = fw_conntrack_enabled st"
    and "\<exists>\<tau>. \<tau> \<subseteq>\<^sub>m fw_sessions M st \<and> (fw_free M st \<noteq> [] \<longrightarrow> \<tau> = fw_sessions M st) \<and>
        (fw_sessions M st' = \<tau> \<and> fw_enospc st' = fw_enospc st + 1 \<or>
         fw_sessions M st' = \<tau>(k \<mapsto> fw_learned clk m (fw_new_session clk k)))"
proof -
  have n: "fw_map M st k = None" using assms(4) by simp
  obtain res st1 where ins: "ipv6_firewall_insert D clk k st = (res, st1)" by (metis surj_pair)
  note e = insert_effect [OF assms(1,2) n ins]
  have st': "st' = (case res of None \<Rightarrow> st1
      | Some i \<Rightarrow> if ip6_proto m 0 = IPPROTO_TCP then fw_track clk i (tcp_hdr_at m 40) (ip6_len m) False st1 else st1)"
    using learn_tracked [OF assms(2,3)] fw_lookup_eq [OF assms(1)] n ins by (simp add: st'_def split: option.splits)
  have "fw_wf M {#} st' \<and> fw_conntrack_enabled st' = fw_conntrack_enabled st \<and>
    (\<exists>\<tau>. \<tau> \<subseteq>\<^sub>m fw_sessions M st \<and> (fw_free M st \<noteq> [] \<longrightarrow> \<tau> = fw_sessions M st) \<and>
        (fw_sessions M st' = \<tau> \<and> fw_enospc st' = fw_enospc st + 1 \<or>
         fw_sessions M st' = \<tau>(k \<mapsto> fw_learned clk m (fw_new_session clk k))))"
  proof (cases res)
    case None
    with e st' show ?thesis by auto
  next
    case (Some i)
    from e(4) [OF Some] obtain \<tau> where \<tau>: "fw_map M st1 k = Some i" "\<tau> \<subseteq>\<^sub>m fw_sessions M st"
      "fw_sessions M st1 = \<tau>(k \<mapsto> fw_new_session clk k)" "fw_free M st \<noteq> [] \<longrightarrow> \<tau> = fw_sessions M st"
      by blast
    note t = learn_tail_effect [OF e(1) \<tau>(1), of m clk]
    have "fw_slot st1 i = fw_new_session clk k"
      using \<tau>(1) fun_cong [OF \<tau>(3), of k] by (simp add: fw_sessions_def)
    with t \<tau> e(2) st' Some show ?thesis by (intro conjI exI [of _ \<tau>]) simp_all
  qed
  then show "fw_wf M {#} st'" and "fw_conntrack_enabled st' = fw_conntrack_enabled st"
    and "\<exists>\<tau>. \<tau> \<subseteq>\<^sub>m fw_sessions M st \<and> (fw_free M st \<noteq> [] \<longrightarrow> \<tau> = fw_sessions M st) \<and>
        (fw_sessions M st' = \<tau> \<and> fw_enospc st' = fw_enospc st + 1 \<or>
         fw_sessions M st' = \<tau>(k \<mapsto> fw_learned clk m (fw_new_session clk k)))"
    by simp_all
qed

section \<open>Histories\<close>

text \<open>
  What the firewall saw since its sessions were last deleted, newest first: the packets of both
  directions with the clock they were handled at, inbound ones with their verdict.
\<close>

datatype fw_event = Outbound clock memory | Inbound clock memory bool

text \<open>
  The cycle counter does not wrap while a deadline set from this reading is pending (7200 seconds is
  the longest lifetime the code grants).
\<close>

definition fw_clock_ok :: "clock \<Rightarrow> bool" where
  "fw_clock_ok clk \<longleftrightarrow> 0 < cycles_in_sec clk \<and> unat (cur_cycles clk) + 7200 * unat (cycles_in_sec clk) < 2 ^ 64"

inductive fw_trace :: "('h, 'r) fw_dpdk \<Rightarrow> ('h, 'r) fw_abs \<Rightarrow> fw_event list \<Rightarrow> ('h, 'r) fw_ccb \<Rightarrow> bool"
  for D :: "('h, 'r) fw_dpdk" and M :: "('h, 'r) fw_abs" where
  init: "ipv6_firewall_table_init D c st = (SUCCESS, st') \<Longrightarrow> fw_map M st' = Map.empty \<Longrightarrow> fw_dq M st' = [] \<Longrightarrow>
    fwL M (the (fw_init_ring c)) = [] \<Longrightarrow> fw_trace D M [] st'"
| learn: "fw_trace D M H st \<Longrightarrow> fw_clock_ok clk \<Longrightarrow>
    fw_trace D M (Outbound clk m # H) (ipv6_firewall_learn D clk m st)"
| inbound: "fw_trace D M H st \<Longrightarrow> fw_clock_ok clk \<Longrightarrow> ipv6_firewall_inbound_pass D clk m st = (b, st') \<Longrightarrow>
    fw_trace D M (Inbound clk m b # H) st'"
| gc: "fw_trace D M H st \<Longrightarrow> fw_trace D M H (snd (ipv6_firewall_gc_scan_by_ccb D clk n st))"
| enforce: "fw_trace D M H st \<Longrightarrow> fw_trace D M H (st\<lparr>fw_conntrack_enabled := b\<rparr>)"
| del_all: "fw_trace D M H st \<Longrightarrow> fw_trace D M [] (ipv6_firewall_table_del_all_entries_from_hash D st)"

text \<open>Who opened a session, and the traffic that keeps it open.\<close>

definition fw_opened :: "fw_event list \<Rightarrow> ipv6_firewall_key \<Rightarrow> bool" where
  "fw_opened H k \<longleftrightarrow> (\<exists>c m. Outbound c m \<in> set H \<and> fw_out_key m = Some k)"

definition fw_touched :: "fw_event list \<Rightarrow> clock \<Rightarrow> ipv6_firewall_key \<Rightarrow> bool" where
  "fw_touched H c k \<longleftrightarrow>
     (\<exists>m. Outbound c m \<in> set H \<and> fw_out_key m = Some k) \<or>
     (\<exists>m b. Inbound c m b \<in> set H \<and> fw_in_key m = Some k \<and> (b \<or> fk_proto k = IPPROTO_TCP))"

definition fw_lifetimes :: "ipv6_firewall_key \<Rightarrow> u64 set" where
  "fw_lifetimes k = (if fk_proto k = IPPROTO_TCP then {10, 30, 60, 120, 7200} else {10})"

definition fw_session_ok :: "fw_event list \<Rightarrow> ipv6_firewall_key \<Rightarrow> fw_session \<Rightarrow> bool" where
  "fw_session_ok H k s \<longleftrightarrow>
     fw_opened H k \<and>
     (\<exists>c t. fw_clock_ok c \<and> fw_touched H c k \<and> t \<in> fw_lifetimes k \<and> fst (snd s) = deadline_after c t)"

section \<open>Deadlines\<close>

lemma unat_deadline_after:
  assumes "fw_clock_ok c" and "unat t \<le> 7200"
  shows "unat (deadline_after c t) = unat (cur_cycles c) + unat t * unat (cycles_in_sec c)"
proof -
  have "unat t * unat (cycles_in_sec c) \<le> 7200 * unat (cycles_in_sec c)"
    using assms(2) by (rule mult_right_mono) simp
  with assms(1) have "unat (cur_cycles c) + unat t * unat (cycles_in_sec c) < 2 ^ 64"
    unfolding fw_clock_ok_def by linarith
  then show ?thesis by (simp add: deadline_after_def unat_word_ariths)
qed

lemma fw_lifetimes_bound: "t \<in> fw_lifetimes k \<Longrightarrow> 10 \<le> unat t \<and> unat t \<le> 7200"
  by (auto simp: fw_lifetimes_def split: if_splits)

lemma deadline_after_nonzero:
  assumes "fw_clock_ok c" and "t \<in> fw_lifetimes k"
  shows "deadline_after c t \<noteq> 0"
proof
  assume "deadline_after c t = 0"
  then have "unat (deadline_after c t) = 0" by simp
  with unat_deadline_after [OF assms(1), of t] fw_lifetimes_bound [OF assms(2)] assms(1) show False
    by (simp add: fw_clock_ok_def word_less_nat_alt)
qed

lemma expiry_is_deadline: "ipv6_firewall_expiry_cycles clk = deadline_after clk 10"
  by (simp add: ipv6_firewall_expiry_cycles_def deadline_after_def)

lemma used_deadline:
  "fst (snd (fw_used_session clk s)) = fst (snd s) \<or> fst (snd (fw_used_session clk s)) = deadline_after clk 10"
  by (auto simp: fw_used_session_def nat_expire_refresh_def expiry_is_deadline split: prod.splits)

lemma fw_used_session_fst: "fst (fw_used_session clk s) = fst s"
  by (simp add: fw_used_session_def split: prod.splits)

lemma tracked_deadline:
  "fst (snd (fw_tracked_session clk tcp len b s)) = fst (snd s) \<or>
   (\<exists>t \<in> {10, 30, 60, 120, 7200}. fst (snd (fw_tracked_session clk tcp len b s)) = deadline_after clk t)"
proof -
  obtain e d l where s: "s = (e, d, l)" by (cases s)
  define v where "v = ipv6_firewall_conntrack_view (e, d)"
  define v' where "v' = snd (tcp_conntrack_fsm_view clk v (tcp_flags tcp) b)"
  have d: "fst (snd (fw_tracked_session clk tcp len b s)) = expire_slot v'"
    by (simp add: s fw_tracked_session_def conntrack_track_def fw_view_write_def v'_def v_def)
  have v: "expire_slot v = d" by (simp add: v_def ipv6_firewall_conntrack_view_def)
  have t: "tcp_state_timeout x \<in> {10, 30, 60, 120, 7200}" for x by (simp add: tcp_state_timeout_def)
  show ?thesis
  proof (cases rule: fsm_view_cases [of clk v "tcp_flags tcp" b])
    case ignored
    with d v s show ?thesis by (simp add: v'_def)
  next
    case (fires r)
    then have "deadline_matches clk v v'" using tcp_rows_deadline by (auto simp: list_all_iff v'_def)
    then have "expire_slot v' = deadline_after clk (tcp_state_timeout (tcp_state v')) \<or> expire_slot v' = d"
      by (auto simp: deadline_matches_def v)
    with d s t [of "tcp_state v'"] show ?thesis by (metis fst_conv snd_conv)
  qed
qed

lemma learned_deadline:
  "fst (snd (fw_learned clk m s)) = fst (snd s) \<or>
   ip6_proto m 0 = IPPROTO_TCP \<and> (\<exists>t \<in> {10, 30, 60, 120, 7200}. fst (snd (fw_learned clk m s)) = deadline_after clk t)"
  using tracked_deadline by (simp add: fw_learned_def)

section \<open>Every step keeps the accounting and the history\<close>

lemma key_proto: "ipv6_firewall_key_from_packet m a len b = Some k \<Longrightarrow> fk_proto k = ip6_proto m a"
  by (auto simp: ipv6_firewall_key_from_packet_def ipv6_firewall_key_build_def Let_def split: if_splits)

lemma fw_key_proto:
  "fw_out_key m = Some k \<Longrightarrow> fk_proto k = ip6_proto m 0" "fw_in_key m = Some k \<Longrightarrow> fk_proto k = ip6_proto m 0"
  by (auto simp: fw_out_key_def fw_in_key_def key_proto split: if_splits)

lemma fw_session_ok_Cons: "fw_session_ok H k s \<Longrightarrow> fw_session_ok (e # H) k s"
  by (fastforce simp: fw_session_ok_def fw_opened_def fw_touched_def)

lemma fw_session_ok_deadline:
  "fw_session_ok H k s \<Longrightarrow> fst (snd s') = fst (snd s) \<Longrightarrow> fw_session_ok H k s'"
  by (simp add: fw_session_ok_def)

lemma fw_session_ok_touch:
  assumes "fw_opened H k" and "fw_clock_ok c" and "fw_touched H c k" and "t \<in> fw_lifetimes k"
    and "fst (snd s) = deadline_after c t"
  shows "fw_session_ok H k s"
  using assms by (auto simp: fw_session_ok_def)

lemma fw_session_ok_refresh:
  assumes "fw_session_ok H k s0" and "fw_clock_ok c" and "fw_touched H c k"
    and "fst (snd s) = fst (snd s0) \<or> (\<exists>t \<in> fw_lifetimes k. fst (snd s) = deadline_after c t)"
  shows "fw_session_ok H k s"
  using assms(4) fw_session_ok_deadline [OF assms(1)] fw_session_ok_touch [OF _ assms(2,3)] assms(1)
  by (metis fw_session_ok_def)

lemma fw_lifetimes_TCP: "fk_proto k = IPPROTO_TCP \<Longrightarrow> fw_lifetimes k = {10, 30, 60, 120, 7200}"
  by (simp add: fw_lifetimes_def)

lemma ten_in_lifetimes: "10 \<in> fw_lifetimes k"
  by (simp add: fw_lifetimes_def)

lemma spec_inbound_sessions:
  assumes "(b, \<sigma>') = fw_spec_inbound enforce clk m \<sigma>" and "\<sigma>' k = Some s"
  shows "\<sigma> k = Some s \<or> (\<exists>s0. fw_in_key m = Some k \<and> \<sigma> k = Some s0 \<and> (b \<or> ip6_proto m 0 = IPPROTO_TCP) \<and>
    (s = fw_used_session clk s0 \<or>
     ip6_proto m 0 = IPPROTO_TCP \<and> s = fw_tracked_session clk (tcp_hdr_at m 40) (ip6_len m) True (fw_used_session clk s0)))"
  using assms
  by (auto simp: fw_spec_inbound_def fw_close_expired_def Let_def dest!: fw_live_SomeD
      split: option.splits if_splits)

lemma inbound_keeps_history:
  assumes "fw_clock_ok clk" and "(b, \<sigma>') = fw_spec_inbound enforce clk m \<sigma>" and "\<sigma>' k = Some s"
    and "\<And>s0. \<sigma> k = Some s0 \<Longrightarrow> fw_session_ok H k s0"
  shows "fw_session_ok (Inbound clk m b # H) k s"
proof (cases "\<sigma> k = Some s")
  case True
  then show ?thesis using assms(4) by (blast intro: fw_session_ok_Cons)
next
  case False
  with spec_inbound_sessions [OF assms(2,3)] obtain s0 where k: "fw_in_key m = Some k" and s0: "\<sigma> k = Some s0"
    and pass: "b \<or> ip6_proto m 0 = IPPROTO_TCP" and s: "s = fw_used_session clk s0 \<or>
      ip6_proto m 0 = IPPROTO_TCP \<and> s = fw_tracked_session clk (tcp_hdr_at m 40) (ip6_len m) True (fw_used_session clk s0)"
    by blast
  let ?H = "Inbound clk m b # H" and ?u = "fw_used_session clk s0"
  have old: "fw_session_ok ?H k s0" using s0 assms(4) by (blast intro: fw_session_ok_Cons)
  then have op: "fw_opened ?H k" by (simp add: fw_session_ok_def)
  have to: "fw_touched ?H clk k" using k pass fw_key_proto(2) [OF k] by (auto simp: fw_touched_def)
  note touch = fw_session_ok_touch [OF op assms(1) to]
  have u: "fw_session_ok ?H k ?u"
    using used_deadline [of clk s0] fw_session_ok_deadline [OF old] touch [OF ten_in_lifetimes] by blast
  show ?thesis
  proof (cases "s = ?u")
    case False
    with s have tr: "s = fw_tracked_session clk (tcp_hdr_at m 40) (ip6_len m) True ?u" and "ip6_proto m 0 = IPPROTO_TCP"
      by auto
    then have "fw_lifetimes k = {10, 30, 60, 120, 7200}" using fw_key_proto(2) [OF k] fw_lifetimes_TCP by metis
    with tracked_deadline [of clk "tcp_hdr_at m 40" "ip6_len m" True ?u]
    show ?thesis unfolding tr by (intro fw_session_ok_refresh [OF u assms(1) to]) (simp only:)
  qed (use u in simp)
qed

lemma learn_keeps_history:
  assumes "fw_clock_ok clk" and "fw_out_key m = Some k"
    and "s = fw_new_session clk k \<or> (\<exists>s0. s = fw_used_session clk s0 \<and> fw_session_ok H k s0)"
  shows "fw_session_ok (Outbound clk m # H) k (fw_learned clk m s)"
proof -
  let ?H = "Outbound clk m # H"
  have op: "fw_opened ?H k" and to: "fw_touched ?H clk k" using assms(2) by (auto simp: fw_opened_def fw_touched_def)
  note touch = fw_session_ok_touch [OF op assms(1) to]
  have s: "fw_session_ok ?H k s"
    using assms(3)
  proof (elim disjE exE conjE)
    assume "s = fw_new_session clk k"
    then show ?thesis by (intro touch [OF ten_in_lifetimes]) (simp add: fw_new_session_def expiry_is_deadline)
  next
    fix s0
    assume "s = fw_used_session clk s0" and "fw_session_ok H k s0"
    then show ?thesis
      using used_deadline [of clk s0] fw_session_ok_deadline [OF fw_session_ok_Cons] touch [OF ten_in_lifetimes] by metis
  qed
  from learned_deadline [of clk m s]
  have "fst (snd (fw_learned clk m s)) = fst (snd s) \<or>
      (\<exists>t \<in> fw_lifetimes k. fst (snd (fw_learned clk m s)) = deadline_after clk t)"
    using fw_key_proto(1) [OF assms(2)] fw_lifetimes_TCP [of k] by metis
  with s assms(1) to show ?thesis by (rule fw_session_ok_refresh)
qed

lemma fw_init_entries_effect:
  "fw_hash (fw_table_init_entries n st) = fw_hash st"
  "fw_free_ring (fw_table_init_entries n st) = fw_free_ring st"
  "i < n \<Longrightarrow> fe_is_fill (fw_table (fw_table_init_entries n st) i) = IPV6_FIREWALL_ENTRY_FREE \<and>
    fw_expire_at (fw_table_init_entries n st) i = 0 \<and> fw_last_used (fw_table_init_entries n st) i = 0"
  by (induction n) (auto simp: Let_def less_Suc_eq)

lemma fw_enqueue_all_effect:
  assumes "fw_dpdk_ok D M" and "fw_free_ring st \<noteq> None" and "fw_free M st = []" and "n \<le> IPV6_FIREWALL_MAX_ENTRIES"
  shows "fw_free M (fw_table_enqueue_all_entries_to_ring D n st) = [0..<n]"
    and "fw_free_ring (fw_table_enqueue_all_entries_to_ring D n st) \<noteq> None"
    and "fw_hash (fw_table_enqueue_all_entries_to_ring D n st) = fw_hash st"
    and "fw_slot (fw_table_enqueue_all_entries_to_ring D n st) = fw_slot st"
  using assms(4)
  by (induction n) (simp_all add: assms(2,3) Let_def ring_enqueueD(1) [OF fw_ring_contract [OF assms(1)]])

lemma init_effect:
  assumes "fw_dpdk_ok D M" and "ipv6_firewall_table_init D c st = (SUCCESS, st')" and "fw_map M st' = Map.empty"
    and "fw_dq M st' = []" and "fwL M (the (fw_init_ring c)) = []"
  shows "fw_wf M {#} st'" and "fw_sessions M st' = Map.empty"
proof -
  let ?N = IPV6_FIREWALL_MAX_ENTRIES
  obtain h r where hr: "fw_init_hash c = Some h" "fw_init_ring c = Some r"
    using assms(2) by (auto simp: ipv6_firewall_table_init_def split: option.splits)
  define s2 where "s2 = fw_table_init_entries ?N (st\<lparr>fw_hash := Some h, fw_free_ring := Some r\<rparr>)"
  define s3 where "s3 = fw_table_enqueue_all_entries_to_ring D ?N s2"
  have st': "st' = s3\<lparr>fw_gc_counter := 0, fw_enospc := 0, fw_gc_reclaimed := 0, fw_evicted := 0,
      fw_icmp6_err_passed := 0, fw_icmp6_err_dropped := 0\<rparr>"
    using assms(2) hr by (simp add: ipv6_firewall_table_init_def Let_def s2_def s3_def)
  have s2: "fw_free_ring s2 = Some r" "fw_hash s2 = Some h"
    by (simp_all add: s2_def fw_init_entries_effect)
  note e = fw_enqueue_all_effect [OF assms(1), of s2 ?N, folded s3_def]
  have "fw_free M s2 = []" using assms(5) hr s2 by simp
  note e3 = e [OF _ this order_refl]
  have "fe_is_fill (fw_table s3 i) = IPV6_FIREWALL_ENTRY_FREE \<and> fw_expire_at s3 i = 0 \<and> fw_last_used s3 i = 0"
    if "i < ?N" for i
  proof -
    have "fw_slot s3 i = fw_slot s2 i" using e3(4) s2 by simp
    with fw_init_entries_effect(3) [OF that, of "st\<lparr>fw_hash := Some h, fw_free_ring := Some r\<rparr>"] show ?thesis
      by (simp add: fw_slot_def s2_def)
  qed
  moreover have "fw_free M s3 = [0..<?N]" "fw_free_ring s3 \<noteq> None" "fw_hash s3 = Some h" using e3(1-3) s2 by simp_all
  moreover have "slots_ok ?N [0..<?N] [] {} {#}" by (rule slots_ok_init)
  ultimately have "fw_wf M {#} s3" using assms(3,4) by (simp add: fw_wf_def st')
  then show "fw_wf M {#} st'" by (simp add: st')
  show "fw_sessions M st' = Map.empty" using assms(3) by (simp add: fw_sessions_def fun_eq_iff)
qed

lemma del_all_from_effect:
  assumes "fw_dpdk_ok D M" and "fw_wf M {#} st" and "\<forall>k s. fw_sessions M st k = Some s \<longrightarrow> fst (snd s) \<noteq> 0"
  shows "fw_wf M {#} (fw_del_all_from D js st)"
    and "fw_map M (fw_del_all_from D js st) k = Some i \<Longrightarrow> fw_map M st k = Some i \<and> i \<notin> set js"
proof -
  have "fw_wf M {#} (fw_del_all_from D js st) \<and>
    (fw_map M (fw_del_all_from D js st) k = Some i \<longrightarrow> fw_map M st k = Some i \<and> i \<notin> set js)"
    using assms(2,3)
  proof (induction js arbitrary: st)
    case (Cons j js)
    show ?case
    proof (cases "fw_expire_at st j \<noteq> 0 \<and> fe_is_fill (fw_table st j) = IPV6_FIREWALL_ENTRY_READY")
      case True
      define st1 where "st1 = snd (fw_hash_del D (fe_key (fw_table st j)) st)"
      note d = hash_del_effect [OF assms(1) Cons.prems(1), where k = "fe_key (fw_table st j)", folded st1_def]
      have "\<forall>k s. fw_sessions M st1 k = Some s \<longrightarrow> fst (snd s) \<noteq> 0"
        using Cons.prems(2) by (auto simp: d(2) split: if_splits)
      from Cons.IH [OF d(1) this] True have ih: "fw_wf M {#} (fw_del_all_from D (j # js) st)"
        "fw_map M (fw_del_all_from D (j # js) st) k = Some i \<Longrightarrow> fw_map M st1 k = Some i \<and> i \<notin> set js"
        by (simp_all add: st1_def)
      moreover have "i \<noteq> j" if "fw_map M st1 k = Some i"
        using that fw_wfD(5) [OF Cons.prems(1), of k i] by (auto simp: d(5) split: if_splits)
      ultimately show ?thesis by (auto simp: d(5) split: if_splits)
    next
      case False
      then have skip: "fw_del_all_from D (j # js) st = fw_del_all_from D js st" by auto
      have "fw_map M st k \<noteq> Some j"
      proof
        assume kj: "fw_map M st k = Some j"
        then have "fw_sessions M st k = Some (fw_slot st j)" by (simp add: fw_sessions_def)
        with Cons.prems(2) False fw_wfD(4) [OF Cons.prems(1) kj] show False by (fastforce simp: fw_slot_def)
      qed
      with Cons.IH [OF Cons.prems] show ?thesis unfolding skip by auto
    qed
  qed simp
  then show "fw_wf M {#} (fw_del_all_from D js st)"
    "fw_map M (fw_del_all_from D js st) k = Some i \<Longrightarrow> fw_map M st k = Some i \<and> i \<notin> set js" by simp_all
qed

lemma del_all_effect:
  assumes "fw_dpdk_ok D M" and "fw_wf M {#} st" and "\<forall>k s. fw_sessions M st k = Some s \<longrightarrow> fst (snd s) \<noteq> 0"
  shows "fw_wf M {#} (ipv6_firewall_table_del_all_entries_from_hash D st)"
    and "fw_sessions M (ipv6_firewall_table_del_all_entries_from_hash D st) = Map.empty"
proof -
  let ?st = "fw_del_all_from D [0..<IPV6_FIREWALL_MAX_ENTRIES] st"
  note d = del_all_from_effect [OF assms, where js = "[0..<IPV6_FIREWALL_MAX_ENTRIES]"]
  have "fw_map M ?st k \<noteq> Some i" for k i
    using d(2) [of k i] fw_map_bound [OF assms(2), of k i] by auto
  then have "fw_map M ?st k = None" for k by (metis not_None_eq)
  then have "fw_sessions M ?st = Map.empty" by (simp add: fw_sessions_def fun_eq_iff)
  then show "fw_sessions M (ipv6_firewall_table_del_all_entries_from_hash D st) = Map.empty"
    by (simp add: ipv6_firewall_table_del_all_entries_from_hash_def)
  show "fw_wf M {#} (ipv6_firewall_table_del_all_entries_from_hash D st)"
    using d(1) by (simp add: ipv6_firewall_table_del_all_entries_from_hash_def)
qed

lemma trace_inv:
  assumes "fw_trace D M H st" and "fw_dpdk_ok D M"
  shows "fw_wf M {#} st \<and> (\<forall>k s. fw_sessions M st k = Some s \<longrightarrow> fw_session_ok H k s)"
  using assms(1)
proof (induction rule: fw_trace.induct)
  case (init c st st')
  with init_effect [OF assms(2)] show ?case by simp
next
  case (learn H st clk m)
  then have wf: "fw_wf M {#} st" and hist: "\<And>k s. fw_sessions M st k = Some s \<Longrightarrow> fw_session_ok H k s" by auto
  show ?case
  proof (cases "fw_out_key m")
    case None
    with wf hist show ?thesis by (auto simp: learn_untracked intro: fw_session_ok_Cons)
  next
    case (Some k)
    show ?thesis
    proof (cases "fw_sessions M st k")
      case (Some s)
      note l = learn_known [OF assms(2) wf \<open>fw_out_key m = Some k\<close> Some, of clk]
      have "fw_session_ok (Outbound clk m # H) k (fw_learned clk m (fw_used_session clk s))"
        using learn_keeps_history [OF learn.hyps(2) \<open>fw_out_key m = Some k\<close>] hist [OF Some] by blast
      with l hist show ?thesis by (auto intro: fw_session_ok_Cons)
    next
      case None
      note l = learn_new [OF assms(2) wf Some None, of clk]
      have new: "fw_session_ok (Outbound clk m # H) k (fw_learned clk m (fw_new_session clk k))"
        using learn_keeps_history [OF learn.hyps(2) Some] by blast
      obtain \<tau> where \<tau>: "\<tau> \<subseteq>\<^sub>m fw_sessions M st"
        and s': "fw_sessions M (ipv6_firewall_learn D clk m st) = \<tau> \<or>
          fw_sessions M (ipv6_firewall_learn D clk m st) = \<tau>(k \<mapsto> fw_learned clk m (fw_new_session clk k))"
        using l(3) by blast
      have "fw_session_ok (Outbound clk m # H) x s" if "\<tau> x = Some s" for x s
        using that \<tau> hist by (metis domI fw_session_ok_Cons map_le_def)
      with l(1) s' new show ?thesis by (auto split: if_splits)
    qed
  qed
next
  case (inbound H st clk m b st')
  with inbound_simulates [OF assms(2) _ inbound.hyps(3)] show ?case
    using inbound_keeps_history [OF inbound.hyps(2)] by blast
next
  case (gc H st clk n)
  with gc_scan_effect [OF assms(2), of "{#}" st clk n] show ?case by (auto dest: fw_shrinks_D)
next
  case (enforce H st b)
  then show ?case by (simp add: fw_wf_def fw_sessions_def fw_slot_def [abs_def])
next
  case (del_all H st)
  have "\<forall>k s. fw_sessions M st k = Some s \<longrightarrow> fst (snd s) \<noteq> 0"
    using del_all.IH deadline_after_nonzero by (fastforce simp: fw_session_ok_def)
  with del_all_effect [OF assms(2)] del_all.IH show ?case by simp
qed

section \<open>Replies\<close>

text \<open>
  A packet \<open>m'\<close> answers \<open>m\<close>: addresses and ports swapped, or the echo reply to an echo request with
  the same identifier, and long enough to be matched.
\<close>

definition fw_answers :: "memory \<Rightarrow> memory \<Rightarrow> bool" where
  "fw_answers m m' \<longleftrightarrow>
     ip6_proto m' 0 = ip6_proto m 0 \<and>
     ip6_src_addr m' 0 = ip6_dst_addr m 0 \<and> ip6_dst_addr m' 0 = ip6_src_addr m 0 \<and>
     (if ip6_proto m 0 = IPPROTO_ICMPV6 then m' 40 = ICMP6_ECHO_REPLY \<and> word16_at m' 44 = word16_at m 44 \<and> 8 \<le> ip6_len m'
      else word16_at m' 40 = word16_at m 42 \<and> word16_at m' 42 = word16_at m 40 \<and>
           (if ip6_proto m 0 = IPPROTO_TCP then 20 else 4) \<le> ip6_len m')"

lemma answer_key:
  assumes "fw_out_key m = Some k" and "fw_answers m m'"
  shows "fw_in_key m' = Some k" and "\<not> fw_is_error m'"
proof -
  have ports: "\<not> ip6_len m' < 4" if "20 \<le> ip6_len m'"
    using that by (simp add: word_less_nat_alt word_le_nat_alt)
  from assms show "fw_in_key m' = Some k"
    by (auto simp: fw_out_key_def fw_in_key_def fw_answers_def ipv6_firewall_key_from_packet_def
        ipv6_firewall_key_build_def Let_def ports not_less split: if_splits)
  from assms show "\<not> fw_is_error m'"
    by (auto simp: fw_is_error_def fw_answers_def icmp6_type_is_error_def split: if_splits)
qed

lemma used_deadline_late:
  assumes "fw_clock_ok clk"
  shows "unat (cur_cycles clk) + 9 * unat (cycles_in_sec clk) \<le> unat (fst (snd (fw_used_session clk s)))"
proof -
  obtain e d l where s: "s = (e, d, l)" by (cases s)
  have t: "unat (deadline_after clk 10) = unat (cur_cycles clk) + 10 * unat (cycles_in_sec clk)"
    using unat_deadline_after [OF assms, of 10] by simp
  show ?thesis
  proof (cases "d + cycles_in_sec clk < deadline_after clk 10")
    case True
    with t show ?thesis by (simp add: s fw_used_session_def nat_expire_refresh_def expiry_is_deadline)
  next
    case False
    then have "unat (deadline_after clk 10) \<le> unat (d + cycles_in_sec clk)" by (simp add: word_le_nat_alt not_less)
    also have "\<dots> \<le> unat d + unat (cycles_in_sec clk)" by (simp add: unat_word_ariths)
    finally show ?thesis
      using False t by (simp add: s fw_used_session_def nat_expire_refresh_def expiry_is_deadline)
  qed
qed

lemma new_deadline_late:
  assumes "fw_clock_ok clk"
  shows "unat (cur_cycles clk) + 9 * unat (cycles_in_sec clk) \<le> unat (fst (snd (fw_new_session clk k)))"
  using unat_deadline_after [OF assms, of 10] by (simp add: fw_new_session_def expiry_is_deadline)

lemma deadline_after_late:
  assumes "fw_clock_ok clk" and "t \<in> {10, 30, 60, 120, 7200}"
  shows "unat (cur_cycles clk) + 9 * unat (cycles_in_sec clk) \<le> unat (deadline_after clk t)"
proof -
  have t: "9 \<le> unat t" "unat t \<le> 7200" using assms(2) by auto
  have "9 * unat (cycles_in_sec clk) \<le> unat t * unat (cycles_in_sec clk)" using t(1) by (rule mult_right_mono) simp
  then show ?thesis using unat_deadline_after [OF assms(1) t(2)] by linarith
qed

lemma learned_deadline_late:
  assumes "fw_clock_ok clk"
    and "unat (cur_cycles clk) + 9 * unat (cycles_in_sec clk) \<le> unat (fst (snd s))"
  shows "unat (cur_cycles clk) + 9 * unat (cycles_in_sec clk) \<le> unat (fst (snd (fw_learned clk m s)))"
  using learned_deadline [of clk m s] assms(2) deadline_after_late [OF assms(1)] by metis

text \<open>A session opened by a SYN accepts the SYN-ACK.\<close>

lemma tracked_syn_state:
  assumes "tcp_flags tcp = 0x02" and "fe_tcp_state (fst s) = TCP_CONNTRACK_NONE"
  shows "fe_tcp_state (fst (fw_tracked_session clk tcp len False s)) = TCP_CONNTRACK_SYN_SENT"
proof -
  obtain e d l where s: "s = (e, d, l)" by (cases s)
  define v where "v = ipv6_firewall_conntrack_view (e, d)"
  have v: "tcp_state v = TCP_CONNTRACK_NONE" using assms(2) by (simp add: s v_def ipv6_firewall_conntrack_view_def)
  have ev: "tcp_flags_to_event (tcp_flags tcp) False = TCP_EV_SYN" using assms(1) by (simp add: tcp_flags_to_event_def)
  have "tcp_scan (tcp_state v) (tcp_flags_to_event (tcp_flags tcp) False) =
      Some (tcp_row TCP_CONNTRACK_NONE TCP_EV_SYN TCP_CONNTRACK_SYN_SENT [tcp_act_timeout_syn_sent])"
    unfolding v ev by (rule tcp_scan_handshake(1))
  from fsm_view_fires [OF _ this, of clk] ev
  have "tcp_state (snd (tcp_conntrack_fsm_view clk v (tcp_flags tcp) False)) = TCP_CONNTRACK_SYN_SENT"
    by (simp add: tcp_row_def tcp_act_timeout_syn_sent_def)
  then show ?thesis
    by (simp add: s fw_tracked_session_def conntrack_track_def fw_view_write_def flip: v_def)
qed

lemma new_syn_session:
  assumes "ip6_proto m 0 = IPPROTO_TCP" and "tcp_flags (tcp_hdr_at m 40) = 0x02" and "tcp_flags tcp = 0x12"
  shows "fw_segment_ok (fw_used_session clk' (fw_learned clk m (fw_new_session clk k))) tcp"
proof -
  let ?s = "fw_learned clk m (fw_new_session clk k)"
  have "fe_tcp_state (fst ?s) = TCP_CONNTRACK_SYN_SENT"
    using tracked_syn_state [OF assms(2), of "fw_new_session clk k" clk "ip6_len m"] assms(1)
    by (simp add: fw_learned_def fw_new_session_def)
  then have "fe_tcp_state (fst (fw_used_session clk' ?s)) = TCP_CONNTRACK_SYN_SENT"
    by (simp add: fw_used_session_fst)
  moreover obtain e d l where "fw_used_session clk' ?s = (e, d, l)" by (metis prod_cases3)
  ultimately show ?thesis using assms(3)
    by (simp add: fw_segment_ok_def tcp_conntrack_inbound_valid_def tcp_conntrack_seq_valid_view_def
        tcp_flags_to_event_def)
qed

section \<open>Bytes read\<close>

lemma word_ge_unat: "\<not> x < (y :: u16) \<Longrightarrow> unat y \<le> unat x"
  by (simp add: word_less_nat_alt not_less)

lemma key_from_packet_cong:
  assumes "\<forall>i. a \<le> i \<and> i < a + 40 + unat len \<longrightarrow> m i = m' i"
  shows "ipv6_firewall_key_from_packet m a len b = ipv6_firewall_key_from_packet m' a len b"
proof -
  have hdr: "ip6_src_addr m a = ip6_src_addr m' a" "ip6_dst_addr m a = ip6_dst_addr m' a" "ip6_proto m a = ip6_proto m' a"
    unfolding ip6_src_addr_def ip6_dst_addr_def ip6_proto_def
    by (rule read_cong | use assms in simp)+
  have ports: "word16_at m (a + 40) = word16_at m' (a + 40)" "word16_at m (a + 40 + 2) = word16_at m' (a + 40 + 2)" if "\<not> len < 4"
    using word_ge_unat [OF that] assms by (auto intro!: read_cong)
  have echo: "word16_at m (a + 40 + 4) = word16_at m' (a + 40 + 4)" "m (a + 40) = m' (a + 40)" if "\<not> len < 8"
    using word_ge_unat [OF that] assms by (auto intro!: read_cong)
  show ?thesis
    unfolding ipv6_firewall_key_from_packet_def Let_def hdr
    by (cases "len < 4"; cases "len < 8") (simp_all only: ports echo if_True if_False not_False_eq_True)
qed

lemma tcp_hdr_at_cong:
  assumes "\<forall>i < 40 + unat len. m i = m' i" and "\<not> len < (20 :: u16)"
  shows "tcp_hdr_at m 40 = tcp_hdr_at m' 40"
proof -
  have "20 \<le> unat len" using word_ge_unat [OF assms(2)] by simp
  with assms(1) show ?thesis by (simp add: tcp_hdr_at_def) (auto intro!: read_cong)
qed

lemma ip6_hdr_cong:
  assumes "\<forall>i < 40. m i = m' i"
  shows "ip6_len m = ip6_len m'" "ip6_proto m 0 = ip6_proto m' 0" "ip6_dst_addr m 0 = ip6_dst_addr m' 0"
proof -
  have "word16_at m (0 + 4) = word16_at m' (0 + 4)" "bytes_at m (0 + 24) 16 = bytes_at m' (0 + 24) 16"
    by (rule read_cong; use assms in simp)+
  then show "ip6_len m = ip6_len m'" "ip6_proto m 0 = ip6_proto m' 0" "ip6_dst_addr m 0 = ip6_dst_addr m' 0"
    using assms by (simp_all add: ip6_payload_len_def ip6_proto_def ip6_dst_addr_def)
qed

section \<open>The oldest stamp\<close>

lemma lru_fold:
  "let acc = fold (fw_lru_step lu) xs (- 1, n) in
     (acc = (- 1, n) \<and> (\<forall>j \<in> set xs. lu j = 0 \<or> lu j = - 1)) \<or>
     (snd acc \<in> set xs \<and> lu (snd acc) = fst acc \<and> fst acc \<noteq> 0 \<and> (\<forall>j \<in> set xs. lu j \<noteq> 0 \<longrightarrow> fst acc \<le> lu j))"
proof (induction xs rule: rev_induct)
  case (snoc x xs)
  obtain old vic where acc: "fold (fw_lru_step lu) xs (- 1, n) = (old, vic)" by (metis surj_pair)
  have top: "- 1 \<le> lu x \<longleftrightarrow> lu x = - 1" by (metis word_n1_ge order_antisym)
  show ?case
  proof (cases "lu x = 0 \<or> old \<le> lu x")
    case True
    then have "fold (fw_lru_step lu) (xs @ [x]) (- 1, n) = (old, vic)" by (simp add: acc fw_lru_step_def)
    with snoc.IH True top show ?thesis by (auto simp: acc Let_def)
  next
    case False
    then have "fold (fw_lru_step lu) (xs @ [x]) (- 1, n) = (lu x, x)" by (simp add: acc fw_lru_step_def)
    moreover have "lu x \<le> lu j" if "j \<in> set xs" "lu j \<noteq> 0" for j
      using snoc.IH False that by (auto simp: acc Let_def not_le intro: order.trans [OF less_imp_le])
    ultimately show ?thesis using False by (auto simp: Let_def)
  qed
qed simp

lemma lru_victim:
  assumes "fw_lru_victim lu \<noteq> IPV6_FIREWALL_MAX_ENTRIES"
  shows "fw_lru_victim lu < IPV6_FIREWALL_MAX_ENTRIES" and "lu (fw_lru_victim lu) \<noteq> 0"
    and "j < IPV6_FIREWALL_MAX_ENTRIES \<Longrightarrow> lu j \<noteq> 0 \<Longrightarrow> lu (fw_lru_victim lu) \<le> lu j"
  using lru_fold [of lu "[0..<IPV6_FIREWALL_MAX_ENTRIES]" IPV6_FIREWALL_MAX_ENTRIES] assms
  unfolding fw_lru_victim_def Let_def by auto

section \<open>Properties\<close>

text \<open>
  C17. The pool, the hash, the free list and the defer queue together are a map from keys to sessions:
  the verdict on an inbound packet and the sessions it leaves are those of the reference
  \<open>fw_spec_inbound\<close>, whatever happened to the table before.
\<close>

theorem fw_inbound_refines_map:
  assumes "fw_dpdk_ok D M" and "fw_trace D M H st"
  shows "(fst (ipv6_firewall_inbound_pass D clk m st), fw_sessions M (snd (ipv6_firewall_inbound_pass D clk m st))) =
    fw_spec_inbound (fw_conntrack_enabled st) clk m (fw_sessions M st)"
proof -
  have "fw_wf M {#} st" using trace_inv [OF assms(2,1)] by simp
  from inbound_simulates [OF assms(1) this] show ?thesis by simp
qed

text \<open>
  C15. Default deny. An inbound packet passes only if, since the sessions were last deleted, a LAN host
  sent a packet with the very same key, and traffic on that key was seen recently enough: within the
  idle lifetime for UDP and echo, within the lifetime of some TCP state for TCP. For an ICMPv6 error
  this is said of the packet it quotes, which must come from the host the error is addressed to.
\<close>

theorem fw_default_deny:
  assumes "fw_dpdk_ok D M" and "fw_trace D M H st" and "fst (ipv6_firewall_inbound_pass D clk m st)"
  shows "\<exists>k c t.
    (if fw_is_error m then fw_quoted_key m = Some k \<and> fk_lan_addr k = ip6_dst_addr m 0 else fw_in_key m = Some k) \<and>
    fw_opened H k \<and> fw_touched H c k \<and> t \<in> fw_lifetimes k \<and> cur_cycles clk \<le> deadline_after c t"
proof -
  note inv = trace_inv [OF assms(2,1)]
  have "fst (fw_spec_inbound (fw_conntrack_enabled st) clk m (fw_sessions M st))"
    using inbound_simulates [OF assms(1), of st clk m] inv assms(3) by (metis fst_conv prod.collapse)
  then obtain k s where k: "(if fw_is_error m then fw_quoted_key m else fw_in_key m) = Some k"
    and l: "fw_live clk k (fw_sessions M st) = Some s"
    by (auto simp: fw_spec_inbound_def split: option.splits)
  have "fw_session_ok H k s" using fw_live_SomeD [OF l] inv by blast
  with fw_live_SomeD [OF l] obtain c t where "fw_opened H k" "fw_touched H c k" "t \<in> fw_lifetimes k"
    "cur_cycles clk \<le> deadline_after c t" unfolding fw_session_ok_def by metis
  moreover have "fk_lan_addr k = ip6_dst_addr m 0" if "fw_quoted_key m = Some k"
    using that by (auto simp: fw_quoted_key_def ipv6_firewall_key_from_packet_def ipv6_firewall_key_build_def Let_def
        split: if_splits)
  ultimately show ?thesis using k by (auto split: if_splits)
qed


text \<open>
  C18. Memory safety of the packet path: learning and the inbound verdict depend on nothing beyond the
  IPv6 header and the payload length it announces, whatever follows in memory. This covers the
  packet quoted in an ICMPv6 error, whose own length field is never believed.
\<close>

theorem fw_reads_within_packet:
  assumes "\<forall>i < 40 + unat (ip6_len m). m i = m' i"
  shows "ipv6_firewall_learn D clk m st = ipv6_firewall_learn D clk m' st \<and>
    ipv6_firewall_inbound_pass D clk m st = ipv6_firewall_inbound_pass D clk m' st"
proof -
  have "\<forall>i < 40. m i = m' i" using assms by simp
  note h = ip6_hdr_cong [OF this]
  note mm = assms [unfolded h(1)]
  have k0: "ipv6_firewall_key_from_packet m 0 (ip6_len m') b = ipv6_firewall_key_from_packet m' 0 (ip6_len m') b" for b
    using mm by (intro key_from_packet_cong) simp
  have tcp: "tcp_hdr_at m 40 = tcp_hdr_at m' 40" if "\<not> ip6_len m' < 20" using tcp_hdr_at_cong [OF mm that] .
  have ty: "0 < ip6_len m' \<Longrightarrow> m 40 = m' 40" using mm by (simp add: word_less_nat_alt)
  have err: "ipv6_firewall_icmp6_error_pass D clk m (ip6_len m') st = ipv6_firewall_icmp6_error_pass D clk m' (ip6_len m') st"
  proof (cases "ip6_len m' < 56")
    case False
    then have len: "56 \<le> unat (ip6_len m')" using word_ge_unat by fastforce
    have q: "unat (ip6_len m' - 8 - 40) = unat (ip6_len m') - 48"
      using len by (simp add: unat_sub_if' diff_diff_eq)
    have "ip6_src_addr m 48 = ip6_src_addr m' 48"
      unfolding ip6_src_addr_def by (rule read_cong) (use mm len in simp)
    moreover have "ipv6_firewall_key_from_packet m 48 (ip6_len m' - 8 - 40) False =
        ipv6_firewall_key_from_packet m' 48 (ip6_len m' - 8 - 40) False"
      by (rule key_from_packet_cong) (use mm len q in simp)
    ultimately show ?thesis by (simp add: ipv6_firewall_icmp6_error_pass_def Let_def h(3))
  qed (simp add: ipv6_firewall_icmp6_error_pass_def)
  have tp: "ipv6_firewall_tcp_inbound_pass clk i m (ip6_len m') s = ipv6_firewall_tcp_inbound_pass clk i m' (ip6_len m') s" for i s
    using tcp by (cases "ip6_len m' < 20") (simp_all add: ipv6_firewall_tcp_inbound_pass_def)
  have inb: "ipv6_firewall_inbound_pass D clk m st = ipv6_firewall_inbound_pass D clk m' st"
    using ty by (simp add: ipv6_firewall_inbound_pass_def Let_def h(1,2) k0 err tp
        cong: conj_cong if_cong option.case_cong prod.case_cong)
  have "ipv6_firewall_learn D clk m st = ipv6_firewall_learn D clk m' st"
    using tcp by (cases "ip6_len m' < 20"; cases "ip6_proto m' 0 = IPPROTO_TCP")
      (simp_all add: ipv6_firewall_learn_def Let_def h(1,2) k0 cong: if_cong option.case_cong prod.case_cong)
  with inb show ?thesis by simp
qed

text \<open>
  Slot accounting. In every reachable table each slot is on the free list, waits in the defer
  queue or holds exactly one published session, never two of these; a published slot is ready and
  carries its own key, and a free one is marked free in all three arrays.
\<close>

theorem fw_slots_accounted:
  assumes "fw_dpdk_ok D M" and "fw_trace D M H st"
  shows "slots_ok IPV6_FIREWALL_MAX_ENTRIES (fw_free M st) (fw_dq M st) (ran (fw_map M st)) {#} \<and>
    (\<forall>k i. fw_map M st k = Some i \<longrightarrow>
       fe_is_fill (fw_table st i) = IPV6_FIREWALL_ENTRY_READY \<and> fe_key (fw_table st i) = k) \<and>
    (\<forall>i \<in> set (fw_free M st). fe_is_fill (fw_table st i) = IPV6_FIREWALL_ENTRY_FREE \<and>
       fw_expire_at st i = 0 \<and> fw_last_used st i = 0)"
  using trace_inv [OF assms(2,1)] by (simp add: fw_wf_def)

text \<open>
  Eviction. When it succeeds, exactly one session is closed, the one whose key the slot with the
  oldest stamp carries. That slot either holds that session, which then is the least recently used
  one, or has already been unlinked and waits in the defer queue.
\<close>

theorem fw_evicts_least_recently_used:
  assumes "fw_dpdk_ok D M" and "fw_trace D M H st" and "ipv6_firewall_evict_lru D st = (True, st')"
  shows "\<exists>i < IPV6_FIREWALL_MAX_ENTRIES. \<exists>k. fe_key (fw_table st i) = k \<and>
    fw_sessions M st k \<noteq> None \<and> fw_sessions M st' = (fw_sessions M st)(k := None) \<and>
    fw_last_used st i \<noteq> 0 \<and>
    (\<forall>j < IPV6_FIREWALL_MAX_ENTRIES. fw_last_used st j \<noteq> 0 \<longrightarrow> fw_last_used st i \<le> fw_last_used st j) \<and>
    (fw_map M st k = Some i \<or> i \<in> set (fw_dq M st))"
proof -
  have wf: "fw_wf M {#} st" using trace_inv [OF assms(2,1)] by simp
  define i where "i = fw_lru_victim (fw_last_used st)"
  let ?k = "fe_key (fw_table st i)"
  obtain ok s1 where d: "fw_hash_del D ?k st = (ok, s1)" by (metis surj_pair)
  from assms(3) d have i: "i \<noteq> IPV6_FIREWALL_MAX_ENTRIES" and ok and st': "st' = s1\<lparr>fw_evicted := fw_evicted s1 + 1\<rparr>"
    by (auto simp: ipv6_firewall_evict_lru_def Let_def i_def split: if_splits)
  note e = hash_del_effect(2,3) [OF assms(1) wf, of ?k, unfolded d] and v = lru_victim [OF i [unfolded i_def], folded i_def]
  have "i \<notin> set (fw_free M st)" using fw_wfD(6) [OF wf] v(2) by blast
  then have "i \<in> set (fw_dq M st) \<or> i \<in> ran (fw_map M st)"
    using slots_ok_cover [OF fw_wfD(3) [OF wf] v(1)] by simp
  then have "fw_map M st ?k = Some i \<or> i \<in> set (fw_dq M st)"
    using fw_wfD(5) [OF wf] by (auto simp: ran_def)
  moreover have "fw_sessions M st ?k \<noteq> None" "fw_sessions M st' = (fw_sessions M st)(?k := None)"
    using e \<open>ok\<close> st' by simp_all
  ultimately show ?thesis using v by blast
qed

text \<open>
  Fail closed. When the table cannot be created (no hash, no defer queue, no ring), the
  subscriber is left without one: outbound packets are not learned and every inbound packet is denied.
  The same holds after the table is destroyed.
\<close>

theorem fw_fails_closed:
  assumes "ipv6_firewall_table_init D c st = (ERROR, st') \<or> st' = ipv6_firewall_table_destroy st"
  shows "ipv6_firewall_learn D clk m st' = st' \<and> ipv6_firewall_inbound_pass D clk m st' = (False, st') \<and>
    (fw_init_hash c = None \<or> fw_init_ring c = None \<or> st' = ipv6_firewall_table_destroy st)"
proof -
  have "fw_hash st' = None"
    using assms by (auto simp: ipv6_firewall_table_init_def ipv6_firewall_table_destroy_def Let_def split: option.splits)
  moreover have "fw_init_hash c = None \<or> fw_init_ring c = None \<or> st' = ipv6_firewall_table_destroy st"
    using assms by (auto simp: ipv6_firewall_table_init_def Let_def split: option.splits)
  ultimately show ?thesis by (simp add: ipv6_firewall_learn_def ipv6_firewall_inbound_pass_def Let_def)
qed

text \<open>
  An ICMPv6 error that is let in refreshes nothing: the table is exactly as before, except for one
  counter.
\<close>

theorem fw_error_refreshes_nothing:
  assumes "fw_is_error m" and "ipv6_firewall_inbound_pass D clk m st = (True, st')"
  shows "st' = st\<lparr>fw_icmp6_err_passed := fw_icmp6_err_passed st + 1\<rparr>"
  using assms
  by (auto simp: fw_is_error_def ipv6_firewall_inbound_pass_def ipv6_firewall_icmp6_error_pass_def
      ipv6_firewall_lookup_live_def Let_def split: if_splits option.splits)

end
