(* ===== verification/Ipv6_Firewall_Run.thy ===== *)
theory Ipv6_Firewall_Run
  imports Ipv6_Firewall_Props
begin

text \<open>
  The IPv6 firewall on concrete library objects (the list hash and the list ring of theory \<open>Dpdk\<close>) and
  concrete packets: the witnesses of the properties, and a run in which garbage collection closes a
  session that is still alive.
\<close>

section \<open>A concrete table\<close>

type_synonym fw_list_ccb = "(ipv6_firewall_key list_hash, nat list) fw_ccb"

definition fw_list_dpdk :: "(ipv6_firewall_key list_hash, nat list) fw_dpdk" where
  "fw_list_dpdk = \<lparr>fw_hash_ops = list_hash, fw_ring_ops = list_ring IPV6_FIREWALL_MAX_ENTRIES\<rparr>"

definition fw_list_abs :: "(ipv6_firewall_key list_hash, nat list) fw_abs" where
  "fw_list_abs = \<lparr>fwA = (\<lambda>(kvs, q). map_of kvs), fwQ = snd, fwL = id\<rparr>"

definition fw_list_create :: "(ipv6_firewall_key list_hash, nat list) fw_create" where
  "fw_list_create = \<lparr>hash_find_existing = None, hash_create = Some ([], []), hash_rcu_qsbr_add = True,
     ring_lookup = None, ring_create = Some []\<rparr>"

definition fw_zero_key :: ipv6_firewall_key where
  "fw_zero_key = \<lparr>fk_lan_addr = [], fk_remote_addr = [], fk_lan_port = 0, fk_remote_port = 0, fk_proto = 0\<rparr>"

definition fw_zero_entry :: ipv6_firewall_entry where
  "fw_zero_entry = \<lparr>fe_key = fw_zero_key, fe_is_fill = 0, fe_tcp_state = 0, fe_tcp_fin_flags = 0,
     fe_max_seq_end_lan = 0, fe_max_seq_end_wan = 0, fe_max_ack_lan = 0, fe_max_ack_wan = 0,
     fe_max_win_lan = 0, fe_max_win_wan = 0\<rparr>"

definition fw_list_raw :: fw_list_ccb where
  "fw_list_raw = \<lparr>fw_table = (\<lambda>_. fw_zero_entry), fw_expire_at = (\<lambda>_. 0), fw_last_used = (\<lambda>_. 0), fw_enospc = 0,
     fw_gc_reclaimed = 0, fw_evicted = 0, fw_icmp6_err_passed = 0, fw_icmp6_err_dropped = 0,
     fw_hash = None, fw_free_ring = None, fw_gc_counter = 0, fw_conntrack_enabled = True\<rparr>"

definition fw_list_init :: fw_list_ccb where
  "fw_list_init = snd (ipv6_firewall_table_init fw_list_dpdk fw_list_create fw_list_raw)"

definition byte_memory :: "u8 list \<Rightarrow> memory" where
  "byte_memory bs i = (if i < length bs then bs ! i else 0)"

text \<open>A UDP packet from \<open>2001:db8::1\<close> port 0x1000 to \<open>2001:4860::8\<close> port 53, and its answer.\<close>

definition lan_host :: "u8 list" where
  "lan_host = [0x20, 0x01, 0x0d, 0xb8, 0, 0, 0, 0, 0, 0, 0, 0, 0, 0, 0, 1]"

definition remote_host :: "u8 list" where
  "remote_host = [0x20, 0x01, 0x48, 0x60, 0, 0, 0, 0, 0, 0, 0, 0, 0, 0, 0, 8]"

definition udp_query :: memory where
  "udp_query = byte_memory ([0x60, 0, 0, 0, 0, 8, 17, 64] @ lan_host @ remote_host @ [0x10, 0, 0, 53, 0, 8, 0, 0])"

definition udp_answer :: memory where
  "udp_answer = byte_memory ([0x60, 0, 0, 0, 0, 8, 17, 64] @ remote_host @ lan_host @ [0, 53, 0x10, 0, 0, 8, 0, 0])"

definition udp_key :: ipv6_firewall_key where
  "udp_key = \<lparr>fk_lan_addr = lan_host, fk_remote_addr = remote_host, fk_lan_port = 0x0010, fk_remote_port = 0x3500, fk_proto = 17\<rparr>"

definition tick :: "u64 \<Rightarrow> clock" where
  "tick n = \<lparr>cur_cycles = n, cycles_in_sec = 1\<rparr>"

lemma fw_list_ok: "fw_dpdk_ok fw_list_dpdk fw_list_abs"
  by (simp add: fw_dpdk_ok_def fw_list_dpdk_def fw_list_abs_def list_hash_contract list_ring_contract)

lemma MAX_pos: "0 < IPV6_FIREWALL_MAX_ENTRIES"
  by (simp add: IPV6_FIREWALL_MAX_ENTRIES_def)

lemma fw_list_init_fields:
  "fw_hash fw_list_init = Some ([], [])"
  "fw_free_ring fw_list_init = Some [0..<IPV6_FIREWALL_MAX_ENTRIES]"
  "fw_gc_counter fw_list_init = 0" "fw_enospc fw_list_init = 0"
  "fst (ipv6_firewall_table_init fw_list_dpdk fw_list_create fw_list_raw) = SUCCESS"
  "i < IPV6_FIREWALL_MAX_ENTRIES \<Longrightarrow> fw_last_used fw_list_init i = 0"
proof -
  let ?N = IPV6_FIREWALL_MAX_ENTRIES
  let ?s1 = "fw_list_raw\<lparr>fw_hash := Some ([], []), fw_free_ring := Some []\<rparr>"
  define s2 where "s2 = fw_table_init_entries ?N ?s1"
  have "fw_free_ring s2 \<noteq> None" "fw_free fw_list_abs s2 = []"
    by (simp_all add: s2_def fw_init_entries_effect fw_list_abs_def)
  note e = fw_enqueue_all_effect [OF fw_list_ok this order_refl]
  have i: "ipv6_firewall_table_init fw_list_dpdk fw_list_create fw_list_raw =
      (SUCCESS, (fw_table_enqueue_all_entries_to_ring fw_list_dpdk ?N s2)\<lparr>fw_gc_counter := 0, fw_enospc := 0,
        fw_gc_reclaimed := 0, fw_evicted := 0, fw_icmp6_err_passed := 0, fw_icmp6_err_dropped := 0\<rparr>)"
    by (simp add: ipv6_firewall_table_init_def fw_init_hash_def fw_init_ring_def fw_list_create_def s2_def Let_def)
  show "fw_hash fw_list_init = Some ([], [])" using e(3) by (simp add: fw_list_init_def i s2_def fw_init_entries_effect)
  show "fw_free_ring fw_list_init = Some [0..<?N]" using e(1,2) by (auto simp: fw_list_init_def i fw_list_abs_def)
  show "fw_gc_counter fw_list_init = 0" "fw_enospc fw_list_init = 0"
    "fst (ipv6_firewall_table_init fw_list_dpdk fw_list_create fw_list_raw) = SUCCESS"
    by (simp_all add: fw_list_init_def i)
  show "fw_last_used fw_list_init i = 0" if "i < ?N"
    using fun_cong [OF e(4), of i] fw_init_entries_effect(3) [OF that, of ?s1]
    by (simp add: fw_list_init_def i fw_slot_def s2_def)
qed

lemma fw_list_trace: "fw_trace fw_list_dpdk fw_list_abs [] fw_list_init"
proof (rule fw_trace.init)
  show "ipv6_firewall_table_init fw_list_dpdk fw_list_create fw_list_raw = (SUCCESS, fw_list_init)"
    using fw_list_init_fields(5) by (simp add: fw_list_init_def prod_eq_iff)
qed (auto simp: fw_list_init_fields fw_list_abs_def fw_init_ring_def fw_list_create_def)

lemma udp_packets:
  "fw_out_key udp_query = Some udp_key" "fw_in_key udp_answer = Some udp_key" "fw_answers udp_query udp_answer"
  "\<not> fw_is_error udp_answer" "ip6_proto udp_query 0 = 17" "ip6_proto udp_answer 0 = 17"
  by code_simp+

section \<open>Steps on the concrete objects\<close>

text \<open>Opening a UDP session with a free slot at hand.\<close>

definition fw_opened_at :: "clock \<Rightarrow> ipv6_firewall_key \<Rightarrow> nat \<Rightarrow> nat list \<Rightarrow> fw_list_ccb \<Rightarrow> fw_list_ccb" where
  "fw_opened_at clk k i r st = st\<lparr>fw_table := (fw_table st)(i := fw_fill_entry k (fw_table st i)),
     fw_expire_at := (fw_expire_at st)(i := ipv6_firewall_expiry_cycles clk),
     fw_last_used := (fw_last_used st)(i := cur_cycles clk),
     fw_hash := Some ((k, i) # fst (the (fw_hash st)), snd (the (fw_hash st))), fw_free_ring := Some r\<rparr>"

lemma list_learn_new:
  assumes "fw_out_key m = Some k" and "ip6_proto m 0 \<noteq> IPPROTO_TCP" and "fw_hash st = Some (kvs, q)"
    and "map_of kvs k = None" and "fw_free_ring st = Some (i # r)"
  shows "ipv6_firewall_learn fw_list_dpdk clk m st = fw_opened_at clk k i r st"
proof -
  have l: "ipv6_firewall_lookup fw_list_dpdk k st = None"
    using assms(3,4) by (simp add: ipv6_firewall_lookup_def fw_list_dpdk_def list_hash_def)
  have a: "ipv6_firewall_slot_alloc fw_list_dpdk clk st = (Some i, st\<lparr>fw_free_ring := Some r\<rparr>)"
    using assms(5) by (simp add: ipv6_firewall_slot_alloc_def fw_ring_dequeue_def fw_list_dpdk_def list_ring_def)
  have "fw_publish fw_list_dpdk clk k i (st\<lparr>fw_free_ring := Some r\<rparr>) = (Some i, fw_opened_at clk k i r st)"
    using assms(3) by (simp add: fw_publish_def fw_hash_add_def fw_list_dpdk_def list_hash_def fw_opened_at_def
        nat_expire_set_def Let_def)
  then have "ipv6_firewall_insert fw_list_dpdk clk k st = (Some i, fw_opened_at clk k i r st)"
    by (simp add: ipv6_firewall_insert_def l a)
  with assms(1-3) l show ?thesis
    by (auto simp: ipv6_firewall_learn_def fw_out_key_def Let_def split: if_splits)
qed

lemma list_inbound_live:
  assumes "fw_in_key m = Some k" and "\<not> fw_is_error m" and "ip6_proto m 0 \<noteq> IPPROTO_TCP" and "fw_hash st = Some (kvs, q)"
    and "map_of kvs k = Some i" and "cur_cycles clk \<le> fw_expire_at st i"
  shows "ipv6_firewall_inbound_pass fw_list_dpdk clk m st = (True, ipv6_firewall_mark_used clk i st)"
  using assms
  by (auto simp: ipv6_firewall_inbound_pass_def fw_is_error_def fw_in_key_def ipv6_firewall_lookup_live_def
      ipv6_firewall_entry_is_expired_def ipv6_firewall_lookup_def fw_list_dpdk_def list_hash_def Let_def)

lemma list_inbound_expired:
  assumes "fw_in_key m = Some k" and "\<not> fw_is_error m" and "fw_hash st = Some (kvs, q)"
    and "map_of kvs k = Some i" and "fw_expire_at st i < cur_cycles clk"
  shows "ipv6_firewall_inbound_pass fw_list_dpdk clk m st =
    (False, st\<lparr>fw_hash := Some (filter (\<lambda>kv. fst kv \<noteq> k) kvs, q @ [i])\<rparr>)"
  using assms
  by (auto simp: ipv6_firewall_inbound_pass_def fw_is_error_def fw_in_key_def ipv6_firewall_lookup_live_def
      ipv6_firewall_entry_is_expired_def ipv6_firewall_lookup_def fw_list_dpdk_def list_hash_def fw_hash_del_def Let_def)

lemma list_inbound_unknown:
  assumes "fw_in_key m = Some k" and "\<not> fw_is_error m" and "fw_hash st = Some (kvs, q)" and "map_of kvs k = None"
  shows "ipv6_firewall_inbound_pass fw_list_dpdk clk m st = (False, st)"
  using assms
  by (auto simp: ipv6_firewall_inbound_pass_def fw_is_error_def fw_in_key_def ipv6_firewall_lookup_live_def
      ipv6_firewall_lookup_def fw_list_dpdk_def list_hash_def Let_def)

definition fw_list_one :: fw_list_ccb where
  "fw_list_one = ipv6_firewall_learn fw_list_dpdk (tick 100) udp_query fw_list_init"

lemma tick_ok: "unat n + 7200 < 2 ^ 64 \<Longrightarrow> fw_clock_ok (tick n)"
  by (simp add: fw_clock_ok_def tick_def)

lemma fw_list_one_eq: "fw_list_one = fw_opened_at (tick 100) udp_key 0 [1..<IPV6_FIREWALL_MAX_ENTRIES] fw_list_init"
proof -
  have "fw_free_ring fw_list_init = Some (0 # [1..<IPV6_FIREWALL_MAX_ENTRIES])"
    using MAX_pos by (simp add: fw_list_init_fields upt_conv_Cons)
  from list_learn_new [OF udp_packets(1) _ fw_list_init_fields(1) _ this] udp_packets(5) show ?thesis
    by (simp add: fw_list_one_def)
qed

lemma fw_list_one_trace: "fw_trace fw_list_dpdk fw_list_abs [Outbound (tick 100) udp_query] fw_list_one"
  unfolding fw_list_one_def by (rule fw_trace.learn [OF fw_list_trace]) (simp add: tick_ok)

lemma fw_list_one_fields:
  "fw_hash fw_list_one = Some ([(udp_key, 0)], [])" "fw_expire_at fw_list_one 0 = 110"
  "fw_free_ring fw_list_one = Some [1..<IPV6_FIREWALL_MAX_ENTRIES]" "fw_last_used fw_list_one 0 = 100"
  "0 < j \<Longrightarrow> j < IPV6_FIREWALL_MAX_ENTRIES \<Longrightarrow> fw_last_used fw_list_one j = 0"
  "fe_key (fw_table fw_list_one 0) = udp_key" "fe_is_fill (fw_table fw_list_one 0) = 1"
  by (simp_all add: fw_list_one_eq fw_opened_at_def fw_list_init_fields ipv6_firewall_expiry_cycles_def tick_def
      fw_fill_entry_def)

lemma fw_list_one_answer: "fst (ipv6_firewall_inbound_pass fw_list_dpdk (tick 105) udp_answer fw_list_one)"
  using list_inbound_live [OF udp_packets(2,4) _ fw_list_one_fields(1), of 0 "tick 105"] udp_packets(6)
  by (simp add: fw_list_one_fields tick_def)

section \<open>A session closed too early\<close>

text \<open>
  A slot unlinked by an inbound packet stays ready, with its old key and its old deadline, until the
  defer queue is drained. If the LAN host resumes the flow meanwhile, the key is published again in
  another slot. The next garbage collection meets the old slot first, finds it expired, and deletes
  its key: that of the session just opened.
\<close>

definition fw_list_two :: fw_list_ccb where
  "fw_list_two = ipv6_firewall_learn fw_list_dpdk (tick 200) udp_query
     (snd (ipv6_firewall_inbound_pass fw_list_dpdk (tick 200) udp_answer fw_list_one))"

lemma fw_list_two_trace:
  "fw_trace fw_list_dpdk fw_list_abs
     [Outbound (tick 200) udp_query, Inbound (tick 200) udp_answer False, Outbound (tick 100) udp_query] fw_list_two"
proof -
  have "ipv6_firewall_inbound_pass fw_list_dpdk (tick 200) udp_answer fw_list_one =
      (False, snd (ipv6_firewall_inbound_pass fw_list_dpdk (tick 200) udp_answer fw_list_one))"
    using list_inbound_expired [OF udp_packets(2,4) fw_list_one_fields(1), of 0 "tick 200"]
    by (simp add: fw_list_one_fields tick_def)
  from fw_trace.inbound [OF fw_list_one_trace _ this] show ?thesis
    unfolding fw_list_two_def by (intro fw_trace.learn) (simp_all add: tick_ok)
qed

lemma fw_list_two_fields:
  "fw_hash fw_list_two = Some ([(udp_key, 1)], [0])" "fw_expire_at fw_list_two 0 = 110" "fw_expire_at fw_list_two 1 = 210"
  "fe_key (fw_table fw_list_two 0) = udp_key" "fe_is_fill (fw_table fw_list_two 0) = 1" "fw_gc_counter fw_list_two = 0"
proof -
  let ?r = "[2..<IPV6_FIREWALL_MAX_ENTRIES]"
  let ?st = "fw_list_one\<lparr>fw_hash := Some ([], [0])\<rparr>"
  have i: "ipv6_firewall_inbound_pass fw_list_dpdk (tick 200) udp_answer fw_list_one = (False, ?st)"
    using list_inbound_expired [OF udp_packets(2,4) fw_list_one_fields(1), of 0 "tick 200"]
    by (simp add: fw_list_one_fields tick_def)
  have "1 < IPV6_FIREWALL_MAX_ENTRIES" by (simp add: IPV6_FIREWALL_MAX_ENTRIES_def)
  from upt_conv_Cons [OF this] have "fw_free_ring ?st = Some (1 # ?r)"
    by (simp add: fw_list_one_fields numeral_2_eq_2)
  from list_learn_new [OF udp_packets(1) _ _ _ this, of "[]" "[0]" "tick 200"] udp_packets(5)
  have two: "fw_list_two = fw_opened_at (tick 200) udp_key 1 ?r ?st" by (simp add: fw_list_two_def i)
  have gc: "fw_gc_counter fw_list_one = 0" by (simp add: fw_list_one_eq fw_opened_at_def fw_list_init_fields)
  show "fw_hash fw_list_two = Some ([(udp_key, 1)], [0])" "fw_expire_at fw_list_two 0 = 110"
    "fw_expire_at fw_list_two 1 = 210" "fe_key (fw_table fw_list_two 0) = udp_key"
    "fe_is_fill (fw_table fw_list_two 0) = 1" "fw_gc_counter fw_list_two = 0"
    by (simp_all add: two gc fw_opened_at_def fw_list_one_fields ipv6_firewall_expiry_cycles_def tick_def)
qed

lemma gc_closes_live_session:
  "\<exists>H st. fw_trace fw_list_dpdk fw_list_abs H st \<and>
     fst (ipv6_firewall_inbound_pass fw_list_dpdk (tick 201) udp_answer st) \<and>
     \<not> fst (ipv6_firewall_inbound_pass fw_list_dpdk (tick 201) udp_answer
          (snd (ipv6_firewall_gc_scan_by_ccb fw_list_dpdk (tick 200) 1 st)))"
proof -
  have a: "fst (ipv6_firewall_inbound_pass fw_list_dpdk (tick 201) udp_answer fw_list_two)"
    using list_inbound_live [OF udp_packets(2,4) _ fw_list_two_fields(1), of 1 "tick 201"] udp_packets(6)
    by (simp add: fw_list_two_fields tick_def del: One_nat_def)
  have "fw_hash (snd (ipv6_firewall_gc_scan_by_ccb fw_list_dpdk (tick 200) 1 fw_list_two)) = Some ([], [])"
    using fw_list_two_fields MAX_pos
    by (simp add: ipv6_firewall_gc_scan_by_ccb_def fw_gc_slot_def fw_hash_del_def fw_dq_reclaim_def Let_def
        fw_list_dpdk_def list_hash_def tick_def ipv6_firewall_hash_free_cb_def)
  from list_inbound_unknown [OF udp_packets(2,4) this, of "tick 201"]
  have "\<not> fst (ipv6_firewall_inbound_pass fw_list_dpdk (tick 201) udp_answer
      (snd (ipv6_firewall_gc_scan_by_ccb fw_list_dpdk (tick 200) 1 fw_list_two)))" by simp
  with a fw_list_two_trace show ?thesis by blast
qed

section \<open>Witnesses\<close>

theorem fw_inbound_refines_map_witness:
  "let r = ipv6_firewall_inbound_pass fw_list_dpdk (tick 105) udp_answer fw_list_one in
   (fst r, fw_sessions fw_list_abs (snd r)) =
     fw_spec_inbound (fw_conntrack_enabled fw_list_one) (tick 105) udp_answer (fw_sessions fw_list_abs fw_list_one) \<and>
   fst r"
  using fw_inbound_refines_map [OF fw_list_ok fw_list_one_trace, of "tick 105" udp_answer] fw_list_one_answer
  by (simp only: Let_def simp_thms)

theorem fw_default_deny_witness:
  "\<exists>k c t. fw_in_key udp_answer = Some k \<and> fw_opened [Outbound (tick 100) udp_query] k \<and>
     fw_touched [Outbound (tick 100) udp_query] c k \<and> t \<in> fw_lifetimes k \<and> 105 \<le> deadline_after c t"
  using fw_default_deny [OF fw_list_ok fw_list_one_trace fw_list_one_answer] udp_packets(4)
  by (simp add: tick_def)


theorem fw_reads_within_packet_witness:
  "ipv6_firewall_inbound_pass fw_list_dpdk (tick 105) udp_answer fw_list_one =
   ipv6_firewall_inbound_pass fw_list_dpdk (tick 105) (udp_answer(48 := 0xff)) fw_list_one"
proof -
  have "unat (ip6_len udp_answer) = 8" by code_simp
  then have "\<forall>i < 40 + unat (ip6_len udp_answer). udp_answer i = (udp_answer(48 := 0xff)) i" by simp
  from fw_reads_within_packet [OF this] show ?thesis by blast
qed

theorem fw_slots_accounted_witness:
  "slots_ok IPV6_FIREWALL_MAX_ENTRIES [1..<IPV6_FIREWALL_MAX_ENTRIES] [] {0} {#}"
proof -
  have "ran [udp_key \<mapsto> 0 :: nat] = {0}" by simp
  with fw_slots_accounted [OF fw_list_ok fw_list_one_trace] show ?thesis
    by (simp add: fw_list_one_fields fw_list_abs_def)
qed

lemma fw_list_one_victim: "fw_lru_victim (fw_last_used fw_list_one) = 0"
proof -
  let ?v = "fw_lru_victim (fw_last_used fw_list_one)"
  have "?v \<noteq> IPV6_FIREWALL_MAX_ENTRIES"
  proof
    assume n: "?v = IPV6_FIREWALL_MAX_ENTRIES"
    have "(0 :: nat) \<in> set [0..<IPV6_FIREWALL_MAX_ENTRIES]" using MAX_pos by simp
    with lru_fold [of "fw_last_used fw_list_one" "[0..<IPV6_FIREWALL_MAX_ENTRIES]" IPV6_FIREWALL_MAX_ENTRIES]
      n [unfolded fw_lru_victim_def] show False by (auto simp: Let_def fw_list_one_fields dest!: bspec [of _ _ 0])
  qed
  from lru_victim(1,2) [OF this] show ?thesis using fw_list_one_fields(5) by (metis gr0I)
qed

theorem fw_evicts_least_recently_used_witness:
  "fst (ipv6_firewall_evict_lru fw_list_dpdk fw_list_one) \<and>
   (\<exists>i k. fe_key (fw_table fw_list_one i) = k \<and> fw_sessions fw_list_abs fw_list_one k \<noteq> None \<and>
      fw_sessions fw_list_abs (snd (ipv6_firewall_evict_lru fw_list_dpdk fw_list_one)) =
        (fw_sessions fw_list_abs fw_list_one)(k := None))"
proof -
  have "fst (ipv6_firewall_evict_lru fw_list_dpdk fw_list_one)"
    using MAX_pos
    by (simp add: ipv6_firewall_evict_lru_def fw_list_one_victim fw_list_one_fields fw_hash_del_def fw_list_dpdk_def
        list_hash_def Let_def)
  then have e: "ipv6_firewall_evict_lru fw_list_dpdk fw_list_one =
      (True, snd (ipv6_firewall_evict_lru fw_list_dpdk fw_list_one))" by (simp add: prod_eq_iff)
  from fw_evicts_least_recently_used [OF fw_list_ok fw_list_one_trace e] e show ?thesis by (metis fst_conv)
qed

theorem fw_fails_closed_witness:
  "ipv6_firewall_inbound_pass fw_list_dpdk (tick 105) udp_answer (ipv6_firewall_table_destroy fw_list_one) =
     (False, ipv6_firewall_table_destroy fw_list_one)"
  using fw_fails_closed [of fw_list_dpdk fw_list_create fw_list_one "ipv6_firewall_table_destroy fw_list_one" "tick 105" udp_answer]
  by simp

text \<open>A Packet Too Big from a router, quoting the UDP packet.\<close>

definition ptb_error :: memory where
  "ptb_error = byte_memory ([0x60, 0, 0, 0, 0, 56, 58, 64] @ replicate 16 0xfe @ lan_host @ [2, 0, 0, 0, 0, 0, 5, 0] @
     [0x60, 0, 0, 0, 0, 8, 17, 64] @ lan_host @ remote_host @ [0x10, 0, 0, 53, 0, 8, 0, 0])"

lemma ptb_error_facts:
  "fw_is_error ptb_error" "ip6_proto ptb_error 0 = 58" "icmp6_type_is_error (ptb_error 40)"
  "rte_be_to_cpu_16 (ip6_payload_len ptb_error 0) = 56" "ip6_src_addr ptb_error 48 = ip6_dst_addr ptb_error 0"
  "ipv6_firewall_key_from_packet ptb_error 48 8 False = Some udp_key"
  by code_simp+

theorem fw_error_refreshes_nothing_witness:
  "ipv6_firewall_inbound_pass fw_list_dpdk (tick 109) ptb_error fw_list_one =
     (True, fw_list_one\<lparr>fw_icmp6_err_passed := fw_icmp6_err_passed fw_list_one + 1\<rparr>)"
proof -
  have "fst (ipv6_firewall_inbound_pass fw_list_dpdk (tick 109) ptb_error fw_list_one)"
    by (simp add: ipv6_firewall_inbound_pass_def ipv6_firewall_icmp6_error_pass_def ptb_error_facts fw_list_one_fields
        ipv6_firewall_lookup_live_def ipv6_firewall_entry_is_expired_def ipv6_firewall_lookup_def fw_list_dpdk_def
        list_hash_def tick_def Let_def)
  then have "ipv6_firewall_inbound_pass fw_list_dpdk (tick 109) ptb_error fw_list_one =
      (True, snd (ipv6_firewall_inbound_pass fw_list_dpdk (tick 109) ptb_error fw_list_one))" by (simp add: prod_eq_iff)
  from fw_error_refreshes_nothing [OF ptb_error_facts(1) this] this show ?thesis by simp
qed

end
