(* ===== verification/Mac_Table.thy ===== *)
theory Mac_Table
  imports FastRG_Prelude Dpdk
begin

text \<open>
  The MAC table that resolves LAN hosts (\<^verbatim>\<open>src/src/mac_table.h\<close>, \<^verbatim>\<open>mac_table.c\<close>): a hash from host addresses
  to words that pack a MAC address with a generation stamp. The IPv6 neighbour cache (theory \<open>Nd6\<close>) stores the same words; what both
  promise is the locale \<open>stamped_table\<close>.
\<close>

section \<open>The hash\<close>

text \<open>
  The calls of \<open>rte_hash\<close> these tables make: lookups and additions that answer with a key position,
  data words instead of slot indices, iteration with a cursor. \<open>dh_iterate\<close> returns the position, key and
  data it found and the new cursor.
\<close>

record ('h, 'k) data_hash =
  dh_lookup :: "'h \<Rightarrow> 'k \<Rightarrow> (nat \<times> u64) option"
  dh_add :: "'h \<Rightarrow> 'k \<Rightarrow> u64 \<Rightarrow> 'h \<times> bool"
  dh_del :: "'h \<Rightarrow> 'k \<Rightarrow> 'h"
  dh_reclaim :: "'h \<Rightarrow> 'h"
  dh_iterate :: "'h \<Rightarrow> nat \<Rightarrow> (nat \<times> 'k \<times> u64 \<times> nat) option"

text \<open>
  Documented behaviour: \<open>A h\<close> is the association with its positions, \<open>I h n\<close> what an iteration from
  cursor \<open>n\<close> still yields. Adding overwrites the data of a key that is present. Positions are below
  \<open>cap\<close> and not shared. Deleting the entry the iteration just returned does not disturb it.
\<close>

definition data_hash_contract ::
  "('h, 'k) data_hash \<Rightarrow> ('h \<Rightarrow> 'k \<Rightarrow> (nat \<times> u64) option) \<Rightarrow> ('h \<Rightarrow> nat \<Rightarrow> (nat \<times> 'k \<times> u64) list) \<Rightarrow> nat \<Rightarrow> bool" where
  "data_hash_contract H A I cap \<longleftrightarrow>
     (\<forall>h k. dh_lookup H h k = A h k) \<and>
     (\<forall>h k v h'. dh_add H h k v = (h', True) \<longrightarrow> (\<exists>p. A h' = (A h)(k \<mapsto> (p, v)) \<and>
        (case A h k of Some (q, w) \<Rightarrow> p = q | None \<Rightarrow> p < cap \<and> (\<forall>k' w. A h k' \<noteq> Some (p, w))))) \<and>
     (\<forall>h k v h'. dh_add H h k v = (h', False) \<longrightarrow> A h' = A h) \<and>
     (\<forall>h k. A (dh_del H h k) = (A h)(k := None)) \<and>
     (\<forall>h. A (dh_reclaim H h) = A h) \<and>
     (\<forall>h. set (I h 0) = {(p, k, v). A h k = Some (p, v)} \<and> distinct (map (fst \<circ> snd) (I h 0))) \<and>
     (\<forall>h n. case dh_iterate H h n of
        None \<Rightarrow> I h n = []
      | Some (p, k, v, n') \<Rightarrow> I h n = (p, k, v) # I h n' \<and> I (dh_del H h k) n' = I h n')"

section \<open>Packed words\<close>

definition mac_table_pack :: "u8 list \<Rightarrow> u16 \<Rightarrow> u64" where
  "mac_table_pack mac gen =
     fold (\<lambda>i v. v OR push_bit (i * 8) (ucast (mac ! i))) [0..<6] 0 OR push_bit 48 (ucast gen)"

definition mac_table_unpack :: "u64 \<Rightarrow> u8 list \<times> u16" where
  "mac_table_unpack v = (map (\<lambda>i. ucast (drop_bit (i * 8) v)) [0..<6], ucast (drop_bit 48 v))"

section \<open>The table\<close>

record 'h mac_table =
  mt_hash :: 'h
  mt_generation :: u16
  mt_learn_fail :: u64

definition mac_table_alloc :: "bool \<Rightarrow> 'h option \<Rightarrow> 'h mac_table option" where
  "mac_table_alloc calloc_ok hash_create =
     (if \<not> calloc_ok then None
      else case hash_create of None \<Rightarrow> None
        | Some h \<Rightarrow> Some \<lparr>mt_hash = h, mt_generation = 0, mt_learn_fail = 0\<rparr>)"

definition mac_table_lookup :: "('h, u32) data_hash \<Rightarrow> 'h mac_table option \<Rightarrow> u32 \<Rightarrow> u8 list option" where
  "mac_table_lookup H table ip_be =
     (case table of None \<Rightarrow> None
      | Some t \<Rightarrow> (case dh_lookup H (mt_hash t) ip_be of None \<Rightarrow> None
          | Some (position, data) \<Rightarrow> (case mac_table_unpack data of (mac, gen) \<Rightarrow>
              if gen \<noteq> mt_generation t then None else Some mac)))"

definition mac_table_learn ::
  "('h, u32) data_hash \<Rightarrow> u32 \<Rightarrow> u8 list \<Rightarrow> 'h mac_table option \<Rightarrow> 'h mac_table option" where
  "mac_table_learn H ip_be mac table =
     (case table of None \<Rightarrow> None
      | Some t \<Rightarrow>
          let want = mac_table_pack mac (mt_generation t) in
          if (case dh_lookup H (mt_hash t) ip_be of None \<Rightarrow> False | Some (position, data) \<Rightarrow> data = want) then Some t
          else case dh_add H (mt_hash t) ip_be want of
            (h, True) \<Rightarrow> Some (t\<lparr>mt_hash := h\<rparr>)
          | (h, False) \<Rightarrow> Some (t\<lparr>mt_hash := h, mt_learn_fail := mt_learn_fail t + 1\<rparr>))"

definition mac_table_reset :: "'h mac_table option \<Rightarrow> 'h mac_table option" where
  "mac_table_reset table =
     map_option (\<lambda>t. t\<lparr>mt_generation := mt_generation t + 1, mt_learn_fail := 0\<rparr>) table"

text \<open>
  One call of the iterator: the position, address and MAC of the next current entry with the new
  cursor, \<open>Some None\<close> at the end. \<open>None\<close> would be a call that does not return. The three output pointers
  are not NULL.
\<close>

partial_function (option) mac_table_iterate ::
  "('h, u32) data_hash \<Rightarrow> 'h mac_table option \<Rightarrow> nat \<Rightarrow> (nat \<times> u32 \<times> u8 list \<times> nat) option option" where
  "mac_table_iterate H table n =
     (case table of None \<Rightarrow> Some None
      | Some t \<Rightarrow> (case dh_iterate H (mt_hash t) n of
          None \<Rightarrow> Some None
        | Some (pos, ip, data, n') \<Rightarrow>
            if snd (mac_table_unpack data) \<noteq> mt_generation t then mac_table_iterate H table n'
            else Some (Some (pos, ip, fst (mac_table_unpack data), n'))))"

end
