(* ===== verification/Slot_Hash.thy ===== *)
theory Slot_Hash
  imports Mac_Table
begin

text \<open>
  A hash that behaves as \<open>data_hash_contract\<close> demands: an array of slots. It shows that the contract can
  hold and is what the witnesses of the two tables run on.
\<close>

type_synonym 'k slots = "('k \<times> u64) option list"

definition slot_is :: "'k \<Rightarrow> ('k \<times> u64) option \<Rightarrow> bool" where
  "slot_is k s = (case s of None \<Rightarrow> False | Some kv \<Rightarrow> fst kv = k)"

definition slot_map :: "'k slots \<Rightarrow> 'k \<Rightarrow> (nat \<times> u64) option" where
  "slot_map h k = map_option (\<lambda>i. (i, snd (the (h ! i)))) (first_index (slot_is k) h)"

definition slot_add :: "nat \<Rightarrow> 'k slots \<Rightarrow> 'k \<Rightarrow> u64 \<Rightarrow> 'k slots \<times> bool" where
  "slot_add cap h k v =
     (case first_index (slot_is k) h of
        Some i \<Rightarrow> (h[i := Some (k, v)], True)
      | None \<Rightarrow> (case first_index (\<lambda>s. s = None) (take cap h) of
          Some i \<Rightarrow> (h[i := Some (k, v)], True)
        | None \<Rightarrow> (h, False)))"

definition slot_del :: "'k slots \<Rightarrow> 'k \<Rightarrow> 'k slots" where
  "slot_del h k = map (\<lambda>s. if slot_is k s then None else s) h"

definition slot_live :: "'k slots \<Rightarrow> nat \<Rightarrow> bool" where
  "slot_live h i = (case h ! i of None \<Rightarrow> False | Some kv \<Rightarrow> slot_map h (fst kv) = Some (i, snd kv))"

definition slot_rest :: "'k slots \<Rightarrow> nat \<Rightarrow> (nat \<times> 'k \<times> u64) list" where
  "slot_rest h n = map (\<lambda>i. (i, the (h ! i))) (filter (slot_live h) [n..<length h])"

definition slot_hash :: "nat \<Rightarrow> ('k slots, 'k) data_hash" where
  "slot_hash cap = \<lparr>dh_lookup = slot_map, dh_add = slot_add cap, dh_del = slot_del, dh_reclaim = id,
     dh_iterate = (\<lambda>h n. case slot_rest h n of [] \<Rightarrow> None | (i, k, v) # xs \<Rightarrow> Some (i, k, v, Suc i))\<rparr>"

lemma first_index_Some_iff:
  "first_index P xs = Some i \<longleftrightarrow> i < length xs \<and> P (xs ! i) \<and> (\<forall>j < i. \<not> P (xs ! j))"
proof
  assume "first_index P xs = Some i"
  then show "i < length xs \<and> P (xs ! i) \<and> (\<forall>j < i. \<not> P (xs ! j))" by (rule first_index_SomeD)
next
  assume r: "i < length xs \<and> P (xs ! i) \<and> (\<forall>j < i. \<not> P (xs ! j))"
  then obtain j where j: "first_index P xs = Some j"
    by (metis first_index_None_iff not_None_eq nth_mem)
  from first_index_SomeD [OF j] r have "j = i" by (metis linorder_less_linear)
  with j show "first_index P xs = Some i" by simp
qed

lemma slot_map_Some_iff:
  "slot_map h k = Some (i, v) \<longleftrightarrow> i < length h \<and> h ! i = Some (k, v) \<and> (\<forall>j < i. \<not> slot_is k (h ! j))"
  by (auto simp: slot_map_def first_index_Some_iff slot_is_def split: option.splits)

lemma slot_map_None_iff: "slot_map h k = None \<longleftrightarrow> (\<forall>i < length h. \<not> slot_is k (h ! i))"
  by (auto simp: slot_map_def first_index_None_iff all_set_conv_all_nth)

lemma slot_map_cong:
  assumes "length h' = length h" and "\<forall>j < length h. h ! j = h' ! j \<or> \<not> slot_is x (h ! j) \<and> \<not> slot_is x (h' ! j)"
  shows "slot_map h x = slot_map h' x"
proof -
  have same: "slot_is x (h ! j) = slot_is x (h' ! j)" "slot_is x (h ! j) \<Longrightarrow> h ! j = h' ! j" if "j < length h" for j
    using assms(2) that by auto
  show ?thesis
  proof (cases "slot_map h x")
    case None
    with assms(1) same(1) show ?thesis by (metis slot_map_None_iff)
  next
    case (Some iv)
    then obtain i v where iv: "iv = (i, v)" by (cases iv)
    with Some have i: "i < length h" "h ! i = Some (x, v)" "\<forall>j < i. \<not> slot_is x (h ! j)"
      by (auto simp: slot_map_Some_iff)
    then have "h' ! i = Some (x, v)" using same(2) [of i] by (simp add: slot_is_def)
    moreover have "\<forall>j < i. \<not> slot_is x (h' ! j)" using i(1,3) same(1) by auto
    ultimately have "slot_map h' x = Some (i, v)" using i(1) assms(1) by (simp add: slot_map_Some_iff)
    with Some iv show ?thesis by simp
  qed
qed

lemma slot_map_update:
  assumes "i < length h" and "slot_map h k = Some (i, w) \<or> slot_map h k = None \<and> h ! i = None"
  shows "slot_map (h[i := Some (k, v)]) = (slot_map h)(k \<mapsto> (i, v))"
proof
  fix x
  show "slot_map (h[i := Some (k, v)]) x = ((slot_map h)(k \<mapsto> (i, v))) x"
  proof (cases "x = k")
    case True
    with assms show ?thesis
      by (auto simp: slot_map_Some_iff slot_map_None_iff nth_list_update)
  next
    case False
    have "slot_map (h[i := Some (k, v)]) x = slot_map h x"
      by (rule slot_map_cong) (use False assms in \<open>auto simp: nth_list_update slot_is_def slot_map_Some_iff\<close>)
    with False show ?thesis by simp
  qed
qed

lemma slot_map_del: "slot_map (slot_del h k) = (slot_map h)(k := None)"
proof
  fix x
  show "slot_map (slot_del h k) x = ((slot_map h)(k := None)) x"
  proof (cases "x = k")
    case True
    have "\<forall>j < length h. \<not> slot_is k (slot_del h k ! j)" by (auto simp: slot_del_def slot_is_def)
    with True show ?thesis by (simp add: slot_map_None_iff slot_del_def)
  next
    case False
    have "slot_map (slot_del h k) x = slot_map h x"
      by (rule slot_map_cong) (use False in \<open>auto simp: slot_del_def slot_is_def split: option.splits\<close>)
    with False show ?thesis by simp
  qed
qed

lemma slot_live_iff: "i < length h \<Longrightarrow> slot_live h i \<longleftrightarrow> (\<exists>k v. slot_map h k = Some (i, v))"
  by (auto simp: slot_live_def slot_map_Some_iff split: option.splits)

lemma slot_live_del: "i < length h \<Longrightarrow> slot_live (slot_del h k) i \<longleftrightarrow> slot_live h i \<and> \<not> slot_is k (h ! i)"
  by (subst slot_live_iff) (auto simp: slot_live_def slot_map_del slot_del_def slot_map_Some_iff slot_is_def split: option.splits if_splits)

lemma slot_rest_Cons:
  assumes "slot_rest h n = (i, k, v) # xs"
  shows "slot_rest h (Suc i) = xs" and "slot_rest (slot_del h k) (Suc i) = xs"
proof -
  from assms obtain js where js: "filter (slot_live h) [n..<length h] = i # js" and xs: "xs = map (\<lambda>i. (i, the (h ! i))) js"
      and hi: "the (h ! i) = (k, v)"
    by (auto simp: slot_rest_def map_eq_Cons_conv)
  from js have "i \<in> set (filter (slot_live h) [n..<length h])" by simp
  then have i: "n \<le> i" "i < length h" "slot_live h i" by auto
  have "filter (slot_live h) [n..<length h] = filter (slot_live h) [n..<i] @ i # filter (slot_live h) [Suc i..<length h]"
    using i upt_add_eq_append [of n i "length h - i"] upt_conv_Cons [of i "length h"] by simp
  moreover from this js have "filter (slot_live h) [n..<i] = []"
    by (metis append_eq_Cons_conv distinct.simps(2) distinct_filter distinct_upt in_set_conv_decomp)
  ultimately have js': "js = filter (slot_live h) [Suc i..<length h]" using js by simp
  then show r: "slot_rest h (Suc i) = xs" by (simp add: slot_rest_def xs)
  have same: "slot_live (slot_del h k) j = slot_live h j \<and> (slot_live h j \<longrightarrow> slot_del h k ! j = h ! j)"
    if "Suc i \<le> j" "j < length h" for j
  proof -
    have "\<not> slot_is k (h ! j)" if "slot_live h j"
    proof
      assume "slot_is k (h ! j)"
      with that have "\<exists>w. slot_map h k = Some (j, w)" by (auto simp: slot_live_def slot_is_def split: option.splits)
      moreover from i(3) hi have "slot_map h k = Some (i, v)" by (auto simp: slot_live_def split: option.splits)
      ultimately show False using \<open>Suc i \<le> j\<close> by simp
    qed
    with that show ?thesis by (auto simp: slot_live_del) (simp add: slot_del_def)
  qed
  have "filter (slot_live (slot_del h k)) [Suc i..<length h] = filter (slot_live h) [Suc i..<length h]"
    by (rule filter_cong) (use same in auto)
  then have "slot_rest (slot_del h k) (Suc i) = map (\<lambda>j. (j, the (slot_del h k ! j))) js"
    by (simp add: slot_rest_def js' slot_del_def)
  also have "\<dots> = xs"
    unfolding xs by (rule map_cong) (use same js' in auto)
  finally show "slot_rest (slot_del h k) (Suc i) = xs" .
qed

lemma slot_rest_0: "set (slot_rest h 0) = {(p, k, v). slot_map h k = Some (p, v)}"
    "distinct (map (fst \<circ> snd) (slot_rest h 0))"
proof -
  show "set (slot_rest h 0) = {(p, k, v). slot_map h k = Some (p, v)}"
    by (force simp: slot_rest_def slot_live_def slot_map_Some_iff split: option.splits)
  have "inj_on (\<lambda>i. fst (the (h ! i))) (set (filter (slot_live h) [0..<length h]))"
    by (auto simp: inj_on_def slot_live_def slot_map_Some_iff slot_is_def split: option.splits)
      (metis linorder_less_linear)
  then show "distinct (map (fst \<circ> snd) (slot_rest h 0))"
    by (simp add: slot_rest_def comp_def distinct_map)
qed

lemma slot_addD:
  assumes "slot_add cap h k v = (h', b)"
  shows "b \<Longrightarrow> \<exists>p. slot_map h' = (slot_map h)(k \<mapsto> (p, v)) \<and>
       (case slot_map h k of Some (q, w) \<Rightarrow> p = q | None \<Rightarrow> p < cap \<and> (\<forall>k' w. slot_map h k' \<noteq> Some (p, w)))"
    and "\<not> b \<Longrightarrow> h' = h"
proof -
  show "\<not> b \<Longrightarrow> h' = h" using assms by (auto simp: slot_add_def split: option.splits)
  assume b
  show "\<exists>p. slot_map h' = (slot_map h)(k \<mapsto> (p, v)) \<and>
       (case slot_map h k of Some (q, w) \<Rightarrow> p = q | None \<Rightarrow> p < cap \<and> (\<forall>k' w. slot_map h k' \<noteq> Some (p, w)))"
  proof (cases "slot_map h k")
    case (Some iw)
    then obtain i w where iw: "slot_map h k = Some (i, w)" by (cases iw) simp
    then have "first_index (slot_is k) h = Some i" by (auto simp: slot_map_def)
    with assms have "h' = h[i := Some (k, v)]" by (simp add: slot_add_def)
    with iw slot_map_update [of i h k w v] have "slot_map h' = (slot_map h)(k \<mapsto> (i, v))"
      by (simp add: slot_map_Some_iff)
    with iw show ?thesis by auto
  next
    case None
    then have "first_index (slot_is k) h = None" by (simp add: slot_map_def)
    with assms \<open>b\<close> obtain i where i: "first_index (\<lambda>s. s = None) (take cap h) = Some i" "h' = h[i := Some (k, v)]"
      by (auto simp: slot_add_def split: option.splits)
    then have i': "i < cap" "i < length h" "h ! i = None" by (auto simp: first_index_Some_iff)
    with None i(2) slot_map_update [of i h k 0 v] have "slot_map h' = (slot_map h)(k \<mapsto> (i, v))" by simp
    with None i' show ?thesis by (auto simp: slot_map_Some_iff)
  qed
qed

lemma slot_hash_contract: "data_hash_contract (slot_hash cap) slot_map slot_rest cap"
  unfolding data_hash_contract_def
proof (intro conjI allI impI)
  fix h :: "'k slots" and n
  show "case dh_iterate (slot_hash cap) h n of
        None \<Rightarrow> slot_rest h n = []
      | Some (p, k, v, n') \<Rightarrow> slot_rest h n = (p, k, v) # slot_rest h n' \<and> slot_rest (dh_del (slot_hash cap) h k) n' = slot_rest h n'"
    using slot_rest_Cons [of h n] by (auto simp: slot_hash_def split: list.splits)
next
  fix h h' :: "'k slots" and k v
  assume "dh_add (slot_hash cap) h k v = (h', True)"
  then have "slot_add cap h k v = (h', True)" by (simp add: slot_hash_def)
  from slot_addD(1) [OF this TrueI] show "\<exists>p. slot_map h' = (slot_map h)(k \<mapsto> (p, v)) \<and>
       (case slot_map h k of Some (q, w) \<Rightarrow> p = q | None \<Rightarrow> p < cap \<and> (\<forall>k' w. slot_map h k' \<noteq> Some (p, w)))" .
next
  fix h h' :: "'k slots" and k v
  assume "dh_add (slot_hash cap) h k v = (h', False)"
  then show "slot_map h' = slot_map h" using slot_addD(2) [of cap h k v h' False] by (simp add: slot_hash_def)
qed (simp_all add: slot_hash_def slot_map_del slot_rest_0)

end
