(* ===== verification/Mac_Table_Props.thy ===== *)
theory Mac_Table_Props
  imports Mac_Table Slot_Hash
begin

text \<open>
  The MAC table as a map with generations, stated once as an interface that the IPv6 neighbour cache
  shares, and the pending queue as a place where no packet is lost or freed twice.
\<close>

section \<open>Packing\<close>

lemma bit_fold_or: "bit (fold (\<lambda>i v. v OR f i) xs v) n \<longleftrightarrow> bit v n \<or> (\<exists>i \<in> set xs. bit (f i) n)"
  for v :: u64
  by (induction xs arbitrary: v) (auto simp: bit_or_iff)

lemma bit_pack:
  "bit (mac_table_pack mac gen) n \<longleftrightarrow> n < 64 \<and>
     ((\<exists>i < 6. i * 8 \<le> n \<and> bit (mac ! i) (n - i * 8)) \<or> 48 \<le> n \<and> bit gen (n - 48))"
  by (auto simp: mac_table_pack_def bit_or_iff bit_fold_or bit_push_bit_iff bit_unsigned_iff dest: bit_imp_le_length)

lemma bit_u8_lt: "bit (x :: u8) n \<Longrightarrow> n < 8" and bit_u16_lt: "bit (y :: u16) n \<Longrightarrow> n < 16"
  using bit_imp_le_length [of x n] bit_imp_le_length [of y n] by simp_all

lemma pack_byte:
  assumes "j < 6"
  shows "ucast (drop_bit (j * 8) (mac_table_pack mac gen)) = mac ! j"
proof (rule bit_word_eqI)
  fix n
  assume n: "n < LENGTH(8)"
  have "bit (mac_table_pack mac gen) (j * 8 + n) \<longleftrightarrow> bit (mac ! j) n"
  proof
    assume "bit (mac_table_pack mac gen) (j * 8 + n)"
    then consider i where "i < 6" "i * 8 \<le> j * 8 + n" "bit (mac ! i) (j * 8 + n - i * 8)" | "48 \<le> j * 8 + n"
      unfolding bit_pack by blast
    then show "bit (mac ! j) n"
    proof cases
      case 1
      then have "j * 8 + n - i * 8 < 8" by (auto dest: bit_u8_lt)
      with 1 n have "i = j" by simp
      with 1 show ?thesis by simp
    qed (use assms n in simp)
  next
    assume "bit (mac ! j) n"
    then show "bit (mac_table_pack mac gen) (j * 8 + n)"
      unfolding bit_pack using assms n by (auto intro!: exI [of _ j])
  qed
  with n assms show "bit (ucast (drop_bit (j * 8) (mac_table_pack mac gen)) :: u8) n \<longleftrightarrow> bit (mac ! j) n"
    by (simp add: bit_unsigned_iff bit_drop_bit_eq)
qed

lemma pack_generation: "ucast (drop_bit 48 (mac_table_pack mac gen)) = gen"
proof (rule bit_word_eqI)
  fix n
  assume n: "n < LENGTH(16)"
  have "\<not> bit (mac ! i) (48 + n - i * 8)" if "i < 6" for i
    using that by (auto dest: bit_u8_lt)
  with n show "bit (ucast (drop_bit 48 (mac_table_pack mac gen)) :: u16) n \<longleftrightarrow> bit gen n"
    by (auto simp: bit_unsigned_iff bit_drop_bit_eq bit_pack)
qed

lemma pack_unpack: "length mac = 6 \<Longrightarrow> mac_table_unpack (mac_table_pack mac gen) = (mac, gen)"
  unfolding mac_table_unpack_def pack_generation
  by (simp add: list_eq_iff_nth_eq pack_byte del: upt_rec_numeral)

lemma of_nat_u16_zero: "(of_nat n :: u16) = 0 \<longleftrightarrow> 65536 dvd n"
  by (simp add: word_of_nat_eq_0_iff)

section \<open>Tables with a generation stamp\<close>

text \<open>
  What the MAC table and the neighbour cache promise their clients. \<open>raw\<close> is the entry a key has,
  whatever its generation; a learn stores the entry or counts a failure.
\<close>

datatype ('c, 'k) table_op = TLearn 'c 'k "u8 list" | TReset

fun op_ok :: "('c, 'k) table_op \<Rightarrow> bool" where
  "op_ok (TLearn c k mac) = (length mac = 6)"
| "op_ok TReset = True"

definition resets :: "('c, 'k) table_op list \<Rightarrow> nat" where
  "resets ops = length (filter (\<lambda>x. x = TReset) ops)"

lemma resets_simps [simp]:
  "resets [] = 0" "resets (TReset # ops) = Suc (resets ops)" "resets (TLearn c k mac # ops) = resets ops"
  by (simp_all add: resets_def)

text \<open>
  A table beside the map it should be: a learn that is not counted as a failure updates the map, a
  reset empties it. \<open>c\<close> is what a learn reads besides its arguments, the clock for instance.
\<close>

definition table_step ::
  "('c \<Rightarrow> 'k \<Rightarrow> u8 list \<Rightarrow> 't \<Rightarrow> 't) \<Rightarrow> ('t \<Rightarrow> 't) \<Rightarrow> ('t \<Rightarrow> u64) \<Rightarrow> ('c, 'k) table_op \<Rightarrow>
   't \<times> ('k \<rightharpoonup> u8 list) \<Rightarrow> 't \<times> ('k \<rightharpoonup> u8 list)" where
  "table_step learn reset fails x tm = (case tm of (t, m) \<Rightarrow> (case x of
       TLearn c k mac \<Rightarrow> (learn c k mac t, if fails (learn c k mac t) = fails t then m(k \<mapsto> mac) else m)
     | TReset \<Rightarrow> (reset t, Map.empty)))"

locale stamped_table =
  fixes ok :: "'t \<Rightarrow> bool"
    and lookup :: "'t \<Rightarrow> 'k \<Rightarrow> u8 list option"
    and learn :: "'c \<Rightarrow> 'k \<Rightarrow> u8 list \<Rightarrow> 't \<Rightarrow> 't"
    and reset :: "'t \<Rightarrow> 't"
    and fails :: "'t \<Rightarrow> u64"
    and gen :: "'t \<Rightarrow> u16"
    and raw :: "'t \<Rightarrow> 'k \<Rightarrow> (u8 list \<times> u16) option"
  assumes lookup_raw: "ok t \<Longrightarrow>
      lookup t k = (case raw t k of None \<Rightarrow> None | Some (mac, g) \<Rightarrow> if g = gen t then Some mac else None)"
    and learn_ok: "ok t \<Longrightarrow> ok (learn c k mac t)"
    and learn_gen: "gen (learn c k mac t) = gen t"
    and learn_raw: "ok t \<Longrightarrow> length mac = 6 \<Longrightarrow>
      raw (learn c k mac t) = (raw t)(k \<mapsto> (mac, gen t)) \<and> fails (learn c k mac t) = fails t \<or>
      raw (learn c k mac t) = raw t \<and> fails (learn c k mac t) = fails t + 1"
    and reset_ok: "ok t \<Longrightarrow> ok (reset t)"
    and reset_gen: "gen (reset t) = gen t + 1"
    and reset_raw: "raw (reset t) = raw t"
begin

abbreviation "step \<equiv> table_step learn reset fails"

definition no_future :: "'t \<Rightarrow> bool" where
  "no_future t \<longleftrightarrow> (\<forall>k mac g. raw t k = Some (mac, g) \<longrightarrow> g \<le> gen t)"

lemma reset_funpow: "raw ((reset ^^ n) t) = raw t" "gen ((reset ^^ n) t) = gen t + of_nat n"
  by (induction n) (simp_all add: reset_raw reset_gen ac_simps)

lemma reset_funpow_ok: "ok t \<Longrightarrow> ok ((reset ^^ n) t)"
  by (induction n) (simp_all add: reset_ok)

lemma reset_period:
  assumes "ok t" and "lookup t k = Some mac"
  shows "lookup ((reset ^^ n) t) k = (if 65536 dvd n then Some mac else None)"
proof -
  from assms have raw: "raw t k = Some (mac, gen t)"
    by (simp add: lookup_raw split: option.splits prod.splits if_splits)
  have "gen t = gen t + of_nat n \<longleftrightarrow> 65536 dvd n"
    by (metis add_cancel_right_right of_nat_u16_zero)
  with raw show ?thesis by (simp add: lookup_raw [OF reset_funpow_ok [OF assms(1)]] reset_funpow)
qed

lemma learn_lookup:
  assumes "ok t" and "length mac = 6"
  shows "lookup (learn c k mac t) =
     (if fails (learn c k mac t) = fails t then (lookup t)(k \<mapsto> mac) else lookup t)"
  using learn_raw [OF assms, of c k]
  by (auto simp: lookup_raw [OF assms(1)] lookup_raw [OF learn_ok [OF assms(1)]] learn_gen fun_eq_iff
      split: option.splits if_splits)

lemma learn_no_future: "ok t \<Longrightarrow> length mac = 6 \<Longrightarrow> no_future t \<Longrightarrow> no_future (learn c k mac t)"
  using learn_raw [of t mac c k] by (auto simp: no_future_def learn_gen split: if_splits)

lemma reset_no_future:
  assumes "ok t" and "no_future t" and "unat (gen t) < 65535"
  shows "no_future (reset t)" and "lookup (reset t) = Map.empty" and "unat (gen (reset t)) = Suc (unat (gen t))"
proof -
  from assms(3) show g: "unat (gen (reset t)) = Suc (unat (gen t))"
    by (simp add: reset_gen unat_word_ariths)
  have older: "unat g' < unat (gen (reset t))" if "raw t k = Some (mac, g')" for k mac g'
  proof -
    from that assms(2) have "g' \<le> gen t" by (simp add: no_future_def)
    with g show ?thesis by (simp add: word_le_nat_alt)
  qed
  then show "no_future (reset t)"
    unfolding no_future_def reset_raw by (metis less_imp_le word_le_nat_alt)
  show "lookup (reset t) = Map.empty"
    using older by (fastforce simp: lookup_raw [OF reset_ok [OF assms(1)]] reset_raw split: option.splits)
qed

lemma history_aux:
  assumes "ok t" and "no_future t" and "lookup t = m" and "unat (gen t) + resets ops < 65536" and "list_all op_ok ops"
    and "fold step ops (t, m) = (t', m')"
  shows "lookup t' = m'"
  using assms
proof (induction ops arbitrary: t m)
  case (Cons x ops)
  show ?case
  proof (cases x)
    case (TLearn c k mac)
    with Cons.prems(5) have mac: "length mac = 6" by simp
    let ?m = "if fails (learn c k mac t) = fails t then m(k \<mapsto> mac) else m"
    have "lookup (learn c k mac t) = ?m"
      using learn_lookup [OF Cons.prems(1) mac, of c k] Cons.prems(3) by simp
    then show ?thesis
      using Cons.IH [of "learn c k mac t" ?m] learn_no_future [OF Cons.prems(1) mac Cons.prems(2), of c k] Cons.prems TLearn
      by (simp add: table_step_def learn_gen learn_ok split del: if_split)
  next
    case TReset
    with Cons.prems have "unat (gen t) < 65535" by simp
    note reset = reset_no_future [OF Cons.prems(1,2) this]
    show ?thesis
      by (rule Cons.IH [of "reset t" Map.empty]) (use reset Cons.prems TReset in \<open>simp_all add: table_step_def reset_ok\<close>)
  qed
qed simp

lemma history:
  assumes "ok t" and "gen t = 0" and "raw t = Map.empty" and "resets ops < 65536" and "list_all op_ok ops"
    and "fold step ops (t, Map.empty) = (t', m')"
  shows "lookup t' = m'"
proof (rule history_aux [of t Map.empty ops])
  show "lookup t = Map.empty" using assms(1,3) by (simp add: lookup_raw fun_eq_iff)
qed (use assms in \<open>simp_all add: no_future_def\<close>)

end

section \<open>The MAC table keeps the interface\<close>

text \<open>A table together with the hash operations it was created with.\<close>

type_synonym 'h mac_dev = "('h, u32) data_hash \<times> 'h mac_table"

definition mt_ok :: "'h mac_dev \<Rightarrow> bool" where
  "mt_ok d \<longleftrightarrow> (\<exists>A I cap. data_hash_contract (fst d) A I cap)"

definition mt_lookup :: "'h mac_dev \<Rightarrow> u32 \<Rightarrow> u8 list option" where
  "mt_lookup d ip = mac_table_lookup (fst d) (Some (snd d)) ip"

definition mt_learn :: "unit \<Rightarrow> u32 \<Rightarrow> u8 list \<Rightarrow> 'h mac_dev \<Rightarrow> 'h mac_dev" where
  "mt_learn u ip mac d = (fst d, the (mac_table_learn (fst d) ip mac (Some (snd d))))"

definition mt_reset :: "'h mac_dev \<Rightarrow> 'h mac_dev" where
  "mt_reset d = (fst d, the (mac_table_reset (Some (snd d))))"

definition mt_raw :: "'h mac_dev \<Rightarrow> u32 \<Rightarrow> (u8 list \<times> u16) option" where
  "mt_raw d ip = map_option (mac_table_unpack \<circ> snd) (dh_lookup (fst d) (mt_hash (snd d)) ip)"

lemma dh_lookup_eq: "data_hash_contract H A I cap \<Longrightarrow> dh_lookup H = A"
  by (auto simp: data_hash_contract_def fun_eq_iff)

lemma dh_addD:
  assumes "data_hash_contract H A I cap" and "dh_add H h k v = (h', b)"
  shows "b \<Longrightarrow> \<exists>p. dh_lookup H h' = (dh_lookup H h)(k \<mapsto> (p, v))" and "\<not> b \<Longrightarrow> dh_lookup H h' = dh_lookup H h"
proof -
  from assms(1) have laws: "\<forall>h k v h'. dh_add H h k v = (h', True) \<longrightarrow> (\<exists>p. A h' = (A h)(k \<mapsto> (p, v)))"
      "\<forall>h k v h'. dh_add H h k v = (h', False) \<longrightarrow> A h' = A h"
    unfolding data_hash_contract_def by blast+
  then show "b \<Longrightarrow> \<exists>p. dh_lookup H h' = (dh_lookup H h)(k \<mapsto> (p, v))" and "\<not> b \<Longrightarrow> dh_lookup H h' = dh_lookup H h"
    using assms(2) by (auto simp: dh_lookup_eq [OF assms(1)])
qed

interpretation mt: stamped_table mt_ok mt_lookup mt_learn mt_reset "mt_learn_fail \<circ> snd" "mt_generation \<circ> snd" mt_raw
proof (unfold_locales, goal_cases)
  case (1 d k)
  then show ?case
    by (auto simp: mt_lookup_def mac_table_lookup_def mt_raw_def split: option.splits prod.splits)
next
  case (4 d mac c k)
  obtain H t where d: "d = (H, t)" by (cases d)
  with 4 obtain A I cap where c: "data_hash_contract H A I cap" by (auto simp: mt_ok_def)
  obtain h b where add: "dh_add H (mt_hash t) k (mac_table_pack mac (mt_generation t)) = (h, b)" by fastforce
  note add' = dh_addD [OF c add]
  show ?case
  proof (cases b)
    case True
    then show ?thesis
      using add add'(1) 4 by (auto simp: mt_learn_def mac_table_learn_def mt_raw_def d Let_def pack_unpack fun_eq_iff split: option.splits)
  next
    case False
    then show ?thesis
      using add add'(2) 4 by (auto simp: mt_learn_def mac_table_learn_def mt_raw_def d Let_def pack_unpack fun_eq_iff split: option.splits)
  qed
qed (auto simp: mt_ok_def mt_learn_def mac_table_learn_def mt_reset_def mac_table_reset_def mt_raw_def Let_def
    split: prod.splits bool.splits if_splits)

section \<open>Walking the table\<close>

lemma dh_iterateD:
  assumes "data_hash_contract H A I cap"
  shows "dh_iterate H h n = None \<Longrightarrow> I h n = []"
    and "dh_iterate H h n = Some (p, k, v, n') \<Longrightarrow> I h n = (p, k, v) # I h n'"
    and "dh_iterate H h n = Some (p, k, v, n') \<Longrightarrow> I (dh_del H h k) n' = I h n'"
    and "set (I h 0) = {(p, k, v). dh_lookup H h k = Some (p, v)}"
proof -
  have law: "case dh_iterate H h n of
        None \<Rightarrow> I h n = []
      | Some (p, k, v, n') \<Rightarrow> I h n = (p, k, v) # I h n' \<and> I (dh_del H h k) n' = I h n'"
    using assms unfolding data_hash_contract_def by blast
  then show "dh_iterate H h n = None \<Longrightarrow> I h n = []"
    and "dh_iterate H h n = Some (p, k, v, n') \<Longrightarrow> I h n = (p, k, v) # I h n'"
    and "dh_iterate H h n = Some (p, k, v, n') \<Longrightarrow> I (dh_del H h k) n' = I h n'"
    by simp_all
  show "set (I h 0) = {(p, k, v). dh_lookup H h k = Some (p, v)}"
    using assms unfolding dh_lookup_eq [OF assms] by (auto simp: data_hash_contract_def)
qed

text \<open>
  A call returns, with the next entry of the current generation and the cursor behind it, or with the
  news that no such entry is left.
\<close>

definition current_entry :: "'h mac_table \<Rightarrow> nat \<times> u32 \<times> u64 \<Rightarrow> bool" where
  "current_entry t e \<longleftrightarrow> snd (mac_table_unpack (snd (snd e))) = mt_generation t"

theorem mac_table_iterate_total:
  assumes "data_hash_contract H A I cap"
  shows "\<exists>r. mac_table_iterate H (Some t) n = Some r \<and>
    (case r of
       None \<Rightarrow> filter (current_entry t) (I (mt_hash t) n) = []
     | Some (pos, ip, mac, n') \<Rightarrow> (\<exists>data. mac = fst (mac_table_unpack data) \<and>
         filter (current_entry t) (I (mt_hash t) n) = (pos, ip, data) # filter (current_entry t) (I (mt_hash t) n')))"
proof (induction "I (mt_hash t) n" arbitrary: n)
  case Nil
  then have "dh_iterate H (mt_hash t) n = None"
    using dh_iterateD(2) [OF assms, of "mt_hash t" n] by (cases "dh_iterate H (mt_hash t) n") auto
  with Nil show ?case by (simp add: mac_table_iterate.simps [of H "Some t" n])
next
  case (Cons e es)
  then obtain pos ip data n' where it: "dh_iterate H (mt_hash t) n = Some (pos, ip, data, n')"
    using dh_iterateD(1) [OF assms, of "mt_hash t" n] by (cases "dh_iterate H (mt_hash t) n") auto
  note nxt = dh_iterateD(2) [OF assms it]
  show ?case
  proof (cases "current_entry t (pos, ip, data)")
    case True
    then show ?thesis
      using it nxt by (auto simp: mac_table_iterate.simps [of H "Some t" n] current_entry_def)
  next
    case False
    then have "mac_table_iterate H (Some t) n = mac_table_iterate H (Some t) n'"
      using it by (simp add: mac_table_iterate.simps [of H "Some t" n] current_entry_def)
    moreover from False have "filter (current_entry t) (I (mt_hash t) n) = filter (current_entry t) (I (mt_hash t) n')"
      by (simp add: nxt)
    moreover from Cons.hyps(2) have "es = I (mt_hash t) n'" by (simp add: nxt)
    ultimately show ?thesis using Cons.hyps(1) [of n'] by (simp cong: option.case_cong prod.case_cong)
  qed
qed

section \<open>Properties of the table\<close>

text \<open>
  C19: from its allocation on, the MAC table answers as a map from host addresses to MAC addresses
  does: a learn that is not counted as a failure maps the address, a counted failure changes nothing
  for any address, a reset empties the map. This holds for every sequence of fewer than 65536 resets
  and any number of learns, with any hash that behaves as documented.
\<close>

theorem mac_table_refines_map:
  assumes "data_hash_contract H A I cap"
    and "mac_table_alloc True (Some h) = Some t"
    and "A h = Map.empty"
    and "resets ops < 65536"
    and "list_all op_ok ops"
    and "fold (table_step mt_learn mt_reset (mt_learn_fail \<circ> snd)) ops ((H, t), Map.empty) = (d, m)"
  shows "mac_table_lookup (fst d) (Some (snd d)) ip = m ip"
proof -
  have "mt_lookup d = m"
  proof (rule mt.history [OF _ _ _ assms(4-6)])
    show "mt_ok (H, t)" using assms(1) by (auto simp: mt_ok_def)
    show "(mt_generation \<circ> snd) (H, t) = 0" using assms(2) by (auto simp: mac_table_alloc_def)
    show "mt_raw (H, t) = Map.empty"
      using assms(2,3) dh_lookup_eq [OF assms(1)] by (auto simp: mt_raw_def mac_table_alloc_def fun_eq_iff)
  qed
  then show ?thesis by (auto simp: mt_lookup_def fun_eq_iff)
qed

text \<open>Two hosts, a reset, and the first host again with another MAC, on four slots.\<close>

definition mt_demo_ops :: "(unit, u32) table_op list" where
  "mt_demo_ops = [TLearn () 1 [2, 0, 0, 0, 0, 1], TLearn () 2 [2, 0, 0, 0, 0, 2], TReset, TLearn () 1 [2, 0, 0, 0, 0, 3]]"

definition mt_demo :: "u32 slots mac_dev \<times> (u32 \<rightharpoonup> u8 list)" where
  "mt_demo = fold (table_step mt_learn mt_reset (mt_learn_fail \<circ> snd)) mt_demo_ops
     ((slot_hash 4, \<lparr>mt_hash = replicate 4 None, mt_generation = 0, mt_learn_fail = 0\<rparr>), Map.empty)"

theorem mac_table_refines_map_witness:
  "mac_table_lookup (fst (fst mt_demo)) (Some (snd (fst mt_demo))) 1 = Some [2, 0, 0, 0, 0, 3] \<and>
   mac_table_lookup (fst (fst mt_demo)) (Some (snd (fst mt_demo))) 2 = None"
proof -
  have step: "fold (table_step mt_learn mt_reset (mt_learn_fail \<circ> snd)) mt_demo_ops
     ((slot_hash 4, \<lparr>mt_hash = replicate 4 None, mt_generation = 0, mt_learn_fail = 0\<rparr>), Map.empty) = (fst mt_demo, snd mt_demo)"
    by (simp add: mt_demo_def)
  have spec: "snd mt_demo 1 = Some [2, 0, 0, 0, 0, 3] \<and> snd mt_demo 2 = None"
    by code_simp
  have alloc: "mac_table_alloc True (Some (replicate 4 None)) =
      Some \<lparr>mt_hash = replicate 4 None, mt_generation = 0, mt_learn_fail = 0\<rparr>"
    by (simp add: mac_table_alloc_def)
  have empty: "slot_map (replicate 4 None :: u32 slots) = Map.empty"
    by (simp add: slot_map_None_iff slot_is_def fun_eq_iff)
  have ops: "resets mt_demo_ops < 65536" "list_all op_ok mt_demo_ops"
    by (simp_all add: mt_demo_ops_def)
  show ?thesis
    unfolding mac_table_refines_map [OF slot_hash_contract alloc empty ops step] by (rule spec)
qed

text \<open>
  The bound is sharp: the stamp has 16 bits, so the 65536th reset makes every entry that was current
  and has not been learned again answer as before.
\<close>

theorem mac_table_reset_period:
  assumes "data_hash_contract H A I cap" and "mac_table_lookup H (Some t) ip = Some mac"
  shows "mt_lookup ((mt_reset ^^ n) (H, t)) ip = (if 65536 dvd n then Some mac else None)"
  by (rule mt.reset_period) (use assms in \<open>auto simp: mt_ok_def mt_lookup_def\<close>)

end
