(* ===== verification/Arp_Queue.thy ===== *)
theory Arp_Queue
  imports FastRG_Prelude Dpdk
begin

text \<open>
  Packets that wait for the MAC address of their LAN host (\<^verbatim>\<open>src/src/mac_table.c\<close>): the queue of pending
  packets, the ARP request, and the proof that the queue is a bounded first-in first-out buffer in
  which every packet is waiting, sent or freed, once.
\<close>

section \<open>Packets waiting for ARP\<close>

abbreviation ARP_PENDING_QUEUE_SIZE :: nat where "ARP_PENDING_QUEUE_SIZE \<equiv> 64"

text \<open>
  A packet buffer with the identity its owner knows it by. An entry of the pending queue lives in a
  pool; the ring holds pointers, which are indices into the pool's memory. \<open>aq_ready\<close> says that the pool
  and the ring were created, so that their pointers are not NULL. \<open>aq_freed\<close> records the buffers given
  back to their own pool, in order.
\<close>

record mbuf =
  mb_id :: nat
  mb_data :: "u8 list"

record arp_pending_pkt =
  ap_mbuf :: "mbuf option"
  ap_target_ip :: u32
  ap_tx_queue :: u16

record 'm rte_mempool =
  mp_get :: "'m \<Rightarrow> 'm \<times> nat option"
  mp_put :: "'m \<Rightarrow> nat \<Rightarrow> 'm"

record ('r, 'm) arp_queue =
  aq_ready :: bool
  aq_ring :: 'r
  aq_pool :: 'm
  aq_mem :: "nat \<Rightarrow> arp_pending_pkt"
  aq_freed :: "nat list"

record ('r, 'm) arp_dpdk =
  aq_ring_ops :: "'r rte_ring"
  aq_pool_ops :: "'m rte_mempool"

definition pktmbuf_free :: "mbuf option \<Rightarrow> ('r, 'm) arp_queue \<Rightarrow> ('r, 'm) arp_queue" where
  "pktmbuf_free mb q = (case mb of None \<Rightarrow> q | Some b \<Rightarrow> q\<lparr>aq_freed := aq_freed q @ [mb_id b]\<rparr>)"

definition arp_entry_put :: "('r, 'm) arp_dpdk \<Rightarrow> nat \<Rightarrow> ('r, 'm) arp_queue \<Rightarrow> ('r, 'm) arp_queue" where
  "arp_entry_put D e q = q\<lparr>aq_pool := mp_put (aq_pool_ops D) (aq_pool q) e\<rparr>"

definition arp_pending_enqueue ::
  "('r, 'm) arp_dpdk \<Rightarrow> mbuf \<Rightarrow> u32 \<Rightarrow> u16 \<Rightarrow> ('r, 'm) arp_queue \<Rightarrow> status \<times> ('r, 'm) arp_queue" where
  "arp_pending_enqueue D mb target_ip tx_queue q =
     (if \<not> aq_ready q then (ERROR, q) else
      case mp_get (aq_pool_ops D) (aq_pool q) of
        (pool, None) \<Rightarrow> (ERROR, q\<lparr>aq_pool := pool\<rparr>)
      | (pool, Some e) \<Rightarrow>
          let q1 = q\<lparr>aq_pool := pool, aq_mem := (aq_mem q)(e := \<lparr>ap_mbuf = Some mb, ap_target_ip = target_ip,
                     ap_tx_queue = tx_queue\<rparr>)\<rparr>
          in case ring_enqueue (aq_ring_ops D) (aq_ring q1) e of
               (r, True) \<Rightarrow> (SUCCESS, q1\<lparr>aq_ring := r\<rparr>)
             | (r, False) \<Rightarrow>
                 let q2 = (case ring_dequeue (aq_ring_ops D) r of
                             (r', Some oldest) \<Rightarrow>
                               arp_entry_put D oldest (pktmbuf_free (ap_mbuf (aq_mem q1 oldest)) (q1\<lparr>aq_ring := r'\<rparr>))
                           | (r', None) \<Rightarrow> q1\<lparr>aq_ring := r'\<rparr>)
                 in case ring_enqueue (aq_ring_ops D) (aq_ring q2) e of
                      (r2, True) \<Rightarrow> (SUCCESS, q2\<lparr>aq_ring := r2\<rparr>)
                    | (r2, False) \<Rightarrow>
                        (ERROR, arp_entry_put D e (pktmbuf_free (ap_mbuf (aq_mem q2 e)) (q2\<lparr>aq_ring := r2\<rparr>))))"

text \<open>\<open>rte_ring_dequeue_burst\<close>: up to \<open>n\<close> entries, in order.\<close>

fun ring_dequeue_burst :: "'r rte_ring \<Rightarrow> nat \<Rightarrow> 'r \<Rightarrow> nat list \<times> 'r" where
  "ring_dequeue_burst R 0 r = ([], r)"
| "ring_dequeue_burst R (Suc n) r =
     (case ring_dequeue R r of
        (r', None) \<Rightarrow> ([], r')
      | (r', Some x) \<Rightarrow> (case ring_dequeue_burst R n r' of (xs, r'') \<Rightarrow> (x # xs, r'')))"

definition set_dst_mac :: "u8 list \<Rightarrow> mbuf \<Rightarrow> mbuf" where
  "set_dst_mac mac mb = mb\<lparr>mb_data := mac @ drop 6 (mb_data mb)\<rparr>"

text \<open>
  One entry of a drained batch. \<open>tx\<close> is the output array so far: packets with the queue they leave on.
  An entry that matches has a packet; \<open>the\<close> stands for following its pointer.
\<close>

definition arp_drain_entry ::
  "('r, 'm) arp_dpdk \<Rightarrow> u32 \<Rightarrow> u8 list \<Rightarrow> nat \<Rightarrow> nat \<Rightarrow> ('r, 'm) arp_queue \<times> (mbuf \<times> u16) list \<Rightarrow>
   ('r, 'm) arp_queue \<times> (mbuf \<times> u16) list" where
  "arp_drain_entry D resolved_ip mac tx_max e acc =
     (case acc of (q, tx) \<Rightarrow>
        let ent = aq_mem q e in
        if ap_target_ip ent = resolved_ip \<and> length tx < tx_max
        then (arp_entry_put D e q, tx @ [(set_dst_mac mac (the (ap_mbuf ent)), ap_tx_queue ent)])
        else case ring_enqueue (aq_ring_ops D) (aq_ring q) e of
          (r, True) \<Rightarrow> (q\<lparr>aq_ring := r\<rparr>, tx)
        | (r, False) \<Rightarrow> (arp_entry_put D e (pktmbuf_free (ap_mbuf ent) (q\<lparr>aq_ring := r\<rparr>)), tx))"

text \<open>\<open>tx\<close> holds the \<open>tx_count\<close> packets the caller's arrays already have.\<close>

definition arp_pending_drain ::
  "('r, 'm) arp_dpdk \<Rightarrow> u32 \<Rightarrow> u8 list \<Rightarrow> nat \<Rightarrow> ('r, 'm) arp_queue \<times> (mbuf \<times> u16) list \<Rightarrow>
   ('r, 'm) arp_queue \<times> (mbuf \<times> u16) list" where
  "arp_pending_drain D resolved_ip mac tx_max acc =
     (case acc of (q, tx) \<Rightarrow>
        if \<not> aq_ready q then (q, tx)
        else case ring_dequeue_burst (aq_ring_ops D) ARP_PENDING_QUEUE_SIZE (aq_ring q) of
          (batch, r) \<Rightarrow> fold (arp_drain_entry D resolved_ip mac tx_max) batch (q\<lparr>aq_ring := r\<rparr>, tx))"

text \<open>\<open>None\<close> would be a loop that does not end.\<close>

partial_function (option) arp_flush_loop ::
  "('r, 'm) arp_dpdk \<Rightarrow> ('r, 'm) arp_queue \<Rightarrow> ('r, 'm) arp_queue option" where
  "arp_flush_loop D q =
     (case ring_dequeue (aq_ring_ops D) (aq_ring q) of
        (r, None) \<Rightarrow> Some (q\<lparr>aq_ring := r\<rparr>)
      | (r, Some e) \<Rightarrow>
          arp_flush_loop D (arp_entry_put D e (pktmbuf_free (ap_mbuf (aq_mem q e)) (q\<lparr>aq_ring := r\<rparr>))))"

definition arp_pending_flush ::
  "('r, 'm) arp_dpdk \<Rightarrow> ('r, 'm) arp_queue \<Rightarrow> ('r, 'm) arp_queue option" where
  "arp_pending_flush D q = (if \<not> aq_ready q then Some q else arp_flush_loop D q)"

section \<open>ARP request\<close>

definition be16_bytes :: "u16 \<Rightarrow> u8 list" where
  "be16_bytes x = [ucast (drop_bit 8 x), ucast x]"

text \<open>The bytes of a 32-bit value as the host stores it; the addresses are kept in network order.\<close>

definition host32_bytes :: "u32 \<Rightarrow> u8 list" where
  "host32_bytes x = [ucast x, ucast (drop_bit 8 x), ucast (drop_bit 16 x), ucast (drop_bit 24 x)]"

text \<open>The two Ethernet types come from a header outside the repository and are arguments.\<close>

definition encode_arp_request :: "u16 \<Rightarrow> u16 \<Rightarrow> u8 list \<Rightarrow> u32 \<Rightarrow> u32 \<Rightarrow> u16 \<Rightarrow> u8 list" where
  "encode_arp_request frame_type_arp frame_type_ip src_mac src_ip target_ip vlan_id =
     replicate 6 0xFF @ src_mac @ be16_bytes 0x8100 @
     be16_bytes vlan_id @ be16_bytes frame_type_arp @
     be16_bytes 1 @ be16_bytes frame_type_ip @ [6, 4] @ be16_bytes 1 @
     src_mac @ host32_bytes src_ip @ replicate 6 0 @ host32_bytes target_ip"

section \<open>What the pool and the ring are relied on for\<close>

text \<open>
  \<open>F m\<close> is the multiset of entries a pool can still hand out. A ring refuses an entry exactly when it
  holds \<open>cap\<close> of them.
\<close>

definition rte_mempool_contract :: "'m rte_mempool \<Rightarrow> ('m \<Rightarrow> nat multiset) \<Rightarrow> bool" where
  "rte_mempool_contract P F \<longleftrightarrow>
     (\<forall>m m'. mp_get P m = (m', None) \<longrightarrow> F m = {#} \<and> F m' = {#}) \<and>
     (\<forall>m m' e. mp_get P m = (m', Some e) \<longrightarrow> F m = add_mset e (F m')) \<and>
     (\<forall>m e. F (mp_put P m e) = add_mset e (F m))"

definition bounded_ring_contract :: "'r rte_ring \<Rightarrow> ('r \<Rightarrow> nat list) \<Rightarrow> nat \<Rightarrow> bool" where
  "bounded_ring_contract R L cap \<longleftrightarrow> rte_ring_contract R L cap \<and> 0 < cap \<and> cap < ARP_PENDING_QUEUE_SIZE \<and>
     (\<forall>r x r' ok. ring_enqueue R r x = (r', ok) \<longrightarrow> cap \<le> length (L r) \<longrightarrow> \<not> ok \<and> L r' = L r)"

definition arp_contract :: "('r, 'm) arp_dpdk \<Rightarrow> ('r \<Rightarrow> nat list) \<Rightarrow> ('m \<Rightarrow> nat multiset) \<Rightarrow> nat \<Rightarrow> bool" where
  "arp_contract D L F cap \<longleftrightarrow>
     bounded_ring_contract (aq_ring_ops D) L cap \<and> rte_mempool_contract (aq_pool_ops D) F"

section \<open>The queue as a list of waiting packets\<close>

type_synonym waiting = "mbuf \<times> u32 \<times> u16"

definition arp_ent :: "('r, 'm) arp_queue \<Rightarrow> nat \<Rightarrow> waiting" where
  "arp_ent q e = (the (ap_mbuf (aq_mem q e)), ap_target_ip (aq_mem q e), ap_tx_queue (aq_mem q e))"

definition arp_waiting :: "('r \<Rightarrow> nat list) \<Rightarrow> ('r, 'm) arp_queue \<Rightarrow> waiting list" where
  "arp_waiting L q = map (arp_ent q) (L (aq_ring q))"

definition once :: "nat multiset \<Rightarrow> bool" where
  "once M \<longleftrightarrow> (\<forall>e. count M e \<le> 1)"

text \<open>\<open>held\<close> are entries taken off the ring that the operation in progress still has to place.\<close>

definition arp_wf_with ::
  "nat list \<Rightarrow> ('r \<Rightarrow> nat list) \<Rightarrow> ('m \<Rightarrow> nat multiset) \<Rightarrow> nat \<Rightarrow> ('r, 'm) arp_queue \<Rightarrow> bool" where
  "arp_wf_with held L F cap q \<longleftrightarrow> aq_ready q \<and> length (L (aq_ring q)) + length held \<le> cap \<and>
     once (mset (L (aq_ring q)) + mset held + F (aq_pool q)) \<and>
     (\<forall>e \<in> set (L (aq_ring q)) \<union> set held. ap_mbuf (aq_mem q e) \<noteq> None)"

abbreviation "arp_wf \<equiv> arp_wf_with []"

text \<open>A bounded first-in first-out buffer: what it holds and whom it evicts.\<close>

definition fifo_enqueue :: "nat \<Rightarrow> waiting \<Rightarrow> waiting list \<Rightarrow> waiting list \<times> waiting list" where
  "fifo_enqueue cap w ws = (if length ws < cap then (ws @ [w], []) else (tl ws @ [w], [hd ws]))"

fun fifo_drain :: "u32 \<Rightarrow> u8 list \<Rightarrow> nat \<Rightarrow> waiting list \<Rightarrow> waiting list \<times> (mbuf \<times> u16) list" where
  "fifo_drain ip mac room [] = ([], [])"
| "fifo_drain ip mac room ((b, t, n) # ws) =
     (if t = ip \<and> 0 < room
      then (case fifo_drain ip mac (room - 1) ws of (left, sent) \<Rightarrow> (left, (set_dst_mac mac b, n) # sent))
      else (case fifo_drain ip mac room ws of (left, sent) \<Rightarrow> ((b, t, n) # left, sent)))"

lemma fifo_drain_all:
  "length ws \<le> room \<Longrightarrow> fifo_drain ip mac room ws =
     (filter (\<lambda>w. fst (snd w) \<noteq> ip) ws, map (\<lambda>w. (set_dst_mac mac (fst w), snd (snd w))) (filter (\<lambda>w. fst (snd w) = ip) ws))"
  by (induction ip mac room ws rule: fifo_drain.induct) auto

lemma fifo_drain_ids:
  "fifo_drain ip mac room ws = (left, sent) \<Longrightarrow>
     mset (map (mb_id \<circ> fst) ws) = mset (map (mb_id \<circ> fst) left) + mset (map (mb_id \<circ> fst) sent)"
proof (induction ip mac room ws arbitrary: left sent rule: fifo_drain.induct)
  case (2 ip mac room b t n ws)
  then show ?case by (auto simp: set_dst_mac_def split: if_splits prod.splits)
qed simp

section \<open>What each operation does to it\<close>

lemma arp_poolD:
  assumes "arp_contract D L F cap"
  shows "mp_get (aq_pool_ops D) m = (m', None) \<Longrightarrow> F m = {#} \<and> F m' = {#}"
    and "mp_get (aq_pool_ops D) m = (m', Some e) \<Longrightarrow> F m = add_mset e (F m')"
    and "F (mp_put (aq_pool_ops D) m e) = add_mset e (F m)"
  using assms unfolding arp_contract_def rte_mempool_contract_def by blast+

lemma arp_ringD:
  assumes "arp_contract D L F cap" and "ring_enqueue (aq_ring_ops D) r e = (r', b)"
  shows "length (L r) < cap \<Longrightarrow> b \<and> L r' = L r @ [e]" and "cap \<le> length (L r) \<Longrightarrow> \<not> b \<and> L r' = L r"
  using assms unfolding arp_contract_def bounded_ring_contract_def rte_ring_contract_def by blast+

lemma arp_dequeueD:
  assumes "arp_contract D L F cap" and "ring_dequeue (aq_ring_ops D) r = (r', x)"
  shows "L r = [] \<Longrightarrow> x = None \<and> L r' = []" and "L r = e # es \<Longrightarrow> x = Some e \<and> L r' = es"
proof -
  have "rte_ring_contract (aq_ring_ops D) L cap"
    using assms(1) by (simp add: arp_contract_def bounded_ring_contract_def)
  from ring_dequeueD [OF this assms(2)]
  show "L r = [] \<Longrightarrow> x = None \<and> L r' = []" and "L r = e # es \<Longrightarrow> x = Some e \<and> L r' = es" by simp_all
qed

lemma arp_cap: "arp_contract D L F cap \<Longrightarrow> 0 < cap \<and> cap < 64"
  by (simp add: arp_contract_def bounded_ring_contract_def)

lemma dequeue_burst:
  assumes "arp_contract D L F cap" and "length (L r) \<le> n" and "ring_dequeue_burst (aq_ring_ops D) n r = (batch, r')"
  shows "batch = L r \<and> L r' = []"
  using assms(2,3)
proof (induction n arbitrary: r batch)
  case (Suc n)
  obtain r1 x where deq: "ring_dequeue (aq_ring_ops D) r = (r1, x)" by fastforce
  show ?case
  proof (cases "L r")
    case Nil
    with arp_dequeueD(1) [OF assms(1) deq] Suc.prems(2) deq show ?thesis by simp
  next
    case (Cons e es)
    with arp_dequeueD(2) [OF assms(1) deq] have "x = Some e" "L r1 = es" by simp_all
    with Suc.prems Suc.IH [of r1] deq Cons show ?thesis by (auto split: prod.splits)
  qed
qed simp

lemma once_add: "once (add_mset e M) \<Longrightarrow> e \<notin># M \<and> once M"
proof -
  assume o: "once (add_mset e M)"
  then have "count M x \<le> 1" for x by (metis count_add_mset le_SucI le_Suc_eq not_less_eq_eq once_def)
  moreover from o have "count M e = 0" by (auto simp: once_def dest: spec [of _ e])
  ultimately show ?thesis by (simp add: once_def not_in_iff)
qed

lemma enqueue_refines:
  assumes c: "arp_contract D L F cap" and wf: "arp_wf L F cap q"
    and enq: "arp_pending_enqueue D mb ip txq q = (st, q')"
  shows "arp_wf L F cap q'"
    and "F (aq_pool q) = {#} \<Longrightarrow> st = ERROR \<and> arp_waiting L q' = arp_waiting L q \<and> aq_freed q' = aq_freed q"
    and "F (aq_pool q) \<noteq> {#} \<Longrightarrow> st = SUCCESS \<and> (case fifo_enqueue cap (mb, ip, txq) (arp_waiting L q) of (ws, evicted) \<Rightarrow>
      arp_waiting L q' = ws \<and> aq_freed q' = aq_freed q @ map (mb_id \<circ> fst) evicted)"
proof -
  have ready: "aq_ready q" and len: "length (L (aq_ring q)) \<le> cap" using wf by (simp_all add: arp_wf_with_def)
  obtain pool r where get: "mp_get (aq_pool_ops D) (aq_pool q) = (pool, r)" by fastforce
  have "arp_wf L F cap q' \<and>
    (F (aq_pool q) = {#} \<longrightarrow> st = ERROR \<and> arp_waiting L q' = arp_waiting L q \<and> aq_freed q' = aq_freed q) \<and>
    (F (aq_pool q) \<noteq> {#} \<longrightarrow> st = SUCCESS \<and> (case fifo_enqueue cap (mb, ip, txq) (arp_waiting L q) of (ws, evicted) \<Rightarrow>
      arp_waiting L q' = ws \<and> aq_freed q' = aq_freed q @ map (mb_id \<circ> fst) evicted))"
  proof (cases r)
    case None
    with arp_poolD(1) [OF c] get have "F (aq_pool q) = {#}" "F pool = {#}" by auto
    with None enq get ready wf show ?thesis
      by (auto simp: arp_pending_enqueue_def arp_wf_with_def arp_waiting_def arp_ent_def)
  next
    case (Some e)
    with arp_poolD(2) [OF c] get have F: "F (aq_pool q) = add_mset e (F pool)" by auto
    then have fresh: "e \<notin> set (L (aq_ring q))" and once: "once (add_mset e (mset (L (aq_ring q)) + F pool))"
      using wf once_add [of e "mset (L (aq_ring q)) + F pool"] by (auto simp: arp_wf_with_def)
    define new where "new = \<lparr>ap_mbuf = Some mb, ap_target_ip = ip, ap_tx_queue = txq\<rparr>"
    obtain r1 b1 where enq1: "ring_enqueue (aq_ring_ops D) (aq_ring q) e = (r1, b1)" by fastforce
    show ?thesis
    proof (cases "length (L (aq_ring q)) < cap")
      case True
      then have "b1" "L r1 = L (aq_ring q) @ [e]" using arp_ringD(1) [OF c enq1] by auto
      with enq get Some enq1 ready have q': "q' = q\<lparr>aq_pool := pool, aq_mem := (aq_mem q)(e := new), aq_ring := r1\<rparr>" "st = SUCCESS"
        by (auto simp: arp_pending_enqueue_def new_def)
      with True fresh wf once F \<open>L r1 = _\<close> show ?thesis
        by (auto simp: arp_wf_with_def arp_waiting_def arp_ent_def fifo_enqueue_def new_def)
    next
      case False
      with arp_ringD(2) [OF c enq1] have full: "\<not> b1" "L r1 = L (aq_ring q)" by auto
      with False arp_cap [OF c] obtain oldest es where L: "L (aq_ring q) = oldest # es"
        by (cases "L (aq_ring q)") auto
      obtain r2 x where deq: "ring_dequeue (aq_ring_ops D) r1 = (r2, x)" by fastforce
      with arp_dequeueD(2) [OF c deq] full L have deq': "x = Some oldest" "L r2 = es" by auto
      obtain r3 b3 where enq3: "ring_enqueue (aq_ring_ops D) r2 e = (r3, b3)" by fastforce
      from len L deq' have "length (L r2) < cap" by simp
      with arp_ringD(1) [OF c enq3] have "b3" "L r3 = es @ [e]" by (auto simp: deq')
      from wf L obtain b where b: "ap_mbuf (aq_mem q oldest) = Some b" by (auto simp: arp_wf_with_def)
      have ne: "oldest \<noteq> e" using fresh L by auto
      with enq get Some enq1 full deq deq' enq3 \<open>b3\<close> b ready
      have q': "q' = q\<lparr>aq_pool := mp_put (aq_pool_ops D) pool oldest, aq_mem := (aq_mem q)(e := new), aq_ring := r3,
                     aq_freed := aq_freed q @ [mb_id b]\<rparr>" "st = SUCCESS"
        by (auto simp: arp_pending_enqueue_def new_def arp_entry_put_def pktmbuf_free_def Let_def)
      have "F (mp_put (aq_pool_ops D) pool oldest) = add_mset oldest (F pool)" by (rule arp_poolD(3) [OF c])
      with q' wf once F L fresh ne \<open>L r3 = _\<close> have "arp_wf L F cap q'"
        by (auto simp: arp_wf_with_def new_def ac_simps)
      moreover from q' L fresh \<open>L r3 = _\<close> b False F have "st = SUCCESS \<and> (case fifo_enqueue cap (mb, ip, txq) (arp_waiting L q) of (ws, evicted) \<Rightarrow>
         arp_waiting L q' = ws \<and> aq_freed q' = aq_freed q @ map (mb_id \<circ> fst) evicted)"
        by (auto simp: arp_waiting_def arp_ent_def fifo_enqueue_def new_def)
      ultimately show ?thesis using F by simp
    qed
  qed
  then show "arp_wf L F cap q'"
    and "F (aq_pool q) = {#} \<Longrightarrow> st = ERROR \<and> arp_waiting L q' = arp_waiting L q \<and> aq_freed q' = aq_freed q"
    and "F (aq_pool q) \<noteq> {#} \<Longrightarrow> st = SUCCESS \<and> (case fifo_enqueue cap (mb, ip, txq) (arp_waiting L q) of (ws, evicted) \<Rightarrow>
      arp_waiting L q' = ws \<and> aq_freed q' = aq_freed q @ map (mb_id \<circ> fst) evicted)"
    by simp_all
qed

lemma drain_fold:
  assumes c: "arp_contract D L F cap" and wf: "arp_wf_with batch L F cap q"
    and run: "fold (arp_drain_entry D ip mac tx_max) batch (q, tx) = (q', tx')"
    and spec: "fifo_drain ip mac (tx_max - length tx) (map (arp_ent q) batch) = (left, sent)"
  shows "arp_wf L F cap q' \<and> arp_waiting L q' = arp_waiting L q @ left \<and> tx' = tx @ sent \<and> aq_freed q' = aq_freed q"
  using wf run spec
proof (induction batch arbitrary: q tx left sent)
  case (Cons e es)
  from Cons.prems(1) have mb: "ap_mbuf (aq_mem q e) \<noteq> None" by (simp add: arp_wf_with_def)
  show ?case
  proof (cases "ap_target_ip (aq_mem q e) = ip \<and> length tx < tx_max")
    case True
    let ?q = "arp_entry_put D e q" and ?w = "(set_dst_mac mac (the (ap_mbuf (aq_mem q e))), ap_tx_queue (aq_mem q e))"
    have same: "arp_ent ?q = arp_ent q" "arp_waiting L ?q = arp_waiting L q" "aq_freed ?q = aq_freed q"
      by (auto simp: arp_entry_put_def arp_ent_def arp_waiting_def fun_eq_iff)
    from True Cons.prems(2) have "fold (arp_drain_entry D ip mac tx_max) es (?q, tx @ [?w]) = (q', tx')"
      by (simp add: arp_drain_entry_def [of D ip mac tx_max e] Let_def)
    moreover from True Cons.prems(3) obtain sent' where "sent = ?w # sent'"
        "fifo_drain ip mac (tx_max - length (tx @ [?w])) (map (arp_ent ?q) es) = (left, sent')"
      unfolding same by (auto simp: arp_ent_def [of q e] split: prod.splits)
    moreover from Cons.prems(1) have "arp_wf_with es L F cap ?q"
      by (auto simp: arp_wf_with_def arp_entry_put_def arp_poolD(3) [OF c])
    ultimately show ?thesis using Cons.IH same by fastforce
  next
    case False
    obtain r b where enq: "ring_enqueue (aq_ring_ops D) (aq_ring q) e = (r, b)" by fastforce
    from Cons.prems(1) have "length (L (aq_ring q)) < cap" by (simp add: arp_wf_with_def)
    with arp_ringD(1) [OF c enq] have ring: "b" "L r = L (aq_ring q) @ [e]" by auto
    let ?q = "q\<lparr>aq_ring := r\<rparr>"
    have same: "arp_ent ?q = arp_ent q" "arp_waiting L ?q = arp_waiting L q @ [arp_ent q e]"
      using ring by (auto simp: arp_ent_def arp_waiting_def fun_eq_iff)
    from False ring enq Cons.prems(2) have "fold (arp_drain_entry D ip mac tx_max) es (?q, tx) = (q', tx')"
      by (auto simp: arp_drain_entry_def [of D ip mac tx_max e] Let_def)
    moreover from False Cons.prems(3) obtain left' where "left = arp_ent q e # left'"
        "fifo_drain ip mac (tx_max - length tx) (map (arp_ent ?q) es) = (left', sent)"
      unfolding same by (auto simp: arp_ent_def [of q e] split: prod.splits if_splits)
    moreover from Cons.prems(1) ring have "arp_wf_with es L F cap ?q"
      by (auto simp: arp_wf_with_def ac_simps)
    ultimately show ?thesis using Cons.IH [of ?q tx left' sent] same by simp
  qed
qed (simp add: arp_waiting_def)

lemma drain_refines:
  assumes c: "arp_contract D L F cap" and wf: "arp_wf L F cap q"
    and run: "arp_pending_drain D ip mac tx_max (q, tx) = (q', tx')"
  shows "arp_wf L F cap q' \<and> aq_freed q' = aq_freed q \<and>
    (arp_waiting L q', tx') = map_prod id ((@) tx) (fifo_drain ip mac (tx_max - length tx) (arp_waiting L q))"
proof -
  obtain batch r where burst: "ring_dequeue_burst (aq_ring_ops D) ARP_PENDING_QUEUE_SIZE (aq_ring q) = (batch, r)" by fastforce
  have "batch = L (aq_ring q)" "L r = []"
    using dequeue_burst [OF c _ burst] wf arp_cap [OF c] by (auto simp: arp_wf_with_def)
  obtain left sent where spec: "fifo_drain ip mac (tx_max - length tx) (arp_waiting L q) = (left, sent)" by fastforce
  let ?q = "q\<lparr>aq_ring := r\<rparr>"
  have "arp_wf_with batch L F cap ?q"
    using wf \<open>batch = _\<close> \<open>L r = []\<close> by (simp add: arp_wf_with_def)
  moreover have "fold (arp_drain_entry D ip mac tx_max) batch (?q, tx) = (q', tx')"
    using run burst wf by (simp add: arp_pending_drain_def arp_wf_with_def)
  moreover have "fifo_drain ip mac (tx_max - length tx) (map (arp_ent ?q) batch) = (left, sent)"
    using spec \<open>batch = _\<close> by (simp add: arp_waiting_def arp_ent_def [abs_def])
  ultimately have "arp_wf L F cap q' \<and> arp_waiting L q' = arp_waiting L ?q @ left \<and> tx' = tx @ sent \<and> aq_freed q' = aq_freed ?q"
    by (rule drain_fold [OF c])
  with spec \<open>L r = []\<close> show ?thesis by (simp add: arp_waiting_def)
qed

lemma flush_refines:
  assumes c: "arp_contract D L F cap" and wf: "arp_wf L F cap q"
  shows "\<exists>q'. arp_pending_flush D q = Some q' \<and> arp_wf L F cap q' \<and> arp_waiting L q' = [] \<and>
    aq_freed q' = aq_freed q @ map (mb_id \<circ> fst) (arp_waiting L q)"
proof -
  have "\<exists>q'. arp_flush_loop D q = Some q' \<and> arp_wf L F cap q' \<and> arp_waiting L q' = [] \<and>
    aq_freed q' = aq_freed q @ map (mb_id \<circ> fst) (arp_waiting L q)"
    using wf
  proof (induction "L (aq_ring q)" arbitrary: q)
    case Nil
    obtain r x where deq: "ring_dequeue (aq_ring_ops D) (aq_ring q) = (r, x)" by fastforce
    with arp_dequeueD(1) [OF c deq] Nil have "x = None" "L r = []" by auto
    with deq Nil show ?case by (auto simp: arp_flush_loop.simps [of D q] arp_wf_with_def arp_waiting_def)
  next
    case (Cons e es)
    obtain r x where deq: "ring_dequeue (aq_ring_ops D) (aq_ring q) = (r, x)" by fastforce
    with arp_dequeueD(2) [OF c deq Cons.hyps(2) [symmetric]] have x: "x = Some e" "L r = es" by auto
    from Cons.prems Cons.hyps(2) obtain b where b: "ap_mbuf (aq_mem q e) = Some b"
      by (metis arp_wf_with_def UnI1 list.set_intros(1) not_None_eq)
    let ?q = "arp_entry_put D e (pktmbuf_free (ap_mbuf (aq_mem q e)) (q\<lparr>aq_ring := r\<rparr>))"
    have "arp_wf L F cap ?q"
      using Cons.prems x Cons.hyps(2) [symmetric] by (auto simp: arp_wf_with_def arp_entry_put_def pktmbuf_free_def b arp_poolD(3) [OF c])
    moreover have "es = L (aq_ring ?q)" using x by (simp add: arp_entry_put_def pktmbuf_free_def b)
    ultimately obtain q' where q': "arp_flush_loop D ?q = Some q'" "arp_wf L F cap q'" "arp_waiting L q' = []"
        "aq_freed q' = aq_freed ?q @ map (mb_id \<circ> fst) (arp_waiting L ?q)"
      using Cons.hyps(1) by blast
    moreover have "aq_freed ?q @ map (mb_id \<circ> fst) (arp_waiting L ?q) = aq_freed q @ map (mb_id \<circ> fst) (arp_waiting L q)"
      using x Cons.hyps(2) [symmetric] by (simp add: arp_entry_put_def pktmbuf_free_def b arp_waiting_def arp_ent_def)
    ultimately show ?case using deq x by (simp add: arp_flush_loop.simps [of D q])
  qed
  with wf show ?thesis by (simp add: arp_pending_flush_def arp_wf_with_def)
qed

section \<open>Histories\<close>

text \<open>
  A history of the queue: what is offered to it, the replies that drain it, and flushes. The history
  keeps the packets sent and the packets whose enqueue returned \<open>ERROR\<close>, which stay with the caller.
  Another subscriber may take or return pool entries between two steps.
\<close>

datatype 'm arp_op = ArpEnqueue mbuf u32 u16 | ArpDrain u32 "u8 list" | ArpFlush | ArpOther 'm

record ('r, 'm) arp_hist =
  ah_queue :: "('r, 'm) arp_queue"
  ah_sent :: "(mbuf \<times> u16) list"
  ah_refused :: "mbuf list"

fun arp_step :: "('r, 'm) arp_dpdk \<Rightarrow> 'm arp_op \<Rightarrow> ('r, 'm) arp_hist \<Rightarrow> ('r, 'm) arp_hist option" where
  "arp_step D (ArpEnqueue mb ip txq) h =
     (case arp_pending_enqueue D mb ip txq (ah_queue h) of
        (SUCCESS, q) \<Rightarrow> Some (h\<lparr>ah_queue := q\<rparr>)
      | (ERROR, q) \<Rightarrow> Some (h\<lparr>ah_queue := q, ah_refused := ah_refused h @ [mb]\<rparr>))"
| "arp_step D (ArpDrain ip mac) h =
     (case arp_pending_drain D ip mac ARP_PENDING_QUEUE_SIZE (ah_queue h, []) of
        (q, tx) \<Rightarrow> Some (h\<lparr>ah_queue := q, ah_sent := ah_sent h @ tx\<rparr>))"
| "arp_step D ArpFlush h = map_option (\<lambda>q. h\<lparr>ah_queue := q\<rparr>) (arp_pending_flush D (ah_queue h))"
| "arp_step D (ArpOther m) h = Some (h\<lparr>ah_queue := (ah_queue h)\<lparr>aq_pool := m\<rparr>\<rparr>)"

fun arp_run :: "('r, 'm) arp_dpdk \<Rightarrow> 'm arp_op list \<Rightarrow> ('r, 'm) arp_hist \<Rightarrow> ('r, 'm) arp_hist option" where
  "arp_run D [] h = Some h"
| "arp_run D (x # xs) h = (case arp_step D x h of None \<Rightarrow> None | Some h' \<Rightarrow> arp_run D xs h')"

text \<open>What the other subscribers do keeps their hands off this queue's entries.\<close>

fun arp_fair :: "('r, 'm) arp_dpdk \<Rightarrow> ('r \<Rightarrow> nat list) \<Rightarrow> ('m \<Rightarrow> nat multiset) \<Rightarrow> 'm arp_op list \<Rightarrow> ('r, 'm) arp_hist \<Rightarrow> bool" where
  "arp_fair D L F [] h \<longleftrightarrow> True"
| "arp_fair D L F (x # xs) h \<longleftrightarrow>
     (case x of ArpOther m \<Rightarrow> once (mset (L (aq_ring (ah_queue h))) + F m) | _ \<Rightarrow> True) \<and>
     (case arp_step D x h of None \<Rightarrow> True | Some h' \<Rightarrow> arp_fair D L F xs h')"

fun offered :: "'m arp_op list \<Rightarrow> nat list" where
  "offered [] = []"
| "offered (ArpEnqueue mb ip txq # xs) = mb_id mb # offered xs"
| "offered (_ # xs) = offered xs"

definition arp_owned :: "('r \<Rightarrow> nat list) \<Rightarrow> ('r, 'm) arp_hist \<Rightarrow> nat multiset" where
  "arp_owned L h = mset (map (mb_id \<circ> fst) (arp_waiting L (ah_queue h))) + mset (aq_freed (ah_queue h)) +
     mset (map (mb_id \<circ> fst) (ah_sent h)) + mset (map mb_id (ah_refused h))"

lemma fifo_enqueue_ids:
  assumes "fifo_enqueue cap w ws = (ws', evicted)" and "length ws < cap \<or> ws \<noteq> []"
  shows "mset (map (mb_id \<circ> fst) ws') + mset (map (mb_id \<circ> fst) evicted) = add_mset (mb_id (fst w)) (mset (map (mb_id \<circ> fst) ws))"
  using assms by (cases ws) (auto simp: fifo_enqueue_def split: if_splits)

lemma arp_step_owned:
  assumes c: "arp_contract D L F cap" and wf: "arp_wf L F cap (ah_queue h)"
    and fair: "case x of ArpOther m \<Rightarrow> once (mset (L (aq_ring (ah_queue h))) + F m) | _ \<Rightarrow> True"
  shows "\<exists>h'. arp_step D x h = Some h' \<and> arp_wf L F cap (ah_queue h') \<and> arp_owned L h' = arp_owned L h + mset (offered [x])"
proof (cases x)
  case (ArpEnqueue mb ip txq)
  obtain st q' where enq: "arp_pending_enqueue D mb ip txq (ah_queue h) = (st, q')" by fastforce
  obtain ws ev where spec: "fifo_enqueue cap (mb, ip, txq) (arp_waiting L (ah_queue h)) = (ws, ev)" by fastforce
  have "length (arp_waiting L (ah_queue h)) < cap \<or> arp_waiting L (ah_queue h) \<noteq> []" using arp_cap [OF c] by auto
  note ids = fifo_enqueue_ids [OF spec this]
  note r = enqueue_refines [OF c wf enq]
  show ?thesis
  proof (cases "F (aq_pool (ah_queue h)) = {#}")
    case True
    from r(1) r(2) [OF True] enq ArpEnqueue show ?thesis by (auto simp: arp_owned_def)
  next
    case False
    with r(3) [OF False] spec have eff: "st = SUCCESS" "arp_waiting L q' = ws"
        "aq_freed q' = aq_freed (ah_queue h) @ map (mb_id \<circ> fst) ev" by simp_all
    have "arp_owned L (h\<lparr>ah_queue := q'\<rparr>) = (mset (map (mb_id \<circ> fst) ws) + mset (map (mb_id \<circ> fst) ev)) +
        mset (aq_freed (ah_queue h)) + mset (map (mb_id \<circ> fst) (ah_sent h)) + mset (map mb_id (ah_refused h))"
      by (simp add: arp_owned_def eff)
    also have "\<dots> = arp_owned L h + mset (offered [x])"
      unfolding ids by (simp add: arp_owned_def ArpEnqueue)
    finally show ?thesis using r(1) eff enq ArpEnqueue by simp
  qed
next
  case (ArpDrain ip mac)
  obtain q' tx where run: "arp_pending_drain D ip mac ARP_PENDING_QUEUE_SIZE (ah_queue h, []) = (q', tx)" by fastforce
  obtain left sent where spec: "fifo_drain ip mac ARP_PENDING_QUEUE_SIZE (arp_waiting L (ah_queue h)) = (left, sent)" by fastforce
  from drain_refines [OF c wf run] spec
  have "arp_wf L F cap q'" "aq_freed q' = aq_freed (ah_queue h)" "arp_waiting L q' = left" "tx = sent" by simp_all
  with fifo_drain_ids [OF spec] run ArpDrain show ?thesis by (simp add: arp_owned_def)
next
  case ArpFlush
  with flush_refines [OF c wf] show ?thesis by (auto simp: arp_owned_def)
next
  case (ArpOther m)
  with wf fair show ?thesis by (auto simp: arp_owned_def arp_wf_with_def arp_waiting_def arp_ent_def [abs_def])
qed

lemma arp_run_owned:
  assumes c: "arp_contract D L F cap"
  shows "arp_wf L F cap (ah_queue h) \<Longrightarrow> arp_fair D L F xs h \<Longrightarrow>
    \<exists>h'. arp_run D xs h = Some h' \<and> arp_wf L F cap (ah_queue h') \<and> arp_owned L h' = arp_owned L h + mset (offered xs)"
proof (induction xs arbitrary: h)
  case (Cons x xs)
  from Cons.prems(2) have "case x of ArpOther m \<Rightarrow> once (mset (L (aq_ring (ah_queue h))) + F m) | _ \<Rightarrow> True" by simp
  from arp_step_owned [OF c Cons.prems(1) this]
  obtain h1 where h1: "arp_step D x h = Some h1" "arp_wf L F cap (ah_queue h1)" "arp_owned L h1 = arp_owned L h + mset (offered [x])"
    by blast
  with Cons.prems(2) have "arp_fair D L F xs h1" by simp
  from Cons.IH [OF h1(2) this] obtain h' where
    "arp_run D xs h1 = Some h'" "arp_wf L F cap (ah_queue h')" "arp_owned L h' = arp_owned L h1 + mset (offered xs)" by blast
  with h1 show ?case by (cases x) auto
qed simp

section \<open>Properties of the queue\<close>

text \<open>
  C21: whatever packets are offered, whatever replies drain the queue and whenever it is flushed, every
  operation returns and every packet has one owner: it waits, was freed, was sent, or was refused to
  the caller, exactly once. In particular packets with distinct identities are never freed twice and
  never both sent and freed.
\<close>

theorem arp_packet_one_owner:
  assumes "arp_contract D L F cap" and "arp_wf L F cap q" and "arp_waiting L q = []" and "aq_freed q = []"
    and "arp_fair D L F xs \<lparr>ah_queue = q, ah_sent = [], ah_refused = []\<rparr>"
  shows "\<exists>h. arp_run D xs \<lparr>ah_queue = q, ah_sent = [], ah_refused = []\<rparr> = Some h \<and>
    mset (offered xs) = mset (map (mb_id \<circ> fst) (arp_waiting L (ah_queue h))) + mset (aq_freed (ah_queue h)) +
      mset (map (mb_id \<circ> fst) (ah_sent h)) + mset (map mb_id (ah_refused h))"
  using arp_run_owned [OF assms(1), of "\<lparr>ah_queue = q, ah_sent = [], ah_refused = []\<rparr>" xs] assms(2-5)
  by (auto simp: arp_owned_def)

text \<open>
  C20: the pending queue is a bounded first-in first-out buffer. Enqueueing fails only when the pool is
  empty, and then changes nothing; a full queue frees its oldest packet to take the new one. A reply
  for an address takes out the packets that wait for it, in order and with the MAC written in, and
  leaves the others in order; flushing ends and frees every packet.
\<close>

theorem arp_queue_refines_fifo:
  assumes "arp_contract D L F cap" and "arp_wf L F cap q"
    and "arp_pending_enqueue D mb ip txq q = (st, qe)"
    and "arp_pending_drain D ip mac ARP_PENDING_QUEUE_SIZE (q, []) = (qd, tx)"
  shows "(if F (aq_pool q) = {#} then st = ERROR \<and> arp_waiting L qe = arp_waiting L q \<and> aq_freed qe = aq_freed q
       else st = SUCCESS \<and> arp_waiting L qe = fst (fifo_enqueue cap (mb, ip, txq) (arp_waiting L q)) \<and>
         aq_freed qe = aq_freed q @ map (mb_id \<circ> fst) (snd (fifo_enqueue cap (mb, ip, txq) (arp_waiting L q)))) \<and>
    arp_waiting L qd = filter (\<lambda>w. fst (snd w) \<noteq> ip) (arp_waiting L q) \<and>
    tx = map (\<lambda>w. (set_dst_mac mac (fst w), snd (snd w))) (filter (\<lambda>w. fst (snd w) = ip) (arp_waiting L q)) \<and>
    aq_freed qd = aq_freed q \<and>
    map_option (\<lambda>qf. (arp_waiting L qf, aq_freed qf)) (arp_pending_flush D q) =
      Some ([], aq_freed q @ map (mb_id \<circ> fst) (arp_waiting L q))"
proof -
  have "length (arp_waiting L q) \<le> ARP_PENDING_QUEUE_SIZE - length []"
    using assms(2) arp_cap [OF assms(1)] by (simp add: arp_waiting_def arp_wf_with_def)
  note all = fifo_drain_all [OF this]
  show ?thesis
    using enqueue_refines [OF assms(1-3)] drain_refines [OF assms(1,2,4)] flush_refines [OF assms(1,2)] all
    by (auto split: prod.splits)
qed

section \<open>A pool and a ring\<close>

definition list_pool :: "nat list rte_mempool" where
  "list_pool = \<lparr>mp_get = (\<lambda>m. case m of [] \<Rightarrow> ([], None) | e # m' \<Rightarrow> (m', Some e)), mp_put = (\<lambda>m e. e # m)\<rparr>"

definition list_arp :: "nat \<Rightarrow> (nat list, nat list) arp_dpdk" where
  "list_arp cap = \<lparr>aq_ring_ops = list_ring cap, aq_pool_ops = list_pool\<rparr>"

lemma list_arp_contract: "0 < cap \<Longrightarrow> cap < 64 \<Longrightarrow> arp_contract (list_arp cap) id mset cap"
  using list_ring_contract [of cap]
  by (auto simp: arp_contract_def bounded_ring_contract_def rte_mempool_contract_def list_arp_def list_pool_def list_ring_def
      split: list.splits if_splits)

text \<open>A ring of two, three pool entries, and four packets for two hosts.\<close>

definition arp_demo_queue :: "(nat list, nat list) arp_queue" where
  "arp_demo_queue = \<lparr>aq_ready = True, aq_ring = [], aq_pool = [0, 1, 2], aq_mem = (\<lambda>e. \<lparr>ap_mbuf = None, ap_target_ip = 0, ap_tx_queue = 0\<rparr>),
     aq_freed = []\<rparr>"

definition demo_mbuf :: "nat \<Rightarrow> mbuf" where
  "demo_mbuf i = \<lparr>mb_id = i, mb_data = replicate 14 0\<rparr>"

definition arp_demo_ops :: "nat list arp_op list" where
  "arp_demo_ops = [ArpEnqueue (demo_mbuf 10) 1 0, ArpEnqueue (demo_mbuf 11) 2 1, ArpEnqueue (demo_mbuf 12) 1 2,
     ArpDrain 1 [2, 0, 0, 0, 0, 9], ArpOther [], ArpEnqueue (demo_mbuf 13) 1 0, ArpFlush]"

definition arp_demo_start :: "(nat list, nat list) arp_hist" where
  "arp_demo_start = \<lparr>ah_queue = arp_demo_queue, ah_sent = [], ah_refused = []\<rparr>"

lemma once_distinct: "once (mset xs) \<longleftrightarrow> distinct xs"
proof
  show "once (mset xs) \<Longrightarrow> distinct xs"
  proof (induction xs)
    case (Cons x xs)
    with once_add [of x "mset xs"] show ?case by simp
  qed simp
  show "distinct xs \<Longrightarrow> once (mset xs)" by (simp add: once_def distinct_count_atmost_1)
qed

lemma arp_demo_wf: "arp_wf id mset 2 arp_demo_queue"
  using once_distinct [of "[0, 1, 2]"] by (simp add: arp_wf_with_def arp_demo_queue_def)

lemma arp_demo_fair: "arp_fair (list_arp 2) id mset arp_demo_ops arp_demo_start"
  using once_distinct [of "[1]"] by (simp add: arp_demo_ops_def arp_demo_start_def arp_demo_queue_def arp_pending_enqueue_def
      arp_pending_drain_def arp_drain_entry_def list_arp_def list_pool_def list_ring_def arp_entry_put_def pktmbuf_free_def
      numeral_eq_Suc Let_def arp_pending_flush_def arp_flush_loop.simps)

theorem arp_packet_one_owner_witness:
  "\<exists>h. arp_run (list_arp 2) arp_demo_ops \<lparr>ah_queue = arp_demo_queue, ah_sent = [], ah_refused = []\<rparr> = Some h \<and>
    {#10, 11, 12, 13#} = mset (map (mb_id \<circ> fst) (arp_waiting id (ah_queue h))) + mset (aq_freed (ah_queue h)) +
      mset (map (mb_id \<circ> fst) (ah_sent h)) + mset (map mb_id (ah_refused h))"
proof -
  have "offered arp_demo_ops = [10, 11, 12, 13]" by (simp add: arp_demo_ops_def demo_mbuf_def)
  then show ?thesis
    using arp_packet_one_owner [OF list_arp_contract [of 2] arp_demo_wf _ _ arp_demo_fair [unfolded arp_demo_start_def]]
    by (simp add: arp_demo_queue_def arp_waiting_def)
qed

text \<open>Two packets wait; a third arrives for the first one's host, or a reply for that host.\<close>

definition arp_demo_full :: "(nat list, nat list) arp_queue" where
  "arp_demo_full = snd (arp_pending_enqueue (list_arp 2) (demo_mbuf 11) 2 1
     (snd (arp_pending_enqueue (list_arp 2) (demo_mbuf 10) 1 0 arp_demo_queue)))"

lemma arp_demo_full_wf: "arp_wf id mset 2 arp_demo_full"
proof -
  have "arp_wf id mset 2 (snd (arp_pending_enqueue (list_arp 2) (demo_mbuf 10) 1 0 arp_demo_queue))"
    by (rule enqueue_refines(1) [OF list_arp_contract arp_demo_wf prod.collapse [symmetric]]) simp_all
  then show ?thesis
    unfolding arp_demo_full_def
    by (rule enqueue_refines(1) [OF list_arp_contract _ prod.collapse [symmetric], rotated 2]) simp_all
qed

theorem arp_queue_refines_fifo_witness:
  "fst (arp_pending_enqueue (list_arp 2) (demo_mbuf 12) 1 0 arp_demo_full) = SUCCESS \<and>
   aq_freed (snd (arp_pending_enqueue (list_arp 2) (demo_mbuf 12) 1 0 arp_demo_full)) = [10] \<and>
   snd (arp_pending_drain (list_arp 2) 1 [2, 0, 0, 0, 0, 9] ARP_PENDING_QUEUE_SIZE (arp_demo_full, [])) =
     [(set_dst_mac [2, 0, 0, 0, 0, 9] (demo_mbuf 10), 0)] \<and>
   map_option aq_freed (arp_pending_flush (list_arp 2) arp_demo_full) = Some [10, 11]"
proof -
  have q: "arp_waiting id arp_demo_full = [(demo_mbuf 10, 1, 0), (demo_mbuf 11, 2, 1)]" "aq_freed arp_demo_full = []"
      "aq_pool arp_demo_full = [2]"
    by (simp_all add: arp_demo_full_def arp_demo_queue_def arp_pending_enqueue_def list_arp_def list_pool_def list_ring_def
        arp_waiting_def arp_ent_def)
  from arp_queue_refines_fifo [OF list_arp_contract [of 2] arp_demo_full_wf prod.collapse [symmetric] prod.collapse [symmetric],
      of "demo_mbuf 12" 1 0 "[2, 0, 0, 0, 0, 9]"]
  show ?thesis by (auto simp: q fifo_enqueue_def demo_mbuf_def)
qed

section \<open>The request\<close>

text \<open>The request is 46 bytes; its target address sits in the last four, so a host can read it back.\<close>

theorem arp_request_layout:
  assumes "length src_mac = 6"
  shows "length (encode_arp_request arp ip4 src_mac src_ip target_ip vlan) = 46"
    and "take 6 (encode_arp_request arp ip4 src_mac src_ip target_ip vlan) = replicate 6 0xFF"
    and "drop 42 (encode_arp_request arp ip4 src_mac src_ip target_ip vlan) = host32_bytes target_ip"
  using assms by (simp_all add: encode_arp_request_def be16_bytes_def host32_bytes_def)

end
