(* ===== verification/Nd6.thy ===== *)
theory Nd6
  imports Mac_Table Dhcp6 Ppp_Codec
begin

text \<open>
  IPv6 neighbour discovery on the LAN (\<^verbatim>\<open>src/src/nd6/nd6.c\<close>, \<^verbatim>\<open>nd6.h\<close>, \<^verbatim>\<open>nd6_table.h\<close>): the neighbour cache,
  the messages the gateway builds, the option parser, the handlers of received messages and of
  unresolved destinations, and the periodic sweep that ages the cache. Starting and stopping the
  advertisement timer is in \<open>Dhcp6\<close>.

  Frames are byte lists; a builder returns the bytes it reports as the frame's length, its 256-byte
  buffer being zero before it writes. Subscriber \<open>i\<close> is element \<open>i\<close> of the list the control block holds.
\<close>

section \<open>Constants\<close>

abbreviation ND6_NEIGHBOR_TTL_SEC :: u64 where "ND6_NEIGHBOR_TTL_SEC \<equiv> 300"
abbreviation ND6_RS_RA_MIN_DELAY_SEC :: u64 where "ND6_RS_RA_MIN_DELAY_SEC \<equiv> 3"
abbreviation ND6_ROUTER_LIFETIME_SEC :: u16 where "ND6_ROUTER_LIFETIME_SEC \<equiv> 1800"
abbreviation ND6_RDNSS_LIFETIME_SEC :: u32 where "ND6_RDNSS_LIFETIME_SEC \<equiv> 1800"
abbreviation ND6_PREFIX_VALID_SEC :: u32 where "ND6_PREFIX_VALID_SEC \<equiv> 86400"
abbreviation ND6_PREFIX_PREFERRED_SEC :: u32 where "ND6_PREFIX_PREFERRED_SEC \<equiv> 43200"
abbreviation ND6_RA_CUR_HOP_LIMIT :: u8 where "ND6_RA_CUR_HOP_LIMIT \<equiv> 64"
abbreviation ND6_PACKET_MAX_LEN :: nat where "ND6_PACKET_MAX_LEN \<equiv> 256"
abbreviation ND6_ICMP_RS :: u8 where "ND6_ICMP_RS \<equiv> 133"
abbreviation ND6_ICMP_RA :: u8 where "ND6_ICMP_RA \<equiv> 134"
abbreviation ND6_ICMP_NS :: u8 where "ND6_ICMP_NS \<equiv> 135"
abbreviation ND6_ICMP_NA :: u8 where "ND6_ICMP_NA \<equiv> 136"
abbreviation ND6_OPT_SLLA :: u8 where "ND6_OPT_SLLA \<equiv> 1"
abbreviation ND6_OPT_TLLA :: u8 where "ND6_OPT_TLLA \<equiv> 2"
abbreviation ND6_OPT_PREFIX_INFO :: u8 where "ND6_OPT_PREFIX_INFO \<equiv> 3"
abbreviation ND6_OPT_RDNSS :: u8 where "ND6_OPT_RDNSS \<equiv> 25"
abbreviation ND6_NA_FLAG_ROUTER :: u32 where "ND6_NA_FLAG_ROUTER \<equiv> 0x80000000"
abbreviation ND6_NA_FLAG_SOLICITED :: u32 where "ND6_NA_FLAG_SOLICITED \<equiv> 0x40000000"
abbreviation ND6_NA_FLAG_OVERRIDE :: u32 where "ND6_NA_FLAG_OVERRIDE \<equiv> 0x20000000"
abbreviation VLAN :: u16 where "VLAN \<equiv> 0x8100"
abbreviation FRAME_TYPE_IPV6 :: u16 where "FRAME_TYPE_IPV6 \<equiv> 0x86DD"

section \<open>The neighbour cache\<close>

text \<open>\<open>nt_rcu\<close>: a defer queue is attached. The two arrays are indexed by hash position.\<close>

record 'h nd6_table =
  nt_hash :: 'h
  nt_rcu :: bool
  nt_generation :: u16
  nt_learn_fail :: u64
  nt_slot_count :: nat
  nt_last_seen :: "u64 list"
  nt_probed :: "u8 list"

text \<open>
  Allocation. The arguments are what the calls return: the memory, the hash, the attachment of the
  defer queue if one is wanted, the largest position, and the two arrays.
\<close>

definition nd6_table_alloc :: "bool \<Rightarrow> 'h option \<Rightarrow> bool option \<Rightarrow> nat option \<Rightarrow> bool \<Rightarrow> 'h nd6_table option" where
  "nd6_table_alloc calloc_ok hash_create rcu_add max_key_id arrays_ok =
     (if \<not> calloc_ok then None
      else case hash_create of None \<Rightarrow> None
        | Some h \<Rightarrow>
            if rcu_add = Some False then None
            else case max_key_id of None \<Rightarrow> None
              | Some m \<Rightarrow>
                  if \<not> arrays_ok then None
                  else Some \<lparr>nt_hash = h, nt_rcu = (rcu_add \<noteq> None), nt_generation = 0, nt_learn_fail = 0,
                         nt_slot_count = m + 1, nt_last_seen = replicate (m + 1) 0, nt_probed = replicate (m + 1) 0\<rparr>)"

definition nd6_table_lookup :: "('h, u8 list) data_hash \<Rightarrow> 'h nd6_table option \<Rightarrow> u8 list \<Rightarrow> u8 list option" where
  "nd6_table_lookup H table ipv6 =
     (case table of None \<Rightarrow> None
      | Some t \<Rightarrow> (case dh_lookup H (nt_hash t) ipv6 of None \<Rightarrow> None
          | Some (position, data) \<Rightarrow> (case mac_table_unpack data of (mac, generation) \<Rightarrow>
              if generation \<noteq> nt_generation t then None else Some mac)))"

definition nd6_table_reset :: "'h nd6_table option \<Rightarrow> 'h nd6_table option" where
  "nd6_table_reset table =
     map_option (\<lambda>t. t\<lparr>nt_generation := nt_generation t + 1, nt_learn_fail := 0\<rparr>) table"

definition nd6_table_reclaim :: "('h, u8 list) data_hash \<Rightarrow> 'h nd6_table \<Rightarrow> 'h nd6_table" where
  "nd6_table_reclaim H t = (if \<not> nt_rcu t then t else t\<lparr>nt_hash := dh_reclaim H (nt_hash t)\<rparr>)"

text \<open>A negative position is \<open>None\<close>.\<close>

definition nd6_table_touch :: "clock \<Rightarrow> nat option \<Rightarrow> 'h nd6_table \<Rightarrow> 'h nd6_table" where
  "nd6_table_touch clk position t =
     (case position of None \<Rightarrow> t
      | Some p \<Rightarrow>
          if nt_slot_count t \<le> p then t
          else t\<lparr>nt_last_seen := (nt_last_seen t)[p := cur_cycles clk], nt_probed := (nt_probed t)[p := 0]\<rparr>)"

definition nd6_table_learn ::
  "('h, u8 list) data_hash \<Rightarrow> clock \<Rightarrow> u8 list \<Rightarrow> u8 list \<Rightarrow> 'h nd6_table option \<Rightarrow> 'h nd6_table option" where
  "nd6_table_learn H clk ipv6 mac table =
     (case table of None \<Rightarrow> None
      | Some t \<Rightarrow>
          let packed = mac_table_pack mac (nt_generation t);
              touch = (\<lambda>t. nd6_table_touch clk (map_option fst (dh_lookup H (nt_hash t) ipv6)) t)
          in if map_option snd (dh_lookup H (nt_hash t) ipv6) = Some packed then Some (touch t)
             else case dh_add H (nt_hash t) ipv6 packed of
               (h, True) \<Rightarrow> Some (touch (t\<lparr>nt_hash := h\<rparr>))
             | (h, False) \<Rightarrow>
                 let t = nd6_table_reclaim H (t\<lparr>nt_hash := h\<rparr>)
                 in case dh_add H (nt_hash t) ipv6 packed of
                      (h, True) \<Rightarrow> Some (touch (t\<lparr>nt_hash := h\<rparr>))
                    | (h, False) \<Rightarrow> Some (t\<lparr>nt_hash := h, nt_learn_fail := nt_learn_fail t + 1\<rparr>))"

section \<open>Addresses\<close>

definition nd6_src_is_on_link :: "ppp_ccb \<Rightarrow> u8 list \<Rightarrow> bool" where
  "nd6_src_is_on_link st src_ip =
     (if src_ip ! 0 = 0xff then False
      else if src_ip ! 0 = 0xfe \<and> src_ip ! 1 AND 0xc0 = 0x80 then True
      else take 8 src_ip = take 8 (hsi_ipv6_lan_prefix (dhcp6 st)))"

definition nd6_addr_is_zero :: "u8 list \<Rightarrow> bool" where
  "nd6_addr_is_zero addr \<longleftrightarrow> fold (\<lambda>i value. value OR addr ! i) [0..<16] 0 = 0"

definition nd6_all_nodes :: "u8 list" where
  "nd6_all_nodes = [0xff, 0x02] @ replicate 13 0 @ [0x01]"

definition nd6_multicast_mac :: "u8 list \<Rightarrow> u8 list" where
  "nd6_multicast_mac addr = [0x33, 0x33] @ take 4 (drop 12 addr)"

definition nd6_solicited_node_addr :: "u8 list \<Rightarrow> u8 list" where
  "nd6_solicited_node_addr target =
     [0xff, 0x02] @ replicate 9 0 @ [0x01, 0xff, target ! 13, target ! 14, target ! 15]"

definition nd6_gateway_link_local :: "u8 list \<Rightarrow> u8 list" where
  "nd6_gateway_link_local mac =
     [0xfe, 0x80] @ replicate 6 0 @ [mac ! 0 XOR 0x02, mac ! 1, mac ! 2, 0xff, 0xfe, mac ! 3, mac ! 4, mac ! 5]"

section \<open>Messages\<close>

text \<open>
  What a handler is given besides the frame: the clock, the LAN port's MAC address, and three functions
  of DPDK: the checksum of an IPv6 header and payload, its verification, and the version check.
\<close>

record nd6_env =
  nd_clock :: clock
  nd_lan_mac :: "u8 list"
  nd_cksum :: "u8 list \<Rightarrow> u8 list \<Rightarrow> u16"
  nd_cksum_ok :: "u8 list \<Rightarrow> u8 list \<Rightarrow> bool"
  nd_version_ok :: "u8 list \<Rightarrow> bool"

abbreviation "net16 x \<equiv> be_bytes16 (rte_cpu_to_be_16 x)"
abbreviation "net32 x \<equiv> be_bytes32 (rte_cpu_to_be_32 x)"

definition nd6_build_l2 :: "nd6_env \<Rightarrow> ppp_ccb \<Rightarrow> u8 list \<Rightarrow> u8 list" where
  "nd6_build_l2 env st dst_mac =
     dst_mac @ nd_lan_mac env @ net16 VLAN @ net16 (vlan_id st AND 0x0fff) @ net16 FRAME_TYPE_IPV6"

definition nd6_build_ip6 :: "nd6_env \<Rightarrow> u8 list \<Rightarrow> nat \<Rightarrow> u8 list" where
  "nd6_build_ip6 env dst_ip payload_len =
     net32 (push_bit 28 6) @ net16 (of_nat payload_len) @ [IPPROTO_ICMPV6, 255] @
     nd6_gateway_link_local (nd_lan_mac env) @ dst_ip"

text \<open>
  The frame around a message: \<open>body c\<close> is the message with \<open>c\<close> in its checksum field; the checksum is
  computed over the message with zero there.
\<close>

definition nd6_frame :: "nd6_env \<Rightarrow> ppp_ccb \<Rightarrow> u8 list \<Rightarrow> u8 list \<Rightarrow> (u16 \<Rightarrow> u8 list) \<Rightarrow> u8 list" where
  "nd6_frame env st dst_mac dst_ip body =
     (let ip6 = nd6_build_ip6 env dst_ip (length (body 0))
      in nd6_build_l2 env st dst_mac @ ip6 @ body (nd_cksum env ip6 (body 0)))"

definition nd6_ll_option :: "u8 \<Rightarrow> u8 list \<Rightarrow> u8 list" where
  "nd6_ll_option ty mac = [ty, 1] @ mac"

definition nd6_rdnss_option :: "ppp_ccb \<Rightarrow> u8 list" where
  "nd6_rdnss_option st =
     (let dns = filter (\<lambda>a. \<not> nd6_addr_is_zero a) (take 2 (hsi_ipv6_dns (dhcp6 st)))
      in if dns = [] then []
         else [ND6_OPT_RDNSS, 1 + 2 * of_nat (length dns), 0, 0] @ net32 ND6_RDNSS_LIFETIME_SEC @ concat dns)"

definition nd6_ra_options :: "nd6_env \<Rightarrow> ppp_ccb \<Rightarrow> u8 list" where
  "nd6_ra_options env st =
     [ND6_OPT_PREFIX_INFO, 4, 64, 0xc0] @ net32 ND6_PREFIX_VALID_SEC @ net32 ND6_PREFIX_PREFERRED_SEC @
     replicate 4 0 @ hsi_ipv6_lan_prefix (dhcp6 st) @
     nd6_rdnss_option st @
     nd6_ll_option ND6_OPT_SLLA (nd_lan_mac env)"

definition nd6_build_ra :: "nd6_env \<Rightarrow> ppp_ccb \<Rightarrow> u8 list option" where
  "nd6_build_ra env st =
     (if \<not> nd6_gate_ready st then None
      else Some (nd6_frame env st (nd6_multicast_mac nd6_all_nodes) nd6_all_nodes
        (\<lambda>c. [ND6_ICMP_RA, 0] @ be_bytes16 c @ [ND6_RA_CUR_HOP_LIMIT, 0] @ net16 ND6_ROUTER_LIFETIME_SEC @
             replicate 8 0 @ nd6_ra_options env st)))"

definition nd6_build_na :: "nd6_env \<Rightarrow> ppp_ccb \<Rightarrow> u8 list \<Rightarrow> u8 list \<Rightarrow> u32 \<Rightarrow> u8 list option" where
  "nd6_build_na env st dst_ip dst_mac na_flags =
     (if \<not> nd6_gate_ready st then None
      else Some (nd6_frame env st dst_mac dst_ip
        (\<lambda>c. [ND6_ICMP_NA, 0] @ be_bytes16 c @ net32 na_flags @ nd6_gateway_link_local (nd_lan_mac env) @
             nd6_ll_option ND6_OPT_TLLA (nd_lan_mac env))))"

definition nd6_build_ns :: "nd6_env \<Rightarrow> ppp_ccb \<Rightarrow> u8 list \<Rightarrow> u8 list \<Rightarrow> u8 list \<Rightarrow> u8 list option" where
  "nd6_build_ns env st target dst_ip dst_mac =
     (if \<not> nd6_gate_ready st then None
      else Some (nd6_frame env st dst_mac dst_ip
        (\<lambda>c. [ND6_ICMP_NS, 0] @ be_bytes16 c @ replicate 4 0 @ target @
             nd6_ll_option ND6_OPT_SLLA (nd_lan_mac env))))"

section \<open>Options\<close>

text \<open>\<open>None\<close> is \<open>ERROR\<close>; \<open>found\<close> is the address copied out so far.\<close>

function nd6_parse_ll_options :: "u8 list \<Rightarrow> u8 \<Rightarrow> u8 list option \<Rightarrow> u8 list option option" where
  "nd6_parse_ll_options options wanted_type found =
     (if options = [] then Some found
      else if length options < 2 \<or> options ! 1 = 0 then None
      else let option_len = unat (options ! 1) * 8 in
        if length options < option_len then None
        else if options ! 0 = wanted_type
        then if found \<noteq> None \<or> option_len \<noteq> 8 then None
             else nd6_parse_ll_options (drop option_len options) wanted_type (Some (take 6 (drop 2 options)))
        else nd6_parse_ll_options (drop option_len options) wanted_type found)"
  by pat_completeness auto
termination
  by (relation "measure (\<lambda>(options, _). length options)") (auto simp: unat_gt_0)

declare nd6_parse_ll_options.simps [simp del]

section \<open>Handlers\<close>

text \<open>
  A subscriber: its control block, its neighbour cache, the time of the last solicited advertisement,
  and what was handed to \<open>lan_ctrl_tx\<close>, each frame with the subscriber index given to it.
\<close>

record 'h nd6_ccb =
  nd_ppp :: ppp_ccb
  nd_table :: "'h nd6_table option"
  nd_last_rs_ra :: u64
  nd_tx :: "(u16 \<times> u8 list) list"

definition nd6_send :: "u16 \<Rightarrow> u8 list option \<Rightarrow> 'h nd6_ccb \<Rightarrow> 'h nd6_ccb" where
  "nd6_send ccb_id packet s = (case packet of None \<Rightarrow> s | Some p \<Rightarrow> s\<lparr>nd_tx := nd_tx s @ [(ccb_id, p)]\<rparr>)"

definition nd6_send_ra :: "nd6_env \<Rightarrow> 'h nd6_ccb \<Rightarrow> 'h nd6_ccb" where
  "nd6_send_ra env s = nd6_send (user_num (nd_ppp s) - 1) (nd6_build_ra env (nd_ppp s)) s"

definition nd6_send_ns :: "nd6_env \<Rightarrow> u8 list \<Rightarrow> u8 list \<Rightarrow> u8 list \<Rightarrow> 'h nd6_ccb \<Rightarrow> 'h nd6_ccb" where
  "nd6_send_ns env target dst_ip dst_mac s =
     nd6_send (user_num (nd_ppp s) - 1) (nd6_build_ns env (nd_ppp s) target dst_ip dst_mac) s"

text \<open>The three branches of \<open>nd6_lan_input\<close>: \<open>l4\<close> is the ICMPv6 message.\<close>

definition nd6_rs_input :: "nd6_env \<Rightarrow> u8 list \<Rightarrow> 'h nd6_ccb \<Rightarrow> 'h nd6_ccb" where
  "nd6_rs_input env l4 s =
     (case nd6_parse_ll_options (drop 8 l4) ND6_OPT_SLLA None of None \<Rightarrow> s
      | Some ignored \<Rightarrow>
          let now = cur_cycles (nd_clock env) in
          if now - nd_last_rs_ra s < ND6_RS_RA_MIN_DELAY_SEC * cycles_in_sec (nd_clock env) then s
          else nd6_send_ra env (s\<lparr>nd_last_rs_ra := now\<rparr>))"

definition nd6_learn :: "('h, u8 list) data_hash \<Rightarrow> nd6_env \<Rightarrow> u8 list \<Rightarrow> u8 list option \<Rightarrow> 'h nd6_ccb \<Rightarrow> 'h nd6_ccb" where
  "nd6_learn H env src_ip found s =
     (case found of None \<Rightarrow> s
      | Some mac \<Rightarrow> s\<lparr>nd_table := nd6_table_learn H (nd_clock env) src_ip mac (nd_table s)\<rparr>)"

definition nd6_ns_input ::
  "('h, u8 list) data_hash \<Rightarrow> nd6_env \<Rightarrow> u16 \<Rightarrow> u8 list \<Rightarrow> u8 list \<Rightarrow> u8 list \<Rightarrow> 'h nd6_ccb \<Rightarrow> 'h nd6_ccb" where
  "nd6_ns_input H env ccb_id src_mac src_ip l4 s =
     (if length l4 < 24 then s
      else case nd6_parse_ll_options (drop 24 l4) ND6_OPT_SLLA None of None \<Rightarrow> s
        | Some slla \<Rightarrow>
            let target = take 16 (drop 8 l4); gateway = nd6_gateway_link_local (nd_lan_mac env) in
            if nd6_addr_is_zero src_ip
            then if target = gateway
                 then nd6_send ccb_id (nd6_build_na env (nd_ppp s) nd6_all_nodes (nd6_multicast_mac nd6_all_nodes)
                        (ND6_NA_FLAG_ROUTER OR ND6_NA_FLAG_OVERRIDE)) s
                 else s
            else if \<not> nd6_src_is_on_link (nd_ppp s) src_ip then s
            else let s = nd6_learn H env src_ip slla s in
              if target = gateway
              then nd6_send ccb_id (nd6_build_na env (nd_ppp s) src_ip src_mac
                     (ND6_NA_FLAG_ROUTER OR ND6_NA_FLAG_SOLICITED OR ND6_NA_FLAG_OVERRIDE)) s
              else s)"

definition nd6_na_input ::
  "('h, u8 list) data_hash \<Rightarrow> nd6_env \<Rightarrow> u8 list \<Rightarrow> u8 list \<Rightarrow> 'h nd6_ccb \<Rightarrow> 'h nd6_ccb" where
  "nd6_na_input H env src_ip l4 s =
     (if length l4 < 24 then s
      else case nd6_parse_ll_options (drop 24 l4) ND6_OPT_TLLA None of None \<Rightarrow> s
        | Some tlla \<Rightarrow>
            if nd6_addr_is_zero src_ip \<or> \<not> nd6_src_is_on_link (nd_ppp s) src_ip then s
            else nd6_learn H env src_ip tlla s)"

text \<open>The checks in front of them: Ethernet and VLAN are 18 bytes, the IPv6 header 40.\<close>

definition nd6_lan_frame :: "('h, u8 list) data_hash \<Rightarrow> nd6_env \<Rightarrow> u16 \<Rightarrow> u8 list \<Rightarrow> 'h nd6_ccb \<Rightarrow> 'h nd6_ccb" where
  "nd6_lan_frame H env ccb_id pkt s =
     (if \<not> nd6_gate_ready (nd_ppp s) \<or> length pkt < 18 + 40 + 8 then s
      else let ip6 = take 40 (drop 18 pkt);
               l4 = drop 58 pkt;
               payload_len = unat (rte_be_to_cpu_16 (load16 (drop 4 ip6)));
               src_ip = take 16 (drop 8 ip6) in
        if load16 (drop 16 pkt) \<noteq> rte_cpu_to_be_16 FRAME_TYPE_IPV6 \<or> \<not> nd_version_ok env ip6 \<or>
           ip6 ! 6 \<noteq> IPPROTO_ICMPV6 \<or> ip6 ! 7 \<noteq> 255 \<or> payload_len < 8 \<or> payload_len \<noteq> length pkt - 18 - 40 then s
        else if l4 ! 1 \<noteq> 0 \<or> \<not> nd_cksum_ok env ip6 l4 then s
        else if l4 ! 0 = ND6_ICMP_RS then nd6_rs_input env l4 s
        else if l4 ! 0 = ND6_ICMP_NS then nd6_ns_input H env ccb_id (take 6 (drop 6 pkt)) src_ip l4 s
        else if l4 ! 0 = ND6_ICMP_NA then nd6_na_input H env src_ip l4 s
        else s)"

definition nd6_lan_input :: "('h, u8 list) data_hash \<Rightarrow> nd6_env \<Rightarrow> u16 \<Rightarrow> u8 list \<Rightarrow> 'h nd6_ccb list \<Rightarrow> 'h nd6_ccb list" where
  "nd6_lan_input H env ccb_id pkt ccbs =
     (if length ccbs \<le> unat ccb_id then ccbs
      else ccbs[unat ccb_id := nd6_lan_frame H env ccb_id pkt (ccbs ! unat ccb_id)])"

text \<open>Behind Ethernet and VLAN come 6 bytes of PPPoE header and 2 of PPP protocol.\<close>

definition nd6_wan_miss_frame :: "('h, u8 list) data_hash \<Rightarrow> nd6_env \<Rightarrow> u8 list \<Rightarrow> 'h nd6_ccb \<Rightarrow> 'h nd6_ccb" where
  "nd6_wan_miss_frame H env pkt s =
     (if \<not> nd6_gate_ready (nd_ppp s) \<or> length pkt < 26 + 40 then s
      else if load16 (drop 16 pkt) \<noteq> rte_cpu_to_be_16 ETH_P_PPP_SES \<or>
              load16 (drop 24 pkt) \<noteq> rte_cpu_to_be_16 PPP_IPV6_PROTOCOL then s
      else let ip6 = take 40 (drop 26 pkt); dst_ip = take 16 (drop 24 ip6) in
        if \<not> nd_version_ok env ip6 \<or> take 8 dst_ip \<noteq> take 8 (hsi_ipv6_lan_prefix (dhcp6 (nd_ppp s))) then s
        else if nd6_table_lookup H (nd_table s) dst_ip \<noteq> None then s
        else let solicited = nd6_solicited_node_addr dst_ip
             in nd6_send_ns env dst_ip solicited (nd6_multicast_mac solicited) s)"

definition nd6_wan_miss_input :: "('h, u8 list) data_hash \<Rightarrow> nd6_env \<Rightarrow> u16 \<Rightarrow> u8 list \<Rightarrow> 'h nd6_ccb list \<Rightarrow> 'h nd6_ccb list" where
  "nd6_wan_miss_input H env ccb_id pkt ccbs =
     (if length ccbs \<le> unat ccb_id then ccbs
      else ccbs[unat ccb_id := nd6_wan_miss_frame H env pkt (ccbs ! unat ccb_id)])"

section \<open>Ageing\<close>

text \<open>
  The sweep over one cache. \<open>generation\<close> and \<open>ttl_cycles\<close> are read before the loop; \<open>None\<close> would be a
  loop that does not end.
\<close>

partial_function (option) nd6_age_loop ::
  "('h, u8 list) data_hash \<Rightarrow> nd6_env \<Rightarrow> u16 \<Rightarrow> u64 \<Rightarrow> u64 \<Rightarrow> nat \<Rightarrow> 'h nd6_table \<Rightarrow> 'h nd6_ccb \<Rightarrow>
   ('h nd6_table \<times> 'h nd6_ccb) option" where
  "nd6_age_loop H env generation ttl_cycles now cursor t s =
     (case dh_iterate H (nt_hash t) cursor of
        None \<Rightarrow> Some (t, s)
      | Some (position, entry_ip, data, cursor) \<Rightarrow>
          if snd (mac_table_unpack data) \<noteq> generation
          then nd6_age_loop H env generation ttl_cycles now cursor (t\<lparr>nt_hash := dh_del H (nt_hash t) entry_ip\<rparr>) s
          else if nt_slot_count t \<le> position \<or> now \<le> nt_last_seen t ! position + ttl_cycles
          then nd6_age_loop H env generation ttl_cycles now cursor t s
          else if nt_probed t ! position \<noteq> 0
          then nd6_age_loop H env generation ttl_cycles now cursor (t\<lparr>nt_hash := dh_del H (nt_hash t) entry_ip\<rparr>) s
          else nd6_age_loop H env generation ttl_cycles now cursor (t\<lparr>nt_probed := (nt_probed t)[position := 1]\<rparr>)
                 (nd6_send_ns env entry_ip entry_ip (fst (mac_table_unpack data)) s))"

definition nd6_age_scan_table :: "('h, u8 list) data_hash \<Rightarrow> nd6_env \<Rightarrow> u64 \<Rightarrow> 'h nd6_ccb \<Rightarrow> 'h nd6_ccb option" where
  "nd6_age_scan_table H env now s =
     (case nd_table s of None \<Rightarrow> Some s
      | Some t \<Rightarrow>
          map_option (\<lambda>(t, s). s\<lparr>nd_table := Some (nd6_table_reclaim H t)\<rparr>)
            (nd6_age_loop H env (nt_generation t) (ND6_NEIGHBOR_TTL_SEC * cycles_in_sec (nd_clock env)) now 0 t s))"

fun nd6_age_timer_cb :: "('h, u8 list) data_hash \<Rightarrow> nd6_env \<Rightarrow> 'h nd6_ccb list \<Rightarrow> 'h nd6_ccb list option" where
  "nd6_age_timer_cb H env [] = Some []"
| "nd6_age_timer_cb H env (s # ccbs) =
     (case nd6_age_scan_table H env (cur_cycles (nd_clock env)) s of None \<Rightarrow> None
      | Some s' \<Rightarrow> map_option ((#) s') (nd6_age_timer_cb H env ccbs))"

end
