(* ===== verification/Nd6_Props.thy ===== *)
theory Nd6_Props
  imports Nd6 Mac_Table_Props
begin

text \<open>
  The neighbour cache keeps the interface of the stamped tables; the sweep probes an idle neighbour
  before it removes it; the option parser accepts exactly the well-formed option lists; only on-link
  sources of verified messages enter the cache; the frames fit their buffer and are understood by the
  receiver of the same code.
\<close>

section \<open>The cache as a stamped table\<close>

type_synonym 'h nd6_dev = "('h, u8 list) data_hash \<times> 'h nd6_table"

definition nt_ok :: "'h nd6_dev \<Rightarrow> bool" where
  "nt_ok d \<longleftrightarrow> (\<exists>A I cap. data_hash_contract (fst d) A I cap)"

definition nt_lookup :: "'h nd6_dev \<Rightarrow> u8 list \<Rightarrow> u8 list option" where
  "nt_lookup d ip = nd6_table_lookup (fst d) (Some (snd d)) ip"

definition nt_learn :: "clock \<Rightarrow> u8 list \<Rightarrow> u8 list \<Rightarrow> 'h nd6_dev \<Rightarrow> 'h nd6_dev" where
  "nt_learn clk ip mac d = (fst d, the (nd6_table_learn (fst d) clk ip mac (Some (snd d))))"

definition nt_reset :: "'h nd6_dev \<Rightarrow> 'h nd6_dev" where
  "nt_reset d = (fst d, the (nd6_table_reset (Some (snd d))))"

definition nt_raw :: "'h nd6_dev \<Rightarrow> u8 list \<Rightarrow> (u8 list \<times> u16) option" where
  "nt_raw d ip = map_option (mac_table_unpack \<circ> snd) (dh_lookup (fst d) (nt_hash (snd d)) ip)"

lemma touch_fields [simp]:
  "nt_hash (nd6_table_touch clk p t) = nt_hash t" "nt_generation (nd6_table_touch clk p t) = nt_generation t"
  "nt_learn_fail (nd6_table_touch clk p t) = nt_learn_fail t" "nt_slot_count (nd6_table_touch clk p t) = nt_slot_count t"
  "nt_rcu (nd6_table_touch clk p t) = nt_rcu t"
  "length (nt_last_seen (nd6_table_touch clk p t)) = length (nt_last_seen t)"
  "length (nt_probed (nd6_table_touch clk p t)) = length (nt_probed t)"
  by (auto simp: nd6_table_touch_def split: option.splits)

lemma reclaim_fields [simp]:
  "nt_generation (nd6_table_reclaim H t) = nt_generation t" "nt_learn_fail (nd6_table_reclaim H t) = nt_learn_fail t"
  "nt_slot_count (nd6_table_reclaim H t) = nt_slot_count t" "nt_last_seen (nd6_table_reclaim H t) = nt_last_seen t"
  "nt_probed (nd6_table_reclaim H t) = nt_probed t"
  by (simp_all add: nd6_table_reclaim_def)

lemma dh_reclaim_lookup: "data_hash_contract H A I cap \<Longrightarrow> dh_lookup H (dh_reclaim H h) = dh_lookup H h"
  unfolding dh_lookup_eq by (auto simp: data_hash_contract_def)

lemma dh_del_lookup: "data_hash_contract H A I cap \<Longrightarrow> dh_lookup H (dh_del H h k) = (dh_lookup H h)(k := None)"
  unfolding dh_lookup_eq by (auto simp: data_hash_contract_def)

lemma reclaim_lookup:
  "data_hash_contract H A I cap \<Longrightarrow> dh_lookup H (nt_hash (nd6_table_reclaim H t)) = dh_lookup H (nt_hash t)"
  by (simp add: nd6_table_reclaim_def dh_reclaim_lookup)

text \<open>
  A learn either leaves the entry of its address with the packed word, at a position it had or a
  new one, and touches that position, or counts a failure and changes no entry.
\<close>

lemma dh_add_position:
  assumes "data_hash_contract H A I cap" and "dh_add H h k v = (h', True)"
  obtains p where "dh_lookup H h' = (dh_lookup H h)(k \<mapsto> (p, v))"
    and "case dh_lookup H h k of Some (q, w) \<Rightarrow> p = q | None \<Rightarrow> p < cap \<and> (\<forall>k' w. dh_lookup H h k' \<noteq> Some (p, w))"
proof -
  have "\<exists>p. A h' = (A h)(k \<mapsto> (p, v)) \<and>
        (case A h k of Some (q, w) \<Rightarrow> p = q | None \<Rightarrow> p < cap \<and> (\<forall>k' w. A h k' \<noteq> Some (p, w)))"
    using assms unfolding data_hash_contract_def by blast
  then show ?thesis using that unfolding dh_lookup_eq [OF assms(1)] by blast
qed

lemma nd6_learn_cases:
  assumes c: "data_hash_contract H A I cap"
  obtains (stored) p h where "nd6_table_learn H clk ip mac (Some t) = Some (nd6_table_touch clk (Some p) (t\<lparr>nt_hash := h\<rparr>))"
      and "dh_lookup H h = (dh_lookup H (nt_hash t))(ip \<mapsto> (p, mac_table_pack mac (nt_generation t)))"
      and "case dh_lookup H (nt_hash t) ip of Some (q, w) \<Rightarrow> p = q
           | None \<Rightarrow> p < cap \<and> (\<forall>k' w. dh_lookup H (nt_hash t) k' \<noteq> Some (p, w))"
  | (full) h where "nd6_table_learn H clk ip mac (Some t) = Some (t\<lparr>nt_hash := h, nt_learn_fail := nt_learn_fail t + 1\<rparr>)"
      and "dh_lookup H h = dh_lookup H (nt_hash t)"
proof -
  let ?w = "mac_table_pack mac (nt_generation t)"
  show ?thesis
  proof (cases "map_option snd (dh_lookup H (nt_hash t) ip) = Some ?w")
    case True
    then obtain p where p: "dh_lookup H (nt_hash t) ip = Some (p, ?w)" by auto
    show ?thesis
      by (rule stored [of p "nt_hash t"]) (use True p in \<open>auto simp: nd6_table_learn_def Let_def fun_upd_idem\<close>)
  next
    case False
    obtain h b where add: "dh_add H (nt_hash t) ip ?w = (h, b)" by fastforce
    show ?thesis
    proof (cases b)
      case True
      with add have "dh_add H (nt_hash t) ip ?w = (h, True)" by simp
      from dh_add_position [OF c this] obtain p where p: "dh_lookup H h = (dh_lookup H (nt_hash t))(ip \<mapsto> (p, ?w))"
        and q: "case dh_lookup H (nt_hash t) ip of Some (q, w) \<Rightarrow> p = q
           | None \<Rightarrow> p < cap \<and> (\<forall>k' w. dh_lookup H (nt_hash t) k' \<noteq> Some (p, w))" by blast
      show ?thesis
        by (rule stored [of p h]) (use False True add p q in \<open>auto simp: nd6_table_learn_def Let_def\<close>)
    next
      case nb: False
      let ?t = "nd6_table_reclaim H (t\<lparr>nt_hash := h\<rparr>)"
      have same: "dh_lookup H (nt_hash ?t) = dh_lookup H (nt_hash t)"
        using dh_addD(2) [OF c add] nb reclaim_lookup [OF c, of "t\<lparr>nt_hash := h\<rparr>"] by simp
      have upd: "?t\<lparr>nt_hash := x\<rparr> = t\<lparr>nt_hash := x\<rparr>" for x by (simp add: nd6_table_reclaim_def)
      obtain h2 b2 where add2: "dh_add H (nt_hash ?t) ip ?w = (h2, b2)" by fastforce
      show ?thesis
      proof (cases b2)
        case True
        with add2 have "dh_add H (nt_hash ?t) ip ?w = (h2, True)" by simp
        from dh_add_position [OF c this] obtain p where p: "dh_lookup H h2 = (dh_lookup H (nt_hash t))(ip \<mapsto> (p, ?w))"
          and q: "case dh_lookup H (nt_hash t) ip of Some (q, w) \<Rightarrow> p = q
             | None \<Rightarrow> p < cap \<and> (\<forall>k' w. dh_lookup H (nt_hash t) k' \<noteq> Some (p, w))"
          unfolding same by blast
        show ?thesis
          by (rule stored [of p h2])
            (use False nb True add add2 p q upd in \<open>auto simp: nd6_table_learn_def Let_def\<close>)
      next
        case nb2: False
        show ?thesis
          by (rule full [of h2])
            (use False nb nb2 add add2 upd same dh_addD(2) [OF c add2] in \<open>auto simp: nd6_table_learn_def Let_def\<close>)
      qed
    qed
  qed
qed

interpretation nt: stamped_table nt_ok nt_lookup nt_learn nt_reset "nt_learn_fail \<circ> snd" "nt_generation \<circ> snd" nt_raw
proof (unfold_locales, goal_cases)
  case (1 d k)
  then show ?case
    by (auto simp: nt_lookup_def nd6_table_lookup_def nt_raw_def split: option.splits prod.splits)
next
  case (3 c k mac d)
  show ?case
    by (auto simp: nt_learn_def nd6_table_learn_def Let_def split: prod.splits bool.splits)
next
  case (4 d mac clk k)
  obtain H t where d: "d = (H, t)" by (cases d)
  with 4 obtain A I cap where c: "data_hash_contract H A I cap" by (auto simp: nt_ok_def)
  show ?case
  proof (rule nd6_learn_cases [OF c, of clk k mac t], goal_cases)
    case (1 p h)
    with 4 show ?thesis by (auto simp: nt_learn_def nt_raw_def d pack_unpack fun_eq_iff)
  next
    case (2 h)
    then show ?thesis by (auto simp: nt_learn_def nt_raw_def d fun_eq_iff)
  qed
qed (auto simp: nt_ok_def nt_learn_def nt_reset_def nd6_table_reset_def nt_raw_def)

section \<open>The sweep\<close>

datatype age_action = Age_keep | Age_drop | Age_probe

text \<open>What the sweep does to one entry, read off the cache as it was before the sweep.\<close>

definition age_act :: "u64 \<Rightarrow> u64 \<Rightarrow> 'h nd6_table \<Rightarrow> nat \<Rightarrow> u64 \<Rightarrow> age_action" where
  "age_act ttl now t p data =
     (if snd (mac_table_unpack data) \<noteq> nt_generation t then Age_drop
      else if nt_slot_count t \<le> p \<or> now \<le> nt_last_seen t ! p + ttl then Age_keep
      else if nt_probed t ! p \<noteq> 0 then Age_drop else Age_probe)"

definition age_step :: "nd6_env \<Rightarrow> u64 \<Rightarrow> u64 \<Rightarrow> 'h nd6_table \<Rightarrow> nat \<times> u8 list \<times> u64 \<Rightarrow> 'h nd6_ccb \<Rightarrow> 'h nd6_ccb" where
  "age_step env ttl now t e s = (case e of (p, k, v) \<Rightarrow>
     if age_act ttl now t p v = Age_probe then nd6_send_ns env k k (fst (mac_table_unpack v)) s else s)"

definition age_probed :: "u64 \<Rightarrow> u64 \<Rightarrow> 'h nd6_table \<Rightarrow> (nat \<times> u8 list \<times> u64) list \<Rightarrow> u8 list" where
  "age_probed ttl now t es =
     map (\<lambda>i. if \<exists>k v. (i, k, v) \<in> set es \<and> age_act ttl now t i v = Age_probe then 1 else nt_probed t ! i) [0..<length (nt_probed t)]"

lemma age_act_del [simp]: "age_act ttl now (t\<lparr>nt_hash := h\<rparr>) = age_act ttl now t"
  by (simp add: age_act_def fun_eq_iff)

lemma age_act_probe: "p \<noteq> q \<Longrightarrow> age_act ttl now (t\<lparr>nt_probed := (nt_probed t)[q := x]\<rparr>) p v = age_act ttl now t p v"
  by (simp add: age_act_def)

lemma fold_cong_set: "(\<And>x. x \<in> set xs \<Longrightarrow> f x = g x) \<Longrightarrow> fold f xs = fold g xs"
  by (induction xs) auto

lemma age_probed_Nil [simp]: "age_probed ttl now t [] = nt_probed t"
  by (simp add: age_probed_def map_nth)

lemma age_loop_spec:
  assumes c: "data_hash_contract H A I cap"
    and "I (nt_hash t) n = es"
    and "\<forall>(p, k, v) \<in> set es. dh_lookup H (nt_hash t) k = Some (p, v)"
    and "distinct (map fst es)" and "distinct (map (fst \<circ> snd) es)"
    and "nt_slot_count t \<le> length (nt_probed t)"
  shows "\<exists>h. nd6_age_loop H env (nt_generation t) ttl now n t s =
      Some (t\<lparr>nt_hash := h, nt_probed := age_probed ttl now t es\<rparr>, fold (age_step env ttl now t) es s) \<and>
    dh_lookup H h = (\<lambda>k. if \<exists>p v. (p, k, v) \<in> set es \<and> age_act ttl now t p v = Age_drop then None else dh_lookup H (nt_hash t) k)"
  using assms(2-)
proof (induction es arbitrary: n t s)
  case Nil
  then have "dh_iterate H (nt_hash t) n = None"
    using dh_iterateD(2) [OF c, of "nt_hash t" n] by (cases "dh_iterate H (nt_hash t) n") auto
  then show ?case
    by (intro exI [of _ "nt_hash t"]) (simp add: nd6_age_loop.simps [of H env _ ttl now n t s])
next
  case (Cons e es)
  then obtain p k v n' where it: "dh_iterate H (nt_hash t) n = Some (p, k, v, n')"
    using dh_iterateD(1) [OF c, of "nt_hash t" n] by (cases "dh_iterate H (nt_hash t) n") auto
  note unfold = nd6_age_loop.simps [of H env "nt_generation t" ttl now n t s]
  have e: "e = (p, k, v)" and es: "I (nt_hash t) n' = es"
    using dh_iterateD(2) [OF c it] Cons.prems(1) by simp_all
  have fresh: "p \<notin> fst ` set es" "k \<notin> (fst \<circ> snd) ` set es"
    using Cons.prems(3,4) e by auto
  consider (drop) "age_act ttl now t p v = Age_drop" | (keep) "age_act ttl now t p v = Age_keep"
    | (probe) "age_act ttl now t p v = Age_probe" by (cases "age_act ttl now t p v")
  then show ?case
  proof cases
    case drop
    let ?t = "t\<lparr>nt_hash := dh_del H (nt_hash t) k\<rparr>"
    have "nd6_age_loop H env (nt_generation t) ttl now n t s = nd6_age_loop H env (nt_generation ?t) ttl now n' ?t s"
      using drop it by (auto simp: unfold age_act_def split: if_splits)
    moreover have "\<exists>h. nd6_age_loop H env (nt_generation ?t) ttl now n' ?t s =
        Some (?t\<lparr>nt_hash := h, nt_probed := age_probed ttl now ?t es\<rparr>, fold (age_step env ttl now ?t) es s) \<and>
      dh_lookup H h = (\<lambda>x. if \<exists>p v. (p, x, v) \<in> set es \<and> age_act ttl now ?t p v = Age_drop then None else dh_lookup H (nt_hash ?t) x)"
    proof (rule Cons.IH)
      show "I (nt_hash ?t) n' = es" using dh_iterateD(3) [OF c it] es by simp
      show "\<forall>(p, k, v) \<in> set es. dh_lookup H (nt_hash ?t) k = Some (p, v)"
        using Cons.prems(2) fresh(2) by (force simp: dh_del_lookup [OF c])
    qed (use Cons.prems in simp_all)
    moreover have "age_probed ttl now ?t es = age_probed ttl now t (e # es)"
      using drop e by (auto simp: age_probed_def)
    moreover have "fold (age_step env ttl now ?t) es s = fold (age_step env ttl now t) (e # es) s"
      using drop e by (simp add: age_step_def [abs_def])
    moreover have "(if \<exists>p v. (p, x, v) \<in> set es \<and> age_act ttl now ?t p v = Age_drop then None else dh_lookup H (nt_hash ?t) x) =
        (if \<exists>p v. (p, x, v) \<in> set (e # es) \<and> age_act ttl now t p v = Age_drop then None else dh_lookup H (nt_hash t) x)" for x
      using drop e by (auto simp: dh_del_lookup [OF c])
    moreover have "?t\<lparr>nt_hash := h, nt_probed := x\<rparr> = t\<lparr>nt_hash := h, nt_probed := x\<rparr>" for h x by simp
    ultimately show ?thesis by (simp only:)
  next
    case keep
    have "nd6_age_loop H env (nt_generation t) ttl now n t s = nd6_age_loop H env (nt_generation t) ttl now n' t s"
      using keep it by (auto simp: unfold age_act_def split: if_splits)
    moreover have "\<exists>h. nd6_age_loop H env (nt_generation t) ttl now n' t s =
        Some (t\<lparr>nt_hash := h, nt_probed := age_probed ttl now t es\<rparr>, fold (age_step env ttl now t) es s) \<and>
      dh_lookup H h = (\<lambda>x. if \<exists>p v. (p, x, v) \<in> set es \<and> age_act ttl now t p v = Age_drop then None else dh_lookup H (nt_hash t) x)"
      by (rule Cons.IH) (use es Cons.prems in simp_all)
    moreover have "age_probed ttl now t es = age_probed ttl now t (e # es)"
      using keep e by (auto simp: age_probed_def)
    moreover have "fold (age_step env ttl now t) es s = fold (age_step env ttl now t) (e # es) s"
      using keep e by (simp add: age_step_def)
    moreover have "(\<exists>p v. (p, x, v) \<in> set es \<and> age_act ttl now t p v = Age_drop) \<longleftrightarrow>
        (\<exists>p v. (p, x, v) \<in> set (e # es) \<and> age_act ttl now t p v = Age_drop)" for x
      using keep e by auto
    ultimately show ?thesis by (simp only:)
  next
    case probe
    let ?t = "t\<lparr>nt_probed := (nt_probed t)[p := 1]\<rparr>" and ?s = "nd6_send_ns env k k (fst (mac_table_unpack v)) s"
    have p: "p < length (nt_probed t)" using probe Cons.prems(5) by (auto simp: age_act_def split: if_splits)
    have other: "age_act ttl now ?t q w = age_act ttl now t q w" if "(q, x, w) \<in> set es" for q x w
      using that fresh(1) by (intro age_act_probe) force
    have "nd6_age_loop H env (nt_generation t) ttl now n t s = nd6_age_loop H env (nt_generation ?t) ttl now n' ?t ?s"
      using probe it by (auto simp: unfold age_act_def split: if_splits)
    moreover have "\<exists>h. nd6_age_loop H env (nt_generation ?t) ttl now n' ?t ?s =
        Some (?t\<lparr>nt_hash := h, nt_probed := age_probed ttl now ?t es\<rparr>, fold (age_step env ttl now ?t) es ?s) \<and>
      dh_lookup H h = (\<lambda>x. if \<exists>p v. (p, x, v) \<in> set es \<and> age_act ttl now ?t p v = Age_drop then None else dh_lookup H (nt_hash ?t) x)"
      by (rule Cons.IH) (use es Cons.prems in simp_all)
    moreover have "age_probed ttl now ?t es = age_probed ttl now t (e # es)"
      using probe e p other fresh(1) by (force simp: age_probed_def nth_list_update)
    moreover have "fold (age_step env ttl now ?t) es ?s = fold (age_step env ttl now t) (e # es) s"
    proof -
      have "fold (age_step env ttl now ?t) es = fold (age_step env ttl now t) es"
        by (rule fold_cong_set) (use other in \<open>auto simp: age_step_def split: prod.splits\<close>)
      then show ?thesis using probe e by (simp add: age_step_def [of env ttl now t "(p, k, v)"])
    qed
    moreover have "(\<exists>p v. (p, x, v) \<in> set es \<and> age_act ttl now ?t p v = Age_drop) \<longleftrightarrow>
        (\<exists>p v. (p, x, v) \<in> set (e # es) \<and> age_act ttl now t p v = Age_drop)" for x
    proof -
      have "(\<exists>p v. (p, x, v) \<in> set es \<and> age_act ttl now ?t p v = Age_drop) \<longleftrightarrow>
          (\<exists>p v. (p, x, v) \<in> set es \<and> age_act ttl now t p v = Age_drop)"
        using other by metis
      then show ?thesis using probe e by auto
    qed
    moreover have "?t\<lparr>nt_hash := h, nt_probed := x\<rparr> = t\<lparr>nt_hash := h, nt_probed := x\<rparr>" "nt_hash ?t = nt_hash t" for h x
      by simp_all
    ultimately show ?thesis by (simp only:)
  qed
qed

text \<open>
  The cache as the code keeps it: the arrays cover every position the hash hands out, and no two
  addresses share a position.
\<close>

definition nt_wf :: "('h, u8 list) data_hash \<Rightarrow> nat \<Rightarrow> 'h nd6_table \<Rightarrow> bool" where
  "nt_wf H cap t \<longleftrightarrow> cap \<le> nt_slot_count t \<and> length (nt_last_seen t) = nt_slot_count t \<and> length (nt_probed t) = nt_slot_count t \<and>
     (\<forall>k p v. dh_lookup H (nt_hash t) k = Some (p, v) \<longrightarrow> p < nt_slot_count t) \<and>
     (\<forall>k k' p v v'. dh_lookup H (nt_hash t) k = Some (p, v) \<longrightarrow> dh_lookup H (nt_hash t) k' = Some (p, v') \<longrightarrow> k = k')"

lemma nt_wfD:
  assumes "nt_wf H cap t"
  shows "dh_lookup H (nt_hash t) k = Some (p, v) \<Longrightarrow> p < nt_slot_count t"
    and "dh_lookup H (nt_hash t) k = Some (p, v) \<Longrightarrow> dh_lookup H (nt_hash t) k' = Some (p, v') \<Longrightarrow> k = k'"
  using assms unfolding nt_wf_def by blast+

lemma nt_wf_sub:
  assumes "nt_wf H cap t" and "\<forall>k. dh_lookup H (nt_hash t') k = None \<or> dh_lookup H (nt_hash t') k = dh_lookup H (nt_hash t) k"
    and "nt_slot_count t' = nt_slot_count t" and "length (nt_last_seen t') = length (nt_last_seen t)"
    and "length (nt_probed t') = length (nt_probed t)"
  shows "nt_wf H cap t'"
  using assms unfolding nt_wf_def by (metis option.distinct(1))

lemma nt_wf_alloc:
  assumes "data_hash_contract H A I cap" and "A h = Map.empty" and "cap \<le> m + 1"
    and "nd6_table_alloc c (Some h) rcu (Some m) ok = Some t"
  shows "nt_wf H cap t"
  using assms by (auto simp: nd6_table_alloc_def nt_wf_def dh_lookup_eq [OF assms(1)] split: if_splits)

lemma nt_wf_learn:
  assumes c: "data_hash_contract H A I cap" and wf: "nt_wf H cap t"
    and learn: "nd6_table_learn H clk ip mac (Some t) = Some t'"
  shows "nt_wf H cap t'"
proof (rule nd6_learn_cases [OF c, of clk ip mac t], goal_cases)
  case (1 p h)
  with learn have t': "t' = nd6_table_touch clk (Some p) (t\<lparr>nt_hash := h\<rparr>)" by simp
  have p: "p < nt_slot_count t \<and> (\<forall>k w. dh_lookup H (nt_hash t) k = Some (p, w) \<longrightarrow> k = ip)"
    using 1(3) wf nt_wfD [OF wf] by (cases "dh_lookup H (nt_hash t) ip") (auto simp: nt_wf_def)
  have "q < nt_slot_count t" if "dh_lookup H h k = Some (q, v)" for k q v
    using that p nt_wfD(1) [OF wf] by (auto simp: 1(2) split: if_splits)
  moreover have "k = k'" if "dh_lookup H h k = Some (q, v)" "dh_lookup H h k' = Some (q, v')" for k k' q v v'
    using that p nt_wfD(2) [OF wf] by (auto simp: 1(2) split: if_splits)
  ultimately show ?thesis using wf by (simp add: nt_wf_def t')
next
  case (2 h)
  with learn show ?thesis by (intro nt_wf_sub [OF wf]) auto
qed

definition ttl_cycles :: "nd6_env \<Rightarrow> u64" where
  "ttl_cycles env = ND6_NEIGHBOR_TTL_SEC * cycles_in_sec (nd_clock env)"

lemma send_ns_fields [simp]:
  "nd_ppp (nd6_send_ns env a b m s) = nd_ppp s" "nd_table (nd6_send_ns env a b m s) = nd_table s"
  "set (nd_tx s) \<subseteq> set (nd_tx (nd6_send_ns env a b m s))"
  by (auto simp: nd6_send_ns_def nd6_send_def split: option.splits)

lemma age_step_fields:
  "nd_ppp (age_step env ttl now t e s) = nd_ppp s" "nd_table (age_step env ttl now t e s) = nd_table s"
  "set (nd_tx s) \<subseteq> set (nd_tx (age_step env ttl now t e s))"
  using send_ns_fields(3) [where s = s and env = env] by (auto simp: age_step_def split: prod.splits)

lemma age_steps_fields:
  "nd_ppp (fold (age_step env ttl now t) es s) = nd_ppp s \<and> nd_table (fold (age_step env ttl now t) es s) = nd_table s \<and>
   set (nd_tx s) \<subseteq> set (nd_tx (fold (age_step env ttl now t) es s))"
proof (induction es arbitrary: s)
  case (Cons e es)
  show ?case
    using Cons [of "age_step env ttl now t e s"] age_step_fields [where env = env and ttl = ttl and now = now and t = t and e = e and s = s]
    by auto
qed simp

lemma age_steps_probe:
  assumes "(p, k, v) \<in> set es" and "age_act ttl now t p v = Age_probe" and "nd6_gate_ready (nd_ppp s)"
  shows "(user_num (nd_ppp s) - 1, the (nd6_build_ns env (nd_ppp s) k k (fst (mac_table_unpack v)))) \<in>
     set (nd_tx (fold (age_step env ttl now t) es s))"
  using assms
proof (induction es arbitrary: s)
  case (Cons e es)
  show ?case
  proof (cases "e = (p, k, v)")
    case True
    have "(user_num (nd_ppp s) - 1, the (nd6_build_ns env (nd_ppp s) k k (fst (mac_table_unpack v)))) \<in>
        set (nd_tx (age_step env ttl now t e s))"
      using True Cons.prems by (simp add: age_step_def nd6_send_ns_def nd6_send_def nd6_build_ns_def)
    with age_steps_fields [of env ttl now t es "age_step env ttl now t e s"] show ?thesis by auto
  next
    case False
    have "nd_ppp (age_step env ttl now t e s) = nd_ppp s" by (simp add: age_step_def split: prod.splits)
    with Cons.IH [of "age_step env ttl now t e s"] Cons.prems False show ?thesis by simp
  qed
qed simp

lemma nd6_sweep:
  assumes c: "data_hash_contract H A I cap" and wf: "nt_wf H cap t" and t: "nd_table s = Some t"
  obtains t' s' where "nd6_age_scan_table H env now s = Some s'" and "nd_table s' = Some t'" and "nt_wf H cap t'"
    and "nd_ppp s' = nd_ppp s" and "nt_generation t' = nt_generation t" and "nt_last_seen t' = nt_last_seen t"
    and "nt_slot_count t' = nt_slot_count t"
    and "\<And>k. dh_lookup H (nt_hash t') k = (case dh_lookup H (nt_hash t) k of None \<Rightarrow> None
          | Some (p, v) \<Rightarrow> if age_act (ttl_cycles env) now t p v = Age_drop then None else Some (p, v))"
    and "\<And>k p v. dh_lookup H (nt_hash t) k = Some (p, v) \<Longrightarrow>
          nt_probed t' ! p = (if age_act (ttl_cycles env) now t p v = Age_probe then 1 else nt_probed t ! p)"
    and "\<And>k p v. dh_lookup H (nt_hash t) k = Some (p, v) \<Longrightarrow> age_act (ttl_cycles env) now t p v = Age_probe \<Longrightarrow>
          nd6_gate_ready (nd_ppp s) \<Longrightarrow>
          (user_num (nd_ppp s) - 1, the (nd6_build_ns env (nd_ppp s) k k (fst (mac_table_unpack v)))) \<in> set (nd_tx s')"
proof -
  let ?es = "I (nt_hash t) 0"
  have set: "(p, k, v) \<in> set ?es \<longleftrightarrow> dh_lookup H (nt_hash t) k = Some (p, v)" for p k v
    using dh_iterateD(4) [OF c, of "nt_hash t"] by auto
  have dk: "distinct (map (fst \<circ> snd) ?es)" using c unfolding data_hash_contract_def by blast
  have dp: "distinct (map fst ?es)"
  proof -
    have "inj_on fst (set ?es)"
    proof (rule inj_onI)
      fix x y
      assume mem: "x \<in> set ?es" "y \<in> set ?es" and eq: "fst x = fst y"
      obtain p k v k' v' where xy: "x = (p, k, v)" "y = (p, k', v')" using eq by (cases x; cases y) auto
      with mem set nt_wfD(2) [OF wf] have "k = k'" by blast
      with xy mem set show "x = y" by auto
    qed
    moreover have "distinct ?es" using dk by (metis distinct_map)
    ultimately show ?thesis by (simp add: distinct_map)
  qed
  obtain h where loop: "nd6_age_loop H env (nt_generation t) (ttl_cycles env) now 0 t s =
      Some (t\<lparr>nt_hash := h, nt_probed := age_probed (ttl_cycles env) now t ?es\<rparr>, fold (age_step env (ttl_cycles env) now t) ?es s)"
    and h: "dh_lookup H h = (\<lambda>k. if \<exists>p v. (p, k, v) \<in> set ?es \<and> age_act (ttl_cycles env) now t p v = Age_drop then None
        else dh_lookup H (nt_hash t) k)"
    using age_loop_spec [OF c refl _ dp dk, where env = env and ttl = "ttl_cycles env" and now = now and s = s] wf set
    by (auto simp: nt_wf_def)
  define t' where "t' = nd6_table_reclaim H (t\<lparr>nt_hash := h, nt_probed := age_probed (ttl_cycles env) now t ?es\<rparr>)"
  define s' where "s' = (fold (age_step env (ttl_cycles env) now t) ?es s)\<lparr>nd_table := Some t'\<rparr>"
  have look: "dh_lookup H (nt_hash t') k = (case dh_lookup H (nt_hash t) k of None \<Rightarrow> None
          | Some (p, v) \<Rightarrow> if age_act (ttl_cycles env) now t p v = Age_drop then None else Some (p, v))" for k
    by (auto simp: t'_def reclaim_lookup [OF c] h set split: option.splits)
  show ?thesis
  proof (rule that)
    show "nd6_age_scan_table H env now s = Some s'"
      using loop by (simp add: nd6_age_scan_table_def t ttl_cycles_def s'_def t'_def)
    show "nt_wf H cap t'"
    proof (rule nt_wf_sub [OF wf])
      show "\<forall>k. dh_lookup H (nt_hash t') k = None \<or> dh_lookup H (nt_hash t') k = dh_lookup H (nt_hash t) k"
        by (auto simp: look split: option.splits)
    qed (simp_all add: t'_def age_probed_def)
    show "nt_probed t' ! p = (if age_act (ttl_cycles env) now t p v = Age_probe then 1 else nt_probed t ! p)"
      if kpv: "dh_lookup H (nt_hash t) k = Some (p, v)" for k p v
    proof -
      have "p < length (nt_probed t)" using nt_wfD(1) [OF wf kpv] wf by (simp add: nt_wf_def)
      moreover have "(\<exists>k v. (p, k, v) \<in> set ?es \<and> age_act (ttl_cycles env) now t p v = Age_probe) \<longleftrightarrow>
          age_act (ttl_cycles env) now t p v = Age_probe"
        using kpv nt_wfD(2) [OF wf kpv] by (auto simp: set)
      ultimately show ?thesis by (simp add: t'_def age_probed_def)
    qed
  qed (use age_steps_fields [of env "ttl_cycles env" now t ?es s] age_steps_probe [of _ _ _ ?es] set look
        in \<open>auto simp: s'_def t'_def\<close>)
qed

section \<open>The life of a neighbour\<close>

lemma nd6_sweep_entry:
  assumes "data_hash_contract H A I cap" and "nt_wf H cap t" and "nd_table s = Some t" and "dh_lookup H (nt_hash t) ip = Some (p, v)"
  shows "\<exists>t' s'. nd6_age_scan_table H env now s = Some s' \<and> nd_table s' = Some t' \<and> nt_wf H cap t' \<and> nd_ppp s' = nd_ppp s \<and>
    nt_generation t' = nt_generation t \<and> nt_last_seen t' = nt_last_seen t \<and> nt_slot_count t' = nt_slot_count t \<and>
    dh_lookup H (nt_hash t') ip = (if age_act (ttl_cycles env) now t p v = Age_drop then None else Some (p, v)) \<and>
    (age_act (ttl_cycles env) now t p v = Age_probe \<longrightarrow> nt_probed t' ! p = 1 \<and> (nd6_gate_ready (nd_ppp s) \<longrightarrow>
      (user_num (nd_ppp s) - 1, the (nd6_build_ns env (nd_ppp s) ip ip (fst (mac_table_unpack v)))) \<in> set (nd_tx s')))"
proof (rule nd6_sweep [OF assms(1-3), where env = env and now = now], goal_cases)
  case (1 t' s')
  show ?case
    by (intro exI [of _ t'] exI [of _ s']) (use 1(1-7) 1(8) [of ip] 1(9,10) [OF assms(4)] assms(4) in simp)
qed

lemma nd6_lookup_eq:
  "nd6_table_lookup H (Some t) ip = (case dh_lookup H (nt_hash t) ip of None \<Rightarrow> None
     | Some (p, v) \<Rightarrow> if snd (mac_table_unpack v) = nt_generation t then Some (fst (mac_table_unpack v)) else None)"
  by (auto simp: nd6_table_lookup_def split: option.splits prod.splits)

text \<open>Answering with the MAC address the cache has stored touches the entry and nothing else.\<close>

lemma nd6_relearn:
  assumes "dh_lookup H (nt_hash t) ip = Some (p, mac_table_pack mac (nt_generation t))"
  shows "nd6_table_learn H clk ip mac (Some t) = Some (nd6_table_touch clk (Some p) t)"
  using assms by (simp add: nd6_table_learn_def Let_def)

text \<open>
  C22: a neighbour that stays silent for longer than its lifetime is first probed with a solicitation
  and still resolved; if it stays silent it is gone after the next sweep; if it answers in between it
  keeps its entry. Both sweeps return.
\<close>

theorem nd6_neighbour_lifetime:
  assumes "data_hash_contract H A I cap" and "nt_wf H cap t" and "nd_table s = Some t" and "nd6_gate_ready (nd_ppp s)"
    and "length mac = 6"
    and "dh_lookup H (nt_hash t) ip = Some (p, mac_table_pack mac (nt_generation t))"
    and "nt_probed t ! p = 0"
    and "nt_last_seen t ! p + ND6_NEIGHBOR_TTL_SEC * cycles_in_sec (nd_clock env) < now1"
    and "nt_last_seen t ! p + ND6_NEIGHBOR_TTL_SEC * cycles_in_sec (nd_clock env) < now2"
    and "now2 \<le> cur_cycles clk + ND6_NEIGHBOR_TTL_SEC * cycles_in_sec (nd_clock env)"
  shows "\<exists>s1 s2 s3. nd6_age_scan_table H env now1 s = Some s1 \<and>
     nd6_table_lookup H (nd_table s1) ip = Some mac \<and>
     (user_num (nd_ppp s) - 1, the (nd6_build_ns env (nd_ppp s) ip ip mac)) \<in> set (nd_tx s1) \<and>
     nd6_age_scan_table H env now2 s1 = Some s2 \<and> nd6_table_lookup H (nd_table s2) ip = None \<and>
     nd6_age_scan_table H env now2 (s1\<lparr>nd_table := nd6_table_learn H clk ip mac (nd_table s1)\<rparr>) = Some s3 \<and>
     nd6_table_lookup H (nd_table s3) ip = Some mac"
proof -
  let ?v = "mac_table_pack mac (nt_generation t)"
  have unpack: "mac_table_unpack ?v = (mac, nt_generation t)" by (rule pack_unpack [OF assms(5)])
  have p: "p < nt_slot_count t" by (rule nt_wfD(1) [OF assms(2,6)])
  have probe: "age_act (ttl_cycles env) now1 t p ?v = Age_probe"
    using assms(7,8) p by (simp add: age_act_def unpack ttl_cycles_def)
  obtain t1 s1 where s1: "nd6_age_scan_table H env now1 s = Some s1" "nd_table s1 = Some t1" "nt_wf H cap t1" "nd_ppp s1 = nd_ppp s"
      "nt_generation t1 = nt_generation t" "nt_last_seen t1 = nt_last_seen t" "nt_slot_count t1 = nt_slot_count t"
      "dh_lookup H (nt_hash t1) ip = Some (p, ?v)" "nt_probed t1 ! p = 1"
      "(user_num (nd_ppp s) - 1, the (nd6_build_ns env (nd_ppp s) ip ip mac)) \<in> set (nd_tx s1)"
    using nd6_sweep_entry [OF assms(1-3,6), of env now1] assms(4) probe unpack by auto
  have drop: "age_act (ttl_cycles env) now2 t1 p ?v = Age_drop"
    using assms(9) p s1 by (simp add: age_act_def unpack ttl_cycles_def)
  obtain t2 s2 where s2: "nd6_age_scan_table H env now2 s1 = Some s2" "nd_table s2 = Some t2" "dh_lookup H (nt_hash t2) ip = None"
    using nd6_sweep_entry [OF assms(1) s1(3,2,8), of env now2] drop by auto
  let ?t = "nd6_table_touch clk (Some p) t1" and ?s = "s1\<lparr>nd_table := nd6_table_learn H clk ip mac (nd_table s1)\<rparr>"
  have learn: "nd6_table_learn H clk ip mac (nd_table s1) = Some ?t"
    unfolding s1(2) by (rule nd6_relearn) (use s1 in simp)
  have wf: "nt_wf H cap ?t" using nt_wf_learn [OF assms(1) s1(3) learn [unfolded s1(2)]] .
  have "p < length (nt_last_seen t1)" using p s1(3,7) by (simp add: nt_wf_def)
  then have keep: "age_act (ttl_cycles env) now2 ?t p ?v = Age_keep"
    using assms(10) p s1 by (simp add: age_act_def unpack ttl_cycles_def nd6_table_touch_def)
  obtain t3 s3 where s3: "nd6_age_scan_table H env now2 ?s = Some s3" "nd_table s3 = Some t3" "nt_generation t3 = nt_generation ?t"
      "dh_lookup H (nt_hash t3) ip = Some (p, ?v)"
    using nd6_sweep_entry [OF assms(1) wf, of ?s ip p ?v env now2] learn s1(8) keep by auto
  show ?thesis
    by (intro exI [of _ s1] exI [of _ s2] exI [of _ s3]) (use s1 s2 s3 unpack in \<open>simp add: nd6_lookup_eq\<close>)
qed

end
