(* ===== verification/Nd6_Wire.thy ===== *)
theory Nd6_Wire
  imports Nd6_Props
begin

text \<open>
  Neighbour discovery on the wire: the option parser against the set of well-formed option lists, what
  may enter the cache, the size of the frames, and the exchange in which two nodes that run this code
  resolve each other.
\<close>

section \<open>Options\<close>

text \<open>An option is a type and the bytes behind its length field; its length is counted in units of eight.\<close>

type_synonym tlv = "u8 \<times> u8 list"

definition tlv_ok :: "tlv \<Rightarrow> bool" where
  "tlv_ok x \<longleftrightarrow> (length (snd x) + 2) mod 8 = 0 \<and> (length (snd x) + 2) div 8 < 256"

definition tlv_bytes :: "tlv \<Rightarrow> u8 list" where
  "tlv_bytes x = [fst x, of_nat ((length (snd x) + 2) div 8)] @ snd x"

text \<open>The wanted option may be missing; if it is there it is there once, with a MAC address in it.\<close>

definition ll_answer :: "u8 \<Rightarrow> tlv list \<Rightarrow> u8 list option option" where
  "ll_answer w xs = (case filter (\<lambda>x. fst x = w) xs of
       [] \<Rightarrow> Some None
     | [x] \<Rightarrow> if length (snd x) = 6 then Some (Some (snd x)) else None
     | _ \<Rightarrow> None)"

fun ll_fold :: "u8 \<Rightarrow> u8 list option \<Rightarrow> tlv list \<Rightarrow> u8 list option option" where
  "ll_fold w found [] = Some found"
| "ll_fold w found (x # xs) =
     (if fst x = w then if found \<noteq> None \<or> length (snd x) \<noteq> 6 then None else ll_fold w (Some (snd x)) xs
      else ll_fold w found xs)"

lemma ll_fold_found: "ll_fold w (Some m) xs = (if filter (\<lambda>x. fst x = w) xs = [] then Some (Some m) else None)"
  by (induction xs) auto

lemma ll_fold_answer: "ll_fold w None xs = ll_answer w xs"
proof (induction xs)
  case (Cons x xs)
  then show ?case
    by (auto simp: ll_answer_def ll_fold_found split: list.splits)
qed (simp add: ll_answer_def)

lemma tlv_len: "tlv_ok x \<Longrightarrow> unat (of_nat ((length (snd x) + 2) div 8) :: u8) * 8 = length (snd x) + 2"
proof -
  assume ok: "tlv_ok x"
  then have "unat (of_nat ((length (snd x) + 2) div 8) :: u8) = (length (snd x) + 2) div 8"
    by (simp add: tlv_ok_def unat_of_nat del: add_2_eq_Suc')
  with ok show ?thesis unfolding tlv_ok_def by (metis add.right_neutral div_mult_mod_eq)
qed

lemma parse_tlv:
  assumes "tlv_ok x"
  shows "nd6_parse_ll_options (tlv_bytes x @ rest) w found =
    (if fst x = w then if found \<noteq> None \<or> length (snd x) \<noteq> 6 then None else nd6_parse_ll_options rest w (Some (snd x))
     else nd6_parse_ll_options rest w found)"
proof -
  define l :: u8 where "l = of_nat ((length (snd x) + 2) div 8)"
  have len: "unat l * 8 = length (snd x) + 2" unfolding l_def by (rule tlv_len [OF assms])
  then have nz: "l \<noteq> 0" by auto
  have "tlv_bytes x = fst x # l # snd x" by (simp add: tlv_bytes_def l_def)
  then have "nd6_parse_ll_options (tlv_bytes x @ rest) w found =
     (if fst x = w then if found \<noteq> None \<or> length (snd x) + 2 \<noteq> 8 then None
        else nd6_parse_ll_options rest w (Some (take 6 (snd x @ rest)))
      else nd6_parse_ll_options rest w found)"
    using nz by (subst nd6_parse_ll_options.simps) (simp add: Let_def len)
  also have "\<dots> = (if fst x = w then if found \<noteq> None \<or> length (snd x) \<noteq> 6 then None else nd6_parse_ll_options rest w (Some (snd x))
     else nd6_parse_ll_options rest w found)" by auto
  finally show ?thesis .
qed

lemma parse_tlvs: "list_all tlv_ok xs \<Longrightarrow> nd6_parse_ll_options (concat (map tlv_bytes xs)) w found = ll_fold w found xs"
proof (induction xs arbitrary: found)
  case Nil
  then show ?case by (simp add: nd6_parse_ll_options.simps)
next
  case (Cons x xs)
  then show ?case by (simp add: parse_tlv)
qed

lemma parse_wellformed:
  "nd6_parse_ll_options opts w found = Some r \<Longrightarrow> \<exists>xs. list_all tlv_ok xs \<and> opts = concat (map tlv_bytes xs)"
proof (induction opts w found rule: nd6_parse_ll_options.induct)
  case (1 opts w found)
  show ?case
  proof (cases "opts = []")
    case True
    then show ?thesis by (intro exI [of _ "[]"]) simp
  next
    case False
    let ?n = "unat (opts ! 1) * 8"
    have step: "(if length opts < 2 \<or> opts ! 1 = 0 then None
        else if length opts < ?n then None
        else if opts ! 0 = w then if found \<noteq> None \<or> ?n \<noteq> 8 then None
             else nd6_parse_ll_options (drop ?n opts) w (Some (take 6 (drop 2 opts)))
        else nd6_parse_ll_options (drop ?n opts) w found) = Some r"
      using "1.prems" False unfolding nd6_parse_ll_options.simps [of opts w found] Let_def by (simp only: if_False)
    then have two: "2 \<le> length opts" and nz: "opts ! 1 \<noteq> 0" and fits: "?n \<le> length opts"
      by (simp_all split: if_splits)
    have "\<exists>xs. list_all tlv_ok xs \<and> drop ?n opts = concat (map tlv_bytes xs)"
    proof (cases "opts ! 0 = w")
      case True
      with step two nz fits have "\<not> (found \<noteq> None \<or> ?n \<noteq> 8)"
          "nd6_parse_ll_options (drop ?n opts) w (Some (take 6 (drop 2 opts))) = Some r"
        by (auto split: if_splits)
      with "1.IH"(1) [OF False _ refl _ True] two nz fits show ?thesis by simp
    next
      case other: False
      with step two nz fits have "nd6_parse_ll_options (drop ?n opts) w found = Some r" by (auto split: if_splits)
      with "1.IH"(2) [OF False _ refl _ other] two nz fits show ?thesis by simp
    qed
    then obtain xs where xs: "list_all tlv_ok xs" "drop ?n opts = concat (map tlv_bytes xs)" by blast
    define x where "x = (opts ! 0, take (?n - 2) (drop 2 opts))"
    have n: "0 < unat (opts ! 1)" using nz by (simp add: unat_gt_0)
    then have len: "length (snd x) + 2 = ?n" using fits by (simp add: x_def)
    have "unat (opts ! 1) < 256" using unsigned_less [of "opts ! 1"] by simp
    with len have ok: "tlv_ok x" by (simp add: tlv_ok_def)
    have "of_nat (?n div 8) = opts ! 1" by simp
    then have "tlv_bytes x = [opts ! 0, opts ! 1] @ take (?n - 2) (drop 2 opts)"
      unfolding tlv_bytes_def len by (simp add: x_def)
    also have "\<dots> = take 2 opts @ take (?n - 2) (drop 2 opts)"
      using two by (cases opts; cases "tl opts") auto
    also have "\<dots> = take ?n opts"
    proof -
      have "2 + (?n - 2) = ?n" using n by simp
      with take_add [of 2 "?n - 2" opts] show ?thesis by (simp only:)
    qed
    finally have "opts = tlv_bytes x @ concat (map tlv_bytes xs)" using xs(2) by (metis append_take_drop_id)
    with ok xs(1) show ?thesis by (intro exI [of _ "x # xs"]) simp
  qed
qed

text \<open>
  C23: the option parser succeeds exactly on the byte strings that are a sequence of well-formed
  options, and then returns what the sequence says: no address when the wanted option does not occur,
  the six bytes of the wanted option when it occurs once with that size. A truncated option, a zero
  length, a repeated or oversized wanted option is an error.
\<close>

theorem nd6_options_exact:
  "nd6_parse_ll_options opts w None = Some r \<longleftrightarrow>
     (\<exists>xs. list_all tlv_ok xs \<and> opts = concat (map tlv_bytes xs) \<and> ll_answer w xs = Some r)"
proof
  assume r: "nd6_parse_ll_options opts w None = Some r"
  then obtain xs where "list_all tlv_ok xs" "opts = concat (map tlv_bytes xs)" using parse_wellformed by blast
  with r show "\<exists>xs. list_all tlv_ok xs \<and> opts = concat (map tlv_bytes xs) \<and> ll_answer w xs = Some r"
    using parse_tlvs [of xs w None] by (auto simp: ll_fold_answer)
qed (use parse_tlvs [of _ w None] in \<open>auto simp: ll_fold_answer\<close>)

section \<open>What enters the cache\<close>

lemma send_fields [simp]: "nd_table (nd6_send i p s) = nd_table s" "nd_ppp (nd6_send i p s) = nd_ppp s"
  by (auto simp: nd6_send_def split: option.splits)

lemma rs_table [simp]: "nd_table (nd6_rs_input env l4 s) = nd_table s"
  by (simp add: nd6_rs_input_def nd6_send_ra_def Let_def split: option.splits)

lemma na_table:
  "nd_table (nd6_na_input H env src l4 s) = nd_table s \<or>
   (\<not> nd6_addr_is_zero src \<and> nd6_src_is_on_link (nd_ppp s) src \<and>
    (\<exists>mac. nd6_parse_ll_options (drop 24 l4) ND6_OPT_TLLA None = Some (Some mac) \<and>
      nd_table (nd6_na_input H env src l4 s) = nd6_table_learn H (nd_clock env) src mac (nd_table s)))"
  by (auto simp: nd6_na_input_def nd6_learn_def split: option.splits)

lemma ns_table:
  "nd_table (nd6_ns_input H env i m src l4 s) = nd_table s \<or>
   (\<not> nd6_addr_is_zero src \<and> nd6_src_is_on_link (nd_ppp s) src \<and>
    (\<exists>mac. nd6_parse_ll_options (drop 24 l4) ND6_OPT_SLLA None = Some (Some mac) \<and>
      nd_table (nd6_ns_input H env i m src l4 s) = nd6_table_learn H (nd_clock env) src mac (nd_table s)))"
  by (auto simp: nd6_ns_input_def nd6_learn_def Let_def split: option.splits)

text \<open>
  C24: a received frame changes the neighbour cache in one way only: it learns the frame's own IPv6
  source, with the address of the single link-layer option of a solicitation or advertisement, and
  only when the session delegates IPv6, the hop limit shows the frame was not routed, the checksum
  verifies, and the source is a unicast address of the link or of the advertised prefix. So no frame
  from elsewhere, and no malformed one, can move traffic to another MAC address.
\<close>

theorem nd6_learns_verified_on_link:
  assumes "nd_table (nd6_lan_frame H env ccb_id pkt s) \<noteq> nd_table s"
  shows "nd6_gate_ready (nd_ppp s) \<and> 66 \<le> length pkt \<and> pkt ! 25 = 255 \<and>
    nd_cksum_ok env (take 40 (drop 18 pkt)) (drop 58 pkt) \<and>
    \<not> nd6_addr_is_zero (take 16 (drop 26 pkt)) \<and> nd6_src_is_on_link (nd_ppp s) (take 16 (drop 26 pkt)) \<and>
    (\<exists>mac ty. (pkt ! 58, ty) \<in> {(ND6_ICMP_NS, ND6_OPT_SLLA), (ND6_ICMP_NA, ND6_OPT_TLLA)} \<and>
      nd6_parse_ll_options (drop 82 pkt) ty None = Some (Some mac) \<and>
      nd_table (nd6_lan_frame H env ccb_id pkt s) = nd6_table_learn H (nd_clock env) (take 16 (drop 26 pkt)) mac (nd_table s))"
proof -
  have src: "take 16 (drop 8 (take 40 (drop 18 pkt))) = take 16 (drop 26 pkt)" by (simp add: drop_take)
  have hop: "66 \<le> length pkt \<Longrightarrow> take 40 (drop 18 pkt) ! 7 = pkt ! 25" by simp
  have ty: "66 \<le> length pkt \<Longrightarrow> drop 58 pkt ! 0 = pkt ! 58" by simp
  note table = ns_table [of H env ccb_id "take 6 (drop 6 pkt)" "take 16 (drop 26 pkt)" "drop 58 pkt" s]
    na_table [of H env "take 16 (drop 26 pkt)" "drop 58 pkt" s]
  show ?thesis
    using assms table unfolding nd6_lan_frame_def Let_def src
    by (auto simp: hop ty split: if_splits)
qed

section \<open>The size of the frames\<close>

lemma bytes_length [simp]: "length (be_bytes16 x) = 2" "length (be_bytes32 y) = 4"
  by (simp_all add: be_bytes16_def be_bytes32_def)

lemma addr_length [simp]: "length (nd6_gateway_link_local mac) = 16" "length nd6_all_nodes = 16" "length (nd6_solicited_node_addr a) = 16"
  by (simp_all add: nd6_gateway_link_local_def nd6_all_nodes_def nd6_solicited_node_addr_def)

lemma frame_length:
  assumes "length dst_mac = 6" and "length (nd_lan_mac env) = 6" and "length dst_ip = 16" and "\<And>c. length (body c) = n"
  shows "length (nd6_frame env st dst_mac dst_ip body) = 58 + n"
  using assms by (simp add: nd6_frame_def nd6_build_l2_def nd6_build_ip6_def Let_def)

lemma concat_length16: "list_all (\<lambda>a. length a = 16) xs \<Longrightarrow> length (concat xs) = 16 * length xs"
  by (induction xs) auto

lemma rdnss_length:
  assumes "list_all (\<lambda>a. length a = 16) (hsi_ipv6_dns (dhcp6 st))"
  shows "length (nd6_rdnss_option st) \<le> 40"
proof -
  let ?dns = "filter (\<lambda>a. \<not> nd6_addr_is_zero a) (take 2 (hsi_ipv6_dns (dhcp6 st)))"
  have "length ?dns \<le> 2" by (rule order_trans [OF length_filter_le]) simp
  moreover have "length (concat ?dns) = 16 * length ?dns"
  proof -
    have "list_all (\<lambda>a. length a = 16) ?dns" using assms by (auto simp: list_all_iff dest: in_set_takeD)
    then show ?thesis by (rule concat_length16)
  qed
  ultimately show ?thesis by (simp add: nd6_rdnss_option_def Let_def)
qed

text \<open>
  The 256-byte buffers are large enough for every frame, whatever the delegated prefix and name
  servers; the length the code reports is the length of what it wrote.
\<close>

theorem nd6_frames_fit:
  assumes "length (nd_lan_mac env) = 6" and "length (hsi_ipv6_lan_prefix (dhcp6 st)) = 16"
    and "list_all (\<lambda>a. length a = 16) (hsi_ipv6_dns (dhcp6 st))" and "length mac = 6" and "length ip = 16" and "length tgt = 16"
  shows "nd6_build_ra env st = Some f \<Longrightarrow> length f \<le> 154"
    and "nd6_build_na env st ip mac flags = Some f \<Longrightarrow> length f = 90"
    and "nd6_build_ns env st tgt ip mac = Some f \<Longrightarrow> length f = 90"
proof -
  have mc: "length (nd6_multicast_mac nd6_all_nodes) = 6" by (simp add: nd6_multicast_mac_def)
  show "length f \<le> 154" if "nd6_build_ra env st = Some f"
    using that rdnss_length [OF assms(3)] assms(1,2) mc
    by (auto simp: nd6_build_ra_def nd6_ra_options_def nd6_ll_option_def frame_length split: if_splits)
  show "length f = 90" if "nd6_build_na env st ip mac flags = Some f"
    using that assms by (auto simp: nd6_build_na_def nd6_ll_option_def frame_length split: if_splits)
  show "length f = 90" if "nd6_build_ns env st tgt ip mac = Some f"
    using that assms by (auto simp: nd6_build_ns_def nd6_ll_option_def frame_length split: if_splits)
qed

section \<open>Two nodes resolve each other\<close>

text \<open>
  What is relied on of DPDK: a message whose checksum field holds the checksum computed over it with
  zero there verifies, and a header whose first four bits are 6 passes the version check.
\<close>

definition nd_env_contract :: "nd6_env \<Rightarrow> bool" where
  "nd_env_contract env \<longleftrightarrow>
     (\<forall>ip6 a b rest. nd_cksum_ok env ip6 ([a, b] @ be_bytes16 (nd_cksum env ip6 ([a, b] @ be_bytes16 0 @ rest)) @ rest)) \<and>
     (\<forall>ip6. drop_bit 4 (ip6 ! 0) = 6 \<longrightarrow> nd_version_ok env ip6)"

text \<open>Both sides use the same checksum and version check.\<close>

definition same_dpdk :: "nd6_env \<Rightarrow> nd6_env \<Rightarrow> bool" where
  "same_dpdk a b \<longleftrightarrow> nd_cksum a = nd_cksum b \<and> nd_cksum_ok a = nd_cksum_ok b \<and> nd_version_ok a = nd_version_ok b"

lemma list6: "length xs = 6 \<Longrightarrow> \<exists>a b c d e f. xs = [a, b, c, d, e, f]"
  by (simp add: length_Suc_conv numeral_eq_Suc) blast

lemma load16_net16: "load16 (be_bytes16 x @ rest) = x"
  by (rule bit_word_eqI) (auto simp: load16_def be_bytes16_def bit_simps)

lemma u8_or_zero: "a OR b = 0 \<longleftrightarrow> a = 0 \<and> b = 0" for a b :: u8
  by (auto simp: bit_eq_iff bit_or_iff)

lemma fold_or_zero: "fold (\<lambda>i v. v OR f i) xs a = 0 \<longleftrightarrow> a = 0 \<and> (\<forall>i \<in> set xs. f i = 0)" for a :: u8
  by (induction xs arbitrary: a) (auto simp: u8_or_zero)

lemma addr_is_zero_iff: "nd6_addr_is_zero addr \<longleftrightarrow> (\<forall>i < 16. addr ! i = 0)"
  by (auto simp: nd6_addr_is_zero_def fold_or_zero)

lemma gateway_not_zero [simp]: "\<not> nd6_addr_is_zero (nd6_gateway_link_local mac)"
  by (auto simp: addr_is_zero_iff nd6_gateway_link_local_def intro!: exI [of _ 0])

lemma gateway_on_link [simp]: "nd6_src_is_on_link st (nd6_gateway_link_local mac)"
  by (simp add: nd6_src_is_on_link_def nd6_gateway_link_local_def)

lemma parse_one: "length mac = 6 \<Longrightarrow> nd6_parse_ll_options (nd6_ll_option ty mac) ty None = Some (Some mac)"
  by (simp add: nd6_ll_option_def nd6_parse_ll_options.simps [of "ty # _"] nd6_parse_ll_options.simps [of "[]"])

text \<open>
  A frame of 32 message bytes, built by the sender, arrives at the handler of the receiver: the
  header checks pass and the message is dispatched on its type.
\<close>

lemma frame_received:
  assumes c: "nd_env_contract env" and same: "same_dpdk senv env" and macs: "length dst_mac = 6" "length (nd_lan_mac senv) = 6"
    and ip: "length dst_ip = 16" and body: "\<And>c. body c = [ty, 0] @ be_bytes16 c @ rest" and rest: "length rest = 28"
    and gate: "nd6_gate_ready (nd_ppp s)"
  shows "\<exists>k. nd6_lan_frame H env ccb_id (nd6_frame senv st dst_mac dst_ip body) s =
    (if ty = ND6_ICMP_RS then nd6_rs_input env (body k) s
     else if ty = ND6_ICMP_NS then nd6_ns_input H env ccb_id (nd_lan_mac senv) (nd6_gateway_link_local (nd_lan_mac senv)) (body k) s
     else if ty = ND6_ICMP_NA then nd6_na_input H env (nd6_gateway_link_local (nd_lan_mac senv)) (body k) s
     else s)"
proof -
  define ip6 where "ip6 = nd6_build_ip6 senv dst_ip 32"
  define l2 where "l2 = nd6_build_l2 senv st dst_mac"
  define k where "k = nd_cksum senv ip6 (body 0)"
  have lens: "length l2 = 18" "length ip6 = 40" "length (body c) = 32" for c
    using macs ip rest by (simp_all add: l2_def ip6_def nd6_build_l2_def nd6_build_ip6_def body)
  then have frame: "nd6_frame senv st dst_mac dst_ip body = l2 @ ip6 @ body k"
    by (simp add: nd6_frame_def Let_def l2_def ip6_def k_def)
  obtain d0 d1 d2 d3 d4 d5 m0 m1 m2 m3 m4 m5 where
    d: "dst_mac = [d0, d1, d2, d3, d4, d5]" and m: "nd_lan_mac senv = [m0, m1, m2, m3, m4, m5]"
    using list6 macs by metis
  have l2_parts: "take 6 (drop 6 l2) = nd_lan_mac senv" "load16 (drop 16 (l2 @ x)) = rte_cpu_to_be_16 FRAME_TYPE_IPV6" for x
    by (simp_all add: l2_def nd6_build_l2_def d m be_bytes16_def load16_net16 [unfolded be_bytes16_def, simplified])
  have ip6_parts: "load16 (drop 4 ip6) = rte_cpu_to_be_16 32" "ip6 ! 6 = IPPROTO_ICMPV6" "ip6 ! 7 = 255"
      "take 16 (drop 8 ip6) = nd6_gateway_link_local (nd_lan_mac senv)" "drop_bit 4 (ip6 ! 0) = 6"
    by (simp_all add: ip6_def nd6_build_ip6_def be_bytes32_def be_bytes16_def load16_net16 [unfolded be_bytes16_def, simplified])
      (simp add: bswap32_def)
  have ck: "nd_cksum_ok env ip6 (body k)" and ver: "nd_version_ok env ip6"
    using c same ip6_parts(5) by (simp_all add: nd_env_contract_def same_dpdk_def k_def body)
  have msg: "body k ! 0 = ty" "body k ! 1 = 0" by (simp_all add: body)
  have "nd6_lan_frame H env ccb_id (l2 @ ip6 @ body k) s =
    (if ty = ND6_ICMP_RS then nd6_rs_input env (body k) s
     else if ty = ND6_ICMP_NS then nd6_ns_input H env ccb_id (nd_lan_mac senv) (nd6_gateway_link_local (nd_lan_mac senv)) (body k) s
     else if ty = ND6_ICMP_NA then nd6_na_input H env (nd6_gateway_link_local (nd_lan_mac senv)) (body k) s
     else s)"
    using gate ck ver msg l2_parts ip6_parts lens by (simp add: nd6_lan_frame_def Let_def)
  with frame show ?thesis by auto
qed

text \<open>
  C25: a node that looks for the gateway's link-local address, and the gateway, run this code: the
  solicitation the node builds passes every check of the gateway, which learns the node's address and
  answers; the answer passes every check of the node, which learns the gateway's address.
\<close>

theorem nd6_two_nodes_resolve:
  assumes "nd_env_contract envA" and "same_dpdk envA envB"
    and "length (nd_lan_mac envA) = 6" and "length (nd_lan_mac envB) = 6"
    and "nd6_gate_ready (nd_ppp sA)" and "nd6_gate_ready (nd_ppp sB)"
  shows "\<exists>f1 f2.
     nd6_build_ns envA (nd_ppp sA) (nd6_gateway_link_local (nd_lan_mac envB))
       (nd6_solicited_node_addr (nd6_gateway_link_local (nd_lan_mac envB)))
       (nd6_multicast_mac (nd6_solicited_node_addr (nd6_gateway_link_local (nd_lan_mac envB)))) = Some f1 \<and>
     nd_table (nd6_lan_frame H envB iB f1 sB) =
       nd6_table_learn H (nd_clock envB) (nd6_gateway_link_local (nd_lan_mac envA)) (nd_lan_mac envA) (nd_table sB) \<and>
     nd_tx (nd6_lan_frame H envB iB f1 sB) = nd_tx sB @ [(iB, f2)] \<and>
     nd_table (nd6_lan_frame H envA iA f2 sA) =
       nd6_table_learn H (nd_clock envA) (nd6_gateway_link_local (nd_lan_mac envB)) (nd_lan_mac envB) (nd_table sA)"
proof -
  let ?A = "nd_lan_mac envA" and ?B = "nd_lan_mac envB"
  let ?sol = "nd6_solicited_node_addr (nd6_gateway_link_local ?B)"
  let ?ns = "\<lambda>c. [ND6_ICMP_NS, 0] @ be_bytes16 c @ replicate 4 0 @ nd6_gateway_link_local ?B @ nd6_ll_option ND6_OPT_SLLA ?A"
  let ?flags = "ND6_NA_FLAG_ROUTER OR ND6_NA_FLAG_SOLICITED OR ND6_NA_FLAG_OVERRIDE"
  let ?na = "\<lambda>c. [ND6_ICMP_NA, 0] @ be_bytes16 c @ net32 ?flags @ nd6_gateway_link_local ?B @ nd6_ll_option ND6_OPT_TLLA ?B"
  define f1 where "f1 = nd6_frame envA (nd_ppp sA) (nd6_multicast_mac ?sol) ?sol ?ns"
  define f2 where "f2 = nd6_frame envB (nd_ppp sB) ?A (nd6_gateway_link_local ?A) ?na"
  have cB: "nd_env_contract envB" and sBA: "same_dpdk envB envA"
    using assms(1,2) by (simp_all add: nd_env_contract_def same_dpdk_def)
  have mc: "length (nd6_multicast_mac ?sol) = 6" by (simp add: nd6_multicast_mac_def)
  have sol: "length ?sol = 16" and gwA: "length (nd6_gateway_link_local ?A) = 16" by simp_all
  have ll: "length (nd6_ll_option ty ?A) = 8" "length (nd6_ll_option ty ?B) = 8" for ty
    using assms(3,4) by (simp_all add: nd6_ll_option_def)
  obtain k where "nd6_lan_frame H envB iB f1 sB = nd6_ns_input H envB iB ?A (nd6_gateway_link_local ?A) (?ns k) sB"
    using frame_received [OF cB assms(2) mc assms(3) sol, where st = "nd_ppp sA" and body = ?ns and ty = ND6_ICMP_NS and s = sB and H = H
        and ccb_id = iB and rest = "replicate 4 0 @ nd6_gateway_link_local ?B @ nd6_ll_option ND6_OPT_SLLA ?A"] assms(6) ll
    by (auto simp: f1_def)
  moreover have "nd6_ns_input H envB iB ?A (nd6_gateway_link_local ?A) (?ns k) sB =
      nd6_send iB (Some f2) (sB\<lparr>nd_table := nd6_table_learn H (nd_clock envB) (nd6_gateway_link_local ?A) ?A (nd_table sB)\<rparr>)"
    using assms(3,6) ll parse_one [OF assms(3)]
    by (simp add: nd6_ns_input_def Let_def nd6_learn_def nd6_build_na_def f2_def be_bytes16_def)
  moreover obtain j where "nd6_lan_frame H envA iA f2 sA = nd6_na_input H envA (nd6_gateway_link_local ?B) (?na j) sA"
    using frame_received [OF assms(1) sBA assms(3,4) gwA, where st = "nd_ppp sB" and body = ?na and ty = ND6_ICMP_NA and s = sA and H = H
        and ccb_id = iA and rest = "net32 ?flags @ nd6_gateway_link_local ?B @ nd6_ll_option ND6_OPT_TLLA ?B"] assms(5) ll
    by (auto simp: f2_def)
  moreover have "nd6_na_input H envA (nd6_gateway_link_local ?B) (?na j) sA =
      sA\<lparr>nd_table := nd6_table_learn H (nd_clock envA) (nd6_gateway_link_local ?B) ?B (nd_table sA)\<rparr>"
    using ll parse_one [OF assms(4)] by (simp add: nd6_na_input_def nd6_learn_def be_bytes16_def be_bytes32_def)
  ultimately show ?thesis
    using assms(5) by (intro exI [of _ f1] exI [of _ f2]) (simp add: nd6_build_ns_def f1_def nd6_send_def)
qed

end
