(* ===== verification/Nd6_Run.thy ===== *)
theory Nd6_Run
  imports Nd6_Wire Slot_Hash
begin

text \<open>
  Concrete runs of neighbour discovery: a cache on four slots, a checksum that adds up bytes, and two
  nodes with the gates open.
\<close>

definition demo_cksum :: "u8 list \<Rightarrow> u8 list \<Rightarrow> u16" where
  "demo_cksum ip6 l4 = fold (\<lambda>b a. a + ucast b) (ip6 @ l4) 0"

definition demo_nd_env :: "u64 \<Rightarrow> u8 list \<Rightarrow> nd6_env" where
  "demo_nd_env now mac = \<lparr>nd_clock = \<lparr>cur_cycles = now, cycles_in_sec = 1\<rparr>, nd_lan_mac = mac, nd_cksum = demo_cksum,
     nd_cksum_ok = (\<lambda>ip6 l4. load16 (drop 2 l4) = demo_cksum ip6 (take 2 l4 @ [0, 0] @ drop 4 l4)),
     nd_version_ok = (\<lambda>ip6. drop_bit 4 (ip6 ! 0) = 6)\<rparr>"

lemma demo_nd_env_contract: "nd_env_contract (demo_nd_env now mac)"
  by (simp add: nd_env_contract_def demo_nd_env_def be_bytes16_def load16_net16 [unfolded be_bytes16_def, simplified])

definition demo_ppp :: ppp_ccb where
  "demo_ppp = ppp_ccb_zero\<lparr>ipv6_enabled := True, ipv6cp_up := True, dhcp6_pd_ready := True, user_num := 1, vlan_id := 5\<rparr>"

definition demo_mac :: "u8 \<Rightarrow> u8 list" where
  "demo_mac i = [2, 0, 0, 0, 0, i]"

definition demo_table :: "u8 list slots nd6_table" where
  "demo_table = \<lparr>nt_hash = Some (nd6_gateway_link_local (demo_mac 1), mac_table_pack (demo_mac 1) 0) # replicate 3 None, nt_rcu = True,
     nt_generation = 0, nt_learn_fail = 0, nt_slot_count = 4, nt_last_seen = replicate 4 0, nt_probed = replicate 4 0\<rparr>"

definition demo_nd_ccb :: "u8 list slots nd6_ccb" where
  "demo_nd_ccb = \<lparr>nd_ppp = demo_ppp, nd_table = Some demo_table, nd_last_rs_ra = 0, nd_tx = []\<rparr>"

lemma demo_gate: "nd6_gate_ready demo_ppp"
  by (simp add: nd6_gate_ready_def demo_ppp_def)

lemma demo_lookup:
  "slot_map (nt_hash demo_table) k =
     (if k = nd6_gateway_link_local (demo_mac 1) then Some (0, mac_table_pack (demo_mac 1) 0) else None)"
  by (auto simp: slot_map_def demo_table_def slot_is_def numeral_eq_Suc)

lemma demo_table_wf: "nt_wf (slot_hash 4) 4 demo_table"
proof -
  have "dh_lookup (slot_hash 4) (nt_hash demo_table) k =
     (if k = nd6_gateway_link_local (demo_mac 1) then Some (0, mac_table_pack (demo_mac 1) 0) else None)" for k
    using demo_lookup [of k] by (simp add: slot_hash_def)
  then show ?thesis by (auto simp: nt_wf_def demo_table_def split: if_splits)
qed

theorem nd6_neighbour_lifetime_witness:
  "\<exists>s1 s2 s3. nd6_age_scan_table (slot_hash 4) (demo_nd_env 0 (demo_mac 9)) 301 demo_nd_ccb = Some s1 \<and>
     nd6_table_lookup (slot_hash 4) (nd_table s1) (nd6_gateway_link_local (demo_mac 1)) = Some (demo_mac 1) \<and>
     (user_num demo_ppp - 1, the (nd6_build_ns (demo_nd_env 0 (demo_mac 9)) demo_ppp (nd6_gateway_link_local (demo_mac 1))
        (nd6_gateway_link_local (demo_mac 1)) (demo_mac 1))) \<in> set (nd_tx s1) \<and>
     nd6_age_scan_table (slot_hash 4) (demo_nd_env 0 (demo_mac 9)) 361 s1 = Some s2 \<and>
     nd6_table_lookup (slot_hash 4) (nd_table s2) (nd6_gateway_link_local (demo_mac 1)) = None \<and>
     nd6_age_scan_table (slot_hash 4) (demo_nd_env 0 (demo_mac 9)) 361 (s1\<lparr>nd_table := nd6_table_learn (slot_hash 4)
        \<lparr>cur_cycles = 302, cycles_in_sec = 1\<rparr> (nd6_gateway_link_local (demo_mac 1)) (demo_mac 1) (nd_table s1)\<rparr>) = Some s3 \<and>
     nd6_table_lookup (slot_hash 4) (nd_table s3) (nd6_gateway_link_local (demo_mac 1)) = Some (demo_mac 1)"
proof -
  have ppp: "nd_ppp demo_nd_ccb = demo_ppp" "nd_table demo_nd_ccb = Some demo_table" by (simp_all add: demo_nd_ccb_def)
  have look: "dh_lookup (slot_hash 4) (nt_hash demo_table) (nd6_gateway_link_local (demo_mac 1)) =
      Some (0, mac_table_pack (demo_mac 1) (nt_generation demo_table))"
    using demo_lookup by (simp add: slot_hash_def demo_table_def)
  show ?thesis
    by (rule nd6_neighbour_lifetime [OF slot_hash_contract demo_table_wf ppp(2) demo_gate [folded ppp(1)] _ look, unfolded ppp])
      (simp_all add: demo_mac_def demo_table_def demo_nd_env_def)
qed

definition demo_ns :: "u8 list" where
  "demo_ns = the (nd6_build_ns (demo_nd_env 7 (demo_mac 3)) demo_ppp (nd6_gateway_link_local (demo_mac 9))
     (nd6_solicited_node_addr (nd6_gateway_link_local (demo_mac 9)))
     (nd6_multicast_mac (nd6_solicited_node_addr (nd6_gateway_link_local (demo_mac 9)))))"

theorem nd6_learns_verified_on_link_witness:
  "demo_ns ! 25 = 255 \<and> nd6_src_is_on_link demo_ppp (take 16 (drop 26 demo_ns)) \<and>
   nd_cksum_ok (demo_nd_env 7 (demo_mac 9)) (take 40 (drop 18 demo_ns)) (drop 58 demo_ns)"
proof -
  have "nd_table (nd6_lan_frame (slot_hash 4) (demo_nd_env 7 (demo_mac 9)) 0 demo_ns demo_nd_ccb) \<noteq> nd_table demo_nd_ccb"
    by code_simp
  from nd6_learns_verified_on_link [OF this] show ?thesis by (simp add: demo_nd_ccb_def)
qed

theorem nd6_two_nodes_resolve_witness:
  "\<exists>f1 f2.
     nd6_build_ns (demo_nd_env 7 (demo_mac 3)) demo_ppp (nd6_gateway_link_local (demo_mac 9))
       (nd6_solicited_node_addr (nd6_gateway_link_local (demo_mac 9)))
       (nd6_multicast_mac (nd6_solicited_node_addr (nd6_gateway_link_local (demo_mac 9)))) = Some f1 \<and>
     nd_table (nd6_lan_frame (slot_hash 4) (demo_nd_env 8 (demo_mac 9)) 0 f1 demo_nd_ccb) =
       nd6_table_learn (slot_hash 4) \<lparr>cur_cycles = 8, cycles_in_sec = 1\<rparr> (nd6_gateway_link_local (demo_mac 3)) (demo_mac 3) (Some demo_table) \<and>
     nd_tx (nd6_lan_frame (slot_hash 4) (demo_nd_env 8 (demo_mac 9)) 0 f1 demo_nd_ccb) = [(0, f2)] \<and>
     nd_table (nd6_lan_frame (slot_hash 4) (demo_nd_env 7 (demo_mac 3)) 0 f2 demo_nd_ccb) =
       nd6_table_learn (slot_hash 4) \<lparr>cur_cycles = 7, cycles_in_sec = 1\<rparr> (nd6_gateway_link_local (demo_mac 9)) (demo_mac 9) (Some demo_table)"
proof -
  have same: "same_dpdk (demo_nd_env 7 (demo_mac 3)) (demo_nd_env 8 (demo_mac 9))"
    by (simp add: same_dpdk_def demo_nd_env_def)
  have f: "nd_lan_mac (demo_nd_env now mac) = mac" "nd_clock (demo_nd_env now mac) = \<lparr>cur_cycles = now, cycles_in_sec = 1\<rparr>" for now mac
    by (simp_all add: demo_nd_env_def)
  have s: "nd_ppp demo_nd_ccb = demo_ppp" "nd_table demo_nd_ccb = Some demo_table" "nd_tx demo_nd_ccb = []"
    by (simp_all add: demo_nd_ccb_def)
  from nd6_two_nodes_resolve [OF demo_nd_env_contract same, of demo_nd_ccb demo_nd_ccb "slot_hash 4" 0 0, unfolded f s, simplified] demo_gate
  show ?thesis by (simp add: demo_mac_def)
qed

end
