(* ===== verification/Dp_Packet.thy ===== *)
theory Dp_Packet
  imports FastRG_Prelude Dpdk Ppp_State
begin

text \<open>
  What the data-plane loops share (\<^verbatim>\<open>src/src/dp.h\<close>, \<^verbatim>\<open>src/src/dp.c\<close>): packet buffers with their private area,
  the per-core counters, dropping a packet, the owners of the transmit queues and the rings on which a
  packet is handed to the owner, and the mailbox to the control plane.

  A buffer is memory with offsets in it: where the frame starts, and where the private area's two
  header pointers point. \<open>pk_id\<close> names the buffer, so that giving it back twice can be seen. The counters
  are the rows of the calling core for the subscriber at hand; \<open>None\<close> is a missing row. \<open>dc_unknown\<close> is the
  extra row, number \<open>max_user_count\<close>, for packets of no subscriber.
\<close>

section \<open>Packets\<close>

record packet =
  pk_id :: nat
  pk_mem :: memory
  pk_off :: nat
  pk_len :: u32
  pk_data_len :: u16
  pk_ccb_id :: u16
  pk_eth :: nat
  pk_vlan :: nat

definition mem_put :: "nat \<Rightarrow> u8 list \<Rightarrow> memory \<Rightarrow> memory" where
  "mem_put a bs m = (\<lambda>i. if a \<le> i \<and> i < a + length bs then bs ! (i - a) else m i)"

text \<open>Memory behind a pointer.\<close>

definition mem_from :: "nat \<Rightarrow> memory \<Rightarrow> memory" where
  "mem_from a m = (\<lambda>i. m (a + i))"

definition pkt_put :: "nat \<Rightarrow> u8 list \<Rightarrow> packet \<Rightarrow> packet" where
  "pkt_put a bs p = p\<lparr>pk_mem := mem_put a bs (pk_mem p)\<rparr>"

section \<open>Counters\<close>

abbreviation LAN_PORT :: u16 where "LAN_PORT \<equiv> 0"
abbreviation WAN_PORT :: u16 where "WAN_PORT \<equiv> 1"
abbreviation PORT_AMOUNT :: u16 where "PORT_AMOUNT \<equiv> 2"

record per_ccb_stats =
  rx_packets :: u64
  rx_bytes :: u64
  tx_packets :: u64
  tx_bytes :: u64
  dropped_packets :: u64
  dropped_bytes :: u64

record pppoes_lcore_stats =
  ps_rx_packets :: u64
  ps_rx_bytes :: u64
  ps_tx_packets :: u64
  ps_tx_bytes :: u64

record dp_core =
  dc_stats :: "u16 \<Rightarrow> per_ccb_stats option"
  dc_unknown :: "u16 \<Rightarrow> per_ccb_stats option"
  dc_pppoes :: "pppoes_lcore_stats option"
  dc_freed :: "nat list"

definition increase_ccb_drop_count :: "u32 \<Rightarrow> per_ccb_stats \<Rightarrow> per_ccb_stats" where
  "increase_ccb_drop_count len s = s\<lparr>dropped_packets := dropped_packets s + 1, dropped_bytes := dropped_bytes s + ucast len\<rparr>"

definition increase_ccb_rx_count :: "u32 \<Rightarrow> per_ccb_stats \<Rightarrow> per_ccb_stats" where
  "increase_ccb_rx_count len s = s\<lparr>rx_packets := rx_packets s + 1, rx_bytes := rx_bytes s + ucast len\<rparr>"

definition increase_ccb_tx_count :: "u32 \<Rightarrow> per_ccb_stats \<Rightarrow> per_ccb_stats" where
  "increase_ccb_tx_count len s = s\<lparr>tx_packets := tx_packets s + 1, tx_bytes := tx_bytes s + ucast len\<rparr>"

definition increase_pppoes_tx_count :: "u32 \<Rightarrow> dp_core \<Rightarrow> dp_core" where
  "increase_pppoes_tx_count len c = c\<lparr>dc_pppoes := map_option (\<lambda>s. s\<lparr>ps_tx_packets := ps_tx_packets s + 1,
     ps_tx_bytes := ps_tx_bytes s + ucast len\<rparr>) (dc_pppoes c)\<rparr>"

definition increase_pppoes_rx_count :: "u32 \<Rightarrow> dp_core \<Rightarrow> dp_core" where
  "increase_pppoes_rx_count len c = c\<lparr>dc_pppoes := map_option (\<lambda>s. s\<lparr>ps_rx_packets := ps_rx_packets s + 1,
     ps_rx_bytes := ps_rx_bytes s + ucast len\<rparr>) (dc_pppoes c)\<rparr>"

definition upd_stats :: "u16 \<Rightarrow> (per_ccb_stats \<Rightarrow> per_ccb_stats) \<Rightarrow> dp_core \<Rightarrow> dp_core" where
  "upd_stats port f c = c\<lparr>dc_stats := (dc_stats c)(port := map_option f (dc_stats c port))\<rparr>"

definition drop_packet :: "packet \<Rightarrow> u16 \<Rightarrow> dp_core \<Rightarrow> dp_core" where
  "drop_packet p port c =
     (let c = upd_stats port (increase_ccb_drop_count (pk_len p)) c in c\<lparr>dc_freed := dc_freed c @ [pk_id p]\<rparr>)"

text \<open>\<open>drop_packet\<close> with \<open>max_user_count\<close> for the subscriber.\<close>

definition drop_unknown :: "packet \<Rightarrow> u16 \<Rightarrow> dp_core \<Rightarrow> dp_core" where
  "drop_unknown p port c =
     c\<lparr>dc_unknown := (dc_unknown c)(port := map_option (increase_ccb_drop_count (pk_len p)) (dc_unknown c port)),
       dc_freed := dc_freed c @ [pk_id p]\<rparr>"

definition count_rx_packet :: "packet \<Rightarrow> u16 \<Rightarrow> dp_core \<Rightarrow> dp_core" where
  "count_rx_packet p port c = upd_stats port (increase_ccb_rx_count (pk_len p)) c"

definition count_tx_packet :: "packet \<Rightarrow> u16 \<Rightarrow> dp_core \<Rightarrow> dp_core" where
  "count_tx_packet p port c = upd_stats port (increase_ccb_tx_count (pk_len p)) c"

section \<open>Finding the subscriber\<close>

abbreviation MIN_VLAN_ID :: u16 where "MIN_VLAN_ID \<equiv> 2"
abbreviation MAX_VLAN_ID :: u16 where "MAX_VLAN_ID \<equiv> 4000"

text \<open>
  The private area is written as far as the code got. \<open>user_count - 1\<close> is computed in \<open>int\<close>, so no
  subscriber number passes when there are none. The copies of the DHCP server's address and mask are
  arguments of the operations that use them.
\<close>

definition parse_l2_hdr :: "(u16 \<Rightarrow> u16) \<Rightarrow> u16 \<Rightarrow> packet \<Rightarrow> status \<times> packet" where
  "parse_l2_hdr vlan_userid_map user_count p =
     (let p = p\<lparr>pk_eth := pk_off p\<rparr> in
      if word16_at (pk_mem p) (pk_eth p + 12) \<noteq> rte_cpu_to_be_16 0x8100 then (ERROR, p)
      else let p = p\<lparr>pk_vlan := pk_off p + 14\<rparr>;
               vlan_id = rte_be_to_cpu_16 (word16_at (pk_mem p) (pk_vlan p)) AND 0xFFF in
        if vlan_id < MIN_VLAN_ID \<or> MAX_VLAN_ID < vlan_id then (ERROR, p)
        else let ccb_id = vlan_userid_map (vlan_id - 1) in
          if uint user_count - 1 < uint ccb_id then (ERROR, p)
          else (SUCCESS, p\<lparr>pk_ccb_id := ccb_id\<rparr>))"

section \<open>Transmit queues\<close>

datatype fastrg_tx_sender =
  FASTRG_TX_SENDER_CTRL_THREAD | FASTRG_TX_SENDER_WAN_DATA | FASTRG_TX_SENDER_LAN_DATA
| FASTRG_TX_SENDER_LAN_CTRL | FASTRG_TX_SENDER_WAN_CTRL

abbreviation FASTRG_TX_QUEUE_NONE :: u16 where "FASTRG_TX_QUEUE_NONE \<equiv> 0xFFFF"

definition get_tx_queue_count :: "u16 \<Rightarrow> u16" where
  "get_tx_queue_count data_queues = data_queues + 3"

definition get_tx_queue_id_for_sender :: "fastrg_tx_sender \<Rightarrow> u16 \<Rightarrow> u16 \<Rightarrow> u16 \<Rightarrow> u16" where
  "get_tx_queue_id_for_sender sender index port_id data_queues =
     (if PORT_AMOUNT \<le> port_id then FASTRG_TX_QUEUE_NONE
      else case sender of
        FASTRG_TX_SENDER_CTRL_THREAD \<Rightarrow> if index = 0 then 0 else FASTRG_TX_QUEUE_NONE
      | FASTRG_TX_SENDER_WAN_DATA \<Rightarrow>
          if data_queues \<le> index \<or> port_id \<noteq> LAN_PORT then FASTRG_TX_QUEUE_NONE else index + 1
      | FASTRG_TX_SENDER_LAN_DATA \<Rightarrow>
          if data_queues \<le> index \<or> port_id \<noteq> WAN_PORT then FASTRG_TX_QUEUE_NONE else index + 1
      | FASTRG_TX_SENDER_LAN_CTRL \<Rightarrow>
          if index \<noteq> 0 then FASTRG_TX_QUEUE_NONE
          else if port_id = LAN_PORT then data_queues + 1 else data_queues + 2
      | FASTRG_TX_SENDER_WAN_CTRL \<Rightarrow>
          if index \<noteq> 0 then FASTRG_TX_QUEUE_NONE
          else if port_id = WAN_PORT then data_queues + 1 else data_queues + 2)"

text \<open>The handoff rings and the counter of the calling core for each queue.\<close>

record tx_queue_stats =
  full_packets :: u64
  short_bursts :: u64
  handoff_dropped :: u64

record 'r tx_queues =
  tq_count :: "u16 \<Rightarrow> u16"
  tq_ring :: "u16 \<Rightarrow> u16 \<Rightarrow> 'r option"
  tq_stats :: "u16 \<Rightarrow> (u16 \<Rightarrow> tx_queue_stats) option"

definition is_tx_queue_valid :: "'r tx_queues \<Rightarrow> u16 \<Rightarrow> u16 \<Rightarrow> bool" where
  "is_tx_queue_valid T port_id queue_id \<longleftrightarrow> port_id < PORT_AMOUNT \<and> queue_id < tq_count T port_id"

definition upd_tx_stats :: "u16 \<Rightarrow> u16 \<Rightarrow> (tx_queue_stats \<Rightarrow> tx_queue_stats) \<Rightarrow> 'r tx_queues \<Rightarrow> 'r tx_queues" where
  "upd_tx_stats port_id queue_id f T =
     (if \<not> is_tx_queue_valid T port_id queue_id then T
      else T\<lparr>tq_stats := (tq_stats T)(port_id := map_option (\<lambda>row. row(queue_id := f (row queue_id))) (tq_stats T port_id))\<rparr>)"

definition count_tx_handoff_drop :: "u16 \<Rightarrow> u16 \<Rightarrow> 'r tx_queues \<Rightarrow> 'r tx_queues" where
  "count_tx_handoff_drop port_id queue_id =
     upd_tx_stats port_id queue_id (\<lambda>s. s\<lparr>handoff_dropped := handoff_dropped s + 1\<rparr>)"

definition count_tx_queue_refused :: "u16 \<Rightarrow> u16 \<Rightarrow> u16 \<Rightarrow> u16 \<Rightarrow> 'r tx_queues \<Rightarrow> 'r tx_queues" where
  "count_tx_queue_refused port_id queue_id offered accepted =
     upd_tx_stats port_id queue_id (\<lambda>s. s\<lparr>full_packets := full_packets s + of_int (uint offered - uint accepted),
       short_bursts := short_bursts s + 1\<rparr>)"

text \<open>Packets travel through rings as buffer names.\<close>

definition send_pkt_to_other_lcore ::
  "'r rte_ring \<Rightarrow> u16 \<Rightarrow> u16 \<Rightarrow> nat \<Rightarrow> 'r tx_queues \<Rightarrow> status \<times> 'r tx_queues" where
  "send_pkt_to_other_lcore R port_id queue_id pkt T =
     (if \<not> is_tx_queue_valid T port_id queue_id then (ERROR, T)
      else case tq_ring T port_id queue_id of
        None \<Rightarrow> (ERROR, count_tx_handoff_drop port_id queue_id T)
      | Some r \<Rightarrow> (case ring_enqueue R r pkt of
          (r', True) \<Rightarrow> (SUCCESS, T\<lparr>tq_ring := (tq_ring T)(port_id := (tq_ring T port_id)(queue_id := Some r'))\<rparr>)
        | (r', False) \<Rightarrow>
            (ERROR, count_tx_handoff_drop port_id queue_id
               (T\<lparr>tq_ring := (tq_ring T)(port_id := (tq_ring T port_id)(queue_id := Some r'))\<rparr>))))"

fun take_burst :: "'r rte_ring \<Rightarrow> nat \<Rightarrow> 'r \<Rightarrow> nat list \<times> 'r" where
  "take_burst R 0 r = ([], r)"
| "take_burst R (Suc n) r =
     (case ring_dequeue R r of
        (r', None) \<Rightarrow> ([], r')
      | (r', Some x) \<Rightarrow> (case take_burst R n r' of (xs, r'') \<Rightarrow> (x # xs, r'')))"

definition check_pkt_from_other_lcore :: "'r rte_ring \<Rightarrow> nat \<Rightarrow> 'r option \<times> nat list \<Rightarrow> 'r option \<times> nat list" where
  "check_pkt_from_other_lcore R batch_max rb =
     (case rb of (ring, batch) \<Rightarrow>
        (case ring of None \<Rightarrow> (None, batch)
         | Some r \<Rightarrow>
             if batch_max \<le> length batch then (Some r, batch)
             else (case take_burst R (batch_max - length batch) r of (xs, r') \<Rightarrow> (Some r', batch @ xs))))"

section \<open>Mail to the control plane\<close>

datatype dp_event = EV_DP_PPPoE | EV_DP_DHCP | EV_DP_DNS | EV_DP_ICMP6 | EV_DP_ND6_MISS

record mail =
  ml_mbuf :: packet
  ml_type :: dp_event
  ml_len :: u32
  ml_ccb_id :: u16
  ml_port_id :: u16

record 'r mailbox =
  mx_free :: 'r
  mx_cp_q :: 'r
  mx_slot :: "nat \<Rightarrow> mail option"

definition send2cp :: "'r rte_ring \<Rightarrow> packet \<Rightarrow> dp_event \<Rightarrow> u16 \<Rightarrow> 'r mailbox \<times> dp_core \<Rightarrow> 'r mailbox \<times> dp_core" where
  "send2cp R p evt port xc =
     (case xc of (x, c) \<Rightarrow>
        (case ring_dequeue R (mx_free x) of
           (f, None) \<Rightarrow> (x\<lparr>mx_free := f\<rparr>, drop_packet p port c)
         | (f, Some slot) \<Rightarrow>
             let x = x\<lparr>mx_free := f, mx_slot := (mx_slot x)(slot \<mapsto> \<lparr>ml_mbuf = p, ml_type = evt, ml_len = pk_len p,
                       ml_ccb_id = pk_ccb_id p, ml_port_id = port\<rparr>)\<rparr>
             in case ring_enqueue R (mx_cp_q x) slot of
                  (q, True) \<Rightarrow> (x\<lparr>mx_cp_q := q\<rparr>, count_rx_packet p port c)
                | (q, False) \<Rightarrow>
                    (x\<lparr>mx_cp_q := q, mx_free := fst (ring_enqueue R f slot)\<rparr>, drop_packet p port c)))"

section \<open>Facts\<close>

lemma mem_put_in: "a \<le> i \<Longrightarrow> i < a + length bs \<Longrightarrow> mem_put a bs m i = bs ! (i - a)"
  by (simp add: mem_put_def)

lemma mem_put_out: "i < a \<or> a + length bs \<le> i \<Longrightarrow> mem_put a bs m i = m i"
  by (auto simp: mem_put_def)

lemma bytes_at_nth [simp]: "i < n \<Longrightarrow> bytes_at m a n ! i = m (a + i)" "length (bytes_at m a n) = n"
  by (simp_all add: bytes_at_def)

lemma bytes_at_put_same: "n = length bs \<Longrightarrow> bytes_at (mem_put a bs m) a n = bs"
  by (auto simp: list_eq_iff_nth_eq mem_put_def)

lemma bytes_at_put_out: "a + n \<le> b \<or> b + length bs \<le> a \<Longrightarrow> bytes_at (mem_put b bs m) a n = bytes_at m a n"
  by (auto simp: list_eq_iff_nth_eq mem_put_def)

lemma core_freed [simp]:
  "dc_freed (count_rx_packet p port c) = dc_freed c" "dc_freed (count_tx_packet p port c) = dc_freed c"
  "dc_freed (increase_pppoes_tx_count n c) = dc_freed c" "dc_freed (increase_pppoes_rx_count n c) = dc_freed c"
  "dc_freed (drop_packet p port c) = dc_freed c @ [pk_id p]" "dc_freed (drop_unknown p port c) = dc_freed c @ [pk_id p]"
  by (simp_all add: count_rx_packet_def count_tx_packet_def increase_pppoes_tx_count_def increase_pppoes_rx_count_def
      drop_packet_def drop_unknown_def upd_stats_def Let_def)

section \<open>Properties\<close>

text \<open>
  no two senders share a transmit queue. On either port, with at most 65532 data queues, two
  senders that are given the same queue are the same sender with the same index, and every queue given
  out is one of those the port is configured with.
\<close>

theorem tx_queue_one_owner:
  assumes "n \<le> 65532"
    and "get_tx_queue_id_for_sender s i port n = q" and "get_tx_queue_id_for_sender s' i' port n = q"
    and "q \<noteq> FASTRG_TX_QUEUE_NONE"
  shows "s = s' \<and> i = i' \<and> q < get_tx_queue_count n"
proof -
  have n: "unat n \<le> 65532" using assms(1) by (simp add: word_le_nat_alt)
  have add: "unat (n + 1) = unat n + 1" "unat (n + 2) = unat n + 2" "unat (n + 3) = unat n + 3"
    using n by (simp_all add: unat_word_ariths)
  have idx: "unat (j + 1) = unat j + 1" if "j < n" for j :: u16
  proof -
    have "unat j < unat n" using that by (simp add: word_less_nat_alt)
    with n show ?thesis by (simp add: unat_word_ariths)
  qed
  have port: "port < 2 \<Longrightarrow> port = 0 \<or> port = 1" by (simp add: word_less_nat_alt word_unat_eq_iff) arith
  show ?thesis
    using assms(2-4) port
    by (cases s; cases s')
      (auto simp: get_tx_queue_id_for_sender_def get_tx_queue_count_def not_le word_unat_eq_iff [of "_ + _"] word_unat_eq_iff [of i i'] word_less_nat_alt
        add idx word_le_nat_alt split: if_splits)
qed

theorem tx_queue_one_owner_witness:
  "get_tx_queue_id_for_sender FASTRG_TX_SENDER_LAN_CTRL 0 LAN_PORT 4 = 5 \<and> (5::u16) < get_tx_queue_count 4"
  using tx_queue_one_owner [of 4 FASTRG_TX_SENDER_LAN_CTRL 0 LAN_PORT 5 FASTRG_TX_SENDER_LAN_CTRL 0]
  by (simp add: get_tx_queue_id_for_sender_def)

end
