(* ===== verification/Dp_Ipv6.thy ===== *)
theory Dp_Ipv6
  imports Dp_Packet Ipv6_Firewall_Props Nd6_Wire Ppp_Codec
begin

text \<open>
  IPv6 forwarding (\<^verbatim>\<open>src/src/dp_ipv6.h\<close>): the verdicts on frames from the LAN and from the PPPoE session,
  the answer to a packet that does not fit, encapsulation and decapsulation, and the two together with
  the firewall.

  Headers are read and written in the packet's memory at the offsets the code computes from the two
  header pointers of the private area.
\<close>

section \<open>Constants and results\<close>

abbreviation IPV6_L2_LEN :: nat where "IPV6_L2_LEN \<equiv> 18"
abbreviation IPV6_PPPOE_HDR_LEN :: nat where "IPV6_PPPOE_HDR_LEN \<equiv> 8"
abbreviation IPV6_PPPOE_MTU :: nat where "IPV6_PPPOE_MTU \<equiv> 1492"
abbreviation IPV6_MIN_MTU :: nat where "IPV6_MIN_MTU \<equiv> 1280"
abbreviation IPV6_ERROR_HOP_LIMIT :: u8 where "IPV6_ERROR_HOP_LIMIT \<equiv> 64"
abbreviation ICMP6_PACKET_TOO_BIG :: u8 where "ICMP6_PACKET_TOO_BIG \<equiv> 2"
abbreviation ICMP6_PTB_HDR_LEN :: nat where "ICMP6_PTB_HDR_LEN \<equiv> 8"
abbreviation VER_TYPE :: u8 where "VER_TYPE \<equiv> 0x11"
abbreviation DHCP6_CLIENT_PORT :: u16 where "DHCP6_CLIENT_PORT \<equiv> 546"

datatype ipv6_lan_verdict =
  IPV6_LAN_DROP | IPV6_LAN_TO_CP | IPV6_LAN_PASSTHROUGH | IPV6_LAN_TOO_BIG | IPV6_LAN_FORWARD

datatype ipv6_wan_verdict = IPV6_WAN_DROP | IPV6_WAN_TO_CP | IPV6_WAN_FORWARD

datatype ipv6_forward_result = IPV6_FWD_OK | IPV6_FWD_HOP_LIMIT | IPV6_FWD_NEIGHBOR_MISS | IPV6_FWD_FIREWALL_DROP

section \<open>Addresses\<close>

definition ipv6_addr_is_multicast :: "u8 list \<Rightarrow> bool" where
  "ipv6_addr_is_multicast addr \<longleftrightarrow> addr ! 0 = 0xff"

definition ipv6_addr_is_link_local :: "u8 list \<Rightarrow> bool" where
  "ipv6_addr_is_link_local addr \<longleftrightarrow> addr ! 0 = 0xfe \<and> addr ! 1 AND 0xc0 = 0x80"

definition ipv6_addr_high64_is_zero :: "u8 list \<Rightarrow> bool" where
  "ipv6_addr_high64_is_zero addr \<longleftrightarrow> fold (\<lambda>i bits. bits OR addr ! i) [0..<8] 0 = 0"

definition ipv6_addr_in_lan_prefix :: "ppp_ccb \<Rightarrow> u8 list \<Rightarrow> bool" where
  "ipv6_addr_in_lan_prefix st addr \<longleftrightarrow> take 8 addr = take 8 (hsi_ipv6_lan_prefix (dhcp6 st))"

section \<open>Flow tags\<close>

text \<open>The three hash functions of DPDK are arguments.\<close>

record crc_ops =
  rte_hash_crc :: "u8 list \<Rightarrow> u32 \<Rightarrow> u32"
  rte_hash_crc_4byte :: "u32 \<Rightarrow> u32 \<Rightarrow> u32"
  rte_hash_crc_1byte :: "u8 \<Rightarrow> u32 \<Rightarrow> u32"

definition compute_flow_tag6 :: "crc_ops \<Rightarrow> u8 list \<Rightarrow> u8 list \<Rightarrow> u16 \<Rightarrow> u16 \<Rightarrow> u8 \<Rightarrow> u32" where
  "compute_flow_tag6 C src_addr dst_addr sport dport proto =
     (let h = rte_hash_crc C src_addr 0;
          h = rte_hash_crc C dst_addr h;
          h = rte_hash_crc_4byte C (push_bit 16 (ucast sport) OR ucast dport) h
      in rte_hash_crc_1byte C proto h)"

definition ipv6_flow_tag :: "crc_ops \<Rightarrow> memory \<Rightarrow> nat \<Rightarrow> u32 option" where
  "ipv6_flow_tag C m ip6 =
     (if ip6_proto m ip6 \<noteq> IPPROTO_TCP \<and> ip6_proto m ip6 \<noteq> IPPROTO_UDP then None
      else if rte_be_to_cpu_16 (ip6_payload_len m ip6) < 4 then None
      else Some (compute_flow_tag6 C (ip6_src_addr m ip6) (ip6_dst_addr m ip6)
             (word16_at m (ip6 + 40)) (word16_at m (ip6 + 42)) (ip6_proto m ip6)))"

section \<open>Verdicts\<close>

definition ip6_hop_limits :: "memory \<Rightarrow> nat \<Rightarrow> u8" where
  "ip6_hop_limits m a = m (a + 7)"

definition ipv6_lan_classify :: "nd6_env \<Rightarrow> ppp_ccb \<Rightarrow> memory \<Rightarrow> nat \<Rightarrow> nat \<Rightarrow> u32 \<Rightarrow> ipv6_lan_verdict" where
  "ipv6_lan_classify env st m eth ip6 plen =
     (if unat plen < IPV6_L2_LEN + 40 then IPV6_LAN_DROP
      else let payload_len = rte_be_to_cpu_16 (ip6_payload_len m ip6) in
      if \<not> nd_version_ok env (bytes_at m ip6 40) \<or> unat plen \<noteq> IPV6_L2_LEN + 40 + unat payload_len then IPV6_LAN_DROP
      else if ip6_proto m ip6 = IPPROTO_ICMPV6 \<and> ICMP6_PTB_HDR_LEN \<le> unat payload_len \<and>
              (m (ip6 + 40) = ND6_ICMP_RS \<or> m (ip6 + 40) = ND6_ICMP_NS \<or> m (ip6 + 40) = ND6_ICMP_NA)
      then IPV6_LAN_TO_CP
      else if \<not> pppd_ipv6_dp_gate_open st then IPV6_LAN_DROP
      else if bytes_at m eth 6 \<noteq> nd_lan_mac env then IPV6_LAN_PASSTHROUGH
      else if \<not> ipv6_addr_in_lan_prefix st (ip6_src_addr m ip6) then IPV6_LAN_DROP
      else let dst_ip = ip6_dst_addr m ip6 in
      if ipv6_addr_is_multicast dst_ip \<or> ipv6_addr_is_link_local dst_ip \<or> ipv6_addr_in_lan_prefix st dst_ip \<or>
         ipv6_addr_high64_is_zero dst_ip
      then IPV6_LAN_DROP
      else if ip6_hop_limits m ip6 \<le> 1 then IPV6_LAN_DROP
      else if IPV6_PPPOE_MTU < 40 + unat payload_len then IPV6_LAN_TOO_BIG
      else IPV6_LAN_FORWARD)"

definition ipv6_wan_classify :: "nd6_env \<Rightarrow> ppp_ccb \<Rightarrow> memory \<Rightarrow> nat \<Rightarrow> u32 \<Rightarrow> ipv6_wan_verdict" where
  "ipv6_wan_classify env st m ip6 plen =
     (if unat plen < IPV6_L2_LEN + IPV6_PPPOE_HDR_LEN + 40 then IPV6_WAN_DROP
      else let ip6_len = unat plen - IPV6_L2_LEN - IPV6_PPPOE_HDR_LEN;
               payload_len = rte_be_to_cpu_16 (ip6_payload_len m ip6);
               dst_ip = ip6_dst_addr m ip6 in
      if \<not> nd_version_ok env (bytes_at m ip6 40) \<or> ip6_len \<noteq> 40 + unat payload_len then IPV6_WAN_DROP
      else if ipv6_addr_in_lan_prefix st dst_ip then IPV6_WAN_FORWARD
      else if ip6_proto m ip6 = IPPROTO_UDP \<and> 8 \<le> unat payload_len \<and>
              word16_at m (ip6 + 42) = rte_cpu_to_be_16 DHCP6_CLIENT_PORT
      then IPV6_WAN_TO_CP
      else if ip6_proto m ip6 = IPPROTO_ICMPV6 \<and> (ipv6_addr_is_link_local dst_ip \<or> ipv6_addr_is_multicast dst_ip)
      then IPV6_WAN_TO_CP
      else IPV6_WAN_DROP)"

section \<open>Packet too big\<close>

text \<open>The bytes written to the buffer, from its start.\<close>

definition ipv6_build_packet_too_big ::
  "nd6_env \<Rightarrow> memory \<Rightarrow> nat \<Rightarrow> nat \<Rightarrow> nat \<Rightarrow> u16 \<Rightarrow> u8 list" where
  "ipv6_build_packet_too_big env m eth vlan orig_ip6 orig_ip6_len =
     (let quota = IPV6_MIN_MTU - 40 - ICMP6_PTB_HDR_LEN;
          quote_len = min (unat orig_ip6_len) quota;
          icmp_len = ICMP6_PTB_HDR_LEN + quote_len;
          l2 = bytes_at m (eth + 6) 6 @ nd_lan_mac env @ net16 VLAN @ bytes_at m vlan 2 @ net16 FRAME_TYPE_IPV6;
          ip6 = net32 (push_bit 28 6) @ net16 (of_nat icmp_len) @ [IPPROTO_ICMPV6, IPV6_ERROR_HOP_LIMIT] @
                nd6_gateway_link_local (nd_lan_mac env) @ ip6_src_addr m orig_ip6;
          icmp6 = (\<lambda>cksum. [ICMP6_PACKET_TOO_BIG, 0] @ be_bytes16 cksum @ net32 (of_nat IPV6_PPPOE_MTU) @
                bytes_at m orig_ip6 quote_len)
      in l2 @ ip6 @ icmp6 (nd_cksum env ip6 (icmp6 0)))"

text \<open>\<open>alloc\<close> is what the pool returns.\<close>

definition build_ipv6_packet_too_big_reply ::
  "nd6_env \<Rightarrow> packet option \<Rightarrow> packet \<Rightarrow> nat \<Rightarrow> dp_core \<Rightarrow> packet option \<times> dp_core" where
  "build_ipv6_packet_too_big_reply env alloc p ip6 c =
     (let c = count_rx_packet p LAN_PORT c in
      case alloc of None \<Rightarrow> (None, drop_packet p LAN_PORT c)
      | Some reply \<Rightarrow>
          let frame = ipv6_build_packet_too_big env (pk_mem p) (pk_eth p) (pk_vlan p) ip6 (ucast (pk_len p - 18));
              reply = (pkt_put (pk_off reply) frame reply)\<lparr>pk_len := of_nat (length frame), pk_data_len := of_nat (length frame)\<rparr>
          in (Some reply, drop_packet p LAN_PORT (count_tx_packet reply LAN_PORT c)))"

section \<open>Encapsulation\<close>

text \<open>
  The two copies are in the code's order. The first overlaps its source; the model reads the fourteen
  bytes before it writes them.
\<close>

definition ipv6_lan_to_wan_encap :: "u8 list \<Rightarrow> ppp_ccb \<Rightarrow> packet \<Rightarrow> dp_core \<Rightarrow> packet \<times> dp_core" where
  "ipv6_lan_to_wan_encap wan_src_mac st p c =
     (let eth = pk_eth p; vlan = pk_vlan p;
          ip6 = eth + IPV6_L2_LEN;
          cur = eth - IPV6_PPPOE_HDR_LEN;
          p = pkt_put (ip6 + 7) [ip6_hop_limits (pk_mem p) ip6 - 1] p;
          c = count_rx_packet p LAN_PORT c;
          p = pkt_put (eth + 6) wan_src_mac p;
          p = pkt_put eth (PPP_dst_mac st) p;
          p = pkt_put (vlan + 2) (net16 ETH_P_PPP_SES) p;
          p = pkt_put cur (bytes_at (pk_mem p) eth 14) p;
          p = pkt_put (cur + 14) (bytes_at (pk_mem p) vlan 4) p;
          p = pkt_put (cur + 18) ([VER_TYPE, 0] @ be_bytes16 (session_id st) @ net16 (ucast (pk_len p - 18 + 2))) p;
          p = pkt_put (cur + 24) (net16 PPP_IPV6_PROTOCOL) p;
          p = p\<lparr>pk_off := pk_off p - IPV6_PPPOE_HDR_LEN, pk_len := pk_len p + 8, pk_data_len := pk_data_len p + 8,
                 pk_eth := cur, pk_vlan := cur + 14\<rparr>;
          c = count_tx_packet p WAN_PORT c
      in (p, increase_pppoes_tx_count (pk_len p) c))"

definition ipv6_wan_to_lan_forward ::
  "('h, u8 list) data_hash \<Rightarrow> nd6_env \<Rightarrow> 'h nd6_table option \<Rightarrow> packet \<Rightarrow> dp_core \<Rightarrow>
   ipv6_forward_result \<times> packet \<times> dp_core" where
  "ipv6_wan_to_lan_forward H env table p c =
     (let eth = pk_eth p; vlan = pk_vlan p;
          ip6 = eth + IPV6_L2_LEN + IPV6_PPPOE_HDR_LEN
      in if ip6_hop_limits (pk_mem p) ip6 \<le> 1 then (IPV6_FWD_HOP_LIMIT, p, c)
      else case nd6_table_lookup H table (ip6_dst_addr (pk_mem p) ip6) of
        None \<Rightarrow> (IPV6_FWD_NEIGHBOR_MISS, p, c)
      | Some host_mac \<Rightarrow>
          let p = pkt_put (ip6 + 7) [ip6_hop_limits (pk_mem p) ip6 - 1] p;
              c = count_rx_packet p WAN_PORT c;
              c = increase_pppoes_rx_count (pk_len p) c;
              p = pkt_put (eth + 6) (nd_lan_mac env) p;
              p = pkt_put eth host_mac p;
              p = pkt_put (vlan + 2) (net16 FRAME_TYPE_IPV6) p;
              tmp_eth = bytes_at (pk_mem p) eth 14;
              tmp_vlan = bytes_at (pk_mem p) vlan 4;
              cur = eth + IPV6_PPPOE_HDR_LEN;
              p = pkt_put cur tmp_eth p;
              p = pkt_put (cur + 14) tmp_vlan p;
              p = p\<lparr>pk_off := pk_off p + IPV6_PPPOE_HDR_LEN, pk_len := pk_len p - 8, pk_data_len := pk_data_len p - 8,
                     pk_eth := cur, pk_vlan := cur + 14\<rparr>
          in (IPV6_FWD_OK, p, count_tx_packet p LAN_PORT c))"

text \<open>
  \<open>seen\<close> is the subscriber's \<open>nd6_miss_last_cycles\<close> and \<open>cas\<close> the outcome of the exchange on it.
\<close>

definition ipv6_neighbor_miss ::
  "'r rte_ring \<Rightarrow> clock \<Rightarrow> bool \<Rightarrow> packet \<Rightarrow> u64 \<times> 'r mailbox \<times> dp_core \<Rightarrow> u64 \<times> 'r mailbox \<times> dp_core" where
  "ipv6_neighbor_miss R clk cas p s =
     (case s of (seen, x, c) \<Rightarrow>
        if cur_cycles clk - seen < cycles_in_sec clk \<or> \<not> cas then (seen, x, drop_packet p WAN_PORT c)
        else (cur_cycles clk, send2cp R p EV_DP_ND6_MISS WAN_PORT (x, c)))"

definition ipv6_firewall_lan_to_wan_encap ::
  "('h, 'r) fw_dpdk \<Rightarrow> clock \<Rightarrow> u8 list \<Rightarrow> ppp_ccb \<Rightarrow> packet \<Rightarrow> ('h, 'r) fw_ccb \<times> dp_core \<Rightarrow>
   packet \<times> ('h, 'r) fw_ccb \<times> dp_core" where
  "ipv6_firewall_lan_to_wan_encap D clk wan_src_mac st p s =
     (case s of (fw, c) \<Rightarrow>
        let fw = ipv6_firewall_learn D clk (mem_from (pk_eth p + IPV6_L2_LEN) (pk_mem p)) fw
        in case ipv6_lan_to_wan_encap wan_src_mac st p c of (p, c) \<Rightarrow> (p, fw, c))"

definition ipv6_firewall_wan_to_lan_forward ::
  "('h, 'r) fw_dpdk \<Rightarrow> clock \<Rightarrow> ('n, u8 list) data_hash \<Rightarrow> nd6_env \<Rightarrow> 'n nd6_table option \<Rightarrow> packet \<Rightarrow>
   ('h, 'r) fw_ccb \<times> dp_core \<Rightarrow> ipv6_forward_result \<times> packet \<times> ('h, 'r) fw_ccb \<times> dp_core" where
  "ipv6_firewall_wan_to_lan_forward D clk H env table p s =
     (case s of (fw, c) \<Rightarrow>
        (case ipv6_firewall_inbound_pass D clk (mem_from (pk_eth p + IPV6_L2_LEN + IPV6_PPPOE_HDR_LEN) (pk_mem p)) fw of
           (False, fw) \<Rightarrow> (IPV6_FWD_FIREWALL_DROP, p, fw, c)
         | (True, fw) \<Rightarrow> (case ipv6_wan_to_lan_forward H env table p c of (r, p, c) \<Rightarrow> (r, p, fw, c))))"

section \<open>The frame after encapsulation\<close>

lemma bytes_at_add: "bytes_at m a (n + k) = bytes_at m a n @ bytes_at m (a + n) k"
  by (auto simp: list_eq_iff_nth_eq nth_append)

lemma bytes_at_1: "bytes_at m a 1 = [m a]"
  by (simp add: bytes_at_def)

lemma mem_put_adj: "b = a + length xs \<Longrightarrow> mem_put b ys (mem_put a xs m) = mem_put a (xs @ ys) m"
  by (auto simp: mem_put_def nth_append fun_eq_iff)

lemma mem_put_cover: "a \<le> b \<Longrightarrow> b + length ys \<le> a + length xs \<Longrightarrow> mem_put a xs (mem_put b ys m) = mem_put a xs m"
  by (auto simp: mem_put_def fun_eq_iff)

definition encap_header :: "u8 list \<Rightarrow> ppp_ccb \<Rightarrow> u8 list \<Rightarrow> u16 \<Rightarrow> u8 list" where
  "encap_header wan_src_mac st tags len =
     PPP_dst_mac st @ wan_src_mac @ tags @ net16 ETH_P_PPP_SES @ [VER_TYPE, 0] @
     be_bytes16 (session_id st) @ net16 len @ net16 PPP_IPV6_PROTOCOL"

lemma encap_mem:
  assumes "pk_eth p = a + 8" and "pk_vlan p = a + 22" and "length wm = 6" and "length (PPP_dst_mac st) = 6"
  shows "pk_mem (fst (ipv6_lan_to_wan_encap wm st p c)) =
    mem_put a (encap_header wm st (bytes_at (pk_mem p) (a + 20) 4) (ucast (pk_len p - 16)))
      (mem_put (a + 33) [pk_mem p (a + 33) - 1] (pk_mem p))" (is "?L = ?R")
proof -
  let ?m = "pk_mem p"
  define m4 where "m4 = mem_put (a + 24) (net16 ETH_P_PPP_SES) (mem_put (a + 8) (PPP_dst_mac st)
      (mem_put (a + 14) wm (mem_put (a + 33) [?m (a + 33) - 1] ?m)))"
  have tags: "bytes_at ?m (a + 20) 4 = bytes_at ?m (a + 20) 2 @ bytes_at ?m (a + 22) 2"
    using bytes_at_add [of ?m "a + 20" 2 2] by (simp add: add.commute)
  have eth: "bytes_at m4 (a + 8) 14 = PPP_dst_mac st @ wm @ bytes_at ?m (a + 20) 2"
    using bytes_at_add [of m4 "a + 8" 6 8] bytes_at_add [of m4 "a + 14" 6 2] assms(3,4)
    by (simp add: m4_def bytes_at_put_same bytes_at_put_out add.commute)
  have vlan: "bytes_at m4 (a + 22) 4 = bytes_at ?m (a + 22) 2 @ net16 ETH_P_PPP_SES"
    using bytes_at_add [of m4 "a + 22" 2 2] assms(3,4) by (simp add: m4_def bytes_at_put_same bytes_at_put_out add.commute)
  have "?L = mem_put (a + 24) (net16 PPP_IPV6_PROTOCOL)
      (mem_put (a + 18) ([VER_TYPE, 0] @ be_bytes16 (session_id st) @ net16 (ucast (pk_len p - 18 + 2)))
      (mem_put (a + 14) (bytes_at (mem_put a (bytes_at m4 (a + 8) 14) m4) (a + 22) 4) (mem_put a (bytes_at m4 (a + 8) 14) m4)))"
    using assms(1,2)
    by (simp add: ipv6_lan_to_wan_encap_def Let_def pkt_put_def m4_def ip6_hop_limits_def add.commute)
  then have L: "?L = mem_put (a + 24) (net16 PPP_IPV6_PROTOCOL)
      (mem_put (a + 18) ([VER_TYPE, 0] @ be_bytes16 (session_id st) @ net16 (ucast (pk_len p - 16)))
      (mem_put (a + 14) (bytes_at ?m (a + 22) 2 @ net16 ETH_P_PPP_SES)
      (mem_put a (PPP_dst_mac st @ wm @ bytes_at ?m (a + 20) 2) m4)))"
    using eth vlan assms(3,4) by (simp add: bytes_at_put_out)
  show ?thesis
    unfolding L m4_def encap_header_def tags using assms(3,4) by (simp add: mem_put_adj mem_put_cover)
qed

lemma encap_fields:
  assumes "pk_eth p = a + 8" and "pk_off p = a + 8"
  shows "pk_eth (fst (ipv6_lan_to_wan_encap wm st p c)) = a" "pk_vlan (fst (ipv6_lan_to_wan_encap wm st p c)) = a + 14"
    "pk_off (fst (ipv6_lan_to_wan_encap wm st p c)) = a" "pk_len (fst (ipv6_lan_to_wan_encap wm st p c)) = pk_len p + 8"
    "pk_data_len (fst (ipv6_lan_to_wan_encap wm st p c)) = pk_data_len p + 8"
    "pk_id (fst (ipv6_lan_to_wan_encap wm st p c)) = pk_id p" "pk_ccb_id (fst (ipv6_lan_to_wan_encap wm st p c)) = pk_ccb_id p"
  using assms by (simp_all add: ipv6_lan_to_wan_encap_def Let_def pkt_put_def)

section \<open>The frame after decapsulation\<close>

definition decap_header :: "u8 list \<Rightarrow> u8 list \<Rightarrow> u8 list \<Rightarrow> u8 list" where
  "decap_header host_mac lan_mac tags = host_mac @ lan_mac @ tags @ net16 FRAME_TYPE_IPV6"

lemma forward_ok:
  assumes p: "pk_eth p = a" "pk_vlan p = a + 14" and len: "length host = 6" "length (nd_lan_mac env) = 6"
    and hop: "1 < pk_mem p (a + 33)" and found: "nd6_table_lookup H table (ip6_dst_addr (pk_mem p) (a + 26)) = Some host"
  obtains q c' where "ipv6_wan_to_lan_forward H env table p c = (IPV6_FWD_OK, q, c')"
    and "pk_eth q = a + 8" "pk_vlan q = a + 22" "pk_off q = pk_off p + 8" "pk_len q = pk_len p - 8"
      "pk_data_len q = pk_data_len p - 8" "pk_id q = pk_id p" "pk_ccb_id q = pk_ccb_id p" "dc_freed c' = dc_freed c"
    and "\<And>i. a + 8 \<le> i \<Longrightarrow> pk_mem q i = mem_put (a + 8) (decap_header host (nd_lan_mac env) (bytes_at (pk_mem p) (a + 12) 4))
           (mem_put (a + 33) [pk_mem p (a + 33) - 1] (pk_mem p)) i"
proof -
  let ?m = "pk_mem p"
  have hop: "\<not> ?m (a + 33) \<le> 1" using hop by (simp only: not_le)
  define q c' where "q = fst (snd (ipv6_wan_to_lan_forward H env table p c))"
    and "c' = snd (snd (ipv6_wan_to_lan_forward H env table p c))"
  have ok: "ipv6_wan_to_lan_forward H env table p c = (IPV6_FWD_OK, q, c')"
    using p hop found by (simp add: q_def c'_def ipv6_wan_to_lan_forward_def Let_def ip6_hop_limits_def add.commute)
  have fields: "pk_eth q = a + 8" "pk_vlan q = a + 22" "pk_off q = pk_off p + 8" "pk_len q = pk_len p - 8"
      "pk_data_len q = pk_data_len p - 8" "pk_id q = pk_id p" "pk_ccb_id q = pk_ccb_id p" "dc_freed c' = dc_freed c"
    using p hop found by (simp_all add: q_def c'_def ipv6_wan_to_lan_forward_def Let_def ip6_hop_limits_def pkt_put_def add.commute)
  define m4 where "m4 = mem_put (a + 16) (net16 FRAME_TYPE_IPV6) (mem_put a host
      (mem_put (a + 6) (nd_lan_mac env) (mem_put (a + 33) [?m (a + 33) - 1] ?m)))"
  have tags: "bytes_at ?m (a + 12) 4 = bytes_at ?m (a + 12) 2 @ bytes_at ?m (a + 14) 2"
    using bytes_at_add [of ?m "a + 12" 2 2] by (simp add: add.commute)
  have eth: "bytes_at m4 a 14 = host @ nd_lan_mac env @ bytes_at ?m (a + 12) 2"
    using bytes_at_add [of m4 a 6 8] bytes_at_add [of m4 "a + 6" 6 2] len
    by (simp add: m4_def bytes_at_put_same bytes_at_put_out add.commute)
  have vlan: "bytes_at m4 (a + 14) 4 = bytes_at ?m (a + 14) 2 @ net16 FRAME_TYPE_IPV6"
    using bytes_at_add [of m4 "a + 14" 2 2] len by (simp add: m4_def bytes_at_put_same bytes_at_put_out add.commute)
  have "pk_mem q = mem_put (a + 22) (bytes_at m4 (a + 14) 4) (mem_put (a + 8) (bytes_at m4 a 14) m4)"
    using p hop found
    by (simp add: q_def ipv6_wan_to_lan_forward_def Let_def pkt_put_def m4_def ip6_hop_limits_def add.commute)
  also have "\<dots> = mem_put (a + 8) (decap_header host (nd_lan_mac env) (bytes_at ?m (a + 12) 4)) m4"
    unfolding eth vlan decap_header_def tags using len by (simp add: mem_put_adj)
  finally have mem: "pk_mem q = mem_put (a + 8) (decap_header host (nd_lan_mac env) (bytes_at ?m (a + 12) 4)) m4" .
  have "pk_mem q i = mem_put (a + 8) (decap_header host (nd_lan_mac env) (bytes_at ?m (a + 12) 4))
      (mem_put (a + 33) [?m (a + 33) - 1] ?m) i" if "a + 8 \<le> i" for i
    unfolding mem m4_def using that len by (auto simp: mem_put_def decap_header_def)
  with ok fields show thesis by (rule that)
qed

section \<open>The answer to a packet that does not fit\<close>

text \<open>An IPv6 header and an ICMPv6 message that quotes \<open>quote\<close> to \<open>dst\<close>.\<close>

definition too_big_packet :: "nd6_env \<Rightarrow> u8 list \<Rightarrow> u8 list \<Rightarrow> u8 list \<Rightarrow> u8 list \<Rightarrow> bool" where
  "too_big_packet env dst quote hdr msg \<longleftrightarrow>
     length hdr = 40 \<and> take 16 (drop 8 hdr) = nd6_gateway_link_local (nd_lan_mac env) \<and> drop 24 hdr = dst \<and>
     rte_be_to_cpu_16 (load16 (drop 4 hdr)) = of_nat (length msg) \<and>
     take 2 msg = [2, 0] \<and> take 4 (drop 4 msg) = [0, 0, 0x05, 0xD4] \<and> drop 8 msg = quote \<and> length msg = 8 + length quote \<and>
     nd_cksum_ok env hdr msg"

lemma too_big_frame:
  assumes "nd_env_contract env"
  obtains hdr msg where
    "ipv6_build_packet_too_big env m eth vlan ip6 n =
       bytes_at m (eth + 6) 6 @ nd_lan_mac env @ [0x81, 0] @ bytes_at m vlan 2 @ [0x86, 0xDD] @ hdr @ msg"
    "too_big_packet env (ip6_src_addr m ip6) (bytes_at m ip6 (min (unat n) 1232)) hdr msg"
proof -
  define quote where "quote = bytes_at m ip6 (min (unat n) 1232)"
  define hdr where "hdr = net32 (push_bit 28 6) @ net16 (of_nat (8 + length quote)) @ [IPPROTO_ICMPV6, IPV6_ERROR_HOP_LIMIT] @
     nd6_gateway_link_local (nd_lan_mac env) @ ip6_src_addr m ip6"
  define k where "k = nd_cksum env hdr ([ICMP6_PACKET_TOO_BIG, 0] @ be_bytes16 0 @ net32 1492 @ quote)"
  define msg where "msg = [ICMP6_PACKET_TOO_BIG, 0] @ be_bytes16 k @ net32 1492 @ quote"
  have ck: "nd_cksum_ok env hdr msg"
    using assms unfolding nd_env_contract_def msg_def k_def by blast
  have ml: "length msg = 8 + length quote" by (simp add: msg_def)
  have "net32 1492 = [0, 0, 0x05, 0xD4]" by (simp add: be_bytes32_def bswap32_def)
  then have mparts: "take 2 msg = [2, 0]" "take 4 (drop 4 msg) = [0, 0, 0x05, 0xD4]" "drop 8 msg = quote"
    by (simp_all add: msg_def be_bytes16_def)
  have hparts: "length hdr = 40" "take 16 (drop 8 hdr) = nd6_gateway_link_local (nd_lan_mac env)" "drop 24 hdr = ip6_src_addr m ip6"
      "rte_be_to_cpu_16 (load16 (drop 4 hdr)) = of_nat (length msg)"
    by (simp_all add: hdr_def load16_net16 [simplified] ml ip6_src_addr_def)
  have frame: "ipv6_build_packet_too_big env m eth vlan ip6 n =
       bytes_at m (eth + 6) 6 @ nd_lan_mac env @ [0x81, 0] @ bytes_at m vlan 2 @ [0x86, 0xDD] @ hdr @ msg"
    by (simp add: ipv6_build_packet_too_big_def Let_def hdr_def msg_def k_def quote_def be_bytes16_def bswap16_def)
  show thesis by (rule that [OF frame]) (use ck ml mparts hparts in \<open>simp add: too_big_packet_def quote_def\<close>)
qed

lemma reply_holds:
  assumes "ipv6_build_packet_too_big env (pk_mem p) (pk_eth p) (pk_vlan p) ip6 (ucast (pk_len p - 18)) = frame"
    and "length frame < 65536"
  shows "\<exists>r c'. build_ipv6_packet_too_big_reply env (Some buf) p ip6 c = (Some r, c') \<and>
    dc_freed c' = dc_freed c @ [pk_id p] \<and> pk_id r = pk_id buf \<and> pk_off r = pk_off buf \<and>
    bytes_at (pk_mem r) (pk_off r) (unat (pk_len r)) = frame"
proof -
  have "unat (of_nat (length frame) :: u32) = length frame" using assms(2) by (simp add: unat_of_nat)
  then show ?thesis using assms(1)
    by (auto simp: build_ipv6_packet_too_big_reply_def Let_def pkt_put_def bytes_at_put_same)
qed

section \<open>Properties\<close>

text \<open>
  C29: through the session and back. Encapsulating a frame puts before it exactly the headers of a PPPoE
  session frame of this session, whose length field counts the PPP protocol and the IPv6 packet; and a
  gateway that knows the destination's MAC address turns that frame into one of the original size at the
  original place in the buffer, from the gateway to that host, with the VLAN tag kept and the IPv6
  packet unchanged but for the hop limit, lower by the two hops.
\<close>

theorem ipv6_tunnel_round_trip:
  assumes p: "8 \<le> pk_eth p" "pk_off p = pk_eth p" "pk_vlan p = pk_eth p + 14"
    and len: "length wan_src_mac = 6" "length (PPP_dst_mac st) = 6" "length (nd_lan_mac env) = 6" "length host_mac = 6"
    and hop: "2 < ip6_hop_limits (pk_mem p) (pk_eth p + 18)"
    and found: "nd6_table_lookup H table (ip6_dst_addr (pk_mem p) (pk_eth p + 18)) = Some host_mac"
    and q: "ipv6_lan_to_wan_encap wan_src_mac st p c = (q, c1)"
  shows "bytes_at (pk_mem q) (pk_off q) 26 =
      PPP_dst_mac st @ wan_src_mac @ bytes_at (pk_mem p) (pk_eth p + 12) 4 @ [0x88, 0x64, 0x11, 0] @
      be_bytes16 (session_id st) @ net16 (ucast (pk_len p - 16)) @ [0, 0x57] \<and>
    (\<exists>r c2. ipv6_wan_to_lan_forward H env table q c1 = (IPV6_FWD_OK, r, c2) \<and>
      pk_off r = pk_off p \<and> pk_eth r = pk_eth p \<and> pk_vlan r = pk_vlan p \<and> pk_len r = pk_len p \<and> pk_data_len r = pk_data_len p \<and>
      bytes_at (pk_mem r) (pk_off r) 18 = host_mac @ nd_lan_mac env @ bytes_at (pk_mem p) (pk_eth p + 12) 4 @ [0x86, 0xDD] \<and>
      (\<forall>i \<ge> pk_eth p + 18. pk_mem r i = (if i = pk_eth p + 25 then pk_mem p i - 2 else pk_mem p i)) \<and>
      dc_freed c2 = dc_freed c)"
proof -
  obtain a where a: "pk_eth p = a + 8" using p(1) by (metis le_Suc_ex add.commute)
  have av: "pk_off p = a + 8" "pk_vlan p = a + 22" using p a by simp_all
  have q': "q = fst (ipv6_lan_to_wan_encap wan_src_mac st p c)" and c1: "dc_freed c1 = dc_freed c"
    using q by (auto simp: ipv6_lan_to_wan_encap_def Let_def)
  note qf = encap_fields [OF a av(1), of wan_src_mac st c, folded q']
  let ?hd = "encap_header wan_src_mac st (bytes_at (pk_mem p) (a + 20) 4) (ucast (pk_len p - 16))"
  have mem: "pk_mem q = mem_put a ?hd (mem_put (a + 33) [pk_mem p (a + 33) - 1] (pk_mem p))"
    unfolding q' by (rule encap_mem [OF a av(2) len(1,2)])
  have hl: "length ?hd = 26" using len by (simp add: encap_header_def)
  have first: "bytes_at (pk_mem q) (pk_off q) 26 = ?hd" using hl by (simp add: qf mem bytes_at_put_same)
  have upper: "pk_mem q i = (if i = a + 33 then pk_mem p i - 1 else pk_mem p i)" if "a + 26 \<le> i" for i
    using that hl by (auto simp: mem mem_put_def)
  have dst: "ip6_dst_addr (pk_mem q) (a + 26) = ip6_dst_addr (pk_mem p) (pk_eth p + 18)"
    unfolding ip6_dst_addr_def a by (auto simp: list_eq_iff_nth_eq upper)
  have qhop: "1 < pk_mem q (a + 33)"
  proof -
    have "unat (pk_mem p (a + 33)) > 2" using hop by (simp add: ip6_hop_limits_def a word_less_nat_alt add.commute)
    then show ?thesis by (simp add: upper word_less_nat_alt unat_sub_if_size)
  qed
  have tag: "bytes_at (pk_mem q) (a + 12) 4 = bytes_at (pk_mem p) (a + 20) 4"
  proof -
    have "bytes_at (pk_mem q) a 26 ! (12 + i) = ?hd ! (12 + i)" if "i < 4" for i using first qf(3) by simp
    then show ?thesis using len by (auto simp: list_eq_iff_nth_eq encap_header_def nth_append ac_simps)
  qed
  obtain r c2 where r: "ipv6_wan_to_lan_forward H env table q c1 = (IPV6_FWD_OK, r, c2)"
      "pk_eth r = a + 8" "pk_vlan r = a + 22" "pk_off r = pk_off q + 8" "pk_len r = pk_len q - 8"
      "pk_data_len r = pk_data_len q - 8" "dc_freed c2 = dc_freed c1"
    and rm: "\<And>i. a + 8 \<le> i \<Longrightarrow> pk_mem r i = mem_put (a + 8) (decap_header host_mac (nd_lan_mac env) (bytes_at (pk_mem q) (a + 12) 4))
           (mem_put (a + 33) [pk_mem q (a + 33) - 1] (pk_mem q)) i"
    using forward_ok [OF qf(1,2) len(4,3) qhop found [folded dst]] by metis
  have dl: "length (decap_header host_mac (nd_lan_mac env) (bytes_at (pk_mem q) (a + 12) 4)) = 18"
    using len by (simp add: decap_header_def)
  have head: "bytes_at (pk_mem r) (a + 8) 18 = decap_header host_mac (nd_lan_mac env) (bytes_at (pk_mem p) (a + 20) 4)"
    using dl by (auto simp: list_eq_iff_nth_eq rm mem_put_def tag)
  have tail: "pk_mem r i = (if i = a + 33 then pk_mem p i - 2 else pk_mem p i)" if "a + 26 \<le> i" for i
  proof (cases "i = a + 33")
    case True
    then show ?thesis using dl upper [of "a + 33"] by (simp add: rm mem_put_def)
  next
    case False
    then show ?thesis using that dl upper [OF that] by (auto simp: rm mem_put_def)
  qed
  have net: "net16 ETH_P_PPP_SES = [0x88, 0x64]" "net16 PPP_IPV6_PROTOCOL = [0, 0x57]" "net16 FRAME_TYPE_IPV6 = [0x86, 0xDD]"
    by (simp_all add: be_bytes16_def bswap16_def)
  show ?thesis
    using first r head tail qf c1 av a
    by (auto simp: encap_header_def decap_header_def net add.commute)
qed

text \<open>
  C30: the answer to a packet that does not fit. With no buffer the packet is dropped and nothing is
  sent. Otherwise the packet is given back once and the reply holds one frame of at most 1280 bytes
  behind the Ethernet and VLAN headers, whatever the size of the packet: to the sender's MAC and IPv6
  address, from the gateway, with the sender's VLAN tag, with a valid checksum, carrying the MTU of the
  session and as much of the packet as fits.
\<close>

theorem ipv6_too_big_reply:
  assumes "nd_env_contract env" and "length (nd_lan_mac env) = 6"
  shows "build_ipv6_packet_too_big_reply env None p ip6 c = (None, drop_packet p LAN_PORT (count_rx_packet p LAN_PORT c)) \<and>
    (\<exists>r c' hdr msg. build_ipv6_packet_too_big_reply env (Some buf) p ip6 c = (Some r, c') \<and>
       dc_freed c' = dc_freed c @ [pk_id p] \<and> pk_id r = pk_id buf \<and> pk_off r = pk_off buf \<and>
       bytes_at (pk_mem r) (pk_off r) (unat (pk_len r)) =
         bytes_at (pk_mem p) (pk_eth p + 6) 6 @ nd_lan_mac env @ [0x81, 0] @ bytes_at (pk_mem p) (pk_vlan p) 2 @ [0x86, 0xDD] @ hdr @ msg \<and>
       too_big_packet env (ip6_src_addr (pk_mem p) ip6)
         (bytes_at (pk_mem p) ip6 (min (unat (ucast (pk_len p - 18) :: u16)) 1232)) hdr msg \<and>
       length (hdr @ msg) \<le> 1280)"
proof -
  obtain hdr msg where f: "ipv6_build_packet_too_big env (pk_mem p) (pk_eth p) (pk_vlan p) ip6 (ucast (pk_len p - 18)) =
      bytes_at (pk_mem p) (pk_eth p + 6) 6 @ nd_lan_mac env @ [0x81, 0] @ bytes_at (pk_mem p) (pk_vlan p) 2 @ [0x86, 0xDD] @ hdr @ msg"
    and t: "too_big_packet env (ip6_src_addr (pk_mem p) ip6)
      (bytes_at (pk_mem p) ip6 (min (unat (ucast (pk_len p - 18) :: u16)) 1232)) hdr msg"
    by (rule too_big_frame [OF assms(1)])
  have small: "length (hdr @ msg) \<le> 1280" using t by (auto simp: too_big_packet_def)
  show ?thesis
    using reply_holds [OF f, of buf c] small t assms(2)
    by (fastforce simp: build_ipv6_packet_too_big_reply_def Let_def)
qed

end
