(* ===== verification/Dp_Codec.thy ===== *)
theory Dp_Codec
  imports Dp_Ipv6 Snat_Props Mac_Table_Props Arp_Queue
begin

text \<open>
  IPv4 between the LAN and the PPPoE session (\<^verbatim>\<open>src/src/dp_codec.h\<close>): translation and encapsulation of
  UDP, TCP and ICMP towards the WAN, the way back, and the answer to a packet that does not fit.

  The operations work on one subscriber as the calling core sees it: its tables, the core's counters and
  batches, the mailbox and the transmit queues.
\<close>

section \<open>State\<close>

text \<open>
  The subscriber and the core. \<open>dv_wan_pkt\<close> and \<open>dv_lan_pkt\<close> are the batches collected for the two ports,
  \<open>dv_dist_pkt\<close> the batch for the worker cores, \<open>dv_sent\<close> the packets the core transmitted by itself with
  their port and queue, \<open>dv_arp_out\<close> the ARP requests it sent with their queue.
\<close>

record ('rh, 'fh, 'wh, 'm, 'n, 'r, 'p) dp_ccb =
  dv_ppp :: ppp_ccb
  dv_nat :: "('rh, 'fh, 'r) nat_ccb"
  dv_fw :: "('wh, 'r) fw_ccb"
  dv_mac_table :: "'m mac_table option"
  dv_nd6_table :: "'n nd6_table option"
  dv_nd6_miss_last_cycles :: u64
  dv_arp_pq :: "('r, 'p) arp_queue"
  dv_dhcp_server_ip :: u32
  dv_subnet_mask :: u32
  dv_dhcp_bool :: bool
  dv_dns_proxy_enabled :: bool
  dv_core :: dp_core
  dv_mail :: "'r mailbox"
  dv_txq :: "'r tx_queues"
  dv_wan_pkt :: "packet list"
  dv_lan_pkt :: "packet list"
  dv_dist_pkt :: "(packet \<times> u32) list"
  dv_sent :: "(u16 \<times> u16 \<times> packet) list"
  dv_arp_out :: "(u16 \<times> u8 list) list"

text \<open>
  What an operation is given: the objects of DPDK, the outcome of calls into it (a buffer from the pool,
  whether a frame handed to the port is taken, whether an ARP request leaves), the checksum functions,
  the MAC addresses, and the two operations on a buffer's ends.
\<close>

record ('rh, 'fh, 'wh, 'm, 'n, 'r, 'p) dp_env =
  de_nat :: "('rh, 'fh, 'r) nat_dpdk"
  de_fw :: "('wh, 'r) fw_dpdk"
  de_mac :: "('m, u32) data_hash"
  de_nd :: "('n, u8 list) data_hash"
  de_arp :: "('r, 'p) arp_dpdk"
  de_ring :: "'r rte_ring"
  de_crc :: crc_ops
  de_nd6 :: nd6_env
  de_wan_src_mac :: "u8 list"
  de_ipv4_cksum :: "memory \<Rightarrow> nat \<Rightarrow> u16"
  de_udptcp_cksum :: "memory \<Rightarrow> nat \<Rightarrow> nat \<Rightarrow> u16"
  de_raw_cksum :: "u8 list \<Rightarrow> u16"
  de_prepend :: "nat \<Rightarrow> packet \<Rightarrow> packet option"
  de_adj :: "nat \<Rightarrow> packet \<Rightarrow> packet"
  de_alloc :: "packet option"
  de_tx_taken :: bool
  de_arp_sent :: bool
  de_cas :: bool
  de_frame_type_arp :: u16
  de_frame_type_ip :: u16

abbreviation de_clock where "de_clock E \<equiv> nd_clock (de_nd6 E)"
abbreviation de_lan_mac where "de_lan_mac E \<equiv> nd_lan_mac (de_nd6 E)"

definition upd_core :: "(dp_core \<Rightarrow> dp_core) \<Rightarrow> ('rh, 'fh, 'wh, 'm, 'n, 'r, 'p) dp_ccb \<Rightarrow> ('rh, 'fh, 'wh, 'm, 'n, 'r, 'p) dp_ccb" where
  "upd_core f s = s\<lparr>dv_core := f (dv_core s)\<rparr>"

section \<open>Headers\<close>

abbreviation ETH_MTU :: nat where "ETH_MTU \<equiv> 1500"
abbreviation PPP_IP_PROTOCOL :: u16 where "PPP_IP_PROTOCOL \<equiv> 0x0021"
abbreviation ICMP_UNREACH_DATA_PAYLOAD_LEN :: nat where "ICMP_UNREACH_DATA_PAYLOAD_LEN \<equiv> 8"
abbreviation ICMP_ECHO_REPLY :: u8 where "ICMP_ECHO_REPLY \<equiv> 0"
abbreviation ICMP_ECHO_REQUEST :: u8 where "ICMP_ECHO_REQUEST \<equiv> 8"

definition ipv4_hdr_at :: "memory \<Rightarrow> nat \<Rightarrow> ipv4_hdr" where
  "ipv4_hdr_at m a = \<lparr>ip_version_ihl = m a, ip_total_length = word16_at m (a + 2), ip_src_addr = word32_at m (a + 12),
     ip_dst_addr = word32_at m (a + 16)\<rparr>"

text \<open>A MAC address as the six bytes of the frame and as the table stores it.\<close>

definition mac48 :: "u8 list \<Rightarrow> 48 word" where
  "mac48 bs = fold (\<lambda>i v. v OR push_bit (i * 8) (ucast (bs ! i))) [0..<6] 0"

definition mac48_bytes :: "48 word \<Rightarrow> u8 list" where
  "mac48_bytes v = map (\<lambda>i. ucast (drop_bit (i * 8) v)) [0..<6]"

definition put16 :: "nat \<Rightarrow> u16 \<Rightarrow> packet \<Rightarrow> packet" where
  "put16 a x p = pkt_put a (be_bytes16 x) p"

definition put32 :: "nat \<Rightarrow> u32 \<Rightarrow> packet \<Rightarrow> packet" where
  "put32 a x p = pkt_put a (be_bytes32 x) p"

section \<open>Packet does not fit\<close>

text \<open>\<open>orig_ip_total_len - 20\<close> is computed in \<open>size_t\<close>: a length below twenty gives a number above eight.\<close>

definition build_icmp_unreach ::
  "('rh, 'fh, 'wh, 'm, 'n, 'r, 'p) dp_env \<Rightarrow> u32 \<Rightarrow> packet \<Rightarrow> nat \<Rightarrow> nat \<Rightarrow> nat \<Rightarrow> packet \<Rightarrow> packet" where
  "build_icmp_unreach E dhcp_server_ip orig eth vlan ip p =
     (let m = pk_mem orig; a = pk_off p; ip' = a + 18; icmp = a + 38;
          p = pkt_put a (bytes_at m (eth + 6) 6) p;
          p = pkt_put (a + 6) (de_lan_mac E) p;
          p = put16 (a + 12) (rte_cpu_to_be_16 VLAN) p;
          p = pkt_put (a + 14) (bytes_at m vlan 4) p;
          p = pkt_put ip' (bytes_at m ip 20) p;
          p = put32 (ip' + 16) (word32_at m (ip + 12)) p;
          p = put32 (ip' + 12) dhcp_server_ip p;
          p = put16 (ip' + 4) 0 p;
          p = pkt_put (ip' + 9) [IPPROTO_ICMP] p;
          p = pkt_put icmp [3, 4] p;
          p = put16 (icmp + 4) 0 p;
          p = put16 (icmp + 6) (rte_cpu_to_be_16 (of_nat (ETH_MTU - 20 - 4 - 6 - 2))) p;
          total = unat (rte_be_to_cpu_16 (word16_at m (ip + 2)));
          orig_data_len = (if total < 20 then ICMP_UNREACH_DATA_PAYLOAD_LEN else min (total - 20) ICMP_UNREACH_DATA_PAYLOAD_LEN);
          p = pkt_put (icmp + 8) (bytes_at m ip (20 + orig_data_len)) p;
          p = put16 (ip' + 2) (rte_cpu_to_be_16 (20 + 8 + 20 + 8)) p;
          p = put16 (icmp + 2) 0 p;
          p = put16 (icmp + 2) (NOT (de_raw_cksum E (bytes_at (pk_mem p) icmp 36))) p;
          p = put16 (ip' + 10) 0 p;
          p = put16 (ip' + 10) (de_ipv4_cksum E (pk_mem p) ip') p
      in p\<lparr>pk_len := 74, pk_data_len := 74\<rparr>)"

text \<open>The branch that UDP and TCP share for a packet over the limit.\<close>

definition encaps_refused ::
  "('rh, 'fh, 'wh, 'm, 'n, 'r, 'p) dp_env \<Rightarrow> u16 \<Rightarrow> packet \<Rightarrow> nat \<Rightarrow> nat \<Rightarrow> nat \<Rightarrow> ('rh, 'fh, 'wh, 'm, 'n, 'r, 'p) dp_ccb \<Rightarrow> ('rh, 'fh, 'wh, 'm, 'n, 'r, 'p) dp_ccb" where
  "encaps_refused E lan_tx_queue p eth vlan ip s =
     (case de_alloc E of
        None \<Rightarrow> upd_core (drop_packet p LAN_PORT) s
      | Some buf \<Rightarrow>
          let reply = build_icmp_unreach E (dv_dhcp_server_ip s) p eth vlan ip buf;
              s = upd_core (count_rx_packet p LAN_PORT) s;
              s = upd_core (count_tx_packet reply LAN_PORT) s
          in case send_pkt_to_other_lcore (de_ring E) LAN_PORT lan_tx_queue (pk_id reply) (dv_txq s) of
               (res, txq) \<Rightarrow>
                 let s = s\<lparr>dv_txq := txq\<rparr>;
                     s = (if res = ERROR then upd_core (drop_packet reply LAN_PORT) s else s)
                 in upd_core (drop_packet p LAN_PORT) s)"

section \<open>Towards the WAN\<close>

definition insert_pppoes_hdr :: "('rh, 'fh, 'wh, 'm, 'n, 'r, 'p) dp_env \<Rightarrow> ppp_ccb \<Rightarrow> u16 \<Rightarrow> packet \<Rightarrow> status \<times> packet" where
  "insert_pppoes_hdr E st vlan_hdr_tci p =
     (case de_prepend E 26 p of
        None \<Rightarrow> (ERROR, p)
      | Some p \<Rightarrow>
          let eth = pk_off p;
              p = pkt_put (eth + 6) (de_wan_src_mac E) p;
              p = pkt_put eth (PPP_dst_mac st) p;
              p = put16 (eth + 12) (rte_cpu_to_be_16 VLAN) p;
              p = put16 (eth + 14) vlan_hdr_tci p;
              p = put16 (eth + 16) (rte_cpu_to_be_16 ETH_P_PPP_SES) p;
              p = pkt_put (eth + 18) [VER_TYPE, 0] p;
              p = put16 (eth + 20) (session_id st) p;
              p = put16 (eth + 22) (rte_cpu_to_be_16 (pk_data_len p - 24)) p;
              p = put16 (eth + 24) (rte_cpu_to_be_16 PPP_IP_PROTOCOL) p
          in (SUCCESS, p))"

text \<open>
  The port walk always returns (\<open>learning_total\<close>), so the second case is never taken.
\<close>

definition learn_port :: "(u16 \<times> nat option \<times> 's) option \<Rightarrow> 's \<Rightarrow> u16 \<times> 's" where
  "learn_port r st = (case r of Some (port, out, st') \<Rightarrow> (port, st') | None \<Rightarrow> (0, st))"

definition learn_tcp_port :: "(u16 \<times> 's) option \<Rightarrow> 's \<Rightarrow> u16 \<times> 's" where
  "learn_tcp_port r st = (case r of Some x \<Rightarrow> x | None \<Rightarrow> (0, st))"

text \<open>
  UDP and TCP differ in the learning call and in where the checksum is: \<open>l4_cksum\<close> is its offset from
  the IPv4 header.
\<close>

definition encaps_l4 ::
  "(packet \<Rightarrow> ('rh, 'fh, 'r) nat_ccb \<Rightarrow> u16 \<times> ('rh, 'fh, 'r) nat_ccb) \<Rightarrow> nat \<Rightarrow> ('rh, 'fh, 'wh, 'm, 'n, 'r, 'p) dp_env \<Rightarrow> u16 \<Rightarrow>
   packet \<Rightarrow> nat \<Rightarrow> nat \<Rightarrow> nat \<Rightarrow> ('rh, 'fh, 'wh, 'm, 'n, 'r, 'p) dp_ccb \<Rightarrow> nat \<times> packet \<times> ('rh, 'fh, 'wh, 'm, 'n, 'r, 'p) dp_ccb" where
  "encaps_l4 learn l4_cksum E lan_tx_queue p eth vlan ip s =
     (let vlan_hdr_tci = word16_at (pk_mem p) vlan in
      if ETH_MTU - (4 + 6 + 2) < unat (pk_len p) then (0, p, encaps_refused E lan_tx_queue p eth vlan ip s)
      else let p = put16 (ip + 10) 0 p in
      case learn p (dv_nat s) of (new_port_id, nat') \<Rightarrow>
      let s = s\<lparr>dv_nat := nat'\<rparr> in
      if new_port_id = 0 then (0, p, upd_core (drop_packet p LAN_PORT) s)
      else let p = put32 (ip + 12) (hsi_ipv4 (dv_ppp s)) p;
               p = put16 (ip + 20) new_port_id p;
               p = put16 (ip + 10) (de_ipv4_cksum E (pk_mem p) ip) p;
               p = put16 (ip + l4_cksum) 0 p;
               p = put16 (ip + l4_cksum) (de_udptcp_cksum E (pk_mem p) ip (ip + 20)) p
      in case insert_pppoes_hdr E (dv_ppp s) vlan_hdr_tci p of
           (ERROR, p) \<Rightarrow> (0, p, upd_core (drop_packet p LAN_PORT) s)
         | (SUCCESS, p) \<Rightarrow>
             let s = upd_core (count_rx_packet p LAN_PORT) s;
                 s = upd_core (count_tx_packet p WAN_PORT) s;
                 s = upd_core (increase_pppoes_tx_count (pk_len p)) s
             in (1, p, s))"

definition encaps_udp ::
  "('rh, 'fh, 'wh, 'm, 'n, 'r, 'p) dp_env \<Rightarrow> u16 \<Rightarrow> packet \<Rightarrow> nat \<Rightarrow> nat \<Rightarrow> nat \<Rightarrow> ('rh, 'fh, 'wh, 'm, 'n, 'r, 'p) dp_ccb \<Rightarrow> nat \<times> packet \<times> ('rh, 'fh, 'wh, 'm, 'n, 'r, 'p) dp_ccb" where
  "encaps_udp E lan_tx_queue p eth vlan ip s =
     encaps_l4 (\<lambda>p st. learn_port (nat_udp_learning (de_nat E) (de_clock E) (mac48 (bytes_at (pk_mem p) (eth + 6) 6)) (ipv4_hdr_at (pk_mem p) ip)
         (word16_at (pk_mem p) (ip + 20)) (word16_at (pk_mem p) (ip + 22)) st) st)
       26 E lan_tx_queue p eth vlan ip s"

definition encaps_tcp ::
  "('rh, 'fh, 'wh, 'm, 'n, 'r, 'p) dp_env \<Rightarrow> u16 \<Rightarrow> packet \<Rightarrow> nat \<Rightarrow> nat \<Rightarrow> nat \<Rightarrow> ('rh, 'fh, 'wh, 'm, 'n, 'r, 'p) dp_ccb \<Rightarrow> nat \<times> packet \<times> ('rh, 'fh, 'wh, 'm, 'n, 'r, 'p) dp_ccb" where
  "encaps_tcp E lan_tx_queue p eth vlan ip s =
     encaps_l4 (\<lambda>p st. learn_tcp_port (nat_tcp_learning (de_nat E) (de_clock E) (mac48 (bytes_at (pk_mem p) (eth + 6) 6)) (ipv4_hdr_at (pk_mem p) ip)
         (tcp_hdr_at (pk_mem p) (ip + 20)) st) st)
       36 E lan_tx_queue p eth vlan ip s"

text \<open>The difference is an \<open>int\<close>; the sum is folded once.\<close>

definition icmp_cksum_adjust :: "u16 \<Rightarrow> u16 \<Rightarrow> u16 \<Rightarrow> u16" where
  "icmp_cksum_adjust cksum old new =
     (let x = word_of_int (uint cksum + uint old - uint new) :: u32 in
      if drop_bit 16 x \<noteq> 0 then ucast ((x AND 0xFFFF) + drop_bit 16 x) else ucast x)"

definition encaps_icmp ::
  "('rh, 'fh, 'wh, 'm, 'n, 'r, 'p) dp_env \<Rightarrow> packet \<Rightarrow> nat \<Rightarrow> nat \<Rightarrow> nat \<Rightarrow> nat \<Rightarrow> ('rh, 'fh, 'wh, 'm, 'n, 'r, 'p) dp_ccb \<Rightarrow> nat \<times> packet \<times> ('rh, 'fh, 'wh, 'm, 'n, 'r, 'p) dp_ccb" where
  "encaps_icmp E p eth vlan ip icmp s =
     (let vlan_hdr_tci = word16_at (pk_mem p) vlan;
          ori_ident = word16_at (pk_mem p) (icmp + 4) in
      case learn_port (nat_icmp_learning (de_nat E) (de_clock E) (mac48 (bytes_at (pk_mem p) (eth + 6) 6))
             (ipv4_hdr_at (pk_mem p) ip) ori_ident (pk_mem p icmp) (dv_nat s)) (dv_nat s) of (new_port_id, nat') \<Rightarrow>
      let s = s\<lparr>dv_nat := nat'\<rparr> in
      if new_port_id = 0 then (0, p, upd_core (drop_packet p LAN_PORT) s)
      else let p = put32 (ip + 12) (hsi_ipv4 (dv_ppp s)) p;
               p = put16 (icmp + 4) new_port_id p;
               p = put16 (ip + 10) 0 p;
               p = put16 (ip + 10) (de_ipv4_cksum E (pk_mem p) ip) p;
               p = put16 (icmp + 2) (icmp_cksum_adjust (word16_at (pk_mem p) (icmp + 2)) ori_ident new_port_id) p
      in case insert_pppoes_hdr E (dv_ppp s) vlan_hdr_tci p of
           (ERROR, p) \<Rightarrow> (0, p, upd_core (drop_packet p LAN_PORT) s)
         | (SUCCESS, p) \<Rightarrow>
             let s = upd_core (count_rx_packet p LAN_PORT) s;
                 s = upd_core (count_tx_packet p WAN_PORT) s;
                 s = upd_core (increase_pppoes_tx_count (pk_len p)) s
             in (1, p, s))"

section \<open>From the WAN\<close>

definition mbuf_of :: "packet \<Rightarrow> mbuf" where
  "mbuf_of p = \<lparr>mb_id = pk_id p, mb_data = bytes_at (pk_mem p) (pk_off p) (unat (pk_len p))\<rparr>"

definition pf_hit :: "u16 \<Rightarrow> (u16 \<Rightarrow> port_fwd_entry) \<Rightarrow> (u16 \<Rightarrow> port_fwd_entry)" where
  "pf_hit eport t = t(eport := (t eport)\<lparr>pf_hit_count := pf_hit_count (t eport) + 1\<rparr>)"

text \<open>
  No translation entry: the port forwarding table decides, and a host whose MAC address is not known is
  asked for it.
\<close>

definition decaps_port_fwd ::
  "nat \<Rightarrow> ('rh, 'fh, 'wh, 'm, 'n, 'r, 'p) dp_env \<Rightarrow> u16 \<Rightarrow> packet \<Rightarrow> nat \<Rightarrow> nat \<Rightarrow> ('rh, 'fh, 'wh, 'm, 'n, 'r, 'p) dp_ccb \<Rightarrow> nat \<times> packet \<times> ('rh, 'fh, 'wh, 'm, 'n, 'r, 'p) dp_ccb" where
  "decaps_port_fwd l4_cksum E tx_q p eth ip s =
     (case nat_port_fwd_reverse_lookup (port_fwd_table (dv_nat s)) (word16_at (pk_mem p) (ip + 22)) of
        (_, None) \<Rightarrow> (0, p, upd_core (drop_packet p WAN_PORT) s)
      | (_, Some (fwd_dip, fwd_iport)) \<Rightarrow>
          let eport_host = rte_be_to_cpu_16 (word16_at (pk_mem p) (ip + 22));
              s = s\<lparr>dv_nat := (dv_nat s)\<lparr>port_fwd_table := pf_hit eport_host (port_fwd_table (dv_nat s))\<rparr>\<rparr>;
              p = pkt_put (eth + 6) (de_lan_mac E) p;
              p = put32 (ip + 16) fwd_dip p;
              p = put16 (ip + 22) fwd_iport p;
              p = put16 (ip + 10) (de_ipv4_cksum E (pk_mem p) ip) p;
              p = put16 (ip + l4_cksum) 0 p;
              p = put16 (ip + l4_cksum) (de_udptcp_cksum E (pk_mem p) ip (ip + 20)) p;
              s = upd_core (count_rx_packet p WAN_PORT) s;
              s = upd_core (increase_pppoes_rx_count (pk_len p)) s
          in case mac_table_lookup (de_mac E) (dv_mac_table s) fwd_dip of
               Some fwd_mac \<Rightarrow> (1, pkt_put eth fwd_mac p, upd_core (count_tx_packet p LAN_PORT) s)
             | None \<Rightarrow>
                 let s = s\<lparr>dv_arp_pq := snd (arp_pending_enqueue (de_arp E) (mbuf_of p) fwd_dip tx_q (dv_arp_pq s))\<rparr>
                 in if de_arp_sent E
                    then let s = s\<lparr>dv_arp_out := dv_arp_out s @ [(tx_q, encode_arp_request (de_frame_type_arp E) (de_frame_type_ip E)
                                  (de_lan_mac E) (dv_dhcp_server_ip s) fwd_dip (vlan_id (dv_ppp s)))]\<rparr>
                         in (0, p, upd_core (count_tx_packet p LAN_PORT) s)
                    else (0, p, s))"

definition decaps_udp ::
  "('rh, 'fh, 'wh, 'm, 'n, 'r, 'p) dp_env \<Rightarrow> u16 \<Rightarrow> packet \<Rightarrow> nat \<Rightarrow> nat \<Rightarrow> ('rh, 'fh, 'wh, 'm, 'n, 'r, 'p) dp_ccb \<Rightarrow> nat \<times> packet \<times> ('rh, 'fh, 'wh, 'm, 'n, 'r, 'p) dp_ccb" where
  "decaps_udp E tx_q p eth ip s =
     (case nat_reverse_lookup (de_nat E) (de_clock E) (word16_at (pk_mem p) (ip + 22)) (word32_at (pk_mem p) (ip + 12))
             (word16_at (pk_mem p) (ip + 20)) (dv_nat s) of
        (None, nat') \<Rightarrow> decaps_port_fwd 26 E tx_q p eth ip (s\<lparr>dv_nat := nat'\<rparr>)
      | (Some i, nat') \<Rightarrow>
          let s = s\<lparr>dv_nat := nat'\<rparr>; entry = addr_tab nat' i;
              p = pkt_put (eth + 6) (de_lan_mac E) p;
              p = pkt_put eth (mac48_bytes (at_mac_addr entry)) p;
              p = put32 (ip + 16) (at_src_ip entry) p;
              p = put16 (ip + 22) (at_src_port entry) p;
              p = put16 (ip + 10) (de_ipv4_cksum E (pk_mem p) ip) p;
              p = put16 (ip + 26) 0 p;
              p = put16 (ip + 26) (de_udptcp_cksum E (pk_mem p) ip (ip + 20)) p;
              s = upd_core (count_tx_packet p LAN_PORT) s;
              s = upd_core (count_rx_packet p WAN_PORT) s;
              s = upd_core (increase_pppoes_rx_count (pk_len p)) s
          in (1, p, s))"

definition decaps_tcp ::
  "('rh, 'fh, 'wh, 'm, 'n, 'r, 'p) dp_env \<Rightarrow> u16 \<Rightarrow> packet \<Rightarrow> nat \<Rightarrow> nat \<Rightarrow> ('rh, 'fh, 'wh, 'm, 'n, 'r, 'p) dp_ccb \<Rightarrow> nat \<times> packet \<times> ('rh, 'fh, 'wh, 'm, 'n, 'r, 'p) dp_ccb" where
  "decaps_tcp E tx_q p eth ip s =
     (case nat_reverse_lookup (de_nat E) (de_clock E) (word16_at (pk_mem p) (ip + 22)) (word32_at (pk_mem p) (ip + 12))
             (word16_at (pk_mem p) (ip + 20)) (dv_nat s) of
        (None, nat') \<Rightarrow> decaps_port_fwd 36 E tx_q p eth ip (s\<lparr>dv_nat := nat'\<rparr>)
      | (Some i, nat') \<Rightarrow>
          let tcp = tcp_hdr_at (pk_mem p) (ip + 20);
              p = pkt_put (eth + 6) (de_lan_mac E) p;
              p = pkt_put eth (mac48_bytes (at_mac_addr (addr_tab nat' i))) p;
              ip_hdr_len = ucast (pk_mem p ip AND 0x0F) * 4 :: u16;
              tcp_hdr_len = ucast (drop_bit 4 (data_off tcp) AND 0x0F) * 4 :: u16;
              payload_len = rte_be_to_cpu_16 (word16_at (pk_mem p) (ip + 2)) - ip_hdr_len - tcp_hdr_len;
              inbound_ok = tcp_conntrack_inbound_valid (at_tcp_state (addr_tab nat' i)) (tcp_flags tcp);
              seq_ok = (inbound_ok \<and> tcp_conntrack_seq_valid nat' i tcp True)
          in if (\<not> inbound_ok \<or> \<not> seq_ok) \<and> fw_conntrack_enabled (dv_fw s)
             then (0, p, upd_core (drop_packet p WAN_PORT) (s\<lparr>dv_nat := nat'\<rparr>))
             else let nat' = (if \<not> inbound_ok \<or> \<not> seq_ok then nat'
                              else tcp_conntrack_seq_update i tcp payload_len True
                                     (snd (tcp_conntrack_fsm (de_clock E) i (tcp_flags tcp) True nat')));
                      s = s\<lparr>dv_nat := nat'\<rparr>; entry = addr_tab nat' i;
                      p = put32 (ip + 16) (at_src_ip entry) p;
                      p = put16 (ip + 22) (at_src_port entry) p;
                      p = put16 (ip + 10) (de_ipv4_cksum E (pk_mem p) ip) p;
                      p = put16 (ip + 36) 0 p;
                      p = put16 (ip + 36) (de_udptcp_cksum E (pk_mem p) ip (ip + 20)) p;
                      s = upd_core (count_tx_packet p LAN_PORT) s;
                      s = upd_core (count_rx_packet p WAN_PORT) s;
                      s = upd_core (increase_pppoes_rx_count (pk_len p)) s
                  in (1, p, s))"

definition decaps_icmp ::
  "('rh, 'fh, 'wh, 'm, 'n, 'r, 'p) dp_env \<Rightarrow> packet \<Rightarrow> nat \<Rightarrow> nat \<Rightarrow> ('rh, 'fh, 'wh, 'm, 'n, 'r, 'p) dp_ccb \<Rightarrow> nat \<times> packet \<times> ('rh, 'fh, 'wh, 'm, 'n, 'r, 'p) dp_ccb" where
  "decaps_icmp E p eth ip s =
     (let icmp = pk_off p + 38 in
      if pk_mem p icmp \<noteq> ICMP_ECHO_REPLY then (0, p, upd_core (drop_packet p WAN_PORT) s)
      else case nat_reverse_lookup (de_nat E) (de_clock E) (word16_at (pk_mem p) (icmp + 4)) (word32_at (pk_mem p) (ip + 12))
                  (ucast ICMP_ECHO_REQUEST) (dv_nat s) of
        (None, nat') \<Rightarrow> (0, p, upd_core (drop_packet p WAN_PORT) (s\<lparr>dv_nat := nat'\<rparr>))
      | (Some i, nat') \<Rightarrow>
          let s = s\<lparr>dv_nat := nat'\<rparr>; entry = addr_tab nat' i; ident = word16_at (pk_mem p) (icmp + 4);
              p = pkt_put (eth + 6) (de_lan_mac E) p;
              p = pkt_put eth (mac48_bytes (at_mac_addr entry)) p;
              p = put32 (ip + 16) (at_src_ip entry) p;
              p = put16 (icmp + 4) (at_src_port entry) p;
              p = put16 (icmp + 2) (icmp_cksum_adjust (word16_at (pk_mem p) (icmp + 2)) ident (at_src_port entry)) p;
              p = put16 (ip + 10) 0 p;
              p = put16 (ip + 10) (de_ipv4_cksum E (pk_mem p) ip) p;
              s = upd_core (count_tx_packet p LAN_PORT) s;
              s = upd_core (count_rx_packet p WAN_PORT) s;
              s = upd_core (increase_pppoes_rx_count (pk_len p)) s
          in (1, p, s))"

end
