(* ===== verification/Dp_Loops.thy ===== *)
theory Dp_Loops
  imports Dp_Codec
begin

text \<open>
  The polling loops (\<^verbatim>\<open>src/src/dp.c\<close>): what each of them does with one received packet, and the end of a
  round, in which packets handed over by other cores join the batch, the batch goes to the port and what
  the port refuses is dropped.

  The loops of the two dispatch modes share their branches; a branch that occurs in several loops is
  defined once. The numbers of the transport protocols are those of the IANA registry; the Ethernet types
  of IPv4 and ARP come from a header outside the repository and are arguments. The build is the
  production one.
\<close>

section \<open>Constants\<close>

abbreviation MULTICAST_TAG :: u16 where "MULTICAST_TAG \<equiv> 4001"
abbreviation DHCP_SERVER_PORT :: u16 where "DHCP_SERVER_PORT \<equiv> 67"
abbreviation DHCP_CLIENT_PORT :: u16 where "DHCP_CLIENT_PORT \<equiv> 68"
abbreviation DNS_PORT :: u16 where "DNS_PORT \<equiv> 53"
abbreviation IPPROTO_IGMP :: u8 where "IPPROTO_IGMP \<equiv> 2"
abbreviation VOD_IP_PREFIX_HOST :: u32 where "VOD_IP_PREFIX_HOST \<equiv> 10"
abbreviation VOD_IP_MASK :: u32 where "VOD_IP_MASK \<equiv> 0xFF"
abbreviation BURST_SIZE :: nat where "BURST_SIZE \<equiv> 32"

section \<open>Where a packet goes\<close>

definition drop_on :: "u16 \<Rightarrow> packet \<Rightarrow> ('rh, 'fh, 'wh, 'm, 'n, 'r, 'p) dp_ccb \<Rightarrow> ('rh, 'fh, 'wh, 'm, 'n, 'r, 'p) dp_ccb" where
  "drop_on port p s = upd_core (drop_packet p port) s"

definition to_cp :: "('rh, 'fh, 'wh, 'm, 'n, 'r, 'p) dp_env \<Rightarrow> dp_event \<Rightarrow> u16 \<Rightarrow> packet \<Rightarrow> ('rh, 'fh, 'wh, 'm, 'n, 'r, 'p) dp_ccb \<Rightarrow> ('rh, 'fh, 'wh, 'm, 'n, 'r, 'p) dp_ccb" where
  "to_cp E evt port p s =
     (case send2cp (de_ring E) p evt port (dv_mail s, dv_core s) of (x, c) \<Rightarrow> s\<lparr>dv_mail := x, dv_core := c\<rparr>)"

text \<open>A packet forwarded as it is.\<close>

definition raw_to_wan :: "packet \<Rightarrow> ('rh, 'fh, 'wh, 'm, 'n, 'r, 'p) dp_ccb \<Rightarrow> ('rh, 'fh, 'wh, 'm, 'n, 'r, 'p) dp_ccb" where
  "raw_to_wan p s =
     (let s = upd_core (count_rx_packet p LAN_PORT) s; s = upd_core (count_tx_packet p WAN_PORT) s
      in s\<lparr>dv_wan_pkt := dv_wan_pkt s @ [p]\<rparr>)"

definition batch_wan :: "nat \<times> packet \<times> ('rh, 'fh, 'wh, 'm, 'n, 'r, 'p) dp_ccb \<Rightarrow> ('rh, 'fh, 'wh, 'm, 'n, 'r, 'p) dp_ccb" where
  "batch_wan r = (case r of (n, p, s) \<Rightarrow> if n = 0 then s else s\<lparr>dv_wan_pkt := dv_wan_pkt s @ [p]\<rparr>)"

definition batch_lan :: "nat \<times> packet \<times> ('rh, 'fh, 'wh, 'm, 'n, 'r, 'p) dp_ccb \<Rightarrow> ('rh, 'fh, 'wh, 'm, 'n, 'r, 'p) dp_ccb" where
  "batch_lan r = (case r of (n, p, s) \<Rightarrow> if n = 0 then s else s\<lparr>dv_lan_pkt := dv_lan_pkt s @ [p]\<rparr>)"

text \<open>One packet offered to a port at once.\<close>

definition tx_one :: "('rh, 'fh, 'wh, 'm, 'n, 'r, 'p) dp_env \<Rightarrow> u16 \<Rightarrow> u16 \<Rightarrow> packet \<Rightarrow> ('rh, 'fh, 'wh, 'm, 'n, 'r, 'p) dp_ccb \<Rightarrow> ('rh, 'fh, 'wh, 'm, 'n, 'r, 'p) dp_ccb" where
  "tx_one E port q p s =
     (if de_tx_taken E then s\<lparr>dv_sent := dv_sent s @ [(port, q, p)]\<rparr>
      else drop_on port p (s\<lparr>dv_txq := count_tx_queue_refused port q 1 0 (dv_txq s)\<rparr>))"

definition hand_over :: "('rh, 'fh, 'wh, 'm, 'n, 'r, 'p) dp_env \<Rightarrow> u16 \<Rightarrow> u16 \<Rightarrow> nat \<Rightarrow> ('rh, 'fh, 'wh, 'm, 'n, 'r, 'p) dp_ccb \<Rightarrow> status \<times> ('rh, 'fh, 'wh, 'm, 'n, 'r, 'p) dp_ccb" where
  "hand_over E port q b s =
     (case send_pkt_to_other_lcore (de_ring E) port q b (dv_txq s) of (res, txq) \<Rightarrow> (res, s\<lparr>dv_txq := txq\<rparr>))"

definition next_proto :: "packet \<Rightarrow> u16" where
  "next_proto p = word16_at (pk_mem p) (pk_vlan p + 2)"

definition is_ip_in_range :: "u32 \<Rightarrow> u32 \<Rightarrow> u32 \<Rightarrow> bool" where
  "is_ip_in_range ip gateway_ip subnet_mask \<longleftrightarrow> ip AND subnet_mask = gateway_ip AND subnet_mask"

definition compute_flow_tag :: "crc_ops \<Rightarrow> u32 \<Rightarrow> u32 \<Rightarrow> u16 \<Rightarrow> u16 \<Rightarrow> u8 \<Rightarrow> u32" where
  "compute_flow_tag C src_ip dst_ip sport dport proto =
     (let h = rte_hash_crc_4byte C src_ip 0;
          h = rte_hash_crc_4byte C dst_ip h;
          h = rte_hash_crc_4byte C (push_bit 16 (ucast sport) OR ucast dport) h
      in rte_hash_crc_1byte C proto h)"

definition to_worker :: "u32 \<Rightarrow> packet \<Rightarrow> ('rh, 'fh, 'wh, 'm, 'n, 'r, 'p) dp_ccb \<Rightarrow> ('rh, 'fh, 'wh, 'm, 'n, 'r, 'p) dp_ccb" where
  "to_worker tag p s = s\<lparr>dv_dist_pkt := dv_dist_pkt s @ [(p, tag)]\<rparr>"

section \<open>Frames from the WAN\<close>

definition is_iptv_pkt_need_drop :: "('rh, 'fh, 'wh, 'm, 'n, 'r, 'p) dp_env \<Rightarrow> memory \<Rightarrow> nat \<Rightarrow> bool" where
  "is_iptv_pkt_need_drop E m vlan =
     (if word16_at m (vlan + 2) = rte_cpu_to_be_16 (de_frame_type_ip E) then
        let ip = vlan + 4 in
        if m (ip + 9) = IPPROTO_UDP then
          if rte_be_to_cpu_16 (word16_at m vlan) AND 0xFFF = MULTICAST_TAG \<or>
             word32_at m (ip + 16) AND VOD_IP_MASK = VOD_IP_PREFIX_HOST then False
          else if 28 < unat (rte_be_to_cpu_16 (word16_at m (ip + 2))) \<and>
                  word16_at m (ip + 22) = rte_be_to_cpu_16 DHCP_CLIENT_PORT then False
          else True
        else if m (ip + 9) = IPPROTO_IGMP then False
        else True
      else True)"

definition wan_iptv_pkt :: "('rh, 'fh, 'wh, 'm, 'n, 'r, 'p) dp_env \<Rightarrow> packet \<Rightarrow> ('rh, 'fh, 'wh, 'm, 'n, 'r, 'p) dp_ccb \<Rightarrow> ('rh, 'fh, 'wh, 'm, 'n, 'r, 'p) dp_ccb" where
  "wan_iptv_pkt E p s =
     (if is_iptv_pkt_need_drop E (pk_mem p) (pk_vlan p) then drop_on WAN_PORT p s
      else let s = upd_core (count_rx_packet p WAN_PORT) s;
               s = s\<lparr>dv_lan_pkt := dv_lan_pkt s @ [p]\<rparr>
           in upd_core (count_tx_packet p LAN_PORT) s)"

definition ppp_protocol_of :: "packet \<Rightarrow> u16" where
  "ppp_protocol_of p = word16_at (pk_mem p) (pk_eth p + 24)"

definition is_ppp_control :: "packet \<Rightarrow> bool" where
  "is_ppp_control p \<longleftrightarrow> next_proto p = rte_cpu_to_be_16 ETH_P_PPP_DIS \<or>
     ppp_protocol_of p \<in> {rte_cpu_to_be_16 LCP_PROTOCOL, rte_cpu_to_be_16 PAP_PROTOCOL, rte_cpu_to_be_16 CHAP_PROTOCOL,
       rte_cpu_to_be_16 IPCP_PROTOCOL, rte_cpu_to_be_16 MPLSCP_PROTOCOL, rte_cpu_to_be_16 IPV6CP_PROTOCOL}"

definition session_to_cp :: "('rh, 'fh, 'wh, 'm, 'n, 'r, 'p) dp_env \<Rightarrow> packet \<Rightarrow> ('rh, 'fh, 'wh, 'm, 'n, 'r, 'p) dp_ccb \<Rightarrow> ('rh, 'fh, 'wh, 'm, 'n, 'r, 'p) dp_ccb" where
  "session_to_cp E p s = (if \<not> ppp_bool (dv_ppp s) then drop_on WAN_PORT p s else to_cp E EV_DP_PPPoE WAN_PORT p s)"

definition ip6_of_wan :: "packet \<Rightarrow> nat" where
  "ip6_of_wan p = pk_eth p + IPV6_L2_LEN + IPV6_PPPOE_HDR_LEN"

definition wan_ipv6_verdict :: "('rh, 'fh, 'wh, 'm, 'n, 'r, 'p) dp_env \<Rightarrow> packet \<Rightarrow> ('rh, 'fh, 'wh, 'm, 'n, 'r, 'p) dp_ccb \<Rightarrow> ipv6_wan_verdict" where
  "wan_ipv6_verdict E p s =
     (if pppd_ipv6_dp_gate_open (dv_ppp s) then ipv6_wan_classify (de_nd6 E) (dv_ppp s) (pk_mem p) (ip6_of_wan p) (pk_len p)
      else IPV6_WAN_TO_CP)"

definition wan_ipv6_deliver :: "('rh, 'fh, 'wh, 'm, 'n, 'r, 'p) dp_env \<Rightarrow> packet \<Rightarrow> ('rh, 'fh, 'wh, 'm, 'n, 'r, 'p) dp_ccb \<Rightarrow> ('rh, 'fh, 'wh, 'm, 'n, 'r, 'p) dp_ccb" where
  "wan_ipv6_deliver E p s =
     (case ipv6_firewall_wan_to_lan_forward (de_fw E) (de_clock E) (de_nd E) (de_nd6 E) (dv_nd6_table s) p
             (dv_fw s, dv_core s) of (r, p, fw, c) \<Rightarrow>
        let s = s\<lparr>dv_fw := fw, dv_core := c\<rparr> in
        case r of
          IPV6_FWD_OK \<Rightarrow> s\<lparr>dv_lan_pkt := dv_lan_pkt s @ [p]\<rparr>
        | IPV6_FWD_NEIGHBOR_MISS \<Rightarrow>
            (case ipv6_neighbor_miss (de_ring E) (de_clock E) (de_cas E) p
                    (dv_nd6_miss_last_cycles s, dv_mail s, dv_core s) of (t, x, c) \<Rightarrow>
               s\<lparr>dv_nd6_miss_last_cycles := t, dv_mail := x, dv_core := c\<rparr>)
        | _ \<Rightarrow> drop_on WAN_PORT p s)"

definition wan_ipv6_pkt :: "('rh, 'fh, 'wh, 'm, 'n, 'r, 'p) dp_env \<Rightarrow> packet \<Rightarrow> ('rh, 'fh, 'wh, 'm, 'n, 'r, 'p) dp_ccb \<Rightarrow> ('rh, 'fh, 'wh, 'm, 'n, 'r, 'p) dp_ccb" where
  "wan_ipv6_pkt E p s =
     (case wan_ipv6_verdict E p s of
        IPV6_WAN_TO_CP \<Rightarrow> session_to_cp E p s
      | IPV6_WAN_FORWARD \<Rightarrow> wan_ipv6_deliver E p s
      | IPV6_WAN_DROP \<Rightarrow> drop_on WAN_PORT p s)"

definition strip_pppoe :: "('rh, 'fh, 'wh, 'm, 'n, 'r, 'p) dp_env \<Rightarrow> packet \<Rightarrow> packet" where
  "strip_pppoe E p =
     (let eth = pk_eth p; vlan = pk_vlan p;
          p = put16 (vlan + 2) (rte_cpu_to_be_16 (de_frame_type_ip E)) p;
          tmp_eth = bytes_at (pk_mem p) eth 14;
          tmp_vlan = bytes_at (pk_mem p) vlan 4;
          p = pkt_put (eth + 8) tmp_eth p;
          p = pkt_put (vlan + 8) tmp_vlan p
      in p\<lparr>pk_off := pk_off p + 8, pk_len := pk_len p - 8, pk_data_len := pk_data_len p - 8,
           pk_eth := eth + 8, pk_vlan := eth + 22\<rparr>)"

definition wan_ctrl_pkt :: "('rh, 'fh, 'wh, 'm, 'n, 'r, 'p) dp_env \<Rightarrow> packet \<Rightarrow> ('rh, 'fh, 'wh, 'm, 'n, 'r, 'p) dp_ccb \<Rightarrow> ('rh, 'fh, 'wh, 'm, 'n, 'r, 'p) dp_ccb" where
  "wan_ctrl_pkt E p s =
     (if next_proto p \<noteq> rte_cpu_to_be_16 ETH_P_PPP_SES \<and> next_proto p \<noteq> rte_cpu_to_be_16 ETH_P_PPP_DIS
      then wan_iptv_pkt E p s
      else if is_ppp_control p then session_to_cp E p s
      else if ppp_protocol_of p = rte_cpu_to_be_16 PPP_IPV6_PROTOCOL then wan_ipv6_pkt E p s
      else if \<not> pppd_dp_gate_open (dv_ppp s) then drop_on WAN_PORT p s
      else let p = strip_pppoe E p; ip = pk_off p + 18 in
      if pk_mem p (ip + 9) = IPPROTO_ICMP then batch_lan (decaps_icmp E p (pk_eth p) ip s)
      else drop_on WAN_PORT p s)"

text \<open>\<open>i40e\<close> says that the network card is of that vendor.\<close>

definition wan_data_pkt :: "('rh, 'fh, 'wh, 'm, 'n, 'r, 'p) dp_env \<Rightarrow> bool \<Rightarrow> u16 \<Rightarrow> packet \<Rightarrow> ('rh, 'fh, 'wh, 'm, 'n, 'r, 'p) dp_ccb \<Rightarrow> ('rh, 'fh, 'wh, 'm, 'n, 'r, 'p) dp_ccb" where
  "wan_data_pkt E i40e tx_q p s =
     (if ppp_protocol_of p = rte_cpu_to_be_16 PPP_IPV6_PROTOCOL then wan_ipv6_pkt E p s
      else if \<not> pppd_dp_gate_open (dv_ppp s) then drop_on WAN_PORT p s
      else let p = strip_pppoe E p; eth = pk_eth p; ip = pk_off p + 18;
               p = put16 (ip + 10) 0 p in
      if pk_mem p (ip + 9) = IPPROTO_UDP then
        if word16_at (pk_mem p) (ip + 20) = rte_cpu_to_be_16 DNS_PORT \<and> dv_dns_proxy_enabled s
        then to_cp E EV_DP_DNS WAN_PORT p s
        else batch_lan (decaps_udp E tx_q p eth ip s)
      else if pk_mem p (ip + 9) = IPPROTO_TCP then batch_lan (decaps_tcp E tx_q p eth ip s)
      else if i40e \<and> pk_mem p (ip + 9) = IPPROTO_ICMP then batch_lan (decaps_icmp E p eth ip s)
      else drop_on WAN_PORT p s)"

section \<open>Frames from the LAN\<close>

definition learn_mac :: "('rh, 'fh, 'wh, 'm, 'n, 'r, 'p) dp_env \<Rightarrow> u32 \<Rightarrow> u8 list \<Rightarrow> ('rh, 'fh, 'wh, 'm, 'n, 'r, 'p) dp_ccb \<Rightarrow> ('rh, 'fh, 'wh, 'm, 'n, 'r, 'p) dp_ccb" where
  "learn_mac E ip mac s =
     (if is_ip_in_range ip (dv_dhcp_server_ip s) (dv_subnet_mask s)
      then s\<lparr>dv_mac_table := mac_table_learn (de_mac E) ip mac (dv_mac_table s)\<rparr> else s)"

text \<open>The packets a reply releases go to the queue each of them waited for.\<close>

fun release_drained :: "('rh, 'fh, 'wh, 'm, 'n, 'r, 'p) dp_env \<Rightarrow> (mbuf \<times> u16) list \<Rightarrow> ('rh, 'fh, 'wh, 'm, 'n, 'r, 'p) dp_ccb \<Rightarrow> ('rh, 'fh, 'wh, 'm, 'n, 'r, 'p) dp_ccb" where
  "release_drained E [] s = s"
| "release_drained E ((mb, q) # rest) s =
     (let p = \<lparr>pk_id = mb_id mb, pk_mem = (\<lambda>i. 0), pk_off = 0, pk_len = of_nat (length (mb_data mb)), pk_data_len = 0,
               pk_ccb_id = 0, pk_eth = 0, pk_vlan = 0\<rparr>
      in case hand_over E LAN_PORT q (mb_id mb) s of
           (SUCCESS, s) \<Rightarrow> release_drained E rest (upd_core (count_tx_packet p LAN_PORT) s)
         | (ERROR, s) \<Rightarrow> release_drained E rest (drop_on LAN_PORT p s))"

definition free_packet :: "packet \<Rightarrow> ('rh, 'fh, 'wh, 'm, 'n, 'r, 'p) dp_ccb \<Rightarrow> ('rh, 'fh, 'wh, 'm, 'n, 'r, 'p) dp_ccb" where
  "free_packet p s = upd_core (\<lambda>c. c\<lparr>dc_freed := dc_freed c @ [pk_id p]\<rparr>) s"

definition arp_reply_frame :: "('rh, 'fh, 'wh, 'm, 'n, 'r, 'p) dp_env \<Rightarrow> u32 \<Rightarrow> packet \<Rightarrow> packet" where
  "arp_reply_frame E server_ip p =
     (let eth = pk_eth p; a = pk_off p + 18;
          p = pkt_put eth (bytes_at (pk_mem p) (eth + 6) 6) p;
          p = pkt_put (eth + 6) (de_lan_mac E) p;
          p = pkt_put (a + 18) (bytes_at (pk_mem p) (a + 8) 6) p;
          p = pkt_put (a + 8) (de_lan_mac E) p;
          p = put32 (a + 24) (word32_at (pk_mem p) (a + 14)) p;
          p = put32 (a + 14) server_ip p
      in put16 (a + 6) (rte_cpu_to_be_16 2) p)"

definition lan_arp_pkt :: "('rh, 'fh, 'wh, 'm, 'n, 'r, 'p) dp_env \<Rightarrow> u16 \<Rightarrow> u16 \<Rightarrow> packet \<Rightarrow> ('rh, 'fh, 'wh, 'm, 'n, 'r, 'p) dp_ccb \<Rightarrow> ('rh, 'fh, 'wh, 'm, 'n, 'r, 'p) dp_ccb" where
  "lan_arp_pkt E lan_tx_q wan_tx_q p s =
     (let a = pk_off p + 18; m = pk_mem p;
          sha = bytes_at m (a + 8) 6; sip = word32_at m (a + 14);
          opcode = word16_at m (a + 6); tip = word32_at m (a + 24);
          s = learn_mac E sip sha s in
      if opcode = rte_cpu_to_be_16 1 \<and> tip = dv_dhcp_server_ip s then
        let p = arp_reply_frame E (dv_dhcp_server_ip s) p;
            s = upd_core (count_tx_packet p LAN_PORT) s;
            s = upd_core (count_rx_packet p LAN_PORT) s
        in tx_one E LAN_PORT lan_tx_q p s
      else if opcode = rte_cpu_to_be_16 2 \<and> tip = dv_dhcp_server_ip s then
        let s = upd_core (count_rx_packet p LAN_PORT) s
        in case arp_pending_drain (de_arp E) sip sha ARP_PENDING_QUEUE_SIZE (dv_arp_pq s, []) of
             (pq, drained) \<Rightarrow> free_packet p (release_drained E drained (s\<lparr>dv_arp_pq := pq\<rparr>))
      else
        let s = upd_core (count_rx_packet p LAN_PORT) s;
            s = upd_core (count_tx_packet p WAN_PORT) s
        in tx_one E WAN_PORT wan_tx_q p s)"

text \<open>\<open>reply\<close> sends the answer to a packet that does not fit.\<close>

definition lan_ipv6_forward :: "('rh, 'fh, 'wh, 'm, 'n, 'r, 'p) dp_env \<Rightarrow> packet \<Rightarrow> ('rh, 'fh, 'wh, 'm, 'n, 'r, 'p) dp_ccb \<Rightarrow> ('rh, 'fh, 'wh, 'm, 'n, 'r, 'p) dp_ccb" where
  "lan_ipv6_forward E p s =
     (case ipv6_firewall_lan_to_wan_encap (de_fw E) (de_clock E) (de_wan_src_mac E) (dv_ppp s) p (dv_fw s, dv_core s) of
        (p, fw, c) \<Rightarrow> s\<lparr>dv_fw := fw, dv_core := c, dv_wan_pkt := dv_wan_pkt s @ [p]\<rparr>)"

definition lan_ipv6_pkt ::
  "('rh, 'fh, 'wh, 'm, 'n, 'r, 'p) dp_env \<Rightarrow> (packet \<Rightarrow> ('rh, 'fh, 'wh, 'm, 'n, 'r, 'p) dp_ccb \<Rightarrow> ('rh, 'fh, 'wh, 'm, 'n, 'r, 'p) dp_ccb) \<Rightarrow>
   (packet \<Rightarrow> ('rh, 'fh, 'wh, 'm, 'n, 'r, 'p) dp_ccb \<Rightarrow> ('rh, 'fh, 'wh, 'm, 'n, 'r, 'p) dp_ccb) \<Rightarrow> packet \<Rightarrow> ('rh, 'fh, 'wh, 'm, 'n, 'r, 'p) dp_ccb \<Rightarrow> ('rh, 'fh, 'wh, 'm, 'n, 'r, 'p) dp_ccb" where
  "lan_ipv6_pkt E reply forward p s =
     (if \<not> ipv6_enabled (dv_ppp s) then drop_on LAN_PORT p s
      else let ip6 = pk_eth p + IPV6_L2_LEN in
      case ipv6_lan_classify (de_nd6 E) (dv_ppp s) (pk_mem p) (pk_eth p) ip6 (pk_len p) of
        IPV6_LAN_TO_CP \<Rightarrow> to_cp E EV_DP_ICMP6 LAN_PORT p s
      | IPV6_LAN_PASSTHROUGH \<Rightarrow> raw_to_wan p s
      | IPV6_LAN_TOO_BIG \<Rightarrow>
          (case build_ipv6_packet_too_big_reply (de_nd6 E) (de_alloc E) p ip6 (dv_core s) of (r, c) \<Rightarrow>
             let s = s\<lparr>dv_core := c\<rparr> in case r of None \<Rightarrow> s | Some q \<Rightarrow> reply q s)
      | IPV6_LAN_FORWARD \<Rightarrow> forward p s
      | IPV6_LAN_DROP \<Rightarrow> drop_on LAN_PORT p s)"

definition reply_handed :: "('rh, 'fh, 'wh, 'm, 'n, 'r, 'p) dp_env \<Rightarrow> u16 \<Rightarrow> packet \<Rightarrow> ('rh, 'fh, 'wh, 'm, 'n, 'r, 'p) dp_ccb \<Rightarrow> ('rh, 'fh, 'wh, 'm, 'n, 'r, 'p) dp_ccb" where
  "reply_handed E tx_q q s =
     (case hand_over E LAN_PORT tx_q (pk_id q) s of (SUCCESS, s) \<Rightarrow> s | (ERROR, s) \<Rightarrow> drop_on LAN_PORT q s)"

definition echo_reply_cksum :: "u16 \<Rightarrow> u16" where
  "echo_reply_cksum ck =
     (let c = ucast (NOT ck) :: u32;
          c = c + ucast (NOT (rte_cpu_to_be_16 0x0800));
          c = c + ucast (rte_cpu_to_be_16 0);
          c = (c AND 0xffff) + drop_bit 16 c;
          c = (c AND 0xffff) + drop_bit 16 c
      in ucast (NOT c))"

definition echo_reply_frame :: "('rh, 'fh, 'wh, 'm, 'n, 'r, 'p) dp_env \<Rightarrow> u32 \<Rightarrow> packet \<Rightarrow> packet" where
  "echo_reply_frame E server_ip p =
     (let eth = pk_eth p; ip = pk_off p + 18; icmp = pk_off p + 38;
          p = pkt_put eth (bytes_at (pk_mem p) (eth + 6) 6) p;
          p = pkt_put (eth + 6) (de_lan_mac E) p;
          p = put32 (ip + 16) (word32_at (pk_mem p) (ip + 12)) p;
          p = put32 (ip + 12) server_ip p;
          p = pkt_put icmp [0] p
      in put16 (icmp + 2) (echo_reply_cksum (word16_at (pk_mem p) (icmp + 2))) p)"

definition lan_gateway_icmp :: "('rh, 'fh, 'wh, 'm, 'n, 'r, 'p) dp_env \<Rightarrow> u16 \<Rightarrow> packet \<Rightarrow> ('rh, 'fh, 'wh, 'm, 'n, 'r, 'p) dp_ccb \<Rightarrow> ('rh, 'fh, 'wh, 'm, 'n, 'r, 'p) dp_ccb" where
  "lan_gateway_icmp E lan_tx_q p s =
     (if word32_at (pk_mem p) (pk_off p + 34) = dv_dhcp_server_ip s then
        if pk_mem p (pk_off p + 38) \<noteq> ICMP_ECHO_REQUEST then drop_on LAN_PORT p s
        else tx_one E LAN_PORT lan_tx_q (echo_reply_frame E (dv_dhcp_server_ip s) p) s
      else tx_one E LAN_PORT lan_tx_q p s)"

definition to_our_mac :: "('rh, 'fh, 'wh, 'm, 'n, 'r, 'p) dp_env \<Rightarrow> packet \<Rightarrow> bool" where
  "to_our_mac E p \<longleftrightarrow> bytes_at (pk_mem p) (pk_eth p) 6 = de_lan_mac E"

definition lan_ctrl_ipv4 :: "('rh, 'fh, 'wh, 'm, 'n, 'r, 'p) dp_env \<Rightarrow> u16 \<Rightarrow> packet \<Rightarrow> ('rh, 'fh, 'wh, 'm, 'n, 'r, 'p) dp_ccb \<Rightarrow> ('rh, 'fh, 'wh, 'm, 'n, 'r, 'p) dp_ccb" where
  "lan_ctrl_ipv4 E lan_tx_q p s =
     (let ip = pk_off p + 18; m = pk_mem p; proto = m (ip + 9);
          s = learn_mac E (word32_at m (ip + 12)) (bytes_at m (pk_eth p + 6) 6) s in
      if is_ip_in_range (word32_at m (ip + 16)) (dv_dhcp_server_ip s) (dv_subnet_mask s) then
        if proto = IPPROTO_ICMP then lan_gateway_icmp E lan_tx_q p s else drop_on LAN_PORT p s
      else if proto = IPPROTO_ICMP then
        if \<not> to_our_mac E p then raw_to_wan p s
        else if \<not> pppd_dp_gate_open (dv_ppp s) then drop_on LAN_PORT p s
        else let icmp = pk_off p + 38; eth = pk_eth p; vlan = pk_vlan p; p = de_adj E 18 p in
             case encaps_icmp E p eth vlan (pk_off p) icmp s of
               (0, p, s) \<Rightarrow> drop_on LAN_PORT p s
             | (Suc n, p, s) \<Rightarrow> s\<lparr>dv_wan_pkt := dv_wan_pkt s @ [p]\<rparr>
      else if proto = IPPROTO_IGMP then raw_to_wan p s
      else drop_on LAN_PORT p s)"

definition lan_ctrl_pkt :: "('rh, 'fh, 'wh, 'm, 'n, 'r, 'p) dp_env \<Rightarrow> u16 \<Rightarrow> u16 \<Rightarrow> packet \<Rightarrow> ('rh, 'fh, 'wh, 'm, 'n, 'r, 'p) dp_ccb \<Rightarrow> ('rh, 'fh, 'wh, 'm, 'n, 'r, 'p) dp_ccb" where
  "lan_ctrl_pkt E lan_tx_q wan_tx_q p s =
     (if next_proto p = rte_cpu_to_be_16 (de_frame_type_arp E) then lan_arp_pkt E lan_tx_q wan_tx_q p s
      else if next_proto p = rte_cpu_to_be_16 FRAME_TYPE_IPV6 then
        lan_ipv6_pkt E (tx_one E LAN_PORT lan_tx_q) (lan_ipv6_forward E) p s
      else if next_proto p = rte_cpu_to_be_16 ETH_P_PPP_DIS \<or> next_proto p = rte_cpu_to_be_16 ETH_P_PPP_SES then raw_to_wan p s
      else if next_proto p = rte_cpu_to_be_16 (de_frame_type_ip E) then lan_ctrl_ipv4 E lan_tx_q p s
      else drop_on LAN_PORT p s)"

text \<open>DHCP and DNS for the gateway, seen on the data queues.\<close>

definition dhcp_to_cp :: "('rh, 'fh, 'wh, 'm, 'n, 'r, 'p) dp_env \<Rightarrow> packet \<Rightarrow> ('rh, 'fh, 'wh, 'm, 'n, 'r, 'p) dp_ccb \<Rightarrow> ('rh, 'fh, 'wh, 'm, 'n, 'r, 'p) dp_ccb" where
  "dhcp_to_cp E p s = (if \<not> dv_dhcp_bool s then drop_on LAN_PORT p s else to_cp E EV_DP_DHCP LAN_PORT p s)"

definition dns_to_cp :: "('rh, 'fh, 'wh, 'm, 'n, 'r, 'p) dp_env \<Rightarrow> packet \<Rightarrow> ('rh, 'fh, 'wh, 'm, 'n, 'r, 'p) dp_ccb \<Rightarrow> ('rh, 'fh, 'wh, 'm, 'n, 'r, 'p) dp_ccb" where
  "dns_to_cp E p s = (if dv_dns_proxy_enabled s then to_cp E EV_DP_DNS LAN_PORT p s else drop_on LAN_PORT p s)"

definition lan_gateway_l4 :: "('rh, 'fh, 'wh, 'm, 'n, 'r, 'p) dp_env \<Rightarrow> packet \<Rightarrow> ('rh, 'fh, 'wh, 'm, 'n, 'r, 'p) dp_ccb \<Rightarrow> ('rh, 'fh, 'wh, 'm, 'n, 'r, 'p) dp_ccb" where
  "lan_gateway_l4 E p s =
     (let ip = pk_off p + 18; m = pk_mem p; dport = word16_at m (ip + 22) in
      if m (ip + 9) = IPPROTO_UDP \<and> dport = rte_be_to_cpu_16 DHCP_SERVER_PORT then dhcp_to_cp E p s
      else if (m (ip + 9) = IPPROTO_UDP \<or> m (ip + 9) = IPPROTO_TCP) \<and> dport = rte_cpu_to_be_16 DNS_PORT then dns_to_cp E p s
      else drop_on LAN_PORT p s)"

definition is_ipv4_mcast :: "u32 \<Rightarrow> bool" where
  "is_ipv4_mcast a \<longleftrightarrow> 0xE0000000 \<le> a \<and> a \<le> 0xEFFFFFFF"

definition lan_data_ipv4 :: "('rh, 'fh, 'wh, 'm, 'n, 'r, 'p) dp_env \<Rightarrow> u16 \<Rightarrow> packet \<Rightarrow> ('rh, 'fh, 'wh, 'm, 'n, 'r, 'p) dp_ccb \<Rightarrow> ('rh, 'fh, 'wh, 'm, 'n, 'r, 'p) dp_ccb" where
  "lan_data_ipv4 E tx_q p s =
     (let ip = pk_off p + 18; m = pk_mem p; proto = m (ip + 9) in
      if is_ip_in_range (word32_at m (ip + 16)) (dv_dhcp_server_ip s) (dv_subnet_mask s) then lan_gateway_l4 E p s
      else let s = learn_mac E (word32_at m (ip + 12)) (bytes_at m (pk_eth p + 6) 6) s in
      if proto = IPPROTO_TCP then
        if \<not> to_our_mac E p then raw_to_wan p s
        else if \<not> pppd_dp_gate_open (dv_ppp s) then drop_on LAN_PORT p s
        else let eth = pk_eth p; vlan = pk_vlan p; p = de_adj E 18 p in batch_wan (encaps_tcp E tx_q p eth vlan (pk_off p) s)
      else if proto = IPPROTO_UDP then
        if is_ipv4_mcast (rte_be_to_cpu_32 (word32_at m (ip + 16))) then drop_on LAN_PORT p s
        else if word16_at m (ip + 22) = rte_be_to_cpu_16 DHCP_SERVER_PORT then dhcp_to_cp E p s
        else if \<not> to_our_mac E p then raw_to_wan p s
        else if \<not> pppd_dp_gate_open (dv_ppp s) then drop_on LAN_PORT p s
        else let eth = pk_eth p; vlan = pk_vlan p; p = de_adj E 18 p in batch_wan (encaps_udp E tx_q p eth vlan (pk_off p) s)
      else drop_on LAN_PORT p s)"

definition lan_data_pkt :: "('rh, 'fh, 'wh, 'm, 'n, 'r, 'p) dp_env \<Rightarrow> u16 \<Rightarrow> packet \<Rightarrow> ('rh, 'fh, 'wh, 'm, 'n, 'r, 'p) dp_ccb \<Rightarrow> ('rh, 'fh, 'wh, 'm, 'n, 'r, 'p) dp_ccb" where
  "lan_data_pkt E tx_q p s =
     (if next_proto p = rte_cpu_to_be_16 FRAME_TYPE_IPV6 then lan_ipv6_pkt E (reply_handed E tx_q) (lan_ipv6_forward E) p s
      else if next_proto p \<noteq> rte_cpu_to_be_16 (de_frame_type_ip E) then drop_on LAN_PORT p s
      else lan_data_ipv4 E tx_q p s)"

section \<open>Distributor mode\<close>

definition wan_dist_pkt :: "('rh, 'fh, 'wh, 'm, 'n, 'r, 'p) dp_env \<Rightarrow> packet \<Rightarrow> ('rh, 'fh, 'wh, 'm, 'n, 'r, 'p) dp_ccb \<Rightarrow> ('rh, 'fh, 'wh, 'm, 'n, 'r, 'p) dp_ccb" where
  "wan_dist_pkt E p s =
     (if next_proto p \<noteq> rte_cpu_to_be_16 ETH_P_PPP_SES \<and> next_proto p \<noteq> rte_cpu_to_be_16 ETH_P_PPP_DIS
      then wan_iptv_pkt E p s
      else if is_ppp_control p then session_to_cp E p s
      else if ppp_protocol_of p = rte_cpu_to_be_16 PPP_IPV6_PROTOCOL then
        (case wan_ipv6_verdict E p s of
           IPV6_WAN_TO_CP \<Rightarrow> session_to_cp E p s
         | IPV6_WAN_DROP \<Rightarrow> drop_on WAN_PORT p s
         | IPV6_WAN_FORWARD \<Rightarrow>
             (case ipv6_flow_tag (de_crc E) (pk_mem p) (ip6_of_wan p) of
                Some tag \<Rightarrow> to_worker tag p s
              | None \<Rightarrow> wan_ipv6_deliver E p s))
      else if \<not> pppd_dp_gate_open (dv_ppp s) then drop_on WAN_PORT p s
      else let p = strip_pppoe E p; ip = pk_off p + 18; m = pk_mem p;
               tag = compute_flow_tag (de_crc E) (word32_at m (ip + 12)) (word32_at m (ip + 16))
                       (word16_at m (ip + 20)) (word16_at m (ip + 22)) (m (ip + 9)) in
      if m (ip + 9) = IPPROTO_ICMP then batch_lan (decaps_icmp E p (pk_eth p) ip s)
      else if m (ip + 9) = IPPROTO_UDP then
        if word16_at m (ip + 20) = rte_cpu_to_be_16 DNS_PORT \<and> dv_dns_proxy_enabled s then to_cp E EV_DP_DNS WAN_PORT p s
        else to_worker tag p s
      else if m (ip + 9) = IPPROTO_TCP then to_worker tag p s
      else drop_on WAN_PORT p s)"

definition dp_wan_dist_worker_process_pkt ::
  "('rh, 'fh, 'wh, 'm, 'n, 'r, 'p) dp_env \<Rightarrow> u16 \<Rightarrow> packet \<Rightarrow> ('rh, 'fh, 'wh, 'm, 'n, 'r, 'p) dp_ccb \<Rightarrow> ('rh, 'fh, 'wh, 'm, 'n, 'r, 'p) dp_ccb" where
  "dp_wan_dist_worker_process_pkt E tx_q p s =
     (if next_proto p = rte_cpu_to_be_16 ETH_P_PPP_SES then
        if \<not> pppd_ipv6_dp_gate_open (dv_ppp s) then drop_on WAN_PORT p s else wan_ipv6_deliver E p s
      else if \<not> pppd_dp_gate_open (dv_ppp s) then drop_on WAN_PORT p s
      else let eth = pk_eth p; ip = eth + 18; p = put16 (ip + 10) 0 p in
      if pk_mem p (ip + 9) = IPPROTO_UDP then batch_lan (decaps_udp E tx_q p eth ip s)
      else if pk_mem p (ip + 9) = IPPROTO_TCP then batch_lan (decaps_tcp E tx_q p eth ip s)
      else drop_on WAN_PORT p s)"

text \<open>Here ICMP is translated and encapsulated in place, by code of its own.\<close>

definition lan_dist_icmp :: "('rh, 'fh, 'wh, 'm, 'n, 'r, 'p) dp_env \<Rightarrow> packet \<Rightarrow> ('rh, 'fh, 'wh, 'm, 'n, 'r, 'p) dp_ccb \<Rightarrow> ('rh, 'fh, 'wh, 'm, 'n, 'r, 'p) dp_ccb" where
  "lan_dist_icmp E p s =
     (let eth = pk_eth p; vlan = pk_vlan p; ip = pk_off p + 18; icmp = pk_off p + 38;
          ori_ident = word16_at (pk_mem p) (icmp + 4) in
      case learn_port (nat_icmp_learning (de_nat E) (de_clock E) (mac48 (bytes_at (pk_mem p) (eth + 6) 6))
             (ipv4_hdr_at (pk_mem p) ip) ori_ident (pk_mem p icmp) (dv_nat s)) (dv_nat s) of (new_port_id, nat') \<Rightarrow>
      let s = s\<lparr>dv_nat := nat'\<rparr> in
      if new_port_id = 0 then drop_on LAN_PORT p s
      else let p = put32 (ip + 12) (hsi_ipv4 (dv_ppp s)) p;
               p = put16 (icmp + 4) new_port_id p;
               p = put16 (ip + 10) 0 p;
               p = put16 (ip + 10) (de_ipv4_cksum E (pk_mem p) ip) p;
               p = put16 (icmp + 2) (icmp_cksum_adjust (word16_at (pk_mem p) (icmp + 2)) ori_ident new_port_id) p;
               p = pkt_put (eth + 6) (de_wan_src_mac E) p;
               p = pkt_put eth (PPP_dst_mac (dv_ppp s)) p;
               p = put16 (vlan + 2) (rte_cpu_to_be_16 ETH_P_PPP_SES) p;
               cur = eth - 8;
               p = pkt_put cur (bytes_at (pk_mem p) eth 14) p;
               p = pkt_put (cur + 14) (bytes_at (pk_mem p) vlan 4) p;
               p = pkt_put (cur + 18) ([VER_TYPE, 0] @ be_bytes16 (session_id (dv_ppp s)) @ net16 (ucast (pk_len p - 18 + 2))) p;
               p = put16 (cur + 24) (rte_cpu_to_be_16 PPP_IP_PROTOCOL) p;
               p = p\<lparr>pk_off := pk_off p - 8, pk_len := pk_len p + 8, pk_data_len := pk_data_len p + 8\<rparr>;
               s = upd_core (count_rx_packet p LAN_PORT) s;
               s = upd_core (count_tx_packet p WAN_PORT) s;
               s = upd_core (increase_pppoes_tx_count (pk_len p)) s
           in s\<lparr>dv_wan_pkt := dv_wan_pkt s @ [p]\<rparr>)"

definition lan_dist_ipv4 :: "('rh, 'fh, 'wh, 'm, 'n, 'r, 'p) dp_env \<Rightarrow> u16 \<Rightarrow> packet \<Rightarrow> ('rh, 'fh, 'wh, 'm, 'n, 'r, 'p) dp_ccb \<Rightarrow> ('rh, 'fh, 'wh, 'm, 'n, 'r, 'p) dp_ccb" where
  "lan_dist_ipv4 E lan_tx_q p s =
     (let ip = pk_off p + 18; m = pk_mem p; proto = m (ip + 9);
          tag = compute_flow_tag (de_crc E) (word32_at m (ip + 12)) (word32_at m (ip + 16))
                  (word16_at m (ip + 20)) (word16_at m (ip + 22)) proto;
          s = learn_mac E (word32_at m (ip + 12)) (bytes_at m (pk_eth p + 6) 6) s in
      if is_ip_in_range (word32_at m (ip + 16)) (dv_dhcp_server_ip s) (dv_subnet_mask s) then
        if proto = IPPROTO_ICMP then lan_gateway_icmp E lan_tx_q p s else lan_gateway_l4 E p s
      else if proto = IPPROTO_ICMP then
        if \<not> to_our_mac E p then raw_to_wan p s
        else if \<not> pppd_dp_gate_open (dv_ppp s) then drop_on LAN_PORT p s
        else lan_dist_icmp E p s
      else if proto = IPPROTO_TCP then
        if \<not> to_our_mac E p then raw_to_wan p s
        else if \<not> pppd_dp_gate_open (dv_ppp s) then drop_on LAN_PORT p s
        else to_worker tag p s
      else if proto = IPPROTO_UDP then
        if is_ipv4_mcast (rte_be_to_cpu_32 (word32_at m (ip + 16))) then drop_on LAN_PORT p s
        else if word16_at m (ip + 22) = rte_be_to_cpu_16 DHCP_SERVER_PORT then dhcp_to_cp E p s
        else if \<not> to_our_mac E p then raw_to_wan p s
        else if \<not> pppd_dp_gate_open (dv_ppp s) then drop_on LAN_PORT p s
        else to_worker tag p s
      else if proto = IPPROTO_IGMP then raw_to_wan p s
      else drop_on LAN_PORT p s)"

definition lan_dist_ipv6_forward :: "('rh, 'fh, 'wh, 'm, 'n, 'r, 'p) dp_env \<Rightarrow> packet \<Rightarrow> ('rh, 'fh, 'wh, 'm, 'n, 'r, 'p) dp_ccb \<Rightarrow> ('rh, 'fh, 'wh, 'm, 'n, 'r, 'p) dp_ccb" where
  "lan_dist_ipv6_forward E p s =
     (case ipv6_flow_tag (de_crc E) (pk_mem p) (pk_eth p + IPV6_L2_LEN) of
        Some tag \<Rightarrow> to_worker tag p s
      | None \<Rightarrow> lan_ipv6_forward E p s)"

definition lan_dist_pkt :: "('rh, 'fh, 'wh, 'm, 'n, 'r, 'p) dp_env \<Rightarrow> u16 \<Rightarrow> u16 \<Rightarrow> packet \<Rightarrow> ('rh, 'fh, 'wh, 'm, 'n, 'r, 'p) dp_ccb \<Rightarrow> ('rh, 'fh, 'wh, 'm, 'n, 'r, 'p) dp_ccb" where
  "lan_dist_pkt E lan_tx_q wan_tx_q p s =
     (if next_proto p = rte_cpu_to_be_16 (de_frame_type_arp E) then lan_arp_pkt E lan_tx_q wan_tx_q p s
      else if next_proto p = rte_cpu_to_be_16 ETH_P_PPP_DIS \<or> next_proto p = rte_cpu_to_be_16 ETH_P_PPP_SES then raw_to_wan p s
      else if next_proto p = rte_cpu_to_be_16 FRAME_TYPE_IPV6 then
        lan_ipv6_pkt E (tx_one E LAN_PORT lan_tx_q) (lan_dist_ipv6_forward E) p s
      else if next_proto p = rte_cpu_to_be_16 (de_frame_type_ip E) then lan_dist_ipv4 E lan_tx_q p s
      else drop_on LAN_PORT p s)"

definition dp_lan_dist_worker_process_pkt ::
  "('rh, 'fh, 'wh, 'm, 'n, 'r, 'p) dp_env \<Rightarrow> u16 \<Rightarrow> packet \<Rightarrow> ('rh, 'fh, 'wh, 'm, 'n, 'r, 'p) dp_ccb \<Rightarrow> ('rh, 'fh, 'wh, 'm, 'n, 'r, 'p) dp_ccb" where
  "dp_lan_dist_worker_process_pkt E tx_q p s =
     (if next_proto p = rte_cpu_to_be_16 FRAME_TYPE_IPV6 then
        if \<not> pppd_ipv6_dp_gate_open (dv_ppp s) then drop_on LAN_PORT p s else lan_ipv6_forward E p s
      else if \<not> pppd_dp_gate_open (dv_ppp s) then drop_on LAN_PORT p s
      else let eth = pk_eth p; vlan = pk_vlan p; p = de_adj E 18 p; ip = pk_off p in
      if pk_mem p (ip + 9) = IPPROTO_TCP then batch_wan (encaps_tcp E tx_q p eth vlan ip s)
      else if pk_mem p (ip + 9) = IPPROTO_UDP then batch_wan (encaps_udp E tx_q p eth vlan ip s)
      else drop_on LAN_PORT p s)"

section \<open>A round of polling\<close>

definition rx_packet ::
  "(u16 \<Rightarrow> u16) \<Rightarrow> u16 \<Rightarrow> u16 \<Rightarrow> (packet \<Rightarrow> ('rh, 'fh, 'wh, 'm, 'n, 'r, 'p) dp_ccb \<Rightarrow> ('rh, 'fh, 'wh, 'm, 'n, 'r, 'p) dp_ccb) \<Rightarrow> packet \<Rightarrow> ('rh, 'fh, 'wh, 'm, 'n, 'r, 'p) dp_ccb \<Rightarrow>
   ('rh, 'fh, 'wh, 'm, 'n, 'r, 'p) dp_ccb" where
  "rx_packet vmap n port body p s =
     (case parse_l2_hdr vmap n p of
        (ERROR, p) \<Rightarrow> upd_core (drop_unknown p port) s
      | (SUCCESS, p) \<Rightarrow> body p s)"

text \<open>
  The end of a round on the LAN port and on the WAN port: the batch, with what the ring of the queue
  holds as far as there is room, is offered to the port, which takes the first \<open>nb_tx\<close> packets. Each
  received packet comes with what the calls made for it return.
\<close>

definition drop_all :: "u16 \<Rightarrow> packet list \<Rightarrow> ('rh, 'fh, 'wh, 'm, 'n, 'r, 'p) dp_ccb \<Rightarrow> ('rh, 'fh, 'wh, 'm, 'n, 'r, 'p) dp_ccb" where
  "drop_all port ps s = fold (drop_on port) ps s"

definition tx_batch :: "u16 \<Rightarrow> u16 \<Rightarrow> nat \<Rightarrow> packet list \<Rightarrow> ('rh, 'fh, 'wh, 'm, 'n, 'r, 'p) dp_ccb \<Rightarrow> ('rh, 'fh, 'wh, 'm, 'n, 'r, 'p) dp_ccb" where
  "tx_batch port q nb_tx batch s =
     (if batch = [] then s
      else let s = s\<lparr>dv_sent := dv_sent s @ map (\<lambda>p. (port, q, p)) (take nb_tx batch)\<rparr> in
      if nb_tx < length batch
      then drop_all port (drop nb_tx batch)
             (s\<lparr>dv_txq := count_tx_queue_refused port q (of_nat (length batch)) (of_nat nb_tx) (dv_txq s)\<rparr>)
      else s)"

definition handed_to_us ::
  "('rh, 'fh, 'wh, 'm, 'n, 'r, 'p) dp_env \<Rightarrow> (nat \<Rightarrow> packet) \<Rightarrow> u16 \<Rightarrow> u16 \<Rightarrow> packet list \<Rightarrow> ('rh, 'fh, 'wh, 'm, 'n, 'r, 'p) dp_ccb \<Rightarrow> packet list \<times> ('rh, 'fh, 'wh, 'm, 'n, 'r, 'p) dp_ccb" where
  "handed_to_us E buf port q batch s =
     (case check_pkt_from_other_lcore (de_ring E) BURST_SIZE (tq_ring (dv_txq s) port q, map pk_id batch) of
        (ring, ids) \<Rightarrow>
          (batch @ map buf (drop (length batch) ids),
           s\<lparr>dv_txq := (dv_txq s)\<lparr>tq_ring := (tq_ring (dv_txq s))(port := (tq_ring (dv_txq s) port)(q := ring))\<rparr>\<rparr>))"

definition wan_data_round ::
  "('rh, 'fh, 'wh, 'm, 'n, 'r, 'p) dp_env \<Rightarrow> (nat \<Rightarrow> packet) \<Rightarrow> (u16 \<Rightarrow> u16) \<Rightarrow> u16 \<Rightarrow> bool \<Rightarrow> u16 \<Rightarrow> nat \<Rightarrow> (('rh, 'fh, 'wh, 'm, 'n, 'r, 'p) dp_env \<times> packet) list \<Rightarrow>
   ('rh, 'fh, 'wh, 'm, 'n, 'r, 'p) dp_ccb \<Rightarrow> ('rh, 'fh, 'wh, 'm, 'n, 'r, 'p) dp_ccb" where
  "wan_data_round E buf vmap n i40e tx_q nb_tx rx s =
     (let s = fold (\<lambda>(E, p). rx_packet vmap n WAN_PORT (wan_data_pkt E i40e tx_q) p) rx s in
      case handed_to_us E buf LAN_PORT tx_q (dv_lan_pkt s) s of (batch, s) \<Rightarrow>
        tx_batch LAN_PORT tx_q nb_tx batch (s\<lparr>dv_lan_pkt := []\<rparr>))"

definition lan_data_round ::
  "('rh, 'fh, 'wh, 'm, 'n, 'r, 'p) dp_env \<Rightarrow> (nat \<Rightarrow> packet) \<Rightarrow> (u16 \<Rightarrow> u16) \<Rightarrow> u16 \<Rightarrow> u16 \<Rightarrow> nat \<Rightarrow> (('rh, 'fh, 'wh, 'm, 'n, 'r, 'p) dp_env \<times> packet) list \<Rightarrow>
   ('rh, 'fh, 'wh, 'm, 'n, 'r, 'p) dp_ccb \<Rightarrow> ('rh, 'fh, 'wh, 'm, 'n, 'r, 'p) dp_ccb" where
  "lan_data_round E buf vmap n tx_q nb_tx rx s =
     (let s = fold (\<lambda>(E, p). rx_packet vmap n LAN_PORT (lan_data_pkt E tx_q) p) rx s in
      case handed_to_us E buf WAN_PORT tx_q (dv_wan_pkt s) s of (batch, s) \<Rightarrow>
        tx_batch WAN_PORT tx_q nb_tx batch (s\<lparr>dv_wan_pkt := []\<rparr>))"

text \<open>Garbage collection takes the subscribers in turn; the cursor is shared by the cores. Every subscriber has its NAT table.\<close>

definition fw_flow_gc_idle_tick_by_ccb ::
  "('rh, 'fh, 'wh, 'm, 'n, 'r, 'p) dp_env \<Rightarrow> u32 \<times> ('rh, 'fh, 'wh, 'm, 'n, 'r, 'p) dp_ccb list \<Rightarrow> u32 \<times> ('rh, 'fh, 'wh, 'm, 'n, 'r, 'p) dp_ccb list" where
  "fw_flow_gc_idle_tick_by_ccb E cs =
     (case cs of (counter, ccbs) \<Rightarrow>
        if ccbs = [] then (counter, ccbs)
        else let i = unat counter mod length ccbs; s = ccbs ! i;
                 s = s\<lparr>dv_nat := snd (nat_gc_scan_by_ccb (de_nat E) (de_clock E) NAT_GC_SCAN_CHUNK (dv_nat s))\<rparr>;
                 s = (if fw_hash (dv_fw s) = None then s
                      else s\<lparr>dv_fw := snd (ipv6_firewall_gc_scan_by_ccb (de_fw E) (de_clock E) IPV6_FIREWALL_GC_SCAN_CHUNK (dv_fw s))\<rparr>)
             in (counter + 1, ccbs[i := s]))"

end
