(* ===== verification/Dp_Owner.thy ===== *)
theory Dp_Owner
  imports Dp_Loops
begin

text \<open>
  Every buffer has one owner. The buffers a core is responsible for are counted over all the places they
  can be: given back, in a batch, with the worker cores, transmitted, in the control plane's queue, in a
  ring to another core, waiting for a MAC address. Processing a packet moves its buffer to one of them.
\<close>

section \<open>Places\<close>

definition mail_ids :: "('r \<Rightarrow> nat list) \<Rightarrow> 'r mailbox \<Rightarrow> nat multiset" where
  "mail_ids L x = image_mset (\<lambda>slot. pk_id (ml_mbuf (the (mx_slot x slot)))) (mset (L (mx_cp_q x)))"

definition ring_ids :: "('r \<Rightarrow> nat list) \<Rightarrow> 'r tx_queues \<Rightarrow> nat multiset" where
  "ring_ids L T = (\<Sum>k \<in> UNIV. case tq_ring T (fst k) (snd k) of None \<Rightarrow> {#} | Some r \<Rightarrow> mset (L r))"

definition arp_ids :: "('r \<Rightarrow> nat list) \<Rightarrow> ('r, 'p) arp_queue \<Rightarrow> nat multiset" where
  "arp_ids L q = mset (map (mb_id \<circ> fst) (arp_waiting L q)) + mset (aq_freed q)"

definition owned :: "('r \<Rightarrow> nat list) \<Rightarrow> ('rh, 'fh, 'wh, 'm, 'n, 'r, 'p) dp_ccb \<Rightarrow> nat multiset" where
  "owned L s =
     mset (dc_freed (dv_core s)) + mset (map pk_id (dv_wan_pkt s)) + mset (map pk_id (dv_lan_pkt s)) +
     mset (map (pk_id \<circ> fst) (dv_dist_pkt s)) + mset (map (pk_id \<circ> snd \<circ> snd) (dv_sent s)) +
     mail_ids L (dv_mail s) + ring_ids L (dv_txq s) + arp_ids L (dv_arp_pq s)"

text \<open>A mail slot is free or in the queue, once.\<close>

definition dp_wf :: "('r \<Rightarrow> nat list) \<Rightarrow> ('p \<Rightarrow> nat multiset) \<Rightarrow> nat \<Rightarrow> ('rh, 'fh, 'wh, 'm, 'n, 'r, 'p) dp_ccb \<Rightarrow> bool" where
  "dp_wf L F cap s \<longleftrightarrow> distinct (L (mx_free (dv_mail s)) @ L (mx_cp_q (dv_mail s))) \<and> arp_wf L F cap (dv_arp_pq s)"

text \<open>What is relied on of DPDK: rings keep their entries in order, and moving the start of a packet keeps the buffer.\<close>

definition ring_exact :: "'r rte_ring \<Rightarrow> ('r \<Rightarrow> nat list) \<Rightarrow> bool" where
  "ring_exact R L \<longleftrightarrow>
     (\<forall>r x r' ok. ring_enqueue R r x = (r', ok) \<longrightarrow> L r' = (if ok then L r @ [x] else L r)) \<and>
     (\<forall>r r' res. ring_dequeue R r = (r', res) \<longrightarrow>
        (case L r of [] \<Rightarrow> res = None \<and> L r' = [] | x # xs \<Rightarrow> res = Some x \<and> L r' = xs))"

definition dp_env_ok :: "('rh, 'fh, 'wh, 'm, 'n, 'r, 'p) dp_env \<Rightarrow> ('r \<Rightarrow> nat list) \<Rightarrow> ('p \<Rightarrow> nat multiset) \<Rightarrow> nat \<Rightarrow> bool" where
  "dp_env_ok E L F cap \<longleftrightarrow> ring_exact (de_ring E) L \<and> arp_contract (de_arp E) L F cap \<and>
     (\<forall>n p. pk_id (de_adj E n p) = pk_id p) \<and> (\<forall>n p q. de_prepend E n p = Some q \<longrightarrow> pk_id q = pk_id p)"

definition alloc_ids :: "('rh, 'fh, 'wh, 'm, 'n, 'r, 'p) dp_env \<Rightarrow> nat multiset" where
  "alloc_ids E = (case de_alloc E of None \<Rightarrow> {#} | Some b \<Rightarrow> {#pk_id b#})"

section \<open>Moving buffers\<close>

text \<open>\<open>X\<close> is what the step adds to the places.\<close>

definition moved where
  "moved L F cap X s s' \<longleftrightarrow> dp_wf L F cap s' \<and> owned L s' = owned L s + X"

lemma pkt_put_id [simp]: "pk_id (pkt_put a bs p) = pk_id p" "pk_id (put16 a x p) = pk_id p" "pk_id (put32 a y p) = pk_id p"
  by (simp_all add: pkt_put_def put16_def put32_def)

lemma strip_id [simp]: "pk_id (strip_pppoe E p) = pk_id p"
  by (simp add: strip_pppoe_def Let_def)

lemma frames_id [simp]: "pk_id (arp_reply_frame E ip p) = pk_id p" "pk_id (echo_reply_frame E ip p) = pk_id p"
    "pk_id (build_icmp_unreach E ip orig eth vlan a p) = pk_id p"
  by (simp_all add: arp_reply_frame_def echo_reply_frame_def build_icmp_unreach_def Let_def)

lemmas state_defs = owned_def dp_wf_def upd_core_def

lemma moved_frame:
  assumes "dv_core s' = dv_core s" "dv_wan_pkt s' = dv_wan_pkt s" "dv_lan_pkt s' = dv_lan_pkt s" "dv_dist_pkt s' = dv_dist_pkt s"
    "dv_sent s' = dv_sent s" "dv_mail s' = dv_mail s" "dv_txq s' = dv_txq s" "dv_arp_pq s' = dv_arp_pq s"
  shows "owned L s' = owned L s" "dp_wf L F cap s' = dp_wf L F cap s"
  using assms by (simp_all add: state_defs)

lemma drop_moved: "dp_wf L F cap s \<Longrightarrow> moved L F cap {#pk_id p#} s (drop_on port p s)"
  by (simp add: moved_def drop_on_def state_defs)

lemma raw_moved: "dp_wf L F cap s \<Longrightarrow> moved L F cap {#pk_id p#} s (raw_to_wan p s)"
  by (simp add: moved_def raw_to_wan_def state_defs Let_def)

lemma worker_moved: "dp_wf L F cap s \<Longrightarrow> moved L F cap {#pk_id p#} s (to_worker tag p s)"
  by (simp add: moved_def to_worker_def state_defs)

lemma refused_rings [simp]: "tq_ring (count_tx_queue_refused port q a b T) = tq_ring T" "tq_ring (count_tx_handoff_drop port q T) = tq_ring T"
  by (simp_all add: count_tx_queue_refused_def count_tx_handoff_drop_def upd_tx_stats_def)

lemma ring_ids_cong: "tq_ring T = tq_ring T' \<Longrightarrow> ring_ids L T = ring_ids L T'"
  by (simp add: ring_ids_def)

lemma ring_ids_refused [simp]: "ring_ids L (count_tx_queue_refused port q a b T) = ring_ids L T"
    "ring_ids L (count_tx_handoff_drop port q T) = ring_ids L T"
  by (simp_all cong: ring_ids_cong add: ring_ids_def)

lemma tx_one_moved: "dp_wf L F cap s \<Longrightarrow> moved L F cap {#pk_id p#} s (tx_one E port q p s)"
  by (simp add: moved_def tx_one_def drop_on_def state_defs)

lemma send2cp_moved:
  assumes ring: "ring_exact R L" and wf: "distinct (L (mx_free x) @ L (mx_cp_q x))"
    and run: "send2cp R p evt port (x, c) = (x', c')"
  shows "distinct (L (mx_free x') @ L (mx_cp_q x')) \<and>
    mset (dc_freed c') + mail_ids L x' = add_mset (pk_id p) (mset (dc_freed c) + mail_ids L x)"
proof -
  obtain f r where deq: "ring_dequeue R (mx_free x) = (f, r)" by fastforce
  have D: "case L (mx_free x) of [] \<Rightarrow> r = None \<and> L f = [] | y # ys \<Rightarrow> r = Some y \<and> L f = ys"
    using ring deq unfolding ring_exact_def by blast
  show ?thesis
  proof (cases "L (mx_free x)")
    case Nil
    with D run deq wf show ?thesis by (auto simp: send2cp_def mail_ids_def)
  next
    case (Cons slot rest)
    with D have r: "r = Some slot" and f: "L f = rest" by simp_all
    have fresh: "slot \<notin> set (L (mx_cp_q x))" "slot \<notin> set rest" using wf Cons by auto
    have old: "image_mset (\<lambda>s. pk_id (ml_mbuf (the (((mx_slot x)(slot \<mapsto> v)) s)))) (mset (L (mx_cp_q x))) = mail_ids L x" for v
      unfolding mail_ids_def using fresh(1) by (intro image_mset_cong) auto
    obtain q b where enq: "ring_enqueue R (mx_cp_q x) slot = (q, b)" by fastforce
    have Q: "L q = (if b then L (mx_cp_q x) @ [slot] else L (mx_cp_q x))"
      using ring enq unfolding ring_exact_def by blast
    show ?thesis
    proof (cases b)
      case True
      with run deq r enq Q f Cons wf fresh old show ?thesis
        by (auto simp: send2cp_def Let_def mail_ids_def)
    next
      case False
      obtain g b' where bk: "ring_enqueue R f slot = (g, b')" by fastforce
      have "L g = (if b' then L f @ [slot] else L f)" using ring bk unfolding ring_exact_def by blast
      with False run deq r enq Q f Cons wf fresh old bk show ?thesis
        by (auto simp: send2cp_def Let_def mail_ids_def split: if_splits)
    qed
  qed
qed

lemma to_cp_moved: "dp_env_ok E L F cap \<Longrightarrow> dp_wf L F cap s \<Longrightarrow> moved L F cap {#pk_id p#} s (to_cp E evt port p s)"
  using send2cp_moved [of "de_ring E" L "dv_mail s" p evt port "dv_core s"]
  by (auto simp: dp_env_ok_def moved_def to_cp_def state_defs split: prod.splits)

lemma ring_ids_enqueue:
  assumes "ring_exact R L" and "tq_ring T port q = Some r" and "ring_enqueue R r b = (r', ok)"
  shows "ring_ids L (T\<lparr>tq_ring := (tq_ring T)(port := (tq_ring T port)(q := Some r'))\<rparr>) =
    ring_ids L T + (if ok then {#b#} else {#})"
proof -
  let ?f = "\<lambda>ring k. case ring (fst k) (snd k) of None \<Rightarrow> {#} | Some r \<Rightarrow> mset (L r)"
  let ?g = "(tq_ring T)(port := (tq_ring T port)(q := Some r'))"
  have L': "L r' = (if ok then L r @ [b] else L r)" using assms(1,3) unfolding ring_exact_def by blast
  have "(\<Sum>k \<in> UNIV - {(port, q)}. ?f ?g k) = (\<Sum>k \<in> UNIV - {(port, q)}. ?f (tq_ring T) k)"
    by (rule sum.cong) (auto simp: prod_eq_iff)
  then show ?thesis
    using sum.remove [of UNIV "(port, q)" "?f ?g"] sum.remove [of UNIV "(port, q)" "?f (tq_ring T)"] L' assms(2)
    by (simp add: ring_ids_def add.commute)
qed

lemma hand_over_moved:
  assumes "dp_env_ok E L F cap" and "dp_wf L F cap s" and "hand_over E port q b s = (res, s')"
  shows "moved L F cap (if res = SUCCESS then {#b#} else {#}) s s'"
proof -
  have ring: "ring_exact (de_ring E) L" using assms(1) by (simp add: dp_env_ok_def)
  have "ring_ids L T' = ring_ids L (dv_txq s) + (if res = SUCCESS then {#b#} else {#})"
    if "send_pkt_to_other_lcore (de_ring E) port q b (dv_txq s) = (res, T')" for T'
    using that ring_ids_enqueue [OF ring, of "dv_txq s" port q]
    by (auto simp: send_pkt_to_other_lcore_def split: if_splits option.splits prod.splits bool.splits)
  with assms(2,3) show ?thesis
    by (auto simp: hand_over_def moved_def state_defs split: prod.splits)
qed

section \<open>The codec\<close>

text \<open>A call that keeps the packet for the caller when it returns a number above zero.\<close>

definition codec_moved where
  "codec_moved E L F cap p s r \<longleftrightarrow> (case r of (n, p', s') \<Rightarrow> pk_id p' = pk_id p \<and>
     (\<exists>X. X \<subseteq># alloc_ids E \<and> moved L F cap (X + (if n = 0 then {#pk_id p#} else {#})) s s'))"

definition step_moved where
  "step_moved E L F cap p s s' \<longleftrightarrow> (\<exists>X. X \<subseteq># alloc_ids E \<and> moved L F cap (add_mset (pk_id p) X) s s')"

lemma step_movedI: "moved L F cap {#pk_id p#} s s' \<Longrightarrow> step_moved E L F cap p s s'"
  unfolding step_moved_def by (intro exI [of _ "{#}"]) simp

lemma step_moved_id: "pk_id q = pk_id p \<Longrightarrow> step_moved E L F cap q s s' = step_moved E L F cap p s s'"
  by (simp add: step_moved_def)

lemma step_moved_frame: "owned L s1 = owned L s \<Longrightarrow> step_moved E L F cap p s1 s' = step_moved E L F cap p s s'"
  by (simp add: step_moved_def moved_def)

lemma batch_moved:
  "codec_moved E L F cap p s r \<Longrightarrow> step_moved E L F cap p s (batch_wan r)"
  "codec_moved E L F cap p s r \<Longrightarrow> step_moved E L F cap p s (batch_lan r)"
  by (auto simp: codec_moved_def step_moved_def moved_def batch_wan_def batch_lan_def state_defs split: prod.splits)

lemma insert_id: "dp_env_ok E L F cap \<Longrightarrow> insert_pppoes_hdr E st tci p = (res, p') \<Longrightarrow> pk_id p' = pk_id p"
  by (auto simp: insert_pppoes_hdr_def dp_env_ok_def Let_def split: option.splits)

lemma refused_moved:
  assumes "dp_env_ok E L F cap" and "dp_wf L F cap s"
  shows "step_moved E L F cap p s (encaps_refused E q p eth vlan ip s)"
proof (cases "de_alloc E")
  case None
  then show ?thesis using drop_moved [OF assms(2), of p LAN_PORT] by (simp add: encaps_refused_def drop_on_def step_movedI)
next
  case (Some buf)
  let ?r = "build_icmp_unreach E (dv_dhcp_server_ip s) p eth vlan ip buf"
  let ?s = "upd_core (count_tx_packet ?r LAN_PORT) (upd_core (count_rx_packet p LAN_PORT) s)"
  obtain res T where send: "send_pkt_to_other_lcore (de_ring E) LAN_PORT q (pk_id buf) (dv_txq ?s) = (res, T)" by fastforce
  have wf: "dp_wf L F cap ?s" and own: "owned L ?s = owned L s" using assms(2) by (simp_all add: state_defs)
  have "moved L F cap (if res = SUCCESS then {#pk_id buf#} else {#}) ?s (?s\<lparr>dv_txq := T\<rparr>)"
    using hand_over_moved [OF assms(1) wf, of LAN_PORT q "pk_id buf" res "?s\<lparr>dv_txq := T\<rparr>"] send by (simp add: hand_over_def)
  then have "moved L F cap {#pk_id buf, pk_id p#} s (encaps_refused E q p eth vlan ip s)"
    using send own unfolding encaps_refused_def Some
    by (cases res) (auto simp: Let_def moved_def state_defs)
  then show ?thesis unfolding step_moved_def using Some
    by (intro exI [of _ "{#pk_id buf#}"]) (simp add: alloc_ids_def add_mset_commute)
qed

lemma encaps_l4_moved:
  assumes E: "dp_env_ok E L F cap" and wf: "dp_wf L F cap s"
  shows "codec_moved E L F cap p s (encaps_l4 learn k E q p eth vlan ip s)"
proof (cases "ETH_MTU - (4 + 6 + 2) < unat (pk_len p)")
  case True
  then show ?thesis
    using refused_moved [OF E wf, of p q eth vlan ip]
    by (auto simp: encaps_l4_def codec_moved_def step_moved_def)
next
  case False
  obtain port nat' where l: "learn (put16 (ip + 10) 0 p) (dv_nat s) = (port, nat')" by fastforce
  show ?thesis
  proof (cases "port = 0")
    case True
    with l False wf show ?thesis
      by (auto simp: encaps_l4_def codec_moved_def Let_def moved_def state_defs intro!: exI [of _ "{#}"])
  next
    case nz: False
    define q1 where "q1 = put16 (ip + 10) (de_ipv4_cksum E (pk_mem (put16 (ip + 20) port (put32 (ip + 12) (hsi_ipv4 (dv_ppp s)) (put16 (ip + 10) 0 p)))) ip)
      (put16 (ip + 20) port (put32 (ip + 12) (hsi_ipv4 (dv_ppp s)) (put16 (ip + 10) 0 p)))"
    define q2 where "q2 = put16 (ip + k) (de_udptcp_cksum E (pk_mem (put16 (ip + k) 0 q1)) ip (ip + 20)) (put16 (ip + k) 0 q1)"
    have id2: "pk_id q2 = pk_id p" by (simp add: q2_def q1_def)
    obtain res q3 where ins: "insert_pppoes_hdr E (dv_ppp s) (word16_at (pk_mem p) vlan) q2 = (res, q3)" by fastforce
    with insert_id [OF E] id2 have id3: "pk_id q3 = pk_id p" by simp
    from l False nz ins have run: "encaps_l4 learn k E q p eth vlan ip s =
      (case res of ERROR \<Rightarrow> (0, q3, upd_core (drop_packet q3 LAN_PORT) (s\<lparr>dv_nat := nat'\<rparr>))
       | SUCCESS \<Rightarrow> (1, q3, upd_core (increase_pppoes_tx_count (pk_len q3)) (upd_core (count_tx_packet q3 WAN_PORT)
            (upd_core (count_rx_packet q3 LAN_PORT) (s\<lparr>dv_nat := nat'\<rparr>)))))"
      by (simp add: encaps_l4_def Let_def q1_def q2_def split: status.splits)
    show ?thesis unfolding run using id3 wf
      by (cases res) (auto simp: codec_moved_def moved_def state_defs intro!: exI [of _ "{#}"])
  qed
qed

lemma encaps_moved:
  assumes "dp_env_ok E L F cap" and "dp_wf L F cap s"
  shows "codec_moved E L F cap p s (encaps_udp E q p eth vlan ip s)" "codec_moved E L F cap p s (encaps_tcp E q p eth vlan ip s)"
  unfolding encaps_udp_def encaps_tcp_def using encaps_l4_moved [OF assms] by blast+

lemma codec_movedI:
  "pk_id p' = pk_id p \<Longrightarrow> moved L F cap (if n = 0 then {#pk_id p#} else {#}) s s' \<Longrightarrow> codec_moved E L F cap p s (n, p', s')"
  unfolding codec_moved_def by (auto intro!: exI [of _ "{#}"])

lemma decaps_icmp_moved:
  assumes "dp_wf L F cap s"
  shows "codec_moved E L F cap p s (decaps_icmp E p eth ip s)"
proof -
  obtain i nat' where look: "nat_reverse_lookup (de_nat E) (de_clock E) (word16_at (pk_mem p) (pk_off p + 38 + 4))
      (word32_at (pk_mem p) (ip + 12)) (ucast ICMP_ECHO_REQUEST) (dv_nat s) = (i, nat')" by fastforce
  show ?thesis using assms look
    by (cases i; cases "pk_mem p (pk_off p + 38) = ICMP_ECHO_REPLY")
      (simp_all add: decaps_icmp_def Let_def codec_movedI moved_def state_defs)
qed

text \<open>With an entry to spare in the pool, a packet that waits for a MAC address waits or replaces the oldest.\<close>

lemma arp_enqueue_ids:
  assumes c: "arp_contract D L F cap" and wf: "arp_wf L F cap q" and pool: "F (aq_pool q) \<noteq> {#}"
    and run: "arp_pending_enqueue D mb ip txq q = (st, q')"
  shows "arp_wf L F cap q' \<and> arp_ids L q' = add_mset (mb_id mb) (arp_ids L q)"
proof -
  obtain ws ev where f: "fifo_enqueue cap (mb, ip, txq) (arp_waiting L q) = (ws, ev)" by fastforce
  have "arp_waiting L q' = ws" "aq_freed q' = aq_freed q @ map (mb_id \<circ> fst) ev"
    using enqueue_refines(3) [OF c wf run pool] f by simp_all
  moreover have "length (arp_waiting L q) < cap \<or> arp_waiting L q \<noteq> []" using arp_cap [OF c] by auto
  ultimately show ?thesis
    using fifo_enqueue_ids [OF f] enqueue_refines(1) [OF c wf run] by (simp add: arp_ids_def)
qed

abbreviation spare where "spare F s \<equiv> F (aq_pool (dv_arp_pq s)) \<noteq> {#}"

lemma port_fwd_moved:
  assumes E: "dp_env_ok E L F cap" and wf: "dp_wf L F cap s" and pool: "spare F s"
  shows "codec_moved E L F cap p s (decaps_port_fwd k E tx_q p eth ip s)"
proof -
  have c: "arp_contract (de_arp E) L F cap" using E by (simp add: dp_env_ok_def)
  have aq: "arp_wf L F cap (dv_arp_pq s)" using wf by (simp add: dp_wf_def)
  have enq: "arp_wf L F cap (snd (arp_pending_enqueue (de_arp E) (mbuf_of q) dip tx_q (dv_arp_pq s))) \<and>
      arp_ids L (snd (arp_pending_enqueue (de_arp E) (mbuf_of q) dip tx_q (dv_arp_pq s))) = add_mset (pk_id q) (arp_ids L (dv_arp_pq s))"
    for q dip
    using arp_enqueue_ids [OF c aq pool, of "mbuf_of q" dip tx_q] by (metis mbuf_of_def mbuf.select_convs(1) prod.collapse)
  show ?thesis
    using wf enq
    by (simp add: decaps_port_fwd_def Let_def split: prod.splits option.splits)
      (auto intro!: codec_movedI simp: moved_def state_defs)
qed

lemma decaps_moved:
  assumes E: "dp_env_ok E L F cap" and wf: "dp_wf L F cap s" and pool: "spare F s"
  shows "codec_moved E L F cap p s (decaps_udp E tx_q p eth ip s)" "codec_moved E L F cap p s (decaps_tcp E tx_q p eth ip s)"
proof -
  obtain i nat' where look: "nat_reverse_lookup (de_nat E) (de_clock E) (word16_at (pk_mem p) (ip + 22))
      (word32_at (pk_mem p) (ip + 12)) (word16_at (pk_mem p) (ip + 20)) (dv_nat s) = (i, nat')" by fastforce
  let ?s = "s\<lparr>dv_nat := nat'\<rparr>"
  have fwd: "codec_moved E L F cap p s (decaps_port_fwd k E tx_q p eth ip ?s)" for k
    using port_fwd_moved [OF E, of ?s p k tx_q eth ip] wf pool
    by (simp add: codec_moved_def moved_def state_defs)
  show "codec_moved E L F cap p s (decaps_udp E tx_q p eth ip s)"
    using look wf fwd by (cases i) (simp_all add: decaps_udp_def Let_def codec_movedI moved_def state_defs)
  show "codec_moved E L F cap p s (decaps_tcp E tx_q p eth ip s)"
    using look wf fwd
    by (cases i) (simp_all add: decaps_tcp_def Let_def codec_movedI moved_def state_defs)
qed

lemma encaps_icmp_moved:
  assumes E: "dp_env_ok E L F cap" and wf: "dp_wf L F cap s"
  shows "codec_moved E L F cap p s (encaps_icmp E p eth vlan ip icmp s)"
proof -
  obtain port nat' where l: "learn_port (nat_icmp_learning (de_nat E) (de_clock E) (mac48 (bytes_at (pk_mem p) (eth + 6) 6))
     (ipv4_hdr_at (pk_mem p) ip) (word16_at (pk_mem p) (icmp + 4)) (pk_mem p icmp) (dv_nat s)) (dv_nat s) = (port, nat')"
    by fastforce
  show ?thesis
  proof (cases "port = 0")
    case True
    with l wf show ?thesis by (simp add: encaps_icmp_def Let_def codec_movedI moved_def state_defs)
  next
    case False
    define q1 where "q1 = put16 (ip + 10) 0 (put16 (icmp + 4) port (put32 (ip + 12) (hsi_ipv4 (dv_ppp s)) p))"
    define q2 where "q2 = put16 (ip + 10) (de_ipv4_cksum E (pk_mem q1) ip) q1"
    define q where "q = put16 (icmp + 2) (icmp_cksum_adjust (word16_at (pk_mem q2) (icmp + 2)) (word16_at (pk_mem p) (icmp + 4)) port) q2"
    have id: "pk_id q = pk_id p" by (simp add: q_def q2_def q1_def)
    have run: "encaps_icmp E p eth vlan ip icmp s =
      (case insert_pppoes_hdr E (dv_ppp s) (word16_at (pk_mem p) vlan) q of
         (ERROR, p) \<Rightarrow> (0, p, upd_core (drop_packet p LAN_PORT) (s\<lparr>dv_nat := nat'\<rparr>))
       | (SUCCESS, p) \<Rightarrow> (1, p, upd_core (increase_pppoes_tx_count (pk_len p)) (upd_core (count_tx_packet p WAN_PORT)
            (upd_core (count_rx_packet p LAN_PORT) (s\<lparr>dv_nat := nat'\<rparr>)))))"
      using l False by (simp add: encaps_icmp_def Let_def q_def q2_def q1_def split: prod.split status.split)
    obtain res q3 where ins: "insert_pppoes_hdr E (dv_ppp s) (word16_at (pk_mem p) vlan) q = (res, q3)" by fastforce
    with insert_id [OF E] id have "pk_id q3 = pk_id p" by simp
    with wf ins show ?thesis unfolding run
      by (cases res) (simp_all add: codec_movedI moved_def state_defs)
  qed
qed

section \<open>Branches of the loops\<close>

lemma session_moved:
  assumes "dp_env_ok E L F cap" and "dp_wf L F cap s"
  shows "moved L F cap {#pk_id p#} s (session_to_cp E p s)" "moved L F cap {#pk_id p#} s (dhcp_to_cp E p s)"
    "moved L F cap {#pk_id p#} s (dns_to_cp E p s)"
  using assms by (simp_all add: session_to_cp_def dhcp_to_cp_def dns_to_cp_def drop_moved to_cp_moved)

lemma iptv_moved: "dp_wf L F cap s \<Longrightarrow> moved L F cap {#pk_id p#} s (wan_iptv_pkt E p s)"
  by (simp add: wan_iptv_pkt_def drop_moved) (simp add: moved_def state_defs Let_def)

lemma forward_id:
  "ipv6_wan_to_lan_forward H env table p c = (r, q, c') \<Longrightarrow> pk_id q = pk_id p \<and> dc_freed c' = dc_freed c"
  by (auto simp: ipv6_wan_to_lan_forward_def Let_def split: if_splits option.splits)

lemma deliver_moved:
  assumes E: "dp_env_ok E L F cap" and wf: "dp_wf L F cap s"
  shows "moved L F cap {#pk_id p#} s (wan_ipv6_deliver E p s)"
proof -
  obtain r q fw c where run: "ipv6_firewall_wan_to_lan_forward (de_fw E) (de_clock E) (de_nd E) (de_nd6 E) (dv_nd6_table s) p
      (dv_fw s, dv_core s) = (r, q, fw, c)" by (metis prod_cases4)
  then have id: "pk_id q = pk_id p" and fr: "dc_freed c = dc_freed (dv_core s)"
    using forward_id [of "de_nd E" "de_nd6 E" "dv_nd6_table s" p "dv_core s"]
    by (auto simp: ipv6_firewall_wan_to_lan_forward_def split: prod.splits bool.splits)
  let ?s = "s\<lparr>dv_fw := fw, dv_core := c\<rparr>"
  have wf': "dp_wf L F cap ?s" and own: "owned L ?s = owned L s" using wf fr by (simp_all add: state_defs)
  have mail: "distinct (L (mx_free (dv_mail s)) @ L (mx_cp_q (dv_mail s)))" using wf by (simp add: dp_wf_def)
  have ring: "ring_exact (de_ring E) L" using E by (simp add: dp_env_ok_def)
  show ?thesis
  proof (cases r)
    case IPV6_FWD_NEIGHBOR_MISS
    have "moved L F cap {#pk_id q#} ?s (case ipv6_neighbor_miss (de_ring E) (de_clock E) (de_cas E) q
            (dv_nd6_miss_last_cycles s, dv_mail s, c) of (t, x, c) \<Rightarrow>
               ?s\<lparr>dv_nd6_miss_last_cycles := t, dv_mail := x, dv_core := c\<rparr>)"
      using send2cp_moved [OF ring mail, of q EV_DP_ND6_MISS WAN_PORT c] wf
      by (auto simp: ipv6_neighbor_miss_def moved_def state_defs split: prod.splits)
    with IPV6_FWD_NEIGHBOR_MISS run id own show ?thesis by (simp add: wan_ipv6_deliver_def moved_def)
  qed (use run id own wf' drop_moved [OF wf', of q WAN_PORT] in \<open>simp_all add: wan_ipv6_deliver_def moved_def, simp_all add: state_defs\<close>)
qed

lemma wan_ipv6_moved:
  assumes "dp_env_ok E L F cap" and "dp_wf L F cap s"
  shows "moved L F cap {#pk_id p#} s (wan_ipv6_pkt E p s)"
  using assms by (auto simp: wan_ipv6_pkt_def session_moved deliver_moved drop_moved split: ipv6_wan_verdict.splits)

lemma learn_mac_frame [simp]: "owned L (learn_mac E ip mac s) = owned L s" "dp_wf L F cap (learn_mac E ip mac s) = dp_wf L F cap s"
    "dv_dhcp_server_ip (learn_mac E ip mac s) = dv_dhcp_server_ip s" "dv_subnet_mask (learn_mac E ip mac s) = dv_subnet_mask s"
    "dv_ppp (learn_mac E ip mac s) = dv_ppp s"
  by (simp_all add: learn_mac_def state_defs)

lemma release_moved:
  assumes "dp_env_ok E L F cap" and "dp_wf L F cap s"
  shows "moved L F cap (mset (map (mb_id \<circ> fst) ds)) s (release_drained E ds s)"
  using assms(2)
proof (induction ds arbitrary: s)
  case (Cons d ds)
  obtain mb q where d: "d = (mb, q)" by fastforce
  obtain res s1 where h: "hand_over E LAN_PORT q (mb_id mb) s = (res, s1)" by fastforce
  note m = hand_over_moved [OF assms(1) Cons.prems h]
  show ?case
  proof (cases res)
    case SUCCESS
    let ?s = "upd_core (count_tx_packet \<lparr>pk_id = mb_id mb, pk_mem = (\<lambda>i. 0), pk_off = 0, pk_len = of_nat (length (mb_data mb)),
        pk_data_len = 0, pk_ccb_id = 0, pk_eth = 0, pk_vlan = 0\<rparr> LAN_PORT) s1"
    have "dp_wf L F cap ?s" "owned L ?s = add_mset (mb_id mb) (owned L s)" using m SUCCESS by (simp_all add: moved_def state_defs)
    with Cons.IH [of ?s] h d SUCCESS show ?thesis by (simp add: moved_def)
  next
    case ERROR
    let ?s = "drop_on LAN_PORT \<lparr>pk_id = mb_id mb, pk_mem = (\<lambda>i. 0), pk_off = 0, pk_len = of_nat (length (mb_data mb)),
        pk_data_len = 0, pk_ccb_id = 0, pk_eth = 0, pk_vlan = 0\<rparr> s1"
    have "dp_wf L F cap ?s" "owned L ?s = add_mset (mb_id mb) (owned L s)"
      using m ERROR by (simp_all add: moved_def state_defs drop_on_def)
    with Cons.IH [of ?s] h d ERROR show ?thesis by (simp add: moved_def)
  qed
qed (simp add: moved_def)

lemma arp_pkt_moved:
  assumes E: "dp_env_ok E L F cap" and wf: "dp_wf L F cap s"
  shows "moved L F cap {#pk_id p#} s (lan_arp_pkt E lq wq p s)"
proof -
  let ?a = "pk_off p + 18"
  define s1 where "s1 = learn_mac E (word32_at (pk_mem p) (?a + 14)) (bytes_at (pk_mem p) (?a + 8) 6) s"
  have w1: "dp_wf L F cap s1" and o1: "owned L s1 = owned L s" using wf by (simp_all add: s1_def)
  have cnt: "dp_wf L F cap (upd_core f s1)" "owned L (upd_core f s1) = owned L s" if "\<And>c. dc_freed (f c) = dc_freed c" for f
    using w1 o1 that by (simp_all add: state_defs)
  define s2 where "s2 = upd_core (count_rx_packet p LAN_PORT) s1"
  have w2: "dp_wf L F cap s2" and o2: "owned L s2 = owned L s" unfolding s2_def by (simp_all add: cnt)
  obtain pq ds where dr: "arp_pending_drain (de_arp E) (word32_at (pk_mem p) (?a + 14)) (bytes_at (pk_mem p) (?a + 8) 6)
      ARP_PENDING_QUEUE_SIZE (dv_arp_pq s2, []) = (pq, ds)" by fastforce
  have c: "arp_contract (de_arp E) L F cap" using E by (simp add: dp_env_ok_def)
  have aq: "arp_wf L F cap (dv_arp_pq s2)" using w2 by (simp add: dp_wf_def)
  note R = drain_refines [OF c aq dr]
  obtain left sent where fd: "fifo_drain (word32_at (pk_mem p) (?a + 14)) (bytes_at (pk_mem p) (?a + 8) 6) ARP_PENDING_QUEUE_SIZE
      (arp_waiting L (dv_arp_pq s2)) = (left, sent)" by fastforce
  have pq: "arp_wf L F cap pq" "arp_ids L (dv_arp_pq s2) = arp_ids L pq + mset (map (mb_id \<circ> fst) ds)"
    using R fd fifo_drain_ids [OF fd] by (simp_all add: arp_ids_def)
  let ?s3 = "s2\<lparr>dv_arp_pq := pq\<rparr>"
  have w3: "dp_wf L F cap ?s3" and o3: "owned L s2 = owned L ?s3 + mset (map (mb_id \<circ> fst) ds)"
    using w2 pq by (simp_all add: state_defs)
  have rel: "moved L F cap {#pk_id p#} s (free_packet p (release_drained E ds ?s3))"
    using release_moved [OF E w3, of ds] o2 o3 by (simp add: moved_def free_packet_def state_defs)
  have direct: "moved L F cap {#pk_id p#} s (tx_one E port q p' (upd_core f (upd_core g s1)))"
    if "pk_id p' = pk_id p" "\<And>c. dc_freed (f c) = dc_freed c" "\<And>c. dc_freed (g c) = dc_freed c" for port q p' f g
  proof -
    let ?t = "upd_core f (upd_core g s1)"
    have "dp_wf L F cap ?t" "owned L ?t = owned L s" using w1 o1 that by (simp_all add: state_defs)
    with tx_one_moved [of L F cap ?t p' E port q] that(1) show ?thesis by (simp add: moved_def)
  qed
  have other: "moved L F cap {#pk_id p#} s (tx_one E WAN_PORT wq p (upd_core (count_tx_packet p WAN_PORT) s2))"
    unfolding s2_def by (rule direct) simp_all
  show ?thesis
    using dr rel other unfolding lan_arp_pkt_def Let_def s1_def [symmetric] s2_def [symmetric] by (simp add: direct)
qed

lemma encap_id: "pk_id (fst (ipv6_lan_to_wan_encap wm st p c)) = pk_id p" "dc_freed (snd (ipv6_lan_to_wan_encap wm st p c)) = dc_freed c"
  by (simp_all add: ipv6_lan_to_wan_encap_def Let_def pkt_put_def)

lemma ipv6_forward_moved: "dp_wf L F cap s \<Longrightarrow> moved L F cap {#pk_id p#} s (lan_ipv6_forward E p s)"
  using encap_id [of "de_wan_src_mac E" "dv_ppp s" p "dv_core s"]
  by (auto simp: lan_ipv6_forward_def ipv6_firewall_lan_to_wan_encap_def Let_def moved_def state_defs split: prod.splits)

lemma dist_ipv6_moved: "dp_wf L F cap s \<Longrightarrow> moved L F cap {#pk_id p#} s (lan_dist_ipv6_forward E p s)"
  by (simp add: lan_dist_ipv6_forward_def worker_moved ipv6_forward_moved split: option.splits)

lemma reply_handed_moved:
  assumes "dp_env_ok E L F cap" and "dp_wf L F cap s"
  shows "moved L F cap {#pk_id q#} s (reply_handed E tx_q q s)"
proof -
  obtain res s1 where h: "hand_over E LAN_PORT tx_q (pk_id q) s = (res, s1)" by fastforce
  note m = hand_over_moved [OF assms h]
  show ?thesis
  proof (cases res)
    case SUCCESS
    with m h show ?thesis by (simp add: reply_handed_def)
  next
    case ERROR
    with m have "dp_wf L F cap s1" "owned L s1 = owned L s" by (simp_all add: moved_def)
    with drop_moved [of L F cap s1 q LAN_PORT] ERROR h show ?thesis by (simp add: reply_handed_def moved_def)
  qed
qed

lemma too_big_ids:
  "build_ipv6_packet_too_big_reply env alloc p ip6 c = (r, c') \<Longrightarrow>
     dc_freed c' = dc_freed c @ [pk_id p] \<and> map_option pk_id r = map_option pk_id alloc"
  by (auto simp: build_ipv6_packet_too_big_reply_def Let_def split: option.splits)

lemma lan_ipv6_moved:
  assumes E: "dp_env_ok E L F cap" and wf: "dp_wf L F cap s"
    and reply: "\<And>q s. dp_wf L F cap s \<Longrightarrow> moved L F cap {#pk_id q#} s (reply q s)"
    and forward: "\<And>p s. dp_wf L F cap s \<Longrightarrow> moved L F cap {#pk_id p#} s (forward p s)"
  shows "step_moved E L F cap p s (lan_ipv6_pkt E reply forward p s)"
proof -
  obtain r c where run: "build_ipv6_packet_too_big_reply (de_nd6 E) (de_alloc E) p (pk_eth p + 18) (dv_core s) = (r, c)" by fastforce
  note ids = too_big_ids [OF run]
  let ?s = "s\<lparr>dv_core := c\<rparr>"
  have w: "dp_wf L F cap ?s" and o: "owned L ?s = add_mset (pk_id p) (owned L s)" using wf ids by (simp_all add: state_defs)
  have "step_moved E L F cap p s (case r of None \<Rightarrow> ?s | Some q \<Rightarrow> reply q ?s)"
  proof (cases r)
    case None
    then show ?thesis using w o by (auto simp: step_moved_def moved_def intro!: exI [of _ "{#}"])
  next
    case (Some q)
    with ids have "alloc_ids E = {#pk_id q#}" by (cases "de_alloc E") (auto simp: alloc_ids_def)
    then show ?thesis
      using Some reply [OF w, of q] o by (auto simp: step_moved_def moved_def intro!: exI [of _ "{#pk_id q#}"])
  qed
  then show ?thesis
    using E wf forward run
    by (auto simp: lan_ipv6_pkt_def Let_def drop_moved to_cp_moved raw_moved step_movedI split: ipv6_lan_verdict.splits)
qed

lemma gateway_moved:
  assumes "dp_env_ok E L F cap" and "dp_wf L F cap s"
  shows "moved L F cap {#pk_id p#} s (lan_gateway_icmp E q p s)" "moved L F cap {#pk_id p#} s (lan_gateway_l4 E p s)"
  using assms tx_one_moved [OF assms(2), of "echo_reply_frame E (dv_dhcp_server_ip s) p" E LAN_PORT q]
  by (simp_all add: lan_gateway_icmp_def lan_gateway_l4_def Let_def drop_moved tx_one_moved session_moved)

lemma adj_encaps_moved:
  assumes E: "dp_env_ok E L F cap" and wf: "dp_wf L F cap s"
  shows "step_moved E L F cap p s (batch_wan (encaps_tcp E q (de_adj E n p) eth vlan ip s))"
    "step_moved E L F cap p s (batch_wan (encaps_udp E q (de_adj E n p) eth vlan ip s))"
proof -
  have id: "pk_id (de_adj E n p) = pk_id p" using E by (simp add: dp_env_ok_def)
  note b = batch_moved(1) [OF encaps_moved(1) [OF E wf], of "de_adj E n p"] batch_moved(1) [OF encaps_moved(2) [OF E wf], of "de_adj E n p"]
  show "step_moved E L F cap p s (batch_wan (encaps_tcp E q (de_adj E n p) eth vlan ip s))"
    "step_moved E L F cap p s (batch_wan (encaps_udp E q (de_adj E n p) eth vlan ip s))"
    using b unfolding step_moved_id [OF id] by blast+
qed

lemma lan_data_ipv4_moved:
  assumes E: "dp_env_ok E L F cap" and wf: "dp_wf L F cap s"
  shows "step_moved E L F cap p s (lan_data_ipv4 E tx_q p s)"
proof -
  define s1 where "s1 = learn_mac E (word32_at (pk_mem p) (pk_off p + 18 + 12)) (bytes_at (pk_mem p) (pk_eth p + 6) 6) s"
  have w: "dp_wf L F cap s1" and o: "owned L s1 = owned L s" using wf by (simp_all add: s1_def)
  note enc = adj_encaps_moved [OF E w]
  have m: "step_moved E L F cap p s t = step_moved E L F cap p s1 t" for t by (simp add: step_moved_def moved_def o)
  have g: "step_moved E L F cap p s1 (lan_gateway_l4 E p s)"
    unfolding m [symmetric] by (rule step_movedI [OF gateway_moved(2) [OF E wf]])
  show ?thesis
    unfolding lan_data_ipv4_def Let_def s1_def [symmetric] m using E w
    by (simp add: g enc step_movedI raw_moved drop_moved session_moved)
qed

lemma lan_dist_icmp_moved:
  assumes wf: "dp_wf L F cap s"
  shows "moved L F cap {#pk_id p#} s (lan_dist_icmp E p s)"
proof -
  obtain port nat' where l: "learn_port (nat_icmp_learning (de_nat E) (de_clock E) (mac48 (bytes_at (pk_mem p) (pk_eth p + 6) 6))
     (ipv4_hdr_at (pk_mem p) (pk_off p + 18)) (word16_at (pk_mem p) (pk_off p + 38 + 4)) (pk_mem p (pk_off p + 38)) (dv_nat s)) (dv_nat s) = (port, nat')"
    by fastforce
  show ?thesis
    using l wf by (cases "port = 0") (simp_all add: lan_dist_icmp_def Let_def drop_on_def moved_def state_defs)
qed

lemma lan_dist_ipv4_moved:
  assumes E: "dp_env_ok E L F cap" and wf: "dp_wf L F cap s"
  shows "moved L F cap {#pk_id p#} s (lan_dist_ipv4 E q p s)"
proof -
  define s1 where "s1 = learn_mac E (word32_at (pk_mem p) (pk_off p + 18 + 12)) (bytes_at (pk_mem p) (pk_eth p + 6) 6) s"
  have w: "dp_wf L F cap s1" and o: "owned L s1 = owned L s" using wf by (simp_all add: s1_def)
  have m: "moved L F cap X s t = moved L F cap X s1 t" for X t by (simp add: moved_def o)
  show ?thesis
    unfolding lan_dist_ipv4_def Let_def s1_def [symmetric] m using E w
    by (simp add: gateway_moved lan_dist_icmp_moved worker_moved raw_moved drop_moved session_moved)
qed

lemma strip_icmp_moved:
  assumes "dp_wf L F cap s"
  shows "step_moved E L F cap p s (batch_lan (decaps_icmp E (strip_pppoe E p) eth ip s))"
    and "step_moved E L F cap p s (batch_lan (decaps_icmp E (put16 a x (strip_pppoe E p)) eth ip s))"
  using batch_moved(2) [OF decaps_icmp_moved [OF assms]] step_moved_id [of "strip_pppoe E p" p]
    step_moved_id [of "put16 a x (strip_pppoe E p)" p] by (metis pkt_put_id(2) strip_id)+

lemma put_decaps_moved:
  assumes "dp_env_ok E L F cap" and "dp_wf L F cap s" and "spare F s" and "pk_id q = pk_id p"
  shows "step_moved E L F cap p s (batch_lan (decaps_udp E tx_q q eth ip s))"
    and "step_moved E L F cap p s (batch_lan (decaps_tcp E tx_q q eth ip s))"
  using batch_moved(2) [OF decaps_moved(1) [OF assms(1-3)]] batch_moved(2) [OF decaps_moved(2) [OF assms(1-3)]]
  unfolding step_moved_id [OF assms(4), symmetric] by blast+

section \<open>The loops\<close>

lemma same_buffer_moved:
  assumes "dp_wf L F cap s" and "pk_id q = pk_id p"
  shows "step_moved E L F cap p s (drop_on port q s)" "step_moved E L F cap p s (to_worker tag q s)"
    "dp_env_ok E L F cap \<Longrightarrow> step_moved E L F cap p s (to_cp E evt port q s)"
  unfolding step_moved_id [OF assms(2), symmetric]
  by (rule step_movedI, rule drop_moved worker_moved to_cp_moved, (assumption | rule assms(1))+)+

lemma wan_ctrl_moved:
  assumes E: "dp_env_ok E L F cap" and wf: "dp_wf L F cap s"
  shows "step_moved E L F cap p s (wan_ctrl_pkt E p s)" "step_moved E L F cap p s (wan_dist_pkt E p s)"
  using E wf
  by (simp_all add: wan_ctrl_pkt_def wan_dist_pkt_def Let_def strip_icmp_moved step_movedI iptv_moved session_moved
      wan_ipv6_moved deliver_moved same_buffer_moved split: ipv6_wan_verdict.splits option.splits)

lemma wan_data_moved:
  assumes E: "dp_env_ok E L F cap" and wf: "dp_wf L F cap s" and pool: "spare F s"
  shows "step_moved E L F cap p s (wan_data_pkt E i40e tx_q p s)"
    "step_moved E L F cap p s (dp_wan_dist_worker_process_pkt E tx_q p s)"
  using E wf
  by (simp_all add: wan_data_pkt_def dp_wan_dist_worker_process_pkt_def Let_def put_decaps_moved [OF E wf pool] strip_icmp_moved step_movedI
      wan_ipv6_moved deliver_moved same_buffer_moved)

lemma lan_data_moved:
  assumes E: "dp_env_ok E L F cap" and wf: "dp_wf L F cap s"
  shows "step_moved E L F cap p s (lan_data_pkt E tx_q p s)"
    "step_moved E L F cap p s (dp_lan_dist_worker_process_pkt E tx_q p s)"
    "step_moved E L F cap p s (lan_dist_pkt E lq wq p s)"
proof -
  have id: "pk_id (de_adj E 18 p) = pk_id p" using E by (simp add: dp_env_ok_def)
  show "step_moved E L F cap p s (lan_data_pkt E tx_q p s)"
    "step_moved E L F cap p s (dp_lan_dist_worker_process_pkt E tx_q p s)"
    "step_moved E L F cap p s (lan_dist_pkt E lq wq p s)"
    using E wf id
    by (simp_all add: lan_data_pkt_def dp_lan_dist_worker_process_pkt_def lan_dist_pkt_def Let_def lan_data_ipv4_moved
        lan_dist_ipv4_moved adj_encaps_moved arp_pkt_moved lan_ipv6_moved reply_handed_moved tx_one_moved ipv6_forward_moved
        dist_ipv6_moved step_movedI raw_moved same_buffer_moved)
qed

text \<open>The queue of the LAN control loop, but for an ICMP packet it cannot translate.\<close>

definition icmp_port :: "('rh, 'fh, 'wh, 'm, 'n, 'r, 'p) dp_env \<Rightarrow> packet \<Rightarrow> ('rh, 'fh, 'wh, 'm, 'n, 'r, 'p) dp_ccb \<Rightarrow> u16" where
  "icmp_port E p s = fst (learn_port (nat_icmp_learning (de_nat E) (de_clock E) (mac48 (bytes_at (pk_mem (de_adj E 18 p)) (pk_eth p + 6) 6))
     (ipv4_hdr_at (pk_mem (de_adj E 18 p)) (pk_off (de_adj E 18 p))) (word16_at (pk_mem (de_adj E 18 p)) (pk_off p + 42))
     (pk_mem (de_adj E 18 p) (pk_off p + 38)) (dv_nat s)) (dv_nat s))"

text \<open>A packet the control loop hands to \<open>encaps_icmp\<close>.\<close>

definition wan_bound_icmp :: "('rh, 'fh, 'wh, 'm, 'n, 'r, 'p) dp_env \<Rightarrow> packet \<Rightarrow> ('rh, 'fh, 'wh, 'm, 'n, 'r, 'p) dp_ccb \<Rightarrow> bool" where
  "wan_bound_icmp E p s \<longleftrightarrow>
     next_proto p = rte_cpu_to_be_16 (de_frame_type_ip E) \<and> de_frame_type_ip E \<notin> {de_frame_type_arp E, FRAME_TYPE_IPV6, ETH_P_PPP_DIS, ETH_P_PPP_SES} \<and>
     pk_mem p (pk_off p + 27) = IPPROTO_ICMP \<and> \<not> is_ip_in_range (word32_at (pk_mem p) (pk_off p + 34)) (dv_dhcp_server_ip s) (dv_subnet_mask s) \<and>
     to_our_mac E p \<and> pppd_dp_gate_open (dv_ppp s)"

section \<open>The end of a round\<close>

lemma take_burst_exact:
  assumes "ring_exact R L"
  shows "take_burst R n r = (xs, r') \<Longrightarrow> L r = xs @ L r'"
proof (induction n arbitrary: r xs)
  case (Suc n)
  obtain r1 x where d: "ring_dequeue R r = (r1, x)" by fastforce
  then have "case L r of [] \<Rightarrow> x = None \<and> L r1 = [] | y # ys \<Rightarrow> x = Some y \<and> L r1 = ys"
    using assms unfolding ring_exact_def by blast
  with Suc d show ?case by (cases "L r") (auto split: prod.splits)
qed simp

lemma ring_ids_taken:
  assumes "tq_ring T port q = Some r" and "L r = xs @ L r'"
  shows "ring_ids L T = ring_ids L (T\<lparr>tq_ring := (tq_ring T)(port := (tq_ring T port)(q := Some r'))\<rparr>) + mset xs"
proof -
  let ?f = "\<lambda>ring k. case ring (fst k) (snd k) of None \<Rightarrow> {#} | Some r \<Rightarrow> mset (L r)"
  let ?g = "(tq_ring T)(port := (tq_ring T port)(q := Some r'))"
  have "(\<Sum>k \<in> UNIV - {(port, q)}. ?f ?g k) = (\<Sum>k \<in> UNIV - {(port, q)}. ?f (tq_ring T) k)"
    by (rule sum.cong) (auto simp: prod_eq_iff)
  then show ?thesis
    using sum.remove [of UNIV "(port, q)" "?f ?g"] sum.remove [of UNIV "(port, q)" "?f (tq_ring T)"] assms
    by (simp add: ring_ids_def ac_simps)
qed

lemma take_burst_len: "take_burst R n r = (xs, r') \<Longrightarrow> length xs \<le> n"
  by (induction n arbitrary: r xs) (auto split: prod.splits option.splits)

lemma handed_ids:
  assumes E: "ring_exact (de_ring E) L" and buf: "\<And>b. pk_id (buf b) = b"
    and run: "handed_to_us E buf port q batch s = (batch', s')"
  obtains T where "s' = s\<lparr>dv_txq := T\<rparr>"
    and "mset (map pk_id batch) + ring_ids L (dv_txq s) = mset (map pk_id batch') + ring_ids L T"
    and "length batch \<le> BURST_SIZE \<longrightarrow> length batch' \<le> BURST_SIZE"
proof (cases "tq_ring (dv_txq s) port q")
  case None
  then have "(tq_ring (dv_txq s))(port := (tq_ring (dv_txq s) port)(q := None)) = tq_ring (dv_txq s)" by (simp add: fun_upd_idem)
  with run None show thesis by (intro that [of "dv_txq s"]) (auto simp: handed_to_us_def check_pkt_from_other_lcore_def)
next
  case (Some r)
  obtain xs r' where t: "take_burst (de_ring E) (BURST_SIZE - length batch) r = (xs, r')" by fastforce
  have id: "image_mset pk_id (image_mset buf M) = M" for M by (induction M) (simp_all add: buf)
  define T where "T r' = (dv_txq s)\<lparr>tq_ring := (tq_ring (dv_txq s))(port := (tq_ring (dv_txq s) port)(q := Some r'))\<rparr>" for r'
  have same: "ring_ids L (dv_txq s) = ring_ids L (T r)" using ring_ids_taken [OF Some, of L "[]" r] by (simp add: T_def)
  have taken: "ring_ids L (dv_txq s) = ring_ids L (T r') + mset xs"
    using ring_ids_taken [OF Some take_burst_exact [OF E t]] by (simp add: T_def)
  show thesis
  proof (cases "BURST_SIZE \<le> length batch")
    case True
    with run Some same show thesis
      by (intro that [of "T r"]) (auto simp: handed_to_us_def check_pkt_from_other_lcore_def T_def)
  next
    case False
    with run Some taken t take_burst_len [OF t] id [of "mset xs"] show thesis
      by (intro that [of "T r'"]) (auto simp: handed_to_us_def check_pkt_from_other_lcore_def T_def)
  qed
qed

lemma drop_all_moved:
  "dp_wf L F cap s \<Longrightarrow> moved L F cap (mset (map pk_id ps)) s (drop_all port ps s)"
proof (induction ps arbitrary: s)
  case (Cons p ps)
  from drop_moved [OF Cons.prems, of p port] have "dp_wf L F cap (drop_on port p s)" "owned L (drop_on port p s) = add_mset (pk_id p) (owned L s)"
    by (simp_all add: moved_def)
  with Cons.IH [of "drop_on port p s"] show ?case by (simp add: drop_all_def moved_def)
qed (simp add: drop_all_def moved_def)

lemma drop_all_frame [simp]: "dv_lan_pkt (drop_all port ps s) = dv_lan_pkt s" "dv_wan_pkt (drop_all port ps s) = dv_wan_pkt s"
  by (induction ps arbitrary: s) (simp_all add: drop_all_def drop_on_def upd_core_def)

lemma owned_sent: "owned L (s\<lparr>dv_sent := dv_sent s @ xs\<rparr>) = owned L s + mset (map (pk_id \<circ> snd \<circ> snd) xs)"
  by (simp add: owned_def)

lemma tx_batch_moved:
  assumes "dp_wf L F cap s"
  shows "moved L F cap (mset (map pk_id batch)) s (tx_batch port q nb_tx batch s)"
proof -
  let ?s = "s\<lparr>dv_sent := dv_sent s @ map (\<lambda>p. (port, q, p)) (take nb_tx batch)\<rparr>"
  let ?t = "?s\<lparr>dv_txq := count_tx_queue_refused port q (of_nat (length batch)) (of_nat nb_tx) (dv_txq s)\<rparr>"
  have ids: "map (pk_id \<circ> snd \<circ> snd) (map (\<lambda>p. (port, q, p)) ps) = map pk_id ps" for ps by (induction ps) simp_all
  have os: "owned L ?s = owned L s + mset (map pk_id (take nb_tx batch))"
    unfolding owned_sent ids ..
  have ws: "dp_wf L F cap ?s" "dp_wf L F cap ?t" using assms by (simp_all add: dp_wf_def)
  have ot: "owned L ?t = owned L ?s" by (simp add: owned_def)
  have split: "mset (map pk_id batch) = mset (map pk_id (take nb_tx batch)) + mset (map pk_id (drop nb_tx batch))"
    by (metis append_take_drop_id map_append mset_append)
  show ?thesis
  proof (cases "nb_tx < length batch")
    case True
    then have "tx_batch port q nb_tx batch s = drop_all port (drop nb_tx batch) ?t" by (auto simp: tx_batch_def Let_def)
    with drop_all_moved [OF ws(2), of "drop nb_tx batch" port] show ?thesis
      unfolding split by (simp only: moved_def ot os add.assoc simp_thms)
  next
    case False
    with os ws(1) assms show ?thesis by (cases "batch = []") (simp_all add: tx_batch_def moved_def)
  qed
qed

lemma tx_batch_frame [simp]: "dv_lan_pkt (tx_batch port q k batch s) = dv_lan_pkt s" "dv_wan_pkt (tx_batch port q k batch s) = dv_wan_pkt s"
  by (simp_all add: tx_batch_def Let_def)

lemma round_end_moved:
  assumes E: "dp_env_ok E L F cap" and wf: "dp_wf L F cap s" and buf: "\<And>b. pk_id (buf b) = b"
  shows "moved L F cap {#} s (wan_data_round E buf vmap n i40e q nb_tx [] s) \<and> dv_lan_pkt (wan_data_round E buf vmap n i40e q nb_tx [] s) = []"
    "moved L F cap {#} s (lan_data_round E buf vmap n q nb_tx [] s) \<and> dv_wan_pkt (lan_data_round E buf vmap n q nb_tx [] s) = []"
proof -
  have ring: "ring_exact (de_ring E) L" using E by (simp add: dp_env_ok_def)
  obtain b1 s1 where h1: "handed_to_us E buf LAN_PORT q (dv_lan_pkt s) s = (b1, s1)" by fastforce
  obtain T1 where t1: "s1 = s\<lparr>dv_txq := T1\<rparr>" "mset (map pk_id (dv_lan_pkt s)) + ring_ids L (dv_txq s) = mset (map pk_id b1) + ring_ids L T1"
    by (rule handed_ids [OF ring buf h1])
  have "dp_wf L F cap (s1\<lparr>dv_lan_pkt := []\<rparr>)" "owned L (s1\<lparr>dv_lan_pkt := []\<rparr>) + mset (map pk_id b1) = owned L s"
    using wf t1 by (simp_all add: dp_wf_def owned_def ac_simps)
  then show "moved L F cap {#} s (wan_data_round E buf vmap n i40e q nb_tx [] s) \<and> dv_lan_pkt (wan_data_round E buf vmap n i40e q nb_tx [] s) = []"
    using tx_batch_moved [of L F cap "s1\<lparr>dv_lan_pkt := []\<rparr>" b1 LAN_PORT q nb_tx] h1 by (simp add: wan_data_round_def moved_def)
  obtain b2 s2 where h2: "handed_to_us E buf WAN_PORT q (dv_wan_pkt s) s = (b2, s2)" by fastforce
  obtain T2 where t2: "s2 = s\<lparr>dv_txq := T2\<rparr>" "mset (map pk_id (dv_wan_pkt s)) + ring_ids L (dv_txq s) = mset (map pk_id b2) + ring_ids L T2"
    by (rule handed_ids [OF ring buf h2])
  have "dp_wf L F cap (s2\<lparr>dv_wan_pkt := []\<rparr>)" "owned L (s2\<lparr>dv_wan_pkt := []\<rparr>) + mset (map pk_id b2) = owned L s"
    using wf t2 by (simp_all add: dp_wf_def owned_def ac_simps)
  then show "moved L F cap {#} s (lan_data_round E buf vmap n q nb_tx [] s) \<and> dv_wan_pkt (lan_data_round E buf vmap n q nb_tx [] s) = []"
    using tx_batch_moved [of L F cap "s2\<lparr>dv_wan_pkt := []\<rparr>" b2 WAN_PORT q nb_tx] h2 by (simp add: lan_data_round_def moved_def)
qed

section \<open>The control loop of the LAN port\<close>

lemma encaps_icmp_refused:
  assumes "icmp_port E p s = 0"
  shows "\<exists>nat'. encaps_icmp E (de_adj E 18 p) (pk_eth p) (pk_vlan p) (pk_off (de_adj E 18 p)) (pk_off p + 38) s =
    (0, de_adj E 18 p, upd_core (drop_packet (de_adj E 18 p) LAN_PORT) (s\<lparr>dv_nat := nat'\<rparr>))"
  using assms by (auto simp: encaps_icmp_def icmp_port_def Let_def ac_simps split: prod.splits)

lemma encaps_icmp_taken:
  assumes "icmp_port E p s \<noteq> 0" and "\<And>q. de_prepend E 26 q \<noteq> None"
  shows "fst (encaps_icmp E (de_adj E 18 p) (pk_eth p) (pk_vlan p) (pk_off (de_adj E 18 p)) (pk_off p + 38) s) = 1"
proof -
  have "fst (insert_pppoes_hdr E st tci q) = SUCCESS" for st tci q
    using assms(2) [of q] by (auto simp: insert_pppoes_hdr_def Let_def)
  then have ins: "\<exists>q'. insert_pppoes_hdr E st tci q = (SUCCESS, q')" for st tci q by (metis prod.collapse)
  show ?thesis
    using assms(1) ins
    by (auto simp: encaps_icmp_def icmp_port_def Let_def ac_simps split: prod.splits status.splits)
      (metis prod.inject status.distinct(1))+
qed

lemma lan_ctrl_cases:
  "wan_bound_icmp E p s \<Longrightarrow> lan_ctrl_pkt E lq wq p s =
    (let s = learn_mac E (word32_at (pk_mem p) (pk_off p + 30)) (bytes_at (pk_mem p) (pk_eth p + 6) 6) s in
     case encaps_icmp E (de_adj E 18 p) (pk_eth p) (pk_vlan p) (pk_off (de_adj E 18 p)) (pk_off p + 38) s of
       (0, p, s) \<Rightarrow> drop_on LAN_PORT p s
     | (Suc n, p, s) \<Rightarrow> s\<lparr>dv_wan_pkt := dv_wan_pkt s @ [p]\<rparr>)"
  by (auto simp: wan_bound_icmp_def lan_ctrl_pkt_def lan_ctrl_ipv4_def Let_def ac_simps)

lemma icmp_port_learn [simp]: "icmp_port E p (learn_mac E ip mac s) = icmp_port E p s"
    "dc_freed (dv_core (learn_mac E ip mac s)) = dc_freed (dv_core s)"
  by (simp_all add: icmp_port_def learn_mac_def)

lemma adj_icmp_moved:
  assumes E: "dp_env_ok E L F cap" and wf: "dp_wf L F cap s"
    and taken: "icmp_port E p s \<noteq> 0" "\<And>q. de_prepend E 26 q \<noteq> None"
  shows "step_moved E L F cap p s
    (case encaps_icmp E (de_adj E 18 p) (pk_eth p) (pk_vlan p) (pk_off (de_adj E 18 p)) (pk_off p + 38) s of
       (0, p, s) \<Rightarrow> drop_on LAN_PORT p s
     | (Suc n, p, s) \<Rightarrow> s\<lparr>dv_wan_pkt := dv_wan_pkt s @ [p]\<rparr>)"
proof -
  have id: "pk_id (de_adj E 18 p) = pk_id p" using E by (simp add: dp_env_ok_def)
  let ?r = "encaps_icmp E (de_adj E 18 p) (pk_eth p) (pk_vlan p) (pk_off (de_adj E 18 p)) (pk_off p + 38) s"
  obtain q s' where r: "?r = (1, q, s')" using encaps_icmp_taken [of E p s, OF taken] by (metis prod.collapse)
  have "step_moved E L F cap p s (batch_wan ?r)"
    using batch_moved(1) [OF encaps_icmp_moved [OF E wf]] step_moved_id [OF id] by blast
  then show ?thesis unfolding r by (simp add: batch_wan_def)
qed

lemma lan_ctrl_ipv4_moved:
  assumes E: "dp_env_ok E L F cap" and wf: "dp_wf L F cap s"
    and ok: "pk_mem p (pk_off p + 27) = IPPROTO_ICMP \<Longrightarrow> \<not> is_ip_in_range (word32_at (pk_mem p) (pk_off p + 34)) (dv_dhcp_server_ip s) (dv_subnet_mask s) \<Longrightarrow>
     to_our_mac E p \<Longrightarrow> pppd_dp_gate_open (dv_ppp s) \<Longrightarrow> icmp_port E p s \<noteq> 0 \<and> (\<forall>q. de_prepend E 26 q \<noteq> None)"
  shows "step_moved E L F cap p s (lan_ctrl_ipv4 E q p s)"
proof -
  define s1 where "s1 = learn_mac E (word32_at (pk_mem p) (pk_off p + 30)) (bytes_at (pk_mem p) (pk_eth p + 6) 6) s"
  have w: "dp_wf L F cap s1" and o: "owned L s1 = owned L s" using wf by (simp_all add: s1_def)
  have f: "dv_dhcp_server_ip s1 = dv_dhcp_server_ip s" "dv_subnet_mask s1 = dv_subnet_mask s" "dv_ppp s1 = dv_ppp s" "icmp_port E p s1 = icmp_port E p s"
    by (simp_all add: s1_def)
  have a: "pk_off p + 18 + 12 = pk_off p + 30" "pk_off p + 18 + 9 = pk_off p + 27" "pk_off p + 18 + 16 = pk_off p + 34" by simp_all
  have "step_moved E L F cap p s1 (lan_ctrl_ipv4 E q p s)"
    using E w ok adj_icmp_moved [OF E w, of p]
    unfolding lan_ctrl_ipv4_def Let_def a s1_def [symmetric] f
    by (auto simp: gateway_moved raw_moved drop_moved step_movedI)
  then show ?thesis using step_moved_frame [OF o] by blast
qed

lemma lan_ctrl_moved:
  assumes E: "dp_env_ok E L F cap" and wf: "dp_wf L F cap s"
    and ok: "wan_bound_icmp E p s \<Longrightarrow> icmp_port E p s \<noteq> 0 \<and> (\<forall>q. de_prepend E 26 q \<noteq> None)"
  shows "step_moved E L F cap p s (lan_ctrl_pkt E lq wq p s)"
proof -
  have ip: "step_moved E L F cap p s (lan_ctrl_ipv4 E lq p s)"
    if "next_proto p = rte_cpu_to_be_16 (de_frame_type_ip E)" "next_proto p \<noteq> rte_cpu_to_be_16 (de_frame_type_arp E)"
      "next_proto p \<noteq> rte_cpu_to_be_16 FRAME_TYPE_IPV6" "next_proto p \<noteq> rte_cpu_to_be_16 ETH_P_PPP_DIS" "next_proto p \<noteq> rte_cpu_to_be_16 ETH_P_PPP_SES"
    using lan_ctrl_ipv4_moved [OF E wf, of p lq] ok that by (auto simp: wan_bound_icmp_def)
  then show ?thesis
    using E wf unfolding lan_ctrl_pkt_def
    by (auto simp: arp_pkt_moved lan_ipv6_moved tx_one_moved ipv6_forward_moved step_movedI raw_moved drop_moved)
qed

section \<open>Properties\<close>


text \<open>
  C27: the control loop of the LAN port gives a buffer back twice. An ICMP packet for the WAN that
  cannot be given a port is dropped by \<open>encaps_icmp\<close> and dropped again by its caller.
\<close>

theorem lan_ctrl_icmp_double_free:
  assumes "dp_env_ok E L F cap" and "wan_bound_icmp E p s" and "icmp_port E p s = 0"
  shows "dc_freed (dv_core (lan_ctrl_pkt E q q' p s)) = dc_freed (dv_core s) @ [pk_id p, pk_id p]"
proof -
  let ?s = "learn_mac E (word32_at (pk_mem p) (pk_off p + 30)) (bytes_at (pk_mem p) (pk_eth p + 6) 6) s"
  have id: "pk_id (de_adj E 18 p) = pk_id p" using assms(1) by (simp add: dp_env_ok_def)
  have "icmp_port E p ?s = 0" using assms(3) by simp
  from encaps_icmp_refused [OF this] obtain nat' where
    "encaps_icmp E (de_adj E 18 p) (pk_eth p) (pk_vlan p) (pk_off (de_adj E 18 p)) (pk_off p + 38) ?s =
    (0, de_adj E 18 p, upd_core (drop_packet (de_adj E 18 p) LAN_PORT) (?s\<lparr>dv_nat := nat'\<rparr>))" by blast
  then show ?thesis
    unfolding lan_ctrl_cases [OF assms(2)] Let_def by (simp add: drop_on_def upd_core_def id)
qed

end
