(* ===== verification/Dp_Icmp.thy ===== *)
theory Dp_Icmp
  imports Dp_Loops
begin

text \<open>
  The checksum of ICMP messages. The gateway never adds up a message again: it adjusts the checksum for
  the field it changes, on the way out, on the way back and in the answer to an echo request. Here the
  adjusted checksum is compared with the sum over the whole message, as the receiver computes it.
\<close>

section \<open>What a receiver checks\<close>

text \<open>The sum of the 16-bit words with the carries added back; all ones is a valid message.\<close>

function fold16 :: "nat \<Rightarrow> nat" where
  "fold16 x = (if x < 65536 then x else fold16 (x mod 65536 + x div 65536))"
  by pat_completeness auto
termination
proof (relation "measure id")
  fix x :: nat
  assume "\<not> x < 65536"
  then have "0 < x div 65536" by (simp add: div_greater_zero_iff)
  moreover have "x = x mod 65536 + 65536 * (x div 65536)" by simp
  ultimately show "(x mod 65536 + x div 65536, x) \<in> measure id" unfolding in_measure id_apply by linarith
qed simp

definition icmp_sum :: "memory \<Rightarrow> nat \<Rightarrow> nat \<Rightarrow> nat" where
  "icmp_sum m a n = sum_list (map (\<lambda>i. unat (word16_at m (a + 2 * i))) [0..<n])"

definition icmp_valid :: "memory \<Rightarrow> nat \<Rightarrow> nat \<Rightarrow> bool" where
  "icmp_valid m a n \<longleftrightarrow> fold16 (icmp_sum m a n) = 65535"

declare fold16.simps [simp del]

lemma mod_65535_split: "(x mod 65536 + x div 65536) mod 65535 = x mod (65535 :: nat)"
proof -
  have "x = (x mod 65536 + x div 65536) + 65535 * (x div 65536)" by (simp add: mult.commute [of _ "_ div _"])
  then show ?thesis by (metis mod_mult_self2)
qed

lemma fold16_all_ones: "fold16 x = 65535 \<longleftrightarrow> x \<noteq> 0 \<and> x mod 65535 = 0"
proof (induction x rule: fold16.induct)
  case (1 x)
  show ?case
  proof (cases "x < 65536")
    case True
    then have "fold16 x = x" by (simp add: fold16.simps)
    moreover have "x \<noteq> 0 \<and> x mod 65535 = 0 \<longleftrightarrow> x = 65535"
      using True by (cases "x = 65535") (auto simp: mod_less)
    ultimately show ?thesis by simp
  next
    case False
    then have "x div 65536 \<noteq> 0" by simp
    with False show ?thesis using 1 [OF False] mod_65535_split [of x] by (simp add: fold16.simps [of x])
  qed
qed

lemma icmp_valid_iff: "icmp_valid m a n \<longleftrightarrow> icmp_sum m a n \<noteq> 0 \<and> icmp_sum m a n mod 65535 = 0"
  by (simp add: icmp_valid_def fold16_all_ones)

text \<open>The first three words and the rest.\<close>

definition rest_sum :: "memory \<Rightarrow> nat \<Rightarrow> nat \<Rightarrow> nat" where
  "rest_sum m a n = sum_list (map (\<lambda>i. unat (word16_at m (a + 2 * i))) [3..<n])"

lemma icmp_sum_split:
  assumes "4 \<le> n"
  shows "icmp_sum m a n = unat (word16_at m a) + unat (word16_at m (a + 2)) + unat (word16_at m (a + 4)) + rest_sum m a n"
proof -
  have "[0..<n] = 0 # 1 # 2 # [3..<n]" using assms by (simp add: upt_conv_Cons numeral_eq_Suc)
  then show ?thesis by (simp add: icmp_sum_def rest_sum_def)
qed

lemma word16_at_cong: "m a = m' a \<Longrightarrow> m (a + 1) = m' (a + 1) \<Longrightarrow> word16_at m a = word16_at m' a"
  by (simp add: word16_at_def)

lemma rest_sum_cong:
  assumes "\<And>i. a + 6 \<le> i \<Longrightarrow> m i = m' i"
  shows "rest_sum m a n = rest_sum m' a n"
proof -
  have "word16_at m (a + 2 * i) = word16_at m' (a + 2 * i)" if "3 \<le> i" for i
    using that by (intro word16_at_cong) (simp_all add: assms)
  then show ?thesis unfolding rest_sum_def by (intro arg_cong [where f = sum_list] map_cong) auto
qed

lemma word16_bytes: "m a = ucast x \<Longrightarrow> m (a + 1) = ucast (drop_bit 8 x) \<Longrightarrow> word16_at m a = x"
  by (rule bit_word_eqI) (auto simp: word16_at_def bit_simps)

lemma word16_put: "word16_at (mem_put a (be_bytes16 x) m) a = x"
  by (rule word16_bytes) (simp_all add: mem_put_def be_bytes16_def)

lemma word16_put_out: "a + 2 \<le> b \<or> b + length bs \<le> a \<Longrightarrow> word16_at (mem_put b bs m) a = word16_at m a"
  by (auto intro!: word16_at_cong simp: mem_put_def)

section \<open>The adjustments\<close>

lemma fold_word: "uint ((x AND 0xFFFF) + drop_bit 16 x) = uint x mod 65536 + uint x div 65536" for x :: u32
proof -
  have hi: "uint (drop_bit 16 x) = uint x div 65536" by (simp add: drop_bit_eq_div uint_div)
  have "x AND 0xFFFF = take_bit 16 x" by (simp add: take_bit_eq_mask mask_eq_exp_minus_1)
  then have lo: "uint (x AND 0xFFFF) = uint x mod 65536" by (simp add: take_bit_eq_mod uint_mod)
  have "uint x div 65536 < 65536" using uint_lt2p [of x] by simp
  moreover have "uint x mod 65536 < 65536" "0 \<le> uint x mod 65536" "0 \<le> uint x div 65536" by (simp_all add: pos_imp_zdiv_nonneg_iff)
  ultimately have "(uint x mod 65536 + uint x div 65536) mod 4294967296 = uint x mod 65536 + uint x div 65536"
    by (intro mod_pos_pos_trivial) linarith+
  then show ?thesis by (simp add: uint_word_ariths hi lo)
qed

lemma adjust_word:
  fixes ck old new :: u16
  defines "x \<equiv> (uint ck + uint old - uint new) mod 4294967296"
  shows "uint (icmp_cksum_adjust ck old new) = (if x div 65536 = 0 then x else (x mod 65536 + x div 65536) mod 65536)"
proof -
  define w :: u32 where "w = word_of_int (uint ck + uint old - uint new)"
  have r: "icmp_cksum_adjust ck old new = (if drop_bit 16 w \<noteq> 0 then ucast ((w AND 0xFFFF) + drop_bit 16 w) else ucast w)"
    by (simp only: icmp_cksum_adjust_def Let_def w_def)
  have w: "uint w = x" by (simp only: w_def uint_word_of_int x_def) simp
  have hi: "uint (drop_bit 16 w) = x div 65536" by (simp add: drop_bit_eq_div uint_div w)
  show ?thesis
  proof (cases "drop_bit 16 w = 0")
    case True
    then have z: "x div 65536 = 0" using hi by simp
    then have "x mod 65536 = x" by (metis div_mult_mod_eq mult_zero_left add_0)
    with z True show ?thesis unfolding r by (simp add: unsigned_ucast_eq take_bit_eq_mod w)
  next
    case False
    then have "x div 65536 \<noteq> 0" using hi by (metis unsigned_eq_0_iff)
    with False show ?thesis unfolding r by (simp add: unsigned_ucast_eq take_bit_eq_mod fold_word w)
  qed
qed

lemma adjust_cases:
  fixes ck old new :: u16
  defines "d \<equiv> uint ck + uint old - uint new"
  shows "uint (icmp_cksum_adjust ck old new) = (if d < 0 then d + 65535 else if d < 65536 then d else d - 65535)"
proof -
  have "0 \<le> uint ck" "uint ck < 65536" "0 \<le> uint old" "uint old < 65536" "0 \<le> uint new" "uint new < 65536"
    using uint_lt2p [of ck] uint_lt2p [of old] uint_lt2p [of new] by simp_all
  then have range: "- 65535 \<le> d" "d \<le> 131070" unfolding d_def by linarith+
  note res = adjust_word [of ck old new, folded d_def]
  show ?thesis
  proof (cases "d < 0")
    case True
    have "d mod 4294967296 = (d + 4294967296) mod 4294967296" by simp
    also have "\<dots> = d + 4294967296" using True range by (intro mod_pos_pos_trivial) simp_all
    finally have u: "d mod 4294967296 = d + 4294967296" .
    have "(d + 65536) div 65536 = 0" "(d + 65536) mod 65536 = d + 65536"
      using True range by (intro div_pos_pos_trivial mod_pos_pos_trivial; simp)+
    then have h: "(d + 4294967296) div 65536 = 65535" "(d + 4294967296) mod 65536 = d + 65536"
      using div_mult_self1 [of 65536 "d + 65536" 65535] mod_mult_self1 [of "d + 65536" 65535 65536] by (simp_all add: add.commute)
    have "(d + 65536 + 65535) mod 65536 = d + 65535"
      using True range mod_add_self2 [of "d + 65535" 65536] mod_pos_pos_trivial [of "d + 65535" 65536] by (simp add: add.commute)
    then show ?thesis unfolding res u h using True by simp
  next
    case False
    with range have u: "d mod 4294967296 = d" by (simp add: mod_pos_pos_trivial)
    show ?thesis
    proof (cases "d < 65536")
      case True
      with False show ?thesis unfolding res u by simp
    next
      case big: False
      have "(d - 65536) div 65536 = 0" "(d - 65536) mod 65536 = d - 65536"
        using big range by (intro div_pos_pos_trivial mod_pos_pos_trivial; simp)+
      then have "d div 65536 = 1" "d mod 65536 = d - 65536"
        using div_add_self2 [of 65536 "d - 65536"] mod_add_self2 [of "d - 65536" 65536] by simp_all
      with big range show ?thesis unfolding res u by simp
    qed
  qed
qed

lemma adjust_sum:
  shows "(unat (icmp_cksum_adjust ck old new) + unat new) mod 65535 = (unat ck + unat old) mod 65535"
    and "unat (icmp_cksum_adjust ck old new) + unat new = 0 \<Longrightarrow> unat ck + unat old = 0"
proof -
  define c o' n r where "c = uint ck" and "o' = uint old" and "n = uint new" and "r = uint (icmp_cksum_adjust ck old new)"
  have b: "0 \<le> c" "c < 65536" "0 \<le> o'" "o' < 65536" "0 \<le> n" "n < 65536"
    using uint_lt2p [of ck] uint_lt2p [of old] uint_lt2p [of new] by (simp_all add: c_def o'_def n_def)
  have r: "r = (if c + o' - n < 0 then c + o' - n + 65535 else if c + o' - n < 65536 then c + o' - n else c + o' - n - 65535)"
    unfolding r_def c_def o'_def n_def by (rule adjust_cases)
  then have s: "r + n = c + o' \<or> r + n = c + o' + 65535 \<or> r + n = c + o' - 65535" by (auto split: if_splits)
  then have "(r + n) mod 65535 = (c + o') mod 65535" 
    using mod_add_self2 [of "c + o'" 65535] minus_mod_self2 [of "c + o'" 65535] by metis
  then have "int ((unat (icmp_cksum_adjust ck old new) + unat new) mod 65535) = int ((unat ck + unat old) mod 65535)"
    unfolding r_def c_def o'_def n_def uint_nat zmod_int of_nat_add by simp
  then show "(unat (icmp_cksum_adjust ck old new) + unat new) mod 65535 = (unat ck + unat old) mod 65535" by simp
  have "r + n = 0 \<Longrightarrow> c + o' = 0" using r b by (auto split: if_splits)
  then have "int (unat (icmp_cksum_adjust ck old new) + unat new) = 0 \<Longrightarrow> int (unat ck + unat old) = 0"
    unfolding r_def c_def o'_def n_def uint_nat of_nat_add .
  then show "unat (icmp_cksum_adjust ck old new) + unat new = 0 \<Longrightarrow> unat ck + unat old = 0" unfolding of_nat_eq_0_iff .
qed

text \<open>Only the checksum and the identifier change: a valid message stays valid.\<close>

lemma adjust_valid:
  assumes "4 \<le> n" and "\<And>i. i = a \<or> i = a + 1 \<or> a + 6 \<le> i \<Longrightarrow> m' i = m i"
    and "word16_at m' (a + 4) = new" and "word16_at m' (a + 2) = icmp_cksum_adjust (word16_at m (a + 2)) (word16_at m (a + 4)) new"
  shows "icmp_valid m a n \<Longrightarrow> icmp_valid m' a n"
proof -
  let ?o = "unat (word16_at m a) + rest_sum m a n"
  have "word16_at m' a = word16_at m a" "rest_sum m' a n = rest_sum m a n"
    using assms(2) by (auto intro!: word16_at_cong rest_sum_cong)
  then have sums: "icmp_sum m' a n = (unat (icmp_cksum_adjust (word16_at m (a + 2)) (word16_at m (a + 4)) new) + unat new) + ?o"
      "icmp_sum m a n = (unat (word16_at m (a + 2)) + unat (word16_at m (a + 4))) + ?o"
    using assms(1,3,4) by (simp_all add: icmp_sum_split)
  note A = adjust_sum [of "word16_at m (a + 2)" "word16_at m (a + 4)" new]
  have "icmp_sum m' a n mod 65535 = icmp_sum m a n mod 65535"
    unfolding sums using mod_add_cong [OF A(1) refl] .
  moreover have "icmp_sum m' a n = 0 \<Longrightarrow> icmp_sum m a n = 0" unfolding sums using A(2) by auto
  ultimately show "icmp_valid m a n \<Longrightarrow> icmp_valid m' a n" by (auto simp: icmp_valid_iff)
qed

lemma uint_not16: "uint (NOT x) = 65535 - uint x" for x :: u16
proof -
  have "NOT x = - 1 - x" by (simp add: not_eq_complement)
  moreover have "uint (- 1 :: u16) = 65535" by (simp add: uint_word_ariths)
  ultimately show ?thesis using uint_lt2p [of x] by (simp add: uint_sub_if')
qed

lemma ucast_not32:
  fixes x :: u32
  assumes "uint x < 65536"
  shows "uint (ucast (NOT x) :: u16) = 65535 - uint x"
proof -
  have "(ucast (NOT x) :: u16) = NOT (ucast x)" by (rule bit_word_eqI) (simp add: bit_simps)
  moreover have "uint (ucast x :: u16) = uint x" using assms by (simp add: unsigned_ucast_eq take_bit_eq_mod)
  ultimately show ?thesis by (simp add: uint_not16)
qed

lemma echo_reply_cases:
  "uint (echo_reply_cksum ck) = (if uint ck < 65527 then uint ck + 8 else uint ck - 65527)"
proof -
  define c :: u32 where "c = ucast (NOT ck) + ucast (NOT (rte_cpu_to_be_16 0x0800)) + ucast (rte_cpu_to_be_16 0)"
  define f :: "u32 \<Rightarrow> u32" where "f x = (x AND 0xffff) + drop_bit 16 x" for x
  have b: "0 \<le> uint ck" "uint ck < 65536" using uint_lt2p [of ck] by simp_all
  have m: "uint (ucast (NOT (rte_cpu_to_be_16 0x0800)) :: u32) = 65527" "uint (ucast (rte_cpu_to_be_16 0) :: u32) = 0"
    by code_simp+
  have t: "(65535 - uint ck) mod 4294967296 = 65535 - uint ck" "(131062 - uint ck) mod 4294967296 = 131062 - uint ck"
    using b by (intro mod_pos_pos_trivial; linarith)+
  have "uint (ucast (NOT ck) :: u32) = 65535 - uint ck"
    by (simp add: unsigned_ucast_eq take_bit_eq_mod uint_not16 t)
  then have c: "uint c = 131062 - uint ck" by (simp add: c_def uint_word_ariths m t)
  have f: "uint (f x) = uint x mod 65536 + uint x div 65536" for x unfolding f_def by (rule fold_word)
  have r: "echo_reply_cksum ck = ucast (NOT (f (f c)))" by (simp add: echo_reply_cksum_def Let_def f_def c_def)
  have stays: "f x = x" if "uint x < 65536" for x
    using that f [of x] by (simp add: word_uint_eq_iff div_pos_pos_trivial mod_pos_pos_trivial)
  have fc: "uint (f c) = (if uint ck < 65527 then 65527 - uint ck else 131062 - uint ck)"
  proof (cases "uint ck < 65527")
    case True
    have "(65526 - uint ck) div 65536 = 0" "(65526 - uint ck) mod 65536 = 65526 - uint ck"
      using True b by (intro div_pos_pos_trivial mod_pos_pos_trivial; linarith)+
    then have "(131062 - uint ck) div 65536 = 1" "(131062 - uint ck) mod 65536 = 65526 - uint ck"
      using div_add_self2 [of 65536 "65526 - uint ck"] mod_add_self2 [of "65526 - uint ck" 65536] by simp_all
    with True show ?thesis by (simp add: f c)
  next
    case False
    with b have "(131062 - uint ck) div 65536 = 0" "(131062 - uint ck) mod 65536 = 131062 - uint ck"
      by (intro div_pos_pos_trivial mod_pos_pos_trivial; linarith)+
    with False show ?thesis by (simp add: f c)
  qed
  then have "uint (f c) < 65536" using b by (cases "uint ck < 65527"; simp only: if_True if_False; linarith)
  then show ?thesis using fc unfolding r stays [OF \<open>uint (f c) < 65536\<close>] by (simp add: ucast_not32)
qed

section \<open>The messages\<close>

lemma pkt_put_mem [simp]: "pk_mem (pkt_put a bs p) = mem_put a bs (pk_mem p)" "pk_mem (put16 a x p) = mem_put a (be_bytes16 x) (pk_mem p)"
    "pk_mem (put32 a y p) = mem_put a (be_bytes32 y) (pk_mem p)"
    "pk_off (pkt_put a bs p) = pk_off p" "pk_off (put16 a x p) = pk_off p" "pk_off (put32 a y p) = pk_off p"
  by (simp_all add: pkt_put_def put16_def put32_def)

definition translated :: "memory \<Rightarrow> memory \<Rightarrow> nat \<Rightarrow> u16 \<Rightarrow> bool" where
  "translated m m' a new \<longleftrightarrow> (\<forall>i. i = a \<or> i = a + 1 \<or> a + 6 \<le> i \<longrightarrow> m' i = m i) \<and> word16_at m' (a + 4) = new \<and>
     word16_at m' (a + 2) = icmp_cksum_adjust (word16_at m (a + 2)) (word16_at m (a + 4)) new"

lemma translated_valid: "translated m m' a new \<Longrightarrow> 4 \<le> n \<Longrightarrow> icmp_valid m a n \<Longrightarrow> icmp_valid m' a n"
  using adjust_valid [of n a m' m new] unfolding translated_def by blast

lemma insert_mem:
  assumes "insert_pppoes_hdr E st tci p = (SUCCESS, q)" and "length (de_wan_src_mac E) = 6" "length (PPP_dst_mac st) = 6"
    and "\<forall>p q. de_prepend E 26 p = Some q \<longrightarrow> pk_mem q = pk_mem p \<and> pk_off q + 26 = pk_off p"
  shows "pk_off p \<le> i \<Longrightarrow> pk_mem q i = pk_mem p i"
proof -
  obtain p1 where p1: "de_prepend E 26 p = Some p1" using assms(1) by (auto simp: insert_pppoes_hdr_def split: option.splits)
  with assms(4) have off: "pk_mem p1 = pk_mem p" "pk_off p = pk_off p1 + 26" by (metis, metis)
  show "pk_off p \<le> i \<Longrightarrow> pk_mem q i = pk_mem p i"
    using assms(1-3) p1 off by (auto simp: insert_pppoes_hdr_def Let_def mem_put_out)
qed

lemmas put_words = word16_put word16_put_out mem_put_out

lemma encaps_icmp_translates:
  assumes run: "encaps_icmp E p eth vlan ip (ip + 20) s = (1, q, s')" and off: "pk_off p = ip"
    and len: "length (de_wan_src_mac E) = 6" "length (PPP_dst_mac (dv_ppp s)) = 6"
    and prep: "\<forall>p q. de_prepend E 26 p = Some q \<longrightarrow> pk_mem q = pk_mem p \<and> pk_off q + 26 = pk_off p"
  shows "\<exists>new. new \<noteq> 0 \<and> translated (pk_mem p) (pk_mem q) (ip + 20) new"
proof -
  obtain port nat' where l: "learn_port (nat_icmp_learning (de_nat E) (de_clock E) (mac48 (bytes_at (pk_mem p) (eth + 6) 6))
     (ipv4_hdr_at (pk_mem p) ip) (word16_at (pk_mem p) (ip + 20 + 4)) (pk_mem p (ip + 20)) (dv_nat s)) (dv_nat s) = (port, nat')"
    by fastforce
  define p1 where "p1 = put16 (ip + 10) 0 (put16 (ip + 24) port (put32 (ip + 12) (hsi_ipv4 (dv_ppp s)) p))"
  define p2 where "p2 = put16 (ip + 10) (de_ipv4_cksum E (pk_mem p1) ip) p1"
  define p3 where "p3 = put16 (ip + 22) (icmp_cksum_adjust (word16_at (pk_mem p2) (ip + 22)) (word16_at (pk_mem p) (ip + 24)) port) p2"
  have nz: "port \<noteq> 0" using run l by (auto simp: encaps_icmp_def)
  with run l have ins: "insert_pppoes_hdr E (dv_ppp s) (word16_at (pk_mem p) vlan) p3 = (SUCCESS, q)"
    by (auto simp: encaps_icmp_def Let_def p3_def p2_def p1_def ac_simps split: prod.splits status.splits)
  have "translated (pk_mem p) (pk_mem p3) (ip + 20) port"
    by (simp add: translated_def p3_def p2_def p1_def put_words add.commute)
  moreover have same: "pk_mem q i = pk_mem p3 i" if "ip \<le> i" for i
    using insert_mem [OF ins len prep, of i] that off by (simp add: p3_def p2_def p1_def)
  have "translated (pk_mem p) (pk_mem q) (ip + 20) port = translated (pk_mem p) (pk_mem p3) (ip + 20) port"
    unfolding translated_def by (simp add: same word16_at_def)
  ultimately show ?thesis using nz by blast
qed

lemma decaps_icmp_translates:
  assumes run: "decaps_icmp E p (pk_off p) (pk_off p + 18) s = (1, q, s')" and len: "length (de_lan_mac E) = 6"
  shows "\<exists>new. translated (pk_mem p) (pk_mem q) (pk_off p + 38) new"
proof -
  obtain i nat' where l: "nat_reverse_lookup (de_nat E) (de_clock E) (word16_at (pk_mem p) (pk_off p + 38 + 4))
      (word32_at (pk_mem p) (pk_off p + 18 + 12)) (ucast ICMP_ECHO_REQUEST) (dv_nat s) = (i, nat')" by fastforce
  then obtain j where j: "i = Some j" using run by (cases i) (auto simp: decaps_icmp_def Let_def split: if_splits)
  have mac: "length (mac48_bytes v) = 6" for v by (simp add: mac48_bytes_def)
  define e a where "e = addr_tab nat' j" and "a = pk_off p"
  define p1 where "p1 = put16 (a + 42) (at_src_port e) (put32 (a + 34) (at_src_ip e)
    (pkt_put a (mac48_bytes (at_mac_addr e)) (pkt_put (a + 6) (de_lan_mac E) p)))"
  define p2 where "p2 = put16 (a + 28) 0 (put16 (a + 40) (icmp_cksum_adjust (word16_at (pk_mem p1) (a + 40)) (word16_at (pk_mem p) (a + 42)) (at_src_port e)) p1)"
  have addr: "a + 18 + k = a + (18 + k)" "a + 38 + k = a + (38 + k)" for k by simp_all
  have reply: "pk_mem p (a + 38) = ICMP_ECHO_REPLY" using run by (auto simp: decaps_icmp_def Let_def a_def split: if_splits)
  have "decaps_icmp E p a (a + 18) s = (1, put16 (a + 28) (de_ipv4_cksum E (pk_mem p2) (a + 18)) p2,
      snd (snd (decaps_icmp E p a (a + 18) s)))"
    unfolding p2_def p1_def e_def using l j reply unfolding a_def [symmetric] decaps_icmp_def Let_def addr by simp
  with run have q: "q = put16 (a + 28) (de_ipv4_cksum E (pk_mem p2) (a + 18)) p2" unfolding a_def by (metis prod.inject)
  have "translated (pk_mem p) (pk_mem q) (a + 38) (at_src_port e)"
    using len mac by (simp add: q p2_def p1_def translated_def put_words add.commute)
  then show ?thesis unfolding a_def by blast
qed

lemma echo_reply_unat: "unat (echo_reply_cksum x) = (if unat x < 65527 then unat x + 8 else unat x - 65527)"
proof -
  define u v where "u = unat x" and "v = unat (echo_reply_cksum x)"
  have "int v = (if int u < 65527 then int u + 8 else int u - 65527)"
    using echo_reply_cases [of x] unfolding u_def v_def uint_nat .
  then show ?thesis unfolding u_def [symmetric] v_def [symmetric] by (auto split: if_splits)
qed

lemma echo_sum:
  fixes c r :: nat
  assumes "(c + 8 + r) mod 65535 = 0" and "c < 65536"
  shows "((if c < 65527 then c + 8 else c - 65527) + r) mod 65535 = 0"
    and "(if c < 65527 then c + 8 else c - 65527) + r \<noteq> 0 \<longleftrightarrow> r \<noteq> 0"
proof -
  show "((if c < 65527 then c + 8 else c - 65527) + r) mod 65535 = 0"
  proof (cases "c < 65527")
    case False
    then have "c + 8 + r = (c - 65527 + r) + 65535" by simp
    then have "(c - 65527 + r) mod 65535 = 0" using assms(1) mod_add_self2 [of "c - 65527 + r" 65535] by (simp only:)
    with False show ?thesis by (simp only: if_False)
  qed (use assms in simp)
  have "c = 65527" if "r = 0"
  proof -
    have "65535 dvd c + 8" using assms(1) that by (simp add: dvd_eq_mod_eq_0)
    then obtain k where k: "c + 8 = 65535 * k" by (rule dvdE)
    with assms(2) have "k < 2" by simp
    with k show ?thesis by (simp add: numeral_2_eq_2 less_Suc_eq)
  qed
  then show "(if c < 65527 then c + 8 else c - 65527) + r \<noteq> 0 \<longleftrightarrow> r \<noteq> 0" by (auto split: if_splits)
qed

lemma rest_zero:
  assumes "4 \<le> n"
  shows "word16_at m (a + 4) \<noteq> 0 \<or> rest_sum m a n \<noteq> 0 \<longleftrightarrow> (\<exists>i < n - 2. word16_at m (a + 4 + 2 * i) \<noteq> 0)"
proof -
  have set: "insert 2 {3..<n} = (\<lambda>i. i + 2) ` {..<n - 2}"
    using assms image_add_atLeastLessThan' [of 2 0 "n - 2"] by (auto simp: lessThan_atLeast0)
  have "rest_sum m a n \<noteq> 0 \<longleftrightarrow> (\<exists>j \<in> {3..<n}. word16_at m (a + 2 * j) \<noteq> 0)"
    by (auto simp: rest_sum_def unsigned_eq_0_iff)
  then have "word16_at m (a + 4) \<noteq> 0 \<or> rest_sum m a n \<noteq> 0 \<longleftrightarrow> (\<exists>j \<in> insert 2 {3..<n}. word16_at m (a + 2 * j) \<noteq> 0)" by simp
  moreover have "a + 4 + 2 * i = a + 2 * (i + 2)" for i by simp
  ultimately show ?thesis unfolding set by (metis (no_types, lifting) imageE imageI lessThan_iff)
qed

lemma unat_word16_at: "unat (word16_at m a) = unat (m a) + 256 * unat (m (a + 1))"
proof -
  have "word16_at m a = ucast (m a) + push_bit 8 (ucast (m (a + 1)))"
    unfolding word16_at_def by (intro disjunctive_add [symmetric]) (auto simp: bit_simps dest: bit_imp_le_length)
  moreover have "unat (m a) < 256" "unat (m (a + 1)) < 256" using unsigned_less [of "m a"] unsigned_less [of "m (a + 1)"] by simp_all
  ultimately show ?thesis by (simp add: unat_word_ariths push_bit_eq_mult unsigned_ucast_eq take_bit_eq_mod mult.commute)
qed

lemma echo_valid:
  assumes n: "4 \<le> n" and type: "m a = ICMP_ECHO_REQUEST"
    and same: "\<And>i. i = a + 1 \<or> a + 4 \<le> i \<Longrightarrow> m' i = m i" and type': "m' a = 0"
    and ck: "word16_at m' (a + 2) = echo_reply_cksum (word16_at m (a + 2))" and valid: "icmp_valid m a n"
  shows "icmp_valid m' a n \<longleftrightarrow> m (a + 1) \<noteq> 0 \<or> word16_at m (a + 4) \<noteq> 0 \<or> rest_sum m a n \<noteq> 0"
proof -
  let ?c = "unat (word16_at m (a + 2))" and ?o = "256 * unat (m (a + 1)) + unat (word16_at m (a + 4)) + rest_sum m a n"
  have c: "?c < 65536" using unsigned_less [of "word16_at m (a + 2)"] by simp
  have "word16_at m' (a + 4) = word16_at m (a + 4)" "rest_sum m' a n = rest_sum m a n"
    using same by (auto intro!: word16_at_cong rest_sum_cong)
  then have sums: "icmp_sum m' a n = (if ?c < 65527 then ?c + 8 else ?c - 65527) + ?o" "icmp_sum m a n = ?c + 8 + ?o"
    using n type type' same [of "a + 1"] ck by (simp_all add: icmp_sum_split unat_word16_at [of _ a] echo_reply_unat)
  have "(?c + 8 + ?o) mod 65535 = 0" using valid unfolding icmp_valid_iff sums by simp
  from echo_sum [OF this c] show ?thesis unfolding icmp_valid_iff sums by (auto simp: unsigned_eq_0_iff)
qed

section \<open>Properties\<close>

text \<open>
  C31: translating the identifier keeps the ICMP checksum valid. When a message whose checksum is right
  leaves for the WAN under a new identifier, or an echo reply comes back under the host's own, the
  receiver's sum over the whole new message is again all ones; nothing of the message but checksum and
  identifier changes, and no message leaves with identifier zero.
\<close>

theorem icmp_translation_checksum:
  assumes "4 \<le> n" and "length (de_wan_src_mac E) = 6" and "length (PPP_dst_mac (dv_ppp s)) = 6" and "length (de_lan_mac E) = 6"
    and "\<forall>p q. de_prepend E 26 p = Some q \<longrightarrow> pk_mem q = pk_mem p \<and> pk_off q + 26 = pk_off p"
    and "icmp_valid (pk_mem p) icmp n"
    and "pk_off p + 20 = icmp \<and> encaps_icmp E p eth vlan (pk_off p) icmp s = (1, q, s') \<or>
         pk_off p + 38 = icmp \<and> decaps_icmp E p (pk_off p) (pk_off p + 18) s = (1, q, s')"
  shows "icmp_valid (pk_mem q) icmp n \<and> (\<forall>i. i = icmp \<or> i = icmp + 1 \<or> icmp + 6 \<le> i \<longrightarrow> pk_mem q i = pk_mem p i) \<and>
    (pk_off p + 20 = icmp \<longrightarrow> word16_at (pk_mem q) (icmp + 4) \<noteq> 0)"
proof -
  from assms(7) obtain new where "translated (pk_mem p) (pk_mem q) icmp new" "pk_off p + 20 = icmp \<longrightarrow> new \<noteq> 0"
  proof (elim disjE conjE)
    assume i: "pk_off p + 20 = icmp" and "encaps_icmp E p eth vlan (pk_off p) icmp s = (1, q, s')"
    then have "encaps_icmp E p eth vlan (pk_off p) (pk_off p + 20) s = (1, q, s')" by simp
    from encaps_icmp_translates [OF this refl assms(2,3,5)] i show thesis by (auto intro: that)
  next
    assume i: "pk_off p + 38 = icmp" and "decaps_icmp E p (pk_off p) (pk_off p + 18) s = (1, q, s')"
    from decaps_icmp_translates [OF this(2) assms(4)] i show thesis by (auto intro: that)
  qed
  then show ?thesis using translated_valid [OF _ assms(1,6)] unfolding translated_def by blast
qed

text \<open>
  C32: the answer to an echo request for the gateway. A request whose checksum is right is answered with a
  message whose checksum is right, with one exception: when everything but type and checksum is zero
  (code, identifier, sequence number and data), the answer carries checksum zero over a message of
  zeros, where a receiver expects all ones. The answer goes to the sender, from the gateway.
\<close>

theorem echo_reply_checksum:
  assumes "4 \<le> n" and "length (de_lan_mac E) = 6" and "pk_eth p = pk_off p"
    and "pk_mem p (pk_off p + 38) = ICMP_ECHO_REQUEST" and "icmp_valid (pk_mem p) (pk_off p + 38) n"
  shows "(let m = pk_mem p; a = pk_off p; m' = pk_mem (echo_reply_frame E ip p) in
     (icmp_valid m' (a + 38) n \<longleftrightarrow> (m (a + 39) \<noteq> 0 \<or> (\<exists>i < n - 2. word16_at m (a + 42 + 2 * i) \<noteq> 0))) \<and>
     m' (a + 38) = ICMP_ECHO_REPLY \<and> (\<forall>i \<ge> a + 42. m' i = m i) \<and>
     bytes_at m' a 12 = bytes_at m (a + 6) 6 @ de_lan_mac E \<and>
     bytes_at m' (a + 30) 8 = be_bytes32 ip @ be_bytes32 (word32_at m (a + 30)))"
proof -
  define a m m' where "a = pk_off p" and "m = pk_mem p" and "m' = pk_mem (echo_reply_frame E ip p)"
  define p1 where "p1 = pkt_put (a + 38) [0] (put32 (a + 30) ip (put32 (a + 34) (word32_at m (a + 30))
     (pkt_put (a + 6) (de_lan_mac E) (pkt_put a (bytes_at m (a + 6) 6) p))))"
  have addr: "a + 18 + k = a + (18 + k)" "a + 38 + k = a + (38 + k)" for k by simp_all
  have w: "word32_at (pk_mem (pkt_put (a + 6) (de_lan_mac E) (pkt_put a (bytes_at m (a + 6) 6) p))) (a + 30) = word32_at m (a + 30)"
    using assms(2) by (simp add: word32_at_def mem_put_out m_def)
  have m': "m' = mem_put (a + 40) (be_bytes16 (echo_reply_cksum (word16_at (pk_mem p1) (a + 40)))) (pk_mem p1)"
    using w unfolding m'_def echo_reply_frame_def Let_def assms(3) p1_def a_def [symmetric] addr by (simp add: m_def)
  have p1: "pk_mem p1 = mem_put (a + 38) [0] (mem_put (a + 30) (be_bytes32 ip) (mem_put (a + 34) (be_bytes32 (word32_at m (a + 30)))
      (mem_put (a + 6) (de_lan_mac E) (mem_put a (bytes_at m (a + 6) 6) m))))"
    by (simp add: p1_def m_def)
  have ck: "word16_at m' (a + 40) = echo_reply_cksum (word16_at m (a + 40))"
    using assms(2) by (simp add: m' p1 put_words)
  have rest: "m' i = m i" if "i = a + 39 \<or> a + 42 \<le> i" for i using that assms(2) by (auto simp: m' p1 mem_put_out)
  have e: "a + 38 + 1 = a + 39" "a + 38 + 2 = a + 40" "a + 38 + 4 = a + 42" by simp_all
  have type: "m' (a + 38) = 0" by (simp add: m' p1 mem_put_out mem_put_in)
  have "icmp_valid m' (a + 38) n \<longleftrightarrow> m (a + 39) \<noteq> 0 \<or> word16_at m (a + 42) \<noteq> 0 \<or> rest_sum m (a + 38) n \<noteq> 0"
    by (rule echo_valid [OF assms(1), of m "a + 38" m', unfolded e, OF _ rest type ck]) (use assms(4,5) in \<open>simp_all add: m_def a_def\<close>)
  moreover have "bytes_at m' a 12 = bytes_at m (a + 6) 6 @ de_lan_mac E"
    using assms(2) bytes_at_add [of m' a 6 6] by (simp add: m' p1 bytes_at_put_out bytes_at_put_same)
  moreover have "bytes_at m' (a + 30) 8 = be_bytes32 ip @ be_bytes32 (word32_at m (a + 30))"
    using bytes_at_add [of m' "a + 30" 4 4] by (simp add: m' p1 bytes_at_put_out bytes_at_put_same add.commute)
  ultimately show ?thesis
    using rest_zero [OF assms(1), of m "a + 38", unfolded e] rest type
    unfolding Let_def a_def [symmetric] m_def [symmetric] m'_def [symmetric] by auto
qed

end
