(* ===== verification/Dp_Nat.thy ===== *)
theory Dp_Nat
  imports Dp_Icmp
begin

text \<open>
  A UDP datagram through the translation and back: the packet the WAN sees, and what becomes of the
  answer to it.
\<close>

section \<open>Fields\<close>

lemma word32_at_cong:
  "m a = m' a \<Longrightarrow> m (a + 1) = m' (a + 1) \<Longrightarrow> m (a + 2) = m' (a + 2) \<Longrightarrow> m (a + 3) = m' (a + 3) \<Longrightarrow> word32_at m a = word32_at m' a"
  by (simp add: word32_at_def)

lemma word32_bytes:
  assumes "m a = ucast x" "m (a + 1) = ucast (drop_bit 8 x)" "m (a + 2) = ucast (drop_bit 16 x)" "m (a + 3) = ucast (drop_bit 24 x)"
  shows "word32_at m a = x"
proof (rule bit_word_eqI)
  fix n
  assume n: "n < LENGTH(32)"
  then consider "n < 8" | "8 \<le> n" "n < 16" | "16 \<le> n" "n < 24" | "24 \<le> n" "n < 32" by force
  then show "bit (word32_at m a) n = bit x n"
    unfolding word32_at_def assms by cases (auto simp: bit_simps)
qed

lemma word32_put: "word32_at (mem_put a (be_bytes32 x) m) a = x"
  by (rule word32_bytes) (simp_all add: mem_put_def be_bytes32_def)

lemma word32_put_out: "a + 4 \<le> b \<or> b + length bs \<le> a \<Longrightarrow> word32_at (mem_put b bs m) a = word32_at m a"
  by (auto intro!: word32_at_cong simp: mem_put_def)

lemmas put_fields = put_words word32_put word32_put_out

section \<open>The two directions\<close>

definition udp_flow :: "packet \<Rightarrow> nat \<Rightarrow> nat_flow" where
  "udp_flow p eth = \<lparr>fl_mac = mac48 (bytes_at (pk_mem p) (eth + 6) 6), fl_proto = IPPROTO_UDP,
     fl_src_ip = word32_at (pk_mem p) (pk_off p + 12), fl_dst_ip = word32_at (pk_mem p) (pk_off p + 16),
     fl_src_port = word16_at (pk_mem p) (pk_off p + 20), fl_dst_port = word16_at (pk_mem p) (pk_off p + 22)\<rparr>"

lemma encaps_udp_out:
  assumes run: "encaps_udp E lq p eth vlan (pk_off p) s = (1, q, s1)" and eth: "eth + 12 \<le> pk_off p"
    and len: "length (de_wan_src_mac E) = 6" "length (PPP_dst_mac (dv_ppp s)) = 6"
    and prep: "\<forall>p q. de_prepend E 26 p = Some q \<longrightarrow> pk_mem q = pk_mem p \<and> pk_off q + 26 = pk_off p"
  obtains port out where "nat_learning_port_reuse (de_nat E) (de_clock E) (udp_flow p eth) (dv_nat s) = Some (port, out, dv_nat s1)"
    and "port \<noteq> 0" and "word16_at (pk_mem q) (pk_off p + 20) = port" and "word32_at (pk_mem q) (pk_off p + 12) = hsi_ipv4 (dv_ppp s)"
    and "word32_at (pk_mem q) (pk_off p + 16) = word32_at (pk_mem p) (pk_off p + 16)"
    and "word16_at (pk_mem q) (pk_off p + 22) = word16_at (pk_mem p) (pk_off p + 22)"
    and "\<And>i. pk_off p + 28 \<le> i \<Longrightarrow> pk_mem q i = pk_mem p i"
proof -
  let ?ip = "pk_off p"
  define p0 where "p0 = put16 (?ip + 10) 0 p"
  have flow: "nat_udp_learning (de_nat E) (de_clock E) (mac48 (bytes_at (pk_mem p0) (eth + 6) 6)) (ipv4_hdr_at (pk_mem p0) ?ip)
      (word16_at (pk_mem p0) (?ip + 20)) (word16_at (pk_mem p0) (?ip + 22)) (dv_nat s) =
    nat_learning_port_reuse (de_nat E) (de_clock E) (udp_flow p eth) (dv_nat s)"
    using eth by (simp add: nat_udp_learning_def udp_flow_def ipv4_hdr_at_def p0_def put_fields bytes_at_put_out)
  obtain port nat' where l: "learn_port (nat_learning_port_reuse (de_nat E) (de_clock E) (udp_flow p eth) (dv_nat s)) (dv_nat s) = (port, nat')"
    by fastforce
  define p1 where "p1 = put16 (?ip + 20) port (put32 (?ip + 12) (hsi_ipv4 (dv_ppp s)) p0)"
  define p2 where "p2 = put16 (?ip + 10) (de_ipv4_cksum E (pk_mem p1) ?ip) p1"
  define p3 where "p3 = put16 (?ip + 26) (de_udptcp_cksum E (pk_mem (put16 (?ip + 26) 0 p2)) ?ip (?ip + 20)) (put16 (?ip + 26) 0 p2)"
  have small: "\<not> ETH_MTU - (4 + 6 + 2) < unat (pk_len p)" and nz: "port \<noteq> 0"
    using run l flow by (auto simp: encaps_udp_def encaps_l4_def p0_def [symmetric] split: if_splits)
  have ins: "insert_pppoes_hdr E (dv_ppp s) (word16_at (pk_mem p) vlan) p3 = (SUCCESS, q)" and nat: "dv_nat s1 = nat'"
    using run l flow small nz unfolding encaps_udp_def encaps_l4_def Let_def p0_def [symmetric]
    by (auto simp: p1_def p2_def p3_def upd_core_def split: prod.splits status.splits)
  have same: "pk_mem q i = pk_mem p3 i" if "?ip \<le> i" for i
    using insert_mem [OF ins len prep, of i] that by (simp add: p3_def p2_def p1_def p0_def)
  have w16: "word16_at (pk_mem q) (?ip + k) = word16_at (pk_mem p3) (?ip + k)" "word32_at (pk_mem q) (?ip + k) = word32_at (pk_mem p3) (?ip + k)" for k
    by (simp_all add: word16_at_def word32_at_def same)
  from l nz obtain out where "nat_learning_port_reuse (de_nat E) (de_clock E) (udp_flow p eth) (dv_nat s) = Some (port, out, nat')"
    by (auto simp: learn_port_def split: option.splits)
  then show thesis
    by (rule that [unfolded nat w16, OF _ nz]) (simp_all add: same p3_def p2_def p1_def p0_def put_fields)
qed

lemma decaps_udp_in:
  assumes look: "fst (nat_reverse_lookup (de_nat E) (de_clock E) (word16_at (pk_mem r) (pk_off r + 40)) (word32_at (pk_mem r) (pk_off r + 30))
      (word16_at (pk_mem r) (pk_off r + 38)) (dv_nat s)) = Some i"
    and len: "length (de_lan_mac E) = 6"
  obtains r' s' where "decaps_udp E tx_q r (pk_off r) (pk_off r + 18) s = (1, r', s')"
    and "word32_at (pk_mem r') (pk_off r + 34) = at_src_ip (addr_tab (dv_nat s) i)"
    and "word16_at (pk_mem r') (pk_off r + 40) = at_src_port (addr_tab (dv_nat s) i)"
    and "bytes_at (pk_mem r') (pk_off r) 12 = mac48_bytes (at_mac_addr (addr_tab (dv_nat s) i)) @ de_lan_mac E"
    and "word32_at (pk_mem r') (pk_off r + 30) = word32_at (pk_mem r) (pk_off r + 30)"
    and "word16_at (pk_mem r') (pk_off r + 38) = word16_at (pk_mem r) (pk_off r + 38)"
    and "\<And>k. pk_off r + 46 \<le> k \<Longrightarrow> pk_mem r' k = pk_mem r k"
proof -
  let ?a = "pk_off r"
  obtain nat' where l: "nat_reverse_lookup (de_nat E) (de_clock E) (word16_at (pk_mem r) (?a + 40)) (word32_at (pk_mem r) (?a + 30))
      (word16_at (pk_mem r) (?a + 38)) (dv_nat s) = (Some i, nat')" using look by (metis prod.collapse)
  have tab: "addr_tab nat' = addr_tab (dv_nat s)"
    using l by (auto simp: nat_reverse_lookup_def nat_refresh_slot_def Let_def split: option.splits if_splits)
  define e where "e = addr_tab (dv_nat s) i"
  have mac: "length (mac48_bytes v) = 6" for v by (simp add: mac48_bytes_def)
  define p1 where "p1 = put16 (?a + 40) (at_src_port e) (put32 (?a + 34) (at_src_ip e) (pkt_put ?a (mac48_bytes (at_mac_addr e)) (pkt_put (?a + 6) (de_lan_mac E) r)))"
  define p2 where "p2 = put16 (?a + 28) (de_ipv4_cksum E (pk_mem p1) (?a + 18)) p1"
  define p3 where "p3 = put16 (?a + 44) (de_udptcp_cksum E (pk_mem (put16 (?a + 44) 0 p2)) (?a + 18) (?a + 38)) (put16 (?a + 44) 0 p2)"
  have addr: "?a + 18 + k = ?a + (18 + k)" for k by simp
  have run: "decaps_udp E tx_q r ?a (?a + 18) s = (1, p3, snd (snd (decaps_udp E tx_q r ?a (?a + 18) s)))"
    using l tab unfolding decaps_udp_def Let_def addr p3_def p2_def p1_def e_def by simp
  have hd: "bytes_at (pk_mem p3) ?a 12 = mac48_bytes (at_mac_addr e) @ de_lan_mac E"
    using len mac bytes_at_add [of "pk_mem p3" ?a 6 6] by (simp add: p3_def p2_def p1_def bytes_at_put_out bytes_at_put_same)
  show thesis
    by (rule that [OF run, unfolded e_def [symmetric], OF _ _ hd]) (simp_all add: p3_def p2_def p1_def put_fields len mac)
qed

section \<open>Property\<close>

text \<open>
  C28: a UDP datagram and its answer. When a datagram leaves for the WAN, it carries the subscriber's
  public address and a port above zero, and its destination and payload are unchanged. Any answer from
  that destination to that port is sent back to the LAN with the original address and port of the host
  as its destination, behind an Ethernet header from the gateway, and with sender and payload unchanged.
\<close>

theorem udp_nat_round_trip:
  assumes D: "nat_dpdk_ok (de_nat E) M" "pool_inv M {#} (dv_nat s)" "fwd_linked M (udp_flow p eth) (dv_nat s)" "no_wrap (de_clock E)"
    and out: "encaps_udp E lq p eth vlan (pk_off p) s = (1, q, s1)" "eth + 12 \<le> pk_off p"
    and len: "length (de_wan_src_mac E) = 6" "length (PPP_dst_mac (dv_ppp s)) = 6" "length (de_lan_mac E) = 6"
    and prep: "\<forall>p q. de_prepend E 26 p = Some q \<longrightarrow> pk_mem q = pk_mem p \<and> pk_off q + 26 = pk_off p"
    and reply: "word32_at (pk_mem r) (pk_off r + 30) = word32_at (pk_mem p) (pk_off p + 16)"
      "word16_at (pk_mem r) (pk_off r + 38) = word16_at (pk_mem p) (pk_off p + 22)"
      "word16_at (pk_mem r) (pk_off r + 40) = word16_at (pk_mem q) (pk_off p + 20)"
  shows "word32_at (pk_mem q) (pk_off p + 12) = hsi_ipv4 (dv_ppp s) \<and> word16_at (pk_mem q) (pk_off p + 20) \<noteq> 0 \<and>
    word32_at (pk_mem q) (pk_off p + 16) = word32_at (pk_mem p) (pk_off p + 16) \<and>
    word16_at (pk_mem q) (pk_off p + 22) = word16_at (pk_mem p) (pk_off p + 22) \<and> (\<forall>i \<ge> pk_off p + 28. pk_mem q i = pk_mem p i) \<and>
    (\<exists>r' s2. decaps_udp E tx_q r (pk_off r) (pk_off r + 18) s1 = (1, r', s2) \<and>
       word32_at (pk_mem r') (pk_off r + 34) = word32_at (pk_mem p) (pk_off p + 12) \<and>
       word16_at (pk_mem r') (pk_off r + 40) = word16_at (pk_mem p) (pk_off p + 20) \<and>
       bytes_at (pk_mem r') (pk_off r + 6) 6 = de_lan_mac E \<and>
       word32_at (pk_mem r') (pk_off r + 30) = word32_at (pk_mem r) (pk_off r + 30) \<and>
       word16_at (pk_mem r') (pk_off r + 38) = word16_at (pk_mem r) (pk_off r + 38) \<and>
       (\<forall>k \<ge> pk_off r + 46. pk_mem r' k = pk_mem r k))"
proof -
  from encaps_udp_out [OF out len(1,2) prep] obtain port o' where
    learn: "nat_learning_port_reuse (de_nat E) (de_clock E) (udp_flow p eth) (dv_nat s) = Some (port, o', dv_nat s1)"
    and q: "port \<noteq> 0" "word16_at (pk_mem q) (pk_off p + 20) = port" "word32_at (pk_mem q) (pk_off p + 12) = hsi_ipv4 (dv_ppp s)"
      "word32_at (pk_mem q) (pk_off p + 16) = word32_at (pk_mem p) (pk_off p + 16)"
      "word16_at (pk_mem q) (pk_off p + 22) = word16_at (pk_mem p) (pk_off p + 22)" "\<And>i. pk_off p + 28 \<le> i \<Longrightarrow> pk_mem q i = pk_mem p i"
    by blast
  note L = learn_then_lookup [OF D learn]
  with q(1) obtain i where i: "o' = Some i" by (cases o') auto
  have look: "fst (nat_reverse_lookup (de_nat E) (de_clock E) (word16_at (pk_mem r) (pk_off r + 40)) (word32_at (pk_mem r) (pk_off r + 30))
      (word16_at (pk_mem r) (pk_off r + 38)) (dv_nat s1)) = Some i"
    and same: "at_src_ip (addr_tab (dv_nat s1) i) = word32_at (pk_mem p) (pk_off p + 12)"
      "at_src_port (addr_tab (dv_nat s1) i) = word16_at (pk_mem p) (pk_off p + 20)"
    using L i q(2) by (simp_all add: reply udp_flow_def same_flow_entry_def nat_entry_same_flow_def)
  have hd: "bytes_at m (a + 6) 6 = ys" if "bytes_at m a 12 = xs @ ys" "length xs = 6" for m a and xs ys :: "u8 list"
    using that bytes_at_add [of m a 6 6] by simp
  have mac: "length (mac48_bytes v) = 6" for v by (simp add: mac48_bytes_def)
  show ?thesis
    using q by (rule_tac decaps_udp_in [OF look len(3), of tx_q]) (simp add: same hd [OF _ mac])
qed

end
