(* ===== verification/Dp_Run.thy ===== *)
theory Dp_Run
  imports Dp_Owner Dp_Nat Nd6_Run Ipv6_Firewall_Run
begin

text \<open>
  The data plane on concrete objects: list rings, list hashes and slot arrays for DPDK, an echo request
  from a host of the LAN, and a gateway with one subscriber.
\<close>

section \<open>The gateway\<close>

type_synonym demo_dp_ccb = "(nat_reverse_key list_hash, nat_forward_key list_hash, ipv6_firewall_key list_hash, u32 slots, u8 list slots,
  nat list, nat list) dp_ccb"

type_synonym demo_dp_env = "(nat_reverse_key list_hash, nat_forward_key list_hash, ipv6_firewall_key list_hash, u32 slots, u8 list slots,
  nat list, nat list) dp_env"

definition demo_env :: demo_dp_env where
  "demo_env = \<lparr>de_nat = list_dpdk, de_fw = fw_list_dpdk, de_mac = slot_hash 4, de_nd = slot_hash 4, de_arp = list_arp 2,
     de_ring = list_ring 4, de_crc = \<lparr>rte_hash_crc = (\<lambda>bs h. h), rte_hash_crc_4byte = (\<lambda>x h. h + x), rte_hash_crc_1byte = (\<lambda>x h. h + ucast x)\<rparr>,
     de_nd6 = demo_nd_env 0 (demo_mac 9), de_wan_src_mac = demo_mac 8, de_ipv4_cksum = (\<lambda>m a. 0), de_udptcp_cksum = (\<lambda>m a b. 0),
     de_raw_cksum = (\<lambda>bs. 0), de_prepend = (\<lambda>n p. if n \<le> pk_off p then Some (p\<lparr>pk_off := pk_off p - n, pk_len := pk_len p + of_nat n,
       pk_data_len := pk_data_len p + of_nat n\<rparr>) else None),
     de_adj = (\<lambda>n p. p\<lparr>pk_off := pk_off p + n, pk_len := pk_len p - of_nat n, pk_data_len := pk_data_len p - of_nat n\<rparr>),
     de_alloc = None, de_tx_taken = True, de_arp_sent = True, de_cas = True, de_frame_type_arp = 0x0806, de_frame_type_ip = 0x0800\<rparr>"

definition demo_nat :: nat_list_ccb where
  "demo_nat = blank_table\<lparr>nat_forward_hash := ([(\<lparr>fk_src_ip = 0x0201A8C0, fk_dst_ip = 0x08080808, fk_src_port = 7, fk_dst_port = 8\<rparr>, 0)], []),
     addr_tab := (addr_tab blank_table)(0 := blank_entry\<lparr>at_nat_port := 0x1234\<rparr>)\<rparr>"

definition demo_dp :: "nat_list_ccb \<Rightarrow> demo_dp_ccb" where
  "demo_dp st = \<lparr>dv_ppp = demo_ppp\<lparr>dp_start_bool := True, PPP_dst_mac := demo_mac 7\<rparr>, dv_nat = st, dv_fw = fw_list_raw,
     dv_mac_table = None, dv_nd6_table = None, dv_nd6_miss_last_cycles = 0, dv_arp_pq = arp_demo_queue,
     dv_dhcp_server_ip = 0x0101A8C0, dv_subnet_mask = 0x00FFFFFF, dv_dhcp_bool = True, dv_dns_proxy_enabled = True,
     dv_core = \<lparr>dc_stats = (\<lambda>_. None), dc_unknown = (\<lambda>_. None), dc_pppoes = None, dc_freed = []\<rparr>,
     dv_mail = \<lparr>mx_free = [0, 1], mx_cp_q = [], mx_slot = (\<lambda>_. None)\<rparr>,
     dv_txq = \<lparr>tq_count = (\<lambda>_. 4), tq_ring = (\<lambda>_ _. Some []), tq_stats = (\<lambda>_. None)\<rparr>,
     dv_wan_pkt = [], dv_lan_pkt = [], dv_dist_pkt = [], dv_sent = [], dv_arp_out = []\<rparr>"

text \<open>An echo request from 192.168.1.2 to \<open>dst\<close>, with identifier 7.\<close>

definition echo_frame :: "u8 list \<Rightarrow> u8 list" where
  "echo_frame dst = demo_mac 9 @ demo_mac 1 @ [0x81, 0, 0, 5, 8, 0] @ [0x45, 0, 0, 28, 0, 0, 0, 0, 64, 1, 0, 0, 192, 168, 1, 2] @ dst @
     [8, 0, 0xEF, 0xFF, 7, 0, 1, 0]"

definition echo_packet :: "u8 list \<Rightarrow> packet" where
  "echo_packet dst = \<lparr>pk_id = 3, pk_mem = mem_put 32 (echo_frame dst) (\<lambda>_. 0), pk_off = 32, pk_len = 46, pk_data_len = 46,
     pk_ccb_id = 0, pk_eth = 32, pk_vlan = 46\<rparr>"

lemma list_ring_exact: "ring_exact (list_ring cap) id"
  by (auto simp: ring_exact_def list_ring_def split: if_splits list.splits)

lemma demo_env_ok: "dp_env_ok demo_env id mset 2"
  using list_ring_exact [of 4] list_arp_contract [of 2] by (auto simp: dp_env_ok_def demo_env_def)

lemma demo_dp_wf: "dp_wf id mset 2 (demo_dp st)" "mset (aq_pool (dv_arp_pq (demo_dp st))) \<noteq> {#}"
  using arp_demo_wf by (simp_all add: dp_wf_def demo_dp_def arp_demo_queue_def)

lemma echo_wan_bound: "wan_bound_icmp demo_env (echo_packet [8, 8, 8, 8]) (demo_dp st)"
  by (simp add: wan_bound_icmp_def demo_env_def echo_packet_def echo_frame_def demo_dp_def next_proto_def mem_put_def word16_at_def bswap16_def
      demo_mac_def to_our_mac_def bytes_at_def pppd_dp_gate_open_def is_ip_in_range_def word32_at_def demo_nd_env_def)

lemma blank_simps [simp]: "nat_free_ring blank_table = []" "nat_reverse_hash blank_table = ([], [])" "nat_forward_hash blank_table = ([], [])"
    "nat_expire_at blank_table = (\<lambda>_. 0)" "port_fwd_table blank_table = (\<lambda>_. \<lparr>pf_dip = 0, pf_iport = 0, pf_is_active = 0, pf_hit_count = 0\<rparr>)"
  by (simp_all add: blank_table_def)

lemma no_free_slot: "ring_dequeue (ring_ops list_dpdk) [] = ([], None)"
  by (simp add: list_dpdk_def list_ring_def)

lemma blank_scan:
  "\<exists>st. nat_gc_scan_by_ccb list_dpdk clk n (blank_table\<lparr>nat_free_ring := []\<rparr>) = (0, st) \<and> nat_free_ring st = [] \<and> snd (nat_reverse_hash st) = []"
proof -
  have scan: "fold (\<lambda>n. nat_gc_slot list_dpdk clk (ix n)) ns (0, blank_table\<lparr>nat_free_ring := [], nat_gc_counter := k\<rparr>) =
      (0, blank_table\<lparr>nat_free_ring := [], nat_gc_counter := k\<rparr>)" for ix ns k
    by (rule gc_fold_skip) simp
  show ?thesis
    unfolding nat_gc_scan_by_ccb_def Let_def scan by (simp add: list_dpdk_simps run_free_cbs_def)
qed

lemma blank_full: "\<exists>st. nat_learning_port_reuse list_dpdk clk f blank_table = Some (0, None, st)"
proof -
  obtain st1 where g: "nat_gc_scan_by_ccb list_dpdk clk NAT_GC_SCAN_CHUNK (blank_table\<lparr>nat_free_ring := []\<rparr>) = (0, st1)"
    and st1: "nat_free_ring st1 = []" "snd (nat_reverse_hash st1) = []" using blank_scan by blast
  obtain kvs where kvs: "nat_reverse_hash st1 = (kvs, [])" using st1(2) by (metis prod.collapse)
  have "\<exists>st. nat_slot_alloc list_dpdk clk blank_table = (None, st)"
    unfolding nat_slot_alloc_def blank_simps no_free_slot prod.case option.case g Let_def snd_conv kvs list_dpdk_simps run_free_cbs_def
    by (simp add: st1 no_free_slot)
  then obtain st where "nat_slot_alloc list_dpdk clk blank_table = (None, st)" by blast
  then show ?thesis
    by (auto simp: nat_learning_port_reuse_def nat_port_walk.simps nat_try_port_def nat_insert_locked_def list_dpdk_simps)
qed

lemma icmp_port_full: "icmp_port demo_env p (demo_dp blank_table) = 0"
proof -
  have d: "de_nat demo_env = list_dpdk" "dv_nat (demo_dp blank_table) = blank_table" by (simp_all add: demo_env_def demo_dp_def)
  obtain st where "nat_icmp_learning list_dpdk (de_clock demo_env) (mac48 (bytes_at (pk_mem (de_adj demo_env 18 p)) (pk_eth p + 6) 6))
     (ipv4_hdr_at (pk_mem (de_adj demo_env 18 p)) (pk_off (de_adj demo_env 18 p))) (word16_at (pk_mem (de_adj demo_env 18 p)) (pk_off p + 42))
     (pk_mem (de_adj demo_env 18 p) (pk_off p + 38)) blank_table = Some (0, None, st)"
    unfolding nat_icmp_learning_def using blank_full by blast
  then show ?thesis unfolding icmp_port_def d by (simp add: learn_port_def)
qed

section \<open>Witnesses\<close>

theorem lan_ctrl_icmp_double_free_witness:
  "dc_freed (dv_core (lan_ctrl_pkt demo_env 0 0 (echo_packet [8, 8, 8, 8]) (demo_dp blank_table))) = [3, 3]"
proof -
  have "dc_freed (dv_core (demo_dp blank_table)) = []" "pk_id (echo_packet [8, 8, 8, 8]) = 3" by (simp_all add: demo_dp_def echo_packet_def)
  with lan_ctrl_icmp_double_free [OF demo_env_ok echo_wan_bound icmp_port_full, of 0 0] show ?thesis by simp
qed


definition routed_echo :: packet where
  "routed_echo = de_adj demo_env 18 (echo_packet [8, 8, 8, 8])"

lemma routed_echo_mem: "pk_mem routed_echo = mem_put 32 (demo_mac 9 @ demo_mac 1 @ [0x81, 0, 0, 5, 8, 0, 0x45, 0, 0, 28, 0, 0, 0, 0, 64, 1, 0, 0,
    192, 168, 1, 2, 8, 8, 8, 8, 8, 0, 0xEF, 0xFF, 7, 0, 1, 0]) (\<lambda>_. 0)"
  by (simp add: routed_echo_def demo_env_def echo_packet_def echo_frame_def)

lemma demo_nat_frame: "de_nat demo_env = list_dpdk" "dv_nat (demo_dp st) = st"
  by (simp_all add: demo_env_def demo_dp_def)

lemma demo_prepend: "de_prepend demo_env n p = (if n \<le> pk_off p then Some (p\<lparr>pk_off := pk_off p - n, pk_len := pk_len p + of_nat n,
       pk_data_len := pk_data_len p + of_nat n\<rparr>) else None)"
  by (simp add: demo_env_def)

lemma learn_echo: "\<exists>st. nat_icmp_learning list_dpdk clk mac (ipv4_hdr_at (pk_mem routed_echo) 50) (word16_at (pk_mem routed_echo) 74)
    (pk_mem routed_echo 70) demo_nat = Some (0x1234, Some 0, st)"
  by (simp add: nat_icmp_learning_def nat_learning_port_reuse_def flow_fkey_def ipv4_hdr_at_def word32_at_def word16_at_def routed_echo_mem
      mem_put_def demo_mac_def demo_nat_def list_dpdk_simps)

theorem icmp_translation_checksum_witness:
  "\<exists>q s'. encaps_icmp demo_env routed_echo 32 46 50 70 (demo_dp demo_nat) = (1, q, s') \<and> icmp_valid (pk_mem q) 70 4 \<and> pk_mem q 76 = 1"
proof -
  let ?r = "encaps_icmp demo_env routed_echo 32 46 50 70 (demo_dp demo_nat)"
  have off: "pk_off routed_echo = 50" by (simp add: routed_echo_def demo_env_def echo_packet_def)
  obtain st where "nat_icmp_learning list_dpdk (de_clock demo_env) (mac48 (bytes_at (pk_mem routed_echo) 38 6))
      (ipv4_hdr_at (pk_mem routed_echo) 50) (word16_at (pk_mem routed_echo) 74) (pk_mem routed_echo 70) demo_nat = Some (0x1234, Some 0, st)"
    using learn_echo by blast
  then have "fst ?r = 1" using off by (simp add: encaps_icmp_def Let_def demo_nat_frame learn_port_def insert_pppoes_hdr_def demo_prepend)
  then obtain q s' where r: "?r = (1, q, s')" by (metis prod.collapse)
  have len: "length (de_wan_src_mac demo_env) = 6" "length (PPP_dst_mac (dv_ppp (demo_dp demo_nat))) = 6" "length (de_lan_mac demo_env) = 6"
    by (simp_all add: demo_env_def demo_dp_def demo_mac_def demo_nd_env_def)
  have prep: "\<forall>p q. de_prepend demo_env 26 p = Some q \<longrightarrow> pk_mem q = pk_mem p \<and> pk_off q + 26 = pk_off p"
    by (simp add: demo_env_def)
  have valid: "icmp_valid (pk_mem routed_echo) 70 4" 
    by (simp add: icmp_valid_iff icmp_sum_def upt_rec word16_at_def routed_echo_mem mem_put_def demo_mac_def)
  have seq: "pk_mem routed_echo 76 = 1" by (simp add: routed_echo_mem mem_put_def demo_mac_def)
  from icmp_translation_checksum [OF _ len prep valid, of 32 46 q s'] r off seq show ?thesis by fastforce
qed

theorem echo_reply_checksum_witness:
  "icmp_valid (pk_mem (echo_reply_frame demo_env 0x0101A8C0 (echo_packet [192, 168, 1, 1]))) 70 4"
proof -
  let ?p = "echo_packet [192, 168, 1, 1]"
  have f: "pk_off ?p = 32" "pk_eth ?p = pk_off ?p" by (simp_all add: echo_packet_def)
  have len: "length (de_lan_mac demo_env) = 6" by (simp add: demo_env_def demo_mac_def demo_nd_env_def)
  have w: "pk_mem ?p (pk_off ?p + 38) = ICMP_ECHO_REQUEST" "icmp_valid (pk_mem ?p) (pk_off ?p + 38) 4" "word16_at (pk_mem ?p) (32 + 42 + 2 * 0) \<noteq> 0"
    by (simp_all add: f icmp_valid_iff icmp_sum_def upt_rec word16_at_def echo_packet_def echo_frame_def mem_put_def demo_mac_def)
  from echo_reply_checksum [OF _ len f(2) w(1,2)] w(3) show ?thesis unfolding Let_def f(1) by fastforce
qed

definition udp_packet :: packet where
  "udp_packet = \<lparr>pk_id = 4, pk_mem = mem_put 26 [1, 0, 0, 0, 0, 0] (mem_put 50 (be_bytes32 10) (mem_put 54 (be_bytes32 99)
       (mem_put 58 (be_bytes16 1) (mem_put 60 (be_bytes16 53) (\<lambda>_. 0))))),
     pk_off = 38, pk_len = 28, pk_data_len = 28, pk_ccb_id = 0, pk_eth = 20, pk_vlan = 34\<rparr>"

definition udp_reply :: packet where
  "udp_reply = \<lparr>pk_id = 5, pk_mem = mem_put 30 (be_bytes32 99) (mem_put 38 (be_bytes16 53) (mem_put 40 (be_bytes16 shared_port) (\<lambda>_. 0))),
     pk_off = 0, pk_len = 46, pk_data_len = 46, pk_ccb_id = 0, pk_eth = 0, pk_vlan = 14\<rparr>"

lemma udp_packet_fields: "word32_at (pk_mem udp_packet) 50 = 10" "word32_at (pk_mem udp_packet) 54 = 99"
    "word16_at (pk_mem udp_packet) 58 = 1" "word16_at (pk_mem udp_packet) 60 = 53" "mac48 (bytes_at (pk_mem udp_packet) 26 6) = 1"
    "pk_off udp_packet = 38"
proof -
  have "mac48 [1, 0, 0, 0, 0, 0] = 1" by code_simp
  then show "word32_at (pk_mem udp_packet) 50 = 10" "word32_at (pk_mem udp_packet) 54 = 99"
    "word16_at (pk_mem udp_packet) 58 = 1" "word16_at (pk_mem udp_packet) 60 = 53" "mac48 (bytes_at (pk_mem udp_packet) 26 6) = 1"
    "pk_off udp_packet = 38"
    by (simp_all add: udp_packet_def put_fields bytes_at_put_same)
qed

lemma udp_packet_flow: "udp_flow udp_packet 20 = flow_a"
  using udp_packet_fields by (simp add: udp_flow_def flow_a_def)

theorem udp_nat_round_trip_witness:
  "\<exists>q s1 r' s2. encaps_udp demo_env 0 udp_packet 20 34 38 (demo_dp empty_table) = (1, q, s1) \<and>
     decaps_udp demo_env 0 udp_reply 0 18 s1 = (1, r', s2) \<and> word32_at (pk_mem r') 34 = 10 \<and> word16_at (pk_mem r') 40 = 1"
proof -
  let ?s = "demo_dp empty_table"
  have clk: "de_clock demo_env = clk_at 0" by (simp add: demo_env_def demo_nd_env_def clk_at_def)
  have D: "nat_dpdk_ok (de_nat demo_env) list_abs" "pool_inv list_abs {#} (dv_nat ?s)" "fwd_linked list_abs (udp_flow udp_packet 20) (dv_nat ?s)"
      "no_wrap (de_clock demo_env)"
    using list_dpdk_ok empty_table_pool_inv
    by (simp_all add: demo_nat_frame udp_packet_flow clk, simp_all add: fwd_linked_def list_abs_def no_wrap_def clk_at_def)
  have len: "length (de_wan_src_mac demo_env) = 6" "length (PPP_dst_mac (dv_ppp ?s)) = 6" "length (de_lan_mac demo_env) = 6"
    by (simp_all add: demo_env_def demo_dp_def demo_mac_def demo_nd_env_def)
  have prep: "\<forall>p q. de_prepend demo_env 26 p = Some q \<longrightarrow> pk_mem q = pk_mem p \<and> pk_off q + 26 = pk_off p"
    by (simp add: demo_env_def)
  let ?r = "encaps_udp demo_env 0 udp_packet 20 34 (pk_off udp_packet) ?s"
  have l: "nat_udp_learning list_dpdk (clk_at 0) (mac48 (bytes_at (pk_mem (put16 48 0 udp_packet)) 26 6)) (ipv4_hdr_at (pk_mem (put16 48 0 udp_packet)) 38)
      (word16_at (pk_mem (put16 48 0 udp_packet)) 58) (word16_at (pk_mem (put16 48 0 udp_packet)) 60) empty_table = Some (shared_port, Some 0, table_a)"
    using udp_packet_fields learn_a
    by (simp add: nat_udp_learning_def ipv4_hdr_at_def put_fields bytes_at_put_out flow_a_def)
  have port: "shared_port \<noteq> 0" by (simp add: shared_port_def bswap16_def)
  have eth: "20 + 12 \<le> pk_off udp_packet" and off: "pk_off udp_reply = 0" by (simp_all add: udp_packet_fields udp_reply_def)
  have "pk_len udp_packet = 28" by (simp add: udp_packet_def)
  then have "fst ?r = 1"
    using l port
    by (simp add: encaps_udp_def encaps_l4_def Let_def demo_nat_frame clk udp_packet_fields learn_port_def insert_pppoes_hdr_def demo_prepend)
  then obtain q s1 where r: "?r = (1, q, s1)" by (metis prod.collapse)
  have q: "word16_at (pk_mem q) 58 = shared_port"
    using encaps_udp_out [OF r eth len(1,2) prep] learn_a by (auto simp: demo_nat_frame clk udp_packet_flow udp_packet_fields)
  have reply: "word32_at (pk_mem udp_reply) (pk_off udp_reply + 30) = word32_at (pk_mem udp_packet) (pk_off udp_packet + 16)"
      "word16_at (pk_mem udp_reply) (pk_off udp_reply + 38) = word16_at (pk_mem udp_packet) (pk_off udp_packet + 22)"
      "word16_at (pk_mem udp_reply) (pk_off udp_reply + 40) = word16_at (pk_mem q) (pk_off udp_packet + 20)"
    using udp_packet_fields q by (simp_all add: udp_reply_def put_fields)
  from udp_nat_round_trip [OF D r eth len prep reply, where tx_q = 0] r show ?thesis by (auto simp: udp_packet_fields off)
qed

section \<open>IPv6\<close>

definition ipv6_packet :: packet where
  "ipv6_packet = \<lparr>pk_id = 7, pk_mem = mem_put 26 ([0x60, 0, 0, 0, 0, 0, 59, 64] @ lan_host @ nd6_gateway_link_local (demo_mac 1)) (\<lambda>_. 0),
     pk_off = 8, pk_len = 58, pk_data_len = 58, pk_ccb_id = 0, pk_eth = 8, pk_vlan = 22\<rparr>"

definition idle_core :: dp_core where
  "idle_core = dv_core (demo_dp demo_nat)"

theorem ipv6_tunnel_round_trip_witness:
  "\<exists>q c1 r c2. ipv6_lan_to_wan_encap (demo_mac 8) (dv_ppp (demo_dp demo_nat)) ipv6_packet idle_core = (q, c1) \<and>
     ipv6_wan_to_lan_forward (slot_hash 4) (demo_nd_env 0 (demo_mac 9)) (Some demo_table) q c1 = (IPV6_FWD_OK, r, c2) \<and>
     pk_off r = 8 \<and> pk_mem r 33 = 62"
proof -
  let ?st = "dv_ppp (demo_dp demo_nat)" and ?a = "nd6_gateway_link_local (demo_mac 1)"
  obtain q c1 where q: "ipv6_lan_to_wan_encap (demo_mac 8) ?st ipv6_packet idle_core = (q, c1)" by fastforce
  have p: "8 \<le> pk_eth ipv6_packet" "pk_off ipv6_packet = pk_eth ipv6_packet" "pk_vlan ipv6_packet = pk_eth ipv6_packet + 14" "pk_eth ipv6_packet = 8"
    by (simp_all add: ipv6_packet_def)
  have len: "length (demo_mac 8) = 6" "length (PPP_dst_mac ?st) = 6" "length (nd_lan_mac (demo_nd_env 0 (demo_mac 9))) = 6" "length (demo_mac 1) = 6"
    by (simp_all add: demo_mac_def demo_dp_def demo_nd_env_def)
  have hop: "2 < ip6_hop_limits (pk_mem ipv6_packet) (pk_eth ipv6_packet + 18)" "pk_mem ipv6_packet 33 = 64"
    by (simp_all add: ip6_hop_limits_def ipv6_packet_def mem_put_def)
  have "ip6_dst_addr (pk_mem ipv6_packet) (pk_eth ipv6_packet + 18) = ?a" by code_simp
  moreover have "nd6_table_lookup (slot_hash 4) (Some demo_table) ?a = Some (demo_mac 1)" by code_simp
  ultimately have "nd6_table_lookup (slot_hash 4) (Some demo_table) (ip6_dst_addr (pk_mem ipv6_packet) (pk_eth ipv6_packet + 18)) = Some (demo_mac 1)"
    by simp
  from ipv6_tunnel_round_trip [OF p(1-3) len hop(1) this q] p(2,4) hop(2) q show ?thesis by auto
qed

theorem ipv6_too_big_reply_witness:
  "\<exists>r c'. build_ipv6_packet_too_big_reply (demo_nd_env 0 (demo_mac 9)) (Some (ipv6_packet\<lparr>pk_id := 9\<rparr>)) ipv6_packet 26 idle_core = (Some r, c') \<and>
     dc_freed c' = [7] \<and> pk_id r = 9"
proof -
  have "length (nd_lan_mac (demo_nd_env 0 (demo_mac 9))) = 6" by (simp add: demo_nd_env_def demo_mac_def)
  from ipv6_too_big_reply [OF demo_nd_env_contract this, of ipv6_packet 26 idle_core "ipv6_packet\<lparr>pk_id := 9\<rparr>"]
  show ?thesis by (auto simp: idle_core_def demo_dp_def ipv6_packet_def)
qed

end
