(* ===== verification/Spec2Isabelle.thy ===== *)
theory Spec2Isabelle
  imports Tcp_Conntrack Snat_Props Ppp_Table Ppp_Term Ppp_Props Ppp_Run Dhcp6_Lease Dhcp6_Props
    Dns_Codec_Props Dns_Cache_Props Dns_Proxy_Props Dhcp4_Run Ipv6_Firewall_Run Mac_Table_Props Arp_Queue Nd6_Run
    Dp_Run
begin

text \<open>
  \<^bold>\<open>FastRG node: a verification library.\<close> The node is a residential gateway in C on DPDK. For every
  subscriber it keeps a control block (\<^verbatim>\<open>ppp_ccb_t\<close>) with a PPPoE session, a source NAT table, an IPv6
  firewall, an IPv6 prefix delegation client, a MAC table and a neighbour cache for the LAN, a DHCPv4 server
  with a DNS proxy, and the gates that let the data plane forward. The data plane is a set of polling loops,
  one per core, that move packets between the LAN port and the WAN port.

  \<^bold>\<open>Parts and theories.\<close>
  \<^item> \<open>FastRG_Prelude\<close>: machine integers, byte order, status values, collections of lemmas.
  \<^item> \<open>Dpdk\<close>: the contracts of \<^verbatim>\<open>rte_hash\<close> (with its deferred reclaim) and \<^verbatim>\<open>rte_ring\<close> that the tables rely on,
    as named predicates, and the list model that satisfies them.
  \<^item> \<open>Tcp_Conntrack\<close>: \<^verbatim>\<open>src/src/pppd/tcp_conntrack.c\<close> and \<^verbatim>\<open>.h\<close>, the TCP state table, its compiled index, the
    window check and the deadline of each state.
  \<^item> \<open>Snat\<close>, \<open>Snat_Inv\<close>, \<open>Snat_Props\<close>: \<^verbatim>\<open>src/src/pppd/nat.h\<close>, the entry pool, both hashes, learning, reverse lookup,
    garbage collection, teardown and port forwarding.
  \<^item> \<open>Ppp_State\<close>: the session part of \<^verbatim>\<open>ppp_ccb_t\<close> as a record, the timers, the frames and other effects,
    and the frame builders of \<^verbatim>\<open>src/src/pppd/codec.c\<close>.
  \<^item> \<open>Ppp_Fsm\<close>: \<^verbatim>\<open>src/src/pppd/fsm.c\<close>, both tables row by row, every action handler, and the teardown routines of
    \<^verbatim>\<open>src/src/pppd/pppd.c\<close> the handlers call.
  \<^item> \<open>Ppp_Codec\<close>: the decoders of \<^verbatim>\<open>codec.c\<close>, from \<^verbatim>\<open>PPP_decode_frame\<close> to the option walks, and the entry points
    of \<^verbatim>\<open>pppd.c\<close> (\<^verbatim>\<open>ppp_process\<close>, \<^verbatim>\<open>ppp_connect\<close>, \<^verbatim>\<open>ppp_disconnect\<close>, configuration).
  \<^item> \<open>Ppp_Table\<close>, \<open>Ppp_Term\<close>, \<open>Ppp_Inv\<close>, \<open>Ppp_Props\<close>, \<open>Ppp_Run\<close>: the search, RFC 1661, termination of the nested
    calls, invariants over every command, frame and timer, and whole runs.
  \<^item> \<open>Dhcp6\<close>, \<open>Dhcp6_Lease\<close>, \<open>Dhcp6_Props\<close>: \<^verbatim>\<open>src/src/dhcpd6/dhcpd6.c\<close> and the router advertisement timer of
    \<^verbatim>\<open>src/src/nd6/nd6.c\<close>.
  \<^item> \<open>Dns_Codec\<close>, \<open>Dns_Codec_Props\<close>: \<^verbatim>\<open>src/src/dnsd/dns_codec.c\<close>, names with compression, questions, records, and the answers
    the proxy builds.
  \<^item> \<open>Dns_Cache\<close>, \<open>Dns_Cache_Props\<close>: \<^verbatim>\<open>src/src/dnsd/dns_cache.c\<close>, and the map it implements as a locale.
  \<^item> \<open>Dns_Proxy\<close>, \<open>Dns_Proxy_Props\<close>: \<^verbatim>\<open>src/src/dnsd/dns_static.c\<close> and \<^verbatim>\<open>dnsd.c\<close>, static records, pending queries, failover and
    the handlers of LAN queries and WAN answers.
  \<^item> \<open>Dhcp4\<close>, \<open>Dhcp4_Inv\<close>, \<open>Dhcp4_Props\<close>, \<open>Dhcp4_Run\<close>: \<^verbatim>\<open>src/src/dhcpd\<close>, the address pool, the decoder and the replies of \<^verbatim>\<open>dhcp_codec.c\<close>,
    the table of \<^verbatim>\<open>dhcp_fsm.c\<close> and the entry points of \<^verbatim>\<open>dhcpd.c\<close>, with the mail loop of \<^verbatim>\<open>fastrg.c\<close> around them.
  \<^item> \<open>Ipv6_Firewall\<close>, \<open>Ipv6_Firewall_Inv\<close>, \<open>Ipv6_Firewall_Props\<close>, \<open>Ipv6_Firewall_Run\<close>: \<^verbatim>\<open>src/src/pppd/ipv6_firewall.h\<close>, the session
    pool with its hash and recency order, learning, the verdict on inbound packets, ICMPv6 errors.
  \<^item> \<open>Mac_Table\<close>, \<open>Slot_Hash\<close>, \<open>Mac_Table_Props\<close>, \<open>Arp_Queue\<close>: \<^verbatim>\<open>src/src/mac_table.h\<close> and \<^verbatim>\<open>mac_table.c\<close>, the stamped table of LAN
    hosts, the packets that wait for a MAC address, and the ARP request.
  \<^item> \<open>Nd6\<close>, \<open>Nd6_Props\<close>, \<open>Nd6_Wire\<close>, \<open>Nd6_Run\<close>: \<^verbatim>\<open>src/src/nd6/nd6.c\<close> and \<^verbatim>\<open>nd6_table.h\<close>, the neighbour cache, messages built and
    read, ageing.
  \<^item> \<open>Dp_Packet\<close>: \<^verbatim>\<open>src/src/dp.h\<close> and the queue functions of \<^verbatim>\<open>src/src/dp.c\<close>: buffers with their private area, counters, transmit queues and
    their owners, hand-off rings, the mailbox to the control plane (\<^verbatim>\<open>send2cp\<close>).
  \<^item> \<open>Dp_Ipv6\<close>: \<^verbatim>\<open>src/src/dp_ipv6.h\<close>, verdicts, encapsulation, decapsulation, Packet Too Big.
  \<^item> \<open>Dp_Codec\<close>: \<^verbatim>\<open>src/src/dp_codec.h\<close>, translation of UDP, TCP and ICMP in both directions, and the state of one subscriber as a
    data-plane core sees it (\<open>dp_ccb\<close>).
  \<^item> \<open>Dp_Loops\<close>: \<^verbatim>\<open>src/src/dp.c\<close>, what each loop does with a packet (\<^verbatim>\<open>wan_ctrl_rx\<close>, \<^verbatim>\<open>wan_data_rx\<close>, \<^verbatim>\<open>lan_ctrl_rx\<close>, \<^verbatim>\<open>lan_data_rx\<close>,
    \<^verbatim>\<open>wan_dist_rx\<close>, \<^verbatim>\<open>lan_dist_rx\<close> and their workers) and the end of a round.
  \<^item> \<open>Dp_Owner\<close>, \<open>Dp_Icmp\<close>, \<open>Dp_Nat\<close>, \<open>Dp_Run\<close>: ownership of buffers, ICMP checksums, a UDP datagram and its answer, and the
    same on a concrete gateway.

  \<^bold>\<open>How the parts interact.\<close> \<^verbatim>\<open>ppp_process\<close> decodes a frame into an event and runs the automaton; its actions
  build frames, arm timers and open or close the two data-plane gates. An open IPV6CP starts the DHCPv6
  client, whose lease completes the IPv6 gate. A loop parses the headers of a packet, finds its subscriber, and then
  hands it to the control plane by mailbox (PPPoE control, DHCP, DNS, neighbour discovery), or consults the gates and
  forwards it: IPv4 through the NAT table and connection tracking, IPv6 through the firewall. Towards the LAN the
  destination is resolved in the NAT entry, the MAC table or the neighbour cache; without an answer the packet waits
  in the ARP queue or goes to neighbour discovery as a miss. A core that does not own a transmit queue puts the
  packet on the ring of the owner. The DNS proxy answers LAN queries itself or forwards them over the session once
  its gate is open.

  \<^bold>\<open>State and effects.\<close> Each operation takes the record and returns it updated; frames, Kafka reports and calls
  into components that are not modelled are appended to the list \<open>effects\<close>. The outside world of a call
  (clock, random numbers, allocation, MD5) is an environment record, read once per operation. Code outside the
  repository is a parameter. Operations of different threads on one subscriber are steps that do not overlap:
  the NAT insert lock and the single control thread make them so for writers, and the lock-free readers are
  covered by the deferred reclaim in the contract of the hash (\<open>Dpdk\<close>). A packet in the data plane is memory with the
  offsets the code computes; its identity is kept, so that a buffer that is lost or given back twice shows. A step of
  a loop is about the subscriber the packet belongs to. What DPDK calls return (allocation, room in front of
  a packet, packets a port accepts) is part of the environment of the step.

  \<^bold>\<open>Bounds.\<close> The NAT port walk visits each of the 64,536 usable ports at most once; its bound is shown to be enough. \<open>PPP_FSM\<close>
  takes fuel for its nested calls; six levels are enough for every input and more change nothing. The loops over
  DPDK containers (\<^verbatim>\<open>mac_table_iterate\<close>, the flush of the ARP queue, the ageing of neighbours) are partial functions, and
  shown to return under the contract of the container. The firewall has a pool of 65,536 sessions and the ARP queue a
  ring of 63 packets, as in the code; a table stamp has 16 bits, so the refinement of the MAC table holds for fewer
  than 65,536 resets. All other loops recurse on the bytes they consume.

  \<^bold>\<open>What the lemmas show.\<close> For the tables: every slot is accounted for, live flows survive learning, replies find
  their flow, ports are usable, lookups behave on every branch. For the session: the gates mean what they say
  in every reachable state, answers are matched to requests, unknown options are rejected, teardown is complete, hanging
  up ends. For DHCPv6: parsing inverts encoding, foreign messages change nothing, the LAN prefix has
  the delegated bits. For DNS: built answers parse back, names stay in their buffers, the cache is a map with expiry, a
  relayed answer reaches the client that asked and nobody else, every query is resolved in a fixed order. For DHCPv4: the pool
  is well formed in every reachable state, replies carry usable addresses, a new client gets a lease and loses it at its end; two
  runs that go wrong are shown too. For the firewall: unsolicited packets are denied, answers admitted, nothing read outside
  the packet, and the pool implements a map of sessions. For the LAN tables: they are maps, the ARP queue is a bounded
  buffer, only verified on-link neighbours are learned, and silent ones leave. For the data plane: on every
  branch of every loop a buffer has one owner afterwards, with one double free shown; an IPv6 packet comes out of
  the tunnel as it went in; the answer to a UDP datagram reaches the host that sent it; adjusted ICMP checksums are those
  of the whole message, with one exception.

  \<^bold>\<open>Not modelled.\<close> Of \<^verbatim>\<open>dp.c\<close>: port set-up and close, creation of the hand-off rings, the transmit functions of the
  control thread, the calls into the distributor library, prefetching, usage counters and the registration of cores
  with RCU. Northbound clients, command line, configuration files, metrics, capture and start-up, which are I/O;
  memory reuse after free, which the deferred reclaim stands for.
\<close>

end
